(* ===== verification/JS_Prelude.thy ===== *)
theory JS_Prelude
  imports Complex_Main
begin

text \<open>
  Shared vocabulary of the development: the part of the JavaScript string and array library that
  the web client of LemonHub uses, errors as values, and the generic lemmas the component
  theories rest on.

  A JavaScript string is a list of code units.  The model uses Isabelle's \<^typ>\<open>string\<close>, so it
  covers strings whose code units are at most 255 (Latin-1); code units above that range are
  outside the model.  A thrown \<open>Error\<close> is \<open>Inl message\<close>, a returned value is \<open>Inr value\<close>.
\<close>

section \<open>Collections of facts\<close>

named_theorems js_string_simps \<open>evaluation and normal forms of the string operations\<close>
named_theorems char_class_simps \<open>unfolding of the character classes\<close>

section \<open>Errors as values\<close>

type_synonym 'a exn = "string + 'a"

text \<open>Sequencing: a throw of the first computation skips the second.\<close>

definition bind_exn :: "'a exn \<Rightarrow> ('a \<Rightarrow> 'b exn) \<Rightarrow> 'b exn" where
  "bind_exn m k = (case m of Inl e \<Rightarrow> Inl e | Inr x \<Rightarrow> k x)"

lemma bind_exn_simps [simp]:
  "bind_exn (Inl e) k = Inl e"
  "bind_exn (Inr x) k = k x"
  by (simp_all add: bind_exn_def)

lemma bind_exn_eq_Inr [simp]:
  "bind_exn m k = Inr y \<longleftrightarrow> (\<exists>x. m = Inr x \<and> k x = Inr y)"
  by (cases m) auto

lemma bind_exn_pair_eq_Inr [simp]:
  "bind_exn m (\<lambda>(a, b). k a b) = Inr y \<longleftrightarrow> (\<exists>a b. m = Inr (a, b) \<and> k a b = Inr y)"
  by (cases m) (auto split: prod.splits)

lemma bind_exn_eq_Inl:
  "bind_exn m k = Inl e \<longleftrightarrow> m = Inl e \<or> (\<exists>x. m = Inr x \<and> k x = Inl e)"
  by (cases m) auto

lemma bind_exn_cong [fundef_cong]:
  "\<lbrakk> m = m'; \<And>x. m' = Inr x \<Longrightarrow> k x = k' x \<rbrakk> \<Longrightarrow> bind_exn m k = bind_exn m' k'"
  by (cases m') auto

text \<open>
  \<open>try { return f() } catch { return d }\<close>.
\<close>

definition catch_exn :: "'a exn \<Rightarrow> 'a \<Rightarrow> 'a" where
  "catch_exn m d = (case m of Inl e \<Rightarrow> d | Inr x \<Rightarrow> x)"

lemma catch_exn_simps [simp]:
  "catch_exn (Inl e) d = d"
  "catch_exn (Inr x) d = x"
  by (simp_all add: catch_exn_def)

text \<open>
  \<open>map\<close>, \<open>filter\<close>, \<open>findIndex\<close> and \<open>some\<close> with a callback that may throw; the last two stop at the first hit.
\<close>

fun map_exn :: "('a \<Rightarrow> 'b exn) \<Rightarrow> 'a list \<Rightarrow> 'b list exn" where
  "map_exn f [] = Inr []"
| "map_exn f (x # xs) = bind_exn (f x) (\<lambda>y. bind_exn (map_exn f xs) (\<lambda>ys. Inr (y # ys)))"

fun filter_exn :: "('a \<Rightarrow> bool exn) \<Rightarrow> 'a list \<Rightarrow> 'a list exn" where
  "filter_exn p [] = Inr []"
| "filter_exn p (x # xs) = bind_exn (p x) (\<lambda>b. bind_exn (filter_exn p xs) (\<lambda>ys. Inr (if b then x # ys else ys)))"

fun find_index_exn :: "('a \<Rightarrow> bool exn) \<Rightarrow> 'a list \<Rightarrow> nat option exn" where
  "find_index_exn p [] = Inr None"
| "find_index_exn p (x # xs) =
     bind_exn (p x) (\<lambda>b. if b then Inr (Some 0) else bind_exn (find_index_exn p xs) (\<lambda>i. Inr (map_option Suc i)))"

fun some_exn :: "('a \<Rightarrow> bool exn) \<Rightarrow> 'a list \<Rightarrow> bool exn" where
  "some_exn p [] = Inr False"
| "some_exn p (x # xs) = bind_exn (p x) (\<lambda>b. if b then Inr True else some_exn p xs)"

lemma map_exn_total: "(\<And>x. x \<in> set xs \<Longrightarrow> f x = Inr (g x)) \<Longrightarrow> map_exn f xs = Inr (map g xs)"
  by (induction xs) auto

lemma filter_exn_total: "(\<And>x. x \<in> set xs \<Longrightarrow> p x = Inr (q x)) \<Longrightarrow> filter_exn p xs = Inr (filter q xs)"
  by (induction xs) auto

lemma some_exn_total: "(\<And>x. x \<in> set xs \<Longrightarrow> p x = Inr (q x)) \<Longrightarrow> some_exn p xs = Inr (list_ex q xs)"
  by (induction xs) auto

text \<open>\<open>a ?? d\<close> on a value that may be \<open>undefined\<close> or \<open>null\<close>.\<close>

definition coalesce :: "'a option \<Rightarrow> 'a \<Rightarrow> 'a" where
  "coalesce x d = (case x of None \<Rightarrow> d | Some v \<Rightarrow> v)"

lemma coalesce_simps [simp]: "coalesce None d = d" "coalesce (Some v) d = v"
  by (simp_all add: coalesce_def)

section \<open>Characters\<close>

abbreviation dquote :: char where "dquote \<equiv> CHR 0x22"
abbreviation backslash :: char where "backslash \<equiv> CHR 0x5C"

text \<open>The code unit of a character, as an integer.\<close>

definition ordc :: "char \<Rightarrow> int" where
  "ordc c = of_char c"

lemma ordc_inject [simp]: "ordc c = ordc d \<longleftrightarrow> c = d"
  by (simp add: ordc_def)

lemma ordc_bounds: "0 \<le> ordc c" "ordc c < 256"
proof -
  have "(of_char c :: int) = int (of_char c)" by (rule of_nat_of_char [symmetric])
  moreover have "(of_char c :: nat) < 256" by (rule nat_of_char_less_256)
  ultimately show "0 \<le> ordc c" "ordc c < 256" unfolding ordc_def by linarith+
qed

lemma ordc_char_of: "n < 256 \<Longrightarrow> ordc (char_of n) = int n"
  by (metis mod_less of_char_of of_nat_of_char ordc_def)

text \<open>\<open>\d\<close>, \<open>[A-Za-z_]\<close>, \<open>\w\<close> and \<open>\s\<close> (on code units below 256).\<close>

definition is_digit :: "char \<Rightarrow> bool" where
  "is_digit c \<longleftrightarrow> 48 \<le> ordc c \<and> ordc c \<le> 57"

definition is_alpha_us :: "char \<Rightarrow> bool" where
  "is_alpha_us c \<longleftrightarrow>
     65 \<le> ordc c \<and> ordc c \<le> 90 \<or> 97 \<le> ordc c \<and> ordc c \<le> 122 \<or> ordc c = 95"

definition is_word :: "char \<Rightarrow> bool" where
  "is_word c \<longleftrightarrow> is_digit c \<or> is_alpha_us c"

definition is_ws :: "char \<Rightarrow> bool" where
  "is_ws c \<longleftrightarrow> 9 \<le> ordc c \<and> ordc c \<le> 13 \<or> ordc c = 32 \<or> ordc c = 160"

lemmas [char_class_simps] = is_digit_def is_alpha_us_def is_word_def is_ws_def

lemma digit_not_ws: "is_digit c \<Longrightarrow> \<not> is_ws c"
  by (auto simp: char_class_simps)

lemma word_not_ws: "is_word c \<Longrightarrow> \<not> is_ws c"
  by (auto simp: char_class_simps)

section \<open>Strings\<close>

text \<open>\<open>s.trim()\<close>.\<close>

definition js_trim :: "string \<Rightarrow> string" where
  "js_trim s = rev (dropWhile is_ws (rev (dropWhile is_ws s)))"

text \<open>\<open>s.slice(i, j)\<close> for \<open>0 \<le> i \<le> j \<le> s.length\<close>.\<close>

definition js_slice :: "string \<Rightarrow> nat \<Rightarrow> nat \<Rightarrow> string" where
  "js_slice s i j = take (j - i) (drop i s)"

text \<open>\<open>s.startsWith(p)\<close>, \<open>s.includes(p)\<close>.\<close>

fun js_starts_with :: "string \<Rightarrow> string \<Rightarrow> bool" where
  "js_starts_with s [] = True"
| "js_starts_with [] (p # ps) = False"
| "js_starts_with (c # s) (p # ps) = (c = p \<and> js_starts_with s ps)"

fun js_includes :: "string \<Rightarrow> string \<Rightarrow> bool" where
  "js_includes [] p = (p = [])"
| "js_includes (c # s) p = (js_starts_with (c # s) p \<or> js_includes s p)"

text \<open>\<open>s.toLowerCase()\<close> on Latin-1 text.\<close>

definition char_to_lower :: "char \<Rightarrow> char" where
  "char_to_lower c =
     (let n = of_char c :: nat in
      if 65 \<le> n \<and> n \<le> 90 \<or> 192 \<le> n \<and> n \<le> 222 \<and> n \<noteq> 215 then char_of (n + 32) else c)"

definition js_to_lower :: "string \<Rightarrow> string" where
  "js_to_lower s = map char_to_lower s"

text \<open>\<open>xs.join(sep)\<close>.\<close>

fun js_join :: "string \<Rightarrow> string list \<Rightarrow> string" where
  "js_join sep [] = []"
| "js_join sep [x] = x"
| "js_join sep (x # y # xs) = x @ sep @ js_join sep (y # xs)"

text \<open>\<open>s.split(c)\<close> on a one-character separator.\<close>

fun js_split :: "char \<Rightarrow> string \<Rightarrow> string list" where
  "js_split c [] = [[]]"
| "js_split c (x # s) =
     (if x = c then [] # js_split c s
      else (case js_split c s of [] \<Rightarrow> [[x]] | w # ws \<Rightarrow> (x # w) # ws))"

lemma js_starts_with_iff: "js_starts_with s p \<longleftrightarrow> (\<exists>t. s = p @ t)"
  by (induction s p rule: js_starts_with.induct) auto

lemma js_starts_with_append [simp]: "js_starts_with (p @ t) p"
  by (auto simp: js_starts_with_iff)

lemma js_includes_iff: "js_includes s p \<longleftrightarrow> (\<exists>u t. s = u @ p @ t)"
proof (induction s p rule: js_includes.induct)
  case (2 c s p)
  show ?case
  proof
    assume "js_includes (c # s) p"
    then consider "js_starts_with (c # s) p" | "js_includes s p" by auto
    then show "\<exists>u t. c # s = u @ p @ t"
    proof cases
      case 1
      then show ?thesis by (auto simp: js_starts_with_iff intro: exI [of _ "[]"])
    next
      case 2
      with "2.IH" obtain u t where "s = u @ p @ t" by blast
      then have "c # s = (c # u) @ p @ t" by simp
      then show ?thesis by blast
    qed
  next
    assume "\<exists>u t. c # s = u @ p @ t"
    then obtain u t where eq: "c # s = u @ p @ t" by blast
    show "js_includes (c # s) p"
    proof (cases u)
      case Nil
      with eq have "js_starts_with (c # s) p" by (auto simp: js_starts_with_iff)
      then show ?thesis by simp
    next
      case (Cons a u')
      with eq "2.IH" show ?thesis by auto
    qed
  qed
qed auto

lemma js_join_member: "y \<in> set ys \<Longrightarrow> \<exists>u v. js_join sep ys = u @ y @ v"
proof (induction sep ys rule: js_join.induct)
  case (3 sep x z ys)
  show ?case
  proof (cases "y = x")
    case True
    then have "js_join sep (x # z # ys) = [] @ y @ (sep @ js_join sep (z # ys))" by simp
    then show ?thesis by blast
  next
    case False
    then obtain u v where "js_join sep (z # ys) = u @ y @ v" using 3 by auto
    then show ?thesis by (intro exI [of _ "x @ sep @ u"] exI [of _ v]) simp
  qed
qed (auto intro: exI [of _ "[]"])

lemma js_split_ne_Nil [simp]: "js_split c s \<noteq> []"
  by (induction s) (auto split: list.splits)

lemma js_split_join: "js_join [c] (js_split c s) = s"
proof (induction s)
  case (Cons x s)
  obtain w ws where w: "js_split c s = w # ws" by (cases "js_split c s") auto
  with Cons.IH show ?case by (cases ws) auto
qed simp

lemma js_split_no_sep: "w \<in> set (js_split c s) \<Longrightarrow> c \<notin> set w"
proof (induction s arbitrary: w)
  case (Cons x s)
  obtain v vs where "js_split c s = v # vs" by (cases "js_split c s") auto
  with Cons show ?case by (auto split: if_splits)
qed auto

text \<open>Trimming.\<close>

definition trimmed :: "string \<Rightarrow> bool" where
  "trimmed s \<longleftrightarrow> s = [] \<or> \<not> is_ws (hd s) \<and> \<not> is_ws (last s)"

lemma dropWhile_hd: "dropWhile P s \<noteq> [] \<Longrightarrow> \<not> P (hd (dropWhile P s))"
  by (rule hd_dropWhile)

lemma dropWhile_id: "s = [] \<or> \<not> P (hd s) \<Longrightarrow> dropWhile P s = s"
  by (cases s) auto

lemma js_trim_id: "trimmed s \<Longrightarrow> js_trim s = s"
  unfolding trimmed_def js_trim_def
  by (auto simp: dropWhile_id hd_rev)

lemma trimmed_js_trim [simp]: "trimmed (js_trim s)"
proof -
  let ?a = "dropWhile is_ws s"
  let ?b = "dropWhile is_ws (rev ?a)"
  have "?b = [] \<or> \<not> is_ws (hd (rev ?b)) \<and> \<not> is_ws (last (rev ?b))"
  proof (cases "?b = []")
    case False
    have last: "\<not> is_ws (hd ?b)" using False by (rule hd_dropWhile)
    have "?a \<noteq> []" using False by (cases "?a = []") simp_all
    then have h: "\<not> is_ws (hd ?a)" by (rule hd_dropWhile)
    obtain pre where pre: "rev ?a = pre @ ?b"
      by (metis takeWhile_dropWhile_id)
    have "last ?b = last (rev ?a)" using False pre by (metis last_append)
    also have "\<dots> = hd ?a" using \<open>?a \<noteq> []\<close> by (simp add: last_rev)
    finally show ?thesis using last h False by (simp add: hd_rev last_rev)
  qed simp
  then show ?thesis unfolding trimmed_def js_trim_def by auto
qed

lemma js_trim_idem [simp]: "js_trim (js_trim s) = js_trim s"
  by (rule js_trim_id) simp

lemma js_trim_Nil [simp]: "js_trim [] = []"
  by (simp add: js_trim_def)

text \<open>Slices.\<close>

lemma js_slice_append:
  "\<lbrakk> i \<le> j; j \<le> k \<rbrakk> \<Longrightarrow> js_slice s i j @ js_slice s j k = js_slice s i k"
proof -
  assume "i \<le> j" "j \<le> k"
  then have "k - i = (j - i) + (k - j)" by simp
  then have "js_slice s i k = take (j - i) (drop i s) @ take (k - j) (drop (j - i) (drop i s))"
    unfolding js_slice_def by (simp only: take_add)
  also have "drop (j - i) (drop i s) = drop j s" using \<open>i \<le> j\<close> by simp
  finally show ?thesis by (simp add: js_slice_def)
qed

lemma js_slice_full [simp]: "js_slice s 0 (length s) = s"
  by (simp add: js_slice_def)

lemma js_slice_empty [simp]: "js_slice s i i = []"
  by (simp add: js_slice_def)

lemma length_js_slice: "j \<le> length s \<Longrightarrow> length (js_slice s i j) = j - i"
  by (simp add: js_slice_def)

section \<open>Lists\<close>

text \<open>\<open>xs[i]\<close>, \<open>undefined\<close> out of range.\<close>

definition nth_opt :: "'a list \<Rightarrow> nat \<Rightarrow> 'a option" where
  "nth_opt xs i = (if i < length xs then Some (xs ! i) else None)"

text \<open>\<open>xs.every(f)\<close> and \<open>xs.some(f)\<close> are \<^const>\<open>list_all\<close> and \<^const>\<open>list_ex\<close>;
  \<open>xs.find(f)\<close> and \<open>xs.findIndex(f)\<close> (\<open>None\<close> for \<open>-1\<close>):\<close>

fun find_index :: "('a \<Rightarrow> bool) \<Rightarrow> 'a list \<Rightarrow> nat option" where
  "find_index P [] = None"
| "find_index P (x # xs) = (if P x then Some 0 else map_option Suc (find_index P xs))"

lemma find_index_Some:
  "find_index P xs = Some i \<Longrightarrow> i < length xs \<and> P (xs ! i) \<and> (\<forall>j < i. \<not> P (xs ! j))"
proof (induction xs arbitrary: i)
  case (Cons x xs)
  show ?case
  proof (cases "P x")
    case False
    with Cons.prems obtain k where k: "find_index P xs = Some k" "i = Suc k" by auto
    with Cons.IH [OF k(1)] False show ?thesis by (auto simp: less_Suc_eq_0_disj)
  qed (use Cons.prems in auto)
qed simp

lemma find_index_None: "find_index P xs = None \<longleftrightarrow> (\<forall>x \<in> set xs. \<not> P x)"
  by (induction xs) auto

lemma find_index_exn_total: "(\<And>x. x \<in> set xs \<Longrightarrow> p x = Inr (q x)) \<Longrightarrow> find_index_exn p xs = Inr (find_index q xs)"
  by (induction xs) auto

text \<open>\<open>Array.from(new Set(xs))\<close>: the first occurrence of every element, in order.\<close>

definition js_unique :: "'a list \<Rightarrow> 'a list" where
  "js_unique xs = rev (remdups (rev xs))"

lemma set_js_unique [simp]: "set (js_unique xs) = set xs"
  by (simp add: js_unique_def)

lemma distinct_js_unique [simp]: "distinct (js_unique xs)"
  by (simp add: js_unique_def)

lemma js_unique_distinct: "distinct xs \<Longrightarrow> js_unique xs = xs"
  by (simp add: js_unique_def distinct_remdups_id)

text \<open>
  A JavaScript object used as a dictionary keeps its keys in insertion order; assigning to an
  existing key keeps the key's position.  (Keys that look like array indices, which JavaScript
  orders first, do not occur in the dictionaries modelled here.)
\<close>

fun obj_set :: "'k \<Rightarrow> 'v \<Rightarrow> ('k \<times> 'v) list \<Rightarrow> ('k \<times> 'v) list" where
  "obj_set k v [] = [(k, v)]"
| "obj_set k v ((k', v') # kvs) =
     (if k = k' then (k, v) # kvs else (k', v') # obj_set k v kvs)"

lemma map_of_obj_set [simp]: "map_of (obj_set k v kvs) = (map_of kvs)(k \<mapsto> v)"
  by (induction kvs) (auto simp: fun_eq_iff)

lemma set_keys_obj_set [simp]: "fst ` set (obj_set k v kvs) = insert k (fst ` set kvs)"
  by (induction k v kvs rule: obj_set.induct) auto

lemma distinct_keys_obj_set [simp]:
  "distinct (map fst kvs) \<Longrightarrow> distinct (map fst (obj_set k v kvs))"
  by (induction k v kvs rule: obj_set.induct) auto

lemma obj_set_new: "k \<notin> fst ` set kvs \<Longrightarrow> obj_set k v kvs = kvs @ [(k, v)]"
  by (induction k v kvs rule: obj_set.induct) auto

text \<open>\<open>delete o[k]\<close>\<close>

definition obj_delete :: "'k \<Rightarrow> ('k \<times> 'v) list \<Rightarrow> ('k \<times> 'v) list" where
  "obj_delete k kvs = filter (\<lambda>kv. fst kv \<noteq> k) kvs"

lemma map_of_obj_delete [simp]: "map_of (obj_delete k kvs) = (map_of kvs)(k := None)"
  by (induction kvs) (auto simp: obj_delete_def)

lemma map_of_filter_keys: "map_of (filter (\<lambda>kv. P (fst kv)) kvs) k = (if P k then map_of kvs k else None)"
  by (induction kvs) auto

lemma obj_delete_keys: "fst ` set (obj_delete k kvs) = fst ` set kvs - {k}"
  by (auto simp: obj_delete_def)

lemma obj_set_not_Nil [simp]: "obj_set k v kvs \<noteq> []"
  by (cases "(k, v, kvs)" rule: obj_set.cases) auto

lemma distinct_filter_keys: "distinct (map fst kvs) \<Longrightarrow> distinct (map fst (filter P kvs))"
  by (induction kvs) auto

lemma distinct_obj_delete [simp]: "distinct (map fst kvs) \<Longrightarrow> distinct (map fst (obj_delete k kvs))"
  by (simp add: obj_delete_def distinct_filter_keys)

text \<open>Splitting what was joined.\<close>

lemma js_split_one: "c \<notin> set a \<Longrightarrow> js_split c a = [a]"
  by (induction a) auto

lemma js_split_append: "c \<notin> set a \<Longrightarrow> js_split c (a @ c # s) = a # js_split c s"
  by (induction a) auto

lemma js_split_joined: "xs \<noteq> [] \<Longrightarrow> (\<And>x. x \<in> set xs \<Longrightarrow> c \<notin> set x) \<Longrightarrow> js_split c (js_join [c] xs) = xs"
proof (induction "[c]" xs rule: js_join.induct)
  case (3 x y xs)
  then show ?case using js_split_append [of c x "js_join [c] (y # xs)"] by simp
qed (simp_all add: js_split_one)

lemma js_trim_no_ws: "\<forall>c \<in> set s. \<not> is_ws c \<Longrightarrow> js_trim s = s"
proof -
  assume no: "\<forall>c \<in> set s. \<not> is_ws c"
  have "dropWhile is_ws xs = xs" if "\<forall>c \<in> set xs. \<not> is_ws c" for xs using that by (cases xs) auto
  from this [of s] this [of "rev s"] no show ?thesis by (simp add: js_trim_def)
qed

lemma js_join_chars: "c \<in> set (js_join sep xs) \<Longrightarrow> c \<in> set sep \<or> (\<exists>x \<in> set xs. c \<in> set x)"
  by (induction sep xs rule: js_join.induct) auto

text \<open>Sorting and searching commute with a map that the key does not see.\<close>

lemma insort_key_map: "insort_key f (g x) (map g xs) = map g (insort_key (\<lambda>y. f (g y)) x xs)"
  by (induction xs) simp_all

lemma sort_key_map: "sort_key f (map g xs) = map g (sort_key (\<lambda>y. f (g y)) xs)"
  by (induction xs) (simp_all add: insort_key_map)

lemma find_index_map: "find_index P (map g xs) = find_index (\<lambda>x. P (g x)) xs"
  by (induction xs) simp_all

end
