(* ===== verification/JS_Number.thy ===== *)
theory JS_Number
  imports JS_Prelude
begin

text \<open>
  JavaScript numbers: IEEE 754 binary64 values with the operations the web client uses.

  A finite value other than \<open>-0\<close> is \<open>Fin q\<close> with the rational it denotes (\<open>+0\<close> is \<open>Fin 0\<close>).
  \<open>fl\<close> rounds a rational to the nearest binary64 value, ties to even, with gradual underflow and
  overflow to infinity, and every arithmetic operation is the exact operation followed by \<open>fl\<close>,
  as IEEE 754 prescribes.  \<open>js_number\<close> is \<open>Number(s)\<close> and \<open>js_num_to_string\<close> is
  \<open>String(v)\<close> of ECMAScript.
\<close>

section \<open>Values\<close>

datatype jsnum = NaN | PInf | NInf | NegZero | Fin rat

fun is_finite :: "jsnum \<Rightarrow> bool" where
  "is_finite (Fin q) = True"
| "is_finite NegZero = True"
| "is_finite _ = False"

text \<open>The rational value of a finite number, and the sign bit.\<close>

fun rv :: "jsnum \<Rightarrow> rat" where
  "rv (Fin q) = q"
| "rv _ = 0"

fun is_neg :: "jsnum \<Rightarrow> bool" where
  "is_neg (Fin q) = (q < 0)"
| "is_neg NegZero = True"
| "is_neg NInf = True"
| "is_neg _ = False"

section \<open>Rounding to binary64\<close>

fun ilog2 :: "int \<Rightarrow> int" where
  "ilog2 n = (if n \<le> 1 then 0 else 1 + ilog2 (n div 2))"

declare ilog2.simps [simp del]

definition pow2 :: "int \<Rightarrow> rat" where
  "pow2 e = (if 0 \<le> e then 2 ^ nat e else 1 / 2 ^ nat (- e))"

definition round_half_even :: "rat \<Rightarrow> int" where
  "round_half_even q =
     (let f = \<lfloor>q\<rfloor>; r = q - of_int f
      in if r < 1 / 2 then f else if 1 / 2 < r then f + 1 else if even f then f else f + 1)"

text \<open>\<open>flog2 q\<close> is the exponent of a positive rational: the \<open>e\<close> with
  \<open>2\<^sup>e \<le> q < 2\<^sup>e\<^sup>+\<^sup>1\<close>.\<close>

definition flog2 :: "rat \<Rightarrow> int" where
  "flog2 q = (let (n, d) = quotient_of q; g = ilog2 n - ilog2 d
              in if pow2 g \<le> q then g else g - 1)"

definition fl :: "rat \<Rightarrow> jsnum" where
  "fl q = (if q = 0 then Fin 0
     else let e = flog2 \<bar>q\<bar>; u = max (e - 52) (- 1074); m = round_half_even (\<bar>q\<bar> / pow2 u)
       in if e > 1023 \<or> e = 1023 \<and> m = 9007199254740992 then (if q < 0 then NInf else PInf)
          else if m = 0 then (if q < 0 then NegZero else Fin 0)
          else Fin (sgn q * of_int m * pow2 u))"

section \<open>Arithmetic and comparison\<close>

definition signed_zero :: "bool \<Rightarrow> jsnum" where
  "signed_zero neg = (if neg then NegZero else Fin 0)"

definition signed_inf :: "bool \<Rightarrow> jsnum" where
  "signed_inf neg = (if neg then NInf else PInf)"

fun js_neg :: "jsnum \<Rightarrow> jsnum" where
  "js_neg NaN = NaN"
| "js_neg PInf = NInf"
| "js_neg NInf = PInf"
| "js_neg NegZero = Fin 0"
| "js_neg (Fin q) = (if q = 0 then NegZero else Fin (- q))"

definition js_add :: "jsnum \<Rightarrow> jsnum \<Rightarrow> jsnum" where
  "js_add x y =
     (if x = NaN \<or> y = NaN then NaN
      else if \<not> is_finite x then (if \<not> is_finite y \<and> x \<noteq> y then NaN else x)
      else if \<not> is_finite y then y
      else if x = NegZero \<and> y = NegZero then NegZero
      else fl (rv x + rv y))"

definition js_sub :: "jsnum \<Rightarrow> jsnum \<Rightarrow> jsnum" where
  "js_sub x y = js_add x (js_neg y)"

definition js_mul :: "jsnum \<Rightarrow> jsnum \<Rightarrow> jsnum" where
  "js_mul x y =
     (let neg = (is_neg x \<noteq> is_neg y)
      in if x = NaN \<or> y = NaN then NaN
         else if \<not> is_finite x then (if is_finite y \<and> rv y = 0 then NaN else signed_inf neg)
         else if \<not> is_finite y then (if rv x = 0 then NaN else signed_inf neg)
         else if rv x = 0 \<or> rv y = 0 then signed_zero neg
         else fl (rv x * rv y))"

definition js_div :: "jsnum \<Rightarrow> jsnum \<Rightarrow> jsnum" where
  "js_div x y =
     (let neg = (is_neg x \<noteq> is_neg y)
      in if x = NaN \<or> y = NaN then NaN
         else if \<not> is_finite x then (if \<not> is_finite y then NaN else signed_inf neg)
         else if \<not> is_finite y then signed_zero neg
         else if rv y = 0 then (if rv x = 0 then NaN else signed_inf neg)
         else if rv x = 0 then signed_zero neg
         else fl (rv x / rv y))"

text \<open>The remainder is exact: the quotient is truncated towards zero.\<close>

definition trunc_rat :: "rat \<Rightarrow> int" where
  "trunc_rat q = (if 0 \<le> q then \<lfloor>q\<rfloor> else \<lceil>q\<rceil>)"

definition js_mod :: "jsnum \<Rightarrow> jsnum \<Rightarrow> jsnum" where
  "js_mod x y =
     (if x = NaN \<or> y = NaN \<or> \<not> is_finite x then NaN
      else if \<not> is_finite y then x
      else if rv y = 0 then NaN
      else if rv x = 0 then x
      else let r = rv x - rv y * of_int (trunc_rat (rv x / rv y))
           in if r = 0 then signed_zero (is_neg x) else Fin r)"

text \<open>\<open>x < y\<close>, \<open>x <= y\<close> and \<open>x === y\<close>: every comparison with \<open>NaN\<close> is false.\<close>

fun js_lt :: "jsnum \<Rightarrow> jsnum \<Rightarrow> bool" where
  "js_lt NaN y = False"
| "js_lt x NaN = False"
| "js_lt PInf y = False"
| "js_lt x NInf = False"
| "js_lt NInf y = True"
| "js_lt x PInf = True"
| "js_lt x y = (rv x < rv y)"

fun js_eq :: "jsnum \<Rightarrow> jsnum \<Rightarrow> bool" where
  "js_eq NaN y = False"
| "js_eq x NaN = False"
| "js_eq PInf y = (y = PInf)"
| "js_eq NInf y = (y = NInf)"
| "js_eq x PInf = False"
| "js_eq x NInf = False"
| "js_eq x y = (rv x = rv y)"

definition js_le :: "jsnum \<Rightarrow> jsnum \<Rightarrow> bool" where
  "js_le x y \<longleftrightarrow> js_lt x y \<or> js_eq x y"

text \<open>\<open>Number.isInteger\<close>, and \<open>v || 0\<close> on a number (\<open>NaN\<close> and the zeros are falsy).\<close>

definition is_integer :: "jsnum \<Rightarrow> bool" where
  "is_integer x \<longleftrightarrow> is_finite x \<and> of_int \<lfloor>rv x\<rfloor> = rv x"

definition num_truthy :: "jsnum \<Rightarrow> bool" where
  "num_truthy x \<longleftrightarrow> x \<noteq> NaN \<and> \<not> js_eq x (Fin 0)"

definition num_or_zero :: "jsnum \<Rightarrow> jsnum" where
  "num_or_zero x = (if num_truthy x then x else Fin 0)"

text \<open>\<open>Math.max\<close>, \<open>Math.min\<close> (any number of arguments), \<open>Math.abs\<close>, \<open>Math.floor\<close>,
  \<open>Math.ceil\<close>.\<close>

definition js_max2 :: "jsnum \<Rightarrow> jsnum \<Rightarrow> jsnum" where
  "js_max2 x y =
     (if x = NaN \<or> y = NaN then NaN
      else if js_lt x y then y else if js_lt y x then x
      else if x = NegZero then y else x)"

definition js_min2 :: "jsnum \<Rightarrow> jsnum \<Rightarrow> jsnum" where
  "js_min2 x y =
     (if x = NaN \<or> y = NaN then NaN
      else if js_lt x y then x else if js_lt y x then y
      else if x = NegZero then x else y)"

definition js_max :: "jsnum list \<Rightarrow> jsnum" where
  "js_max xs = foldl js_max2 NInf xs"

definition js_min :: "jsnum list \<Rightarrow> jsnum" where
  "js_min xs = foldl js_min2 PInf xs"

definition js_abs :: "jsnum \<Rightarrow> jsnum" where
  "js_abs x = (if is_neg x then js_neg x else x)"

definition js_floor :: "jsnum \<Rightarrow> jsnum" where
  "js_floor x = (case x of Fin q \<Rightarrow> Fin (of_int \<lfloor>q\<rfloor>) | _ \<Rightarrow> x)"

definition js_ceil :: "jsnum \<Rightarrow> jsnum" where
  "js_ceil x =
     (case x of Fin q \<Rightarrow> (if \<lceil>q\<rceil> = 0 then signed_zero (q < 0) else Fin (of_int \<lceil>q\<rceil>))
      | _ \<Rightarrow> x)"

section \<open>Number(s)\<close>

definition digit_val :: "char \<Rightarrow> int" where
  "digit_val c = ordc c - 48"

fun dec_value :: "int \<Rightarrow> string \<Rightarrow> int" where
  "dec_value a [] = a"
| "dec_value a (c # s) = dec_value (10 * a + digit_val c) s"

definition pow10 :: "int \<Rightarrow> rat" where
  "pow10 e = (if 0 \<le> e then 10 ^ nat e else 1 / 10 ^ nat (- e))"

text \<open>
  The decimal literals \<open>StrUnsignedDecimalLiteral\<close>: digits with an optional point and more
  digits, or a point and digits, then an optional exponent.
\<close>

definition exponent_part :: "string \<Rightarrow> int option" where
  "exponent_part s =
     (case s of [] \<Rightarrow> Some 0
      | c # t \<Rightarrow>
        if c = CHR ''e'' \<or> c = CHR ''E'' then
          (let neg = (t \<noteq> [] \<and> hd t = CHR ''-'');
               ds = (if t \<noteq> [] \<and> (hd t = CHR ''-'' \<or> hd t = CHR ''+'') then tl t else t)
           in if ds \<noteq> [] \<and> list_all is_digit ds
              then Some (if neg then - dec_value 0 ds else dec_value 0 ds) else None)
        else None)"

definition unsigned_decimal :: "string \<Rightarrow> rat option" where
  "unsigned_decimal s =
     (let i = takeWhile is_digit s; r = dropWhile is_digit s;
          dot = (r \<noteq> [] \<and> hd r = CHR ''.'');
          f = (if dot then takeWhile is_digit (tl r) else []);
          r' = (if dot then dropWhile is_digit (tl r) else r)
      in if i = [] \<and> f = [] then None
         else map_option (\<lambda>e. of_int (dec_value 0 (i @ f)) * pow10 (e - int (length f)))
                (exponent_part r'))"

definition unsigned_number :: "string \<Rightarrow> jsnum" where
  "unsigned_number s =
     (if s = ''Infinity'' then PInf
      else case unsigned_decimal s of None \<Rightarrow> NaN | Some q \<Rightarrow> fl q)"

text \<open>The non-decimal forms \<open>0x\<close>, \<open>0o\<close> and \<open>0b\<close>, which take no sign.\<close>

definition hex_val :: "char \<Rightarrow> int option" where
  "hex_val c =
     (if is_digit c then Some (ordc c - 48)
      else if 97 \<le> ordc c \<and> ordc c \<le> 102 then Some (ordc c - 87)
      else if 65 \<le> ordc c \<and> ordc c \<le> 70 then Some (ordc c - 55) else None)"

fun radix_value :: "int \<Rightarrow> int \<Rightarrow> string \<Rightarrow> int option" where
  "radix_value b a [] = Some a"
| "radix_value b a (c # s) =
     (case hex_val c of None \<Rightarrow> None
      | Some d \<Rightarrow> if d < b then radix_value b (b * a + d) s else None)"

definition radix_of :: "char \<Rightarrow> int option" where
  "radix_of c =
     (if c = CHR ''x'' \<or> c = CHR ''X'' then Some 16
      else if c = CHR ''o'' \<or> c = CHR ''O'' then Some 8
      else if c = CHR ''b'' \<or> c = CHR ''B'' then Some 2 else None)"

definition radix_number :: "int \<Rightarrow> string \<Rightarrow> jsnum" where
  "radix_number b ds =
     (if ds = [] then NaN
      else case radix_value b 0 ds of None \<Rightarrow> NaN | Some n \<Rightarrow> fl (of_int n))"

definition js_number :: "string \<Rightarrow> jsnum" where
  "js_number s =
     (case js_trim s of
        [] \<Rightarrow> Fin 0
      | c # t \<Rightarrow>
          if c = CHR ''+'' then unsigned_number t
          else if c = CHR ''-'' then js_neg (unsigned_number t)
          else if c = CHR ''0'' \<and> t \<noteq> [] \<and> radix_of (hd t) \<noteq> None
            then radix_number (the (radix_of (hd t))) (tl t)
          else unsigned_number (c # t))"

section \<open>String(v)\<close>

definition digit_char :: "int \<Rightarrow> char" where
  "digit_char d = char_of (48 + nat d)"

fun show_pos :: "int \<Rightarrow> string" where
  "show_pos n = (if n < 10 then [digit_char n] else show_pos (n div 10) @ [digit_char (n mod 10)])"

declare show_pos.simps [simp del]

text \<open>\<open>flog10 q\<close>: the \<open>n\<close> with \<open>10\<^sup>n \<le> q < 10\<^sup>n\<^sup>+\<^sup>1\<close>, found from the number of
  digits of numerator and denominator.\<close>

definition flog10 :: "rat \<Rightarrow> int" where
  "flog10 q =
     (let (n, d) = quotient_of q; g = int (length (show_pos n)) - int (length (show_pos d))
      in if pow10 g \<le> q then g else g - 1)"

text \<open>
  The shortest decimal significand: for growing numbers of digits \<open>k\<close> the nearest \<open>k\<close>-digit
  significand, until it rounds back to the value; 17 digits always suffice for binary64.
  A significand that rounds up to \<open>10\<^sup>k\<close> is the one-digit-longer magnitude's \<open>10\<^sup>k\<^sup>-\<^sup>1\<close>.
\<close>

definition nearest_int :: "rat \<Rightarrow> int" where
  "nearest_int q = round_half_even q"

fun shortest :: "nat \<Rightarrow> int \<Rightarrow> rat \<Rightarrow> int \<Rightarrow> int \<times> int \<times> int" where
  "shortest 0 k q n = (nearest_int (q / pow10 (n - k)), k, n)"
| "shortest (Suc fuel) k q n =
     (let s = nearest_int (q / pow10 (n - k));
          (s', n') = (if s = 10 ^ nat k then (10 ^ nat (k - 1), n + 1) else (s, n))
      in if fl (of_int s' * pow10 (n' - k)) = Fin q then (s', k, n')
         else shortest fuel (k + 1) q n)"

definition show_exponent :: "int \<Rightarrow> string" where
  "show_exponent e = (if e < 0 then ''e-'' @ show_pos (- e) else ''e+'' @ show_pos e)"

definition show_fin :: "rat \<Rightarrow> string" where
  "show_fin q =
     (let (s, k, n) = shortest 16 1 q (flog10 q + 1); ds = show_pos s
      in if k \<le> n \<and> n \<le> 21 then ds @ replicate (nat (n - k)) (CHR ''0'')
         else if 0 < n \<and> n \<le> 21 then take (nat n) ds @ ''.'' @ drop (nat n) ds
         else if - 6 < n \<and> n \<le> 0 then ''0.'' @ replicate (nat (- n)) (CHR ''0'') @ ds
         else if k = 1 then ds @ show_exponent (n - 1)
         else take 1 ds @ ''.'' @ drop 1 ds @ show_exponent (n - 1))"

definition js_num_to_string :: "jsnum \<Rightarrow> string" where
  "js_num_to_string x =
     (case x of NaN \<Rightarrow> ''NaN'' | PInf \<Rightarrow> ''Infinity'' | NInf \<Rightarrow> ''-Infinity''
      | NegZero \<Rightarrow> ''0''
      | Fin q \<Rightarrow> if q = 0 then ''0''
                 else if q < 0 then CHR ''-'' # show_fin (- q) else show_fin q)"

text \<open>\<open>x.toFixed(d)\<close>: the larger of two equally near values; numbers from \<open>10\<^sup>2\<^sup>1\<close> on are written as by \<open>String\<close>.\<close>

definition js_to_fixed :: "nat \<Rightarrow> jsnum \<Rightarrow> string" where
  "js_to_fixed d x =
     (if \<not> is_finite x \<or> 10 ^ 21 \<le> \<bar>rv x\<bar> then js_num_to_string x
      else
        (let ds = show_pos \<lfloor>\<bar>rv x\<bar> * 10 ^ d + 1 / 2\<rfloor>;
             padded = replicate (d + 1 - length ds) (CHR ''0'') @ ds;
             k = length padded - d;
             m = (if d = 0 then padded else take k padded @ ''.'' @ drop k padded)
         in if rv x < 0 then ''-'' @ m else m))"

section \<open>Rounding facts\<close>

lemma pow2_powi: "pow2 e = 2 powi e"
  by (simp add: pow2_def power_int_def power_one_over)

lemma pow2_pos [simp]: "0 < pow2 e"
  by (simp add: pow2_powi)

lemma pow2_nz [simp]: "pow2 e \<noteq> 0"
  using pow2_pos [of e] by linarith

lemma pow2_add: "pow2 (a + b) = pow2 a * pow2 b"
  by (simp add: pow2_powi power_int_add)

lemma pow2_diff: "pow2 (a - b) = pow2 a / pow2 b"
  by (simp add: pow2_powi power_int_diff)

lemma pow2_0 [simp]: "pow2 0 = 1"
  by (simp add: pow2_def)

lemma pow2_1 [simp]: "pow2 1 = 2"
  by (simp add: pow2_def)

lemma pow2_strict_mono: "a < b \<Longrightarrow> pow2 a < pow2 b"
  unfolding pow2_powi by (rule power_int_strict_increasing) simp_all

lemma pow2_less_iff [simp]: "pow2 a < pow2 b \<longleftrightarrow> a < b"
  using pow2_strict_mono [of a b] pow2_strict_mono [of b a] by (cases a b rule: linorder_cases) auto

lemma pow2_le_iff [simp]: "pow2 a \<le> pow2 b \<longleftrightarrow> a \<le> b"
  by (simp add: linorder_not_less [symmetric])

lemma pow2_of_nonneg: "0 \<le> e \<Longrightarrow> pow2 e = of_int (2 ^ nat e)"
  by (simp add: pow2_def)

lemma ilog2_bounds:
  "1 \<le> n \<Longrightarrow> 0 \<le> ilog2 n \<and> pow2 (ilog2 n) \<le> of_int n \<and> of_int n < pow2 (ilog2 n + 1)"
proof (induction n rule: ilog2.induct)
  case (1 n)
  show ?case
  proof (cases "n \<le> 1")
    case True
    with "1.prems" have "n = 1" by simp
    moreover have "ilog2 1 = 0" by (simp add: ilog2.simps)
    ultimately show ?thesis by simp
  next
    case False
    let ?h = "n div 2"
    have h: "1 \<le> ?h" using False by simp
    have IH: "0 \<le> ilog2 ?h" "pow2 (ilog2 ?h) \<le> of_int ?h" "of_int ?h < pow2 (ilog2 ?h + 1)"
      using "1.IH" [OF False h] by auto
    have e: "ilog2 n = ilog2 ?h + 1" using False by (simp add: ilog2.simps [of n])
    have lo: "2 * (of_int ?h :: rat) \<le> of_int n"
    proof -
      have "2 * ?h \<le> n" by simp
      then have "(of_int (2 * ?h) :: rat) \<le> of_int n" by (simp only: of_int_le_iff)
      then show ?thesis by simp
    qed
    have up: "?h + 1 \<le> 2 ^ nat (ilog2 ?h + 1)"
    proof -
      have "(of_int ?h :: rat) < of_int (2 ^ nat (ilog2 ?h + 1))"
        using IH(1,3) by (simp add: pow2_of_nonneg)
      then show ?thesis by (simp only: of_int_less_iff)
    qed
    have "n < 2 * (?h + 1)" by simp
    also have "\<dots> \<le> 2 * 2 ^ nat (ilog2 ?h + 1)" using up by simp
    finally have "n < 2 * 2 ^ nat (ilog2 ?h + 1)" .
    then have "(of_int n :: rat) < of_int (2 * 2 ^ nat (ilog2 ?h + 1))" by (simp only: of_int_less_iff)
    also have "\<dots> = pow2 (ilog2 n + 1)"
      using IH(1) by (simp add: e pow2_add pow2_of_nonneg [of "ilog2 ?h + 1", simplified, symmetric] pow2_of_nonneg)
    finally show ?thesis using IH lo e by (simp add: pow2_add)
  qed
qed

lemma flog2_bounds:
  assumes "0 < q"
  shows "pow2 (flog2 q) \<le> q" "q < pow2 (flog2 q + 1)"
proof -
  obtain n d where nd: "quotient_of q = (n, d)" by (cases "quotient_of q")
  have d: "0 < d" using quotient_of_denom_pos [OF nd] .
  have q: "q = of_int n / of_int d" using quotient_of_div [OF nd] .
  have n: "0 < n" using assms d q by (simp add: zero_less_divide_iff)
  let ?a = "ilog2 n" and ?b = "ilog2 d"
  have a: "pow2 ?a \<le> of_int n" "of_int n < pow2 (?a + 1)" using ilog2_bounds [of n] n by auto
  have b: "pow2 ?b \<le> of_int d" "of_int d < pow2 (?b + 1)" using ilog2_bounds [of d] d by auto
  have lo: "pow2 (?a - ?b - 1) < q"
  proof -
    have "pow2 (?a - ?b - 1) = pow2 ?a / pow2 (?b + 1)" by (simp add: pow2_diff [symmetric] algebra_simps)
    also have "\<dots> < of_int n / of_int d" using a b d by (intro frac_less2) auto
    finally show ?thesis using q by simp
  qed
  have up: "q < pow2 (?a - ?b + 1)"
  proof -
    have "of_int n / of_int d < pow2 (?a + 1) / pow2 ?b" using a b d n by (intro frac_less) auto
    also have "\<dots> = pow2 (?a - ?b + 1)" by (simp add: pow2_diff [symmetric] algebra_simps)
    finally show ?thesis using q by simp
  qed
  show "pow2 (flog2 q) \<le> q" "q < pow2 (flog2 q + 1)"
    using lo up by (auto simp: flog2_def nd Let_def)
qed

lemma flog2_less: "\<lbrakk> 0 < q; q < pow2 k \<rbrakk> \<Longrightarrow> flog2 q < k"
  using flog2_bounds(1) [of q] by (metis order.strict_trans1 pow2_less_iff)

lemma round_half_even_int [simp]: "round_half_even (of_int n) = n"
  by (simp add: round_half_even_def)

lemma round_half_even_nonneg: "0 \<le> q \<Longrightarrow> 0 \<le> round_half_even q"
  by (auto simp: round_half_even_def Let_def intro: order_trans [of 0 "\<lfloor>q\<rfloor>"])

lemma round_half_even_le: "q \<le> of_int n \<Longrightarrow> round_half_even q \<le> n"
  by (auto simp: round_half_even_def Let_def not_less) (linarith | (metis floor_less_iff floor_of_int linorder_not_less))+

text \<open>The rationals that are binary64 values.\<close>

definition representable :: "rat \<Rightarrow> bool" where
  "representable v \<longleftrightarrow>
     (\<exists>m u. v = of_int m * pow2 u \<and> \<bar>m\<bar> \<le> 2 ^ 53 \<and> - 1074 \<le> u \<and> \<bar>v\<bar> < pow2 1024)"

lemma representable_uminus [simp]: "representable (- v) \<longleftrightarrow> representable v"
proof -
  have "representable w \<Longrightarrow> representable (- w)" for w
    unfolding representable_def
    by (elim exE conjE, rename_tac m u, rule_tac x = "- m" in exI, rule_tac x = u in exI) simp
  from this [of v] this [of "- v"] show ?thesis by auto
qed

lemma representable_strict:
  assumes "representable v" "v \<noteq> 0"
  obtains m u where "\<bar>v\<bar> = of_int m * pow2 u" "0 < m" "m < 2 ^ 53" "- 1074 \<le> u" "\<bar>v\<bar> < pow2 1024"
proof -
  obtain m u where v: "v = of_int m * pow2 u" and m: "\<bar>m\<bar> \<le> 2 ^ 53" and u: "- 1074 \<le> u"
    and b: "\<bar>v\<bar> < pow2 1024"
    using assms(1) unfolding representable_def by blast
  have av: "\<bar>v\<bar> = of_int \<bar>m\<bar> * pow2 u" by (simp add: v abs_mult less_imp_le)
  have pos: "0 < \<bar>m\<bar>" using assms(2) v by auto
  show ?thesis
  proof (cases "\<bar>m\<bar> = 2 ^ 53")
    case True
    then have "\<bar>v\<bar> = of_int (2 ^ 52) * pow2 (u + 1)" using av by (simp add: pow2_add)
    with b u show ?thesis by (intro that [of "2 ^ 52" "u + 1"]) auto
  next
    case False
    with m pos av u b show ?thesis by (intro that [of "\<bar>m\<bar>" u]) auto
  qed
qed

lemma representable_scaled_int:
  assumes "representable v" "v \<noteq> 0"
  shows "\<exists>k. \<bar>v\<bar> / pow2 (max (flog2 \<bar>v\<bar> - 52) (- 1074)) = of_int k \<and> 0 < k \<and> k < 2 ^ 53"
proof -
  obtain m u where v: "\<bar>v\<bar> = of_int m * pow2 u" and m: "0 < m" "m < 2 ^ 53" and u: "- 1074 \<le> u"
    using representable_strict [OF assms] by metis
  have pos: "0 < \<bar>v\<bar>" using assms(2) by simp
  have m': "(of_int m :: rat) < pow2 53"
  proof -
    have "(of_int m :: rat) < of_int (2 ^ 53)" using m(2) by (simp only: of_int_less_iff)
    then show ?thesis by (simp add: pow2_of_nonneg)
  qed
  have "\<bar>v\<bar> < pow2 (53 + u)" using v m' by (simp add: pow2_add)
  then have e: "flog2 \<bar>v\<bar> < 53 + u" using flog2_less [OF pos] by simp
  let ?w = "max (flog2 \<bar>v\<bar> - 52) (- 1074)"
  have w: "?w \<le> u" using e u by simp
  let ?k = "m * 2 ^ nat (u - ?w)"
  have k: "\<bar>v\<bar> / pow2 ?w = of_int ?k"
  proof -
    have "\<bar>v\<bar> / pow2 ?w = of_int m * pow2 (u - ?w)" by (simp add: v pow2_diff)
    also have "\<dots> = of_int ?k" using w by (simp add: pow2_of_nonneg)
    finally show ?thesis .
  qed
  have "\<bar>v\<bar> < pow2 (flog2 \<bar>v\<bar> + 1)" using flog2_bounds(2) [OF pos] .
  also have "\<dots> \<le> pow2 (53 + ?w)" by simp
  finally have "\<bar>v\<bar> / pow2 ?w < pow2 53" by (simp add: pow2_add divide_less_eq)
  then have "(of_int ?k :: rat) < of_int (2 ^ 53)" using k by (simp add: pow2_of_nonneg)
  then have "?k < 2 ^ 53" by (simp only: of_int_less_iff)
  moreover have "0 < ?k" using m by simp
  ultimately show ?thesis using k by blast
qed

lemma fl_id:
  assumes "representable v"
  shows "fl v = Fin v"
proof (cases "v = 0")
  case False
  let ?w = "max (flog2 \<bar>v\<bar> - 52) (- 1074)"
  obtain k where k: "\<bar>v\<bar> / pow2 ?w = of_int k" "0 < k" "k < 2 ^ 53"
    using representable_scaled_int [OF assms False] by blast
  have r: "round_half_even (\<bar>v\<bar> / pow2 ?w) = k" by (simp only: k(1) round_half_even_int)
  have "\<bar>v\<bar> < pow2 1024" using assms unfolding representable_def by blast
  then have e: "flog2 \<bar>v\<bar> < 1024" using flog2_less [of "\<bar>v\<bar>" 1024] False by simp
  have "of_int k * pow2 ?w = \<bar>v\<bar>" using k(1) by (simp add: divide_eq_eq)
  then have "sgn v * of_int k * pow2 ?w = v" by (simp add: mult.assoc sgn_mult_abs)
  then show ?thesis using False e k(2,3) by (simp add: fl_def r Let_def)
qed (simp add: fl_def)

lemma representable_0 [simp]: "representable 0"
  unfolding representable_def by (intro exI [of _ 0] exI [of _ 0]) simp

lemma representable_of_int: "\<bar>n\<bar> \<le> 2 ^ 53 \<Longrightarrow> representable (of_int n)"
proof -
  assume n: "\<bar>n\<bar> \<le> 2 ^ 53"
  then have "(of_int \<bar>n\<bar> :: rat) \<le> of_int (2 ^ 53)" by (simp only: of_int_le_iff)
  also have "\<dots> = pow2 53" by (simp add: pow2_of_nonneg)
  also have "\<dots> < pow2 1024" by simp
  finally show ?thesis using n unfolding representable_def
    by (intro exI [of _ n] exI [of _ 0]) (simp add: of_int_abs)
qed

lemma fl_significand_le:
  assumes "q \<noteq> 0"
  shows "round_half_even (\<bar>q\<bar> / pow2 (max (flog2 \<bar>q\<bar> - 52) (- 1074))) \<le> 2 ^ 53"
proof -
  let ?u = "max (flog2 \<bar>q\<bar> - 52) (- 1074)"
  have "\<bar>q\<bar> < pow2 (flog2 \<bar>q\<bar> + 1)" using assms by (intro flog2_bounds(2)) simp
  also have "\<dots> \<le> pow2 (53 + ?u)" by simp
  finally have "\<bar>q\<bar> / pow2 ?u \<le> pow2 53" by (simp add: pow2_add divide_le_eq)
  also have "\<dots> = of_int (2 ^ 53)" by (simp add: pow2_of_nonneg)
  finally show ?thesis by (rule round_half_even_le)
qed

lemma fl_representable:
  assumes "fl q = Fin v"
  shows "representable v"
proof (cases "v = 0")
  case False
  let ?e = "flog2 \<bar>q\<bar>"
  let ?u = "max (?e - 52) (- 1074)"
  let ?m = "round_half_even (\<bar>q\<bar> / pow2 ?u)"
  have q: "q \<noteq> 0" using assms False by (auto simp: fl_def)
  have e: "?e \<le> 1023" and em: "?e = 1023 \<longrightarrow> ?m \<noteq> 2 ^ 53" and v: "v = sgn q * of_int ?m * pow2 ?u"
    using assms False q by (auto simp: fl_def Let_def split: if_splits)
  have m: "?m \<le> 2 ^ 53" using fl_significand_le [OF q] .
  have m0: "0 \<le> ?m" by (intro round_half_even_nonneg) (simp add: less_imp_le)
  have av: "\<bar>v\<bar> = of_int ?m * pow2 ?u"
    using q m0 by (simp add: v abs_mult abs_sgn_eq less_imp_le)
  have small: "\<bar>v\<bar> < pow2 1024"
  proof (cases "?e = 1023")
    case True
    then have "?m < 2 ^ 53" using em m by simp
    then have "(of_int ?m :: rat) < of_int (2 ^ 53)" by (simp only: of_int_less_iff)
    also have "\<dots> = pow2 53" by (simp add: pow2_of_nonneg)
    finally have "\<bar>v\<bar> < pow2 53 * pow2 ?u" using av by simp
    also have "\<dots> = pow2 1024" using True by (simp flip: pow2_add)
    finally show ?thesis .
  next
    case False
    have "(of_int ?m :: rat) \<le> of_int (2 ^ 53)" using m by (simp only: of_int_le_iff)
    also have "\<dots> = pow2 53" by (simp add: pow2_of_nonneg)
    finally have "\<bar>v\<bar> \<le> pow2 53 * pow2 ?u" using av by simp
    also have "\<dots> = pow2 (53 + ?u)" by (simp add: pow2_add)
    also have "\<dots> < pow2 1024" using e False by simp
    finally show ?thesis .
  qed
  define s :: int where "s = (if q < 0 then - 1 else 1)"
  have "v = of_int (s * ?m) * pow2 ?u" using q by (simp add: v s_def sgn_if)
  moreover have "0 \<le> k \<Longrightarrow> k \<le> 2 ^ 53 \<Longrightarrow> \<bar>s * k\<bar> \<le> 2 ^ 53" for k by (simp add: s_def)
  note this [OF m0 m]
  moreover have "- 1074 \<le> ?u" by simp
  ultimately show ?thesis unfolding representable_def using small by blast
qed simp

text \<open>A number as the runtime can hold it.\<close>

definition js_rep :: "jsnum \<Rightarrow> bool" where
  "js_rep x \<longleftrightarrow> (case x of Fin q \<Rightarrow> representable q | _ \<Rightarrow> True)"

lemma js_rep_simps [simp]:
  "js_rep NaN" "js_rep PInf" "js_rep NInf" "js_rep NegZero"
  "js_rep (Fin q) \<longleftrightarrow> representable q"
  by (simp_all add: js_rep_def)

lemma js_rep_fl [simp]: "js_rep (fl q)"
  by (cases "fl q") (auto intro: fl_representable)

lemma js_rep_neg [simp]: "js_rep (js_neg x) \<longleftrightarrow> js_rep x"
  by (cases x) auto

lemma js_rep_signed [simp]: "js_rep (signed_zero b)" "js_rep (signed_inf b)"
  by (simp_all add: signed_zero_def signed_inf_def)

lemma js_rep_add [simp]: "js_rep (js_add x y)"
  by (cases x; cases y) (simp_all add: js_add_def)

lemma js_rep_mul [simp]: "js_rep (js_mul x y)"
  by (simp add: js_mul_def Let_def)

lemma js_rep_div [simp]: "js_rep (js_div x y)"
  by (simp add: js_div_def Let_def)

lemma js_rep_unsigned_number [simp]: "js_rep (unsigned_number s)"
  by (simp add: unsigned_number_def split: option.split)

lemma js_rep_radix_number [simp]: "js_rep (radix_number b ds)"
  by (simp add: radix_number_def split: option.split)

lemma js_rep_number [simp]: "js_rep (js_number s)"
  by (simp add: js_number_def split: list.split)

text \<open>Multiplying by one and adding zero are exact.\<close>

lemma js_mul_one:
  assumes "js_rep x" shows "js_mul (Fin 1) x = x" "js_mul x (Fin 1) = x"
  using assms by (cases x; auto simp: js_mul_def signed_inf_def signed_zero_def fl_id)+

lemma js_add_zero:
  assumes "js_rep x" "x \<noteq> NegZero" shows "js_add (Fin 0) x = x" "js_add x (Fin 0) = x"
  using assms by (cases x; auto simp: js_add_def fl_id)+

text \<open>Integer arithmetic is exact up to \<open>2\<^sup>5\<^sup>3\<close>.\<close>

lemma js_add_int:
  "\<bar>a + b\<bar> \<le> 2 ^ 53 \<Longrightarrow> js_add (Fin (of_int a)) (Fin (of_int b)) = Fin (of_int (a + b))"
  using representable_of_int [of "a + b"] by (simp add: js_add_def fl_id)

lemma js_sub_int:
  "\<bar>a - b\<bar> \<le> 2 ^ 53 \<Longrightarrow> js_sub (Fin (of_int a)) (Fin (of_int b)) = Fin (of_int (a - b))"
  using representable_of_int [of "a - b"] by (auto simp: js_sub_def js_add_def fl_id)

lemma js_mul_int:
  "\<lbrakk> 0 \<le> a; 0 \<le> b; a * b \<le> 2 ^ 53 \<rbrakk> \<Longrightarrow> js_mul (Fin (of_int a)) (Fin (of_int b)) = Fin (of_int (a * b))"
  using representable_of_int [of "a * b"] by (auto simp: js_mul_def Let_def signed_zero_def fl_id)

lemma js_lt_Fin [simp]: "js_lt (Fin a) (Fin b) \<longleftrightarrow> a < b"
  by simp

lemma js_le_Fin [simp]: "js_le (Fin a) (Fin b) \<longleftrightarrow> a \<le> b"
  by (auto simp: js_le_def)

lemma js_not_lt: "\<lbrakk> x \<noteq> NaN; y \<noteq> NaN \<rbrakk> \<Longrightarrow> \<not> js_lt x y \<longleftrightarrow> js_le y x"
  by (cases x; cases y) (auto simp: js_le_def)

lemma finite_not_NaN: "is_finite x \<Longrightarrow> x \<noteq> NaN"
  by auto

end
