(* ===== verification/JS_Json.thy ===== *)
theory JS_Json
  imports JS_Number
begin

text \<open>
  String literals of JSON: \<open>JSON.stringify\<close> on a string and \<open>JSON.parse\<close> on a string literal,
  and the values \<open>unknown\<close> data can take once it is parsed.
\<close>

section \<open>String literals\<close>

definition hex_digit :: "int \<Rightarrow> char" where
  "hex_digit d = (if d < 10 then char_of (48 + nat d) else char_of (87 + nat d))"

definition json_escape :: "char \<Rightarrow> string" where
  "json_escape c =
     (if c = dquote then [backslash, dquote]
      else if c = backslash then [backslash, backslash]
      else if ordc c = 8 then [backslash, CHR ''b'']
      else if ordc c = 9 then [backslash, CHR ''t'']
      else if ordc c = 10 then [backslash, CHR ''n'']
      else if ordc c = 12 then [backslash, CHR ''f'']
      else if ordc c = 13 then [backslash, CHR ''r'']
      else if ordc c < 32 then
        [backslash, CHR ''u'', CHR ''0'', CHR ''0'', hex_digit (ordc c div 16), hex_digit (ordc c mod 16)]
      else [c])"

definition json_stringify :: "string \<Rightarrow> string" where
  "json_stringify s = [dquote] @ concat (map json_escape s) @ [dquote]"

text \<open>
  The escape sequences of JSON.  A \<open>\u\<close> escape above \<open>00FF\<close> denotes a code unit outside the
  strings of the model and is rejected.
\<close>

definition json_simple_escape :: "char \<Rightarrow> char option" where
  "json_simple_escape c =
     (if c = dquote \<or> c = backslash \<or> c = CHR ''/'' then Some c
      else if c = CHR ''b'' then Some (CHR 0x08)
      else if c = CHR ''f'' then Some (CHR 0x0C)
      else if c = CHR ''n'' then Some (CHR 0x0A)
      else if c = CHR ''r'' then Some (CHR 0x0D)
      else if c = CHR ''t'' then Some (CHR 0x09)
      else None)"

definition json_unicode_escape :: "char \<Rightarrow> char \<Rightarrow> char \<Rightarrow> char \<Rightarrow> char option" where
  "json_unicode_escape a b c d =
     (case (hex_val a, hex_val b, hex_val c, hex_val d) of
        (Some w, Some x, Some y, Some z) \<Rightarrow>
          if w = 0 \<and> x = 0 then Some (char_of (nat (16 * y + z))) else None
      | _ \<Rightarrow> None)"

text \<open>The characters of a string literal up to its closing quote, and the rest.\<close>

fun json_chars :: "string \<Rightarrow> (string \<times> string) option" where
  "json_chars [] = None"
| "json_chars (c # s) =
     (if c = dquote then Some ([], s)
      else if c = backslash then
        (case s of
           [] \<Rightarrow> None
         | e # t \<Rightarrow>
             if e = CHR ''u'' then
               (case t of
                  h1 # h2 # h3 # h4 # t' \<Rightarrow>
                    (case json_unicode_escape h1 h2 h3 h4 of
                       None \<Rightarrow> None
                     | Some x \<Rightarrow> map_option (\<lambda>(w, r). (x # w, r)) (json_chars t'))
                | _ \<Rightarrow> None)
             else
               (case json_simple_escape e of
                  None \<Rightarrow> None
                | Some x \<Rightarrow> map_option (\<lambda>(w, r). (x # w, r)) (json_chars t)))
      else if ordc c < 32 then None
      else map_option (\<lambda>(w, r). (c # w, r)) (json_chars s))"

text \<open>\<open>JSON.parse(text)\<close> where only a string result is used: \<open>None\<close> stands for a syntax error
  or a value of another type.\<close>

definition json_parse_string :: "string \<Rightarrow> string option" where
  "json_parse_string s = (case s of [] \<Rightarrow> None | c # t \<Rightarrow> if c = dquote then (case json_chars t of Some (w, []) \<Rightarrow> Some w | _ \<Rightarrow> None) else None)"

definition json_syntax_error :: string where
  "json_syntax_error = ''SyntaxError''"

lemma hex_digit_val: "0 \<le> d \<Longrightarrow> d < 16 \<Longrightarrow> hex_val (hex_digit d) = Some d"
  by (simp add: hex_val_def hex_digit_def is_digit_def ordc_char_of)

lemma ordc_control:
  "ordc c = 8 \<longleftrightarrow> c = CHR 0x08" "ordc c = 9 \<longleftrightarrow> c = CHR 0x09" "ordc c = 10 \<longleftrightarrow> c = CHR 0x0A"
  "ordc c = 12 \<longleftrightarrow> c = CHR 0x0C" "ordc c = 13 \<longleftrightarrow> c = CHR 0x0D"
proof -
  have "ordc c = ordc d \<longleftrightarrow> c = d" for d by simp
  from this [of "CHR 0x08"] this [of "CHR 0x09"] this [of "CHR 0x0A"] this [of "CHR 0x0C"]
    this [of "CHR 0x0D"]
  show "ordc c = 8 \<longleftrightarrow> c = CHR 0x08" "ordc c = 9 \<longleftrightarrow> c = CHR 0x09" "ordc c = 10 \<longleftrightarrow> c = CHR 0x0A"
    "ordc c = 12 \<longleftrightarrow> c = CHR 0x0C" "ordc c = 13 \<longleftrightarrow> c = CHR 0x0D"
    by (simp_all add: ordc_def del: of_char_eq_iff)
qed

lemma json_escape_chars:
  "json_chars (json_escape c @ s) = map_option (\<lambda>(w, r). (c # w, r)) (json_chars s)"
proof -
  consider (special) "c \<in> {dquote, backslash, CHR 0x08, CHR 0x09, CHR 0x0A, CHR 0x0C, CHR 0x0D}"
    | (ctl) "c \<notin> {dquote, backslash, CHR 0x08, CHR 0x09, CHR 0x0A, CHR 0x0C, CHR 0x0D}" "ordc c < 32"
    | (plain) "c \<notin> {dquote, backslash}" "32 \<le> ordc c"
    by fastforce
  then show ?thesis
  proof cases
    case special
    then show ?thesis
      by (auto simp: json_escape_def json_simple_escape_def ordc_control)
  next
    case ctl
    have b: "0 \<le> ordc c" by (rule ordc_bounds)
    have h: "hex_val (hex_digit (ordc c div 16)) = Some (ordc c div 16)"
      "hex_val (hex_digit (ordc c mod 16)) = Some (ordc c mod 16)"
      using ctl(2) b by (auto intro!: hex_digit_val)
    have z: "hex_val (CHR ''0'') = Some 0" by (simp add: hex_val_def is_digit_def ordc_def)
    have "char_of (nat (16 * (ordc c div 16) + ordc c mod 16)) = c"
      by (simp add: ordc_def)
    then show ?thesis using ctl
      by (simp add: json_escape_def json_unicode_escape_def ordc_control h z)
  next
    case plain
    then show ?thesis by (simp add: json_escape_def)
  qed
qed

lemma json_chars_concat:
  "json_chars (concat (map json_escape s) @ dquote # r) = Some (s, r)"
  by (induction s) (simp_all add: json_escape_chars)

lemma json_parse_stringify [simp]: "json_parse_string (json_stringify s) = Some s"
  by (simp add: json_parse_string_def json_stringify_def json_chars_concat)

text \<open>A string with nothing to escape is quoted as it is.\<close>

definition json_plain :: "string \<Rightarrow> bool" where
  "json_plain s \<longleftrightarrow> list_all (\<lambda>c. c \<noteq> dquote \<and> c \<noteq> backslash \<and> 32 \<le> ordc c) s"

lemma json_stringify_plain: "json_plain s \<Longrightarrow> json_stringify s = [dquote] @ s @ [dquote]"
  unfolding json_stringify_def json_plain_def
  by (induction s) (auto simp: json_escape_def)

section \<open>Parsed values\<close>

datatype jsval =
    JUndefined
  | JNull
  | JBool bool
  | JNum jsnum
  | JStr string
  | JArr "jsval list"
  | JObj "(string \<times> jsval) list"

text \<open>\<open>v[k]\<close> on an object; a missing field is \<open>undefined\<close>.\<close>

definition jget :: "jsval \<Rightarrow> string \<Rightarrow> jsval" where
  "jget v k = (case v of JObj kvs \<Rightarrow> (case map_of kvs k of None \<Rightarrow> JUndefined | Some x \<Rightarrow> x) | _ \<Rightarrow> JUndefined)"

definition is_jstr :: "jsval \<Rightarrow> bool" where
  "is_jstr v \<longleftrightarrow> (case v of JStr _ \<Rightarrow> True | _ \<Rightarrow> False)"

definition is_jnum :: "jsval \<Rightarrow> bool" where
  "is_jnum v \<longleftrightarrow> (case v of JNum _ \<Rightarrow> True | _ \<Rightarrow> False)"

definition is_jbool :: "jsval \<Rightarrow> bool" where
  "is_jbool v \<longleftrightarrow> (case v of JBool _ \<Rightarrow> True | _ \<Rightarrow> False)"

text \<open>\<open>Boolean(v)\<close>.\<close>

definition jtruthy :: "jsval \<Rightarrow> bool" where
  "jtruthy v \<longleftrightarrow>
     (case v of JUndefined \<Rightarrow> False | JNull \<Rightarrow> False | JBool b \<Rightarrow> b | JNum x \<Rightarrow> num_truthy x | JStr s \<Rightarrow> s \<noteq> []
      | _ \<Rightarrow> True)"

text \<open>A field whose declared type is \<open>string\<close>; a value of another type is outside that type.\<close>

definition jstr :: "jsval \<Rightarrow> string option" where
  "jstr v = (case v of JStr s \<Rightarrow> Some s | _ \<Rightarrow> None)"

text \<open>\<open>v?.[0]\<close>.\<close>

definition jfirst :: "jsval \<Rightarrow> jsval" where
  "jfirst v = (case v of JArr (x # _) \<Rightarrow> x | JStr (c # _) \<Rightarrow> JStr [c] | JObj _ \<Rightarrow> jget v ''0'' | _ \<Rightarrow> JUndefined)"

lemma is_jstr_iff: "is_jstr v \<longleftrightarrow> (\<exists>s. v = JStr s)"
  by (cases v) (auto simp: is_jstr_def)

lemma is_jnum_iff: "is_jnum v \<longleftrightarrow> (\<exists>x. v = JNum x)"
  by (cases v) (auto simp: is_jnum_def)

lemma is_jbool_iff: "is_jbool v \<longleftrightarrow> (\<exists>b. v = JBool b)"
  by (cases v) (auto simp: is_jbool_def)

end
