(* ===== verification/JS_Regex.thy ===== *)
theory JS_Regex
  imports JS_Prelude
begin

text \<open>
  ECMAScript regular expressions with captures and back-references, in the backtracking
  semantics of the language: \<open>rmatch r s c\<close> lists every way \<open>r\<close> can match a prefix of \<open>s\<close>, the
  remaining input and the captures of each, in the order in which the backtracking matcher
  tries them.  The match JavaScript reports is the first of the list.
\<close>

section \<open>Patterns\<close>

datatype rx =
    RSet "char \<Rightarrow> bool"
  | RLit string
  | REps
  | RSeq rx rx
  | RAlt rx rx
  | RStar rx
  | RCap nat rx
  | RRef nat
  | REnd

text \<open>\<open>r?\<close>, \<open>r+\<close> and sequences.\<close>

abbreviation RQuest :: "rx \<Rightarrow> rx" where "RQuest r \<equiv> RAlt r REps"
abbreviation RPlus :: "rx \<Rightarrow> rx" where "RPlus r \<equiv> RSeq r (RStar r)"

fun RSeqs :: "rx list \<Rightarrow> rx" where
  "RSeqs [] = REps"
| "RSeqs [r] = r"
| "RSeqs (r # s # rs) = RSeq r (RSeqs (s # rs))"

fun RAlts :: "rx list \<Rightarrow> rx" where
  "RAlts [] = RSet (\<lambda>_. False)"
| "RAlts [r] = r"
| "RAlts (r # s # rs) = RAlt r (RAlts (s # rs))"

section \<open>Matching\<close>

type_synonym caps = "nat \<Rightarrow> string option"

fun strip_prefix :: "string \<Rightarrow> string \<Rightarrow> string option" where
  "strip_prefix [] s = Some s"
| "strip_prefix (p # ps) [] = None"
| "strip_prefix (p # ps) (x # s) = (if p = x then strip_prefix ps s else None)"

text \<open>Every iteration of a repetition starts with the captures of its body reset.\<close>

fun rx_groups :: "rx \<Rightarrow> nat list" where
  "rx_groups (RSeq a b) = rx_groups a @ rx_groups b"
| "rx_groups (RAlt a b) = rx_groups a @ rx_groups b"
| "rx_groups (RStar a) = rx_groups a"
| "rx_groups (RCap i a) = i # rx_groups a"
| "rx_groups _ = []"

definition reset_groups :: "rx \<Rightarrow> caps \<Rightarrow> caps" where
  "reset_groups r c = foldr (\<lambda>i d. d(i := None)) (rx_groups r) c"

function rmatch :: "rx \<Rightarrow> string \<Rightarrow> caps \<Rightarrow> (string \<times> caps) list" where
  "rmatch (RSet P) s c = (case s of [] \<Rightarrow> [] | x # t \<Rightarrow> if P x then [(t, c)] else [])"
| "rmatch (RLit l) s c = (case strip_prefix l s of None \<Rightarrow> [] | Some t \<Rightarrow> [(t, c)])"
| "rmatch REps s c = [(s, c)]"
| "rmatch (RSeq a b) s c = concat (map (\<lambda>(t, d). rmatch b t d) (rmatch a s c))"
| "rmatch (RAlt a b) s c = rmatch a s c @ rmatch b s c"
| "rmatch (RStar r) s c =
     concat (map (\<lambda>(t, d). if length t < length s then rmatch (RStar r) t d else [])
       (rmatch r s (reset_groups r c))) @ [(s, c)]"
| "rmatch (RCap i r) s c =
     map (\<lambda>(t, d). (t, d(i \<mapsto> take (length s - length t) s))) (rmatch r s c)"
| "rmatch (RRef i) s c =
     (case c i of None \<Rightarrow> [(s, c)]
      | Some w \<Rightarrow> (case strip_prefix w s of None \<Rightarrow> [] | Some t \<Rightarrow> [(t, c)]))"
| "rmatch REnd s c = (if s = [] then [(s, c)] else [])"
  by pat_completeness auto
termination
  by (relation "measures [\<lambda>(r, s, c). size r, \<lambda>(r, s, c). length s]") auto

declare rmatch.simps(6) [simp del]

text \<open>\<open>exec\<close> of a sticky pattern, and \<open>match\<close> of a pattern anchored with \<open>^\<close> and \<open>$\<close>.\<close>

definition rx_exec :: "rx \<Rightarrow> string \<Rightarrow> (string \<times> caps) option" where
  "rx_exec r s = (case rmatch r s Map.empty of [] \<Rightarrow> None | m # _ \<Rightarrow> Some m)"

definition rx_full :: "rx \<Rightarrow> string \<Rightarrow> caps option" where
  "rx_full r s = map_option snd (rx_exec (RSeq r REnd) s)"

text \<open>\<open>test\<close> of a pattern anchored with \<open>^\<close> and \<open>$\<close>.\<close>

definition rx_test :: "rx \<Rightarrow> string \<Rightarrow> bool" where
  "rx_test r s \<longleftrightarrow> rx_full r s \<noteq> None"

text \<open>\<open>exec\<close> of a pattern that is neither anchored nor sticky: the first position that matches.  The
  result is the text before the match, the text after it and the groups.\<close>

fun rx_search :: "rx \<Rightarrow> string \<Rightarrow> (string \<times> string \<times> caps) option" where
  "rx_search r [] = (case rx_exec r [] of None \<Rightarrow> None | Some (t, c) \<Rightarrow> Some ([], t, c))"
| "rx_search r (x # s) =
     (case rx_exec r (x # s) of
        Some (t, c) \<Rightarrow> Some ([], t, c)
      | None \<Rightarrow> map_option (\<lambda>(u, t, c). (x # u, t, c)) (rx_search r s))"

text \<open>The successive matches of a pattern with the flag \<open>g\<close>, and \<open>s.split(pattern)\<close>, for a pattern
  that matches no empty text; the fuel is the length of the text.\<close>

primrec rx_matches :: "nat \<Rightarrow> rx \<Rightarrow> string \<Rightarrow> caps list" where
  "rx_matches 0 r s = []"
| "rx_matches (Suc n) r s =
     (case rx_search r s of None \<Rightarrow> [] | Some (u, t, c) \<Rightarrow> c # rx_matches n r t)"

definition rx_match_all :: "rx \<Rightarrow> string \<Rightarrow> caps list" where
  "rx_match_all r s = rx_matches (Suc (length s)) r s"

primrec rx_pieces :: "nat \<Rightarrow> rx \<Rightarrow> string \<Rightarrow> string list" where
  "rx_pieces 0 r s = [s]"
| "rx_pieces (Suc n) r s =
     (case rx_search r s of None \<Rightarrow> [s] | Some (u, t, c) \<Rightarrow> u # rx_pieces n r t)"

definition rx_split :: "rx \<Rightarrow> string \<Rightarrow> string list" where
  "rx_split r s = rx_pieces (Suc (length s)) r s"

text \<open>The text of a group; a group that did not take part in the match is \<open>undefined\<close>, which
  the callers here never read.\<close>

definition grp :: "caps \<Rightarrow> nat \<Rightarrow> string" where
  "grp c i = (case c i of None \<Rightarrow> [] | Some w \<Rightarrow> w)"

lemma grp_upd [simp]: "grp (c(i \<mapsto> w)) j = (if i = j then w else grp c j)"
  by (simp add: grp_def)

section \<open>Consumed input\<close>

lemma strip_prefix_Some [simp]:
  "strip_prefix p s = Some t \<longleftrightarrow> s = p @ t" "Some t = strip_prefix p s \<longleftrightarrow> s = p @ t"
  by (induction p s rule: strip_prefix.induct) auto

lemma strip_prefix_append [simp]: "strip_prefix p (p @ t) = Some t"
  by simp

lemma strip_prefix_hd_neq [simp]: "p \<noteq> x \<Longrightarrow> strip_prefix (p # ps) (x # s) = None"
  by simp

lemma rmatch_suffix: "(t, d) \<in> set (rmatch r s c) \<Longrightarrow> \<exists>u. s = u @ t"
proof (induction r s c arbitrary: t d rule: rmatch.induct)
  case (1 P s c)
  then show ?case by (cases s) (auto split: if_splits)
next
  case (2 l s c)
  then show ?case by (auto split: option.splits)
next
  case (4 a b s c)
  from "4.prems" obtain t' d' where m: "(t', d') \<in> set (rmatch a s c)" "(t, d) \<in> set (rmatch b t' d')" by auto
  obtain u where "s = u @ t'" using "4.IH"(1) [OF m(1)] by blast
  moreover obtain v where "t' = v @ t" using "4.IH"(2) [OF m(1) refl m(2)] by blast
  ultimately show ?case by simp
next
  case (5 a b s c)
  from "5.prems" have "(t, d) \<in> set (rmatch a s c) \<or> (t, d) \<in> set (rmatch b s c)" by simp
  with "5.IH" show ?case by blast
next
  case (6 r s c)
  from "6.prems" consider "t = s"
    | t' d' where "(t', d') \<in> set (rmatch r s (reset_groups r c))" "length t' < length s"
        "(t, d) \<in> set (rmatch (RStar r) t' d')"
    by (auto simp: rmatch.simps(6) [of r s c] split: if_splits)
  then show ?case
  proof cases
    case 2
    obtain u where "s = u @ t'" using "6.IH"(1) [OF 2(1)] by blast
    moreover obtain v where "t' = v @ t" using "6.IH"(2) [OF 2(1) refl 2(2,3)] by blast
    ultimately show ?thesis by simp
  qed simp
next
  case (7 i r s c)
  from "7.prems" obtain d' where "(t, d') \<in> set (rmatch r s c)" by auto
  then show ?case by (rule "7.IH")
next
  case (8 i s c)
  then show ?case by (cases "c i") (auto split: option.splits)
qed simp_all

lemma rmatch_length: "(t, d) \<in> set (rmatch r s c) \<Longrightarrow> length t \<le> length s"
  using rmatch_suffix by fastforce

text \<open>The text between a match's start and its end.\<close>

lemma rmatch_consumed:
  "(t, d) \<in> set (rmatch r s c) \<Longrightarrow> s = take (length s - length t) s @ t"
  using rmatch_suffix by fastforce

text \<open>A pattern that cannot match the empty string.\<close>

fun rx_nonempty :: "rx \<Rightarrow> bool" where
  "rx_nonempty (RSet P) = True"
| "rx_nonempty (RLit l) = (l \<noteq> [])"
| "rx_nonempty (RSeq a b) = (rx_nonempty a \<or> rx_nonempty b)"
| "rx_nonempty (RAlt a b) = (rx_nonempty a \<and> rx_nonempty b)"
| "rx_nonempty (RCap i a) = rx_nonempty a"
| "rx_nonempty _ = False"

lemma rmatch_nonempty:
  "\<lbrakk> rx_nonempty r; (t, d) \<in> set (rmatch r s c) \<rbrakk> \<Longrightarrow> length t < length s"
proof (induction r arbitrary: s c t d)
  case (RSeq a b)
  then obtain t' d' where m: "(t', d') \<in> set (rmatch a s c)" "(t, d) \<in> set (rmatch b t' d')" by auto
  from RSeq.prems consider "rx_nonempty a" | "rx_nonempty b" by auto
  then show ?case
  proof cases
    case 1
    with RSeq.IH(1) m(1) rmatch_length [OF m(2)] show ?thesis by fastforce
  next
    case 2
    with RSeq.IH(2) m(2) rmatch_length [OF m(1)] show ?thesis by fastforce
  qed
next
  case (RLit l)
  then have "strip_prefix l s = Some t" "l \<noteq> []" by (auto split: option.splits)
  then have "s = l @ t" "l \<noteq> []" by simp_all
  then show ?case by simp
qed (auto split: list.splits option.splits if_splits)

section \<open>Deterministic steps\<close>

text \<open>
  The patterns of the client are mostly deterministic: after a greedy run over a character class
  the next part of the pattern cannot start inside the class, so backtracking never succeeds.
  \<open>rejects P r\<close> says that \<open>r\<close> fails on every input that starts with a character of \<open>P\<close>.
\<close>

named_theorems rx_simps \<open>deterministic steps of the matcher\<close>

definition rejects :: "(char \<Rightarrow> bool) \<Rightarrow> rx \<Rightarrow> bool" where
  "rejects P r \<longleftrightarrow> (\<forall>x t d. P x \<longrightarrow> rmatch r (x # t) d = [])"

lemma rejects_Lit [simp]: "l \<noteq> [] \<Longrightarrow> \<not> P (hd l) \<Longrightarrow> rejects P (RLit l)"
  by (cases l) (auto simp: rejects_def)

lemma rejects_Set [simp]: "(\<And>x. P x \<Longrightarrow> \<not> Q x) \<Longrightarrow> rejects P (RSet Q)"
  by (auto simp: rejects_def)

lemma rejects_End [simp]: "rejects P REnd"
  by (auto simp: rejects_def)

lemma rejects_Seq [simp]: "rejects P a \<Longrightarrow> rejects P (RSeq a b)"
  by (auto simp: rejects_def)

lemma rejects_Cap [simp]: "rejects P a \<Longrightarrow> rejects P (RCap i a)"
  by (auto simp: rejects_def)

lemma rejects_Alt [simp]: "rejects P a \<Longrightarrow> rejects P b \<Longrightarrow> rejects P (RAlt a b)"
  by (auto simp: rejects_def)

lemma rmatch_Seq_assoc [simp]:
  "rmatch (RSeq (RSeq a b) r) s c = rmatch (RSeq a (RSeq b r)) s c"
proof -
  let ?b = "\<lambda>p. rmatch b (fst p) (snd p)" and ?r = "\<lambda>p. rmatch r (fst p) (snd p)"
  have "concat (map ?r (concat (map ?b xs))) = concat (map (\<lambda>p. concat (map ?r (?b p))) xs)" for xs
    by (induction xs) auto
  then show ?thesis by (simp add: case_prod_unfold)
qed

lemma rmatch_Star_Set:
  "rmatch (RStar (RSet P)) s c =
     (case s of [] \<Rightarrow> [] | x # t \<Rightarrow> if P x then rmatch (RStar (RSet P)) t c else []) @ [(s, c)]"
  by (simp add: rmatch.simps(6) [of "RSet P" s] reset_groups_def split: list.split)

lemma rmatch_Seq_Star:
  assumes "\<forall>x \<in> set w. P x" and "s = [] \<or> \<not> P (hd s)" and "rejects P r"
  shows "rmatch (RSeq (RStar (RSet P)) r) (w @ s) c = rmatch r s c"
  using assms(1)
proof (induction w)
  case Nil
  have "rmatch (RStar (RSet P)) s c = [(s, c)]"
    using assms(2) by (cases s) (auto simp: rmatch_Star_Set)
  then show ?case by simp
next
  case (Cons x w)
  have "rmatch r (x # w @ s) c = []" using Cons.prems assms(3) by (auto simp: rejects_def)
  with Cons show ?case by (simp add: rmatch_Star_Set [of P "x # w @ s"])
qed

text \<open>The same with the run captured; \<open>concat\<close> over the splits keeps only the longest one.\<close>

lemma rmatch_Star_Set_splits:
  "rmatch (RStar (RSet P)) s c =
     map (\<lambda>k. (drop k s, c)) (rev [0..<Suc (length (takeWhile P s))])"
proof (induction s)
  case Nil
  show ?case by (simp add: rmatch_Star_Set)
next
  case (Cons x s)
  show ?case
  proof (cases "P x")
    case True
    let ?n = "length (takeWhile P s)"
    have "rmatch (RStar (RSet P)) (x # s) c
        = map (\<lambda>k. (drop k s, c)) (rev [0..<Suc ?n]) @ [(x # s, c)]"
      using True Cons.IH by (simp add: rmatch_Star_Set [of P "x # s"] del: upt_Suc)
    also have "\<dots> = map (\<lambda>k. (drop k (x # s), c)) (rev (0 # map Suc [0..<Suc ?n]))"
      by (simp add: rev_map comp_def del: upt_Suc)
    also have "0 # map Suc [0..<Suc ?n] = [0..<Suc (Suc ?n)]"
      by (metis map_Suc_upt upt_conv_Cons zero_less_Suc)
    finally show ?thesis using True by simp
  qed (simp add: rmatch_Star_Set)
qed

lemma rmatch_Seq_Cap_Star:
  assumes "\<forall>x \<in> set w. P x" and "s = [] \<or> \<not> P (hd s)" and "rejects P r"
  shows "rmatch (RSeq (RCap i (RStar (RSet P))) r) (w @ s) c = rmatch r s (c(i \<mapsto> w))"
proof -
  have tw: "takeWhile P (w @ s) = w"
    using assms(1,2) by (cases s) (auto simp: takeWhile_append)
  let ?m = "\<lambda>k. rmatch r (drop k (w @ s))
    (c(i \<mapsto> take (length (w @ s) - length (drop k (w @ s))) (w @ s)))"
  have "rmatch (RSeq (RCap i (RStar (RSet P))) r) (w @ s) c
      = concat (map ?m (rev [0..<Suc (length w)]))"
    by (simp add: rmatch_Star_Set_splits tw comp_def case_prod_unfold del: upt_Suc)
  also have "\<dots> = ?m (length w) @ concat (map ?m (rev [0..<length w]))" by simp
  also have "concat (map ?m (rev [0..<length w])) = []"
  proof -
    have "?m k = []" if k: "k < length w" for k
    proof -
      have "drop k (w @ s) = w ! k # drop (Suc k) w @ s" using k by (simp add: Cons_nth_drop_Suc)
      moreover have "P (w ! k)" using k assms(1) by simp
      ultimately show ?thesis using assms(3) by (simp add: rejects_def)
    qed
    then show ?thesis by simp
  qed
  finally show ?thesis by (simp add: fun_upd_def)
qed

lemma rmatch_Seq_Cap_Plus:
  assumes "w \<noteq> []" and "\<forall>x \<in> set w. P x" and "s = [] \<or> \<not> P (hd s)" and "rejects P r"
  shows "rmatch (RSeq (RCap i (RPlus (RSet P))) r) (w @ s) c = rmatch r s (c(i \<mapsto> w))"
proof -
  obtain x v where w: "w = x # v" using assms(1) by (cases w) auto
  have tw: "takeWhile P (v @ s) = v"
    using assms(2,3) w by (cases s) (auto simp: takeWhile_append)
  let ?m = "\<lambda>k. rmatch r (drop k (v @ s))
    (c(i \<mapsto> take (length (w @ s) - length (drop k (v @ s))) (w @ s)))"
  have "rmatch (RSeq (RCap i (RPlus (RSet P))) r) (w @ s) c
      = concat (map ?m (rev [0..<Suc (length v)]))"
    using assms(2) w
    by (simp add: rmatch_Star_Set_splits tw comp_def case_prod_unfold del: upt_Suc)
  also have "\<dots> = ?m (length v) @ concat (map ?m (rev [0..<length v]))" by simp
  also have "concat (map ?m (rev [0..<length v])) = []"
  proof -
    have "?m k = []" if k: "k < length v" for k
    proof -
      have "drop k (v @ s) = v ! k # drop (Suc k) v @ s" using k by (simp add: Cons_nth_drop_Suc)
      moreover have "P (v ! k)" using k assms(2) w by simp
      ultimately show ?thesis using assms(4) by (simp add: rejects_def)
    qed
    then show ?thesis by simp
  qed
  finally show ?thesis using w by (simp add: fun_upd_def)
qed

section \<open>Searching\<close>

lemma rx_search_Some:
  "rx_search r s = Some (u, t, c) \<Longrightarrow> \<exists>w. s = u @ w @ t \<and> (t, c) \<in> set (rmatch r (w @ t) Map.empty)"
proof (induction s arbitrary: u)
  case Nil
  then have m: "u = []" "(t, c) \<in> set (rmatch r [] Map.empty)"
    by (auto simp: rx_exec_def split: option.splits list.splits)
  with rmatch_suffix [OF m(2)] show ?case by auto
next
  case (Cons x s)
  show ?case
  proof (cases "rx_exec r (x # s)")
    case None
    with Cons.prems obtain v where "u = x # v" "rx_search r s = Some (v, t, c)" by auto
    with Cons.IH [of v] show ?thesis by auto
  next
    case (Some m)
    with Cons.prems have "u = []" and m: "(t, c) \<in> set (rmatch r (x # s) Map.empty)"
      by (auto simp: rx_exec_def split: list.splits)
    moreover obtain w where "x # s = w @ t" using rmatch_suffix [OF m] by blast
    ultimately show ?thesis by auto
  qed
qed

lemma rx_search_shorter:
  assumes "rx_search r s = Some (u, t, c)" "rx_nonempty r"
  shows "length t < length s"
proof -
  obtain w where w: "s = u @ w @ t" "(t, c) \<in> set (rmatch r (w @ t) Map.empty)"
    using rx_search_Some [OF assms(1)] by blast
  from rmatch_nonempty [OF assms(2) w(2)] w(1) show ?thesis by simp
qed

text \<open>The fuel is enough: more of it changes nothing.\<close>

lemma rx_matches_fuel:
  "\<lbrakk> rx_nonempty r; length s < n; length s < m \<rbrakk> \<Longrightarrow> rx_matches n r s = rx_matches m r s"
proof (induction n arbitrary: m s)
  case (Suc n)
  then obtain k where m: "m = Suc k" by (cases m) auto
  have "rx_matches n r t = rx_matches k r t" if "rx_search r s = Some (u, t, c)" for u t c
    using rx_search_shorter [OF that Suc.prems(1)] Suc.prems m by (intro Suc.IH) auto
  then show ?case using m by (auto split: option.splits)
qed simp

section \<open>Deterministic steps\<close>

lemma rmatch_step [rx_simps]:
  "rmatch (RSeq (RLit l) r) s c = (case strip_prefix l s of None \<Rightarrow> [] | Some t \<Rightarrow> rmatch r t c)"
  "rmatch (RSeq (RAlt a b) r) s c = rmatch (RSeq a r) s c @ rmatch (RSeq b r) s c"
  "rmatch (RSeq REps r) s c = rmatch r s c"
  "rmatch (RSeq (RCap i (RAlt a b)) r) s c = rmatch (RSeq (RCap i a) r) s c @ rmatch (RSeq (RCap i b) r) s c"
  "c j = Some w \<Longrightarrow> rmatch (RSeq (RRef j) r) s c = (case strip_prefix w s of None \<Rightarrow> [] | Some t \<Rightarrow> rmatch r t c)"
  by (simp_all add: case_prod_unfold comp_def split: option.split)

lemma rmatch_Cap_Lit [rx_simps]:
  "rmatch (RSeq (RCap i (RLit l)) r) s c = (case strip_prefix l s of None \<Rightarrow> [] | Some t \<Rightarrow> rmatch r t (c(i \<mapsto> l)))"
  by (auto split: option.split)

declare rmatch.simps(4) [simp del]

text \<open>All the characters a pattern consumes are of the class \<open>P\<close>.\<close>

fun rx_over :: "(char \<Rightarrow> bool) \<Rightarrow> rx \<Rightarrow> bool" where
  "rx_over P (RSet Q) \<longleftrightarrow> (\<forall>x. Q x \<longrightarrow> P x)"
| "rx_over P (RLit l) \<longleftrightarrow> list_all P l"
| "rx_over P (RSeq a b) \<longleftrightarrow> rx_over P a \<and> rx_over P b"
| "rx_over P (RAlt a b) \<longleftrightarrow> rx_over P a \<and> rx_over P b"
| "rx_over P (RStar a) \<longleftrightarrow> rx_over P a"
| "rx_over P (RCap i a) \<longleftrightarrow> rx_over P a"
| "rx_over P (RRef i) \<longleftrightarrow> False"
| "rx_over P _ \<longleftrightarrow> True"

lemma rmatch_over:
  "\<lbrakk> (t, d) \<in> set (rmatch r s c); rx_over P r \<rbrakk> \<Longrightarrow> \<exists>u. s = u @ t \<and> list_all P u"
proof (induction r s c arbitrary: t d rule: rmatch.induct)
  case (2 l s c)
  then show ?case by (auto split: option.splits)
next
  case (4 a b s c)
  then obtain t1 d1 where 1: "(t1, d1) \<in> set (rmatch a s c)" "(t, d) \<in> set (rmatch b t1 d1)"
    by (auto simp: rmatch.simps(4))
  with 4 obtain u where "s = u @ t1" "list_all P u" by fastforce
  moreover obtain v where "t1 = v @ t" "list_all P v" using "4.IH"(2) [OF 1(1) refl 1(2)] "4.prems"(2) by auto
  ultimately show ?case by auto
next
  case (6 r s c)
  show ?case
  proof (cases "t = s")
    case False
    then obtain t1 d1 where 1: "(t1, d1) \<in> set (rmatch r s (reset_groups r c))" "length t1 < length s"
      "(t, d) \<in> set (rmatch (RStar r) t1 d1)"
      using "6.prems"(1) by (auto simp: rmatch.simps(6) [of r s] split: if_splits)
    obtain u where "s = u @ t1" "list_all P u" using "6.IH"(1) [OF 1(1)] "6.prems"(2) by auto
    moreover obtain v where "t1 = v @ t" "list_all P v"
      using "6.IH"(2) [OF 1(1) refl 1(2,3)] "6.prems"(2) by auto
    ultimately show ?thesis by auto
  qed auto
next
  case (7 i r s c)
  then show ?case by fastforce
qed (auto split: list.splits if_splits)

lemma rx_test_match:
  assumes "rx_test r s" obtains d where "([], d) \<in> set (rmatch r s Map.empty)"
proof -
  obtain t d where "(t, d) \<in> set (rmatch (RSeq r REnd) s Map.empty)"
    using assms by (auto simp: rx_test_def rx_full_def rx_exec_def split: list.splits)
  then show thesis using that by (auto simp: rmatch.simps(4) split: if_splits)
qed

lemma rx_test_over: "\<lbrakk> rx_test r s; rx_over P r \<rbrakk> \<Longrightarrow> list_all P s"
  by (elim rx_test_match) (auto dest: rmatch_over)

lemma rx_test_nonempty: "\<lbrakk> rx_test r s; rx_nonempty r \<rbrakk> \<Longrightarrow> s \<noteq> []"
  by (elim rx_test_match) (auto dest: rmatch_nonempty)

end
