(* ===== verification/Billing_Syntax.thy ===== *)
theory Billing_Syntax
  imports JS_Json JS_Regex
begin

text \<open>
  The syntax of pricing expressions (\<open>web/src/features/pricing/lib/billing-expr.ts\<close>): the
  variable registry, the tokenizer \<open>pricingTokens\<close>, the recursive-descent parser
  \<open>PricingParser\<close> with its depth limit, and \<open>parsePricingExpression\<close>.

  The parser object's mutable \<open>index\<close> is modelled by the list of the tokens that remain, which
  every method takes and returns.  The parser's \<open>while\<close> loops are the functions
  \<open>pp_binary_loop\<close> and \<open>pp_args\<close>; termination of the whole parser is proved from the depth
  limit and from the fact that no method gives tokens back.
\<close>

section \<open>Variable registry\<close>

datatype billing_side = SideInput | SideOutput | SideCondition

record billing_var =
  bv_key :: string
  bv_field :: "string option"
  bv_tierField :: "string option"
  bv_label :: string
  bv_shortLabel :: string
  bv_side :: billing_side
  bv_isBase :: bool
  bv_isConditionOnly :: bool
  bv_group :: "string option"

definition base_var :: "string \<Rightarrow> string \<Rightarrow> string \<Rightarrow> string \<Rightarrow> string \<Rightarrow> billing_side \<Rightarrow> billing_var" where
  "base_var k f t l sl sd = \<lparr>bv_key = k, bv_field = Some f, bv_tierField = Some t, bv_label = l,
     bv_shortLabel = sl, bv_side = sd, bv_isBase = True, bv_isConditionOnly = False, bv_group = None\<rparr>"

definition extra_var ::
  "string \<Rightarrow> string \<Rightarrow> string \<Rightarrow> string \<Rightarrow> string \<Rightarrow> billing_side \<Rightarrow> string \<Rightarrow> billing_var" where
  "extra_var k f t l sl sd g = \<lparr>bv_key = k, bv_field = Some f, bv_tierField = Some t, bv_label = l,
     bv_shortLabel = sl, bv_side = sd, bv_isBase = False, bv_isConditionOnly = False, bv_group = Some g\<rparr>"

definition len_var :: billing_var where
  "len_var = \<lparr>bv_key = ''len'', bv_field = None, bv_tierField = None, bv_label = ''Input length'',
     bv_shortLabel = ''Length'', bv_side = SideCondition, bv_isBase = False,
     bv_isConditionOnly = True, bv_group = None\<rparr>"

definition BILLING_VARS :: "billing_var list" where
  "BILLING_VARS =
    [base_var ''p'' ''inputPrice'' ''input_unit_cost'' ''Input price'' ''Input'' SideInput,
     base_var ''c'' ''outputPrice'' ''output_unit_cost'' ''Completion price'' ''Output'' SideOutput,
     len_var,
     extra_var ''cr'' ''cacheReadPrice'' ''cache_read_unit_cost''
       ''Cache read price'' ''Cache Read'' SideInput ''cache'',
     extra_var ''cc'' ''cacheCreatePrice'' ''cache_create_unit_cost''
       ''Cache create price'' ''Cache Write'' SideInput ''cache'',
     extra_var ''cc1h'' ''cacheCreate1hPrice'' ''cache_create_1h_unit_cost''
       ''Cache create (1h) price'' ''Cache Write (1h)'' SideInput ''cache'',
     extra_var ''cc12h'' ''cacheCreate12hPrice'' ''cache_create_12h_unit_cost''
       ''Cache create (12h) price'' ''Cache Write (12h)'' SideInput ''cache'',
     extra_var ''img'' ''imagePrice'' ''image_unit_cost''
       ''Image input price'' ''Image In'' SideInput ''media'',
     extra_var ''img_o'' ''imageOutputPrice'' ''image_output_unit_cost''
       ''Image output price'' ''Image Out'' SideOutput ''media'',
     extra_var ''ai'' ''audioInputPrice'' ''audio_input_unit_cost''
       ''Audio input price'' ''Audio In'' SideInput ''media'',
     extra_var ''ao'' ''audioOutputPrice'' ''audio_output_unit_cost''
       ''Audio output price'' ''Audio Out'' SideOutput ''media'']"

definition BILLING_PRICING_VARS :: "billing_var list" where
  "BILLING_PRICING_VARS = filter (\<lambda>v. \<not> bv_isConditionOnly v) BILLING_VARS"

definition BILLING_CONDITION_VARS :: "string list" where
  "BILLING_CONDITION_VARS =
     map bv_key (filter (\<lambda>v. bv_isBase v \<or> bv_isConditionOnly v) BILLING_VARS)"

definition BILLING_VAR_KEY_TO_FIELD :: "(string \<times> string) list" where
  "BILLING_VAR_KEY_TO_FIELD = map (\<lambda>v. (bv_key v, the (bv_field v))) BILLING_PRICING_VARS"

definition BILLING_EXTRA_VARS :: "billing_var list" where
  "BILLING_EXTRA_VARS = filter (\<lambda>v. \<not> bv_isBase v \<and> \<not> bv_isConditionOnly v) BILLING_VARS"

text \<open>Pairs of the tier's field and the expression's variable.\<close>

definition BILLING_CACHE_VAR_MAP :: "(string \<times> string) list" where
  "BILLING_CACHE_VAR_MAP = map (\<lambda>v. (the (bv_tierField v), bv_key v)) BILLING_EXTRA_VARS"

lemmas billing_var_defs = BILLING_VARS_def base_var_def extra_var_def len_var_def

lemma BILLING_CONDITION_VARS_eq: "BILLING_CONDITION_VARS = [''p'', ''c'', ''len'']"
  by (simp add: BILLING_CONDITION_VARS_def billing_var_defs)

lemma billing_keys_distinct: "distinct (map bv_key BILLING_VARS)"
  by (simp add: billing_var_defs)

section \<open>Numeric literals\<close>

definition digits_rx :: rx where "digits_rx = RSet is_digit"

text \<open>\<open>(?:\d+\.?\d*|\.\d+)(?:[eE][+-]?\d+)?\<close>\<close>

definition unsigned_literal_rx :: rx where
  "unsigned_literal_rx =
     RSeq (RAlt (RSeqs [RPlus digits_rx, RQuest (RLit ''.''), RStar digits_rx])
                (RSeq (RLit ''.'') (RPlus digits_rx)))
          (RQuest (RSeqs [RSet (\<lambda>c. c = CHR ''e'' \<or> c = CHR ''E''),
                          RQuest (RSet (\<lambda>c. c = CHR ''+'' \<or> c = CHR ''-'')), RPlus digits_rx]))"

text \<open>\<open>NUMERIC_LITERAL_REGEX = /^-?(?:\d+\.?\d*|\.\d+)(?:[eE][+-]?\d+)?$/\<close>\<close>

definition NUMERIC_LITERAL_REGEX :: rx where
  "NUMERIC_LITERAL_REGEX = RSeq (RQuest (RLit ''-'')) unsigned_literal_rx"

section \<open>Tokens\<close>

definition stripExprVersion :: "string \<Rightarrow> jsnum \<times> string" where
  "stripExprVersion exprStr =
     (if exprStr = [] then (Fin 1, [])
      else case rx_full (RSeqs [RLit ''v'', RCap 1 (RPlus digits_rx), RLit '':'',
                                RCap 2 (RStar (RSet (\<lambda>_. True)))]) exprStr of
             Some m \<Rightarrow> (js_number (grp m 1), grp m 2)
           | None \<Rightarrow> (Fin 1, exprStr))"

record pricing_token =
  tok_text :: string
  tok_start :: nat
  tok_end :: nat

text \<open>A string literal \<open>"(?:[^"\\]|\\.)*"\<close>, an identifier \<open>[A-Za-z_]\w*\<close>, and the sticky
  token pattern.\<close>

definition quoted_rx :: rx where
  "quoted_rx = RSeqs [RLit [dquote],
     RStar (RAlt (RSet (\<lambda>c. c \<noteq> dquote \<and> c \<noteq> backslash))
                 (RSeq (RLit [backslash]) (RSet (\<lambda>c. ordc c \<noteq> 10 \<and> ordc c \<noteq> 13)))),
     RLit [dquote]]"

definition ident_rx :: rx where
  "ident_rx = RSeq (RSet is_alpha_us) (RStar (RSet is_word))"

definition token_rx :: rx where
  "token_rx = RAlts [quoted_rx, unsigned_literal_rx, ident_rx,
     RLit ''&&'', RLit ''||'', RLit ''<='', RLit ''>='', RLit ''=='', RLit ''!='',
     RSet (\<lambda>c. c \<in> set ''()+*/%?:,!<>-'')]"

lemma token_rx_nonempty: "rx_nonempty token_rx"
  by (simp add: token_rx_def quoted_rx_def unsigned_literal_rx_def ident_rx_def digits_rx_def)

function lex_loop :: "string \<Rightarrow> nat \<Rightarrow> pricing_token list \<Rightarrow> pricing_token list exn" where
  "lex_loop source index tokens =
     (if index < length source then
        if is_ws (source ! index) then lex_loop source (Suc index) tokens
        else case rx_exec token_rx (drop index source) of
            None \<Rightarrow> Inl ''Unsupported pricing syntax''
          | Some (rest, _) \<Rightarrow>
              let lastIndex = length source - length rest;
                  tokens' = tokens @ [\<lparr>tok_text = js_slice source index lastIndex,
                                       tok_start = index, tok_end = lastIndex\<rparr>]
              in if length tokens' > 4096 then Inl ''Pricing expression is too complex''
                 else lex_loop source lastIndex tokens'
      else Inr tokens)"
  by pat_completeness auto

lemma token_rx_progress:
  assumes "rx_exec token_rx (drop index source) = Some (rest, c)"
  shows "length rest < length source - index"
proof -
  have "(rest, c) \<in> set (rmatch token_rx (drop index source) Map.empty)"
    using assms by (auto simp: rx_exec_def split: list.splits)
  from rmatch_nonempty [OF token_rx_nonempty this] show ?thesis by simp
qed

termination lex_loop
  by (relation "measure (\<lambda>(source, index, tokens). length source - index)")
     (auto dest: token_rx_progress)

declare lex_loop.simps [simp del]

definition pricingTokens :: "string \<Rightarrow> pricing_token list exn" where
  "pricingTokens source =
     (if length source > 32768 then Inl ''Pricing expression is too large''
      else lex_loop source 0 [])"

definition PRICING_PRECEDENCE :: "(string \<times> nat) list" where
  "PRICING_PRECEDENCE =
     [(''||'', 1), (''&&'', 2), (''=='', 3), (''!='', 3), (''<'', 4), (''<='', 4), (''>'', 4),
      (''>='', 4), (''+'', 5), (''-'', 5), (''*'', 6), (''/'', 6), (''%'', 6)]"

section \<open>Syntax trees\<close>

datatype pnode =
    NNumber (nstart: nat) (nend: nat) jsnum
  | NString (nstart: nat) (nend: nat) string
  | NVariable (nstart: nat) (nend: nat) string
  | NCall (nstart: nat) (nend: nat) string "pnode list"
  | NUnary (nstart: nat) (nend: nat) string pnode
  | NBinary (nstart: nat) (nend: nat) string pnode pnode
  | NConditional (nstart: nat) (nend: nat) pnode pnode pnode

text \<open>\<open>{ ...node, start, end }\<close>\<close>

fun with_span :: "pnode \<Rightarrow> nat \<Rightarrow> nat \<Rightarrow> pnode" where
  "with_span (NNumber _ _ v) s e = NNumber s e v"
| "with_span (NString _ _ v) s e = NString s e v"
| "with_span (NVariable _ _ n) s e = NVariable s e n"
| "with_span (NCall _ _ n xs) s e = NCall s e n xs"
| "with_span (NUnary _ _ p v) s e = NUnary s e p v"
| "with_span (NBinary _ _ p l r) s e = NBinary s e p l r"
| "with_span (NConditional _ _ c y n) s e = NConditional s e c y n"

section \<open>The parser\<close>

type_synonym ptoks = "pricing_token list"

definition pp_peek :: "ptoks \<Rightarrow> string option" where
  "pp_peek ts = (case ts of [] \<Rightarrow> None | t # _ \<Rightarrow> Some (tok_text t))"

definition pp_take :: "string option \<Rightarrow> ptoks \<Rightarrow> (pricing_token \<times> ptoks) exn" where
  "pp_take expected ts =
     (case ts of
        [] \<Rightarrow> Inl ''Incomplete pricing expression''
      | t # rest \<Rightarrow>
          if (case expected of None \<Rightarrow> False | Some x \<Rightarrow> tok_text t \<noteq> x)
          then Inl ''Incomplete pricing expression'' else Inr (t, rest))"

text \<open>The precedence of the next token; 0 for no token and for a token that is no operator.\<close>

definition pp_precedence :: "string option \<Rightarrow> nat" where
  "pp_precedence op =
     (case op of None \<Rightarrow> 0 | Some s \<Rightarrow> coalesce (map_of PRICING_PRECEDENCE s) 0)"

function
  pp_expression :: "nat \<Rightarrow> ptoks \<Rightarrow> (pnode \<times> ptoks) exn" and
  pp_binary :: "nat \<Rightarrow> nat \<Rightarrow> ptoks \<Rightarrow> (pnode \<times> ptoks) exn" and
  pp_binary_loop :: "nat \<Rightarrow> nat \<Rightarrow> pnode \<Rightarrow> ptoks \<Rightarrow> (pnode \<times> ptoks) exn" and
  pp_primary :: "nat \<Rightarrow> ptoks \<Rightarrow> (pnode \<times> ptoks) exn" and
  pp_args :: "nat \<Rightarrow> pnode list \<Rightarrow> ptoks \<Rightarrow> (pnode list \<times> ptoks) exn"
where
  "pp_expression depth ts =
     (if depth > 128 then Inl ''Pricing expression is too deep''
      else bind_exn (pp_binary 1 (depth + 1) ts) (\<lambda>(condition, ts).
        if pp_peek ts \<noteq> Some ''?'' then Inr (condition, ts)
        else bind_exn (pp_take (Some ''?'') ts) (\<lambda>(_, ts).
             bind_exn (pp_expression (depth + 1) ts) (\<lambda>(yes, ts).
             bind_exn (pp_take (Some '':'') ts) (\<lambda>(_, ts).
             bind_exn (pp_expression (depth + 1) ts) (\<lambda>(no, ts).
               Inr (NConditional (nstart condition) (nend no) condition yes no, ts)))))))"
| "pp_binary minimum depth ts =
     bind_exn (pp_primary (depth + 1) ts) (\<lambda>(left, ts). pp_binary_loop minimum depth left ts)"
| "pp_binary_loop minimum depth left ts =
     (let precedence = pp_precedence (pp_peek ts)
      in if precedence < minimum then Inr (left, ts)
         else bind_exn (pp_take None ts) (\<lambda>(op, ts).
              bind_exn (pp_binary (precedence + 1) (depth + 1) ts) (\<lambda>(right, ts).
                pp_binary_loop minimum depth
                  (NBinary (nstart left) (nend right) (tok_text op) left right) ts)))"
| "pp_primary depth ts =
     (if depth > 128 then Inl ''Pricing expression is too deep''
      else bind_exn (pp_take None ts) (\<lambda>(token, ts).
        if tok_text token = ''('' then
          bind_exn (pp_expression (depth + 1) ts) (\<lambda>(node, ts).
          bind_exn (pp_take (Some '')'') ts) (\<lambda>(close, ts).
            Inr (with_span node (tok_start token) (tok_end close), ts)))
        else if tok_text token \<in> {''+'', ''-'', ''!''} then
          bind_exn (pp_primary (depth + 1) ts) (\<lambda>(v, ts).
            Inr (NUnary (tok_start token) (nend v) (tok_text token) v, ts))
        else if js_starts_with (tok_text token) [dquote] then
          (case json_parse_string (tok_text token) of
             None \<Rightarrow> Inl json_syntax_error
           | Some v \<Rightarrow> Inr (NString (tok_start token) (tok_end token) v, ts))
        else if rx_test NUMERIC_LITERAL_REGEX (tok_text token) then
          (let v = js_number (tok_text token)
           in if \<not> is_finite v then Inl ''Invalid pricing number''
              else Inr (NNumber (tok_start token) (tok_end token) v, ts))
        else if \<not> rx_test ident_rx (tok_text token) then Inl ''Invalid pricing operand''
        else if pp_peek ts \<noteq> Some ''('' then
          Inr (NVariable (tok_start token) (tok_end token) (tok_text token), ts)
        else
          bind_exn (pp_take (Some ''('') ts) (\<lambda>(_, ts).
          bind_exn
            (if pp_peek ts \<noteq> Some '')'' then
               bind_exn (pp_expression (depth + 1) ts) (\<lambda>(a, ts). pp_args depth [a] ts)
             else Inr ([], ts)) (\<lambda>(args, ts).
          bind_exn (pp_take (Some '')'') ts) (\<lambda>(close, ts).
            Inr (NCall (tok_start token) (tok_end close) (tok_text token) args, ts))))))"
| "pp_args depth args ts =
     (if pp_peek ts = Some '','' then
        bind_exn (pp_take (Some '','') ts) (\<lambda>(_, ts).
        bind_exn (pp_expression (depth + 1) ts) (\<lambda>(a, ts).
          pp_args depth (args @ [a]) ts))
      else Inr (args, ts))"
  by pat_completeness auto

section \<open>Runs of the parser\<close>

text \<open>
  The successful runs of the parser as a relation between the tokens at hand, the tree and the
  tokens left over, with precedence climbing, the depth limit and the spans, so that properties of parsed
  trees are proved by rule induction.  The grammar of the language is in \<open>Pricing_Grammar\<close>.
\<close>

definition operand_token :: "pricing_token \<Rightarrow> bool" where
  "operand_token t \<longleftrightarrow> tok_text t \<noteq> ''('' \<and> tok_text t \<notin> {''+'', ''-'', ''!''}"

definition number_token :: "pricing_token \<Rightarrow> bool" where
  "number_token t \<longleftrightarrow> operand_token t \<and> \<not> js_starts_with (tok_text t) [dquote] \<and>
     rx_test NUMERIC_LITERAL_REGEX (tok_text t)"

definition name_token :: "pricing_token \<Rightarrow> bool" where
  "name_token t \<longleftrightarrow> operand_token t \<and> \<not> js_starts_with (tok_text t) [dquote] \<and>
     \<not> rx_test NUMERIC_LITERAL_REGEX (tok_text t) \<and> rx_test ident_rx (tok_text t)"

inductive
  g_expr :: "nat \<Rightarrow> ptoks \<Rightarrow> pnode \<Rightarrow> ptoks \<Rightarrow> bool" and
  g_binary :: "nat \<Rightarrow> nat \<Rightarrow> ptoks \<Rightarrow> pnode \<Rightarrow> ptoks \<Rightarrow> bool" and
  g_loop :: "nat \<Rightarrow> nat \<Rightarrow> pnode \<Rightarrow> ptoks \<Rightarrow> pnode \<Rightarrow> ptoks \<Rightarrow> bool" and
  g_primary :: "nat \<Rightarrow> ptoks \<Rightarrow> pnode \<Rightarrow> ptoks \<Rightarrow> bool" and
  g_args :: "nat \<Rightarrow> pnode list \<Rightarrow> ptoks \<Rightarrow> pnode list \<Rightarrow> ptoks \<Rightarrow> bool"
where
  g_plain: "\<lbrakk> d \<le> 128; g_binary 1 (d + 1) ts n ts'; pp_peek ts' \<noteq> Some ''?'' \<rbrakk> \<Longrightarrow> g_expr d ts n ts'"
| g_cond: "\<lbrakk> d \<le> 128; g_binary 1 (d + 1) ts c (q # t2); tok_text q = ''?'';
     g_expr (d + 1) t2 y (k # t4); tok_text k = '':''; g_expr (d + 1) t4 n ts' \<rbrakk>
   \<Longrightarrow> g_expr d ts (NConditional (nstart c) (nend n) c y n) ts'"
| g_bin: "\<lbrakk> g_primary (d + 1) ts l t1; g_loop m d l t1 n ts' \<rbrakk> \<Longrightarrow> g_binary m d ts n ts'"
| g_stop: "pp_precedence (pp_peek ts) < m \<Longrightarrow> g_loop m d l ts l ts"
| g_step: "\<lbrakk> m \<le> pp_precedence (Some (tok_text t));
     g_binary (pp_precedence (Some (tok_text t)) + 1) (d + 1) t1 r t2;
     g_loop m d (NBinary (nstart l) (nend r) (tok_text t) l r) t2 n ts' \<rbrakk>
   \<Longrightarrow> g_loop m d l (t # t1) n ts'"
| g_paren: "\<lbrakk> d \<le> 128; tok_text t = ''(''; g_expr (d + 1) t1 n (k # ts'); tok_text k = '')'' \<rbrakk>
   \<Longrightarrow> g_primary d (t # t1) (with_span n (tok_start t) (tok_end k)) ts'"
| g_unary: "\<lbrakk> d \<le> 128; tok_text t \<in> {''+'', ''-'', ''!''}; g_primary (d + 1) t1 v ts' \<rbrakk>
   \<Longrightarrow> g_primary d (t # t1) (NUnary (tok_start t) (nend v) (tok_text t) v) ts'"
| g_string: "\<lbrakk> d \<le> 128; operand_token t; js_starts_with (tok_text t) [dquote];
     json_parse_string (tok_text t) = Some v \<rbrakk>
   \<Longrightarrow> g_primary d (t # ts) (NString (tok_start t) (tok_end t) v) ts"
| g_number: "\<lbrakk> d \<le> 128; number_token t; is_finite (js_number (tok_text t)) \<rbrakk>
   \<Longrightarrow> g_primary d (t # ts) (NNumber (tok_start t) (tok_end t) (js_number (tok_text t))) ts"
| g_variable: "\<lbrakk> d \<le> 128; name_token t; pp_peek ts \<noteq> Some ''('' \<rbrakk>
   \<Longrightarrow> g_primary d (t # ts) (NVariable (tok_start t) (tok_end t) (tok_text t)) ts"
| g_call0: "\<lbrakk> d \<le> 128; name_token t; tok_text q = ''(''; tok_text k = '')'' \<rbrakk>
   \<Longrightarrow> g_primary d (t # q # k # ts) (NCall (tok_start t) (tok_end k) (tok_text t) []) ts"
| g_call: "\<lbrakk> d \<le> 128; name_token t; tok_text q = ''(''; pp_peek t2 \<noteq> Some '')'';
     g_expr (d + 1) t2 a t4; g_args d [a] t4 as (k # ts'); tok_text k = '')'' \<rbrakk>
   \<Longrightarrow> g_primary d (t # q # t2) (NCall (tok_start t) (tok_end k) (tok_text t) as) ts'"
| g_args_stop: "pp_peek ts \<noteq> Some '','' \<Longrightarrow> g_args d as ts as ts"
| g_args_step: "\<lbrakk> tok_text q = '',''; g_expr (d + 1) t1 a t2; g_args d (as @ [a]) t2 bs ts' \<rbrakk>
   \<Longrightarrow> g_args d as (q # t1) bs ts'"

lemma pp_take_eq [simp]:
  "pp_take None ts = Inr (t, r) \<longleftrightarrow> ts = t # r"
  "pp_take (Some x) ts = Inr (t, r) \<longleftrightarrow> ts = t # r \<and> tok_text t = x"
  by (auto simp: pp_take_def split: list.splits if_splits)

lemma pp_peek_simps [simp]:
  "pp_peek [] = None" "pp_peek (t # ts) = Some (tok_text t)"
  by (simp_all add: pp_peek_def)

lemma pp_precedence_None [simp]: "pp_precedence None = 0"
  by (simp add: pp_precedence_def)

lemma g_length:
  "g_expr d ts n ts' \<Longrightarrow> length ts' \<le> length ts"
  "g_binary m d ts n ts' \<Longrightarrow> length ts' \<le> length ts"
  "g_loop m d l ts n ts' \<Longrightarrow> length ts' \<le> length ts"
  "g_primary d ts n ts' \<Longrightarrow> length ts' \<le> length ts"
  "g_args d as ts bs ts' \<Longrightarrow> length ts' \<le> length ts"
  by (induction rule: g_expr_g_binary_g_loop_g_primary_g_args.inducts) auto

text \<open>The parser's results are derivations of the grammar; proved before termination, from it the
  termination measure follows.\<close>

lemma pp_grammar:
  shows "pp_expression_pp_binary_pp_binary_loop_pp_primary_pp_args_dom (Inl (Inl (d, ts))) \<Longrightarrow>
      (\<forall>n ts'. pp_expression d ts = Inr (n, ts') \<longrightarrow> g_expr d ts n ts')"
    and "pp_expression_pp_binary_pp_binary_loop_pp_primary_pp_args_dom (Inl (Inr (m, d, ts))) \<Longrightarrow>
      (\<forall>n ts'. pp_binary m d ts = Inr (n, ts') \<longrightarrow> g_binary m d ts n ts')"
    and "pp_expression_pp_binary_pp_binary_loop_pp_primary_pp_args_dom (Inr (Inl (m, d, l, ts))) \<Longrightarrow>
      (\<forall>n ts'. pp_binary_loop m d l ts = Inr (n, ts') \<longrightarrow> g_loop m d l ts n ts')"
    and "pp_expression_pp_binary_pp_binary_loop_pp_primary_pp_args_dom (Inr (Inr (Inl (d, ts)))) \<Longrightarrow>
      (\<forall>n ts'. pp_primary d ts = Inr (n, ts') \<longrightarrow> g_primary d ts n ts')"
    and "pp_expression_pp_binary_pp_binary_loop_pp_primary_pp_args_dom (Inr (Inr (Inr (d, xs, ts)))) \<Longrightarrow>
      (\<forall>n ts'. pp_args d xs ts = Inr (n, ts') \<longrightarrow> g_args d xs ts n ts')"
proof (induction d ts and m d ts and m d l ts and d ts and d xs ts
    rule: pp_expression_pp_binary_pp_binary_loop_pp_primary_pp_args.pinduct)
  case (1 d ts)
  show ?case
  proof (intro allI impI)
    fix n ts' assume r: "pp_expression d ts = Inr (n, ts')"
    then obtain c t1 where nd: "\<not> 128 < d" and b: "pp_binary 1 (d + 1) ts = Inr (c, t1)"
      by (auto simp: pp_expression.psimps [OF 1(1)] split: if_splits)
    have g: "g_binary 1 (d + 1) ts c t1" using 1(2) [OF nd] b by blast
    show "g_expr d ts n ts'"
    proof (cases "pp_peek t1 \<noteq> Some ''?''")
      case True
      with r b nd g show ?thesis by (auto simp: pp_expression.psimps [OF 1(1)] intro: g_plain)
    next
      case False
      with r b nd obtain q t2 y k t4 z where s: "t1 = q # t2" "tok_text q = ''?''"
        "pp_expression (d + 1) t2 = Inr (y, k # t4)" "tok_text k = '':''"
        "pp_expression (d + 1) t4 = Inr (z, ts')"
        "n = NConditional (nstart c) (nend z) c y z"
        by (auto simp: pp_expression.psimps [OF 1(1)])
      have "g_expr (d + 1) t2 y (k # t4)" using 1(3) [OF nd b refl False _ refl] s by simp
      moreover have "g_expr (d + 1) t4 z ts'"
        using 1(4) [OF nd b refl False _ refl s(3) refl _ refl] s by simp
      ultimately show ?thesis using nd g s by (auto intro: g_cond)
    qed
  qed
next
  case (2 m d ts)
  then show ?case by (auto simp: pp_binary.psimps [OF 2(1)] intro: g_bin)
next
  case (3 m d l ts)
  show ?case
  proof (intro allI impI)
    fix n ts' assume r: "pp_binary_loop m d l ts = Inr (n, ts')"
    show "g_loop m d l ts n ts'"
    proof (cases "pp_precedence (pp_peek ts) < m")
      case True
      with r show ?thesis by (auto simp: pp_binary_loop.psimps [OF 3(1)] intro: g_stop)
    next
      case False
      with r obtain t t1 rt t2 where s: "ts = t # t1"
        "pp_binary (pp_precedence (pp_peek ts) + 1) (d + 1) t1 = Inr (rt, t2)"
        "pp_binary_loop m d (NBinary (nstart l) (nend rt) (tok_text t) l rt) t2 = Inr (n, ts')"
        by (auto simp: pp_binary_loop.psimps [OF 3(1)] Let_def)
      have "g_binary (pp_precedence (pp_peek ts) + 1) (d + 1) t1 rt t2"
        using 3(2) [OF refl False _ refl] s by simp
      moreover have "g_loop m d (NBinary (nstart l) (nend rt) (tok_text t) l rt) t2 n ts'"
        using 3(3) [OF refl False _ refl s(2) refl] s by simp
      ultimately show ?thesis using False s by (auto intro: g_step)
    qed
  qed
next
  case (4 d ts)
  show ?case
  proof (intro allI impI)
    fix n ts' assume r: "pp_primary d ts = Inr (n, ts')"
    then obtain t t1 where nd: "\<not> 128 < d" and ts: "ts = t # t1"
      by (auto simp: pp_primary.psimps [OF 4(1)] split: if_splits)
    have s: "pp_take None ts = Inr (t, t1)" using ts by simp
    note eq = r [unfolded pp_primary.psimps [OF 4(1)], simplified nd s if_False bind_exn_simps prod.case]
    consider (paren) "tok_text t = ''(''" | (unary) "tok_text t \<in> {''+'', ''-'', ''!''}"
      | (leaf) "operand_token t" "\<not> (name_token t \<and> pp_peek t1 = Some ''('')"
      | (call) "name_token t" "pp_peek t1 = Some ''(''"
      by (auto simp: operand_token_def)
    then show "g_primary d ts n ts'"
    proof cases
      case paren
      with eq obtain e k where v: "pp_expression (d + 1) t1 = Inr (e, k # ts')" "tok_text k = '')''"
        "n = with_span e (tok_start t) (tok_end k)" by auto
      then show ?thesis using 4(2) [OF nd s refl paren] paren nd ts by (auto intro: g_paren)
    next
      case unary
      then have np: "tok_text t \<noteq> ''(''" by auto
      with eq unary obtain v where v: "pp_primary (d + 1) t1 = Inr (v, ts')"
        "n = NUnary (tok_start t) (nend v) (tok_text t) v" by auto
      then show ?thesis using 4(3) [OF nd s refl np unary] unary nd ts by (auto intro: g_unary)
    next
      case leaf
      then show ?thesis using eq nd ts
        by (auto simp: Let_def operand_token_def number_token_def name_token_def
            intro!: g_string g_number g_variable split: if_splits option.splits)
    next
      case call
      then have c: "tok_text t \<noteq> ''(''" "tok_text t \<notin> {''+'', ''-'', ''!''}"
        "\<not> js_starts_with (tok_text t) [dquote]" "\<not> rx_test NUMERIC_LITERAL_REGEX (tok_text t)"
        "\<not> \<not> rx_test ident_rx (tok_text t)" "\<not> pp_peek t1 \<noteq> Some ''(''"
        by (auto simp: operand_token_def name_token_def)
      with eq obtain q t2 as k where w: "t1 = q # t2" "tok_text q = ''(''"
        "(if pp_peek t2 \<noteq> Some '')'' then
           bind_exn (pp_expression (d + 1) t2) (\<lambda>(a, ts). pp_args d [a] ts)
         else Inr ([], t2)) = Inr (as, k # ts')"
        "tok_text k = '')''" "n = NCall (tok_start t) (tok_end k) (tok_text t) as"
        by auto
      have q: "pp_take (Some ''('') t1 = Inr (q, t2)" using w by simp
      show ?thesis
      proof (cases "pp_peek t2 \<noteq> Some '')''")
        case True
        with w(3) obtain a t4 where x: "pp_expression (d + 1) t2 = Inr (a, t4)"
          "pp_args d [a] t4 = Inr (as, k # ts')" by auto
        have "g_expr (d + 1) t2 a t4" using 4(4) [OF nd s refl c q refl True] x(1) by blast
        moreover have "g_args d [a] t4 as (k # ts')"
          using 4(5) [OF nd s refl c q refl True x(1) refl] x(2) by blast
        ultimately show ?thesis using w call nd ts True by (auto intro: g_call)
      next
        case False
        then show ?thesis using w call nd ts by (auto intro: g_call0)
      qed
    qed
  qed
next
  case (5 d as ts)
  show ?case
  proof (intro allI impI)
    fix n ts' assume r: "pp_args d as ts = Inr (n, ts')"
    show "g_args d as ts n ts'"
    proof (cases "pp_peek ts = Some '',''")
      case False
      with r show ?thesis by (auto simp: pp_args.psimps [OF 5(1)] intro: g_args_stop)
    next
      case True
      with r obtain q t1 a t2 where s: "ts = q # t1" "tok_text q = '',''"
        "pp_expression (d + 1) t1 = Inr (a, t2)" "pp_args d (as @ [a]) t2 = Inr (n, ts')"
        by (auto simp: pp_args.psimps [OF 5(1)])
      have "g_expr (d + 1) t1 a t2" using 5(2) [OF True _ refl] s by simp
      moreover have "g_args d (as @ [a]) t2 n ts'" using 5(3) [OF True _ refl s(3) refl] s by simp
      ultimately show ?thesis using s by (auto intro: g_args_step)
    qed
  qed
qed

definition pp_depth_left :: "(nat \<times> ptoks + nat \<times> nat \<times> ptoks) + (nat \<times> nat \<times> pnode \<times> ptoks)
    + (nat \<times> ptoks) + nat \<times> pnode list \<times> ptoks \<Rightarrow> nat" where
  "pp_depth_left x = (case x of
       Inl (Inl (d, ts)) \<Rightarrow> 200 - d | Inl (Inr (m, d, ts)) \<Rightarrow> 200 - d
     | Inr (Inl (m, d, l, ts)) \<Rightarrow> 200 - d | Inr (Inr (Inl (d, ts))) \<Rightarrow> 200 - d
     | Inr (Inr (Inr (d, xs, ts))) \<Rightarrow> 200 - d)"

definition pp_tokens_left :: "(nat \<times> ptoks + nat \<times> nat \<times> ptoks) + (nat \<times> nat \<times> pnode \<times> ptoks)
    + (nat \<times> ptoks) + nat \<times> pnode list \<times> ptoks \<Rightarrow> nat" where
  "pp_tokens_left x = (case x of
       Inl (Inl (d, ts)) \<Rightarrow> length ts | Inl (Inr (m, d, ts)) \<Rightarrow> length ts
     | Inr (Inl (m, d, l, ts)) \<Rightarrow> length ts | Inr (Inr (Inl (d, ts))) \<Rightarrow> length ts
     | Inr (Inr (Inr (d, xs, ts))) \<Rightarrow> length ts)"

definition pp_stage :: "(nat \<times> ptoks + nat \<times> nat \<times> ptoks) + (nat \<times> nat \<times> pnode \<times> ptoks)
    + (nat \<times> ptoks) + nat \<times> pnode list \<times> ptoks \<Rightarrow> nat" where
  "pp_stage x = (case x of Inl (Inr _) \<Rightarrow> 2 | Inr (Inl _) \<Rightarrow> 1 | _ \<Rightarrow> 0)"

lemma pp_total: "pp_expression_pp_binary_pp_binary_loop_pp_primary_pp_args_dom x"
  by (rule "pp_expression_pp_binary_pp_binary_loop_pp_primary_pp_args.termination"
      [of "measures [pp_depth_left, pp_tokens_left, pp_stage]", THEN spec])
     (auto simp: pp_depth_left_def pp_tokens_left_def pp_stage_def
      dest!: pp_grammar [rule_format] g_length)

termination pp_expression
  by (simp add: pp_total)

declare pp_expression.simps [simp del] pp_binary.simps [simp del] pp_binary_loop.simps [simp del]
  pp_primary.simps [simp del] pp_args.simps [simp del]

lemmas pp_simps = pp_expression.simps pp_binary.simps pp_binary_loop.simps pp_primary.simps pp_args.simps

lemma pp_take_Cons [simp]:
  "pp_take None (t # r) = Inr (t, r)"
  "tok_text t = x \<Longrightarrow> pp_take (Some x) (t # r) = Inr (t, r)"
  by simp_all

lemma g_complete:
  "g_expr d ts n ts' \<Longrightarrow> pp_expression d ts = Inr (n, ts')"
  "g_binary m d ts n ts' \<Longrightarrow> pp_binary m d ts = Inr (n, ts')"
  "g_loop m d l ts n ts' \<Longrightarrow> pp_binary_loop m d l ts = Inr (n, ts')"
  "g_primary d ts n ts' \<Longrightarrow> pp_primary d ts = Inr (n, ts')"
  "g_args d as ts bs ts' \<Longrightarrow> pp_args d as ts = Inr (bs, ts')"
proof (induction rule: g_expr_g_binary_g_loop_g_primary_g_args.inducts)
  case (g_plain d ts n ts')
  then show ?case by (simp add: pp_expression.simps [of d ts])
next
  case (g_cond d ts c q t2 y k t4 n ts')
  then show ?case by (simp add: pp_expression.simps [of d ts])
next
  case (g_bin d ts l t1 m n ts')
  then show ?case by (simp add: pp_binary.simps [of m d ts])
next
  case (g_stop ts m d l)
  then show ?case by (simp add: pp_binary_loop.simps [of m d l ts])
next
  case (g_step m t d t1 r t2 l n ts')
  then show ?case by (simp add: pp_binary_loop.simps [of m d l "t # t1"] Let_def)
next
  case (g_paren d t t1 n k ts')
  then show ?case by (simp add: pp_primary.simps [of d "t # t1"])
next
  case (g_unary d t t1 v ts')
  then have "tok_text t \<noteq> ''(''" by auto
  with g_unary show ?case by (simp add: pp_primary.simps [of d "t # t1"])
next
  case (g_string d t v ts)
  then show ?case by (simp add: pp_primary.simps [of d "t # ts"] operand_token_def)
next
  case (g_number d t ts)
  then show ?case by (simp add: pp_primary.simps [of d "t # ts"] operand_token_def number_token_def)
next
  case (g_variable d t ts)
  then show ?case by (simp add: pp_primary.simps [of d "t # ts"] operand_token_def name_token_def)
next
  case (g_call0 d t q k ts)
  then show ?case
    by (simp add: pp_primary.simps [of d "t # q # k # ts"] operand_token_def name_token_def)
next
  case (g_call d t q t2 a t4 as k ts')
  then show ?case
    by (simp add: pp_primary.simps [of d "t # q # t2"] operand_token_def name_token_def)
next
  case (g_args_stop ts d as)
  then show ?case by (simp add: pp_args.simps [of d as ts])
next
  case (g_args_step q d t1 a t2 as bs ts')
  then show ?case by (simp add: pp_args.simps [of d as "q # t1"])
qed

lemma pp_iff:
  "pp_expression d ts = Inr (n, ts') \<longleftrightarrow> g_expr d ts n ts'"
  "pp_binary m d ts = Inr (n, ts') \<longleftrightarrow> g_binary m d ts n ts'"
  "pp_binary_loop m d l ts = Inr (n, ts') \<longleftrightarrow> g_loop m d l ts n ts'"
  "pp_primary d ts = Inr (n, ts') \<longleftrightarrow> g_primary d ts n ts'"
  "pp_args d as ts = Inr (bs, ts') \<longleftrightarrow> g_args d as ts bs ts'"
  by (blast intro: g_complete dest: pp_grammar [OF pp_total, rule_format])+

section \<open>Entry points\<close>

definition pp_parse :: "ptoks \<Rightarrow> pnode exn" where
  "pp_parse tokens =
     bind_exn (pp_expression 0 tokens) (\<lambda>(node, rest).
       if rest \<noteq> [] then Inl ''Incomplete pricing expression'' else Inr node)"

definition parsePricingExpression :: "string \<Rightarrow> pnode exn" where
  "parsePricingExpression source =
     (case stripExprVersion (js_trim source) of (version, body) \<Rightarrow>
        if \<not> js_eq version (Fin 1) then Inl ''Unsupported pricing expression version''
        else bind_exn (pricingTokens body) pp_parse)"

lemma pp_parse_iff: "pp_parse ts = Inr n \<longleftrightarrow> g_expr 0 ts n []"
  by (auto simp: pp_parse_def pp_iff split: if_splits)

section \<open>What the tokenizer guarantees\<close>

text \<open>
  \<open>layout source i ts\<close>: from position \<open>i\<close> on, the source is the tokens \<open>ts\<close> in order, each with
  its exact text and a non-empty span, and nothing but white space around them.
\<close>

fun layout :: "string \<Rightarrow> nat \<Rightarrow> ptoks \<Rightarrow> bool" where
  "layout src i [] = list_all is_ws (drop i src)"
| "layout src i (t # ts) =
     (i \<le> tok_start t \<and> tok_start t < tok_end t \<and> tok_end t \<le> length src \<and>
      list_all is_ws (js_slice src i (tok_start t)) \<and>
      tok_text t = js_slice src (tok_start t) (tok_end t) \<and> layout src (tok_end t) ts)"

lemma layout_skip:
  assumes "i < length src" "is_ws (src ! i)" "layout src (Suc i) ts"
  shows "layout src i ts"
proof (cases ts)
  case Nil
  then show ?thesis using assms by (simp add: Cons_nth_drop_Suc [symmetric])
next
  case (Cons t ts')
  then have "i < tok_start t" using assms(3) by simp
  then have "js_slice src i (tok_start t) = src ! i # js_slice src (Suc i) (tok_start t)"
    using assms(1) by (simp add: js_slice_def Cons_nth_drop_Suc [symmetric] take_Cons' Suc_diff_Suc)
  then show ?thesis using assms Cons by simp
qed

lemma lex_loop_layout:
  assumes "lex_loop src i acc = Inr ts" "length acc \<le> 4096"
  shows "\<exists>new. ts = acc @ new \<and> layout src i new \<and> length ts \<le> 4096"
  using assms
proof (induction src i acc rule: lex_loop.induct)
  case (1 src i acc)
  show ?case
  proof (cases "i < length src")
    case False
    then show ?thesis using "1.prems" by (simp add: lex_loop.simps [of src i acc])
  next
    case i: True
    show ?thesis
    proof (cases "is_ws (src ! i)")
      case True
      with i "1.prems" "1.IH"(1) show ?thesis
        by (auto simp: lex_loop.simps [of src i acc] intro: layout_skip)
    next
      case False
      with i "1.prems"(1) obtain rest c where m: "rx_exec token_rx (drop i src) = Some (rest, c)"
        by (auto simp: lex_loop.simps [of src i acc] split: option.splits)
      let ?e = "length src - length rest"
      let ?acc = "acc @ [\<lparr>tok_text = js_slice src i ?e, tok_start = i, tok_end = ?e\<rparr>]"
      have r: "lex_loop src ?e ?acc = Inr ts" and len: "\<not> 4096 < length ?acc"
        using i False m "1.prems"(1)
        by (simp_all add: lex_loop.simps [of src i acc] Let_def split: if_splits)
      obtain new where "ts = ?acc @ new" "layout src ?e new" "length ts \<le> 4096"
        using "1.IH"(2) [OF i False m refl refl refl len r] len by (auto simp: not_less)
      then show ?thesis using token_rx_progress [OF m] by auto
    qed
  qed
qed

lemma pricingTokens_layout:
  assumes "pricingTokens src = Inr ts"
  shows "layout src 0 ts" "length ts \<le> 4096" "length src \<le> 32768"
  using assms lex_loop_layout [of src 0 "[]" ts]
  by (auto simp: pricingTokens_def not_less split: if_splits)

section \<open>What the parser guarantees\<close>

text \<open>Every operator of a parsed tree is one the evaluator knows, every number is finite.\<close>

fun pnode_ok :: "pnode \<Rightarrow> bool" where
  "pnode_ok (NNumber _ _ v) = (is_finite v \<and> js_rep v)"
| "pnode_ok (NString _ _ _) = True"
| "pnode_ok (NVariable _ _ _) = True"
| "pnode_ok (NCall _ _ _ xs) = list_all pnode_ok xs"
| "pnode_ok (NUnary _ _ p v) = (p \<in> {''+'', ''-'', ''!''} \<and> pnode_ok v)"
| "pnode_ok (NBinary _ _ p l r) = (p \<in> fst ` set PRICING_PRECEDENCE \<and> pnode_ok l \<and> pnode_ok r)"
| "pnode_ok (NConditional _ _ c y n) = (pnode_ok c \<and> pnode_ok y \<and> pnode_ok n)"

lemma pnode_ok_with_span [simp]: "pnode_ok (with_span n s e) \<longleftrightarrow> pnode_ok n"
  by (cases n) auto

lemma with_span_sel [simp]: "nstart (with_span n s e) = s" "nend (with_span n s e) = e"
  by (cases n; simp)+

lemma pp_precedence_pos: "0 < pp_precedence (Some p) \<Longrightarrow> p \<in> fst ` set PRICING_PRECEDENCE"
  by (cases "map_of PRICING_PRECEDENCE p") (auto simp: pp_precedence_def dest: map_of_SomeD intro: rev_image_eqI)

lemma g_pnode_ok:
  "g_expr d ts n ts' \<Longrightarrow> pnode_ok n"
  "g_binary m d ts n ts' \<Longrightarrow> 1 \<le> m \<Longrightarrow> pnode_ok n"
  "g_loop m d l ts n ts' \<Longrightarrow> 1 \<le> m \<Longrightarrow> pnode_ok l \<Longrightarrow> pnode_ok n"
  "g_primary d ts n ts' \<Longrightarrow> pnode_ok n"
  "g_args d as ts bs ts' \<Longrightarrow> list_all pnode_ok as \<Longrightarrow> list_all pnode_ok bs"
proof (induction rule: g_expr_g_binary_g_loop_g_primary_g_args.inducts)
  case (g_step m t d t1 r t2 l n ts')
  have "tok_text t \<in> fst ` set PRICING_PRECEDENCE"
    using g_step.hyps(1) g_step.prems(1) by (intro pp_precedence_pos) simp
  then show ?case using g_step by simp
qed auto

text \<open>
  The span of a node is the span of the tokens it was parsed from: it starts with the first
  consumed token and ends with the last one.
\<close>

definition spans :: "ptoks \<Rightarrow> pnode \<Rightarrow> bool" where
  "spans pre n \<longleftrightarrow> pre \<noteq> [] \<and> nstart n = tok_start (hd pre) \<and> nend n = tok_end (last pre)"

lemma spans_append: "spans pre l \<Longrightarrow> suf \<noteq> [] \<Longrightarrow> nstart n = nstart l \<Longrightarrow> nend n = tok_end (last suf) \<Longrightarrow> spans (pre @ suf) n"
  by (auto simp: spans_def)

lemma g_spans:
  "g_expr d ts n ts' \<Longrightarrow> \<exists>pre. ts = pre @ ts' \<and> spans pre n"
  "g_binary m d ts n ts' \<Longrightarrow> \<exists>pre. ts = pre @ ts' \<and> spans pre n"
  "g_loop m d l ts n ts' \<Longrightarrow> \<exists>suf. ts = suf @ ts' \<and> (\<forall>pre. spans pre l \<longrightarrow> spans (pre @ suf) n)"
  "g_primary d ts n ts' \<Longrightarrow> \<exists>pre. ts = pre @ ts' \<and> spans pre n"
  "g_args d as ts bs ts' \<Longrightarrow> \<exists>pre. ts = pre @ ts'"
proof (induction rule: g_expr_g_binary_g_loop_g_primary_g_args.inducts)
  case (g_cond d ts c q t2 y k t4 n ts')
  then obtain p1 p2 p3 where "ts = p1 @ q # t2" "spans p1 c" "t2 = p2 @ k # t4" "t4 = p3 @ ts'" "spans p3 n"
    by blast
  then show ?case by (intro exI [of _ "p1 @ q # p2 @ k # p3"]) (auto simp: spans_def)
next
  case (g_bin d ts l t1 m n ts')
  then show ?case by auto
next
  case (g_step m t d t1 r t2 l n ts')
  then obtain p1 p2 where p: "t1 = p1 @ t2" "spans p1 r" "t2 = p2 @ ts'"
    "\<forall>pre. spans pre (NBinary (nstart l) (nend r) (tok_text t) l r) \<longrightarrow> spans (pre @ p2) n"
    by blast
  have "spans (pre @ (t # p1) @ p2) n" if "spans pre l" for pre
  proof -
    have "spans (pre @ t # p1) (NBinary (nstart l) (nend r) (tok_text t) l r)"
      using that p(2) by (auto simp: spans_def)
    from p(4) [rule_format, OF this] show ?thesis by simp
  qed
  then show ?case using p by (intro exI [of _ "(t # p1) @ p2"]) auto
next
  case (g_paren d t t1 n k ts')
  then obtain p where "t1 = p @ k # ts'" by blast
  then show ?case by (intro exI [of _ "t # p @ [k]"]) (auto simp: spans_def)
next
  case (g_unary d t t1 v ts')
  then obtain p where "t1 = p @ ts'" "spans p v" by blast
  then show ?case by (intro exI [of _ "t # p"]) (auto simp: spans_def)
next
  case (g_call0 d t q k ts)
  then show ?case by (intro exI [of _ "[t, q, k]"]) (auto simp: spans_def)
next
  case (g_call d t q t2 a t4 as k ts')
  then obtain p1 p2 where "t2 = p1 @ t4" "t4 = p2 @ k # ts'" by blast
  then show ?case by (intro exI [of _ "t # q # p1 @ p2 @ [k]"]) (auto simp: spans_def)
next
  case (g_args_step q d t1 a t2 as bs ts')
  then show ?case by fastforce
qed (auto simp: spans_def)

end
