(* ===== verification/Billing_Time.thy ===== *)
theory Billing_Time
  imports Billing_Syntax
begin

text \<open>
  Time zones of pricing expressions (\<open>web/src/features/pricing/lib/billing-time.ts\<close>).  The browser's
  \<open>new Intl.DateTimeFormat('en-US', {timeZone}).resolvedOptions().timeZone\<close> is the parameter
  \<open>intl\<close> of the model: the canonical name of a zone, \<open>None\<close> when the constructor throws.
\<close>

type_synonym intl = "string \<Rightarrow> string option"

datatype zone_reason = ServerLocal | Alias | BrowserUnavailable

datatype zone_resolution =
    ZSupported string
  | ZInvalid
  | ZUnsupported zone_reason

definition VERIFIED_TIME_ZONE_ALIASES :: "(string \<times> string) list" where
  "VERIFIED_TIME_ZONE_ALIASES =
     [(''Etc/UTC'', ''UTC''), (''Etc/GMT'', ''UTC''), (''GMT'', ''UTC''),
      (''US/Eastern'', ''America/New_York'')]"

definition iana_regions :: "string list" where
  "iana_regions = [''Africa'', ''America'', ''Antarctica'', ''Arctic'', ''Asia'', ''Atlantic'',
     ''Australia'', ''Europe'', ''Indian'', ''Pacific'', ''Etc'']"

text \<open>\<open>/^(Africa|...|Etc)\//.test(s)\<close> and \<open>/^[+-]/.test(s)\<close>\<close>

definition has_region :: "string \<Rightarrow> bool" where
  "has_region s \<longleftrightarrow> rx_exec (RSeq (RCap 1 (RAlts (map RLit iana_regions))) (RLit ''/'')) s \<noteq> None"

definition is_offset :: "string \<Rightarrow> bool" where
  "is_offset s \<longleftrightarrow> rx_exec (RSet (\<lambda>c. c = CHR ''+'' \<or> c = CHR ''-'')) s \<noteq> None"

definition resolveBillingTimeZone :: "intl \<Rightarrow> string \<Rightarrow> zone_resolution" where
  "resolveBillingTimeZone intl timezone =
     (let trimmed = js_trim timezone in
      if trimmed = [] then ZSupported ''UTC''
      else if trimmed = ''Local'' then ZUnsupported ServerLocal
      else if is_offset trimmed then ZInvalid
      else case intl trimmed of
          None \<Rightarrow> if has_region trimmed then ZUnsupported BrowserUnavailable else ZInvalid
        | Some canonical \<Rightarrow>
            if canonical = trimmed then ZSupported canonical
            else if js_to_lower canonical = js_to_lower trimmed then ZInvalid
            else if map_of VERIFIED_TIME_ZONE_ALIASES trimmed = Some canonical then ZSupported canonical
            else ZUnsupported Alias)"

text \<open>The zone to compute with, where there is one.\<close>

fun zone_name :: "zone_resolution \<Rightarrow> string option" where
  "zone_name (ZSupported z) = Some z"
| "zone_name _ = None"

text \<open>
  What a supported resolution means: the empty zone is UTC; any other supported zone is one the
  browser knows, under its own canonical name or a verified alias.
\<close>

lemma zone_supportedD:
  assumes "resolveBillingTimeZone intl tz = ZSupported z" "js_trim tz \<noteq> []"
  shows "intl (js_trim tz) = Some z" "z = js_trim tz \<or> map_of VERIFIED_TIME_ZONE_ALIASES (js_trim tz) = Some z"
    "js_trim tz \<noteq> ''Local''" "\<not> is_offset (js_trim tz)"
  using assms by (auto simp: resolveBillingTimeZone_def Let_def split: if_splits option.splits)

text \<open>Resolution is stable: the name it returns resolves to itself, for an \<open>Intl\<close> whose canonical
  names are canonical and that knows \<open>UTC\<close>.\<close>

lemma zone_canonical:
  assumes "intl z = Some z" "trimmed z" "z \<noteq> []" "z \<noteq> ''Local''" "\<not> is_offset z"
  shows "resolveBillingTimeZone intl z = ZSupported z"
  using assms by (simp add: resolveBillingTimeZone_def js_trim_id)

end
