(* ===== verification/Request_Rules.thy ===== *)
theory Request_Rules
  imports Billing_Time
begin

text \<open>
  Request rules of pricing expressions (\<open>web/src/features/pricing/lib/billing-expr.ts\<close>, from the
  request rule parser on): the conditions a multiplier depends on, the parser of the visual editor
  (\<open>tryParse...\<close>), the separation of rules from the base price
  (\<open>splitBillingExprAndRequestRules\<close>, \<open>combineBillingExpr\<close>) and the builder
  (\<open>build...\<close>).  \<open>JSON.parse\<close> of a string literal can throw out of the parser, so the parsing
  functions return in the exception type.
\<close>

section \<open>Data\<close>

datatype time_func = Hour | Minute | Weekday | Month | Day

fun tf_name :: "time_func \<Rightarrow> string" where
  "tf_name Hour = ''hour''"
| "tf_name Minute = ''minute''"
| "tf_name Weekday = ''weekday''"
| "tf_name Month = ''month''"
| "tf_name Day = ''day''"

definition TIME_FUNCS :: "time_func list" where
  "TIME_FUNCS = [Hour, Minute, Weekday, Month, Day]"

definition tf_of :: "string \<Rightarrow> time_func option" where
  "tf_of s = map_of (map (\<lambda>f. (tf_name f, f)) TIME_FUNCS) s"

text \<open>\<open>TIME_FUNC_RANGES\<close>\<close>

fun time_func_range :: "time_func \<Rightarrow> jsnum \<times> jsnum" where
  "time_func_range Hour = (Fin 0, Fin 23)"
| "time_func_range Minute = (Fin 0, Fin 59)"
| "time_func_range Weekday = (Fin 0, Fin 6)"
| "time_func_range Month = (Fin 1, Fin 12)"
| "time_func_range Day = (Fin 1, Fin 31)"

definition MATCH_EQ :: string where "MATCH_EQ = ''eq''"
definition MATCH_CONTAINS :: string where "MATCH_CONTAINS = ''contains''"
definition MATCH_GT :: string where "MATCH_GT = ''gt''"
definition MATCH_GTE :: string where "MATCH_GTE = ''gte''"
definition MATCH_LT :: string where "MATCH_LT = ''lt''"
definition MATCH_LTE :: string where "MATCH_LTE = ''lte''"
definition MATCH_EXISTS :: string where "MATCH_EXISTS = ''exists''"
definition MATCH_RANGE :: string where "MATCH_RANGE = ''range''"

lemmas match_defs = MATCH_EQ_def MATCH_CONTAINS_def MATCH_GT_def MATCH_GTE_def MATCH_LT_def
  MATCH_LTE_def MATCH_EXISTS_def MATCH_RANGE_def

datatype ph_source = SrcParam | SrcHeader | SrcToken

record ph_condition =
  ph_source :: ph_source
  ph_path :: string
  ph_mode :: string
  ph_value :: string

record time_condition =
  tc_timeFunc :: time_func
  tc_timezone :: string
  tc_mode :: string
  tc_value :: string
  tc_rangeStart :: string
  tc_rangeEnd :: string

datatype request_condition = TimeCond time_condition | PHCond ph_condition

record request_rule_group =
  rg_conditions :: "request_condition list"
  rg_multiplier :: string
  rg_conditionText :: "string option"
  rg_matched :: "bool option"

record request_rule_trace =
  rt_cond :: string
  rt_multiplier :: jsnum
  rt_matched :: bool

definition time_cond :: "time_func \<Rightarrow> string \<Rightarrow> string \<Rightarrow> string \<Rightarrow> request_condition" where
  "time_cond f tz mode v = TimeCond \<lparr>tc_timeFunc = f, tc_timezone = tz, tc_mode = mode,
     tc_value = v, tc_rangeStart = [], tc_rangeEnd = []\<rparr>"

definition time_range :: "time_func \<Rightarrow> string \<Rightarrow> string \<Rightarrow> string \<Rightarrow> request_condition" where
  "time_range f tz a b = TimeCond \<lparr>tc_timeFunc = f, tc_timezone = tz, tc_mode = MATCH_RANGE,
     tc_value = [], tc_rangeStart = a, tc_rangeEnd = b\<rparr>"

definition ph_cond :: "ph_source \<Rightarrow> string \<Rightarrow> string \<Rightarrow> string \<Rightarrow> request_condition" where
  "ph_cond src path mode v = PHCond \<lparr>ph_source = src, ph_path = path, ph_mode = mode, ph_value = v\<rparr>"

section \<open>Splitting at the top level\<close>

fun split_loop ::
  "string \<Rightarrow> string \<Rightarrow> ptoks \<Rightarrow> nat \<Rightarrow> int \<Rightarrow> string list \<Rightarrow> string list option"
where
  "split_loop expr operator [] start depth parts =
     (let parts' = parts @ [js_trim (drop start expr)]
      in if depth \<noteq> 0 \<or> [] \<in> set parts' then None else Some parts')"
| "split_loop expr operator (t # ts) start depth parts =
     (let d1 = (if tok_text t = ''('' then depth + 1 else depth);
          d2 = (if tok_text t = '')'' then d1 - 1 else d1)
      in if d2 < 0 then None
         else if d2 = 0 \<and> tok_text t = operator
              then split_loop expr operator ts (tok_end t) d2
                     (parts @ [js_trim (js_slice expr start (tok_start t))])
              else split_loop expr operator ts start d2 parts)"

definition splitTopLevelOperator :: "string \<Rightarrow> string \<Rightarrow> string list" where
  "splitTopLevelOperator expr operator =
     (case pricingTokens expr of
        Inl _ \<Rightarrow> [expr]
      | Inr ts \<Rightarrow> coalesce (split_loop expr operator ts 0 0 []) [expr])"

definition splitTopLevelMultiply :: "string \<Rightarrow> string list" where
  "splitTopLevelMultiply expr = splitTopLevelOperator expr ''*''"

definition splitTopLevelAnd :: "string \<Rightarrow> string list" where
  "splitTopLevelAnd expr = splitTopLevelOperator expr ''&&''"

definition parseExprLiteral :: "string \<Rightarrow> string option" where
  "parseExprLiteral raw =
     (let text = js_trim raw in
      if text = ''true'' \<or> text = ''false'' then Some text
      else if rx_test NUMERIC_LITERAL_REGEX text
           then (if is_finite (js_number text) then Some text else None)
           else json_parse_string text)"

section \<open>Parsing conditions\<close>

definition isTimeValueInRange :: "time_func \<Rightarrow> string \<Rightarrow> bool" where
  "isTimeValueInRange timeFunc text \<longleftrightarrow>
     rx_test NUMERIC_LITERAL_REGEX text \<and>
     (let v = js_number text; (mn, mx) = time_func_range timeFunc
      in is_integer v \<and> js_le mn v \<and> js_le v mx)"

text \<open>The pieces of the condition patterns: \<open>[\d.eE+-]\<close>, \<open>[^"]\<close>, \<open>.\<close>.\<close>

definition num_char :: "char \<Rightarrow> bool" where
  "num_char c \<longleftrightarrow> is_digit c \<or> c \<in> set ''.eE+-''"

definition not_quote :: "char \<Rightarrow> bool" where
  "not_quote c \<longleftrightarrow> c \<noteq> dquote"

definition not_newline :: "char \<Rightarrow> bool" where
  "not_newline c \<longleftrightarrow> ordc c \<noteq> 10 \<and> ordc c \<noteq> 13"

definition num_text_rx :: rx where "num_text_rx = RPlus (RSet num_char)"

definition time_name_rx :: rx where
  "time_name_rx = RAlts (map (\<lambda>f. RLit (tf_name f)) TIME_FUNCS)"

definition time_range_rx :: rx where
  "time_range_rx = RSeqs [RCap 1 time_name_rx, RLit ''(\"'', RCap 2 (RStar (RSet not_quote)),
     RLit ''\") >= '', RCap 3 num_text_rx, RLit '' '', RCap 4 (RAlt (RLit ''&&'') (RLit ''||'')),
     RLit '' '', RRef 1, RLit ''(\"'', RRef 2, RLit ''\") < '', RCap 5 num_text_rx]"

definition time_scalar_rx :: rx where
  "time_scalar_rx = RSeqs [RCap 1 time_name_rx, RLit ''(\"'', RCap 2 (RStar (RSet not_quote)),
     RLit ''\") '', RCap 3 (RAlts [RLit ''=='', RLit ''>='', RLit ''<'']), RLit '' '',
     RCap 4 num_text_rx]"

definition time_range_result :: "intl \<Rightarrow> caps \<Rightarrow> request_condition option" where
  "time_range_result intl m =
     (case tf_of (grp m 1) of
        None \<Rightarrow> None
      | Some f \<Rightarrow>
          if \<not> isTimeValueInRange f (grp m 3) \<or> \<not> isTimeValueInRange f (grp m 5) then None
          else if (grp m 4 = ''||'') \<noteq> js_lt (js_number (grp m 5)) (js_number (grp m 3)) then None
          else case zone_name (resolveBillingTimeZone intl (grp m 2)) of
                 None \<Rightarrow> None
               | Some z \<Rightarrow> Some (time_range f z (grp m 3) (grp m 5)))"

definition time_op_mode :: "string \<Rightarrow> string" where
  "time_op_mode op =
     coalesce (map_of [(''=='', MATCH_EQ), (''>='', MATCH_GTE), (''<'', MATCH_LT)] op) MATCH_EQ"

definition time_scalar_result :: "intl \<Rightarrow> caps \<Rightarrow> request_condition option" where
  "time_scalar_result intl m =
     (case tf_of (grp m 1) of
        None \<Rightarrow> None
      | Some f \<Rightarrow>
          if \<not> isTimeValueInRange f (grp m 4) then None
          else case zone_name (resolveBillingTimeZone intl (grp m 2)) of
                 None \<Rightarrow> None
               | Some z \<Rightarrow> Some (time_cond f z (time_op_mode (grp m 3)) (grp m 4)))"

definition tryParseTimeCondition :: "intl \<Rightarrow> string \<Rightarrow> request_condition option" where
  "tryParseTimeCondition intl expr =
     (case rx_full time_range_rx expr of
        Some m \<Rightarrow> time_range_result intl m
      | None \<Rightarrow>
          (case rx_full (RSeqs [RLit ''('', time_range_rx, RLit '')'']) expr of
             Some m \<Rightarrow> time_range_result intl m
           | None \<Rightarrow>
               (case rx_full time_scalar_rx expr of
                  Some m \<Rightarrow> time_scalar_result intl m
                | None \<Rightarrow> None)))"

definition token_op_mode :: "string \<Rightarrow> string option" where
  "token_op_mode op = map_of [(''=='', MATCH_EQ), (''>'', MATCH_GT), (''>='', MATCH_GTE),
     (''<'', MATCH_LT), (''<='', MATCH_LTE)] op"

definition token_rule_rx :: rx where
  "token_rule_rx = RSeqs [RCap 1 (RPlus (RSet is_word)), RLit '' '',
     RCap 2 (RAlts [RLit ''=='', RLit ''>'', RLit ''>='', RLit ''<'', RLit ''<='']), RLit '' '',
     RCap 3 (RPlus (RSet not_newline))]"

text \<open>\<open>header("([^"]+)")\<close> and the like, with the group's number.\<close>

definition call_rx :: "string \<Rightarrow> nat \<Rightarrow> rx" where
  "call_rx name i = RSeqs [RLit (name @ ''(\"''), RCap i (RPlus (RSet not_quote)), RLit ''\")'']"

text \<open>\<open>JSON.parse\<close> of a quoted literal; it throws on an invalid one.\<close>

definition json_literal :: "string \<Rightarrow> string exn" where
  "json_literal s = (case json_parse_string s of None \<Rightarrow> Inl json_syntax_error | Some v \<Rightarrow> Inr v)"

definition param_has_rx :: rx where
  "param_has_rx = RSeqs [call_rx ''param'' 1, RLit '' != nil && has('', call_rx ''param'' 2,
     RLit '', '', RCap 3 quoted_rx, RLit '')'']"

definition param_cmp_rx :: rx where
  "param_cmp_rx = RSeqs [call_rx ''param'' 1, RLit '' != nil && '', call_rx ''param'' 2, RLit '' '',
     RCap 3 (RAlts [RLit ''>'', RLit ''>='', RLit ''<'', RLit ''<='']), RLit '' '',
     RCap 4 num_text_rx]"

definition call_eq_rx :: rx where
  "call_eq_rx = RSeqs [RCap 1 (RAlt (RLit ''param'') (RLit ''header'')), RLit ''(\"'',
     RCap 2 (RPlus (RSet not_quote)), RLit ''\") == '', RCap 3 (RPlus (RSet not_newline))]"

text \<open>The successive \<open>match\<close> attempts of \<open>tryParseRequestCondition\<close> after the time and token forms.\<close>

definition try_call_eq :: "string \<Rightarrow> request_condition option" where
  "try_call_eq expr =
     (case rx_full call_eq_rx expr of
        None \<Rightarrow> None
      | Some m \<Rightarrow> map_option (ph_cond (if grp m 1 = ''param'' then SrcParam else SrcHeader) (grp m 2) MATCH_EQ)
                    (parseExprLiteral (grp m 3)))"

definition try_param_cmp :: "string \<Rightarrow> request_condition option" where
  "try_param_cmp expr =
     (case rx_full param_cmp_rx expr of
        None \<Rightarrow> None
      | Some m \<Rightarrow>
          if grp m 1 = grp m 2
          then Some (ph_cond SrcParam (grp m 1) (coalesce (token_op_mode (grp m 3)) []) (grp m 4))
          else None)"

definition try_param_has :: "string \<Rightarrow> request_condition option exn" where
  "try_param_has expr =
     (case rx_full param_has_rx expr of
        None \<Rightarrow> Inr None
      | Some m \<Rightarrow>
          if grp m 1 = grp m 2
          then bind_exn (json_literal (grp m 3)) (\<lambda>v.
                 Inr (Some (ph_cond SrcParam (grp m 1) MATCH_CONTAINS v)))
          else Inr None)"

definition try_header_has :: "string \<Rightarrow> request_condition option exn" where
  "try_header_has expr =
     (case rx_full (RSeqs [RLit ''has('', call_rx ''header'' 1, RLit '', '', RCap 2 quoted_rx, RLit '')'']) expr of
        None \<Rightarrow> Inr None
      | Some m \<Rightarrow> bind_exn (json_literal (grp m 2)) (\<lambda>v.
                    Inr (Some (ph_cond SrcHeader (grp m 1) MATCH_CONTAINS v))))"

definition try_exists :: "string \<Rightarrow> request_condition option" where
  "try_exists expr =
     (case rx_full (RSeqs [call_rx ''header'' 1, RLit '' != \"\"'']) expr of
        Some m \<Rightarrow> Some (ph_cond SrcHeader (grp m 1) MATCH_EXISTS [])
      | None \<Rightarrow>
          (case rx_full (RSeqs [call_rx ''param'' 1, RLit '' != nil'']) expr of
             Some m \<Rightarrow> Some (ph_cond SrcParam (grp m 1) MATCH_EXISTS [])
           | None \<Rightarrow> None))"

text \<open>\<open>a\<close> or else \<open>b\<close>, in order.\<close>

definition else_try :: "'a option exn \<Rightarrow> 'a option exn \<Rightarrow> 'a option exn" where
  "else_try a b = bind_exn a (\<lambda>r. case r of None \<Rightarrow> b | Some v \<Rightarrow> Inr (Some v))"

lemma or_else_simps [simp]:
  "else_try (Inl e) b = Inl e" "else_try (Inr None) b = b" "else_try (Inr (Some v)) b = Inr (Some v)"
  by (simp_all add: else_try_def)

definition try_token :: "string \<Rightarrow> request_condition option option" where
  "try_token expr =
     (case rx_full token_rule_rx expr of
        None \<Rightarrow> None
      | Some m \<Rightarrow>
          if grp m 1 \<notin> set BILLING_CONDITION_VARS then None
          else if \<not> rx_test NUMERIC_LITERAL_REGEX (grp m 3) \<or> \<not> is_finite (js_number (grp m 3))
          then Some None
          else Some (Some (ph_cond SrcToken (grp m 1) (coalesce (token_op_mode (grp m 2)) []) (grp m 3))))"

definition tryParseRequestCondition :: "intl \<Rightarrow> string \<Rightarrow> request_condition option exn" where
  "tryParseRequestCondition intl expr =
     (case tryParseTimeCondition intl expr of
        Some c \<Rightarrow> Inr (Some c)
      | None \<Rightarrow>
          (case try_token expr of
             Some r \<Rightarrow> Inr r
           | None \<Rightarrow>
               else_try (Inr (try_exists expr))
              (else_try (try_header_has expr)
              (else_try (try_param_has expr)
              (else_try (Inr (try_param_cmp expr))
                       (Inr (try_call_eq expr)))))))"

definition tryParseTimeRangePair :: "intl \<Rightarrow> string \<Rightarrow> string \<Rightarrow> request_condition option" where
  "tryParseTimeRangePair intl lower upper =
     (case (tryParseTimeCondition intl lower, tryParseTimeCondition intl upper) of
        (Some (TimeCond ta), Some (TimeCond tb)) \<Rightarrow>
          if tc_timeFunc ta \<noteq> tc_timeFunc tb \<or> tc_timezone ta \<noteq> tc_timezone tb then None
          else if tc_mode ta \<noteq> MATCH_GTE \<or> tc_mode tb \<noteq> MATCH_LT then None
          else if js_lt (js_number (tc_value tb)) (js_number (tc_value ta)) then None
          else Some (time_range (tc_timeFunc ta) (tc_timezone ta) (tc_value ta) (tc_value tb))
      | _ \<Rightarrow> None)"

section \<open>Parentheses\<close>

fun outer_loop :: "ptoks \<Rightarrow> int \<Rightarrow> bool" where
  "outer_loop [] depth \<longleftrightarrow> depth = 0"
| "outer_loop (t # ts) depth \<longleftrightarrow>
     (let d1 = (if tok_text t = ''('' then depth + 1 else depth);
          d2 = (if tok_text t = '')'' then d1 - 1 else d1)
      in \<not> (d2 \<le> 0 \<and> ts \<noteq> []) \<and> outer_loop ts d2)"

definition hasFullOuterParens :: "string \<Rightarrow> bool" where
  "hasFullOuterParens expr \<longleftrightarrow>
     (case pricingTokens expr of
        Inl _ \<Rightarrow> False
      | Inr ts \<Rightarrow> ts \<noteq> [] \<and> tok_text (hd ts) = ''('' \<and> tok_text (last ts) = '')'' \<and> outer_loop ts 0)"

lemma hasFullOuterParens_ne: "hasFullOuterParens s \<Longrightarrow> s \<noteq> []"
  by (auto simp: hasFullOuterParens_def pricingTokens_def lex_loop.simps [of "[]"] split: sum.splits)

lemma length_js_trim: "length (js_trim s) \<le> length s"
  unfolding js_trim_def
  by (metis length_rev length_dropWhile_le order_trans)

text \<open>The \<open>while\<close> loop of \<open>unwrapOuterParens\<close>.\<close>

function unwrap_loop :: "string \<Rightarrow> string" where
  "unwrap_loop current =
     (if hasFullOuterParens current
      then unwrap_loop (js_trim (js_slice current 1 (length current - 1)))
      else current)"
  by pat_completeness auto
termination
proof (relation "measure length")
  fix current assume h: "hasFullOuterParens current"
  have "length (js_trim (js_slice current 1 (length current - 1)))
      \<le> length (js_slice current 1 (length current - 1))" by (rule length_js_trim)
  also have "\<dots> < length current" using hasFullOuterParens_ne [OF h] by (simp add: js_slice_def)
  finally show "(js_trim (js_slice current 1 (length current - 1)), current) \<in> measure length"
    by simp
qed simp

declare unwrap_loop.simps [simp del]

definition unwrapOuterParens :: "string \<Rightarrow> string" where
  "unwrapOuterParens expr = unwrap_loop (js_trim expr)"

section \<open>Parsing rules\<close>

text \<open>The loop over the conjuncts; \<open>many\<close> is \<open>andParts.length > 1\<close>.\<close>

definition overnight :: "request_condition \<Rightarrow> bool" where
  "overnight c \<longleftrightarrow>
     (case c of
        TimeCond t \<Rightarrow> tc_mode t = MATCH_RANGE \<and>
          js_lt (js_number (tc_rangeEnd t)) (js_number (tc_rangeStart t))
      | PHCond _ \<Rightarrow> False)"

fun conditions_loop ::
  "intl \<Rightarrow> bool \<Rightarrow> string list \<Rightarrow> request_condition list \<Rightarrow> request_condition list option exn"
where
  "conditions_loop intl many [] conds = Inr (if conds = [] then None else Some conds)"
| "conditions_loop intl many (p # ps) conds =
     (let part = js_trim p;
          single = bind_exn (tryParseRequestCondition intl part) (\<lambda>r.
            case r of
              None \<Rightarrow> Inr None
            | Some c \<Rightarrow>
                if many \<and> overnight c \<and> \<not> hasFullOuterParens part then Inr None
                else conditions_loop intl many ps (conds @ [c]))
      in case ps of
           [] \<Rightarrow> single
         | q # qs \<Rightarrow>
             (let nxt = js_trim q in
              if nxt = [] then single
              else case tryParseTimeRangePair intl part nxt of
                     Some merged \<Rightarrow> conditions_loop intl many qs (conds @ [merged])
                   | None \<Rightarrow> single))"

definition tryParseRequestConditions :: "intl \<Rightarrow> string \<Rightarrow> request_condition list option exn" where
  "tryParseRequestConditions intl conditionStr =
     (case tryParseTimeCondition intl (js_trim conditionStr) of
        Some c \<Rightarrow> Inr (Some [c])
      | None \<Rightarrow>
          (let andParts = splitTopLevelAnd conditionStr
           in conditions_loop intl (length andParts > 1) andParts []))"

definition rule_factor_rx :: rx where
  "rule_factor_rx = RSeqs [RLit ''('', RCap 1 (RPlus (RSet (\<lambda>_. True))), RLit '' ? '',
     RCap 2 num_text_rx, RLit '' : 1)'']"

definition rule_group :: "request_condition list \<Rightarrow> string \<Rightarrow> request_rule_group" where
  "rule_group cs m = \<lparr>rg_conditions = cs, rg_multiplier = m, rg_conditionText = None, rg_matched = None\<rparr>"

definition tryParseRuleGroupFactor :: "intl \<Rightarrow> string \<Rightarrow> request_rule_group option exn" where
  "tryParseRuleGroupFactor intl part =
     (case rx_full rule_factor_rx part of
        None \<Rightarrow> Inr None
      | Some m \<Rightarrow>
          if \<not> is_finite (js_number (grp m 2)) \<or> js_lt (js_number (grp m 2)) (Fin 0) then Inr None
          else bind_exn (tryParseRequestConditions intl (grp m 1)) (\<lambda>r.
                 Inr (map_option (\<lambda>cs. rule_group cs (grp m 2)) r)))"

definition requestRuleGroupsFromTrace :: "intl \<Rightarrow> request_rule_trace list \<Rightarrow> request_rule_group list exn" where
  "requestRuleGroupsFromTrace intl rules = map_exn (\<lambda>rule.
     let conditionText = js_trim (rt_cond rule)
     in bind_exn (tryParseRequestConditions intl conditionText) (\<lambda>r.
          Inr \<lparr>rg_conditions = coalesce r [], rg_multiplier = js_num_to_string (rt_multiplier rule),
               rg_conditionText = Some conditionText, rg_matched = Some (rt_matched rule)\<rparr>)) rules"

fun groups_loop :: "intl \<Rightarrow> string list \<Rightarrow> request_rule_group list \<Rightarrow> request_rule_group list option exn" where
  "groups_loop intl [] groups = Inr (Some groups)"
| "groups_loop intl (p # ps) groups =
     bind_exn (tryParseRuleGroupFactor intl p) (\<lambda>r.
       case r of None \<Rightarrow> Inr None | Some g \<Rightarrow> groups_loop intl ps (groups @ [g]))"

definition tryParseRequestRuleExpr :: "intl \<Rightarrow> string \<Rightarrow> request_rule_group list option exn" where
  "tryParseRequestRuleExpr intl expr =
     (let trimmed = js_trim expr in
      if trimmed = [] then Inr (Some [])
      else groups_loop intl (splitTopLevelMultiply trimmed) [])"

section \<open>Separating rules from the base price\<close>

text \<open>The stack loop that collects the factors of a product; the head of the list is the top of
  the stack.\<close>

function mul_factors :: "pnode list \<Rightarrow> pnode list \<Rightarrow> pnode list" where
  "mul_factors [] parts = parts"
| "mul_factors (node # remaining) parts =
     (case node of
        NBinary _ _ op l r \<Rightarrow>
          if op = ''*'' then mul_factors (l # r # remaining) parts
          else mul_factors remaining (parts @ [node])
      | _ \<Rightarrow> mul_factors remaining (parts @ [node]))"
  by pat_completeness auto
termination by (relation "measure (\<lambda>(ns, ps). sum_list (map (\<lambda>n. 2 * size n + 1) ns))") auto

declare mul_factors.simps(2) [simp del]

fun partition_rules ::
  "intl \<Rightarrow> string list \<Rightarrow> string list \<Rightarrow> string list \<Rightarrow> (string list \<times> string list) exn"
where
  "partition_rules intl [] ruleParts baseParts = Inr (ruleParts, baseParts)"
| "partition_rules intl (p # ps) ruleParts baseParts =
     bind_exn (tryParseRequestRuleExpr intl p) (\<lambda>r.
       if coalesce r [] \<noteq> [] then partition_rules intl ps (ruleParts @ [p]) baseParts
       else partition_rules intl ps ruleParts (baseParts @ [p]))"

record billing_split =
  bs_billingExpr :: string
  bs_requestRuleExpr :: string

definition splitBillingExprAndRequestRules :: "intl \<Rightarrow> string \<Rightarrow> billing_split exn" where
  "splitBillingExprAndRequestRules intl expr =
     (let trimmed = js_trim expr;
          unsplit = Inr \<lparr>bs_billingExpr = trimmed, bs_requestRuleExpr = []\<rparr>
      in if trimmed = [] then Inr \<lparr>bs_billingExpr = [], bs_requestRuleExpr = []\<rparr>
         else let (version, body) = stripExprVersion trimmed in
           if \<not> js_eq version (Fin 1) then unsplit
           else case bind_exn (pricingTokens body) pp_parse of
               Inl _ \<Rightarrow> unsplit
             | Inr tree \<Rightarrow>
                 (let parts = map (\<lambda>n. js_slice body (nstart n) (nend n)) (mul_factors [tree] [])
                  in if length parts \<le> 1 then unsplit
                     else bind_exn (partition_rules intl parts [] []) (\<lambda>(ruleParts, baseParts).
                       if ruleParts = [] \<or> length baseParts \<noteq> 1 then unsplit
                       else Inr \<lparr>bs_billingExpr =
                              (if js_starts_with trimmed ''v1:'' then ''v1:'' else []) @
                              unwrapOuterParens (hd baseParts),
                            bs_requestRuleExpr = js_join '' * '' ruleParts\<rparr>)))"

definition combineBillingExpr :: "string \<Rightarrow> string \<Rightarrow> string" where
  "combineBillingExpr baseExpr requestRuleExpr =
     (let base = js_trim baseExpr; rules = js_trim requestRuleExpr in
      if base = [] then []
      else if rules = [] then base
      else ''('' @ base @ '') * '' @ rules)"

section \<open>Editing conditions\<close>

definition createEmptyCondition :: ph_condition where
  "createEmptyCondition = \<lparr>ph_source = SrcParam, ph_path = [], ph_mode = MATCH_EQ, ph_value = []\<rparr>"

definition createEmptyTimeCondition :: time_condition where
  "createEmptyTimeCondition = \<lparr>tc_timeFunc = Hour, tc_timezone = ''Asia/Shanghai'', tc_mode = MATCH_GTE,
     tc_value = [], tc_rangeStart = [], tc_rangeEnd = []\<rparr>"

definition createEmptyRuleGroup :: request_rule_group where
  "createEmptyRuleGroup = rule_group [PHCond createEmptyCondition] []"

definition createEmptyTimeRuleGroup :: request_rule_group where
  "createEmptyTimeRuleGroup = rule_group [TimeCond createEmptyTimeCondition] []"

type_synonym match_option = "string \<times> string"

definition getRequestRuleMatchOptions :: "string \<Rightarrow> match_option list" where
  "getRequestRuleMatchOptions source =
     (if source = ''time'' then
        [(MATCH_EQ, ''Equals''), (MATCH_GTE, ''Greater than or equal''), (MATCH_LT, ''Less than''),
         (MATCH_RANGE, ''Time range'')]
      else if source = ''token'' then
        [(MATCH_EQ, ''Equals''), (MATCH_GT, ''Greater than''), (MATCH_GTE, ''Greater than or equal''),
         (MATCH_LT, ''Less than''), (MATCH_LTE, ''Less than or equal'')]
      else
        (let base = [(MATCH_EQ, ''Equals''), (MATCH_CONTAINS, ''Contains''), (MATCH_EXISTS, ''Exists'')]
         in if source = ''header'' then base
            else base @ [(MATCH_GT, ''Greater than''), (MATCH_GTE, ''Greater than or equal''),
                         (MATCH_LT, ''Less than''), (MATCH_LTE, ''Less than or equal'')]))"

definition isTimeFunc :: "string option \<Rightarrow> bool" where
  "isTimeFunc v \<longleftrightarrow> (case v of None \<Rightarrow> False | Some s \<Rightarrow> tf_of s \<noteq> None)"

text \<open>\<open>Partial<RequestCondition>\<close>: every field may be absent.\<close>

record partial_condition =
  pc_source :: "string option"
  pc_path :: "string option"
  pc_timeFunc :: "string option"
  pc_timezone :: "string option"
  pc_mode :: "string option"
  pc_value :: "string option"
  pc_rangeStart :: "string option"
  pc_rangeEnd :: "string option"

fun ph_source_name :: "ph_source \<Rightarrow> string" where
  "ph_source_name SrcParam = ''param''"
| "ph_source_name SrcHeader = ''header''"
| "ph_source_name SrcToken = ''token''"

fun as_partial :: "request_condition \<Rightarrow> partial_condition" where
  "as_partial (TimeCond t) = \<lparr>pc_source = Some ''time'', pc_path = None,
     pc_timeFunc = Some (tf_name (tc_timeFunc t)), pc_timezone = Some (tc_timezone t),
     pc_mode = Some (tc_mode t), pc_value = Some (tc_value t),
     pc_rangeStart = Some (tc_rangeStart t), pc_rangeEnd = Some (tc_rangeEnd t)\<rparr>"
| "as_partial (PHCond c) = \<lparr>pc_source = Some (ph_source_name (ph_source c)), pc_path = Some (ph_path c),
     pc_timeFunc = None, pc_timezone = None, pc_mode = Some (ph_mode c),
     pc_value = Some (ph_value c), pc_rangeStart = None, pc_rangeEnd = None\<rparr>"

text \<open>\<open>options.some((item) => item.value === mode) ? mode : dflt\<close> and \<open>s || dflt\<close>.\<close>

definition mode_or :: "string \<Rightarrow> string option \<Rightarrow> string \<Rightarrow> string" where
  "mode_or source mode dflt =
     (case mode of
        None \<Rightarrow> dflt
      | Some m \<Rightarrow> if m \<in> fst ` set (getRequestRuleMatchOptions source) then m else dflt)"

definition str_or :: "string option \<Rightarrow> string \<Rightarrow> string" where
  "str_or s dflt = (case s of None \<Rightarrow> dflt | Some t \<Rightarrow> if t = [] then dflt else t)"

definition normalizeCondition :: "partial_condition option \<Rightarrow> request_condition" where
  "normalizeCondition cond =
     (let get = (\<lambda>f. case cond of None \<Rightarrow> None | Some c \<Rightarrow> f c);
          source = get pc_source
      in if source = Some ''time'' then
           TimeCond \<lparr>tc_timeFunc = (if isTimeFunc (get pc_timeFunc) then the (tf_of (the (get pc_timeFunc))) else Hour),
             tc_timezone = str_or (get pc_timezone) ''Asia/Shanghai'',
             tc_mode = mode_or ''time'' (get pc_mode) MATCH_GTE,
             tc_value = coalesce (get pc_value) [],
             tc_rangeStart = coalesce (get pc_rangeStart) [],
             tc_rangeEnd = coalesce (get pc_rangeEnd) []\<rparr>
         else
           (let src = (if source = Some ''header'' then SrcHeader
                       else if source = Some ''token'' then SrcToken else SrcParam)
            in PHCond \<lparr>ph_source = src, ph_path = str_or (get pc_path) [],
                 ph_mode = mode_or (ph_source_name src) (get pc_mode) MATCH_EQ,
                 ph_value = coalesce (get pc_value) []\<rparr>))"

section \<open>Building expressions\<close>

definition buildExprLiteral :: "string \<Rightarrow> string \<Rightarrow> string" where
  "buildExprLiteral mode v =
     (let text = js_trim v in
      if mode = MATCH_CONTAINS then json_stringify text
      else if text = ''true'' \<or> text = ''false'' then text
      else if rx_test NUMERIC_LITERAL_REGEX text then text
      else json_stringify text)"

definition time_mode_op :: "string \<Rightarrow> string" where
  "time_mode_op mode =
     coalesce (map_of [(MATCH_EQ, ''==''), (MATCH_GTE, ''>=''), (MATCH_LT, ''<'')] mode) ''==''"

definition build_normal_time :: "time_condition \<Rightarrow> string" where
  "build_normal_time n =
     (let f = tc_timeFunc n;
          fn = tf_name f @ ''('' @ json_stringify (tc_timezone n) @ '')''
      in if tc_mode n = MATCH_RANGE then
           (let s = js_trim (tc_rangeStart n); e = js_trim (tc_rangeEnd n)
            in if \<not> isTimeValueInRange f s \<or> \<not> isTimeValueInRange f e then []
               else if js_lt (js_number e) (js_number s)
               then fn @ '' >= '' @ s @ '' || '' @ fn @ '' < '' @ e
               else fn @ '' >= '' @ s @ '' && '' @ fn @ '' < '' @ e)
         else
           (let v = js_trim (tc_value n)
            in if \<not> isTimeValueInRange f v then []
               else fn @ '' '' @ time_mode_op (tc_mode n) @ '' '' @ v))"

definition buildTimeConditionExpr :: "time_condition \<Rightarrow> string" where
  "buildTimeConditionExpr cond =
     (case normalizeCondition (Some (as_partial (TimeCond cond))) of
        TimeCond n \<Rightarrow> build_normal_time n
      | PHCond _ \<Rightarrow> [])"

definition token_mode_op :: "string \<Rightarrow> string option" where
  "token_mode_op mode = map_of [(MATCH_EQ, ''==''), (MATCH_GT, ''>''), (MATCH_GTE, ''>=''),
     (MATCH_LT, ''<''), (MATCH_LTE, ''<='')] mode"

text \<open>The two non-time halves of \<open>buildRequestConditionExpr\<close>: token conditions look at the mode as
  given, the others at the normalized one.\<close>

definition build_token :: "string \<Rightarrow> string \<Rightarrow> string \<Rightarrow> string" where
  "build_token path mode v =
     (let numText = js_trim v in
      case token_mode_op mode of
        None \<Rightarrow> []
      | Some op \<Rightarrow>
          if path \<notin> set BILLING_CONDITION_VARS \<or> \<not> rx_test NUMERIC_LITERAL_REGEX numText \<or>
             \<not> is_finite (js_number numText)
          then [] else path @ '' '' @ op @ '' '' @ numText)"

definition build_call :: "bool \<Rightarrow> string \<Rightarrow> string \<Rightarrow> string \<Rightarrow> string" where
  "build_call header path mode v =
     (let sourceExpr = (if header then ''header('' else ''param('') @ json_stringify path @ '')''
      in if mode = MATCH_EXISTS then sourceExpr @ (if header then '' != \"\"'' else '' != nil'')
         else if mode = MATCH_CONTAINS then
           (if header then ''has('' @ sourceExpr @ '', '' @ buildExprLiteral mode v @ '')''
            else sourceExpr @ '' != nil && has('' @ sourceExpr @ '', '' @ buildExprLiteral mode v @ '')'')
         else if mode \<in> {MATCH_GT, MATCH_GTE, MATCH_LT, MATCH_LTE} then
           (let numText = js_trim v
            in if \<not> rx_test NUMERIC_LITERAL_REGEX numText then []
               else sourceExpr @ '' != nil && '' @ sourceExpr @ '' '' @ the (token_mode_op mode) @ '' '' @ numText)
         else sourceExpr @ '' == '' @ buildExprLiteral mode v)"

definition buildRequestConditionExpr :: "request_condition \<Rightarrow> string" where
  "buildRequestConditionExpr cond =
     (case cond of
        TimeCond t \<Rightarrow> buildTimeConditionExpr t
      | PHCond c \<Rightarrow>
          (case normalizeCondition (Some (as_partial cond)) of
             TimeCond _ \<Rightarrow> []
           | PHCond n \<Rightarrow>
               (let path = js_trim (ph_path n) in
                if path = [] then []
                else case ph_source n of
                    SrcToken \<Rightarrow> build_token path (ph_mode c) (ph_value n)
                  | SrcHeader \<Rightarrow> build_call True path (ph_mode n) (ph_value n)
                  | SrcParam \<Rightarrow> build_call False path (ph_mode n) (ph_value n))))"

fun must_build :: "request_condition \<Rightarrow> bool" where
  "must_build (TimeCond _) = True"
| "must_build (PHCond c) = (ph_source c = SrcToken)"

definition buildRuleGroupFactor :: "request_rule_group \<Rightarrow> string" where
  "buildRuleGroupFactor g =
     (let multiplier = js_trim (rg_multiplier g);
          conditions = rg_conditions g;
          condExprs = filter (\<lambda>e. e \<noteq> []) (map buildRequestConditionExpr conditions);
          combined = (case condExprs of
              [e] \<Rightarrow> e
            | _ \<Rightarrow> js_join '' && '' (map (\<lambda>e. if js_includes e '' || '' then ''('' @ e @ '')'' else e) condExprs))
      in if \<not> rx_test NUMERIC_LITERAL_REGEX multiplier then []
         else if list_ex (\<lambda>c. must_build c \<and> buildRequestConditionExpr c = []) conditions then []
         else if condExprs = [] then []
         else ''('' @ combined @ '' ? '' @ multiplier @ '' : 1)'')"

definition buildRequestRuleExpr :: "request_rule_group list \<Rightarrow> string" where
  "buildRequestRuleExpr groups = js_join '' * '' (filter (\<lambda>e. e \<noteq> []) (map buildRuleGroupFactor groups))"

section \<open>Loops with a stack\<close>

text \<open>The stack loops visit the tree as the obvious recursions do.\<close>

fun factors :: "pnode \<Rightarrow> pnode list" where
  "factors (NBinary a b op l r) = (if op = ''*'' then factors l @ factors r else [NBinary a b op l r])"
| "factors n = [n]"

lemma mul_factors_eq: "mul_factors ns parts = parts @ concat (map factors ns)"
  by (induction ns parts rule: mul_factors.induct)
     (auto simp: mul_factors.simps(2) split: pnode.splits)

end
