(* ===== verification/Pricing_Evaluator.thy ===== *)
theory Pricing_Evaluator
  imports Billing_Syntax
begin

text \<open>
  The interpreter of pricing expressions (\<open>web/src/features/pricing/lib/pricing-evaluator.ts\<close>):
  \<open>validatePricingNode\<close>, a type checker that looks at every branch before anything runs, and
  \<open>evaluatePricingNode\<close>, a lazy evaluator.

  Functions of the environment may throw and have effects (\<open>tier\<close> records the matched tier), so
  the evaluator threads a state of type \<open>'s\<close>.  The TypeScript casts \<open>as number\<close> and
  \<open>as PricingFunction\<close> are unchecked at run time; the model makes a wrong cast the error
  \<open>IllTyped\<close>, and type soundness shows that \<open>evaluatePricingAst\<close> never meets one.
\<close>

datatype pvalue = PNum jsnum | PStr string | PBool bool

datatype ptype = TNumber | TString | TBoolean

datatype perr = Thrown string | IllTyped

record 's pricing_function =
  pf_parameters :: "ptype list"
  pf_variadic :: bool
  pf_evaluate :: "pvalue list \<Rightarrow> 's \<Rightarrow> (perr + jsnum) \<times> 's"

record 's penv =
  env_variables :: "string \<rightharpoonup> jsnum"
  env_functions :: "string \<rightharpoonup> 's pricing_function"

section \<open>Validation\<close>

definition expected_type :: "'s pricing_function \<Rightarrow> nat \<Rightarrow> ptype option" where
  "expected_type fn i = nth_opt (pf_parameters fn) (if pf_variadic fn then 0 else i)"

definition binary_type :: "string \<Rightarrow> ptype \<Rightarrow> ptype \<Rightarrow> ptype exn" where
  "binary_type op left right =
     (if op = ''&&'' \<or> op = ''||'' then
        (if left \<noteq> TBoolean \<or> right \<noteq> TBoolean then Inl (''Invalid operands for '' @ op) else Inr TBoolean)
      else if op = ''=='' \<or> op = ''!='' then
        (if left \<noteq> right then Inl (''Invalid operands for '' @ op) else Inr TBoolean)
      else if left \<noteq> TNumber \<or> right \<noteq> TNumber then Inl (''Invalid operands for '' @ op)
      else if op \<in> {''<'', ''<='', ''>'', ''>=''} then Inr TBoolean
      else Inr TNumber)"

fun validatePricingNode :: "'s penv \<Rightarrow> nat \<Rightarrow> pnode \<Rightarrow> ptype exn"
  and validate_args :: "'s penv \<Rightarrow> nat \<Rightarrow> string \<Rightarrow> 's pricing_function \<Rightarrow> nat \<Rightarrow> pnode list \<Rightarrow> unit exn"
where
  "validatePricingNode env depth node =
     (if depth > 128 then Inl ''Pricing expression is too deep''
      else case node of
        NNumber _ _ _ \<Rightarrow> Inr TNumber
      | NString _ _ _ \<Rightarrow> Inr TString
      | NVariable _ _ name \<Rightarrow>
          if name = ''true'' \<or> name = ''false'' then Inr TBoolean
          else if env_variables env name \<noteq> None then Inr TNumber
          else Inl (name @ '' is not defined'')
      | NCall _ _ name args \<Rightarrow>
          (case env_functions env name of
             None \<Rightarrow> Inl (name @ '' is not defined'')
           | Some fn \<Rightarrow>
               let expectedCount = length (pf_parameters fn)
               in if pf_variadic fn \<and> length args < expectedCount \<or>
                     \<not> pf_variadic fn \<and> length args \<noteq> expectedCount
                  then Inl (''Invalid arguments for '' @ name)
                  else bind_exn (validate_args env (depth + 1) name fn 0 args) (\<lambda>_. Inr TNumber))
      | NUnary _ _ op v \<Rightarrow>
          let expected = (if op = ''!'' then TBoolean else TNumber)
          in bind_exn (validatePricingNode env (depth + 1) v) (\<lambda>t.
               if t \<noteq> expected then Inl (''Invalid operand for '' @ op) else Inr expected)
      | NBinary _ _ op l r \<Rightarrow>
          bind_exn (validatePricingNode env (depth + 1) l) (\<lambda>left.
          bind_exn (validatePricingNode env (depth + 1) r) (\<lambda>right. binary_type op left right))
      | NConditional _ _ c y n \<Rightarrow>
          bind_exn (validatePricingNode env (depth + 1) c) (\<lambda>t.
            if t \<noteq> TBoolean then Inl ''Pricing condition must be boolean''
            else bind_exn (validatePricingNode env (depth + 1) y) (\<lambda>yes.
                 bind_exn (validatePricingNode env (depth + 1) n) (\<lambda>no.
                   if yes \<noteq> no then Inl ''Pricing branches must have the same type''
                   else Inr yes))))"
| "validate_args env depth name fn i [] = Inr ()"
| "validate_args env depth name fn i (a # as) =
     bind_exn (validatePricingNode env depth a) (\<lambda>t.
       if Some t \<noteq> expected_type fn i then Inl (''Invalid arguments for '' @ name)
       else validate_args env depth name fn (i + 1) as)"

declare validatePricingNode.simps [simp del]

section \<open>Evaluation\<close>

definition as_number :: "pvalue \<Rightarrow> perr + jsnum" where
  "as_number v = (case v of PNum x \<Rightarrow> Inr x | _ \<Rightarrow> Inl IllTyped)"

definition as_boolean :: "pvalue \<Rightarrow> perr + bool" where
  "as_boolean v = (case v of PBool b \<Rightarrow> Inr b | _ \<Rightarrow> Inl IllTyped)"

text \<open>\<open>left === right\<close>\<close>

fun strict_eq :: "pvalue \<Rightarrow> pvalue \<Rightarrow> bool" where
  "strict_eq (PNum a) (PNum b) = js_eq a b"
| "strict_eq (PStr a) (PStr b) = (a = b)"
| "strict_eq (PBool a) (PBool b) = (a = b)"
| "strict_eq _ _ = False"

definition arith_op :: "string \<Rightarrow> jsnum \<Rightarrow> jsnum \<Rightarrow> perr + pvalue" where
  "arith_op op a b =
     (if op = ''+'' then Inr (PNum (js_add a b))
      else if op = ''-'' then Inr (PNum (js_sub a b))
      else if op = ''*'' then Inr (PNum (js_mul a b))
      else if op = ''/'' then Inr (PNum (js_div a b))
      else if op = ''%'' then Inr (PNum (js_mod a b))
      else if op = ''<'' then Inr (PBool (js_lt a b))
      else if op = ''<='' then Inr (PBool (js_le a b))
      else if op = ''>'' then Inr (PBool (js_lt b a))
      else if op = ''>='' then Inr (PBool (js_le b a))
      else Inl (Thrown ''Unsupported pricing operator''))"

definition strict_binary :: "string \<Rightarrow> pvalue \<Rightarrow> pvalue \<Rightarrow> perr + pvalue" where
  "strict_binary op left right =
     (if op = ''=='' then Inr (PBool (strict_eq left right))
      else if op = ''!='' then Inr (PBool (\<not> strict_eq left right))
      else case (as_number left, as_number right) of
             (Inr a, Inr b) \<Rightarrow> arith_op op a b
           | _ \<Rightarrow> Inl IllTyped)"

definition unary_op :: "string \<Rightarrow> pvalue \<Rightarrow> perr + pvalue" where
  "unary_op op v =
     (if op = ''!'' then (case as_boolean v of Inl e \<Rightarrow> Inl e | Inr b \<Rightarrow> Inr (PBool (\<not> b)))
      else if op = ''-'' then (case as_number v of Inl e \<Rightarrow> Inl e | Inr x \<Rightarrow> Inr (PNum (js_neg x)))
      else Inr v)"

fun evaluatePricingNode :: "'s penv \<Rightarrow> pnode \<Rightarrow> 's \<Rightarrow> (perr + pvalue) \<times> 's"
  and evaluate_args :: "'s penv \<Rightarrow> pnode list \<Rightarrow> 's \<Rightarrow> (perr + pvalue list) \<times> 's"
where
  "evaluatePricingNode env (NNumber _ _ v) s = (Inr (PNum v), s)"
| "evaluatePricingNode env (NString _ _ v) s = (Inr (PStr v), s)"
| "evaluatePricingNode env (NVariable _ _ name) s =
     (if name = ''true'' then (Inr (PBool True), s)
      else if name = ''false'' then (Inr (PBool False), s)
      else case env_variables env name of
             None \<Rightarrow> (Inl IllTyped, s)
           | Some x \<Rightarrow> (Inr (PNum x), s))"
| "evaluatePricingNode env (NCall _ _ name args) s =
     (case env_functions env name of
        None \<Rightarrow> (Inl IllTyped, s)
      | Some fn \<Rightarrow>
          (case evaluate_args env args s of
             (Inl e, s') \<Rightarrow> (Inl e, s')
           | (Inr vs, s') \<Rightarrow>
               (case pf_evaluate fn vs s' of
                  (Inl e, s'') \<Rightarrow> (Inl e, s'')
                | (Inr x, s'') \<Rightarrow> (Inr (PNum x), s''))))"
| "evaluatePricingNode env (NUnary _ _ op v) s =
     (case evaluatePricingNode env v s of
        (Inl e, s') \<Rightarrow> (Inl e, s')
      | (Inr x, s') \<Rightarrow> (unary_op op x, s'))"
| "evaluatePricingNode env (NConditional _ _ c y n) s =
     (case evaluatePricingNode env c s of
        (Inl e, s') \<Rightarrow> (Inl e, s')
      | (Inr x, s') \<Rightarrow>
          (case as_boolean x of
             Inl e \<Rightarrow> (Inl e, s')
           | Inr b \<Rightarrow> evaluatePricingNode env (if b then y else n) s'))"
| "evaluatePricingNode env (NBinary _ _ op l r) s =
     (case evaluatePricingNode env l s of
        (Inl e, s') \<Rightarrow> (Inl e, s')
      | (Inr left, s') \<Rightarrow>
          if op = ''&&'' then
            (case as_boolean left of
               Inl e \<Rightarrow> (Inl e, s')
             | Inr b \<Rightarrow> if b then evaluatePricingNode env r s' else (Inr left, s'))
          else if op = ''||'' then
            (case as_boolean left of
               Inl e \<Rightarrow> (Inl e, s')
             | Inr b \<Rightarrow> if b then (Inr left, s') else evaluatePricingNode env r s')
          else
            (case evaluatePricingNode env r s' of
               (Inl e, s'') \<Rightarrow> (Inl e, s'')
             | (Inr right, s'') \<Rightarrow> (strict_binary op left right, s'')))"
| "evaluate_args env [] s = (Inr [], s)"
| "evaluate_args env (a # as) s =
     (case evaluatePricingNode env a s of
        (Inl e, s') \<Rightarrow> (Inl e, s')
      | (Inr v, s') \<Rightarrow>
          (case evaluate_args env as s' of
             (Inl e, s'') \<Rightarrow> (Inl e, s'')
           | (Inr vs, s'') \<Rightarrow> (Inr (v # vs), s'')))"

definition evaluatePricingAst :: "'s penv \<Rightarrow> pnode \<Rightarrow> 's \<Rightarrow> (perr + jsnum) \<times> 's" where
  "evaluatePricingAst env node s =
     (case validatePricingNode env 0 node of
        Inl m \<Rightarrow> (Inl (Thrown m), s)
      | Inr t \<Rightarrow>
          if t \<noteq> TNumber then (Inl (Thrown ''Pricing expression must return a number''), s)
          else
            (case evaluatePricingNode env node s of
               (Inl e, s') \<Rightarrow> (Inl e, s')
             | (Inr v, s') \<Rightarrow>
                 (case as_number v of
                    Inl e \<Rightarrow> (Inl e, s')
                  | Inr x \<Rightarrow>
                      if \<not> is_finite x \<or> js_lt x (Fin 0)
                      then (Inl (Thrown ''Pricing expression must return a finite non-negative number''), s')
                      else (Inr x, s'))))"

section \<open>Type soundness\<close>

fun type_of :: "pvalue \<Rightarrow> ptype" where
  "type_of (PNum _) = TNumber"
| "type_of (PStr _) = TString"
| "type_of (PBool _) = TBoolean"

lemma type_of_eq [simp]:
  "type_of v = TNumber \<longleftrightarrow> (\<exists>x. v = PNum x)"
  "type_of v = TString \<longleftrightarrow> (\<exists>x. v = PStr x)"
  "type_of v = TBoolean \<longleftrightarrow> (\<exists>x. v = PBool x)"
  by (cases v; simp)+

text \<open>The arguments a validated call passes to a function.\<close>

definition args_match :: "'s pricing_function \<Rightarrow> pvalue list \<Rightarrow> bool" where
  "args_match fn vs \<longleftrightarrow>
     (if pf_variadic fn then length (pf_parameters fn) \<le> length vs
      else length vs = length (pf_parameters fn)) \<and>
     (\<forall>i < length vs. Some (type_of (vs ! i)) = expected_type fn i)"

text \<open>A result that respects a type: a value of the type or an exception other than a wrong cast.\<close>

definition result_ok :: "ptype \<Rightarrow> perr + pvalue \<Rightarrow> bool" where
  "result_ok T r \<longleftrightarrow> (case r of Inl e \<Rightarrow> e \<noteq> IllTyped | Inr v \<Rightarrow> type_of v = T)"

lemma result_ok_simps [simp]:
  "result_ok T (Inl e) \<longleftrightarrow> e \<noteq> IllTyped" "result_ok T (Inr v) \<longleftrightarrow> type_of v = T"
  by (simp_all add: result_ok_def)

lemma precedence_ops:
  "fst ` set PRICING_PRECEDENCE =
     {''||'', ''&&'', ''=='', ''!='', ''<'', ''<='', ''>'', ''>='', ''+'', ''-'', ''*'', ''/'', ''%''}"
  by (auto simp: PRICING_PRECEDENCE_def)

lemma strict_binary_ok:
  assumes "binary_type op (type_of a) (type_of b) = Inr T" "op \<in> fst ` set PRICING_PRECEDENCE"
    "op \<noteq> ''&&''" "op \<noteq> ''||''"
  shows "result_ok T (strict_binary op a b)"
  using assms
  by (auto simp: precedence_ops strict_binary_def binary_type_def arith_op_def as_number_def split: if_splits)

lemma unary_op_ok:
  "\<lbrakk> type_of v = (if op = ''!'' then TBoolean else TNumber) \<rbrakk> \<Longrightarrow> result_ok (type_of v) (unary_op op v)"
  by (auto simp: unary_op_def as_boolean_def as_number_def split: if_splits)

lemma all_less_Cons:
  "(\<forall>i < length (v # vs). P ((v # vs) ! i) (k + i)) \<longleftrightarrow>
   P v k \<and> (\<forall>i < length vs. P (vs ! i) (Suc k + i))"
  by (auto simp: nth_Cons less_Suc_eq_0_disj split: nat.splits)

text \<open>Values of the parameters' types from index \<open>i\<close> on, or an exception that is no wrong cast.\<close>

definition args_ok :: "'s pricing_function \<Rightarrow> nat \<Rightarrow> nat \<Rightarrow> perr + pvalue list \<Rightarrow> bool" where
  "args_ok fn i k r \<longleftrightarrow>
     (case r of
        Inl e \<Rightarrow> e \<noteq> IllTyped
      | Inr vs \<Rightarrow> length vs = k \<and>
          (\<forall>j < length vs. Some (type_of (vs ! j)) = expected_type fn (i + j)))"

lemma args_ok_Inl [simp]: "args_ok fn i k (Inl e) \<longleftrightarrow> e \<noteq> IllTyped"
  by (simp add: args_ok_def)

lemma args_ok_Nil [simp]: "args_ok fn i 0 (Inr [])"
  by (simp add: args_ok_def)

lemma args_ok_Cons [simp]:
  "args_ok fn i (Suc k) (Inr (v # vs)) \<longleftrightarrow>
     Some (type_of v) = expected_type fn i \<and> args_ok fn (Suc i) k (Inr vs)"
  using all_less_Cons [of v vs "\<lambda>x j. Some (type_of x) = expected_type fn j" i]
  by (auto simp: args_ok_def)

lemma evaluate_args_sound:
  assumes "\<And>n T s. n \<in> set ns \<Longrightarrow> validatePricingNode env d n = Inr T \<Longrightarrow>
             result_ok T (fst (evaluatePricingNode env n s))"
    and "validate_args env d name fn i ns = Inr ()"
  shows "args_ok fn i (length ns) (fst (evaluate_args env ns s))"
  using assms
proof (induction ns arbitrary: i s)
  case (Cons n ns)
  then obtain t where t: "validatePricingNode env d n = Inr t" "Some t = expected_type fn i"
    "validate_args env d name fn (Suc i) ns = Inr ()"
    by (auto split: if_splits)
  have hd: "result_ok t (fst (evaluatePricingNode env n s))"
    using Cons.prems(1) t(1) by simp
  have tl: "args_ok fn (Suc i) (length ns) (fst (evaluate_args env ns s'))" for s'
    using Cons.IH [of "Suc i" s'] Cons.prems(1) t(3) by simp
  show ?case
  proof (cases "evaluatePricingNode env n s")
    case (Pair r s')
    with hd tl [of s'] t(2) show ?thesis
      by (cases r; cases "evaluate_args env ns s'"; cases "fst (evaluate_args env ns s')") auto
  qed
qed simp

text \<open>
  What the evaluator relies on of its environment: a function called with arguments of its declared
  types performs no wrong cast.  Under this contract a validated tree evaluates without a wrong
  cast to a value of the type validation found.
\<close>

locale pricing_env =
  fixes env :: "'s penv"
  assumes function_contract:
    "\<lbrakk> env_functions env name = Some fn; args_match fn vs \<rbrakk> \<Longrightarrow> fst (pf_evaluate fn vs s) \<noteq> Inl IllTyped"
begin

lemma call_sound:
  assumes fn: "env_functions env name = Some fn"
    and args: "args_ok fn 0 k (fst (evaluate_args env ns s))"
    and k: "if pf_variadic fn then length (pf_parameters fn) \<le> k else k = length (pf_parameters fn)"
  shows "result_ok TNumber (fst (evaluatePricingNode env (NCall a b name ns) s))"
proof (cases "evaluate_args env ns s")
  case (Pair r s')
  show ?thesis
  proof (cases r)
    case (Inr vs)
    then have "args_match fn vs" using args Pair k by (auto simp: args_match_def args_ok_def)
    from function_contract [OF fn this, of s'] show ?thesis
      using fn Pair Inr by (auto split: prod.splits sum.splits)
  qed (use fn args Pair in auto)
qed

lemma evaluate_sound:
  "\<lbrakk> validatePricingNode env d n = Inr T; pnode_ok n \<rbrakk>
     \<Longrightarrow> result_ok T (fst (evaluatePricingNode env n s))"
proof (induction n arbitrary: d T s)
  case (NCall a b name ns)
  then obtain fn where fn: "env_functions env name = Some fn" "T = TNumber"
    "if pf_variadic fn then length (pf_parameters fn) \<le> length ns else length ns = length (pf_parameters fn)"
    "validate_args env (d + 1) name fn 0 ns = Inr ()"
    by (auto simp: validatePricingNode.simps [of env d "NCall a b name ns"] Let_def
        split: if_splits option.splits)
  have "args_ok fn 0 (length ns) (fst (evaluate_args env ns s))"
    using NCall.IH NCall.prems(2) fn(4)
    by (intro evaluate_args_sound [where d = "d + 1" and name = name]) (auto simp: list_all_iff)
  from call_sound [OF fn(1) this fn(3)] fn(2) show ?case by simp
next
  case (NUnary a b p v)
  then have v: "validatePricingNode env (d + 1) v = Inr T" "T = (if p = ''!'' then TBoolean else TNumber)"
    by (auto simp: validatePricingNode.simps [of env d "NUnary a b p v"] Let_def split: if_splits)
  have "result_ok T (fst (evaluatePricingNode env v s))"
    using NUnary.IH [OF v(1)] NUnary.prems(2) by simp
  then show ?case using unary_op_ok [of _ p] v(2)
    by (cases "evaluatePricingNode env v s"; cases "fst (evaluatePricingNode env v s)") auto
next
  case (NConditional a b c y n)
  then have v: "validatePricingNode env (d + 1) c = Inr TBoolean"
    "validatePricingNode env (d + 1) y = Inr T" "validatePricingNode env (d + 1) n = Inr T"
    by (auto simp: validatePricingNode.simps [of env d "NConditional a b c y n"] split: if_splits)
  note IH = NConditional.IH(1) [OF v(1)] NConditional.IH(2) [OF v(2)] NConditional.IH(3) [OF v(3)]
  from IH(1) [of s] NConditional.prems(2)
  have "result_ok TBoolean (fst (evaluatePricingNode env c s))" by simp
  then show ?case using IH(2,3) NConditional.prems(2)
    by (cases "evaluatePricingNode env c s"; cases "fst (evaluatePricingNode env c s)")
       (auto simp: as_boolean_def)
next
  case (NBinary a b p l r)
  then obtain tl tr where v: "validatePricingNode env (d + 1) l = Inr tl"
    "validatePricingNode env (d + 1) r = Inr tr" "binary_type p tl tr = Inr T"
    by (auto simp: validatePricingNode.simps [of env d "NBinary a b p l r"] split: if_splits)
  have L: "result_ok tl (fst (evaluatePricingNode env l s))"
    and R: "result_ok tr (fst (evaluatePricingNode env r s'))" for s'
    using NBinary.IH(1) [OF v(1)] NBinary.IH(2) [OF v(2)] NBinary.prems(2) by auto
  show ?case
  proof (cases "evaluatePricingNode env l s")
    case (Pair x s')
    show ?thesis
    proof (cases "x")
      case (Inr vl)
      show ?thesis
      proof (cases "p = ''&&'' \<or> p = ''||''")
        case True
        then show ?thesis using L R [of s'] v(3) Pair Inr
          by (auto simp: binary_type_def as_boolean_def split: if_splits)
      next
        case False
        then show ?thesis using L R [of s'] v(3) Pair Inr NBinary.prems(2)
            strict_binary_ok [of p vl]
          by (cases "evaluatePricingNode env r s'"; cases "fst (evaluatePricingNode env r s')") auto
      qed
    qed (use L Pair in auto)
  qed
qed (auto simp: validatePricingNode.simps [of env d "NVariable a b c" for a b c d]
   validatePricingNode.simps [of env d "NNumber a b c" for a b c d]
   validatePricingNode.simps [of env d "NString a b c" for a b c d] split: if_splits)

lemma evaluatePricingAst_sound:
  assumes "pnode_ok n"
  shows "fst (evaluatePricingAst env n s) \<noteq> Inl IllTyped"
proof (cases "validatePricingNode env 0 n = Inr TNumber")
  case True
  from evaluate_sound [OF this assms, of s] True show ?thesis
    by (cases "evaluatePricingNode env n s"; cases "fst (evaluatePricingNode env n s)")
       (auto simp: evaluatePricingAst_def as_number_def split: if_splits)
next
  case False
  then show ?thesis
    by (cases "validatePricingNode env 0 n") (auto simp: evaluatePricingAst_def)
qed

end

text \<open>
  Refinement between environments: when the functions of two environments give equal results and
  keep their states related, so does every evaluation.
\<close>

locale pricing_simulation =
  fixes env :: "'s penv" and spec :: "'t penv" and R :: "'s \<Rightarrow> 't \<Rightarrow> bool"
  assumes same_variables: "env_variables env = env_variables spec"
    and related_functions: "rel_option (\<lambda>fn gn. pf_parameters fn = pf_parameters gn \<and> pf_variadic fn = pf_variadic gn \<and>
        (\<forall>vs s t. R s t \<longrightarrow> fst (pf_evaluate fn vs s) = fst (pf_evaluate gn vs t) \<and>
           R (snd (pf_evaluate fn vs s)) (snd (pf_evaluate gn vs t))))
      (env_functions env name) (env_functions spec name)"
begin

lemma function_cases:
  obtains "env_functions env name = None" "env_functions spec name = None"
  | fn gn where "env_functions env name = Some fn" "env_functions spec name = Some gn"
    "pf_parameters fn = pf_parameters gn" "pf_variadic fn = pf_variadic gn"
    "\<And>vs s t. R s t \<Longrightarrow> rel_prod (=) R (pf_evaluate fn vs s) (pf_evaluate gn vs t)"
  using related_functions [of name] that
  by (cases "env_functions env name"; cases "env_functions spec name")
     (auto simp: rel_prod_sel)

lemma validate_args_sim:
  assumes "\<And>n. n \<in> set ns \<Longrightarrow> validatePricingNode env d n = validatePricingNode spec d n"
    and "pf_parameters fn = pf_parameters gn" "pf_variadic fn = pf_variadic gn"
  shows "validate_args env d name fn i ns = validate_args spec d name gn i ns"
  using assms(1)
proof (induction ns arbitrary: i)
  case (Cons n ns)
  have "expected_type fn i = expected_type gn i" using assms(2,3) by (simp add: expected_type_def)
  then show ?case using Cons by (simp cong: bind_exn_cong if_cong)
qed simp

lemma validate_sim: "validatePricingNode env d n = validatePricingNode spec d n"
proof (induction n arbitrary: d)
  case (NCall a b name ns)
  show ?case
  proof (rule function_cases [of name])
    fix fn gn
    assume f: "env_functions env name = Some fn" "env_functions spec name = Some gn"
      "pf_parameters fn = pf_parameters gn" "pf_variadic fn = pf_variadic gn"
    have "validate_args env (d + 1) name fn 0 ns = validate_args spec (d + 1) name gn 0 ns"
      using NCall.IH f by (intro validate_args_sim) auto
    then show ?thesis using f
      by (simp add: validatePricingNode.simps [of _ d "NCall a b name ns"] Let_def)
  qed (simp add: validatePricingNode.simps [of _ d "NCall a b name ns"])
next
  case (NVariable a b name)
  show ?case by (simp add: validatePricingNode.simps [of _ d "NVariable a b name"] same_variables)
next
  case (NUnary a b p v)
  show ?case by (simp add: validatePricingNode.simps [of _ d "NUnary a b p v"] NUnary.IH)
next
  case (NBinary a b p l r)
  show ?case by (simp add: validatePricingNode.simps [of _ d "NBinary a b p l r"] NBinary.IH)
next
  case (NConditional a b c y n)
  show ?case by (simp add: validatePricingNode.simps [of _ d "NConditional a b c y n"] NConditional.IH cong: if_cong)
qed (simp_all add: validatePricingNode.simps [of _ d "NNumber a b v" for a b v d]
  validatePricingNode.simps [of _ d "NString a b v" for a b v d])

lemma evaluate_args_sim:
  assumes "\<And>n s t. n \<in> set ns \<Longrightarrow> R s t \<Longrightarrow>
      rel_prod (=) R (evaluatePricingNode env n s) (evaluatePricingNode spec n t)"
    and "R s t"
  shows "rel_prod (=) R (evaluate_args env ns s) (evaluate_args spec ns t)"
  using assms
proof (induction ns arbitrary: s t)
  case (Cons n ns)
  have "rel_prod (=) R (evaluatePricingNode env n s) (evaluatePricingNode spec n t)"
    using Cons.prems by simp
  then obtain r s' t' where e: "evaluatePricingNode env n s = (r, s')" "evaluatePricingNode spec n t = (r, t')" "R s' t'"
    by (auto simp: rel_prod_sel prod_eq_iff)
  have "rel_prod (=) R (evaluate_args env ns s') (evaluate_args spec ns t')"
    using Cons.IH [of s' t'] Cons.prems(1) e(3) by simp
  then show ?case using e by (cases r) (auto simp: rel_prod_sel split: prod.splits sum.splits)
qed simp

lemma evaluate_sim:
  "R s t \<Longrightarrow> rel_prod (=) R (evaluatePricingNode env n s) (evaluatePricingNode spec n t)"
proof (induction n arbitrary: s t)
  case (NCall a b name ns)
  show ?case
  proof (rule function_cases [of name])
    fix fn gn
    assume f: "env_functions env name = Some fn" "env_functions spec name = Some gn"
      and g: "\<And>vs s t. R s t \<Longrightarrow> rel_prod (=) R (pf_evaluate fn vs s) (pf_evaluate gn vs t)"
    have "rel_prod (=) R (evaluate_args env ns s) (evaluate_args spec ns t)"
      using NCall.IH NCall.prems by (intro evaluate_args_sim) auto
    then obtain r s' t' where e: "evaluate_args env ns s = (r, s')" "evaluate_args spec ns t = (r, t')" "R s' t'"
      by (auto simp: rel_prod_sel prod_eq_iff)
    show ?thesis
    proof (cases r)
      case (Inr vs)
      then show ?thesis using f e g [OF e(3), of vs]
        by (auto simp: rel_prod_sel split: prod.splits sum.splits)
    qed (use f e in auto)
  qed (use NCall.prems in simp)
next
  case (NUnary a b p v)
  obtain r s' t' where "evaluatePricingNode env v s = (r, s')" "evaluatePricingNode spec v t = (r, t')" "R s' t'"
    using NUnary.IH [OF NUnary.prems] by (auto simp: rel_prod_sel prod_eq_iff)
  then show ?case by (auto split: sum.splits)
next
  case (NConditional a b c y n)
  obtain r s' t' where e: "evaluatePricingNode env c s = (r, s')" "evaluatePricingNode spec c t = (r, t')" "R s' t'"
    using NConditional.IH(1) [OF NConditional.prems] by (auto simp: rel_prod_sel prod_eq_iff)
  then show ?case using NConditional.IH(2,3) [OF e(3)] by (auto split: sum.splits)
next
  case (NBinary a b p l r)
  obtain x s' t' where e: "evaluatePricingNode env l s = (x, s')" "evaluatePricingNode spec l t = (x, t')" "R s' t'"
    using NBinary.IH(1) [OF NBinary.prems] by (auto simp: rel_prod_sel prod_eq_iff)
  obtain y s'' t'' where f: "evaluatePricingNode env r s' = (y, s'')" "evaluatePricingNode spec r t' = (y, t'')" "R s'' t''"
    using NBinary.IH(2) [OF e(3)] by (auto simp: rel_prod_sel prod_eq_iff)
  then show ?case using e f by (auto split: sum.splits)
qed (auto simp: same_variables split: option.splits)

lemma evaluatePricingAst_sim:
  assumes "R s t"
  shows "rel_prod (=) R (evaluatePricingAst env n s) (evaluatePricingAst spec n t)"
proof -
  obtain x s' t' where "evaluatePricingNode env n s = (x, s')" "evaluatePricingNode spec n t = (x, t')" "R s' t'"
    using evaluate_sim [OF assms, of n] by (auto simp: rel_prod_sel prod_eq_iff)
  then show ?thesis using assms by (auto simp: evaluatePricingAst_def validate_sim split: sum.splits)
qed

end

end
