(* ===== verification/Billing_Tiers.thy ===== *)
theory Billing_Tiers
  imports Request_Rules Pricing_Evaluator
begin

text \<open>
  Tiers of a pricing expression (\<open>web/src/features/pricing/lib/billing-expr.ts\<close>): the linear
  price of a tier's body (\<open>linearPrice\<close>), the conditions that guard a tier, the list of tiers
  shown to the user (\<open>parseTiersFromExpr\<close>) and the classification of an expression by billing
  unit.  An object of coefficients is a list of key and value pairs in insertion order.
\<close>

section \<open>Linear prices\<close>

record linear_price =
  lp_constant :: jsnum
  lp_coefficients :: "(string \<times> jsnum) list"

definition add_coefficients :: "(string \<times> jsnum) list \<Rightarrow> (string \<times> jsnum) list \<Rightarrow> (string \<times> jsnum) list" where
  "add_coefficients left right =
     fold (\<lambda>(key, v) cs. obj_set key (js_add (coalesce (map_of cs key) (Fin 0)) v) cs) right left"

definition scale_price :: "linear_price \<Rightarrow> jsnum \<Rightarrow> linear_price" where
  "scale_price price scale = \<lparr>lp_constant = js_mul (lp_constant price) scale,
     lp_coefficients = map (\<lambda>(key, v). (key, js_mul v scale)) (lp_coefficients price)\<rparr>"

definition linear_binary :: "string \<Rightarrow> linear_price \<Rightarrow> linear_price \<Rightarrow> linear_price option" where
  "linear_binary op left right =
     (if op = ''+'' then
        Some \<lparr>lp_constant = js_add (lp_constant left) (lp_constant right),
              lp_coefficients = add_coefficients (lp_coefficients left) (lp_coefficients right)\<rparr>
      else if op = ''*'' \<and> lp_coefficients left = [] then Some (scale_price right (lp_constant left))
      else if op = ''*'' \<and> lp_coefficients right = [] then Some (scale_price left (lp_constant right))
      else if op = ''/'' \<and> lp_coefficients right = [] \<and> js_lt (Fin 0) (lp_constant right)
           then Some (scale_price left (js_div (Fin 1) (lp_constant right)))
      else None)"

fun linearPrice :: "pnode \<Rightarrow> linear_price option" where
  "linearPrice (NNumber _ _ v) = Some \<lparr>lp_constant = v, lp_coefficients = []\<rparr>"
| "linearPrice (NVariable _ _ name) =
     (if name \<in> fst ` set BILLING_VAR_KEY_TO_FIELD
      then Some \<lparr>lp_constant = Fin 0, lp_coefficients = [(name, Fin 1)]\<rparr> else None)"
| "linearPrice (NUnary _ _ op v) = (if op = ''+'' then linearPrice v else None)"
| "linearPrice (NBinary _ _ op l r) =
     (case (linearPrice l, linearPrice r) of
        (Some left, Some right) \<Rightarrow> linear_binary op left right
      | _ \<Rightarrow> None)"
| "linearPrice _ = None"

fun tierPrice :: "pnode \<Rightarrow> linear_price option" where
  "tierPrice (NCall a b name [NString c d s, body]) =
     (if name = ''tier'' then linearPrice body else None)"
| "tierPrice node = linearPrice node"

definition nonneg_finite :: "jsnum \<Rightarrow> bool" where
  "nonneg_finite v \<longleftrightarrow> is_finite v \<and> js_le (Fin 0) v"

definition valid_price :: "linear_price \<Rightarrow> bool" where
  "valid_price price \<longleftrightarrow>
     list_all nonneg_finite (lp_constant price # map snd (lp_coefficients price))"

definition validLinearPrice :: "linear_price option \<Rightarrow> bool" where
  "validLinearPrice price = (case price of None \<Rightarrow> False | Some p \<Rightarrow> valid_price p)"

section \<open>Conditions of tiers\<close>

fun supportedTierCondition :: "intl \<Rightarrow> pnode \<Rightarrow> bool" where
  "supportedTierCondition intl (NUnary _ _ op v) = (op = ''!'' \<and> supportedTierCondition intl v)"
| "supportedTierCondition intl (NBinary _ _ op l r) =
     (if op = ''&&'' \<or> op = ''||'' then supportedTierCondition intl l \<and> supportedTierCondition intl r
      else op \<in> {''<'', ''<='', ''>'', ''>='', ''=='', ''!=''} \<and>
        (case r of
           NNumber _ _ bound \<Rightarrow>
             (case l of
                NVariable _ _ name \<Rightarrow> name \<in> set BILLING_CONDITION_VARS
              | NCall _ _ name [NString _ _ tz] \<Rightarrow>
                  (case tf_of name of
                     None \<Rightarrow> False
                   | Some f \<Rightarrow> isTimeValueInRange f (js_num_to_string bound) \<and>
                       zone_name (resolveBillingTimeZone intl tz) \<noteq> None)
              | _ \<Rightarrow> False)
         | _ \<Rightarrow> False))"
| "supportedTierCondition intl _ = False"

record tier_condition =
  cond_var :: string
  cond_op :: string
  cond_value :: jsnum

definition inverse_op :: "string \<Rightarrow> string option" where
  "inverse_op op = map_of [(''<'', ''>=''), (''<='', ''>''), (''>'', ''<=''), (''>='', ''<'')] op"

fun legacyTierConditions :: "pnode \<Rightarrow> bool \<Rightarrow> tier_condition list option" where
  "legacyTierConditions (NUnary _ _ op v) negate =
     (if op = ''!'' then legacyTierConditions v (\<not> negate) else None)"
| "legacyTierConditions (NBinary _ _ op l r) negate =
     (if \<not> negate \<and> op = ''&&'' \<or> negate \<and> op = ''||'' then
        (case (legacyTierConditions l negate, legacyTierConditions r negate) of
           (Some left, Some right) \<Rightarrow> Some (left @ right)
         | _ \<Rightarrow> None)
      else case (l, r) of
          (NVariable _ _ name, NNumber _ _ bound) \<Rightarrow>
            if name \<notin> set BILLING_CONDITION_VARS then None
            else (case inverse_op op of
                    None \<Rightarrow> None
                  | Some opp \<Rightarrow> Some [\<lparr>cond_var = name, cond_op = (if negate then opp else op),
                                       cond_value = bound\<rparr>])
        | _ \<Rightarrow> None)"
| "legacyTierConditions _ negate = None"

section \<open>Collecting the tiers\<close>

text \<open>The price fields of a parsed tier are one list of field and price, in registry order.\<close>

record parsed_tier =
  pt_label :: string
  pt_conditions :: "tier_condition list"
  pt_configuredPriceFields :: "string list"
  pt_prices :: "(string \<times> jsnum) list"
  pt_conditionText :: "string option"
  pt_displayConditions :: "request_condition list option"

type_synonym tier_guard = "pnode \<times> bool"

definition guard_text :: "string \<Rightarrow> bool \<Rightarrow> tier_guard \<Rightarrow> string" where
  "guard_text source several g =
     (let text = js_slice source (nstart (fst g)) (nend (fst g))
      in if snd g then ''!('' @ text @ '')''
         else if several then ''('' @ text @ '')'' else text)"

fun tier_label :: "pnode \<Rightarrow> string" where
  "tier_label (NCall _ _ _ (NString _ _ s # _)) = s"
| "tier_label _ = []"

definition guard_conditions :: "tier_guard list \<Rightarrow> tier_condition list" where
  "guard_conditions guards =
     (let conditions = map (\<lambda>(n, negate). legacyTierConditions n negate) guards
      in if None \<in> set conditions then [] else concat (map the conditions))"

definition leaf_tier ::
  "intl \<Rightarrow> pnode \<Rightarrow> linear_price \<Rightarrow> string \<Rightarrow> tier_guard list \<Rightarrow> parsed_tier exn"
where
  "leaf_tier intl node price source guards =
     (let cs = lp_coefficients price;
          base = \<lparr>pt_label = tier_label node, pt_conditions = [],
            pt_configuredPriceFields = map (\<lambda>(key, _). the (map_of BILLING_VAR_KEY_TO_FIELD key)) cs,
            pt_prices = map (\<lambda>(key, field). (field, coalesce (map_of cs key) (Fin 0))) BILLING_VAR_KEY_TO_FIELD,
            pt_conditionText = None, pt_displayConditions = None\<rparr>
      in if guards = [] then Inr base
         else let text = js_join '' && '' (map (guard_text source (length guards > 1)) guards)
              in bind_exn (tryParseRequestConditions intl text) (\<lambda>display.
                   Inr (base\<lparr>pt_conditionText := Some text,
                             pt_conditions := guard_conditions guards,
                             pt_displayConditions := display\<rparr>)))"

fun collectPricingTiers ::
  "intl \<Rightarrow> pnode \<Rightarrow> string \<Rightarrow> tier_guard list \<Rightarrow> parsed_tier list \<Rightarrow> (bool \<times> parsed_tier list) exn"
where
  "collectPricingTiers intl (NConditional _ _ c y n) source guards tiers =
     (if \<not> supportedTierCondition intl c then Inr (False, tiers)
      else bind_exn (collectPricingTiers intl y source (guards @ [(c, False)]) tiers) (\<lambda>(ok, tiers').
             if ok then collectPricingTiers intl n source (guards @ [(c, True)]) tiers'
             else Inr (False, tiers')))"
| "collectPricingTiers intl node source guards tiers =
     (case tierPrice node of
        None \<Rightarrow> Inr (False, tiers)
      | Some price \<Rightarrow>
          if \<not> valid_price price \<or> \<not> js_eq (lp_constant price) (Fin 0) \<or> lp_coefficients price = []
          then Inr (False, tiers)
          else bind_exn (leaf_tier intl node price source guards) (\<lambda>tier. Inr (True, tiers @ [tier])))"

definition parse_tiers :: "intl \<Rightarrow> string \<Rightarrow> parsed_tier list exn" where
  "parse_tiers intl exprStr =
     (let (version, body) = stripExprVersion (js_trim exprStr)
      in if \<not> js_eq version (Fin 1) then Inr []
         else bind_exn (splitBillingExprAndRequestRules intl body) (\<lambda>split.
              bind_exn (pricingTokens (bs_billingExpr split)) (\<lambda>toks.
              bind_exn (pp_parse toks) (\<lambda>node.
              bind_exn (collectPricingTiers intl node (bs_billingExpr split) [] []) (\<lambda>(ok, tiers).
                Inr (if ok then tiers else []))))))"

definition parseTiersFromExpr :: "intl \<Rightarrow> string \<Rightarrow> parsed_tier list" where
  "parseTiersFromExpr intl exprStr =
     (if exprStr = [] then [] else catch_exn (parse_tiers intl exprStr) [])"

section \<open>Classification\<close>

datatype billing_class = CToken | CRequest | CDynamic

definition classify_node :: "pnode \<Rightarrow> billing_class" where
  "classify_node node =
     (case tierPrice node of
        None \<Rightarrow> CDynamic
      | Some price \<Rightarrow>
          if \<not> valid_price price then CDynamic
          else if lp_coefficients price = [] then CRequest
          else if js_eq (lp_constant price) (Fin 0) then CToken else CDynamic)"

definition classifyBillingExpression :: "string \<Rightarrow> billing_class" where
  "classifyBillingExpression expr =
     (let (version, body) = stripExprVersion (js_trim expr)
      in if \<not> js_eq version (Fin 1) then CDynamic
         else case bind_exn (pricingTokens body) pp_parse of
                Inl _ \<Rightarrow> CDynamic
              | Inr node \<Rightarrow> classify_node node)"

text \<open>The stack loop of \<open>classifyBillingQuotaType\<close>; \<open>None\<close> is \<open>undefined\<close>.  The head of the list is
  the top of the stack, the node pushed last.\<close>

function quota_loop :: "intl \<Rightarrow> pnode list \<Rightarrow> billing_class \<Rightarrow> billing_class option" where
  "quota_loop intl [] category = Some category"
| "quota_loop intl (node # remaining) category =
     (case node of
        NConditional _ _ c y n \<Rightarrow>
          if \<not> supportedTierCondition intl c then None
          else quota_loop intl (n # y # remaining) category
      | _ \<Rightarrow>
          (case tierPrice node of
             None \<Rightarrow> None
           | Some price \<Rightarrow>
               if \<not> valid_price price then None
               else quota_loop intl remaining (if lp_coefficients price \<noteq> [] then CToken else category)))"
  by pat_completeness auto
termination by (relation "measure (\<lambda>(i, ns, c). sum_list (map (\<lambda>n. 2 * size n + 1) ns))") auto

declare quota_loop.simps(2) [simp del]

definition classifyBillingQuotaType :: "intl \<Rightarrow> string \<Rightarrow> billing_class option" where
  "classifyBillingQuotaType intl expr =
     (case bind_exn (splitBillingExprAndRequestRules intl expr) (\<lambda>split.
             parsePricingExpression (bs_billingExpr split)) of
        Inl _ \<Rightarrow> None
      | Inr node \<Rightarrow> quota_loop intl [node] CRequest)"

text \<open>\<open>normalizeTierLabel\<close>; of the characters it folds only \<open><\<close>, \<open>>\<close> and \<open>=\<close> are Latin-1.\<close>

fun drop_eq_after :: "string \<Rightarrow> string" where
  "drop_eq_after (c # d # s) =
     (if c \<in> {CHR ''<'', CHR ''>''} \<and> d = CHR ''='' then c # drop_eq_after s
      else c # drop_eq_after (d # s))"
| "drop_eq_after s = s"

definition normalizeTierLabel :: "string option \<Rightarrow> string" where
  "normalizeTierLabel label =
     (case label of
        None \<Rightarrow> []
      | Some l \<Rightarrow> js_to_lower (filter (\<lambda>c. \<not> is_ws c) (drop_eq_after l)))"

section \<open>What the conditions of a tier mean\<close>

fun compare_op :: "string \<Rightarrow> jsnum \<Rightarrow> jsnum \<Rightarrow> bool" where
  "compare_op op x v =
     (if op = ''<'' then js_lt x v else if op = ''<='' then js_le x v
      else if op = ''>'' then js_lt v x else js_le v x)"

definition cond_holds :: "(string \<rightharpoonup> jsnum) \<Rightarrow> tier_condition \<Rightarrow> bool" where
  "cond_holds vars c \<longleftrightarrow>
     (case vars (cond_var c) of None \<Rightarrow> False | Some x \<Rightarrow> compare_op (cond_op c) x (cond_value c))"

text \<open>The variables a condition may mention have values, none of them NaN.\<close>

definition cond_vars_ok :: "(string \<rightharpoonup> jsnum) \<Rightarrow> bool" where
  "cond_vars_ok vars \<longleftrightarrow> list_all (\<lambda>v. vars v \<noteq> None \<and> vars v \<noteq> Some NaN) BILLING_CONDITION_VARS"

lemma inverse_op_cases:
  "inverse_op op = Some i \<longleftrightarrow> (op, i) \<in> {(''<'', ''>=''), (''<='', ''>''), (''>'', ''<=''), (''>='', ''<'')}"
  by (auto simp: inverse_op_def)

lemma compare_inverse:
  assumes "inverse_op op = Some i" "x \<noteq> NaN" "v \<noteq> NaN"
  shows "compare_op i x v \<longleftrightarrow> \<not> compare_op op x v"
  using assms js_not_lt [of x v] js_not_lt [of v x] by (auto simp: inverse_op_cases)

lemma compare_evaluates:
  assumes "inverse_op op = Some i"
  shows "strict_binary op (PNum x) (PNum v) = Inr (PBool (compare_op op x v))"
  using assms by (auto simp: inverse_op_cases strict_binary_def as_number_def arith_op_def)

lemma legacy_sound:
  "\<lbrakk> legacyTierConditions n neg = Some cs; pnode_ok n; cond_vars_ok (env_variables env) \<rbrakk> \<Longrightarrow>
     \<exists>b. evaluatePricingNode env n s = (Inr (PBool b), s) \<and>
         (b \<noteq> neg \<longleftrightarrow> list_all (cond_holds (env_variables env)) cs)"
proof (induction n neg arbitrary: cs rule: legacyTierConditions.induct)
  case (1 a b p v neg)
  then have p: "p = ''!''" and c: "legacyTierConditions v (\<not> neg) = Some cs" by (auto split: if_splits)
  obtain x where "evaluatePricingNode env v s = (Inr (PBool x), s)"
    "x \<noteq> (\<not> neg) \<longleftrightarrow> list_all (cond_holds (env_variables env)) cs"
    using "1.IH" [OF p c] "1.prems"(2,3) by auto
  then show ?case using p by (auto simp: unary_op_def as_boolean_def)
next
  case (2 a b p l r neg)
  show ?case
  proof (cases "\<not> neg \<and> p = ''&&'' \<or> neg \<and> p = ''||''")
    case True
    then obtain cl cr where c: "legacyTierConditions l neg = Some cl" "legacyTierConditions r neg = Some cr" "cs = cl @ cr"
      using "2.prems"(1) by (auto split: option.splits)
    obtain x y where "evaluatePricingNode env l s = (Inr (PBool x), s)"
      "x \<noteq> neg \<longleftrightarrow> list_all (cond_holds (env_variables env)) cl"
      "evaluatePricingNode env r s = (Inr (PBool y), s)"
      "y \<noteq> neg \<longleftrightarrow> list_all (cond_holds (env_variables env)) cr"
      using "2.IH"(1) [OF True c(1)] "2.IH"(2) [OF True c(2)] "2.prems"(2,3) by auto
    then show ?thesis using True c(3) by (auto simp: as_boolean_def)
  next
    case False
    then obtain n1 n2 name m1 m2 bound i where c: "l = NVariable n1 n2 name" "r = NNumber m1 m2 bound"
      "name \<in> set BILLING_CONDITION_VARS" "inverse_op p = Some i"
      "cs = [\<lparr>cond_var = name, cond_op = (if neg then i else p), cond_value = bound\<rparr>]"
      using "2.prems"(1) by (auto split: pnode.splits if_splits option.splits)
    obtain x where x: "env_variables env name = Some x" "x \<noteq> NaN"
      using c(3) "2.prems"(3) by (auto simp: cond_vars_ok_def list_all_iff)
    have nm: "name \<noteq> ''true''" "name \<noteq> ''false''" using c(3) by (auto simp: BILLING_CONDITION_VARS_eq)
    have np: "p \<noteq> ''&&''" "p \<noteq> ''||''" using c(4) by (auto simp: inverse_op_cases)
    have "bound \<noteq> NaN" using "2.prems"(2) c(2) by (auto simp: finite_not_NaN)
    with compare_inverse [OF c(4) x(2)] have "compare_op i x bound \<longleftrightarrow> \<not> compare_op p x bound" by blast
    then show ?thesis using c x nm np compare_evaluates [OF c(4), of x bound]
      by (cases neg) (auto simp: cond_holds_def simp del: compare_op.simps)
  qed
qed auto

section \<open>The tiers partition the inputs\<close>

text \<open>The leaves of a tree of conditionals with the guards on their paths, in the order the tiers are
  collected.\<close>

fun leaves :: "pnode \<Rightarrow> tier_guard list \<Rightarrow> (pnode \<times> tier_guard list) list" where
  "leaves (NConditional _ _ c y n) guards = leaves y (guards @ [(c, False)]) @ leaves n (guards @ [(c, True)])"
| "leaves node guards = [(node, guards)]"

fun legacy_tree :: "pnode \<Rightarrow> bool" where
  "legacy_tree (NConditional _ _ c y n) \<longleftrightarrow>
     legacyTierConditions c False \<noteq> None \<and> legacyTierConditions c True \<noteq> None \<and> legacy_tree y \<and> legacy_tree n"
| "legacy_tree _ \<longleftrightarrow> True"

definition guard_holds :: "(string \<rightharpoonup> jsnum) \<Rightarrow> tier_guard \<Rightarrow> bool" where
  "guard_holds vars g \<longleftrightarrow>
     (case legacyTierConditions (fst g) (snd g) of None \<Rightarrow> False | Some cs \<Rightarrow> list_all (cond_holds vars) cs)"

lemma leaf_select:
  assumes "\<And>guards. leaves n guards = [(n, guards)]"
  shows "\<exists>leaf path. evaluatePricingNode env n s = evaluatePricingNode env leaf s \<and>
     (\<forall>guards. filter (\<lambda>(_, g). list_all P g) (leaves n guards) =
        (if list_all P guards then [(leaf, guards @ path)] else []))"
  by (rule exI [of _ n], rule exI [of _ "[]"]) (simp add: assms)

lemma leaves_select:
  "\<lbrakk> legacy_tree n; pnode_ok n; cond_vars_ok (env_variables env) \<rbrakk> \<Longrightarrow>
   \<exists>leaf path. evaluatePricingNode env n s = evaluatePricingNode env leaf s \<and>
     (\<forall>guards. filter (\<lambda>(_, g). list_all (guard_holds (env_variables env)) g) (leaves n guards) =
        (if list_all (guard_holds (env_variables env)) guards then [(leaf, guards @ path)] else []))"
proof (induction n)
  case (NConditional a b c y n)
  let ?V = "env_variables env"
  obtain ct cf where cs: "legacyTierConditions c False = Some ct" "legacyTierConditions c True = Some cf"
    using NConditional.prems(1) by auto
  obtain x where x: "evaluatePricingNode env c s = (Inr (PBool x), s)"
    "x \<longleftrightarrow> guard_holds ?V (c, False)" "\<not> x \<longleftrightarrow> guard_holds ?V (c, True)"
    using legacy_sound [OF cs(1), of env s] legacy_sound [OF cs(2), of env s] NConditional.prems(2,3)
    by (auto simp: guard_holds_def cs)
  obtain ly py where y: "evaluatePricingNode env y s = evaluatePricingNode env ly s"
    "\<And>guards. filter (\<lambda>(_, g). list_all (guard_holds ?V) g) (leaves y guards) =
        (if list_all (guard_holds ?V) guards then [(ly, guards @ py)] else [])"
    using NConditional.IH(2) NConditional.prems by auto
  obtain ln pn where n: "evaluatePricingNode env n s = evaluatePricingNode env ln s"
    "\<And>guards. filter (\<lambda>(_, g). list_all (guard_holds ?V) g) (leaves n guards) =
        (if list_all (guard_holds ?V) guards then [(ln, guards @ pn)] else [])"
    using NConditional.IH(3) NConditional.prems by auto
  show ?case
    by (rule exI [of _ "if x then ly else ln"], rule exI [of _ "if x then (c, False) # py else (c, True) # pn"])
       (use x y n in \<open>auto simp: as_boolean_def\<close>)
qed (rule leaf_select, simp)+

text \<open>A collected tier describes its leaf.\<close>

definition tier_of_leaf :: "intl \<Rightarrow> string \<Rightarrow> pnode \<times> tier_guard list \<Rightarrow> parsed_tier \<Rightarrow> bool" where
  "tier_of_leaf intl source lg t \<longleftrightarrow>
     (\<exists>price. tierPrice (fst lg) = Some price \<and> valid_price price \<and> lp_coefficients price \<noteq> [] \<and>
        leaf_tier intl (fst lg) price source (snd lg) = Inr t)"

lemma leaf_tier_fields:
  assumes "leaf_tier intl node price source guards = Inr t"
  shows "pt_label t = tier_label node" "pt_conditions t = guard_conditions guards"
    "pt_prices t = map (\<lambda>(key, field). (field, coalesce (map_of (lp_coefficients price) key) (Fin 0))) BILLING_VAR_KEY_TO_FIELD"
  using assms by (auto simp: leaf_tier_def Let_def guard_conditions_def split: if_splits)

lemma collect_leaf:
  assumes "\<not> is_NConditional node"
    and "collectPricingTiers intl node source guards tiers = Inr (True, tiers')"
  shows "\<exists>t. tiers' = tiers @ [t] \<and> tier_of_leaf intl source (node, guards) t"
  using assms by (cases node) (auto simp: tier_of_leaf_def split: option.splits if_splits)

lemma collect_leaves:
  "collectPricingTiers intl n source guards tiers = Inr (True, tiers') \<Longrightarrow>
     \<exists>new. tiers' = tiers @ new \<and> list_all2 (tier_of_leaf intl source) (leaves n guards) new"
proof (induction n arbitrary: guards tiers tiers')
  case (NConditional a b c y n)
  from NConditional.prems obtain mid where
    m: "collectPricingTiers intl y source (guards @ [(c, False)]) tiers = Inr (True, mid)"
       "collectPricingTiers intl n source (guards @ [(c, True)]) mid = Inr (True, tiers')"
    by (auto split: if_splits)
  from NConditional.IH(2) [OF m(1)] NConditional.IH(3) [OF m(2)] show ?case
    by (auto intro: list_all2_appendI)
qed (drule collect_leaf [rotated], simp, force)+

lemma leaves_legacy:
  "legacy_tree n \<Longrightarrow> list_all (\<lambda>g. legacyTierConditions (fst g) (snd g) \<noteq> None) guards \<Longrightarrow>
   lg \<in> set (leaves n guards) \<Longrightarrow> list_all (\<lambda>g. legacyTierConditions (fst g) (snd g) \<noteq> None) (snd lg)"
  by (induction n guards rule: leaves.induct) auto

lemma guard_conditions_hold:
  assumes "list_all (\<lambda>g. legacyTierConditions (fst g) (snd g) \<noteq> None) guards"
  shows "list_all (cond_holds vars) (guard_conditions guards) \<longleftrightarrow> list_all (guard_holds vars) guards"
proof -
  have ne: "None \<notin> set (map (\<lambda>(n, negate). legacyTierConditions n negate) guards)"
    using assms by (auto simp: list_all_iff)
  have "list_all (cond_holds vars) (concat (map the (map (\<lambda>(n, negate). legacyTierConditions n negate) guards)))
      \<longleftrightarrow> list_all (guard_holds vars) guards"
    using assms by (induction guards) (auto simp: guard_holds_def)
  then show ?thesis using ne by (simp add: guard_conditions_def Let_def)
qed

lemma list_all2_filter_both:
  "\<lbrakk> list_all2 R xs ys; \<And>x y. x \<in> set xs \<Longrightarrow> R x y \<Longrightarrow> P x \<longleftrightarrow> Q y \<rbrakk> \<Longrightarrow> list_all2 R (filter P xs) (filter Q ys)"
  by (induction rule: list_all2_induct) auto

text \<open>The tiers whose conditions hold are exactly one, and it describes the leaf the expression
  evaluates to.\<close>

lemma tiers_select:
  assumes "collectPricingTiers intl n source [] [] = Inr (True, tiers)"
    and "legacy_tree n" "pnode_ok n" "cond_vars_ok (env_variables env)"
  obtains leaf path t where "evaluatePricingNode env n s = evaluatePricingNode env leaf s"
    "filter (\<lambda>t. list_all (cond_holds (env_variables env)) (pt_conditions t)) tiers = [t]"
    "tier_of_leaf intl source (leaf, path) t"
proof -
  let ?V = "env_variables env"
  obtain leaf path where l: "evaluatePricingNode env n s = evaluatePricingNode env leaf s"
    "filter (\<lambda>(_, g). list_all (guard_holds ?V) g) (leaves n []) = [(leaf, path)]"
    using leaves_select [OF assms(2-4), of s] by fastforce
  have a: "list_all2 (tier_of_leaf intl source) (leaves n []) tiers"
    using collect_leaves [OF assms(1)] by auto
  have "list_all2 (tier_of_leaf intl source) (filter (\<lambda>(_, g). list_all (guard_holds ?V) g) (leaves n []))
      (filter (\<lambda>t. list_all (cond_holds ?V) (pt_conditions t)) tiers)"
    using a
  proof (rule list_all2_filter_both)
    fix x y assume x: "x \<in> set (leaves n [])" and y: "tier_of_leaf intl source x y"
    have "pt_conditions y = guard_conditions (snd x)"
      using y by (auto simp: tier_of_leaf_def dest: leaf_tier_fields(2))
    with leaves_legacy [OF assms(2) _ x] guard_conditions_hold [of "snd x"]
    show "(case x of (_, g) \<Rightarrow> list_all (guard_holds ?V) g) \<longleftrightarrow> list_all (cond_holds ?V) (pt_conditions y)"
      by (simp add: case_prod_unfold)
  qed
  then obtain t where "filter (\<lambda>t. list_all (cond_holds ?V) (pt_conditions t)) tiers = [t]"
    "tier_of_leaf intl source (leaf, path) t"
    unfolding l(2) by (auto simp: list_all2_Cons1)
  with l(1) that show thesis by blast
qed

lemma linear_pure:
  "linearPrice n = Some lp \<Longrightarrow> snd (evaluatePricingNode env n s) = s"
proof (induction n arbitrary: lp s)
  case (NBinary a b p l r)
  then obtain ll lr where "linearPrice l = Some ll" "linearPrice r = Some lr" by (auto split: option.splits)
  with NBinary.IH(1) [of ll s] NBinary.IH(2) [of lr s]
  show ?case by (auto split: prod.splits sum.splits)
next
  case (NUnary a b p v)
  then have "linearPrice v = Some lp" by (auto split: if_splits)
  with NUnary.IH [of lp s] show ?case by (auto split: prod.splits sum.splits)
qed (auto split: if_splits option.splits)

lemma tierPrice_cases:
  assumes "tierPrice leaf = Some price"
  obtains a b c d label body where "leaf = NCall a b ''tier'' [NString c d label, body]" "linearPrice body = Some price"
  | "linearPrice leaf = Some price" "tier_label leaf = []"
  using assms by (induction leaf rule: tierPrice.induct) (auto split: if_splits)

section \<open>Classification\<close>

fun tree_conditions :: "pnode \<Rightarrow> pnode list" where
  "tree_conditions (NConditional _ _ c y n) = c # tree_conditions y @ tree_conditions n"
| "tree_conditions _ = []"

definition leaf_nodes :: "pnode \<Rightarrow> pnode list" where
  "leaf_nodes n = map fst (leaves n [])"

lemma leaves_fst: "map fst (leaves n guards) = map fst (leaves n [])"
proof (induction n arbitrary: guards)
  case (NConditional a b c y n)
  show ?case
    using NConditional.IH(2) [of "guards @ [(c, False)]"] NConditional.IH(2) [of "[(c, False)]"]
      NConditional.IH(3) [of "guards @ [(c, True)]"] NConditional.IH(3) [of "[(c, True)]"] by simp
qed auto

lemma leaf_nodes_simps [simp]:
  "leaf_nodes (NConditional a b c y n) = leaf_nodes y @ leaf_nodes n"
  "\<not> is_NConditional n \<Longrightarrow> leaf_nodes n = [n]"
  using leaves_fst [of y "[(c, False)]"] leaves_fst [of n "[(c, True)]"]
  by (simp_all add: leaf_nodes_def) (cases n; simp)

definition priced :: "pnode \<Rightarrow> bool" where
  "priced n \<longleftrightarrow> validLinearPrice (tierPrice n)"

definition per_token :: "pnode \<Rightarrow> bool" where
  "per_token n \<longleftrightarrow> (case tierPrice n of None \<Rightarrow> False | Some p \<Rightarrow> lp_coefficients p \<noteq> [])"

definition classifiable :: "intl \<Rightarrow> pnode \<Rightarrow> bool" where
  "classifiable intl n \<longleftrightarrow> list_all (supportedTierCondition intl) (tree_conditions n) \<and> list_all priced (leaf_nodes n)"

lemma quota_leaf:
  assumes "\<not> is_NConditional n"
  shows "quota_loop intl (n # ns) category =
    (if priced n then quota_loop intl ns (if per_token n then CToken else category) else None)"
  using assms
  by (cases n) (auto simp: quota_loop.simps(2) priced_def per_token_def validLinearPrice_def split: option.splits)

lemma quota_node:
  "quota_loop intl (n # ns) category =
     (if classifiable intl n then quota_loop intl ns (if list_ex per_token (leaf_nodes n) then CToken else category)
      else None)"
proof (induction n arbitrary: ns category)
  case (NConditional a b c y n)
  then show ?case by (simp add: quota_loop.simps(2) [of _ "NConditional a b c y n"] classifiable_def)
qed (simp_all add: quota_leaf classifiable_def)

end
