(* ===== verification/Tier_Expr.thy ===== *)
theory Tier_Expr
  imports Billing_Tiers
begin

text \<open>
  The visual tier editor and the local cost estimator
  (\<open>web/src/features/pricing/lib/tier-expr.ts\<close>): the editor's tiers and their expression
  (\<open>generateExprFromVisualConfig\<close>, \<open>tryParseVisualConfig\<close>), and \<open>evalExprLocally\<close>, which runs
  the interpreter in an environment of token counts and functions.

  The optional price fields of a tier are one list of field and value; an absent field is
  \<open>undefined\<close>.  The browser's \<open>Intl.DateTimeFormat\<close> is a parameter: \<open>intl\<close> canonicalizes zones and
  \<open>fmt z\<close> is \<open>formatToParts(now)\<close> in the zone \<open>z\<close>, a list of part types and values.
\<close>

section \<open>Visual tiers\<close>

datatype cache_mode = CacheTimed | CacheGeneric

datatype cond_value = CNum jsnum | CStr string

record tier_condition_input =
  ti_var :: string
  ti_op :: string
  ti_value :: cond_value

record visual_tier =
  vt_label :: string
  vt_conditions :: "tier_condition_input list"
  vt_input_unit_cost :: jsnum
  vt_output_unit_cost :: jsnum
  vt_cache_mode :: cache_mode
  vt_extra :: "(string \<times> jsnum) list"

text \<open>\<open>Partial<VisualTier>\<close>\<close>

record partial_tier =
  vp_label :: "string option"
  vp_conditions :: "tier_condition_input list option"
  vp_input_unit_cost :: "jsnum option"
  vp_output_unit_cost :: "jsnum option"
  vp_cache_mode :: "cache_mode option"
  vp_extra :: "(string \<times> jsnum) list"

definition tier_as_partial :: "visual_tier \<Rightarrow> partial_tier" where
  "tier_as_partial t = \<lparr>vp_label = Some (vt_label t), vp_conditions = Some (vt_conditions t),
     vp_input_unit_cost = Some (vt_input_unit_cost t), vp_output_unit_cost = Some (vt_output_unit_cost t),
     vp_cache_mode = Some (vt_cache_mode t), vp_extra = vt_extra t\<rparr>"

text \<open>\<open>Number(tier[field])\<close>; \<open>Number(undefined)\<close> is NaN.\<close>

definition field_number :: "(string \<times> jsnum) list \<Rightarrow> string \<Rightarrow> jsnum" where
  "field_number extra field = coalesce (map_of extra field) NaN"

definition getTierCacheMode :: "partial_tier option \<Rightarrow> cache_mode" where
  "getTierCacheMode tier =
     (case tier of
        None \<Rightarrow> CacheGeneric
      | Some t \<Rightarrow>
          (case vp_cache_mode t of
             Some m \<Rightarrow> m
           | None \<Rightarrow> if js_lt (Fin 0) (field_number (vp_extra t) ''cache_create_1h_unit_cost'')
                     then CacheTimed else CacheGeneric))"

definition normalize_extra :: "(string \<times> jsnum) list \<Rightarrow> (string \<times> jsnum) list" where
  "normalize_extra extra = concat (map (\<lambda>(field, _).
     if field = ''cache_create_12h_unit_cost'' then
       (case map_of extra field of None \<Rightarrow> [] | Some v \<Rightarrow> [(field, num_or_zero v)])
     else [(field, num_or_zero (field_number extra field))]) BILLING_CACHE_VAR_MAP)"

text \<open>The spread \<open>...tier\<close> comes after the defaults of the first five fields, so a present field is
  kept as it is.\<close>

definition normalizeVisualTier :: "partial_tier \<Rightarrow> visual_tier" where
  "normalizeVisualTier tier = \<lparr>vt_label = coalesce (vp_label tier) [],
     vt_conditions = coalesce (vp_conditions tier) [],
     vt_input_unit_cost = coalesce (vp_input_unit_cost tier) (num_or_zero NaN),
     vt_output_unit_cost = coalesce (vp_output_unit_cost tier) (num_or_zero NaN),
     vt_cache_mode = coalesce (vp_cache_mode tier) (getTierCacheMode (Some tier)),
     vt_extra = normalize_extra (vp_extra tier)\<rparr>"

definition createDefaultVisualConfig :: "visual_tier list" where
  "createDefaultVisualConfig = [normalizeVisualTier \<lparr>vp_label = Some ''base'', vp_conditions = Some [],
     vp_input_unit_cost = Some (Fin 0), vp_output_unit_cost = Some (Fin 0),
     vp_cache_mode = Some CacheGeneric, vp_extra = []\<rparr>]"

text \<open>A \<open>VisualConfig\<close> is its list of tiers.\<close>

definition normalizeVisualConfig :: "visual_tier list option \<Rightarrow> visual_tier list" where
  "normalizeVisualConfig config =
     (case config of
        None \<Rightarrow> createDefaultVisualConfig
      | Some tiers \<Rightarrow> if tiers = [] then createDefaultVisualConfig
                     else map (\<lambda>t. normalizeVisualTier (tier_as_partial t)) tiers)"

section \<open>Expressions of visual tiers\<close>

fun cond_value_text :: "cond_value \<Rightarrow> string" where
  "cond_value_text (CNum v) = js_num_to_string v"
| "cond_value_text (CStr s) = s"

definition buildConditionStr :: "tier_condition_input list \<Rightarrow> string" where
  "buildConditionStr conditions = js_join '' && ''
     (map (\<lambda>c. ti_var c @ '' '' @ ti_op c @ '' '' @ cond_value_text (ti_value c))
       (filter (\<lambda>c. ti_var c \<noteq> [] \<and> ti_op c \<noteq> [] \<and> ti_value c \<noteq> CStr []) conditions))"

definition extra_terms :: "(string \<times> jsnum) list \<Rightarrow> string list" where
  "extra_terms extra = concat (map (\<lambda>(field, exprVar).
     let v = num_or_zero (field_number extra field)
     in if \<not> js_eq v (Fin 0) \<or> exprVar = ''cc12h'' \<and> map_of extra field \<noteq> None
        then [exprVar @ '' * '' @ js_num_to_string v] else []) BILLING_CACHE_VAR_MAP)"

definition buildTierBodyExpr :: "visual_tier \<Rightarrow> string" where
  "buildTierBodyExpr tier = js_join '' + ''
     ([''p * '' @ js_num_to_string (num_or_zero (vt_input_unit_cost tier)),
       ''c * '' @ js_num_to_string (num_or_zero (vt_output_unit_cost tier))] @
      extra_terms (vt_extra tier))"

definition tier_call :: "string \<Rightarrow> visual_tier \<Rightarrow> string" where
  "tier_call dflt tier =
     ''tier(\"'' @ (if vt_label tier = [] then dflt else vt_label tier) @ ''\", '' @
     buildTierBodyExpr tier @ '')''"

fun tier_parts :: "nat \<Rightarrow> visual_tier list \<Rightarrow> string list" where
  "tier_parts i [] = []"
| "tier_parts i (t # ts) =
     (let body = tier_call (''tier_'' @ show_pos (int i + 1)) t;
          cond = buildConditionStr (vt_conditions t)
      in (if ts \<noteq> [] \<and> cond \<noteq> [] then cond @ '' ? '' @ body else body) # tier_parts (i + 1) ts)"

definition generateExprFromVisualConfig :: "visual_tier list option \<Rightarrow> string" where
  "generateExprFromVisualConfig config =
     (case config of
        None \<Rightarrow> ''p * 0 + c * 0''
      | Some [] \<Rightarrow> ''p * 0 + c * 0''
      | Some [tier] \<Rightarrow>
          (let body = tier_call ''default'' tier; cond = buildConditionStr (vt_conditions tier)
           in if cond \<noteq> [] then cond @ '' ? '' @ body @ '' : p * 0 + c * 0'' else body)
      | Some tiers \<Rightarrow> js_join '' : '' (tier_parts 0 tiers))"

section \<open>Reading an expression back into tiers\<close>

definition ws_rx :: rx where "ws_rx = RStar (RSet is_ws)"

text \<open>\<open>(?:\s*\+\s*v\s*\*\s*([\d.eE+-]+))?\<close> and the body of a tier, its groups from \<open>k\<close> on.\<close>

definition opt_term_rx :: "string \<Rightarrow> nat \<Rightarrow> rx" where
  "opt_term_rx v i = RQuest (RSeqs [ws_rx, RLit ''+'', ws_rx, RLit v, ws_rx, RLit ''*'', ws_rx, RCap i num_text_rx])"

definition body_rx :: "nat \<Rightarrow> rx" where
  "body_rx k = RSeqs ([RLit ''p'', ws_rx, RLit ''*'', ws_rx, RCap k num_text_rx, ws_rx, RLit ''+'', ws_rx,
     RLit ''c'', ws_rx, RLit ''*'', ws_rx, RCap (k + 1) num_text_rx] @
     map (\<lambda>(i, _, v). opt_term_rx v (k + 2 + i)) (enumerate 0 BILLING_CACHE_VAR_MAP))"

definition single_tier_rx :: rx where
  "single_tier_rx = RSeqs [RLit ''tier(\"'', RCap 1 (RStar (RSet not_quote)), RLit ''\",'', ws_rx, body_rx 2, RLit '')'']"

definition cond_var_rx :: rx where "cond_var_rx = RAlts [RLit ''p'', RLit ''c'', RLit ''len'']"
definition cond_op_rx :: rx where "cond_op_rx = RAlts [RLit ''<'', RLit ''<='', RLit ''>'', RLit ''>='']"
definition cond_num_rx :: rx where "cond_num_rx = RPlus (RSet (\<lambda>c. is_digit c \<or> c \<in> set ''.eE+''))"

definition cond_group_rx :: rx where
  "cond_group_rx =
     (let one = RSeqs [cond_var_rx, ws_rx, cond_op_rx, ws_rx, cond_num_rx]
      in RSeq one (RStar (RSeqs [ws_rx, RLit ''&&'', ws_rx, one])))"

definition tier_rx :: rx where
  "tier_rx = RSeqs [RQuest (RSeqs [RCap 1 cond_group_rx, ws_rx, RLit ''?'', ws_rx]),
     RLit ''tier(\"'', RCap 2 (RStar (RSet not_quote)), RLit ''\",'', ws_rx, body_rx 3, RLit '')'']"

definition cond_part_rx :: rx where
  "cond_part_rx = RSeqs [RCap 1 cond_var_rx, ws_rx, RCap 2 cond_op_rx, ws_rx, RCap 3 cond_num_rx]"

definition parse_cond_part :: "string \<Rightarrow> tier_condition_input list" where
  "parse_cond_part cp =
     (case rx_full cond_part_rx (js_trim cp) of
        None \<Rightarrow> []
      | Some m \<Rightarrow> [\<lparr>ti_var = grp m 1, ti_op = grp m 2, ti_value = CNum (js_number (grp m 3))\<rparr>])"

definition parse_cond_str :: "string \<Rightarrow> tier_condition_input list" where
  "parse_cond_str condStr =
     (if condStr = [] then []
      else concat (map parse_cond_part (rx_split (RSeqs [ws_rx, RLit ''&&'', ws_rx]) condStr)))"

text \<open>The tier read from the groups of a match: the label's group, the prices from the next one on.\<close>

definition match_tier :: "tier_condition_input list \<Rightarrow> nat \<Rightarrow> caps \<Rightarrow> visual_tier" where
  "match_tier conditions k m = normalizeVisualTier \<lparr>vp_label = Some (grp m k), vp_conditions = Some conditions,
     vp_input_unit_cost = Some (js_number (grp m (k + 1))),
     vp_output_unit_cost = Some (js_number (grp m (k + 2))), vp_cache_mode = None,
     vp_extra = concat (map (\<lambda>(i, field, _). case m (k + 3 + i) of
       None \<Rightarrow> [] | Some val \<Rightarrow> [(field, js_number val)]) (enumerate 0 BILLING_CACHE_VAR_MAP))\<rparr>"

definition squeeze :: "string \<Rightarrow> string" where
  "squeeze s = filter (\<lambda>c. \<not> is_ws c) s"

definition lossless :: "visual_tier list \<Rightarrow> string \<Rightarrow> visual_tier list option" where
  "lossless config body =
     (if squeeze (generateExprFromVisualConfig (Some config)) \<noteq> squeeze body then None else Some config)"

definition version_body :: "string \<Rightarrow> string" where
  "version_body exprStr =
     (case rx_full (RSeqs [RLit ''v'', RPlus digits_rx, RLit '':'', RCap 1 (RStar (RSet (\<lambda>_. True)))]) exprStr of
        None \<Rightarrow> exprStr
      | Some m \<Rightarrow> grp m 1)"

definition tryParseVisualConfig :: "string option \<Rightarrow> visual_tier list option" where
  "tryParseVisualConfig exprStr =
     (case exprStr of
        None \<Rightarrow> None
      | Some e \<Rightarrow>
          if e = [] then None
          else let body = version_body e in
            case rx_full single_tier_rx body of
              Some m \<Rightarrow> lossless (normalizeVisualConfig (Some [match_tier [] 1 m])) body
            | None \<Rightarrow>
                (let tiers = map (\<lambda>m. match_tier (parse_cond_str (grp m 1)) 2 m) (rx_match_all tier_rx body)
                 in if tiers = [] then None else lossless (normalizeVisualConfig (Some tiers)) body))"

section \<open>The local estimator\<close>

record extra_tokens =
  cacheReadTokens :: jsnum
  cacheCreateTokens :: jsnum
  cacheCreate1hTokens :: jsnum
  cacheCreate12hTokens :: jsnum
  imageTokens :: jsnum
  imageOutputTokens :: jsnum
  audioInputTokens :: jsnum
  audioOutputTokens :: jsnum

definition ESTIMATOR_VARS :: "(string \<times> (extra_tokens \<Rightarrow> jsnum)) list" where
  "ESTIMATOR_VARS = [(''cr'', cacheReadTokens), (''cc'', cacheCreateTokens), (''cc1h'', cacheCreate1hTokens),
     (''cc12h'', cacheCreate12hTokens), (''img'', imageTokens), (''img_o'', imageOutputTokens),
     (''ai'', audioInputTokens), (''ao'', audioOutputTokens)]"

record eval_result =
  er_cost :: jsnum
  er_matchedTier :: string
  er_error :: "string option"

record time_parts =
  lt_hour :: jsnum
  lt_minute :: jsnum
  lt_weekday :: jsnum
  lt_month :: jsnum
  lt_day :: jsnum

text \<open>What an evaluation changes: the tier matched last and the cache of local times by zone.\<close>

record est_state =
  es_matchedTier :: string
  es_cache :: "string \<rightharpoonup> time_parts"

type_synonym date_format = "string \<Rightarrow> (string \<times> string) list"

text \<open>\<open>Object.fromEntries(parts)\<close>, \<open>Number(parts[k])\<close> and \<open>['Sun', ...].indexOf(parts.weekday)\<close>.\<close>

definition from_entries :: "('k \<times> 'v) list \<Rightarrow> 'k \<rightharpoonup> 'v" where
  "from_entries kvs = fold (\<lambda>(k, v) m. m(k \<mapsto> v)) kvs Map.empty"

definition part_number :: "(string \<rightharpoonup> string) \<Rightarrow> string \<Rightarrow> jsnum" where
  "part_number parts k = (case parts k of None \<Rightarrow> NaN | Some s \<Rightarrow> js_number s)"

definition weekday_names :: "string list" where
  "weekday_names = [''Sun'', ''Mon'', ''Tue'', ''Wed'', ''Thu'', ''Fri'', ''Sat'']"

definition index_of :: "'a list \<Rightarrow> 'a option \<Rightarrow> jsnum" where
  "index_of xs x =
     (case x of None \<Rightarrow> Fin (-1)
      | Some v \<Rightarrow> (case find_index (\<lambda>y. y = v) xs of None \<Rightarrow> Fin (-1) | Some i \<Rightarrow> Fin (of_nat i)))"

definition local_parts :: "date_format \<Rightarrow> string \<Rightarrow> time_parts" where
  "local_parts fmt timeZone =
     (let parts = from_entries (fmt timeZone)
      in \<lparr>lt_hour = part_number parts ''hour'', lt_minute = part_number parts ''minute'',
          lt_weekday = index_of weekday_names (parts ''weekday''),
          lt_month = part_number parts ''month'', lt_day = part_number parts ''day''\<rparr>)"

definition zone_error :: "zone_reason \<Rightarrow> string" where
  "zone_error reason =
     (if reason \<noteq> ServerLocal then ''This time zone cannot be estimated reliably in this browser.''
      else ''Server-local time cannot be estimated in the browser. Use an IANA time zone.'')"

text \<open>The zone an estimate computes in: UTC for an invalid name.\<close>

definition estimate_zone :: "intl \<Rightarrow> string \<Rightarrow> string exn" where
  "estimate_zone intl timezone =
     (case resolveBillingTimeZone intl timezone of
        ZUnsupported reason \<Rightarrow> Inl (zone_error reason)
      | ZInvalid \<Rightarrow> Inr ''UTC''
      | ZSupported z \<Rightarrow> Inr z)"

definition getParts :: "intl \<Rightarrow> date_format \<Rightarrow> string \<Rightarrow> est_state \<Rightarrow> (perr + time_parts) \<times> est_state" where
  "getParts intl fmt timezone s =
     (case estimate_zone intl timezone of
        Inl e \<Rightarrow> (Inl (Thrown e), s)
      | Inr timeZone \<Rightarrow>
          (case es_cache s timeZone of
             Some cached \<Rightarrow> (Inr cached, s)
           | None \<Rightarrow>
               (let result = local_parts fmt timeZone
                in (Inr result, s\<lparr>es_cache := (es_cache s)(timeZone \<mapsto> result)\<rparr>))))"

fun time_part :: "time_func \<Rightarrow> time_parts \<Rightarrow> jsnum" where
  "time_part Hour = lt_hour"
| "time_part Minute = lt_minute"
| "time_part Weekday = lt_weekday"
| "time_part Month = lt_month"
| "time_part Day = lt_day"

definition time_function :: "intl \<Rightarrow> date_format \<Rightarrow> time_func \<Rightarrow> est_state pricing_function" where
  "time_function intl fmt f = \<lparr>pf_parameters = [TString], pf_variadic = False,
     pf_evaluate = (\<lambda>vs s. case vs of
         PStr tz # _ \<Rightarrow>
           (case getParts intl fmt tz s of
              (Inl e, s') \<Rightarrow> (Inl e, s')
            | (Inr parts, s') \<Rightarrow> (Inr (time_part f parts), s'))
       | _ \<Rightarrow> (Inl IllTyped, s))\<rparr>"

definition tier_function :: "est_state pricing_function" where
  "tier_function = \<lparr>pf_parameters = [TString, TNumber], pf_variadic = False,
     pf_evaluate = (\<lambda>vs s. case vs of
         PStr name # PNum v # _ \<Rightarrow> (Inr v, s\<lparr>es_matchedTier := name\<rparr>)
       | _ \<Rightarrow> (Inl IllTyped, s))\<rparr>"

text \<open>\<open>args.map((value) => value as number)\<close>\<close>

fun numbers :: "pvalue list \<Rightarrow> jsnum list option" where
  "numbers [] = Some []"
| "numbers (PNum x # vs) = map_option ((#) x) (numbers vs)"
| "numbers _ = None"

definition math_function :: "bool \<Rightarrow> (jsnum list \<Rightarrow> jsnum) \<Rightarrow> 's pricing_function" where
  "math_function variadic f = \<lparr>pf_parameters = [TNumber], pf_variadic = variadic,
     pf_evaluate = (\<lambda>vs s. case numbers vs of None \<Rightarrow> (Inl IllTyped, s) | Some xs \<Rightarrow> (Inr (f xs), s))\<rparr>"

definition estimator_functions :: "intl \<Rightarrow> date_format \<Rightarrow> (string \<times> est_state pricing_function) list" where
  "estimator_functions intl fmt =
     [(''tier'', tier_function),
      (''max'', math_function True js_max), (''min'', math_function True js_min),
      (''abs'', math_function False (\<lambda>xs. js_abs (hd xs))),
      (''ceil'', math_function False (\<lambda>xs. js_ceil (hd xs))),
      (''floor'', math_function False (\<lambda>xs. js_floor (hd xs)))] @
     map (\<lambda>f. (tf_name f, time_function intl fmt f)) TIME_FUNCS"

text \<open>The loop that collects the variables of the tree; the head of the list is the top of the
  stack.\<close>

function used_vars_loop :: "pnode list \<Rightarrow> string list \<Rightarrow> string list" where
  "used_vars_loop [] used = used"
| "used_vars_loop (node # pending) used =
     (case node of
        NVariable _ _ name \<Rightarrow> used_vars_loop pending (name # used)
      | NCall _ _ _ args \<Rightarrow> used_vars_loop (rev args @ pending) used
      | NUnary _ _ _ v \<Rightarrow> used_vars_loop (v # pending) used
      | NBinary _ _ _ l r \<Rightarrow> used_vars_loop (r # l # pending) used
      | NConditional _ _ c y n \<Rightarrow> used_vars_loop (n # y # c # pending) used
      | _ \<Rightarrow> used_vars_loop pending used)"
  by pat_completeness auto

lemma size_list_triple:
  "sum_list (map (\<lambda>n. Suc (3 * size n)) (rev xs)) < 4 + 3 * size_list size xs"
  by (induction xs) auto

termination used_vars_loop
  by (relation "measure (\<lambda>(ns, us). sum_list (map (\<lambda>n. Suc (3 * size n)) ns))")
     (use size_list_triple in auto)

declare used_vars_loop.simps(2) [simp del]

record token_counts =
  tn_p :: jsnum
  tn_cc :: jsnum
  tn_len :: jsnum

text \<open>The token counts bound to \<open>p\<close>, \<open>cc\<close> and \<open>len\<close>: cached tokens that the expression does not
  price separately are billed as ordinary input.\<close>

definition billed_tokens :: "string list \<Rightarrow> jsnum \<Rightarrow> extra_tokens \<Rightarrow> token_counts" where
  "billed_tokens used prompt x =
     (let cr = num_or_zero (cacheReadTokens x); cc = num_or_zero (cacheCreateTokens x);
          cc1h = num_or_zero (cacheCreate1hTokens x); cc12h = num_or_zero (cacheCreate12hTokens x);
          len = js_add (js_add (js_add (js_add prompt cr) cc) cc1h) cc12h;
          p1 = (if ''cr'' \<notin> set used then js_add prompt cr else prompt);
          h = js_mul cc1h (js_div (Fin 6) (Fin (15/4)));
          (p2, c2) = (if ''cc1h'' \<notin> set used
                      then (if ''cc'' \<in> set used then (p1, js_add cc h) else (js_add p1 h, cc))
                      else (p1, cc));
          t = js_mul cc12h (Fin 2);
          (p3, c3) = (if ''cc12h'' \<notin> set used
                      then (if ''cc'' \<in> set used then (p2, js_add c2 t) else (js_add p2 t, c2))
                      else (p2, c2));
          p4 = (if ''cc'' \<notin> set used then js_add p3 c3 else p3)
      in \<lparr>tn_p = p4, tn_cc = c3, tn_len = len\<rparr>)"

definition estimator_variables :: "string list \<Rightarrow> jsnum \<Rightarrow> jsnum \<Rightarrow> extra_tokens \<Rightarrow> string \<rightharpoonup> jsnum" where
  "estimator_variables used prompt completion x =
     (let t = billed_tokens used prompt x
      in (map_of ([(''cc'', tn_cc t)] @ map (\<lambda>(v, get). (v, num_or_zero (get x))) ESTIMATOR_VARS @
            [(''p'', tn_p t), (''c'', completion), (''len'', tn_len t)])))"

definition estimator_env :: "intl \<Rightarrow> date_format \<Rightarrow> (string \<rightharpoonup> jsnum) \<Rightarrow> est_state penv" where
  "estimator_env intl fmt vars =
     \<lparr>env_variables = vars, env_functions = map_of (estimator_functions intl fmt)\<rparr>"

fun perr_message :: "perr \<Rightarrow> string" where
  "perr_message (Thrown m) = m"
| "perr_message IllTyped = ''wrong cast''"

definition est_init :: est_state where
  "est_init = \<lparr>es_matchedTier = [], es_cache = Map.empty\<rparr>"

definition eval_error :: "string \<Rightarrow> eval_result" where
  "eval_error m = \<lparr>er_cost = Fin 0, er_matchedTier = [], er_error = Some m\<rparr>"

definition evalExprLocally ::
  "intl \<Rightarrow> date_format \<Rightarrow> string \<Rightarrow> jsnum \<Rightarrow> jsnum \<Rightarrow> extra_tokens \<Rightarrow> eval_result"
where
  "evalExprLocally intl fmt exprStr prompt completion x =
     (if js_trim exprStr = [] then \<lparr>er_cost = Fin 0, er_matchedTier = [], er_error = None\<rparr>
      else case parsePricingExpression exprStr of
          Inl m \<Rightarrow> eval_error m
        | Inr ast \<Rightarrow>
            (let used = used_vars_loop [ast] [];
                 vars = estimator_variables used prompt completion x
             in case evaluatePricingAst (estimator_env intl fmt vars) ast est_init of
                  (Inl e, _) \<Rightarrow> eval_error (perr_message e)
                | (Inr cost, s) \<Rightarrow> \<lparr>er_cost = cost, er_matchedTier = es_matchedTier s, er_error = None\<rparr>))"

text \<open>\<open>new RegExp(`\b(${varNames})\b`).test(exprStr)\<close>: a name that starts and ends at a word boundary;
  \<open>inword\<close> tells whether the character before the position is a word character.\<close>

definition name_here :: "string list \<Rightarrow> string \<Rightarrow> bool" where
  "name_here names s \<longleftrightarrow> list_ex (\<lambda>n. case strip_prefix n s of
       None \<Rightarrow> False | Some t \<Rightarrow> t = [] \<or> \<not> is_word (hd t)) names"

fun word_search :: "string list \<Rightarrow> bool \<Rightarrow> string \<Rightarrow> bool" where
  "word_search names inword [] = False"
| "word_search names inword (x # s) =
     (\<not> inword \<and> name_here names (x # s) \<or> word_search names (is_word x) s)"

definition exprUsesExtraVars :: "string \<Rightarrow> bool" where
  "exprUsesExtraVars exprStr = word_search (map fst ESTIMATOR_VARS) False exprStr"

section \<open>The estimator never meets a wrong cast\<close>

lemma numbers_match: "(\<forall>i < length vs. type_of (vs ! i) = TNumber) \<longleftrightarrow> (\<exists>xs. numbers vs = Some xs)"
proof (induction vs)
  case (Cons v vs)
  have "(\<forall>i < length (v # vs). type_of ((v # vs) ! i) = TNumber) \<longleftrightarrow>
     type_of v = TNumber \<and> (\<forall>i < length vs. type_of (vs ! i) = TNumber)"
    using all_less_Cons [of v vs "\<lambda>x j. type_of x = TNumber" 0] by simp
  with Cons show ?case by (cases v) auto
qed simp

lemma math_contract:
  "args_match (math_function b f :: 's pricing_function) vs \<Longrightarrow>
     fst (pf_evaluate (math_function b f :: 's pricing_function) vs s) \<noteq> Inl IllTyped"
  using numbers_match [of vs]
  by (fastforce simp: math_function_def args_match_def expected_type_def nth_opt_def split: if_splits option.splits)

lemma tier_contract: "args_match tier_function vs \<Longrightarrow> fst (pf_evaluate tier_function vs s) \<noteq> Inl IllTyped"
  by (auto simp: tier_function_def args_match_def expected_type_def nth_opt_def length_Suc_conv
      numeral_2_eq_2 less_Suc_eq all_conj_distrib)

lemma getParts_typed: "fst (getParts intl fmt tz s) \<noteq> Inl IllTyped"
  by (auto simp: getParts_def Let_def split: sum.splits option.splits)

lemma time_contract:
  assumes "args_match (time_function intl fmt f) vs"
  shows "fst (pf_evaluate (time_function intl fmt f) vs s) \<noteq> Inl IllTyped"
proof -
  obtain tz where vs: "vs = [PStr tz]"
    using assms by (auto simp: time_function_def args_match_def expected_type_def nth_opt_def length_Suc_conv)
  show ?thesis using getParts_typed [of intl fmt tz s]
    by (auto simp: vs time_function_def split: prod.splits sum.splits)
qed

lemma estimator_contract:
  assumes "env_functions (estimator_env intl fmt vars) name = Some fn" "args_match fn vs"
  shows "fst (pf_evaluate fn vs s) \<noteq> Inl IllTyped"
proof -
  have "(name, fn) \<in> set (estimator_functions intl fmt)"
    using assms(1) by (auto simp: estimator_env_def dest: map_of_SomeD)
  then consider "fn = tier_function" | b f where "fn = math_function b f"
    | f where "fn = time_function intl fmt f"
    by (auto simp: estimator_functions_def)
  then show ?thesis
    using assms(2) by cases (simp_all add: tier_contract math_contract time_contract)
qed

interpretation est: pricing_env "estimator_env intl fmt vars" for intl fmt vars
  by unfold_locales (rule estimator_contract)


section \<open>The estimator without its cache\<close>

text \<open>
  The specification of the estimator: its state is only the matched tier, and the time functions
  compute the local time of the zone directly.
\<close>

definition spec_time_function :: "intl \<Rightarrow> date_format \<Rightarrow> time_func \<Rightarrow> string pricing_function" where
  "spec_time_function intl fmt f = \<lparr>pf_parameters = [TString], pf_variadic = False,
     pf_evaluate = (\<lambda>vs t. case vs of
         PStr tz # _ \<Rightarrow>
           (case estimate_zone intl tz of
              Inl e \<Rightarrow> (Inl (Thrown e), t)
            | Inr z \<Rightarrow> (Inr (time_part f (local_parts fmt z)), t))
       | _ \<Rightarrow> (Inl IllTyped, t))\<rparr>"

definition spec_tier_function :: "string pricing_function" where
  "spec_tier_function = \<lparr>pf_parameters = [TString, TNumber], pf_variadic = False,
     pf_evaluate = (\<lambda>vs t. case vs of
         PStr name # PNum v # _ \<Rightarrow> (Inr v, name)
       | _ \<Rightarrow> (Inl IllTyped, t))\<rparr>"

definition spec_functions :: "intl \<Rightarrow> date_format \<Rightarrow> (string \<times> string pricing_function) list" where
  "spec_functions intl fmt =
     [(''tier'', spec_tier_function),
      (''max'', math_function True js_max), (''min'', math_function True js_min),
      (''abs'', math_function False (\<lambda>xs. js_abs (hd xs))),
      (''ceil'', math_function False (\<lambda>xs. js_ceil (hd xs))),
      (''floor'', math_function False (\<lambda>xs. js_floor (hd xs)))] @
     map (\<lambda>f. (tf_name f, spec_time_function intl fmt f)) TIME_FUNCS"

definition spec_env :: "intl \<Rightarrow> date_format \<Rightarrow> (string \<rightharpoonup> jsnum) \<Rightarrow> string penv" where
  "spec_env intl fmt vars = \<lparr>env_variables = vars, env_functions = map_of (spec_functions intl fmt)\<rparr>"

text \<open>The states correspond when they agree on the tier and the cache holds only what would be
  computed.\<close>

definition cache_ok :: "date_format \<Rightarrow> est_state \<Rightarrow> bool" where
  "cache_ok fmt s \<longleftrightarrow> (\<forall>z p. es_cache s z = Some p \<longrightarrow> p = local_parts fmt z)"

definition est_rel :: "date_format \<Rightarrow> est_state \<Rightarrow> string \<Rightarrow> bool" where
  "est_rel fmt s t \<longleftrightarrow> es_matchedTier s = t \<and> cache_ok fmt s"

lemma getParts_cache:
  assumes "cache_ok fmt s"
  shows "fst (getParts intl fmt tz s) =
      (case estimate_zone intl tz of Inl e \<Rightarrow> Inl (Thrown e) | Inr z \<Rightarrow> Inr (local_parts fmt z))"
    and "cache_ok fmt (snd (getParts intl fmt tz s))"
    and "es_matchedTier (snd (getParts intl fmt tz s)) = es_matchedTier s"
  using assms by (auto simp: getParts_def cache_ok_def Let_def split: sum.splits option.splits)

text \<open>Functions that correspond.\<close>

definition fn_rel :: "date_format \<Rightarrow> est_state pricing_function \<Rightarrow> string pricing_function \<Rightarrow> bool" where
  "fn_rel fmt fn gn \<longleftrightarrow> pf_parameters fn = pf_parameters gn \<and> pf_variadic fn = pf_variadic gn \<and>
     (\<forall>vs s t. est_rel fmt s t \<longrightarrow> fst (pf_evaluate fn vs s) = fst (pf_evaluate gn vs t) \<and>
        est_rel fmt (snd (pf_evaluate fn vs s)) (snd (pf_evaluate gn vs t)))"

lemma time_function_rel: "fn_rel fmt (time_function intl fmt f) (spec_time_function intl fmt f)"
  unfolding fn_rel_def
proof (intro conjI allI impI)
  fix vs s t assume R: "est_rel fmt s t"
  let ?a = "pf_evaluate (time_function intl fmt f) vs s"
  let ?b = "pf_evaluate (spec_time_function intl fmt f) vs t"
  have "fst ?a = fst ?b \<and> est_rel fmt (snd ?a) (snd ?b)"
  proof (cases "\<exists>tz ws. vs = PStr tz # ws")
    case True
    then obtain tz ws where vs: "vs = PStr tz # ws" by blast
    have c: "cache_ok fmt s" "es_matchedTier s = t" using R by (auto simp: est_rel_def)
    obtain r s' where g: "getParts intl fmt tz s = (r, s')" by (cases "getParts intl fmt tz s")
    have "r = (case estimate_zone intl tz of Inl e \<Rightarrow> Inl (Thrown e) | Inr z \<Rightarrow> Inr (local_parts fmt z))"
      "cache_ok fmt s'" "es_matchedTier s' = t"
      using getParts_cache [OF c(1), of intl tz] g c(2) by auto
    then show ?thesis using g vs
      by (auto simp: time_function_def spec_time_function_def est_rel_def split: sum.splits)
  next
    case False
    then show ?thesis using R
      by (auto simp: time_function_def spec_time_function_def split: list.splits pvalue.splits)
  qed
  then show "fst ?a = fst ?b" "est_rel fmt (snd ?a) (snd ?b)" by auto
qed (simp_all add: time_function_def spec_time_function_def)

lemma tier_function_rel: "fn_rel fmt tier_function spec_tier_function"
  by (auto simp: fn_rel_def tier_function_def spec_tier_function_def est_rel_def cache_ok_def
      split: list.splits pvalue.splits)

lemma math_function_rel: "fn_rel fmt (math_function b f) (math_function b f)"
  by (auto simp: fn_rel_def math_function_def split: option.splits)

lemma map_of_rel:
  "list_all2 (\<lambda>(k, v) (k', v'). k = k' \<and> P v v') xs ys \<Longrightarrow> rel_option P (map_of xs k) (map_of ys k)"
  by (induction rule: list_all2_induct) auto

lemma estimator_functions_rel:
  "rel_option (fn_rel fmt) (map_of (estimator_functions intl fmt) name) (map_of (spec_functions intl fmt) name)"
  by (rule map_of_rel)
     (simp add: estimator_functions_def spec_functions_def TIME_FUNCS_def
       time_function_rel tier_function_rel math_function_rel)

interpretation est_sim: pricing_simulation "estimator_env intl fmt vars" "spec_env intl fmt vars" "est_rel fmt"
  for intl fmt vars
  by unfold_locales
     (use estimator_functions_rel [unfolded fn_rel_def] in \<open>simp_all add: estimator_env_def spec_env_def\<close>)

section \<open>The estimator reports the tier that is shown\<close>

lemma leaf_matched_tier:
  assumes "tierPrice leaf = Some price" "evaluatePricingNode (estimator_env intl fmt vars) leaf est_init = (Inr v, s')"
  shows "es_matchedTier s' = tier_label leaf"
  using assms(1)
proof (cases rule: tierPrice_cases)
  case (1 a b c d label body)
  from linear_pure [OF 1(2)] assms(2) show ?thesis
    by (auto simp: 1(1) estimator_env_def estimator_functions_def tier_function_def
        split: prod.splits sum.splits pvalue.splits)
next
  case 2
  from linear_pure [OF 2(1), of "estimator_env intl fmt vars" est_init] assms(2) show ?thesis
    by (simp add: 2(2)) (simp add: est_init_def)
qed

section \<open>The variables of a tree\<close>

fun node_vars :: "pnode \<Rightarrow> string set" where
  "node_vars (NVariable _ _ name) = {name}"
| "node_vars (NCall _ _ _ args) = (\<Union>a \<in> set args. node_vars a)"
| "node_vars (NUnary _ _ _ v) = node_vars v"
| "node_vars (NBinary _ _ _ l r) = node_vars l \<union> node_vars r"
| "node_vars (NConditional _ _ c y n) = node_vars c \<union> node_vars y \<union> node_vars n"
| "node_vars _ = {}"

lemma used_vars_loop_set: "set (used_vars_loop ns used) = set used \<union> (\<Union>n \<in> set ns. node_vars n)"
  by (induction ns used rule: used_vars_loop.induct)
     (auto simp: used_vars_loop.simps(2) split: pnode.splits)

section \<open>Token counts\<close>

lemma weight_1h: "js_mul (Fin 0) (js_div (Fin 6) (Fin (15/4))) = Fin 0"
  by code_simp

lemma billed_once:
  fixes a b c d :: int
  assumes nn: "0 \<le> a" "0 \<le> b" "0 \<le> c" "0 \<le> d" "a + b + c + 2 * d \<le> 2 ^ 53"
    and x: "num_or_zero (cacheReadTokens x) = Fin (of_int b)" "num_or_zero (cacheCreateTokens x) = Fin (of_int c)"
    "num_or_zero (cacheCreate1hTokens x) = Fin 0" "num_or_zero (cacheCreate12hTokens x) = Fin (of_int d)"
  shows "\<exists>p cc. billed_tokens used (Fin (of_int a)) x =
      \<lparr>tn_p = Fin (of_int p), tn_cc = Fin (of_int cc), tn_len = Fin (of_int (a + b + c + d))\<rparr> \<and>
      p + (if ''cr'' \<in> set used then b else 0) + (if ''cc'' \<in> set used then cc else 0) +
        (if ''cc12h'' \<in> set used then d else 0) =
      a + b + c + (if ''cc12h'' \<in> set used then d else 2 * d)"
proof -
  have add: "js_add (Fin (of_int m)) (Fin (of_int n)) = Fin (of_int (m + n))" if "0 \<le> m" "0 \<le> n" "m + n \<le> 2 ^ 53" for m n
    using that by (intro js_add_int) auto
  have zero: "js_add (Fin (of_int m)) (Fin 0) = Fin (of_int m)" if "0 \<le> m" "m \<le> 2 ^ 53" for m
    using js_add_int [of m 0] that by simp
  have two: "js_mul (Fin (of_int d)) (Fin 2) = Fin (of_int (2 * d))"
    using js_mul_int [of d 2] nn by (simp add: mult.commute)
  define p1 where "p1 = (if ''cr'' \<in> set used then a else a + b)"
  define p3 where "p3 = (if ''cc12h'' \<notin> set used \<and> ''cc'' \<notin> set used then p1 + 2 * d else p1)"
  define c3 where "c3 = (if ''cc12h'' \<notin> set used \<and> ''cc'' \<in> set used then c + 2 * d else c)"
  have len: "js_add (js_add (js_add (js_add (Fin (of_int a)) (Fin (of_int b))) (Fin (of_int c))) (Fin 0)) (Fin (of_int d))
      = Fin (of_int (a + b + c + d))"
    using nn by (simp add: add zero del: of_int_add)
  have p: "(if ''cr'' \<notin> set used then js_add (Fin (of_int a)) (Fin (of_int b)) else Fin (of_int a)) = Fin (of_int p1)"
    "0 \<le> p1" "p1 \<le> a + b"
    using nn by (auto simp: p1_def add simp del: of_int_add)
  have "billed_tokens used (Fin (of_int a)) x =
      \<lparr>tn_p = Fin (of_int (if ''cc'' \<notin> set used then p3 + c3 else p3)), tn_cc = Fin (of_int c3),
       tn_len = Fin (of_int (a + b + c + d))\<rparr>"
    unfolding billed_tokens_def Let_def x len p(1) weight_1h two
    using nn p(2,3) by (auto simp: add zero p3_def c3_def simp del: of_int_add of_int_mult)
  then show ?thesis
    by (intro exI [of _ "if ''cc'' \<notin> set used then p3 + c3 else p3"] exI [of _ c3])
       (auto simp: p1_def p3_def c3_def simp del: of_int_add)
qed

end
