(* ===== verification/Linear_Price_Exact.thy ===== *)
theory Linear_Price_Exact
  imports Billing_Tiers
begin

text \<open>
  \<open>linearPrice\<close> against the interpreter: on sums and products of non-negative integers that stay below
  \<open>2\<^sup>5\<^sup>3\<close>, where binary64 arithmetic is exact, the linear price read off a tree is the linear function
  the tree computes.
\<close>

section \<open>Linear prices are exact on integers\<close>

text \<open>The exact value of a sum of products, and the trees whose values all fit in \<open>2\<^sup>5\<^sup>3\<close>.\<close>

fun exact_value :: "(string \<Rightarrow> int) \<Rightarrow> pnode \<Rightarrow> int" where
  "exact_value vs (NNumber _ _ v) = \<lfloor>rv v\<rfloor>"
| "exact_value vs (NVariable _ _ name) = vs name"
| "exact_value vs (NUnary _ _ op v) = exact_value vs v"
| "exact_value vs (NBinary _ _ op l r) =
     (if op = ''+'' then exact_value vs l + exact_value vs r else exact_value vs l * exact_value vs r)"
| "exact_value vs _ = 0"

fun int_tree :: "pnode \<Rightarrow> bool" where
  "int_tree (NNumber _ _ v) \<longleftrightarrow> (case v of Fin q \<Rightarrow> q \<in> \<int> \<and> 0 \<le> q | _ \<Rightarrow> False)"
| "int_tree (NVariable _ _ name) \<longleftrightarrow> name \<in> fst ` set BILLING_VAR_KEY_TO_FIELD"
| "int_tree (NUnary _ _ op v) \<longleftrightarrow> op = ''+'' \<and> int_tree v"
| "int_tree (NBinary _ _ op l r) \<longleftrightarrow> (op = ''+'' \<or> op = ''*'') \<and> int_tree l \<and> int_tree r"
| "int_tree _ \<longleftrightarrow> False"

fun fits :: "(string \<Rightarrow> int) \<Rightarrow> pnode \<Rightarrow> bool" where
  "fits vs (NUnary a b op v) \<longleftrightarrow> fits vs v"
| "fits vs (NBinary a b op l r) \<longleftrightarrow> exact_value vs (NBinary a b op l r) \<le> 2 ^ 53 \<and> fits vs l \<and> fits vs r"
| "fits vs n \<longleftrightarrow> exact_value vs n \<le> 2 ^ 53"

lemma int_tree_NNumber: "int_tree (NNumber a b v) \<longleftrightarrow> (\<exists>k \<ge> 0. v = Fin (of_int k))"
  by (auto split: jsnum.splits elim!: Ints_cases)

lemma price_var_not_literal:
  "name \<in> fst ` set BILLING_VAR_KEY_TO_FIELD \<Longrightarrow> name \<noteq> ''true'' \<and> name \<noteq> ''false''"
  by (auto simp: BILLING_VAR_KEY_TO_FIELD_def BILLING_PRICING_VARS_def billing_var_defs)

definition int_vars :: "(string \<Rightarrow> int) \<Rightarrow> (string \<rightharpoonup> jsnum) \<Rightarrow> bool" where
  "int_vars vs vars \<longleftrightarrow> list_all (\<lambda>(k, _). 0 \<le> vs k \<and> vars k = Some (Fin (of_int (vs k)))) BILLING_VAR_KEY_TO_FIELD"

lemma exact_nonneg: "\<lbrakk> int_tree n; list_all (\<lambda>(k, _). 0 \<le> vs k) BILLING_VAR_KEY_TO_FIELD \<rbrakk> \<Longrightarrow> 0 \<le> exact_value vs n"
  by (induction n) (auto simp: int_tree_NNumber list_all_iff simp del: int_tree.simps(1))

lemma evaluate_exact:
  assumes "int_vars vs (env_variables env)"
  shows "\<lbrakk> int_tree n; fits vs n \<rbrakk> \<Longrightarrow>
    evaluatePricingNode env n s = (Inr (PNum (Fin (of_int (exact_value vs n)))), s)"
proof (induction n arbitrary: s)
  case (NBinary a b p l r)
  have nn: "0 \<le> exact_value vs l" "0 \<le> exact_value vs r"
    using NBinary.prems(1) assms by (auto intro!: exact_nonneg simp: int_vars_def list_all_iff)
  have e: "evaluatePricingNode env l s' = (Inr (PNum (Fin (of_int (exact_value vs l)))), s')"
    "evaluatePricingNode env r s' = (Inr (PNum (Fin (of_int (exact_value vs r)))), s')" for s'
    using NBinary.IH NBinary.prems by auto
  have le: "exact_value vs (NBinary a b p l r) \<le> 2 ^ 53" using NBinary.prems(2) by simp
  consider "p = ''+''" | "p = ''*''" using NBinary.prems(1) by auto
  then show ?case
  proof cases
    case 1
    with le nn e js_add_int [of "exact_value vs l" "exact_value vs r"] show ?thesis
      by (simp add: strict_binary_def as_number_def arith_op_def del: of_int_add)
  next
    case 2
    with le nn e js_mul_int [of "exact_value vs l" "exact_value vs r"] show ?thesis
      by (simp add: strict_binary_def as_number_def arith_op_def del: of_int_mult)
  qed
next
  case (NVariable a b name)
  then show ?case using assms price_var_not_literal [of name] by (auto simp: int_vars_def list_all_iff)
next
  case (NNumber a b v)
  then show ?case by (auto simp: int_tree_NNumber simp del: int_tree.simps)
qed (auto simp: unary_op_def)

text \<open>The coefficients of a linear price as integers, and the linear combination they stand for.\<close>

definition int_coefficients :: "(string \<times> int) list \<Rightarrow> (string \<times> jsnum) list" where
  "int_coefficients ks = map (\<lambda>(key, k). (key, Fin (of_int k))) ks"

definition combination :: "(string \<Rightarrow> int) \<Rightarrow> (string \<times> int) list \<Rightarrow> int" where
  "combination vs ks = sum_list (map (\<lambda>(key, k). k * vs key) ks)"

lemma combination_simps [simp]:
  "combination vs [] = 0" "combination vs ((key, k) # ks) = k * vs key + combination vs ks"
  by (simp_all add: combination_def)

definition nonneg_coeffs :: "(string \<times> int) list \<Rightarrow> bool" where
  "nonneg_coeffs ks \<longleftrightarrow> list_all (\<lambda>(_, k). 0 \<le> k) ks"

lemma nonneg_coeffs_simps [simp]:
  "nonneg_coeffs []" "nonneg_coeffs ((key, k) # ks) \<longleftrightarrow> 0 \<le> k \<and> nonneg_coeffs ks"
  by (simp_all add: nonneg_coeffs_def)

lemma combination_ones_nonneg: "nonneg_coeffs ks \<Longrightarrow> 0 \<le> combination (\<lambda>_. 1) ks"
  by (induction ks) auto

definition int_get :: "(string \<times> int) list \<Rightarrow> string \<Rightarrow> int" where
  "int_get ks key = coalesce (map_of ks key) 0"

lemma int_coefficients_get:
  "coalesce (map_of (int_coefficients ks) key) (Fin 0) = Fin (of_int (int_get ks key))"
  by (induction ks) (auto simp: int_coefficients_def int_get_def)

lemma int_coefficients_set:
  "obj_set key (Fin (of_int k)) (int_coefficients ks) = int_coefficients (obj_set key k ks)"
  by (induction ks) (auto simp: int_coefficients_def)

lemma int_get_bounds: "nonneg_coeffs ks \<Longrightarrow> 0 \<le> int_get ks key \<and> int_get ks key \<le> combination (\<lambda>_. 1) ks"
  by (induction ks) (auto simp: int_get_def dest: combination_ones_nonneg)

lemma combination_set:
  "distinct (map fst ks) \<Longrightarrow> combination vs (obj_set key k ks) = combination vs ks + (k - int_get ks key) * vs key"
  by (induction ks) (auto simp: int_get_def algebra_simps split: option.splits)

lemma nonneg_set: "nonneg_coeffs ks \<Longrightarrow> 0 \<le> k \<Longrightarrow> nonneg_coeffs (obj_set key k ks)"
  by (induction ks) auto

lemma distinct_obj_set: "distinct (map fst ks) \<Longrightarrow> distinct (map fst (obj_set k v ks))"
  by (induction ks) auto

lemma add_coefficients_exact:
  "\<lbrakk> nonneg_coeffs ks; nonneg_coeffs ms; distinct (map fst ks);
     combination (\<lambda>_. 1) ks + combination (\<lambda>_. 1) ms \<le> 2 ^ 53 \<rbrakk> \<Longrightarrow>
   \<exists>ns. add_coefficients (int_coefficients ks) (int_coefficients ms) = int_coefficients ns \<and>
     nonneg_coeffs ns \<and> distinct (map fst ns) \<and> (\<forall>vs. combination vs ns = combination vs ks + combination vs ms)"
proof (induction ms arbitrary: ks)
  case (Cons m ms)
  obtain key k where m: "m = (key, k)" by (cases m)
  let ?k = "int_get ks key + k"
  let ?ks = "obj_set key ?k ks"
  have b: "0 \<le> int_get ks key" "int_get ks key \<le> combination (\<lambda>_. 1) ks"
    using int_get_bounds [OF Cons.prems(1)] by auto
  have nn: "0 \<le> combination (\<lambda>_. 1) ms" using Cons.prems(2) m by (auto intro: combination_ones_nonneg)
  have "js_add (Fin (of_int (int_get ks key))) (Fin (of_int k)) = Fin (of_int ?k)"
    using Cons.prems(2,4) m b nn by (intro js_add_int) auto
  then have step: "add_coefficients (int_coefficients ks) (int_coefficients (m # ms))
      = add_coefficients (int_coefficients ?ks) (int_coefficients ms)"
    by (simp add: add_coefficients_def int_coefficients_get int_coefficients_set m
        int_coefficients_def [of "(key, k) # ms"] int_coefficients_def [of ms, symmetric]
        del: of_int_add)
  have c: "combination vs ?ks = combination vs ks + k * vs key" for vs
    by (simp add: combination_set [OF Cons.prems(3)])
  have "\<exists>ns. add_coefficients (int_coefficients ?ks) (int_coefficients ms) = int_coefficients ns \<and>
     nonneg_coeffs ns \<and> distinct (map fst ns) \<and> (\<forall>vs. combination vs ns = combination vs ?ks + combination vs ms)"
    using Cons.prems m b c by (intro Cons.IH) (auto intro: nonneg_set distinct_obj_set)
  then show ?case unfolding step using c m by auto
qed (auto simp: add_coefficients_def int_coefficients_def)

definition scale_coeffs :: "int \<Rightarrow> (string \<times> int) list \<Rightarrow> (string \<times> int) list" where
  "scale_coeffs k ks = map (\<lambda>(key, c). (key, c * k)) ks"

lemma scale_exact:
  assumes "nonneg_coeffs ks" "0 \<le> a" "0 \<le> k" "(a + combination (\<lambda>_. 1) ks) * k \<le> 2 ^ 53"
  shows "scale_price \<lparr>lp_constant = Fin (of_int a), lp_coefficients = int_coefficients ks\<rparr> (Fin (of_int k)) =
      \<lparr>lp_constant = Fin (of_int (a * k)), lp_coefficients = int_coefficients (scale_coeffs k ks)\<rparr>"
proof -
  have ones: "0 \<le> combination (\<lambda>_. 1) ks" using assms(1) by (rule combination_ones_nonneg)
  have "a * k \<le> (a + combination (\<lambda>_. 1) ks) * k" using ones assms(3) by (intro mult_right_mono) auto
  then have a: "js_mul (Fin (of_int a)) (Fin (of_int k)) = Fin (of_int (a * k))"
    using assms by (intro js_mul_int) auto
  have "combination (\<lambda>_. 1) ks * k \<le> (a + combination (\<lambda>_. 1) ks) * k"
    using assms(2,3) by (intro mult_right_mono) auto
  then have le: "combination (\<lambda>_. 1) ks * k \<le> 2 ^ 53" using assms(4) by linarith
  have "map (\<lambda>(key, v). (key, js_mul v (Fin (of_int k)))) (int_coefficients ks) =
      int_coefficients (map (\<lambda>(key, c). (key, c * k)) ks)"
    using assms(1) le
  proof (induction ks)
    case (Cons m ks)
    obtain key c where m: "m = (key, c)" by (cases m)
    have nn: "0 \<le> c" "0 \<le> combination (\<lambda>_. 1) ks" using Cons.prems(1) m by (auto intro: combination_ones_nonneg)
    have sum: "c * k + combination (\<lambda>_. 1) ks * k \<le> 2 ^ 53" using Cons.prems(2) m by (simp add: algebra_simps)
    moreover have "0 \<le> c * k" "0 \<le> combination (\<lambda>_. 1) ks * k" using nn assms(3) by auto
    ultimately have le': "c * k \<le> 2 ^ 53" "combination (\<lambda>_. 1) ks * k \<le> 2 ^ 53" by linarith+
    have "js_mul (Fin (of_int c)) (Fin (of_int k)) = Fin (of_int (c * k))"
      using nn assms(3) le' by (intro js_mul_int)
    then show ?case using Cons.IH Cons.prems(1) m le'(2)
      by (simp add: int_coefficients_def del: of_int_mult)
  qed (simp add: int_coefficients_def)
  with a show ?thesis by (simp add: scale_price_def scale_coeffs_def del: of_int_mult)
qed

lemma scale_coeffs:
  "combination vs (scale_coeffs k ks) = combination vs ks * k"
  "nonneg_coeffs ks \<Longrightarrow> 0 \<le> k \<Longrightarrow> nonneg_coeffs (scale_coeffs k ks)"
  "map fst (scale_coeffs k ks) = map fst ks"
  by (induction ks) (auto simp: scale_coeffs_def algebra_simps)

text \<open>A linear price that stands for an integer combination.\<close>

definition int_price :: "linear_price \<Rightarrow> int \<Rightarrow> (string \<times> int) list \<Rightarrow> bool" where
  "int_price lp a ks \<longleftrightarrow> lp = \<lparr>lp_constant = Fin (of_int a), lp_coefficients = int_coefficients ks\<rparr> \<and>
     0 \<le> a \<and> nonneg_coeffs ks \<and> distinct (map fst ks)"

lemma int_price_scale:
  "\<lbrakk> int_price lp a ks; 0 \<le> k; (a + combination (\<lambda>_. 1) ks) * k \<le> 2 ^ 53 \<rbrakk> \<Longrightarrow>
     int_price (scale_price lp (Fin (of_int k))) (a * k) (scale_coeffs k ks)"
  using scale_exact [of ks a k] by (auto simp: int_price_def scale_coeffs simp del: of_int_mult)

lemma linear_binary_exact:
  assumes l: "int_price left a ks" and r: "int_price right b ms" and op: "op = ''+'' \<or> op = ''*''"
    and res: "linear_binary op left right = Some lp"
    and le: "(if op = ''+'' then (a + combination (\<lambda>_. 1) ks) + (b + combination (\<lambda>_. 1) ms)
              else (a + combination (\<lambda>_. 1) ks) * (b + combination (\<lambda>_. 1) ms)) \<le> 2 ^ 53"
  shows "\<exists>c ns. int_price lp c ns \<and> (\<forall>vs. c + combination vs ns =
      (if op = ''+'' then (a + combination vs ks) + (b + combination vs ms)
       else (a + combination vs ks) * (b + combination vs ms)))"
proof -
  note lr = l [unfolded int_price_def] r [unfolded int_price_def]
  have ones: "0 \<le> combination (\<lambda>_. 1) ks" "0 \<le> combination (\<lambda>_. 1) ms"
    using lr by (auto intro: combination_ones_nonneg)
  consider "op = ''+''" | "op = ''*''" "ks = []" | "op = ''*''" "ks \<noteq> []" "ms = []"
    using op res lr by (auto simp: linear_binary_def int_coefficients_def split: if_splits)
  then show ?thesis
  proof cases
    case 1
    have "js_add (Fin (of_int a)) (Fin (of_int b)) = Fin (of_int (a + b))"
      using le 1 ones lr by (intro js_add_int) auto
    moreover obtain ns where "add_coefficients (int_coefficients ks) (int_coefficients ms) = int_coefficients ns"
      "nonneg_coeffs ns" "distinct (map fst ns)" "\<forall>vs. combination vs ns = combination vs ks + combination vs ms"
      using add_coefficients_exact [of ks ms] lr le 1 by auto
    ultimately show ?thesis using res 1 lr
      by (intro exI [of _ "a + b"] exI [of _ ns]) (auto simp: linear_binary_def int_price_def simp del: of_int_add)
  next
    case 2
    then have "lp = scale_price right (Fin (of_int a))" using res lr
      by (auto simp: linear_binary_def int_coefficients_def)
    then have "int_price lp (b * a) (scale_coeffs a ms)"
      using int_price_scale [OF r, of a] lr le 2 by (simp add: mult.commute)
    then show ?thesis using 2
      by (intro exI [of _ "b * a"] exI [of _ "scale_coeffs a ms"]) (auto simp: scale_coeffs algebra_simps)
  next
    case 3
    then have "lp = scale_price left (Fin (of_int b))" using res lr
      by (auto simp: linear_binary_def int_coefficients_def)
    then have "int_price lp (a * b) (scale_coeffs b ks)"
      using int_price_scale [OF l, of b] lr le 3 by simp
    then show ?thesis using 3
      by (intro exI [of _ "a * b"] exI [of _ "scale_coeffs b ks"]) (auto simp: scale_coeffs algebra_simps)
  qed
qed

lemma linear_exact:
  "\<lbrakk> linearPrice n = Some lp; int_tree n; fits (\<lambda>_. 1) n \<rbrakk> \<Longrightarrow>
     \<exists>a ks. int_price lp a ks \<and> (\<forall>vs. exact_value vs n = a + combination vs ks)"
proof (induction n arbitrary: lp)
  case (NBinary x y p l r)
  then obtain left right where lr: "linearPrice l = Some left" "linearPrice r = Some right"
    "linear_binary p left right = Some lp"
    by (auto split: option.splits)
  obtain a ks where L: "int_price left a ks" "\<And>vs. exact_value vs l = a + combination vs ks"
    using NBinary.IH(1) [OF lr(1)] NBinary.prems by auto
  obtain b ms where R: "int_price right b ms" "\<And>vs. exact_value vs r = b + combination vs ms"
    using NBinary.IH(2) [OF lr(2)] NBinary.prems by auto
  have p: "p = ''+'' \<or> p = ''*''" using NBinary.prems(2) by auto
  have le: "(if p = ''+'' then (a + combination (\<lambda>_. 1) ks) + (b + combination (\<lambda>_. 1) ms)
      else (a + combination (\<lambda>_. 1) ks) * (b + combination (\<lambda>_. 1) ms)) \<le> 2 ^ 53"
    using NBinary.prems(3) L(2) R(2) p by auto
  from linear_binary_exact [OF L(1) R(1) p lr(3) le] show ?case
    by (simp only: exact_value.simps L(2) R(2)) metis
next
  case (NNumber x y v)
  then obtain k where "0 \<le> k" "v = Fin (of_int k)" by (auto simp: int_tree_NNumber simp del: int_tree.simps)
  then show ?case using NNumber.prems(1)
    by (intro exI [of _ k] exI [of _ "[]"]) (auto simp: int_price_def int_coefficients_def)
next
  case (NVariable x y name)
  then show ?case
    by (intro exI [of _ 0] exI [of _ "[(name, 1)]"]) (auto simp: int_price_def int_coefficients_def)
qed auto

end
