(* ===== verification/Rule_Roundtrip.thy ===== *)
theory Rule_Roundtrip
  imports Request_Rules
begin

text \<open>
  The builder and the parser of request conditions are inverse to each other on the conditions of the
  visual editor: every pattern of the parser is stepped through on the text the builder produces.
\<close>

section \<open>Patterns on built text\<close>

lemma rmatch_RSeqs: "rmatch (RSeq (RSeqs rs) q) s c = rmatch (RSeqs (rs @ [q])) s c"
proof (induction rs arbitrary: s c rule: RSeqs.induct)
  case (3 r r' rs)
  then show ?case by (simp add: rmatch.simps(4) [of r] case_prod_unfold)
qed (simp_all add: rx_simps)

lemma numeric_text:
  assumes "rx_test NUMERIC_LITERAL_REGEX v"
  shows "v \<noteq> []" "list_all num_char v"
proof -
  show "v \<noteq> []" using assms
    by (rule rx_test_nonempty) (simp add: NUMERIC_LITERAL_REGEX_def unsigned_literal_rx_def digits_rx_def)
  show "list_all num_char v" using assms
    by (rule rx_test_over)
       (auto simp: NUMERIC_LITERAL_REGEX_def unsigned_literal_rx_def digits_rx_def num_char_def)
qed

lemma num_char_class: "num_char x \<Longrightarrow> not_newline x \<and> \<not> is_ws x \<and> x \<noteq> CHR '' ''"
  by (auto simp: num_char_def not_newline_def is_digit_def is_ws_def ordc_def)

lemma numeric_trimmed: "rx_test NUMERIC_LITERAL_REGEX v \<Longrightarrow> js_trim v = v"
  using numeric_text [of v] by (intro js_trim_id) (auto simp: trimmed_def list_all_iff num_char_class)

lemma rx_full_eq: "rx_full r s = (case rmatch (RSeq r REnd) s Map.empty of [] \<Rightarrow> None | m # _ \<Rightarrow> Some (snd m))"
  by (simp add: rx_full_def rx_exec_def split: list.split)

lemma rmatch_Cap_Plus_all:
  assumes "w \<noteq> []" "list_all P w"
  shows "rmatch (RSeq (RCap i (RPlus (RSet P))) REnd) w c = [([], c(i \<mapsto> w))]"
  using rmatch_Seq_Cap_Plus [OF assms(1), of P "[]" REnd i c] assms(2) by (simp add: list_all_iff)

lemma time_name_steps:
  "rmatch (RSeq (RCap i time_name_rx) r) s c = concat (map (\<lambda>f. rmatch (RSeq (RCap i (RLit (tf_name f))) r) s c) TIME_FUNCS)"
  by (simp add: time_name_rx_def TIME_FUNCS_def rx_simps cong: option.case_cong)

lemma time_none:
  assumes "list_all (\<lambda>f. strip_prefix (tf_name f) s = None) TIME_FUNCS" "strip_prefix ''('' s = None"
  shows "tryParseTimeCondition intl s = None"
proof -
  have n: "rmatch (RSeq (RCap i time_name_rx) r) s c = []" for i r c
    using assms(1) by (simp add: time_name_steps TIME_FUNCS_def rx_simps)
  have "rmatch (RSeq (RSeqs [RLit ''('', time_range_rx, RLit '')'']) REnd) s Map.empty = []"
    using assms(2) by (simp add: rx_simps)
  then show ?thesis
    by (simp add: tryParseTimeCondition_def rx_full_eq time_range_rx_def time_scalar_rx_def n)
qed

lemma token_ops:
  assumes "token_mode_op mode = Some op" 
  shows "token_op_mode op = Some mode" "op \<in> {''=='', ''>'', ''>='', ''<'', ''<=''}"
  using assms by (auto simp: token_mode_op_def token_op_mode_def match_defs split: if_splits)

lemma token_rule_match:
  assumes "path \<in> set BILLING_CONDITION_VARS" "op \<in> {''=='', ''>'', ''>='', ''<'', ''<=''}"
    "v \<noteq> []" "list_all num_char v"
  shows "rx_full token_rule_rx (path @ '' '' @ op @ '' '' @ v) = Some [1 \<mapsto> path, 2 \<mapsto> op, 3 \<mapsto> v]"
proof -
  have w: "path \<noteq> []" "\<forall>x \<in> set path. is_word x"
    using assms(1) by (auto simp: BILLING_CONDITION_VARS_eq is_word_def is_alpha_us_def ordc_def)
  have v: "list_all not_newline v" using assms(4) num_char_class by (auto simp: list_all_iff)
  have sp: "\<not> is_word CHR '' ''" by (simp add: char_class_simps ordc_def)
  show ?thesis
    using assms(2) w sp rmatch_Cap_Plus_all [OF assms(3) v]
    by (auto simp: rx_full_eq token_rule_rx_def rx_simps rmatch_Seq_Cap_Plus [where w = path])
qed

text \<open>Time functions.\<close>

lemma time_fn_step:
  "rmatch (RSeq (RCap i time_name_rx) (RSeq (RLit ''(\"'') r)) (tf_name f @ CHR ''('' # dquote # s) c =
     rmatch r s (c(i \<mapsto> tf_name f))"
  by (cases f) (simp_all add: time_name_steps TIME_FUNCS_def rx_simps cong: option.case_cong)

lemma tf_of_name [simp]: "tf_of (tf_name f) = Some f"
  by (cases f) (simp_all add: tf_of_def TIME_FUNCS_def)

lemma tf_name_hd: "tf_name f = hd (tf_name f) # tl (tf_name f)" "hd (tf_name f) \<noteq> CHR ''(''"
  by (cases f; simp)+

lemma time_paren_none: "rx_full (RSeqs [RLit ''('', time_range_rx, RLit '')'']) (tf_name f @ s) = None"
  by (subst tf_name_hd(1)) (use tf_name_hd(2) [of f] in \<open>auto simp: rx_full_eq rx_simps\<close>)

lemma time_scalar_flat:
  "rmatch (RSeq time_scalar_rx REnd) s c = rmatch (RSeqs [RCap 1 time_name_rx, RLit ''(\"'',
     RCap 2 (RStar (RSet not_quote)), RLit ''\") '', RCap 3 (RAlts [RLit ''=='', RLit ''>='', RLit ''<'']), RLit '' '',
     RCap 4 num_text_rx, REnd]) s c"
  by (simp only: time_scalar_rx_def rmatch_RSeqs append.simps)

lemma time_range_flat:
  "rmatch (RSeq time_range_rx REnd) s c = rmatch (RSeqs [RCap 1 time_name_rx, RLit ''(\"'', RCap 2 (RStar (RSet not_quote)),
     RLit ''\") >= '', RCap 3 num_text_rx, RLit '' '', RCap 4 (RAlt (RLit ''&&'') (RLit ''||'')),
     RLit '' '', RRef 1, RLit ''(\"'', RRef 2, RLit ''\") < '', RCap 5 num_text_rx, REnd]) s c"
  by (simp only: time_range_rx_def rmatch_RSeqs append.simps)

text \<open>The common beginning \<open>fn("tz")\<close> of the two patterns.\<close>

lemma time_call_step:
  assumes "list_all not_quote tz" "r \<noteq> []"
  shows "rmatch (RSeqs ([RCap 1 time_name_rx, RLit ''(\"'', RCap 2 (RStar (RSet not_quote)), RLit (dquote # l)] @ r))
      (tf_name f @ ''(\"'' @ tz @ dquote # s) c =
     rmatch (RSeqs (RLit l # r)) s (c(1 \<mapsto> tf_name f, 2 \<mapsto> tz))"
proof -
  obtain r1 rs where r: "r = r1 # rs" using assms(2) by (cases r) auto
  have q: "\<forall>x \<in> set tz. not_quote x" using assms(1) by (simp add: list_all_iff)
  have "rmatch (RSeq (RCap 2 (RStar (RSet not_quote))) (RSeq (RLit (dquote # l)) (RSeqs r))) (tz @ dquote # s) d
      = rmatch (RSeq (RLit (dquote # l)) (RSeqs r)) (dquote # s) (d(2 \<mapsto> tz))" for d
    by (rule rmatch_Seq_Cap_Star [OF q]) (simp_all add: not_quote_def)
  then show ?thesis by (simp add: r time_fn_step) (simp add: rx_simps)
qed

lemma num_then_end:
  assumes "v \<noteq> []" "list_all num_char v"
  shows "rmatch (RSeq (RCap i num_text_rx) (RSeq (RLit '' '') r)) v c = []"
    and "rmatch (RSeq (RCap i num_text_rx) REnd) v c = [([], c(i \<mapsto> v))]"
proof -
  have sp: "\<not> num_char CHR '' ''" by (simp add: num_char_def is_digit_def ordc_def)
  have nv: "\<forall>x \<in> set v. num_char x" using assms(2) by (simp add: list_all_iff)
  show "rmatch (RSeq (RCap i num_text_rx) (RSeq (RLit '' '') r)) v c = []"
    unfolding num_text_rx_def
    using rmatch_Seq_Cap_Plus [OF assms(1) nv, of "[]" "RSeq (RLit '' '') r" i c] sp
    by (simp add: rx_simps)
  show "rmatch (RSeq (RCap i num_text_rx) REnd) v c = [([], c(i \<mapsto> v))]"
    unfolding num_text_rx_def by (rule rmatch_Cap_Plus_all [OF assms])
qed

lemma num_then_space:
  assumes "v \<noteq> []" "list_all num_char v"
  shows "rmatch (RSeq (RCap i num_text_rx) (RSeq (RLit '' '') r)) (v @ CHR '' '' # s) c = rmatch r s (c(i \<mapsto> v))"
proof -
  have sp: "\<not> num_char CHR '' ''" by (simp add: num_char_def is_digit_def ordc_def)
  have nv: "\<forall>x \<in> set v. num_char x" using assms(2) by (simp add: list_all_iff)
  have "rmatch (RSeq (RCap i num_text_rx) (RSeq (RLit '' '') r)) (v @ CHR '' '' # s) c
      = rmatch (RSeq (RLit '' '') r) (CHR '' '' # s) (c(i \<mapsto> v))"
    unfolding num_text_rx_def by (rule rmatch_Seq_Cap_Plus [OF assms(1) nv]) (use sp in auto)
  then show ?thesis by (simp add: rx_simps)
qed

lemma time_scalar_match:
  assumes "list_all not_quote tz" "op \<in> {''=='', ''>='', ''<''}" "v \<noteq> []" "list_all num_char v"
  shows "rx_full time_scalar_rx (tf_name f @ ''(\"'' @ tz @ ''\") '' @ op @ '' '' @ v) =
      Some [1 \<mapsto> tf_name f, 2 \<mapsto> tz, 3 \<mapsto> op, 4 \<mapsto> v]"
    and "rx_full time_range_rx (tf_name f @ ''(\"'' @ tz @ ''\") '' @ op @ '' '' @ v) = None"
proof -
  let ?sc = "[RCap 3 (RAlts [RLit ''=='', RLit ''>='', RLit ''<'']), RLit '' '', RCap 4 num_text_rx, REnd]"
  let ?rg = "[RCap 3 num_text_rx, RLit '' '', RCap 4 (RAlt (RLit ''&&'') (RLit ''||'')),
         RLit '' '', RRef 1, RLit ''(\"'', RRef 2, RLit ''\") < '', RCap 5 num_text_rx, REnd]"
  have "rmatch (RSeq time_scalar_rx REnd) (tf_name f @ ''(\"'' @ tz @ ''\") '' @ op @ '' '' @ v) Map.empty
     = rmatch (RSeqs (RLit '') '' # ?sc))
         ('') '' @ op @ '' '' @ v) [1 \<mapsto> tf_name f, 2 \<mapsto> tz]"
    using time_call_step [OF assms(1), of ?sc "'') ''" f "'') '' @ op @ '' '' @ v" Map.empty]
    unfolding time_scalar_flat by simp
  also have "\<dots> = [([], [1 \<mapsto> tf_name f, 2 \<mapsto> tz, 3 \<mapsto> op, 4 \<mapsto> v])]"
    using assms(2) num_then_end [OF assms(3,4)] by (auto simp: rx_simps)
  finally show "rx_full time_scalar_rx (tf_name f @ ''(\"'' @ tz @ ''\") '' @ op @ '' '' @ v) =
      Some [1 \<mapsto> tf_name f, 2 \<mapsto> tz, 3 \<mapsto> op, 4 \<mapsto> v]"
    by (simp add: rx_full_eq)
  have "rmatch (RSeq time_range_rx REnd) (tf_name f @ ''(\"'' @ tz @ ''\") '' @ op @ '' '' @ v) Map.empty
     = rmatch (RSeqs (RLit '') >= '' # ?rg))
         ('') '' @ op @ '' '' @ v) [1 \<mapsto> tf_name f, 2 \<mapsto> tz]"
    using time_call_step [OF assms(1), of ?rg "'') >= ''" f "'') '' @ op @ '' '' @ v" Map.empty]
    unfolding time_range_flat by simp
  also have "\<dots> = []"
    using assms(2) num_then_end(1) [OF assms(3,4)] by (auto simp: rx_simps)
  finally show "rx_full time_range_rx (tf_name f @ ''(\"'' @ tz @ ''\") '' @ op @ '' '' @ v) = None"
    by (simp add: rx_full_eq)
qed

lemma time_range_match:
  assumes "list_all not_quote tz" "op \<in> {''&&'', ''||''}" "a \<noteq> []" "list_all num_char a" "b \<noteq> []" "list_all num_char b"
  shows "rx_full time_range_rx (tf_name f @ ''(\"'' @ tz @ ''\") >= '' @ a @ '' '' @ op @ '' '' @ tf_name f @ ''(\"'' @ tz @ ''\") < '' @ b) =
      Some [1 \<mapsto> tf_name f, 2 \<mapsto> tz, 3 \<mapsto> a, 4 \<mapsto> op, 5 \<mapsto> b]"
proof -
  let ?rg = "[RCap 3 num_text_rx, RLit '' '', RCap 4 (RAlt (RLit ''&&'') (RLit ''||'')),
         RLit '' '', RRef 1, RLit ''(\"'', RRef 2, RLit ''\") < '', RCap 5 num_text_rx, REnd]"
  let ?rest = "op @ '' '' @ tf_name f @ ''(\"'' @ tz @ ''\") < '' @ b"
  have "rmatch (RSeq time_range_rx REnd) (tf_name f @ ''(\"'' @ tz @ ''\") >= '' @ a @ '' '' @ ?rest) Map.empty
     = rmatch (RSeqs (RLit '') >= '' # ?rg))
         ('') >= '' @ a @ '' '' @ ?rest) [1 \<mapsto> tf_name f, 2 \<mapsto> tz]"
    using time_call_step [OF assms(1), of ?rg "'') >= ''" f "'') >= '' @ a @ '' '' @ ?rest" Map.empty]
    unfolding time_range_flat by simp
  also have "\<dots> = [([], [1 \<mapsto> tf_name f, 2 \<mapsto> tz, 3 \<mapsto> a, 4 \<mapsto> op, 5 \<mapsto> b])]"
    using assms(2) num_then_space [OF assms(3,4)] num_then_end(2) [OF assms(5,6)] by (auto simp: rx_simps)
  finally show ?thesis by (simp add: rx_full_eq)
qed

section \<open>Calls and literals\<close>

lemma strip_prefix_app: "strip_prefix (p @ q) (p @ s) = strip_prefix q s"
  by (induction p) auto

lemma call_step:
  assumes "path \<noteq> []" "list_all not_quote path"
  shows "rmatch (RSeq (call_rx name i) r) (name @ ''(\"'' @ path @ ''\")'' @ s) c = rmatch r s (c(i \<mapsto> path))"
proof -
  have q: "\<forall>x \<in> set path. not_quote x" using assms(2) by (simp add: list_all_iff)
  have "rmatch (RSeq (RCap i (RPlus (RSet not_quote))) (RSeq (RLit ''\")'') r)) (path @ dquote # CHR '')'' # s) c
      = rmatch (RSeq (RLit ''\")'') r) (dquote # CHR '')'' # s) (c(i \<mapsto> path))"
    by (rule rmatch_Seq_Cap_Plus [OF assms(1) q]) (simp_all add: not_quote_def)
  then show ?thesis by (simp add: call_rx_def rx_simps strip_prefix_app)
qed

lemma json_literal:
  "list_all not_newline (json_stringify v)" "js_trim (json_stringify v) = json_stringify v"
  "\<not> rx_test NUMERIC_LITERAL_REGEX (json_stringify v)"
proof -
  have hex: "not_newline (hex_digit d)" if "0 \<le> d" "d < 16" for d
    using that by (auto simp: not_newline_def hex_digit_def ordc_char_of)
  have "list_all not_newline (json_escape c)" for c
    using hex [of "ordc c div 16"] hex [of "ordc c mod 16"] ordc_bounds [of c]
    by (auto simp: json_escape_def not_newline_def ordc_def)
  then show "list_all not_newline (json_stringify v)"
    by (auto simp: json_stringify_def list_all_iff not_newline_def ordc_def)
  show "js_trim (json_stringify v) = json_stringify v"
    by (rule js_trim_id) (simp add: trimmed_def json_stringify_def is_ws_def ordc_def)
  show "\<not> rx_test NUMERIC_LITERAL_REGEX (json_stringify v)"
    using numeric_text(2) [of "json_stringify v"]
    by (auto simp: json_stringify_def num_char_def is_digit_def ordc_def)
qed

definition literal_ok :: "string \<Rightarrow> bool" where
  "literal_ok v \<longleftrightarrow> trimmed v \<and> (rx_test NUMERIC_LITERAL_REGEX v \<longrightarrow> is_finite (js_number v))"

lemma literal_roundtrip:
  assumes "literal_ok v"
  shows "parseExprLiteral (buildExprLiteral MATCH_EQ v) = Some v"
    and "list_all not_newline (buildExprLiteral MATCH_EQ v)" "buildExprLiteral MATCH_EQ v \<noteq> []"
proof -
  have t: "js_trim v = v" using assms by (simp add: literal_ok_def js_trim_id)
  have tf: "json_stringify v \<noteq> ''true''" "json_stringify v \<noteq> ''false''" by (simp_all add: json_stringify_def)
  have ws: "js_trim ''true'' = ''true''" "js_trim ''false'' = ''false''"
    by (simp_all add: js_trim_def is_ws_def ordc_def)
  show "parseExprLiteral (buildExprLiteral MATCH_EQ v) = Some v"
    using assms t tf ws json_literal
    by (auto simp: parseExprLiteral_def buildExprLiteral_def Let_def literal_ok_def match_defs)
  have "list_all not_newline v" if "rx_test NUMERIC_LITERAL_REGEX v"
    using numeric_text(2) [OF that] num_char_class by (auto simp: list_all_iff)
  then show "list_all not_newline (buildExprLiteral MATCH_EQ v)"
    using json_literal(1) t by (auto simp: buildExprLiteral_def Let_def match_defs not_newline_def ordc_def)
  show "buildExprLiteral MATCH_EQ v \<noteq> []"
    using t numeric_text(1) [of v] by (auto simp: buildExprLiteral_def Let_def match_defs json_stringify_def)
qed

section \<open>Round trips\<close>

text \<open>
  The conditions the visual editor keeps through building and parsing: comparisons of token counts,
  time conditions in a zone that resolves to itself, and the existence or equality of a parameter or
  header whose path needs no escaping.
\<close>

fun canonical :: "intl \<Rightarrow> request_condition \<Rightarrow> bool" where
  "canonical intl (TimeCond t) \<longleftrightarrow>
     tc_timezone t \<noteq> [] \<and> json_plain (tc_timezone t) \<and>
     resolveBillingTimeZone intl (tc_timezone t) = ZSupported (tc_timezone t) \<and>
     (if tc_mode t = MATCH_RANGE
      then tc_value t = [] \<and> isTimeValueInRange (tc_timeFunc t) (tc_rangeStart t) \<and>
           isTimeValueInRange (tc_timeFunc t) (tc_rangeEnd t)
      else tc_mode t \<in> {MATCH_EQ, MATCH_GTE, MATCH_LT} \<and> tc_rangeStart t = [] \<and> tc_rangeEnd t = [] \<and>
           isTimeValueInRange (tc_timeFunc t) (tc_value t))"
| "canonical intl (PHCond c) \<longleftrightarrow>
     (if ph_source c = SrcToken
      then ph_path c \<in> set BILLING_CONDITION_VARS \<and> token_mode_op (ph_mode c) \<noteq> None \<and>
           rx_test NUMERIC_LITERAL_REGEX (ph_value c) \<and> is_finite (js_number (ph_value c))
      else ph_path c \<noteq> [] \<and> trimmed (ph_path c) \<and> json_plain (ph_path c) \<and>
           (ph_mode c = MATCH_EXISTS \<and> ph_value c = [] \<or> ph_mode c = MATCH_EQ \<and> literal_ok (ph_value c)))"

lemma plain_not_quote: "json_plain s \<Longrightarrow> list_all not_quote s"
  by (auto simp: json_plain_def not_quote_def list_all_iff)

lemma in_range_numeric: "isTimeValueInRange f v \<Longrightarrow> rx_test NUMERIC_LITERAL_REGEX v"
  by (simp add: isTimeValueInRange_def)

lemma normalize_time:
  assumes "canonical intl (TimeCond t)"
  shows "normalizeCondition (Some (as_partial (TimeCond t))) = TimeCond t"
  using assms
  by (auto simp: normalizeCondition_def isTimeFunc_def str_or_def mode_or_def getRequestRuleMatchOptions_def
      split: if_splits)

lemma build_time:
  assumes "canonical intl (TimeCond t)"
  shows "buildTimeConditionExpr t = build_normal_time t"
  by (simp only: buildTimeConditionExpr_def normalize_time [OF assms] request_condition.case)

lemma time_condition_roundtrip:
  assumes "canonical intl (TimeCond t)"
  shows "tryParseTimeCondition intl (buildTimeConditionExpr t) = Some (TimeCond t)"
proof -
  let ?f = "tc_timeFunc t" and ?tz = "tc_timezone t"
  have tz: "list_all not_quote ?tz" "json_stringify ?tz = [dquote] @ ?tz @ [dquote]"
    "resolveBillingTimeZone intl ?tz = ZSupported ?tz"
    using assms by (auto simp: plain_not_quote json_stringify_plain)
  show ?thesis
  proof (cases "tc_mode t = MATCH_RANGE")
    case True
    let ?a = "tc_rangeStart t" and ?b = "tc_rangeEnd t"
    have n: "rx_test NUMERIC_LITERAL_REGEX ?a" "rx_test NUMERIC_LITERAL_REGEX ?b"
      "isTimeValueInRange ?f ?a" "isTimeValueInRange ?f ?b" "tc_value t = []"
      using assms True by (auto intro: in_range_numeric)
    define op where "op = (if js_lt (js_number ?b) (js_number ?a) then ''||'' else ''&&'')"
    have "buildTimeConditionExpr t =
        tf_name ?f @ ''(\"'' @ ?tz @ ''\") >= '' @ ?a @ '' '' @ op @ '' '' @ tf_name ?f @ ''(\"'' @ ?tz @ ''\") < '' @ ?b"
      using n True tz
      by (simp add: build_time [OF assms] build_normal_time_def Let_def
          numeric_trimmed op_def)
    moreover have "op \<in> {''&&'', ''||''}" by (simp add: op_def)
    ultimately have "tryParseTimeCondition intl (buildTimeConditionExpr t) =
        time_range_result intl [1 \<mapsto> tf_name ?f, 2 \<mapsto> ?tz, 3 \<mapsto> ?a, 4 \<mapsto> op, 5 \<mapsto> ?b]"
      using time_range_match [OF tz(1) _ numeric_text [OF n(1)] numeric_text [OF n(2)]]
      by (simp add: tryParseTimeCondition_def)
    then show ?thesis using n tz(3) True
      by (simp add: time_range_result_def op_def time_range_def grp_def)
  next
    case False
    let ?v = "tc_value t"
    have n: "rx_test NUMERIC_LITERAL_REGEX ?v" "isTimeValueInRange ?f ?v"
      "tc_rangeStart t = []" "tc_rangeEnd t = []" "tc_mode t \<in> {MATCH_EQ, MATCH_GTE, MATCH_LT}"
      using assms False by (auto intro: in_range_numeric)
    define op where "op = time_mode_op (tc_mode t)"
    have op: "op \<in> {''=='', ''>='', ''<''}" "time_op_mode op = tc_mode t"
      using n(5) by (auto simp: op_def time_mode_op_def time_op_mode_def match_defs)
    have b: "buildTimeConditionExpr t = tf_name ?f @ ''(\"'' @ ?tz @ ''\") '' @ op @ '' '' @ ?v"
      using n False tz
      by (simp add: build_time [OF assms] build_normal_time_def Let_def
          numeric_trimmed op_def)
    have "tryParseTimeCondition intl (buildTimeConditionExpr t) =
        time_scalar_result intl [1 \<mapsto> tf_name ?f, 2 \<mapsto> ?tz, 3 \<mapsto> op, 4 \<mapsto> ?v]"
      using time_scalar_match [OF tz(1) op(1) numeric_text [OF n(1)]]
        time_paren_none [of ?f "''(\"'' @ ?tz @ ''\") '' @ op @ '' '' @ ?v"]
      by (simp add: tryParseTimeCondition_def b)
    then show ?thesis using n tz(3) op(2)
      by (simp add: time_scalar_result_def time_cond_def grp_def)
  qed
qed

lemma token_condition_roundtrip:
  assumes "canonical intl (PHCond c)" "ph_source c = SrcToken"
  shows "tryParseRequestCondition intl (buildRequestConditionExpr (PHCond c)) = Inr (Some (PHCond c))"
proof -
  obtain op where op: "token_mode_op (ph_mode c) = Some op" using assms by auto
  have a: "ph_path c \<in> set BILLING_CONDITION_VARS" "rx_test NUMERIC_LITERAL_REGEX (ph_value c)"
    "is_finite (js_number (ph_value c))" using assms by auto
  have p: "js_trim (ph_path c) = ph_path c" "ph_path c \<noteq> []"
    using a(1) by (auto simp: BILLING_CONDITION_VARS_eq js_trim_def is_ws_def ordc_def)
  have b: "buildRequestConditionExpr (PHCond c) = ph_path c @ '' '' @ op @ '' '' @ ph_value c"
    using a p op assms(2)
    by (simp add: buildRequestConditionExpr_def normalizeCondition_def str_or_def build_token_def
        numeric_trimmed Let_def)
  have "tryParseTimeCondition intl (ph_path c @ '' '' @ op @ '' '' @ ph_value c) = None"
    by (rule time_none) (use a(1) in \<open>auto simp: BILLING_CONDITION_VARS_eq TIME_FUNCS_def\<close>)
  moreover have "try_token (ph_path c @ '' '' @ op @ '' '' @ ph_value c) = Some (Some (PHCond c))"
    using token_rule_match [OF a(1) token_ops(2) [OF op] numeric_text [OF a(2)]] token_ops(1) [OF op] a assms(2)
    by (simp add: try_token_def ph_cond_def grp_def)
  ultimately show ?thesis by (simp add: b tryParseRequestCondition_def)
qed

lemma call_not_time:
  "tryParseTimeCondition intl (''param('' @ s) = None" "tryParseTimeCondition intl (''header('' @ s) = None"
  by (rule time_none; simp add: TIME_FUNCS_def)+

lemma call_not_token:
  assumes "name = ''param'' \<or> name = ''header''"
  shows "try_token (name @ ''('' @ s) = None"
proof -
  have w: "name \<noteq> []" "\<forall>x \<in> set name. is_word x"
    using assms by (auto simp: is_word_def is_alpha_us_def ordc_def)
  have "rmatch (RSeq (RCap 1 (RPlus (RSet is_word))) (RSeq (RLit '' '') r)) (name @ CHR ''('' # s) c
      = rmatch (RSeq (RLit '' '') r) (CHR ''('' # s) (c(1 \<mapsto> name))" for r c
    by (rule rmatch_Seq_Cap_Plus [OF w]) (simp_all add: char_class_simps ordc_def)
  then have "rmatch (RSeq (RSeqs [RCap 1 (RPlus (RSet is_word)), RLit '' '',
      RCap 2 (RAlts [RLit ''=='', RLit ''>'', RLit ''>='', RLit ''<'', RLit ''<='']), RLit '' '',
      RCap 3 (RPlus (RSet not_newline))]) REnd) (name @ CHR ''('' # s) Map.empty = []"
    unfolding rmatch_RSeqs by (simp add: rx_simps)
  then show ?thesis by (simp add: try_token_def rx_full_eq token_rule_rx_def)
qed

text \<open>The patterns before the equality fail on an equality.\<close>

lemma eq_not_others:
  assumes "path \<noteq> []" "list_all not_quote path"
    and e: "e = ''param'' @ ''(\"'' @ path @ ''\")'' @ '' == '' @ lit \<or> e = ''header'' @ ''(\"'' @ path @ ''\")'' @ '' == '' @ lit"
  shows "try_exists e = None" "try_header_has e = Inr None" "try_param_has e = Inr None" "try_param_cmp e = None"
proof -
  note p = call_step [OF assms(1,2), of "''param''"] and h = call_step [OF assms(1,2), of "''header''"]
  have np: "rmatch (RSeq (call_rx ''param'' i) r) (''header'' @ s) c = []"
    and nh: "rmatch (RSeq (call_rx ''header'' i) r) (''param'' @ s) c = []" for i r s c
    by (simp_all add: call_rx_def rx_simps)
  note steps = rx_full_eq RSeqs.simps rmatch_Seq_assoc p h np nh
  show "try_exists e = None" using e
    by (elim disjE) (simp_all only: try_exists_def steps, simp_all add: rx_simps)
  show "try_header_has e = Inr None" using e
    by (elim disjE) (simp_all add: try_header_has_def rx_full_eq rx_simps)
  show "try_param_has e = Inr None" using e
    by (elim disjE) (simp_all only: try_param_has_def param_has_rx_def steps, simp_all add: rx_simps)
  show "try_param_cmp e = None" using e
    by (elim disjE) (simp_all only: try_param_cmp_def param_cmp_rx_def steps, simp_all add: rx_simps)
qed

lemma call_eq_match:
  assumes "path \<noteq> []" "list_all not_quote path" "lit \<noteq> []" "list_all not_newline lit"
    and "name = ''param'' \<or> name = ''header''"
  shows "rx_full call_eq_rx (name @ ''(\"'' @ path @ ''\")'' @ '' == '' @ lit) = Some [1 \<mapsto> name, 2 \<mapsto> path, 3 \<mapsto> lit]"
proof -
  have q: "\<forall>x \<in> set path. not_quote x" using assms(2) by (simp add: list_all_iff)
  have "rmatch (RSeq (RCap 2 (RPlus (RSet not_quote))) (RSeq (RLit ''\") == '') r)) (path @ ''\") == '' @ s) c
      = rmatch (RSeq (RLit ''\") == '') r) (''\") == '' @ s) (c(2 \<mapsto> path))" for r s c
    by (rule rmatch_Seq_Cap_Plus [OF assms(1) q]) (simp_all add: not_quote_def)
  note st = this [simplified]
  have "rmatch (RSeq call_eq_rx REnd) (name @ ''(\"'' @ path @ ''\")'' @ '' == '' @ lit) Map.empty
      = [([], [1 \<mapsto> name, 2 \<mapsto> path, 3 \<mapsto> lit])]"
    unfolding call_eq_rx_def rmatch_RSeqs
    using assms(5) st rmatch_Cap_Plus_all [OF assms(3,4)] by (auto simp: rx_simps)
  then show ?thesis by (simp add: rx_full_eq)
qed

lemma call_exists_match:
  assumes "path \<noteq> []" "list_all not_quote path"
  shows "try_exists (''header'' @ ''(\"'' @ path @ ''\")'' @ '' != \"\"'') = Some (ph_cond SrcHeader path MATCH_EXISTS [])"
    and "try_exists (''param'' @ ''(\"'' @ path @ ''\")'' @ '' != nil'') = Some (ph_cond SrcParam path MATCH_EXISTS [])"
proof -
  note p = call_step [OF assms, of "''param''"] and h = call_step [OF assms, of "''header''"]
  have nh: "rmatch (RSeq (call_rx ''header'' i) r) (''param'' @ s) c = []" for i r s c
    by (simp add: call_rx_def rx_simps)
  note steps = rx_full_eq RSeqs.simps rmatch_Seq_assoc p h nh
  show "try_exists (''header'' @ ''(\"'' @ path @ ''\")'' @ '' != \"\"'') = Some (ph_cond SrcHeader path MATCH_EXISTS [])"
    by (simp only: try_exists_def steps) (simp add: rx_simps)
  show "try_exists (''param'' @ ''(\"'' @ path @ ''\")'' @ '' != nil'') = Some (ph_cond SrcParam path MATCH_EXISTS [])"
    by (simp only: try_exists_def steps) (simp add: rx_simps)
qed

lemma call_condition_roundtrip:
  assumes "canonical intl (PHCond c)" "ph_source c \<noteq> SrcToken"
  shows "tryParseRequestCondition intl (buildRequestConditionExpr (PHCond c)) = Inr (Some (PHCond c))"
proof -
  let ?path = "ph_path c"
  define name where "name = (if ph_source c = SrcHeader then ''header'' else ''param'')"
  have path: "?path \<noteq> []" "js_trim ?path = ?path" "list_all not_quote ?path" "json_stringify ?path = [dquote] @ ?path @ [dquote]"
    using assms by (auto simp: js_trim_id plain_not_quote json_stringify_plain)
  have name: "name = ''param'' \<or> name = ''header''" by (simp add: name_def)
  have nt: "tryParseTimeCondition intl (name @ ''('' @ s) = None" for s
    using call_not_time name by auto
  have mode: "ph_mode c = MATCH_EXISTS \<and> ph_value c = [] \<or> ph_mode c = MATCH_EQ \<and> literal_ok (ph_value c)"
    using assms by auto
  then show ?thesis
  proof
    assume m: "ph_mode c = MATCH_EXISTS \<and> ph_value c = []"
    have "buildRequestConditionExpr (PHCond c) =
        name @ ''(\"'' @ ?path @ ''\")'' @ (if ph_source c = SrcHeader then '' != \"\"'' else '' != nil'')"
      using m path assms(2)
      by (cases "ph_source c")
         (simp_all add: buildRequestConditionExpr_def normalizeCondition_def str_or_def mode_or_def Let_def
           getRequestRuleMatchOptions_def build_call_def name_def)
    moreover have "try_exists (name @ ''(\"'' @ ?path @ ''\")'' @ (if ph_source c = SrcHeader then '' != \"\"'' else '' != nil''))
        = Some (PHCond c)"
      using call_exists_match [OF path(1,3)] m assms(2)
      by (cases "ph_source c") (simp_all add: name_def ph_cond_def)
    ultimately show ?thesis
      using nt call_not_token [OF name] by (simp add: tryParseRequestCondition_def)
  next
    assume m: "ph_mode c = MATCH_EQ \<and> literal_ok (ph_value c)"
    let ?lit = "buildExprLiteral MATCH_EQ (ph_value c)"
    have b: "buildRequestConditionExpr (PHCond c) = name @ ''(\"'' @ ?path @ ''\")'' @ '' == '' @ ?lit"
      using m path assms(2)
      by (cases "ph_source c")
         (simp_all add: buildRequestConditionExpr_def normalizeCondition_def str_or_def mode_or_def Let_def
           getRequestRuleMatchOptions_def build_call_def name_def match_defs)
    have e: "name @ ''(\"'' @ ?path @ ''\")'' @ '' == '' @ ?lit = ''param'' @ ''(\"'' @ ?path @ ''\")'' @ '' == '' @ ?lit \<or>
        name @ ''(\"'' @ ?path @ ''\")'' @ '' == '' @ ?lit = ''header'' @ ''(\"'' @ ?path @ ''\")'' @ '' == '' @ ?lit"
      using name by auto
    have "try_call_eq (name @ ''(\"'' @ ?path @ ''\")'' @ '' == '' @ ?lit) = Some (PHCond c)"
      using call_eq_match [OF path(1,3) _ _ name] literal_roundtrip [of "ph_value c"] m assms(2)
      by (cases "ph_source c") (simp_all add: try_call_eq_def name_def ph_cond_def grp_def)
    then show ?thesis
      using eq_not_others [OF path(1,3) e] nt [of "[dquote] @ ?path @ ''\")'' @ '' == '' @ ?lit"]
        call_not_token [OF name, of "[dquote] @ ?path @ ''\")'' @ '' == '' @ ?lit"] b
      by (simp add: tryParseRequestCondition_def)
  qed
qed

lemma condition_roundtrip:
  assumes "canonical intl c"
  shows "tryParseRequestCondition intl (buildRequestConditionExpr c) = Inr (Some c)"
proof (cases c)
  case (TimeCond t)
  then show ?thesis using time_condition_roundtrip [of intl t] assms
    by (simp only: buildRequestConditionExpr_def tryParseRequestCondition_def request_condition.case option.case)
next
  case (PHCond d)
  then show ?thesis using token_condition_roundtrip [of intl d] call_condition_roundtrip [of intl d] assms
    by blast
qed

end
