(* ===== verification/Pricing_Grammar.thy ===== *)
theory Pricing_Grammar
  imports Billing_Syntax
begin

text \<open>
  The grammar of pricing expressions as a document would state it: one nonterminal for conditionals, one for each level of
  binary operators, one for operands, each deriving a whole sequence of tokens.  It knows no order of reading, no lookahead, no
  remaining input and no depth.  The parser derives nothing else, and derives everything the depth limit allows.
\<close>

section \<open>The grammar\<close>

text \<open>The operators of each level, from the one that binds least; all associate to the left.\<close>

fun level_operators :: "nat \<Rightarrow> string list" where
  "level_operators (Suc 0) = [''||'']"
| "level_operators (Suc (Suc 0)) = [''&&'']"
| "level_operators (Suc (Suc (Suc 0))) = [''=='', ''!='']"
| "level_operators (Suc (Suc (Suc (Suc 0)))) = [''<'', ''<='', ''>'', ''>='']"
| "level_operators (Suc (Suc (Suc (Suc (Suc 0))))) = [''+'', ''-'']"
| "level_operators (Suc (Suc (Suc (Suc (Suc (Suc 0)))))) = [''*'', ''/'', ''%'']"
| "level_operators _ = []"

inductive
  expression :: "ptoks \<Rightarrow> pnode \<Rightarrow> bool" and
  operation :: "nat \<Rightarrow> ptoks \<Rightarrow> pnode \<Rightarrow> bool" and
  operand :: "ptoks \<Rightarrow> pnode \<Rightarrow> bool" and
  arguments :: "ptoks \<Rightarrow> pnode list \<Rightarrow> bool"
where
  operation_expression: "operation 1 ts n \<Longrightarrow> expression ts n"
| conditional: "\<lbrakk> operation 1 cs c; tok_text q = ''?''; expression ys y; tok_text k = '':''; expression ns n \<rbrakk>
   \<Longrightarrow> expression (cs @ q # ys @ k # ns) (NConditional (nstart c) (nend n) c y n)"
| operand_operation: "operand ts n \<Longrightarrow> operation 7 ts n"
| higher_operation: "\<lbrakk> 1 \<le> i; i < 7; operation (Suc i) ts n \<rbrakk> \<Longrightarrow> operation i ts n"
| binary: "\<lbrakk> operation i ls l; tok_text t \<in> set (level_operators i); operation (Suc i) rs r \<rbrakk>
   \<Longrightarrow> operation i (ls @ t # rs) (NBinary (nstart l) (nend r) (tok_text t) l r)"
| parenthesised: "\<lbrakk> tok_text t = ''(''; expression ts n; tok_text k = '')'' \<rbrakk>
   \<Longrightarrow> operand (t # ts @ [k]) (with_span n (tok_start t) (tok_end k))"
| signed: "\<lbrakk> tok_text t \<in> {''+'', ''-'', ''!''}; operand ts n \<rbrakk>
   \<Longrightarrow> operand (t # ts) (NUnary (tok_start t) (nend n) (tok_text t) n)"
| string_literal: "\<lbrakk> operand_token t; js_starts_with (tok_text t) [dquote]; json_parse_string (tok_text t) = Some v \<rbrakk>
   \<Longrightarrow> operand [t] (NString (tok_start t) (tok_end t) v)"
| number_literal: "\<lbrakk> number_token t; is_finite (js_number (tok_text t)) \<rbrakk>
   \<Longrightarrow> operand [t] (NNumber (tok_start t) (tok_end t) (js_number (tok_text t)))"
| variable_name: "name_token t \<Longrightarrow> operand [t] (NVariable (tok_start t) (tok_end t) (tok_text t))"
| call_empty: "\<lbrakk> name_token t; tok_text q = ''(''; tok_text k = '')'' \<rbrakk>
   \<Longrightarrow> operand [t, q, k] (NCall (tok_start t) (tok_end k) (tok_text t) [])"
| call: "\<lbrakk> name_token t; tok_text q = ''(''; arguments ts args; tok_text k = '')'' \<rbrakk>
   \<Longrightarrow> operand (t # q # ts @ [k]) (NCall (tok_start t) (tok_end k) (tok_text t) args)"
| one_argument: "expression ts a \<Longrightarrow> arguments ts [a]"
| more_arguments: "\<lbrakk> arguments ts args; tok_text q = '',''; expression ts' a \<rbrakk> \<Longrightarrow> arguments (ts @ q # ts') (args @ [a])"

lemma level_cases:
  "s \<in> set (level_operators i) \<longleftrightarrow>
     i = 1 \<and> s = ''||'' \<or> i = 2 \<and> s = ''&&'' \<or> i = 3 \<and> s \<in> {''=='', ''!=''} \<or> i = 4 \<and> s \<in> {''<'', ''<='', ''>'', ''>=''} \<or>
     i = 5 \<and> s \<in> {''+'', ''-''} \<or> i = 6 \<and> s \<in> {''*'', ''/'', ''%''}"
  by (cases i rule: level_operators.cases) (auto simp: numeral_eq_Suc)

lemma precedence_listed: "0 < pp_precedence (Some s) \<Longrightarrow> (s, pp_precedence (Some s)) \<in> set PRICING_PRECEDENCE"
  by (cases "map_of PRICING_PRECEDENCE s") (auto simp: pp_precedence_def dest: map_of_SomeD)

lemma precedence_level: "0 < i \<Longrightarrow> pp_precedence (Some s) = i \<longleftrightarrow> s \<in> set (level_operators i)"
proof
  assume "0 < i" "pp_precedence (Some s) = i"
  then have "(s, i) \<in> set PRICING_PRECEDENCE" using precedence_listed [of s] by simp
  then show "s \<in> set (level_operators i)"
    unfolding PRICING_PRECEDENCE_def list.set insert_iff empty_iff prod.inject by (elim disjE conjE) (simp_all add: level_cases)
next
  assume "s \<in> set (level_operators i)"
  then show "pp_precedence (Some s) = i"
    unfolding level_cases insert_iff empty_iff by (elim disjE conjE) (simp_all add: pp_precedence_def PRICING_PRECEDENCE_def)
qed

lemma precedence_bound: "pp_precedence p \<le> 6"
  by (auto simp: pp_precedence_def PRICING_PRECEDENCE_def split: option.split)

lemma operation_level: "operation i ts n \<Longrightarrow> 1 \<le> i \<and> i \<le> 7"
  by (induction rule: expression_operation_operand_arguments.inducts(2) [where ?P1.0 = "\<lambda>_ _. True" and ?P3.0 = "\<lambda>_ _. True" and ?P4.0 = "\<lambda>_ _. True"]) auto

lemma operation_lower:
  assumes "operation j ts n" "1 \<le> i" "i \<le> j"
  shows "operation i ts n"
  using assms(3,1)
proof (rule inc_induct)
  fix k assume "i \<le> k" "k < j" "operation (Suc k) ts n"
  moreover have "j \<le> 7" using operation_level [OF assms(1)] by simp
  ultimately show "operation k ts n" using assms(2) higher_operation [of k ts n] by simp
qed

section \<open>What the parser derives is in the grammar\<close>

abbreviation next_level :: "ptoks \<Rightarrow> nat" where
  "next_level ts \<equiv> pp_precedence (pp_peek ts)"

lemma parsed_derives:
  "g_expr d ts n ts' \<Longrightarrow> \<exists>pre. ts = pre @ ts' \<and> expression pre n"
  "g_binary m d ts n ts' \<Longrightarrow> 1 \<le> m \<Longrightarrow> m \<le> 7 \<Longrightarrow> (\<exists>pre. ts = pre @ ts' \<and> operation m pre n) \<and> next_level ts' < m"
  "g_loop m d l ts n ts' \<Longrightarrow> (\<And>k ls. operation k ls l \<Longrightarrow> 1 \<le> m \<Longrightarrow> m \<le> k \<Longrightarrow> next_level ts \<le> k \<Longrightarrow>
     (\<exists>pre. ts = pre @ ts' \<and> operation m (ls @ pre) n) \<and> next_level ts' < m)"
  "g_primary d ts n ts' \<Longrightarrow> \<exists>pre. ts = pre @ ts' \<and> operand pre n"
  "g_args d as ts bs ts' \<Longrightarrow> (\<And>ps. arguments ps as \<Longrightarrow> \<exists>pre. ts = pre @ ts' \<and> arguments (ps @ pre) bs)"
proof (induction rule: g_expr_g_binary_g_loop_g_primary_g_args.inducts)
  case (g_plain d ts n ts')
  then show ?case using operation_expression by auto
next
  case (g_cond d ts c q t2 y k t4 n ts')
  obtain cs ys ns where "ts = cs @ q # t2" "operation 1 cs c" "t2 = ys @ k # t4" "expression ys y" "t4 = ns @ ts'" "expression ns n"
    using g_cond.IH by auto
  then show ?case using conditional [of cs c q ys y k ns n] g_cond.hyps by (intro exI [of _ "cs @ q # ys @ k # ns"]) simp
next
  case (g_bin d ts l t1 m n ts')
  obtain ls where ls: "ts = ls @ t1" "operand ls l" using g_bin.IH(1) by blast
  have "next_level t1 \<le> 7" using precedence_bound [of "pp_peek t1"] by linarith
  from g_bin.IH(2) [OF operand_operation [OF ls(2)] g_bin.prems this] show ?case unfolding ls(1) by (metis append.assoc)
next
  case (g_stop ts m d l)
  then show ?case using operation_lower by auto
next
  case (g_step m t d t1 r t2 l n ts')
  define j where "j = pp_precedence (Some (tok_text t))"
  have j: "m \<le> j" "1 \<le> j" "j \<le> k" "j \<le> 6" using g_step.hyps(1) g_step.prems precedence_bound by (auto simp: j_def)
  obtain rs where rs: "t1 = rs @ t2" "operation (Suc j) rs r" "next_level t2 < Suc j"
    using g_step.IH(1) j by (auto simp: j_def)
  have "operation j ls l" using g_step.prems(1) j(2,3) by (rule operation_lower)
  moreover have "tok_text t \<in> set (level_operators j)" using precedence_level [of j "tok_text t"] j(2) j_def by simp
  ultimately have "operation j (ls @ t # rs) (NBinary (nstart l) (nend r) (tok_text t) l r)" using rs(2) by (rule binary)
  from g_step.IH(2) [OF this g_step.prems(2) j(1)] show ?case using rs(1,3) by auto
next
  case (g_paren d t t1 n k ts')
  then obtain ps where "t1 = ps @ k # ts'" "expression ps n" by auto
  then show ?case using parenthesised [OF g_paren.hyps(2) _ g_paren.hyps(4)] by (intro exI [of _ "t # ps @ [k]"]) simp
next
  case (g_unary d t t1 v ts')
  then obtain ps where "t1 = ps @ ts'" "operand ps v" by auto
  then show ?case using signed [OF g_unary.hyps(2)] by (intro exI [of _ "t # ps"]) simp
next
  case (g_string d t v ts)
  then show ?case using string_literal by (intro exI [of _ "[t]"]) simp
next
  case (g_number d t ts)
  then show ?case using number_literal by (intro exI [of _ "[t]"]) simp
next
  case (g_variable d t ts)
  then show ?case using variable_name by (intro exI [of _ "[t]"]) simp
next
  case (g_call0 d t q k ts)
  then show ?case using call_empty by (intro exI [of _ "[t, q, k]"]) simp
next
  case (g_call d t q t2 a t4 as k ts')
  obtain ps where ps: "t2 = ps @ t4" "expression ps a" using g_call.IH(1) by blast
  then obtain qs where qs: "t4 = qs @ k # ts'" "arguments (ps @ qs) as" using g_call.IH(2) [OF one_argument] by blast
  show ?case using ps(1) qs(1) call [OF g_call.hyps(2,3) qs(2) g_call.hyps(7)] by (intro exI [of _ "t # q # (ps @ qs) @ [k]"]) simp
next
  case (g_args_stop ts d as)
  then show ?case by simp
next
  case (g_args_step q d t1 a t2 as bs ts')
  obtain es where es: "t1 = es @ t2" "expression es a" using g_args_step.IH(1) by blast
  obtain pre where "t2 = pre @ ts'" "arguments ((ps @ q # es) @ pre) bs"
    using g_args_step.IH(2) [OF more_arguments [OF g_args_step.prems g_args_step.hyps(1) es(2)]] by blast
  then show ?case using es(1) by (intro exI [of _ "q # es @ pre"]) simp
qed

section \<open>The parser derives all the grammar within its depth\<close>

definition too_deep :: "'a exn" where
  "too_deep = Inl ''Pricing expression is too deep''"

lemma bind_too_deep [simp]: "bind_exn too_deep f = too_deep"
  by (simp add: too_deep_def)

text \<open>The two outcomes of parsing \<open>k\<close> tokens from depth \<open>d\<close> on: the wanted result, or the limit, which takes enough tokens.\<close>

definition parses :: "nat \<Rightarrow> nat \<Rightarrow> 'a exn \<Rightarrow> 'a exn \<Rightarrow> bool" where
  "parses d k result wanted \<longleftrightarrow> result = wanted \<or> result = too_deep \<and> 128 < d + 3 * k"

lemma parses_refl [intro]: "result = wanted \<Longrightarrow> parses d k result wanted"
  by (simp add: parses_def)

lemma parses_step:
  assumes "parses d k result (Inr x)" "parses d' k' (f x) wanted" "d + 3 * k \<le> d'' + 3 * k''" "d' + 3 * k' \<le> d'' + 3 * k''"
  shows "parses d'' k'' (bind_exn result f) wanted"
  using assms unfolding parses_def by auto

lemma parses_last:
  assumes "parses d k result (Inr x)" "f x = wanted" "d + 3 * k \<le> d'' + 3 * k''"
  shows "parses d'' k'' (bind_exn result f) wanted"
  using assms unfolding parses_def by auto

text \<open>What may follow a phrase.\<close>

definition follows :: "nat \<Rightarrow> ptoks \<Rightarrow> bool" where
  "follows i rest \<longleftrightarrow> next_level rest \<le> i \<and> pp_peek rest \<noteq> Some ''(''"

lemma follows_text:
  "tok_text t \<in> {''?'', '':'', '')'', '',''} \<Longrightarrow> follows i (t # rest)" "follows i []" "follows i rest \<Longrightarrow> i \<le> j \<Longrightarrow> follows j rest"
  by (auto simp: follows_def pp_precedence_def PRICING_PRECEDENCE_def)

lemma follows_operator: "tok_text t \<in> set (level_operators i) \<Longrightarrow> follows i (t # rest) \<and> next_level (t # rest) = i \<and> 0 < i"
  using precedence_level [of i "tok_text t"] by (auto simp: follows_def level_cases)

lemma operand_text: "number_token t \<or> name_token t \<or> operand_token t \<and> js_starts_with (tok_text t) [dquote] \<Longrightarrow> tok_text t \<noteq> '')''"
proof -
  have "\<not> rx_test NUMERIC_LITERAL_REGEX '')''" "\<not> rx_test ident_rx '')''" "\<not> js_starts_with '')'' [dquote]" by code_simp+
  then show "number_token t \<or> name_token t \<or> operand_token t \<and> js_starts_with (tok_text t) [dquote] \<Longrightarrow> tok_text t \<noteq> '')''"
    by (auto simp: number_token_def name_token_def)
qed

lemma first_token:
  "expression ts n \<Longrightarrow> ts \<noteq> [] \<and> tok_text (hd ts) \<noteq> '')''"
  "operation i ts n \<Longrightarrow> ts \<noteq> [] \<and> tok_text (hd ts) \<noteq> '')''"
  "operand ts n \<Longrightarrow> ts \<noteq> [] \<and> tok_text (hd ts) \<noteq> '')''"
  "arguments ts as \<Longrightarrow> ts \<noteq> [] \<and> tok_text (hd ts) \<noteq> '')''"
  by (induction rule: expression_operation_operand_arguments.inducts) (auto simp: operand_text)

lemma loop_stop: "next_level rest < m \<Longrightarrow> pp_binary_loop m d n rest = Inr (n, rest)"
  by (simp add: pp_binary_loop.simps [of m d n rest])

lemma deep_start:
  "128 < d \<Longrightarrow> parses d k (pp_expression d ts) wanted"
  "128 < Suc (Suc d) \<Longrightarrow> 0 < k \<Longrightarrow> parses d k (pp_primary (Suc (Suc d)) ts) wanted"
  by (auto simp: parses_def too_deep_def pp_expression.simps [of d] pp_primary.simps [of "Suc (Suc d)"])

text \<open>A name and an opening parenthesis.\<close>

lemma call_start:
  assumes "name_token t" "tok_text q = ''(''" "Suc (Suc d) \<le> 128"
  shows "pp_primary (Suc (Suc d)) (t # q # ts) =
    bind_exn (if pp_peek ts \<noteq> Some '')'' then bind_exn (pp_expression (Suc (Suc (Suc d))) ts) (\<lambda>(a, ts). pp_args (Suc (Suc d)) [a] ts)
      else Inr ([], ts)) (\<lambda>(args, ts). bind_exn (pp_take (Some '')'') ts) (\<lambda>(close, ts).
        Inr (NCall (tok_start t) (tok_end close) (tok_text t) args, ts)))"
  using assms by (simp add: pp_primary.simps [of "Suc (Suc d)"] name_token_def operand_token_def)

lemma derived_parses:
  "expression ts n \<Longrightarrow> (\<And>d rest. follows 0 rest \<Longrightarrow> pp_peek rest \<noteq> Some ''?'' \<Longrightarrow>
     parses d (length ts) (pp_expression d (ts @ rest)) (Inr (n, rest)))"
  "operation i ts n \<Longrightarrow> (\<And>m d rest. m \<le> i \<Longrightarrow> follows i rest \<Longrightarrow>
     parses d (length ts) (pp_binary m (Suc d) (ts @ rest)) (pp_binary_loop m (Suc d) n rest))"
  "operand ts n \<Longrightarrow> (\<And>d rest. pp_peek rest \<noteq> Some ''('' \<Longrightarrow>
     parses d (length ts) (pp_primary (Suc (Suc d)) (ts @ rest)) (Inr (n, rest)))"
  "arguments ts as \<Longrightarrow> (\<And>d rest. follows 0 rest \<Longrightarrow> pp_peek rest \<noteq> Some ''?'' \<Longrightarrow>
     parses d (Suc (length ts)) (bind_exn (pp_expression (Suc (Suc (Suc d))) (ts @ rest)) (\<lambda>(a, ts). pp_args (Suc (Suc d)) [a] ts))
       (pp_args (Suc (Suc d)) as rest))"
proof (induction rule: expression_operation_operand_arguments.inducts)
  case (operation_expression ts n)
  have "pp_binary_loop 1 (Suc d) n rest = Inr (n, rest)"
    using operation_expression.prems(1) by (intro loop_stop) (simp add: follows_def)
  then have "parses d (length ts) (pp_binary 1 (Suc d) (ts @ rest)) (Inr (n, rest))"
    using operation_expression.IH [of 1 rest d] operation_expression.prems(1) follows_text(3) [of 0 rest 1] by simp
  then show ?case using deep_start(1) [of d] operation_expression.prems(2)
    by (cases "128 < d") (auto simp: pp_expression.simps [of d] intro!: parses_last)
next
  case (conditional cs c q ys y k ns n)
  define r1 r2 where "r1 = ys @ k # ns @ rest" and "r2 = ns @ rest"
  have q: "follows 1 (q # r1)" "next_level (q # r1) < 1" using conditional.hyps(2) follows_text(1) [of q]
    by (auto simp: pp_precedence_def PRICING_PRECEDENCE_def)
  then have "pp_binary_loop 1 (Suc d) c (q # r1) = Inr (c, q # r1)" by (intro loop_stop)
  then have c: "parses d (length cs) (pp_binary 1 (Suc d) (cs @ q # r1)) (Inr (c, q # r1))"
    using conditional.IH(1) [of 1 "q # r1" d] q(1) by simp
  have y: "parses (Suc d) (length ys) (pp_expression (Suc d) r1) (Inr (y, k # r2))"
    using conditional.IH(2) [of "k # r2" "Suc d"] conditional.hyps(4) follows_text(1) [of k 0] by (simp add: r1_def r2_def)
  have n: "parses (Suc d) (length ns) (pp_expression (Suc d) r2) (Inr (n, rest))"
    unfolding r2_def by (rule conditional.IH(3) [OF conditional.prems])
  show ?case
  proof (cases "128 < d")
    case False
    then have eq: "pp_expression d ((cs @ q # ys @ k # ns) @ rest) = bind_exn (pp_binary 1 (Suc d) (cs @ q # r1)) (\<lambda>(condition, ts).
        if pp_peek ts \<noteq> Some ''?'' then Inr (condition, ts)
        else bind_exn (pp_take (Some ''?'') ts) (\<lambda>(_, ts). bind_exn (pp_expression (Suc d) ts) (\<lambda>(yes, ts).
             bind_exn (pp_take (Some '':'') ts) (\<lambda>(_, ts). bind_exn (pp_expression (Suc d) ts) (\<lambda>(no, ts).
               Inr (NConditional (nstart condition) (nend no) condition yes no, ts))))))"
      by (simp add: pp_expression.simps [of d] r1_def cong: if_cong)
    have "parses d (length (cs @ q # ys @ k # ns)) (bind_exn (pp_expression (Suc d) r1) (\<lambda>(yes, ts).
             bind_exn (pp_take (Some '':'') ts) (\<lambda>(_, ts). bind_exn (pp_expression (Suc d) ts) (\<lambda>(no, ts).
               Inr (NConditional (nstart c) (nend no) c yes no, ts))))) (Inr (NConditional (nstart c) (nend n) c y n, rest))"
      by (rule parses_step [OF y, where d' = d and k' = "length (cs @ q # ys @ k # ns)"])
        (auto simp: conditional.hyps(4) intro!: parses_last [OF n])
    then show ?thesis unfolding eq
      by (intro parses_step [OF c, where d' = d and k' = "length (cs @ q # ys @ k # ns)"]) (auto simp: conditional.hyps(2))
  qed (rule deep_start(1))
next
  case (operand_operation ts n)
  have "pp_peek rest \<noteq> Some ''(''" using operand_operation.prems(2) by (simp add: follows_def)
  from operand_operation.IH [OF this, of d] show ?case unfolding pp_binary.simps [of m "Suc d"] by (auto intro: parses_last)
next
  case (higher_operation i ts n)
  then show ?case using follows_text(3) [of i rest "Suc i"] by auto
next
  case (binary i ls l t rs r)
  note t = follows_operator [OF binary.hyps(2)]
  have l: "parses d (length ls) (pp_binary m (Suc d) (ls @ t # rs @ rest)) (pp_binary_loop m (Suc d) l (t # rs @ rest))"
    using binary.IH(1) binary.prems(1) t by blast
  have "pp_binary_loop (Suc i) (Suc (Suc d)) r rest = Inr (r, rest)"
    using binary.prems(2) by (intro loop_stop) (simp add: follows_def)
  then have r: "parses (Suc d) (length rs) (pp_binary (Suc i) (Suc (Suc d)) (rs @ rest)) (Inr (r, rest))"
    using binary.IH(2) [of "Suc i" rest "Suc d"] binary.prems(2) follows_text(3) [of i rest "Suc i"] by simp
  have "pp_binary_loop m (Suc d) l (t # rs @ rest) = bind_exn (pp_binary (Suc i) (Suc (Suc d)) (rs @ rest)) (\<lambda>(right, ts).
      pp_binary_loop m (Suc d) (NBinary (nstart l) (nend right) (tok_text t) l right) ts)"
    using t binary.prems(1) by (simp add: pp_binary_loop.simps [of m "Suc d" l "t # rs @ rest"] Let_def)
  then have "parses d (length (ls @ t # rs)) (pp_binary_loop m (Suc d) l (t # rs @ rest))
      (pp_binary_loop m (Suc d) (NBinary (nstart l) (nend r) (tok_text t) l r) rest)"
    by (auto intro!: parses_last [OF r])
  then show ?case using l unfolding parses_def by auto
next
  case (parenthesised t ts n k)
  have e: "parses (Suc (Suc (Suc d))) (length ts) (pp_expression (Suc (Suc (Suc d))) (ts @ k # rest)) (Inr (n, k # rest))"
    using parenthesised.IH [of "k # rest"] parenthesised.hyps(3) follows_text(1) [of k 0] by simp
  show ?case
  proof (cases "128 < Suc (Suc d)")
    case False
    then show ?thesis using parenthesised.hyps
      by (auto simp: pp_primary.simps [of "Suc (Suc d)"] intro!: parses_last [OF e])
  qed (auto intro: deep_start(2))
next
  case (signed t ts n)
  have "tok_text t \<noteq> ''(''" using signed.hyps(1) by auto
  then show ?case using signed.hyps(1) signed.IH [OF signed.prems, of "Suc d"] deep_start(2) [of d "length (t # ts)"]
    by (cases "128 < Suc (Suc d)") (auto simp: pp_primary.simps [of "Suc (Suc d)"] intro!: parses_last)
next
  case (string_literal t v)
  then show ?case using deep_start(2) [of d "length [t]"]
    by (cases "128 < Suc (Suc d)") (auto simp: pp_primary.simps [of "Suc (Suc d)"] operand_token_def)
next
  case (number_literal t)
  then show ?case using deep_start(2) [of d "length [t]"]
    by (cases "128 < Suc (Suc d)") (auto simp: pp_primary.simps [of "Suc (Suc d)"] operand_token_def number_token_def)
next
  case (variable_name t)
  then show ?case using deep_start(2) [of d "length [t]"]
    by (cases "128 < Suc (Suc d)") (auto simp: pp_primary.simps [of "Suc (Suc d)"] operand_token_def name_token_def)
next
  case (call_empty t q k)
  then show ?case using deep_start(2) [of d "length [t, q, k]"]
    by (cases "128 < Suc (Suc d)") (auto simp: call_start)
next
  case (call t q ts args k)
  have "pp_peek (ts @ k # rest) \<noteq> Some '')''" using first_token(4) [OF call.hyps(3)] by (cases ts) auto
  moreover have a: "parses d (Suc (length ts)) (bind_exn (pp_expression (Suc (Suc (Suc d))) (ts @ k # rest)) (\<lambda>(a, ts). pp_args (Suc (Suc d)) [a] ts))
      (Inr (args, k # rest))"
    using call.IH [of "k # rest" d] call.hyps(4) follows_text(1) [of k 0] by (simp add: pp_args.simps [of _ _ "k # rest"])
  ultimately show ?case using call.hyps deep_start(2) [of d "length (t # q # ts @ [k])"]
    by (cases "128 < Suc (Suc d)") (auto simp: call_start intro!: parses_last [OF a])
next
  case (one_argument ts a)
  then show ?case by (intro parses_last [OF one_argument.IH]) auto
next
  case (more_arguments ts args q ts' a)
  have q: "follows 0 (q # ts' @ rest)" "pp_peek (q # ts' @ rest) \<noteq> Some ''?''" using more_arguments.hyps(2) follows_text(1) [of q 0] by auto
  have "pp_args (Suc (Suc d)) args (q # ts' @ rest) = bind_exn (pp_expression (Suc (Suc (Suc d))) (ts' @ rest)) (\<lambda>(a, ts).
      pp_args (Suc (Suc d)) (args @ [a]) ts)" using more_arguments.hyps(2) by (simp add: pp_args.simps [of _ args "q # ts' @ rest"])
  then have "parses d (Suc (length (ts @ q # ts'))) (pp_args (Suc (Suc d)) args (q # ts' @ rest)) (pp_args (Suc (Suc d)) (args @ [a]) rest)"
    using more_arguments.IH(2) [OF more_arguments.prems, of "Suc (Suc (Suc d))"] by (auto intro!: parses_last)
  then show ?case using more_arguments.IH(1) [OF q, of d] unfolding parses_def by auto
qed

lemma grammar_parse:
  "pp_parse ts = Inr n \<Longrightarrow> expression ts n"
  "expression ts n \<Longrightarrow> pp_parse ts = Inr n \<or> pp_parse ts = too_deep \<and> 42 < length ts"
proof -
  show "expression ts n" if "pp_parse ts = Inr n" using that parsed_derives(1) [of 0 ts n "[]"] by (auto simp: pp_parse_iff)
  show "pp_parse ts = Inr n \<or> pp_parse ts = too_deep \<and> 42 < length ts" if "expression ts n"
    using derived_parses(1) [OF that follows_text(2), of 0] by (auto simp: parses_def pp_parse_def)
qed

end
