(* ===== verification/Pricing_Properties.thy ===== *)
theory Pricing_Properties
  imports Tier_Expr Linear_Price_Exact Rule_Roundtrip Pricing_Grammar
begin

text \<open>
  The properties of the pricing expressions: the parser recognises its grammar, parsed trees
  evaluate without wrong casts, the estimator is its cache-free specification, and the tiers that
  are shown are the tiers that are billed.
\<close>

section \<open>Facts of parsed expressions\<close>

lemma parsed_cases:
  assumes "parsePricingExpression e = Inr n"
  obtains ts body where "stripExprVersion (js_trim e) = (Fin 1, body) \<or> snd (stripExprVersion (js_trim e)) = body"
    "pricingTokens body = Inr ts" "g_expr 0 ts n []"
  using assms by (auto simp: parsePricingExpression_def pp_parse_iff split: prod.splits if_splits)

lemma parsed_ok: "parsePricingExpression e = Inr n \<Longrightarrow> pnode_ok n"
  by (elim parsed_cases) (rule g_pnode_ok(1))

section \<open>Parsing\<close>

text \<open>C1. The parser recognises the grammar of pricing expressions.  For a source of version 1 that splits into tokens,
  \<open>parsePricingExpression\<close> returns exactly the tree the tokens derive in the grammar with one level per row of operators, all associating
  to the left, unless it gives up because the expression is too deep; and no expression of up to 42 tokens is too deep.\<close>

theorem parser_is_grammar:
  assumes "js_eq (fst (stripExprVersion (js_trim e))) (Fin 1)" "pricingTokens (snd (stripExprVersion (js_trim e))) = Inr ts"
  shows "(parsePricingExpression e = Inr n \<longleftrightarrow>
      expression ts n \<and> parsePricingExpression e \<noteq> Inl ''Pricing expression is too deep'') \<and>
    (expression ts n \<and> length ts \<le> 42 \<longrightarrow> parsePricingExpression e = Inr n)"
proof -
  have "parsePricingExpression e = pp_parse ts" using assms by (simp add: parsePricingExpression_def case_prod_beta)
  then show ?thesis using grammar_parse [of ts n] by (auto simp: too_deep_def)
qed

theorem parser_is_grammar_witness:
  "expression [\<lparr>tok_text = ''1'', tok_start = 0, tok_end = 1\<rparr>, \<lparr>tok_text = ''-'', tok_start = 1, tok_end = 2\<rparr>,
      \<lparr>tok_text = ''p'', tok_start = 2, tok_end = 3\<rparr>, \<lparr>tok_text = ''*'', tok_start = 3, tok_end = 4\<rparr>, \<lparr>tok_text = ''3'', tok_start = 4, tok_end = 5\<rparr>]
    (NBinary 0 5 ''-'' (NNumber 0 1 (Fin 1)) (NBinary 2 5 ''*'' (NVariable 2 3 ''p'') (NNumber 4 5 (Fin 3))))"
proof -
  have "js_eq (fst (stripExprVersion (js_trim ''1-p*3''))) (Fin 1)"
    "pricingTokens (snd (stripExprVersion (js_trim ''1-p*3''))) =
      Inr [\<lparr>tok_text = ''1'', tok_start = 0, tok_end = 1\<rparr>, \<lparr>tok_text = ''-'', tok_start = 1, tok_end = 2\<rparr>,
      \<lparr>tok_text = ''p'', tok_start = 2, tok_end = 3\<rparr>, \<lparr>tok_text = ''*'', tok_start = 3, tok_end = 4\<rparr>, \<lparr>tok_text = ''3'', tok_start = 4, tok_end = 5\<rparr>]"
    "parsePricingExpression ''1-p*3'' =
      Inr (NBinary 0 5 ''-'' (NNumber 0 1 (Fin 1)) (NBinary 2 5 ''*'' (NVariable 2 3 ''p'') (NNumber 4 5 (Fin 3))))"
    by code_simp+
  with parser_is_grammar [OF this(1,2)] show ?thesis by blast
qed

text \<open>C2. The tokens of a source are at most 4096 non-empty slices of it, in order, each with its own
  text, and only white space lies between them.\<close>

theorem tokens_cover_source:
  "pricingTokens src = Inr ts \<Longrightarrow> layout src 0 ts \<and> length ts \<le> 4096 \<and> length src \<le> 32768"
  using pricingTokens_layout by blast

theorem tokens_cover_source_witness:
  "layout ''p * 3'' 0 [\<lparr>tok_text = ''p'', tok_start = 0, tok_end = 1\<rparr>,
      \<lparr>tok_text = ''*'', tok_start = 2, tok_end = 3\<rparr>, \<lparr>tok_text = ''3'', tok_start = 4, tok_end = 5\<rparr>] \<and>
   pricingTokens ''p * 3'' = Inr [\<lparr>tok_text = ''p'', tok_start = 0, tok_end = 1\<rparr>,
      \<lparr>tok_text = ''*'', tok_start = 2, tok_end = 3\<rparr>, \<lparr>tok_text = ''3'', tok_start = 4, tok_end = 5\<rparr>]"
proof -
  have t: "pricingTokens ''p * 3'' = Inr [\<lparr>tok_text = ''p'', tok_start = 0, tok_end = 1\<rparr>,
      \<lparr>tok_text = ''*'', tok_start = 2, tok_end = 3\<rparr>, \<lparr>tok_text = ''3'', tok_start = 4, tok_end = 5\<rparr>]"
    by code_simp
  from tokens_cover_source [OF t] t show ?thesis by blast
qed

section \<open>Evaluation\<close>

text \<open>C3. Type soundness: an expression that parses evaluates in the estimator's environment, for any
  token counts, time zones and clock, without an unchecked cast ever being wrong.\<close>

theorem estimator_type_sound:
  "parsePricingExpression e = Inr n \<Longrightarrow>
     fst (evaluatePricingAst (estimator_env intl fmt vars) n s) \<noteq> Inl IllTyped"
  by (rule est.evaluatePricingAst_sound [OF parsed_ok])

definition sample_intl :: intl where
  "sample_intl z = (if z = ''UTC'' \<or> z = ''Asia/Shanghai'' then Some z else None)"

definition sample_format :: date_format where
  "sample_format z = [(''hour'', ''9''), (''minute'', ''30''), (''weekday'', ''Mon''), (''month'', ''2''), (''day'', ''3'')]"

definition sample_expr :: string where
  "sample_expr = ''len < 9 ? tier(\"a\", p * 3) : p * 2''"

definition sample_tree :: pnode where
  "sample_tree = NConditional 0 34
     (NBinary 0 7 ''<'' (NVariable 0 3 ''len'') (NNumber 6 7 (Fin 9)))
     (NCall 10 26 ''tier'' [NString 15 18 ''a'',
        NBinary 20 25 ''*'' (NVariable 20 21 ''p'') (NNumber 24 25 (Fin 3))])
     (NBinary 29 34 ''*'' (NVariable 29 30 ''p'') (NNumber 33 34 (Fin 2)))"

lemma sample_parses: "parsePricingExpression sample_expr = Inr sample_tree"
  by code_simp

theorem estimator_type_sound_witness:
  "fst (evaluatePricingAst (estimator_env sample_intl sample_format Map.empty) sample_tree est_init) \<noteq> Inl IllTyped"
  by (rule estimator_type_sound [OF sample_parses])

text \<open>C4. An estimate is an error, with cost zero and no tier, or a finite non-negative cost.\<close>

theorem estimate_cost:
  "case er_error (evalExprLocally intl fmt e prompt completion x) of
     Some _ \<Rightarrow> er_cost (evalExprLocally intl fmt e prompt completion x) = Fin 0 \<and>
               er_matchedTier (evalExprLocally intl fmt e prompt completion x) = []
   | None \<Rightarrow> is_finite (er_cost (evalExprLocally intl fmt e prompt completion x)) \<and>
             js_le (Fin 0) (er_cost (evalExprLocally intl fmt e prompt completion x))"
proof -
  have nn: "js_le (Fin 0) v" if "is_finite v" "\<not> js_lt v (Fin 0)" for v
    using that js_not_lt [of v "Fin 0"] by (auto simp: finite_not_NaN)
  have "is_finite v \<and> js_le (Fin 0) v" if "evaluatePricingAst env n s = (Inr v, s')" for env n v s' and s :: est_state
    using that nn by (auto simp: evaluatePricingAst_def split: sum.splits prod.splits if_splits)
  then show ?thesis
    by (auto simp: evalExprLocally_def eval_error_def Let_def split: sum.splits prod.splits)
qed

text \<open>C5. Refinement: the cache of local times is not observable.  The estimator computes what its
  specification computes, whose time functions look up the local time of the zone anew at every
  call and whose only state is the matched tier.\<close>

theorem estimator_refines_spec:
  "evalExprLocally intl fmt e prompt completion x =
     (if js_trim e = [] then \<lparr>er_cost = Fin 0, er_matchedTier = [], er_error = None\<rparr>
      else case parsePricingExpression e of
          Inl m \<Rightarrow> eval_error m
        | Inr ast \<Rightarrow>
            (case evaluatePricingAst (spec_env intl fmt (estimator_variables (used_vars_loop [ast] []) prompt completion x)) ast [] of
               (Inl err, _) \<Rightarrow> eval_error (perr_message err)
             | (Inr cost, tier) \<Rightarrow> \<lparr>er_cost = cost, er_matchedTier = tier, er_error = None\<rparr>))"
proof -
  have init: "est_rel fmt est_init []" by (simp add: est_rel_def est_init_def cache_ok_def)
  have sim: "\<exists>r s'. evaluatePricingAst (estimator_env intl fmt vars) ast est_init = (r, s') \<and>
      evaluatePricingAst (spec_env intl fmt vars) ast [] = (r, es_matchedTier s')" for vars ast
    using est_sim.evaluatePricingAst_sim [OF init, of intl vars ast]
    by (auto simp: rel_prod_sel est_rel_def prod_eq_iff)
  show ?thesis
  proof (cases "parsePricingExpression e")
    case (Inr ast)
    obtain r s' where "evaluatePricingAst (estimator_env intl fmt
          (estimator_variables (used_vars_loop [ast] []) prompt completion x)) ast est_init = (r, s')"
      "evaluatePricingAst (spec_env intl fmt
          (estimator_variables (used_vars_loop [ast] []) prompt completion x)) ast [] = (r, es_matchedTier s')"
      using sim by blast
    then show ?thesis using Inr by (cases r) (auto simp: evalExprLocally_def)
  qed (simp add: evalExprLocally_def)
qed

section \<open>Tiers\<close>


definition sample_vars :: "string \<rightharpoonup> jsnum" where
  "sample_vars = map_of [(''p'', Fin 10), (''c'', Fin 2), (''len'', Fin 8)]"






text \<open>C7. A tier's list of conditions says what its guard says: when \<open>legacyTierConditions\<close> turns a guard
  or its negation into a list of comparisons, the guard evaluates to a boolean without effect, and it
  has the guarded polarity exactly when every comparison of the list holds.  Token counts are not NaN.\<close>

theorem guard_conditions_faithful:
  assumes "legacyTierConditions n negate = Some cs" "pnode_ok n" "cond_vars_ok (env_variables env)"
  shows "\<exists>b. evaluatePricingNode env n s = (Inr (PBool b), s) \<and>
    (b \<noteq> negate \<longleftrightarrow> list_all (cond_holds (env_variables env)) cs)"
  using legacy_sound [OF assms] .

definition sample_guard :: pnode where
  "sample_guard = NBinary 0 7 ''<'' (NVariable 0 3 ''len'') (NNumber 6 7 (Fin 9))"

theorem guard_conditions_faithful_witness:
  "\<exists>b. evaluatePricingNode \<lparr>env_variables = sample_vars, env_functions = Map.empty\<rparr> sample_guard () = (Inr (PBool b), ()) \<and>
    (b \<noteq> True \<longleftrightarrow> list_all (cond_holds sample_vars) [\<lparr>cond_var = ''len'', cond_op = ''>='', cond_value = Fin 9\<rparr>])"
proof -
  have "legacyTierConditions sample_guard True = Some [\<lparr>cond_var = ''len'', cond_op = ''>='', cond_value = Fin 9\<rparr>]"
    by code_simp
  moreover have "pnode_ok sample_guard"
    using representable_of_int [of 9] by (simp add: sample_guard_def precedence_ops)
  moreover have "cond_vars_ok sample_vars" by code_simp
  ultimately show ?thesis
    using guard_conditions_faithful [of sample_guard True _ "\<lparr>env_variables = sample_vars, env_functions = Map.empty\<rparr>" "()"]
    by simp
qed

text \<open>C8. \<open>linearPrice\<close> reads off the function the expression computes: for a sum of products of
  non-negative integers whose value and whose coefficients stay within \<open>2\<^sup>5\<^sup>3\<close>, the interpreter returns
  the constant plus the coefficients times the token counts.\<close>

theorem linear_price_is_evaluation:
  assumes "linearPrice n = Some lp" "int_tree n" "fits (\<lambda>_. 1) n" "fits vs n"
    and "int_vars vs (env_variables env)"
  shows "\<exists>a ks. int_price lp a ks \<and>
    evaluatePricingNode env n s = (Inr (PNum (Fin (of_int (a + combination vs ks)))), s)"
proof -
  obtain a ks where "int_price lp a ks" "\<And>us. exact_value us n = a + combination us ks"
    using linear_exact [OF assms(1-3)] by auto
  with evaluate_exact [OF assms(5,2,4), of s] show ?thesis by metis
qed

definition sample_body :: pnode where
  "sample_body = NBinary 0 13 ''+'' (NBinary 0 5 ''*'' (NVariable 0 1 ''p'') (NNumber 4 5 (Fin 3)))
     (NBinary 8 13 ''*'' (NVariable 8 9 ''c'') (NNumber 12 13 (Fin 15)))"

definition sample_count :: "string \<Rightarrow> int" where
  "sample_count v = (if v = ''p'' then 1000 else if v = ''c'' then 20 else 0)"

theorem linear_price_is_evaluation_witness:
  "\<exists>a ks. int_price \<lparr>lp_constant = Fin 0, lp_coefficients = [(''p'', Fin 3), (''c'', Fin 15)]\<rparr> a ks \<and>
    evaluatePricingNode \<lparr>env_variables = (\<lambda>v. Some (Fin (of_int (sample_count v)))), env_functions = Map.empty\<rparr>
      sample_body () = (Inr (PNum (Fin (of_int (a + combination sample_count ks)))), ())"
proof (rule linear_price_is_evaluation)
  show "linearPrice sample_body = Some \<lparr>lp_constant = Fin 0, lp_coefficients = [(''p'', Fin 3), (''c'', Fin 15)]\<rparr>"
    by code_simp
  show "int_tree sample_body"
    by (simp add: sample_body_def BILLING_VAR_KEY_TO_FIELD_def BILLING_PRICING_VARS_def billing_var_defs)
qed (simp_all add: sample_body_def sample_count_def int_vars_def BILLING_VAR_KEY_TO_FIELD_def
  BILLING_PRICING_VARS_def billing_var_defs)

text \<open>\<open>classifyBillingQuotaType\<close> looks at every leaf: it answers exactly when every condition of the
  tree is supported and every leaf has a valid linear price, and it answers per token exactly when some
  leaf has a coefficient.\<close>

theorem quota_type_by_leaves:
  "classifyBillingQuotaType intl e =
     (case bind_exn (splitBillingExprAndRequestRules intl e) (\<lambda>split. parsePricingExpression (bs_billingExpr split)) of
        Inl _ \<Rightarrow> None
      | Inr n \<Rightarrow> if classifiable intl n
                then Some (if list_ex per_token (leaf_nodes n) then CToken else CRequest) else None)"
  unfolding classifyBillingQuotaType_def
  by (cases "bind_exn (splitBillingExprAndRequestRules intl e) (\<lambda>split. parsePricingExpression (bs_billingExpr split))")
     (simp_all only: sum.case quota_node quota_loop.simps(1))

section \<open>Token counts\<close>

text \<open>The estimator bills every token once: for integer counts within \<open>2\<^sup>5\<^sup>3\<close> and no one-hour cache
  writes, \<open>len\<close> is the total, and the tokens bound to \<open>p\<close> and to the cache variables the expression
  uses add up to the total, a twelve-hour cache write counting double when \<open>cc12h\<close> is not priced.\<close>

theorem tokens_billed_once:
  fixes a b c d :: int
  assumes "0 \<le> a" "0 \<le> b" "0 \<le> c" "0 \<le> d" "a + b + c + 2 * d \<le> 2 ^ 53"
    and "num_or_zero (cacheReadTokens x) = Fin (of_int b)" "num_or_zero (cacheCreateTokens x) = Fin (of_int c)"
    "num_or_zero (cacheCreate1hTokens x) = Fin 0" "num_or_zero (cacheCreate12hTokens x) = Fin (of_int d)"
  shows "\<exists>p cc. billed_tokens used (Fin (of_int a)) x =
      \<lparr>tn_p = Fin (of_int p), tn_cc = Fin (of_int cc), tn_len = Fin (of_int (a + b + c + d))\<rparr> \<and>
      p + (if ''cr'' \<in> set used then b else 0) + (if ''cc'' \<in> set used then cc else 0) +
        (if ''cc12h'' \<in> set used then d else 0) =
      a + b + c + (if ''cc12h'' \<in> set used then d else 2 * d)"
  by (rule billed_once [OF assms])

definition sample_tokens :: extra_tokens where
  "sample_tokens = \<lparr>cacheReadTokens = Fin 7, cacheCreateTokens = Fin 5, cacheCreate1hTokens = Fin 0,
     cacheCreate12hTokens = Fin 3, imageTokens = Fin 0, imageOutputTokens = Fin 0, audioInputTokens = Fin 0,
     audioOutputTokens = Fin 0\<rparr>"

theorem tokens_billed_once_witness:
  "\<exists>p cc. billed_tokens [''p'', ''cr''] (Fin (of_int 100)) sample_tokens =
      \<lparr>tn_p = Fin (of_int p), tn_cc = Fin (of_int cc), tn_len = Fin (of_int (100 + 7 + 5 + 3))\<rparr> \<and>
      p + (if ''cr'' \<in> set [''p'', ''cr''] then 7 else 0) + (if ''cc'' \<in> set [''p'', ''cr''] then cc else 0) +
        (if ''cc12h'' \<in> set [''p'', ''cr''] then 3 else 0) =
      100 + 7 + 5 + (if ''cc12h'' \<in> set [''p'', ''cr''] then 3 else 2 * 3)"
  by (rule tokens_billed_once) (simp_all add: sample_tokens_def num_or_zero_def num_truthy_def)

section \<open>Request rules\<close>

text \<open>Round trip: a condition of the visual editor that is a token comparison, a time condition or
  range in a zone that resolves to itself, or the existence or equality of a parameter or header with a
  plain path, is read back unchanged from the text built for it.\<close>

theorem request_condition_roundtrip:
  "canonical intl c \<Longrightarrow> tryParseRequestCondition intl (buildRequestConditionExpr c) = Inr (Some c)"
  by (rule condition_roundtrip)

definition sample_range :: request_condition where
  "sample_range = time_range Hour ''UTC'' ''21'' ''6''"

theorem request_condition_roundtrip_witness:
  "canonical sample_intl sample_range \<and>
   tryParseRequestCondition sample_intl (buildRequestConditionExpr sample_range) = Inr (Some sample_range)"
proof -
  have "canonical sample_intl sample_range" by code_simp
  with request_condition_roundtrip show ?thesis by blast
qed

text \<open>C9. A multiplier is never applied more widely than its restrictions say: a factor is built only if
  every time and token condition of the group was built, and it contains each of them.\<close>

theorem restrictions_are_kept:
  assumes "buildRuleGroupFactor g \<noteq> []" "c \<in> set (rg_conditions g)" "must_build c"
  shows "buildRequestConditionExpr c \<noteq> [] \<and> js_includes (buildRuleGroupFactor g) (buildRequestConditionExpr c)"
proof -
  let ?es = "filter (\<lambda>e. e \<noteq> []) (map buildRequestConditionExpr (rg_conditions g))"
  have b: "buildRequestConditionExpr c \<noteq> []"
    using assms by (auto simp: buildRuleGroupFactor_def Let_def list_ex_iff split: if_splits)
  then have mem: "buildRequestConditionExpr c \<in> set ?es" using assms(2) by auto
  let ?wrap = "\<lambda>e. if js_includes e '' || '' then ''('' @ e @ '')'' else e"
  obtain u v where j: "js_join '' && '' (map ?wrap ?es) = u @ buildRequestConditionExpr c @ v"
  proof -
    obtain u v where "js_join '' && '' (map ?wrap ?es) = u @ ?wrap (buildRequestConditionExpr c) @ v"
      using js_join_member [of "?wrap (buildRequestConditionExpr c)" "map ?wrap ?es"] imageI [OF mem, of ?wrap]
      unfolding set_map by blast
    then show thesis using that [of u v] that [of "u @ ''(''" "'')'' @ v"]
      by (cases "js_includes (buildRequestConditionExpr c) '' || ''") auto
  qed
  show ?thesis
  proof (cases "\<exists>e. ?es = [e]")
    case True
    then obtain e where e: "?es = [e]" by blast
    with mem have "buildRequestConditionExpr c = e" by (simp only: e list.set singleton_iff)
    with e have "?es = [buildRequestConditionExpr c]" by simp
    then have "buildRuleGroupFactor g =
        ''('' @ buildRequestConditionExpr c @ '' ? '' @ js_trim (rg_multiplier g) @ '' : 1)''"
      using assms(1) by (simp add: buildRuleGroupFactor_def Let_def split: if_splits)
    with b show ?thesis unfolding js_includes_iff by blast
  next
    case False
    then have "buildRuleGroupFactor g = ''('' @ js_join '' && '' (map ?wrap ?es) @
        '' ? '' @ js_trim (rg_multiplier g) @ '' : 1)''"
      using assms(1) by (auto simp: buildRuleGroupFactor_def Let_def split: if_splits list.splits)
    then have "buildRuleGroupFactor g = (''('' @ u) @ buildRequestConditionExpr c @
        v @ '' ? '' @ js_trim (rg_multiplier g) @ '' : 1)''" by (simp add: j)
    with b show ?thesis unfolding js_includes_iff by blast
  qed
qed

definition sample_group :: request_rule_group where
  "sample_group = rule_group [ph_cond SrcToken ''len'' MATCH_LTE ''9''] ''2''"

theorem restrictions_are_kept_witness:
  "buildRequestConditionExpr (ph_cond SrcToken ''len'' MATCH_LTE ''9'') \<noteq> [] \<and>
   js_includes (buildRuleGroupFactor sample_group) (buildRequestConditionExpr (ph_cond SrcToken ''len'' MATCH_LTE ''9''))"
proof (rule restrictions_are_kept)
  show "buildRuleGroupFactor sample_group \<noteq> []" by code_simp
qed (simp_all add: sample_group_def rule_group_def ph_cond_def)

text \<open>The loop that unwraps parentheses ends with text that has no pair of parentheses around it.\<close>

theorem unwrapped_completely: "\<not> hasFullOuterParens (unwrapOuterParens e)"
proof -
  have "\<not> hasFullOuterParens (unwrap_loop s)" for s
    by (induction s rule: unwrap_loop.induct) (subst unwrap_loop.simps, simp)
  then show ?thesis by (simp add: unwrapOuterParens_def)
qed

section \<open>Visual tiers\<close>

text \<open>The visual editor opens an expression only if it can write it back: the tiers it reads
  generate the expression again, up to white space.\<close>

theorem visual_config_lossless:
  "tryParseVisualConfig (Some e) = Some config \<Longrightarrow>
     squeeze (generateExprFromVisualConfig (Some config)) = squeeze (version_body e)"
  by (auto simp: tryParseVisualConfig_def lossless_def Let_def split: if_splits option.splits)

definition sample_config :: "visual_tier list" where
  "sample_config = [\<lparr>vt_label = ''a'', vt_conditions = [], vt_input_unit_cost = Fin 3, vt_output_unit_cost = Fin 5,
     vt_cache_mode = CacheGeneric,
     vt_extra = [(''cache_read_unit_cost'', Fin 0), (''cache_create_unit_cost'', Fin 0),
       (''cache_create_1h_unit_cost'', Fin 0), (''image_unit_cost'', Fin 0), (''image_output_unit_cost'', Fin 0),
       (''audio_input_unit_cost'', Fin 0), (''audio_output_unit_cost'', Fin 0)]\<rparr>]"

theorem visual_config_lossless_witness:
  "squeeze (generateExprFromVisualConfig (Some sample_config)) = squeeze (version_body ''tier(\"a\", p*3+c*5)'')"
proof (rule visual_config_lossless)
  show "tryParseVisualConfig (Some ''tier(\"a\", p*3+c*5)'') = Some sample_config" by code_simp
qed

text \<open>Resolving a time zone is stable: a zone that resolves to a supported name, other than the empty
  one, is one the browser knows under that name, and the name resolves to itself, for a browser whose
  canonical names are their own canonical names and are neither \<open>Local\<close> nor offsets.\<close>

theorem zone_resolution_stable:
  assumes "resolveBillingTimeZone intl tz = ZSupported z" "js_trim tz \<noteq> []"
    and "\<And>n m. intl n = Some m \<Longrightarrow> intl m = Some m \<and> trimmed m \<and> m \<noteq> [] \<and> m \<noteq> ''Local'' \<and> \<not> is_offset m"
  shows "intl (js_trim tz) = Some z \<and> resolveBillingTimeZone intl z = ZSupported z"
  using zone_supportedD [OF assms(1,2)] assms(3) zone_canonical by blast

theorem zone_resolution_stable_witness:
  "sample_intl (js_trim '' UTC '') = Some ''UTC'' \<and> resolveBillingTimeZone sample_intl ''UTC'' = ZSupported ''UTC''"
proof (rule zone_resolution_stable)
  show "resolveBillingTimeZone sample_intl '' UTC '' = ZSupported ''UTC''" by code_simp
  show "js_trim '' UTC '' \<noteq> []" by code_simp
  have o: "\<not> is_offset ''UTC''" "\<not> is_offset ''Asia/Shanghai''" by (simp_all add: is_offset_def rx_exec_def)
  fix n m assume "sample_intl n = Some m"
  then show "sample_intl m = Some m \<and> trimmed m \<and> m \<noteq> [] \<and> m \<noteq> ''Local'' \<and> \<not> is_offset m"
    using o by (auto simp: sample_intl_def trimmed_def is_ws_def ordc_def split: if_splits)
qed

section \<open>Behaviours the code does not intend\<close>

text \<open>A comparison of a parameter, as the visual editor itself builds it, is not read back: the
  conjunction is split before the pattern for the whole condition is tried.\<close>

lemma param_comparison_not_read_back:
  "tryParseRequestConditions (\<lambda>_. None) (buildRequestConditionExpr (ph_cond SrcParam ''a'' MATCH_GT ''5'')) = Inr None"
  by code_simp

text \<open>An equality with a quoted number is written back as an equality with a number.\<close>

lemma quoted_number_reinterpreted:
  "tryParseRequestCondition (\<lambda>_. None) ''param(\"x\") == \"5\"'' = Inr (Some (ph_cond SrcParam ''x'' MATCH_EQ ''5''))"
  "buildRequestConditionExpr (ph_cond SrcParam ''x'' MATCH_EQ ''5'') = ''param(\"x\") == 5''"
  by code_simp+

text \<open>An invalid escape in a quoted literal throws out of the parser.\<close>

lemma invalid_escape_throws:
  "tryParseRequestCondition (\<lambda>_. None) (''has(header(\"x\"), \"'' @ [backslash] @ ''q\")'') = Inl json_syntax_error"
  by code_simp

text \<open>A path with a backslash comes back with two.\<close>

lemma escaped_path_doubled:
  "tryParseRequestCondition (\<lambda>_. None) (buildRequestConditionExpr (ph_cond SrcParam [CHR ''a'', backslash] MATCH_EXISTS [])) =
     Inr (Some (ph_cond SrcParam [CHR ''a'', backslash, backslash] MATCH_EXISTS []))"
  by code_simp

text \<open>A tier label with a quote generates an expression that does not parse.\<close>

definition quoted_label_tier :: visual_tier where
  "quoted_label_tier = \<lparr>vt_label = ''a\"b'', vt_conditions = [], vt_input_unit_cost = Fin 3,
     vt_output_unit_cost = Fin 5, vt_cache_mode = CacheGeneric, vt_extra = []\<rparr>"

lemma quoted_label_breaks_expression:
  "parsePricingExpression (generateExprFromVisualConfig (Some [quoted_label_tier])) = Inl ''Unsupported pricing syntax''"
  by code_simp

end
