(* ===== verification/Auth_Store.thy ===== *)
theory Auth_Store
  imports JS_Json
begin

text \<open>
  The authentication store (\<open>web/src/stores/auth-store.ts\<close>) and the validation of the server's
  answers (the \<open>is...\<close> predicates of \<open>web/src/lib/auth-session.ts\<close>).  The user object is kept as the
  JSON value it was received as; the login session is a record of its fields.
\<close>

section \<open>Data\<close>

record login_session =
  ls_sid :: string
  ls_current :: bool
  ls_login_method :: string
  ls_ip :: string
  ls_user_agent :: string
  ls_created_at :: jsnum
  ls_last_active_at :: jsnum
  ls_expires_at :: jsnum

record auth_bundle =
  ab_access_token :: string
  ab_token_type :: string
  ab_access_expires_at :: jsnum
  ab_user :: jsval
  ab_session :: login_session

datatype bootstrap_state = BIdle | BChecking | BComplete

record auth_state =
  au_user :: "jsval option"
  au_accessToken :: "string option"
  au_accessExpiresAt :: "jsnum option"
  au_session :: "login_session option"
  au_pending2FAFlowToken :: "string option"
  au_bootstrapState :: bootstrap_state

section \<open>Operations of the store\<close>

definition auth_init :: auth_state where
  "auth_init = \<lparr>au_user = None, au_accessToken = None, au_accessExpiresAt = None, au_session = None,
     au_pending2FAFlowToken = None, au_bootstrapState = BIdle\<rparr>"

definition setBundle :: "auth_bundle \<Rightarrow> auth_state \<Rightarrow> auth_state" where
  "setBundle bundle s = s\<lparr>au_user := Some (ab_user bundle), au_accessToken := Some (ab_access_token bundle),
     au_accessExpiresAt := Some (ab_access_expires_at bundle), au_session := Some (ab_session bundle),
     au_pending2FAFlowToken := None, au_bootstrapState := BComplete\<rparr>"

definition setUser :: "jsval option \<Rightarrow> auth_state \<Rightarrow> auth_state" where
  "setUser user s = s\<lparr>au_user := user\<rparr>"

definition setPending2FAFlowToken :: "string option \<Rightarrow> auth_state \<Rightarrow> auth_state" where
  "setPending2FAFlowToken flowToken s = s\<lparr>au_pending2FAFlowToken := flowToken\<rparr>"

definition setBootstrapState :: "bootstrap_state \<Rightarrow> auth_state \<Rightarrow> auth_state" where
  "setBootstrapState b s = s\<lparr>au_bootstrapState := b\<rparr>"

definition reset_auth :: "bootstrap_state \<Rightarrow> auth_state \<Rightarrow> auth_state" where
  "reset_auth b s = s\<lparr>au_user := None, au_accessToken := None, au_accessExpiresAt := None,
     au_session := None, au_pending2FAFlowToken := None, au_bootstrapState := b\<rparr>"

section \<open>Validation of answers\<close>

definition isRecord :: "jsval \<Rightarrow> bool" where
  "isRecord v \<longleftrightarrow> (case v of JArr _ \<Rightarrow> True | JObj _ \<Rightarrow> True | _ \<Rightarrow> False)"

definition num_of :: "jsval \<Rightarrow> jsnum" where
  "num_of v = (case v of JNum x \<Rightarrow> x | _ \<Rightarrow> NaN)"

definition str_of :: "jsval \<Rightarrow> string" where
  "str_of v = (case v of JStr s \<Rightarrow> s | _ \<Rightarrow> [])"

text \<open>\<open>Number.isInteger\<close> is false on anything but a number, so \<open>Number(value.id)\<close> is only read on one.\<close>

definition isAuthUser :: "jsval \<Rightarrow> bool" where
  "isAuthUser v \<longleftrightarrow> isRecord v \<and> is_jnum (jget v ''id'') \<and> is_integer (num_of (jget v ''id'')) \<and>
     js_lt (Fin 0) (num_of (jget v ''id'')) \<and> is_jstr (jget v ''username'') \<and> is_jnum (jget v ''role'')"

definition isLoginSession :: "jsval \<Rightarrow> bool" where
  "isLoginSession v \<longleftrightarrow> isRecord v \<and> is_jstr (jget v ''sid'') \<and> str_of (jget v ''sid'') \<noteq> [] \<and>
     is_jbool (jget v ''current'') \<and> is_jstr (jget v ''login_method'') \<and> is_jstr (jget v ''ip'') \<and>
     is_jstr (jget v ''user_agent'') \<and> is_jnum (jget v ''created_at'') \<and>
     is_jnum (jget v ''last_active_at'') \<and> is_jnum (jget v ''expires_at'')"

definition hasValidTokenFields :: "jsval \<Rightarrow> bool" where
  "hasValidTokenFields v \<longleftrightarrow> is_jstr (jget v ''access_token'') \<and> str_of (jget v ''access_token'') \<noteq> [] \<and>
     is_jstr (jget v ''token_type'') \<and> str_of (jget v ''token_type'') \<noteq> [] \<and>
     is_jnum (jget v ''access_expires_at'') \<and> is_finite (num_of (jget v ''access_expires_at'')) \<and>
     js_lt (Fin 0) (num_of (jget v ''access_expires_at''))"

definition isAuthBundle :: "jsval \<Rightarrow> bool" where
  "isAuthBundle v \<longleftrightarrow> isRecord v \<and> hasValidTokenFields v \<and> isAuthUser (jget v ''user'') \<and>
     isLoginSession (jget v ''session'')"

definition isAuthTokenRotation :: "jsval \<Rightarrow> bool" where
  "isAuthTokenRotation v \<longleftrightarrow> isRecord v \<and> hasValidTokenFields v \<and> jget v ''token_type'' = JStr ''Bearer'' \<and>
     isLoginSession (jget v ''session'') \<and> jget (jget v ''session'') ''current'' = JBool True"

text \<open>The typed views of validated values.\<close>

definition session_of :: "jsval \<Rightarrow> login_session" where
  "session_of v = \<lparr>ls_sid = str_of (jget v ''sid''), ls_current = (jget v ''current'' = JBool True),
     ls_login_method = str_of (jget v ''login_method''), ls_ip = str_of (jget v ''ip''),
     ls_user_agent = str_of (jget v ''user_agent''), ls_created_at = num_of (jget v ''created_at''),
     ls_last_active_at = num_of (jget v ''last_active_at''), ls_expires_at = num_of (jget v ''expires_at'')\<rparr>"

definition bundle_of :: "jsval \<Rightarrow> auth_bundle" where
  "bundle_of v = \<lparr>ab_access_token = str_of (jget v ''access_token''), ab_token_type = str_of (jget v ''token_type''),
     ab_access_expires_at = num_of (jget v ''access_expires_at''), ab_user = jget v ''user'',
     ab_session = session_of (jget v ''session'')\<rparr>"

definition parseBundle :: "jsval \<Rightarrow> auth_bundle option" where
  "parseBundle v = (if isAuthBundle v then Some (bundle_of v) else None)"

section \<open>The store's invariant\<close>

text \<open>
  Token, expiry and session are present together, and what is present is usable: a non-empty token, a
  finite positive expiry, a session with an identifier.  A bundle that is stored must be usable.
\<close>

definition bundle_ok :: "auth_bundle \<Rightarrow> bool" where
  "bundle_ok b \<longleftrightarrow> ab_access_token b \<noteq> [] \<and> is_finite (ab_access_expires_at b) \<and>
     js_lt (Fin 0) (ab_access_expires_at b) \<and> ls_sid (ab_session b) \<noteq> []"

definition auth_ok :: "auth_state \<Rightarrow> bool" where
  "auth_ok s \<longleftrightarrow>
     (case (au_accessToken s, au_accessExpiresAt s, au_session s) of
        (None, None, None) \<Rightarrow> True
      | (Some t, Some e, Some sess) \<Rightarrow> t \<noteq> [] \<and> is_finite e \<and> js_lt (Fin 0) e \<and> ls_sid sess \<noteq> []
      | _ \<Rightarrow> False)"

lemma auth_ok_cases:
  assumes "auth_ok s"
  obtains "au_accessToken s = None" "au_accessExpiresAt s = None" "au_session s = None"
  | t e sess where "au_accessToken s = Some t" "au_accessExpiresAt s = Some e" "au_session s = Some sess"
      "t \<noteq> []" "is_finite e" "js_lt (Fin 0) e" "ls_sid sess \<noteq> []"
  using assms by (auto simp: auth_ok_def split: option.splits)

lemma parseBundle_ok: "parseBundle v = Some b \<Longrightarrow> bundle_ok b"
  by (auto simp: parseBundle_def isAuthBundle_def hasValidTokenFields_def isLoginSession_def bundle_of_def
      session_of_def bundle_ok_def split: if_splits)

lemma auth_ok_ops [simp, intro]:
  "auth_ok auth_init"
  "bundle_ok b \<Longrightarrow> auth_ok (setBundle b s)"
  "auth_ok (reset_auth p s)"
  "auth_ok (setUser u s) \<longleftrightarrow> auth_ok s"
  "auth_ok (setPending2FAFlowToken f s) \<longleftrightarrow> auth_ok s"
  "auth_ok (setBootstrapState p s) \<longleftrightarrow> auth_ok s"
  by (auto simp: auth_ok_def auth_init_def setBundle_def reset_auth_def setUser_def
      setPending2FAFlowToken_def setBootstrapState_def bundle_ok_def)

end
