(* ===== verification/Auth_Session.thy ===== *)
theory Auth_Session
  imports Auth_Store
begin

text \<open>
  The authentication session of a browser tab (\<open>web/src/lib/auth-session.ts\<close>): applying bundles and
  rotations, clearing, the refresh runner with its retries, and the tab as a state machine.

  The runner is asynchronous: it gives up control at every request and at every wait, and anything may
  happen to the tab in between.  Its run is therefore a phase that the tab carries, advanced by the
  steps \<open>AAcquire\<close> (the browser lock is granted), \<open>AResponse\<close>, \<open>ATimer\<close> and \<open>ASettle\<close> (the promise
  settles), interleaved with every other operation on the session.
\<close>

section \<open>The refresh runner\<close>

record refresh_response =
  rr_status :: int
  rr_data :: jsval
  rr_error :: jsval

datatype refresh_error = Superseded | Failed jsval

datatype outcome =
    Authenticated auth_bundle
  | Anonymous
  | TransientError refresh_error
  | OutOfSync "string option"

text \<open>\<open>AuthRefreshRuntime\<close> over a state \<open>'s\<close>; \<open>request\<close> and \<open>wait\<close> are the points where the runner gives
  up control.\<close>

record 's runtime =
  rt_getExpectedSID :: "'s \<Rightarrow> string option"
  rt_parseBundle :: "jsval \<Rightarrow> auth_bundle option"
  rt_acceptBundle :: "auth_bundle \<Rightarrow> 's \<Rightarrow> 's"
  rt_clear :: "bool \<Rightarrow> bootstrap_state option \<Rightarrow> 's \<Rightarrow> 's"
  rt_markTransient :: "'s \<Rightarrow> 's"
  rt_isCurrent :: "('s \<Rightarrow> bool) option"

text \<open>What the runner waits for: the browser lock, the answer to a request with the race attempt, the
  permission to retry a mismatch and the session it named, or a timer; or its result.\<close>

datatype phase =
    PLocked
  | PRequesting nat bool "string option"
  | PWaiting nat bool nat
  | PDone outcome

definition refreshRaceDelays :: "nat list" where
  "refreshRaceDelays = [80, 200, 500]"

definition is_superseded :: "'s runtime \<Rightarrow> 's \<Rightarrow> bool" where
  "is_superseded rt s \<longleftrightarrow> (case rt_isCurrent rt of None \<Rightarrow> False | Some current \<Rightarrow> \<not> current s)"

text \<open>The beginning of \<open>run\<close>, up to its request.\<close>

definition run_begin :: "'s runtime \<Rightarrow> nat \<Rightarrow> bool \<Rightarrow> 's \<Rightarrow> phase \<times> 's" where
  "run_begin rt raceAttempt allowMismatchRetry s =
     (if is_superseded rt s then (PDone (TransientError Superseded), s)
      else (PRequesting raceAttempt allowMismatchRetry (rt_getExpectedSID rt s), s))"

definition response_code :: "jsval \<Rightarrow> string option" where
  "response_code responseData = (case jget responseData ''code'' of JStr c \<Rightarrow> Some c | _ \<Rightarrow> None)"

definition nullish_or :: "jsval \<Rightarrow> jsval \<Rightarrow> jsval" where
  "nullish_or a b = (if a = JUndefined \<or> a = JNull then b else a)"

text \<open>The answer that is no bundle, by status and code.\<close>

definition run_refused :: "'s runtime \<Rightarrow> nat \<Rightarrow> bool \<Rightarrow> refresh_response \<Rightarrow> string option \<Rightarrow> 's \<Rightarrow> phase \<times> 's" where
  "run_refused rt raceAttempt allowMismatchRetry response code s =
     (if rr_status response = 409 \<and> code = Some ''AUTH_REFRESH_RACE'' then
        (case nth_opt refreshRaceDelays raceAttempt of
           Some delay \<Rightarrow> (PWaiting raceAttempt allowMismatchRetry delay, s)
         | None \<Rightarrow> (PDone (OutOfSync code), rt_clear rt False None s))
      else if rr_status response = 409 \<and> code = Some ''AUTH_SESSION_MISMATCH'' then
        (if allowMismatchRetry then run_begin rt 0 False (rt_clear rt False (Some BIdle) s)
         else (PDone (OutOfSync code), rt_clear rt False None s))
      else if rr_status response = 401 then (PDone Anonymous, rt_clear rt True None s)
      else if rr_status response = 0 \<or> rr_status response \<ge> 500 \<or> rr_status response = 429 then
        (PDone (TransientError (Failed (nullish_or (rr_error response) (rr_data response)))), rt_markTransient rt s)
      else (PDone (OutOfSync (Some (coalesce code ''AUTH_INVALID_REFRESH_RESPONSE''))), rt_clear rt False None s))"

text \<open>The rest of \<open>run\<close>, from the answer on.\<close>

definition run_response :: "'s runtime \<Rightarrow> nat \<Rightarrow> bool \<Rightarrow> refresh_response \<Rightarrow> 's \<Rightarrow> phase \<times> 's" where
  "run_response rt raceAttempt allowMismatchRetry response s =
     (if is_superseded rt s then (PDone (TransientError Superseded), s)
      else
        (let responseData = (if isRecord (rr_data response) then rr_data response else JUndefined);
             code = response_code responseData
         in case rt_parseBundle rt (jget responseData ''data'') of
              Some bundle \<Rightarrow>
                if jget responseData ''success'' = JBool True
                then (PDone (Authenticated bundle), rt_acceptBundle rt bundle s)
                else run_refused rt raceAttempt allowMismatchRetry response code s
            | None \<Rightarrow> run_refused rt raceAttempt allowMismatchRetry response code s))"

text \<open>\<open>requestRefresh\<close>: the headers it sends and the answer it makes of what axios returns or throws.\<close>

datatype axios_result =
    Returned int jsval
  | AxiosError "(int \<times> jsval) option" jsval
  | OtherError jsval

definition refresh_headers :: "string option \<Rightarrow> (string \<times> string) list" where
  "refresh_headers expectedSID =
     (case expectedSID of Some sid \<Rightarrow> if sid = [] then [] else [(''X-Auth-Session'', sid)] | None \<Rightarrow> [])"

definition requestRefresh :: "axios_result \<Rightarrow> refresh_response" where
  "requestRefresh result =
     (case result of
        Returned status data \<Rightarrow> \<lparr>rr_status = status, rr_data = data, rr_error = JUndefined\<rparr>
      | OtherError err \<Rightarrow> \<lparr>rr_status = 0, rr_data = JUndefined, rr_error = err\<rparr>
      | AxiosError response err \<Rightarrow>
          \<lparr>rr_status = (case response of Some (status, _) \<Rightarrow> status | None \<Rightarrow> 0),
           rr_data = (case response of Some (_, data) \<Rightarrow> data | None \<Rightarrow> JUndefined), rr_error = err\<rparr>)"

section \<open>The tab\<close>

datatype sync_kind = SyncAuthenticated | SyncSignedOut

text \<open>
  The state of a tab: the store, the epoch, the refresh in flight with the epoch it started in
  (\<open>refreshPromise\<close>), the events published to other tabs, and the keys of the cached queries.
\<close>

record tab =
  tab_auth :: auth_state
  tab_epoch :: nat
  tab_refresh :: "(nat \<times> phase) option"
  tab_published :: "(sync_kind \<times> string) list"
  tab_queries :: "string list"

definition tab_init :: tab where
  "tab_init = \<lparr>tab_auth = auth_init, tab_epoch = 0, tab_refresh = None, tab_published = [], tab_queries = []\<rparr>"

definition current_sid :: "tab \<Rightarrow> string option" where
  "current_sid t = map_option ls_sid (au_session (tab_auth t))"

text \<open>\<open>publishAuthSessionEvent\<close>, which ignores an empty identifier.\<close>

definition publish :: "sync_kind \<Rightarrow> string \<Rightarrow> tab \<Rightarrow> tab" where
  "publish kind sid t = (if sid = [] then t else t\<lparr>tab_published := tab_published t @ [(kind, sid)]\<rparr>)"

definition applyAuthBundle :: "auth_bundle \<Rightarrow> bool \<Rightarrow> tab \<Rightarrow> tab" where
  "applyAuthBundle bundle synchronizeTabs t =
     (let previousSID = current_sid t;
          t' = t\<lparr>tab_epoch := tab_epoch t + 1, tab_auth := setBundle bundle (tab_auth t)\<rparr>
      in if synchronizeTabs \<and> previousSID \<noteq> Some (ls_sid (ab_session bundle))
         then publish SyncAuthenticated (ls_sid (ab_session bundle)) t' else t')"

definition applyAuthRotation :: "jsval \<Rightarrow> tab \<Rightarrow> tab exn" where
  "applyAuthRotation v t =
     (if \<not> isAuthTokenRotation v then Inl ''Invalid authentication rotation response''
      else case (au_user (tab_auth t), au_session (tab_auth t)) of
          (Some user, Some session) \<Rightarrow>
            if ls_sid (session_of (jget v ''session'')) \<noteq> ls_sid session
            then Inl ''Authentication rotation session mismatch''
            else Inr (applyAuthBundle \<lparr>ab_access_token = str_of (jget v ''access_token''),
                ab_token_type = str_of (jget v ''token_type''),
                ab_access_expires_at = num_of (jget v ''access_expires_at''), ab_user = user,
                ab_session = session_of (jget v ''session'')\<rparr> False t)
        | _ \<Rightarrow> Inl ''Authentication rotation has no active session'')"

definition clearAuthentication :: "bool \<Rightarrow> bootstrap_state \<Rightarrow> tab \<Rightarrow> tab" where
  "clearAuthentication synchronizeTabs bootstrapState t =
     (let sid = current_sid t;
          t' = t\<lparr>tab_epoch := tab_epoch t + 1, tab_auth := reset_auth bootstrapState (tab_auth t)\<rparr>
      in case sid of
           Some s \<Rightarrow> if synchronizeTabs then publish SyncSignedOut s t' else t'
         | None \<Rightarrow> t')"

definition clearAuthenticatedClientState :: "bool \<Rightarrow> tab \<Rightarrow> tab" where
  "clearAuthenticatedClientState synchronizeTabs t =
     clearAuthentication synchronizeTabs BComplete (t\<lparr>tab_queries := []\<rparr>)"

definition on_auth :: "(auth_state \<Rightarrow> auth_state) \<Rightarrow> tab \<Rightarrow> tab" where
  "on_auth f t = t\<lparr>tab_auth := f (tab_auth t)\<rparr>"

definition refresh_clear :: "bool \<Rightarrow> bootstrap_state option \<Rightarrow> tab \<Rightarrow> tab" where
  "refresh_clear synchronizeTabs bootstrapState t =
     (if \<not> synchronizeTabs \<and> bootstrapState = Some BIdle then on_auth (reset_auth BIdle) t
      else clearAuthentication synchronizeTabs (coalesce bootstrapState BComplete) t)"

text \<open>The runtime of \<open>runRefresh(refreshEpoch)\<close>.\<close>

definition refresh_runtime :: "nat \<Rightarrow> tab runtime" where
  "refresh_runtime refreshEpoch =
     \<lparr>rt_getExpectedSID = current_sid, rt_parseBundle = parseBundle,
      rt_acceptBundle = (\<lambda>bundle. applyAuthBundle bundle False), rt_clear = refresh_clear,
      rt_markTransient = on_auth (setBootstrapState BIdle),
      rt_isCurrent = Some (\<lambda>t. tab_epoch t = refreshEpoch)\<rparr>"

definition set_phase :: "nat \<Rightarrow> phase \<times> tab \<Rightarrow> tab" where
  "set_phase e r = (snd r)\<lparr>tab_refresh := Some (e, fst r)\<rparr>"

text \<open>\<open>refreshAuthentication\<close>: with browser locks the run starts when the lock is granted, without them
  at once.\<close>

definition refreshAuthentication :: "bool \<Rightarrow> tab \<Rightarrow> tab" where
  "refreshAuthentication locks t =
     (case tab_refresh t of
        Some _ \<Rightarrow> t
      | None \<Rightarrow>
          if locks then t\<lparr>tab_refresh := Some (tab_epoch t, PLocked)\<rparr>
          else set_phase (tab_epoch t) (run_begin (refresh_runtime (tab_epoch t)) 0 True t))"

text \<open>\<open>now\<close> is \<open>Math.floor(Date.now() / 1000)\<close>.\<close>

definition truthy_str :: "string option \<Rightarrow> bool" where
  "truthy_str s \<longleftrightarrow> s \<noteq> None \<and> s \<noteq> Some []"

definition truthy_num :: "jsnum option \<Rightarrow> bool" where
  "truthy_num x \<longleftrightarrow> (case x of None \<Rightarrow> False | Some v \<Rightarrow> num_truthy v)"

definition currentValidAuthBundle :: "jsnum \<Rightarrow> auth_state \<Rightarrow> auth_bundle option" where
  "currentValidAuthBundle now a =
     (case (au_user a, au_accessToken a, au_accessExpiresAt a, au_session a) of
        (Some user, Some token, Some expires, Some session) \<Rightarrow>
          if token = [] \<or> \<not> num_truthy expires \<or> js_le expires now then None
          else Some \<lparr>ab_access_token = token, ab_token_type = ''Bearer'', ab_access_expires_at = expires,
                 ab_user = user, ab_session = session\<rparr>
      | _ \<Rightarrow> None)"

text \<open>\<open>bootstrapAuthentication\<close> up to its first wait: \<open>Some\<close> is the result when there is one at once,
  \<open>None\<close> when the result is that of the refresh.\<close>

definition bootstrapAuthentication :: "bool \<Rightarrow> jsnum \<Rightarrow> tab \<Rightarrow> outcome option \<times> tab" where
  "bootstrapAuthentication locks now t =
     (case currentValidAuthBundle now (tab_auth t) of
        Some bundle \<Rightarrow> (Some (Authenticated bundle), on_auth (setBootstrapState BComplete) t)
      | None \<Rightarrow>
          (let a = tab_auth t; hasStaleSession = (au_user a \<noteq> None \<and> au_session a \<noteq> None)
           in if au_bootstrapState a = BComplete \<and> \<not> hasStaleSession then (Some Anonymous, t)
              else (None, refreshAuthentication locks (on_auth (setBootstrapState BChecking) t))))"

type_synonym headers = "(string \<times> string) list"

definition getCommonHeaders :: "auth_state \<Rightarrow> headers" where
  "getCommonHeaders a =
     [(''Content-Type'', ''application/json'')] @
     (case au_accessToken a of
        Some token \<Rightarrow> if token = [] then [] else [(''Authorization'', ''Bearer '' @ token)]
      | None \<Rightarrow> [])"

text \<open>\<open>getFreshAuthHeaders\<close> before and after it waits for a refresh.\<close>

definition expires_after :: "auth_state \<Rightarrow> jsnum \<Rightarrow> bool" where
  "expires_after a limit \<longleftrightarrow> truthy_str (au_accessToken a) \<and> truthy_num (au_accessExpiresAt a) \<and>
     js_lt limit (the (au_accessExpiresAt a))"

definition fresh_headers_now :: "jsnum \<Rightarrow> auth_state \<Rightarrow> headers option" where
  "fresh_headers_now now a =
     (if expires_after a (js_add now (Fin 60)) then Some (getCommonHeaders a) else None)"

definition fresh_headers_after :: "jsnum \<Rightarrow> outcome \<Rightarrow> auth_state \<Rightarrow> headers exn" where
  "fresh_headers_after now result a =
     (case result of
        Authenticated _ \<Rightarrow> Inr (getCommonHeaders a)
      | _ \<Rightarrow>
          if expires_after a now then Inr (getCommonHeaders a)
          else case result of TransientError _ \<Rightarrow> Inl ''Request failed'' | _ \<Rightarrow> Inl ''Session expired!'')"

section \<open>Steps\<close>

datatype action =
    ARefresh
  | AAcquire
  | ALockRejected
  | AResponse refresh_response
  | ATimer
  | ASettle
  | ALogin auth_bundle bool
  | AVerified auth_bundle
  | ARotate jsval
  | AClear bool bootstrap_state
  | ASignOut bool
  | ASetUser "jsval option"
  | ASetFlow "string option"
  | ABootstrap jsnum

text \<open>
  A login by password, passkey or provider applies an answer that \<open>isAuthBundle\<close> accepted (\<open>ALogin\<close>); the form for the second factor
  (\<open>otp-form.tsx\<close>) applies whatever data the server sent (\<open>AVerified\<close>), which is only taken to have the declared type here.
\<close>

inductive tab_step :: "bool \<Rightarrow> action \<Rightarrow> tab \<Rightarrow> tab \<Rightarrow> bool" for locks where
  s_refresh: "tab_step locks ARefresh t (refreshAuthentication locks t)"
| s_acquire: "tab_refresh t = Some (e, PLocked) \<Longrightarrow>
    tab_step locks AAcquire t (set_phase e (run_begin (refresh_runtime e) 0 True t))"
| s_rejected: "tab_refresh t = Some (e, PLocked) \<Longrightarrow>
    tab_step locks ALockRejected t (t\<lparr>tab_refresh := None\<rparr>)"
| s_response: "tab_refresh t = Some (e, PRequesting r m sid) \<Longrightarrow>
    tab_step locks (AResponse response) t (set_phase e (run_response (refresh_runtime e) r m response t))"
| s_timer: "tab_refresh t = Some (e, PWaiting r m delay) \<Longrightarrow>
    tab_step locks ATimer t (set_phase e (run_begin (refresh_runtime e) (r + 1) m t))"
| s_settle: "tab_refresh t = Some (e, PDone result) \<Longrightarrow>
    tab_step locks ASettle t (t\<lparr>tab_refresh := None\<rparr>)"
| s_login: "parseBundle v = Some b \<Longrightarrow> tab_step locks (ALogin b sync) t (applyAuthBundle b sync t)"
| s_verified: "tab_step locks (AVerified b) t (applyAuthBundle b True t)"
| s_rotate: "applyAuthRotation v t = Inr t' \<Longrightarrow> tab_step locks (ARotate v) t t'"
| s_clear: "tab_step locks (AClear sync b) t (clearAuthentication sync b t)"
| s_signout: "tab_step locks (ASignOut sync) t (clearAuthenticatedClientState sync t)"
| s_user: "tab_step locks (ASetUser u) t (on_auth (setUser u) t)"
| s_flow: "tab_step locks (ASetFlow f) t (on_auth (setPending2FAFlowToken f) t)"
| s_bootstrap: "tab_step locks (ABootstrap now) t (snd (bootstrapAuthentication locks now t))"

inductive_cases tab_stepE: "tab_step locks a t t'"

text \<open>A run with its actions, in order.\<close>

inductive tab_run :: "bool \<Rightarrow> tab \<Rightarrow> action list \<Rightarrow> tab \<Rightarrow> bool" for locks where
  run_nil: "tab_run locks t [] t"
| run_cons: "tab_step locks a t t1 \<Longrightarrow> tab_run locks t1 as t2 \<Longrightarrow> tab_run locks t (a # as) t2"

inductive_cases tab_run_ConsE: "tab_run locks t (a # as) t'"
inductive_simps tab_run_Nil [simp]: "tab_run locks t [] t'"

end
