(* ===== verification/Auth_Facts.thy ===== *)
theory Auth_Facts
  imports Auth_Session
begin

text \<open>
  What the refresh runner and the tab guarantee.  The runner's contract with its runtime is the locale
  \<open>refresh_contract\<close>; the tab's runtime satisfies it.
\<close>

section \<open>Contract of the runtime\<close>

text \<open>
  \<open>store\<close> reads the authentication store out of the state and \<open>current\<close> tells whether the refresh is
  still current.  Accepting and clearing do to the store what their names say, and the partial clear
  before a retry keeps the refresh current.
\<close>

locale refresh_contract =
  fixes rt :: "'s runtime" and store :: "'s \<Rightarrow> auth_state" and current :: "'s \<Rightarrow> bool"
  assumes is_current: "rt_isCurrent rt = Some current"
    and parse_ok: "rt_parseBundle rt v = Some b \<Longrightarrow> bundle_ok b"
    and accept_store: "store (rt_acceptBundle rt b s) = setBundle b (store s)"
    and clear_store: "store (rt_clear rt sync None s) = reset_auth BComplete (store s)"
    and restart_store: "store (rt_clear rt False (Some BIdle) s) = reset_auth BIdle (store s)"
    and restart_current: "current (rt_clear rt False (Some BIdle) s) \<longleftrightarrow> current s"
    and transient_store: "store (rt_markTransient rt s) = setBootstrapState BIdle (store s)"
begin

lemma superseded_iff [simp]: "is_superseded rt s \<longleftrightarrow> \<not> current s"
  by (simp add: is_superseded_def is_current)

text \<open>A superseded run touches nothing.\<close>

lemma superseded_begin: "\<not> current s \<Longrightarrow> run_begin rt r m s = (PDone (TransientError Superseded), s)"
  by (simp add: run_begin_def)

lemma superseded_response: "\<not> current s \<Longrightarrow> run_response rt r m response s = (PDone (TransientError Superseded), s)"
  by (simp add: run_response_def)

text \<open>The store after a step of the runner, by the phase it reaches.\<close>

definition phase_store :: "phase \<Rightarrow> auth_state \<Rightarrow> auth_state \<Rightarrow> bool" where
  "phase_store p a a' \<longleftrightarrow>
     (case p of
        PDone (Authenticated b) \<Rightarrow> a' = setBundle b a \<and> bundle_ok b
      | PDone Anonymous \<Rightarrow> a' = reset_auth BComplete a
      | PDone (OutOfSync _) \<Rightarrow> a' = reset_auth BComplete a
      | PDone (TransientError Superseded) \<Rightarrow> a' = a
      | PDone (TransientError (Failed _)) \<Rightarrow> a' = setBootstrapState BIdle a
      | PRequesting _ m _ \<Rightarrow> \<not> m \<and> a' = reset_auth BIdle a
      | PWaiting _ _ _ \<Rightarrow> a' = a
      | PLocked \<Rightarrow> False)"

lemma begin_store: "run_begin rt r m s = (p, s') \<Longrightarrow> store s' = store s"
  by (auto simp: run_begin_def split: if_splits)

lemma refused_store:
  assumes "run_refused rt r m response code s = (p, s')" "current s"
  shows "phase_store p (store s) (store s')"
  using assms
  by (auto simp: run_refused_def run_begin_def phase_store_def clear_store restart_store restart_current
      transient_store split: if_splits option.splits)

lemma response_store:
  assumes "run_response rt r m response s = (p, s')"
  shows "phase_store p (store s) (store s')"
proof (cases "current s")
  case True
  with assms refused_store show ?thesis
    by (auto simp: run_response_def Let_def phase_store_def accept_store parse_ok split: if_splits option.splits)
next
  case False
  then have "p = PDone (TransientError Superseded) \<and> s' = s" using assms by (auto simp: superseded_response)
  then show ?thesis by (simp add: phase_store_def)
qed

end

section \<open>Requests are bounded\<close>

text \<open>How many more answers a run can take.\<close>

fun budget :: "phase \<Rightarrow> nat" where
  "budget PLocked = 8"
| "budget (PRequesting r m _) = (4 - r) + (if m then 4 else 0)"
| "budget (PWaiting r m _) = (3 - r) + (if m then 4 else 0)"
| "budget (PDone _) = 0"

fun phase_ok :: "phase \<Rightarrow> bool" where
  "phase_ok (PRequesting r m _) \<longleftrightarrow> r \<le> 3"
| "phase_ok (PWaiting r m _) \<longleftrightarrow> r < 3"
| "phase_ok _ \<longleftrightarrow> True"

lemma budget_le: "budget p \<le> 8"
  by (cases p) auto

lemma begin_phase:
  "r \<le> 3 \<Longrightarrow> phase_ok (fst (run_begin rt r m s)) \<and> budget (fst (run_begin rt r m s)) \<le> (4 - r) + (if m then 4 else 0)"
  by (simp add: run_begin_def)

lemma refused_phase:
  assumes "r \<le> 3"
  shows "phase_ok (fst (run_refused rt r m response code s)) \<and>
    budget (fst (run_refused rt r m response code s)) < (4 - r) + (if m then 4 else 0)"
  using assms begin_phase [of 0 rt False "rt_clear rt False (Some BIdle) s"]
  by (auto simp: run_refused_def nth_opt_def refreshRaceDelays_def split: if_splits option.splits)

lemma response_phase:
  assumes "r \<le> 3"
  shows "phase_ok (fst (run_response rt r m response s)) \<and>
    budget (fst (run_response rt r m response s)) < (4 - r) + (if m then 4 else 0)"
  using assms refused_phase [OF assms, of rt m response _ s]
  by (auto simp: run_response_def Let_def split: option.splits)

section \<open>The tab's runtime\<close>

lemma publish_simps [simp]:
  "tab_auth (publish k sid t) = tab_auth t" "tab_epoch (publish k sid t) = tab_epoch t"
  "tab_refresh (publish k sid t) = tab_refresh t" "tab_queries (publish k sid t) = tab_queries t"
  by (simp_all add: publish_def)

lemma apply_simps [simp]:
  "tab_auth (applyAuthBundle b sync t) = setBundle b (tab_auth t)"
  "tab_epoch (applyAuthBundle b sync t) = tab_epoch t + 1"
  "tab_refresh (applyAuthBundle b sync t) = tab_refresh t"
  by (simp_all add: applyAuthBundle_def Let_def)

lemma clear_simps [simp]:
  "tab_auth (clearAuthentication sync p t) = reset_auth p (tab_auth t)"
  "tab_epoch (clearAuthentication sync p t) = tab_epoch t + 1"
  "tab_refresh (clearAuthentication sync p t) = tab_refresh t"
  by (simp_all add: clearAuthentication_def Let_def split: option.split)

lemma on_auth_simps [simp]:
  "tab_auth (on_auth f t) = f (tab_auth t)" "tab_epoch (on_auth f t) = tab_epoch t"
  "tab_refresh (on_auth f t) = tab_refresh t" "tab_published (on_auth f t) = tab_published t"
  by (simp_all add: on_auth_def)

interpretation tab_rt: refresh_contract "refresh_runtime e" tab_auth "\<lambda>t. tab_epoch t = e" for e
  by unfold_locales (auto simp: refresh_runtime_def refresh_clear_def parseBundle_ok)

lemma set_phase_simps [simp]:
  "tab_auth (set_phase e r) = tab_auth (snd r)" "tab_epoch (set_phase e r) = tab_epoch (snd r)"
  "tab_refresh (set_phase e r) = Some (e, fst r)" "tab_published (set_phase e r) = tab_published (snd r)"
  by (simp_all add: set_phase_def)

lemma begin_snd [simp]: "snd (run_begin rt r m s) = s"
  by (simp add: run_begin_def)

section \<open>The invariant of the tab\<close>

definition tab_ok :: "tab \<Rightarrow> bool" where
  "tab_ok t \<longleftrightarrow> (case tab_refresh t of None \<Rightarrow> True | Some (e, p) \<Rightarrow> e \<le> tab_epoch t \<and> phase_ok p)"

lemma epoch_response: "tab_epoch (snd (run_response (refresh_runtime e) r m response t)) \<ge> tab_epoch t"
  by (auto simp: run_response_def run_refused_def run_begin_def refresh_runtime_def refresh_clear_def Let_def
      split: option.splits)

lemma refresh_ok:
  assumes "tab_ok t" shows "tab_ok (refreshAuthentication locks t)"
  using assms begin_phase [of 0 "refresh_runtime (tab_epoch t)" True t]
  by (auto simp: tab_ok_def refreshAuthentication_def split: option.splits)

lemma rotation_ok:
  assumes "applyAuthRotation v t = Inr t'"
  shows "\<exists>b u s. t' = applyAuthBundle b False t \<and> bundle_ok b \<and> au_user (tab_auth t) = Some u \<and> ab_user b = u \<and>
    au_session (tab_auth t) = Some s \<and> ls_sid (ab_session b) = ls_sid s \<and> ab_token_type b = ''Bearer''"
  using assms
  by (auto simp: applyAuthRotation_def bundle_ok_def isAuthTokenRotation_def hasValidTokenFields_def isLoginSession_def
      session_of_def str_of_def split: if_splits option.splits)

lemma step_ok:
  assumes "tab_step locks a t t'" "tab_ok t"
  shows "tab_ok t'"
  using assms
proof (induction rule: tab_step.induct)
  case (s_response t e r m sid response)
  let ?r = "run_response (refresh_runtime e) r m response t"
  have "r \<le> 3" using s_response by (simp add: tab_ok_def)
  then have "phase_ok (fst ?r)" using response_phase [of r "refresh_runtime e" m response t] by simp
  then show ?case using s_response epoch_response [of t e r m response] by (auto simp: tab_ok_def)
next
  case (s_bootstrap now t)
  then show ?case using refresh_ok [of "on_auth (setBootstrapState BChecking) t" locks]
    by (auto simp: bootstrapAuthentication_def tab_ok_def Let_def split: option.splits)
next
  case (s_rotate v t t')
  then show ?case using rotation_ok [OF s_rotate(1)] by (auto simp: tab_ok_def split: option.splits)
next
  case (s_acquire t e)
  then show ?case using begin_phase [of 0 "refresh_runtime e" True t] by (auto simp: tab_ok_def)
next
  case (s_timer t e r m delay)
  then show ?case using begin_phase [of "r + 1" "refresh_runtime e" m t] by (auto simp: tab_ok_def)
qed (auto simp: tab_ok_def refresh_ok clearAuthenticatedClientState_def refresh_ok [unfolded tab_ok_def] split: option.splits)

lemma run_ok: "tab_run locks t as t' \<Longrightarrow> tab_ok t \<Longrightarrow> tab_ok t'"
  by (induction rule: tab_run.induct) (auto dest: step_ok)

lemma init_ok: "tab_ok tab_init"
  by (simp add: tab_ok_def tab_init_def)

section \<open>What is stored\<close>

definition holds_bundle :: "auth_bundle \<Rightarrow> auth_state \<Rightarrow> bool" where
  "holds_bundle b a \<longleftrightarrow> au_accessToken a = Some (ab_access_token b) \<and> au_accessExpiresAt a = Some (ab_access_expires_at b) \<and>
     au_session a = Some (ab_session b)"

text \<open>The store is usable, or holds what one of the given actions applied without validation.\<close>

definition store_ok :: "action set \<Rightarrow> auth_state \<Rightarrow> bool" where
  "store_ok as a \<longleftrightarrow> auth_ok a \<or> (\<exists>b. AVerified b \<in> as \<and> \<not> bundle_ok b \<and> holds_bundle b a)"

lemma holds_bundle_ops [simp]:
  "holds_bundle b (setBundle b a)"
  "holds_bundle b (setUser u a) \<longleftrightarrow> holds_bundle b a"
  "holds_bundle b (setPending2FAFlowToken f a) \<longleftrightarrow> holds_bundle b a"
  "holds_bundle b (setBootstrapState p a) \<longleftrightarrow> holds_bundle b a"
  by (simp_all add: holds_bundle_def setBundle_def setUser_def setPending2FAFlowToken_def setBootstrapState_def)

lemma store_ok_ops [simp]:
  "bundle_ok b \<Longrightarrow> store_ok as (setBundle b a)"
  "AVerified b \<in> as \<Longrightarrow> store_ok as (setBundle b a)"
  "store_ok as (reset_auth p a)"
  "store_ok as (setUser u a) \<longleftrightarrow> store_ok as a"
  "store_ok as (setPending2FAFlowToken f a) \<longleftrightarrow> store_ok as a"
  "store_ok as (setBootstrapState p a) \<longleftrightarrow> store_ok as a"
  using auth_ok_ops(2) [of b a] holds_bundle_ops(1) [of b a] by (auto simp: store_ok_def)

lemma phase_store_ok: "\<lbrakk> tab_rt.phase_store p a a'; store_ok as a \<rbrakk> \<Longrightarrow> store_ok as a'"
  by (auto simp: tab_rt.phase_store_def split: phase.splits outcome.splits refresh_error.splits)

lemma refresh_stores_nothing: "tab_auth (refreshAuthentication locks t) = tab_auth t"
  by (simp add: refreshAuthentication_def split: option.splits)

lemma step_store:
  assumes "tab_step locks a t t'" "a \<in> as" "store_ok as (tab_auth t)"
  shows "store_ok as (tab_auth t')"
  using assms
proof (induction rule: tab_step.induct)
  case (s_response t e r m sid response)
  have "tab_rt.phase_store (fst (run_response (refresh_runtime e) r m response t)) (tab_auth t)
      (tab_auth (snd (run_response (refresh_runtime e) r m response t)))"
    by (rule tab_rt.response_store) simp
  then show ?case using s_response phase_store_ok by auto
next
  case (s_rotate v t t')
  then show ?case using rotation_ok [OF s_rotate(1)] by auto
next
  case (s_bootstrap now t)
  then show ?case by (auto simp: bootstrapAuthentication_def Let_def refresh_stores_nothing split: option.splits)
qed (auto simp: clearAuthenticatedClientState_def refresh_stores_nothing dest: parseBundle_ok)

lemma run_store: "tab_run locks t as t' \<Longrightarrow> set as \<subseteq> bs \<Longrightarrow> store_ok bs (tab_auth t) \<Longrightarrow> store_ok bs (tab_auth t')"
  by (induction rule: tab_run.induct) (auto dest: step_store)

lemma init_store: "store_ok as (tab_auth tab_init)"
  by (simp add: store_ok_def tab_init_def auth_ok_ops(1))

section \<open>A stale refresh is harmless\<close>

text \<open>The actions the refresh in flight takes by itself.\<close>

definition refresh_action :: "action \<Rightarrow> bool" where
  "refresh_action a \<longleftrightarrow> (case a of AAcquire \<Rightarrow> True | ALockRejected \<Rightarrow> True | AResponse _ \<Rightarrow> True | ATimer \<Rightarrow> True
     | ASettle \<Rightarrow> True | _ \<Rightarrow> False)"

definition stale :: "tab \<Rightarrow> bool" where
  "stale t \<longleftrightarrow> (case tab_refresh t of None \<Rightarrow> True | Some (e, _) \<Rightarrow> e < tab_epoch t)"

lemma stale_step:
  assumes "tab_step locks a t t'" "refresh_action a" "stale t"
  shows "tab_auth t' = tab_auth t \<and> tab_epoch t' = tab_epoch t \<and> tab_published t' = tab_published t \<and> stale t'"
  using assms
  by (induction rule: tab_step.induct)
     (auto simp: refresh_action_def stale_def tab_rt.superseded_begin tab_rt.superseded_response)

lemma stale_run:
  "\<lbrakk> tab_run locks t as t'; list_all refresh_action as; stale t \<rbrakk> \<Longrightarrow>
     tab_auth t' = tab_auth t \<and> tab_published t' = tab_published t"
proof (induction rule: tab_run.induct)
  case (run_cons a t t1 as t2)
  then show ?case using stale_step [OF run_cons.hyps(1)] by auto
qed simp

lemma ok_bumped_stale: "tab_ok t \<Longrightarrow> tab_refresh t' = tab_refresh t \<Longrightarrow> tab_epoch t < tab_epoch t' \<Longrightarrow> stale t'"
  by (auto simp: stale_def tab_ok_def split: option.splits)

section \<open>Counting answers\<close>

definition starts_refresh :: "action \<Rightarrow> bool" where
  "starts_refresh a \<longleftrightarrow> (case a of ARefresh \<Rightarrow> True | ABootstrap _ \<Rightarrow> True | _ \<Rightarrow> False)"

definition is_response :: "action \<Rightarrow> bool" where
  "is_response a \<longleftrightarrow> (case a of AResponse _ \<Rightarrow> True | _ \<Rightarrow> False)"

definition remaining :: "tab \<Rightarrow> nat" where
  "remaining t = (case tab_refresh t of None \<Rightarrow> 0 | Some (_, p) \<Rightarrow> budget p)"

lemma step_remaining:
  assumes "tab_step locks a t t'" "\<not> starts_refresh a" "tab_ok t"
  shows "remaining t' + (if is_response a then 1 else 0) \<le> remaining t"
  using assms
proof (induction rule: tab_step.induct)
  case (s_response t e r m sid response)
  have "r \<le> 3" using s_response by (simp add: tab_ok_def)
  from response_phase [OF this, of "refresh_runtime e" m response t] s_response show ?case
    by (auto simp: remaining_def is_response_def)
next
  case (s_acquire t e)
  then show ?case using begin_phase [of 0 "refresh_runtime e" True t] by (auto simp: remaining_def is_response_def)
next
  case (s_timer t e r m delay)
  then have "r < 3" by (simp add: tab_ok_def)
  then show ?case using begin_phase [of "r + 1" "refresh_runtime e" m t] s_timer
    by (auto simp: remaining_def is_response_def)
next
  case (s_rotate v t t')
  then show ?case using rotation_ok [OF s_rotate(1)] by (auto simp: remaining_def is_response_def)
qed (auto simp: remaining_def is_response_def starts_refresh_def clearAuthenticatedClientState_def)

lemma run_remaining:
  "\<lbrakk> tab_run locks t as t'; list_all (\<lambda>a. \<not> starts_refresh a) as; tab_ok t \<rbrakk> \<Longrightarrow>
     remaining t' + length (filter is_response as) \<le> remaining t"
proof (induction rule: tab_run.induct)
  case (run_cons a t t1 as t2)
  have "tab_ok t1" using step_ok run_cons by auto
  then show ?case using run_cons step_remaining [OF run_cons.hyps(1)] by (auto split: if_splits)
qed simp

section \<open>A refresh comes to an end\<close>

text \<open>Left to itself, with an answer to every request, a refresh settles.\<close>

fun weight :: "phase \<Rightarrow> nat" where
  "weight (PDone _) = 1"
| "weight (PWaiting r m d) = 2 * budget (PWaiting r m d) + 1"
| "weight p = 2 * budget p + (if p = PLocked then 1 else 0)"

fun responses :: "action list \<Rightarrow> refresh_response list" where
  "responses [] = []"
| "responses (AResponse r # as) = r # responses as"
| "responses (a # as) = responses as"

definition settles :: "bool \<Rightarrow> tab \<Rightarrow> refresh_response list \<Rightarrow> bool" where
  "settles locks t rs \<longleftrightarrow> (\<exists>as t' n. tab_run locks t as t' \<and> list_all refresh_action as \<and>
     responses as = take n rs \<and> tab_refresh t' = None)"

lemma settles_step:
  assumes "tab_step locks a t t1" "settles locks t1 rs" "refresh_action a" "\<not> is_response a"
  shows "settles locks t rs"
proof -
  from assms(2) obtain as t' n where run: "tab_run locks t1 as t'" "list_all refresh_action as"
    "responses as = take n rs" "tab_refresh t' = None" unfolding settles_def by blast
  have "responses (a # as) = responses as" using assms(4) by (cases a) (auto simp: is_response_def)
  then show ?thesis unfolding settles_def
    by (intro exI [of _ "a # as"] exI [of _ t'] exI [of _ n]) (use run assms run_cons in auto)
qed

lemma settles_response:
  assumes "tab_step locks (AResponse r) t t1" "settles locks t1 rs"
  shows "settles locks t (r # rs)"
proof -
  from assms(2) obtain as t' n where run: "tab_run locks t1 as t'" "list_all refresh_action as"
    "responses as = take n rs" "tab_refresh t' = None" unfolding settles_def by blast
  then show ?thesis unfolding settles_def
    by (intro exI [of _ "AResponse r # as"] exI [of _ t'] exI [of _ "Suc n"])
       (use assms run_cons in \<open>auto simp: refresh_action_def\<close>)
qed

lemma begin_weight:
  assumes "r \<le> 3"
  shows "weight (fst (run_begin rt r m s)) \<le> 2 * ((4 - r) + (if m then 4 else 0))"
  using assms by (auto simp: run_begin_def)

lemma response_weight:
  assumes "r \<le> 3"
  shows "weight (fst (run_response rt r m response s)) < weight (PRequesting r m sid)"
proof -
  have "weight p < 2 * k" if "budget p < k" "phase_ok p" for p k
    using that by (cases p) auto
  with response_phase [OF assms, of rt m response s] show ?thesis by force
qed

lemma refresh_settles:
  assumes "tab_ok t" "tab_refresh t = Some (e, p)" "budget p \<le> length rs"
  shows "settles locks t rs"
  using assms
proof (induction "weight p" arbitrary: t e p rs rule: less_induct)
  case less
  have next_ok: "tab_step locks a t t1 \<Longrightarrow> tab_ok t1" for a t1 using step_ok less.prems(1) by blast
  show ?case
  proof (cases p)
    case PLocked
    with less.prems have step: "tab_step locks AAcquire t (set_phase e (run_begin (refresh_runtime e) 0 True t))"
      by (auto intro: s_acquire)
    have "settles locks (set_phase e (run_begin (refresh_runtime e) 0 True t)) rs"
      using less.hyps [OF _ next_ok [OF step], of "fst (run_begin (refresh_runtime e) 0 True t)" e rs]
        begin_weight [of 0 "refresh_runtime e" True t]
        begin_phase [of 0 "refresh_runtime e" True t] less.prems PLocked by auto
    with step show ?thesis by (rule settles_step) (simp_all add: refresh_action_def is_response_def)
  next
    case (PRequesting r m sid)
    have r: "r \<le> 3" using less.prems PRequesting by (simp add: tab_ok_def)
    then obtain x rs' where rs: "rs = x # rs'" using less.prems PRequesting by (cases rs) auto
    let ?t1 = "set_phase e (run_response (refresh_runtime e) r m x t)"
    have step: "tab_step locks (AResponse x) t ?t1" using less.prems PRequesting by (auto intro: s_response)
    have "settles locks ?t1 rs'"
      using less.hyps [OF _ next_ok [OF step], of "fst (run_response (refresh_runtime e) r m x t)" e rs']
        response_weight [OF r, of "refresh_runtime e" m x t sid] response_phase [OF r, of "refresh_runtime e" m x t] less.prems PRequesting rs
      by auto
    with step rs show ?thesis by (simp add: settles_response)
  next
    case (PWaiting r m d)
    have r: "r + 1 \<le> 3" using less.prems PWaiting by (simp add: tab_ok_def)
    have step: "tab_step locks ATimer t (set_phase e (run_begin (refresh_runtime e) (r + 1) m t))"
      using less.prems(2) unfolding PWaiting by (rule s_timer)
    have "settles locks (set_phase e (run_begin (refresh_runtime e) (r + 1) m t)) rs"
      using less.hyps [OF _ next_ok [OF step], of "fst (run_begin (refresh_runtime e) (r + 1) m t)" e rs]
        begin_weight [OF r, of "refresh_runtime e" m t]
        begin_phase [OF r, of "refresh_runtime e" m t] less.prems PWaiting by auto
    with step show ?thesis by (rule settles_step) (simp_all add: refresh_action_def is_response_def)
  next
    case (PDone result)
    with less.prems have step: "tab_step locks ASettle t (t\<lparr>tab_refresh := None\<rparr>)" by (auto intro: s_settle)
    have "settles locks (t\<lparr>tab_refresh := None\<rparr>) rs" unfolding settles_def
      by (intro exI [of _ "[]"] exI [of _ "t\<lparr>tab_refresh := None\<rparr>"] exI [of _ 0]) simp
    with step show ?thesis by (rule settles_step) (simp_all add: refresh_action_def is_response_def)
  qed
qed

end
