(* ===== verification/JS_Json_Text.thy ===== *)
theory JS_Json_Text
  imports JS_Json
begin

text \<open>
  \<open>JSON.stringify\<close> and \<open>JSON.parse\<close> on whole values.  The parser takes fuel, one unit per nested
  call, and every nested call reads a shorter text, so that the length of the text is enough.
\<close>

section \<open>JSON.stringify\<close>

text \<open>A member whose value is \<open>undefined\<close> is left out; in a list \<open>undefined\<close> becomes \<open>null\<close>, as do the
  numbers that are not finite.\<close>

fun json_text :: "jsval \<Rightarrow> string" where
  "json_text JUndefined = ''null''"
| "json_text JNull = ''null''"
| "json_text (JBool b) = (if b then ''true'' else ''false'')"
| "json_text (JNum x) = (if is_finite x then js_num_to_string x else ''null'')"
| "json_text (JStr s) = json_stringify s"
| "json_text (JArr vs) = ''['' @ js_join '','' (map json_text vs) @ '']''"
| "json_text (JObj kvs) =
     ''{'' @ js_join '','' (map (\<lambda>(k, v). json_stringify k @ '':'' @ json_text v) (filter (\<lambda>(k, v). v \<noteq> JUndefined) kvs)) @ ''}''"

section \<open>JSON.parse\<close>

definition json_ws :: "char \<Rightarrow> bool" where
  "json_ws c \<longleftrightarrow> c = CHR '' '' \<or> c = CHR 0x09 \<or> c = CHR 0x0A \<or> c = CHR 0x0D"

definition skip_ws :: "string \<Rightarrow> string" where
  "skip_ws s = dropWhile json_ws s"

text \<open>The grammar of numbers.\<close>

definition json_exponent_ok :: "string \<Rightarrow> bool" where
  "json_exponent_ok s \<longleftrightarrow>
     (case s of
        [] \<Rightarrow> True
      | c # t \<Rightarrow> (c = CHR ''e'' \<or> c = CHR ''E'') \<and>
          (let ds = (case t of d # u \<Rightarrow> if d = CHR ''+'' \<or> d = CHR ''-'' then u else t | [] \<Rightarrow> [])
           in ds \<noteq> [] \<and> list_all is_digit ds))"

definition json_fraction_ok :: "string \<Rightarrow> bool" where
  "json_fraction_ok s \<longleftrightarrow>
     (case s of
        [] \<Rightarrow> True
      | c # t \<Rightarrow>
          if c = CHR ''.'' then takeWhile is_digit t \<noteq> [] \<and> json_exponent_ok (dropWhile is_digit t)
          else json_exponent_ok s)"

definition json_number_ok :: "string \<Rightarrow> bool" where
  "json_number_ok s \<longleftrightarrow>
     (let u = (case s of c # t \<Rightarrow> if c = CHR ''-'' then t else s | [] \<Rightarrow> [])
      in case u of
           [] \<Rightarrow> False
         | c # t \<Rightarrow>
             if c = CHR ''0'' then json_fraction_ok t
             else is_digit c \<and> json_fraction_ok (dropWhile is_digit t))"

definition json_num_char :: "char \<Rightarrow> bool" where
  "json_num_char c \<longleftrightarrow> is_digit c \<or> c \<in> {CHR ''+'', CHR ''-'', CHR ''.'', CHR ''e'', CHR ''E''}"

definition json_number :: "string \<Rightarrow> (jsval \<times> string) option" where
  "json_number s =
     (let w = takeWhile json_num_char s
      in if json_number_ok w then Some (JNum (js_number w), dropWhile json_num_char s) else None)"

fun strip_lit :: "string \<Rightarrow> string \<Rightarrow> string option" where
  "strip_lit [] s = Some s"
| "strip_lit (p # ps) [] = None"
| "strip_lit (p # ps) (x # s) = (if p = x then strip_lit ps s else None)"

definition json_scalar :: "string \<Rightarrow> (jsval \<times> string) option" where
  "json_scalar s =
     (case s of
        [] \<Rightarrow> None
      | c # t \<Rightarrow>
          if c = dquote then map_option (\<lambda>(w, r). (JStr w, r)) (json_chars t)
          else case strip_lit ''true'' s of Some r \<Rightarrow> Some (JBool True, r)
          | None \<Rightarrow>
            (case strip_lit ''false'' s of Some r \<Rightarrow> Some (JBool False, r)
             | None \<Rightarrow> (case strip_lit ''null'' s of Some r \<Rightarrow> Some (JNull, r) | None \<Rightarrow> json_number s)))"

text \<open>\<open>json_elems\<close> and \<open>json_members\<close> read the rest of a list or an object after its first bracket, or
  after a comma; a repeated key takes the last value.\<close>

fun json_value :: "nat \<Rightarrow> string \<Rightarrow> (jsval \<times> string) option"
  and json_elems :: "nat \<Rightarrow> jsval list \<Rightarrow> string \<Rightarrow> (jsval \<times> string) option"
  and json_members :: "nat \<Rightarrow> (string \<times> jsval) list \<Rightarrow> string \<Rightarrow> (jsval \<times> string) option" where
  "json_value 0 s = None"
| "json_value (Suc n) s =
     (case skip_ws s of
        [] \<Rightarrow> None
      | c # t \<Rightarrow>
          if c = CHR ''['' then
            (case skip_ws t of
               [] \<Rightarrow> None
             | d # u \<Rightarrow> if d = CHR '']'' then Some (JArr [], u) else json_elems n [] (d # u))
          else if c = CHR ''{'' then
            (case skip_ws t of
               [] \<Rightarrow> None
             | d # u \<Rightarrow> if d = CHR ''}'' then Some (JObj [], u) else json_members n [] (d # u))
          else json_scalar (c # t))"
| "json_elems 0 acc s = None"
| "json_elems (Suc n) acc s =
     (case json_value n s of
        None \<Rightarrow> None
      | Some (v, r) \<Rightarrow>
          (case skip_ws r of
             [] \<Rightarrow> None
           | d # u \<Rightarrow>
               if d = CHR '','' then json_elems n (acc @ [v]) u
               else if d = CHR '']'' then Some (JArr (acc @ [v]), u) else None))"
| "json_members 0 acc s = None"
| "json_members (Suc n) acc s =
     (case skip_ws s of
        [] \<Rightarrow> None
      | c # t \<Rightarrow>
          if c \<noteq> dquote then None
          else case json_chars t of
              None \<Rightarrow> None
            | Some (k, r) \<Rightarrow>
                (case skip_ws r of
                   [] \<Rightarrow> None
                 | d # u \<Rightarrow>
                     if d \<noteq> CHR '':'' then None
                     else case json_value n u of
                         None \<Rightarrow> None
                       | Some (v, r') \<Rightarrow>
                           (case skip_ws r' of
                              [] \<Rightarrow> None
                            | e # w \<Rightarrow>
                                if e = CHR '','' then json_members n (obj_set k v acc) w
                                else if e = CHR ''}'' then Some (JObj (obj_set k v acc), w) else None)))"

definition json_parse :: "string \<Rightarrow> jsval option" where
  "json_parse s =
     (case json_value (2 * length s + 2) s of
        Some (v, r) \<Rightarrow> if skip_ws r = [] then Some v else None
      | None \<Rightarrow> None)"

section \<open>Object.keys, Object.entries\<close>

text \<open>\<open>String(v)\<close>.\<close>

fun js_string :: "jsval \<Rightarrow> string" where
  "js_string JUndefined = ''undefined''"
| "js_string JNull = ''null''"
| "js_string (JBool b) = (if b then ''true'' else ''false'')"
| "js_string (JNum x) = js_num_to_string x"
| "js_string (JStr s) = s"
| "js_string (JArr vs) = js_join '','' (map (\<lambda>v. if v = JUndefined \<or> v = JNull then [] else js_string v) vs)"
| "js_string (JObj kvs) = ''[object Object]''"

text \<open>\<open>Number(v)\<close>.\<close>

definition js_to_number :: "jsval \<Rightarrow> jsnum" where
  "js_to_number v =
     (case v of JUndefined \<Rightarrow> NaN | JNull \<Rightarrow> Fin 0 | JBool b \<Rightarrow> Fin (if b then 1 else 0) | JNum x \<Rightarrow> x | JStr s \<Rightarrow> js_number s
      | JArr vs \<Rightarrow> js_number (js_string v) | JObj kvs \<Rightarrow> NaN)"

text \<open>The keys that are array indices come first, in the order of their values, then the others as they were
  inserted.\<close>

definition is_index_key :: "string \<Rightarrow> bool" where
  "is_index_key k \<longleftrightarrow> k \<noteq> [] \<and> list_all is_digit k \<and> (k = ''0'' \<or> hd k \<noteq> CHR ''0'') \<and> dec_value 0 k < 4294967295"

definition js_entries :: "(string \<times> 'v) list \<Rightarrow> (string \<times> 'v) list" where
  "js_entries kvs = sort_key (\<lambda>kv. dec_value 0 (fst kv)) (filter (\<lambda>kv. is_index_key (fst kv)) kvs) @
     filter (\<lambda>kv. \<not> is_index_key (fst kv)) kvs"

lemma set_js_entries [simp]: "set (js_entries kvs) = set kvs"
  by (auto simp: js_entries_def)

lemma distinct_js_entries: "distinct (map fst kvs) \<Longrightarrow> distinct (map fst (js_entries kvs))"
  by (auto simp: js_entries_def distinct_map inj_on_def)

lemma sort_key_sorted: "sorted (map f xs) \<Longrightarrow> sort_key f xs = xs"
  by (induction xs) (auto simp: insort_is_Cons)

section \<open>Reading back what was written\<close>

text \<open>Values that JSON carries: no \<open>undefined\<close>, distinct keys, numbers whose text reads back.\<close>

definition json_num_ok :: "jsnum \<Rightarrow> bool" where
  "json_num_ok x \<longleftrightarrow> is_finite x \<and> list_all json_num_char (js_num_to_string x) \<and>
     json_number_ok (js_num_to_string x) \<and> js_number (js_num_to_string x) = x"

fun json_ok :: "jsval \<Rightarrow> bool" where
  "json_ok JUndefined \<longleftrightarrow> False"
| "json_ok (JNum x) \<longleftrightarrow> json_num_ok x"
| "json_ok (JArr vs) \<longleftrightarrow> list_all json_ok vs"
| "json_ok (JObj kvs) \<longleftrightarrow> distinct (map fst kvs) \<and> list_all (\<lambda>(k, v). json_ok v) kvs"
| "json_ok _ \<longleftrightarrow> True"

text \<open>What may follow a value: the end or a character that is no part of a number.\<close>

definition delimited :: "string \<Rightarrow> bool" where
  "delimited r \<longleftrightarrow> (case r of [] \<Rightarrow> True | c # _ \<Rightarrow> \<not> json_num_char c)"

lemma delimited_simps [simp]:
  "delimited []" "delimited (CHR '','' # r)" "delimited (CHR '']'' # r)" "delimited (CHR ''}'' # r)"
  by (simp_all add: delimited_def json_num_char_def is_digit_def ordc_def)

lemma json_chars_text: "json_stringify s @ r = dquote # concat (map json_escape s) @ dquote # r"
  by (simp add: json_stringify_def)

lemma json_number_text:
  assumes "json_num_ok x" "delimited r"
  shows "json_number (js_num_to_string x @ r) = Some (JNum x, r)"
proof -
  let ?w = "js_num_to_string x"
  from assms(1) have w: "list_all json_num_char ?w" "json_number_ok ?w" "js_number ?w = x"
    by (auto simp: json_num_ok_def)
  have "takeWhile json_num_char (?w @ r) = ?w" "dropWhile json_num_char (?w @ r) = r"
    using w(1) assms(2) by (auto simp: delimited_def list_all_iff takeWhile_append dropWhile_append split: list.splits)
  with w show ?thesis by (simp add: json_number_def)
qed

text \<open>The first character of a text tells the kind of value.\<close>

lemma json_number_head:
  assumes "json_number_ok w"
  obtains c t where "w = c # t" "c = CHR ''-'' \<or> is_digit c"
proof (cases w)
  case (Cons c t)
  with assms have "c = CHR ''-'' \<or> is_digit c"
    by (auto simp: json_number_ok_def Let_def is_digit_def ordc_def split: if_splits list.splits)
  with Cons show ?thesis using that by blast
qed (use assms in \<open>simp add: json_number_ok_def\<close>)

lemma number_head_facts:
  assumes "c = CHR ''-'' \<or> is_digit c"
  shows "\<not> json_ws c" "c \<notin> {dquote, CHR ''['', CHR ''{'', CHR '']'', CHR ''}'', CHR ''t'', CHR ''f'', CHR ''n''}"
  using assms by (auto simp: json_ws_def is_digit_def ordc_def)

lemma json_text_head:
  assumes "json_ok v"
  shows "\<exists>c t. json_text v = c # t \<and> \<not> json_ws c \<and> c \<noteq> CHR '']'' \<and> c \<noteq> CHR ''}''"
proof (cases v)
  case (JNum x)
  with assms obtain c t where "js_num_to_string x = c # t" "c = CHR ''-'' \<or> is_digit c" "is_finite x"
    by (auto simp: json_num_ok_def elim: json_number_head)
  with JNum number_head_facts [of c] show ?thesis by auto
qed (use assms in \<open>auto simp: json_ws_def json_stringify_def\<close>)

lemma skip_ws_text: "json_ok v \<Longrightarrow> skip_ws (json_text v @ r) = json_text v @ r"
  using json_text_head [of v] by (auto simp: skip_ws_def)

lemma skip_ws_simps [simp]:
  "skip_ws (CHR '','' # r) = CHR '','' # r" "skip_ws (CHR '']'' # r) = CHR '']'' # r"
  "skip_ws (CHR ''}'' # r) = CHR ''}'' # r" "skip_ws (CHR ''['' # r) = CHR ''['' # r"
  "skip_ws (CHR ''{'' # r) = CHR ''{'' # r" "skip_ws (CHR '':'' # r) = CHR '':'' # r"
  "skip_ws (dquote # r) = dquote # r" "skip_ws [] = []"
  by (simp_all add: skip_ws_def json_ws_def)

text \<open>Fuel that is enough for a value, a list of values and a list of members.\<close>

fun jneed :: "jsval \<Rightarrow> nat" where
  "jneed (JArr vs) = Suc (sum_list (map (\<lambda>v. Suc (jneed v)) vs))"
| "jneed (JObj kvs) = Suc (sum_list (map (\<lambda>(k, v). Suc (jneed v)) kvs))"
| "jneed _ = 1"

lemma json_scalar_text:
  assumes "json_ok v" "delimited r" "\<And>vs. v \<noteq> JArr vs" "\<And>kvs. v \<noteq> JObj kvs"
  shows "json_value (Suc n) (json_text v @ r) = Some (v, r)"
proof (cases v)
  case (JNum x)
  with assms(1) obtain c t where c: "js_num_to_string x = c # t" "c = CHR ''-'' \<or> is_digit c" "is_finite x"
    by (auto simp: json_num_ok_def elim: json_number_head)
  with JNum assms json_number_text [of x r] number_head_facts [OF c(2)] show ?thesis
    by (auto simp: json_scalar_def skip_ws_def)
next
  case (JStr s)
  then show ?thesis by (simp add: json_chars_text json_scalar_def json_chars_concat)
qed (use assms in \<open>auto simp: json_scalar_def skip_ws_def json_ws_def\<close>)

lemma json_elems_text:
  assumes "\<And>v n r. v \<in> set vs \<Longrightarrow> jneed v \<le> n \<Longrightarrow> delimited r \<Longrightarrow> json_value n (json_text v @ r) = Some (v, r)"
    and "vs \<noteq> []" "sum_list (map (\<lambda>v. Suc (jneed v)) vs) \<le> n"
  shows "json_elems n acc (js_join '','' (map json_text vs) @ CHR '']'' # r) = Some (JArr (acc @ vs), r)"
  using assms
proof (induction vs arbitrary: acc n)
  case (Cons v vs)
  then obtain m where m: "n = Suc m" by (cases n) auto
  show ?case
  proof (cases vs)
    case Nil
    with Cons.prems m show ?thesis by simp
  next
    case (Cons u us)
    have "json_value m (json_text v @ CHR '','' # s) = Some (v, CHR '','' # s)" for s
      using Cons.prems m by simp
    moreover have "json_elems m (acc @ [v]) (js_join '','' (map json_text vs) @ CHR '']'' # r) =
        Some (JArr ((acc @ [v]) @ vs), r)"
      using Cons.prems m Cons by (intro Cons.IH) auto
    ultimately show ?thesis using m Cons by simp
  qed
qed simp

lemma json_members_text:
  assumes "\<And>k v n r. (k, v) \<in> set kvs \<Longrightarrow> jneed v \<le> n \<Longrightarrow> delimited r \<Longrightarrow> json_value n (json_text v @ r) = Some (v, r)"
    and "kvs \<noteq> []" "sum_list (map (\<lambda>(k, v). Suc (jneed v)) kvs) \<le> n" "distinct (map fst (acc @ kvs))"
  shows "json_members n acc (js_join '','' (map (\<lambda>(k, v). json_stringify k @ '':'' @ json_text v) kvs) @ CHR ''}'' # r) =
    Some (JObj (acc @ kvs), r)"
  using assms
proof (induction kvs arbitrary: acc n)
  case (Cons kv kvs)
  obtain k v where kv: "kv = (k, v)" by (cases kv)
  obtain m where m: "n = Suc m" using Cons.prems kv by (cases n) auto
  have v: "json_value m (json_text v @ s) = Some (v, s)" if "delimited s" for s
    using Cons.prems(1) [of k v m s] Cons.prems(3) m kv that by simp
  have new: "obj_set k v acc = acc @ [(k, v)]" using Cons.prems(4) kv by (intro obj_set_new) auto
  have chars: "json_stringify k @ s = dquote # concat (map json_escape k) @ dquote # s" for s
    by (rule json_chars_text)
  show ?case
  proof (cases kvs)
    case Nil
    with v [of "CHR ''}'' # r"] m kv new show ?thesis by (simp add: chars json_chars_concat)
  next
    case (Cons u us)
    have "json_members m (acc @ [(k, v)])
        (js_join '','' (map (\<lambda>(k, v). json_stringify k @ '':'' @ json_text v) kvs) @ CHR ''}'' # r) =
        Some (JObj ((acc @ [(k, v)]) @ kvs), r)"
      using Cons.prems m kv Cons by (intro Cons.IH) auto
    with v m kv new Cons show ?thesis by (simp add: chars json_chars_concat)
  qed
qed simp

lemma json_value_text:
  "\<lbrakk> json_ok v; jneed v \<le> n; delimited r \<rbrakk> \<Longrightarrow> json_value n (json_text v @ r) = Some (v, r)"
proof (induction v arbitrary: n r)
  case (JArr vs)
  then obtain m where m: "n = Suc m" by (cases n) auto
  show ?case
  proof (cases "vs = []")
    case False
    then obtain w ws where vs: "vs = w # ws" by (cases vs) auto
    then obtain c t where c: "json_text w = c # t" "\<not> json_ws c" "c \<noteq> CHR '']''"
      using json_text_head [of w] JArr.prems by auto
    let ?s = "js_join '','' (map json_text vs) @ CHR '']'' # r"
    have s: "\<exists>u. ?s = c # u" using vs c by (cases ws) auto
    then have "json_value n (json_text (JArr vs) @ r) = json_elems m [] ?s"
      using m c by (auto simp: skip_ws_def [of "c # _"])
    also have "\<dots> = Some (JArr ([] @ vs), r)"
      using JArr m False by (intro json_elems_text) (auto simp: list_all_iff)
    finally show ?thesis by simp
  qed (use m in simp)
next
  case (JObj kvs)
  then obtain m where m: "n = Suc m" by (cases n) auto
  have all: "filter (\<lambda>(k, v). v \<noteq> JUndefined) kvs = kvs"
    using JObj.prems by (auto simp: filter_id_conv list_all_iff)
  let ?f = "\<lambda>(k, v). json_stringify k @ '':'' @ json_text v"
  show ?case
  proof (cases "kvs = []")
    case False
    then obtain k w ws where kvs: "kvs = (k, w) # ws" by (cases kvs) auto
    let ?s = "js_join '','' (map ?f kvs) @ CHR ''}'' # r"
    have s: "\<exists>u. ?s = dquote # u" using kvs by (cases ws) (auto simp: json_stringify_def)
    then have "json_value n (json_text (JObj kvs) @ r) = json_members m [] ?s"
      using m all by auto
    also have "\<dots> = Some (JObj ([] @ kvs), r)"
      using JObj m False by (intro json_members_text) (auto simp: list_all_iff)
    finally show ?thesis by simp
  qed (use m in simp)
qed (metis json_scalar_text jneed.simps One_nat_def Suc_le_D jsval.distinct)+

text \<open>Twice the length of the text is enough fuel.\<close>

lemma js_join_length: "xs \<noteq> [] \<Longrightarrow> sum_list (map (\<lambda>x. Suc (length x)) xs) = Suc (length (js_join '','' xs))"
  by (induction "'',''" xs rule: js_join.induct) auto

lemma joined_need:
  assumes "\<And>x. x \<in> set xs \<Longrightarrow> need x \<le> 2 * length (txt x)"
  shows "Suc (sum_list (map (\<lambda>x. Suc (need x)) xs)) \<le> 2 * (2 + length (js_join '','' (map txt xs)))"
proof (cases "xs = []")
  case False
  have "sum_list (map (\<lambda>x. Suc (need x)) xs) \<le> sum_list (map (\<lambda>x. 2 * Suc (length (txt x))) xs)"
    by (rule sum_list_mono) (use assms in fastforce)
  also have "\<dots> = 2 * sum_list (map (\<lambda>x. Suc (length x)) (map txt xs))"
    by (simp only: sum_list_const_mult map_map comp_def)
  finally show ?thesis using js_join_length [of "map txt xs"] False by simp
qed simp

lemma jneed_text: "json_ok v \<Longrightarrow> jneed v \<le> 2 * length (json_text v)"
proof (induction v)
  case (JArr vs)
  then show ?case using joined_need [of vs jneed json_text] by (auto simp: list_all_iff)
next
  case (JObj kvs)
  have all: "filter (\<lambda>(k, v). v \<noteq> JUndefined) kvs = kvs"
    using JObj.prems by (auto simp: filter_id_conv list_all_iff)
  have "jneed (snd kv) \<le> 2 * length ((\<lambda>(k, v). json_stringify k @ '':'' @ json_text v) kv)" if "kv \<in> set kvs" for kv
  proof -
    obtain k v where kv: "kv = (k, v)" by (cases kv)
    then have "jneed v \<le> 2 * length (json_text v)"
      using JObj.IH [of "(k, v)" v] JObj.prems that by (auto simp: list_all_iff)
    with kv show ?thesis by simp
  qed
  from joined_need [of kvs "\<lambda>kv. jneed (snd kv)", OF this] all show ?case
    by (simp add: case_prod_unfold)
next
  case (JNum x)
  then show ?case using json_text_head [of "JNum x"] by auto
qed (auto simp: json_stringify_def)

theorem json_parse_text: "json_ok v \<Longrightarrow> json_parse (json_text v) = Some v"
  using json_value_text [of v "2 * length (json_text v) + 2" "[]"] jneed_text [of v]
  by (simp add: json_parse_def)

end
