(* ===== verification/Auth_Sync.thy ===== *)
theory Auth_Sync
  imports Auth_Facts JS_Json_Text
begin

text \<open>
  Synchronisation of the tabs of one browser (\<open>web/src/lib/auth-session-sync.ts\<close> and the listener in
  \<open>web/src/routes/__root.tsx\<close>).  An event travels as the value a \<open>BroadcastChannel\<close> clones or, in a browser
  without one, as the text of an item of \<open>localStorage\<close>, which the other tabs are told about; the identity of a tab, the
  nonce and the clock are arguments.
\<close>

section \<open>Events\<close>

record sync_event =
  ev_kind :: sync_kind
  ev_sid :: string
  ev_source :: string
  ev_nonce :: string
  ev_timestamp :: jsnum

definition kind_name :: "sync_kind \<Rightarrow> string" where
  "kind_name k = (case k of SyncAuthenticated \<Rightarrow> ''authenticated'' | SyncSignedOut \<Rightarrow> ''signed_out'')"

definition event_value :: "sync_event \<Rightarrow> jsval" where
  "event_value e = JObj [(''kind'', JStr (kind_name (ev_kind e))), (''sid'', JStr (ev_sid e)),
     (''source'', JStr (ev_source e)), (''nonce'', JStr (ev_nonce e)), (''timestamp'', JNum (ev_timestamp e))]"

definition isAuthSessionSyncEvent :: "jsval \<Rightarrow> bool" where
  "isAuthSessionSyncEvent v \<longleftrightarrow> isRecord v \<and>
     (jget v ''kind'' = JStr ''authenticated'' \<or> jget v ''kind'' = JStr ''signed_out'') \<and>
     is_jstr (jget v ''sid'') \<and> str_of (jget v ''sid'') \<noteq> [] \<and> is_jstr (jget v ''source'') \<and>
     is_jstr (jget v ''nonce'') \<and> is_jnum (jget v ''timestamp'')"

definition event_of :: "jsval \<Rightarrow> sync_event" where
  "event_of v = \<lparr>ev_kind = (if jget v ''kind'' = JStr ''authenticated'' then SyncAuthenticated else SyncSignedOut),
     ev_sid = str_of (jget v ''sid''), ev_source = str_of (jget v ''source''), ev_nonce = str_of (jget v ''nonce''),
     ev_timestamp = num_of (jget v ''timestamp'')\<rparr>"

text \<open>What \<open>publishAuthSessionEvent\<close> posts to the channel: nothing for an empty identifier.\<close>

definition publishAuthSessionEvent :: "string \<Rightarrow> string \<Rightarrow> jsnum \<Rightarrow> sync_kind \<Rightarrow> string \<Rightarrow> jsval option" where
  "publishAuthSessionEvent source nonce now kind sid =
     (if sid = [] then None
      else Some (event_value \<lparr>ev_kind = kind, ev_sid = sid, ev_source = source, ev_nonce = nonce,
        ev_timestamp = now\<rparr>))"

text \<open>\<open>deliver\<close>: the event its listener is called with, if it is.\<close>

definition deliver :: "string \<Rightarrow> jsnum \<Rightarrow> jsval \<Rightarrow> sync_event option" where
  "deliver source now v =
     (if isAuthSessionSyncEvent v \<and> str_of (jget v ''source'') \<noteq> source \<and>
         js_lt (js_abs (js_sub now (num_of (jget v ''timestamp'')))) (Fin 60000)
      then Some (event_of v) else None)"

section \<open>Without a broadcast channel\<close>

definition AUTH_SYNC_STORAGE_KEY :: string where
  "AUTH_SYNC_STORAGE_KEY = ''new-api:auth-session:event''"

text \<open>
  The item is written and removed at once: the other tabs see it change to the text and then disappear.  A browser that
  refuses to write raises an exception, which is ignored.
\<close>

definition publish_by_storage :: "(string \<Rightarrow> string \<Rightarrow> bool) \<Rightarrow> jsval option \<Rightarrow> (string \<times> string option) list" where
  "publish_by_storage accepts event =
     (case event of None \<Rightarrow> []
      | Some v \<Rightarrow>
          if accepts AUTH_SYNC_STORAGE_KEY (json_text v)
          then [(AUTH_SYNC_STORAGE_KEY, Some (json_text v)), (AUTH_SYNC_STORAGE_KEY, None)] else [])"

definition handleStorage :: "string \<Rightarrow> jsnum \<Rightarrow> string \<times> string option \<Rightarrow> sync_event option" where
  "handleStorage source now event =
     (if fst event \<noteq> AUTH_SYNC_STORAGE_KEY then None
      else case snd event of
          None \<Rightarrow> None
        | Some newValue \<Rightarrow>
            if newValue = [] then None
            else (case json_parse newValue of None \<Rightarrow> None | Some v \<Rightarrow> deliver source now v))"

section \<open>The page that listens\<close>

text \<open>A page: its tab, the path it shows, the reloads it asked for.\<close>

record page =
  pg_tab :: tab
  pg_path :: string
  pg_reloads :: nat

definition root_event :: "sync_event \<Rightarrow> page \<Rightarrow> page" where
  "root_event event p =
     (let t = pg_tab p; currentSID = current_sid t
      in case ev_kind event of
           SyncAuthenticated \<Rightarrow>
             if currentSID = Some (ev_sid event) then p
             else p\<lparr>pg_tab := (if truthy_str currentSID then clearAuthentication False BComplete t else t),
                    pg_reloads := pg_reloads p + 1\<rparr>
         | SyncSignedOut \<Rightarrow>
             if truthy_str currentSID \<and> currentSID = Some (ev_sid event)
             then p\<lparr>pg_tab := clearAuthenticatedClientState False t, pg_path := ''/sign-in''\<rparr>
             else p)"

definition receive :: "string \<Rightarrow> jsnum \<Rightarrow> jsval \<Rightarrow> page \<Rightarrow> page" where
  "receive source now v p = (case deliver source now v of None \<Rightarrow> p | Some event \<Rightarrow> root_event event p)"

text \<open>The subscription to the store that drops cached answers when the session changes.\<close>

definition root_store_changed :: "tab \<Rightarrow> tab \<Rightarrow> tab" where
  "root_store_changed previous t = (if current_sid t \<noteq> current_sid previous then t\<lparr>tab_queries := []\<rparr> else t)"

section \<open>Events arrive as they were sent\<close>

lemma event_value_get [simp]:
  "jget (event_value e) ''kind'' = JStr (kind_name (ev_kind e))" "jget (event_value e) ''sid'' = JStr (ev_sid e)"
  "jget (event_value e) ''source'' = JStr (ev_source e)" "jget (event_value e) ''nonce'' = JStr (ev_nonce e)"
  "jget (event_value e) ''timestamp'' = JNum (ev_timestamp e)" "isRecord (event_value e)"
  by (simp_all add: event_value_def jget_def isRecord_def)

lemma kind_name_simps [simp]:
  "kind_name k = ''authenticated'' \<longleftrightarrow> k = SyncAuthenticated" "kind_name k = ''signed_out'' \<longleftrightarrow> k = SyncSignedOut"
  by (cases k; simp add: kind_name_def)+

lemma event_is_event: "isAuthSessionSyncEvent (event_value e) \<longleftrightarrow> ev_sid e \<noteq> []"
  by (cases "ev_kind e") (auto simp: isAuthSessionSyncEvent_def str_of_def is_jstr_def is_jnum_def)

lemma event_of_value [simp]: "event_of (event_value e) = e"
  by (cases "ev_kind e") (auto simp: event_of_def str_of_def num_of_def)

lemma deliver_published:
  assumes "publishAuthSessionEvent source nonce sent kind sid = Some v"
    and "js_lt (js_abs (js_sub now sent)) (Fin 60000)"
  shows "deliver receiver now v =
    (if source = receiver then None
     else Some \<lparr>ev_kind = kind, ev_sid = sid, ev_source = source, ev_nonce = nonce, ev_timestamp = sent\<rparr>)"
  using assms by (auto simp: publishAuthSessionEvent_def deliver_def event_is_event str_of_def num_of_def split: if_splits)

lemma js_diff_recent:
  assumes "0 \<le> sent" "sent \<le> now" "now < sent + 60000" "now \<le> 2 ^ 53"
  shows "js_lt (js_abs (js_sub (Fin (of_int now)) (Fin (of_int sent)))) (Fin 60000)"
  using assms by (simp add: js_sub_int js_abs_def del: of_int_diff)

text \<open>Through the storage the same event is delivered as through the channel, once.\<close>

lemma event_json_ok: "json_num_ok (ev_timestamp e) \<Longrightarrow> json_ok (event_value e)"
  by (simp add: event_value_def)

lemma storage_delivers_once:
  assumes "json_num_ok sent" "publishAuthSessionEvent source nonce sent kind sid = Some v" "accepts AUTH_SYNC_STORAGE_KEY (json_text v)"
  shows "map (handleStorage receiver now) (publish_by_storage accepts (Some v)) = [deliver receiver now v, None]"
proof -
  obtain e where e: "v = event_value e" "ev_timestamp e = sent" using assms(2) by (auto simp: publishAuthSessionEvent_def split: if_splits)
  then have "json_parse (json_text v) = Some v" using assms(1) by (intro json_parse_text) (simp add: event_json_ok)
  moreover have "json_text v \<noteq> []" using e by (simp add: event_value_def)
  ultimately show ?thesis using assms(3) by (simp add: publish_by_storage_def handleStorage_def)
qed

end
