(* ===== verification/Http_Client.thy ===== *)
theory Http_Client
  imports Auth_Sync
begin

text \<open>
  The HTTP client (\<open>web/src/lib/http-client.ts\<close>): the sharing of identical requests in flight and the
  interceptors, with the keys of server errors (\<open>web/src/lib/server-error-message.ts\<close>).  A failed request
  waits for a refresh of the session, so its handling is split at that wait, and anything may happen to
  the tab before the refresh settles.
\<close>

section \<open>Keys of server errors\<close>

text \<open>The translation keys, named after their codes.  Reading the table at a name it inherits, such as
  \<open>toString\<close>, gives the inherited value, which is no key.\<close>

datatype message_key =
    AUTH_SESSION_LIMIT | AUTH_SESSION_ISSUANCE_LIMIT | TELEGRAM_BIND_DISABLED | TELEGRAM_BIND_INVALID_REQUEST
  | TELEGRAM_BIND_FLOW_INVALID | TELEGRAM_BIND_SESSION_INVALID | TELEGRAM_BIND_ALREADY_BOUND
  | TELEGRAM_BIND_USER_DELETED | TELEGRAM_BIND_USER_DISABLED | TELEGRAM_BIND_INTERNAL_ERROR
  | Inherited string

definition serverErrorMessageKeys :: "(string \<times> message_key) list" where
  "serverErrorMessageKeys =
     [(''AUTH_SESSION_LIMIT'', AUTH_SESSION_LIMIT), (''AUTH_SESSION_ISSUANCE_LIMIT'', AUTH_SESSION_ISSUANCE_LIMIT),
      (''TELEGRAM_BIND_DISABLED'', TELEGRAM_BIND_DISABLED),
      (''TELEGRAM_BIND_INVALID_REQUEST'', TELEGRAM_BIND_INVALID_REQUEST),
      (''TELEGRAM_BIND_FLOW_INVALID'', TELEGRAM_BIND_FLOW_INVALID),
      (''TELEGRAM_BIND_SESSION_INVALID'', TELEGRAM_BIND_SESSION_INVALID),
      (''TELEGRAM_BIND_ALREADY_BOUND'', TELEGRAM_BIND_ALREADY_BOUND),
      (''TELEGRAM_BIND_USER_DELETED'', TELEGRAM_BIND_USER_DELETED),
      (''TELEGRAM_BIND_USER_DISABLED'', TELEGRAM_BIND_USER_DISABLED),
      (''TELEGRAM_BIND_INTERNAL_ERROR'', TELEGRAM_BIND_INTERNAL_ERROR)]"

definition object_prototype_names :: "string list" where
  "object_prototype_names =
     [''constructor'', ''__defineGetter__'', ''__defineSetter__'', ''hasOwnProperty'', ''__lookupGetter__'',
      ''__lookupSetter__'', ''isPrototypeOf'', ''propertyIsEnumerable'', ''toString'', ''valueOf'', ''__proto__'',
      ''toLocaleString'']"

definition serverErrorPayload :: "jsval \<Rightarrow> jsval option" where
  "serverErrorPayload v =
     (if \<not> isRecord v then None
      else let response = jget v ''response''
           in if isRecord response \<and> isRecord (jget response ''data'') then Some (jget response ''data'') else Some v)"

definition getServerErrorMessageKey :: "jsval \<Rightarrow> message_key option" where
  "getServerErrorMessageKey v =
     (case serverErrorPayload v of
        None \<Rightarrow> None
      | Some payload \<Rightarrow>
          (case jget payload ''code'' of
             JStr code \<Rightarrow>
               (case map_of serverErrorMessageKeys code of
                  Some key \<Rightarrow> Some key
                | None \<Rightarrow> if code \<in> set object_prototype_names then Some (Inherited code) else None)
           | _ \<Rightarrow> None))"

section \<open>Identical requests in flight\<close>

text \<open>The requests in flight by key (\<open>inFlightGet\<close>), the keys of the requests sent, by number, and those
  that have not settled.\<close>

record get_state =
  gs_inFlight :: "string \<rightharpoonup> nat"
  gs_sent :: "string list"
  gs_open :: "nat set"

definition gs_init :: get_state where
  "gs_init = \<lparr>gs_inFlight = Map.empty, gs_sent = [], gs_open = {}\<rparr>"

definition request_key :: "string option \<Rightarrow> string \<Rightarrow> string option \<Rightarrow> string" where
  "request_key sid url params =
     (if truthy_str sid then the sid else ''anonymous'') @ '':'' @ url @ ''?'' @ coalesce params ''{}''"

definition original_get :: "string \<Rightarrow> get_state \<Rightarrow> nat \<times> get_state" where
  "original_get key g =
     (length (gs_sent g), g\<lparr>gs_sent := gs_sent g @ [key], gs_open := insert (length (gs_sent g)) (gs_open g)\<rparr>)"

text \<open>\<open>api.get\<close>: the number of the request whose promise is returned.  \<open>params\<close> is the text of the
  parameters, if there are any.\<close>

definition api_get :: "bool \<Rightarrow> string option \<Rightarrow> string \<Rightarrow> string option \<Rightarrow> get_state \<Rightarrow> nat \<times> get_state" where
  "api_get disableDuplicate sid url params g =
     (let key = request_key sid url params
      in if disableDuplicate then original_get key g
         else case gs_inFlight g key of
             Some existingRequest \<Rightarrow> (existingRequest, g)
           | None \<Rightarrow> (let (request, g') = original_get key g
                     in (request, g'\<lparr>gs_inFlight := (gs_inFlight g')(key \<mapsto> request)\<rparr>)))"

text \<open>The settling of a request: \<open>finally\<close> removes the key of a shared one.\<close>

definition get_settled :: "bool \<Rightarrow> nat \<Rightarrow> get_state \<Rightarrow> get_state" where
  "get_settled shared i g =
     (if shared then g\<lparr>gs_open := gs_open g - {i}, gs_inFlight := (gs_inFlight g)(gs_sent g ! i := None)\<rparr>
      else g\<lparr>gs_open := gs_open g - {i}\<rparr>)"

inductive get_reach :: "nat set \<Rightarrow> get_state \<Rightarrow> bool" where
  get_start: "get_reach {} gs_init"
| get_shared: "get_reach s g \<Longrightarrow> api_get False sid url params g = (i, g') \<Longrightarrow> get_reach (insert i s) g'"
| get_single: "get_reach s g \<Longrightarrow> api_get True sid url params g = (i, g') \<Longrightarrow> get_reach s g'"
| get_settle: "get_reach s g \<Longrightarrow> i \<in> gs_open g \<Longrightarrow> get_reach s (get_settled (i \<in> s) i g)"

section \<open>Interceptors\<close>

record request_config =
  rc_skipBusinessError :: bool
  rc_skipErrorHandler :: bool
  rc_skipAuthRefresh :: bool
  rc_authRetry :: bool
  rc_acceptAuthRotation :: bool
  rc_headers :: headers

datatype toast = ToastKey message_key | ToastMessage jsval | ToastRequestFailed | ToastSessionExpired

record client = page +
  cl_toasts :: "toast list"

definition add_toast :: "toast \<Rightarrow> client \<Rightarrow> client" where
  "add_toast x c = c\<lparr>cl_toasts := cl_toasts c @ [x]\<rparr>"

definition toast_unless :: "bool \<Rightarrow> toast \<Rightarrow> client \<Rightarrow> client" where
  "toast_unless skip x c = (if skip then c else add_toast x c)"

definition redirectToSignIn :: "client \<Rightarrow> client" where
  "redirectToSignIn c = (if pg_path c \<noteq> ''/sign-in'' then c\<lparr>pg_path := ''/sign-in''\<rparr> else c)"

definition message_toast :: "message_key option \<Rightarrow> jsval list \<Rightarrow> toast" where
  "message_toast key messages =
     (case key of
        Some k \<Rightarrow> ToastKey k
      | None \<Rightarrow> (case find jtruthy messages of Some m \<Rightarrow> ToastMessage m | None \<Rightarrow> ToastRequestFailed))"

text \<open>The interceptor of successful answers.\<close>

definition on_response :: "request_config \<Rightarrow> jsval \<Rightarrow> client \<Rightarrow> client exn" where
  "on_response config data c =
     bind_exn
       (if rc_acceptAuthRotation config \<and> jget data ''success'' = JBool True
        then bind_exn (applyAuthRotation (jget data ''data'') (pg_tab c)) (\<lambda>t. Inr (c\<lparr>pg_tab := t\<rparr>))
        else Inr c)
       (\<lambda>c. Inr
         (if \<not> rc_skipBusinessError config \<and> jget data ''success'' = JBool False
          then add_toast (message_toast (getServerErrorMessageKey data) [jget data ''message'']) c
          else c))"

text \<open>The interceptor of failures up to its wait: it waits for a refresh to send the request again, or
  throws the error.\<close>

datatype failure_step = AwaitRefresh request_config | Throw

definition error_status :: "jsval \<Rightarrow> jsval" where
  "error_status error = jget (jget error ''response'') ''status''"

definition on_error :: "request_config option \<Rightarrow> jsval \<Rightarrow> client \<Rightarrow> failure_step \<times> client" where
  "on_error config error c =
     (let skipErrorHandler = (case config of Some cfg \<Rightarrow> rc_skipErrorHandler cfg | None \<Rightarrow> False)
      in if error_status error = JNum (Fin 401) then
           (case config of
              Some cfg \<Rightarrow>
                if \<not> rc_skipAuthRefresh cfg \<and> \<not> rc_authRetry cfg then (AwaitRefresh (cfg\<lparr>rc_authRetry := True\<rparr>), c)
                else if rc_authRetry cfg then
                  (Throw, redirectToSignIn (toast_unless skipErrorHandler ToastSessionExpired
                     (c\<lparr>pg_tab := clearAuthentication False BComplete (pg_tab c)\<rparr>)))
                else (Throw, toast_unless skipErrorHandler ToastSessionExpired c)
            | None \<Rightarrow> (Throw, toast_unless skipErrorHandler ToastSessionExpired c))
         else
           (Throw, toast_unless skipErrorHandler
              (message_toast (getServerErrorMessageKey error)
                 [jget (jget (jget error ''response'') ''data'') ''message'', jget error ''message'']) c))"

text \<open>After the wait: the configuration to send again, or \<open>None\<close> for the error.\<close>

definition authorize :: "tab \<Rightarrow> headers \<Rightarrow> headers" where
  "authorize t hs =
     (case au_accessToken (tab_auth t) of
        Some token \<Rightarrow> if token = [] then hs else obj_set ''Authorization'' (''Bearer '' @ token) hs
      | None \<Rightarrow> hs)"

definition on_refreshed :: "request_config \<Rightarrow> outcome \<Rightarrow> client \<Rightarrow> request_config option \<times> client" where
  "on_refreshed config result c =
     (case result of
        Authenticated _ \<Rightarrow> (Some (config\<lparr>rc_headers := authorize (pg_tab c) (rc_headers config)\<rparr>), c)
      | TransientError _ \<Rightarrow> (None, c)
      | _ \<Rightarrow> (None, redirectToSignIn (toast_unless (rc_skipErrorHandler config) ToastSessionExpired c)))"

text \<open>The interceptor of requests.\<close>

definition on_request :: "client \<Rightarrow> request_config \<Rightarrow> request_config" where
  "on_request c config = config\<lparr>rc_headers := authorize (pg_tab c) (rc_headers config)\<rparr>"

section \<open>A request and its retry\<close>

text \<open>
  A request from \<open>api.request\<close> on: sent, answered, and sent again after a refresh.  \<open>RSent n\<close> carries
  the number of times it was sent; \<open>other\<close> is whatever else happens on the page meanwhile.
\<close>

datatype request_state = RSent nat request_config | RWaiting nat request_config | RFinished nat

inductive request_step :: "request_state \<times> client \<Rightarrow> request_state \<times> client \<Rightarrow> bool" where
  answered: "on_response cfg data c = Inr c' \<Longrightarrow> request_step (RSent n cfg, c) (RFinished n, c')"
| rejected: "on_response cfg data c = Inl msg \<Longrightarrow> request_step (RSent n cfg, c) (RFinished n, c)"
| thrown: "on_error (Some cfg) err c = (Throw, c') \<Longrightarrow> request_step (RSent n cfg, c) (RFinished n, c')"
| awaits: "on_error (Some cfg) err c = (AwaitRefresh cfg', c') \<Longrightarrow>
    request_step (RSent n cfg, c) (RWaiting n cfg', c')"
| resent: "on_refreshed cfg result c = (Some cfg', c') \<Longrightarrow>
    request_step (RWaiting n cfg, c) (RSent (n + 1) (on_request c' cfg'), c')"
| gives_up: "on_refreshed cfg result c = (None, c') \<Longrightarrow> request_step (RWaiting n cfg, c) (RFinished n, c')"
| other: "request_step (s, c) (s, c')"

inductive_cases request_stepE: "request_step (s, c) (s', c')"

fun sends :: "request_state \<Rightarrow> nat" where
  "sends (RSent n _) = n"
| "sends (RWaiting n _) = n"
| "sends (RFinished n) = n"

end
