(* ===== verification/Http_Facts.thy ===== *)
theory Http_Facts
  imports Http_Client
begin

text \<open>What the HTTP client guarantees: one open request per key, and at most two sends of a request.\<close>

section \<open>Requests in flight\<close>

text \<open>\<open>s\<close> holds the requests that may be shared.  The map and the open shared requests are the same
  thing.\<close>

definition gs_ok :: "nat set \<Rightarrow> get_state \<Rightarrow> bool" where
  "gs_ok s g \<longleftrightarrow> gs_open g \<subseteq> {..< length (gs_sent g)} \<and> s \<subseteq> {..< length (gs_sent g)} \<and>
     (\<forall>k i. gs_inFlight g k = Some i \<longleftrightarrow> i \<in> s \<inter> gs_open g \<and> gs_sent g ! i = k)"

lemma gs_okD:
  assumes "gs_ok s g"
  shows "gs_open g \<subseteq> {..< length (gs_sent g)}" "s \<subseteq> {..< length (gs_sent g)}"
    "gs_inFlight g k = Some i \<longleftrightarrow> i \<in> s \<inter> gs_open g \<and> gs_sent g ! i = k"
  using assms unfolding gs_ok_def by blast+

lemma gs_ok_single:
  "gs_ok s g \<Longrightarrow> gs_ok s (snd (original_get key g))"
  by (auto simp: gs_ok_def original_get_def nth_append)

lemma gs_ok_shared:
  assumes ok: "gs_ok s g" and fresh: "gs_inFlight g key = None"
  shows "gs_ok (insert (length (gs_sent g)) s)
    (snd (original_get key g)\<lparr>gs_inFlight := (gs_inFlight g)(key \<mapsto> length (gs_sent g))\<rparr>)"
proof -
  have none: "\<not> (i \<in> s \<and> i \<in> gs_open g \<and> gs_sent g ! i = key)" for i
    using gs_okD(3) [OF ok, of key i] fresh by auto
  have lt: "i \<in> s \<Longrightarrow> i < length (gs_sent g)" for i using gs_okD(2) [OF ok] by auto
  have lt': "i \<in> gs_open g \<Longrightarrow> i < length (gs_sent g)" for i using gs_okD(1) [OF ok] by auto
  show ?thesis
    unfolding gs_ok_def using lt lt' none gs_okD(3) [OF ok]
    by (auto simp: original_get_def nth_append less_Suc_eq)
qed

lemma gs_ok_settled:
  assumes ok: "gs_ok s g" and "i \<in> gs_open g" shows "gs_ok s (get_settled (i \<in> s) i g)"
proof -
  have "j = i" if "j \<in> s" "j \<in> gs_open g" "i \<in> s" "i \<in> gs_open g" "gs_sent g ! j = gs_sent g ! i" for j
    using that gs_okD(3) [OF ok, of "gs_sent g ! i" i] gs_okD(3) [OF ok, of "gs_sent g ! i" j] by simp
  then show ?thesis using gs_okD(1,2) [OF ok] gs_okD(3) [OF ok] assms(2)
    unfolding gs_ok_def get_settled_def by auto
qed

lemma get_ok: "get_reach s g \<Longrightarrow> gs_ok s g"
proof (induction rule: get_reach.induct)
  case get_start
  then show ?case by (simp add: gs_ok_def gs_init_def)
next
  case (get_shared s g sid url params i g')
  show ?case
  proof (cases "gs_inFlight g (request_key sid url params)")
    case None
    from gs_ok_shared [OF get_shared.IH this] get_shared.hyps(2) None show ?thesis
      by (auto simp: api_get_def original_get_def Let_def)
  next
    case (Some j)
    with get_shared.hyps(2) have "i = j" "g' = g" by (simp_all add: api_get_def)
    moreover have "j \<in> s" using gs_okD(3) [OF get_shared.IH] Some by auto
    ultimately show ?thesis using get_shared.IH by (simp add: insert_absorb)
  qed
next
  case (get_single s g sid url params i g')
  then show ?case using gs_ok_single [of s g "request_key sid url params"] by (simp add: api_get_def)
next
  case (get_settle s g i)
  then show ?case by (simp add: gs_ok_settled)
qed

lemma takeWhile_colon: "CHR '':'' \<notin> set a \<Longrightarrow> takeWhile (\<lambda>c. c \<noteq> CHR '':'') (a @ CHR '':'' # b) = a"
  by (simp add: takeWhile_append takeWhile_eq_all_conv)

text \<open>The key tells the sessions apart.\<close>

lemma request_key_session:
  assumes "request_key (Some a) url params = request_key (Some b) url' params'"
    and "a \<noteq> []" "b \<noteq> []" "CHR '':'' \<notin> set a" "CHR '':'' \<notin> set b"
  shows "a = b"
proof -
  have "takeWhile (\<lambda>c. c \<noteq> CHR '':'') (request_key (Some a) url params) = a"
    "takeWhile (\<lambda>c. c \<noteq> CHR '':'') (request_key (Some b) url' params') = b"
    using assms(2-) by (simp_all add: request_key_def truthy_str_def takeWhile_colon)
  with assms(1) show ?thesis by simp
qed

section \<open>A request and its retry\<close>

fun request_ok :: "request_state \<Rightarrow> bool" where
  "request_ok (RSent n cfg) \<longleftrightarrow> n \<le> 1 \<or> n = 2 \<and> rc_authRetry cfg"
| "request_ok (RWaiting n cfg) \<longleftrightarrow> n \<le> 1 \<and> rc_authRetry cfg"
| "request_ok (RFinished n) \<longleftrightarrow> n \<le> 2"

lemma on_error_awaits:
  "on_error (Some cfg) err c = (AwaitRefresh cfg', c') \<Longrightarrow> \<not> rc_authRetry cfg \<and> rc_authRetry cfg'"
  by (auto simp: on_error_def Let_def split: if_splits)

lemma on_refreshed_retry: "on_refreshed cfg result c = (Some cfg', c') \<Longrightarrow> rc_authRetry cfg' = rc_authRetry cfg"
  by (auto simp: on_refreshed_def split: outcome.splits)

lemma on_request_retry [simp]: "rc_authRetry (on_request c cfg) = rc_authRetry cfg"
  by (simp add: on_request_def)

lemma request_step_ok:
  assumes "request_step x y" "request_ok (fst x)" shows "request_ok (fst y)"
  using assms by (induction rule: request_step.induct) (auto dest: on_error_awaits on_refreshed_retry)

lemma request_run_ok: "request_step\<^sup>*\<^sup>* x y \<Longrightarrow> request_ok (fst x) \<Longrightarrow> request_ok (fst y)"
  by (induction rule: rtranclp_induct) (auto dest: request_step_ok)

lemma request_ok_sends: "request_ok s \<Longrightarrow> sends s \<le> 2"
  by (cases s) auto

lemma page_ops [simp]:
  "pg_tab (redirectToSignIn c) = pg_tab c" "pg_path (redirectToSignIn c) = ''/sign-in''"
  "pg_tab (toast_unless b x c) = pg_tab c" "pg_path (toast_unless b x c) = pg_path c"
  by (simp_all add: redirectToSignIn_def toast_unless_def add_toast_def)

end
