(* ===== verification/JS_Number_Text.thy ===== *)
theory JS_Number_Text
  imports JS_Json_Text
begin

text \<open>
  The text of a number reads back as the number.  \<open>String(x)\<close> writes the shortest decimal that rounds to \<open>x\<close>, trying up to
  17 digits; 17 digits are enough because the nearest decimal of 17 digits is closer to \<open>x\<close> than the middle between \<open>x\<close> and
  its neighbours.
\<close>

section \<open>Digits\<close>

lemma dec_value_app: "dec_value a (s @ t) = dec_value (dec_value a s) t"
  by (induction s arbitrary: a) auto

lemma dec_value_linear: "dec_value a s = a * 10 ^ length s + dec_value 0 s"
proof (induction s arbitrary: a)
  case (Cons c s)
  have "dec_value a (c # s) = (10 * a + digit_val c) * 10 ^ length s + dec_value 0 s"
    unfolding dec_value.simps by (rule Cons.IH)
  moreover have "dec_value 0 (c # s) = digit_val c * 10 ^ length s + dec_value 0 s"
    using Cons.IH [of "digit_val c"] by simp
  ultimately show ?case by (simp add: algebra_simps)
qed simp

lemma dec_value_zeros: "dec_value a (replicate n (CHR ''0'')) = a * 10 ^ n"
  by (induction n arbitrary: a) (simp_all add: digit_val_def ordc_def)

lemma ordc_digit_char: "0 \<le> d \<Longrightarrow> d < 10 \<Longrightarrow> ordc (digit_char d) = 48 + d"
  by (simp add: digit_char_def ordc_char_of)

lemma show_pos_number_text:
  "0 \<le> n \<Longrightarrow> show_pos n \<noteq> [] \<and> list_all is_digit (show_pos n) \<and> dec_value 0 (show_pos n) = n"
proof (induction n rule: show_pos.induct)
  case (1 n)
  show ?case
  proof (cases "n < 10")
    case True
    with 1 show ?thesis by (simp add: show_pos.simps is_digit_def digit_val_def ordc_digit_char)
  next
    case False
    then have "list_all is_digit (show_pos (n div 10))" "dec_value 0 (show_pos (n div 10)) = n div 10" using 1 by auto
    moreover have "is_digit (digit_char (n mod 10))" "digit_val (digit_char (n mod 10)) = n mod 10"
      using pos_mod_bound [of 10 n] by (simp_all add: is_digit_def digit_val_def ordc_digit_char)
    ultimately show ?thesis using False by (simp add: show_pos.simps [of n] dec_value_app)
  qed
qed

lemma show_pos_head: "0 < n \<Longrightarrow> hd (show_pos n) \<noteq> CHR ''0''"
proof (induction n rule: show_pos.induct)
  case (1 n)
  show ?case
  proof (cases "n < 10")
    case True
    then have "ordc (hd (show_pos n)) = 48 + n" using 1(2) by (simp add: show_pos.simps ordc_digit_char)
    then show ?thesis using 1(2) by (auto simp: ordc_def)
  next
    case False
    moreover have "show_pos (n div 10) \<noteq> []" using 1(2) show_pos_number_text [of "n div 10"] by simp
    ultimately show ?thesis using 1 by (simp add: show_pos.simps [of n])
  qed
qed

lemma show_pos_length: "0 < n \<Longrightarrow> 10 ^ (length (show_pos n) - 1) \<le> n \<and> n < 10 ^ length (show_pos n)"
proof (induction n rule: show_pos.induct)
  case (1 n)
  show ?case
  proof (cases "n < 10")
    case True
    with 1(2) show ?thesis by (simp add: show_pos.simps)
  next
    case False
    let ?L = "length (show_pos (n div 10))"
    have L: "?L > 0" using 1(2) show_pos_number_text [of "n div 10"] by simp
    have IH: "10 ^ (?L - 1) \<le> n div 10" "n div 10 < 10 ^ ?L" using 1 False by auto
    have "(10::int) ^ ?L = 10 * 10 ^ (?L - 1)" using L by (metis Suc_diff_1 power_Suc)
    then have "10 ^ ?L \<le> n" "n < 10 * 10 ^ ?L" using IH by linarith+
    then show ?thesis using False by (simp add: show_pos.simps [of n])
  qed
qed

lemma show_pos_length_eq:
  assumes "0 < k" "10 ^ (k - 1) \<le> n" "n < 10 ^ k"
  shows "length (show_pos n) = k"
proof -
  have "(0::int) < 10 ^ (k - 1)" by simp
  then have "0 < n" using assms(2) by linarith
  then have L: "10 ^ (length (show_pos n) - 1) \<le> n" "n < 10 ^ length (show_pos n)" using show_pos_length by auto
  have "show_pos n \<noteq> []" using \<open>0 < n\<close> show_pos_number_text [of n] by simp
  then have pos: "0 < length (show_pos n)" by simp
  have "(10::int) ^ (length (show_pos n) - 1) < 10 ^ k" "(10::int) ^ (k - 1) < 10 ^ length (show_pos n)"
    using L assms by linarith+
  then show ?thesis using pos assms(1) by (simp add: power_strict_increasing_iff)
qed

section \<open>Powers of ten\<close>

lemma pow10_powi: "pow10 e = 10 powi e"
  by (simp add: pow10_def power_int_def power_one_over)

lemma pow10_pos [simp]: "0 < pow10 e"
  by (simp add: pow10_powi)

lemma pow10_nz [simp]: "pow10 e \<noteq> 0"
  using pow10_pos [of e] by linarith

lemma pow10_add: "pow10 (a + b) = pow10 a * pow10 b"
  by (simp add: pow10_powi power_int_add)

lemma pow10_diff: "pow10 (a - b) = pow10 a / pow10 b"
  by (simp add: pow10_powi power_int_diff)

lemma pow10_nat: "0 \<le> e \<Longrightarrow> pow10 e = of_int (10 ^ nat e)"
  by (simp add: pow10_def)

lemma pow10_of_nat: "pow10 (int n) = of_int (10 ^ n)"
  by (simp add: pow10_nat)

lemma pow10_0 [simp]: "pow10 0 = 1"
  by (simp add: pow10_def)

text \<open>\<open>flog10\<close> is the decimal exponent.\<close>

lemma flog10_bounds:
  assumes "0 < q"
  shows "pow10 (flog10 q) \<le> q" "q < pow10 (flog10 q + 1)"
proof -
  obtain n d where nd: "quotient_of q = (n, d)" by (cases "quotient_of q")
  have d: "0 < d" using quotient_of_denom_pos [OF nd] .
  have q: "q = of_int n / of_int d" using quotient_of_div [OF nd] .
  have n: "0 < n" using assms d q by (simp add: zero_less_divide_iff)
  let ?a = "int (length (show_pos n))" and ?b = "int (length (show_pos d))"
  have len: "pow10 (int (length (show_pos m)) - 1) \<le> of_int m \<and> (of_int m :: rat) < pow10 (int (length (show_pos m)))"
    if m: "0 < m" for m
  proof -
    have L: "10 ^ (length (show_pos m) - 1) \<le> m" "m < 10 ^ length (show_pos m)" using show_pos_length [OF m] by auto
    obtain l where l: "length (show_pos m) = Suc l"
      using show_pos_number_text [OF less_imp_le [OF m]] by (cases "show_pos m") auto
    then have "int (length (show_pos m)) - 1 = int (length (show_pos m) - 1)" by simp
    then show ?thesis using L by (simp only: pow10_of_nat of_int_le_iff of_int_less_iff simp_thms)
  qed
  have a: "pow10 (?a - 1) \<le> of_int n" "of_int n < pow10 ?a" and b: "pow10 (?b - 1) \<le> of_int d" "of_int d < pow10 ?b"
    using len [OF n] len [OF d] by auto
  have lo: "pow10 (?a - ?b - 1) < q"
  proof -
    have "pow10 (?a - ?b - 1) = pow10 (?a - 1) / pow10 ?b" by (simp add: pow10_diff [symmetric] algebra_simps)
    also have "\<dots> < of_int n / of_int d" using a b d by (intro frac_less2) auto
    finally show ?thesis using q by simp
  qed
  have up: "q < pow10 (?a - ?b + 1)"
  proof -
    have "of_int n / of_int d < pow10 ?a / pow10 (?b - 1)" using a b d n by (intro frac_less) auto
    also have "\<dots> = pow10 (?a - ?b + 1)" by (simp add: pow10_diff [symmetric] algebra_simps)
    finally show ?thesis using q by simp
  qed
  show "pow10 (flog10 q) \<le> q" "q < pow10 (flog10 q + 1)" using lo up by (auto simp: flog10_def nd Let_def)
qed

section \<open>Rounding of a near value\<close>

lemma round_half_even_near: "\<bar>y - of_int k\<bar> < 1 / 2 \<Longrightarrow> round_half_even y = k"
proof -
  assume near: "\<bar>y - of_int k\<bar> < 1 / 2"
  consider "\<lfloor>y\<rfloor> = k" | "\<lfloor>y\<rfloor> = k - 1" using near by linarith
  then show ?thesis
  proof cases
    case 1
    then have "y - of_int \<lfloor>y\<rfloor> < 1 / 2" using near by linarith
    then show ?thesis unfolding round_half_even_def Let_def using 1 by (simp only: if_True)
  next
    case 2
    then have "\<not> y - of_int \<lfloor>y\<rfloor> < 1 / 2" "1 / 2 < y - of_int \<lfloor>y\<rfloor>" using near by linarith+
    then show ?thesis unfolding round_half_even_def Let_def using 2 by (simp only: if_True if_False)
  qed
qed

lemma round_half_even_error: "\<bar>of_int (round_half_even y) - y\<bar> \<le> 1 / 2"
  using floor_correct [of y] unfolding round_half_even_def Let_def by (simp split: if_split)

lemma round_half_even_ge: "of_int n \<le> y \<Longrightarrow> n \<le> round_half_even y"
  using le_floor_iff [of n y] unfolding round_half_even_def Let_def by (simp split: if_split)

lemma fl_rounds:
  assumes "0 < x" "u = max (flog2 x - 52) (- 1074)" "q = of_int k * pow2 u" "\<bar>x - q\<bar> < pow2 (u - 1)" "0 < k"
    "flog2 x \<le> 1023" "flog2 x = 1023 \<longrightarrow> k < 2 ^ 53"
  shows "fl x = Fin q"
proof -
  have "\<bar>x / pow2 u - of_int k\<bar> = \<bar>x - q\<bar> / pow2 u"
    using pow2_pos [of u] by (simp add: assms(3) divide_simps abs_div_pos flip: abs_divide)
  also have "\<dots> < pow2 (u - 1) / pow2 u" using assms(4) by (simp add: divide_strict_right_mono)
  also have "\<dots> = 1 / 2" by (simp add: pow2_diff)
  finally have "round_half_even (x / pow2 u) = k" by (rule round_half_even_near)
  then show ?thesis using assms by (auto simp: fl_def Let_def)
qed

text \<open>The integer multiples of the unit in the last place of a number below a power of two stay a unit away from it.\<close>

lemma multiple_below:
  assumes "of_int k * pow2 w < pow2 e" "w \<le> e"
  shows "of_int k * pow2 w \<le> pow2 e - pow2 w"
proof -
  have e: "pow2 e = of_int (2 ^ nat (e - w)) * pow2 w"
    using assms(2) pow2_add [of "e - w" w] by (simp add: pow2_of_nonneg)
  with assms(1) have "(of_int k :: rat) < of_int (2 ^ nat (e - w))" by (simp only: mult_less_cancel_right_pos pow2_pos)
  then have "k \<le> 2 ^ nat (e - w) - 1" by (simp only: of_int_less_iff)
  then have "(of_int k :: rat) \<le> of_int (2 ^ nat (e - w) - 1)" by (simp only: of_int_le_iff)
  then have "of_int k * pow2 w \<le> of_int (2 ^ nat (e - w) - 1) * pow2 w" by (simp only: mult_le_cancel_right_pos pow2_pos)
  also have "\<dots> = pow2 e - pow2 w" by (simp add: e left_diff_distrib)
  finally show ?thesis .
qed

lemma multiple_above:
  assumes "pow2 e < of_int k * pow2 w" "w \<le> e"
  shows "pow2 e + pow2 w \<le> of_int k * pow2 w"
proof -
  have e: "pow2 e = of_int (2 ^ nat (e - w)) * pow2 w"
    using assms(2) pow2_add [of "e - w" w] by (simp add: pow2_of_nonneg)
  with assms(1) have "(of_int (2 ^ nat (e - w)) :: rat) < of_int k" by (simp only: mult_less_cancel_right_pos pow2_pos)
  then have "2 ^ nat (e - w) + 1 \<le> k" by (simp only: of_int_less_iff)
  then have "(of_int (2 ^ nat (e - w) + 1) :: rat) \<le> of_int k" by (simp only: of_int_le_iff)
  then have "of_int (2 ^ nat (e - w) + 1) * pow2 w \<le> of_int k * pow2 w" by (simp only: mult_le_cancel_right_pos pow2_pos)
  moreover have "of_int (2 ^ nat (e - w) + 1) * pow2 w = pow2 e + pow2 w" by (simp add: e distrib_right)
  ultimately show ?thesis by (simp only:)
qed

lemma flog2_eqI: "0 < x \<Longrightarrow> pow2 e \<le> x \<Longrightarrow> x < pow2 (e + 1) \<Longrightarrow> flog2 x = e"
proof -
  assume x: "0 < x" "pow2 e \<le> x" "x < pow2 (e + 1)"
  have "pow2 e < pow2 (flog2 x + 1)" "pow2 (flog2 x) < pow2 (e + 1)" using x flog2_bounds [OF x(1)] by linarith+
  then show ?thesis by simp
qed

text \<open>A value closer to a number than one part in \<open>2\<^sup>5\<^sup>4\<close> rounds to it.\<close>

lemma fl_near:
  assumes rep: "representable q" and q: "0 < q" and x: "0 < x" and near: "\<bar>x - q\<bar> < q / pow2 54"
  shows "fl x = Fin q"
proof -
  let ?e = "flog2 q" and ?w = "max (flog2 q - 52) (- 1074)"
  obtain k where k: "q / pow2 ?w = of_int k" "0 < k" "k < 2 ^ 53"
    using representable_scaled_int [OF rep] q by auto
  have qk: "q = of_int k * pow2 ?w" using k(1) by (simp add: divide_eq_eq)
  have qb: "pow2 ?e \<le> q" "q < pow2 (?e + 1)" using flog2_bounds [OF q] .
  have "pow2 ?w \<le> q" using k(2) by (subst qk) simp
  then have we: "?w \<le> ?e" using qb(2) by (metis (no_types, lifting) less_le_trans not_less pow2_less_iff zless_add1_eq order_le_less_trans zle_add1_eq_le)
  have e1023: "?e \<le> 1023"
    using rep flog2_less [OF q, of 1024] q unfolding representable_def by auto
  have small: "q / pow2 54 < pow2 (?e - 53)"
  proof -
    have "q / pow2 54 < pow2 (?e + 1) / pow2 54" using qb(2) by (simp add: divide_strict_right_mono)
    also have "\<dots> = pow2 (?e - 53)" by (simp flip: pow2_diff)
    finally show ?thesis .
  qed
  have wgap: "pow2 (?e - 53) < pow2 ?w" by simp
  show ?thesis
  proof (cases "x < pow2 (?e + 1)")
    case False
    have "q \<le> pow2 (?e + 1) - pow2 ?w" using multiple_below [of k ?w "?e + 1"] qb(2) we qk by simp
    then have "pow2 ?w \<le> x - q" using False by linarith
    then show ?thesis using near small wgap by linarith
  next
    case below: True
    show ?thesis
    proof (cases "pow2 ?e \<le> x")
      case True
      have ex: "flog2 x = ?e" using flog2_eqI [OF x True below] .
      have "\<bar>x - q\<bar> < pow2 (?w - 1)"
      proof -
        have "pow2 (?e - 53) \<le> pow2 (?w - 1)" by simp
        then show ?thesis using near small by linarith
      qed
      then show ?thesis using x qk k ex e1023 by (intro fl_rounds [of x ?w q k]) auto
    next
      case False
      have "q = pow2 ?e"
      proof (rule ccontr)
        assume "q \<noteq> pow2 ?e"
        then have "pow2 ?e + pow2 ?w \<le> q" using multiple_above [of ?e k ?w] qb(1) we qk by simp
        then have "pow2 ?w \<le> q - x" using False by linarith
        then show False using near small wgap by linarith
      qed
      then have half: "\<bar>x - q\<bar> < pow2 (?e - 54)" using near by (metis pow2_diff)
      have "pow2 (?e - 54) \<le> pow2 (?e - 1)" by simp
      moreover have "pow2 ?e = 2 * pow2 (?e - 1)" by (simp add: pow2_diff)
      ultimately have "pow2 (?e - 1) \<le> x" using half \<open>q = pow2 ?e\<close> by linarith
      then have ex: "flog2 x = ?e - 1" using flog2_eqI [OF x, of "?e - 1"] False by simp
      let ?u = "max (?e - 53) (- 1074)"
      have ue: "?u \<le> ?e" using we by simp
      have qu: "q = of_int (2 ^ nat (?e - ?u)) * pow2 ?u"
        using \<open>q = pow2 ?e\<close> pow2_add [of "?e - ?u" ?u] ue by (simp add: pow2_of_nonneg)
      have "pow2 (?e - 54) \<le> pow2 (?u - 1)" by simp
      then have "\<bar>x - q\<bar> < pow2 (?u - 1)" using half by linarith
      then show ?thesis using x qu ex e1023 by (intro fl_rounds [of x ?u q "2 ^ nat (?e - ?u)"]) auto
    qed
  qed
qed

section \<open>The shortest decimal\<close>

text \<open>The error of a decimal with \<open>k\<close> digits.\<close>

lemma decimal_error: "\<bar>of_int (nearest_int (q / pow10 d)) * pow10 d - q\<bar> \<le> pow10 d / 2"
proof -
  have "\<bar>of_int (nearest_int (q / pow10 d)) - q / pow10 d\<bar> \<le> 1 / 2" unfolding nearest_int_def by (rule round_half_even_error)
  then have "\<bar>of_int (nearest_int (q / pow10 d)) - q / pow10 d\<bar> * pow10 d \<le> 1 / 2 * pow10 d"
    by (rule mult_right_mono) (simp add: less_imp_le)
  moreover have "\<bar>of_int (nearest_int (q / pow10 d)) - q / pow10 d\<bar> * pow10 d = \<bar>of_int (nearest_int (q / pow10 d)) * pow10 d - q\<bar>"
  proof -
    have "(a - q / pow10 d) * pow10 d = a * pow10 d - q" for a using pow10_pos [of d] by (simp add: left_diff_distrib)
    then show ?thesis by (metis abs_mult abs_of_pos pow10_pos)
  qed
  ultimately show ?thesis by simp
qed

lemma seventeen_digits:
  assumes "representable q" "0 < q" "pow10 (n - 1) \<le> q"
  shows "fl (of_int (nearest_int (q / pow10 (n - 17))) * pow10 (n - 17)) = Fin q"
proof -
  let ?d = "n - 17"
  let ?x = "of_int (nearest_int (q / pow10 ?d)) * pow10 ?d"
  have "pow10 (n - 1) = pow10 16 * pow10 ?d" by (simp flip: pow10_add)
  moreover have p16: "pow10 16 = 10 ^ 16" by (simp add: pow10_def)
  ultimately have q16: "10 ^ 16 * pow10 ?d \<le> q" using assms(3) by simp
  have pos: "0 < pow10 ?d" by simp
  have "pow10 ?d / 2 < q / pow2 54"
  proof -
    have "pow2 54 < 2 * 10 ^ 16" by (simp add: pow2_def)
    then have "pow2 54 * pow10 ?d < 2 * 10 ^ 16 * pow10 ?d" using pos by (rule mult_strict_right_mono)
    then have "pow2 54 * pow10 ?d < 2 * q" using q16 by linarith
    then show ?thesis by (simp add: field_simps)
  qed
  then have near: "\<bar>?x - q\<bar> < q / pow2 54" using decimal_error [of q ?d] by linarith
  have "q / pow2 54 < q" using assms(2) by (simp add: divide_less_eq pow2_def)
  then have "0 < ?x" using near by linarith
  then show ?thesis by (rule fl_near [OF assms(1,2) _ near])
qed

text \<open>What the search returns: \<open>k\<close> digits that round to the number.\<close>

definition digits_ok :: "rat \<Rightarrow> int \<times> int \<times> int \<Rightarrow> bool" where
  "digits_ok q r = (case r of (s, k, n) \<Rightarrow> 1 \<le> k \<and> 10 ^ nat (k - 1) \<le> s \<and> s < 10 ^ nat k \<and> fl (of_int s * pow10 (n - k)) = Fin q)"

lemma significand_bounds:
  assumes "pow10 (n - 1) \<le> q" "q < pow10 n" "1 \<le> k"
  shows "10 ^ nat (k - 1) \<le> nearest_int (q / pow10 (n - k))" "nearest_int (q / pow10 (n - k)) \<le> 10 ^ nat k"
proof -
  have "pow10 (n - 1) / pow10 (n - k) \<le> q / pow10 (n - k)" using assms(1) by (simp add: divide_right_mono less_imp_le)
  moreover have "pow10 (n - 1) / pow10 (n - k) = of_int (10 ^ nat (k - 1))" using assms(3) by (simp flip: pow10_diff add: pow10_nat)
  ultimately show "10 ^ nat (k - 1) \<le> nearest_int (q / pow10 (n - k))"
    unfolding nearest_int_def by (intro round_half_even_ge) simp
  have "q / pow10 (n - k) \<le> pow10 n / pow10 (n - k)" using assms(2) by (simp add: divide_right_mono less_imp_le)
  moreover have "pow10 n / pow10 (n - k) = of_int (10 ^ nat k)" using assms(3) by (simp flip: pow10_diff add: pow10_nat)
  ultimately show "nearest_int (q / pow10 (n - k)) \<le> 10 ^ nat k"
    unfolding nearest_int_def by (intro round_half_even_le) simp
qed

lemma shortest_digits:
  assumes "representable q" "0 < q" "pow10 (n - 1) \<le> q" "q < pow10 n" "nearest_int (q / pow10 (n - 17)) \<noteq> 10 ^ 17"
  shows "k = 17 - int fuel \<Longrightarrow> 1 \<le> k \<Longrightarrow> digits_ok q (shortest fuel k q n)"
proof (induction fuel arbitrary: k)
  case 0
  then have k: "k = 17" by simp
  have b: "10 ^ nat (17 - 1) \<le> nearest_int (q / pow10 (n - 17))" "nearest_int (q / pow10 (n - 17)) \<le> 10 ^ nat 17"
    using significand_bounds [OF assms(3,4), of 17] by auto
  then have "nearest_int (q / pow10 (n - 17)) < 10 ^ nat 17" using assms(5) by simp
  then show ?case using b(1) seventeen_digits [OF assms(1-3)] by (simp add: k digits_ok_def)
next
  case (Suc fuel)
  let ?s = "nearest_int (q / pow10 (n - k))"
  let ?s' = "if ?s = 10 ^ nat k then 10 ^ nat (k - 1) else ?s" and ?n' = "if ?s = 10 ^ nat k then n + 1 else n"
  have b: "10 ^ nat (k - 1) \<le> ?s" "?s \<le> 10 ^ nat k" using significand_bounds [OF assms(3,4) Suc.prems(2)] by auto
  have "(10::int) ^ nat (k - 1) < 10 ^ nat k" using Suc.prems(2) by (simp add: power_strict_increasing)
  then have b': "10 ^ nat (k - 1) \<le> ?s'" "?s' < 10 ^ nat k" using b by auto
  have step: "shortest (Suc fuel) k q n = (if fl (of_int ?s' * pow10 (?n' - k)) = Fin q then (?s', k, ?n') else shortest fuel (k + 1) q n)"
    by (simp add: Let_def)
  show ?case
  proof (cases "fl (of_int ?s' * pow10 (?n' - k)) = Fin q")
    case True
    then show ?thesis unfolding step using b' Suc.prems(2) by (simp only: if_True digits_ok_def prod.case simp_thms)
  next
    case False
    then show ?thesis unfolding step using Suc.IH [of "k + 1"] Suc.prems by simp
  qed
qed

text \<open>A number whose 17 digits round up to a power of ten is found with one digit.\<close>

lemma shortest_power:
  assumes "representable q" "0 < q" "pow10 (n - 1) \<le> q" "q < pow10 n" "nearest_int (q / pow10 (n - 17)) = 10 ^ 17"
  shows "digits_ok q (shortest 16 1 q n)"
proof -
  have p: "pow10 n = 10 ^ 17 * pow10 (n - 17)" using pow10_add [of 17 "n - 17"] by (simp add: pow10_def [of 17])
  have fl: "fl (pow10 n) = Fin q" using seventeen_digits [OF assms(1-3)] assms(5) p by simp
  have "\<bar>pow10 n - q\<bar> \<le> pow10 (n - 17) / 2" using decimal_error [of q "n - 17"] assms(5) p by simp
  then have "pow10 n - q \<le> pow10 (n - 17) / 2" by linarith
  moreover have p1: "pow10 n = 10 * pow10 (n - 1)" using pow10_add [of 1 "n - 1"] by (simp add: pow10_def [of 1])
  moreover have "pow10 (n - 17) < pow10 (n - 1)"
    using pow10_add [of 16 "n - 17"] pow10_pos [of "n - 17"] by (simp add: pow10_def [of 16])
  ultimately have "10 * pow10 (n - 1) - q < pow10 (n - 1) / 2" by linarith
  then have "\<bar>q / pow10 (n - 1) - of_int 10\<bar> < 1 / 2"
    using assms(4) p1 pow10_pos [of "n - 1"] by (simp add: abs_less_iff field_simps)
  then have "nearest_int (q / pow10 (n - 1)) = 10" unfolding nearest_int_def by (rule round_half_even_near)
  then have "shortest 16 1 q n = (1, 1, n + 1)" using fl by (simp add: eval_nat_numeral(3) numeral_eq_Suc Let_def)
  then show ?thesis using fl by (simp add: digits_ok_def)
qed

lemma shortest_ok:
  assumes "representable q" "0 < q"
  shows "digits_ok q (shortest 16 1 q (flog10 q + 1))"
proof -
  have b: "pow10 ((flog10 q + 1) - 1) \<le> q" "q < pow10 (flog10 q + 1)" using flog10_bounds [OF assms(2)] by simp_all
  show ?thesis
    using shortest_digits [OF assms b, of 1 16] shortest_power [OF assms b]
    by (cases "nearest_int (q / pow10 (flog10 q + 1 - 17)) = 10 ^ 17") auto
qed

section \<open>Decimal literals\<close>

text \<open>A literal: its integer digits, its fraction digits, its exponent.\<close>

definition literal :: "string \<Rightarrow> string \<Rightarrow> string \<Rightarrow> string" where
  "literal i f e = i @ (if f = [] then [] else CHR ''.'' # f) @ e"

definition exponent_ok :: "string \<Rightarrow> int \<Rightarrow> bool" where
  "exponent_ok e x \<longleftrightarrow> e = [] \<and> x = 0 \<or> (0 \<le> x \<and> e = ''e+'' @ show_pos x) \<or> (x < 0 \<and> e = ''e-'' @ show_pos (- x))"

lemma exponent_value: "exponent_ok e x \<Longrightarrow> exponent_part e = Some x"
  using show_pos_number_text [of x] show_pos_number_text [of "- x"]
  by (auto simp: exponent_ok_def exponent_part_def Let_def)

lemma exponent_json: "exponent_ok e x \<Longrightarrow> json_exponent_ok e \<and> list_all json_num_char e \<and> (e = [] \<or> hd e = CHR ''e'')"
  using show_pos_number_text [of x] show_pos_number_text [of "- x"]
  by (auto simp: exponent_ok_def json_exponent_ok_def json_num_char_def list_all_iff)

lemma not_digit [simp]:
  "\<not> is_digit (CHR ''.'')" "\<not> is_digit (CHR ''e'')" "\<not> is_digit (CHR ''-'')" "\<not> is_digit (CHR ''+'')" "\<not> is_digit (CHR ''I'')"
  "\<not> is_digit (CHR ''x'')" "\<not> is_digit (CHR ''X'')" "\<not> is_digit (CHR ''o'')" "\<not> is_digit (CHR ''O'')" "\<not> is_digit (CHR ''b'')"
  "\<not> is_digit (CHR ''B'')"
  by (simp_all add: is_digit_def ordc_def)

lemma digit_not:
  assumes "is_digit c"
  shows "c \<noteq> CHR ''.''" "c \<noteq> CHR ''e''" "c \<noteq> CHR ''-''" "c \<noteq> CHR ''+''" "c \<noteq> CHR ''I''"
  using assms by (metis not_digit)+

lemma takeWhile_digits:
  "list_all is_digit i \<Longrightarrow> r = [] \<or> \<not> is_digit (hd r) \<Longrightarrow> takeWhile is_digit (i @ r) = i \<and> dropWhile is_digit (i @ r) = r"
proof (induction i)
  case Nil
  then show ?case by (cases r) auto
qed simp

lemma literal_decimal:
  assumes "list_all is_digit i" "i \<noteq> []" "list_all is_digit f" "exponent_ok e x"
  shows "unsigned_decimal (literal i f e) = Some (of_int (dec_value 0 (i @ f)) * pow10 (x - int (length f)))"
proof -
  have e: "e = [] \<or> \<not> is_digit (hd e)" "e = [] \<or> hd e \<noteq> CHR ''.''" using exponent_json [OF assms(4)] by auto
  let ?r = "(if f = [] then [] else CHR ''.'' # f) @ e"
  have i: "takeWhile is_digit (i @ ?r) = i" "dropWhile is_digit (i @ ?r) = ?r"
    using takeWhile_digits [OF assms(1), of ?r] e(1) by auto
  show ?thesis
  proof (cases "f = []")
    case True
    have all: "takeWhile is_digit i = i" "dropWhile is_digit i = []" using assms(1) by (simp_all add: list_all_iff)
    from True i e(2) assms(2) exponent_value [OF assms(4)] show ?thesis
      by (cases e) (simp_all add: unsigned_decimal_def literal_def Let_def all)
  next
    case False
    have f: "takeWhile is_digit (f @ e) = f" "dropWhile is_digit (f @ e) = e" using takeWhile_digits [OF assms(3) e(1)] by auto
    show ?thesis
      using i f False assms(2) exponent_value [OF assms(4)] by (simp add: unsigned_decimal_def literal_def Let_def)
  qed
qed

lemma literal_json:
  assumes "list_all is_digit i" "i \<noteq> []" "i = ''0'' \<or> hd i \<noteq> CHR ''0''" "list_all is_digit f" "exponent_ok e x"
  shows "json_number_ok (literal i f e)" "list_all json_num_char (literal i f e)"
proof -
  obtain c t where i: "i = c # t" using assms(2) by (cases i) auto
  have c: "is_digit c" "list_all is_digit t" "c \<noteq> CHR ''-''" using assms(1) i digit_not by auto
  note ej = exponent_json [OF assms(5)]
  have e: "e = [] \<or> \<not> is_digit (hd e)" "e = [] \<or> hd e \<noteq> CHR ''.''" using ej by auto
  let ?r = "(if f = [] then [] else CHR ''.'' # f) @ e"
  have frac: "json_fraction_ok ?r"
  proof (cases "f = []")
    case True
    then show ?thesis using ej e(2) by (cases e) (auto simp: json_fraction_ok_def)
  next
    case False
    then show ?thesis using ej takeWhile_digits [OF assms(4) e(1)] by (simp add: json_fraction_ok_def)
  qed
  have t: "dropWhile is_digit (t @ ?r) = ?r" using takeWhile_digits [OF c(2), of ?r] e(1) by auto
  show "json_number_ok (literal i f e)"
  proof (cases "c = CHR ''0''")
    case True
    then have "t = []" using assms(3) i by auto
    then show ?thesis using frac True by (simp add: json_number_ok_def literal_def i Let_def)
  next
    case False
    then show ?thesis using frac t c by (simp add: json_number_ok_def literal_def i Let_def)
  qed
  have "list_all json_num_char i" "list_all json_num_char f"
    using assms(1,4) by (auto simp: list_all_iff json_num_char_def)
  then show "list_all json_num_char (literal i f e)" using ej by (simp add: literal_def json_num_char_def)
qed

lemma num_char_not_ws: "json_num_char c \<Longrightarrow> \<not> is_ws c"
  unfolding json_num_char_def by (auto simp: is_ws_def is_digit_def ordc_def)

lemma literal_trimmed: "list_all json_num_char s \<Longrightarrow> js_trim s = s"
proof -
  assume "list_all json_num_char s"
  then have "\<forall>c \<in> set s. \<not> is_ws c" by (simp add: list_all_iff num_char_not_ws)
  then show ?thesis by (intro js_trim_id) (auto simp: trimmed_def)
qed

lemma literal_number:
  assumes "list_all is_digit i" "i \<noteq> []" "i = ''0'' \<or> hd i \<noteq> CHR ''0''" "list_all is_digit f" "exponent_ok e x"
  shows "unsigned_number (literal i f e) = fl (of_int (dec_value 0 (i @ f)) * pow10 (x - int (length f)))"
    "js_number (literal i f e) = fl (of_int (dec_value 0 (i @ f)) * pow10 (x - int (length f)))"
proof -
  obtain c t where i: "i = c # t" using assms(2) by (cases i) auto
  have c: "is_digit c" using assms(1) i by simp
  show u: "unsigned_number (literal i f e) = fl (of_int (dec_value 0 (i @ f)) * pow10 (x - int (length f)))"
    using literal_decimal [OF assms(1,2,4,5)] digit_not [OF c] by (auto simp: unsigned_number_def literal_def i)
  define r where "r = t @ (if f = [] then [] else CHR ''.'' # f) @ e"
  have head: "literal i f e = c # r" by (simp add: literal_def i r_def)
  have radix: "\<not> (c = CHR ''0'' \<and> r \<noteq> [] \<and> radix_of (hd r) \<noteq> None)"
  proof (cases "c = CHR ''0''")
    case True
    then have "t = []" using assms(3) i by auto
    then show ?thesis using exponent_json [OF assms(5)] by (auto simp: radix_of_def r_def)
  qed simp
  have tr: "js_trim (c # r) = c # r" using literal_json(2) [OF assms] unfolding head by (rule literal_trimmed)
  have "js_number (c # r) = unsigned_number (c # r)"
    unfolding js_number_def tr list.case by (simp only: radix digit_not [OF c] if_False)
  then show "js_number (literal i f e) = fl (of_int (dec_value 0 (i @ f)) * pow10 (x - int (length f)))"
    using u unfolding head by simp
qed

section \<open>Every finite number reads back\<close>

text \<open>The five forms of the text of a number are literals.\<close>

lemma take_drop_digits: "list_all is_digit ds \<Longrightarrow> list_all is_digit (take m ds) \<and> list_all is_digit (drop m ds)"
  by (metis append_take_drop_id list_all_append)

lemma show_exponent_ok: "exponent_ok (show_exponent x) x"
  by (auto simp: exponent_ok_def show_exponent_def)

lemma literal_forms:
  assumes "1 \<le> k" "10 ^ nat (k - 1) \<le> s" "s < 10 ^ nat k"
  obtains i f e x where "(let ds = show_pos s
      in if k \<le> n \<and> n \<le> 21 then ds @ replicate (nat (n - k)) (CHR ''0'')
         else if 0 < n \<and> n \<le> 21 then take (nat n) ds @ ''.'' @ drop (nat n) ds
         else if - 6 < n \<and> n \<le> 0 then ''0.'' @ replicate (nat (- n)) (CHR ''0'') @ ds
         else if k = 1 then ds @ show_exponent (n - 1)
         else take 1 ds @ ''.'' @ drop 1 ds @ show_exponent (n - 1)) = literal i f e"
    "list_all is_digit i" "i \<noteq> []" "i = ''0'' \<or> hd i \<noteq> CHR ''0''" "list_all is_digit f" "exponent_ok e x"
    "of_int (dec_value 0 (i @ f)) * pow10 (x - int (length f)) = of_int s * pow10 (n - k)"
proof -
  define ds where "ds = show_pos s"
  have "(0::int) < 10 ^ nat (k - 1)" by simp
  then have s: "0 < s" using assms(2) by linarith
  have k1: "nat k - Suc 0 = nat (k - 1)" by simp
  have len: "length ds = nat k" unfolding ds_def using assms by (intro show_pos_length_eq) (auto simp: k1)
  have ds: "ds \<noteq> []" "list_all is_digit ds" "dec_value 0 ds = s" "hd ds \<noteq> CHR ''0''"
    using show_pos_number_text [of s] show_pos_head [OF s] s by (auto simp: ds_def)
  have zero: "is_digit (CHR ''0'')" by (simp add: is_digit_def ordc_def)
  have hd_take: "hd (take m ds) = hd ds" "take m ds \<noteq> []" if "0 < m" for m using that ds(1) by (auto simp: hd_take)
  note parts = take_drop_digits [OF ds(2)]
  consider (int) "k \<le> n" "n \<le> 21" | (point) "n < k" "0 < n" "n \<le> 21" | (small) "- 6 < n" "n \<le> 0"
    | (one) "\<not> (k \<le> n \<and> n \<le> 21)" "\<not> (0 < n \<and> n \<le> 21)" "\<not> (- 6 < n \<and> n \<le> 0)" "k = 1"
    | (exp) "\<not> (k \<le> n \<and> n \<le> 21)" "\<not> (0 < n \<and> n \<le> 21)" "\<not> (- 6 < n \<and> n \<le> 0)" "1 < k"
    using assms(1) by linarith
  then show thesis
  proof cases
    case int
    let ?i = "ds @ replicate (nat (n - k)) (CHR ''0'')"
    have "dec_value 0 ?i = s * 10 ^ nat (n - k)" by (simp add: dec_value_app dec_value_zeros ds(3))
    then show thesis
      using int ds zero by (intro that [of ?i "[]" "[]" 0])
        (auto simp: ds_def [symmetric] literal_def exponent_ok_def pow10_nat Let_def list_all_iff)
  next
    case point
    let ?i = "take (nat n) ds" and ?f = "drop (nat n) ds"
    have f: "?f \<noteq> []" "int (length ?f) = k - n" using point len by auto
    show thesis
      using point ds parts hd_take [of "nat n"] f by (intro that [of ?i ?f "[]" 0])
        (auto simp: ds_def [symmetric] literal_def exponent_ok_def Let_def)
  next
    case small
    let ?f = "replicate (nat (- n)) (CHR ''0'') @ ds"
    have v: "dec_value 0 (''0'' @ ?f) = s"
      by (simp add: dec_value_app dec_value_zeros ds(3) digit_val_def ordc_def)
    have l: "int (length ?f) = k - n" using small len assms(1) by simp
    have nk: "\<not> (k \<le> n \<and> n \<le> 21)" "\<not> (0 < n \<and> n \<le> 21)" using small assms(1) by auto
    show thesis
      using small ds zero v l nk by (intro that [of "''0''" ?f "[]" 0])
        (auto simp: ds_def [symmetric] literal_def exponent_ok_def Let_def list_all_iff)
  next
    case one
    show thesis
      using one ds by (intro that [of ds "[]" "show_exponent (n - 1)" "n - 1"])
        (auto simp: ds_def [symmetric] literal_def show_exponent_ok Let_def)
  next
    case exp
    let ?i = "take 1 ds" and ?f = "drop 1 ds"
    have f: "?f \<noteq> []" "int (length ?f) = k - 1" using exp len by auto
    have e: "n - 1 - (k - 1) = n - k" by simp
    show thesis
      using exp ds parts hd_take [of 1] f by (intro that [of ?i ?f "show_exponent (n - 1)" "n - 1"])
        (auto simp: ds_def [symmetric] literal_def show_exponent_ok Let_def e)
  qed
qed

lemma show_fin_literal:
  assumes "representable q" "0 < q"
  shows "json_number_ok (show_fin q)" "list_all json_num_char (show_fin q)" "js_number (show_fin q) = Fin q"
    "unsigned_number (show_fin q) = Fin q" "show_fin q \<noteq> [] \<and> is_digit (hd (show_fin q))"
proof -
  obtain s k n where r: "shortest 16 1 q (flog10 q + 1) = (s, k, n)" by (cases "shortest 16 1 q (flog10 q + 1)") auto
  then have ok: "1 \<le> k" "10 ^ nat (k - 1) \<le> s" "s < 10 ^ nat k" "fl (of_int s * pow10 (n - k)) = Fin q"
    using shortest_ok [OF assms] by (auto simp: digits_ok_def)
  obtain i f e x where t: "show_fin q = literal i f e" and l: "list_all is_digit i" "i \<noteq> []" "i = ''0'' \<or> hd i \<noteq> CHR ''0''"
    "list_all is_digit f" "exponent_ok e x"
    and v: "of_int (dec_value 0 (i @ f)) * pow10 (x - int (length f)) = of_int s * pow10 (n - k)"
    by (rule literal_forms [OF ok(1-3), of n]) (use r in \<open>simp add: show_fin_def\<close>)
  show "json_number_ok (show_fin q)" "list_all json_num_char (show_fin q)" unfolding t by (rule literal_json [OF l])+
  show "js_number (show_fin q) = Fin q" "unsigned_number (show_fin q) = Fin q"
    unfolding t using literal_number [OF l] v ok(4) by simp_all
  show "show_fin q \<noteq> [] \<and> is_digit (hd (show_fin q))" unfolding t using l(1,2) by (cases i) (auto simp: literal_def)
qed

lemma json_number_ok_minus: "json_number_ok s \<Longrightarrow> s \<noteq> [] \<Longrightarrow> is_digit (hd s) \<Longrightarrow> json_number_ok (CHR ''-'' # s)"
  using digit_not [of "hd s"] by (cases s) (auto simp: json_number_ok_def Let_def)

lemma zero_literal: "json_number_ok ''0''" "list_all json_num_char ''0''" "js_number ''0'' = Fin 0"
proof -
  have z: "list_all is_digit ''0''" "exponent_ok [] 0" by (simp_all add: is_digit_def ordc_def exponent_ok_def)
  show "json_number_ok ''0''" "list_all json_num_char ''0''" "js_number ''0'' = Fin 0"
    using literal_json [of "''0''" "[]" "[]" 0] literal_number(2) [of "''0''" "[]" "[]" 0] z
    by (simp_all add: literal_def digit_val_def ordc_def fl_def)
qed

theorem number_reads_back: "json_num_ok x \<longleftrightarrow> is_finite x \<and> js_rep x \<and> x \<noteq> NegZero"
proof
  assume ok: "json_num_ok x"
  then have "js_rep x" using js_rep_number [of "js_num_to_string x"] by (simp add: json_num_ok_def)
  moreover have "x \<noteq> NegZero"
  proof
    assume "x = NegZero"
    then have "js_number ''0'' = NegZero" using ok by (simp add: json_num_ok_def js_num_to_string_def)
    with zero_literal(3) show False by simp
  qed
  ultimately show "is_finite x \<and> js_rep x \<and> x \<noteq> NegZero" using ok by (simp add: json_num_ok_def)
next
  assume x: "is_finite x \<and> js_rep x \<and> x \<noteq> NegZero"
  then obtain q where q: "x = Fin q" "representable q" by (cases x) auto
  consider "q = 0" | "0 < q" | "q < 0" by linarith
  then show "json_num_ok x"
  proof cases
    case 1
    then show ?thesis using zero_literal by (simp add: q(1) json_num_ok_def js_num_to_string_def)
  next
    case 2
    then show ?thesis using show_fin_literal [OF q(2) 2] by (simp add: q(1) json_num_ok_def js_num_to_string_def)
  next
    case 3
    then have r: "representable (- q)" "0 < - q" using q(2) by simp_all
    note t = show_fin_literal [OF r]
    have "js_trim (CHR ''-'' # show_fin (- q)) = CHR ''-'' # show_fin (- q)"
      using t(2) by (intro literal_trimmed) (simp add: json_num_char_def)
    then have "js_number (CHR ''-'' # show_fin (- q)) = js_neg (unsigned_number (show_fin (- q)))" by (simp add: js_number_def)
    then show ?thesis
      using 3 t json_number_ok_minus [OF t(1)] by (simp add: q(1) json_num_ok_def js_num_to_string_def json_num_char_def)
  qed
qed

section \<open>Values that were read are written\<close>

text \<open>What \<open>JSON.parse\<close> returns: no \<open>undefined\<close>, different keys, numbers of binary64.  A number may be infinite (\<open>1e999\<close>) or
  the negative zero; a value without such numbers is one that JSON carries.\<close>

fun json_shape :: "jsval \<Rightarrow> bool" where
  "json_shape JUndefined \<longleftrightarrow> False"
| "json_shape (JNum x) \<longleftrightarrow> js_rep x"
| "json_shape (JArr vs) \<longleftrightarrow> list_all json_shape vs"
| "json_shape (JObj kvs) \<longleftrightarrow> distinct (map fst kvs) \<and> list_all (\<lambda>(k, v). json_shape v) kvs"
| "json_shape _ \<longleftrightarrow> True"

fun plain_numbers :: "jsval \<Rightarrow> bool" where
  "plain_numbers (JNum x) \<longleftrightarrow> is_finite x \<and> x \<noteq> NegZero"
| "plain_numbers (JArr vs) \<longleftrightarrow> list_all plain_numbers vs"
| "plain_numbers (JObj kvs) \<longleftrightarrow> list_all (\<lambda>(k, v). plain_numbers v) kvs"
| "plain_numbers _ \<longleftrightarrow> True"

lemma shape_ok: "json_shape v \<Longrightarrow> plain_numbers v \<Longrightarrow> json_ok v"
proof (induction v rule: json_shape.induct)
  case (4 kvs)
  then show ?case by (fastforce simp: list_all_iff)
qed (auto simp: number_reads_back list_all_iff)

lemma scalar_shape: "json_scalar s = Some (v, r) \<Longrightarrow> json_shape v"
  by (auto simp: json_scalar_def json_number_def Let_def split: list.splits if_splits option.splits)

lemma obj_set_shape:
  "list_all (\<lambda>(k, v). json_shape v) kvs \<Longrightarrow> json_shape v \<Longrightarrow> list_all (\<lambda>(k, v). json_shape v) (obj_set k v kvs)"
  by (induction k v kvs rule: obj_set.induct) auto

lemma parsed_shape:
  "json_value n s = Some (v, r) \<Longrightarrow> json_shape v"
  "json_elems n acc s = Some (v, r) \<Longrightarrow> list_all json_shape acc \<Longrightarrow> json_shape v"
  "json_members n kvs s = Some (v, r) \<Longrightarrow> distinct (map fst kvs) \<Longrightarrow> list_all (\<lambda>(k, v). json_shape v) kvs \<Longrightarrow> json_shape v"
proof (induction n s and n acc s and n kvs s arbitrary: v r and v r and v r rule: json_value_json_elems_json_members.induct)
  case (2 n s)
  then show ?case by (auto simp: scalar_shape split: list.splits if_splits)
next
  case (4 n acc s)
  from 4(3) obtain w r' where w: "json_value n s = Some (w, r')" by (auto split: option.splits)
  have "json_shape w" using 4(1) w by blast
  then show ?case using 4 w by (auto split: list.splits if_splits)
next
  case (6 n kvs s)
  from 6(3) obtain t k r1 u w r' where w: "skip_ws s = dquote # t" "json_chars t = Some (k, r1)" "skip_ws r1 = CHR '':'' # u"
    "json_value n u = Some (w, r')"
    by (auto split: list.splits if_splits option.splits)
  have "json_shape w" using 6(1) w by blast
  then show ?case using 6 w by (auto simp: obj_set_shape split: list.splits if_splits)
qed auto

lemma json_parse_shape: "json_parse s = Some v \<Longrightarrow> json_shape v"
  using parsed_shape(1) [of "2 * length s + 2" s v] by (auto simp: json_parse_def simp del: json_value.simps split: option.splits if_splits)

end
