(* ===== verification/Session_Properties.thy ===== *)
theory Session_Properties
  imports Http_Facts JS_Number_Text
begin

text \<open>
  The properties of the session, of the tabs of a browser together, and of the HTTP client, with their
  witnesses.  The witnesses share a login bundle and the answers of a server.
\<close>

section \<open>Inputs of the witnesses\<close>

definition demo_session :: login_session where
  "demo_session = \<lparr>ls_sid = ''s1'', ls_current = True, ls_login_method = ''password'', ls_ip = ''::1'',
     ls_user_agent = ''ua'', ls_created_at = Fin 1, ls_last_active_at = Fin 2, ls_expires_at = Fin 9\<rparr>"

definition demo_bundle :: auth_bundle where
  "demo_bundle = \<lparr>ab_access_token = ''tok'', ab_token_type = ''Bearer'', ab_access_expires_at = Fin 900,
     ab_user = JObj [(''id'', JNum (Fin 7)), (''username'', JStr ''ada''), (''role'', JNum (Fin 1))], ab_session = demo_session\<rparr>"

definition demo_login_answer :: jsval where
  "demo_login_answer = JObj [(''access_token'', JStr ''tok''), (''token_type'', JStr ''Bearer''), (''access_expires_at'', JNum (Fin 900)),
     (''user'', JObj [(''id'', JNum (Fin 7)), (''username'', JStr ''ada''), (''role'', JNum (Fin 1))]),
     (''session'', JObj [(''sid'', JStr ''s1''), (''current'', JBool True), (''login_method'', JStr ''password''),
        (''ip'', JStr ''::1''), (''user_agent'', JStr ''ua''), (''created_at'', JNum (Fin 1)),
        (''last_active_at'', JNum (Fin 2)), (''expires_at'', JNum (Fin 9))])]"

definition demo_tab :: tab where
  "demo_tab = applyAuthBundle demo_bundle True tab_init"

definition demo_answer :: "int \<Rightarrow> string \<Rightarrow> refresh_response" where
  "demo_answer status code = \<lparr>rr_status = status, rr_data = JObj [(''code'', JStr code)], rr_error = JUndefined\<rparr>"

definition demo_rotation :: jsval where
  "demo_rotation = JObj [(''access_token'', JStr ''tok2''), (''token_type'', JStr ''Bearer''),
     (''access_expires_at'', JNum (Fin 1800)),
     (''session'', JObj [(''sid'', JStr ''s1''), (''current'', JBool True), (''login_method'', JStr ''password''),
        (''ip'', JStr ''::1''), (''user_agent'', JStr ''ua''), (''created_at'', JNum (Fin 1)),
        (''last_active_at'', JNum (Fin 2)), (''expires_at'', JNum (Fin 9))])]"

definition demo_config :: request_config where
  "demo_config = \<lparr>rc_skipBusinessError = False, rc_skipErrorHandler = False, rc_skipAuthRefresh = False,
     rc_authRetry = False, rc_acceptAuthRotation = False, rc_headers = []\<rparr>"

definition demo_client :: client where
  "demo_client = \<lparr>pg_tab = demo_tab, pg_path = ''/console'', pg_reloads = 0, cl_toasts = []\<rparr>"

definition error_401 :: jsval where
  "error_401 = JObj [(''response'', JObj [(''status'', JNum (Fin 401))])]"

lemmas demo_defs = demo_session_def demo_bundle_def demo_tab_def demo_answer_def demo_rotation_def demo_config_def
  demo_client_def error_401_def

lemma demo_bundle_parsed: "parseBundle demo_login_answer = Some demo_bundle"
  by code_simp

lemma demo_login: "tab_step locks (ALogin demo_bundle True) tab_init demo_tab"
  unfolding demo_tab_def by (rule s_login [OF demo_bundle_parsed])

lemma demo_run: "tab_run locks tab_init [ALogin demo_bundle True] demo_tab"
  by (rule run_cons [OF demo_login run_nil])

section \<open>The session of a tab\<close>

text \<open>C10. In every state a tab can reach, by any interleaving of logins, rotations, sign-outs and refreshes, the
  access token, its expiry and the login session are present together.  What is stored is usable, a non-empty token with a finite
  positive expiry and a session with an identifier, unless it is exactly an unusable bundle that the form for the second factor
  applied, the one place that does not validate the answer of the server.  A refresh in flight
  never started in a later epoch than the current one.\<close>

theorem session_state_consistent:
  assumes "tab_run locks tab_init as t"
  shows "(au_accessToken (tab_auth t) = None \<longleftrightarrow> au_session (tab_auth t) = None) \<and>
    (au_accessExpiresAt (tab_auth t) = None \<longleftrightarrow> au_session (tab_auth t) = None) \<and>
    (case au_session (tab_auth t) of None \<Rightarrow> True
     | Some session \<Rightarrow>
         ls_sid session \<noteq> [] \<and> the (au_accessToken (tab_auth t)) \<noteq> [] \<and>
           is_finite (the (au_accessExpiresAt (tab_auth t))) \<and> js_lt (Fin 0) (the (au_accessExpiresAt (tab_auth t)))
       \<or> (\<exists>b. AVerified b \<in> set as \<and> \<not> bundle_ok b \<and> session = ab_session b \<and>
           au_accessToken (tab_auth t) = Some (ab_access_token b) \<and> au_accessExpiresAt (tab_auth t) = Some (ab_access_expires_at b))) \<and>
    (case tab_refresh t of None \<Rightarrow> True | Some (e, _) \<Rightarrow> e \<le> tab_epoch t)"
proof -
  have "store_ok (set as) (tab_auth t)" using run_store [OF assms order_refl init_store] .
  moreover have "tab_ok t" using run_ok [OF assms init_ok] .
  then have "case tab_refresh t of None \<Rightarrow> True | Some (e, _) \<Rightarrow> e \<le> tab_epoch t" by (auto simp: tab_ok_def split: option.splits)
  ultimately show ?thesis unfolding store_ok_def holds_bundle_def by (auto elim!: auth_ok_cases)
qed

theorem session_state_consistent_witness:
  "au_accessToken (tab_auth demo_tab) \<noteq> None \<and> au_session (tab_auth demo_tab) \<noteq> None"
  using session_state_consistent [OF demo_run] by (simp add: demo_tab_def setBundle_def)

text \<open>C11. Once a login, a rotation, a sign-out or another clearing has changed the session, whatever the refresh
  that was in flight still does (taking the lock, reading answers of any content, waiting, settling)
  changes nothing in the store and publishes nothing to other tabs.\<close>

theorem stale_refresh_is_harmless:
  assumes "tab_run locks tab_init as t"
    and "tab_step locks a t t1"
    and "case a of ALogin _ _ \<Rightarrow> True | AVerified _ \<Rightarrow> True | ARotate _ \<Rightarrow> True | AClear _ _ \<Rightarrow> True | ASignOut _ \<Rightarrow> True | _ \<Rightarrow> False"
    and "tab_run locks t1 bs t2" and "list_all refresh_action bs"
  shows "tab_auth t2 = tab_auth t1 \<and> tab_published t2 = tab_published t1"
proof -
  have ok: "tab_ok t" using run_ok [OF assms(1) init_ok] .
  have "tab_refresh t1 = tab_refresh t \<and> tab_epoch t < tab_epoch t1"
    using assms(2,3)
    by (cases rule: tab_stepE) (auto simp: clearAuthenticatedClientState_def dest: rotation_ok)
  then have "stale t1" using ok by (auto intro: ok_bumped_stale)
  with assms(4,5) show ?thesis by (auto dest: stale_run)
qed

theorem stale_refresh_is_harmless_witness:
  "tab_auth (set_phase 0 (run_response (refresh_runtime 0) 0 True (demo_answer 401 ''AUTH_EXPIRED'')
      (applyAuthBundle demo_bundle True (refreshAuthentication False tab_init)))) =
   setBundle demo_bundle auth_init"
proof -
  let ?t = "refreshAuthentication False tab_init" and ?a = "AResponse (demo_answer 401 ''AUTH_EXPIRED'')"
  let ?t1 = "applyAuthBundle demo_bundle True ?t"
  let ?t2 = "set_phase 0 (run_response (refresh_runtime 0) 0 True (demo_answer 401 ''AUTH_EXPIRED'') ?t1)"
  have t: "tab_run False tab_init [ARefresh] ?t" by (rule run_cons [OF s_refresh run_nil])
  have "tab_refresh ?t1 = Some (0, PRequesting 0 True None)"
    by (simp add: refreshAuthentication_def tab_init_def run_begin_def is_superseded_def refresh_runtime_def
        current_sid_def auth_init_def)
  then have "tab_run False ?t1 [?a] ?t2" by (intro run_cons [OF _ run_nil] s_response)
  then have "tab_auth ?t2 = tab_auth ?t1"
    using stale_refresh_is_harmless [OF t s_login [OF demo_bundle_parsed, of False True ?t], of "[?a]" ?t2]
    by (simp add: refresh_action_def)
  moreover have "tab_auth ?t = auth_init" by (simp add: refreshAuthentication_def tab_init_def)
  ultimately show ?thesis by simp
qed

text \<open>C12. A refresh reads at most eight answers, whatever the server sends and whatever else happens to the tab,
  and a call of \<open>refreshAuthentication\<close> while one is in flight starts no other.\<close>

theorem refresh_answers_bounded:
  assumes "tab_run locks tab_init as t"
    and "tab_run locks (refreshAuthentication locks t) bs t'" and "list_all (\<lambda>a. \<not> starts_refresh a) bs"
  shows "length (filter is_response bs) \<le> 8 \<and>
    (tab_refresh t \<noteq> None \<longrightarrow> refreshAuthentication locks t = t)"
proof -
  have "tab_ok (refreshAuthentication locks t)" using refresh_ok run_ok [OF assms(1) init_ok] by blast
  from run_remaining [OF assms(2,3) this] have "length (filter is_response bs) \<le> remaining (refreshAuthentication locks t)"
    by simp
  also have "\<dots> \<le> 8" by (auto simp: remaining_def budget_le split: option.splits)
  finally show ?thesis by (auto simp: refreshAuthentication_def)
qed

theorem refresh_answers_bounded_witness:
  "length (filter is_response [AResponse (demo_answer 409 ''AUTH_REFRESH_RACE''), ATimer]) \<le> 8"
proof (rule conjunct1 [OF refresh_answers_bounded [OF run_nil]])
  let ?t = "refreshAuthentication False tab_init" and ?r = "demo_answer 409 ''AUTH_REFRESH_RACE''"
  let ?t1 = "set_phase 0 (run_response (refresh_runtime 0) 0 True ?r ?t)"
  have "tab_refresh ?t = Some (0, PRequesting 0 True None)"
    by (simp add: refreshAuthentication_def tab_init_def run_begin_def is_superseded_def refresh_runtime_def
        current_sid_def auth_init_def)
  then have "tab_step False (AResponse ?r) ?t ?t1" by (rule s_response)
  moreover have "tab_refresh ?t1 = Some (0, PWaiting 0 True 80)"
    by (simp add: refreshAuthentication_def tab_init_def run_begin_def is_superseded_def refresh_runtime_def
        run_response_def run_refused_def demo_answer_def isRecord_def jget_def parseBundle_def isAuthBundle_def
        response_code_def nth_opt_def refreshRaceDelays_def)
  then have "tab_run False ?t1 [ATimer] (set_phase 0 (run_begin (refresh_runtime 0) (0 + 1) True ?t1))"
    by (intro run_cons [OF s_timer run_nil])
  ultimately show "tab_run False ?t [AResponse ?r, ATimer] (set_phase 0 (run_begin (refresh_runtime 0) (0 + 1) True ?t1))"
    by (rule run_cons)
qed (simp add: starts_refresh_def)

text \<open>C13. A refresh that is left to itself settles: from every reachable state with one in flight, with an answer to
  each of its requests (eight are enough, of any content), its own steps lead to a state with none.\<close>

theorem refresh_settles_eventually:
  assumes "tab_run locks tab_init as t" and "tab_refresh t \<noteq> None" and "8 \<le> length rs"
  shows "\<exists>bs t' n. tab_run locks t bs t' \<and> list_all refresh_action bs \<and> responses bs = take n rs \<and>
    tab_refresh t' = None"
proof -
  obtain e p where "tab_refresh t = Some (e, p)" using assms(2) by auto
  then have "settles locks t rs"
    using refresh_settles run_ok [OF assms(1) init_ok] budget_le [of p] assms(3) le_trans by blast
  then show ?thesis by (simp add: settles_def)
qed

theorem refresh_settles_eventually_witness:
  "\<exists>bs t' n. tab_run True (refreshAuthentication True tab_init) bs t' \<and> list_all refresh_action bs \<and>
     responses bs = take n (replicate 8 (demo_answer 409 ''AUTH_REFRESH_RACE'')) \<and> tab_refresh t' = None"
  by (rule refresh_settles_eventually [OF run_cons [OF s_refresh run_nil]])
     (simp_all add: refreshAuthentication_def tab_init_def)

text \<open>The outcome of a refresh tells the store: an answer that authenticates has stored exactly its bundle, which
  is usable; \<open>anonymous\<close> and \<open>out_of_sync\<close> have emptied the store and completed the start-up; a
  transient failure keeps the session; a superseded run leaves everything; a retry of a mismatch has
  emptied the store first and is the last one allowed.\<close>

theorem refresh_outcome_effect:
  assumes "run_response (refresh_runtime e) r m response t = (p, t')"
  shows "case p of
      PDone (Authenticated b) \<Rightarrow> tab_auth t' = setBundle b (tab_auth t) \<and> bundle_ok b
    | PDone Anonymous \<Rightarrow> tab_auth t' = reset_auth BComplete (tab_auth t)
    | PDone (OutOfSync _) \<Rightarrow> tab_auth t' = reset_auth BComplete (tab_auth t)
    | PDone (TransientError Superseded) \<Rightarrow> tab_auth t' = tab_auth t
    | PDone (TransientError (Failed _)) \<Rightarrow> tab_auth t' = setBootstrapState BIdle (tab_auth t)
    | PRequesting _ m' _ \<Rightarrow> \<not> m' \<and> tab_auth t' = reset_auth BIdle (tab_auth t)
    | PWaiting _ _ _ \<Rightarrow> tab_auth t' = tab_auth t
    | PLocked \<Rightarrow> False"
  using tab_rt.response_store [OF assms] unfolding tab_rt.phase_store_def .

theorem refresh_outcome_effect_witness:
  "tab_auth (snd (run_response (refresh_runtime 1) 0 True (demo_answer 401 ''X'') demo_tab)) =
   reset_auth BComplete (tab_auth demo_tab)"
proof -
  have eq: "run_response (refresh_runtime 1) 0 True (demo_answer 401 ''X'') demo_tab =
    (PDone Anonymous, clearAuthentication True BComplete demo_tab)"
    by (simp add: run_response_def is_superseded_def refresh_runtime_def demo_tab_def tab_init_def demo_answer_def
        isRecord_def jget_def parseBundle_def isAuthBundle_def run_refused_def refresh_clear_def response_code_def)
  from refresh_outcome_effect [OF eq] show ?thesis unfolding eq by simp
qed

text \<open>C14. A rotation is refused, with the message of its cause, unless it is well formed, a user and a session are
  present and it names the session that is current; otherwise it replaces token, expiry and session
  details, keeps the user and the session's identifier, and publishes nothing.\<close>

theorem rotation_only_renews_session:
  "case applyAuthRotation v t of
     Inl msg \<Rightarrow>
       msg = ''Invalid authentication rotation response'' \<and> \<not> isAuthTokenRotation v
     \<or> msg = ''Authentication rotation has no active session'' \<and> isAuthTokenRotation v \<and>
         (au_user (tab_auth t) = None \<or> au_session (tab_auth t) = None)
     \<or> msg = ''Authentication rotation session mismatch'' \<and> isAuthTokenRotation v \<and> au_user (tab_auth t) \<noteq> None \<and>
         current_sid t \<noteq> None \<and> current_sid t \<noteq> Some (str_of (jget (jget v ''session'') ''sid''))
   | Inr t' \<Rightarrow>
       isAuthTokenRotation v \<and> current_sid t \<noteq> None \<and> current_sid t' = current_sid t \<and>
       au_user (tab_auth t) \<noteq> None \<and> au_user (tab_auth t') = au_user (tab_auth t) \<and>
       au_accessToken (tab_auth t') = Some (str_of (jget v ''access_token'')) \<and>
       au_accessExpiresAt (tab_auth t') = Some (num_of (jget v ''access_expires_at'')) \<and>
       auth_ok (tab_auth t') \<and> tab_published t' = tab_published t"
proof (cases "applyAuthRotation v t")
  case (Inl msg)
  then show ?thesis
    by (auto simp: applyAuthRotation_def current_sid_def session_of_def split: if_splits option.splits)
next
  case (Inr t')
  from rotation_ok [OF this] have "auth_ok (tab_auth t')" by auto
  with Inr show ?thesis
    by (auto simp: applyAuthRotation_def applyAuthBundle_def Let_def current_sid_def session_of_def setBundle_def
        split: if_splits option.splits)
qed

text \<open>Headers that are given out at once carry the stored token, which is valid for more than another minute;
  those given out after a refresh that did not authenticate carry a token that has not expired, and
  without one the request fails with the message of the outcome.\<close>

theorem fresh_headers_are_fresh:
  assumes "0 \<le> now" "now \<le> 2 ^ 52"
  shows "(case fresh_headers_now (Fin (of_int now)) a of
      None \<Rightarrow> True
    | Some hs \<Rightarrow> \<exists>token exp. au_accessToken a = Some token \<and> token \<noteq> [] \<and>
        map_of hs ''Authorization'' = Some (''Bearer '' @ token) \<and>
        au_accessExpiresAt a = Some exp \<and> js_lt (Fin (of_int (now + 60))) exp) \<and>
    ((\<forall>b. result \<noteq> Authenticated b) \<longrightarrow>
    (case fresh_headers_after (Fin (of_int now)) result a of
      Inl msg \<Rightarrow> msg = (case result of TransientError _ \<Rightarrow> ''Request failed'' | _ \<Rightarrow> ''Session expired!'')
    | Inr hs \<Rightarrow> \<exists>token exp. au_accessToken a = Some token \<and> token \<noteq> [] \<and>
        map_of hs ''Authorization'' = Some (''Bearer '' @ token) \<and>
        au_accessExpiresAt a = Some exp \<and> js_lt (Fin (of_int now)) exp))"
proof -
  have headers: "\<exists>token exp. au_accessToken a = Some token \<and> token \<noteq> [] \<and>
      map_of (getCommonHeaders a) ''Authorization'' = Some (''Bearer '' @ token) \<and>
      au_accessExpiresAt a = Some exp \<and> js_lt limit exp" if "expires_after a limit" for limit
    using that
    by (auto simp: expires_after_def truthy_str_def truthy_num_def getCommonHeaders_def split: option.splits)
  have "js_add (Fin (of_int now)) (Fin 60) = Fin (of_int (now + 60))"
    using js_add_int [of now 60] assms by simp
  then show ?thesis using headers [of "Fin (of_int now)"] headers [of "Fin (of_int (now + 60))"]
    by (auto simp: fresh_headers_now_def fresh_headers_after_def split: outcome.splits)
qed

theorem fresh_headers_are_fresh_witness:
  "fresh_headers_now (Fin (of_int 100)) (tab_auth demo_tab) =
     Some [(''Content-Type'', ''application/json''), (''Authorization'', ''Bearer tok'')] \<and>
   (\<exists>exp. au_accessExpiresAt (tab_auth demo_tab) = Some exp \<and> js_lt (Fin (of_int (100 + 60))) exp)"
proof -
  have "js_add (Fin 100) (Fin 60) = Fin 160" using js_add_int [of 100 60] by simp
  then have "fresh_headers_now (Fin (of_int 100)) (tab_auth demo_tab) =
     Some [(''Content-Type'', ''application/json''), (''Authorization'', ''Bearer tok'')]"
    by (simp add: fresh_headers_now_def expires_after_def demo_tab_def demo_bundle_def setBundle_def truthy_str_def
        truthy_num_def num_truthy_def getCommonHeaders_def)
  with fresh_headers_are_fresh [of 100 "tab_auth demo_tab" Anonymous] show ?thesis by auto
qed

section \<open>The tabs of a browser\<close>

text \<open>C15. Signing out in one tab signs out the others of the same session: the event that is published reaches a tab
  of another identity within a minute, empties its store and its cached answers, sends it to the sign-in
  page, makes any refresh in flight there stale, and is not published again.  A tab of another session
  is not touched.  In a browser without broadcast channels, whose storage takes the event, the two storage events
  of the publication deliver it exactly once.\<close>

theorem sign_out_reaches_other_tabs:
  assumes "tab_run locks tab_init as a" "current_sid a = Some sid"
    and "tab_run locks' tab_init as' (pg_tab p)"
    and "publishAuthSessionEvent source nonce (Fin (of_int sent)) kind sid' = Some v"
    and "tab_published (clearAuthenticatedClientState True a) = tab_published a @ [(kind, sid')]"
    and "source \<noteq> receiver" "0 \<le> sent" "sent \<le> now" "now < sent + 60000" "now \<le> 2 ^ 53"
  shows "(current_sid (pg_tab p) = Some sid \<longrightarrow>
      (let q = receive receiver (Fin (of_int now)) v p in
        tab_auth (pg_tab q) = reset_auth BComplete (tab_auth (pg_tab p)) \<and> tab_queries (pg_tab q) = [] \<and>
        pg_path q = ''/sign-in'' \<and> stale (pg_tab q) \<and> tab_published (pg_tab q) = tab_published (pg_tab p))) \<and>
    (current_sid (pg_tab p) \<noteq> Some sid \<longrightarrow> receive receiver (Fin (of_int now)) v p = p) \<and>
    (accepts AUTH_SYNC_STORAGE_KEY (json_text v) \<longrightarrow>
      map (handleStorage receiver (Fin (of_int now))) (publish_by_storage accepts (Some v)) =
        [Some \<lparr>ev_kind = SyncSignedOut, ev_sid = sid, ev_source = source, ev_nonce = nonce,
              ev_timestamp = Fin (of_int sent)\<rparr>, None])"
proof -
  have "sid \<noteq> []" using assms(2,5)
    by (auto simp: clearAuthenticatedClientState_def clearAuthentication_def current_sid_def publish_def)
  then have "kind = SyncSignedOut" "sid' = sid" using assms(2,5)
    by (auto simp: clearAuthenticatedClientState_def clearAuthentication_def current_sid_def publish_def)
  moreover have "tab_ok (pg_tab p)" using run_ok [OF assms(3) init_ok] .
  moreover have "json_num_ok (Fin (of_int sent))"
    using representable_of_int [of sent] assms(7-10) by (simp add: number_reads_back)
  ultimately show ?thesis
    using deliver_published [OF assms(4) js_diff_recent [OF assms(7-10)], of receiver] assms(6) \<open>sid \<noteq> []\<close>
      storage_delivers_once [OF _ assms(4), of accepts receiver "Fin (of_int now)"]
    by (auto simp: receive_def root_event_def Let_def truthy_str_def clearAuthenticatedClientState_def
        clearAuthentication_def current_sid_def intro!: ok_bumped_stale [of "pg_tab p"])
qed

theorem sign_out_reaches_other_tabs_witness:
  "let v = the (publishAuthSessionEvent ''A'' ''n'' (Fin (of_int 5)) SyncSignedOut ''s1'');
       p = \<lparr>pg_tab = demo_tab, pg_path = ''/console'', pg_reloads = 0\<rparr>
   in au_session (tab_auth (pg_tab (receive ''B'' (Fin (of_int 9)) v p))) = None"
proof -
  let ?v = "the (publishAuthSessionEvent ''A'' ''n'' (Fin (of_int 5)) SyncSignedOut ''s1'')"
  let ?p = "\<lparr>pg_tab = demo_tab, pg_path = ''/console'', pg_reloads = 0\<rparr>"
  have sid: "current_sid demo_tab = Some ''s1''"
    by (simp add: current_sid_def demo_tab_def demo_bundle_def demo_session_def setBundle_def)
  have run: "tab_run True tab_init [ALogin demo_bundle True] (pg_tab ?p)" using demo_run by simp
  have v: "publishAuthSessionEvent ''A'' ''n'' (Fin (of_int 5)) SyncSignedOut ''s1'' = Some ?v"
    by (simp add: publishAuthSessionEvent_def)
  have "tab_published (clearAuthenticatedClientState True demo_tab) = tab_published demo_tab @ [(SyncSignedOut, ''s1'')]"
    using sid by (simp add: clearAuthenticatedClientState_def clearAuthentication_def current_sid_def publish_def)
      (auto simp: publish_def)
  from sign_out_reaches_other_tabs [OF demo_run sid run v this, of "''B''" 9] sid
  have "tab_auth (pg_tab (receive ''B'' (Fin (of_int 9)) ?v ?p)) = reset_auth BComplete (tab_auth demo_tab)"
    by (simp add: Let_def)
  then show ?thesis by (simp add: Let_def reset_auth_def)
qed

section \<open>The HTTP client\<close>

text \<open>C16. A request is sent at most twice, whatever the answers, the outcomes of the refreshes and the rest of the page
  do; a request that was already retried and is answered 401 is thrown back, with the session cleared and
  the page at the sign-in page.\<close>

theorem request_sent_at_most_twice:
  assumes "request_step\<^sup>*\<^sup>* (RSent 1 cfg, c) (s, c')"
  shows "sends s \<le> 2 \<and>
    (case s of
       RSent n cfg' \<Rightarrow> n = 2 \<longrightarrow>
         (let (next, c'') = on_error (Some cfg') error_401 c'
          in next = Throw \<and> tab_auth (pg_tab c'') = reset_auth BComplete (tab_auth (pg_tab c')) \<and>
             pg_path c'' = ''/sign-in'')
     | _ \<Rightarrow> True)"
proof -
  have ok: "request_ok s" using request_run_ok [OF assms] by simp
  then have "sends s \<le> 2" by (rule request_ok_sends)
  moreover have "error_status error_401 = JNum (Fin 401)"
    by (simp add: error_401_def error_status_def jget_def)
  ultimately show ?thesis using ok
    by (cases s) (auto simp: on_error_def Let_def)
qed

theorem request_sent_at_most_twice_witness:
  "sends (fst (RWaiting 1 (demo_config\<lparr>rc_authRetry := True\<rparr>), demo_client)) \<le> 2"
proof -
  have "on_error (Some demo_config) error_401 demo_client =
    (AwaitRefresh (demo_config\<lparr>rc_authRetry := True\<rparr>), demo_client)"
    by (simp add: on_error_def demo_config_def error_401_def error_status_def jget_def)
  from awaits [OF this, of 1] show ?thesis using request_sent_at_most_twice by fastforce
qed

text \<open>C17. A shared request is the only one of its key in flight: \<open>api.get\<close> returns a request of the asked key that has
  not settled, and it is the one such shared request there was, if there was one.  Requests of different
  sessions are never shared.\<close>

theorem shared_request_is_unique:
  assumes "get_reach s g" and "api_get False sid url params g = (i, g')"
  shows "gs_sent g' ! i = request_key sid url params \<and> i \<in> gs_open g' \<and>
    (\<forall>j \<in> s \<inter> gs_open g. gs_sent g ! j = request_key sid url params \<longrightarrow> j = i) \<and>
    (\<forall>a b url' params'. sid = Some a \<longrightarrow> gs_sent g' ! i = request_key (Some b) url' params' \<longrightarrow>
       a \<noteq> [] \<longrightarrow> b \<noteq> [] \<longrightarrow> CHR '':'' \<notin> set a \<union> set b \<longrightarrow> a = b)"
proof -
  have ok: "gs_ok s g" by (rule get_ok [OF assms(1)])
  have main: "gs_sent g' ! i = request_key sid url params \<and> i \<in> gs_open g' \<and>
    (\<forall>j \<in> s \<inter> gs_open g. gs_sent g ! j = request_key sid url params \<longrightarrow> j = i)"
  proof (cases "gs_inFlight g (request_key sid url params)")
    case None
    with gs_okD(3) [OF ok, of "request_key sid url params"] assms(2) show ?thesis
      by (auto simp: api_get_def original_get_def Let_def)
  next
    case (Some j)
    then have "i = j" "g' = g" using assms(2) by (auto simp: api_get_def Let_def)
    with Some gs_okD(3) [OF ok, of "request_key sid url params"] show ?thesis by (metis Int_iff option.inject)
  qed
  have "a = b" if "sid = Some a" "gs_sent g' ! i = request_key (Some b) url' params'" "a \<noteq> []" "b \<noteq> []"
    "CHR '':'' \<notin> set a \<union> set b" for a b url' params'
    using request_key_session [of a url params b url' params'] that main by simp
  with main show ?thesis by blast
qed

theorem shared_request_is_unique_witness:
  "fst (api_get False (Some ''s1'') ''/api/models'' None
     (snd (api_get False (Some ''s1'') ''/api/models'' None gs_init))) = 0"
proof -
  let ?g = "snd (api_get False (Some ''s1'') ''/api/models'' None gs_init)"
  have "api_get False (Some ''s1'') ''/api/models'' None gs_init = (0, ?g)"
    by (simp add: api_get_def original_get_def gs_init_def Let_def)
  then have reach: "get_reach {0} ?g" using get_shared [OF get_start] by fastforce
  have "gs_open ?g = {0}" "gs_sent ?g ! 0 = request_key (Some ''s1'') ''/api/models'' None"
    by (simp_all add: api_get_def original_get_def gs_init_def Let_def)
  with shared_request_is_unique [OF reach, of "Some ''s1''" "''/api/models''" None] show ?thesis
    by (metis (no_types, lifting) IntI insertI1 prod.collapse)
qed

section \<open>Findings\<close>

text \<open>The form for the second factor stores an answer without a token.\<close>

lemma second_factor_unvalidated:
  "\<exists>b t. tab_run locks tab_init [AVerified b] t \<and> au_accessToken (tab_auth t) = Some [] \<and> au_session (tab_auth t) \<noteq> None"
proof -
  let ?b = "demo_bundle\<lparr>ab_access_token := []\<rparr>"
  have "tab_run locks tab_init [AVerified ?b] (applyAuthBundle ?b True tab_init)" by (rule run_cons [OF s_verified run_nil])
  then show ?thesis by (intro exI [of _ ?b] exI [of _ "applyAuthBundle ?b True tab_init"]) (simp add: setBundle_def)
qed


text \<open>
  \<open>performRefreshWithBrowserLock\<close> returns the promise of the lock without waiting for it inside its
  \<open>try\<close>, so a rejection of the lock is not caught: the start-up state stays \<open>checking\<close> instead of going
  back to \<open>idle\<close>.
\<close>

lemma rejected_lock_leaves_checking:
  "\<exists>t. tab_run True tab_init [ABootstrap (Fin 0), ALockRejected] t \<and>
     au_bootstrapState (tab_auth t) = BChecking \<and> tab_refresh t = None"
proof -
  let ?t = "snd (bootstrapAuthentication True (Fin 0) tab_init)"
  have t: "tab_refresh ?t = Some (0, PLocked)" "au_bootstrapState (tab_auth ?t) = BChecking"
    by (simp_all add: bootstrapAuthentication_def currentValidAuthBundle_def tab_init_def auth_init_def
        refreshAuthentication_def setBootstrapState_def)
  have "tab_run True tab_init [ABootstrap (Fin 0), ALockRejected] (?t\<lparr>tab_refresh := None\<rparr>)"
    using t(1) by (intro run_cons [OF s_bootstrap] run_cons [OF _ run_nil] s_rejected)
  with t(2) show ?thesis by auto
qed

end
