(* ===== verification/Chat_Messages.thy ===== *)
theory Chat_Messages
  imports JS_Json_Text
begin

text \<open>
  The messages of the playground (\<open>web/src/features/playground/types.ts\<close> and \<open>lib/message\<close>): their
  creation, the separation of reasoning from visible text, timing, the application of streamed chunks
  and of complete answers, and the edits of a conversation.  The identifiers of \<open>nanoid\<close> and the clock
  are arguments; the clock is read once per operation.
\<close>

section \<open>Data\<close>

datatype role = User | Assistant | System

datatype status = Loading | Streaming | Complete | Error

record version =
  mv_id :: string
  mv_content :: string

record reasoning =
  rs_content :: string
  rs_duration :: jsnum
  rs_startedAt :: "jsnum option"
  rs_completedAt :: "jsnum option"
  rs_durationMs :: "jsnum option"

text \<open>\<open>m_errorCode\<close> tells \<open>undefined\<close> (\<open>None\<close>) from \<open>null\<close> (\<open>Some None\<close>).\<close>

record message =
  m_key :: string
  m_from :: role
  m_versions :: "version list"
  m_createdAt :: "jsnum option"
  m_startedAt :: "jsnum option"
  m_completedAt :: "jsnum option"
  m_durationMs :: "jsnum option"
  m_sources :: "(string \<times> string) list option"
  m_reasoning :: "reasoning option"
  m_isReasoningStreaming :: "bool option"
  m_isReasoningComplete :: "bool option"
  m_isContentComplete :: "bool option"
  m_status :: "status option"
  m_errorCode :: "string option option"

definition or_else :: "'a option \<Rightarrow> 'a option \<Rightarrow> 'a option" where
  "or_else a b = (case a of Some x \<Rightarrow> Some x | None \<Rightarrow> b)"

section \<open>message-utils.ts\<close>

definition createMessageVersion :: "string \<Rightarrow> string \<Rightarrow> version" where
  "createMessageVersion vid content = \<lparr>mv_id = vid, mv_content = content\<rparr>"

definition getCurrentVersion :: "message \<Rightarrow> version" where
  "getCurrentVersion message =
     (case m_versions message of v # _ \<Rightarrow> v | [] \<Rightarrow> \<lparr>mv_id = ''default'', mv_content = []\<rparr>)"

definition getMessageContent :: "message \<Rightarrow> string" where
  "getMessageContent message = mv_content (getCurrentVersion message)"

definition hasMessageContent :: "message \<Rightarrow> bool" where
  "hasMessageContent message \<longleftrightarrow> js_trim (getMessageContent message) \<noteq> []"

definition updateCurrentVersionContent :: "message \<Rightarrow> string \<Rightarrow> message" where
  "updateCurrentVersionContent message content =
     message\<lparr>m_versions := [(getCurrentVersion message)\<lparr>mv_content := content\<rparr>]\<rparr>"

definition createUserMessage :: "string \<Rightarrow> string \<Rightarrow> string \<Rightarrow> jsnum \<Rightarrow> message" where
  "createUserMessage key vid content createdAt =
     \<lparr>m_key = key, m_from = User, m_versions = [createMessageVersion vid content], m_createdAt = Some createdAt,
      m_startedAt = None, m_completedAt = None, m_durationMs = None, m_sources = None, m_reasoning = None,
      m_isReasoningStreaming = None, m_isReasoningComplete = None, m_isContentComplete = None, m_status = None,
      m_errorCode = None\<rparr>"

definition createLoadingAssistantMessage :: "string \<Rightarrow> string \<Rightarrow> jsnum \<Rightarrow> message" where
  "createLoadingAssistantMessage key vid startedAt =
     \<lparr>m_key = key, m_from = Assistant, m_versions = [createMessageVersion vid []], m_createdAt = Some startedAt,
      m_startedAt = Some startedAt, m_completedAt = None, m_durationMs = None, m_sources = None, m_reasoning = None,
      m_isReasoningStreaming = Some False, m_isReasoningComplete = Some False, m_isContentComplete = Some False,
      m_status = Some Loading, m_errorCode = None\<rparr>"

datatype part = TextPart string | ImagePart string

datatype content = Plain string | Parts "part list"

definition buildMessageContent :: "string \<Rightarrow> string list \<Rightarrow> content" where
  "buildMessageContent txt imageUrls =
     (let validImages = filter (\<lambda>url. js_trim url \<noteq> []) imageUrls
      in if validImages = [] then Plain txt
         else Parts (TextPart txt # map (\<lambda>url. ImagePart (js_trim url)) validImages))"

definition getTextContent :: "content \<Rightarrow> string" where
  "getTextContent c =
     (case c of
        Plain s \<Rightarrow> s
      | Parts ps \<Rightarrow>
          (case find (\<lambda>p. case p of TextPart _ \<Rightarrow> True | ImagePart _ \<Rightarrow> False) ps of
             Some (TextPart s) \<Rightarrow> s | _ \<Rightarrow> []))"

definition formatMessageForAPI :: "message \<Rightarrow> role \<times> string" where
  "formatMessageForAPI message = (m_from message, mv_content (getCurrentVersion message))"

definition isValidMessage :: "message \<Rightarrow> bool" where
  "isValidMessage message \<longleftrightarrow> m_versions message \<noteq> [] \<and> \<not> (m_from message = Assistant \<and> \<not> hasMessageContent message)"

section \<open>message-reasoning-utils.ts\<close>

text \<open>\<open>s.indexOf(p, i)\<close> for a non-empty \<open>p\<close>.\<close>

definition index_from :: "string \<Rightarrow> string \<Rightarrow> nat \<Rightarrow> nat option" where
  "index_from s p i = find (\<lambda>j. js_starts_with (drop j s) p) [i..<length s]"

definition think_open :: string where "think_open = ''<think>''"
definition think_close :: string where "think_close = ''</think>''"

lemma index_from_Some:
  assumes "index_from s p i = Some j"
  shows "i \<le> j" "j < length s" "js_starts_with (drop j s) p" "j + length p \<le> length s"
    "\<And>k. i \<le> k \<Longrightarrow> k < j \<Longrightarrow> \<not> js_starts_with (drop k s) p"
proof -
  from assms have j: "i \<le> j" "j < length s" "js_starts_with (drop j s) p"
    by (auto simp: index_from_def find_Some_iff)
  then show "i \<le> j" "j < length s" "js_starts_with (drop j s) p" by auto
  from j(3) obtain t where "drop j s = p @ t" by (auto simp: js_starts_with_iff)
  then have "length s - j = length p + length t" by (metis length_append length_drop)
  with j(2) show "j + length p \<le> length s" by simp
  fix k assume "i \<le> k" "k < j"
  with assms show "\<not> js_starts_with (drop k s) p"
    by (auto simp: index_from_def find_Some_iff dest: spec [of _ "k - i"])
qed

function think_loop :: "string \<Rightarrow> nat \<Rightarrow> string list \<Rightarrow> string list \<Rightarrow> string list \<times> string list \<times> bool" where
  "think_loop content currentPos visibleParts reasoningParts =
     (case index_from content think_open currentPos of
        None \<Rightarrow>
          (if currentPos < length content then visibleParts @ [drop currentPos content] else visibleParts,
           reasoningParts, False)
      | Some openPos \<Rightarrow>
          (let visible = (if openPos > currentPos then visibleParts @ [js_slice content currentPos openPos]
                          else visibleParts)
           in case index_from content think_close (openPos + 7) of
                None \<Rightarrow> (visible, reasoningParts @ [drop (openPos + 7) content], True)
              | Some closePos \<Rightarrow>
                  think_loop content (closePos + 8) visible
                    (reasoningParts @ [js_slice content (openPos + 7) closePos])))"
  by pat_completeness auto
termination think_loop
proof (relation "measure (\<lambda>(content, pos, _). length content - pos)", goal_cases)
  case (2 content pos vis reas openPos visible closePos)
  then show ?case using index_from_Some [OF 2(1)] index_from_Some [OF 2(3)] by (simp add: think_close_def)
qed simp

declare think_loop.simps [simp del]

record think_tags =
  tt_visibleContent :: string
  tt_reasoning :: string
  tt_hasUnclosedTag :: bool

definition newline :: char where "newline = CHR 0x0A"

definition parseThinkTags :: "string \<Rightarrow> think_tags" where
  "parseThinkTags content =
     (if \<not> js_includes content think_open then
        \<lparr>tt_visibleContent = content, tt_reasoning = [], tt_hasUnclosedTag = False\<rparr>
      else
        (let (visibleParts, reasoningParts, hasUnclosedTag) = think_loop content 0 [] []
         in \<lparr>tt_visibleContent = js_trim (concat visibleParts),
             tt_reasoning = js_trim (js_join [newline, newline] reasoningParts),
             tt_hasUnclosedTag = hasUnclosedTag\<rparr>))"

section \<open>message-timing-utils.ts\<close>

definition completeAssistantTiming :: "jsnum \<Rightarrow> message \<Rightarrow> message" where
  "completeAssistantTiming completedAt message =
     (if m_from message \<noteq> Assistant then message
      else
        (let startedAt = coalesce (or_else (m_startedAt message) (m_createdAt message)) completedAt
         in message\<lparr>m_startedAt := Some startedAt, m_completedAt := Some completedAt,
              m_durationMs := Some (js_max2 (Fin 0) (js_sub completedAt startedAt))\<rparr>))"

definition startReasoningTiming :: "jsnum \<Rightarrow> message \<Rightarrow> reasoning" where
  "startReasoningTiming startedAt message =
     (case m_reasoning message of
        None \<Rightarrow> \<lparr>rs_content = [], rs_duration = Fin 0, rs_startedAt = Some startedAt, rs_completedAt = None,
          rs_durationMs = None\<rparr>
      | Some r \<Rightarrow> r\<lparr>rs_startedAt := Some (coalesce (rs_startedAt r) startedAt)\<rparr>)"

definition completeReasoningTiming :: "jsnum \<Rightarrow> message \<Rightarrow> message" where
  "completeReasoningTiming completedAt message =
     (case m_reasoning message of
        None \<Rightarrow> message
      | Some r \<Rightarrow>
          if rs_durationMs r \<noteq> None then message
          else
            (let startedAt = coalesce (or_else (rs_startedAt r) (m_startedAt message)) completedAt;
                 durationMs = js_max2 (Fin 0) (js_sub completedAt startedAt)
             in message\<lparr>m_reasoning := Some (r\<lparr>rs_startedAt := Some startedAt, rs_completedAt := Some completedAt,
                  rs_durationMs := Some durationMs, rs_duration := js_ceil (js_div durationMs (Fin 1000))\<rparr>)\<rparr>))"

section \<open>message-streaming-utils.ts\<close>

definition processStreamingContent :: "jsnum \<Rightarrow> message \<Rightarrow> string \<Rightarrow> message" where
  "processStreamingContent now message contentChunk =
     (let fullContent = mv_content (getCurrentVersion message) @ contentChunk
      in if m_reasoning message = None \<and> \<not> js_includes fullContent think_open then
           (updateCurrentVersionContent message fullContent)\<lparr>m_isReasoningStreaming := Some False\<rparr>
         else
           (let tags = parseThinkTags fullContent;
                finalReasoning = (if tt_reasoning tags \<noteq> []
                  then Some ((startReasoningTiming now message)\<lparr>rs_content := tt_reasoning tags\<rparr>)
                  else m_reasoning message)
            in (updateCurrentVersionContent message fullContent)\<lparr>m_reasoning := finalReasoning,
                 m_isReasoningStreaming := Some (tt_hasUnclosedTag tags)\<rparr>))"

datatype chunk_type = ReasoningChunk | ContentChunk

definition getAppendableChunk :: "string \<Rightarrow> string \<Rightarrow> string" where
  "getAppendableChunk currentContent chunk =
     (if currentContent = [] \<or> \<not> js_starts_with chunk currentContent then chunk
      else drop (length currentContent) chunk)"

definition applyStreamingChunk :: "jsnum \<Rightarrow> message \<Rightarrow> chunk_type \<Rightarrow> string \<Rightarrow> message" where
  "applyStreamingChunk now message type chunk =
     (if m_status message = Some Error then message
      else case type of
          ReasoningChunk \<Rightarrow>
            (let reasoning = startReasoningTiming now message
             in message\<lparr>m_reasoning :=
                  Some (reasoning\<lparr>rs_content := rs_content reasoning @ getAppendableChunk (rs_content reasoning) chunk\<rparr>),
                  m_isReasoningStreaming := Some True, m_status := Some Streaming\<rparr>)
        | ContentChunk \<Rightarrow>
            (let currentVersion = getCurrentVersion message;
                 contentMessage = processStreamingContent now message
                   (getAppendableChunk (mv_content currentVersion) chunk)
             in (if m_isReasoningStreaming contentMessage = Some True then contentMessage
                 else completeReasoningTiming now contentMessage)\<lparr>m_status := Some Streaming\<rparr>))"

text \<open>\<open>apiReasoningContent\<close> is empty when it is absent: both are falsy.\<close>

definition finalizeMessage :: "jsnum \<Rightarrow> message \<Rightarrow> string \<Rightarrow> message" where
  "finalizeMessage now message apiReasoningContent =
     (let content = mv_content (getCurrentVersion message);
          tags = (if js_includes content think_open then Some (parseThinkTags content) else None);
          visibleContent = (case tags of Some t \<Rightarrow> tt_visibleContent t | None \<Rightarrow> content);
          own = (case m_reasoning message of Some r \<Rightarrow> rs_content r | None \<Rightarrow> []);
          finalReasoning = (if apiReasoningContent \<noteq> [] then apiReasoningContent
            else if own \<noteq> [] then own
            else case tags of Some t \<Rightarrow> tt_reasoning t | None \<Rightarrow> [])
      in completeReasoningTiming now
           ((updateCurrentVersionContent message visibleContent)\<lparr>m_reasoning :=
              (if finalReasoning \<noteq> [] then Some ((startReasoningTiming now message)\<lparr>rs_content := finalReasoning\<rparr>)
               else None),
              m_isReasoningStreaming := Some False\<rparr>))"

definition completeAssistantMessage :: "jsnum \<Rightarrow> message \<Rightarrow> message" where
  "completeAssistantMessage now message =
     completeAssistantTiming now ((finalizeMessage now message [])\<lparr>m_status := Some Complete\<rparr>)"

definition isAssistantMessageFinal :: "message \<Rightarrow> bool" where
  "isAssistantMessageFinal message \<longleftrightarrow> m_status message = Some Complete \<or> m_status message = Some Error"

definition isAssistantMessagePending :: "message \<Rightarrow> bool" where
  "isAssistantMessagePending message \<longleftrightarrow> m_status message = Some Loading \<or> m_status message = Some Streaming"

definition isPendingAssistantMessage :: "message \<Rightarrow> bool" where
  "isPendingAssistantMessage message \<longleftrightarrow> m_from message = Assistant \<and> isAssistantMessagePending message"

text \<open>A choice of a complete answer: its text and its reasoning, each possibly absent.\<close>

record choice =
  ch_content :: "string option"
  ch_reasoning_content :: "string option"
  ch_reasoning :: "string option"

definition hasChatCompletionChoice :: "choice list \<Rightarrow> bool" where
  "hasChatCompletionChoice choices \<longleftrightarrow> choices \<noteq> []"

definition applyChatCompletionChoice :: "jsnum \<Rightarrow> message \<Rightarrow> choice \<Rightarrow> message" where
  "applyChatCompletionChoice now message choice =
     completeAssistantTiming now
       ((finalizeMessage now (updateCurrentVersionContent message (coalesce (ch_content choice) []))
           (coalesce (or_else (ch_reasoning_content choice) (ch_reasoning choice)) []))\<lparr>m_status := Some Complete\<rparr>)"

definition applyChatCompletionResponse :: "jsnum \<Rightarrow> message \<Rightarrow> choice list \<Rightarrow> message option" where
  "applyChatCompletionResponse now message choices =
     (case choices of [] \<Rightarrow> None | choice # _ \<Rightarrow> Some (applyChatCompletionChoice now message choice))"

definition last_pending :: "message list \<Rightarrow> nat option" where
  "last_pending messages = find (\<lambda>i. isPendingAssistantMessage (messages ! i)) (rev [0..<length messages])"

text \<open>\<open>tr\<close> is the translation of a text.\<close>

definition sanitizeMessagesOnLoad :: "(string \<Rightarrow> string) \<Rightarrow> jsnum \<Rightarrow> message list \<Rightarrow> message list" where
  "sanitizeMessagesOnLoad tr now messages =
     (case last_pending messages of
        None \<Rightarrow> messages
      | Some targetIndex \<Rightarrow>
          (let finalized = finalizeMessage now (messages ! targetIndex) [];
               hasContent = hasMessageContent finalized;
               hasReasoning = (case m_reasoning finalized of Some r \<Rightarrow> js_trim (rs_content r) \<noteq> [] | None \<Rightarrow> False);
               sanitized = (if hasContent \<or> hasReasoning then
                   completeAssistantTiming now (finalized\<lparr>m_status := Some Complete, m_isReasoningStreaming := Some False\<rparr>)
                 else
                   completeAssistantTiming now ((updateCurrentVersionContent finalized
                     (tr ''Request error occurred'' @ '': '' @ tr ''Generation was interrupted''))
                     \<lparr>m_status := Some Error, m_isReasoningStreaming := Some False\<rparr>))
           in messages[targetIndex := sanitized]))"

section \<open>message-update-utils.ts\<close>

definition updateLastAssistantMessage :: "message list \<Rightarrow> (message \<Rightarrow> message) \<Rightarrow> message list" where
  "updateLastAssistantMessage messages updater =
     (if messages = [] then messages
      else if m_from (last messages) \<noteq> Assistant then messages
      else butlast messages @ [updater (last messages)])"

definition updateAssistantMessageWithError ::
    "jsnum \<Rightarrow> message list \<Rightarrow> string \<Rightarrow> string option \<Rightarrow> string \<Rightarrow> message list" where
  "updateAssistantMessageWithError now messages errorMessage errorCode title =
     updateLastAssistantMessage messages (\<lambda>message.
       completeAssistantTiming now
         ((updateCurrentVersionContent message (title @ '': '' @ errorMessage))
            \<lparr>m_status := Some Error, m_isReasoningStreaming := Some False,
             m_errorCode := Some (if errorCode = Some [] then None else errorCode)\<rparr>))"

section \<open>conversation-message-utils.ts\<close>

text \<open>\<open>ids\<close> are the four identifiers the two new messages take.\<close>

definition appendUserMessagePair ::
    "string \<times> string \<times> string \<times> string \<Rightarrow> jsnum \<Rightarrow> message list \<Rightarrow> string \<Rightarrow> message list" where
  "appendUserMessagePair ids submittedAt messages content =
     (case ids of (k1, v1, k2, v2) \<Rightarrow>
        messages @ [createUserMessage k1 v1 content submittedAt, createLoadingAssistantMessage k2 v2 submittedAt])"

definition createRegeneratedMessages :: "string \<Rightarrow> string \<Rightarrow> jsnum \<Rightarrow> message list \<Rightarrow> string \<Rightarrow> message list option" where
  "createRegeneratedMessages key vid now messages messageKey =
     (case find_index (\<lambda>m. m_key m = messageKey) messages of
        None \<Rightarrow> None
      | Some i \<Rightarrow>
          Some ((if m_from (messages ! i) = User then take (i + 1) messages else take i messages) @
            [createLoadingAssistantMessage key vid now]))"

definition removeMessageByKey :: "message list \<Rightarrow> string \<Rightarrow> message list" where
  "removeMessageByKey messages messageKey = filter (\<lambda>m. m_key m \<noteq> messageKey) messages"

definition getPreviousUserMessage :: "message list \<Rightarrow> nat \<Rightarrow> message option" where
  "getPreviousUserMessage messages beforeIndex =
     find (\<lambda>m. m_from m = User) (rev (take beforeIndex messages))"

definition applyMessageEdit ::
    "string \<Rightarrow> string \<Rightarrow> jsnum \<Rightarrow> message list \<Rightarrow> string \<Rightarrow> string \<Rightarrow> bool \<Rightarrow> (message list \<times> bool) option" where
  "applyMessageEdit key vid submittedAt messages messageKey content shouldSubmit =
     (case find_index (\<lambda>m. m_key m = messageKey) messages of
        None \<Rightarrow> None
      | Some i \<Rightarrow>
          (let updated = map (\<lambda>m. if m_key m = messageKey then
                 (updateCurrentVersionContent m content)\<lparr>m_createdAt :=
                   (if shouldSubmit then Some submittedAt else m_createdAt m)\<rparr> else m) messages
           in if \<not> shouldSubmit \<or> m_from (updated ! i) \<noteq> User then Some (updated, False)
              else Some (take (i + 1) updated @ [createLoadingAssistantMessage key vid submittedAt], True)))"

definition getEditingMessageContent :: "message list \<Rightarrow> string option \<Rightarrow> string" where
  "getEditingMessageContent messages editingKey =
     (case editingKey of
        None \<Rightarrow> []
      | Some k \<Rightarrow> if k = [] then []
          else case find (\<lambda>m. m_key m = k) messages of Some m \<Rightarrow> getMessageContent m | None \<Rightarrow> [])"

record render_state =
  rd_alwaysShowActions :: bool
  rd_content :: string
  rd_isEditing :: bool

definition getChatMessageRenderState :: "message list \<Rightarrow> message \<Rightarrow> nat \<Rightarrow> string option \<Rightarrow> render_state" where
  "getChatMessageRenderState messages message messageIndex editingKey =
     \<lparr>rd_alwaysShowActions = (int messageIndex = int (length messages) - 1 \<and> m_from message = Assistant),
      rd_content = getMessageContent message, rd_isEditing = (editingKey = Some (m_key message))\<rparr>"

section \<open>What is shown of a message\<close>

text \<open>\<open>message-content-utils.ts\<close>.\<close>

record content_state =
  cs_displayContent :: string
  cs_hasSources :: bool
  cs_isAssistant :: bool
  cs_showLoader :: bool
  cs_showMessageContent :: bool
  cs_sources :: "(string \<times> string) list"
  cs_reasoning :: "string option"

definition shouldShowMessageLoader :: "message \<Rightarrow> bool \<Rightarrow> string \<Rightarrow> bool" where
  "shouldShowMessageLoader message isAssistant versionContent \<longleftrightarrow>
     isAssistant \<and> m_isReasoningStreaming message \<noteq> Some True \<and>
     (m_status message = Some Loading \<or> m_status message = Some Streaming \<and> versionContent = [])"

definition shouldShowMessageContent :: "message \<Rightarrow> string \<Rightarrow> bool" where
  "shouldShowMessageContent message versionContent \<longleftrightarrow>
     (m_from message = User \<or> m_isReasoningStreaming message \<noteq> Some True) \<and> versionContent \<noteq> []"

definition getDisplayContent :: "message \<Rightarrow> string \<Rightarrow> string" where
  "getDisplayContent message versionContent =
     (if m_from message \<noteq> Assistant then versionContent
      else if \<not> js_includes versionContent think_open then versionContent
      else tt_visibleContent (parseThinkTags versionContent))"

text \<open>\<open>cs_reasoning\<close> is \<open>Some\<close> exactly when \<open>hasReasoning\<close>.\<close>

definition getMessageContentState :: "message \<Rightarrow> string \<Rightarrow> content_state" where
  "getMessageContentState message versionContent =
     (let isAssistant = (m_from message = Assistant);
          sources = coalesce (m_sources message) [];
          reasoningContent = (if isAssistant then map_option rs_content (m_reasoning message) else None)
      in \<lparr>cs_displayContent = getDisplayContent message versionContent, cs_hasSources = (sources \<noteq> []),
          cs_isAssistant = isAssistant,
          cs_showLoader = shouldShowMessageLoader message isAssistant versionContent,
          cs_showMessageContent = shouldShowMessageContent message versionContent, cs_sources = sources,
          cs_reasoning = (if reasoningContent = Some [] then None else reasoningContent)\<rparr>)"

text \<open>\<open>message-error-utils.ts\<close>, \<open>message-editor-utils.ts\<close>, \<open>message-action-utils.ts\<close> and
  \<open>message-layout-utils.ts\<close>.\<close>

definition isAdminRole :: "jsnum option \<Rightarrow> bool" where
  "isAdminRole role \<longleftrightarrow> (case role of None \<Rightarrow> False | Some r \<Rightarrow> js_le (Fin 10) r)"

definition isErrorMessage :: "message \<Rightarrow> bool" where
  "isErrorMessage message \<longleftrightarrow> m_status message = Some Error"

record error_state =
  es_content :: string
  es_modelPrice :: bool
  es_showSettingsLink :: bool

definition getMessageErrorState :: "message \<Rightarrow> bool \<Rightarrow> error_state option" where
  "getMessageErrorState message isAdmin =
     (if \<not> isErrorMessage message then None
      else
        (let content = (if getMessageContent message = [] then ''An unknown error occurred'' else getMessageContent message);
             isModelPriceError = (m_errorCode message = Some (Some ''model_price_error''))
         in Some \<lparr>es_content = content, es_modelPrice = isModelPriceError,
              es_showSettingsLink = (isModelPriceError \<and> isAdmin)\<rparr>))"

record editor_state =
  ed_canSave :: bool
  ed_hasChanged :: bool
  ed_showSaveAndSubmit :: bool

definition getMessageEditorState :: "message \<Rightarrow> string \<Rightarrow> string \<Rightarrow> editor_state" where
  "getMessageEditorState message editText originalText =
     \<lparr>ed_canSave = (js_trim editText \<noteq> [] \<and> editText \<noteq> originalText), ed_hasChanged = (editText \<noteq> originalText),
      ed_showSaveAndSubmit = (m_from message = User)\<rparr>"

record action_state =
  as_content :: string
  as_hasContent :: bool
  as_isAssistant :: bool
  as_isLoading :: bool
  as_isUser :: bool

definition getMessageActionState :: "message \<Rightarrow> action_state" where
  "getMessageActionState message =
     \<lparr>as_content = getMessageContent message, as_hasContent = hasMessageContent message,
      as_isAssistant = (m_from message = Assistant), as_isLoading = isAssistantMessagePending message,
      as_isUser = (m_from message = User)\<rparr>"

datatype layout_mode = Alternating | LeftLayout

datatype alignment = AlignLeft | AlignRight

definition getMessageAlignment :: "message \<Rightarrow> layout_mode \<Rightarrow> alignment" where
  "getMessageAlignment message layoutMode =
     (if layoutMode = LeftLayout then AlignLeft else if m_from message = User then AlignRight else AlignLeft)"

end
