(* ===== verification/Chat_Stream.thy ===== *)
theory Chat_Stream
  imports Chat_Messages
begin

text \<open>
  Streaming in the playground: the reading of server-sent events (\<open>lib/streaming\<close>), the controller of the
  event source (\<open>hooks/use-stream-request.ts\<close>) and the chat handler (\<open>hooks/use-chat-handler.ts\<close>) with
  the conversation (\<open>hooks/use-playground-conversation.ts\<close>).

  The updaters given to React wait in a queue and are applied by the next rendering, in order and against
  the state of that moment, as React documents it; \<open>render\<close> is that step.  The callbacks of a stream carry
  the generation of the chat they were made for.
\<close>

section \<open>Reading the stream\<close>

record error_details =
  sd_errorCode :: "string option"
  sd_errorMessage :: string

definition API_REQUEST_ERROR :: string where "API_REQUEST_ERROR = ''Request error occurred''"
definition PARSE_ERROR :: string where "PARSE_ERROR = ''Error parsing response data''"
definition STREAM_START_ERROR :: string where "STREAM_START_ERROR = ''Error establishing connection''"
definition CONNECTION_CLOSED :: string where "CONNECTION_CLOSED = ''Connection closed''"

definition ERROR_MESSAGES :: "string list" where
  "ERROR_MESSAGES = [API_REQUEST_ERROR, ''Network connection failed or server not responding'', PARSE_ERROR,
     STREAM_START_ERROR, CONNECTION_CLOSED, ''Generation was interrupted'']"

definition non_empty :: "string option \<Rightarrow> string option" where
  "non_empty s = (if s = Some [] then None else s)"

definition parseStreamErrorDetails :: "string option \<Rightarrow> error_details" where
  "parseStreamErrorDetails data =
     (let fallbackMessage = coalesce (non_empty data) API_REQUEST_ERROR;
          fallback = \<lparr>sd_errorCode = None, sd_errorMessage = fallbackMessage\<rparr>
      in case non_empty data of
           None \<Rightarrow> fallback
         | Some txt \<Rightarrow>
             (case json_parse txt of
                None \<Rightarrow> fallback
              | Some parsed \<Rightarrow>
                  if \<not> jtruthy (jget parsed ''error'') then fallback
                  else \<lparr>sd_errorCode = non_empty (jstr (jget (jget parsed ''error'') ''code'')),
                        sd_errorMessage = coalesce (non_empty (jstr (jget (jget parsed ''error'') ''message'')))
                          fallbackMessage\<rparr>))"

text \<open>\<open>None\<close> is the exception of \<open>JSON.parse\<close>, or of reading a field of \<open>null\<close>.\<close>

definition parseStreamMessageUpdates :: "string \<Rightarrow> (chunk_type \<times> string) list option" where
  "parseStreamMessageUpdates data =
     (case json_parse data of
        None \<Rightarrow> None
      | Some JNull \<Rightarrow> None
      | Some chunk \<Rightarrow>
          (let delta = jget (jfirst (jget chunk ''choices'')) ''delta'';
               reasoning = (case jget delta ''reasoning_content'' of
                   JUndefined \<Rightarrow> jget delta ''reasoning'' | JNull \<Rightarrow> jget delta ''reasoning'' | v \<Rightarrow> v)
           in if \<not> jtruthy delta then Some []
              else Some ((case non_empty (jstr reasoning) of Some s \<Rightarrow> [(ReasoningChunk, s)] | None \<Rightarrow> []) @
                         (case non_empty (jstr (jget delta ''content'')) of Some s \<Rightarrow> [(ContentChunk, s)] | None \<Rightarrow> []))))"

definition isStreamDoneMessage :: "string \<Rightarrow> bool" where
  "isStreamDoneMessage data \<longleftrightarrow> data = ''[DONE]''"

definition isStreamClosedReadyState :: "int option \<Rightarrow> bool" where
  "isStreamClosedReadyState readyState \<longleftrightarrow> readyState = Some 2"

definition getStreamReadyStateError :: "int option \<Rightarrow> jsnum option \<Rightarrow> string option" where
  "getStreamReadyStateError eventReadyState status =
     (case (eventReadyState, status) of
        (Some r, Some s) \<Rightarrow>
          if r \<ge> 2 \<and> \<not> js_eq s (Fin 200) then Some (''HTTP '' @ js_num_to_string s @ '': '' @ CONNECTION_CLOSED)
          else None
      | _ \<Rightarrow> None)"

text \<open>\<open>request-error-utils.ts\<close>.\<close>

definition parseRequestErrorDetails :: "jsval \<Rightarrow> error_details" where
  "parseRequestErrorDetails error =
     (let data = jget (jget error ''response'') ''data''
      in \<lparr>sd_errorCode = non_empty (jstr (jget (jget data ''error'') ''code'')),
          sd_errorMessage = coalesce (or_else (non_empty (jstr (jget data ''message'')))
            (non_empty (jstr (jget error ''message'')))) API_REQUEST_ERROR\<rparr>)"

section \<open>The request\<close>

record config =
  cf_model :: string
  cf_group :: string
  cf_temperature :: jsnum
  cf_top_p :: jsnum
  cf_max_tokens :: jsnum
  cf_frequency_penalty :: jsnum
  cf_presence_penalty :: jsnum
  cf_seed :: "jsnum option"
  cf_stream :: bool

record parameter_enabled =
  pe_temperature :: bool
  pe_top_p :: bool
  pe_max_tokens :: bool
  pe_frequency_penalty :: bool
  pe_presence_penalty :: bool
  pe_seed :: bool

record chat_request =
  rq_model :: string
  rq_group :: string
  rq_messages :: "(role \<times> string) list"
  rq_stream :: bool
  rq_temperature :: "jsnum option"
  rq_top_p :: "jsnum option"
  rq_max_tokens :: "jsnum option"
  rq_frequency_penalty :: "jsnum option"
  rq_presence_penalty :: "jsnum option"
  rq_seed :: "jsnum option"

definition only_if :: "bool \<Rightarrow> 'a \<Rightarrow> 'a option" where
  "only_if b x = (if b then Some x else None)"

definition buildChatCompletionPayload :: "message list \<Rightarrow> config \<Rightarrow> parameter_enabled \<Rightarrow> chat_request" where
  "buildChatCompletionPayload messages config enabled =
     \<lparr>rq_model = cf_model config, rq_group = cf_group config,
      rq_messages = map formatMessageForAPI (filter isValidMessage messages), rq_stream = cf_stream config,
      rq_temperature = only_if (pe_temperature enabled) (cf_temperature config),
      rq_top_p = only_if (pe_top_p enabled) (cf_top_p config),
      rq_max_tokens = only_if (pe_max_tokens enabled) (cf_max_tokens config),
      rq_frequency_penalty = only_if (pe_frequency_penalty enabled) (cf_frequency_penalty config),
      rq_presence_penalty = only_if (pe_presence_penalty enabled) (cf_presence_penalty config),
      rq_seed = (if pe_seed enabled then cf_seed config else None)\<rparr>"

section \<open>The controller of the event source\<close>

text \<open>A connection: the controller's generation of its request, whether it has completed, and the chat's
  generation of its callbacks.\<close>

record connection =
  cn_generation :: nat
  cn_completed :: bool
  cn_chat :: nat

text \<open>\<open>ct_waiting\<close> are the requests that wait for their headers, with the generations of controller and
  chat; sources are numbered as they are created.\<close>

record controller =
  ct_source :: "nat option"
  ct_generation :: nat
  ct_streaming :: bool
  ct_conns :: "connection list"
  ct_waiting :: "(nat \<times> nat) list"
  ct_closed :: "nat list"

datatype callback = CbUpdate chunk_type string | CbComplete | CbError string "string option"

definition close_source :: "nat option \<Rightarrow> controller \<Rightarrow> controller" where
  "close_source s c = (case s of Some n \<Rightarrow> c\<lparr>ct_closed := ct_closed c @ [n]\<rparr> | None \<Rightarrow> c)"

definition closeActiveSource :: "nat \<Rightarrow> controller \<Rightarrow> controller" where
  "closeActiveSource target c =
     (let c' = close_source (Some target) c
      in if ct_source c' = Some target then c'\<lparr>ct_source := None, ct_streaming := False\<rparr> else c')"

text \<open>\<open>send\<close> up to its wait for the headers, and after it.\<close>

definition send_begin :: "nat \<Rightarrow> controller \<Rightarrow> controller" where
  "send_begin chatGeneration c =
     (let requestGeneration = ct_generation c + 1
      in close_source (ct_source c) (c\<lparr>ct_generation := requestGeneration, ct_source := None, ct_streaming := False,
           ct_waiting := ct_waiting c @ [(requestGeneration, chatGeneration)]\<rparr>))"

definition send_refused :: "nat \<Rightarrow> string option \<Rightarrow> controller \<Rightarrow> callback list" where
  "send_refused requestGeneration message c =
     (if ct_generation c \<noteq> requestGeneration then []
      else [CbError (coalesce message STREAM_START_ERROR) None])"

definition send_ready :: "nat \<times> nat \<Rightarrow> controller \<Rightarrow> controller" where
  "send_ready w c =
     (if ct_generation c \<noteq> fst w then c
      else c\<lparr>ct_source := Some (length (ct_conns c)), ct_streaming := True,
        ct_conns := ct_conns c @ [\<lparr>cn_generation = fst w, cn_completed = False, cn_chat = snd w\<rparr>]\<rparr>)"

definition isCurrent :: "nat \<Rightarrow> controller \<Rightarrow> bool" where
  "isCurrent n c \<longleftrightarrow> n < length (ct_conns c) \<and> ct_generation c = cn_generation (ct_conns c ! n) \<and> ct_source c = Some n"

definition active :: "nat \<Rightarrow> controller \<Rightarrow> bool" where
  "active n c \<longleftrightarrow> isCurrent n c \<and> \<not> cn_completed (ct_conns c ! n)"

definition complete_conn :: "nat \<Rightarrow> controller \<Rightarrow> controller" where
  "complete_conn n c = c\<lparr>ct_conns := (ct_conns c)[n := (ct_conns c ! n)\<lparr>cn_completed := True\<rparr>]\<rparr>"

definition handleError :: "nat \<Rightarrow> string \<Rightarrow> string option \<Rightarrow> controller \<Rightarrow> callback list \<times> controller" where
  "handleError n errorMessage errorCode c =
     (if \<not> active n c then ([], c)
      else ([CbError errorMessage errorCode], closeActiveSource n (complete_conn n c)))"

text \<open>The listeners of \<open>message\<close>, \<open>error\<close> and \<open>readystatechange\<close>, and a failing \<open>stream()\<close>.\<close>

definition on_message :: "nat \<Rightarrow> string \<Rightarrow> controller \<Rightarrow> callback list \<times> controller" where
  "on_message n data c =
     (if \<not> active n c then ([], c)
      else if isStreamDoneMessage data then ([CbComplete], closeActiveSource n (complete_conn n c))
      else case parseStreamMessageUpdates data of
          Some updates \<Rightarrow> (map (\<lambda>(type, chunk). CbUpdate type chunk) updates, c)
        | None \<Rightarrow> handleError n PARSE_ERROR None c)"

definition on_stream_error :: "nat \<Rightarrow> int option \<Rightarrow> string option \<Rightarrow> controller \<Rightarrow> callback list \<times> controller" where
  "on_stream_error n readyState data c =
     (if \<not> active n c then ([], c)
      else if isStreamClosedReadyState readyState then ([], c)
      else (let d = parseStreamErrorDetails data in handleError n (sd_errorMessage d) (sd_errorCode d) c))"

definition on_ready_state :: "nat \<Rightarrow> int option \<Rightarrow> jsnum option \<Rightarrow> controller \<Rightarrow> callback list \<times> controller" where
  "on_ready_state n eventReadyState status c =
     (if \<not> active n c then ([], c)
      else case getStreamReadyStateError eventReadyState status of
          Some errorMessage \<Rightarrow> handleError n errorMessage None c
        | None \<Rightarrow> ([], c))"

definition stream_threw :: "nat \<Rightarrow> controller \<Rightarrow> callback list \<times> controller" where
  "stream_threw n c = (if \<not> active n c then ([], c) else handleError n STREAM_START_ERROR None c)"

definition cancel :: "bool \<Rightarrow> controller \<Rightarrow> controller" where
  "cancel notify c =
     (let c' = close_source (ct_source c) (c\<lparr>ct_generation := ct_generation c + 1, ct_source := None\<rparr>)
      in if notify then c'\<lparr>ct_streaming := False\<rparr> else c')"

section \<open>The chat handler\<close>

definition mergePendingStreamChunk :: "string \<Rightarrow> string \<Rightarrow> string" where
  "mergePendingStreamChunk currentChunk nextChunk =
     (if currentChunk = [] \<or> \<not> js_starts_with nextChunk currentChunk then currentChunk @ nextChunk else nextChunk)"

text \<open>The updaters, with the generation they were made in.\<close>

datatype updater =
    USet "message list"
  | URemove string
  | UFlush nat string string
  | UComplete nat
  | UError nat string "string option" string
  | UResponse nat "choice list"
  | UStop nat

definition flush_message :: "jsnum \<Rightarrow> string \<Rightarrow> string \<Rightarrow> message \<Rightarrow> message" where
  "flush_message now content reasoning message =
     (let m1 = (if reasoning \<noteq> [] then applyStreamingChunk now message ReasoningChunk reasoning else message)
      in if content \<noteq> [] then applyStreamingChunk now m1 ContentChunk content else m1)"

fun apply_updater :: "nat \<Rightarrow> jsnum \<Rightarrow> updater \<Rightarrow> message list \<Rightarrow> message list" where
  "apply_updater gen now (USet ms) prev = ms"
| "apply_updater gen now (URemove key) prev = removeMessageByKey prev key"
| "apply_updater gen now (UFlush g content reasoning) prev =
     (if g \<noteq> gen then prev else updateLastAssistantMessage prev (flush_message now content reasoning))"
| "apply_updater gen now (UComplete g) prev =
     (if g \<noteq> gen then prev
      else updateLastAssistantMessage prev
        (\<lambda>m. if isAssistantMessageFinal m then m else completeAssistantMessage now m))"
| "apply_updater gen now (UError g msg code title) prev =
     (if g \<noteq> gen then prev else updateAssistantMessageWithError now prev msg code title)"
| "apply_updater gen now (UResponse g choices) prev =
     (if g \<noteq> gen then prev
      else updateLastAssistantMessage prev (\<lambda>m. coalesce (applyChatCompletionResponse now m choices) m))"
| "apply_updater gen now (UStop g) prev =
     (if g \<noteq> gen then prev
      else updateLastAssistantMessage prev
        (\<lambda>m. if isAssistantMessagePending m then completeAssistantMessage now m else m))"

record pending =
  pd_generation :: nat
  pd_content :: string
  pd_reasoning :: string

record chat =
  c_messages :: "message list"
  c_queue :: "updater list"
  c_generation :: nat
  c_pending :: pending
  c_timer :: "nat option"
  c_requesting :: bool
  c_abort :: "nat option"
  c_toasts :: "string list"
  c_editing :: "string option"
  c_controller :: controller

definition chat_init :: "message list \<Rightarrow> chat" where
  "chat_init ms = \<lparr>c_messages = ms, c_queue = [], c_generation = 0,
     c_pending = \<lparr>pd_generation = 0, pd_content = [], pd_reasoning = []\<rparr>, c_timer = None, c_requesting = False,
     c_abort = None, c_toasts = [], c_editing = None,
     c_controller = \<lparr>ct_source = None, ct_generation = 0, ct_streaming = False, ct_conns = [], ct_waiting = [],
       ct_closed = []\<rparr>\<rparr>"

definition enqueue :: "updater \<Rightarrow> chat \<Rightarrow> chat" where
  "enqueue u c = c\<lparr>c_queue := c_queue c @ [u]\<rparr>"

definition render :: "jsnum \<Rightarrow> chat \<Rightarrow> chat" where
  "render now c = c\<lparr>c_messages := fold (apply_updater (c_generation c) now) (c_queue c) (c_messages c), c_queue := []\<rparr>"

definition discardPendingStreamUpdates :: "nat \<Rightarrow> chat \<Rightarrow> chat" where
  "discardPendingStreamUpdates generation c =
     c\<lparr>c_timer := None, c_pending := \<lparr>pd_generation = generation, pd_content = [], pd_reasoning = []\<rparr>\<rparr>"

definition flushStreamUpdates :: "nat \<Rightarrow> chat \<Rightarrow> chat" where
  "flushStreamUpdates generation c =
     (if generation \<noteq> c_generation c then c
      else
        (let c1 = c\<lparr>c_timer := None\<rparr>; p = c_pending c
         in if pd_generation p \<noteq> generation then c1
            else if pd_reasoning p = [] \<and> pd_content p = [] then c1
            else enqueue (UFlush generation (pd_content p) (pd_reasoning p))
              (c1\<lparr>c_pending := \<lparr>pd_generation = generation, pd_content = [], pd_reasoning = []\<rparr>\<rparr>)))"

definition scheduleStreamFlush :: "nat \<Rightarrow> chat \<Rightarrow> chat" where
  "scheduleStreamFlush generation c =
     (if generation \<noteq> c_generation c then c
      else case c_timer c of Some _ \<Rightarrow> c | None \<Rightarrow> c\<lparr>c_timer := Some generation\<rparr>)"

definition timer_fires :: "chat \<Rightarrow> chat" where
  "timer_fires c = (case c_timer c of None \<Rightarrow> c | Some generation \<Rightarrow> flushStreamUpdates generation c)"

text \<open>\<open>tr\<close> is the translation.\<close>

definition getDisplayError :: "(string \<Rightarrow> string) \<Rightarrow> string \<Rightarrow> string" where
  "getDisplayError tr error =
     (if error \<in> set ERROR_MESSAGES then tr error
      else
        (let suffix = '': '' @ CONNECTION_CLOSED
         in if drop (length error - length suffix) error = suffix
            then take (length error - length CONNECTION_CLOSED) error @ tr CONNECTION_CLOSED
            else error))"

definition add_pending :: "chunk_type \<Rightarrow> string \<Rightarrow> pending \<Rightarrow> pending" where
  "add_pending type chunk p =
     (case type of
        ContentChunk \<Rightarrow> p\<lparr>pd_content := mergePendingStreamChunk (pd_content p) chunk\<rparr>
      | ReasoningChunk \<Rightarrow> p\<lparr>pd_reasoning := mergePendingStreamChunk (pd_reasoning p) chunk\<rparr>)"

definition handleStreamUpdate :: "nat \<Rightarrow> chunk_type \<Rightarrow> string \<Rightarrow> chat \<Rightarrow> chat" where
  "handleStreamUpdate generation type chunk c =
     (if generation \<noteq> c_generation c then c
      else if pd_generation (c_pending c) \<noteq> generation then c
      else scheduleStreamFlush generation (c\<lparr>c_pending := add_pending type chunk (c_pending c)\<rparr>))"

definition handleStreamComplete :: "nat \<Rightarrow> chat \<Rightarrow> chat" where
  "handleStreamComplete generation c =
     (if generation \<noteq> c_generation c then c
      else enqueue (UComplete generation) ((flushStreamUpdates generation c)\<lparr>c_requesting := False\<rparr>))"

definition handleStreamError :: "(string \<Rightarrow> string) \<Rightarrow> nat \<Rightarrow> string \<Rightarrow> string option \<Rightarrow> chat \<Rightarrow> chat" where
  "handleStreamError tr generation error errorCode c =
     (if generation \<noteq> c_generation c then c
      else
        (let displayError = getDisplayError tr error;
             c1 = (flushStreamUpdates generation c)\<lparr>c_requesting := False\<rparr>
         in enqueue (UError generation displayError errorCode (tr API_REQUEST_ERROR))
              (c1\<lparr>c_toasts := c_toasts c1 @ [displayError]\<rparr>)))"

definition callback_step :: "(string \<Rightarrow> string) \<Rightarrow> nat \<Rightarrow> callback \<Rightarrow> chat \<Rightarrow> chat" where
  "callback_step tr generation cb c =
     (case cb of
        CbUpdate type chunk \<Rightarrow> handleStreamUpdate generation type chunk c
      | CbComplete \<Rightarrow> handleStreamComplete generation c
      | CbError error errorCode \<Rightarrow> handleStreamError tr generation error errorCode c)"

definition on_controller :: "(controller \<Rightarrow> controller) \<Rightarrow> chat \<Rightarrow> chat" where
  "on_controller f c = c\<lparr>c_controller := f (c_controller c)\<rparr>"

definition sendStreamingChat :: "chat \<Rightarrow> chat" where
  "sendStreamingChat c =
     (let generation = c_generation c + 1;
          c1 = discardPendingStreamUpdates generation (c\<lparr>c_generation := generation, c_abort := None\<rparr>)
      in on_controller (send_begin generation) (c1\<lparr>c_requesting := True\<rparr>))"

definition stopStream :: "chat \<Rightarrow> chat" where
  "stopStream c = on_controller (cancel True) c"

definition sendNonStreamingChat :: "chat \<Rightarrow> chat" where
  "sendNonStreamingChat c =
     (let generation = c_generation c + 1;
          c1 = discardPendingStreamUpdates generation (stopStream (c\<lparr>c_generation := generation\<rparr>))
      in c1\<lparr>c_abort := Some generation, c_requesting := True\<rparr>)"

text \<open>The end of a complete request: its answer, its failure, and the \<open>finally\<close> of both.  A request is
  aborted exactly when its abort controller is no longer the current one.\<close>

definition request_finally :: "nat \<Rightarrow> chat \<Rightarrow> chat" where
  "request_finally generation c =
     (if c_generation c = generation then c\<lparr>c_abort := None, c_requesting := False\<rparr> else c)"

definition chat_answered :: "(string \<Rightarrow> string) \<Rightarrow> nat \<Rightarrow> choice list \<Rightarrow> chat \<Rightarrow> chat" where
  "chat_answered tr generation choices c =
     request_finally generation
       (if c_abort c \<noteq> Some generation \<or> c_generation c \<noteq> generation then c
        else if \<not> hasChatCompletionChoice choices then handleStreamError tr generation API_REQUEST_ERROR None c
        else enqueue (UResponse generation choices) c)"

definition chat_failed :: "(string \<Rightarrow> string) \<Rightarrow> nat \<Rightarrow> jsval \<Rightarrow> chat \<Rightarrow> chat" where
  "chat_failed tr generation error c =
     request_finally generation
       (if c_abort c \<noteq> Some generation \<or> c_generation c \<noteq> generation then c
        else (let d = parseRequestErrorDetails error
              in handleStreamError tr generation (sd_errorMessage d) (sd_errorCode d) c))"

definition sendChat :: "bool \<Rightarrow> chat \<Rightarrow> chat" where
  "sendChat streaming c = (if streaming then sendStreamingChat c else sendNonStreamingChat c)"

definition stopGeneration :: "chat \<Rightarrow> chat" where
  "stopGeneration c =
     (let stoppedGeneration = c_generation c; idleGeneration = stoppedGeneration + 1;
          c1 = (flushStreamUpdates stoppedGeneration c)\<lparr>c_generation := idleGeneration\<rparr>;
          c2 = stopStream (discardPendingStreamUpdates idleGeneration c1)
      in enqueue (UStop idleGeneration) (c2\<lparr>c_abort := None, c_requesting := False\<rparr>))"

definition isGenerating :: "chat \<Rightarrow> bool" where
  "isGenerating c \<longleftrightarrow> ct_streaming (c_controller c) \<or> c_requesting c"

section \<open>The conversation\<close>

definition handleSendMessage :: "bool \<Rightarrow> string \<times> string \<times> string \<times> string \<Rightarrow> jsnum \<Rightarrow> string \<Rightarrow> chat \<Rightarrow> chat" where
  "handleSendMessage streaming ids now txt c =
     sendChat streaming (enqueue (USet (appendUserMessagePair ids now (c_messages c) txt)) c)"

definition handleRegenerateMessage :: "bool \<Rightarrow> string \<Rightarrow> string \<Rightarrow> jsnum \<Rightarrow> string \<Rightarrow> chat \<Rightarrow> chat" where
  "handleRegenerateMessage streaming key vid now messageKey c =
     (case createRegeneratedMessages key vid now (c_messages c) messageKey of
        None \<Rightarrow> c
      | Some ms \<Rightarrow> sendChat streaming (enqueue (USet ms) c))"

definition handleEditMessage :: "string \<Rightarrow> chat \<Rightarrow> chat" where
  "handleEditMessage key c = c\<lparr>c_editing := Some key\<rparr>"

definition handleEditOpenChange :: "bool \<Rightarrow> chat \<Rightarrow> chat" where
  "handleEditOpenChange isOpen c = (if isOpen then c else c\<lparr>c_editing := None\<rparr>)"

definition applyEdit :: "bool \<Rightarrow> string \<Rightarrow> string \<Rightarrow> jsnum \<Rightarrow> string \<Rightarrow> bool \<Rightarrow> chat \<Rightarrow> chat" where
  "applyEdit streaming key vid now newContent shouldSubmit c =
     (case non_empty (c_editing c) of
        None \<Rightarrow> c
      | Some editingKey \<Rightarrow>
          (case applyMessageEdit key vid now (c_messages c) editingKey newContent shouldSubmit of
             None \<Rightarrow> c
           | Some (ms, shouldSend) \<Rightarrow>
               (let c1 = enqueue (USet ms) (c\<lparr>c_editing := None\<rparr>)
                in if shouldSend then sendChat streaming c1 else c1)))"

definition handleDeleteMessage :: "string \<Rightarrow> chat \<Rightarrow> chat" where
  "handleDeleteMessage key c = enqueue (URemove key) c"

section \<open>Events\<close>

datatype event =
    EvSend bool "string \<times> string \<times> string \<times> string" jsnum string
  | EvRegenerate bool string string jsnum string
  | EvEdit string
  | EvEditOpen bool
  | EvApplyEdit bool string string jsnum string bool
  | EvDelete string
  | EvHeaders "nat \<times> nat"
  | EvHeadersFailed "nat \<times> nat" "string option"
  | EvMessage nat string
  | EvStreamError nat "int option" "string option"
  | EvReadyState nat "int option" "jsnum option"
  | EvStreamThrew nat
  | EvAnswered nat "choice list"
  | EvFailed nat jsval
  | EvTimer
  | EvRender jsnum
  | EvStop

text \<open>The callbacks of a source run in the generation of its connection.\<close>

definition run_callbacks :: "(string \<Rightarrow> string) \<Rightarrow> nat \<Rightarrow> callback list \<times> controller \<Rightarrow> chat \<Rightarrow> chat" where
  "run_callbacks tr n r c =
     fold (callback_step tr (cn_chat (ct_conns (c_controller c) ! n))) (fst r) (c\<lparr>c_controller := snd r\<rparr>)"

definition take_waiting :: "nat \<times> nat \<Rightarrow> chat \<Rightarrow> chat" where
  "take_waiting w c = on_controller (\<lambda>ct. ct\<lparr>ct_waiting := remove1 w (ct_waiting ct)\<rparr>) c"

fun chat_step :: "(string \<Rightarrow> string) \<Rightarrow> event \<Rightarrow> chat \<Rightarrow> chat" where
  "chat_step tr (EvSend streaming ids now txt) c = handleSendMessage streaming ids now txt c"
| "chat_step tr (EvRegenerate streaming key vid now k) c = handleRegenerateMessage streaming key vid now k c"
| "chat_step tr (EvEdit k) c = handleEditMessage k c"
| "chat_step tr (EvEditOpen b) c = handleEditOpenChange b c"
| "chat_step tr (EvApplyEdit streaming key vid now txt submit) c = applyEdit streaming key vid now txt submit c"
| "chat_step tr (EvDelete k) c = handleDeleteMessage k c"
| "chat_step tr (EvHeaders w) c =
     (if w \<in> set (ct_waiting (c_controller c)) then on_controller (send_ready w) (take_waiting w c) else c)"
| "chat_step tr (EvHeadersFailed w msg) c =
     (if w \<in> set (ct_waiting (c_controller c))
      then fold (callback_step tr (snd w)) (send_refused (fst w) msg (c_controller c)) (take_waiting w c) else c)"
| "chat_step tr (EvMessage n data) c = run_callbacks tr n (on_message n data (c_controller c)) c"
| "chat_step tr (EvStreamError n rs data) c = run_callbacks tr n (on_stream_error n rs data (c_controller c)) c"
| "chat_step tr (EvReadyState n rs status) c = run_callbacks tr n (on_ready_state n rs status (c_controller c)) c"
| "chat_step tr (EvStreamThrew n) c = run_callbacks tr n (stream_threw n (c_controller c)) c"
| "chat_step tr (EvAnswered g choices) c = chat_answered tr g choices c"
| "chat_step tr (EvFailed g err) c = chat_failed tr g err c"
| "chat_step tr EvTimer c = timer_fires c"
| "chat_step tr (EvRender now) c = render now c"
| "chat_step tr EvStop c = stopGeneration c"

end
