(* ===== verification/Chat_Facts.thy ===== *)
theory Chat_Facts
  imports Chat_Stream
begin

text \<open>
  What the playground guarantees: the separation of reasoning, the exact assembly of a stream, and the
  invariant of the chat handler together with its controller.
\<close>

section \<open>Finding a tag\<close>

text \<open>A tag whose first character does not occur again in it cannot overlap itself.\<close>

definition simple_tag :: "string \<Rightarrow> bool" where
  "simple_tag p \<longleftrightarrow> (case p of [] \<Rightarrow> False | h # t \<Rightarrow> h \<notin> set t)"

lemma simple_tags [simp]: "simple_tag think_open" "simple_tag think_close"
  by (simp_all add: simple_tag_def think_open_def think_close_def)

lemma no_early_match:
  assumes "simple_tag p" "\<not> js_includes v p" "k < length v"
  shows "\<not> js_starts_with (drop k (v @ p @ w)) p"
proof
  assume "js_starts_with (drop k (v @ p @ w)) p"
  then obtain t where t: "drop k v @ p @ w = p @ t" using assms(3) by (auto simp: js_starts_with_iff)
  then consider u where "drop k v = p @ u" | u where "p = drop k v @ u" "u \<noteq> []" "u @ t = p @ w"
    by (metis append_Nil2 append_eq_append_conv2)
  then show False
  proof cases
    case 1
    then have "v = take k v @ p @ u" by (metis append_take_drop_id)
    then show False using assms(2) js_includes_iff by metis
  next
    case 2
    obtain h q where p: "p = h # q" "h \<notin> set q" using assms(1) by (auto simp: simple_tag_def split: list.splits)
    with 2 have "hd u = h" by (metis append_Cons hd_append2 list.sel(1))
    then have "h \<in> set u" using 2(2) by (metis list.set_sel(1))
    moreover have "drop k v \<noteq> []" using assms(3) by simp
    with 2(1) p(1) obtain z zs where "drop k v = z # zs" "q = zs @ u" by (cases "drop k v") auto
    ultimately show False using p(2) by simp
  qed
qed

lemma find_upt_first:
  assumes "P n" "\<And>k. i \<le> k \<Longrightarrow> k < n \<Longrightarrow> \<not> P k" "i \<le> n" "n < m"
  shows "find P [i..<m] = Some n"
  using assms by (auto simp: find_Some_iff intro!: exI [of _ "n - i"])

lemma index_from_here:
  assumes "simple_tag p" "\<not> js_includes v p"
  shows "index_from (u @ v @ p @ w) p (length u) = Some (length u + length v)"
proof -
  have "js_starts_with (drop (length u + length v) (u @ v @ p @ w)) p" by simp
  moreover have "\<not> js_starts_with (drop k (u @ v @ p @ w)) p" if "length u \<le> k" "k < length u + length v" for k
  proof -
    have "drop k (u @ v @ p @ w) = drop (k - length u) (v @ p @ w)" using that by simp
    with no_early_match [OF assms, of "k - length u" w] that show ?thesis by simp
  qed
  moreover have "p \<noteq> []" using assms(1) by (auto simp: simple_tag_def)
  ultimately show ?thesis unfolding index_from_def by (intro find_upt_first) auto
qed

lemma index_from_none:
  assumes "\<not> js_includes v p" shows "index_from (u @ v) p (length u) = None"
proof -
  have "\<not> js_starts_with (drop k (u @ v)) p" if le: "length u \<le> k" for k
  proof
    assume "js_starts_with (drop k (u @ v)) p"
    then obtain t where t: "drop (k - length u) v = p @ t" using le by (auto simp: js_starts_with_iff)
    then have "v = take (k - length u) v @ p @ t" by (metis append_take_drop_id)
    then show False using assms js_includes_iff by metis
  qed
  then show ?thesis by (auto simp: index_from_def find_None_iff)
qed

section \<open>Reasoning and visible text\<close>

text \<open>A text with its thoughts marked: visible text before each closed thought, and at the end visible
  text, possibly with a thought that is still open.\<close>

type_synonym marked = "(string \<times> string) list \<times> string \<times> string option"

definition marked_text :: "marked \<Rightarrow> string" where
  "marked_text m = (case m of (ps, v, r) \<Rightarrow>
     concat (map (\<lambda>(v, r). v @ think_open @ r @ think_close) ps) @ v @
       (case r of None \<Rightarrow> [] | Some t \<Rightarrow> think_open @ t))"

definition marked_ok :: "marked \<Rightarrow> bool" where
  "marked_ok m \<longleftrightarrow> (case m of (ps, v, r) \<Rightarrow>
     list_all (\<lambda>(v, r). \<not> js_includes v think_open \<and> \<not> js_includes r think_close) ps \<and>
     \<not> js_includes v think_open \<and> (case r of None \<Rightarrow> True | Some t \<Rightarrow> \<not> js_includes t think_close))"

definition non_empties :: "string list \<Rightarrow> string list" where
  "non_empties xs = filter (\<lambda>x. x \<noteq> []) xs"

lemma non_empties_simps [simp]:
  "non_empties [] = []" "non_empties (x # xs) = (if x = [] then non_empties xs else x # non_empties xs)"
  by (simp_all add: non_empties_def)

lemma concat_non_empties [simp]: "concat (non_empties xs) = concat xs"
  by (induction xs) auto

lemma lengths [simp]: "length think_open = 7" "length think_close = 8"
  by (simp_all add: think_open_def think_close_def)

lemma js_slice_mid: "js_slice (u @ v @ w) (length u) (length u + length v) = v"
  by (simp add: js_slice_def)

lemma think_loop_marked:
  assumes "marked_ok (ps, v, r)"
  shows "think_loop (u @ marked_text (ps, v, r)) (length u) vis reas =
    (vis @ non_empties (map fst ps @ [v]),
     reas @ map snd ps @ (case r of None \<Rightarrow> [] | Some t \<Rightarrow> [t]), r \<noteq> None)"
  using assms
proof (induction ps arbitrary: u vis reas)
  case Nil
  then have v: "\<not> js_includes v think_open" by (simp add: marked_ok_def)
  show ?case
  proof (cases r)
    case None
    then show ?thesis using index_from_none [OF v, of u]
      by (subst think_loop.simps) (simp add: marked_text_def)
  next
    case (Some t)
    with Nil have t: "\<not> js_includes t think_close" by (simp add: marked_ok_def)
    have "index_from (u @ v @ think_open @ t) think_open (length u) = Some (length u + length v)"
      by (rule index_from_here) (use v in simp_all)
    moreover have "index_from (u @ v @ think_open @ t) think_close (length u + length v + 7) = None"
      using index_from_none [OF t, of "u @ v @ think_open"] by (simp add: add.assoc)
    ultimately show ?thesis using Some js_slice_mid [of u v "think_open @ t"]
      by (subst think_loop.simps) (simp add: marked_text_def)
  qed
next
  case (Cons p ps)
  obtain a b where p: "p = (a, b)" by (cases p)
  let ?rest = "marked_text (ps, v, r)" and ?u = "u @ a @ think_open @ b @ think_close"
  have ab: "\<not> js_includes a think_open" "\<not> js_includes b think_close" and ok: "marked_ok (ps, v, r)"
    using Cons.prems p by (simp_all add: marked_ok_def)
  define s where "s = u @ a @ think_open @ b @ think_close @ ?rest"
  have s: "u @ marked_text (p # ps, v, r) = s" by (simp add: marked_text_def p s_def)
  have 1: "index_from s think_open (length u) = Some (length u + length a)"
    unfolding s_def by (rule index_from_here) (use ab in simp_all)
  have 2: "index_from s think_close (length u + length a + 7) = Some (length u + length a + 7 + length b)"
    using index_from_here [of think_close b "u @ a @ think_open" ?rest] ab by (simp add: add.assoc s_def)
  have a: "js_slice s (length u) (length u + length a) = a" unfolding s_def by (rule js_slice_mid)
  have b: "js_slice s (length u + length a + 7) (length u + length a + 7 + length b) = b"
    using js_slice_mid [of "u @ a @ think_open" b "think_close @ ?rest"] by (simp add: add.assoc s_def)
  let ?vis = "if a = [] then vis else vis @ [a]"
  have "think_loop s (length u) vis reas = think_loop s (length u + length a + 7 + length b + 8) ?vis (reas @ [b])"
    by (subst think_loop.simps) (simp add: 1 2 a b)
  also have "\<dots> = (?vis @ non_empties (map fst ps @ [v]),
     (reas @ [b]) @ map snd ps @ (case r of None \<Rightarrow> [] | Some t \<Rightarrow> [t]), r \<noteq> None)"
    using Cons.IH [OF ok, of ?u ?vis "reas @ [b]"] by (simp add: s_def add.assoc)
  finally show ?case unfolding s by (simp add: p)
qed

lemma parse_marked:
  assumes "marked_ok (ps, v, r)" "ps \<noteq> [] \<or> r \<noteq> None"
  shows "parseThinkTags (marked_text (ps, v, r)) =
    \<lparr>tt_visibleContent = js_trim (concat (map fst ps) @ v),
     tt_reasoning = js_trim (js_join [newline, newline] (map snd ps @ (case r of None \<Rightarrow> [] | Some t \<Rightarrow> [t]))),
     tt_hasUnclosedTag = (r \<noteq> None)\<rparr>"
proof -
  have "js_includes (marked_text (ps, v, r)) think_open"
  proof (cases ps)
    case Nil
    then obtain t where "r = Some t" using assms(2) by auto
    then have "marked_text (ps, v, r) = v @ think_open @ t" using Nil by (simp add: marked_text_def)
    then show ?thesis by (metis js_includes_iff)
  next
    case (Cons p ps')
    obtain a b where "p = (a, b)" by (cases p)
    then have "marked_text (ps, v, r) = a @ think_open @ b @ think_close @ marked_text (ps', v, r)"
      using Cons by (simp add: marked_text_def)
    then show ?thesis by (metis js_includes_iff)
  qed
  with think_loop_marked [OF assms(1), of "[]" "[]" "[]"] show ?thesis
    by (simp add: parseThinkTags_def)
qed

section \<open>Assembling a stream\<close>

text \<open>Both places that append a chunk, the pending text and the message, merge it in the same way: a chunk
  that begins with all the text there is replaces it.\<close>

lemma merge_eq: "mergePendingStreamChunk a b = a @ getAppendableChunk a b"
  by (auto simp: mergePendingStreamChunk_def getAppendableChunk_def js_starts_with_iff)

text \<open>A stream is plain when no block of chunks begins with the block right before it; the empty chunk
  is never sent.\<close>

definition block :: "string list \<Rightarrow> nat \<Rightarrow> nat \<Rightarrow> string" where
  "block ds i j = concat (drop i (take j ds))"

definition plain_stream :: "string list \<Rightarrow> bool" where
  "plain_stream ds \<longleftrightarrow> [] \<notin> set ds \<and>
     list_all (\<lambda>i. list_all (\<lambda>j. list_all (\<lambda>k. \<not> js_starts_with (block ds j k) (block ds i j))
       [Suc j..<Suc (length ds)]) [Suc i..<length ds]) [0..<length ds]"

lemma plain_streamD:
  assumes "plain_stream ds" "i < j" "j < k" "k \<le> length ds"
  shows "\<not> js_starts_with (block ds j k) (block ds i j)"
proof -
  have "i \<in> set [0..<length ds]" "j \<in> set [Suc i..<length ds]" "k \<in> set [Suc j..<Suc (length ds)]"
    using assms(2-4) by auto
  with assms(1) show ?thesis unfolding plain_stream_def list_all_iff by blast
qed

lemma plain_stream_non_empty: "plain_stream ds \<Longrightarrow> i < length ds \<Longrightarrow> ds ! i \<noteq> []"
  using nth_mem [of i ds] unfolding plain_stream_def by metis

lemma block_empty [simp]: "block ds i i = []"
  by (simp add: block_def)

lemma block_append: "i \<le> j \<Longrightarrow> j \<le> k \<Longrightarrow> block ds i j @ block ds j k = block ds i k"
proof -
  assume le: "i \<le> j" "j \<le> k"
  then have "take k ds = take j ds @ drop j (take k ds)"
    by (metis append_take_drop_id min.absorb1 take_take)
  then have "drop i (take k ds) = drop i (take j ds @ drop j (take k ds))" by simp
  also have "\<dots> = drop i (take j ds) @ drop j (take k ds)" using le by (simp add: min_def)
  finally show ?thesis by (simp add: block_def)
qed

lemma block_is_empty:
  assumes "plain_stream ds" "i \<le> j" "j \<le> length ds"
  shows "block ds i j = [] \<longleftrightarrow> i = j"
proof (cases "i = j")
  case False
  with assms have "ds ! i \<in> set (drop i (take j ds))" by (auto simp: in_set_conv_nth intro!: exI [of _ 0])
  moreover have "ds ! i \<noteq> []" using plain_stream_non_empty [OF assms(1), of i] assms(2,3) False by simp
  ultimately show ?thesis using False by (auto simp: block_def)
qed simp

lemma block_Suc: "k < length ds \<Longrightarrow> block ds k (Suc k) = ds ! k"
  by (simp add: block_def take_Suc_conv_app_nth)

text \<open>Merging a block to the one before it appends it.\<close>

lemma append_block:
  assumes "plain_stream ds" "i \<le> j" "j \<le> k" "k \<le> length ds"
  shows "block ds i j @ getAppendableChunk (block ds i j) (block ds j k) = block ds i k"
proof (cases "i = j \<or> j = k")
  case True
  then show ?thesis by (auto simp: getAppendableChunk_def js_starts_with_iff)
next
  case False
  with assms plain_streamD [of ds i j k] show ?thesis by (simp add: getAppendableChunk_def block_append)
qed

text \<open>Applying a flush appends its content to the message.\<close>

lemma versions_simps [simp]:
  "getCurrentVersion (m\<lparr>m_status := x\<rparr>) = getCurrentVersion m"
  "getCurrentVersion (m\<lparr>m_reasoning := y\<rparr>) = getCurrentVersion m"
  "getCurrentVersion (m\<lparr>m_isReasoningStreaming := z\<rparr>) = getCurrentVersion m"
  "mv_content (getCurrentVersion (updateCurrentVersionContent m s)) = s"
  by (simp_all add: getCurrentVersion_def updateCurrentVersionContent_def)

lemma completeReasoningTiming_simps [simp]:
  "getCurrentVersion (completeReasoningTiming now m) = getCurrentVersion m"
  "m_from (completeReasoningTiming now m) = m_from m" "m_status (completeReasoningTiming now m) = m_status m"
  "m_key (completeReasoningTiming now m) = m_key m"
  by (auto simp: completeReasoningTiming_def getCurrentVersion_def Let_def split: option.splits)

lemma completeAssistantTiming_simps [simp]:
  "getCurrentVersion (completeAssistantTiming now m) = getCurrentVersion m"
  "m_from (completeAssistantTiming now m) = m_from m" "m_status (completeAssistantTiming now m) = m_status m"
  "m_key (completeAssistantTiming now m) = m_key m" "m_reasoning (completeAssistantTiming now m) = m_reasoning m"
  by (auto simp: completeAssistantTiming_def getCurrentVersion_def Let_def)

lemma update_simps [simp]:
  "m_from (updateCurrentVersionContent m s) = m_from m" "m_status (updateCurrentVersionContent m s) = m_status m"
  "m_key (updateCurrentVersionContent m s) = m_key m"
  by (simp_all add: updateCurrentVersionContent_def)

lemma process_simps [simp]:
  "m_from (processStreamingContent now m s) = m_from m"
  "mv_content (getCurrentVersion (processStreamingContent now m s)) = mv_content (getCurrentVersion m) @ s"
  by (simp_all add: processStreamingContent_def Let_def)

lemma reasoning_chunk_simps:
  assumes "m_status m \<noteq> Some Error"
  shows "getCurrentVersion (applyStreamingChunk now m ReasoningChunk s) = getCurrentVersion m"
    "m_from (applyStreamingChunk now m ReasoningChunk s) = m_from m"
    "m_status (applyStreamingChunk now m ReasoningChunk s) = Some Streaming"
  using assms by (simp_all add: applyStreamingChunk_def Let_def)

lemma content_chunk_simps:
  assumes "m_status m \<noteq> Some Error"
  shows "getMessageContent (applyStreamingChunk now m ContentChunk s) =
      getMessageContent m @ getAppendableChunk (getMessageContent m) s"
    "m_from (applyStreamingChunk now m ContentChunk s) = m_from m"
    "m_status (applyStreamingChunk now m ContentChunk s) = Some Streaming"
  using assms by (simp_all add: applyStreamingChunk_def Let_def getMessageContent_def)

lemma flush_message_simps:
  assumes "m_status m \<noteq> Some Error"
  shows "getMessageContent (flush_message now s r m) = getMessageContent m @ getAppendableChunk (getMessageContent m) s"
    "m_from (flush_message now s r m) = m_from m"
    "isAssistantMessagePending m \<Longrightarrow> isAssistantMessagePending (flush_message now s r m)"
proof -
  define m1 where "m1 = (if r \<noteq> [] then applyStreamingChunk now m ReasoningChunk r else m)"
  have m1: "getMessageContent m1 = getMessageContent m" "m_from m1 = m_from m" "m_status m1 \<noteq> Some Error"
    using assms by (simp_all add: m1_def reasoning_chunk_simps getMessageContent_def)
  have f: "flush_message now s r m = (if s \<noteq> [] then applyStreamingChunk now m1 ContentChunk s else m1)"
    by (simp add: flush_message_def m1_def)
  show "getMessageContent (flush_message now s r m) = getMessageContent m @ getAppendableChunk (getMessageContent m) s"
    using m1 by (auto simp: f content_chunk_simps getAppendableChunk_def js_starts_with_iff)
  show "m_from (flush_message now s r m) = m_from m" using m1 by (simp add: f content_chunk_simps)
  show "isAssistantMessagePending (flush_message now s r m)" if "isAssistantMessagePending m"
    using m1 that assms
    by (auto simp: f m1_def isAssistantMessagePending_def content_chunk_simps reasoning_chunk_simps)
qed

text \<open>The chunks \<open>a\<close> to \<open>b\<close> of a stream, cut into the given texts.\<close>

fun covers :: "string list \<Rightarrow> nat \<Rightarrow> string list \<Rightarrow> nat \<Rightarrow> bool" where
  "covers ds a [] b \<longleftrightarrow> a = b"
| "covers ds a (x # xs) b \<longleftrightarrow> (\<exists>c \<ge> a. c \<le> b \<and> x = block ds a c \<and> covers ds c xs b)"

lemma covers_append: "covers ds a (xs @ ys) b \<longleftrightarrow> (\<exists>c \<ge> a. c \<le> b \<and> covers ds a xs c \<and> covers ds c ys b)"
proof (induction xs arbitrary: a)
  case Nil
  have "covers ds a ys b \<Longrightarrow> a \<le> b" by (induction ys arbitrary: a) fastforce+
  then show ?case by auto
next
  case (Cons x xs)
  show ?case
  proof
    assume "covers ds a ((x # xs) @ ys) b"
    then obtain c d where "a \<le> c" "c \<le> b" "x = block ds a c" "c \<le> d" "d \<le> b" "covers ds c xs d" "covers ds d ys b"
      by (auto simp: Cons.IH)
    then show "\<exists>d \<ge> a. d \<le> b \<and> covers ds a (x # xs) d \<and> covers ds d ys b"
      by (intro exI [of _ d]) auto
  next
    assume "\<exists>d \<ge> a. d \<le> b \<and> covers ds a (x # xs) d \<and> covers ds d ys b"
    then obtain c d where "a \<le> c" "x = block ds a c" "c \<le> d" "d \<le> b" "covers ds c xs d" "covers ds d ys b" by auto
    moreover from this have "covers ds c (xs @ ys) b" using Cons.IH by blast
    ultimately show "covers ds a ((x # xs) @ ys) b" using order_trans [of c d b] by auto
  qed
qed

text \<open>The state of a chat that has received the first \<open>k\<close> content chunks of generation \<open>g\<close>.\<close>

definition is_flush :: "nat \<Rightarrow> updater \<Rightarrow> bool" where
  "is_flush g u \<longleftrightarrow> (case u of UFlush h _ _ \<Rightarrow> h = g | _ \<Rightarrow> False)"

definition flush_content :: "updater \<Rightarrow> string" where
  "flush_content u = (case u of UFlush _ s _ \<Rightarrow> s | _ \<Rightarrow> [])"

lemma pending_not_error: "isAssistantMessagePending m \<Longrightarrow> m_status m \<noteq> Some Error"
  by (auto simp: isAssistantMessagePending_def)

definition receiving :: "nat \<Rightarrow> string list \<Rightarrow> message list \<Rightarrow> nat \<Rightarrow> chat \<Rightarrow> bool" where
  "receiving g ds pre k c \<longleftrightarrow> c_generation c = g \<and> pd_generation (c_pending c) = g \<and> k \<le> length ds \<and>
     (c_timer c = None \<or> c_timer c = Some g) \<and> list_all (is_flush g) (c_queue c) \<and>
     (\<exists>m a. c_messages c = pre @ [m] \<and> m_from m = Assistant \<and> isAssistantMessagePending m \<and>
        getMessageContent m = block ds 0 a \<and> covers ds a (map flush_content (c_queue c) @ [pd_content (c_pending c)]) k)"

text \<open>Rendering applies the waiting flushes.\<close>

lemma render_flushes:
  assumes "plain_stream ds" "list_all (is_flush g) us" "covers ds a (map flush_content us) b" "b \<le> length ds"
    and "m_from m = Assistant" "isAssistantMessagePending m" "getMessageContent m = block ds 0 a"
  shows "\<exists>m'. fold (apply_updater g now) us (pre @ [m]) = pre @ [m'] \<and> m_from m' = Assistant \<and>
    isAssistantMessagePending m' \<and> getMessageContent m' = block ds 0 b"
  using assms
proof (induction us arbitrary: a m)
  case (Cons u us)
  from Cons.prems(2) obtain s r where u: "u = UFlush g s r" by (auto simp: is_flush_def split: updater.splits)
  with Cons.prems(3) obtain c where c: "a \<le> c" "c \<le> b" "s = block ds a c" "covers ds c (map flush_content us) b"
    by (auto simp: flush_content_def [of "UFlush _ _ _"])
  let ?m = "flush_message now s r m"
  have m: "m_from ?m = Assistant" "isAssistantMessagePending ?m" "getMessageContent ?m = block ds 0 c"
    using flush_message_simps [OF pending_not_error [OF Cons.prems(6)], of now s r] append_block [OF Cons.prems(1), of 0 a c] Cons.prems(4-7) c
    by auto
  have "apply_updater g now u (pre @ [m]) = pre @ [?m]"
    using Cons.prems(5) by (simp add: u updateLastAssistantMessage_def)
  with Cons.IH [OF Cons.prems(1) _ c(4) Cons.prems(4) m] Cons.prems(2) show ?case by simp
qed simp

lemma receiving_content:
  assumes "plain_stream ds" "receiving g ds pre k c" "k < length ds"
  shows "receiving g ds pre (Suc k) (handleStreamUpdate g ContentChunk (ds ! k) c)"
proof -
  from assms(2) obtain m a where c: "c_generation c = g" "pd_generation (c_pending c) = g"
    "c_timer c = None \<or> c_timer c = Some g" "list_all (is_flush g) (c_queue c)" "c_messages c = pre @ [m]"
    "m_from m = Assistant" "isAssistantMessagePending m" "getMessageContent m = block ds 0 a"
    "covers ds a (map flush_content (c_queue c) @ [pd_content (c_pending c)]) k"
    unfolding receiving_def by blast
  from c(9) obtain b where b: "a \<le> b" "b \<le> k" "covers ds a (map flush_content (c_queue c)) b"
    "pd_content (c_pending c) = block ds b k"
    by (auto simp: covers_append)
  have "mergePendingStreamChunk (block ds b k) (ds ! k) = block ds b (Suc k)"
    using append_block [OF assms(1) b(2), of "Suc k"] assms(3) by (simp add: merge_eq block_Suc)
  then have "covers ds a (map flush_content (c_queue c) @ [mergePendingStreamChunk (pd_content (c_pending c)) (ds ! k)]) (Suc k)"
    using b unfolding covers_append by (auto intro!: exI [of _ b])
  then show ?thesis using c assms(3)
    by (auto simp: receiving_def handleStreamUpdate_def scheduleStreamFlush_def add_pending_def)
qed

lemma receiving_reasoning:
  assumes "receiving g ds pre k c"
  shows "receiving g ds pre k (handleStreamUpdate g ReasoningChunk d c)"
  using assms by (auto simp: receiving_def handleStreamUpdate_def scheduleStreamFlush_def add_pending_def)

lemma receiving_flush:
  assumes "receiving g ds pre k c"
  shows "receiving g ds pre k (flushStreamUpdates g c)"
proof -
  have "covers ds a (xs @ [x, []]) k" if "covers ds a (xs @ [x]) k" for a xs x
  proof -
    from that obtain c where c: "c \<ge> a" "c \<le> k" "covers ds a xs c" "x = block ds c k" by (auto simp: covers_append)
    then have "covers ds c [x, []] k" by (auto intro!: exI [of _ k])
    with c show ?thesis unfolding covers_append by blast
  qed
  then show ?thesis using assms
    unfolding receiving_def flushStreamUpdates_def enqueue_def Let_def
    by (auto simp: is_flush_def [of _ "UFlush _ _ _"] flush_content_def [of "UFlush _ _ _"]) blast+
qed

lemma receiving_timer:
  assumes "receiving g ds pre k c"
  shows "receiving g ds pre k (timer_fires c)"
  using assms receiving_flush [OF assms] by (auto simp: timer_fires_def receiving_def)

lemma receiving_render:
  assumes "plain_stream ds" "receiving g ds pre k c"
  shows "receiving g ds pre k (render now c)"
proof -
  from assms(2) obtain m a where c: "c_generation c = g" "pd_generation (c_pending c) = g" "k \<le> length ds"
    "c_timer c = None \<or> c_timer c = Some g" "list_all (is_flush g) (c_queue c)" "c_messages c = pre @ [m]"
    "m_from m = Assistant" "isAssistantMessagePending m" "getMessageContent m = block ds 0 a"
    "covers ds a (map flush_content (c_queue c) @ [pd_content (c_pending c)]) k"
    unfolding receiving_def by blast
  from c(10) obtain b where b: "a \<le> b" "b \<le> k" "covers ds a (map flush_content (c_queue c)) b"
    "pd_content (c_pending c) = block ds b k"
    by (auto simp: covers_append)
  have "b \<le> length ds" using b(2) c(3) by simp
  from render_flushes [OF assms(1) c(5) b(3) this c(7-9), of now pre] obtain m' where
    "fold (apply_updater g now) (c_queue c) (pre @ [m]) = pre @ [m']" "m_from m' = Assistant"
    "isAssistantMessagePending m'" "getMessageContent m' = block ds 0 b" by blast
  then show ?thesis using c b by (auto simp: receiving_def render_def intro!: exI [of _ b])
qed

text \<open>What happens while a stream is read.\<close>

datatype stream_event = SvContent string | SvReasoning string | SvTimer | SvRender jsnum

fun stream_step :: "nat \<Rightarrow> stream_event \<Rightarrow> chat \<Rightarrow> chat" where
  "stream_step g (SvContent d) c = handleStreamUpdate g ContentChunk d c"
| "stream_step g (SvReasoning d) c = handleStreamUpdate g ReasoningChunk d c"
| "stream_step g SvTimer c = timer_fires c"
| "stream_step g (SvRender now) c = render now c"

fun contents :: "stream_event list \<Rightarrow> string list" where
  "contents [] = []"
| "contents (SvContent d # es) = d # contents es"
| "contents (_ # es) = contents es"

lemma receiving_run:
  assumes "plain_stream ds" "receiving g ds pre k c" "contents es = drop k ds"
  shows "receiving g ds pre (length ds) (fold (stream_step g) es c)"
  using assms(2,3)
proof (induction es arbitrary: k c)
  case Nil
  then show ?case by (auto simp: receiving_def)
next
  case (Cons e es)
  show ?case
  proof (cases e)
    case (SvContent d)
    with Cons.prems have k: "k < length ds" "ds ! k = d" "contents es = drop (Suc k) ds"
      by (metis contents.simps(2) drop_all linorder_not_less list.distinct(1),
          metis contents.simps(2) nth_via_drop, metis contents.simps(2) drop_Suc list.sel(3) tl_drop)
    with Cons.IH [OF receiving_content [OF assms(1) Cons.prems(1) k(1)]] SvContent show ?thesis by simp
  next
    case (SvReasoning d)
    then show ?thesis using Cons.IH [OF receiving_reasoning [OF Cons.prems(1)]] Cons.prems(2) by simp
  next
    case SvTimer
    then show ?thesis using Cons.IH [OF receiving_timer [OF Cons.prems(1)]] Cons.prems(2) by simp
  next
    case (SvRender now)
    then show ?thesis using Cons.IH [OF receiving_render [OF assms(1) Cons.prems(1)]] Cons.prems(2) by simp
  qed
qed

text \<open>The end of a stream.\<close>

definition visible_content :: "string \<Rightarrow> string" where
  "visible_content s = (if js_includes s think_open then tt_visibleContent (parseThinkTags s) else s)"

lemma finalize_simps [simp]:
  "getMessageContent (finalizeMessage now m api) = visible_content (getMessageContent m)"
  "m_from (finalizeMessage now m api) = m_from m" "m_status (finalizeMessage now m api) = m_status m"
  "m_key (finalizeMessage now m api) = m_key m"
  by (simp_all add: finalizeMessage_def getMessageContent_def Let_def visible_content_def)

lemma complete_simps [simp]:
  "getMessageContent (completeAssistantMessage now m) = visible_content (getMessageContent m)"
  "m_from (completeAssistantMessage now m) = m_from m" "m_status (completeAssistantMessage now m) = Some Complete"
  using finalize_simps(1) [of now m "[]"]
  by (simp_all add: completeAssistantMessage_def getMessageContent_def)

lemma flush_empties: "pd_generation (c_pending c) = g \<Longrightarrow> c_generation c = g \<Longrightarrow>
  pd_content (c_pending (flushStreamUpdates g c)) = []"
  by (auto simp: flushStreamUpdates_def enqueue_def Let_def)

lemma receiving_complete:
  assumes "plain_stream ds" "receiving g ds pre (length ds) c"
  shows "\<exists>m. c_messages (render now (handleStreamComplete g c)) = pre @ [m] \<and> m_status m = Some Complete \<and>
    getMessageContent m = visible_content (concat ds)"
proof -
  let ?c = "flushStreamUpdates g c"
  have c: "c_generation c = g" "pd_generation (c_pending c) = g" using assms(2) by (auto simp: receiving_def)
  from receiving_flush [OF assms(2)] obtain m a where f: "c_generation ?c = g"
    "list_all (is_flush g) (c_queue ?c)" "c_messages ?c = pre @ [m]" "m_from m = Assistant"
    "isAssistantMessagePending m" "getMessageContent m = block ds 0 a"
    "covers ds a (map flush_content (c_queue ?c) @ [pd_content (c_pending ?c)]) (length ds)"
    unfolding receiving_def by blast
  from f(7) obtain b where b: "b \<le> length ds" "covers ds a (map flush_content (c_queue ?c)) b"
    "pd_content (c_pending ?c) = block ds b (length ds)"
    by (auto simp: covers_append)
  then have "b = length ds" using flush_empties [OF c(2,1)] block_is_empty [OF assms(1), of b "length ds"] by simp
  with render_flushes [OF assms(1) f(2) b(2) b(1) f(4-6), of now pre] obtain m' where
    m': "fold (apply_updater g now) (c_queue ?c) (pre @ [m]) = pre @ [m']" "m_from m' = Assistant"
      "isAssistantMessagePending m'" "getMessageContent m' = concat ds" by (auto simp: block_def)
  have "c_messages (render now (handleStreamComplete g c)) = pre @ [completeAssistantMessage now m']"
    using c f m' by (auto simp: render_def handleStreamComplete_def enqueue_def updateLastAssistantMessage_def
        isAssistantMessageFinal_def isAssistantMessagePending_def)
  then show ?thesis using m'(4) by simp
qed

lemma receiving_start:
  "receiving 1 ds (ms @ [createUserMessage k1 v1 txt t]) 0
     (render now (handleSendMessage True (k1, v1, k2, v2) t txt (chat_init ms)))"
  by (simp add: receiving_def render_def handleSendMessage_def sendChat_def sendStreamingChat_def enqueue_def
      chat_init_def appendUserMessagePair_def discardPendingStreamUpdates_def on_controller_def Let_def
      createLoadingAssistantMessage_def isAssistantMessagePending_def getMessageContent_def getCurrentVersion_def
      createMessageVersion_def)

end
