(* ===== verification/Chat_Invariant.thy ===== *)
theory Chat_Invariant
  imports Chat_Facts
begin

text \<open>
  The invariant of the chat handler and its controller together, kept by every event in every order.
\<close>

section \<open>The controller\<close>

text \<open>\<open>g\<close> is the generation of the chat: the current source, and the request that waits for headers in
  the current generation of the controller, belong to it.\<close>

definition controller_ok :: "nat \<Rightarrow> controller \<Rightarrow> bool" where
  "controller_ok g ct \<longleftrightarrow>
     (\<forall>n < length (ct_conns ct). cn_generation (ct_conns ct ! n) \<le> ct_generation ct \<and>
        (n \<in> set (ct_closed ct) \<or> ct_source ct = Some n)) \<and>
     distinct (map fst (ct_waiting ct)) \<and>
     (\<forall>(r, h) \<in> set (ct_waiting ct). r \<le> ct_generation ct \<and> (r = ct_generation ct \<longrightarrow> h = g \<and> ct_source ct = None)) \<and>
     (case ct_source ct of
        None \<Rightarrow> \<not> ct_streaming ct
      | Some n \<Rightarrow> ct_streaming ct \<and> n < length (ct_conns ct) \<and> \<not> cn_completed (ct_conns ct ! n) \<and>
          cn_generation (ct_conns ct ! n) = ct_generation ct \<and> cn_chat (ct_conns ct ! n) = g)"

lemma controller_okD:
  assumes "controller_ok g ct"
  shows "n < length (ct_conns ct) \<Longrightarrow> cn_generation (ct_conns ct ! n) \<le> ct_generation ct"
    "n < length (ct_conns ct) \<Longrightarrow> n \<in> set (ct_closed ct) \<or> ct_source ct = Some n"
    "(r, h) \<in> set (ct_waiting ct) \<Longrightarrow> r \<le> ct_generation ct"
    "(ct_generation ct, h) \<in> set (ct_waiting ct) \<Longrightarrow> h = g"
    "(ct_generation ct, h) \<in> set (ct_waiting ct) \<Longrightarrow> ct_source ct = None"
    "ct_streaming ct \<longleftrightarrow> ct_source ct \<noteq> None" "distinct (map fst (ct_waiting ct))"
    "ct_source ct = Some n \<Longrightarrow> n < length (ct_conns ct) \<and> \<not> cn_completed (ct_conns ct ! n) \<and>
       cn_generation (ct_conns ct ! n) = ct_generation ct \<and> cn_chat (ct_conns ct ! n) = g"
  using assms unfolding controller_ok_def by (auto split: option.splits)

lemma active_iff: "controller_ok g ct \<Longrightarrow> active n ct \<longleftrightarrow> ct_source ct = Some n"
  using controller_okD(8) [of g ct n] by (auto simp: active_def isCurrent_def)

lemma ok_send_begin:
  assumes "controller_ok g ct" shows "controller_ok h (send_begin h ct)"
proof -
  have "\<forall>n < length (ct_conns ct). cn_generation (ct_conns ct ! n) \<le> Suc (ct_generation ct)"
    using controller_okD(1) [OF assms] le_SucI by blast
  then show ?thesis using controller_okD(2,3,7) [OF assms]
    by (fastforce simp: controller_ok_def send_begin_def close_source_def Let_def split: option.splits)
qed

lemma ok_cancel:
  assumes "controller_ok g ct" shows "controller_ok h (cancel True ct)"
proof -
  have "\<forall>n < length (ct_conns ct). cn_generation (ct_conns ct ! n) \<le> Suc (ct_generation ct)"
    using controller_okD(1) [OF assms] le_SucI by blast
  then show ?thesis using controller_okD(2,3,7) [OF assms]
    by (fastforce simp: controller_ok_def cancel_def close_source_def Let_def split: option.splits)
qed

lemma ok_close:
  assumes "controller_ok g ct" "active n ct"
  shows "controller_ok g (closeActiveSource n (complete_conn n ct))"
proof -
  have n: "ct_source ct = Some n" using assms active_iff by blast
  then show ?thesis using assms controller_okD(8) [OF assms(1) n]
    by (auto simp: controller_ok_def closeActiveSource_def complete_conn_def close_source_def Let_def nth_list_update)
qed

lemma ok_handleError: "controller_ok g ct \<Longrightarrow> controller_ok g (snd (handleError n msg code ct))"
  by (simp add: handleError_def ok_close)

lemma ok_listeners:
  assumes "controller_ok g ct"
  shows "controller_ok g (snd (on_message n data ct))" "controller_ok g (snd (on_stream_error n rs err ct))"
    "controller_ok g (snd (on_ready_state n rs status ct))" "controller_ok g (snd (stream_threw n ct))"
  using assms ok_handleError [OF assms] ok_close [OF assms]
  by (auto simp: on_message_def on_stream_error_def on_ready_state_def stream_threw_def Let_def split: option.splits)

lemma ok_remove:
  assumes "controller_ok g ct" shows "controller_ok g (ct\<lparr>ct_waiting := remove1 w (ct_waiting ct)\<rparr>)"
  using assms set_remove1_subset [of w "ct_waiting ct"]
  by (auto simp: controller_ok_def distinct_map distinct_remove1 intro: inj_on_subset split: option.splits)

lemma ok_send_ready:
  assumes "controller_ok g ct" "w \<in> set (ct_waiting ct)"
  shows "controller_ok g (send_ready w (ct\<lparr>ct_waiting := remove1 w (ct_waiting ct)\<rparr>))"
proof (cases "fst w = ct_generation ct")
  case True
  obtain h where w: "w = (ct_generation ct, h)" using True by (cases w) auto
  have d: "distinct (map fst (ct_waiting ct))" using controller_okD(7) [OF assms(1)] .
  have new: "r < ct_generation ct" if "(r, k) \<in> set (remove1 w (ct_waiting ct))" for r k
  proof -
    have "(r, k) \<in> set (ct_waiting ct) \<and> (r, k) \<noteq> w"
      using that d by (auto simp: distinct_map distinct_remove1 set_remove1_eq)
    moreover have "r \<noteq> fst w" using calculation assms(2) d by (auto simp: distinct_map inj_on_def)
    ultimately show ?thesis using controller_okD(3) [OF assms(1), of r k] True by auto
  qed
  have "h = g" "ct_source ct = None" using controller_okD(4,5) [OF assms(1)] assms(2) w by auto
  with ok_remove [OF assms(1), of w] new w show ?thesis
    by (force simp: controller_ok_def send_ready_def nth_append less_Suc_eq)
next
  case False
  with ok_remove [OF assms(1)] show ?thesis by (simp add: send_ready_def)
qed

text \<open>Callbacks are only emitted by the current source.\<close>

lemma no_callbacks:
  assumes "\<not> active n ct"
  shows "on_message n data ct = ([], ct)" "on_stream_error n rs err ct = ([], ct)"
    "on_ready_state n rs status ct = ([], ct)" "stream_threw n ct = ([], ct)"
  using assms by (simp_all add: on_message_def on_stream_error_def on_ready_state_def stream_threw_def)

section \<open>The handler\<close>

text \<open>The pending text is of the current generation, a timer that runs is for it, and text that waits has a
  timer running; what waits in the queue was made in this generation or an earlier one.\<close>

definition updater_generation :: "updater \<Rightarrow> nat" where
  "updater_generation u =
     (case u of USet _ \<Rightarrow> 0 | URemove _ \<Rightarrow> 0 | UFlush g _ _ \<Rightarrow> g | UComplete g \<Rightarrow> g | UError g _ _ _ \<Rightarrow> g
      | UResponse g _ \<Rightarrow> g | UStop g \<Rightarrow> g)"

definition handler_ok :: "chat \<Rightarrow> bool" where
  "handler_ok c \<longleftrightarrow> pd_generation (c_pending c) = c_generation c \<and>
     (c_timer c = None \<or> c_timer c = Some (c_generation c)) \<and>
     (pd_content (c_pending c) \<noteq> [] \<or> pd_reasoning (c_pending c) \<noteq> [] \<longrightarrow> c_timer c \<noteq> None) \<and>
     list_all (\<lambda>u. updater_generation u \<le> c_generation c) (c_queue c)"

definition chat_ok :: "chat \<Rightarrow> bool" where
  "chat_ok c \<longleftrightarrow> handler_ok c \<and> controller_ok (c_generation c) (c_controller c)"

lemma chat_ok_init: "chat_ok (chat_init ms)"
  by (simp add: chat_ok_def handler_ok_def chat_init_def controller_ok_def)

text \<open>The operations keep the handler's part, and leave generation and controller alone.\<close>

lemma enqueue_simps [simp]:
  "c_generation (enqueue u c) = c_generation c" "c_controller (enqueue u c) = c_controller c"
  "c_pending (enqueue u c) = c_pending c" "c_timer (enqueue u c) = c_timer c"
  "c_messages (enqueue u c) = c_messages c" "c_queue (enqueue u c) = c_queue c @ [u]"
  "c_requesting (enqueue u c) = c_requesting c" "c_abort (enqueue u c) = c_abort c"
  by (simp_all add: enqueue_def)

lemma enqueue_ok: "handler_ok c \<Longrightarrow> updater_generation u \<le> c_generation c \<Longrightarrow> handler_ok (enqueue u c)"
  by (simp add: handler_ok_def)

lemma flush_simps [simp]:
  "c_generation (flushStreamUpdates g c) = c_generation c" "c_controller (flushStreamUpdates g c) = c_controller c"
  "c_messages (flushStreamUpdates g c) = c_messages c"
  by (simp_all add: flushStreamUpdates_def Let_def)

lemma flush_ok: "handler_ok c \<Longrightarrow> handler_ok (flushStreamUpdates g c)"
  by (auto simp: flushStreamUpdates_def handler_ok_def updater_generation_def Let_def)

lemma requesting_ok [simp]: "handler_ok (c\<lparr>c_requesting := b\<rparr>) \<longleftrightarrow> handler_ok c"
  "handler_ok (c\<lparr>c_abort := a\<rparr>) \<longleftrightarrow> handler_ok c" "handler_ok (c\<lparr>c_toasts := ts\<rparr>) \<longleftrightarrow> handler_ok c"
  "handler_ok (c\<lparr>c_editing := e\<rparr>) \<longleftrightarrow> handler_ok c" "handler_ok (c\<lparr>c_controller := ct\<rparr>) \<longleftrightarrow> handler_ok c"
  by (simp_all add: handler_ok_def)

lemma handlers_simps [simp]:
  "c_generation (handleStreamUpdate g ty s c) = c_generation c" "c_controller (handleStreamUpdate g ty s c) = c_controller c"
  "c_generation (handleStreamComplete g c) = c_generation c" "c_controller (handleStreamComplete g c) = c_controller c"
  "c_generation (handleStreamError tr g err code c) = c_generation c"
  "c_controller (handleStreamError tr g err code c) = c_controller c"
  by (simp_all add: handleStreamUpdate_def scheduleStreamFlush_def handleStreamComplete_def handleStreamError_def Let_def
      split: option.split)

lemma handlers_ok:
  assumes "handler_ok c"
  shows "handler_ok (handleStreamUpdate g ty s c)" "handler_ok (handleStreamComplete g c)"
    "handler_ok (handleStreamError tr g err code c)"
proof -
  show "handler_ok (handleStreamUpdate g ty s c)"
    using assms by (auto simp: handleStreamUpdate_def scheduleStreamFlush_def handler_ok_def add_pending_def
        split: option.splits chunk_type.splits)
  show "handler_ok (handleStreamComplete g c)" "handler_ok (handleStreamError tr g err code c)"
    using assms by (auto simp: handleStreamComplete_def handleStreamError_def Let_def updater_generation_def
        intro!: enqueue_ok flush_ok)
qed

lemma callback_simps [simp]:
  "c_generation (callback_step tr g cb c) = c_generation c" "c_controller (callback_step tr g cb c) = c_controller c"
  "handler_ok c \<Longrightarrow> handler_ok (callback_step tr g cb c)"
  by (simp_all add: callback_step_def handlers_ok split: callback.split)

lemma callbacks_simps [simp]:
  "c_generation (fold (callback_step tr g) cbs c) = c_generation c"
  "c_controller (fold (callback_step tr g) cbs c) = c_controller c"
  "handler_ok c \<Longrightarrow> handler_ok (fold (callback_step tr g) cbs c)"
  by (induction cbs arbitrary: c) simp_all

lemma run_callbacks_ok:
  assumes "chat_ok c" "controller_ok (c_generation c) (snd r)"
  shows "chat_ok (run_callbacks tr n r c)"
  using assms by (simp add: chat_ok_def run_callbacks_def)

lemma queue_mono: "list_all (\<lambda>u. updater_generation u \<le> g) us \<Longrightarrow> g \<le> h \<Longrightarrow> list_all (\<lambda>u. updater_generation u \<le> h) us"
  by (auto simp: list_all_iff)

lemma sendChat_ok: "chat_ok c \<Longrightarrow> chat_ok (sendChat streaming c)"
  by (auto simp: chat_ok_def handler_ok_def sendChat_def sendStreamingChat_def sendNonStreamingChat_def stopStream_def
      discardPendingStreamUpdates_def on_controller_def Let_def intro: ok_send_begin ok_cancel queue_mono)

lemma stop_ok:
  assumes "chat_ok c" shows "chat_ok (stopGeneration c)"
proof -
  have "handler_ok (flushStreamUpdates (c_generation c) c)" using assms flush_ok by (simp add: chat_ok_def)
  then show ?thesis using assms
    by (auto simp: chat_ok_def handler_ok_def stopGeneration_def stopStream_def discardPendingStreamUpdates_def
        on_controller_def Let_def updater_generation_def [of "UStop _"] intro: ok_cancel queue_mono)
qed

lemma enqueue_chat_ok: "chat_ok c \<Longrightarrow> updater_generation u \<le> c_generation c \<Longrightarrow> chat_ok (enqueue u c)"
  by (simp add: chat_ok_def enqueue_ok)

lemma set_ok [simp]: "chat_ok c \<Longrightarrow> chat_ok (enqueue (USet ms) c)" "chat_ok c \<Longrightarrow> chat_ok (enqueue (URemove k) c)"
  by (simp_all add: enqueue_chat_ok updater_generation_def)

lemma finally_ok: "chat_ok c \<Longrightarrow> chat_ok (request_finally g c)"
  by (auto simp: chat_ok_def request_finally_def)

lemma error_ok: "chat_ok c \<Longrightarrow> chat_ok (handleStreamError tr g err code c)"
  by (simp add: chat_ok_def handlers_ok)

lemma editing_ok [simp]: "chat_ok (c\<lparr>c_editing := e\<rparr>) \<longleftrightarrow> chat_ok c"
  by (simp add: chat_ok_def)

lemma timer_ok: "chat_ok c \<Longrightarrow> chat_ok (timer_fires c)"
  by (simp add: chat_ok_def timer_fires_def flush_ok split: option.split)

lemma listeners_ok:
  assumes "chat_ok c"
  shows "chat_ok (run_callbacks tr n (on_message n data (c_controller c)) c)"
    "chat_ok (run_callbacks tr n (on_stream_error n rs err (c_controller c)) c)"
    "chat_ok (run_callbacks tr n (on_ready_state n rs status (c_controller c)) c)"
    "chat_ok (run_callbacks tr n (stream_threw n (c_controller c)) c)"
  using assms by (auto simp: chat_ok_def intro!: run_callbacks_ok [unfolded chat_ok_def] ok_listeners)

lemma chat_step_ok: "chat_ok c \<Longrightarrow> chat_ok (chat_step tr ev c)"
proof (induction tr ev c rule: chat_step.induct)
  case (8 tr w msg c)
  then show ?case by (auto simp: chat_ok_def take_waiting_def on_controller_def ok_remove)
next
  case (7 tr w c)
  then show ?case by (auto simp: chat_ok_def take_waiting_def on_controller_def ok_send_ready)
next
  case (5 tr b k v t s e c)
  then show ?case by (auto simp: applyEdit_def Let_def sendChat_ok split: option.split)
next
  case (13 tr g choices c)
  then show ?case
    by (auto simp: chat_answered_def updater_generation_def intro!: finally_ok error_ok enqueue_chat_ok)
next
  case (14 tr g err c)
  then show ?case by (auto simp: chat_failed_def Let_def intro!: finally_ok error_ok)
next
  case (16 tr t c)
  then show ?case by (simp add: chat_ok_def handler_ok_def render_def)
qed (auto simp: handleSendMessage_def handleRegenerateMessage_def handleEditMessage_def handleEditOpenChange_def
    handleDeleteMessage_def stop_ok sendChat_ok timer_ok listeners_ok split: option.split)

end
