(* ===== verification/Chat_Properties.thy ===== *)
theory Chat_Properties
  imports Chat_Invariant
begin

text \<open>The properties of the playground's messages and streams, with their witnesses and findings.\<close>

section \<open>Reasoning and visible text\<close>

text \<open>C21. Text whose thoughts are marked with think tags is taken apart as it was put together: the visible content is
  the visible parts in order, the reasoning is the thoughts in order, separated by empty lines (both
  trimmed), and a tag is reported open exactly when the last thought has not been closed.\<close>

theorem think_tags_separated:
  assumes "marked_ok (ps, v, r)" and "ps \<noteq> [] \<or> r \<noteq> None"
  shows "parseThinkTags (marked_text (ps, v, r)) =
    \<lparr>tt_visibleContent = js_trim (concat (map fst ps) @ v),
     tt_reasoning = js_trim (js_join [newline, newline] (map snd ps @ (case r of None \<Rightarrow> [] | Some t \<Rightarrow> [t]))),
     tt_hasUnclosedTag = (r \<noteq> None)\<rparr>"
  by (rule parse_marked [OF assms])

theorem think_tags_separated_witness:
  "parseThinkTags ''a<think>x</think>b<think>y'' =
    \<lparr>tt_visibleContent = js_trim ''ab'', tt_reasoning = js_trim (js_join [newline, newline] [''x'', ''y'']),
     tt_hasUnclosedTag = True\<rparr>"
proof -
  have "marked_text ([(''a'', ''x'')], ''b'', Some ''y'') = ''a<think>x</think>b<think>y''"
    by (simp add: marked_text_def think_open_def think_close_def)
  moreover have "marked_ok ([(''a'', ''x'')], ''b'', Some ''y'')"
    by (simp add: marked_ok_def think_open_def think_close_def)
  ultimately show ?thesis using think_tags_separated [of "[(''a'', ''x'')]" "''b''" "Some ''y''"] by simp
qed

section \<open>The assembly of a stream\<close>

text \<open>C18. A question is answered by exactly the text that was streamed: whatever the order in which chunks of content
  and reasoning arrive, flush timers fire and the page renders, when the stream completes the last message
  is complete and its text is the visible part of all content chunks in order, and no request is running.
  This holds for streams in which no block of chunks begins with the block right before it.\<close>

theorem stream_assembled:
  assumes "plain_stream (contents es)"
  shows "let c0 = render start (handleSendMessage True (ka, va, kb, vb) t txt (chat_init ms));
             c = render now (handleStreamComplete 1 (fold (stream_step 1) es c0))
         in (\<exists>m. c_messages c = ms @ [createUserMessage ka va txt t, m] \<and> m_status m = Some Complete \<and>
               getMessageContent m = visible_content (concat (contents es))) \<and> \<not> c_requesting c"
proof -
  let ?c0 = "render start (handleSendMessage True (ka, va, kb, vb) t txt (chat_init ms))"
  let ?c1 = "fold (stream_step 1) es ?c0"
  have r: "receiving 1 (contents es) (ms @ [createUserMessage ka va txt t]) (length (contents es)) ?c1"
    by (rule receiving_run [OF assms receiving_start]) simp
  then have "c_generation ?c1 = 1" by (simp add: receiving_def)
  then have "\<not> c_requesting (render now (handleStreamComplete 1 ?c1))"
    by (simp add: render_def handleStreamComplete_def)
  with receiving_complete [OF assms r, of now] show ?thesis by (simp add: Let_def)
qed

theorem stream_assembled_witness:
  "\<exists>m. c_messages (render (Fin 9) (handleStreamComplete 1 (fold (stream_step 1)
      [SvReasoning ''hm'', SvContent ''Hel'', SvTimer, SvContent ''lo'', SvRender (Fin 5)]
      (render (Fin 1) (handleSendMessage True (''a'', ''b'', ''c'', ''d'') (Fin 0) ''Hi'' (chat_init [])))))) =
    [createUserMessage ''a'' ''b'' ''Hi'' (Fin 0), m] \<and> getMessageContent m = ''Hello''"
proof -
  have "plain_stream (contents [SvReasoning ''hm'', SvContent ''Hel'', SvTimer, SvContent ''lo'', SvRender (Fin 5)])"
    by code_simp
  from stream_assembled [OF this, of "Fin 1" "''a''" "''b''" "''c''" "''d''" "Fin 0" "''Hi''" "[]" "Fin 9"]
  show ?thesis by (auto simp: Let_def visible_content_def think_open_def)
qed

text \<open>C19. In every state the playground can reach, by any sequence of sends, edits, stream events, answers, timers,
  renderings and stops: every event source but the current one has been closed; the page shows that it
  streams exactly when there is a current source; that source belongs to the current generation of the
  chat and has not completed; and text that waits to be shown has a timer running that will show it.\<close>

theorem chat_state_consistent:
  "let c = fold (chat_step tr) evs (chat_init ms); ct = c_controller c in
     list_all (\<lambda>n. n \<in> set (ct_closed ct) \<or> ct_source ct = Some n) [0..<length (ct_conns ct)] \<and>
     (ct_streaming ct \<longleftrightarrow> ct_source ct \<noteq> None) \<and>
     (case ct_source ct of None \<Rightarrow> True
      | Some n \<Rightarrow> n < length (ct_conns ct) \<and> \<not> cn_completed (ct_conns ct ! n) \<and>
          cn_chat (ct_conns ct ! n) = c_generation c) \<and>
     (pd_content (c_pending c) = [] \<and> pd_reasoning (c_pending c) = [] \<or> c_timer c = Some (c_generation c))"
proof -
  let ?c = "fold (chat_step tr) evs (chat_init ms)"
  have "chat_ok c \<Longrightarrow> chat_ok (fold (chat_step tr) evs c)" for c
    by (induction evs arbitrary: c) (simp_all add: chat_step_ok)
  then have ok: "handler_ok ?c" "controller_ok (c_generation ?c) (c_controller ?c)"
    using chat_ok_init [of ms] by (auto simp: chat_ok_def)
  then show ?thesis using controller_okD [OF ok(2)]
    by (auto simp: Let_def handler_ok_def list_all_iff split: option.split)
qed

text \<open>C20. What belongs to an earlier request changes nothing: an event of a source that is not the current one, and the
  answer or the failure of a request of another generation, leave the whole state of the playground as it
  is.\<close>

theorem stale_events_ignored:
  assumes "c = fold (chat_step tr) evs (chat_init ms)"
    and "ct_source (c_controller c) \<noteq> Some n" and "g \<noteq> c_generation c"
  shows "chat_step tr (EvMessage n data) c = c \<and> chat_step tr (EvStreamError n rs err) c = c \<and>
    chat_step tr (EvReadyState n rs status) c = c \<and> chat_step tr (EvStreamThrew n) c = c \<and>
    chat_step tr (EvAnswered g choices) c = c \<and> chat_step tr (EvFailed g failure) c = c"
proof -
  have "chat_ok c \<Longrightarrow> chat_ok (fold (chat_step tr) evs c)" for c
    by (induction evs arbitrary: c) (simp_all add: chat_step_ok)
  then have "controller_ok (c_generation c) (c_controller c)"
    using chat_ok_init [of ms] assms(1) by (auto simp: chat_ok_def)
  then have "\<not> active n (c_controller c)" using active_iff assms(2) by blast
  then show ?thesis using assms(3)
    by (auto simp: no_callbacks run_callbacks_def chat_answered_def chat_failed_def request_finally_def)
qed

theorem stale_events_ignored_witness:
  "chat_step id (EvMessage 0 ''[DONE]'') (chat_init []) = chat_init []"
  using stale_events_ignored [of "chat_init []" id "[]" "[]" 0 1 "''[DONE]''"]
  by (simp add: chat_init_def del: chat_step.simps)

section \<open>The conversation\<close>

text \<open>The request for a new question carries the valid messages of the conversation in order and the question last,
  and never the placeholder of the answer.\<close>

theorem question_is_sent_last:
  "rq_messages (buildChatCompletionPayload (appendUserMessagePair (k1, v1, k2, v2) t ms txt) config enabled) =
     map formatMessageForAPI (filter isValidMessage ms) @ [(User, txt)]"
  by (simp add: buildChatCompletionPayload_def appendUserMessagePair_def isValidMessage_def createUserMessage_def
      createLoadingAssistantMessage_def hasMessageContent_def getMessageContent_def getCurrentVersion_def
      createMessageVersion_def formatMessageForAPI_def js_trim_def)

text \<open>An edit of a message that exists, in a conversation with distinct keys, keeps everything before it, replaces
  its content and nothing else of its text, and is sent exactly when it is submitted for a message of the
  user: then all that followed is dropped and a placeholder for the answer is appended.\<close>

theorem edit_rewrites_from_message:
  assumes "distinct (map m_key (before_ms @ m # after_ms))"
  shows "\<exists>m'. getMessageContent m' = content \<and> m_key m' = m_key m \<and> m_from m' = m_from m \<and>
    applyMessageEdit key vid t (before_ms @ m # after_ms) (m_key m) content submit =
      (if submit \<and> m_from m = User
       then Some (before_ms @ [m', createLoadingAssistantMessage key vid t], True)
       else Some (before_ms @ m' # after_ms, False))"
proof -
  let ?f = "\<lambda>x. if m_key x = m_key m then (updateCurrentVersionContent x content)
    \<lparr>m_createdAt := (if submit then Some t else m_createdAt x)\<rparr> else x"
  have i: "find_index (\<lambda>x. m_key x = m_key m) (before_ms @ m # after_ms) = Some (length before_ms)"
    using assms by (induction before_ms) auto
  have "m_key m \<notin> m_key ` (set before_ms \<union> set after_ms)" using assms by auto
  then have "x \<in> set before_ms \<union> set after_ms \<Longrightarrow> m_key x \<noteq> m_key m" for x by (metis image_eqI)
  then have f: "map ?f before_ms = before_ms" "map ?f after_ms = after_ms" by (auto intro!: map_idI)
  have "getMessageContent (?f m) = content \<and> m_key (?f m) = m_key m \<and> m_from (?f m) = m_from m"
    by (simp add: getMessageContent_def getCurrentVersion_def updateCurrentVersionContent_def)
  then show ?thesis
    by (intro exI [of _ "?f m"]) (auto simp: applyMessageEdit_def i f nth_append Let_def)
qed

theorem edit_rewrites_from_message_witness:
  "\<exists>m'. getMessageContent m' = ''new'' \<and>
    applyMessageEdit ''k'' ''v'' (Fin 3) [createUserMessage ''a'' ''b'' ''old'' (Fin 0)] ''a'' ''new'' True =
      Some ([m', createLoadingAssistantMessage ''k'' ''v'' (Fin 3)], True)"
  using edit_rewrites_from_message [of "[]" "createUserMessage ''a'' ''b'' ''old'' (Fin 0)" "[]" "''new''" "''k''" "''v''"
      "Fin 3" True]
  by (auto simp: createUserMessage_def)

section \<open>Findings\<close>

text \<open>A chunk of a stream of differences that begins with the text that waits is taken for a repetition: the
  number 110, streamed as 1 and 10, becomes 10.\<close>

lemma repeated_delta_lost:
  "mergePendingStreamChunk ''1'' ''10'' = ''10''"
  "getMessageContent (applyStreamingChunk (Fin 1)
     (applyStreamingChunk (Fin 0) (createLoadingAssistantMessage ''k'' ''v'' (Fin 0)) ContentChunk ''ha'') ContentChunk ''ha'')
   = ''ha''"
  by code_simp+

text \<open>Stopping flushes the waiting text, but moves on to the next generation before the flush is applied, so
  that the flush finds itself stale and the text is dropped.\<close>

lemma stop_drops_waiting_text:
  "map getMessageContent (c_messages (fold (chat_step id)
     [EvSend True (''a'', ''b'', ''c'', ''d'') (Fin 0) ''Hi'', EvRender (Fin 1), EvHeaders (1, 1),
      EvMessage 0 (json_text (JObj [(''choices'', JArr [JObj [(''delta'', JObj [(''content'', JStr ''Hello'')])]])])),
      EvStop, EvRender (Fin 2)] (chat_init []))) = [''Hi'', '''']"
  by code_simp

text \<open>Only the last message that was interrupted is made stable when a conversation is loaded.\<close>

lemma only_last_pending_sanitized:
  "map m_status (sanitizeMessagesOnLoad id (Fin 9)
     [createLoadingAssistantMessage ''a'' ''b'' (Fin 0), createLoadingAssistantMessage ''c'' ''d'' (Fin 1)]) =
   [Some Loading, Some Error]"
  by code_simp

end
