(* ===== verification/Chat_Storage.thy ===== *)
theory Chat_Storage
  imports Chat_Facts JS_Regex
begin

text \<open>
  The storage of the playground (\<open>lib/storage/storage-schema.ts\<close> and \<open>lib/storage/storage.ts\<close>): what is
  written to the browser's storage for an account, what is read back, and how much of it is kept.

  The storage maps keys to texts.  Whether the browser accepts an item is an argument: it may be full.
  The schemas are translated with what zod documents of their combinators: unknown keys are dropped,
  an optional field may be missing, a number is finite.
\<close>

section \<open>Limits\<close>

definition MAX_STORED_MESSAGES :: nat where "MAX_STORED_MESSAGES = 100"
definition MAX_STORED_MESSAGES_BYTES :: nat where "MAX_STORED_MESSAGES_BYTES = 1024 * 1024"
definition MAX_LOADED_MESSAGES_CHARS :: nat where "MAX_LOADED_MESSAGES_CHARS = 120000"
definition MAX_LOADED_MESSAGE_CHARS :: nat where "MAX_LOADED_MESSAGE_CHARS = 40000"
definition MIN_PREFIX_COLLAPSE_LENGTH :: nat where "MIN_PREFIX_COLLAPSE_LENGTH = 2000"
definition MIN_REPEATED_SECTION_COUNT :: nat where "MIN_REPEATED_SECTION_COUNT = 3"

definition TRUNCATED_CONTENT_SUFFIX :: string where
  "TRUNCATED_CONTENT_SUFFIX = [newline, newline] @ ''[...]''"

section \<open>Schemas\<close>

text \<open>A field of a schema: \<open>None\<close> is the exception of \<open>parse\<close>.\<close>

definition z_string :: "jsval \<Rightarrow> string option" where
  "z_string v = (case v of JStr s \<Rightarrow> Some s | _ \<Rightarrow> None)"

definition z_number :: "jsval \<Rightarrow> jsnum option" where
  "z_number v = (case v of JNum x \<Rightarrow> if is_finite x then Some x else None | _ \<Rightarrow> None)"

definition z_boolean :: "jsval \<Rightarrow> bool option" where
  "z_boolean v = (case v of JBool b \<Rightarrow> Some b | _ \<Rightarrow> None)"

definition z_optional :: "(jsval \<Rightarrow> 'a option) \<Rightarrow> jsval \<Rightarrow> 'a option option" where
  "z_optional p v = (if v = JUndefined then Some None else map_option Some (p v))"

definition z_nullable :: "(jsval \<Rightarrow> 'a option) \<Rightarrow> jsval \<Rightarrow> 'a option option" where
  "z_nullable p v = (if v = JNull then Some None else map_option Some (p v))"

fun z_all :: "'a option list \<Rightarrow> 'a list option" where
  "z_all [] = Some []"
| "z_all (x # xs) = (case (x, z_all xs) of (Some y, Some ys) \<Rightarrow> Some (y # ys) | _ \<Rightarrow> None)"

definition z_array :: "(jsval \<Rightarrow> 'a option) \<Rightarrow> jsval \<Rightarrow> 'a list option" where
  "z_array p v = (case v of JArr vs \<Rightarrow> z_all (map p vs) | _ \<Rightarrow> None)"

definition role_name :: "role \<Rightarrow> string" where
  "role_name r = (case r of User \<Rightarrow> ''user'' | Assistant \<Rightarrow> ''assistant'' | System \<Rightarrow> ''system'')"

definition status_name :: "status \<Rightarrow> string" where
  "status_name s = (case s of Loading \<Rightarrow> ''loading'' | Streaming \<Rightarrow> ''streaming'' | Complete \<Rightarrow> ''complete'' | Error \<Rightarrow> ''error'')"

definition messageRoleSchema :: "jsval \<Rightarrow> role option" where
  "messageRoleSchema v = find (\<lambda>r. v = JStr (role_name r)) [User, Assistant, System]"

definition messageStatusSchema :: "jsval \<Rightarrow> status option" where
  "messageStatusSchema v = find (\<lambda>s. v = JStr (status_name s)) [Loading, Streaming, Complete, Error]"

definition is_object :: "jsval \<Rightarrow> bool" where
  "is_object v \<longleftrightarrow> (case v of JObj _ \<Rightarrow> True | _ \<Rightarrow> False)"

definition messageVersionSchema :: "jsval \<Rightarrow> version option" where
  "messageVersionSchema v =
     (if \<not> is_object v then None
      else case (z_string (jget v ''id''), z_string (jget v ''content'')) of
          (Some i, Some c) \<Rightarrow> Some \<lparr>mv_id = i, mv_content = c\<rparr>
        | _ \<Rightarrow> None)"

definition sourceSchema :: "jsval \<Rightarrow> (string \<times> string) option" where
  "sourceSchema v =
     (if \<not> is_object v then None
      else case (z_string (jget v ''href''), z_string (jget v ''title'')) of
          (Some h, Some t) \<Rightarrow> Some (h, t)
        | _ \<Rightarrow> None)"

definition reasoningSchema :: "jsval \<Rightarrow> reasoning option" where
  "reasoningSchema v =
     (if \<not> is_object v then None
      else case (z_string (jget v ''content''), z_number (jget v ''duration''),
                 z_optional z_number (jget v ''startedAt''), z_optional z_number (jget v ''completedAt''),
                 z_optional z_number (jget v ''durationMs'')) of
          (Some c, Some d, Some s, Some e, Some m) \<Rightarrow>
            Some \<lparr>rs_content = c, rs_duration = d, rs_startedAt = s, rs_completedAt = e, rs_durationMs = m\<rparr>
        | _ \<Rightarrow> None)"

definition versionsSchema :: "jsval \<Rightarrow> version list option" where
  "versionsSchema v =
     (case z_array messageVersionSchema v of Some vs \<Rightarrow> if vs = [] then None else Some vs | None \<Rightarrow> None)"

definition messageSchema :: "jsval \<Rightarrow> message option" where
  "messageSchema v =
     (if \<not> is_object v then None
      else case (z_string (jget v ''key''), messageRoleSchema (jget v ''from''), versionsSchema (jget v ''versions''),
                 z_optional z_number (jget v ''createdAt''), z_optional z_number (jget v ''startedAt''),
                 z_optional z_number (jget v ''completedAt''), z_optional z_number (jget v ''durationMs'')) of
          (Some k, Some f, Some vs, Some ca, Some sa, Some co, Some du) \<Rightarrow>
            (case (z_optional (z_array sourceSchema) (jget v ''sources''), z_optional reasoningSchema (jget v ''reasoning''),
                   z_optional z_boolean (jget v ''isReasoningStreaming''), z_optional z_boolean (jget v ''isReasoningComplete''),
                   z_optional z_boolean (jget v ''isContentComplete''), z_optional messageStatusSchema (jget v ''status''),
                   z_optional (z_nullable z_string) (jget v ''errorCode'')) of
               (Some so, Some re, Some rs, Some rc, Some cc, Some st, Some ec) \<Rightarrow>
                 Some \<lparr>m_key = k, m_from = f, m_versions = vs, m_createdAt = ca, m_startedAt = sa, m_completedAt = co,
                   m_durationMs = du, m_sources = so, m_reasoning = re, m_isReasoningStreaming = rs,
                   m_isReasoningComplete = rc, m_isContentComplete = cc, m_status = st, m_errorCode = ec\<rparr>
             | _ \<Rightarrow> None)
        | _ \<Rightarrow> None)"

definition messagesSchema :: "jsval \<Rightarrow> message list option" where
  "messagesSchema v = z_array messageSchema v"

text \<open>The object a message is; a field that is \<open>undefined\<close> is left out when it is written.\<close>

definition opt_value :: "('a \<Rightarrow> jsval) \<Rightarrow> 'a option \<Rightarrow> jsval" where
  "opt_value f x = (case x of None \<Rightarrow> JUndefined | Some y \<Rightarrow> f y)"

definition null_value :: "('a \<Rightarrow> jsval) \<Rightarrow> 'a option \<Rightarrow> jsval" where
  "null_value f x = (case x of None \<Rightarrow> JNull | Some y \<Rightarrow> f y)"

definition object :: "(string \<times> jsval) list \<Rightarrow> jsval" where
  "object kvs = JObj (filter (\<lambda>(k, v). v \<noteq> JUndefined) kvs)"

definition version_value :: "version \<Rightarrow> jsval" where
  "version_value v = JObj [(''id'', JStr (mv_id v)), (''content'', JStr (mv_content v))]"

definition reasoning_value :: "reasoning \<Rightarrow> jsval" where
  "reasoning_value r = object
     [(''content'', JStr (rs_content r)), (''duration'', JNum (rs_duration r)),
      (''startedAt'', opt_value JNum (rs_startedAt r)), (''completedAt'', opt_value JNum (rs_completedAt r)),
      (''durationMs'', opt_value JNum (rs_durationMs r))]"

definition source_value :: "string \<times> string \<Rightarrow> jsval" where
  "source_value s = JObj [(''href'', JStr (fst s)), (''title'', JStr (snd s))]"

definition message_value :: "message \<Rightarrow> jsval" where
  "message_value m = object
     [(''key'', JStr (m_key m)), (''from'', JStr (role_name (m_from m))),
      (''versions'', JArr (map version_value (m_versions m))),
      (''createdAt'', opt_value JNum (m_createdAt m)), (''startedAt'', opt_value JNum (m_startedAt m)),
      (''completedAt'', opt_value JNum (m_completedAt m)), (''durationMs'', opt_value JNum (m_durationMs m)),
      (''sources'', opt_value (\<lambda>ss. JArr (map source_value ss)) (m_sources m)),
      (''reasoning'', opt_value reasoning_value (m_reasoning m)),
      (''isReasoningStreaming'', opt_value JBool (m_isReasoningStreaming m)),
      (''isReasoningComplete'', opt_value JBool (m_isReasoningComplete m)),
      (''isContentComplete'', opt_value JBool (m_isContentComplete m)),
      (''status'', opt_value (\<lambda>s. JStr (status_name s)) (m_status m)),
      (''errorCode'', opt_value (null_value JStr) (m_errorCode m))]"

section \<open>The storage\<close>

type_synonym local_storage = "string \<rightharpoonup> string"

definition set_item :: "(string \<Rightarrow> string \<Rightarrow> bool) \<Rightarrow> string \<Rightarrow> string \<Rightarrow> local_storage \<Rightarrow> local_storage" where
  "set_item accepts key txt s = (if accepts key txt then s(key \<mapsto> txt) else s)"

definition getUserStorageKey :: "string \<Rightarrow> jsnum option \<Rightarrow> string option" where
  "getUserStorageKey key ownerId = map_option (\<lambda>own. key @ '':'' @ js_num_to_string own) ownerId"

definition MESSAGES_KEY :: string where "MESSAGES_KEY = ''playground_messages''"

definition STORAGE_KEYS :: "string list" where
  "STORAGE_KEYS = [''playground_config'', MESSAGES_KEY, ''playground_parameter_enabled'']"

text \<open>The outer option is the exception of \<open>JSON.parse\<close>, the inner one \<open>null\<close>.\<close>

definition readStoredValue :: "string \<Rightarrow> jsnum option \<Rightarrow> local_storage \<Rightarrow> jsval option option" where
  "readStoredValue baseKey ownerId s =
     (case getUserStorageKey baseKey ownerId of
        None \<Rightarrow> Some None
      | Some key \<Rightarrow>
          (case s key of
             None \<Rightarrow> Some None
           | Some saved \<Rightarrow> if saved = [] then Some None else map_option Some (json_parse saved)))"

definition readStoredMessagesValue :: "jsnum option \<Rightarrow> local_storage \<Rightarrow> jsval option option \<times> local_storage" where
  "readStoredMessagesValue ownerId s =
     (case getUserStorageKey MESSAGES_KEY ownerId of
        None \<Rightarrow> (Some None, s)
      | Some key \<Rightarrow>
          (case s key of
             None \<Rightarrow> (Some None, s)
           | Some saved \<Rightarrow>
               if saved = [] then (Some None, s)
               else if length saved > MAX_STORED_MESSAGES_BYTES then (Some None, s(key := None))
               else (map_option Some (json_parse saved), s)))"

definition has_key :: "jsval \<Rightarrow> string \<Rightarrow> bool" where
  "has_key v k \<longleftrightarrow> (case v of JObj kvs \<Rightarrow> k \<in> fst ` set kvs | _ \<Rightarrow> False)"

definition unwrapStoredValue :: "jsval \<Rightarrow> jsval" where
  "unwrapStoredValue v = (if has_key v ''version'' \<and> has_key v ''data'' then jget v ''data'' else v)"

definition envelope :: "jsval \<Rightarrow> jsval" where
  "envelope data = JObj [(''version'', JNum (Fin 1)), (''data'', data)]"

definition writeStoredValue ::
    "(string \<Rightarrow> string \<Rightarrow> bool) \<Rightarrow> string \<Rightarrow> jsval \<Rightarrow> jsnum option \<Rightarrow> local_storage \<Rightarrow> local_storage" where
  "writeStoredValue accepts baseKey data ownerId s =
     (case getUserStorageKey baseKey ownerId of
        None \<Rightarrow> s
      | Some key \<Rightarrow> set_item accepts key (json_text (envelope data)) s)"

section \<open>How much is kept\<close>

definition trimMessages :: "message list \<Rightarrow> message list" where
  "trimMessages messages =
     (if length messages \<le> MAX_STORED_MESSAGES then messages
      else drop (length messages - MAX_STORED_MESSAGES) messages)"

definition getMessageSize :: "message \<Rightarrow> nat" where
  "getMessageSize message =
     sum_list (map (\<lambda>v. length (mv_content v)) (m_versions message)) +
     (case m_reasoning message of Some r \<Rightarrow> length (rs_content r) | None \<Rightarrow> 0)"

definition truncateText :: "string \<Rightarrow> nat \<Rightarrow> string" where
  "truncateText txt maxLength =
     (if length txt \<le> maxLength then txt
      else if maxLength \<le> length TRUNCATED_CONTENT_SUFFIX then take maxLength txt
      else take (maxLength - length TRUNCATED_CONTENT_SUFFIX) txt @ TRUNCATED_CONTENT_SUFFIX)"

text \<open>
  \<open>SECTION_HEADING_LINE_PATTERN\<close>, \<open>/^#{2,6}\s+\d+\.\s+.+$/gm\<close>.  The last \<open>.+\<close> first tries the rest of its
  line, where \<open>$\<close> holds, so that the pattern matches what it matches without \<open>$\<close>; \<open>^\<close> restricts the
  positions to the beginnings of lines.
\<close>

definition line_end :: "char \<Rightarrow> bool" where
  "line_end c \<longleftrightarrow> c = CHR 0x0A \<or> c = CHR 0x0D"

definition heading_rx :: rx where
  "heading_rx = RSeqs [RLit ''##'', RQuest (RSeq (RLit ''#'') (RQuest (RSeq (RLit ''#'') (RQuest (RSeq (RLit ''#'')
     (RQuest (RLit ''#''))))))), RPlus (RSet is_ws), RPlus (RSet is_digit), RLit ''.'', RPlus (RSet is_ws),
     RPlus (RSet (\<lambda>c. \<not> line_end c))]"

primrec section_scan :: "nat \<Rightarrow> bool \<Rightarrow> nat \<Rightarrow> string \<Rightarrow> (string \<times> nat) list" where
  "section_scan 0 atStart i s = []"
| "section_scan (Suc n) atStart i s =
     (case s of
        [] \<Rightarrow> []
      | c # t \<Rightarrow>
          (case (if atStart then rx_exec heading_rx s else None) of
             Some (rest, _) \<Rightarrow>
               (let k = length s - length rest in (take k s, i) # section_scan n False (i + k) rest)
           | None \<Rightarrow> section_scan n (line_end c) (i + 1) t))"

definition getSectionOccurrences :: "string \<Rightarrow> (string \<times> nat) list" where
  "getSectionOccurrences txt = section_scan (Suc (length txt)) True 0 txt"

definition getHeadingCounts :: "(string \<times> nat) list \<Rightarrow> string \<Rightarrow> nat" where
  "getHeadingCounts occurrences heading = length (filter (\<lambda>x. fst x = heading) occurrences)"

text \<open>From the last occurrence to the first.\<close>

fun last_repeated :: "(string \<Rightarrow> nat) \<Rightarrow> string list \<Rightarrow> (string \<times> nat) list \<Rightarrow> nat list" where
  "last_repeated counts seen [] = []"
| "last_repeated counts seen ((h, i) # xs) =
     (if counts h < MIN_REPEATED_SECTION_COUNT \<or> h \<in> set seen then last_repeated counts seen xs
      else i # last_repeated counts (h # seen) xs)"

definition findLastRepeatedSectionRunStart :: "string \<Rightarrow> nat option" where
  "findLastRepeatedSectionRunStart txt =
     (let occurrences = getSectionOccurrences txt;
          indexes = last_repeated (getHeadingCounts occurrences) [] (rev occurrences)
      in case indexes of [] \<Rightarrow> None | i # js \<Rightarrow> Some (fold min js i))"

definition collapseRepeatedSectionSnapshots :: "string \<Rightarrow> string" where
  "collapseRepeatedSectionSnapshots txt =
     (if length txt < MIN_PREFIX_COLLAPSE_LENGTH then txt
      else case findLastRepeatedSectionRunStart txt of None \<Rightarrow> txt | Some i \<Rightarrow> drop i txt)"

definition normalize_version :: "version \<Rightarrow> version" where
  "normalize_version v =
     v\<lparr>mv_content := truncateText (collapseRepeatedSectionSnapshots (mv_content v)) MAX_LOADED_MESSAGE_CHARS\<rparr>"

definition truncate_reasoning :: "reasoning \<Rightarrow> reasoning" where
  "truncate_reasoning r = r\<lparr>rs_content := truncateText (rs_content r) MAX_LOADED_MESSAGE_CHARS\<rparr>"

definition normalizeStoredMessageForLoad :: "jsnum \<Rightarrow> message \<Rightarrow> message" where
  "normalizeStoredMessageForLoad now message =
     (let normalized = message\<lparr>m_versions := map normalize_version (m_versions message),
            m_reasoning := map_option truncate_reasoning (m_reasoning message)\<rparr>;
          hasReasoning = (case m_reasoning normalized of Some r \<Rightarrow> js_trim (rs_content r) \<noteq> [] | None \<Rightarrow> False)
      in if \<not> isAssistantMessagePending normalized then normalized
         else if \<not> hasMessageContent normalized \<and> \<not> hasReasoning then normalized
         else
           (let completedAt = coalesce (or_else (m_completedAt normalized)
                  (or_else (case m_reasoning normalized of Some r \<Rightarrow> rs_completedAt r | None \<Rightarrow> None)
                    (or_else (m_startedAt normalized) (m_createdAt normalized)))) now
            in completeAssistantTiming completedAt
                 ((finalizeMessage now normalized [])\<lparr>m_status := Some Complete, m_isReasoningStreaming := Some False\<rparr>)))"

text \<open>From the last message back, until one does not fit; the last one always does.\<close>

fun size_loop :: "nat \<Rightarrow> message list \<Rightarrow> message list \<Rightarrow> message list" where
  "size_loop totalSize result [] = result"
| "size_loop totalSize result (message # ms) =
     (if result \<noteq> [] \<and> totalSize + getMessageSize message > MAX_LOADED_MESSAGES_CHARS then result
      else size_loop (totalSize + getMessageSize message) (message # result) ms)"

definition trimMessagesByContentSize :: "message list \<Rightarrow> message list" where
  "trimMessagesByContentSize messages = size_loop 0 [] (rev messages)"

section \<open>Loading and saving\<close>

text \<open>A message of the declared type passes its schema exactly when it has a version and finite numbers.\<close>

definition finite_opt :: "jsnum option \<Rightarrow> bool" where
  "finite_opt x \<longleftrightarrow> (case x of Some y \<Rightarrow> is_finite y | None \<Rightarrow> True)"

definition schema_ok :: "message \<Rightarrow> bool" where
  "schema_ok m \<longleftrightarrow> m_versions m \<noteq> [] \<and> finite_opt (m_createdAt m) \<and> finite_opt (m_startedAt m) \<and>
     finite_opt (m_completedAt m) \<and> finite_opt (m_durationMs m) \<and>
     (case m_reasoning m of None \<Rightarrow> True
      | Some r \<Rightarrow> is_finite (rs_duration r) \<and> finite_opt (rs_startedAt r) \<and> finite_opt (rs_completedAt r) \<and>
          finite_opt (rs_durationMs r))"

definition saveMessages ::
    "(string \<Rightarrow> string \<Rightarrow> bool) \<Rightarrow> message list \<Rightarrow> jsnum option \<Rightarrow> local_storage \<Rightarrow> local_storage" where
  "saveMessages accepts messages ownerId s =
     (let trimmed = trimMessages messages
      in if list_all schema_ok trimmed
         then writeStoredValue accepts MESSAGES_KEY (JArr (map message_value trimmed)) ownerId s
         else s)"

text \<open>
  What is loaded is written back whenever something differs from what was read.  The list that fits the
  size is always a new list, so that the comparison of the lists is always true.
\<close>

definition loadMessages ::
    "(string \<Rightarrow> string) \<Rightarrow> (string \<Rightarrow> string \<Rightarrow> bool) \<Rightarrow> jsnum \<Rightarrow> jsnum option \<Rightarrow> local_storage \<Rightarrow>
       message list option \<times> local_storage" where
  "loadMessages tr accepts now ownerId s =
     (case readStoredMessagesValue ownerId s of
        (None, s') \<Rightarrow> (None, s')
      | (Some None, s') \<Rightarrow> (None, s')
      | (Some (Some saved), s') \<Rightarrow>
          if \<not> jtruthy saved then (None, s')
          else case messagesSchema (unwrapStoredValue saved) of
              None \<Rightarrow> (None, s')
            | Some parsed \<Rightarrow>
                (let normalized = map (normalizeStoredMessageForLoad now) parsed;
                     sizeTrimmed = trimMessagesByContentSize (trimMessages normalized);
                     sanitized = sanitizeMessagesOnLoad tr now sizeTrimmed
                 in (Some sanitized, saveMessages accepts sanitized ownerId s')))"

definition clearPlaygroundData :: "jsnum option \<Rightarrow> local_storage \<Rightarrow> local_storage" where
  "clearPlaygroundData ownerId s =
     fold (\<lambda>baseKey s. case getUserStorageKey baseKey ownerId of Some key \<Rightarrow> s(key := None) | None \<Rightarrow> s) STORAGE_KEYS s"

end
