(* ===== verification/Storage_Facts.thy ===== *)
theory Storage_Facts
  imports Chat_Storage
begin

text \<open>
  What the playground's storage guarantees: messages are read back by their schema and through JSON, how much of a
  conversation is kept, and which keys an account writes.
\<close>

section \<open>Messages are written as their schema reads them\<close>

lemma jget_object:
  "distinct (map fst kvs) \<Longrightarrow> jget (object kvs) k = (case map_of kvs k of None \<Rightarrow> JUndefined | Some v \<Rightarrow> v)"
proof (induction kvs)
  case (Cons kv kvs)
  obtain j v where kv: "kv = (j, v)" by (cases kv)
  have "map_of (filter (\<lambda>(k, v). v \<noteq> JUndefined) kvs) j = None" if "j \<notin> fst ` set kvs"
    using that by (induction kvs) auto
  with Cons kv show ?case by (auto simp: jget_def object_def split: if_splits)
qed (simp add: jget_def object_def)

lemma z_all_map: "(\<And>x. x \<in> set xs \<Longrightarrow> p (f x) = Some x) \<Longrightarrow> z_all (map (p \<circ> f) xs) = Some xs"
  by (induction xs) auto

lemma z_array_map: "(\<And>x. x \<in> set xs \<Longrightarrow> p (f x) = Some x) \<Longrightarrow> z_array p (JArr (map f xs)) = Some xs"
  by (simp add: z_array_def z_all_map [unfolded comp_def] comp_def)

lemma z_optional_value:
  assumes "\<And>y. x = Some y \<Longrightarrow> p (f y) = Some y \<and> f y \<noteq> JUndefined"
  shows "z_optional p (opt_value f x) = Some x"
  using assms by (cases x) (auto simp: z_optional_def opt_value_def)

lemma z_simple [simp]:
  "z_string (JStr s) = Some s" "z_boolean (JBool b) = Some b" "is_finite x \<Longrightarrow> z_number (JNum x) = Some x"
  "z_nullable z_string (null_value JStr e) = Some e" "null_value JStr e \<noteq> JUndefined"
  by (auto simp: z_string_def z_boolean_def z_number_def z_nullable_def null_value_def split: option.splits)

lemma role_reads_back [simp]: "messageRoleSchema (JStr (role_name r)) = Some r"
  by (cases r) (simp_all add: messageRoleSchema_def role_name_def)

lemma status_reads_back [simp]: "messageStatusSchema (JStr (status_name s)) = Some s"
  by (cases s) (simp_all add: messageStatusSchema_def status_name_def)

lemma version_reads_back [simp]: "messageVersionSchema (version_value v) = Some v"
  by (simp add: messageVersionSchema_def version_value_def is_object_def jget_def)

lemma source_reads_back [simp]: "sourceSchema (source_value s) = Some s"
  by (simp add: sourceSchema_def source_value_def is_object_def jget_def)

lemma z_optional_number: "finite_opt x \<Longrightarrow> z_optional z_number (opt_value JNum x) = Some x"
  by (rule z_optional_value) (auto simp: finite_opt_def)

lemma is_object_object [simp]: "is_object (object kvs)" "object kvs \<noteq> JUndefined"
  by (simp_all add: is_object_def object_def)

lemma reasoning_reads_back:
  assumes "is_finite (rs_duration r)" "finite_opt (rs_startedAt r)" "finite_opt (rs_completedAt r)"
    "finite_opt (rs_durationMs r)"
  shows "reasoningSchema (reasoning_value r) = Some r"
  using assms by (simp add: reasoningSchema_def reasoning_value_def jget_object z_optional_number)

lemma reasoning_defined [simp]: "reasoning_value r \<noteq> JUndefined"
  by (simp add: reasoning_value_def)

lemma versions_read_back: "vs \<noteq> [] \<Longrightarrow> versionsSchema (JArr (map version_value vs)) = Some vs"
  by (simp add: versionsSchema_def z_array_map)

lemma message_reads_back:
  assumes "schema_ok m" shows "messageSchema (message_value m) = Some m"
proof -
  have r: "z_optional reasoningSchema (opt_value reasoning_value (m_reasoning m)) = Some (m_reasoning m)"
    using assms by (intro z_optional_value) (auto simp: schema_ok_def reasoning_reads_back)
  have s: "z_optional (z_array sourceSchema) (opt_value (\<lambda>ss. JArr (map source_value ss)) (m_sources m)) = Some (m_sources m)"
    by (intro z_optional_value) (simp add: z_array_map)
  have b: "z_optional z_boolean (opt_value JBool x) = Some x" for x by (intro z_optional_value) simp
  have t: "z_optional messageStatusSchema (opt_value (\<lambda>s. JStr (status_name s)) (m_status m)) = Some (m_status m)"
    by (intro z_optional_value) simp
  have e: "z_optional (z_nullable z_string) (opt_value (null_value JStr) (m_errorCode m)) = Some (m_errorCode m)"
    by (intro z_optional_value) simp
  from assms show ?thesis
    unfolding messageSchema_def message_value_def
    by (simp add: jget_object schema_ok_def versions_read_back z_optional_number r s b t e)
qed

lemma messages_read_back: "list_all schema_ok ms \<Longrightarrow> messagesSchema (JArr (map message_value ms)) = Some ms"
  unfolding messagesSchema_def by (intro z_array_map) (simp add: message_reads_back list_all_iff)

section \<open>The text of messages is JSON that reads back\<close>

definition num_opt_ok :: "jsnum option \<Rightarrow> bool" where
  "num_opt_ok x \<longleftrightarrow> (case x of Some y \<Rightarrow> json_num_ok y | None \<Rightarrow> True)"

definition numbers_ok :: "message \<Rightarrow> bool" where
  "numbers_ok m \<longleftrightarrow> num_opt_ok (m_createdAt m) \<and> num_opt_ok (m_startedAt m) \<and>
     num_opt_ok (m_completedAt m) \<and> num_opt_ok (m_durationMs m) \<and>
     (case m_reasoning m of None \<Rightarrow> True
      | Some r \<Rightarrow> json_num_ok (rs_duration r) \<and> num_opt_ok (rs_startedAt r) \<and> num_opt_ok (rs_completedAt r) \<and>
          num_opt_ok (rs_durationMs r))"

lemma num_opt_finite: "num_opt_ok x \<Longrightarrow> finite_opt x"
  by (auto simp: num_opt_ok_def finite_opt_def json_num_ok_def split: option.splits)

lemma numbers_schema: "numbers_ok m \<Longrightarrow> m_versions m \<noteq> [] \<Longrightarrow> schema_ok m"
  by (auto simp: numbers_ok_def schema_ok_def num_opt_finite json_num_ok_def split: option.splits)

definition json_opt :: "jsval \<Rightarrow> bool" where
  "json_opt v \<longleftrightarrow> v = JUndefined \<or> json_ok v"

lemma json_ok_object: "distinct (map fst kvs) \<Longrightarrow> list_all (\<lambda>(k, v). json_opt v) kvs \<Longrightarrow> json_ok (object kvs)"
  by (auto simp: object_def json_opt_def list_all_iff distinct_map intro: inj_on_subset)

lemma json_opts:
  "num_opt_ok x \<Longrightarrow> json_opt (opt_value JNum x)" "json_opt (opt_value JBool b)"
  "json_opt (opt_value (\<lambda>s. JStr (status_name s)) st)" "json_opt (opt_value (null_value JStr) e)"
  "json_opt (opt_value (\<lambda>ss. JArr (map source_value ss)) so)"
  by (auto simp: json_opt_def opt_value_def null_value_def num_opt_ok_def source_value_def list_all_iff split: option.splits)

lemma json_ok_reasoning:
  assumes "json_num_ok (rs_duration r)" "num_opt_ok (rs_startedAt r)" "num_opt_ok (rs_completedAt r)"
    "num_opt_ok (rs_durationMs r)"
  shows "json_ok (reasoning_value r)"
  unfolding reasoning_value_def using assms by (intro json_ok_object) (simp_all add: json_opts, simp_all add: json_opt_def)

lemma json_ok_message: "numbers_ok m \<Longrightarrow> json_ok (message_value m)"
proof -
  assume ok: "numbers_ok m"
  then have "json_opt (opt_value reasoning_value (m_reasoning m))"
    by (auto simp: numbers_ok_def json_opt_def opt_value_def json_ok_reasoning split: option.splits)
  moreover have "json_opt (JArr (map version_value (m_versions m)))" "\<And>s. json_opt (JStr s)"
    by (auto simp: json_opt_def version_value_def list_all_iff)
  ultimately show "json_ok (message_value m)"
    unfolding message_value_def using ok by (intro json_ok_object) (simp_all add: json_opts numbers_ok_def)
qed

lemma json_num_ok_1: "json_num_ok (Fin 1)"
  by code_simp

lemma envelope_reads_back:
  assumes "list_all numbers_ok ms"
  shows "json_parse (json_text (envelope (JArr (map message_value ms)))) = Some (envelope (JArr (map message_value ms)))"
  by (rule json_parse_text) (use assms in \<open>auto simp: envelope_def json_num_ok_1 list_all_iff json_ok_message\<close>)

section \<open>How much is loaded\<close>

definition total_size :: "message list \<Rightarrow> nat" where
  "total_size ms = sum_list (map getMessageSize ms)"

text \<open>The loop keeps the longest end of the list that fits, and at least the last message.\<close>

definition kept_end :: "message list \<Rightarrow> message list \<Rightarrow> bool" where
  "kept_end ms kept \<longleftrightarrow>
     (total_size kept \<le> MAX_LOADED_MESSAGES_CHARS \<or> length kept = 1) \<and> (ms \<noteq> [] \<longrightarrow> kept \<noteq> []) \<and>
     (\<exists>pre. ms = pre @ kept \<and> (pre \<noteq> [] \<longrightarrow> total_size (last pre # kept) > MAX_LOADED_MESSAGES_CHARS))"

lemma size_loop_kept:
  assumes "total_size result \<le> MAX_LOADED_MESSAGES_CHARS \<or> length result = 1"
  shows "kept_end (rev xs @ result) (size_loop (total_size result) result xs)"
  using assms
proof (induction xs arbitrary: result)
  case Nil
  then show ?case by (simp add: kept_end_def)
next
  case (Cons x xs)
  have size: "total_size (x # result) = total_size result + getMessageSize x" by (simp add: total_size_def)
  show ?case
  proof (cases "result \<noteq> [] \<and> total_size result + getMessageSize x > MAX_LOADED_MESSAGES_CHARS")
    case True
    with Cons.prems size show ?thesis
      by (auto simp: kept_end_def intro!: exI [of _ "rev xs @ [x]"])
  next
    case False
    with Cons.IH [of "x # result"] size show ?thesis by auto
  qed
qed

section \<open>Saving and loading\<close>

text \<open>A message at rest: nothing pending, no text beyond the limit of loading, and none that loading takes for repeated snapshots
  of a stream and collapses.\<close>

definition at_rest :: "message \<Rightarrow> bool" where
  "at_rest m \<longleftrightarrow> numbers_ok m \<and> m_versions m \<noteq> [] \<and> \<not> isAssistantMessagePending m \<and>
     list_all (\<lambda>v. collapseRepeatedSectionSnapshots (mv_content v) = mv_content v \<and>
       length (mv_content v) \<le> MAX_LOADED_MESSAGE_CHARS) (m_versions m) \<and>
     (case m_reasoning m of Some r \<Rightarrow> length (rs_content r) \<le> MAX_LOADED_MESSAGE_CHARS | None \<Rightarrow> True)"

lemma normalize_at_rest: "at_rest m \<Longrightarrow> normalizeStoredMessageForLoad now m = m"
proof -
  assume m: "at_rest m"
  have v: "normalize_version v = v"
    if "collapseRepeatedSectionSnapshots (mv_content v) = mv_content v" "length (mv_content v) \<le> MAX_LOADED_MESSAGE_CHARS" for v
    using that by (simp add: normalize_version_def truncateText_def)
  have "map normalize_version (m_versions m) = m_versions m"
    using m by (intro map_idI) (auto simp: at_rest_def list_all_iff v)
  moreover have "map_option truncate_reasoning (m_reasoning m) = m_reasoning m"
    using m by (auto simp: at_rest_def truncate_reasoning_def truncateText_def split: option.splits)
  ultimately show ?thesis using m by (simp add: normalizeStoredMessageForLoad_def at_rest_def)
qed

lemma no_pending_sanitized: "list_all (\<lambda>m. \<not> isAssistantMessagePending m) ms \<Longrightarrow> sanitizeMessagesOnLoad tr now ms = ms"
proof -
  assume "list_all (\<lambda>m. \<not> isAssistantMessagePending m) ms"
  then have "last_pending ms = None"
    by (auto simp: last_pending_def find_None_iff isPendingAssistantMessage_def list_all_iff)
  then show ?thesis by (simp add: sanitizeMessagesOnLoad_def)
qed

lemma fits_kept: "total_size ms \<le> MAX_LOADED_MESSAGES_CHARS \<Longrightarrow> trimMessagesByContentSize ms = ms"
proof -
  assume fits: "total_size ms \<le> MAX_LOADED_MESSAGES_CHARS"
  obtain pre where pre: "ms = pre @ trimMessagesByContentSize ms"
    "pre \<noteq> [] \<Longrightarrow> total_size (last pre # trimMessagesByContentSize ms) > MAX_LOADED_MESSAGES_CHARS"
    using size_loop_kept [of "[]" "rev ms"] by (auto simp: kept_end_def trimMessagesByContentSize_def total_size_def)
  have "pre = []"
  proof (rule ccontr)
    assume ne: "pre \<noteq> []"
    then obtain qs q where q: "pre = qs @ [q]" by (cases pre rule: rev_cases) auto
    then have "total_size ms = total_size qs + total_size (q # trimMessagesByContentSize ms)"
      by (subst pre(1)) (simp add: total_size_def)
    with pre(2) [OF ne] fits q show False by simp
  qed
  with pre(1) show ?thesis by simp
qed

lemma saved_loads:
  assumes "list_all at_rest ms" "length ms \<le> MAX_STORED_MESSAGES" "total_size ms \<le> MAX_LOADED_MESSAGES_CHARS"
    and "length (json_text (envelope (JArr (map message_value ms)))) \<le> MAX_STORED_MESSAGES_BYTES"
    and "\<And>key txt. accepts key txt"
  shows "fst (loadMessages tr accepts now (Some own) (saveMessages accepts ms (Some own) s)) = Some ms"
proof -
  let ?v = "JArr (map message_value ms)" and ?key = "MESSAGES_KEY @ '':'' @ js_num_to_string own"
  have num: "list_all numbers_ok ms" and ok: "list_all schema_ok ms"
    using assms(1) by (auto simp: list_all_iff at_rest_def numbers_schema)
  have saved: "saveMessages accepts ms (Some own) s = s(?key \<mapsto> json_text (envelope ?v))"
    using assms(2,5) ok by (simp add: saveMessages_def trimMessages_def writeStoredValue_def getUserStorageKey_def set_item_def)
  have ne: "json_text (envelope ?v) \<noteq> []" by (simp add: envelope_def)
  have read: "readStoredMessagesValue (Some own) (s(?key \<mapsto> json_text (envelope ?v))) =
      (Some (Some (envelope ?v)), s(?key \<mapsto> json_text (envelope ?v)))"
    using assms(4) ne envelope_reads_back [OF num] by (simp add: readStoredMessagesValue_def getUserStorageKey_def)
  have "map (normalizeStoredMessageForLoad now) ms = ms"
    using assms(1) by (intro map_idI) (auto simp: list_all_iff normalize_at_rest)
  moreover have "sanitizeMessagesOnLoad tr now ms = ms"
    using assms(1) by (intro no_pending_sanitized) (auto simp: list_all_iff at_rest_def)
  moreover have "jtruthy (envelope ?v)" "unwrapStoredValue (envelope ?v) = ?v"
    by (simp_all add: jtruthy_def envelope_def unwrapStoredValue_def has_key_def jget_def)
  ultimately show ?thesis
    using assms(2,3) messages_read_back [OF ok] fits_kept [of ms]
    unfolding loadMessages_def saved read by (simp add: trimMessages_def Let_def)
qed

lemma key_owner:
  assumes "json_num_ok a" "json_num_ok b" "a \<noteq> b"
  shows "getUserStorageKey key (Some a) \<noteq> getUserStorageKey key (Some b)"
  using assms unfolding getUserStorageKey_def json_num_ok_def by (auto; metis)

lemma clear_other:
  assumes "\<And>base. base \<in> set STORAGE_KEYS \<Longrightarrow> getUserStorageKey base (Some a) \<noteq> Some k"
  shows "clearPlaygroundData (Some a) s k = s k"
proof -
  have "set bases \<subseteq> set STORAGE_KEYS \<Longrightarrow> fold (\<lambda>baseKey s. case getUserStorageKey baseKey (Some a) of
      Some key \<Rightarrow> s(key := None) | None \<Rightarrow> s) bases s k = s k" for bases
    using assms by (induction bases arbitrary: s) (auto split: option.split)
  then show ?thesis by (simp add: clearPlaygroundData_def)
qed

end
