(* ===== verification/Chat_State.thy ===== *)
theory Chat_State
  imports Storage_Facts
begin

text \<open>
  The state of the playground's page (\<open>hooks/use-playground-state.ts\<close>, \<open>lib/state/playground-state-utils.ts\<close>) and
  the settings it keeps in the browser's storage (\<open>lib/storage/storage.ts\<close>).

  What is given to a setter of React waits in a queue until the next rendering and is then applied in order; the
  saving that the updaters do happens when they are applied.  The two timers, the rendering and the leaving of the page
  are events, which may come in any order.
\<close>

section \<open>Settings\<close>

definition DEFAULT_CONFIG :: config where
  "DEFAULT_CONFIG = \<lparr>cf_model = ''gpt-4o'', cf_group = ''default'', cf_temperature = js_number ''0.7'', cf_top_p = Fin 1,
     cf_max_tokens = Fin 4096, cf_frequency_penalty = Fin 0, cf_presence_penalty = Fin 0, cf_seed = None, cf_stream = True\<rparr>"

definition DEFAULT_PARAMETER_ENABLED :: parameter_enabled where
  "DEFAULT_PARAMETER_ENABLED = \<lparr>pe_temperature = True, pe_top_p = True, pe_max_tokens = False,
     pe_frequency_penalty = True, pe_presence_penalty = True, pe_seed = False\<rparr>"

text \<open>The settings as they are stored, where any may be missing; the seed may also be \<open>null\<close>.\<close>

record partial_config =
  pc_model :: "string option"
  pc_group :: "string option"
  pc_temperature :: "jsnum option"
  pc_top_p :: "jsnum option"
  pc_max_tokens :: "jsnum option"
  pc_frequency_penalty :: "jsnum option"
  pc_presence_penalty :: "jsnum option"
  pc_seed :: "jsnum option option"
  pc_stream :: "bool option"

record partial_enabled =
  pp_temperature :: "bool option"
  pp_top_p :: "bool option"
  pp_max_tokens :: "bool option"
  pp_frequency_penalty :: "bool option"
  pp_presence_penalty :: "bool option"
  pp_seed :: "bool option"

definition no_config :: partial_config where
  "no_config = \<lparr>pc_model = None, pc_group = None, pc_temperature = None, pc_top_p = None, pc_max_tokens = None,
     pc_frequency_penalty = None, pc_presence_penalty = None, pc_seed = None, pc_stream = None\<rparr>"

definition no_enabled :: partial_enabled where
  "no_enabled = \<lparr>pp_temperature = None, pp_top_p = None, pp_max_tokens = None, pp_frequency_penalty = None,
     pp_presence_penalty = None, pp_seed = None\<rparr>"

definition playgroundConfigSchema :: "jsval \<Rightarrow> partial_config option" where
  "playgroundConfigSchema v =
     (if \<not> is_object v then None
      else case (z_optional z_string (jget v ''model''), z_optional z_string (jget v ''group''),
                 z_optional z_number (jget v ''temperature''), z_optional z_number (jget v ''top_p''),
                 z_optional z_number (jget v ''max_tokens''), z_optional z_number (jget v ''frequency_penalty''),
                 z_optional z_number (jget v ''presence_penalty''), z_optional (z_nullable z_number) (jget v ''seed''),
                 z_optional z_boolean (jget v ''stream'')) of
          (Some m, Some g, Some t, Some p, Some x, Some f, Some pr, Some s, Some st) \<Rightarrow>
            Some \<lparr>pc_model = m, pc_group = g, pc_temperature = t, pc_top_p = p, pc_max_tokens = x,
              pc_frequency_penalty = f, pc_presence_penalty = pr, pc_seed = s, pc_stream = st\<rparr>
        | _ \<Rightarrow> None)"

definition parameterEnabledSchema :: "jsval \<Rightarrow> partial_enabled option" where
  "parameterEnabledSchema v =
     (if \<not> is_object v then None
      else case (z_optional z_boolean (jget v ''temperature''), z_optional z_boolean (jget v ''top_p''),
                 z_optional z_boolean (jget v ''max_tokens''), z_optional z_boolean (jget v ''frequency_penalty''),
                 z_optional z_boolean (jget v ''presence_penalty''), z_optional z_boolean (jget v ''seed'')) of
          (Some t, Some p, Some m, Some f, Some pr, Some s) \<Rightarrow>
            Some \<lparr>pp_temperature = t, pp_top_p = p, pp_max_tokens = m, pp_frequency_penalty = f,
              pp_presence_penalty = pr, pp_seed = s\<rparr>
        | _ \<Rightarrow> None)"

definition config_value :: "partial_config \<Rightarrow> jsval" where
  "config_value c = object
     [(''model'', opt_value JStr (pc_model c)), (''group'', opt_value JStr (pc_group c)),
      (''temperature'', opt_value JNum (pc_temperature c)), (''top_p'', opt_value JNum (pc_top_p c)),
      (''max_tokens'', opt_value JNum (pc_max_tokens c)),
      (''frequency_penalty'', opt_value JNum (pc_frequency_penalty c)),
      (''presence_penalty'', opt_value JNum (pc_presence_penalty c)),
      (''seed'', opt_value (null_value JNum) (pc_seed c)), (''stream'', opt_value JBool (pc_stream c))]"

definition enabled_value :: "partial_enabled \<Rightarrow> jsval" where
  "enabled_value e = object
     [(''temperature'', opt_value JBool (pp_temperature e)), (''top_p'', opt_value JBool (pp_top_p e)),
      (''max_tokens'', opt_value JBool (pp_max_tokens e)),
      (''frequency_penalty'', opt_value JBool (pp_frequency_penalty e)),
      (''presence_penalty'', opt_value JBool (pp_presence_penalty e)), (''seed'', opt_value JBool (pp_seed e))]"

text \<open>All settings of a page are present.\<close>

definition full_config :: "config \<Rightarrow> partial_config" where
  "full_config c = \<lparr>pc_model = Some (cf_model c), pc_group = Some (cf_group c), pc_temperature = Some (cf_temperature c),
     pc_top_p = Some (cf_top_p c), pc_max_tokens = Some (cf_max_tokens c),
     pc_frequency_penalty = Some (cf_frequency_penalty c), pc_presence_penalty = Some (cf_presence_penalty c),
     pc_seed = Some (cf_seed c), pc_stream = Some (cf_stream c)\<rparr>"

definition full_enabled :: "parameter_enabled \<Rightarrow> partial_enabled" where
  "full_enabled e = \<lparr>pp_temperature = Some (pe_temperature e), pp_top_p = Some (pe_top_p e),
     pp_max_tokens = Some (pe_max_tokens e), pp_frequency_penalty = Some (pe_frequency_penalty e),
     pp_presence_penalty = Some (pe_presence_penalty e), pp_seed = Some (pe_seed e)\<rparr>"

definition CONFIG_KEY :: string where "CONFIG_KEY = ''playground_config''"
definition PARAMETER_ENABLED_KEY :: string where "PARAMETER_ENABLED_KEY = ''playground_parameter_enabled''"

text \<open>Both ways of loading settings: what cannot be read is empty.\<close>

definition load_stored :: "(jsval \<Rightarrow> 'a option) \<Rightarrow> 'a \<Rightarrow> string \<Rightarrow> jsnum option \<Rightarrow> local_storage \<Rightarrow> 'a" where
  "load_stored schema none baseKey ownerId s =
     (case readStoredValue baseKey ownerId s of
        Some (Some saved) \<Rightarrow> if \<not> jtruthy saved then none else coalesce (schema (unwrapStoredValue saved)) none
      | _ \<Rightarrow> none)"

definition loadConfig :: "jsnum option \<Rightarrow> local_storage \<Rightarrow> partial_config" where
  "loadConfig = load_stored playgroundConfigSchema no_config CONFIG_KEY"

definition loadParameterEnabled :: "jsnum option \<Rightarrow> local_storage \<Rightarrow> partial_enabled" where
  "loadParameterEnabled = load_stored parameterEnabledSchema no_enabled PARAMETER_ENABLED_KEY"

definition saveConfig ::
    "(string \<Rightarrow> string \<Rightarrow> bool) \<Rightarrow> config \<Rightarrow> jsnum option \<Rightarrow> local_storage \<Rightarrow> local_storage" where
  "saveConfig accepts config ownerId s =
     (case playgroundConfigSchema (config_value (full_config config)) of
        None \<Rightarrow> s
      | Some parsed \<Rightarrow> writeStoredValue accepts CONFIG_KEY (config_value parsed) ownerId s)"

definition saveParameterEnabled ::
    "(string \<Rightarrow> string \<Rightarrow> bool) \<Rightarrow> parameter_enabled \<Rightarrow> jsnum option \<Rightarrow> local_storage \<Rightarrow> local_storage" where
  "saveParameterEnabled accepts enabled ownerId s =
     (case parameterEnabledSchema (enabled_value (full_enabled enabled)) of
        None \<Rightarrow> s
      | Some parsed \<Rightarrow> writeStoredValue accepts PARAMETER_ENABLED_KEY (enabled_value parsed) ownerId s)"

definition getInitialPlaygroundConfig :: "jsnum option \<Rightarrow> local_storage \<Rightarrow> config" where
  "getInitialPlaygroundConfig ownerId s =
     (let c = loadConfig ownerId s; d = DEFAULT_CONFIG
      in \<lparr>cf_model = coalesce (pc_model c) (cf_model d), cf_group = coalesce (pc_group c) (cf_group d),
          cf_temperature = coalesce (pc_temperature c) (cf_temperature d),
          cf_top_p = coalesce (pc_top_p c) (cf_top_p d),
          cf_max_tokens = coalesce (pc_max_tokens c) (cf_max_tokens d),
          cf_frequency_penalty = coalesce (pc_frequency_penalty c) (cf_frequency_penalty d),
          cf_presence_penalty = coalesce (pc_presence_penalty c) (cf_presence_penalty d),
          cf_seed = coalesce (pc_seed c) (cf_seed d), cf_stream = coalesce (pc_stream c) (cf_stream d)\<rparr>)"

definition getInitialParameterEnabled :: "jsnum option \<Rightarrow> local_storage \<Rightarrow> parameter_enabled" where
  "getInitialParameterEnabled ownerId s =
     (let e = loadParameterEnabled ownerId s; d = DEFAULT_PARAMETER_ENABLED
      in \<lparr>pe_temperature = coalesce (pp_temperature e) (pe_temperature d), pe_top_p = coalesce (pp_top_p e) (pe_top_p d),
          pe_max_tokens = coalesce (pp_max_tokens e) (pe_max_tokens d),
          pe_frequency_penalty = coalesce (pp_frequency_penalty e) (pe_frequency_penalty d),
          pe_presence_penalty = coalesce (pp_presence_penalty e) (pe_presence_penalty d),
          pe_seed = coalesce (pp_seed e) (pe_seed d)\<rparr>)"

section \<open>The page\<close>

text \<open>The changes of one setting.\<close>

datatype config_change =
  SetModel string | SetGroup string | SetTemperature jsnum | SetTopP jsnum | SetMaxTokens jsnum
| SetFrequencyPenalty jsnum | SetPresencePenalty jsnum | SetSeed "jsnum option" | SetStream bool

datatype parameter_key = KTemperature | KTopP | KMaxTokens | KFrequencyPenalty | KPresencePenalty | KSeed

definition change_config :: "config_change \<Rightarrow> config \<Rightarrow> config" where
  "change_config ch c =
     (case ch of
        SetModel x \<Rightarrow> c\<lparr>cf_model := x\<rparr> | SetGroup x \<Rightarrow> c\<lparr>cf_group := x\<rparr> | SetTemperature x \<Rightarrow> c\<lparr>cf_temperature := x\<rparr>
      | SetTopP x \<Rightarrow> c\<lparr>cf_top_p := x\<rparr> | SetMaxTokens x \<Rightarrow> c\<lparr>cf_max_tokens := x\<rparr>
      | SetFrequencyPenalty x \<Rightarrow> c\<lparr>cf_frequency_penalty := x\<rparr> | SetPresencePenalty x \<Rightarrow> c\<lparr>cf_presence_penalty := x\<rparr>
      | SetSeed x \<Rightarrow> c\<lparr>cf_seed := x\<rparr> | SetStream x \<Rightarrow> c\<lparr>cf_stream := x\<rparr>)"

definition change_enabled :: "parameter_key \<Rightarrow> bool \<Rightarrow> parameter_enabled \<Rightarrow> parameter_enabled" where
  "change_enabled k b e =
     (case k of
        KTemperature \<Rightarrow> e\<lparr>pe_temperature := b\<rparr> | KTopP \<Rightarrow> e\<lparr>pe_top_p := b\<rparr> | KMaxTokens \<Rightarrow> e\<lparr>pe_max_tokens := b\<rparr>
      | KFrequencyPenalty \<Rightarrow> e\<lparr>pe_frequency_penalty := b\<rparr> | KPresencePenalty \<Rightarrow> e\<lparr>pe_presence_penalty := b\<rparr>
      | KSeed \<Rightarrow> e\<lparr>pe_seed := b\<rparr>)"

datatype message_state_updater = Messages "message list" | Updater "message list \<Rightarrow> message list"

definition applyMessageStateUpdate :: "message list \<Rightarrow> message_state_updater \<Rightarrow> message list" where
  "applyMessageStateUpdate previousMessages u = (case u of Updater f \<Rightarrow> f previousMessages | Messages ms \<Rightarrow> ms)"

text \<open>What waits for the next rendering.\<close>

datatype queued =
  QMessages message_state_updater
| QLoaded "message list"
| QConfig config_change
| QEnabled parameter_key bool
| QDefaults

record playground =
  pl_owner :: "jsnum option"
  pl_config :: config
  pl_enabled :: parameter_enabled
  pl_messages :: "message list"
  pl_isLoading :: bool
  pl_queue :: "queued list"
  pl_saveTimer :: bool
  pl_loadTimer :: bool
  pl_latest :: "message list"
  pl_hasLoaded :: bool
  pl_mounted :: bool
  pl_store :: local_storage

definition mount :: "jsnum option \<Rightarrow> local_storage \<Rightarrow> playground" where
  "mount ownerId s =
     \<lparr>pl_owner = ownerId, pl_config = getInitialPlaygroundConfig ownerId s,
      pl_enabled = getInitialParameterEnabled ownerId s, pl_messages = [], pl_isLoading = True, pl_queue = [],
      pl_saveTimer = False, pl_loadTimer = True, pl_latest = [], pl_hasLoaded = False, pl_mounted = True, pl_store = s\<rparr>"

definition enqueue_pl :: "queued \<Rightarrow> playground \<Rightarrow> playground" where
  "enqueue_pl q p = p\<lparr>pl_queue := pl_queue p @ [q]\<rparr>"

definition persistMessages :: "message list \<Rightarrow> playground \<Rightarrow> playground" where
  "persistMessages ms p =
     (let p1 = p\<lparr>pl_latest := ms\<rparr> in if \<not> pl_hasLoaded p then p1 else p1\<lparr>pl_saveTimer := True\<rparr>)"

text \<open>The updaters, when they are applied.\<close>

definition apply_queued :: "(string \<Rightarrow> string \<Rightarrow> bool) \<Rightarrow> queued \<Rightarrow> playground \<Rightarrow> playground" where
  "apply_queued accepts q p =
     (case q of
        QMessages u \<Rightarrow>
          (let newMessages = applyMessageStateUpdate (pl_messages p) u
           in (persistMessages newMessages p)\<lparr>pl_messages := newMessages\<rparr>)
      | QLoaded ms \<Rightarrow> p\<lparr>pl_messages := ms, pl_isLoading := False\<rparr>
      | QConfig ch \<Rightarrow>
          (let updated = change_config ch (pl_config p)
           in p\<lparr>pl_config := updated, pl_store := saveConfig accepts updated (pl_owner p) (pl_store p)\<rparr>)
      | QEnabled k b \<Rightarrow>
          (let updated = change_enabled k b (pl_enabled p)
           in p\<lparr>pl_enabled := updated, pl_store := saveParameterEnabled accepts updated (pl_owner p) (pl_store p)\<rparr>)
      | QDefaults \<Rightarrow> p\<lparr>pl_config := DEFAULT_CONFIG, pl_enabled := DEFAULT_PARAMETER_ENABLED\<rparr>)"

definition render_pl :: "(string \<Rightarrow> string \<Rightarrow> bool) \<Rightarrow> playground \<Rightarrow> playground" where
  "render_pl accepts p = fold (apply_queued accepts) (pl_queue p) (p\<lparr>pl_queue := []\<rparr>)"

definition updateMessages :: "message_state_updater \<Rightarrow> playground \<Rightarrow> playground" where
  "updateMessages u p = enqueue_pl (QMessages u) p"

definition clearMessages :: "playground \<Rightarrow> playground" where
  "clearMessages p = updateMessages (Messages []) p"

definition updateConfig :: "config_change \<Rightarrow> playground \<Rightarrow> playground" where
  "updateConfig ch p = enqueue_pl (QConfig ch) p"

definition updateParameterEnabled :: "parameter_key \<Rightarrow> bool \<Rightarrow> playground \<Rightarrow> playground" where
  "updateParameterEnabled k b p = enqueue_pl (QEnabled k b) p"

definition resetConfig :: "(string \<Rightarrow> string \<Rightarrow> bool) \<Rightarrow> playground \<Rightarrow> playground" where
  "resetConfig accepts p =
     (enqueue_pl QDefaults p)\<lparr>pl_store := saveParameterEnabled accepts DEFAULT_PARAMETER_ENABLED (pl_owner p)
        (saveConfig accepts DEFAULT_CONFIG (pl_owner p) (pl_store p))\<rparr>"

text \<open>The timer of the loading runs its callback once, also after the page is left; what it loads is then ignored.\<close>

definition load_fires ::
    "(string \<Rightarrow> string) \<Rightarrow> (string \<Rightarrow> string \<Rightarrow> bool) \<Rightarrow> jsnum \<Rightarrow> playground \<Rightarrow> playground" where
  "load_fires tr accepts now p =
     (if \<not> pl_loadTimer p then p
      else
        (let loaded = loadMessages tr accepts now (pl_owner p) (pl_store p);
             loadedMessages = coalesce (fst loaded) [];
             p1 = p\<lparr>pl_loadTimer := False, pl_store := snd loaded\<rparr>
         in if \<not> pl_mounted p then p1
            else enqueue_pl (QLoaded loadedMessages) (p1\<lparr>pl_latest := loadedMessages, pl_hasLoaded := True\<rparr>)))"

definition save_fires :: "(string \<Rightarrow> string \<Rightarrow> bool) \<Rightarrow> playground \<Rightarrow> playground" where
  "save_fires accepts p =
     (if \<not> pl_saveTimer p then p
      else p\<lparr>pl_saveTimer := False, pl_store := saveMessages accepts (pl_latest p) (pl_owner p) (pl_store p)\<rparr>)"

text \<open>The clean-up when the page is left: a waiting save is done at once; what waits for a rendering is dropped.\<close>

definition unmount :: "(string \<Rightarrow> string \<Rightarrow> bool) \<Rightarrow> playground \<Rightarrow> playground" where
  "unmount accepts p = (save_fires accepts p)\<lparr>pl_mounted := False, pl_queue := []\<rparr>"

datatype page_event =
  EUpdate message_state_updater | EConfig config_change | EEnabled parameter_key bool | EReset | ERender
| ELoadTimer jsnum | ESaveTimer | ELeave

definition page_step ::
    "(string \<Rightarrow> string) \<Rightarrow> (string \<Rightarrow> string \<Rightarrow> bool) \<Rightarrow> page_event \<Rightarrow> playground \<Rightarrow> playground" where
  "page_step tr accepts e p =
     (case e of
        ELoadTimer now \<Rightarrow> load_fires tr accepts now p
      | ESaveTimer \<Rightarrow> save_fires accepts p
      | EUpdate u \<Rightarrow> if pl_mounted p then updateMessages u p else p
      | EConfig ch \<Rightarrow> if pl_mounted p then updateConfig ch p else p
      | EEnabled k b \<Rightarrow> if pl_mounted p then updateParameterEnabled k b p else p
      | EReset \<Rightarrow> if pl_mounted p then resetConfig accepts p else p
      | ERender \<Rightarrow> if pl_mounted p then render_pl accepts p else p
      | ELeave \<Rightarrow> if pl_mounted p then unmount accepts p else p)"

definition run_page ::
    "(string \<Rightarrow> string) \<Rightarrow> (string \<Rightarrow> string \<Rightarrow> bool) \<Rightarrow> page_event list \<Rightarrow> playground \<Rightarrow> playground" where
  "run_page tr accepts = fold (page_step tr accepts)"

section \<open>Settings are read back\<close>

definition config_ok :: "config \<Rightarrow> bool" where
  "config_ok c \<longleftrightarrow> json_num_ok (cf_temperature c) \<and> json_num_ok (cf_top_p c) \<and> json_num_ok (cf_max_tokens c) \<and>
     json_num_ok (cf_frequency_penalty c) \<and> json_num_ok (cf_presence_penalty c) \<and> num_opt_ok (cf_seed c)"

lemma json_num_finite: "json_num_ok x \<Longrightarrow> is_finite x"
  by (simp add: json_num_ok_def)

lemma z_optional_simple [simp]:
  "z_optional z_string (JStr s) = Some (Some s)" "z_optional z_boolean (JBool b) = Some (Some b)"
  "is_finite x \<Longrightarrow> z_optional z_number (JNum x) = Some (Some x)"
  by (simp_all add: z_optional_def)

lemma z_seed: "finite_opt x \<Longrightarrow> z_optional (z_nullable z_number) (null_value JNum x) = Some (Some x)"
  by (auto simp: z_optional_def z_nullable_def null_value_def finite_opt_def split: option.splits)

lemma seed_defined [simp]: "null_value JNum x \<noteq> JUndefined"
  by (auto simp: null_value_def split: option.splits)

lemma config_reads_back: "config_ok c \<Longrightarrow> playgroundConfigSchema (config_value (full_config c)) = Some (full_config c)"
  by (simp add: playgroundConfigSchema_def config_value_def full_config_def jget_object opt_value_def
      config_ok_def json_num_finite z_seed num_opt_finite)

lemma enabled_reads_back: "parameterEnabledSchema (enabled_value (full_enabled e)) = Some (full_enabled e)"
  by (simp add: parameterEnabledSchema_def enabled_value_def full_enabled_def jget_object opt_value_def)

lemma json_ok_config: "config_ok c \<Longrightarrow> json_ok (config_value (full_config c))"
  unfolding config_value_def
  by (rule json_ok_object) (auto simp: full_config_def opt_value_def json_opt_def config_ok_def null_value_def num_opt_ok_def split: option.splits)

lemma json_ok_enabled: "json_ok (enabled_value e)"
  unfolding enabled_value_def by (rule json_ok_object) (simp_all add: json_opts)

text \<open>Whatever is written is loaded when its schema reads it.\<close>

lemma stored_loads:
  assumes "json_ok v" "schema v = Some x" "accepts (baseKey @ '':'' @ js_num_to_string own) (json_text (envelope v))"
  shows "load_stored schema none baseKey (Some own) (writeStoredValue accepts baseKey v (Some own) s) = x"
proof -
  have "json_ok (envelope v)" using assms(1) by (simp add: envelope_def json_num_ok_1)
  then have "json_parse (json_text (envelope v)) = Some (envelope v)" by (rule json_parse_text)
  moreover have "jtruthy (envelope v)" "unwrapStoredValue (envelope v) = v" "json_text (envelope v) \<noteq> []"
    by (simp_all add: jtruthy_def envelope_def unwrapStoredValue_def has_key_def jget_def)
  ultimately show ?thesis using assms(2,3)
    by (simp add: load_stored_def writeStoredValue_def readStoredValue_def getUserStorageKey_def set_item_def)
qed

section \<open>The invariant of the page\<close>

lemma key_kinds:
  "CONFIG_KEY @ '':'' @ a \<noteq> MESSAGES_KEY @ '':'' @ b" "PARAMETER_ENABLED_KEY @ '':'' @ a \<noteq> MESSAGES_KEY @ '':'' @ b"
  by (simp_all add: CONFIG_KEY_def PARAMETER_ENABLED_KEY_def MESSAGES_KEY_def)

lemma settings_leave_messages:
  "saveConfig accepts c own s (MESSAGES_KEY @ '':'' @ k) = s (MESSAGES_KEY @ '':'' @ k)"
  "saveParameterEnabled accepts e own s (MESSAGES_KEY @ '':'' @ k) = s (MESSAGES_KEY @ '':'' @ k)"
  using key_kinds [THEN not_sym]
  by (auto simp: saveConfig_def saveParameterEnabled_def writeStoredValue_def getUserStorageKey_def set_item_def
      split: option.split)

text \<open>Saving the messages again would change nothing.\<close>

definition synced :: "(string \<Rightarrow> string \<Rightarrow> bool) \<Rightarrow> message list \<Rightarrow> jsnum option \<Rightarrow> local_storage \<Rightarrow> bool" where
  "synced accepts ms ownerId s \<longleftrightarrow> saveMessages accepts ms ownerId s = s"

lemma synced_saved: "synced accepts ms own (saveMessages accepts ms own s)"
  by (auto simp: synced_def saveMessages_def writeStoredValue_def set_item_def Let_def split: option.split)

lemma synced_cong:
  assumes "\<And>k. s (MESSAGES_KEY @ '':'' @ k) = s' (MESSAGES_KEY @ '':'' @ k)"
  shows "synced accepts ms own s \<longleftrightarrow> synced accepts ms own s'"
  using assms
  by (auto simp: synced_def saveMessages_def writeStoredValue_def set_item_def Let_def getUserStorageKey_def
      fun_upd_idem_iff split: option.split)

lemma synced_settings [simp]:
  "synced accepts ms own (saveConfig accepts' c o' s) \<longleftrightarrow> synced accepts ms own s"
  "synced accepts ms own (saveParameterEnabled accepts' e o' s) \<longleftrightarrow> synced accepts ms own s"
  by (rule synced_cong, rule settings_leave_messages)+

definition not_loaded :: "queued \<Rightarrow> bool" where
  "not_loaded q \<longleftrightarrow> (case q of QLoaded _ \<Rightarrow> False | _ \<Rightarrow> True)"

definition is_setting :: "queued \<Rightarrow> bool" where
  "is_setting q \<longleftrightarrow> (case q of QLoaded _ \<Rightarrow> False | QMessages _ \<Rightarrow> False | _ \<Rightarrow> True)"

text \<open>What is shown once everything that waits is applied.\<close>

definition shown :: "queued list \<Rightarrow> playground \<Rightarrow> bool" where
  "shown qs p \<longleftrightarrow>
     (if pl_isLoading p
      then \<exists>pre post. qs = pre @ QLoaded (pl_latest p) # post \<and> list_all is_setting pre \<and> list_all not_loaded post
      else pl_latest p = pl_messages p \<and> list_all not_loaded qs)"

definition page_inv :: "(string \<Rightarrow> string \<Rightarrow> bool) \<Rightarrow> queued list \<Rightarrow> playground \<Rightarrow> bool" where
  "page_inv accepts qs p \<longleftrightarrow> pl_hasLoaded p \<and> \<not> pl_loadTimer p \<and>
     (pl_saveTimer p \<or> pl_latest p = [] \<or> synced accepts (pl_latest p) (pl_owner p) (pl_store p)) \<and>
     (if pl_mounted p then shown qs p else \<not> pl_saveTimer p \<and> (pl_isLoading p \<or> pl_latest p = pl_messages p))"

lemma shown_step:
  assumes "shown (q # qs) p" "pl_hasLoaded p" shows "shown qs (apply_queued accepts q p)"
proof (cases "pl_isLoading p")
  case False
  with assms show ?thesis
    by (cases q) (auto simp: shown_def apply_queued_def persistMessages_def not_loaded_def Let_def)
next
  case True
  then obtain pre post where *: "q # qs = pre @ QLoaded (pl_latest p) # post" "list_all is_setting pre"
    "list_all not_loaded post" using assms by (auto simp: shown_def)
  show ?thesis
  proof (cases pre)
    case Nil
    with * True show ?thesis by (auto simp: shown_def apply_queued_def)
  next
    case (Cons x pre')
    with * have "is_setting q" "qs = pre' @ QLoaded (pl_latest p) # post" "list_all is_setting pre'" by auto
    with *(3) True show ?thesis
      by (cases q) (auto simp: shown_def apply_queued_def is_setting_def Let_def)
  qed
qed

lemma page_inv_step:
  assumes "page_inv accepts (q # qs) p" "pl_mounted p"
  shows "page_inv accepts qs (apply_queued accepts q p)" "pl_mounted (apply_queued accepts q p)"
proof -
  have "shown qs (apply_queued accepts q p)" using assms by (intro shown_step) (simp_all add: page_inv_def)
  moreover have "pl_mounted (apply_queued accepts q p)" "pl_hasLoaded (apply_queued accepts q p)" "\<not> pl_loadTimer (apply_queued accepts q p)"
    using assms by (auto simp: apply_queued_def persistMessages_def page_inv_def Let_def split: queued.split)
  moreover have "pl_saveTimer (apply_queued accepts q p) \<or> pl_latest (apply_queued accepts q p) = [] \<or>
      synced accepts (pl_latest (apply_queued accepts q p)) (pl_owner (apply_queued accepts q p)) (pl_store (apply_queued accepts q p))"
    using assms by (auto simp: apply_queued_def persistMessages_def page_inv_def Let_def split: queued.split)
  ultimately show "page_inv accepts qs (apply_queued accepts q p)" "pl_mounted (apply_queued accepts q p)"
    by (simp_all add: page_inv_def)
qed

lemma page_inv_fold:
  "page_inv accepts qs p \<Longrightarrow> pl_mounted p \<Longrightarrow> pl_queue p = [] \<Longrightarrow>
   page_inv accepts [] (fold (apply_queued accepts) qs p) \<and> pl_queue (fold (apply_queued accepts) qs p) = []"
proof (induction qs arbitrary: p)
  case (Cons q qs)
  have "pl_queue (apply_queued accepts q p) = []" using Cons.prems(3)
    by (auto simp: apply_queued_def persistMessages_def Let_def split: queued.split)
  with Cons.IH [OF page_inv_step [OF Cons.prems(1,2)]] show ?case by simp
qed simp

lemma shown_enqueue: "shown qs p \<Longrightarrow> not_loaded q \<Longrightarrow> shown (qs @ [q]) p"
proof (cases "pl_isLoading p")
  case True
  assume "shown qs p" "not_loaded q"
  with True obtain pre post where "qs = pre @ QLoaded (pl_latest p) # post" "list_all is_setting pre" "list_all not_loaded (post @ [q])"
    by (auto simp: shown_def)
  then have "qs @ [q] = pre @ QLoaded (pl_latest p) # (post @ [q]) \<and> list_all is_setting pre \<and> list_all not_loaded (post @ [q])" by simp
  with True show ?thesis unfolding shown_def by meson
qed (simp add: shown_def)

lemma page_inv_enqueue:
  "page_inv accepts (pl_queue p) p \<Longrightarrow> pl_mounted p \<Longrightarrow> not_loaded q \<Longrightarrow>
   page_inv accepts (pl_queue (enqueue_pl q p)) (enqueue_pl q p)"
  using shown_enqueue [of "pl_queue p" p q] by (auto simp: page_inv_def enqueue_pl_def shown_def)

lemma page_inv_event:
  assumes "page_inv accepts (pl_queue p) p" shows "page_inv accepts (pl_queue (page_step tr accepts e p)) (page_step tr accepts e p)"
proof -
  note inv = page_inv_enqueue [OF assms]
  have save: "page_inv accepts (pl_queue (save_fires accepts p)) (save_fires accepts p)"
    using assms by (auto simp: page_inv_def save_fires_def shown_def synced_saved)
  have leave: "page_inv accepts (pl_queue (unmount accepts p)) (unmount accepts p)" if "pl_mounted p"
    using save that by (auto simp: page_inv_def save_fires_def unmount_def shown_def split: if_splits)
  have reset: "page_inv accepts (pl_queue (resetConfig accepts p)) (resetConfig accepts p)" if "pl_mounted p"
    using inv [OF that, of QDefaults] that
    by (auto simp: page_inv_def resetConfig_def enqueue_pl_def shown_def not_loaded_def)
  have render: "page_inv accepts (pl_queue (render_pl accepts p)) (render_pl accepts p)" if "pl_mounted p"
  proof -
    have "page_inv accepts (pl_queue p) (p\<lparr>pl_queue := []\<rparr>)" using assms by (auto simp: page_inv_def shown_def)
    with page_inv_fold [OF this] that show ?thesis by (simp add: render_pl_def)
  qed
  have load: "load_fires tr accepts now p = p" for now using assms by (simp add: load_fires_def page_inv_def)
  show ?thesis
    using assms save leave reset render load inv
    by (cases e) (simp_all add: page_step_def updateMessages_def updateConfig_def updateParameterEnabled_def not_loaded_def)
qed

lemma load_synced: "loadMessages tr accepts now own s = (Some ms, s') \<Longrightarrow> synced accepts ms own s'"
  by (auto simp: loadMessages_def Let_def synced_saved split: prod.splits option.splits if_splits)

lemma page_inv_loaded:
  "page_inv accepts (pl_queue (load_fires tr accepts now (mount own s))) (load_fires tr accepts now (mount own s))"
proof -
  obtain r s' where l: "loadMessages tr accepts now own s = (r, s')" by fastforce
  then have "coalesce r [] = [] \<or> synced accepts (coalesce r []) own s'" using load_synced by (cases r) auto
  with l show ?thesis
    by (auto simp: load_fires_def mount_def enqueue_pl_def page_inv_def shown_def Let_def intro!: exI [of _ "[]"])
qed

lemma page_inv_run:
  "page_inv accepts (pl_queue p) p \<Longrightarrow> page_inv accepts (pl_queue (run_page tr accepts es p)) (run_page tr accepts es p)"
  unfolding run_page_def by (induction es arbitrary: p) (simp_all add: page_inv_event)

lemma owner_fixed [simp]: "pl_owner (run_page tr accepts es p) = pl_owner p"
proof -
  have q: "pl_owner (apply_queued accepts q p) = pl_owner p" for q p
    by (auto simp: apply_queued_def persistMessages_def Let_def split: queued.split)
  have "pl_owner (fold (apply_queued accepts) qs p) = pl_owner p" for qs p by (induction qs arbitrary: p) (simp_all add: q)
  then have "pl_owner (page_step tr accepts e p) = pl_owner p" for e p
    by (cases e) (simp_all add: page_step_def load_fires_def save_fires_def updateMessages_def updateConfig_def
        updateParameterEnabled_def resetConfig_def render_pl_def unmount_def enqueue_pl_def Let_def)
  then show ?thesis unfolding run_page_def by (induction es arbitrary: p) simp_all
qed

end
