(* ===== verification/Storage_Properties.thy ===== *)
theory Storage_Properties
  imports Chat_State
begin

text \<open>The properties of the playground's storage, with their witnesses.\<close>

text \<open>Of a conversation that is loaded the longest end is kept whose text fits into the limit, and at least its last
  message.\<close>

theorem longest_end_is_kept:
  "kept_end ms (trimMessagesByContentSize ms)"
  using size_loop_kept [of "[]" "rev ms"] by (simp add: trimMessagesByContentSize_def total_size_def)

text \<open>C22. A conversation at rest that fits the limits is loaded exactly as it was saved, by the account that saved it.\<close>

theorem saved_conversation_loads:
  assumes "list_all at_rest ms" "length ms \<le> MAX_STORED_MESSAGES" "total_size ms \<le> MAX_LOADED_MESSAGES_CHARS"
    and "length (json_text (envelope (JArr (map message_value ms)))) \<le> MAX_STORED_MESSAGES_BYTES"
    and "\<And>key txt. accepts key txt"
  shows "fst (loadMessages tr accepts now (Some own) (saveMessages accepts ms (Some own) s)) = Some ms"
  using assms by (rule saved_loads)

text \<open>C23. Accounts do not see each other's conversations: what an account saves, or clears, leaves what another account
  loads as it was; without an account nothing is read or written.\<close>

theorem accounts_are_separate:
  assumes "json_num_ok a" "json_num_ok b" "a \<noteq> b"
  shows "fst (loadMessages tr accepts now (Some b) (saveMessages accepts ms (Some a) s)) =
      fst (loadMessages tr accepts now (Some b) s) \<and>
    fst (loadMessages tr accepts now (Some b) (clearPlaygroundData (Some a) s)) =
      fst (loadMessages tr accepts now (Some b) s) \<and>
    saveMessages accepts ms None s = s \<and> loadMessages tr accepts now None s = (None, s)"
proof -
  let ?k = "\<lambda>base o'. base @ '':'' @ js_num_to_string o'"
  have key: "?k MESSAGES_KEY a \<noteq> ?k MESSAGES_KEY b" using key_owner [OF assms, of MESSAGES_KEY] by (simp add: getUserStorageKey_def)
  have other: "getUserStorageKey base (Some a) \<noteq> Some (?k MESSAGES_KEY b)" if "base \<in> set STORAGE_KEYS" for base
    using that key by (auto simp: STORAGE_KEYS_def getUserStorageKey_def MESSAGES_KEY_def)
  have same: "fst (loadMessages tr accepts now (Some b) s1) = fst (loadMessages tr accepts now (Some b) s2)"
    if "s1 (?k MESSAGES_KEY b) = s2 (?k MESSAGES_KEY b)" for s1 s2 :: local_storage
    using that by (auto simp: loadMessages_def readStoredMessagesValue_def getUserStorageKey_def Let_def
        split: option.splits)
  have "saveMessages accepts ms (Some a) s (?k MESSAGES_KEY b) = s (?k MESSAGES_KEY b)"
    using key by (auto simp: saveMessages_def writeStoredValue_def getUserStorageKey_def set_item_def Let_def)
  moreover have "clearPlaygroundData (Some a) s (?k MESSAGES_KEY b) = s (?k MESSAGES_KEY b)"
    by (rule clear_other) (rule other)
  moreover have "saveMessages accepts ms None s = s"
    by (simp add: saveMessages_def writeStoredValue_def getUserStorageKey_def Let_def)
  moreover have "loadMessages tr accepts now None s = (None, s)"
    by (simp add: loadMessages_def readStoredMessagesValue_def getUserStorageKey_def)
  ultimately show ?thesis using same by blast
qed

text \<open>Settings are loaded as they were saved: the configuration with every number that JSON keeps, and the choice of
  the parameters that are sent.\<close>

theorem saved_settings_load:
  assumes "config_ok c" "\<And>key txt. accepts key txt"
  shows "getInitialPlaygroundConfig (Some own) (saveConfig accepts c (Some own) s) = c \<and>
    getInitialParameterEnabled (Some own) (saveParameterEnabled accepts e (Some own) s) = e"
proof -
  have "loadConfig (Some own) (saveConfig accepts c (Some own) s) = full_config c"
    using assms stored_loads [OF json_ok_config, of c playgroundConfigSchema "full_config c"]
    by (simp add: loadConfig_def saveConfig_def config_reads_back)
  moreover have "loadParameterEnabled (Some own) (saveParameterEnabled accepts e (Some own) s) = full_enabled e"
    using assms(2) stored_loads [OF json_ok_enabled, of parameterEnabledSchema "full_enabled e" "full_enabled e"]
    by (simp add: loadParameterEnabled_def saveParameterEnabled_def enabled_reads_back)
  ultimately show ?thesis
    by (simp add: getInitialPlaygroundConfig_def getInitialParameterEnabled_def full_config_def full_enabled_def)
qed

text \<open>C24. The page opens again as it was left.  It is assumed that the stored conversation is loaded before anything else happens on the
  page (an earlier update can overwrite it), that loading is over when the page is left, that some message is shown, all of them at rest and
  within the limits of storage, and that the browser accepts what is written.  Then, whatever else happened on the page, in
  whatever order renderings and timers came, the messages shown last are the messages the next page of the account loads.\<close>

theorem page_reopens_as_left:
  assumes "p = run_page tr accepts (ELoadTimer now # es) (mount (Some own) s)"
    and "\<not> pl_mounted p" "\<not> pl_isLoading p" "pl_messages p \<noteq> []"
    and "list_all at_rest (pl_messages p)" "length (pl_messages p) \<le> MAX_STORED_MESSAGES"
      "total_size (pl_messages p) \<le> MAX_LOADED_MESSAGES_CHARS"
      "length (json_text (envelope (JArr (map message_value (pl_messages p))))) \<le> MAX_STORED_MESSAGES_BYTES"
    and "\<And>key txt. accepts key txt"
  shows "fst (loadMessages tr accepts later (Some own) (pl_store p)) = Some (pl_messages p)"
proof -
  have p: "p = run_page tr accepts es (load_fires tr accepts now (mount (Some own) s))"
    using assms(1) by (simp add: run_page_def page_step_def)
  then have "page_inv accepts (pl_queue p) p" by (simp add: page_inv_run page_inv_loaded)
  moreover have "pl_owner p = Some own" by (simp add: p load_fires_def mount_def enqueue_pl_def Let_def)
  ultimately have "saveMessages accepts (pl_messages p) (Some own) (pl_store p) = pl_store p"
    using assms(2-4) by (auto simp: page_inv_def synced_def)
  then show ?thesis using saved_loads [OF assms(5-8), where accepts = accepts and own = own and s = "pl_store p"] assms(9) by simp
qed

section \<open>A finding\<close>

text \<open>
  An update that reaches React before the stored conversation is loaded, and is applied after it, replaces the stored
  conversation although the page shows the loaded one.
\<close>

lemma early_update_overwrites:
  assumes "fst (loadMessages tr accepts now (Some own) s) = Some loaded"
    and "p = run_page tr accepts [EUpdate (Messages early), ELoadTimer now, ERender] (mount (Some own) s)"
  shows "pl_messages p = loaded" "pl_latest p = early" "pl_saveTimer p"
  using assms
  by (simp_all add: run_page_def page_step_def mount_def updateMessages_def enqueue_pl_def load_fires_def render_pl_def
      apply_queued_def persistMessages_def applyMessageStateUpdate_def Let_def)

section \<open>Witnesses\<close>

definition greeting :: message where
  "greeting = createUserMessage ''a'' ''b'' ''Hi'' (Fin 5)"

lemma greeting_ok:
  "list_all at_rest [greeting]" "length [greeting] \<le> MAX_STORED_MESSAGES"
  "total_size [greeting] \<le> MAX_LOADED_MESSAGES_CHARS"
  "length (json_text (envelope (JArr (map message_value [greeting])))) \<le> MAX_STORED_MESSAGES_BYTES"
proof -
  show "list_all at_rest [greeting]" by code_simp
  show "length [greeting] \<le> MAX_STORED_MESSAGES" by (simp add: MAX_STORED_MESSAGES_def)
  show "total_size [greeting] \<le> MAX_LOADED_MESSAGES_CHARS"
    by (simp add: greeting_def total_size_def getMessageSize_def createUserMessage_def createMessageVersion_def MAX_LOADED_MESSAGES_CHARS_def)
  have "length (json_text (envelope (JArr (map message_value [greeting])))) \<le> 300" by code_simp
  then show "length (json_text (envelope (JArr (map message_value [greeting])))) \<le> MAX_STORED_MESSAGES_BYTES"
    by (simp add: MAX_STORED_MESSAGES_BYTES_def)
qed

theorem page_reopens_as_left_witness:
  "fst (loadMessages id (\<lambda>_ _. True) (Fin 9) (Some (Fin 1)) (pl_store
     (run_page id (\<lambda>_ _. True) [ELoadTimer (Fin 0), EUpdate (Messages [greeting]), ERender, ELeave] (mount (Some (Fin 1)) Map.empty)))) =
   Some [greeting]"
proof -
  let ?p = "run_page id (\<lambda>_ _. True) [ELoadTimer (Fin 0), EUpdate (Messages [greeting]), ERender, ELeave] (mount (Some (Fin 1)) Map.empty)"
  have p: "\<not> pl_mounted ?p" "\<not> pl_isLoading ?p" "pl_messages ?p = [greeting]"
    by (simp_all add: run_page_def page_step_def mount_def updateMessages_def enqueue_pl_def load_fires_def render_pl_def
        apply_queued_def persistMessages_def applyMessageStateUpdate_def unmount_def save_fires_def Let_def
        loadMessages_def readStoredMessagesValue_def getUserStorageKey_def)
  show ?thesis
    using page_reopens_as_left [OF refl p(1,2), where later = "Fin 9"] greeting_ok by (simp add: p(3))
qed

theorem saved_settings_load_witness:
  "getInitialPlaygroundConfig (Some (Fin 1)) (saveConfig (\<lambda>_ _. True) DEFAULT_CONFIG (Some (Fin 1)) Map.empty) = DEFAULT_CONFIG"
proof -
  have "config_ok DEFAULT_CONFIG" by code_simp
  from saved_settings_load [OF this, of "\<lambda>_ _. True" "Fin 1" Map.empty DEFAULT_PARAMETER_ENABLED]
  show ?thesis by simp
qed


theorem accounts_are_separate_witness:
  "fst (loadMessages id (\<lambda>_ _. True) (Fin 0) (Some (Fin 2))
     (saveMessages (\<lambda>_ _. True) [createUserMessage ''a'' ''b'' ''Hi'' (Fin 0)] (Some (Fin 1)) Map.empty)) = None"
proof -
  have "json_num_ok (Fin 1)" "json_num_ok (Fin 2)" by code_simp+
  from accounts_are_separate [OF this, of id "\<lambda>_ _. True" "Fin 0" "[createUserMessage ''a'' ''b'' ''Hi'' (Fin 0)]" Map.empty]
  show ?thesis by (simp add: loadMessages_def [of id _ _ _ Map.empty] readStoredMessagesValue_def getUserStorageKey_def)
qed

theorem saved_conversation_loads_witness:
  "fst (loadMessages id (\<lambda>_ _. True) (Fin 0) (Some (Fin 1)) (saveMessages (\<lambda>_ _. True) [greeting] (Some (Fin 1)) Map.empty)) =
   Some [greeting]"
  by (rule saved_conversation_loads) (simp_all only: greeting_ok)

end
