(* ===== verification/Status_Codes.thy ===== *)
theory Status_Codes
  imports JS_Json_Text JS_Regex "HOL-Library.Product_Lexorder"
begin

text \<open>
  Rules over HTTP status codes: the list of codes and ranges of the retry and disable settings
  (\<open>web/src/lib/http-status-code-rules.ts\<close>) and the check of the status code mapping of a channel
  (\<open>web/src/features/channels/lib/status-code-risk-guard.ts\<close>).  The full-width comma, which the parser
  also accepts, is outside the strings of the model.
\<close>

section \<open>Rules\<close>

record status_range =
  sr_start :: int
  sr_end :: int

record parsed_rules =
  pr_ok :: bool
  pr_ranges :: "status_range list"
  pr_tokens :: "string list"
  pr_normalized :: string
  pr_invalidTokens :: "string list"

definition isNumber :: "string \<Rightarrow> bool" where
  "isNumber s \<longleftrightarrow> s \<noteq> [] \<and> list_all is_digit s"

definition isValidCode :: "int \<Rightarrow> bool" where
  "isValidCode code \<longleftrightarrow> 100 \<le> code \<and> code \<le> 599"

text \<open>\<open>Number.parseInt(s, 10)\<close> of digits.\<close>

definition parse_int :: "string \<Rightarrow> int" where
  "parse_int s = dec_value 0 s"

definition parseToken :: "string \<Rightarrow> status_range option" where
  "parseToken token =
     (let cleaned = filter (\<lambda>c. \<not> is_ws c) (js_trim token)
      in if cleaned = [] then None
         else if CHR ''-'' \<in> set cleaned then
           (case js_split (CHR ''-'') cleaned of
              a # b # _ \<Rightarrow>
                if \<not> isNumber a \<or> \<not> isNumber b then None
                else if \<not> isValidCode (parse_int a) \<or> \<not> isValidCode (parse_int b) \<or> parse_int a > parse_int b then None
                else Some \<lparr>sr_start = parse_int a, sr_end = parse_int b\<rparr>
            | _ \<Rightarrow> None)
         else if \<not> isNumber cleaned then None
         else if \<not> isValidCode (parse_int cleaned) then None
         else Some \<lparr>sr_start = parse_int cleaned, sr_end = parse_int cleaned\<rparr>)"

definition merge_step :: "status_range \<Rightarrow> status_range list \<Rightarrow> status_range list" where
  "merge_step current merged =
     (if merged = [] \<or> sr_start current > sr_end (last merged) + 1 then merged @ [current]
      else butlast merged @ [(last merged)\<lparr>sr_end := max (sr_end (last merged)) (sr_end current)\<rparr>])"

definition mergeRanges :: "status_range list \<Rightarrow> status_range list" where
  "mergeRanges ranges = fold merge_step (sort_key (\<lambda>r. (sr_start r, sr_end r)) ranges) []"

definition range_token :: "status_range \<Rightarrow> string" where
  "range_token r =
     (if sr_start r = sr_end r then show_pos (sr_start r) else show_pos (sr_start r) @ ''-'' @ show_pos (sr_end r))"

definition parseHttpStatusCodeRules :: "string \<Rightarrow> parsed_rules" where
  "parseHttpStatusCodeRules input =
     (let raw = js_trim input
      in if raw = [] then
           \<lparr>pr_ok = True, pr_ranges = [], pr_tokens = [], pr_normalized = [], pr_invalidTokens = []\<rparr>
         else
           (let segments = filter (\<lambda>s. s \<noteq> []) (map js_trim (js_split (CHR '','') raw));
                invalidTokens = filter (\<lambda>s. parseToken s = None) segments;
                ranges = List.map_filter parseToken segments
            in if invalidTokens \<noteq> [] then
                 \<lparr>pr_ok = False, pr_ranges = [], pr_tokens = [], pr_normalized = raw, pr_invalidTokens = invalidTokens\<rparr>
               else
                 (let merged = mergeRanges ranges; tokens = map range_token merged
                  in \<lparr>pr_ok = True, pr_ranges = merged, pr_tokens = tokens, pr_normalized = js_join '','' tokens,
                      pr_invalidTokens = []\<rparr>)))"

section \<open>The mapping of status codes\<close>

definition NON_REDIRECTABLE_STATUS_CODES :: "int list" where
  "NON_REDIRECTABLE_STATUS_CODES = [504, 524]"

definition is_code_text :: "string \<Rightarrow> bool" where
  "is_code_text s \<longleftrightarrow> length s = 3 \<and> list_all is_digit s \<and> 49 \<le> ordc (hd s) \<and> ordc (hd s) \<le> 53"

definition parseStatusCodeKey :: "string \<Rightarrow> int option" where
  "parseStatusCodeKey rawKey =
     (let normalized = js_trim rawKey in if is_code_text normalized then Some (parse_int normalized) else None)"

definition parseStatusCodeMappingTarget :: "jsval \<Rightarrow> int option" where
  "parseStatusCodeMappingTarget rawValue =
     (case rawValue of
        JNum x \<Rightarrow> if is_integer x then (if isValidCode \<lfloor>rv x\<rfloor> then Some \<lfloor>rv x\<rfloor> else None) else None
      | JStr s \<Rightarrow>
          (let normalized = js_trim s
           in if \<not> is_code_text normalized then None
              else if isValidCode (parse_int normalized) then Some (parse_int normalized) else None)
      | _ \<Rightarrow> None)"

text \<open>The entries of the object a text denotes; anything else has none.\<close>

definition mapping_entries :: "string \<Rightarrow> (string \<times> jsval) list" where
  "mapping_entries txt =
     (if js_trim txt = [] then []
      else case json_parse txt of Some (JObj kvs) \<Rightarrow> js_entries kvs | _ \<Rightarrow> [])"

definition entry_codes :: "string \<times> jsval \<Rightarrow> (int \<times> int) option" where
  "entry_codes e =
     (case (parseStatusCodeKey (fst e), parseStatusCodeMappingTarget (snd e)) of
        (Some a, Some b) \<Rightarrow> Some (a, b) | _ \<Rightarrow> None)"

text \<open>The entries that are reported, without their display text.\<close>

definition collectInvalidStatusCodeEntries :: "string \<Rightarrow> (string \<times> jsval) list" where
  "collectInvalidStatusCodeEntries txt = filter (\<lambda>e. entry_codes e = None) (mapping_entries txt)"

definition risky :: "int \<times> int \<Rightarrow> bool" where
  "risky p \<longleftrightarrow> fst p \<in> set NON_REDIRECTABLE_STATUS_CODES \<and> fst p \<noteq> snd p"

text \<open>The pairs behind the texts \<open>from -> to\<close>, which have three digits each, so that they sort as the pairs.\<close>

definition collectDisallowedStatusCodeRedirects :: "string \<Rightarrow> (int \<times> int) list" where
  "collectDisallowedStatusCodeRedirects txt =
     sort (js_unique (filter risky (List.map_filter entry_codes (mapping_entries txt))))"

definition collectNewDisallowedStatusCodeRedirects :: "string \<Rightarrow> string \<Rightarrow> (int \<times> int) list" where
  "collectNewDisallowedStatusCodeRedirects original current =
     filter (\<lambda>p. p \<notin> set (collectDisallowedStatusCodeRedirects original)) (collectDisallowedStatusCodeRedirects current)"

section \<open>Merging\<close>

definition in_range :: "int \<Rightarrow> status_range \<Rightarrow> bool" where
  "in_range c r \<longleftrightarrow> sr_start r \<le> c \<and> c \<le> sr_end r"

text \<open>Ranges in normal form: well-formed, in order, with a gap between any two.\<close>

fun separated :: "status_range list \<Rightarrow> bool" where
  "separated [] \<longleftrightarrow> True"
| "separated [r] \<longleftrightarrow> sr_start r \<le> sr_end r"
| "separated (r # q # rs) \<longleftrightarrow> sr_start r \<le> sr_end r \<and> sr_end r + 1 < sr_start q \<and> separated (q # rs)"

lemma separated_append:
  "separated (xs @ [r]) \<longleftrightarrow> separated xs \<and> sr_start r \<le> sr_end r \<and> (xs \<noteq> [] \<longrightarrow> sr_end (last xs) + 1 < sr_start r)"
proof (induction xs rule: separated.induct)
  case (3 r q rs)
  then show ?case by simp
qed auto

lemma merge_step_separated:
  assumes "separated merged" "sr_start r \<le> sr_end r" "\<forall>q \<in> set merged. sr_start q \<le> sr_start r"
  shows "separated (merge_step r merged)" "\<forall>q \<in> set (merge_step r merged). sr_start q \<le> sr_start r"
    "(\<exists>q \<in> set (merge_step r merged). in_range c q) \<longleftrightarrow> in_range c r \<or> (\<exists>q \<in> set merged. in_range c q)"
proof -
  have "separated (merge_step r merged) \<and> (\<forall>q \<in> set (merge_step r merged). sr_start q \<le> sr_start r) \<and>
    ((\<exists>q \<in> set (merge_step r merged). in_range c q) \<longleftrightarrow> in_range c r \<or> (\<exists>q \<in> set merged. in_range c q))"
  proof (cases merged rule: rev_cases)
    case Nil
    then show ?thesis using assms by (simp add: merge_step_def)
  next
    case (snoc ms m)
    show ?thesis
    proof (cases "sr_start r > sr_end m + 1")
      case True
      with assms snoc show ?thesis
        using separated_append [of merged r] by (auto simp: merge_step_def)
    next
      case False
      with assms snoc have m: "separated ms" "sr_start m \<le> sr_end m" "ms \<noteq> [] \<longrightarrow> sr_end (last ms) + 1 < sr_start m"
        "sr_start m \<le> sr_start r" using separated_append [of ms m] by auto
      then show ?thesis using False snoc assms
        by (auto simp: merge_step_def separated_append in_range_def)
    qed
  qed
  then show "separated (merge_step r merged)" "\<forall>q \<in> set (merge_step r merged). sr_start q \<le> sr_start r"
    "(\<exists>q \<in> set (merge_step r merged). in_range c q) \<longleftrightarrow> in_range c r \<or> (\<exists>q \<in> set merged. in_range c q)" by blast+
qed

lemma fold_merge:
  assumes "sorted (map sr_start rs)" "\<forall>r \<in> set rs. sr_start r \<le> sr_end r" "separated merged"
    "\<forall>q \<in> set merged. \<forall>r \<in> set rs. sr_start q \<le> sr_start r"
  shows "separated (fold merge_step rs merged) \<and>
    ((\<exists>q \<in> set (fold merge_step rs merged). in_range c q) \<longleftrightarrow> (\<exists>q \<in> set rs \<union> set merged. in_range c q))"
  using assms
proof (induction rs arbitrary: merged)
  case (Cons r rs)
  note step = merge_step_separated [of merged r]
  have "\<forall>q \<in> set (merge_step r merged). \<forall>p \<in> set rs. sr_start q \<le> sr_start p"
    using step(2) Cons.prems by fastforce
  with Cons.IH [of "merge_step r merged"] step(1) step(3) [of c] Cons.prems show ?case by auto
qed simp

lemma sorted_starts: "sorted (map sr_start (sort_key (\<lambda>r. (sr_start r, sr_end r)) rs))"
proof -
  have "sorted (map (\<lambda>r. (sr_start r, sr_end r)) (sort_key (\<lambda>r. (sr_start r, sr_end r)) rs))" by (rule sorted_sort_key)
  then have "sorted (map fst (map (\<lambda>r. (sr_start r, sr_end r)) (sort_key (\<lambda>r. (sr_start r, sr_end r)) rs)))"
    by (auto simp: sorted_iff_nth_mono less_eq_prod_def) force
  then show ?thesis by (simp add: comp_def)
qed

lemma merge_ok:
  assumes "\<forall>r \<in> set rs. sr_start r \<le> sr_end r"
  shows "separated (mergeRanges rs)" "(\<exists>q \<in> set (mergeRanges rs). in_range c q) \<longleftrightarrow> (\<exists>q \<in> set rs. in_range c q)"
  using fold_merge [OF sorted_starts, of rs "[]" c] assms by (auto simp: mergeRanges_def)

section \<open>The normal form reads back\<close>

lemma dec_value_append: "dec_value a (s @ t) = dec_value (dec_value a s) t"
  by (induction s arbitrary: a) auto

lemma digit_char: "0 \<le> d \<Longrightarrow> d < 10 \<Longrightarrow> ordc (digit_char d) = 48 + d"
  by (simp add: digit_char_def ordc_char_of)

lemma show_pos_digits: "0 \<le> n \<Longrightarrow> isNumber (show_pos n) \<and> parse_int (show_pos n) = n"
proof (induction n rule: show_pos.induct)
  case (1 n)
  show ?case
  proof (cases "n < 10")
    case True
    with 1 show ?thesis
      by (simp add: show_pos.simps isNumber_def parse_int_def is_digit_def digit_val_def digit_char)
  next
    case False
    have "isNumber (show_pos (n div 10))" "parse_int (show_pos (n div 10)) = n div 10" using 1 False by auto
    then show ?thesis using False 1(2)
      by (simp add: show_pos.simps [of n] isNumber_def parse_int_def is_digit_def digit_val_def digit_char dec_value_append)
  qed
qed

lemma number_chars:
  assumes "isNumber s" "c \<in> set s" shows "\<not> is_ws c" "c \<noteq> CHR ''-''" "c \<noteq> CHR '',''"
  using assms by (auto simp: isNumber_def list_all_iff is_digit_def is_ws_def ordc_def)

definition range_ok :: "status_range \<Rightarrow> bool" where
  "range_ok r \<longleftrightarrow> isValidCode (sr_start r) \<and> isValidCode (sr_end r) \<and> sr_start r \<le> sr_end r"

lemma range_token_chars:
  assumes "range_ok r" "c \<in> set (range_token r)" shows "\<not> is_ws c" "c \<noteq> CHR '',''"
proof -
  have "isNumber (show_pos (sr_start r))" "isNumber (show_pos (sr_end r))"
    using assms(1) show_pos_digits [of "sr_start r"] show_pos_digits [of "sr_end r"] by (auto simp: range_ok_def isValidCode_def)
  then have "c = CHR ''-'' \<or> \<not> is_ws c \<and> c \<noteq> CHR '',''"
    using assms(2) number_chars(1,3) by (auto simp: range_token_def split: if_splits)
  then show "\<not> is_ws c" "c \<noteq> CHR '',''" by (auto simp: is_ws_def ordc_def)
qed

lemma parse_range_token:
  assumes "range_ok r" shows "parseToken (range_token r) = Some r" "range_token r \<noteq> []" "js_trim (range_token r) = range_token r"
proof -
  have a: "isNumber (show_pos (sr_start r))" "parse_int (show_pos (sr_start r)) = sr_start r"
    and b: "isNumber (show_pos (sr_end r))" "parse_int (show_pos (sr_end r)) = sr_end r"
    using assms show_pos_digits [of "sr_start r"] show_pos_digits [of "sr_end r"] by (auto simp: range_ok_def isValidCode_def)
  show trim: "js_trim (range_token r) = range_token r" using range_token_chars(1) [OF assms] by (intro js_trim_no_ws) blast
  show ne: "range_token r \<noteq> []" using a(1) b(1) by (simp add: range_token_def isNumber_def)
  have cleaned: "filter (\<lambda>c. \<not> is_ws c) (js_trim (range_token r)) = range_token r"
    unfolding trim using range_token_chars(1) [OF assms] by (simp add: filter_id_conv)
  have no: "CHR ''-'' \<notin> set (show_pos (sr_start r))" "CHR ''-'' \<notin> set (show_pos (sr_end r))"
    using number_chars(2) a(1) b(1) by blast+
  have split: "js_split (CHR ''-'') (show_pos (sr_start r) @ CHR ''-'' # show_pos (sr_end r)) =
      [show_pos (sr_start r), show_pos (sr_end r)]"
    using no by (simp add: js_split_append js_split_one)
  show "parseToken (range_token r) = Some r"
    using assms a b no ne split unfolding parseToken_def cleaned Let_def
    by (auto simp: range_token_def range_ok_def)
qed

lemma separated_sorted: "separated rs \<Longrightarrow> sorted (map (\<lambda>r. (sr_start r, sr_end r)) rs)"
proof (induction rs rule: separated.induct)
  case (3 r q rs)
  then have "sr_start r < sr_start q" by simp
  moreover have "\<forall>p \<in> set rs. (sr_start q, sr_end q) \<le> (sr_start p, sr_end p)" using 3 by simp
  ultimately show ?case using 3 by (auto simp: less_eq_prod_def)
qed auto

lemma fold_separated: "separated (ms @ rs) \<Longrightarrow> fold merge_step rs ms = ms @ rs"
proof (induction rs arbitrary: ms)
  case (Cons r rs)
  have "separated (ms @ [r])"
    using Cons.prems by (induction ms rule: separated.induct) (auto simp: neq_Nil_conv elim: separated.elims(2))
  then have "merge_step r ms = ms @ [r]" by (auto simp: merge_step_def separated_append)
  with Cons show ?case by simp
qed simp

lemma merge_separated: "separated rs \<Longrightarrow> mergeRanges rs = rs"
  by (simp add: mergeRanges_def sort_key_sorted separated_sorted fold_separated)

lemma map_filter_tokens: "\<forall>r \<in> set rs. range_ok r \<Longrightarrow> List.map_filter parseToken (map range_token rs) = rs"
  by (induction rs) (auto simp: map_filter_simps parse_range_token)

text \<open>The text of ranges in normal form is read as these ranges.\<close>

lemma normal_form_reads_back:
  assumes "separated rs" "\<forall>r \<in> set rs. range_ok r"
  shows "parseHttpStatusCodeRules (js_join '','' (map range_token rs)) =
    \<lparr>pr_ok = True, pr_ranges = rs, pr_tokens = map range_token rs, pr_normalized = js_join '','' (map range_token rs),
     pr_invalidTokens = []\<rparr>"
proof (cases "rs = []")
  case True
  then show ?thesis by (simp add: parseHttpStatusCodeRules_def)
next
  case False
  let ?ts = "map range_token rs" and ?s = "js_join '','' (map range_token rs)"
  have "\<not> is_ws c" if c: "c \<in> set ?s" for c
  proof (cases "c = CHR '',''")
    case True
    then show ?thesis by (simp add: is_ws_def ordc_def)
  next
    case False
    then obtain r where "r \<in> set rs" "c \<in> set (range_token r)" using js_join_chars [OF c] by auto
    then show ?thesis using range_token_chars(1) assms(2) by blast
  qed
  then have trim: "js_trim ?s = ?s" by (intro js_trim_no_ws) blast
  have "set t \<subseteq> set ?s" if "t \<in> set ?ts" for t using js_join_member [OF that, of "'',''"] by auto
  then have ne: "?s \<noteq> []" using False parse_range_token(2) assms(2) by (cases rs) fastforce+
  have split: "js_split (CHR '','') ?s = ?ts"
    using False range_token_chars(2) assms(2) by (intro js_split_joined) auto
  have segments: "filter (\<lambda>s. s \<noteq> []) (map js_trim ?ts) = ?ts"
    using assms(2) parse_range_token(2,3) by (simp add: comp_def filter_id_conv cong: map_cong)
  have "filter (\<lambda>s. parseToken s = None) ?ts = []"
    using assms(2) parse_range_token(1) by (auto simp: filter_empty_conv)
  then show ?thesis using ne map_filter_tokens [OF assms(2)] merge_separated [OF assms(1)]
    unfolding parseHttpStatusCodeRules_def trim Let_def split segments by simp
qed

lemma parseToken_ok: "parseToken s = Some r \<Longrightarrow> range_ok r"
  unfolding parseToken_def Let_def range_ok_def by (auto split: if_splits list.splits)

lemma parsed_ranges_ok: "r \<in> set (List.map_filter parseToken segments) \<Longrightarrow> range_ok r"
  by (auto simp: map_filter_def dest: parseToken_ok)

lemma merge_range_ok:
  "\<forall>r \<in> set rs. range_ok r \<Longrightarrow> \<forall>r \<in> set ms. range_ok r \<Longrightarrow> \<forall>r \<in> set (fold merge_step rs ms). range_ok r"
proof (induction rs arbitrary: ms)
  case (Cons r rs)
  have "\<forall>q \<in> set (merge_step r ms). range_ok q"
    using Cons.prems by (cases ms rule: rev_cases) (auto simp: merge_step_def range_ok_def isValidCode_def)
  with Cons show ?case by simp
qed simp

lemma mergeRanges_ok: "\<forall>r \<in> set rs. range_ok r \<Longrightarrow> \<forall>r \<in> set (mergeRanges rs). range_ok r"
  unfolding mergeRanges_def by (intro merge_range_ok) auto

end
