(* ===== verification/Channel_Models.thy ===== *)
theory Channel_Models
  imports JS_Json_Text "HOL-Library.Product_Lexorder" "HOL-Library.Multiset"
begin

text \<open>
  The models of a channel: the check of its model mapping
  (\<open>web/src/features/channels/lib/model-mapping-validation.ts\<close>), the pending changes of its upstream
  (\<open>upstream-update-utils.ts\<close>) and the order of channels by priority (\<open>channel-priority-order.ts\<close>).
\<close>

section \<open>Lists of models\<close>

definition parseModelsString :: "string \<Rightarrow> string list" where
  "parseModelsString modelsStr =
     (if modelsStr = [] then [] else filter (\<lambda>m. m \<noteq> []) (map js_trim (js_split (CHR '','') modelsStr)))"

definition formatModelsArray :: "string list \<Rightarrow> string" where
  "formatModelsArray models = js_join '','' (js_unique models)"

definition normalizeModelName :: "string \<Rightarrow> string" where
  "normalizeModelName model = js_trim model"

section \<open>The model mapping\<close>

text \<open>The entries of the mapping: \<open>None\<close> when the text is no object, or no JSON.\<close>

definition mapping_object :: "string \<Rightarrow> (string \<times> jsval) list option" where
  "mapping_object txt = (case json_parse txt of Some (JObj kvs) \<Rightarrow> Some (js_entries kvs) | _ \<Rightarrow> None)"

definition extractMappingSourceModels :: "string \<Rightarrow> string list" where
  "extractMappingSourceModels modelMapping =
     (let trimmed = js_trim modelMapping
      in if trimmed = [] then []
         else case mapping_object trimmed of
             None \<Rightarrow> []
           | Some kvs \<Rightarrow> js_unique (filter (\<lambda>k. k \<noteq> []) (map (\<lambda>kv. js_trim (fst kv)) kvs)))"

definition extractRedirectModels :: "string \<Rightarrow> string list" where
  "extractRedirectModels modelMapping =
     (let trimmed = js_trim modelMapping
      in if trimmed = [] then []
         else case mapping_object trimmed of
             None \<Rightarrow> []
           | Some kvs \<Rightarrow> js_unique (filter (\<lambda>v. v \<noteq> []) (map js_trim (List.map_filter (\<lambda>kv. jstr (snd kv)) kvs))))"

definition hasModelConfigChanged :: "string list \<Rightarrow> string \<Rightarrow> string list \<Rightarrow> string \<Rightarrow> bool" where
  "hasModelConfigChanged currentModels currentModelMapping initialModels initialModelMapping =
     (if initialModels = [] \<and> initialModelMapping = [] then True
      else if currentModels \<noteq> initialModels then True
      else js_trim currentModelMapping \<noteq> js_trim initialModelMapping)"

definition findMissingModelsInMapping :: "string \<Rightarrow> string list \<Rightarrow> string list" where
  "findMissingModelsInMapping modelMapping currentModels =
     (if js_trim modelMapping = [] then []
      else case mapping_object modelMapping of
          None \<Rightarrow> []
        | Some kvs \<Rightarrow>
            js_unique (filter (\<lambda>k. k \<noteq> [] \<and> k \<notin> set (map normalizeModelName currentModels))
              (map (\<lambda>kv. normalizeModelName (fst kv)) kvs)))"

definition validateModelMappingJson :: "string \<Rightarrow> string option" where
  "validateModelMappingJson modelMapping =
     (if js_trim modelMapping = [] then None
      else case json_parse modelMapping of
          None \<Rightarrow> Some ''Model mapping must be valid JSON format''
        | Some (JObj kvs) \<Rightarrow>
            if list_all (\<lambda>kv. is_jstr (snd kv)) (js_entries kvs) then None
            else Some ''Model mapping values must be strings''
        | Some _ \<Rightarrow> Some ''Model mapping must be a valid JSON object'')"

definition findExposedTargetModels :: "string \<Rightarrow> string list \<Rightarrow> string list" where
  "findExposedTargetModels modelMapping currentModels =
     filter (\<lambda>m. normalizeModelName m \<in> set (map normalizeModelName currentModels)) (extractRedirectModels modelMapping)"

record model_sets =
  ms_current :: "string list"
  ms_redirect :: "string list"
  ms_classification :: "string list"
  ms_redirectOnly :: "string list"

definition categorizeModelsWithRedirect :: "string list \<Rightarrow> string list \<Rightarrow> model_sets" where
  "categorizeModelsWithRedirect currentModels redirectModels =
     (let current = js_unique (filter (\<lambda>m. m \<noteq> []) (map normalizeModelName currentModels));
          redirect = js_unique (filter (\<lambda>m. m \<noteq> []) (map normalizeModelName redirectModels))
      in \<lparr>ms_current = current, ms_redirect = redirect, ms_classification = js_unique (current @ redirect),
          ms_redirectOnly = filter (\<lambda>m. m \<notin> set current) redirect\<rparr>)"

section \<open>Pending changes of the upstream\<close>

definition model_text :: "jsval \<Rightarrow> string" where
  "model_text v = (if jtruthy v then js_string v else [])"

definition normalizeModelList :: "jsval list \<Rightarrow> string list" where
  "normalizeModelList models = js_unique (filter (\<lambda>m. m \<noteq> []) (map (\<lambda>v. js_trim (model_text v)) models))"

record update_meta =
  um_enabled :: bool
  um_pendingAddModels :: "string list"
  um_pendingRemoveModels :: "string list"

text \<open>A list of models that is no list has no \<open>map\<close>.\<close>

definition model_list :: "jsval \<Rightarrow> jsval list exn" where
  "model_list v = (if \<not> jtruthy v then Inr [] else case v of JArr vs \<Rightarrow> Inr vs | _ \<Rightarrow> Inl ''TypeError'')"

definition parseUpstreamUpdateMeta :: "jsval \<Rightarrow> update_meta exn" where
  "parseUpstreamUpdateMeta settings =
     (let parsed = (case settings of
          JObj _ \<Rightarrow> settings
        | JStr s \<Rightarrow> (case json_parse s of Some v \<Rightarrow> v | None \<Rightarrow> JNull)
        | _ \<Rightarrow> JNull)
      in case parsed of
           JNull \<Rightarrow> Inr \<lparr>um_enabled = False, um_pendingAddModels = [], um_pendingRemoveModels = []\<rparr>
         | JBool _ \<Rightarrow> Inr \<lparr>um_enabled = False, um_pendingAddModels = [], um_pendingRemoveModels = []\<rparr>
         | JNum _ \<Rightarrow> Inr \<lparr>um_enabled = False, um_pendingAddModels = [], um_pendingRemoveModels = []\<rparr>
         | JStr _ \<Rightarrow> Inr \<lparr>um_enabled = False, um_pendingAddModels = [], um_pendingRemoveModels = []\<rparr>
         | _ \<Rightarrow>
             bind_exn (model_list (jget parsed ''upstream_model_update_last_detected_models'')) (\<lambda>adds.
             bind_exn (model_list (jget parsed ''upstream_model_update_last_removed_models'')) (\<lambda>removes.
               Inr \<lparr>um_enabled = (jget parsed ''upstream_model_update_check_enabled'' = JBool True),
                    um_pendingAddModels = normalizeModelList adds, um_pendingRemoveModels = normalizeModelList removes\<rparr>)))"

section \<open>Priorities\<close>

record channel =
  ch_id :: int
  ch_priority :: "int option"

datatype priority_position = Before | After | Same

record priority_drop =
  dp_id :: int
  dp_target_id :: int
  dp_position :: priority_position

definition tier_of :: "channel \<Rightarrow> int" where
  "tier_of c = coalesce (ch_priority c) 0"

definition tier_indices :: "int \<Rightarrow> channel list \<Rightarrow> nat list" where
  "tier_indices tier cs = filter (\<lambda>i. tier_of (cs ! i) = tier) [0..<length cs]"

text \<open>\<open>splice(index, 0, x)\<close>: an \<open>undefined\<close> index is 0, one beyond the end is the end.\<close>

definition splice_at :: "nat \<Rightarrow> 'a \<Rightarrow> 'a list \<Rightarrow> 'a list" where
  "splice_at i x xs = take i xs @ [x] @ drop i xs"

definition after_last :: "nat list \<Rightarrow> nat" where
  "after_last indices = (if indices = [] then 0 else last indices) + 1"

definition drop_index :: "priority_position \<Rightarrow> bool \<Rightarrow> channel \<Rightarrow> channel list \<Rightarrow> nat list \<Rightarrow> nat" where
  "drop_index position desc moving remaining indices =
     (if position = Same then
        (case find (\<lambda>i. ch_id (remaining ! i) < ch_id moving) indices of Some i \<Rightarrow> i | None \<Rightarrow> after_last indices)
      else if (position = After) = desc then after_last indices
      else if indices = [] then 0 else hd indices)"

definition previewPriorityDrop :: "channel list \<Rightarrow> priority_drop \<Rightarrow> bool \<Rightarrow> channel list" where
  "previewPriorityDrop channels d desc =
     (case (find (\<lambda>c. ch_id c = dp_id d) channels, find (\<lambda>c. ch_id c = dp_target_id d) channels) of
        (Some moving, Some target) \<Rightarrow>
          (let remaining = filter (\<lambda>c. ch_id c \<noteq> ch_id moving) channels;
               indices = tier_indices (tier_of target) remaining
           in splice_at (drop_index (dp_position d) desc moving remaining indices) moving remaining)
      | _ \<Rightarrow> channels)"

text \<open>The comparison of \<open>sort\<close> is by priority, in the direction of the view, then by descending identifier.\<close>

definition applyPriorityPreview :: "channel list \<Rightarrow> (int \<times> int option) list \<Rightarrow> bool \<Rightarrow> channel list" where
  "applyPriorityPreview channels items desc =
     sort_key (\<lambda>c. (if desc then - tier_of c else tier_of c, - ch_id c))
       (map (\<lambda>c. c\<lparr>ch_priority := Some (case map_of (rev items) (ch_id c) of Some (Some p) \<Rightarrow> p | _ \<Rightarrow> 0)\<rparr>) channels)"

section \<open>Facts\<close>

lemma set_unique_filter [simp]: "set (js_unique (filter P xs)) = {x \<in> set xs. P x}"
  by auto

lemma models_roundtrip:
  assumes "\<forall>m \<in> set models. m \<noteq> [] \<and> trimmed m \<and> CHR '','' \<notin> set m"
  shows "parseModelsString (formatModelsArray models) = js_unique models"
proof (cases "models = []")
  case True
  then show ?thesis by (simp add: parseModelsString_def formatModelsArray_def js_unique_def)
next
  case False
  let ?u = "js_unique models"
  have u: "?u \<noteq> []" using False set_js_unique [of models] by (metis set_empty)
  have split: "js_split (CHR '','') (js_join '','' ?u) = ?u" using assms u by (intro js_split_joined) auto
  then have "js_join '','' ?u \<noteq> []" using u assms set_js_unique [of models] by (cases ?u) force+
  moreover have "map js_trim ?u = ?u" using assms by (intro map_idI) (auto simp: js_trim_id)
  moreover have "filter (\<lambda>m. m \<noteq> []) ?u = ?u" using assms by (simp add: filter_id_conv)
  ultimately show ?thesis by (simp add: parseModelsString_def formatModelsArray_def split)
qed

lemma splice_mset: "mset (splice_at i x xs) = add_mset x (mset xs)"
proof -
  have "mset (take i xs) + mset (drop i xs) = mset xs" by (metis append_take_drop_id mset_append)
  then show ?thesis by (simp add: splice_at_def)
qed

lemma splice_filter: "\<not> P x \<Longrightarrow> filter P (splice_at i x xs) = filter P xs"
proof -
  assume "\<not> P x"
  moreover have "filter P (take i xs) @ filter P (drop i xs) = filter P xs"
    by (metis append_take_drop_id filter_append)
  ultimately show ?thesis by (simp add: splice_at_def)
qed

text \<open>The ends of a tier.\<close>

lemma sorted_hd_last: "sorted xs \<Longrightarrow> (k :: nat) \<in> set xs \<Longrightarrow> hd xs \<le> k \<and> k \<le> last xs"
  by (induction xs) auto

lemma tier_indices_in: "i \<in> set (tier_indices t cs) \<longleftrightarrow> i < length cs \<and> tier_of (cs ! i) = t"
  by (auto simp: tier_indices_def)

lemma tier_indices_ends:
  assumes "i \<in> set (tier_indices t cs)"
  shows "hd (tier_indices t cs) \<le> i" "i \<le> last (tier_indices t cs)"
  using sorted_hd_last [OF _ assms] by (simp_all add: tier_indices_def sorted_wrt_filter)

lemma find_by_id: "distinct (map ch_id cs) \<Longrightarrow> x \<in> set cs \<Longrightarrow> find (\<lambda>c. ch_id c = ch_id x) cs = Some x"
proof (induction cs)
  case (Cons a cs)
  show ?case
  proof (cases "a = x")
    case False
    then have "x \<in> set cs" "ch_id a \<notin> ch_id ` set cs" using Cons.prems by auto
    then have "ch_id a \<noteq> ch_id x" by (metis image_eqI)
    with Cons False show ?thesis by simp
  qed simp
qed simp

lemma others_unmoved: "distinct (map ch_id cs) \<Longrightarrow> m \<in> set cs \<Longrightarrow>
  add_mset m (mset (filter (\<lambda>c. ch_id c \<noteq> ch_id m) cs)) = mset cs"
proof (induction cs)
  case (Cons x xs)
  show ?case
  proof (cases "x = m")
    case True
    then have "ch_id m \<notin> ch_id ` set xs" using Cons.prems by simp
    then have "filter (\<lambda>c. ch_id c \<noteq> ch_id m) xs = xs" by (simp add: filter_id_conv) (metis image_eqI)
    with True show ?thesis by simp
  next
    case False
    then have "m \<in> set xs" "ch_id x \<notin> ch_id ` set xs" using Cons.prems by auto
    then have "ch_id x \<noteq> ch_id m" by (metis image_eqI)
    with Cons False show ?thesis by simp
  qed
qed simp

text \<open>Dropped before or after a tier, a channel lands at that end of it.\<close>

lemma lands_at_end:
  assumes "tier_indices t cs \<noteq> []" "p \<noteq> Same" "i = drop_index p desc m cs (tier_indices t cs)"
  shows "if (p = After) = desc then list_all (\<lambda>c. tier_of c \<noteq> t) (drop i cs) \<and> i \<noteq> 0 \<and> tier_of (cs ! (i - 1)) = t
    else list_all (\<lambda>c. tier_of c \<noteq> t) (take i cs) \<and> i < length cs \<and> tier_of (cs ! i) = t"
proof -
  let ?xs = "tier_indices t cs"
  have hd: "hd ?xs \<in> set ?xs" and last: "last ?xs \<in> set ?xs" using assms(1) by simp_all
  show ?thesis
  proof (cases "(p = After) = desc")
    case True
    then have i: "i = last ?xs + 1" using assms by (simp add: drop_index_def after_last_def)
    have "tier_of (cs ! k) \<noteq> t" if "i \<le> k" "k < length cs" for k
      using tier_indices_ends(2) [of k t cs] that i by (auto simp: tier_indices_in)
    then have "list_all (\<lambda>c. tier_of c \<noteq> t) (drop i cs)" by (auto simp: list_all_length)
    with True i last show ?thesis by (simp add: tier_indices_in)
  next
    case False
    then have i: "i = hd ?xs" using assms by (simp add: drop_index_def)
    have "tier_of (cs ! k) \<noteq> t" if "k < i" "k < length cs" for k
      using tier_indices_ends(1) [of k t cs] that i by (auto simp: tier_indices_in)
    then have "list_all (\<lambda>c. tier_of c \<noteq> t) (take i cs)" by (auto simp: list_all_length)
    with False i hd show ?thesis by (simp add: tier_indices_in)
  qed
qed

end
