(* ===== verification/Channel_Order.thy ===== *)
theory Channel_Order
  imports Channel_Models
begin

text \<open>
  The gesture that reorders channels (\<open>web/src/features/channels/hooks/use-channel-priority-order.ts\<close>): a gesture reads
  a snapshot of the order, previews the drop under the pointer after a pause, and is committed or cancelled; a saved
  order can be undone.

  The asynchronous functions are cut at their awaits.  What waits is kept in the state: the timer of the preview, the
  previews that wait for the snapshot or for their answer, and the saves, each with the place where it continues.  The
  object a gesture is has an identity, by which the continuations recognise that it is still the current one.
\<close>

section \<open>State\<close>

record priority_change =
  pg_id :: int
  pg_previous :: "int option"
  pg_priority :: "int option"

record priority_order =
  po_revision :: string
  po_items :: "(int \<times> int option) list"
  po_changes :: "priority_change list"

text \<open>A request to reorder: a drop, as a preview or to be saved, or the changes to restore.\<close>

datatype priority_move =
  DropMove priority_drop string bool
| RestoreMove string "priority_change list"

record gesture =
  ge_id :: nat
  ge_drop :: "priority_drop option"
  ge_serial :: nat

record preview_state =
  pw_drop :: "priority_drop option"
  pw_preview :: "priority_order option"
  pw_preparing :: bool

datatype preview_wait =
  AwaitSnapshot gesture priority_drop
| AwaitPreview gesture priority_drop

text \<open>Where a commit (of a gesture) or a restore continues.\<close>

datatype save_wait =
  CommitSnapshot gesture
| SaveAnswer bool
| SaveRefetch bool priority_order
| FailRefetch

record order_state =
  os_mounted :: bool
  os_enabled :: bool
  os_session :: "gesture option"
  os_next :: nat
  os_timer :: "(gesture \<times> priority_drop) option"
  os_previews :: "preview_wait list"
  os_saves :: "save_wait list"
  os_busy :: bool
  os_saving :: bool
  os_active :: bool
  os_optimistic :: "priority_drop option"
  os_saved :: "priority_order option"
  os_undo :: "priority_order option"
  os_store :: preview_state
  os_sent :: "priority_move list"
  os_errors :: nat

definition no_preview :: preview_state where
  "no_preview = \<lparr>pw_drop = None, pw_preview = None, pw_preparing = False\<rparr>"

definition order_init :: "bool \<Rightarrow> order_state" where
  "order_init enabled = \<lparr>os_mounted = True, os_enabled = enabled, os_session = None, os_next = 0, os_timer = None, os_previews = [], os_saves = [],
     os_busy = False, os_saving = False, os_active = False, os_optimistic = None, os_saved = None, os_undo = None,
     os_store = no_preview, os_sent = [], os_errors = 0\<rparr>"

section \<open>Operations\<close>

definition order_cancel :: "order_state \<Rightarrow> order_state" where
  "order_cancel s = s\<lparr>os_timer := None, os_session := None, os_active := False, os_optimistic := None, os_saved := None,
     os_store := no_preview\<rparr>"

definition order_begin :: "order_state \<Rightarrow> order_state" where
  "order_begin s =
     (if \<not> os_enabled s \<or> os_busy s then s
      else (order_cancel s)\<lparr>os_session := Some \<lparr>ge_id = os_next s, ge_drop = None, ge_serial = 0\<rparr>, os_next := os_next s + 1,
        os_active := True\<rparr>)"

definition order_select :: "priority_drop option \<Rightarrow> order_state \<Rightarrow> order_state" where
  "order_select selected s =
     (case os_session s of
        None \<Rightarrow> s
      | Some current \<Rightarrow>
          if os_busy s then s
          else
            (let current' = current\<lparr>ge_drop := selected, ge_serial := ge_serial current + 1\<rparr>
             in s\<lparr>os_session := Some current',
                  os_store := \<lparr>pw_drop = selected, pw_preview = None, pw_preparing = selected \<noteq> None\<rparr>,
                  os_timer := map_option (\<lambda>d. (current', d)) selected\<rparr>))"

text \<open>The timer runs its callback, which waits for the snapshot.\<close>

definition timer_fires :: "order_state \<Rightarrow> order_state" where
  "timer_fires s =
     (case os_timer s of
        None \<Rightarrow> s
      | Some (g, d) \<Rightarrow> s\<lparr>os_timer := None, os_previews := AwaitSnapshot g d # os_previews s\<rparr>)"

text \<open>\<open>session.current === current\<close> and \<open>current.serial === serial\<close>: the same object, with nothing selected since.\<close>

definition is_current :: "gesture \<Rightarrow> order_state \<Rightarrow> bool" where
  "is_current g s \<longleftrightarrow>
     (case os_session s of None \<Rightarrow> False | Some c \<Rightarrow> ge_id c = ge_id g \<and> ge_serial c = ge_serial g)"

definition same_session :: "gesture \<Rightarrow> order_state \<Rightarrow> bool" where
  "same_session g s \<longleftrightarrow> (case os_session s of None \<Rightarrow> False | Some c \<Rightarrow> ge_id c = ge_id g)"

definition show_error :: "order_state \<Rightarrow> order_state" where
  "show_error s = s\<lparr>os_errors := os_errors s + 1\<rparr>"

definition preview_failed :: "gesture \<Rightarrow> order_state \<Rightarrow> order_state" where
  "preview_failed g s = (if is_current g s \<and> \<not> os_busy s then show_error (order_cancel s) else s)"

text \<open>A preview goes on: with the snapshot of its gesture, then with the answer to its request.\<close>

definition preview_snapshot :: "gesture \<Rightarrow> priority_drop \<Rightarrow> priority_order option \<Rightarrow> order_state \<Rightarrow> order_state" where
  "preview_snapshot g d result s =
     (let s1 = s\<lparr>os_previews := remove1 (AwaitSnapshot g d) (os_previews s)\<rparr>
      in case result of
           None \<Rightarrow> preview_failed g s1
         | Some snapshot \<Rightarrow>
             if \<not> is_current g s1 \<or> os_busy s1 then s1
             else s1\<lparr>os_previews := AwaitPreview g d # os_previews s1,
                     os_sent := os_sent s1 @ [DropMove d (po_revision snapshot) True]\<rparr>)"

definition preview_answer :: "gesture \<Rightarrow> priority_drop \<Rightarrow> priority_order option \<Rightarrow> order_state \<Rightarrow> order_state" where
  "preview_answer g d result s =
     (let s1 = s\<lparr>os_previews := remove1 (AwaitPreview g d) (os_previews s)\<rparr>
      in case result of
           None \<Rightarrow> preview_failed g s1
         | Some r \<Rightarrow>
             if is_current g s1 \<and> \<not> os_busy s1
             then s1\<lparr>os_store := \<lparr>pw_drop = Some d, pw_preview = Some r, pw_preparing = False\<rparr>\<rparr>
             else s1)"

definition order_commit :: "order_state \<Rightarrow> order_state" where
  "order_commit s =
     (if os_busy s then s
      else case os_session s of
          None \<Rightarrow> order_cancel s
        | Some current \<Rightarrow>
            (case ge_drop current of
               None \<Rightarrow> order_cancel s
             | Some d \<Rightarrow>
                 s\<lparr>os_busy := True, os_saving := True, os_timer := None, os_optimistic := Some d,
                   os_store := \<lparr>pw_drop = Some d, pw_preview = None, pw_preparing = True\<rparr>,
                   os_saves := CommitSnapshot current # os_saves s\<rparr>))"

text \<open>The \<open>finally\<close> of both saves.\<close>

definition save_finally :: "order_state \<Rightarrow> order_state" where
  "save_finally s = order_cancel (s\<lparr>os_busy := False, os_saving := False\<rparr>)"

definition commit_snapshot :: "gesture \<Rightarrow> priority_order option \<Rightarrow> order_state \<Rightarrow> order_state" where
  "commit_snapshot g result s =
     (let s1 = s\<lparr>os_saves := remove1 (CommitSnapshot g) (os_saves s)\<rparr>
      in case result of
           None \<Rightarrow> (show_error s1)\<lparr>os_saves := FailRefetch # os_saves s1\<rparr>
         | Some snapshot \<Rightarrow>
             if \<not> same_session g s1 then save_finally s1
             else case ge_drop g of
                 None \<Rightarrow> save_finally s1
               | Some d \<Rightarrow> s1\<lparr>os_saves := SaveAnswer False # os_saves s1,
                     os_sent := os_sent s1 @ [DropMove d (po_revision snapshot) False]\<rparr>)"

definition order_restore :: "order_state \<Rightarrow> order_state" where
  "order_restore s =
     (case os_undo s of
        None \<Rightarrow> s
      | Some u \<Rightarrow>
          if os_busy s then s
          else s\<lparr>os_busy := True, os_saving := True, os_saves := SaveAnswer True # os_saves s,
                 os_sent := os_sent s @ [RestoreMove (po_revision u)
                   (map (\<lambda>c. \<lparr>pg_id = pg_id c, pg_previous = pg_priority c, pg_priority = pg_previous c\<rparr>) (po_changes u))]\<rparr>)"

text \<open>The server answers a save: a restore that fails also drops what could be undone.\<close>

definition save_answer :: "bool \<Rightarrow> priority_order option \<Rightarrow> order_state \<Rightarrow> order_state" where
  "save_answer restoring result s =
     (let s1 = s\<lparr>os_saves := remove1 (SaveAnswer restoring) (os_saves s)\<rparr>
      in case result of
           None \<Rightarrow> (show_error (if restoring then s1\<lparr>os_undo := None\<rparr> else s1))\<lparr>os_saves := FailRefetch # os_saves s1\<rparr>
         | Some r \<Rightarrow> s1\<lparr>os_saved := Some r, os_saves := SaveRefetch restoring r # os_saves s1\<rparr>)"

definition refetched :: "bool \<Rightarrow> priority_order \<Rightarrow> order_state \<Rightarrow> order_state" where
  "refetched restoring r s =
     save_finally (s\<lparr>os_saves := remove1 (SaveRefetch restoring r) (os_saves s), os_undo := (if restoring then None else Some r)\<rparr>)"

definition fail_refetched :: "order_state \<Rightarrow> order_state" where
  "fail_refetched s = save_finally (s\<lparr>os_saves := remove1 FailRefetch (os_saves s)\<rparr>)"

text \<open>Another view or other rights: the effect cancels the gesture.\<close>

definition scope_changed :: "bool \<Rightarrow> order_state \<Rightarrow> order_state" where
  "scope_changed enabled s = order_cancel (s\<lparr>os_enabled := enabled\<rparr>)"

definition order_left :: "order_state \<Rightarrow> order_state" where
  "order_left s = s\<lparr>os_mounted := False, os_timer := None, os_session := None\<rparr>"

definition order_items :: "channel list \<Rightarrow> bool \<Rightarrow> order_state \<Rightarrow> channel list" where
  "order_items channels desc s =
     (case os_saved s of
        Some r \<Rightarrow> applyPriorityPreview channels (po_items r) desc
      | None \<Rightarrow> (case os_optimistic s of Some d \<Rightarrow> previewPriorityDrop channels d desc | None \<Rightarrow> channels))"

section \<open>All that can happen\<close>

text \<open>
  The snapshot of a gesture is one promise: \<open>snap\<close> gives what it settles to, \<open>None\<close> when it is rejected.  The answers of the
  server are arbitrary.
\<close>

inductive order_step :: "(nat \<Rightarrow> priority_order option) \<Rightarrow> order_state \<Rightarrow> order_state \<Rightarrow> bool"
  for snap :: "nat \<Rightarrow> priority_order option" where
  os_begin: "os_mounted s \<Longrightarrow> order_step snap s (order_begin s)"
| os_select: "os_mounted s \<Longrightarrow> order_step snap s (order_select d s)"
| os_timer: "order_step snap s (timer_fires s)"
| os_preview_snapshot: "AwaitSnapshot g d \<in> set (os_previews s) \<Longrightarrow> order_step snap s (preview_snapshot g d (snap (ge_id g)) s)"
| os_preview_answer: "AwaitPreview g d \<in> set (os_previews s) \<Longrightarrow> order_step snap s (preview_answer g d r s)"
| os_commit: "os_mounted s \<Longrightarrow> order_step snap s (order_commit s)"
| os_commit_snapshot: "CommitSnapshot g \<in> set (os_saves s) \<Longrightarrow> order_step snap s (commit_snapshot g (snap (ge_id g)) s)"
| os_restore: "os_mounted s \<Longrightarrow> order_step snap s (order_restore s)"
| os_save_answer: "SaveAnswer b \<in> set (os_saves s) \<Longrightarrow> order_step snap s (save_answer b r s)"
| os_refetched: "SaveRefetch b r \<in> set (os_saves s) \<Longrightarrow> order_step snap s (refetched b r s)"
| os_fail_refetched: "FailRefetch \<in> set (os_saves s) \<Longrightarrow> order_step snap s (fail_refetched s)"
| os_cancel: "os_mounted s \<Longrightarrow> order_step snap s (order_cancel s)"
| os_scope: "os_mounted s \<Longrightarrow> order_step snap s (scope_changed b s)"
| os_left: "os_mounted s \<Longrightarrow> order_step snap s (order_left s)"

inductive order_reachable :: "(nat \<Rightarrow> priority_order option) \<Rightarrow> order_state \<Rightarrow> bool" for snap where
  or_init: "order_reachable snap (order_init b)"
| or_step: "order_reachable snap s \<Longrightarrow> order_step snap s t \<Longrightarrow> order_reachable snap t"

inductive_cases order_stepE: "order_step snap s t"

section \<open>The invariant\<close>

text \<open>A gesture that something waits for, seen from the current one: with the same identity and serial it is the current one.\<close>

definition captured :: "order_state \<Rightarrow> gesture \<Rightarrow> bool" where
  "captured s g \<longleftrightarrow> ge_id g < os_next s \<and>
     (case os_session s of None \<Rightarrow> True
      | Some c \<Rightarrow> ge_id c = ge_id g \<longrightarrow> ge_serial g \<le> ge_serial c \<and> (ge_serial g = ge_serial c \<longrightarrow> g = c))"

definition waiting_drop :: "preview_wait \<Rightarrow> gesture \<times> priority_drop" where
  "waiting_drop w = (case w of AwaitSnapshot g d \<Rightarrow> (g, d) | AwaitPreview g d \<Rightarrow> (g, d))"

definition waits_ok :: "order_state \<Rightarrow> bool" where
  "waits_ok s \<longleftrightarrow>
     (\<forall>(g, d) \<in> set_option (os_timer s) \<union> waiting_drop ` set (os_previews s). captured s g \<and> ge_drop g = Some d) \<and>
     (\<forall>c \<in> set_option (os_session s). ge_id c < os_next s)"

definition saves_ok :: "order_state \<Rightarrow> bool" where
  "saves_ok s \<longleftrightarrow> os_saving s = os_busy s \<and> length (os_saves s) = (if os_busy s then 1 else 0) \<and>
     (\<forall>g. CommitSnapshot g \<in> set (os_saves s) \<longrightarrow> ge_drop g \<noteq> None \<and> ge_id g < os_next s \<and>
        (\<forall>c \<in> set_option (os_session s). ge_id c = ge_id g \<longrightarrow> c = g))"

definition store_ok :: "order_state \<Rightarrow> bool" where
  "store_ok s \<longleftrightarrow> (os_mounted s \<and> pw_preview (os_store s) \<noteq> None \<longrightarrow>
     (\<exists>c d. os_session s = Some c \<and> ge_drop c = Some d \<and> pw_drop (os_store s) = Some d))"

lemmas order_defs = order_cancel_def order_begin_def order_select_def timer_fires_def preview_snapshot_def preview_answer_def
  preview_failed_def show_error_def order_commit_def save_finally_def commit_snapshot_def order_restore_def save_answer_def
  refetched_def fail_refetched_def scope_changed_def order_left_def no_preview_def Let_def

lemmas order_splits = option.splits prod.splits if_splits

lemma busy_one:
  assumes "saves_ok s" "w \<in> set (os_saves s)" shows "os_busy s" "os_saves s = [w]"
proof -
  have "length (os_saves s) = (if os_busy s then 1 else 0)" using assms(1) by (simp add: saves_ok_def)
  with assms(2) show "os_busy s" "os_saves s = [w]" by (cases "os_saves s"; auto split: if_splits)+
qed

lemma saves_ok_step: "order_step snap s t \<Longrightarrow> saves_ok s \<Longrightarrow> waits_ok s \<Longrightarrow> saves_ok t"
proof (induction rule: order_step.induct)
  case (os_commit_snapshot g s)
  then show ?case using busy_one [OF os_commit_snapshot(2,1)] by (auto simp: saves_ok_def order_defs split: order_splits)
next
  case (os_save_answer b s r)
  then show ?case using busy_one [OF os_save_answer(2,1)] by (auto simp: saves_ok_def order_defs split: order_splits)
next
  case (os_refetched b r s)
  then show ?case using busy_one [OF os_refetched(2,1)] by (auto simp: saves_ok_def order_defs)
next
  case (os_fail_refetched s)
  then show ?case using busy_one [OF os_fail_refetched(2,1)] by (auto simp: saves_ok_def order_defs)
next
  case (os_begin s)
  then show ?case by (auto simp: saves_ok_def order_defs)
next
  case (os_commit s)
  then show ?case by (auto simp: saves_ok_def waits_ok_def order_defs split: order_splits)
qed (auto simp: saves_ok_def order_defs split: order_splits)

lemma waits_okD:
  "waits_ok s \<Longrightarrow> (g, d) \<in> set_option (os_timer s) \<union> waiting_drop ` set (os_previews s) \<Longrightarrow> captured s g \<and> ge_drop g = Some d"
  by (auto simp: waits_ok_def)

lemma waits_okI:
  assumes "\<And>g d. (g, d) \<in> set_option (os_timer t) \<union> waiting_drop ` set (os_previews t) \<Longrightarrow> captured t g \<and> ge_drop g = Some d"
    and "\<And>c. os_session t = Some c \<Longrightarrow> ge_id c < os_next t"
  shows "waits_ok t"
  using assms by (auto simp: waits_ok_def)

text \<open>A step that begins no gesture and selects nothing keeps the current gesture or ends it.\<close>

lemma captured_kept:
  "captured s g \<Longrightarrow> os_next t = os_next s \<Longrightarrow> os_session t \<in> {os_session s, None} \<Longrightarrow> captured t g"
  by (auto simp: captured_def split: option.splits)

lemma waits_kept:
  assumes "waits_ok s" "os_next t = os_next s" "os_session t \<in> {os_session s, None}" "os_timer t \<in> {os_timer s, None}"
    and "waiting_drop ` set (os_previews t) \<subseteq> waiting_drop ` set (os_previews s)"
  shows "waits_ok t"
proof (rule waits_okI)
  fix g d
  assume "(g, d) \<in> set_option (os_timer t) \<union> waiting_drop ` set (os_previews t)"
  then have "(g, d) \<in> set_option (os_timer s) \<union> waiting_drop ` set (os_previews s)" using assms(4,5) by auto
  from waits_okD [OF assms(1) this] show "captured t g \<and> ge_drop g = Some d" using captured_kept [OF _ assms(2,3)] by blast
next
  show "ge_id c < os_next t" if "os_session t = Some c" for c using that assms(1-3) by (auto simp: waits_ok_def)
qed

lemma waits_removed: "waits_ok s \<Longrightarrow> waits_ok (s\<lparr>os_previews := remove1 w (os_previews s)\<rparr>)"
  using set_remove1_subset [of w "os_previews s"] by (elim waits_kept) (simp_all add: image_mono)

lemma waits_failed: "waits_ok s \<Longrightarrow> waits_ok (preview_failed g s)"
  by (rule waits_kept [of s]) (auto simp: preview_failed_def show_error_def order_cancel_def)

lemma waits_added:
  assumes "waits_ok s" "captured s g" "ge_drop g = Some d"
  shows "waits_ok (s\<lparr>os_previews := AwaitPreview g d # os_previews s, os_sent := m\<rparr>)"
proof (rule waits_okI)
  fix h e
  assume "(h, e) \<in> set_option (os_timer (s\<lparr>os_previews := AwaitPreview g d # os_previews s, os_sent := m\<rparr>)) \<union>
    waiting_drop ` set (os_previews (s\<lparr>os_previews := AwaitPreview g d # os_previews s, os_sent := m\<rparr>))"
  then have "(h, e) = (g, d) \<or> (h, e) \<in> set_option (os_timer s) \<union> waiting_drop ` set (os_previews s)"
    by (auto simp: waiting_drop_def)
  with waits_okD [OF assms(1), of h e] assms(2,3)
  show "captured (s\<lparr>os_previews := AwaitPreview g d # os_previews s, os_sent := m\<rparr>) h \<and> ge_drop h = Some e"
    by (auto simp: captured_def)
qed (use assms(1) in \<open>simp add: waits_ok_def\<close>)

lemma waits_ok_step: "order_step snap s t \<Longrightarrow> waits_ok s \<Longrightarrow> waits_ok t"
proof (induction rule: order_step.induct)
  case (os_begin s)
  show ?case
  proof (cases "\<not> os_enabled s \<or> os_busy s")
    case True
    with os_begin show ?thesis by (auto simp: order_begin_def)
  next
    case False
    show ?thesis
    proof (rule waits_okI)
      fix g d
      assume "(g, d) \<in> set_option (os_timer (order_begin s)) \<union> waiting_drop ` set (os_previews (order_begin s))"
      with False have "(g, d) \<in> set_option (os_timer s) \<union> waiting_drop ` set (os_previews s)" by (auto simp: order_defs)
      from waits_okD [OF os_begin(2) this] False show "captured (order_begin s) g \<and> ge_drop g = Some d"
        by (auto simp: order_defs captured_def)
    qed (use False in \<open>auto simp: order_defs\<close>)
  qed
next
  case (os_select s d)
  show ?case
  proof (cases "os_session s = None \<or> os_busy s")
    case True
    with os_select show ?thesis by (auto simp: order_select_def split: option.splits)
  next
    case False
    then obtain c where c: "os_session s = Some c" "\<not> os_busy s" by auto
    have next_ok: "ge_id c < os_next s" using os_select(2) c(1) by (simp add: waits_ok_def)
    show ?thesis
    proof (rule waits_okI)
      fix g e
      assume "(g, e) \<in> set_option (os_timer (order_select d s)) \<union> waiting_drop ` set (os_previews (order_select d s))"
      then consider "d = Some e" "g = c\<lparr>ge_drop := d, ge_serial := ge_serial c + 1\<rparr>" | "(g, e) \<in> waiting_drop ` set (os_previews s)"
        using c by (auto simp: order_select_def Let_def)
      then show "captured (order_select d s) g \<and> ge_drop g = Some e"
      proof cases
        case 1
        with c next_ok show ?thesis by (simp add: order_select_def captured_def Let_def)
      next
        case 2
        with waits_okD [OF os_select(2), of g e] have "captured s g" "ge_drop g = Some e" by auto
        with c show ?thesis by (auto simp: order_select_def captured_def Let_def)
      qed
    qed (use c next_ok in \<open>auto simp: order_select_def Let_def\<close>)
  qed
next
  case (os_timer s)
  have "waits_ok (timer_fires s)" if t: "os_timer s = Some (g, d)" for g d
  proof (rule waits_okI)
    fix h e
    assume "(h, e) \<in> set_option (os_timer (timer_fires s)) \<union> waiting_drop ` set (os_previews (timer_fires s))"
    then have "(h, e) \<in> set_option (os_timer s) \<union> waiting_drop ` set (os_previews s)"
      using t by (auto simp: timer_fires_def waiting_drop_def)
    from waits_okD [OF os_timer this] t show "captured (timer_fires s) h \<and> ge_drop h = Some e"
      by (simp add: timer_fires_def captured_def)
  next
    show "ge_id c < os_next (timer_fires s)" if "os_session (timer_fires s) = Some c" for c
      using that os_timer t by (simp add: timer_fires_def waits_ok_def)
  qed
  moreover have "timer_fires s = s" if "os_timer s = None" using that by (simp add: timer_fires_def)
  ultimately show ?case using os_timer by (cases "os_timer s") auto
next
  case (os_preview_snapshot g d s)
  let ?s = "s\<lparr>os_previews := remove1 (AwaitSnapshot g d) (os_previews s)\<rparr>"
  have "(g, d) \<in> waiting_drop ` set (os_previews s)" using os_preview_snapshot(1) by (force simp: waiting_drop_def)
  with waits_okD [OF os_preview_snapshot(2), of g d] have g: "captured ?s g" "ge_drop g = Some d" by (auto simp: captured_def)
  note kept = waits_removed [OF os_preview_snapshot(2), of "AwaitSnapshot g d"]
  show ?case
    using waits_failed [OF kept] waits_added [OF kept g] kept unfolding preview_snapshot_def Let_def by (auto split: option.split)
next
  case (os_preview_answer g d s r)
  note kept = waits_removed [OF os_preview_answer(2), of "AwaitPreview g d"]
  have "waits_ok (u\<lparr>os_store := x\<rparr>)" if "waits_ok u" for u x using that by (rule waits_kept) auto
  then show ?case using waits_failed [OF kept] kept unfolding preview_answer_def Let_def by (auto split: option.split)
qed (erule waits_kept; auto simp: order_defs split: option.splits)+

lemma store_ok_step: "order_step snap s t \<Longrightarrow> store_ok s \<Longrightarrow> waits_ok s \<Longrightarrow> saves_ok s \<Longrightarrow> store_ok t"
proof (induction rule: order_step.induct)
  case (os_preview_answer g d s r)
  have "captured s g" "ge_drop g = Some d"
    using os_preview_answer(1,3) by (force simp: waits_ok_def waiting_drop_def)+
  then show ?case using os_preview_answer(2)
    by (auto simp: store_ok_def order_defs is_current_def captured_def split: order_splits)
next
  case (os_commit_snapshot g s)
  then show ?case using busy_one [OF os_commit_snapshot(4,1)] by (auto simp: store_ok_def order_defs split: order_splits)
next
  case (os_save_answer b s r)
  then show ?case using busy_one [OF os_save_answer(4,1)] by (auto simp: store_ok_def order_defs split: order_splits)
qed (auto simp: store_ok_def order_defs split: order_splits)

definition order_inv :: "order_state \<Rightarrow> bool" where
  "order_inv s \<longleftrightarrow> saves_ok s \<and> waits_ok s \<and> store_ok s"

lemma reachable_inv: "order_reachable snap s \<Longrightarrow> order_inv s"
proof (induction rule: order_reachable.induct)
  case (or_init b)
  then show ?case by (simp add: order_inv_def saves_ok_def waits_ok_def store_ok_def order_init_def no_preview_def)
next
  case (or_step s t)
  then show ?case using saves_ok_step waits_ok_step store_ok_step by (auto simp: order_inv_def)
qed

text \<open>What a save is sent for.\<close>

lemma save_sent:
  assumes "order_step snap s t" "order_inv s" "os_sent t = os_sent s @ [DropMove d revision False]"
  shows "\<exists>c r. os_session s = Some c \<and> ge_drop c = Some d \<and> snap (ge_id c) = Some r \<and> revision = po_revision r"
  using assms
proof (induction rule: order_step.induct)
  case (os_commit_snapshot g s)
  then show ?case by (auto simp: order_inv_def saves_ok_def order_defs same_session_def split: order_splits)
qed (auto simp: order_defs split: order_splits)

text \<open>A save comes to its end: every time it continues it is nearer to it.\<close>

fun save_rank :: "save_wait \<Rightarrow> nat" where
  "save_rank (CommitSnapshot g) = 3"
| "save_rank (SaveAnswer b) = 2"
| "save_rank (SaveRefetch b r) = 1"
| "save_rank FailRefetch = 1"

lemma save_continues:
  assumes "saves_ok s"
  shows "CommitSnapshot g \<in> set (os_saves s) \<Longrightarrow> list_all (\<lambda>w. save_rank w < 3) (os_saves (commit_snapshot g r s))"
    "SaveAnswer b \<in> set (os_saves s) \<Longrightarrow> list_all (\<lambda>w. save_rank w < 2) (os_saves (save_answer b r s))"
    "SaveRefetch b q \<in> set (os_saves s) \<Longrightarrow> os_saves (refetched b q s) = [] \<and> \<not> os_busy (refetched b q s)"
    "FailRefetch \<in> set (os_saves s) \<Longrightarrow> os_saves (fail_refetched s) = [] \<and> \<not> os_busy (fail_refetched s)"
proof -
  have one: "remove1 w (os_saves s) = []" if "w \<in> set (os_saves s)" for w using busy_one(2) [OF assms that] by simp
  show "CommitSnapshot g \<in> set (os_saves s) \<Longrightarrow> list_all (\<lambda>w. save_rank w < 3) (os_saves (commit_snapshot g r s))"
    "SaveAnswer b \<in> set (os_saves s) \<Longrightarrow> list_all (\<lambda>w. save_rank w < 2) (os_saves (save_answer b r s))"
    "SaveRefetch b q \<in> set (os_saves s) \<Longrightarrow> os_saves (refetched b q s) = [] \<and> \<not> os_busy (refetched b q s)"
    "FailRefetch \<in> set (os_saves s) \<Longrightarrow> os_saves (fail_refetched s) = [] \<and> \<not> os_busy (fail_refetched s)"
    by (auto simp: order_defs one split: option.split)
qed

end
