(* ===== verification/Channel_Properties.thy ===== *)
theory Channel_Properties
  imports Status_Codes Channel_Order
begin

text \<open>The properties of the rules over status codes and of the models and priorities of channels.\<close>

section \<open>Status codes\<close>

text \<open>C30. Rules that are accepted are put into normal form: the ranges are in order with a gap between any two, within
  100 to 599, and cover exactly the codes that the single entries cover; an invalid entry is reported and
  nothing is accepted.\<close>

theorem status_rules_normal_form:
  "let p = parseHttpStatusCodeRules input;
       segments = filter (\<lambda>s. s \<noteq> []) (map js_trim (js_split (CHR '','') (js_trim input)))
   in (pr_ok p \<longleftrightarrow> list_all (\<lambda>s. parseToken s \<noteq> None) segments) \<and>
      separated (pr_ranges p) \<and> list_all range_ok (pr_ranges p) \<and>
      (if pr_ok p then list_ex (in_range c) (pr_ranges p) \<longleftrightarrow> list_ex (in_range c) (List.map_filter parseToken segments)
       else pr_ranges p = [] \<and> pr_invalidTokens p \<noteq> [])"
proof -
  let ?segments = "filter (\<lambda>s. s \<noteq> []) (map js_trim (js_split (CHR '','') (js_trim input)))"
  have ok: "\<forall>r \<in> set (List.map_filter parseToken ?segments). range_ok r" using parsed_ranges_ok by blast
  then have "\<forall>r \<in> set (List.map_filter parseToken ?segments). sr_start r \<le> sr_end r" by (auto simp: range_ok_def)
  note merged = merge_ok [OF this] mergeRanges_ok [OF ok]
  show ?thesis
  proof (cases "js_trim input = []")
    case True
    then show ?thesis by (simp add: parseHttpStatusCodeRules_def map_filter_simps)
  next
    case False
    with merged(1) merged(2) [of c] merged(3) show ?thesis
      unfolding parseHttpStatusCodeRules_def Let_def by (auto simp: list_all_iff list_ex_iff filter_empty_conv)
  qed
qed

text \<open>The normalized text of accepted rules is read back as the same rules, so that saving the settings again
  changes nothing.\<close>

theorem normalized_rules_stable:
  assumes "pr_ok (parseHttpStatusCodeRules input)"
  shows "parseHttpStatusCodeRules (pr_normalized (parseHttpStatusCodeRules input)) = parseHttpStatusCodeRules input"
proof -
  obtain rs where rs: "\<forall>r \<in> set rs. range_ok r" "parseHttpStatusCodeRules input =
      \<lparr>pr_ok = True, pr_ranges = mergeRanges rs, pr_tokens = map range_token (mergeRanges rs),
       pr_normalized = js_join '','' (map range_token (mergeRanges rs)), pr_invalidTokens = []\<rparr>"
  proof (cases "js_trim input = []")
    case True
    then show ?thesis using that [of "[]"] by (simp add: parseHttpStatusCodeRules_def mergeRanges_def)
  next
    case False
    let ?segments = "filter (\<lambda>s. s \<noteq> []) (map js_trim (js_split (CHR '','') (js_trim input)))"
    show ?thesis using that [of "List.map_filter parseToken ?segments"] parsed_ranges_ok False assms
      unfolding parseHttpStatusCodeRules_def Let_def by (auto split: if_splits)
  qed
  then have "separated (mergeRanges rs)" by (intro merge_ok(1)) (auto simp: range_ok_def)
  with normal_form_reads_back [OF this mergeRanges_ok [OF rs(1)]] rs(2) show ?thesis by simp
qed

theorem normalized_rules_stable_witness:
  "parseHttpStatusCodeRules (pr_normalized (parseHttpStatusCodeRules ''500-503, 429,504'')) =
   parseHttpStatusCodeRules ''500-503, 429,504''"
  by (rule normalized_rules_stable) code_simp

section \<open>Models\<close>

text \<open>Exactly the models that the mapping names as sources and that the channel does not list are reported as
  missing, each once; a mapping that is no object of strings is refused with the reason.\<close>

theorem missing_models_exact:
  "distinct (findMissingModelsInMapping m models) \<and>
   (case json_parse m of
      Some (JObj kvs) \<Rightarrow>
        set (findMissingModelsInMapping m models) =
          (if js_trim m = [] then {} else {k \<in> (\<lambda>kv. js_trim (fst kv)) ` set kvs. k \<noteq> [] \<and> k \<notin> js_trim ` set models}) \<and>
        (js_trim m \<noteq> [] \<and> validateModelMappingJson m = None \<longleftrightarrow> js_trim m \<noteq> [] \<and> list_all (\<lambda>kv. is_jstr (snd kv)) kvs)
    | _ \<Rightarrow> findMissingModelsInMapping m models = [] \<and> (validateModelMappingJson m = None \<longleftrightarrow> js_trim m = []))"
  by (auto simp: findMissingModelsInMapping_def validateModelMappingJson_def mapping_object_def normalizeModelName_def
      list_all_iff split: option.splits jsval.splits)

section \<open>Priorities\<close>

text \<open>C32. Dropping a channel on another rearranges the list: the same channels, all others in the order they had, and the
  moved one, dropped before or after its target, at that end of the tier of the target: no channel of
  the tier lies beyond it and its neighbour is of the tier.\<close>

theorem drop_lands_at_tier:
  assumes "distinct (map ch_id cs)" and "m \<in> set cs" "t \<in> set cs" "ch_id m \<noteq> ch_id t"
    and "d = \<lparr>dp_id = ch_id m, dp_target_id = ch_id t, dp_position = p\<rparr>"
  shows "mset (previewPriorityDrop cs d desc) = mset cs \<and>
    (\<exists>i. let others = filter (\<lambda>c. ch_id c \<noteq> ch_id m) cs in
       previewPriorityDrop cs d desc = take i others @ [m] @ drop i others \<and>
       (p = Same \<or>
        (if (p = After) = desc
         then list_all (\<lambda>c. tier_of c \<noteq> tier_of t) (drop i others) \<and> i \<noteq> 0 \<and> tier_of (others ! (i - 1)) = tier_of t
         else list_all (\<lambda>c. tier_of c \<noteq> tier_of t) (take i others) \<and> i < length others \<and>
           tier_of (others ! i) = tier_of t)))"
proof -
  let ?others = "filter (\<lambda>c. ch_id c \<noteq> ch_id m) cs"
  let ?xs = "tier_indices (tier_of t) ?others"
  let ?i = "drop_index p desc m ?others ?xs"
  have "t \<in> set ?others" using assms(3,4) by simp
  then obtain k where "k < length ?others" "?others ! k = t" by (metis in_set_conv_nth)
  then have "k \<in> set ?xs" by (simp add: tier_indices_in)
  then have ne: "?xs \<noteq> []" by auto
  have eq: "previewPriorityDrop cs d desc = splice_at ?i m ?others"
    using assms(5) find_by_id [OF assms(1,2)] find_by_id [OF assms(1,3)] by (simp add: previewPriorityDrop_def Let_def)
  have "mset (previewPriorityDrop cs d desc) = mset cs"
    unfolding eq splice_mset by (rule others_unmoved [OF assms(1,2)])
  moreover have "p = Same \<or>
        (if (p = After) = desc
         then list_all (\<lambda>c. tier_of c \<noteq> tier_of t) (drop ?i ?others) \<and> ?i \<noteq> 0 \<and> tier_of (?others ! (?i - 1)) = tier_of t
         else list_all (\<lambda>c. tier_of c \<noteq> tier_of t) (take ?i ?others) \<and> ?i < length ?others \<and>
           tier_of (?others ! ?i) = tier_of t)"
    using lands_at_end [OF ne _ refl, of p desc m] by blast
  ultimately show ?thesis unfolding eq splice_at_def Let_def by blast
qed

theorem drop_lands_at_tier_witness:
  "mset (previewPriorityDrop [\<lparr>ch_id = 1, ch_priority = None\<rparr>, \<lparr>ch_id = 2, ch_priority = Some 5\<rparr>]
     \<lparr>dp_id = 2, dp_target_id = 1, dp_position = After\<rparr> True) =
   mset [\<lparr>ch_id = 1, ch_priority = None\<rparr>, \<lparr>ch_id = 2, ch_priority = Some 5\<rparr>]"
  using drop_lands_at_tier [of "[\<lparr>ch_id = 1, ch_priority = None\<rparr>, \<lparr>ch_id = 2, ch_priority = Some 5\<rparr>]"
      "\<lparr>ch_id = 2, ch_priority = Some 5\<rparr>" "\<lparr>ch_id = 1, ch_priority = None\<rparr>"
      "\<lparr>dp_id = 2, dp_target_id = 1, dp_position = After\<rparr>" After True]
  by simp

text \<open>C31. Whatever gestures, timers, answers and changes of the view come in whatever order: at most one save is under way, the
  lock says whether one is, the preview that is shown is that of the drop the current gesture has selected, and a save
  is sent only for the gesture that is still the current one, with its drop and the revision of its own snapshot.\<close>

theorem saves_follow_gestures:
  assumes "order_reachable snap s"
  shows "length (os_saves s) \<le> 1 \<and> (os_busy s \<longleftrightarrow> os_saves s \<noteq> []) \<and>
    (\<not> os_mounted s \<or> pw_preview (os_store s) = None \<or>
     (\<exists>c d. os_session s = Some c \<and> ge_drop c = Some d \<and> pw_drop (os_store s) = Some d)) \<and>
    (\<forall>t d revision. order_step snap s t \<and> os_sent t = os_sent s @ [DropMove d revision False] \<longrightarrow>
      (\<exists>c r. os_session s = Some c \<and> ge_drop c = Some d \<and> snap (ge_id c) = Some r \<and> revision = po_revision r))"
proof -
  have inv: "order_inv s" using assms by (rule reachable_inv)
  then have "length (os_saves s) = (if os_busy s then 1 else 0)" by (simp add: order_inv_def saves_ok_def)
  then have "length (os_saves s) \<le> 1 \<and> (os_busy s \<longleftrightarrow> os_saves s \<noteq> [])" by (cases "os_busy s") auto
  moreover have "\<not> os_mounted s \<or> pw_preview (os_store s) = None \<or>
      (\<exists>c d. os_session s = Some c \<and> ge_drop c = Some d \<and> pw_drop (os_store s) = Some d)"
    using inv unfolding order_inv_def store_ok_def by blast
  moreover have "\<exists>c r. os_session s = Some c \<and> ge_drop c = Some d \<and> snap (ge_id c) = Some r \<and> revision = po_revision r"
    if "order_step snap s t \<and> os_sent t = os_sent s @ [DropMove d revision False]" for t d revision
    using save_sent [OF _ inv] that by blast
  ultimately show ?thesis by simp
qed

definition demo_drop :: priority_drop where
  "demo_drop = \<lparr>dp_id = 2, dp_target_id = 1, dp_position = After\<rparr>"

definition demo_order :: priority_order where
  "demo_order = \<lparr>po_revision = ''r1'', po_items = [(1, Some 3), (2, Some 2)], po_changes = []\<rparr>"

abbreviation demo_commit :: order_state where
  "demo_commit \<equiv> order_commit (order_select (Some demo_drop) (order_begin (order_init True)))"

theorem saves_follow_gestures_witness:
  "let c = \<lparr>ge_id = 0, ge_drop = Some demo_drop, ge_serial = 1\<rparr>; t = commit_snapshot c (Some demo_order) demo_commit
   in length (os_saves demo_commit) \<le> 1 \<and> os_sent t = [DropMove demo_drop ''r1'' False] \<and>
     (\<exists>c. os_session demo_commit = Some c \<and> ge_drop c = Some demo_drop)"
proof -
  let ?snap = "\<lambda>_. Some demo_order" and ?c = "\<lparr>ge_id = 0, ge_drop = Some demo_drop, ge_serial = 1\<rparr>"
  note defs = order_begin_def order_init_def order_select_def order_commit_def order_cancel_def commit_snapshot_def same_session_def Let_def
  have "order_reachable ?snap (order_begin (order_init True))"
    by (rule or_step [OF or_init os_begin]) (simp add: order_init_def)
  then have "order_reachable ?snap (order_select (Some demo_drop) (order_begin (order_init True)))"
    by (rule or_step [OF _ os_select]) (simp add: defs)
  then have r: "order_reachable ?snap demo_commit" by (rule or_step [OF _ os_commit]) (simp add: defs)
  have step: "order_step ?snap demo_commit (commit_snapshot ?c (Some demo_order) demo_commit)"
    using os_commit_snapshot [of ?c demo_commit ?snap] by (simp add: defs)
  have sent: "os_sent (commit_snapshot ?c (Some demo_order) demo_commit) = [DropMove demo_drop ''r1'' False]" "os_sent demo_commit = []"
    by (simp_all add: defs demo_order_def)
  with saves_follow_gestures [OF r] step show ?thesis unfolding Let_def by fastforce
qed

section \<open>A finding\<close>

text \<open>What follows a second dash is ignored.\<close>

lemma second_dash_ignored: "parseToken ''200-300-abc'' = Some \<lparr>sr_start = 200, sr_end = 300\<rparr>"
  by code_simp

end
