(* ===== verification/Flow_Graph.thy ===== *)
theory Flow_Graph
  imports JS_Json_Text "HOL-Library.Product_Lexorder"
begin

text \<open>
  The flow chart of the dashboard (\<open>web/src/features/dashboard/lib/flow.ts\<close>): rows of usage become paths through
  the visible stages (user, node, token, group, model, channel), which are added up to the nodes and links of a
  Sankey diagram, with filters, a limit on the nodes of a stage, masked labels and highlighted paths.

  What the browser and the chart library provide is the record \<open>flow_env\<close>: the order of \<open>localeCompare\<close> by sort
  keys, the colour schemes, the format of numbers, and the text that masks a label, whose bullets are beyond the
  strings of the model.  A \<open>Map\<close> is a list of pairs in the order of insertion.
\<close>

section \<open>Data\<close>

datatype flow_kind = FUser | FNode | FToken | FGroup | FModel | FChannel
datatype flow_metric = MQuota | MTokens | MRequests
datatype flow_role = RUser | RAdmin | RRoot
datatype overflow_mode = Aggregate | Hide

record flow_row =
  fr_user_id :: "jsnum option"
  fr_username :: "string option"
  fr_node_name :: "string option"
  fr_use_group :: "string option"
  fr_token_id :: "jsnum option"
  fr_token_name :: "string option"
  fr_channel_id :: "jsnum option"
  fr_channel_name :: "string option"
  fr_model_name :: "string option"
  fr_token_used :: "jsnum option"
  fr_count :: "jsnum option"
  fr_quota :: "jsnum option"

record flow_metrics =
  fm_quota :: jsnum
  fm_tokens :: jsnum
  fm_requests :: jsnum

record path_node =
  pn_id :: string
  pn_label :: string
  pn_kind :: flow_kind

type_synonym flow_path = "path_node list"
type_synonym prepared = "flow_path \<times> flow_metrics"
type_synonym node_filter = "flow_kind \<times> string"
type_synonym link_selection = "string \<times> string"

record flow_node =
  fn_id :: string
  fn_label :: string
  fn_kind :: flow_kind
  fn_value :: jsnum
  fn_requests :: jsnum
  fn_quota :: jsnum
  fn_tokens :: jsnum
  fn_color :: string
  fn_colorKey :: string
  fn_highlighted :: "bool option"
  fn_dimmed :: "bool option"

record flow_link =
  lk_source :: string
  lk_target :: string
  lk_value :: jsnum
  lk_requests :: jsnum
  lk_quota :: jsnum
  lk_tokens :: jsnum
  lk_sourceLabel :: string
  lk_targetLabel :: string
  lk_color :: string
  lk_linkColor :: string
  lk_linkAlpha :: jsnum
  lk_hoverColor :: string
  lk_colorKey :: string
  lk_share :: jsnum
  lk_highlighted :: "bool option"
  lk_dimmed :: "bool option"

record flow_graph =
  fg_nodes :: "flow_node list"
  fg_links :: "flow_link list"

record flow_ctx =
  fc_noTokenLabel :: "string option"
  fc_deletedTokenLabel :: "(jsnum \<Rightarrow> string) option"

record graph_options =
  go_topNodeLimit :: "jsnum option"
  go_overflowMode :: "overflow_mode option"
  go_otherNodeLabel :: "(flow_kind \<Rightarrow> string) option"
  go_activeNode :: "node_filter option"
  go_activeLink :: "link_selection option"
  go_maskSensitive :: bool

record flow_env =
  fe_collate :: "string \<Rightarrow> rat"
  fe_scheme :: "(nat option \<times> string option list) list"
  fe_formatNumber :: "jsnum \<Rightarrow> string"
  fe_mask :: string

definition FLOW_NODE_KINDS :: "flow_kind list" where
  "FLOW_NODE_KINDS = [FUser, FNode, FToken, FGroup, FModel, FChannel]"

definition flow_kind_name :: "flow_kind \<Rightarrow> string" where
  "flow_kind_name k = (case k of FUser \<Rightarrow> ''user'' | FNode \<Rightarrow> ''node'' | FToken \<Rightarrow> ''token'' | FGroup \<Rightarrow> ''group''
     | FModel \<Rightarrow> ''model'' | FChannel \<Rightarrow> ''channel'')"

definition OTHER_FLOW_NODE_IDS :: "flow_kind \<Rightarrow> string" where
  "OTHER_FLOW_NODE_IDS k = flow_kind_name k @ '':__other__''"

definition DEFAULT_OTHER_FLOW_NODE_LABELS :: "flow_kind \<Rightarrow> string" where
  "DEFAULT_OTHER_FLOW_NODE_LABELS k = ''Other '' @ flow_kind_name k @ ''s''"

definition SENSITIVE_FLOW_KINDS :: "flow_kind list" where
  "SENSITIVE_FLOW_KINDS = [FUser, FNode, FToken, FGroup, FChannel]"

definition OTHER_FLOW_NODE_ID_SET :: "string list" where
  "OTHER_FLOW_NODE_ID_SET = map OTHER_FLOW_NODE_IDS FLOW_NODE_KINDS"

section \<open>Rows\<close>

definition numberValue :: "jsval \<Rightarrow> jsnum" where
  "numberValue v = (let n = js_to_number v in if is_finite n then n else Fin 0)"

definition num_field :: "jsnum option \<Rightarrow> jsnum" where
  "num_field x = numberValue (case x of None \<Rightarrow> JUndefined | Some n \<Rightarrow> JNum n)"

text \<open>\<open>s || d\<close>.\<close>

definition str_or :: "string option \<Rightarrow> string \<Rightarrow> string" where
  "str_or s d = (case s of Some (c # t) \<Rightarrow> c # t | _ \<Rightarrow> d)"

definition rowMetrics :: "flow_row \<Rightarrow> flow_metrics" where
  "rowMetrics row = \<lparr>fm_quota = num_field (fr_quota row), fm_tokens = num_field (fr_token_used row),
     fm_requests = num_field (fr_count row)\<rparr>"

definition metricValue :: "flow_metrics \<Rightarrow> flow_metric \<Rightarrow> jsnum" where
  "metricValue metrics metric =
     (case metric of MRequests \<Rightarrow> fm_requests metrics | MTokens \<Rightarrow> fm_tokens metrics | MQuota \<Rightarrow> fm_quota metrics)"

definition userNode :: "flow_row \<Rightarrow> path_node" where
  "userNode row =
     (let userID = num_field (fr_user_id row); known = js_lt (Fin 0) userID
      in \<lparr>pn_id = ''user:'' @ (if known then js_num_to_string userID else str_or (fr_username row) ''unknown''),
          pn_label = str_or (fr_username row) (if known then ''user-'' @ js_num_to_string userID else ''Unknown User''),
          pn_kind = FUser\<rparr>)"

definition nodeNameNode :: "flow_row \<Rightarrow> path_node" where
  "nodeNameNode row =
     (let nodeName = str_or (fr_node_name row) ''default-node''
      in \<lparr>pn_id = ''node:'' @ nodeName, pn_label = nodeName, pn_kind = FNode\<rparr>)"

definition deletedTokenLabel :: "jsnum \<Rightarrow> flow_ctx \<Rightarrow> string" where
  "deletedTokenLabel tokenID ctx =
     (if js_le tokenID (Fin 0) then ''Unknown Token''
      else case fc_deletedTokenLabel ctx of Some f \<Rightarrow> f tokenID | None \<Rightarrow> ''token-'' @ js_num_to_string tokenID)"

definition tokenNode :: "flow_row \<Rightarrow> flow_ctx \<Rightarrow> path_node" where
  "tokenNode row ctx =
     (let tokenID = num_field (fr_token_id row)
      in \<lparr>pn_id = ''token:'' @ (if js_lt (Fin 0) tokenID then js_num_to_string tokenID else str_or (fr_token_name row) ''unknown''),
          pn_label = (if js_eq tokenID (Fin 0) then coalesce (fc_noTokenLabel ctx) ''No API token''
            else str_or (fr_token_name row) (deletedTokenLabel tokenID ctx)),
          pn_kind = FToken\<rparr>)"

definition groupNode :: "flow_row \<Rightarrow> path_node" where
  "groupNode row =
     (let useGroup = str_or (fr_use_group row) ''unknown''
      in \<lparr>pn_id = ''group:'' @ useGroup, pn_label = useGroup, pn_kind = FGroup\<rparr>)"

definition modelNode :: "flow_row \<Rightarrow> path_node" where
  "modelNode row =
     \<lparr>pn_id = ''model:'' @ str_or (fr_model_name row) ''unknown'',
      pn_label = str_or (fr_model_name row) ''Unknown Model'', pn_kind = FModel\<rparr>"

definition channelNode :: "flow_row \<Rightarrow> path_node" where
  "channelNode row =
     (let channelID = num_field (fr_channel_id row); known = js_lt (Fin 0) channelID
      in \<lparr>pn_id = ''channel:'' @ (if known then js_num_to_string channelID else str_or (fr_channel_name row) ''unknown''),
          pn_label = str_or (fr_channel_name row) (if known then ''channel-'' @ js_num_to_string channelID else ''Unknown''),
          pn_kind = FChannel\<rparr>)"

definition NODE_BUILDERS :: "flow_kind \<Rightarrow> flow_row \<Rightarrow> flow_ctx \<Rightarrow> path_node" where
  "NODE_BUILDERS k row ctx =
     (case k of FUser \<Rightarrow> userNode row | FNode \<Rightarrow> nodeNameNode row | FToken \<Rightarrow> tokenNode row ctx
      | FGroup \<Rightarrow> groupNode row | FModel \<Rightarrow> modelNode row | FChannel \<Rightarrow> channelNode row)"

definition getFlowStages :: "flow_role \<Rightarrow> flow_kind list" where
  "getFlowStages r =
     (case r of RRoot \<Rightarrow> [FUser, FNode, FToken, FGroup, FModel, FChannel]
      | RAdmin \<Rightarrow> [FUser, FGroup, FModel, FChannel] | RUser \<Rightarrow> [FToken, FGroup, FModel])"

definition MIN_FLOW_STAGES :: nat where "MIN_FLOW_STAGES = 2"

definition resolveVisibleStages :: "flow_role \<Rightarrow> flow_kind list option \<Rightarrow> flow_kind list" where
  "resolveVisibleStages role visibleStages =
     (let stages = getFlowStages role
      in case visibleStages of
           None \<Rightarrow> stages
         | Some visible \<Rightarrow>
             (let filtered = filter (\<lambda>stage. stage \<in> set visible) stages
              in if length filtered \<ge> MIN_FLOW_STAGES then filtered else stages))"

definition flowPathForStages :: "flow_row \<Rightarrow> flow_kind list \<Rightarrow> flow_ctx \<Rightarrow> flow_path" where
  "flowPathForStages row stages ctx = map (\<lambda>stage. NODE_BUILDERS stage row ctx) stages"

section \<open>Colours\<close>

definition DEFAULT_FLOW_CHART_COLOR :: string where "DEFAULT_FLOW_CHART_COLOR = ''#1664FF''"

definition getDashboardChartColors :: "flow_env \<Rightarrow> nat \<Rightarrow> string list" where
  "getDashboardChartColors env domainLength =
     (let scheme = (case find (\<lambda>item. case fst item of None \<Rightarrow> True | Some m \<Rightarrow> m = 0 \<or> domainLength \<le> m) (fe_scheme env) of
          Some item \<Rightarrow> Some item
        | None \<Rightarrow> if fe_scheme env = [] then None else Some (last (fe_scheme env)))
      in case scheme of None \<Rightarrow> [] | Some item \<Rightarrow> List.map_filter id (snd item))"

definition colorAt :: "flow_env \<Rightarrow> nat \<Rightarrow> string list option \<Rightarrow> string" where
  "colorAt env index palette =
     (let colors = (case palette of Some (c # cs) \<Rightarrow> c # cs | _ \<Rightarrow> getDashboardChartColors env (index + 1))
      in if colors = [] then DEFAULT_FLOW_CHART_COLOR else colors ! (index mod length colors))"

definition colorPalette :: "flow_env \<Rightarrow> nat \<Rightarrow> string list option \<Rightarrow> string list" where
  "colorPalette env colorCount palette =
     (case palette of Some (c # cs) \<Rightarrow> c # cs
      | _ \<Rightarrow> (let colors = getDashboardChartColors env colorCount in if colors \<noteq> [] then colors else [DEFAULT_FLOW_CHART_COLOR]))"

definition alphaColor :: "string \<Rightarrow> jsnum \<Rightarrow> string \<times> jsnum" where
  "alphaColor color alpha =
     (let normalized = js_trim color;
          hex = (if js_starts_with normalized ''#'' then drop 1 normalized else normalized)
      in if length hex \<noteq> 6 then (normalized, alpha)
         else case radix_value 16 0 hex of
             None \<Rightarrow> (normalized, alpha)
           | Some value \<Rightarrow>
               (''rgba('' @ show_pos (value div 65536 mod 256) @ '', '' @ show_pos (value div 256 mod 256) @ '', '' @
                show_pos (value mod 256) @ '', '' @ js_to_fixed 2 alpha @ '')'', Fin 1))"

definition stableColorMap :: "flow_env \<Rightarrow> string list \<Rightarrow> string list option \<Rightarrow> (string \<times> string) list" where
  "stableColorMap env keys palette =
     (let uniqueKeys = js_unique keys; colors = colorPalette env (length uniqueKeys) palette
      in map (\<lambda>i. (uniqueKeys ! i, colorAt env i (Some colors))) [0..<length uniqueKeys])"

section \<open>Filters\<close>

definition filterRows :: "flow_row list \<Rightarrow> string list option \<Rightarrow> flow_row list" where
  "filterRows rows selectedUsers =
     (let selected = coalesce selectedUsers []
      in if selected = [] then rows else filter (\<lambda>row. pn_id (userNode row) \<in> set selected) rows)"

text \<open>The selected identifiers of each visible kind, in the order in which the kinds occur.\<close>

definition normalizeSelectedNodeFilters ::
    "node_filter list option \<Rightarrow> flow_kind list \<Rightarrow> (flow_kind \<times> string list) list" where
  "normalizeSelectedNodeFilters selectedNodes stages =
     (let visible = filter (\<lambda>f. fst f \<in> set stages) (coalesce selectedNodes [])
      in map (\<lambda>k. (k, js_unique (map snd (filter (\<lambda>f. fst f = k) visible)))) (js_unique (map fst visible)))"

definition pathMatchesNodeFilters :: "flow_path \<Rightarrow> (flow_kind \<times> string list) list \<Rightarrow> bool" where
  "pathMatchesNodeFilters path filters \<longleftrightarrow>
     list_all (\<lambda>(kind, ids). list_ex (\<lambda>n. pn_kind n = kind \<and> pn_id n \<in> set ids) path) filters"

definition filterRowsByNodes ::
    "flow_row list \<Rightarrow> node_filter list option \<Rightarrow> flow_kind list \<Rightarrow> flow_ctx \<Rightarrow> flow_row list" where
  "filterRowsByNodes rows selectedNodes stages ctx =
     (let filters = normalizeSelectedNodeFilters selectedNodes stages
      in if filters = [] then rows
         else filter (\<lambda>row. pathMatchesNodeFilters (flowPathForStages row stages ctx) filters) rows)"

definition selectedNodeFiltersExceptKind :: "node_filter list option \<Rightarrow> flow_kind \<Rightarrow> node_filter list option" where
  "selectedNodeFiltersExceptKind selectedNodes kind =
     (let filtered = filter (\<lambda>f. fst f \<noteq> kind) (coalesce selectedNodes [])
      in if filtered \<noteq> [] then Some filtered else None)"

section \<open>Adding up\<close>

text \<open>\<open>const v = map.get(k) ?? initial; ...; map.set(k, v)\<close>.\<close>

definition map_accum :: "'k \<Rightarrow> 'v \<Rightarrow> ('v \<Rightarrow> 'v) \<Rightarrow> ('k \<times> 'v) list \<Rightarrow> ('k \<times> 'v) list" where
  "map_accum k initial f m = obj_set k (f (coalesce (map_of m k) initial)) m"

definition new_node :: "path_node \<Rightarrow> string \<Rightarrow> string \<Rightarrow> flow_node" where
  "new_node n color colorKey = \<lparr>fn_id = pn_id n, fn_label = pn_label n, fn_kind = pn_kind n, fn_value = Fin 0,
     fn_requests = Fin 0, fn_quota = Fin 0, fn_tokens = Fin 0, fn_color = color, fn_colorKey = colorKey,
     fn_highlighted = None, fn_dimmed = None\<rparr>"

definition count_node :: "flow_metrics \<Rightarrow> flow_metric \<Rightarrow> flow_node \<Rightarrow> flow_node" where
  "count_node metrics metric n = n\<lparr>fn_value := js_add (fn_value n) (metricValue metrics metric),
     fn_requests := js_add (fn_requests n) (fm_requests metrics), fn_quota := js_add (fn_quota n) (fm_quota metrics),
     fn_tokens := js_add (fn_tokens n) (fm_tokens metrics)\<rparr>"

definition addNode ::
    "path_node \<Rightarrow> flow_metrics \<Rightarrow> flow_metric \<Rightarrow> string \<Rightarrow> string \<Rightarrow> (string \<times> flow_node) list \<Rightarrow> (string \<times> flow_node) list" where
  "addNode n metrics metric color colorKey m = map_accum (pn_id n) (new_node n color colorKey) (count_node metrics metric) m"

definition pathLinkKey :: "path_node \<Rightarrow> path_node \<Rightarrow> string" where
  "pathLinkKey source target = pn_id source @ CHR 0x00 # pn_id target"

definition linkStableKey :: "flow_link \<Rightarrow> string" where
  "linkStableKey l = lk_source l @ CHR 0x00 # lk_target l"

definition new_link :: "path_node \<Rightarrow> path_node \<Rightarrow> string \<Rightarrow> string \<Rightarrow> flow_link" where
  "new_link source target color colorKey = \<lparr>lk_source = pn_id source, lk_target = pn_id target, lk_value = Fin 0,
     lk_requests = Fin 0, lk_quota = Fin 0, lk_tokens = Fin 0, lk_sourceLabel = pn_label source,
     lk_targetLabel = pn_label target, lk_color = color, lk_linkColor = color, lk_linkAlpha = Fin 1,
     lk_hoverColor = color, lk_colorKey = colorKey, lk_share = Fin 0, lk_highlighted = None, lk_dimmed = None\<rparr>"

definition count_link :: "flow_metrics \<Rightarrow> flow_metric \<Rightarrow> flow_link \<Rightarrow> flow_link" where
  "count_link metrics metric l = l\<lparr>lk_value := js_add (lk_value l) (metricValue metrics metric),
     lk_requests := js_add (lk_requests l) (fm_requests metrics), lk_quota := js_add (lk_quota l) (fm_quota metrics),
     lk_tokens := js_add (lk_tokens l) (fm_tokens metrics)\<rparr>"

definition addLink ::
    "path_node \<Rightarrow> path_node \<Rightarrow> flow_metrics \<Rightarrow> flow_metric \<Rightarrow> string \<Rightarrow> string \<Rightarrow> (string \<times> flow_link) list \<Rightarrow>
       (string \<times> flow_link) list" where
  "addLink source target metrics metric color colorKey m =
     map_accum (pathLinkKey source target) (new_link source target color colorKey) (count_link metrics metric) m"

text \<open>The order of numbers in a descending comparison \<open>b - a\<close>, in which equal infinities compare as equal.\<close>

definition num_key :: "jsnum \<Rightarrow> int \<times> rat" where
  "num_key x = (case x of PInf \<Rightarrow> (1, 0) | NInf \<Rightarrow> (- 1, 0) | NaN \<Rightarrow> (0, 0) | NegZero \<Rightarrow> (0, 0) | Fin q \<Rightarrow> (0, q))"

definition desc_key :: "jsnum \<Rightarrow> int \<times> rat" where
  "desc_key x = (- fst (num_key x), - snd (num_key x))"

definition link_alpha :: "nat \<Rightarrow> nat \<Rightarrow> jsnum" where
  "link_alpha index count =
     (if count = 1 then js_number ''0.34''
      else js_add (js_number ''0.24'')
        (js_mul (js_div (Fin (of_nat index)) (Fin (of_nat (max (count - 1) 1)))) (js_number ''0.2'')))"

text \<open>The links of one source by descending value, each with the opacity of its place.\<close>

definition assignLinkDisplayColors :: "flow_env \<Rightarrow> flow_link list \<Rightarrow> flow_link list" where
  "assignLinkDisplayColors env links =
     map (\<lambda>l.
       let sorted = sort_key (\<lambda>k. (desc_key (lk_value k), fe_collate env (linkStableKey k)))
             (filter (\<lambda>k. lk_source k = lk_source l) links);
           index = coalesce (find_index (\<lambda>k. linkStableKey k = linkStableKey l) sorted) 0;
           shown = alphaColor (lk_color l) (link_alpha index (length sorted))
       in l\<lparr>lk_linkColor := fst shown, lk_linkAlpha := snd shown, lk_hoverColor := lk_color l\<rparr>) links"

section \<open>The limit on the nodes of a stage\<close>

definition buildSummary :: "flow_row list \<Rightarrow> flow_metrics" where
  "buildSummary rows =
     fold (\<lambda>row s. let m = rowMetrics row
        in \<lparr>fm_quota = js_add (fm_quota s) (fm_quota m), fm_tokens = js_add (fm_tokens s) (fm_tokens m),
            fm_requests = js_add (fm_requests s) (fm_requests m)\<rparr>)
       rows \<lparr>fm_quota = Fin 0, fm_tokens = Fin 0, fm_requests = Fin 0\<rparr>"

definition normalizeTopNodeLimit :: "jsnum option \<Rightarrow> nat option" where
  "normalizeTopNodeLimit limit =
     (case limit of None \<Rightarrow> None
      | Some x \<Rightarrow> (let parsed = js_floor x in if is_finite parsed \<and> js_lt (Fin 0) parsed then Some (nat \<lfloor>rv parsed\<rfloor>) else None))"

definition otherFlowNode :: "flow_kind \<Rightarrow> (flow_kind \<Rightarrow> string) option \<Rightarrow> path_node" where
  "otherFlowNode kind labeler =
     \<lparr>pn_id = OTHER_FLOW_NODE_IDS kind,
      pn_label = (case labeler of Some f \<Rightarrow> f kind | None \<Rightarrow> DEFAULT_OTHER_FLOW_NODE_LABELS kind), pn_kind = kind\<rparr>"

definition node_ranks ::
    "flow_row list \<Rightarrow> flow_metric \<Rightarrow> flow_kind \<Rightarrow> flow_ctx \<Rightarrow> (string \<times> path_node \<times> jsnum) list" where
  "node_ranks rows metric stage ctx =
     fold (\<lambda>row. let n = NODE_BUILDERS stage row ctx; value = metricValue (rowMetrics row) metric
       in map_accum (pn_id n) (n, Fin 0) (\<lambda>(n, v). (n, js_add v value))) rows []"

definition buildTopNodeSets ::
    "flow_env \<Rightarrow> flow_row list \<Rightarrow> flow_metric \<Rightarrow> flow_kind list \<Rightarrow> nat option \<Rightarrow> flow_ctx \<Rightarrow> (flow_kind \<times> string list) list option" where
  "buildTopNodeSets env rows metric stages limit ctx =
     (case limit of None \<Rightarrow> None
      | Some n \<Rightarrow>
          Some (map (\<lambda>stage. (stage,
            map (\<lambda>r. pn_id (fst r)) (take n (sort_key (\<lambda>r. (desc_key (snd r), fe_collate env (pn_label (fst r)), fe_collate env (pn_id (fst r))))
              (map snd (node_ranks rows metric stage ctx)))))) stages))"

definition isTopFlowNode :: "path_node \<Rightarrow> (flow_kind \<times> string list) list option \<Rightarrow> bool" where
  "isTopFlowNode n topNodeSets \<longleftrightarrow>
     (case topNodeSets of None \<Rightarrow> True
      | Some sets \<Rightarrow> (case map_of sets (pn_kind n) of None \<Rightarrow> True | Some ids \<Rightarrow> pn_id n \<in> set ids))"

definition applyTopNodeLimit ::
    "flow_path \<Rightarrow> (flow_kind \<times> string list) list option \<Rightarrow> overflow_mode \<Rightarrow> (flow_kind \<Rightarrow> string) option \<Rightarrow> flow_path option" where
  "applyTopNodeLimit path topNodeSets mode labeler =
     (if topNodeSets = None \<or> \<not> list_ex (\<lambda>n. \<not> isTopFlowNode n topNodeSets) path then Some path
      else if mode = Hide then None
      else Some (map (\<lambda>n. if isTopFlowNode n topNodeSets then n else otherFlowNode (pn_kind n) labeler) path))"

section \<open>Highlighted paths\<close>

definition path_links :: "flow_path \<Rightarrow> (path_node \<times> path_node) list" where
  "path_links path = zip path (tl path)"

definition pathContainsFlowNode :: "flow_path \<Rightarrow> node_filter \<Rightarrow> bool" where
  "pathContainsFlowNode path f \<longleftrightarrow> list_ex (\<lambda>n. pn_kind n = fst f \<and> pn_id n = snd f) path"

definition pathContainsFlowLink :: "flow_path \<Rightarrow> link_selection \<Rightarrow> bool" where
  "pathContainsFlowLink path l \<longleftrightarrow> list_ex (\<lambda>(a, b). pn_id a = fst l \<and> pn_id b = snd l) (path_links path)"

definition buildFlowHighlightSets ::
    "prepared list \<Rightarrow> node_filter option \<Rightarrow> link_selection option \<Rightarrow> flow_kind list \<Rightarrow> (string list \<times> string list) option" where
  "buildFlowHighlightSets preparedPaths activeNode activeLink stages =
     (let nodeActive = (case activeNode of None \<Rightarrow> False | Some f \<Rightarrow> fst f \<in> set stages);
          matchesPath = (\<lambda>path. case activeLink of Some l \<Rightarrow> pathContainsFlowLink path l
            | None \<Rightarrow> (case activeNode of Some f \<Rightarrow> pathContainsFlowNode path f | None \<Rightarrow> False));
          paths = filter matchesPath (map fst preparedPaths);
          nodes = js_unique (concat (map (map pn_id) paths));
          links = js_unique (concat (map (\<lambda>p. map (\<lambda>(a, b). pathLinkKey a b) (path_links p)) paths))
      in if \<not> nodeActive \<and> activeLink = None then None
         else if nodes = [] then None else Some (nodes, links))"

definition highlight_node :: "(string list \<times> string list) option \<Rightarrow> flow_node \<Rightarrow> flow_node" where
  "highlight_node sets n =
     (case sets of None \<Rightarrow> n
      | Some (nodes, _) \<Rightarrow> n\<lparr>fn_highlighted := Some (fn_id n \<in> set nodes), fn_dimmed := Some (fn_id n \<notin> set nodes)\<rparr>)"

definition highlight_link :: "(string list \<times> string list) option \<Rightarrow> flow_link \<Rightarrow> flow_link" where
  "highlight_link sets l =
     (case sets of None \<Rightarrow> l
      | Some (_, links) \<Rightarrow> l\<lparr>lk_highlighted := Some (linkStableKey l \<in> set links), lk_dimmed := Some (linkStableKey l \<notin> set links)\<rparr>)"

section \<open>Masking\<close>

definition maskFlowLabel :: "flow_env \<Rightarrow> string \<Rightarrow> string" where
  "maskFlowLabel env label = (if label = [] then label else fe_mask env)"

definition must_mask :: "flow_node \<Rightarrow> bool" where
  "must_mask n \<longleftrightarrow> fn_kind n \<in> set SENSITIVE_FLOW_KINDS \<and> fn_id n \<notin> set OTHER_FLOW_NODE_ID_SET"

definition mask_node :: "flow_env \<Rightarrow> flow_node \<Rightarrow> flow_node" where
  "mask_node env n = (if must_mask n then n\<lparr>fn_label := maskFlowLabel env (fn_label n)\<rparr> else n)"

definition maskedById :: "flow_env \<Rightarrow> flow_node list \<Rightarrow> (string \<times> string) list" where
  "maskedById env nodes = map (\<lambda>n. (fn_id n, maskFlowLabel env (fn_label n))) (filter must_mask nodes)"

definition mask_link :: "(string \<times> string) list \<Rightarrow> flow_link \<Rightarrow> flow_link" where
  "mask_link masked l = l\<lparr>lk_sourceLabel := coalesce (map_of masked (lk_source l)) (lk_sourceLabel l),
     lk_targetLabel := coalesce (map_of masked (lk_target l)) (lk_targetLabel l)\<rparr>"

definition maskFlowGraphLabels :: "flow_env \<Rightarrow> flow_node list \<times> flow_link list \<Rightarrow> flow_node list \<times> flow_link list" where
  "maskFlowGraphLabels env g = (map (mask_node env) (fst g), map (mask_link (maskedById env (fst g))) (snd g))"

section \<open>The graph\<close>

definition prepare_paths ::
    "flow_env \<Rightarrow> flow_row list \<Rightarrow> flow_metric \<Rightarrow> flow_kind list \<Rightarrow> flow_ctx \<Rightarrow> graph_options \<Rightarrow> prepared list" where
  "prepare_paths env rows metric stages ctx opts =
     (let topNodeSets = buildTopNodeSets env rows metric stages (normalizeTopNodeLimit (go_topNodeLimit opts)) ctx
      in List.map_filter (\<lambda>row. map_option (\<lambda>path. (path, rowMetrics row))
           (applyTopNodeLimit (flowPathForStages row stages ctx) topNodeSets (coalesce (go_overflowMode opts) Aggregate)
             (go_otherNodeLabel opts))) rows)"

definition path_roots :: "prepared list \<Rightarrow> string list" where
  "path_roots preparedPaths = List.map_filter (\<lambda>p. case fst p of [] \<Rightarrow> None | n # _ \<Rightarrow> Some (pn_id n)) preparedPaths"

definition root_color :: "flow_env \<Rightarrow> (string \<times> string) list \<Rightarrow> string list option \<Rightarrow> string \<Rightarrow> string" where
  "root_color env colors palette key = coalesce (map_of colors key) (colorAt env 0 palette)"

definition collect_nodes ::
    "flow_metric \<Rightarrow> (string \<Rightarrow> string) \<Rightarrow> prepared list \<Rightarrow> (string \<times> flow_node) list" where
  "collect_nodes metric color preparedPaths =
     fold (\<lambda>(path, metrics) m.
       case path of [] \<Rightarrow> m
       | r # _ \<Rightarrow> fold (\<lambda>n. addNode n metrics metric (color (pn_id r)) (pn_id r)) path m) preparedPaths []"

definition collect_links ::
    "flow_metric \<Rightarrow> (string \<Rightarrow> string) \<Rightarrow> prepared list \<Rightarrow> (string \<times> flow_link) list" where
  "collect_links metric color preparedPaths =
     fold (\<lambda>(path, metrics) m.
       case path of [] \<Rightarrow> m
       | r # _ \<Rightarrow> fold (\<lambda>(a, b). addLink a b metrics metric (color (pn_id r)) (pn_id r)) (path_links path) m)
       preparedPaths []"

definition link_share :: "jsnum \<Rightarrow> flow_link \<Rightarrow> flow_link" where
  "link_share all_flow l = l\<lparr>lk_share := (if js_lt (Fin 0) all_flow then js_div (lk_value l) all_flow else Fin 0)\<rparr>"

definition first_total :: "string list \<Rightarrow> flow_link list \<Rightarrow> jsnum" where
  "first_total sources links = fold (\<lambda>l sum. js_add sum (lk_value l)) (filter (\<lambda>l. lk_source l \<in> set sources) links) (Fin 0)"

definition buildFlowGraph ::
    "flow_env \<Rightarrow> flow_row list \<Rightarrow> flow_metric \<Rightarrow> flow_role \<Rightarrow> string list option \<Rightarrow> flow_kind list option \<Rightarrow> flow_ctx \<Rightarrow>
       graph_options \<Rightarrow> flow_graph" where
  "buildFlowGraph env rows metric role palette visibleStages ctx opts =
     (let stages = resolveVisibleStages role visibleStages;
          preparedPaths = prepare_paths env rows metric stages ctx opts;
          colors = stableColorMap env (sort_key (fe_collate env) (path_roots preparedPaths)) palette;
          color = root_color env colors palette;
          nodes = map snd (collect_nodes metric color preparedPaths);
          links = map snd (collect_links metric color preparedPaths);
          masked = (if go_maskSensitive opts then maskFlowGraphLabels env (nodes, links) else (nodes, links));
          sets = buildFlowHighlightSets preparedPaths (go_activeNode opts) (go_activeLink opts) stages;
          flowLinks = sort_key (\<lambda>l. (fe_collate env (lk_source l), fe_collate env (lk_target l))) (map (highlight_link sets) (snd masked));
          all_flow = first_total (path_roots preparedPaths) flowLinks
      in \<lparr>fg_nodes = sort_key (\<lambda>n. (desc_key (fn_value n), fe_collate env (fn_label n))) (map (highlight_node sets) (fst masked)),
          fg_links = assignLinkDisplayColors env (map (link_share all_flow) flowLinks)\<rparr>)"

section \<open>Options of the filters\<close>

record user_option =
  uo_value :: string
  uo_label :: string
  uo_valueLabel :: string
  uo_valueRaw :: jsnum
  uo_color :: string

record node_option =
  no_kind :: flow_kind
  no_value :: string
  no_label :: string
  no_valueLabel :: string
  no_valueRaw :: jsnum
  no_color :: string

record filter_options =
  fo_users :: "user_option list"
  fo_nodes :: "node_option list"

definition buildUserFilterOptions :: "flow_env \<Rightarrow> flow_row list \<Rightarrow> flow_metric \<Rightarrow> string list option \<Rightarrow> user_option list" where
  "buildUserFilterOptions env rows metric palette =
     (let colors = stableColorMap env (sort_key (fe_collate env) (map (\<lambda>row. pn_id (userNode row)) rows)) palette;
          named = filter (\<lambda>row. (case fr_user_id row of Some x \<Rightarrow> num_truthy x | None \<Rightarrow> False) \<or> str_or (fr_username row) [] \<noteq> []) rows;
          users = fold (\<lambda>row. let user = userNode row
            in map_accum (pn_id user) (pn_label user, Fin 0, root_color env colors palette (pn_id user))
                 (\<lambda>(l, v, c). (l, js_add v (metricValue (rowMetrics row) metric), c))) named []
      in sort_key (\<lambda>u. (desc_key (uo_valueRaw u), fe_collate env (uo_label u)))
           (map (\<lambda>(k, l, v, c). \<lparr>uo_value = k, uo_label = l, uo_valueLabel = fe_formatNumber env v, uo_valueRaw = v, uo_color = c\<rparr>) users))"

definition nodeFilterKey :: "node_filter \<Rightarrow> string" where
  "nodeFilterKey f = flow_kind_name (fst f) @ CHR 0x00 # snd f"

definition stage_totals ::
    "flow_row list \<Rightarrow> flow_metric \<Rightarrow> flow_kind \<Rightarrow> flow_ctx \<Rightarrow> (string \<times> path_node \<times> jsnum) list" where
  "stage_totals rows metric stage ctx =
     fold (\<lambda>row. let n = NODE_BUILDERS stage row ctx
       in map_accum (nodeFilterKey (pn_kind n, pn_id n)) (n, Fin 0)
            (\<lambda>(n, v). (n, js_add v (metricValue (rowMetrics row) metric)))) rows []"

definition stage_index :: "flow_kind list \<Rightarrow> flow_kind \<Rightarrow> nat" where
  "stage_index stages k = coalesce (find_index (\<lambda>s. s = k) stages) 0"

definition buildNodeFilterOptions ::
    "flow_env \<Rightarrow> flow_row list \<Rightarrow> flow_metric \<Rightarrow> flow_role \<Rightarrow> flow_kind list option \<Rightarrow> string list option \<Rightarrow> flow_ctx \<Rightarrow>
       node_filter list option \<Rightarrow> node_option list" where
  "buildNodeFilterOptions env rows metric role visibleStages palette ctx selectedNodes =
     (let stages = resolveVisibleStages role visibleStages;
          colorIds = js_unique (concat (map (\<lambda>row. map pn_id (flowPathForStages row stages ctx)) rows));
          colors = stableColorMap env (sort_key (fe_collate env) colorIds) palette;
          ranks = concat (map (\<lambda>stage. map snd (stage_totals
            (filterRowsByNodes rows (selectedNodeFiltersExceptKind selectedNodes stage) stages ctx) metric stage ctx)) stages)
      in sort_key (\<lambda>x. (stage_index stages (no_kind x), desc_key (no_valueRaw x), fe_collate env (no_label x), fe_collate env (no_value x)))
           (map (\<lambda>(n, v). \<lparr>no_kind = pn_kind n, no_value = pn_id n, no_label = pn_label n, no_valueLabel = fe_formatNumber env v,
              no_valueRaw = v, no_color = root_color env colors palette (pn_id n)\<rparr>) ranks))"

definition empty_ctx :: flow_ctx where
  "empty_ctx = \<lparr>fc_noTokenLabel = None, fc_deletedTokenLabel = None\<rparr>"

definition buildFlowFilterOptions ::
    "flow_env \<Rightarrow> flow_row list \<Rightarrow> flow_metric \<Rightarrow> string list option \<Rightarrow> flow_role \<Rightarrow> flow_kind list option \<Rightarrow> node_filter list option \<Rightarrow>
       filter_options" where
  "buildFlowFilterOptions env rows metric palette role visibleStages selectedNodes =
     \<lparr>fo_users = buildUserFilterOptions env rows metric palette,
      fo_nodes = buildNodeFilterOptions env rows metric role visibleStages palette empty_ctx selectedNodes\<rparr>"

record build_options =
  bo_role :: "flow_role option"
  bo_selectedUsers :: "string list option"
  bo_selectedNodes :: "node_filter list option"
  bo_colorPalette :: "string list option"
  bo_visibleStages :: "flow_kind list option"
  bo_ctx :: flow_ctx
  bo_graph :: graph_options

record processed_flow =
  pf_summary :: flow_metrics
  pf_flow :: flow_graph
  pf_filterOptions :: filter_options

definition buildDashboardFlowData :: "flow_env \<Rightarrow> flow_row list \<Rightarrow> flow_metric \<Rightarrow> build_options \<Rightarrow> processed_flow" where
  "buildDashboardFlowData env rows metric opts =
     (let role = coalesce (bo_role opts) RUser; palette = bo_colorPalette opts; ctx = bo_ctx opts;
          stages = resolveVisibleStages role (bo_visibleStages opts);
          userFilteredRows = filterRows rows (bo_selectedUsers opts);
          filteredRows = filterRowsByNodes userFilteredRows (bo_selectedNodes opts) stages ctx
      in \<lparr>pf_summary = buildSummary filteredRows,
          pf_flow = buildFlowGraph env filteredRows metric role palette (bo_visibleStages opts) ctx (bo_graph opts),
          pf_filterOptions = \<lparr>fo_users = buildUserFilterOptions env rows metric palette,
            fo_nodes = buildNodeFilterOptions env userFilteredRows metric role (bo_visibleStages opts) palette ctx (bo_selectedNodes opts)\<rparr>\<rparr>)"

end
