(* ===== verification/Flow_Facts.thy ===== *)
theory Flow_Facts
  imports Flow_Graph "HOL-Library.Multiset"
begin

text \<open>
  What the flow chart guarantees.  All its tables are filled in the same way, one entry per key whose number grows with
  every row; the locale \<open>accumulation\<close> states this once, with the exact sums it yields as long as the numbers are
  integers below \<open>2\<^sup>5\<^sup>3\<close>, and is interpreted on the nodes, the links and the ranks.
\<close>

section \<open>Exact sums\<close>

definition whole :: "jsnum \<Rightarrow> bool" where
  "whole x \<longleftrightarrow> is_integer x \<and> 0 \<le> rv x"

definition amount :: "jsnum \<Rightarrow> nat" where
  "amount x = nat \<lfloor>rv x\<rfloor>"

lemma whole_rv: "whole x \<Longrightarrow> rv x = of_nat (amount x)"
  by (auto simp: whole_def amount_def is_integer_def)

lemma amount_nat [simp]: "amount (Fin (of_nat n)) = n"
  by (simp add: amount_def)

lemma js_add_whole:
  assumes "whole x" "n + amount x \<le> 2 ^ 53"
  shows "js_add (Fin (of_nat n)) x = Fin (of_nat (n + amount x))"
proof -
  have "int (n + amount x) \<le> int (2 ^ 53)" using assms(2) by (rule iffD2 [OF of_nat_le_iff])
  also have "int (2 ^ 53) = 2 ^ 53" by (simp only: of_nat_power of_nat_numeral)
  finally have "\<bar>int n + int (amount x)\<bar> \<le> 2 ^ 53" by (simp only: of_nat_add)
  then have "fl (of_int (int n + int (amount x))) = Fin (of_int (int n + int (amount x)))"
    by (intro fl_id representable_of_int)
  then have "fl (of_nat n + of_nat (amount x)) = Fin (of_nat (n + amount x))" by simp
  with assms(1) whole_rv [OF assms(1)] show ?thesis
    by (cases x) (auto simp: js_add_def whole_def is_integer_def signed_zero_def)
qed

section \<open>Accumulated tables\<close>

definition accumulate :: "('x \<Rightarrow> 'k) \<Rightarrow> ('x \<Rightarrow> 'v) \<Rightarrow> ('x \<Rightarrow> 'v \<Rightarrow> 'v) \<Rightarrow> 'x list \<Rightarrow> ('k \<times> 'v) list" where
  "accumulate key initial grow xs = fold (\<lambda>x. map_accum (key x) (initial x) (grow x)) xs []"

definition weight_at :: "('x \<Rightarrow> 'k) \<Rightarrow> ('x \<Rightarrow> nat) \<Rightarrow> 'k \<Rightarrow> 'x list \<Rightarrow> nat" where
  "weight_at key w k xs = sum_list (map w (filter (\<lambda>x. key x = k) xs))"

lemma accumulate_snoc:
  "accumulate key initial grow (xs @ [x]) = map_accum (key x) (initial x) (grow x) (accumulate key initial grow xs)"
  by (simp add: accumulate_def)

lemma accumulate_keys:
  "fst ` set (accumulate key initial grow xs) = key ` set xs" "distinct (map fst (accumulate key initial grow xs))"
  by (induction xs rule: rev_induct) (simp_all add: accumulate_snoc map_accum_def accumulate_def [of _ _ _ "[]"])

lemma absent_weight:
  assumes "map_of (accumulate key initial grow xs) k = None" shows "weight_at key w k xs = 0"
proof -
  have "k \<notin> key ` set xs" using assms unfolding map_of_eq_None_iff accumulate_keys(1) .
  then have "filter (\<lambda>x. key x = k) xs = []" by (auto simp: filter_empty_conv)
  then show ?thesis by (simp add: weight_at_def)
qed

lemma accumulate_attr:
  assumes "\<And>x v. attr (grow x v) = attr v" "map_of (accumulate key initial grow xs) k = Some v"
  shows "\<exists>x \<in> set xs. key x = k \<and> attr v = attr (initial x)"
  using assms(2)
proof (induction xs arbitrary: v rule: rev_induct)
  case (snoc x xs)
  show ?case
  proof (cases "k = key x")
    case True
    with snoc.prems have v: "v = grow x (coalesce (map_of (accumulate key initial grow xs) k) (initial x))"
      by (simp add: accumulate_snoc map_accum_def)
    show ?thesis
      using snoc.IH True v assms(1) by (cases "map_of (accumulate key initial grow xs) k") auto
  next
    case False
    with snoc show ?thesis by (auto simp: accumulate_snoc map_accum_def)
  qed
qed (simp add: accumulate_def)

text \<open>The sum of a table over the keys with a property.\<close>

definition table_sum :: "('v \<Rightarrow> nat) \<Rightarrow> ('k \<Rightarrow> bool) \<Rightarrow> ('k \<times> 'v) list \<Rightarrow> nat" where
  "table_sum f P m = sum_list (map (\<lambda>(k, v). f v) (filter (\<lambda>(k, v). P k) m))"

lemma table_sum_obj_set:
  assumes "distinct (map fst m)"
  shows "table_sum f P (obj_set k v m) + (case map_of m k of Some u \<Rightarrow> if P k then f u else 0 | None \<Rightarrow> 0) =
    table_sum f P m + (if P k then f v else 0)"
  using assms
proof (induction m)
  case (Cons e m)
  obtain j u where e: "e = (j, u)" by (cases e)
  show ?case
  proof (cases "j = k")
    case True
    with e show ?thesis by (simp add: table_sum_def)
  next
    case False
    with Cons e show ?thesis by (simp add: table_sum_def)
  qed
qed (simp add: table_sum_def)

locale accumulation =
  fixes key :: "'x \<Rightarrow> 'k" and initial :: "'x \<Rightarrow> 'v" and grow :: "'x \<Rightarrow> 'v \<Rightarrow> 'v"
    and number :: "'v \<Rightarrow> jsnum" and weight :: "'x \<Rightarrow> jsnum"
  assumes starts_at_zero: "number (initial x) = Fin 0"
    and counts_weight: "number (grow x v) = js_add (number v) (weight x)"
begin

lemma number_exact:
  assumes "\<forall>x \<in> set xs. whole (weight x)" "\<And>k. weight_at key (\<lambda>x. amount (weight x)) k xs \<le> 2 ^ 53"
    and "map_of (accumulate key initial grow xs) k = Some v"
  shows "number v = Fin (of_nat (weight_at key (\<lambda>x. amount (weight x)) k xs))"
  using assms
proof (induction xs arbitrary: v rule: rev_induct)
  case (snoc x xs)
  let ?w = "weight_at key (\<lambda>x. amount (weight x))" and ?m = "accumulate key initial grow xs"
  have bound: "?w j xs \<le> 2 ^ 53" for j using snoc.prems(2) [of j] by (simp add: weight_at_def split: if_splits)
  have IH: "map_of ?m k = Some u \<Longrightarrow> number u = Fin (of_nat (?w k xs))" for u
    using snoc.IH bound snoc.prems(1) by simp
  show ?case
  proof (cases "k = key x")
    case True
    have "number (coalesce (map_of ?m k) (initial x)) = Fin (of_nat (?w k xs))"
      using IH starts_at_zero by (cases "map_of ?m k") (simp_all add: absent_weight)
    moreover have "v = grow x (coalesce (map_of ?m k) (initial x))"
      using snoc.prems(3) True by (simp add: accumulate_snoc map_accum_def)
    moreover have "?w k (xs @ [x]) = ?w k xs + amount (weight x)" using True by (simp add: weight_at_def)
    ultimately show ?thesis
      using js_add_whole [of "weight x" "?w k xs"] snoc.prems(1) snoc.prems(2) [of k] counts_weight by simp
  next
    case False
    then show ?thesis using IH snoc.prems(3) by (simp add: accumulate_snoc map_accum_def weight_at_def)
  qed
qed (simp add: accumulate_def)

lemma table_exact:
  assumes "\<forall>x \<in> set xs. whole (weight x)" "\<And>k. weight_at key (\<lambda>x. amount (weight x)) k xs \<le> 2 ^ 53"
  shows "table_sum (\<lambda>v. amount (number v)) P (accumulate key initial grow xs) =
    sum_list (map (\<lambda>x. amount (weight x)) (filter (\<lambda>x. P (key x)) xs))"
  using assms
proof (induction xs rule: rev_induct)
  case (snoc x xs)
  let ?w = "weight_at key (\<lambda>x. amount (weight x))" and ?m = "accumulate key initial grow xs"
  let ?f = "\<lambda>v. amount (number v)" and ?new = "grow x (coalesce (map_of ?m (key x)) (initial x))"
  have bound: "?w j xs \<le> 2 ^ 53" for j using snoc.prems(2) [of j] by (simp add: weight_at_def split: if_splits)
  have IH: "table_sum ?f P ?m = sum_list (map (\<lambda>x. amount (weight x)) (filter (\<lambda>x. P (key x)) xs))"
    using snoc.IH bound snoc.prems(1) by simp
  have m: "map_of (accumulate key initial grow (xs @ [x])) (key x) = Some ?new"
    by (simp add: accumulate_snoc map_accum_def)
  have new: "?f ?new = ?w (key x) xs + amount (weight x)"
    unfolding number_exact [OF snoc.prems m] amount_nat by (simp add: weight_at_def)
  have old: "(case map_of ?m (key x) of Some u \<Rightarrow> if P (key x) then ?f u else 0 | None \<Rightarrow> 0) =
      (if P (key x) then ?w (key x) xs else 0)"
  proof (cases "map_of ?m (key x)")
    case None
    then show ?thesis by (simp add: absent_weight)
  next
    case (Some u)
    have "\<forall>x \<in> set xs. whole (weight x)" using snoc.prems(1) by simp
    from number_exact [OF this bound Some] Some show ?thesis by simp
  qed
  show ?case
    using table_sum_obj_set [OF accumulate_keys(2), of ?f P "key x" ?new key initial grow xs] IH new old
    by (simp add: accumulate_snoc map_accum_def split: if_splits)
qed (simp add: accumulate_def table_sum_def)

end

section \<open>Nodes and links as tables\<close>

definition node_items :: "prepared list \<Rightarrow> (path_node \<times> string \<times> flow_metrics) list" where
  "node_items ps = concat (map (\<lambda>(p, m). map (\<lambda>n. (n, pn_id (hd p), m)) p) ps)"

definition link_items :: "prepared list \<Rightarrow> ((path_node \<times> path_node) \<times> string \<times> flow_metrics) list" where
  "link_items ps = concat (map (\<lambda>(p, m). map (\<lambda>l. (l, pn_id (hd p), m)) (path_links p)) ps)"

definition node_key :: "path_node \<times> string \<times> flow_metrics \<Rightarrow> string" where
  "node_key x = pn_id (fst x)"

definition link_key :: "(path_node \<times> path_node) \<times> string \<times> flow_metrics \<Rightarrow> string" where
  "link_key x = pathLinkKey (fst (fst x)) (snd (fst x))"

definition item_weight :: "flow_metric \<Rightarrow> 'a \<times> string \<times> flow_metrics \<Rightarrow> jsnum" where
  "item_weight metric x = metricValue (snd (snd x)) metric"

definition node_initial :: "(string \<Rightarrow> string) \<Rightarrow> path_node \<times> string \<times> flow_metrics \<Rightarrow> flow_node" where
  "node_initial color x = new_node (fst x) (color (fst (snd x))) (fst (snd x))"

definition link_initial :: "(string \<Rightarrow> string) \<Rightarrow> (path_node \<times> path_node) \<times> string \<times> flow_metrics \<Rightarrow> flow_link" where
  "link_initial color x = new_link (fst (fst x)) (snd (fst x)) (color (fst (snd x))) (fst (snd x))"

interpretation node_table: accumulation node_key "node_initial color" "\<lambda>x. count_node (snd (snd x)) metric" fn_value "item_weight metric"
  for color metric
  by unfold_locales (simp_all add: node_initial_def new_node_def count_node_def item_weight_def)

interpretation link_table: accumulation link_key "link_initial color" "\<lambda>x. count_link (snd (snd x)) metric" lk_value "item_weight metric"
  for color metric
  by unfold_locales (simp_all add: link_initial_def new_link_def count_link_def item_weight_def)

lemma fold_concat: "fold f (concat xss) s = fold (fold f) xss s"
  by (induction xss arbitrary: s) simp_all

lemma add_step:
  "addNode n metrics metric color r = map_accum (pn_id n) (new_node n color r) (count_node metrics metric)"
  "addLink a b metrics metric color r = map_accum (pathLinkKey a b) (new_link a b color r) (count_link metrics metric)"
  by (simp_all add: fun_eq_iff addNode_def addLink_def)

lemma collect_nodes_table:
  "collect_nodes metric color ps = accumulate node_key (node_initial color) (\<lambda>x. count_node (snd (snd x)) metric) (node_items ps)"
  unfolding collect_nodes_def accumulate_def node_items_def fold_concat fold_map comp_def
  by (intro fold_cong refl ext)
    (auto simp: fold_map comp_def add_step node_key_def node_initial_def split: list.split)

lemma collect_links_table:
  "collect_links metric color ps = accumulate link_key (link_initial color) (\<lambda>x. count_link (snd (snd x)) metric) (link_items ps)"
  unfolding collect_links_def accumulate_def link_items_def fold_concat fold_map comp_def
  by (intro fold_cong refl ext)
    (auto simp: fold_map comp_def add_step link_key_def link_initial_def path_links_def case_prod_unfold split: list.split)

section \<open>Paths\<close>

definition node_ok :: "path_node \<Rightarrow> bool" where
  "node_ok n \<longleftrightarrow> js_starts_with (pn_id n) (flow_kind_name (pn_kind n) @ '':'') \<and> CHR 0x00 \<notin> set (pn_id n)"

definition flow_ok :: "flow_metric \<Rightarrow> flow_kind list \<Rightarrow> prepared list \<Rightarrow> bool" where
  "flow_ok metric stages ps \<longleftrightarrow> distinct stages \<and> length stages \<ge> 2 \<and>
     list_all (\<lambda>(p, m). map pn_kind p = stages \<and> list_all node_ok p \<and> whole (metricValue m metric)) ps \<and>
     sum_list (map (\<lambda>(p, m). amount (metricValue m metric)) ps) \<le> 2 ^ 53"

lemma id_determines_kind:
  assumes "node_ok a" "node_ok b" "pn_id a = pn_id b" shows "pn_kind a = pn_kind b"
  using assms by (cases "pn_kind a"; cases "pn_kind b") (auto simp: node_ok_def js_starts_with_iff flow_kind_name_def)

lemma path_ids_distinct:
  assumes "distinct (map pn_kind p)" "list_all node_ok p" shows "distinct (map pn_id p)"
proof -
  have "inj_on pn_id (set p)"
  proof (rule inj_onI)
    fix a b
    assume ab: "a \<in> set p" "b \<in> set p" "pn_id a = pn_id b"
    then have "pn_kind a = pn_kind b" using assms(2) by (auto simp: list_all_iff intro: id_determines_kind)
    with ab(1,2) assms(1) show "a = b" by (auto simp: distinct_map dest: inj_onD)
  qed
  with assms(1) show ?thesis by (simp add: distinct_map)
qed

text \<open>The flow of the paths with a property.\<close>

definition flow_of :: "flow_metric \<Rightarrow> (flow_path \<Rightarrow> bool) \<Rightarrow> prepared list \<Rightarrow> nat" where
  "flow_of metric Q ps = sum_list (map (\<lambda>(p, m). if Q p then amount (metricValue m metric) else 0) ps)"

lemma flow_of_le: "flow_of metric Q ps \<le> flow_of metric (\<lambda>_. True) ps"
  unfolding flow_of_def by (rule sum_list_mono) auto

lemma flow_of_cong:
  assumes "\<And>p m. (p, m) \<in> set ps \<Longrightarrow> Q p \<longleftrightarrow> R p" shows "flow_of metric Q ps = flow_of metric R ps"
  unfolding flow_of_def using assms by (intro arg_cong [of _ _ sum_list] map_cong refl) auto

lemma sum_list_const_filter: "sum_list (map (\<lambda>_. c) (filter P xs)) = length (filter P xs) * (c :: nat)"
  by (induction xs) auto

lemma single_match: "distinct (map f xs) \<Longrightarrow> length (filter (\<lambda>x. f x = v) xs) = (if v \<in> f ` set xs then 1 else 0)"
  by (induction xs) (auto simp: filter_empty_conv)

lemma node_items_sum:
  "sum_list (map (\<lambda>x. amount (item_weight metric x)) (filter (\<lambda>x. P (fst x)) (node_items ps))) =
   sum_list (map (\<lambda>(p, m). length (filter P p) * amount (metricValue m metric)) ps)"
  by (induction ps) (auto simp: node_items_def item_weight_def filter_map comp_def sum_list_const_filter)

lemma link_items_sum:
  "sum_list (map (\<lambda>x. amount (item_weight metric x)) (filter (\<lambda>x. P (fst x)) (link_items ps))) =
   sum_list (map (\<lambda>(p, m). length (filter P (path_links p)) * amount (metricValue m metric)) ps)"
  by (induction ps) (auto simp: link_items_def item_weight_def filter_map comp_def sum_list_const_filter)

lemma link_ends: "map fst (path_links p) = butlast p" "map snd (path_links p) = tl p"
  by (cases p; simp add: path_links_def map_fst_zip_take map_snd_zip_take butlast_conv_take min_def)+

lemma matches_length: "length (filter (\<lambda>x. P (f x)) xs) = length (filter P (map f xs))"
  by (simp add: filter_map comp_def)

section \<open>The flow through nodes and links\<close>

lemma flow_ok_path:
  assumes "flow_ok metric stages ps" "(p, m) \<in> set ps"
  shows "map pn_kind p = stages" "list_all node_ok p" "whole (metricValue m metric)" "distinct (map pn_id p)" "p \<noteq> []"
  using assms path_ids_distinct [of p] by (auto simp: flow_ok_def list_all_iff)

lemma flow_bound: "flow_ok metric stages ps \<Longrightarrow> flow_of metric Q ps \<le> 2 ^ 53"
proof -
  assume "flow_ok metric stages ps"
  then have "flow_of metric (\<lambda>_. True) ps \<le> 2 ^ 53" by (simp only: flow_ok_def flow_of_def if_True)
  then show ?thesis using flow_of_le by (rule le_trans [rotated])
qed

lemma items_whole:
  assumes "flow_ok metric stages ps"
  shows "\<forall>x \<in> set (node_items ps). whole (item_weight metric x)" "\<forall>x \<in> set (link_items ps). whole (item_weight metric x)"
  using flow_ok_path(3) [OF assms] by (auto simp: node_items_def link_items_def item_weight_def)

lemma node_flow:
  assumes "flow_ok metric stages ps"
  shows "weight_at node_key (\<lambda>x. amount (item_weight metric x)) v (node_items ps) = flow_of metric (\<lambda>p. v \<in> pn_id ` set p) ps"
proof -
  have "weight_at node_key (\<lambda>x. amount (item_weight metric x)) v (node_items ps) =
      sum_list (map (\<lambda>(p, m). length (filter (\<lambda>n. pn_id n = v) p) * amount (metricValue m metric)) ps)"
    unfolding weight_at_def node_key_def by (rule node_items_sum)
  also have "\<dots> = flow_of metric (\<lambda>p. v \<in> pn_id ` set p) ps"
    unfolding flow_of_def using single_match flow_ok_path(4) [OF assms]
    by (intro arg_cong [of _ _ sum_list] map_cong refl) (auto simp: single_match)
  finally show ?thesis .
qed

lemma link_flow:
  assumes "flow_ok metric stages ps"
  shows "sum_list (map (\<lambda>x. amount (item_weight metric x)) (filter (\<lambda>x. pn_id (fst (fst x)) = v) (link_items ps))) =
      flow_of metric (\<lambda>p. v \<in> pn_id ` set (butlast p)) ps"
    "sum_list (map (\<lambda>x. amount (item_weight metric x)) (filter (\<lambda>x. pn_id (snd (fst x)) = v) (link_items ps))) =
      flow_of metric (\<lambda>p. v \<in> pn_id ` set (tl p)) ps"
proof -
  have distinct: "distinct (map pn_id (butlast p))" "distinct (map pn_id (tl p))" if "(p, m) \<in> set ps" for p m
    using flow_ok_path(4) [OF assms that] by (simp_all add: distinct_butlast distinct_tl map_butlast map_tl)
  have "length (filter (\<lambda>x. pn_id (fst x) = v) (path_links p)) = (if v \<in> pn_id ` set (butlast p) then 1 else 0)"
    "length (filter (\<lambda>x. pn_id (snd x) = v) (path_links p)) = (if v \<in> pn_id ` set (tl p) then 1 else 0)"
    if "(p, m) \<in> set ps" for p m
    using single_match [OF distinct(1) [OF that], of v] single_match [OF distinct(2) [OF that], of v]
    by (simp_all only: matches_length [of "\<lambda>n. pn_id n = v" fst "path_links p"]
        matches_length [of "\<lambda>n. pn_id n = v" snd "path_links p"] link_ends)
  then show "sum_list (map (\<lambda>x. amount (item_weight metric x)) (filter (\<lambda>x. pn_id (fst (fst x)) = v) (link_items ps))) =
      flow_of metric (\<lambda>p. v \<in> pn_id ` set (butlast p)) ps"
    "sum_list (map (\<lambda>x. amount (item_weight metric x)) (filter (\<lambda>x. pn_id (snd (fst x)) = v) (link_items ps))) =
      flow_of metric (\<lambda>p. v \<in> pn_id ` set (tl p)) ps"
    unfolding link_items_sum [of metric "\<lambda>x. pn_id (fst x) = v"] link_items_sum [of metric "\<lambda>x. pn_id (snd x) = v"] flow_of_def
    by (auto intro!: arg_cong [of _ _ sum_list] map_cong)
qed

text \<open>The entries of the two tables.\<close>

lemma node_entry:
  assumes "flow_ok metric stages ps" "n \<in> set (map snd (collect_nodes metric color ps))"
  shows "fn_value n = Fin (of_nat (flow_of metric (\<lambda>p. fn_id n \<in> pn_id ` set p) ps))"
    "\<exists>p m. (p, m) \<in> set ps \<and> (\<exists>x \<in> set p. pn_id x = fn_id n \<and> pn_kind x = fn_kind n)"
proof -
  obtain k where k: "map_of (collect_nodes metric color ps) k = Some n"
    using assms(2) accumulate_keys(2) unfolding collect_nodes_table by (fastforce intro: map_of_is_SomeI)
  note attr = accumulate_attr [where attr = "\<lambda>n. (fn_id n, fn_kind n)", OF _ k [unfolded collect_nodes_table]]
  obtain x where x: "x \<in> set (node_items ps)" "node_key x = k" "fn_id n = pn_id (fst x)" "fn_kind n = pn_kind (fst x)"
    using attr by (auto simp: count_node_def node_initial_def new_node_def)
  then have id: "k = fn_id n" by (simp add: node_key_def)
  show "\<exists>p m. (p, m) \<in> set ps \<and> (\<exists>x \<in> set p. pn_id x = fn_id n \<and> pn_kind x = fn_kind n)"
    using x by (fastforce simp: node_items_def)
  have "weight_at node_key (\<lambda>x. amount (item_weight metric x)) j (node_items ps) \<le> 2 ^ 53" for j
    unfolding node_flow [OF assms(1)] by (rule flow_bound [OF assms(1)])
  from node_table.number_exact [OF items_whole(1) [OF assms(1)] this k [unfolded collect_nodes_table]]
  show "fn_value n = Fin (of_nat (flow_of metric (\<lambda>p. fn_id n \<in> pn_id ` set p) ps))"
    unfolding node_flow [OF assms(1)] id .
qed

definition key_source :: "string \<Rightarrow> string" where
  "key_source k = takeWhile (\<lambda>c. c \<noteq> CHR 0x00) k"

definition key_target :: "string \<Rightarrow> string" where
  "key_target k = tl (dropWhile (\<lambda>c. c \<noteq> CHR 0x00) k)"

lemma key_parts:
  assumes "CHR 0x00 \<notin> set (pn_id a)" shows "key_source (pathLinkKey a b) = pn_id a" "key_target (pathLinkKey a b) = pn_id b"
proof -
  have "\<forall>c \<in> set (pn_id a). c \<noteq> CHR 0x00" using assms by auto
  then show "key_source (pathLinkKey a b) = pn_id a" "key_target (pathLinkKey a b) = pn_id b"
    by (simp_all add: key_source_def key_target_def pathLinkKey_def takeWhile_append2 dropWhile_append2)
qed

lemma link_item_parts:
  assumes "flow_ok metric stages ps" "x \<in> set (link_items ps)"
  shows "key_source (link_key x) = pn_id (fst (fst x))" "key_target (link_key x) = pn_id (snd (fst x))"
proof -
  obtain p m where p: "(p, m) \<in> set ps" "fst x \<in> set (path_links p)" using assms(2) by (auto simp: link_items_def)
  then have "fst (fst x) \<in> set p" by (cases "fst x") (auto simp: path_links_def dest: set_zip_leftD)
  with flow_ok_path(2) [OF assms(1) p(1)] have "CHR 0x00 \<notin> set (pn_id (fst (fst x)))"
    by (auto simp: list_all_iff node_ok_def)
  from key_parts [OF this] show "key_source (link_key x) = pn_id (fst (fst x))" "key_target (link_key x) = pn_id (snd (fst x))"
    by (simp_all add: link_key_def)
qed

lemma link_entry:
  assumes "flow_ok metric stages ps" "(k, l) \<in> set (collect_links metric color ps)"
  shows "lk_source l = key_source k" "lk_target l = key_target k"
proof -
  have k: "map_of (collect_links metric color ps) k = Some l"
    using assms(2) accumulate_keys(2) unfolding collect_links_table by (fastforce intro: map_of_is_SomeI)
  note attr = accumulate_attr [where attr = "\<lambda>l. (lk_source l, lk_target l)", OF _ k [unfolded collect_links_table]]
  obtain x where "x \<in> set (link_items ps)" "link_key x = k" "lk_source l = pn_id (fst (fst x))" "lk_target l = pn_id (snd (fst x))"
    using attr by (auto simp: count_link_def link_initial_def new_link_def)
  with link_item_parts [OF assms(1), of x] show "lk_source l = key_source k" "lk_target l = key_target k" by simp_all
qed

definition link_total :: "(flow_link \<Rightarrow> bool) \<Rightarrow> flow_link list \<Rightarrow> rat" where
  "link_total P links = sum_list (map (\<lambda>l. rv (lk_value l)) (filter P links))"

lemma link_bound:
  assumes "flow_ok metric stages ps"
  shows "weight_at link_key (\<lambda>x. amount (item_weight metric x)) k (link_items ps) \<le> 2 ^ 53"
proof -
  have sub: "sum_list (map f (filter P xs)) \<le> sum_list (map f (filter Q xs))"
    if "\<And>x. x \<in> set xs \<Longrightarrow> P x \<Longrightarrow> Q x" for f :: "'a \<Rightarrow> nat" and P Q xs
    using that by (induction xs) fastforce+
  have "weight_at link_key (\<lambda>x. amount (item_weight metric x)) k (link_items ps) \<le>
      sum_list (map (\<lambda>x. amount (item_weight metric x)) (filter (\<lambda>x. pn_id (fst (fst x)) = key_source k) (link_items ps)))"
    unfolding weight_at_def using link_item_parts(1) [OF assms] by (intro sub) auto
  also have "\<dots> \<le> 2 ^ 53" unfolding link_flow(1) [OF assms] by (rule flow_bound [OF assms])
  finally show ?thesis .
qed

lemma table_total:
  assumes "\<And>k v. (k, v) \<in> set t \<Longrightarrow> (P k \<longleftrightarrow> Q v) \<and> rv (number v) = of_nat (amount (number v))"
  shows "sum_list (map (\<lambda>v. rv (number v)) (filter Q (map snd t))) = of_nat (table_sum (\<lambda>v. amount (number v)) P t)"
  using assms
proof (induction t)
  case (Cons e t)
  obtain k v where "e = (k, v)" by (cases e)
  with Cons.prems [of k v] Cons.IH Cons.prems show ?case by (auto simp: table_sum_def)
qed (simp add: table_sum_def)

lemma link_totals:
  assumes "flow_ok metric stages ps"
  shows "link_total (\<lambda>l. lk_source l = v) (map snd (collect_links metric color ps)) =
      of_nat (flow_of metric (\<lambda>p. v \<in> pn_id ` set (butlast p)) ps)"
    "link_total (\<lambda>l. lk_target l = v) (map snd (collect_links metric color ps)) =
      of_nat (flow_of metric (\<lambda>p. v \<in> pn_id ` set (tl p)) ps)"
proof -
  let ?t = "collect_links metric color ps"
  note exact = items_whole(2) [OF assms] link_bound [OF assms]
  have entry: "lk_source l = key_source k \<and> lk_target l = key_target k \<and> rv (lk_value l) = of_nat (amount (lk_value l))"
    if "(k, l) \<in> set ?t" for k l
  proof -
    have "map_of ?t k = Some l"
      using that accumulate_keys(2) unfolding collect_links_table by (fastforce intro: map_of_is_SomeI)
    from link_table.number_exact [OF exact this [unfolded collect_links_table]]
    have "rv (lk_value l) = of_nat (amount (lk_value l))" by simp
    with link_entry [OF assms that] show ?thesis by simp
  qed
  have parts: "filter (\<lambda>x. key_source (link_key x) = v) (link_items ps) = filter (\<lambda>x. pn_id (fst (fst x)) = v) (link_items ps)"
    "filter (\<lambda>x. key_target (link_key x) = v) (link_items ps) = filter (\<lambda>x. pn_id (snd (fst x)) = v) (link_items ps)"
    using link_item_parts [OF assms] by (auto intro!: filter_cong)
  have "link_total (\<lambda>l. lk_source l = v) (map snd ?t) = of_nat (table_sum (\<lambda>l. amount (lk_value l)) (\<lambda>k. key_source k = v) ?t)"
    "link_total (\<lambda>l. lk_target l = v) (map snd ?t) = of_nat (table_sum (\<lambda>l. amount (lk_value l)) (\<lambda>k. key_target k = v) ?t)"
    unfolding link_total_def using entry by (auto intro!: table_total)
  then show "link_total (\<lambda>l. lk_source l = v) (map snd ?t) = of_nat (flow_of metric (\<lambda>p. v \<in> pn_id ` set (butlast p)) ps)"
    "link_total (\<lambda>l. lk_target l = v) (map snd ?t) = of_nat (flow_of metric (\<lambda>p. v \<in> pn_id ` set (tl p)) ps)"
    unfolding collect_links_table link_table.table_exact [OF exact] parts link_flow [OF assms] .
qed

lemma through_not_last:
  assumes "flow_ok metric stages ps" "(p, m) \<in> set ps" "node_ok x" "pn_kind x \<noteq> last stages"
  shows "pn_id x \<in> pn_id ` set p \<longleftrightarrow> pn_id x \<in> pn_id ` set (butlast p)"
proof -
  note p = flow_ok_path [OF assms(1,2)]
  have "pn_kind (last p) = last stages" "node_ok (last p)" using p by (auto simp: last_map list_all_iff)
  then have "pn_id x \<noteq> pn_id (last p)" using id_determines_kind [OF assms(3)] assms(4) by metis
  moreover have "set p = insert (last p) (set (butlast p))"
    using append_butlast_last_id [OF p(5)] by (metis list.set(2) rotate1.simps(2) set_rotate1 append_Cons append_Nil)
  ultimately show ?thesis by auto
qed

lemma through_not_first:
  assumes "flow_ok metric stages ps" "(p, m) \<in> set ps" "node_ok x" "pn_kind x \<noteq> hd stages"
  shows "pn_id x \<in> pn_id ` set p \<longleftrightarrow> pn_id x \<in> pn_id ` set (tl p)"
proof -
  note p = flow_ok_path [OF assms(1,2)]
  have "pn_kind (hd p) = hd stages" "node_ok (hd p)" using p by (auto simp: hd_map list_all_iff)
  then have "pn_id x \<noteq> pn_id (hd p)" using id_determines_kind [OF assms(3)] assms(4) by metis
  moreover have "set p = insert (hd p) (set (tl p))" using p(5) by (cases p) auto
  ultimately show ?thesis by auto
qed

text \<open>What flows into a node flows out of it.\<close>

lemma conserved:
  assumes "flow_ok metric stages ps" "n \<in> set (map snd (collect_nodes metric color ps))"
  shows "fn_kind n \<noteq> last stages \<Longrightarrow> rv (fn_value n) = link_total (\<lambda>l. lk_source l = fn_id n) (map snd (collect_links metric color' ps))"
    "fn_kind n \<noteq> hd stages \<Longrightarrow> rv (fn_value n) = link_total (\<lambda>l. lk_target l = fn_id n) (map snd (collect_links metric color' ps))"
proof -
  obtain q m x where x: "(q, m) \<in> set ps" "x \<in> set q" "pn_id x = fn_id n" "pn_kind x = fn_kind n"
    using node_entry(2) [OF assms] by blast
  then have ok: "node_ok x" using flow_ok_path(2) [OF assms(1)] by (auto simp: list_all_iff)
  note val = node_entry(1) [OF assms] and total = link_totals [OF assms(1), of "fn_id n" color']
  show "rv (fn_value n) = link_total (\<lambda>l. lk_source l = fn_id n) (map snd (collect_links metric color' ps))" if "fn_kind n \<noteq> last stages"
    unfolding val total using through_not_last [OF assms(1) _ ok] that x
    by (auto intro!: arg_cong [of _ _ rat_of_nat] flow_of_cong)
  show "rv (fn_value n) = link_total (\<lambda>l. lk_target l = fn_id n) (map snd (collect_links metric color' ps))" if "fn_kind n \<noteq> hd stages"
    unfolding val total using through_not_first [OF assms(1) _ ok] that x
    by (auto intro!: arg_cong [of _ _ rat_of_nat] flow_of_cong)
qed

section \<open>The rows of the chart\<close>

lemma prefix_unique:
  "js_starts_with s (flow_kind_name a @ '':'') \<Longrightarrow> js_starts_with s (flow_kind_name b @ '':'') \<Longrightarrow> a = b"
  by (cases a; cases b) (auto simp: js_starts_with_iff flow_kind_name_def)

lemma node_prefix:
  assumes "node_ok n" shows "js_starts_with (pn_id n) (flow_kind_name k @ '':'') \<longleftrightarrow> pn_kind n = k"
  using assms prefix_unique by (auto simp: node_ok_def)

definition node_total :: "(flow_node \<Rightarrow> bool) \<Rightarrow> flow_node list \<Rightarrow> rat" where
  "node_total P nodes = sum_list (map (\<lambda>n. rv (fn_value n)) (filter P nodes))"

lemma node_bound:
  assumes "flow_ok metric stages ps"
  shows "weight_at node_key (\<lambda>x. amount (item_weight metric x)) j (node_items ps) \<le> 2 ^ 53"
  unfolding node_flow [OF assms] by (rule flow_bound [OF assms])

lemma node_key_entry:
  assumes "flow_ok metric stages ps" "(k, n) \<in> set (collect_nodes metric color ps)"
  shows "js_starts_with k (flow_kind_name j @ '':'') \<longleftrightarrow> fn_kind n = j"
proof -
  have "map_of (collect_nodes metric color ps) k = Some n"
    using assms(2) accumulate_keys(2) unfolding collect_nodes_table by (fastforce intro: map_of_is_SomeI)
  note attr = accumulate_attr [where attr = fn_kind, OF _ this [unfolded collect_nodes_table]]
  obtain x where x: "x \<in> set (node_items ps)" "node_key x = k" "fn_kind n = pn_kind (fst x)"
    using attr by (auto simp: count_node_def node_initial_def new_node_def)
  then have "node_ok (fst x)" using flow_ok_path(2) [OF assms(1)] by (auto simp: node_items_def list_all_iff)
  with x node_prefix [of "fst x" j] show ?thesis by (simp add: node_key_def)
qed

lemma first_stage_total:
  assumes "flow_ok metric stages ps"
  shows "node_total (\<lambda>n. fn_kind n = hd stages) (map snd (collect_nodes metric color ps)) = of_nat (flow_of metric (\<lambda>_. True) ps)"
proof -
  let ?t = "collect_nodes metric color ps" and ?P = "\<lambda>k. js_starts_with k (flow_kind_name (hd stages) @ '':'')"
  have val: "rv (fn_value n) = of_nat (amount (fn_value n))" if "(k, n) \<in> set ?t" for k n
  proof -
    have "n \<in> set (map snd ?t)" using that by force
    from node_entry(1) [OF assms this] show ?thesis by simp
  qed
  have single: "length (filter (\<lambda>n. ?P (pn_id n)) p) = 1" if "(p, m) \<in> set ps" for p m
  proof -
    note p = flow_ok_path [OF assms that]
    have "filter (\<lambda>n. ?P (pn_id n)) p = filter (\<lambda>n. pn_kind n = hd stages) p"
      using p(2) by (auto intro!: filter_cong simp: list_all_iff node_prefix)
    moreover have "distinct (map pn_kind p)" "hd stages \<in> pn_kind ` set p"
      using assms p by (auto simp: flow_ok_def hd_map)
    ultimately show ?thesis using single_match [of pn_kind p "hd stages"] by simp
  qed
  have "node_total (\<lambda>n. fn_kind n = hd stages) (map snd ?t) = of_nat (table_sum (\<lambda>n. amount (fn_value n)) ?P ?t)"
    unfolding node_total_def using node_key_entry [OF assms] val by (intro table_total) simp
  also have "table_sum (\<lambda>n. amount (fn_value n)) ?P ?t =
      sum_list (map (\<lambda>x. amount (item_weight metric x)) (filter (\<lambda>x. ?P (node_key x)) (node_items ps)))"
    unfolding collect_nodes_table by (rule node_table.table_exact [OF items_whole(1) [OF assms] node_bound [OF assms]])
  also have "\<dots> = flow_of metric (\<lambda>_. True) ps"
    unfolding node_key_def node_items_sum [of metric "\<lambda>n. ?P (pn_id n)"] flow_of_def
    using single by (intro arg_cong [of _ _ sum_list] map_cong refl) auto
  finally show ?thesis .
qed

definition rows_ok :: "flow_metric \<Rightarrow> flow_kind list \<Rightarrow> flow_ctx \<Rightarrow> flow_row list \<Rightarrow> bool" where
  "rows_ok metric stages ctx rows \<longleftrightarrow>
     list_all (\<lambda>row. whole (metricValue (rowMetrics row) metric) \<and>
       list_all (\<lambda>n. CHR 0x00 \<notin> set (pn_id n)) (flowPathForStages row stages ctx)) rows \<and>
     sum_list (map (\<lambda>row. amount (metricValue (rowMetrics row) metric)) rows) \<le> 2 ^ 53"

lemma builder_kind: "pn_kind (NODE_BUILDERS k row ctx) = k" "js_starts_with (pn_id (NODE_BUILDERS k row ctx)) (flow_kind_name k @ '':'')"
  by (cases k; simp add: NODE_BUILDERS_def userNode_def nodeNameNode_def tokenNode_def groupNode_def modelNode_def
      channelNode_def flow_kind_name_def Let_def)+

lemma stages_ok: "distinct (resolveVisibleStages role visible)" "length (resolveVisibleStages role visible) \<ge> 2"
  by (cases role; simp add: resolveVisibleStages_def getFlowStages_def MIN_FLOW_STAGES_def Let_def split: option.split)+

lemma other_node: "node_ok (otherFlowNode k labeler)" "pn_kind (otherFlowNode k labeler) = k"
  by (cases k; simp add: node_ok_def otherFlowNode_def OTHER_FLOW_NODE_IDS_def flow_kind_name_def)+

lemma limited_path:
  assumes "applyTopNodeLimit p sets mode labeler = Some q" "list_all node_ok p"
  shows "map pn_kind q = map pn_kind p" "list_all node_ok q"
  using assms by (auto simp: applyTopNodeLimit_def list_all_iff other_node split: if_splits)

lemma map_filter_sum_le:
  "(\<And>x y. f x = Some y \<Longrightarrow> g y = (w x :: nat)) \<Longrightarrow> sum_list (map g (List.map_filter f xs)) \<le> sum_list (map w xs)"
  by (induction xs) (auto simp: map_filter_simps split: option.split intro: add_le_mono trans_le_add2)

lemma prepared_ok:
  assumes "rows_ok metric stages ctx rows" "stages = resolveVisibleStages role visible"
  shows "flow_ok metric stages (prepare_paths env rows metric stages ctx opts)"
proof -
  let ?sets = "buildTopNodeSets env rows metric stages (normalizeTopNodeLimit (go_topNodeLimit opts)) ctx"
  let ?f = "\<lambda>row. map_option (\<lambda>path. (path, rowMetrics row))
      (applyTopNodeLimit (flowPathForStages row stages ctx) ?sets (coalesce (go_overflowMode opts) Aggregate) (go_otherNodeLabel opts))"
  have ps: "prepare_paths env rows metric stages ctx opts = List.map_filter ?f rows" by (simp add: prepare_paths_def)
  have "map pn_kind p = stages \<and> list_all node_ok p \<and> whole (metricValue m metric)"
    if "row \<in> set rows" "?f row = Some (p, m)" for row p m
  proof -
    have "list_all node_ok (flowPathForStages row stages ctx)" "whole (metricValue (rowMetrics row) metric)"
      using assms(1) that(1) by (auto simp: rows_ok_def list_all_iff flowPathForStages_def node_ok_def builder_kind)
    moreover have "map pn_kind (flowPathForStages row stages ctx) = stages"
      by (simp add: flowPathForStages_def comp_def builder_kind)
    ultimately show ?thesis using that(2) limited_path by auto
  qed
  moreover have "sum_list (map (\<lambda>(p, m). amount (metricValue m metric)) (List.map_filter ?f rows)) \<le>
      sum_list (map (\<lambda>row. amount (metricValue (rowMetrics row) metric)) rows)"
    by (rule map_filter_sum_le) auto
  ultimately show ?thesis using assms stages_ok [of role visible]
    unfolding flow_ok_def ps by (fastforce simp: rows_ok_def list_all_iff map_filter_def)
qed

lemma summary_exact:
  assumes "rows_ok metric stages ctx rows"
  shows "metricValue (buildSummary rows) metric = Fin (of_nat (sum_list (map (\<lambda>row. amount (metricValue (rowMetrics row) metric)) rows)))"
proof -
  let ?w = "\<lambda>row. amount (metricValue (rowMetrics row) metric)"
  let ?step = "\<lambda>row s. let m = rowMetrics row
        in \<lparr>fm_quota = js_add (fm_quota s) (fm_quota m), fm_tokens = js_add (fm_tokens s) (fm_tokens m),
            fm_requests = js_add (fm_requests s) (fm_requests m)\<rparr>"
  have step: "metricValue (?step row s) metric = js_add (metricValue s metric) (metricValue (rowMetrics row) metric)" for row s
    by (cases metric) (simp_all add: metricValue_def Let_def)
  have "metricValue (fold ?step rows s) metric = Fin (of_nat (n + sum_list (map ?w rows)))"
    if "metricValue s metric = Fin (of_nat n)" "n + sum_list (map ?w rows) \<le> 2 ^ 53"
      "\<forall>row \<in> set rows. whole (metricValue (rowMetrics row) metric)" for s n rows
    using that
  proof (induction rows arbitrary: s n)
    case (Cons row rows)
    have "n + ?w row \<le> 2 ^ 53" using Cons.prems(2) by (rule le_trans [rotated]) simp
    then have "metricValue (?step row s) metric = Fin (of_nat (n + ?w row))"
      unfolding step Cons.prems(1) using Cons.prems(3) by (intro js_add_whole) simp_all
    from Cons.IH [OF this] Cons.prems(2,3) show ?case by (simp add: add.assoc)
  qed simp
  from this [of "\<lparr>fm_quota = Fin 0, fm_tokens = Fin 0, fm_requests = Fin 0\<rparr>" 0 rows]
  show ?thesis using assms by (cases metric) (simp_all add: buildSummary_def rows_ok_def list_all_iff metricValue_def)
qed

section \<open>The graph shows the two tables\<close>

definition node_view :: "flow_node \<Rightarrow> string \<times> flow_kind \<times> jsnum" where
  "node_view n = (fn_id n, fn_kind n, fn_value n)"

definition link_view :: "flow_link \<Rightarrow> string \<times> string \<times> jsnum" where
  "link_view l = (lk_source l, lk_target l, lk_value l)"

lemma views_kept:
  "node_view (highlight_node sets n) = node_view n" "node_view (mask_node env n) = node_view n"
  "link_view (highlight_link sets l) = link_view l" "link_view (mask_link ms l) = link_view l"
  "link_view (link_share t l) = link_view l"
  "link_view (l\<lparr>lk_linkColor := c, lk_linkAlpha := a, lk_hoverColor := h\<rparr>) = link_view l"
  by (auto simp: node_view_def link_view_def highlight_node_def highlight_link_def mask_node_def mask_link_def link_share_def
      split: option.split prod.split)

lemma views_mapped:
  "map node_view (fst (if b then maskFlowGraphLabels env (nodes, links) else (nodes, links))) = map node_view nodes"
  "map link_view (snd (if b then maskFlowGraphLabels env (nodes, links) else (nodes, links))) = map link_view links"
  "map link_view (assignLinkDisplayColors env links) = map link_view links"
  by (simp_all add: maskFlowGraphLabels_def assignLinkDisplayColors_def Let_def comp_def views_kept)

lemma views_shown:
  "mset (map node_view (sort_key k (map (highlight_node sets) nodes))) = mset (map node_view nodes)"
  "mset (map link_view (assignLinkDisplayColors env (map (link_share t) (sort_key j (map (highlight_link sets) links))))) =
     mset (map link_view links)"
proof -
  show "mset (map node_view (sort_key k (map (highlight_node sets) nodes))) = mset (map node_view nodes)"
    by (simp add: image_mset.compositionality comp_def views_kept)
  have "map link_view (map (link_share t) xs) = map link_view xs" for xs by (simp add: views_kept)
  then show "mset (map link_view (assignLinkDisplayColors env (map (link_share t) (sort_key j (map (highlight_link sets) links))))) =
     mset (map link_view links)"
    unfolding views_mapped by (simp add: image_mset.compositionality comp_def views_kept)
qed

definition graph_color :: "flow_env \<Rightarrow> string list option \<Rightarrow> prepared list \<Rightarrow> string \<Rightarrow> string" where
  "graph_color env palette ps = root_color env (stableColorMap env (sort_key (fe_collate env) (path_roots ps)) palette) palette"

lemma graph_views:
  assumes "stages = resolveVisibleStages role visible" "ps = prepare_paths env rows metric stages ctx opts"
  shows "mset (map node_view (fg_nodes (buildFlowGraph env rows metric role palette visible ctx opts))) =
      mset (map node_view (map snd (collect_nodes metric (graph_color env palette ps) ps)))"
    "mset (map link_view (fg_links (buildFlowGraph env rows metric role palette visible ctx opts))) =
      mset (map link_view (map snd (collect_links metric (graph_color env palette ps) ps)))"
  unfolding buildFlowGraph_def Let_def assms [symmetric] graph_color_def
  by (simp_all only: flow_graph.simps views_shown views_mapped(1,2))

text \<open>Totals depend on what is shown only.\<close>

lemma sum_filter_mset: "sum_list (map f (filter P xs)) = (\<Sum>x \<in># filter_mset P (mset xs). f x)" for f :: "'a \<Rightarrow> rat"
  by (simp flip: mset_filter mset_map add: sum_mset_sum_list)

lemma totals_by_view:
  "mset (map link_view ls) = mset (map link_view ks) \<Longrightarrow> link_total (\<lambda>l. P (lk_source l) (lk_target l)) ls = link_total (\<lambda>l. P (lk_source l) (lk_target l)) ks"
  "mset (map node_view ns) = mset (map node_view ms) \<Longrightarrow> node_total (\<lambda>n. Q (fn_id n) (fn_kind n)) ns = node_total (\<lambda>n. Q (fn_id n) (fn_kind n)) ms"
proof -
  have "link_total (\<lambda>l. P (lk_source l) (lk_target l)) ls =
      sum_list (map (\<lambda>(s, t, x). rv x) (filter (\<lambda>(s, t, x). P s t) (map link_view ls)))" for ls
    by (simp add: link_total_def filter_map comp_def link_view_def)
  then show "mset (map link_view ls) = mset (map link_view ks) \<Longrightarrow>
      link_total (\<lambda>l. P (lk_source l) (lk_target l)) ls = link_total (\<lambda>l. P (lk_source l) (lk_target l)) ks"
    by (simp only: sum_filter_mset)
  have "node_total (\<lambda>n. Q (fn_id n) (fn_kind n)) ns =
      sum_list (map (\<lambda>(i, k, x). rv x) (filter (\<lambda>(i, k, x). Q i k) (map node_view ns)))" for ns
    by (simp add: node_total_def filter_map comp_def node_view_def)
  then show "mset (map node_view ns) = mset (map node_view ms) \<Longrightarrow>
      node_total (\<lambda>n. Q (fn_id n) (fn_kind n)) ns = node_total (\<lambda>n. Q (fn_id n) (fn_kind n)) ms"
    by (simp only: sum_filter_mset)
qed

section \<open>Masking and the limit\<close>

lemma prepared_path:
  assumes "(p, m) \<in> set (prepare_paths env rows metric stages ctx opts)" "x \<in> set p"
  shows "js_starts_with (pn_id x) (flow_kind_name (pn_kind x) @ '':'')" "pn_kind x \<in> set stages"
    "isTopFlowNode x (buildTopNodeSets env rows metric stages (normalizeTopNodeLimit (go_topNodeLimit opts)) ctx) \<or>
     pn_id x = OTHER_FLOW_NODE_IDS (pn_kind x)"
proof -
  let ?sets = "buildTopNodeSets env rows metric stages (normalizeTopNodeLimit (go_topNodeLimit opts)) ctx"
  obtain row where p: "applyTopNodeLimit (flowPathForStages row stages ctx) ?sets (coalesce (go_overflowMode opts) Aggregate)
      (go_otherNodeLabel opts) = Some p"
    using assms(1) by (auto simp: prepare_paths_def map_filter_def Let_def)
  have other: "js_starts_with (OTHER_FLOW_NODE_IDS k) (flow_kind_name k @ '':'')" for k
    by (simp add: OTHER_FLOW_NODE_IDS_def js_starts_with_iff)
  show "js_starts_with (pn_id x) (flow_kind_name (pn_kind x) @ '':'')" "pn_kind x \<in> set stages"
    "isTopFlowNode x ?sets \<or> pn_id x = OTHER_FLOW_NODE_IDS (pn_kind x)"
    using p assms(2) other
    by (auto simp: applyTopNodeLimit_def flowPathForStages_def builder_kind other_node list_ex_iff isTopFlowNode_def [of _ None]
        otherFlowNode_def [of _ "go_otherNodeLabel opts"] split: if_splits)
qed

lemma node_source:
  assumes "n \<in> set (map snd (collect_nodes metric color ps))"
  shows "\<exists>p m x. (p, m) \<in> set ps \<and> x \<in> set p \<and> pn_id x = fn_id n \<and> pn_kind x = fn_kind n"
proof -
  obtain k where "map_of (collect_nodes metric color ps) k = Some n"
    using assms accumulate_keys(2) unfolding collect_nodes_table by (fastforce intro: map_of_is_SomeI)
  note attr = accumulate_attr [where attr = "\<lambda>n. (fn_id n, fn_kind n)", OF _ this [unfolded collect_nodes_table]]
  obtain x where x: "x \<in> set (node_items ps)" "fn_id n = pn_id (fst x)" "fn_kind n = pn_kind (fst x)"
    using attr by (auto simp: count_node_def node_initial_def new_node_def)
  then show ?thesis by (fastforce simp: node_items_def)
qed

lemma node_exists:
  assumes "(p, m) \<in> set ps" "x \<in> set p"
  shows "\<exists>n \<in> set (map snd (collect_nodes metric color ps)). fn_id n = pn_id x"
proof -
  have "pn_id x \<in> node_key ` set (node_items ps)" using assms by (force simp: node_items_def node_key_def)
  then have "pn_id x \<in> fst ` set (collect_nodes metric color ps)" unfolding collect_nodes_table accumulate_keys(1) .
  then obtain n where n: "(pn_id x, n) \<in> set (collect_nodes metric color ps)" by auto
  then have "map_of (collect_nodes metric color ps) (pn_id x) = Some n"
    using accumulate_keys(2) unfolding collect_nodes_table by (fastforce intro: map_of_is_SomeI)
  note attr = accumulate_attr [where attr = fn_id, OF _ this [unfolded collect_nodes_table]]
  have "fn_id n = pn_id x" using attr by (auto simp: count_node_def node_initial_def new_node_def node_key_def)
  with n show ?thesis by force
qed

lemma link_ends_are_nodes:
  assumes "l \<in> set (map snd (collect_links metric color ps))"
  shows "\<exists>n \<in> set (map snd (collect_nodes metric color' ps)). fn_id n = lk_source l"
    "\<exists>n \<in> set (map snd (collect_nodes metric color' ps)). fn_id n = lk_target l"
proof -
  obtain k where "map_of (collect_links metric color ps) k = Some l"
    using assms accumulate_keys(2) unfolding collect_links_table by (fastforce intro: map_of_is_SomeI)
  note attr = accumulate_attr [where attr = "\<lambda>l. (lk_source l, lk_target l)", OF _ this [unfolded collect_links_table]]
  obtain x where x: "x \<in> set (link_items ps)" "lk_source l = pn_id (fst (fst x))" "lk_target l = pn_id (snd (fst x))"
    using attr by (auto simp: count_link_def link_initial_def new_link_def)
  then obtain p m where p: "(p, m) \<in> set ps" "fst x \<in> set (path_links p)" by (auto simp: link_items_def)
  then have "(fst (fst x), snd (fst x)) \<in> set (zip p (tl p))" by (simp add: path_links_def)
  from set_zip_leftD [OF this] set_zip_rightD [OF this] have "fst (fst x) \<in> set p" "snd (fst x) \<in> set p"
    by (cases p; simp)+
  from this [THEN node_exists [OF p(1)]]
  show "\<exists>n \<in> set (map snd (collect_nodes metric color' ps)). fn_id n = lk_source l"
    "\<exists>n \<in> set (map snd (collect_nodes metric color' ps)). fn_id n = lk_target l" unfolding x(2,3) by blast+
qed

lemma distinct_node_ids: "distinct (map fn_id (map snd (collect_nodes metric color ps)))"
proof -
  have "fn_id n = k" if "(k, n) \<in> set (collect_nodes metric color ps)" for k n
  proof -
    have "map_of (collect_nodes metric color ps) k = Some n"
      using that accumulate_keys(2) unfolding collect_nodes_table by (fastforce intro: map_of_is_SomeI)
    from accumulate_attr [where attr = fn_id, OF _ this [unfolded collect_nodes_table]]
    show ?thesis by (auto simp: count_node_def node_initial_def new_node_def node_key_def)
  qed
  then have "map fn_id (map snd (collect_nodes metric color ps)) = map fst (collect_nodes metric color ps)" by auto
  then show ?thesis unfolding collect_nodes_table by (simp only: accumulate_keys(2))
qed

lemma top_set_size:
  assumes "buildTopNodeSets env rows metric stages (Some limit) ctx = Some sets" "k \<in> set stages"
  shows "\<exists>ids. map_of sets k = Some ids \<and> length ids \<le> limit"
  using assms by (auto simp: buildTopNodeSets_def map_of_map_restrict comp_def)

text \<open>Masking changes nothing but labels: it commutes with whatever is done to the links afterwards.\<close>

lemma mask_link_kept [simp]:
  "lk_source (mask_link m l) = lk_source l" "lk_target (mask_link m l) = lk_target l" "lk_value (mask_link m l) = lk_value l"
  "lk_color (mask_link m l) = lk_color l" "linkStableKey (mask_link m l) = linkStableKey l"
  by (simp_all add: mask_link_def linkStableKey_def)

lemma mask_link_commutes:
  "highlight_link sets (mask_link m l) = mask_link m (highlight_link sets l)"
  "link_share t (mask_link m l) = mask_link m (link_share t l)"
  "(mask_link m l)\<lparr>lk_linkColor := c, lk_linkAlpha := a, lk_hoverColor := h\<rparr> = mask_link m (l\<lparr>lk_linkColor := c, lk_linkAlpha := a, lk_hoverColor := h\<rparr>)"
  by (simp_all add: mask_link_def highlight_link_def link_share_def linkStableKey_def split: option.split prod.split)

lemma first_total_mask: "first_total sources (map (mask_link m) ls) = first_total sources ls"
  by (simp add: first_total_def filter_map comp_def fold_map)

lemma assign_colors_mask: "assignLinkDisplayColors env (map (mask_link m) ls) = map (mask_link m) (assignLinkDisplayColors env ls)"
  by (simp add: assignLinkDisplayColors_def filter_map comp_def sort_key_map find_index_map Let_def mask_link_commutes)

lemma sort_links_mask:
  "sort_key (\<lambda>l. (c (lk_source l), c (lk_target l))) (map (mask_link m) ls) =
   map (mask_link m) (sort_key (\<lambda>l. (c (lk_source l), c (lk_target l))) ls)" for c :: "string \<Rightarrow> rat"
  by (simp add: sort_key_map)

lemma unmasked_options:
  "go_maskSensitive (opts\<lparr>go_maskSensitive := False\<rparr>) = False" "go_activeNode (opts\<lparr>go_maskSensitive := False\<rparr>) = go_activeNode opts"
  "go_activeLink (opts\<lparr>go_maskSensitive := False\<rparr>) = go_activeLink opts"
  "prepare_paths env rows metric stages ctx (opts\<lparr>go_maskSensitive := False\<rparr>) = prepare_paths env rows metric stages ctx opts"
  by (simp_all add: prepare_paths_def)

lemma masked_links:
  assumes "go_maskSensitive opts" "ps = prepare_paths env rows metric (resolveVisibleStages role visible) ctx opts"
  shows "fg_links (buildFlowGraph env rows metric role palette visible ctx opts) =
    map (mask_link (maskedById env (map snd (collect_nodes metric (graph_color env palette ps) ps))))
      (fg_links (buildFlowGraph env rows metric role palette visible ctx (opts\<lparr>go_maskSensitive := False\<rparr>)))"
proof -
  have hl: "map (highlight_link sets) (map (mask_link m) ls) = map (mask_link m) (map (highlight_link sets) ls)"
    "map (link_share t) (map (mask_link m) ls) = map (mask_link m) (map (link_share t) ls)" for sets m ls t
    by (simp_all add: comp_def mask_link_commutes)
  show ?thesis
    unfolding buildFlowGraph_def Let_def unmasked_options assms(2) [symmetric] graph_color_def [symmetric]
    using assms(1) by (simp only: flow_graph.simps maskFlowGraphLabels_def if_True fst_conv snd_conv hl sort_links_mask
        first_total_mask assign_colors_mask if_False)
qed

lemma mask_node_highlight: "highlight_node sets (mask_node env n) = mask_node env (highlight_node sets n)"
proof -
  have "must_mask (highlight_node sets n) = must_mask n" by (simp add: highlight_node_def must_mask_def split: option.split prod.split)
  then show ?thesis by (cases "must_mask n") (simp_all add: mask_node_def highlight_node_def split: option.split prod.split)
qed

lemma masked_nodes:
  assumes "go_maskSensitive opts"
  shows "mset (fg_nodes (buildFlowGraph env rows metric role palette visible ctx opts)) =
    mset (map (mask_node env) (fg_nodes (buildFlowGraph env rows metric role palette visible ctx (opts\<lparr>go_maskSensitive := False\<rparr>))))"
proof -
  have hl: "map (highlight_node sets) (map (mask_node env) ns) = map (mask_node env) (map (highlight_node sets) ns)" for sets ns
    by (simp add: comp_def mask_node_highlight)
  show ?thesis unfolding buildFlowGraph_def Let_def unmasked_options
    using assms by (simp only: flow_graph.simps maskFlowGraphLabels_def if_True fst_conv snd_conv hl mset_sort mset_map if_False)
qed

text \<open>Hidden or not, the rows that are shown.\<close>

definition row_shown :: "flow_env \<Rightarrow> flow_row list \<Rightarrow> flow_metric \<Rightarrow> flow_kind list \<Rightarrow> flow_ctx \<Rightarrow> graph_options \<Rightarrow> flow_row \<Rightarrow> bool" where
  "row_shown env rows metric stages ctx opts row \<longleftrightarrow> go_overflowMode opts \<noteq> Some Hide \<or>
     list_all (\<lambda>n. isTopFlowNode n (buildTopNodeSets env rows metric stages (normalizeTopNodeLimit (go_topNodeLimit opts)) ctx))
       (flowPathForStages row stages ctx)"

lemma shown_total:
  "flow_of metric (\<lambda>_. True) (prepare_paths env rows metric stages ctx opts) =
    sum_list (map (\<lambda>row. amount (metricValue (rowMetrics row) metric)) (filter (row_shown env rows metric stages ctx opts) rows))"
proof -
  let ?sets = "buildTopNodeSets env rows metric stages (normalizeTopNodeLimit (go_topNodeLimit opts)) ctx"
  let ?f = "\<lambda>row. applyTopNodeLimit (flowPathForStages row stages ctx) ?sets (coalesce (go_overflowMode opts) Aggregate) (go_otherNodeLabel opts)"
  have shown: "row_shown env rows metric stages ctx opts row \<longleftrightarrow> (\<exists>p. ?f row = Some p)" for row
  proof -
    have "coalesce (go_overflowMode opts) Aggregate = Hide \<longleftrightarrow> go_overflowMode opts = Some Hide" by (cases "go_overflowMode opts") auto
    moreover have "?sets = None \<Longrightarrow> list_all (\<lambda>n. isTopFlowNode n ?sets) p" for p by (simp add: isTopFlowNode_def list_all_iff)
    ultimately show ?thesis by (auto simp: row_shown_def applyTopNodeLimit_def list_ex_iff list_all_iff)
  qed
  have "flow_of metric (\<lambda>_. True) (List.map_filter (\<lambda>row. map_option (\<lambda>p. (p, rowMetrics row)) (f row)) xs) =
      sum_list (map (\<lambda>row. amount (metricValue (rowMetrics row) metric)) (filter P xs))"
    if "\<And>x. P x \<longleftrightarrow> (\<exists>p. f x = Some (p :: flow_path))" for f P xs
    using that by (induction xs) (auto simp: map_filter_simps flow_of_def split: option.split)
  from this [OF shown] show ?thesis by (simp add: prepare_paths_def Let_def)
qed

end
