(* ===== verification/Flow_Properties.thy ===== *)
theory Flow_Properties
  imports Flow_Facts
begin

text \<open>The properties of the flow chart, with their witnesses.\<close>

text \<open>C25. Flow is conserved: the value of a node is the sum of the links that leave it, unless it is of the last visible stage,
  and of those that enter it, unless it is of the first.  The nodes of the first stage add up to the amounts of the rows that are
  shown; these are all rows, and the sum is the total of the summary, unless overflow is hidden, when they are the rows whose
  path has no node beyond the limit.  It is assumed that the amounts are whole numbers with a total of at most \<open>2^53\<close>, and that no
  identifier holds the separator of link keys, the character 0.\<close>

theorem flow_conserved:
  assumes "rows_ok metric stages ctx rows" "stages = resolveVisibleStages role visible"
    and "g = buildFlowGraph env rows metric role palette visible ctx opts"
  shows "list_all (\<lambda>n. (fn_kind n = last stages \<or> rv (fn_value n) = link_total (\<lambda>l. lk_source l = fn_id n) (fg_links g)) \<and>
      (fn_kind n = hd stages \<or> rv (fn_value n) = link_total (\<lambda>l. lk_target l = fn_id n) (fg_links g))) (fg_nodes g) \<and>
    node_total (\<lambda>n. fn_kind n = hd stages) (fg_nodes g) =
      of_nat (sum_list (map (\<lambda>row. amount (metricValue (rowMetrics row) metric)) (filter (row_shown env rows metric stages ctx opts) rows))) \<and>
    (go_overflowMode opts = Some Hide \<or>
     node_total (\<lambda>n. fn_kind n = hd stages) (fg_nodes g) = rv (metricValue (buildSummary rows) metric))"
proof -
  let ?ps = "prepare_paths env rows metric stages ctx opts" and ?c = "graph_color env palette (prepare_paths env rows metric stages ctx opts)"
  note ok = prepared_ok [OF assms(1,2), of env opts]
  note views = graph_views [OF assms(2) refl, where env = env and rows = rows and metric = metric and ctx = ctx and opts = opts and palette = palette, folded assms(3)]
  have links: "link_total (\<lambda>l. lk_source l = v) (fg_links g) = link_total (\<lambda>l. lk_source l = v) (map snd (collect_links metric ?c ?ps))"
    "link_total (\<lambda>l. lk_target l = v) (fg_links g) = link_total (\<lambda>l. lk_target l = v) (map snd (collect_links metric ?c ?ps))" for v
    using totals_by_view(1) [OF views(2), of "\<lambda>s t. s = v"] totals_by_view(1) [OF views(2), of "\<lambda>s t. t = v"] by simp_all
  have "(fn_kind n = last stages \<or> rv (fn_value n) = link_total (\<lambda>l. lk_source l = fn_id n) (fg_links g)) \<and>
      (fn_kind n = hd stages \<or> rv (fn_value n) = link_total (\<lambda>l. lk_target l = fn_id n) (fg_links g))" if n: "n \<in> set (fg_nodes g)" for n
  proof -
    have "node_view n \<in> set (map node_view (map snd (collect_nodes metric ?c ?ps)))"
      using n mset_eq_setD [OF views(1)] by auto
    then obtain k where "k \<in> set (map snd (collect_nodes metric ?c ?ps))" "node_view k = node_view n"
      unfolding list.set_map [of node_view] by (metis imageE)
    with conserved [OF ok this(1)] show ?thesis unfolding links by (auto simp: node_view_def)
  qed
  moreover have first: "node_total (\<lambda>n. fn_kind n = hd stages) (fg_nodes g) =
      of_nat (sum_list (map (\<lambda>row. amount (metricValue (rowMetrics row) metric)) (filter (row_shown env rows metric stages ctx opts) rows)))"
    using totals_by_view(2) [OF views(1), of "\<lambda>i k. k = hd stages"] first_stage_total [OF ok] shown_total by simp
  moreover have "filter (row_shown env rows metric stages ctx opts) rows = rows" if "go_overflowMode opts \<noteq> Some Hide"
    using that by (simp add: row_shown_def)
  then have "node_total (\<lambda>n. fn_kind n = hd stages) (fg_nodes g) = rv (metricValue (buildSummary rows) metric)"
    if "go_overflowMode opts \<noteq> Some Hide" using that by (simp add: first summary_exact [OF assms(1)])
  ultimately show ?thesis by (auto simp: list_all_iff)
qed

text \<open>What a masked chart must not name: users, servers, tokens, groups and channels, but not the nodes that stand for all others.
  Models are public.\<close>

definition is_private :: "string \<Rightarrow> bool" where
  "is_private i \<longleftrightarrow> list_ex (\<lambda>p. js_starts_with i p \<and> i \<noteq> p @ ''__other__'') [''user:'', ''node:'', ''token:'', ''group:'', ''channel:'']"

definition hide_label :: "flow_env \<Rightarrow> flow_node \<Rightarrow> flow_node" where
  "hide_label env n = (if is_private (fn_id n) \<and> fn_label n \<noteq> [] then n\<lparr>fn_label := fe_mask env\<rparr> else n)"

definition shown_instead :: "flow_env \<Rightarrow> string \<Rightarrow> string \<Rightarrow> string \<Rightarrow> bool" where
  "shown_instead env i old new \<longleftrightarrow> (if is_private i then new \<in> {[], fe_mask env} else new = old)"

lemma private_iff_masked:
  assumes "n \<in> set (map snd (collect_nodes metric color (prepare_paths env rows metric stages ctx opts)))"
  shows "is_private (fn_id n) \<longleftrightarrow> must_mask n"
proof -
  obtain p m x where x: "(p, m) \<in> set (prepare_paths env rows metric stages ctx opts)" "x \<in> set p" "pn_id x = fn_id n" "pn_kind x = fn_kind n"
    using node_source [OF assms] by blast
  then have "js_starts_with (fn_id n) (flow_kind_name (fn_kind n) @ '':'')" using prepared_path(1) [OF x(1,2)] by simp
  then show ?thesis
    by (cases "fn_kind n") (auto simp: is_private_def must_mask_def flow_kind_name_def SENSITIVE_FLOW_KINDS_def OTHER_FLOW_NODE_ID_SET_def
        FLOW_NODE_KINDS_def OTHER_FLOW_NODE_IDS_def js_starts_with_iff)
qed

text \<open>C26. Masking hides every private label and changes nothing else.  The nodes of the masked chart are those of the unmasked
  one, a label that tells a user, a server, a token, a group or a channel replaced by the mask.  The links are the same in the same order,
  with the label of a private end replaced by the mask or no text and the label of any other end kept.\<close>

theorem masked_labels_hidden:
  assumes "go_maskSensitive opts" "g = buildFlowGraph env rows metric role palette visible ctx opts"
    and "g' = buildFlowGraph env rows metric role palette visible ctx (opts\<lparr>go_maskSensitive := False\<rparr>)"
  shows "mset (fg_nodes g) = mset (map (hide_label env) (fg_nodes g')) \<and>
    list_all2 (\<lambda>l l'. l = l'\<lparr>lk_sourceLabel := lk_sourceLabel l, lk_targetLabel := lk_targetLabel l\<rparr> \<and>
      shown_instead env (lk_source l') (lk_sourceLabel l') (lk_sourceLabel l) \<and>
      shown_instead env (lk_target l') (lk_targetLabel l') (lk_targetLabel l)) (fg_links g) (fg_links g')"
proof -
  let ?stages = "resolveVisibleStages role visible"
  let ?ps = "prepare_paths env rows metric ?stages ctx opts"
  let ?c = "graph_color env palette ?ps"
  let ?nodes = "map snd (collect_nodes metric ?c ?ps)" and ?links = "map snd (collect_links metric ?c ?ps)"
  have ps: "prepare_paths env rows metric ?stages ctx (opts\<lparr>go_maskSensitive := False\<rparr>) = ?ps" by (simp add: prepare_paths_def)
  note views = graph_views [OF refl refl, of env rows metric role palette visible ctx "opts\<lparr>go_maskSensitive := False\<rparr>", unfolded ps, folded assms(3)]
  have "mask_node env n = hide_label env n" if n: "n \<in> set (fg_nodes g')" for n
  proof -
    have "node_view n \<in> set (map node_view ?nodes)" using n mset_eq_setD [OF views(1)] by auto
    then obtain k where k: "k \<in> set ?nodes" "node_view k = node_view n" unfolding list.set_map [of node_view] by (metis imageE)
    then have "must_mask n \<longleftrightarrow> is_private (fn_id n)" using private_iff_masked [OF k(1)] by (simp add: node_view_def must_mask_def)
    then show ?thesis by (simp add: mask_node_def hide_label_def maskFlowLabel_def)
  qed
  then have nodes: "map (mask_node env) (fg_nodes g') = map (hide_label env) (fg_nodes g')" by simp
  have label: "shown_instead env i d (coalesce (map_of (maskedById env ?nodes) i) d)" if i: "\<exists>n \<in> set ?nodes. fn_id n = i" for i d
  proof (cases "map_of (maskedById env ?nodes) i")
    case None
    then have "\<not> must_mask n" if "n \<in> set ?nodes" "fn_id n = i" for n using that by (force simp: maskedById_def map_of_eq_None_iff)
    then have "\<not> is_private i" using i private_iff_masked by blast
    then show ?thesis using None by (simp add: shown_instead_def)
  next
    case (Some t)
    then have "(i, t) \<in> set (maskedById env ?nodes)" by (rule map_of_SomeD)
    then obtain n where "n \<in> set ?nodes" "must_mask n" "i = fn_id n" "t \<in> {[], fe_mask env}" 
      unfolding maskedById_def set_map [of _ "filter _ _"] set_filter maskFlowLabel_def by force
    then show ?thesis using Some private_iff_masked by (simp add: shown_instead_def)
  qed
  have "mask_link (maskedById env ?nodes) l = l\<lparr>lk_sourceLabel := lk_sourceLabel (mask_link (maskedById env ?nodes) l),
        lk_targetLabel := lk_targetLabel (mask_link (maskedById env ?nodes) l)\<rparr> \<and>
      shown_instead env (lk_source l) (lk_sourceLabel l) (lk_sourceLabel (mask_link (maskedById env ?nodes) l)) \<and>
      shown_instead env (lk_target l) (lk_targetLabel l) (lk_targetLabel (mask_link (maskedById env ?nodes) l))" if l: "l \<in> set (fg_links g')" for l
  proof -
    have "link_view l \<in> set (map link_view ?links)" using l mset_eq_setD [OF views(2)] by auto
    then obtain k where k: "k \<in> set ?links" "link_view k = link_view l" unfolding list.set_map [of link_view] by (metis imageE)
    then have "lk_source k = lk_source l" "lk_target k = lk_target l" by (simp_all add: link_view_def)
    then show ?thesis using label [OF link_ends_are_nodes(1) [OF k(1)]] label [OF link_ends_are_nodes(2) [OF k(1)]] by (simp add: mask_link_def)
  qed
  then show ?thesis
    using masked_nodes [OF assms(1), of env rows metric role palette visible ctx] masked_links [OF assms(1) refl, of env rows metric role palette visible ctx]
    unfolding assms(2,3) [symmetric] nodes by (simp add: list_all2_map1 list.rel_refl_strong)
qed

text \<open>A limit on the nodes of a stage holds: with the limit there are at most that many nodes of a kind, and one more that
  stands for all others.\<close>

theorem columns_limited:
  assumes "normalizeTopNodeLimit (go_topNodeLimit opts) = Some limit"
  shows "length (filter (\<lambda>n. fn_kind n = k) (fg_nodes (buildFlowGraph env rows metric role palette visible ctx opts))) \<le> limit + 1"
proof -
  let ?stages = "resolveVisibleStages role visible"
  let ?ps = "prepare_paths env rows metric ?stages ctx opts" and ?g = "buildFlowGraph env rows metric role palette visible ctx opts"
  let ?nodes = "map snd (collect_nodes metric (graph_color env palette ?ps) ?ps)"
  obtain sets where sets: "buildTopNodeSets env rows metric ?stages (Some limit) ctx = Some sets" by (simp add: buildTopNodeSets_def)
  let ?top = "case map_of sets k of Some ids \<Rightarrow> ids | None \<Rightarrow> []"
  have "fn_id n \<in> insert (OTHER_FLOW_NODE_IDS k) (set ?top) \<and> k \<in> set ?stages" if n: "n \<in> set ?nodes" "fn_kind n = k" for n
  proof -
    obtain p m x where x: "(p, m) \<in> set ?ps" "x \<in> set p" "pn_id x = fn_id n" "pn_kind x = fn_kind n"
      using node_source [OF n(1)] by blast
    then have "k \<in> set ?stages" using prepared_path(2) n(2) by metis
    moreover from top_set_size [OF sets this] obtain ids where "map_of sets k = Some ids" by blast
    ultimately show ?thesis using prepared_path(3) [OF x(1,2)] x(3,4) n(2)
      by (auto simp: assms sets isTopFlowNode_def)
  qed
  then have sub: "fn_id ` set (filter (\<lambda>n. fn_kind n = k) ?nodes) \<subseteq> insert (OTHER_FLOW_NODE_IDS k) (set ?top)"
    and stage: "filter (\<lambda>n. fn_kind n = k) ?nodes \<noteq> [] \<Longrightarrow> k \<in> set ?stages"
    by (auto simp: filter_empty_conv simp del: set_map)
  have "length (filter (\<lambda>n. fn_kind n = k) ?nodes) \<le> limit + 1"
  proof (cases "filter (\<lambda>n. fn_kind n = k) ?nodes = []")
    case False
    obtain ids where ids: "map_of sets k = Some ids" "length ids \<le> limit" using top_set_size [OF sets stage [OF False]] by blast
    have "distinct (map fn_id (filter (\<lambda>n. fn_kind n = k) ?nodes))" using distinct_node_ids by (rule distinct_map_filter)
    from distinct_card [OF this]
    have "length (filter (\<lambda>n. fn_kind n = k) ?nodes) = card (fn_id ` set (filter (\<lambda>n. fn_kind n = k) ?nodes))"
      by (simp only: length_map list.set_map)
    also have "\<dots> \<le> card (insert (OTHER_FLOW_NODE_IDS k) (set ids))" using sub ids(1) by (intro card_mono) auto
    also have "\<dots> \<le> Suc (card (set ids))" by (simp add: card_insert_if)
    also have "card (set ids) \<le> length ids" by (rule card_length)
    finally show ?thesis using ids(2) by simp
  qed simp
  moreover have "length (filter (\<lambda>n. fn_kind n = k) ns) = size (filter_mset (\<lambda>v. fst (snd v) = k) (mset (map node_view ns)))" for ns
    by (induction ns) (simp_all add: node_view_def)
  ultimately show ?thesis using graph_views(1) [OF refl refl, of env rows metric role palette visible ctx opts] by simp
qed

section \<open>A finding\<close>

text \<open>A user whose name is that of the node for all others is taken for that node, and is not masked.\<close>

lemma reserved_name_unmasked:
  assumes "fr_user_id row = None" "fr_username row = Some ''__other__''"
  shows "pn_id (userNode row) = OTHER_FLOW_NODE_IDS FUser \<and> \<not> must_mask (new_node (userNode row) color colorKey)"
  using assms
  by (simp add: userNode_def num_field_def numberValue_def js_to_number_def str_or_def OTHER_FLOW_NODE_IDS_def flow_kind_name_def
      must_mask_def new_node_def OTHER_FLOW_NODE_ID_SET_def FLOW_NODE_KINDS_def Let_def)

section \<open>Witnesses\<close>

definition demo_row :: "string \<Rightarrow> string \<Rightarrow> nat \<Rightarrow> flow_row" where
  "demo_row user model quota = \<lparr>fr_user_id = None, fr_username = Some user, fr_node_name = None, fr_use_group = None,
     fr_token_id = None, fr_token_name = None, fr_channel_id = None, fr_channel_name = None, fr_model_name = Some model,
     fr_token_used = None, fr_count = None, fr_quota = Some (Fin (of_nat quota))\<rparr>"

definition demo_rows :: "flow_row list" where
  "demo_rows = [demo_row ''ann'' ''m1'' 5, demo_row ''bob'' ''m1'' 4, demo_row ''ann'' ''m2'' 3]"

definition demo_env :: flow_env where
  "demo_env = \<lparr>fe_collate = (\<lambda>s. of_nat (length s)), fe_scheme = [], fe_formatNumber = js_num_to_string, fe_mask = ''****''\<rparr>"

definition demo_opts :: graph_options where
  "demo_opts = \<lparr>go_topNodeLimit = Some (Fin 1), go_overflowMode = None, go_otherNodeLabel = None, go_activeNode = None,
     go_activeLink = None, go_maskSensitive = True\<rparr>"

abbreviation demo_graph :: flow_graph where
  "demo_graph \<equiv> buildFlowGraph demo_env demo_rows MQuota RAdmin None (Some [FUser, FModel]) empty_ctx demo_opts"

theorem flow_conserved_witness:
  "rows_ok MQuota [FUser, FModel] empty_ctx demo_rows \<and>
   node_total (\<lambda>n. fn_kind n = FUser) (fg_nodes demo_graph) = rv (metricValue (buildSummary demo_rows) MQuota)"
proof -
  have "list_all (\<lambda>row. whole (metricValue (rowMetrics row) MQuota) \<and>
       list_all (\<lambda>n. CHR 0x00 \<notin> set (pn_id n)) (flowPathForStages row [FUser, FModel] empty_ctx)) demo_rows" by code_simp
  moreover have "sum_list (map (\<lambda>row. amount (metricValue (rowMetrics row) MQuota)) demo_rows) = 12" by code_simp
  ultimately have ok: "rows_ok MQuota [FUser, FModel] empty_ctx demo_rows" by (simp add: rows_ok_def)
  moreover have "[FUser, FModel] = resolveVisibleStages RAdmin (Some [FUser, FModel])" by code_simp
  ultimately show ?thesis
    using flow_conserved [OF ok _ refl, where role = RAdmin and visible = "Some [FUser, FModel]" and opts = demo_opts and env = demo_env and palette = None]
    by (simp add: demo_opts_def)
qed

theorem masked_labels_hidden_witness:
  "mset (fg_nodes demo_graph) = mset (map (hide_label demo_env)
     (fg_nodes (buildFlowGraph demo_env demo_rows MQuota RAdmin None (Some [FUser, FModel]) empty_ctx (demo_opts\<lparr>go_maskSensitive := False\<rparr>))))"
  using masked_labels_hidden [OF _ refl refl, of demo_opts demo_env demo_rows MQuota RAdmin None "Some [FUser, FModel]" empty_ctx]
  by (simp add: demo_opts_def)

theorem columns_limited_witness:
  "length (filter (\<lambda>n. fn_kind n = FUser) (fg_nodes demo_graph)) \<le> 2"
proof -
  have "normalizeTopNodeLimit (go_topNodeLimit demo_opts) = Some 1" by code_simp
  from columns_limited [OF this, of FUser demo_env demo_rows MQuota RAdmin None "Some [FUser, FModel]" empty_ctx]
  show ?thesis by simp
qed

end
