(* ===== verification/Flow_Sankey.thy ===== *)
theory Flow_Sankey
  imports Flow_Graph
begin

text \<open>
  The flow chart as data of the chart library (\<open>buildFlowSankeySpec\<close> of \<open>web/src/features/dashboard/lib/flow.ts\<close>), and the
  reading of what the library hands to its callbacks: a node or a link, or an object that wraps it.  The static part
  of the specification (sizes, fonts, fixed styles) is not modelled.
\<close>

section \<open>Data\<close>

definition flag_value :: "bool option \<Rightarrow> jsval" where
  "flag_value b = (case b of None \<Rightarrow> JUndefined | Some x \<Rightarrow> JBool x)"

definition sankey_node :: "flow_node \<Rightarrow> jsval" where
  "sankey_node n = JObj [(''key'', JStr (fn_id n)), (''name'', JStr (fn_label n)), (''rawLabel'', JStr (fn_label n)),
     (''kind'', JStr (flow_kind_name (fn_kind n))), (''value'', JNum (fn_value n)), (''requests'', JNum (fn_requests n)),
     (''quota'', JNum (fn_quota n)), (''tokens'', JNum (fn_tokens n)), (''color'', JStr (fn_color n)),
     (''colorKey'', JStr (fn_colorKey n)), (''highlighted'', flag_value (fn_highlighted n)), (''dimmed'', flag_value (fn_dimmed n))]"

definition link_zIndex :: "nat \<Rightarrow> flow_link \<Rightarrow> jsnum" where
  "link_zIndex index l =
     (if lk_highlighted l = Some True then Fin (1000000 + of_nat index)
      else if lk_dimmed l = Some True then Fin (of_nat index) else Fin (100000 + of_nat index))"

definition sankey_link :: "nat \<Rightarrow> flow_link \<Rightarrow> jsval" where
  "sankey_link index l = JObj [(''source'', JStr (lk_source l)), (''target'', JStr (lk_target l)), (''linkKey'', JStr (linkStableKey l)),
     (''sourceLabel'', JStr (lk_sourceLabel l)), (''targetLabel'', JStr (lk_targetLabel l)), (''value'', JNum (lk_value l)),
     (''requests'', JNum (lk_requests l)), (''quota'', JNum (lk_quota l)), (''tokens'', JNum (lk_tokens l)),
     (''color'', JStr (lk_color l)), (''linkColor'', JStr (lk_linkColor l)), (''linkAlpha'', JNum (lk_linkAlpha l)),
     (''hoverColor'', JStr (lk_hoverColor l)), (''colorKey'', JStr (lk_colorKey l)), (''share'', JNum (lk_share l)),
     (''highlighted'', flag_value (lk_highlighted l)), (''dimmed'', flag_value (lk_dimmed l)), (''zIndex'', JNum (link_zIndex index l))]"

text \<open>The flags of all links are set or none is, so that a comparison with \<open>undefined\<close> is one of equals.\<close>

definition byLinkDrawPriority :: "flow_env \<Rightarrow> flow_link \<Rightarrow> nat \<times> nat \<times> (int \<times> rat) \<times> rat" where
  "byLinkDrawPriority env l = (if lk_dimmed l = Some True then 1 else 0, if lk_highlighted l = Some True then 0 else 1,
     desc_key (lk_value l), fe_collate env (linkStableKey l))"

definition sankey_data :: "flow_env \<Rightarrow> flow_graph \<Rightarrow> jsval" where
  "sankey_data env flow =
     (let drawn = sort_key (byLinkDrawPriority env) (filter (\<lambda>l. js_lt (Fin 0) (lk_value l)) (fg_links flow))
      in JObj [(''nodes'', JArr (map sankey_node (fg_nodes flow))),
               (''links'', JArr (map (\<lambda>i. sankey_link i (drawn ! i)) [0..<length drawn]))])"

section \<open>Reading the data\<close>

definition recordValue :: "jsval \<Rightarrow> jsval option" where
  "recordValue v = (case v of JObj _ \<Rightarrow> Some v | JArr _ \<Rightarrow> Some v | _ \<Rightarrow> None)"

definition js_index :: "jsval list \<Rightarrow> jsnum \<Rightarrow> jsval" where
  "js_index vs x = (if is_integer x \<and> 0 \<le> rv x then coalesce (nth_opt vs (nat \<lfloor>rv x\<rfloor>)) JUndefined else JUndefined)"

definition sankeyDatumSource :: "jsval \<Rightarrow> jsval" where
  "sankeyDatumSource datum =
     (case jget datum ''datum'' of
        JArr nested \<Rightarrow>
          coalesce (recordValue (js_index nested (numberValue (jget datum ''depth''))))
            (coalesce (recordValue (js_index nested (Fin 0))) datum)
      | nested \<Rightarrow> coalesce (recordValue nested) datum)"

definition sankeyDatumValue :: "jsval \<Rightarrow> string \<Rightarrow> jsval" where
  "sankeyDatumValue datum key =
     (if jget datum key \<noteq> JUndefined then jget datum key else jget (sankeyDatumSource datum) key)"

definition sankeyDatumFlag :: "jsval \<Rightarrow> string \<Rightarrow> bool" where
  "sankeyDatumFlag datum key \<longleftrightarrow> sankeyDatumValue datum key = JBool True"

definition flowSankeyDatumValue :: "jsval \<Rightarrow> string \<Rightarrow> jsval" where
  "flowSankeyDatumValue datum key = (case recordValue datum of None \<Rightarrow> JUndefined | Some r \<Rightarrow> sankeyDatumValue r key)"

definition isSankeyLinkDatum :: "jsval \<Rightarrow> bool" where
  "isSankeyLinkDatum datum \<longleftrightarrow> sankeyDatumValue datum ''source'' \<noteq> JUndefined \<and> sankeyDatumValue datum ''target'' \<noteq> JUndefined"

definition isFlowNodeKind :: "jsval \<Rightarrow> flow_kind option" where
  "isFlowNodeKind v = find (\<lambda>k. v = JStr (flow_kind_name k)) FLOW_NODE_KINDS"

definition flowNodeFilterFromSankeyDatum :: "jsval \<Rightarrow> node_filter option" where
  "flowNodeFilterFromSankeyDatum datum =
     (case recordValue datum of
        None \<Rightarrow> None
      | Some r \<Rightarrow>
          if isSankeyLinkDatum r then None
          else case (flowSankeyDatumValue r ''key'', isFlowNodeKind (flowSankeyDatumValue r ''kind'')) of
              (JStr i, Some k) \<Rightarrow> Some (k, i)
            | (JNum x, Some k) \<Rightarrow> Some (k, js_num_to_string x)
            | _ \<Rightarrow> None)"

text \<open>Opacity and place of what is drawn.\<close>

definition node_opacity :: "jsval \<Rightarrow> jsnum" where
  "node_opacity datum = (if sankeyDatumFlag datum ''dimmed'' then js_number ''0.18''
     else if sankeyDatumFlag datum ''highlighted'' then Fin 1 else js_number ''0.92'')"

definition link_opacity :: "jsval \<Rightarrow> jsnum" where
  "link_opacity datum = (if sankeyDatumFlag datum ''dimmed'' then js_number ''0.08''
     else if sankeyDatumFlag datum ''highlighted'' then js_number ''0.86''
     else let a = numberValue (sankeyDatumValue datum ''linkAlpha'') in if num_truthy a then a else Fin 1)"

definition link_place :: "jsval \<Rightarrow> jsnum" where
  "link_place datum =
     (let z = sankeyDatumValue datum ''zIndex''
      in if z \<noteq> JUndefined then numberValue z
         else js_sub (Fin 1000000000) (numberValue (sankeyDatumValue datum ''value'')))"

section \<open>A clicked node is the node that was drawn\<close>

lemma kind_reads_back: "isFlowNodeKind (JStr (flow_kind_name k)) = Some k"
  by (cases k) (simp_all add: isFlowNodeKind_def FLOW_NODE_KINDS_def flow_kind_name_def)

lemma sankey_node_get:
  "jget (sankey_node n) ''key'' = JStr (fn_id n)" "jget (sankey_node n) ''kind'' = JStr (flow_kind_name (fn_kind n))"
  "jget (sankey_node n) ''source'' = JUndefined" "jget (sankey_node n) ''target'' = JUndefined" "jget (sankey_node n) ''datum'' = JUndefined"
  "recordValue (sankey_node n) = Some (sankey_node n)"
  by (simp_all add: sankey_node_def jget_def recordValue_def)

lemma clicked_node: "flowNodeFilterFromSankeyDatum (sankey_node n) = Some (fn_kind n, fn_id n)"
proof -
  have "sankeyDatumSource (sankey_node n) = sankey_node n"
    by (simp add: sankeyDatumSource_def sankey_node_get recordValue_def [of JUndefined])
  then show ?thesis
    by (simp add: flowNodeFilterFromSankeyDatum_def flowSankeyDatumValue_def sankeyDatumValue_def isSankeyLinkDatum_def
        sankey_node_get kind_reads_back)
qed

text \<open>The same holds when the library wraps the node, alone or with its ancestors at its depth.\<close>

lemma clicked_wrapped_node:
  assumes "wrapped = JObj [(''datum'', sankey_node n)] \<or>
    (wrapped = JObj [(''datum'', JArr vs), (''depth'', JNum (Fin (of_nat d)))] \<and> d < length vs \<and> vs ! d = sankey_node n)"
  shows "flowNodeFilterFromSankeyDatum wrapped = Some (fn_kind n, fn_id n)"
proof -
  have w: "recordValue wrapped = Some wrapped" "jget wrapped ''key'' = JUndefined" "jget wrapped ''kind'' = JUndefined"
    "jget wrapped ''source'' = JUndefined" "jget wrapped ''target'' = JUndefined"
    using assms by (auto simp: recordValue_def jget_def)
  have "js_index vs (Fin (of_nat d)) = sankey_node n" if "d < length vs" "vs ! d = sankey_node n" for vs
    using that by (simp add: js_index_def is_integer_def nth_opt_def)
  moreover have "\<exists>kvs. sankey_node n = JObj kvs" by (simp add: sankey_node_def)
  ultimately have "sankeyDatumSource wrapped = sankey_node n"
    using assms sankey_node_get(6) [of n]
    by (auto simp: sankeyDatumSource_def jget_def numberValue_def js_to_number_def is_finite.simps split: jsval.splits)
  then show ?thesis
    by (simp add: flowNodeFilterFromSankeyDatum_def flowSankeyDatumValue_def sankeyDatumValue_def isSankeyLinkDatum_def
        sankey_node_get kind_reads_back w)
qed

end
