(* ===== verification/JS_Json_Pretty.thy ===== *)
theory JS_Json_Pretty
  imports JS_Json_Text
begin

text \<open>
  \<open>JSON.stringify(v, null, 2)\<close>: every element and member on a line of its own, two more spaces per level.  Its text
  reads back as well.
\<close>

definition newline :: string where
  "newline = [CHR 0x0A]"

text \<open>The elements of a list or an object between its brackets, at the indentation of the value that holds them.\<close>

definition json_block :: "string \<Rightarrow> string list \<Rightarrow> string" where
  "json_block indent parts =
     (if parts = [] then []
      else newline @ indent @ ''  '' @ js_join ('','' @ newline @ indent @ ''  '') parts @ newline @ indent)"

fun json_pretty :: "string \<Rightarrow> jsval \<Rightarrow> string" where
  "json_pretty indent (JArr vs) = ''['' @ json_block indent (map (json_pretty (indent @ ''  '')) vs) @ '']''"
| "json_pretty indent (JObj kvs) =
     ''{'' @ json_block indent (map (\<lambda>(k, v). json_stringify k @ '': '' @ json_pretty (indent @ ''  '') v)
       (filter (\<lambda>(k, v). v \<noteq> JUndefined) kvs)) @ ''}''"
| "json_pretty indent v = json_text v"

section \<open>White space is skipped\<close>

definition blank :: "string \<Rightarrow> bool" where
  "blank s \<longleftrightarrow> list_all json_ws s"

lemma blank_simps [simp]: "blank []" "blank newline" "blank ''  ''" "blank '' ''" "blank (s @ t) \<longleftrightarrow> blank s \<and> blank t"
  by (simp_all add: blank_def newline_def json_ws_def)

lemma skip_blank: "blank s \<Longrightarrow> skip_ws (s @ t) = skip_ws t"
  by (induction s) (auto simp: blank_def skip_ws_def)

lemma value_blank: "blank s \<Longrightarrow> json_value n (s @ t) = json_value n t"
  by (cases n) (simp_all add: skip_blank)

lemma elems_blank: "blank s \<Longrightarrow> json_elems n acc (s @ t) = json_elems n acc t"
  by (cases n) (simp_all add: value_blank)

lemma members_blank: "blank s \<Longrightarrow> json_members n acc (s @ t) = json_members n acc t"
  by (cases n) (simp_all add: skip_blank)

lemma delimited_newline [simp]: "delimited (newline @ s)"
  by (simp add: newline_def delimited_def json_num_char_def is_digit_def ordc_def)

lemma json_pretty_head:
  assumes "json_ok v"
  shows "\<exists>c t. json_pretty indent v = c # t \<and> \<not> json_ws c \<and> c \<noteq> CHR '']'' \<and> c \<noteq> CHR ''}''"
proof (cases v)
  case (JNum x)
  then show ?thesis using json_text_head [OF assms] by simp
qed (use assms in \<open>auto simp: json_ws_def json_stringify_def\<close>)

section \<open>Reading back\<close>

lemma pretty_elems:
  assumes "\<And>v n r. v \<in> set vs \<Longrightarrow> jneed v \<le> n \<Longrightarrow> delimited r \<Longrightarrow> json_value n (json_pretty ind v @ r) = Some (v, r)"
    and "vs \<noteq> []" "sum_list (map (\<lambda>v. Suc (jneed v)) vs) \<le> n" "blank pre" "blank sep" "blank post" "\<And>s. delimited (post @ CHR '']'' # s)"
  shows "json_elems n acc (pre @ js_join (CHR '','' # sep) (map (json_pretty ind) vs) @ post @ CHR '']'' # r) =
    Some (JArr (acc @ vs), r)"
  using assms
proof (induction vs arbitrary: acc n pre)
  case (Cons v vs)
  then obtain m where m: "n = Suc m" by (cases n) auto
  show ?case
  proof (cases vs)
    case Nil
    with Cons.prems m show ?thesis by (simp add: value_blank skip_blank)
  next
    case (Cons u us)
    have "json_value m (json_pretty ind v @ CHR '','' # s) = Some (v, CHR '','' # s)" for s
      using Cons.prems m by simp
    moreover have "json_elems m (acc @ [v]) (sep @ js_join (CHR '','' # sep) (map (json_pretty ind) vs) @ post @ CHR '']'' # r) =
        Some (JArr ((acc @ [v]) @ vs), r)"
      using Cons.prems m Cons by (intro Cons.IH) auto
    ultimately show ?thesis using m Cons Cons.prems by (simp add: value_blank)
  qed
qed simp

abbreviation pretty_member :: "string \<Rightarrow> string \<times> jsval \<Rightarrow> string" where
  "pretty_member ind \<equiv> \<lambda>(k, v). json_stringify k @ '': '' @ json_pretty ind v"

lemma pretty_members:
  assumes "\<And>k v n r. (k, v) \<in> set kvs \<Longrightarrow> jneed v \<le> n \<Longrightarrow> delimited r \<Longrightarrow> json_value n (json_pretty ind v @ r) = Some (v, r)"
    and "kvs \<noteq> []" "sum_list (map (\<lambda>(k, v). Suc (jneed v)) kvs) \<le> n" "distinct (map fst (acc @ kvs))"
    and "blank pre" "blank sep" "blank post" "\<And>s. delimited (post @ CHR ''}'' # s)"
  shows "json_members n acc (pre @ js_join (CHR '','' # sep) (map (pretty_member ind) kvs) @ post @ CHR ''}'' # r) =
    Some (JObj (acc @ kvs), r)"
  using assms
proof (induction kvs arbitrary: acc n pre)
  case (Cons kv kvs)
  obtain k v where kv: "kv = (k, v)" by (cases kv)
  obtain m where m: "n = Suc m" using Cons.prems kv by (cases n) auto
  have "json_value m (json_pretty ind v @ s) = Some (v, s)" if "delimited s" for s
    using Cons.prems(1) [of k v m s] Cons.prems(3) m kv that by simp
  then have v: "json_value m (CHR '' '' # json_pretty ind v @ s) = Some (v, s)" if "delimited s" for s
    using that value_blank [of "'' ''" m "json_pretty ind v @ s"] by simp
  have new: "obj_set k v acc = acc @ [(k, v)]" using Cons.prems(4) kv by (intro obj_set_new) auto
  have chars: "json_stringify k @ s = dquote # concat (map json_escape k) @ dquote # s" for s
    by (rule json_chars_text)
  show ?case
  proof (cases kvs)
    case Nil
    with v [of "post @ CHR ''}'' # r"] m kv new Cons.prems show ?thesis
      by (simp add: chars json_chars_concat skip_blank)
  next
    case (Cons u us)
    have "json_members m (acc @ [(k, v)])
        (sep @ js_join (CHR '','' # sep) (map (pretty_member ind) kvs) @ post @ CHR ''}'' # r) =
        Some (JObj ((acc @ [(k, v)]) @ kvs), r)"
      using Cons.prems m kv Cons by (intro Cons.IH) auto
    with v m kv new Cons Cons.prems show ?thesis by (simp add: chars json_chars_concat skip_blank)
  qed
qed simp

lemma pretty_scalar:
  assumes "json_ok v" "delimited r" "\<And>vs. v \<noteq> JArr vs" "\<And>kvs. v \<noteq> JObj kvs" "1 \<le> n"
  shows "json_value n (json_pretty ind v @ r) = Some (v, r)"
proof -
  have "json_pretty ind v = json_text v" using assms(3,4) by (cases v) auto
  moreover obtain m where "n = Suc m" using assms(5) by (cases n) auto
  ultimately show ?thesis using json_scalar_text assms by simp
qed

lemma array_opened:
  assumes "blank sep" "\<exists>u. j = c # u" "\<not> json_ws c" "c \<noteq> CHR '']''"
  shows "json_value (Suc m) (CHR ''['' # sep @ j) = json_elems m [] j"
proof -
  obtain u where "j = c # u" using assms(2) by blast
  then have "skip_ws (sep @ j) = c # u" using skip_blank [OF assms(1)] assms(3) by (simp add: skip_ws_def)
  with \<open>j = c # u\<close> assms(4) show ?thesis by simp
qed

lemma object_opened:
  assumes "blank sep" "\<exists>u. j = dquote # u"
  shows "json_value (Suc m) (CHR ''{'' # sep @ j) = json_members m [] j"
  using skip_blank [OF assms(1), of j] assms(2) by auto

lemma json_value_pretty:
  "\<lbrakk> json_ok v; jneed v \<le> n; delimited r; blank ind \<rbrakk> \<Longrightarrow> json_value n (json_pretty ind v @ r) = Some (v, r)"
proof (induction v arbitrary: n r ind)
  case (JArr vs)
  then obtain m where m: "n = Suc m" by (cases n) auto
  show ?case
  proof (cases "vs = []")
    case False
    let ?in = "ind @ ''  ''" and ?sep = "newline @ ind @ ''  ''"
    let ?j = "js_join (CHR '','' # ?sep) (map (json_pretty ?in) vs) @ (newline @ ind) @ CHR '']'' # r"
    obtain w ws where vs: "vs = w # ws" using False by (cases vs) auto
    then obtain c t where c: "json_pretty ?in w = c # t" "\<not> json_ws c" "c \<noteq> CHR '']''"
      using json_pretty_head [of w ?in] JArr.prems by auto
    have s: "\<exists>u. ?j = c # u" using vs c by (cases ws) auto
    have "json_value n (json_pretty ind (JArr vs) @ r) = json_value n (CHR ''['' # ?sep @ ?j)"
      using False by (simp add: json_block_def)
    also have "\<dots> = json_elems m [] ([] @ ?j)"
      using s c JArr.prems(4) unfolding m append_Nil by (intro array_opened) auto
    also have "\<dots> = Some (JArr ([] @ vs), r)"
      using JArr m False by (intro pretty_elems) (auto simp: list_all_iff)
    finally show ?thesis by simp
  qed (use m in \<open>simp add: json_block_def\<close>)
next
  case (JObj kvs)
  then obtain m where m: "n = Suc m" by (cases n) auto
  have all: "filter (\<lambda>(k, v). v \<noteq> JUndefined) kvs = kvs"
    using JObj.prems by (auto simp: filter_id_conv list_all_iff)
  show ?case
  proof (cases "kvs = []")
    case False
    let ?in = "ind @ ''  ''" and ?sep = "newline @ ind @ ''  ''"
    let ?j = "js_join (CHR '','' # ?sep) (map (pretty_member ?in) kvs) @ (newline @ ind) @ CHR ''}'' # r"
    obtain k w ws where kvs: "kvs = (k, w) # ws" using False by (cases kvs) auto
    have s: "\<exists>u. ?j = dquote # u" using kvs by (cases ws) (auto simp: json_stringify_def)
    have "json_value n (json_pretty ind (JObj kvs) @ r) = json_value n (CHR ''{'' # ?sep @ ?j)"
      using False all by (simp add: json_block_def)
    also have "\<dots> = json_members m [] ([] @ ?j)"
      using s JObj.prems(4) unfolding m append_Nil by (intro object_opened) auto
    also have "\<dots> = Some (JObj ([] @ kvs), r)"
      using JObj m False by (intro pretty_members) (auto simp: list_all_iff)
    finally show ?thesis by simp
  qed (use m in \<open>simp add: json_block_def\<close>)
qed (rule pretty_scalar; simp)+

text \<open>The pretty text is no shorter than the compact one, so its length is enough fuel too.\<close>

lemma join_mono:
  "\<lbrakk> length s \<le> length t; list_all2 (\<lambda>x y. length x \<le> length y) xs ys \<rbrakk> \<Longrightarrow> length (js_join s xs) \<le> length (js_join t ys)"
proof (induction s xs arbitrary: ys rule: js_join.induct)
  case (3 sep x y zs)
  then obtain x' y' zs' where "ys = x' # y' # zs'" by (auto simp: list_all2_Cons1)
  with 3 show ?case by force
qed (auto simp: list_all2_Cons1)

lemma block_mono:
  "list_all2 (\<lambda>x y. length x \<le> length y) xs ys \<Longrightarrow> length (js_join '','' xs) \<le> length (json_block ind ys)"
  using join_mono [of "'',''" "'','' @ newline @ ind @ ''  ''" xs ys] by (auto simp: json_block_def)

lemma pretty_longer: "length (json_text v) \<le> length (json_pretty ind v)"
proof (induction v arbitrary: ind)
  case (JArr vs)
  then show ?case
    using block_mono [of "map json_text vs" "map (json_pretty (ind @ ''  '')) vs" ind]
    by (simp add: list_all2_map1 list_all2_map2 list.rel_refl_strong)
next
  case (JObj kvs)
  let ?k = "filter (\<lambda>(k, v). v \<noteq> JUndefined) kvs"
  have "list_all2 (\<lambda>x y. length x \<le> length y) (map (\<lambda>(k, v). json_stringify k @ '':'' @ json_text v) ?k)
      (map (pretty_member (ind @ ''  '')) ?k)"
    unfolding list_all2_map1 list_all2_map2
  proof (rule list.rel_refl_strong)
    fix kv assume "kv \<in> set ?k"
    then obtain k v where "kv = (k, v)" "(k, v) \<in> set kvs" by auto
    with JObj.IH [of "(k, v)" v "ind @ ''  ''"]
    show "length (case kv of (k, v) \<Rightarrow> json_stringify k @ '':'' @ json_text v) \<le> length (pretty_member (ind @ ''  '') kv)"
      by simp
  qed
  from block_mono [OF this, of ind] show ?case by simp
qed simp_all

theorem json_parse_pretty: "json_ok v \<Longrightarrow> json_parse (json_pretty [] v) = Some v"
  using json_value_pretty [of v "2 * length (json_pretty [] v) + 2" "[]" "[]"] jneed_text [of v] pretty_longer [of v "[]"]
  by (simp add: json_parse_def)

end
