(* ===== verification/Custom_Routes.thy ===== *)
theory Custom_Routes
  imports JS_Json_Pretty
begin

text \<open>
  The routes of an advanced custom channel (\<open>features/channels/lib/advanced-custom.ts\<close>): templates, defaults of
  converters, normalization, reading and writing of the configuration, validation and the two edits of the editor.

  A configuration comes from \<open>JSON.parse\<close> by a cast, so a field may hold any value.  Configurations, routes and
  authentications are therefore values of JavaScript, and an operation that calls a method of a value that does not have
  it throws.  \<open>typed_config\<close> is the declared type.
\<close>

section \<open>Access to values of unknown type\<close>

definition type_error :: string where
  "type_error = ''TypeError''"

text \<open>\<open>v.k\<close>\<close>

definition member_of :: "jsval \<Rightarrow> string \<Rightarrow> jsval exn" where
  "member_of v k = (if v = JUndefined \<or> v = JNull then Inl type_error else Inr (jget v k))"

text \<open>\<open>v || d\<close>\<close>

definition or_val :: "jsval \<Rightarrow> jsval \<Rightarrow> jsval" where
  "or_val v d = (if jtruthy v then v else d)"

text \<open>\<open>v.trim()\<close>\<close>

definition trim_val :: "jsval \<Rightarrow> string exn" where
  "trim_val v = (case v of JStr s \<Rightarrow> Inr (js_trim s) | _ \<Rightarrow> Inl type_error)"

text \<open>\<open>v?.trim()\<close>, where \<open>None\<close> is \<open>undefined\<close>.\<close>

definition trim_opt :: "jsval \<Rightarrow> string option exn" where
  "trim_opt v = (if v = JUndefined \<or> v = JNull then Inr None else bind_exn (trim_val v) (\<lambda>s. Inr (Some s)))"

section \<open>The options of the editor\<close>

definition CHANNEL_TYPE_ADVANCED_CUSTOM :: nat where
  "CHANNEL_TYPE_ADVANCED_CUSTOM = 58"

definition ADVANCED_CUSTOM_MODEL_LIST_PATH :: string where
  "ADVANCED_CUSTOM_MODEL_LIST_PATH = ''/v1/models''"

definition ADVANCED_CUSTOM_MODEL_LIST_LABEL :: string where
  "ADVANCED_CUSTOM_MODEL_LIST_LABEL = ''OpenAI Models''"

definition ADVANCED_CUSTOM_BALANCE_PATH :: string where
  "ADVANCED_CUSTOM_BALANCE_PATH = ''/v1/dashboard/billing/credit_grants''"

definition ADVANCED_CUSTOM_BALANCE_LABEL :: string where
  "ADVANCED_CUSTOM_BALANCE_LABEL = ''Balance Query''"

record converter_option =
  co_value :: string
  co_label :: string
  co_triggerLabel :: string

definition converter_choice :: "string \<Rightarrow> string \<Rightarrow> string \<Rightarrow> converter_option" where
  "converter_choice v l t = \<lparr>co_value = v, co_label = l, co_triggerLabel = t\<rparr>"

definition ADVANCED_CUSTOM_CONVERTER_OPTIONS :: "converter_option list" where
  "ADVANCED_CUSTOM_CONVERTER_OPTIONS =
    [converter_choice ''none'' ''Native forwarding'' ''Native forwarding'',
     converter_choice ''anthropic_messages_to_openai_chat_completions'' ''Anthropic Messages to OpenAI Chat''
       ''To OpenAI Chat'',
     converter_choice ''openai_chat_completions_to_anthropic_messages'' ''OpenAI Chat to Anthropic Messages''
       ''To Anthropic Messages'',
     converter_choice ''openai_chat_completions_to_openai_responses'' ''OpenAI Chat to OpenAI Responses''
       ''To OpenAI Responses'',
     converter_choice ''openai_responses_to_openai_chat_completions'' ''OpenAI Responses to OpenAI Chat''
       ''To OpenAI Chat'',
     converter_choice ''openai_responses_to_claude_messages'' ''OpenAI Responses to Anthropic Messages''
       ''To Anthropic Messages'',
     converter_choice ''openai_responses_to_gemini_generate_content'' ''OpenAI Responses to Gemini Generate Content''
       ''To Gemini Generate Content'',
     converter_choice ''gemini_generate_content_to_openai_chat_completions'' ''Gemini Generate Content to OpenAI Chat''
       ''To OpenAI Chat'',
     converter_choice ''openai_chat_completions_to_gemini_generate_content'' ''OpenAI Chat to Gemini Generate Content''
       ''To Gemini Generate Content'']"

datatype auth_mode = AuthDefault | AuthNone | AuthHeader | AuthQuery

definition ADVANCED_CUSTOM_AUTH_MODE_OPTIONS :: "(auth_mode \<times> string) list" where
  "ADVANCED_CUSTOM_AUTH_MODE_OPTIONS =
    [(AuthDefault, ''Default Bearer''), (AuthNone, ''No Auth''), (AuthHeader, ''Header''), (AuthQuery, ''Query'')]"

text \<open>Incoming paths with their labels.\<close>

definition ADVANCED_CUSTOM_INCOMING_PATH_OPTIONS :: "(string \<times> string) list" where
  "ADVANCED_CUSTOM_INCOMING_PATH_OPTIONS =
    [(''/v1/chat/completions'', ''OpenAI Chat''),
     (''/v1/responses'', ''OpenAI Responses''),
     (''/v1/responses/compact'', ''OpenAI Responses Compact''),
     (''/v1/alpha/search'', ''Codex Alpha Search''),
     (''/v1/embeddings'', ''OpenAI Embeddings''),
     (''/v1/images/generations'', ''OpenAI Image Generations''),
     (''/v1/images/edits'', ''OpenAI Image Edits''),
     (''/v1/completions'', ''OpenAI Completions''),
     (''/v1/audio/speech'', ''OpenAI Audio Speech''),
     (''/v1/audio/transcriptions'', ''OpenAI Audio Transcriptions''),
     (''/v1/audio/translations'', ''OpenAI Audio Translations''),
     (''/v1/rerank'', ''Rerank''),
     (''/v1/realtime'', ''OpenAI Realtime''),
     (''/v1/messages'', ''Claude Messages''),
     (''/v1beta/models/{model}:generateContent'', ''Gemini Generate Content''),
     (''/v1beta/models/{model}:embedContent'', ''Gemini Embed Content''),
     (''/v1beta/models/{model}:batchEmbedContents'', ''Gemini Batch Embed Contents'')]"

definition ADVANCED_CUSTOM_ROUTE_SUMMARY_LABELS :: "(string \<times> string) list" where
  "ADVANCED_CUSTOM_ROUTE_SUMMARY_LABELS =
    [(''/v1/chat/completions'', ''OpenAI Chat''),
     (ADVANCED_CUSTOM_MODEL_LIST_PATH, ADVANCED_CUSTOM_MODEL_LIST_LABEL),
     (ADVANCED_CUSTOM_BALANCE_PATH, ADVANCED_CUSTOM_BALANCE_LABEL)]"

definition ADVANCED_CUSTOM_MODEL_REGEX_PREFIX :: string where
  "ADVANCED_CUSTOM_MODEL_REGEX_PREFIX = ''re:''"

section \<open>Routes of the templates\<close>

definition openAIChatPath :: string where
  "openAIChatPath = ''/v1/chat/completions''"

definition openAIResponsesPath :: string where
  "openAIResponsesPath = ''/v1/responses''"

definition claudeMessagesPath :: string where
  "claudeMessagesPath = ''/v1/messages''"

definition geminiGenerateContentPath :: string where
  "geminiGenerateContentPath = ''/v1beta/models/{model}:generateContent''"

definition auth_object :: "string \<Rightarrow> string \<Rightarrow> string \<Rightarrow> jsval" where
  "auth_object t n v = JObj [(''type'', JStr t), (''name'', JStr n), (''value'', JStr v)]"

definition bearerHeaderAuth :: jsval where
  "bearerHeaderAuth = auth_object ''header'' ''Authorization'' ''Bearer {api_key}''"

definition apiKeyHeaderAuth :: jsval where
  "apiKeyHeaderAuth = auth_object ''header'' ''x-api-key'' ''{api_key}''"

definition geminiQueryAuth :: jsval where
  "geminiQueryAuth = auth_object ''query'' ''key'' ''{api_key}''"

definition native_route :: "jsval \<Rightarrow> string \<Rightarrow> jsval" where
  "native_route auth path =
     JObj [(''incoming_path'', JStr path), (''upstream_path'', JStr path), (''converter'', JStr ''none''), (''auth'', auth)]"

definition createOpenAINativeRoutes :: "jsval list" where
  "createOpenAINativeRoutes = map (native_route bearerHeaderAuth)
    [''/v1/chat/completions'', ''/v1/completions'', ''/v1/responses'', ''/v1/responses/compact'', ''/v1/embeddings'',
     ''/v1/images/generations'', ''/v1/images/edits'', ''/v1/audio/speech'', ''/v1/audio/transcriptions'',
     ''/v1/audio/translations'', ''/v1/realtime'']"

definition createClaudeNativeRoutes :: "jsval list" where
  "createClaudeNativeRoutes = [native_route apiKeyHeaderAuth ''/v1/messages'']"

definition createGeminiNativeRoutes :: "jsval list" where
  "createGeminiNativeRoutes = map (native_route geminiQueryAuth)
    [''/v1beta/models/{model}:generateContent'', ''/v1beta/models/{model}:embedContent'',
     ''/v1beta/models/{model}:batchEmbedContents'']"

definition createGatewayNativeRoutes :: "jsval list" where
  "createGatewayNativeRoutes = map (native_route bearerHeaderAuth) [''/v1/alpha/search'', ''/v1/rerank'']"

definition config_of :: "jsval list \<Rightarrow> jsval" where
  "config_of routes = JObj [(''advanced_routes'', JArr routes)]"

record template_option =
  tp_value :: string
  tp_label :: string
  tp_config :: jsval

definition ADVANCED_CUSTOM_TEMPLATE_OPTIONS :: "template_option list" where
  "ADVANCED_CUSTOM_TEMPLATE_OPTIONS =
    [\<lparr>tp_value = ''all_protocols'', tp_label = ''All routes'',
      tp_config = config_of (createOpenAINativeRoutes @ createClaudeNativeRoutes @ createGeminiNativeRoutes @
        createGatewayNativeRoutes)\<rparr>,
     \<lparr>tp_value = ''openai_only'', tp_label = ''OpenAI only'', tp_config = config_of createOpenAINativeRoutes\<rparr>,
     \<lparr>tp_value = ''claude_only'', tp_label = ''Claude only'', tp_config = config_of createClaudeNativeRoutes\<rparr>,
     \<lparr>tp_value = ''gemini_only'', tp_label = ''Gemini only'', tp_config = config_of createGeminiNativeRoutes\<rparr>]"

text \<open>A clone is the same value.\<close>

definition cloneAdvancedCustomConfig :: "jsval \<Rightarrow> jsval" where
  "cloneAdvancedCustomConfig config = config"

definition getAdvancedCustomTemplateConfig :: "string \<Rightarrow> jsval" where
  "getAdvancedCustomTemplateConfig templateKey =
     cloneAdvancedCustomConfig (tp_config
       (coalesce (find (\<lambda>option. tp_value option = templateKey) ADVANCED_CUSTOM_TEMPLATE_OPTIONS)
         (ADVANCED_CUSTOM_TEMPLATE_OPTIONS ! 0)))"

definition isAdvancedCustomManagementPath :: "string \<Rightarrow> bool" where
  "isAdvancedCustomManagementPath path \<longleftrightarrow>
     path = ADVANCED_CUSTOM_MODEL_LIST_PATH \<or> path = ADVANCED_CUSTOM_BALANCE_PATH"

section \<open>Converters and paths\<close>

definition isConverterPathAllowed :: "string \<Rightarrow> string \<Rightarrow> bool" where
  "isConverterPathAllowed incomingPath converter =
     (if converter = ''none'' then True
      else if incomingPath = ''/v1/alpha/search'' then False
      else if converter = ''anthropic_messages_to_openai_chat_completions'' then incomingPath = ''/v1/messages''
      else if converter = ''openai_chat_completions_to_anthropic_messages'' \<or>
        converter = ''openai_chat_completions_to_openai_responses'' \<or>
        converter = ''openai_chat_completions_to_gemini_generate_content'' then incomingPath = ''/v1/chat/completions''
      else if converter = ''openai_responses_to_openai_chat_completions'' \<or>
        converter = ''openai_responses_to_claude_messages'' \<or>
        converter = ''openai_responses_to_gemini_generate_content'' then incomingPath = ''/v1/responses''
      else js_includes incomingPath '':generateContent'' \<or> js_includes incomingPath '':streamGenerateContent'')"

definition getAdvancedCustomIncomingPathOptions :: "string \<Rightarrow> (string \<times> string) list" where
  "getAdvancedCustomIncomingPathOptions converter =
     filter (\<lambda>option. isConverterPathAllowed (fst option) converter) ADVANCED_CUSTOM_INCOMING_PATH_OPTIONS"

definition getDefaultAdvancedCustomIncomingPath :: "string \<Rightarrow> string" where
  "getDefaultAdvancedCustomIncomingPath converter =
     (case getAdvancedCustomIncomingPathOptions converter of
        option # _ \<Rightarrow> if fst option \<noteq> [] then fst option else ''/v1/chat/completions''
      | [] \<Rightarrow> ''/v1/chat/completions'')"

definition isAdvancedCustomIncomingPathAllowed :: "string \<Rightarrow> string \<Rightarrow> bool" where
  "isAdvancedCustomIncomingPathAllowed incomingPath converter = isConverterPathAllowed incomingPath converter"

definition getAdvancedCustomConverterOptions :: "string \<Rightarrow> converter_option list" where
  "getAdvancedCustomConverterOptions incomingPath =
     (let normalizedIncomingPath = js_trim incomingPath
      in filter (\<lambda>option. co_value option = ''none'' \<or> isConverterPathAllowed normalizedIncomingPath (co_value option))
           ADVANCED_CUSTOM_CONVERTER_OPTIONS)"

definition getAdvancedCustomIncomingPathLabel :: "string \<Rightarrow> string" where
  "getAdvancedCustomIncomingPathLabel v =
     (case find (\<lambda>option. fst option = v) ADVANCED_CUSTOM_INCOMING_PATH_OPTIONS of
        Some option \<Rightarrow> if snd option \<noteq> [] then snd option else v
      | None \<Rightarrow> v)"

definition getAdvancedCustomNativeAuth :: "string \<Rightarrow> jsval" where
  "getAdvancedCustomNativeAuth incomingPath =
     (if incomingPath = claudeMessagesPath then apiKeyHeaderAuth
      else if js_includes incomingPath '':generateContent'' \<or> js_includes incomingPath '':streamGenerateContent'' \<or>
        js_includes incomingPath '':embedContent'' \<or> js_includes incomingPath '':batchEmbedContents'' then geminiQueryAuth
      else bearerHeaderAuth)"

record converter_defaults =
  cd_upstream_path :: string
  cd_auth :: jsval

definition getAdvancedCustomConverterDefaults :: "string \<Rightarrow> string \<Rightarrow> converter_defaults" where
  "getAdvancedCustomConverterDefaults converter incomingPath =
     (let normalizedIncomingPath =
            (if js_trim incomingPath \<noteq> [] then js_trim incomingPath else getDefaultAdvancedCustomIncomingPath converter)
      in if converter = ''none'' then
           \<lparr>cd_upstream_path = normalizedIncomingPath, cd_auth = getAdvancedCustomNativeAuth normalizedIncomingPath\<rparr>
         else if converter = ''anthropic_messages_to_openai_chat_completions'' \<or>
           converter = ''gemini_generate_content_to_openai_chat_completions'' \<or>
           converter = ''openai_responses_to_openai_chat_completions'' then
           \<lparr>cd_upstream_path = openAIChatPath, cd_auth = bearerHeaderAuth\<rparr>
         else if converter = ''openai_chat_completions_to_openai_responses'' then
           \<lparr>cd_upstream_path = openAIResponsesPath, cd_auth = bearerHeaderAuth\<rparr>
         else if converter = ''openai_chat_completions_to_anthropic_messages'' \<or>
           converter = ''openai_responses_to_claude_messages'' then
           \<lparr>cd_upstream_path = claudeMessagesPath, cd_auth = apiKeyHeaderAuth\<rparr>
         else if converter = ''openai_chat_completions_to_gemini_generate_content'' \<or>
           converter = ''openai_responses_to_gemini_generate_content'' then
           \<lparr>cd_upstream_path = geminiGenerateContentPath, cd_auth = geminiQueryAuth\<rparr>
         else
           \<lparr>cd_upstream_path = (if normalizedIncomingPath \<noteq> [] then normalizedIncomingPath else openAIChatPath),
            cd_auth = getAdvancedCustomNativeAuth normalizedIncomingPath\<rparr>)"

definition getAdvancedCustomUpstreamPathPlaceholder :: "string \<Rightarrow> string option \<Rightarrow> string" where
  "getAdvancedCustomUpstreamPathPlaceholder converter incomingPath =
     cd_upstream_path (getAdvancedCustomConverterDefaults converter
       (coalesce incomingPath (getDefaultAdvancedCustomIncomingPath converter)))"

definition createAdvancedCustomRoute :: jsval where
  "createAdvancedCustomRoute =
     JObj [(''incoming_path'', JStr openAIChatPath), (''upstream_path'', JStr openAIChatPath), (''converter'', JStr ''none'')]"

definition createAdvancedCustomConfig :: jsval where
  "createAdvancedCustomConfig = config_of [createAdvancedCustomRoute]"

definition createAdvancedCustomManagementRoute :: "string \<Rightarrow> jsval" where
  "createAdvancedCustomManagementRoute path =
     JObj [(''incoming_path'', JStr path), (''upstream_path'', JStr path), (''converter'', JStr ''none''), (''models'', JArr [])]"

text \<open>The kind of authentication of a route, its rebuilding when another is chosen.\<close>

definition getAdvancedCustomAuthMode :: "jsval \<Rightarrow> jsval exn" where
  "getAdvancedCustomAuthMode route = bind_exn (member_of route ''auth'') (\<lambda>auth.
     Inr (if auth = JUndefined \<or> auth = JNull then JStr ''default'' else or_val (jget auth ''type'') (JStr ''default'')))"

definition buildAdvancedCustomAuth :: "auth_mode \<Rightarrow> jsval \<Rightarrow> jsval" where
  "buildAdvancedCustomAuth mode previousAuth =
     (case mode of
        AuthDefault \<Rightarrow> JUndefined
      | AuthNone \<Rightarrow> JObj [(''type'', JStr ''none'')]
      | AuthHeader \<Rightarrow>
          JObj [(''type'', JStr ''header''), (''name'', or_val (jget previousAuth ''name'') (JStr ''Authorization'')),
            (''value'', or_val (jget previousAuth ''value'') (JStr ''Bearer {api_key}''))]
      | AuthQuery \<Rightarrow>
          JObj [(''type'', JStr ''query''), (''name'', or_val (jget previousAuth ''name'') (JStr ''api_key'')),
            (''value'', or_val (jget previousAuth ''value'') (JStr ''{api_key}''))])"

section \<open>Normalization\<close>

definition getAdvancedCustomRouteUpstreamPath :: "jsval \<Rightarrow> string exn" where
  "getAdvancedCustomRouteUpstreamPath route =
     bind_exn (member_of route ''upstream_path'') (\<lambda>upstream_path. trim_val (or_val upstream_path (JStr [])))"

definition normalizeAdvancedCustomRouteModels :: "jsval \<Rightarrow> string list exn" where
  "normalizeAdvancedCustomRouteModels models =
     (case models of
        JArr vs \<Rightarrow> bind_exn (map_exn trim_val vs) (\<lambda>ms. Inr (filter (\<lambda>m. m \<noteq> []) ms))
      | _ \<Rightarrow> Inr [])"

definition normalized_auth :: "jsval \<Rightarrow> jsval" where
  "normalized_auth auth =
     JObj [(''type'', jget auth ''type''), (''name'', or_val (jget auth ''name'') (JStr [])),
       (''value'', or_val (jget auth ''value'') (JStr []))]"

definition normalizeAdvancedCustomRoute :: "jsval \<Rightarrow> jsval exn" where
  "normalizeAdvancedCustomRoute route =
     bind_exn (member_of route ''incoming_path'') (\<lambda>incoming_path.
     bind_exn (getAdvancedCustomRouteUpstreamPath route) (\<lambda>upstream_path.
     bind_exn (member_of route ''converter'') (\<lambda>converter.
     bind_exn (normalizeAdvancedCustomRouteModels (jget route ''models'')) (\<lambda>models.
     let auth = jget route ''auth''
     in Inr (JObj
          ([(''incoming_path'', or_val incoming_path (JStr [])), (''upstream_path'', JStr upstream_path),
            (''converter'', or_val converter (JStr ''none''))] @
           (if models \<noteq> [] then [(''models'', JArr (map JStr models))] else []) @
           (if jtruthy auth then [(''auth'', normalized_auth auth)] else [])))))))"

text \<open>The routes of the normalized configuration; \<open>config_of\<close> makes the configuration of them.\<close>

definition normalized_routes :: "jsval \<Rightarrow> jsval list exn" where
  "normalized_routes config = bind_exn (member_of config ''advanced_routes'') (\<lambda>routes.
     case routes of JArr rs \<Rightarrow> map_exn normalizeAdvancedCustomRoute rs | _ \<Rightarrow> Inr [])"

definition normalizeAdvancedCustomConfig :: "jsval \<Rightarrow> jsval exn" where
  "normalizeAdvancedCustomConfig config = bind_exn (normalized_routes config) (\<lambda>routes. Inr (config_of routes))"

section \<open>Text\<close>

definition parseAdvancedCustomConfig :: "string option \<Rightarrow> jsval option" where
  "parseAdvancedCustomConfig v =
     (case v of
        None \<Rightarrow> None
      | Some s \<Rightarrow>
          if js_trim s = [] then None
          else case json_parse s of
              Some (JObj kvs) \<Rightarrow> catch_exn (bind_exn (normalizeAdvancedCustomConfig (JObj kvs)) (\<lambda>c. Inr (Some c))) None
            | _ \<Rightarrow> None)"

definition stringifyAdvancedCustomConfig :: "jsval \<Rightarrow> string exn" where
  "stringifyAdvancedCustomConfig config = bind_exn (normalizeAdvancedCustomConfig config) (\<lambda>c. Inr (json_pretty [] c))"

definition parseAdvancedCustomRouteModels :: "string \<Rightarrow> string list" where
  "parseAdvancedCustomRouteModels v = js_unique (filter (\<lambda>m. m \<noteq> []) (map js_trim (js_split (CHR '','') v)))"

datatype model_rule_kind = RuleExact | RuleRegex

definition getAdvancedCustomModelRuleKind :: "string \<Rightarrow> model_rule_kind" where
  "getAdvancedCustomModelRuleKind modelRule =
     (if js_starts_with modelRule ADVANCED_CUSTOM_MODEL_REGEX_PREFIX then RuleRegex else RuleExact)"

definition getAdvancedCustomRegexModelPattern :: "string \<Rightarrow> string" where
  "getAdvancedCustomRegexModelPattern modelRule = drop (length ADVANCED_CUSTOM_MODEL_REGEX_PREFIX) modelRule"

section \<open>The edits\<close>

text \<open>\<open>route.incoming_path?.trim()\<close>, as it is compared with a path and as \<open>|| ''\<close> completes it.\<close>

definition incoming_is :: "string \<Rightarrow> jsval \<Rightarrow> bool exn" where
  "incoming_is path route = bind_exn (member_of route ''incoming_path'') (\<lambda>v.
     bind_exn (trim_opt v) (\<lambda>t. Inr (t = Some path)))"

definition incoming_path_of :: "jsval \<Rightarrow> string exn" where
  "incoming_path_of route = bind_exn (member_of route ''incoming_path'') (\<lambda>v.
     bind_exn (trim_opt v) (\<lambda>t. Inr (coalesce t [])))"

definition is_management :: "jsval \<Rightarrow> bool exn" where
  "is_management route = bind_exn (incoming_path_of route) (\<lambda>p. Inr (isAdvancedCustomManagementPath p))"

definition getAdvancedCustomManagementRoute :: "jsval \<Rightarrow> string \<Rightarrow> jsval option exn" where
  "getAdvancedCustomManagementRoute config path =
     bind_exn (normalized_routes config) (\<lambda>routes.
     bind_exn (find_index_exn (incoming_is path) routes) (\<lambda>index. Inr (map_option (nth routes) index)))"

definition management_route :: "string \<Rightarrow> jsval \<Rightarrow> jsval" where
  "management_route path route =
     JObj [(''incoming_path'', JStr path), (''upstream_path'', or_val (jget route ''upstream_path'') (JStr [])),
       (''converter'', JStr ''none''), (''models'', JArr []), (''auth'', jget route ''auth'')]"

definition replaceAdvancedCustomManagementRoute :: "jsval \<Rightarrow> string \<Rightarrow> jsval option \<Rightarrow> jsval exn" where
  "replaceAdvancedCustomManagementRoute config path route =
     bind_exn (normalized_routes config) (\<lambda>routes.
     bind_exn (find_index_exn (incoming_is path) routes) (\<lambda>index.
     Inr (config_of
       (case route of
          None \<Rightarrow> (case index of Some i \<Rightarrow> take i routes @ drop (Suc i) routes | None \<Rightarrow> routes)
        | Some r \<Rightarrow>
            (case index of Some i \<Rightarrow> routes[i := management_route path r] | None \<Rightarrow> routes @ [management_route path r])))))"

definition replaceAdvancedCustomForwardingRoutes :: "jsval \<Rightarrow> jsval list \<Rightarrow> jsval exn" where
  "replaceAdvancedCustomForwardingRoutes config forwardingRoutes =
     bind_exn (normalized_routes config) (\<lambda>routes.
     bind_exn (find_index_exn (\<lambda>r. bind_exn (is_management r) (\<lambda>b. Inr (\<not> b))) routes) (\<lambda>firstForwardingIndex.
     bind_exn (filter_exn is_management routes) (\<lambda>managementRoutes.
     case firstForwardingIndex of
       None \<Rightarrow> Inr (config_of (managementRoutes @ forwardingRoutes))
     | Some i \<Rightarrow>
         bind_exn (filter_exn is_management (take i routes)) (\<lambda>before.
         bind_exn (filter_exn is_management (drop i routes)) (\<lambda>after.
         Inr (config_of (before @ forwardingRoutes @ after)))))))"

section \<open>Validation\<close>

record validation_error =
  ve_message :: string
  ve_routeIndex :: "nat option"

definition route_error :: "nat \<Rightarrow> string \<Rightarrow> validation_error" where
  "route_error index message = \<lparr>ve_message = message, ve_routeIndex = Some index\<rparr>"

text \<open>The rules seen so far for an incoming path.\<close>

record path_state =
  ps_catchAllIndex :: "nat option"
  ps_models :: "string \<rightharpoonup> nat"

type_synonym path_states = "string \<rightharpoonup> path_state"

definition new_path_state :: path_state where
  "new_path_state = \<lparr>ps_catchAllIndex = None, ps_models = Map.empty\<rparr>"

fun models_loop :: "nat \<Rightarrow> string list \<Rightarrow> string list \<Rightarrow> path_state \<Rightarrow> validation_error option \<times> path_state" where
  "models_loop routeIndex seenInRoute [] st = (None, st)"
| "models_loop routeIndex seenInRoute (model # models) st =
     (if getAdvancedCustomModelRuleKind model = RuleRegex \<and> getAdvancedCustomRegexModelPattern model = [] then
        (Some (route_error routeIndex ''Model regex cannot be empty''), st)
      else if model \<in> set seenInRoute then (Some (route_error routeIndex ''Duplicate model in route models''), st)
      else if ps_models st model \<noteq> None then
        (Some (route_error routeIndex ''Route models must be unique for the same incoming path''), st)
      else models_loop routeIndex (model # seenInRoute) models (st\<lparr>ps_models := (ps_models st)(model \<mapsto> routeIndex)\<rparr>))"

definition validateAdvancedCustomRouteModels ::
  "nat \<Rightarrow> string \<Rightarrow> string list \<Rightarrow> path_states \<Rightarrow> validation_error option \<times> path_states" where
  "validateAdvancedCustomRouteModels routeIndex incomingPath models states =
     (let st = coalesce (states incomingPath) new_path_state
      in if models = [] then
           (if ps_catchAllIndex st \<noteq> None then
              (Some (route_error routeIndex ''Only one catch-all route is allowed for the same incoming path''),
               states(incomingPath \<mapsto> st))
            else (None, states(incomingPath \<mapsto> st\<lparr>ps_catchAllIndex := Some routeIndex\<rparr>)))
         else if ps_catchAllIndex st \<noteq> None then
           (Some (route_error routeIndex ''Catch-all route must be last for the same incoming path''),
            states(incomingPath \<mapsto> st))
         else (let (e, st') = models_loop routeIndex [] models st in (e, states(incomingPath \<mapsto> st'))))"

text \<open>
  \<open>new URL(text)\<close> is a parameter: the host and the protocol, or nothing when the constructor throws.
\<close>

type_synonym url_parser = "string \<Rightarrow> (string \<times> string) option"

definition isFullHttpURLOrAbsolutePath :: "url_parser \<Rightarrow> string \<Rightarrow> bool" where
  "isFullHttpURLOrAbsolutePath url v =
     (if js_starts_with v ''/'' then \<not> js_starts_with v ''//''
      else case url v of
          None \<Rightarrow> False
        | Some (host, protocol) \<Rightarrow> host \<noteq> [] \<and> (protocol = ''http:'' \<or> protocol = ''https:''))"

definition isAdvancedCustomConverter :: "jsval \<Rightarrow> bool" where
  "isAdvancedCustomConverter v \<longleftrightarrow> list_ex (\<lambda>option. JStr (co_value option) = v) ADVANCED_CUSTOM_CONVERTER_OPTIONS"

definition validateRouteAuth :: "jsval \<Rightarrow> string option exn" where
  "validateRouteAuth auth =
     (if \<not> jtruthy auth then Inr None
      else if jget auth ''type'' = JStr ''none'' then Inr None
      else if jget auth ''type'' \<noteq> JStr ''header'' \<and> jget auth ''type'' \<noteq> JStr ''query'' then Inr (Some ''Auth type is invalid'')
      else bind_exn (trim_opt (jget auth ''name'')) (\<lambda>name.
        if coalesce name [] = [] then Inr (Some ''Auth name is required'')
        else bind_exn (trim_opt (jget auth ''value'')) (\<lambda>v.
          if coalesce v [] = [] then Inr (Some ''Auth value is required'') else Inr None)))"

record validation_state =
  vs_paths :: path_states
  vs_modelListRouteIndex :: "nat option"
  vs_balanceRouteIndex :: "nat option"

text \<open>The checks of a management route; the state remembers its index.\<close>

definition check_management ::
  "nat \<Rightarrow> string \<Rightarrow> string list \<Rightarrow> jsval \<Rightarrow> string \<Rightarrow> validation_state \<Rightarrow> validation_error option \<times> validation_state" where
  "check_management index incomingPath routeModels converter upstreamPath st =
     (if \<not> isAdvancedCustomManagementPath incomingPath then (None, st)
      else
        (let isModelListRoute = (incomingPath = ADVANCED_CUSTOM_MODEL_LIST_PATH);
             existingIndex = (if isModelListRoute then vs_modelListRouteIndex st else vs_balanceRouteIndex st);
             routeLabel = (if isModelListRoute then ''OpenAI Models'' else ''Balance Query'')
         in if existingIndex \<noteq> None then
              (Some (route_error index (''Only one '' @ routeLabel @ '' route is allowed'')), st)
            else
              (let st' = (if isModelListRoute then st\<lparr>vs_modelListRouteIndex := Some index\<rparr>
                          else st\<lparr>vs_balanceRouteIndex := Some index\<rparr>)
               in if routeModels \<noteq> [] then
                    (Some (route_error index (routeLabel @ '' route does not support client model rules'')), st')
                  else if converter \<noteq> JStr ''none'' then
                    (Some (route_error index (routeLabel @ '' route must use native forwarding'')), st')
                  else if js_includes upstreamPath ''{model}'' then
                    (Some (route_error index (routeLabel @ '' upstream path must not contain {model}'')), st')
                  else (None, st'))))"

text \<open>The checks that follow the models of the route.\<close>

definition check_target :: "url_parser \<Rightarrow> nat \<Rightarrow> string \<Rightarrow> string \<Rightarrow> jsval \<Rightarrow> jsval \<Rightarrow> validation_error option exn" where
  "check_target url index incomingPath upstreamPath converter auth =
     (if upstreamPath = [] then Inr (Some (route_error index ''Upstream path is required''))
      else if \<not> isFullHttpURLOrAbsolutePath url upstreamPath then
        Inr (Some (route_error index ''Upstream path must be a full URL or a path starting with /''))
      else if \<not> isAdvancedCustomConverter converter then Inr (Some (route_error index ''Converter is not registered''))
      else if \<not> isConverterPathAllowed incomingPath (js_string converter) then
        Inr (Some (route_error index ''Converter does not match incoming path''))
      else bind_exn (validateRouteAuth auth) (\<lambda>authError. Inr (map_option (route_error index) authError)))"

text \<open>One turn of the loop.\<close>

definition validate_route ::
  "url_parser \<Rightarrow> nat \<Rightarrow> jsval \<Rightarrow> validation_state \<Rightarrow> (validation_error option \<times> validation_state) exn" where
  "validate_route url index route st =
     bind_exn (incoming_path_of route) (\<lambda>incomingPath.
     bind_exn (getAdvancedCustomRouteUpstreamPath route) (\<lambda>upstreamPath.
     let converter = or_val (jget route ''converter'') (JStr ''none'') in
     bind_exn (normalizeAdvancedCustomRouteModels (jget route ''models'')) (\<lambda>routeModels.
     if incomingPath = [] then Inr (Some (route_error index ''Incoming path is required''), st)
     else if \<not> js_starts_with incomingPath ''/'' then Inr (Some (route_error index ''Incoming path must start with /''), st)
     else if js_includes incomingPath ''?'' then Inr (Some (route_error index ''Incoming path must not include query''), st)
     else
       (case check_management index incomingPath routeModels converter upstreamPath st of
          (Some e, st1) \<Rightarrow> Inr (Some e, st1)
        | (None, st1) \<Rightarrow>
            (case validateAdvancedCustomRouteModels index incomingPath routeModels (vs_paths st1) of
               (Some e, paths) \<Rightarrow> Inr (Some e, st1\<lparr>vs_paths := paths\<rparr>)
             | (None, paths) \<Rightarrow>
                 bind_exn (check_target url index incomingPath upstreamPath converter (jget route ''auth''))
                   (\<lambda>e. Inr (e, st1\<lparr>vs_paths := paths\<rparr>)))))))"

fun validate_loop :: "url_parser \<Rightarrow> nat \<Rightarrow> jsval list \<Rightarrow> validation_state \<Rightarrow> validation_error option exn" where
  "validate_loop url index [] st = Inr None"
| "validate_loop url index (route # routes) st =
     bind_exn (validate_route url index route st) (\<lambda>(e, st').
       case e of Some err \<Rightarrow> Inr (Some err) | None \<Rightarrow> validate_loop url (Suc index) routes st')"

definition validation_start :: validation_state where
  "validation_start = \<lparr>vs_paths = Map.empty, vs_modelListRouteIndex = None, vs_balanceRouteIndex = None\<rparr>"

definition validateAdvancedCustomConfig :: "url_parser \<Rightarrow> jsval option \<Rightarrow> validation_error option exn" where
  "validateAdvancedCustomConfig url config =
     (case config of
        None \<Rightarrow> Inr (Some \<lparr>ve_message = ''Advanced custom configuration is required'', ve_routeIndex = None\<rparr>)
      | Some c \<Rightarrow>
          bind_exn (normalized_routes c) (\<lambda>routes.
          if routes = [] then
            Inr (Some \<lparr>ve_message = ''Advanced custom configuration requires at least one route'', ve_routeIndex = None\<rparr>)
          else validate_loop url 0 routes validation_start))"

section \<open>What the editor shows\<close>

definition hasValidAdvancedCustomModelListRoute :: "url_parser \<Rightarrow> jsval option \<Rightarrow> bool exn" where
  "hasValidAdvancedCustomModelListRoute url config =
     (case config of
        None \<Rightarrow> Inr False
      | Some c \<Rightarrow>
          bind_exn (validateAdvancedCustomConfig url config) (\<lambda>e.
          if e \<noteq> None then Inr False
          else bind_exn (normalized_routes c) (some_exn (incoming_is ADVANCED_CUSTOM_MODEL_LIST_PATH))))"

definition advancedCustomConfigUsesRelativeUpstreamPath :: "jsval option \<Rightarrow> bool exn" where
  "advancedCustomConfigUsesRelativeUpstreamPath config =
     (case config of
        None \<Rightarrow> Inr False
      | Some c \<Rightarrow>
          bind_exn (normalized_routes c) (some_exn (\<lambda>route.
            bind_exn (getAdvancedCustomRouteUpstreamPath route) (\<lambda>p. Inr (js_starts_with p ''/'')))))"

text \<open>
  A label of a summary: a text, or what a plain object inherits under the name of the path.
\<close>

datatype summary_label = LabelText string | LabelInherited string

definition object_prototype_keys :: "string list" where
  "object_prototype_keys =
    [''constructor'', ''__defineGetter__'', ''__defineSetter__'', ''hasOwnProperty'', ''__lookupGetter__'', ''__lookupSetter__'',
     ''isPrototypeOf'', ''propertyIsEnumerable'', ''toString'', ''valueOf'', ''__proto__'', ''toLocaleString'']"

definition getAdvancedCustomRouteSummaryLabel :: "jsval \<Rightarrow> summary_label option exn" where
  "getAdvancedCustomRouteSummaryLabel route = bind_exn (incoming_path_of route) (\<lambda>incomingPath.
     Inr (if incomingPath = [] then None
          else case map_of ADVANCED_CUSTOM_ROUTE_SUMMARY_LABELS incomingPath of
              Some label \<Rightarrow> Some (LabelText label)
            | None \<Rightarrow>
                if incomingPath \<in> set object_prototype_keys then Some (LabelInherited incomingPath)
                else Some (LabelText (getAdvancedCustomIncomingPathLabel incomingPath))))"

fun labels_loop :: "jsval list \<Rightarrow> summary_label list \<Rightarrow> summary_label list exn" where
  "labels_loop [] labels = Inr labels"
| "labels_loop (route # routes) labels =
     bind_exn (getAdvancedCustomRouteSummaryLabel route) (\<lambda>label.
       case label of
         None \<Rightarrow> labels_loop routes labels
       | Some l \<Rightarrow> labels_loop routes (if l \<in> set labels then labels else labels @ [l]))"

record route_stats =
  rs_routeCount :: nat
  rs_valid :: bool
  rs_routeTypeLabels :: "summary_label list"

definition getAdvancedCustomStats :: "url_parser \<Rightarrow> string option \<Rightarrow> route_stats exn" where
  "getAdvancedCustomStats url v =
     (case parseAdvancedCustomConfig v of
        None \<Rightarrow> Inr \<lparr>rs_routeCount = 0, rs_valid = False, rs_routeTypeLabels = []\<rparr>
      | Some config \<Rightarrow>
          bind_exn (normalizeAdvancedCustomConfig config) (\<lambda>normalized.
          bind_exn (normalized_routes config) (\<lambda>routes.
          bind_exn (labels_loop routes []) (\<lambda>routeTypeLabels.
          bind_exn (validateAdvancedCustomConfig url (Some normalized)) (\<lambda>e.
          Inr \<lparr>rs_routeCount = length routes, rs_valid = (e = None), rs_routeTypeLabels = routeTypeLabels\<rparr>)))))"

end
