(* ===== verification/Custom_Route_Facts.thy ===== *)
theory Custom_Route_Facts
  imports Custom_Routes
begin

text \<open>
  Configurations of the declared type: what their routes say, the normal form of a route, what validation accepts
  and how the edits change the routes.
\<close>

section \<open>The declared type\<close>

definition opt_text :: "jsval \<Rightarrow> bool" where
  "opt_text v \<longleftrightarrow> v = JUndefined \<or> is_jstr v"

definition is_obj :: "jsval \<Rightarrow> bool" where
  "is_obj v \<longleftrightarrow> (case v of JObj _ \<Rightarrow> True | _ \<Rightarrow> False)"

definition typed_models :: "jsval \<Rightarrow> bool" where
  "typed_models v \<longleftrightarrow> v = JUndefined \<or> (case v of JArr ms \<Rightarrow> list_all is_jstr ms | _ \<Rightarrow> False)"

definition typed_auth :: "jsval \<Rightarrow> bool" where
  "typed_auth v \<longleftrightarrow> v = JUndefined \<or>
     is_obj v \<and> opt_text (jget v ''type'') \<and> opt_text (jget v ''name'') \<and> opt_text (jget v ''value'')"

definition typed_route :: "jsval \<Rightarrow> bool" where
  "typed_route v \<longleftrightarrow> is_obj v \<and> opt_text (jget v ''incoming_path'') \<and> opt_text (jget v ''upstream_path'') \<and>
     opt_text (jget v ''converter'') \<and> typed_models (jget v ''models'') \<and> typed_auth (jget v ''auth'')"

definition typed_config :: "jsval \<Rightarrow> bool" where
  "typed_config v \<longleftrightarrow> is_obj v \<and> (jget v ''advanced_routes'' = JUndefined \<or>
     (case jget v ''advanced_routes'' of JArr rs \<Rightarrow> list_all typed_route rs | _ \<Rightarrow> False))"

section \<open>What a route says\<close>

definition text_of :: "jsval \<Rightarrow> string" where
  "text_of v = (case v of JStr s \<Rightarrow> s | _ \<Rightarrow> [])"

definition texts_of :: "jsval \<Rightarrow> string list" where
  "texts_of v = (case v of JArr vs \<Rightarrow> map text_of vs | _ \<Rightarrow> [])"

definition in_path :: "jsval \<Rightarrow> string" where
  "in_path r = js_trim (text_of (jget r ''incoming_path''))"

definition up_path :: "jsval \<Rightarrow> string" where
  "up_path r = js_trim (text_of (jget r ''upstream_path''))"

definition converter_of :: "jsval \<Rightarrow> string" where
  "converter_of r = (let c = text_of (jget r ''converter'') in if c = [] then ''none'' else c)"

definition models_of :: "jsval \<Rightarrow> string list" where
  "models_of r = filter (\<lambda>m. m \<noteq> []) (map js_trim (texts_of (jget r ''models'')))"

definition routes_of :: "jsval \<Rightarrow> jsval list" where
  "routes_of c = (case jget c ''advanced_routes'' of JArr rs \<Rightarrow> rs | _ \<Rightarrow> [])"

definition management :: "jsval \<Rightarrow> bool" where
  "management r \<longleftrightarrow> isAdvancedCustomManagementPath (in_path r)"

definition normal_auth :: "jsval \<Rightarrow> jsval" where
  "normal_auth a = JObj [(''type'', jget a ''type''), (''name'', JStr (text_of (jget a ''name''))),
     (''value'', JStr (text_of (jget a ''value'')))]"

definition normal_route :: "jsval \<Rightarrow> jsval" where
  "normal_route r = JObj
     ([(''incoming_path'', JStr (text_of (jget r ''incoming_path''))), (''upstream_path'', JStr (up_path r)),
       (''converter'', JStr (converter_of r))] @
      (if models_of r \<noteq> [] then [(''models'', JArr (map JStr (models_of r)))] else []) @
      (if jget r ''auth'' \<noteq> JUndefined then [(''auth'', normal_auth (jget r ''auth''))] else []))"

section \<open>Nothing throws on typed configurations\<close>

lemma opt_text_cases:
  assumes "opt_text v" obtains "v = JUndefined" | s where "v = JStr s"
  using assms by (auto simp: opt_text_def is_jstr_iff)

lemma opt_text_simps [simp]: "opt_text JUndefined" "opt_text (JStr s)"
  by (simp_all add: opt_text_def is_jstr_iff)

lemma text_of_simps [simp]: "text_of (JStr s) = s" "text_of JUndefined = []"
  by (simp_all add: text_of_def)

lemma or_text: "opt_text v \<Longrightarrow> or_val v (JStr []) = JStr (text_of v)"
  by (erule opt_text_cases) (auto simp: or_val_def jtruthy_def)

lemma or_none: "opt_text v \<Longrightarrow> or_val v (JStr ''none'') = JStr (let c = text_of v in if c = [] then ''none'' else c)"
  by (erule opt_text_cases) (auto simp: or_val_def jtruthy_def)

lemma trim_text: "opt_text v \<Longrightarrow> bind_exn (trim_opt v) (\<lambda>t. Inr (coalesce t [])) = Inr (js_trim (text_of v))"
  by (erule opt_text_cases) (auto simp: trim_opt_def trim_val_def)

lemma trim_opt_text: "opt_text v \<Longrightarrow> \<exists>t. trim_opt v = Inr t \<and> coalesce t [] = js_trim (text_of v) \<and> (t = None \<longleftrightarrow> v = JUndefined)"
  by (erule opt_text_cases) (auto simp: trim_opt_def trim_val_def)

lemma typed_routeD:
  assumes "typed_route r"
  shows "is_obj r" "opt_text (jget r ''incoming_path'')" "opt_text (jget r ''upstream_path'')" "opt_text (jget r ''converter'')"
    "typed_models (jget r ''models'')" "typed_auth (jget r ''auth'')" "\<And>k. member_of r k = Inr (jget r k)"
  using assms by (auto simp: typed_route_def is_obj_def member_of_def)

lemma incoming_typed: "typed_route r \<Longrightarrow> incoming_path_of r = Inr (in_path r)"
  by (simp add: incoming_path_of_def typed_routeD trim_text in_path_def)

lemma incoming_is_typed: "\<lbrakk> typed_route r; path \<noteq> [] \<rbrakk> \<Longrightarrow> incoming_is path r = Inr (in_path r = path)"
  by (cases rule: opt_text_cases [OF typed_routeD(2) [of r]])
    (auto simp: incoming_is_def typed_routeD in_path_def trim_opt_def trim_val_def)

lemma upstream_typed: "typed_route r \<Longrightarrow> getAdvancedCustomRouteUpstreamPath r = Inr (up_path r)"
  by (simp add: getAdvancedCustomRouteUpstreamPath_def typed_routeD or_text trim_val_def up_path_def)

lemma models_typed: "typed_models v \<Longrightarrow> normalizeAdvancedCustomRouteModels v = Inr (filter (\<lambda>m. m \<noteq> []) (map js_trim (texts_of v)))"
proof (cases v)
  case (JArr vs)
  moreover assume "typed_models v"
  ultimately have "map_exn trim_val vs = Inr (map (\<lambda>v. js_trim (text_of v)) vs)"
    by (intro map_exn_total) (auto simp: typed_models_def list_all_iff is_jstr_iff trim_val_def)
  with JArr show ?thesis by (simp add: normalizeAdvancedCustomRouteModels_def texts_of_def comp_def)
qed (simp_all add: normalizeAdvancedCustomRouteModels_def texts_of_def typed_models_def)

lemma auth_typed: "typed_auth a \<Longrightarrow> jtruthy a \<longleftrightarrow> a \<noteq> JUndefined"
  by (auto simp: typed_auth_def is_obj_def jtruthy_def split: jsval.splits)

lemma normalized_auth_typed: "typed_auth a \<Longrightarrow> a \<noteq> JUndefined \<Longrightarrow> normalized_auth a = normal_auth a"
  by (simp add: typed_auth_def normalized_auth_def normal_auth_def or_text)

lemma normalize_typed: "typed_route r \<Longrightarrow> normalizeAdvancedCustomRoute r = Inr (normal_route r)"
  using typed_routeD [of r]
  by (auto simp: normalizeAdvancedCustomRoute_def upstream_typed models_typed normal_route_def or_text or_none models_of_def
      converter_of_def auth_typed normalized_auth_typed Let_def)

lemma typed_configD:
  assumes "typed_config c"
  shows "member_of c k = Inr (jget c k)" "list_all typed_route (routes_of c)"
    "jget c ''advanced_routes'' = JUndefined \<or> jget c ''advanced_routes'' = JArr (routes_of c)"
  using assms by (cases c; cases "jget c ''advanced_routes''"; simp add: typed_config_def member_of_def routes_of_def is_obj_def)+

lemma normalized_routes_typed: "typed_config c \<Longrightarrow> normalized_routes c = Inr (map normal_route (routes_of c))"
  using typed_configD [of c] map_exn_total [of "routes_of c" normalizeAdvancedCustomRoute normal_route]
  by (auto simp: normalized_routes_def list_all_iff normalize_typed) (simp add: routes_of_def)

section \<open>The normal form\<close>

lemma jget_obj [simp]: "jget (JObj kvs) k = (case map_of kvs k of None \<Rightarrow> JUndefined | Some x \<Rightarrow> x)"
  by (simp add: jget_def)

lemma normal_route_get [simp]:
  "jget (normal_route r) ''incoming_path'' = JStr (text_of (jget r ''incoming_path''))"
  "jget (normal_route r) ''upstream_path'' = JStr (up_path r)"
  "jget (normal_route r) ''converter'' = JStr (converter_of r)"
  "jget (normal_route r) ''models'' = (if models_of r \<noteq> [] then JArr (map JStr (models_of r)) else JUndefined)"
  "jget (normal_route r) ''auth'' = (if jget r ''auth'' \<noteq> JUndefined then normal_auth (jget r ''auth'') else JUndefined)"
  by (auto simp: normal_route_def)

lemma trim_models: "map js_trim (models_of r) = models_of r"
  by (auto simp: models_of_def intro!: map_idI)

lemma normal_says [simp]:
  "in_path (normal_route r) = in_path r" "up_path (normal_route r) = up_path r"
  "converter_of (normal_route r) = converter_of r" "models_of (normal_route r) = models_of r"
proof -
  have "models_of (normal_route r) = filter (\<lambda>m. m \<noteq> []) (map js_trim (models_of r))"
    by (simp add: models_of_def [of "normal_route r"] texts_of_def comp_def)
  also have "\<dots> = models_of r" unfolding trim_models by (simp add: models_of_def)
  finally show "models_of (normal_route r) = models_of r" .
qed (auto simp: in_path_def up_path_def converter_of_def Let_def)

lemma normal_auth_get [simp]:
  "jget (normal_auth a) ''type'' = jget a ''type''" "jget (normal_auth a) ''name'' = JStr (text_of (jget a ''name''))"
  "jget (normal_auth a) ''value'' = JStr (text_of (jget a ''value''))" "normal_auth a \<noteq> JUndefined" "is_obj (normal_auth a)"
  by (simp_all add: normal_auth_def is_obj_def)

lemma normal_auth_idem [simp]: "normal_auth (normal_auth a) = normal_auth a"
  by (simp add: normal_auth_def [of "normal_auth a"]) (simp add: normal_auth_def)

lemma management_normal [simp]: "management (normal_route r) = management r"
  by (simp add: management_def)

lemma normal_route_idem [simp]: "normal_route (normal_route r) = normal_route r"
  by (simp add: normal_route_def [of "normal_route r"]) (auto simp: normal_route_def)

lemma is_obj_normal: "is_obj (normal_route r)"
  by (simp add: normal_route_def is_obj_def)

lemma typed_normal: "typed_route r \<Longrightarrow> typed_route (normal_route r)"
  by (auto simp: typed_route_def typed_models_def typed_auth_def is_obj_normal list_all_iff is_jstr_iff)

lemma routes_of_config [simp]: "routes_of (config_of rs) = rs"
  by (simp add: routes_of_def config_of_def)

lemma typed_config_of [simp]: "typed_config (config_of rs) \<longleftrightarrow> list_all typed_route rs"
  by (simp add: typed_config_def config_of_def is_obj_def)

lemma typed_normal_routes: "typed_config c \<Longrightarrow> list_all typed_route (map normal_route (routes_of c))"
  using typed_configD(2) [of c] by (simp add: list_all_iff typed_normal)

section \<open>What validation accepts\<close>

definition auth_ok :: "jsval \<Rightarrow> bool" where
  "auth_ok a \<longleftrightarrow> a = JUndefined \<or> jget a ''type'' = JStr ''none'' \<or>
     (jget a ''type'' = JStr ''header'' \<or> jget a ''type'' = JStr ''query'') \<and>
     js_trim (text_of (jget a ''name'')) \<noteq> [] \<and> js_trim (text_of (jget a ''value'')) \<noteq> []"

text \<open>A route by itself.\<close>

definition route_ok :: "url_parser \<Rightarrow> jsval \<Rightarrow> bool" where
  "route_ok url r \<longleftrightarrow>
     js_starts_with (in_path r) ''/'' \<and> \<not> js_includes (in_path r) ''?'' \<and>
     (management r \<longrightarrow> models_of r = [] \<and> converter_of r = ''none'' \<and> \<not> js_includes (up_path r) ''{model}'') \<and>
     distinct (models_of r) \<and> ''re:'' \<notin> set (models_of r) \<and>
     up_path r \<noteq> [] \<and> isFullHttpURLOrAbsolutePath url (up_path r) \<and>
     isAdvancedCustomConverter (JStr (converter_of r)) \<and> isConverterPathAllowed (in_path r) (converter_of r) \<and>
     auth_ok (jget r ''auth'')"

text \<open>Two routes in their order: a route for the same path after a catch-all would never be taken, and no model has
  two routes.\<close>

definition compatible :: "jsval \<Rightarrow> jsval \<Rightarrow> bool" where
  "compatible r r' \<longleftrightarrow> in_path r = in_path r' \<longrightarrow> models_of r \<noteq> [] \<and> set (models_of r) \<inter> set (models_of r') = {}"

definition routes_ok :: "url_parser \<Rightarrow> jsval list \<Rightarrow> bool" where
  "routes_ok url rs \<longleftrightarrow> list_all (route_ok url) rs \<and> sorted_wrt compatible rs"

lemma routes_ok_snoc:
  "routes_ok url (rs @ [r]) \<longleftrightarrow> routes_ok url rs \<and> route_ok url r \<and> (\<forall>d \<in> set rs. compatible d r)"
  by (auto simp: routes_ok_def sorted_wrt_append)

lemma routes_ok_prefix: "routes_ok url (rs @ rs') \<Longrightarrow> routes_ok url rs"
  by (simp add: routes_ok_def sorted_wrt_append)

lemma route_ok_normal [simp]: "route_ok url (normal_route r) = route_ok url r"
  by (simp add: route_ok_def auth_ok_def)

lemma compatible_normal [simp]: "compatible (normal_route r) (normal_route r') = compatible r r'"
  by (simp add: compatible_def)

lemma routes_ok_normal [simp]: "routes_ok url (map normal_route rs) = routes_ok url rs"
  by (simp add: routes_ok_def list_all_iff sorted_wrt_map)

lemma empty_regex:
  "getAdvancedCustomModelRuleKind m = RuleRegex \<and> getAdvancedCustomRegexModelPattern m = [] \<longleftrightarrow> m = ''re:''"
  by (auto simp: getAdvancedCustomModelRuleKind_def getAdvancedCustomRegexModelPattern_def
      ADVANCED_CUSTOM_MODEL_REGEX_PREFIX_def js_starts_with_iff)

lemma validateRouteAuth_typed:
  assumes "typed_auth a"
  shows "\<exists>e. validateRouteAuth a = Inr e \<and> (e = None \<longleftrightarrow> auth_ok a)"
proof (cases "a = JUndefined")
  case False
  with assms obtain n v where "trim_opt (jget a ''name'') = Inr n" "coalesce n [] = js_trim (text_of (jget a ''name''))"
      "trim_opt (jget a ''value'') = Inr v" "coalesce v [] = js_trim (text_of (jget a ''value''))"
    using trim_opt_text by (auto simp: typed_auth_def) metis
  with False assms show ?thesis by (auto simp: validateRouteAuth_def auth_ok_def auth_typed)
qed (simp add: validateRouteAuth_def auth_ok_def jtruthy_def)

lemma models_loop_spec:
  "models_loop i seen ms st = (e, st') \<Longrightarrow>
    (e = None \<longleftrightarrow> distinct ms \<and> ''re:'' \<notin> set ms \<and> (\<forall>m \<in> set ms. m \<notin> set seen \<and> ps_models st m = None)) \<and>
    (case e of None \<Rightarrow> ps_catchAllIndex st' = ps_catchAllIndex st \<and> dom (ps_models st') = dom (ps_models st) \<union> set ms
     | Some err \<Rightarrow> ve_routeIndex err = Some i)"
proof (induction i seen ms st rule: models_loop.induct)
  case (2 i seen m ms st)
  show ?case
  proof (cases "m = ''re:'' \<or> m \<in> set seen \<or> ps_models st m \<noteq> None")
    case True
    with "2.prems" show ?thesis by (auto simp: empty_regex route_error_def split: if_splits)
  next
    case False
    let ?st = "st\<lparr>ps_models := (ps_models st)(m \<mapsto> i)\<rparr>"
    have loop: "models_loop i (m # seen) ms ?st = (e, st')" using "2.prems" False empty_regex [of m] by auto
    have IH: "(e = None \<longleftrightarrow> distinct ms \<and> ''re:'' \<notin> set ms \<and> (\<forall>x \<in> set ms. x \<notin> set (m # seen) \<and> ps_models ?st x = None)) \<and>
        (case e of None \<Rightarrow> ps_catchAllIndex st' = ps_catchAllIndex ?st \<and> dom (ps_models st') = dom (ps_models ?st) \<union> set ms
         | Some err \<Rightarrow> ve_routeIndex err = Some i)"
      by (rule "2.IH" [OF _ _ _ loop]) (use False empty_regex [of m] in auto)
    have "(\<forall>x \<in> set ms. x \<notin> set (m # seen) \<and> ps_models ?st x = None) \<longleftrightarrow>
        m \<notin> set ms \<and> (\<forall>x \<in> set ms. x \<notin> set seen \<and> ps_models st x = None)" by auto
    with IH False have "e = None \<longleftrightarrow> distinct (m # ms) \<and> ''re:'' \<notin> set (m # ms) \<and>
        (\<forall>x \<in> set (m # ms). x \<notin> set seen \<and> ps_models st x = None)" by auto
    moreover have "dom (ps_models ?st) \<union> set ms = dom (ps_models st) \<union> set (m # ms)" by auto
    moreover have "ps_catchAllIndex ?st = ps_catchAllIndex st" by simp
    ultimately show ?thesis using IH by (simp only: simp_thms)
  qed
qed auto

text \<open>What the state of the loop knows of the routes that were accepted.\<close>

definition state_ok :: "jsval list \<Rightarrow> validation_state \<Rightarrow> bool" where
  "state_ok ds st \<longleftrightarrow>
     (\<forall>p. let ps = coalesce (vs_paths st p) new_path_state
          in (ps_catchAllIndex ps \<noteq> None \<longleftrightarrow> (\<exists>d \<in> set ds. in_path d = p \<and> models_of d = [])) \<and>
             dom (ps_models ps) = {m. \<exists>d \<in> set ds. in_path d = p \<and> m \<in> set (models_of d)}) \<and>
     (vs_modelListRouteIndex st \<noteq> None \<longleftrightarrow> (\<exists>d \<in> set ds. in_path d = ADVANCED_CUSTOM_MODEL_LIST_PATH)) \<and>
     (vs_balanceRouteIndex st \<noteq> None \<longleftrightarrow> (\<exists>d \<in> set ds. in_path d = ADVANCED_CUSTOM_BALANCE_PATH))"

definition models_fit :: "jsval list \<Rightarrow> jsval \<Rightarrow> bool" where
  "models_fit ds r \<longleftrightarrow> distinct (models_of r) \<and> ''re:'' \<notin> set (models_of r) \<and> (\<forall>d \<in> set ds. compatible d r)"

abbreviation paths_ok :: "jsval list \<Rightarrow> path_states \<Rightarrow> bool" where
  "paths_ok ds paths \<equiv> \<forall>p. let ps = coalesce (paths p) new_path_state
     in (ps_catchAllIndex ps \<noteq> None \<longleftrightarrow> (\<exists>d \<in> set ds. in_path d = p \<and> models_of d = [])) \<and>
        dom (ps_models ps) = {m. \<exists>d \<in> set ds. in_path d = p \<and> m \<in> set (models_of d)}"

lemma models_step:
  assumes "paths_ok ds paths"
  obtains e paths' where "validateAdvancedCustomRouteModels i (in_path r) (models_of r) paths = (e, paths')"
    "e = None \<longleftrightarrow> models_fit ds r" "e = None \<Longrightarrow> paths_ok (ds @ [r]) paths'"
    "\<And>err. e = Some err \<Longrightarrow> ve_routeIndex err = Some i"
proof -
  define st where "st = coalesce (paths (in_path r)) new_path_state"
  have st: "ps_catchAllIndex st \<noteq> None \<longleftrightarrow> (\<exists>d \<in> set ds. in_path d = in_path r \<and> models_of d = [])"
      "dom (ps_models st) = {m. \<exists>d \<in> set ds. in_path d = in_path r \<and> m \<in> set (models_of d)}"
    using assms by (simp_all add: st_def Let_def)
  obtain e st' where loop: "models_loop i [] (models_of r) st = (e, st')" by force
  show ?thesis
  proof (cases "ps_catchAllIndex st \<noteq> None")
    case True
    then have "\<not> models_fit ds r" using st(1) by (auto simp: models_fit_def compatible_def)
    with True that show ?thesis
      by (cases "models_of r = []") (auto simp: validateAdvancedCustomRouteModels_def st_def [symmetric] Let_def route_error_def)
  next
    case no_catch: False
    show ?thesis
    proof (cases "models_of r = []")
      case True
      have "models_fit ds r" using no_catch st(1) True by (auto simp: models_fit_def compatible_def)
      moreover have "paths_ok (ds @ [r]) (paths(in_path r \<mapsto> st\<lparr>ps_catchAllIndex := Some i\<rparr>))"
        using assms st True by (auto simp: Let_def)
      ultimately show ?thesis using that no_catch True
        by (simp add: validateAdvancedCustomRouteModels_def st_def [symmetric] Let_def)
    next
      case False
      note spec = models_loop_spec [OF loop]
      have fit: "e = None \<longleftrightarrow> models_fit ds r"
      proof -
        have "(\<forall>m \<in> set (models_of r). ps_models st m = None) \<longleftrightarrow> dom (ps_models st) \<inter> set (models_of r) = {}" by auto
        also have "\<dots> \<longleftrightarrow> (\<forall>d \<in> set ds. compatible d r)"
          using st(1) no_catch unfolding st(2) by (auto simp: compatible_def)
        finally show ?thesis using spec by (simp add: models_fit_def)
      qed
      have "paths_ok (ds @ [r]) (paths(in_path r \<mapsto> st'))" if "e = None"
        using assms st spec that no_catch False by (auto simp: Let_def)
      with fit spec that [of e "paths(in_path r \<mapsto> st')"] no_catch False loop show ?thesis
        by (auto simp: validateAdvancedCustomRouteModels_def st_def [symmetric] Let_def split: option.splits)
    qed
  qed
qed

lemma target_step:
  assumes "typed_route r"
  shows "\<exists>e. check_target url i (in_path r) (up_path r) (JStr (converter_of r)) (jget r ''auth'') = Inr e \<and>
    (e = None \<longleftrightarrow> up_path r \<noteq> [] \<and> isFullHttpURLOrAbsolutePath url (up_path r) \<and>
       isAdvancedCustomConverter (JStr (converter_of r)) \<and> isConverterPathAllowed (in_path r) (converter_of r) \<and>
       auth_ok (jget r ''auth'')) \<and>
    (\<forall>err. e = Some err \<longrightarrow> ve_routeIndex err = Some i)"
proof -
  obtain a where "validateRouteAuth (jget r ''auth'') = Inr a" "a = None \<longleftrightarrow> auth_ok (jget r ''auth'')"
    using validateRouteAuth_typed [OF typed_routeD(6) [OF assms]] by blast
  then show ?thesis by (auto simp: check_target_def route_error_def)
qed

lemma management_paths: "ADVANCED_CUSTOM_MODEL_LIST_PATH \<noteq> ADVANCED_CUSTOM_BALANCE_PATH"
  by (simp add: ADVANCED_CUSTOM_MODEL_LIST_PATH_def ADVANCED_CUSTOM_BALANCE_PATH_def)

lemma management_step:
  assumes "state_ok ds st" "list_all (route_ok url) ds"
    and check: "check_management i (in_path r) (models_of r) (JStr (converter_of r)) (up_path r) st = (e, st')"
  shows "vs_paths st' = vs_paths st" "e = Some err \<Longrightarrow> ve_routeIndex err = Some i"
    "e \<noteq> None \<Longrightarrow> \<not> (route_ok url r \<and> (\<forall>d \<in> set ds. compatible d r))"
    "e = None \<Longrightarrow> management r \<Longrightarrow> models_of r = [] \<and> converter_of r = ''none'' \<and> \<not> js_includes (up_path r) ''{model}''"
    "e = None \<Longrightarrow> paths_ok (ds @ [r]) paths \<Longrightarrow> state_ok (ds @ [r]) (st'\<lparr>vs_paths := paths\<rparr>)"
proof -
  define seen where "seen \<longleftrightarrow> (\<exists>d \<in> set ds. in_path d = in_path r)"
  have twice: "\<not> (\<forall>d \<in> set ds. compatible d r)" if "management r" seen
    using that assms(2) by (auto simp: list_all_iff route_ok_def management_def compatible_def seen_def)
  have known: "(if in_path r = ADVANCED_CUSTOM_MODEL_LIST_PATH then vs_modelListRouteIndex st else vs_balanceRouteIndex st) \<noteq> None \<longleftrightarrow> seen"
    if "management r" using that assms(1)
    by (auto simp: seen_def state_ok_def management_def isAdvancedCustomManagementPath_def)
  show "vs_paths st' = vs_paths st" "e = Some err \<Longrightarrow> ve_routeIndex err = Some i"
    using check by (auto simp: check_management_def Let_def route_error_def split: if_splits)
  show "e = None \<Longrightarrow> management r \<Longrightarrow> models_of r = [] \<and> converter_of r = ''none'' \<and> \<not> js_includes (up_path r) ''{model}''"
    using check by (auto simp: check_management_def management_def Let_def split: if_splits)
  show "\<not> (route_ok url r \<and> (\<forall>d \<in> set ds. compatible d r))" if "e \<noteq> None"
  proof (cases "management r \<and> \<not> seen")
    case True
    with that check known show ?thesis by (auto simp: check_management_def management_def Let_def route_ok_def split: if_splits)
  next
    case False
    moreover have "management r" using that check by (auto simp: check_management_def management_def split: if_splits)
    ultimately show ?thesis using twice by blast
  qed
  have st': "st' = (if \<not> management r then st else if in_path r = ADVANCED_CUSTOM_MODEL_LIST_PATH
      then st\<lparr>vs_modelListRouteIndex := Some i\<rparr> else st\<lparr>vs_balanceRouteIndex := Some i\<rparr>)" if "e = None"
    using check that by (auto simp: check_management_def management_def Let_def split: if_splits)
  show "state_ok (ds @ [r]) (st'\<lparr>vs_paths := paths\<rparr>)" if "e = None" "paths_ok (ds @ [r]) paths"
  proof -
    have "vs_modelListRouteIndex st' \<noteq> None \<longleftrightarrow> (\<exists>d \<in> set (ds @ [r]). in_path d = ADVANCED_CUSTOM_MODEL_LIST_PATH)"
      "vs_balanceRouteIndex st' \<noteq> None \<longleftrightarrow> (\<exists>d \<in> set (ds @ [r]). in_path d = ADVANCED_CUSTOM_BALANCE_PATH)"
      using assms(1) management_paths st' [OF that(1)]
      by (auto simp: state_ok_def management_def isAdvancedCustomManagementPath_def)
    with that(2) show ?thesis by (simp add: state_ok_def)
  qed
qed

lemma route_step:
  assumes "typed_route r" "state_ok ds st" "list_all (route_ok url) ds"
  shows "\<exists>e st'. validate_route url i r st = Inr (e, st') \<and>
    (e = None \<longleftrightarrow> route_ok url r \<and> (\<forall>d \<in> set ds. compatible d r)) \<and>
    (case e of None \<Rightarrow> state_ok (ds @ [r]) st' | Some err \<Rightarrow> ve_routeIndex err = Some i)"
proof (cases "in_path r = [] \<or> \<not> js_starts_with (in_path r) ''/'' \<or> js_includes (in_path r) ''?''")
  case True
  then show ?thesis using assms(1)
    by (auto simp: validate_route_def incoming_typed upstream_typed models_typed typed_routeD route_ok_def route_error_def Let_def)
next
  case path: False
  obtain m st1 where m: "check_management i (in_path r) (models_of r) (JStr (converter_of r)) (up_path r) st = (m, st1)" by force
  note mgmt = management_step [OF assms(2,3) m]
  have paths: "paths_ok ds (vs_paths st)" using assms(2) by (simp add: state_ok_def)
  obtain e paths' where e: "validateAdvancedCustomRouteModels i (in_path r) (models_of r) (vs_paths st) = (e, paths')"
      "e = None \<longleftrightarrow> models_fit ds r" "e = None \<Longrightarrow> paths_ok (ds @ [r]) paths'"
      "\<And>err. e = Some err \<Longrightarrow> ve_routeIndex err = Some i"
    using models_step [OF paths, of i r] by blast
  obtain t where t: "check_target url i (in_path r) (up_path r) (JStr (converter_of r)) (jget r ''auth'') = Inr t"
      "t = None \<longleftrightarrow> up_path r \<noteq> [] \<and> isFullHttpURLOrAbsolutePath url (up_path r) \<and>
         isAdvancedCustomConverter (JStr (converter_of r)) \<and> isConverterPathAllowed (in_path r) (converter_of r) \<and>
         auth_ok (jget r ''auth'')"
      "\<And>err. t = Some err \<Longrightarrow> ve_routeIndex err = Some i"
    using target_step [OF assms(1), of url i] by blast
  have run: "validate_route url i r st =
      (case m of Some err \<Rightarrow> Inr (Some err, st1)
       | None \<Rightarrow> (case e of Some err \<Rightarrow> Inr (Some err, st1\<lparr>vs_paths := paths'\<rparr>) | None \<Rightarrow> Inr (t, st1\<lparr>vs_paths := paths'\<rparr>)))"
    using path assms(1) m e(1) t(1) mgmt(1) or_none [of "jget r ''converter''"]
    by (auto simp: validate_route_def incoming_typed upstream_typed models_typed typed_routeD models_of_def [symmetric]
        converter_of_def [symmetric] split: option.splits)
  show ?thesis
  proof (cases m)
    case (Some err)
    then show ?thesis using run mgmt(2,3) by simp
  next
    case None
    note ok = mgmt(4,5) [OF None]
    show ?thesis
    proof (cases "e = None \<and> t = None")
      case True
      then have "route_ok url r \<and> (\<forall>d \<in> set ds. compatible d r)" using path e(2) t(2) ok(1) by (auto simp: route_ok_def models_fit_def)
      with True None run ok(2) e(3) show ?thesis by simp
    next
      case False
      then have "\<not> (route_ok url r \<and> (\<forall>d \<in> set ds. compatible d r))" using e(2) t(2) by (auto simp: route_ok_def models_fit_def)
      with False None run e(4) t(3) show ?thesis by (cases e; cases t) auto
    qed
  qed
qed

text \<open>What a result says: every route is accepted, or the reported one is the first that does not fit.\<close>

definition reports :: "url_parser \<Rightarrow> jsval list \<Rightarrow> validation_error option \<Rightarrow> bool" where
  "reports url rs res \<longleftrightarrow>
     (case res of
        None \<Rightarrow> routes_ok url rs
      | Some err \<Rightarrow> \<exists>i. ve_routeIndex err = Some i \<and> i < length rs \<and>
          routes_ok url (take i rs) \<and> \<not> routes_ok url (take (Suc i) rs))"

lemma reports_normal [simp]: "reports url (map normal_route rs) = reports url rs"
  by (rule ext) (simp add: reports_def take_map split: option.splits)

lemma reports_None: "reports url rs res \<Longrightarrow> res = None \<longleftrightarrow> routes_ok url rs"
  unfolding reports_def by (auto split: option.splits) (metis append_take_drop_id routes_ok_prefix)

lemma loop_result:
  assumes "list_all typed_route rs" "state_ok ds st" "routes_ok url ds"
  shows "\<exists>res. validate_loop url (length ds) rs st = Inr res \<and> reports url (ds @ rs) res"
  using assms
proof (induction rs arbitrary: ds st)
  case (Cons r rs)
  have "list_all (route_ok url) ds" using Cons.prems(3) by (simp add: routes_ok_def)
  then obtain e st' where step: "validate_route url (length ds) r st = Inr (e, st')"
      "e = None \<longleftrightarrow> route_ok url r \<and> (\<forall>d \<in> set ds. compatible d r)"
      "case e of None \<Rightarrow> state_ok (ds @ [r]) st' | Some err \<Rightarrow> ve_routeIndex err = Some (length ds)"
    using route_step [of r ds st url "length ds"] Cons.prems by auto
  show ?case
  proof (cases e)
    case None
    with step Cons.prems Cons.IH [of "ds @ [r]" st'] show ?thesis by (simp add: routes_ok_snoc)
  next
    case (Some err)
    with step Cons.prems(3) have "reports url (ds @ r # rs) (Some err)" by (auto simp: routes_ok_snoc reports_def)
    with Some step(1) show ?thesis by simp
  qed
qed (simp add: reports_def)

lemma start_ok: "state_ok [] validation_start"
  by (simp add: state_ok_def validation_start_def new_path_state_def)

lemma validation_result:
  assumes "typed_config c" "routes_of c \<noteq> []"
  shows "\<exists>res. validateAdvancedCustomConfig url (Some c) = Inr res \<and> reports url (routes_of c) res"
  using loop_result [of "map normal_route (routes_of c)" "[]" validation_start url] assms typed_normal_routes [OF assms(1)]
  by (simp add: validateAdvancedCustomConfig_def normalized_routes_typed start_ok routes_ok_def [of url "[]"])

lemma validation_none:
  assumes "typed_config c" "routes_of c = []"
  shows "validateAdvancedCustomConfig url (Some c) =
    Inr (Some \<lparr>ve_message = ''Advanced custom configuration requires at least one route'', ve_routeIndex = None\<rparr>)"
  using assms by (simp add: validateAdvancedCustomConfig_def normalized_routes_typed)

lemma validation_accepts:
  "typed_config c \<Longrightarrow> validateAdvancedCustomConfig url (Some c) = Inr None \<longleftrightarrow> routes_of c \<noteq> [] \<and> routes_ok url (routes_of c)"
  using validation_none [of c url] validation_result [of c url] reports_None [of url "routes_of c"] by fastforce

section \<open>The text of a configuration\<close>

text \<open>Members that are undefined are not written.\<close>

fun json_strip :: "jsval \<Rightarrow> jsval" where
  "json_strip (JArr vs) = JArr (map json_strip vs)"
| "json_strip (JObj kvs) = JObj (map (\<lambda>(k, v). (k, json_strip v)) (filter (\<lambda>(k, v). v \<noteq> JUndefined) kvs))"
| "json_strip v = v"

lemma json_strip_undefined [simp]: "json_strip v = JUndefined \<longleftrightarrow> v = JUndefined"
  by (cases v) auto

lemma pretty_strip: "json_pretty ind (json_strip v) = json_pretty ind v"
proof (induction v arbitrary: ind)
  case (JArr vs)
  then show ?case by (simp cong: map_cong)
next
  case (JObj kvs)
  let ?kvs = "filter (\<lambda>(k, v). v \<noteq> JUndefined) kvs"
  have "map (pretty_member (ind @ ''  '')) (map (\<lambda>(k, v). (k, json_strip v)) ?kvs) = map (pretty_member (ind @ ''  '')) ?kvs"
    using JObj.IH by auto
  moreover have "filter (\<lambda>(k, v). v \<noteq> JUndefined) (map (\<lambda>(k, v). (k, json_strip v)) ?kvs) = map (\<lambda>(k, v). (k, json_strip v)) ?kvs"
    by (auto simp: filter_id_conv)
  ultimately show ?case unfolding json_strip.simps json_pretty.simps by (simp only:)
qed simp_all

lemma strip_normal_auth:
  assumes "opt_text (jget a ''type'')"
  shows "json_ok (json_strip (normal_auth a))" "normal_auth (json_strip (normal_auth a)) = normal_auth a"
    "typed_auth (json_strip (normal_auth a))" "json_strip (normal_auth a) \<noteq> JUndefined"
  using assms by (auto simp: normal_auth_def typed_auth_def is_obj_def elim: opt_text_cases)

lemma strip_normal_route:
  assumes "typed_route r"
  shows "json_ok (json_strip (normal_route r))" "normal_route (json_strip (normal_route r)) = normal_route r"
    "typed_route (json_strip (normal_route r))"
proof -
  let ?a = "jget r ''auth''"
  have a: "opt_text (jget ?a ''type'')" using typed_routeD(6) [OF assms] by (auto simp: typed_auth_def jget_def)
  have strip: "json_strip (normal_route r) = JObj
     ([(''incoming_path'', JStr (text_of (jget r ''incoming_path''))), (''upstream_path'', JStr (up_path r)),
       (''converter'', JStr (converter_of r))] @
      (if models_of r \<noteq> [] then [(''models'', JArr (map JStr (models_of r)))] else []) @
      (if ?a \<noteq> JUndefined then [(''auth'', json_strip (normal_auth ?a))] else []))"
    by (auto simp: normal_route_def)
  show "json_ok (json_strip (normal_route r))" unfolding strip
    using strip_normal_auth(1) [OF a] by (simp add: list_all_iff)
  show "typed_route (json_strip (normal_route r))" unfolding strip typed_route_def
    using strip_normal_auth(3) [OF a] by (auto simp: is_obj_def typed_models_def list_all_iff is_jstr_iff typed_auth_def)
  have get: "jget (json_strip (normal_route r)) k = jget (normal_route r) k" if "k \<noteq> ''auth''" for k
    unfolding strip using that by (auto simp: normal_route_def)
  have "jget (json_strip (normal_route r)) ''auth'' = (if ?a \<noteq> JUndefined then json_strip (normal_auth ?a) else JUndefined)"
    unfolding strip by simp
  moreover have "in_path (json_strip (normal_route r)) = in_path (normal_route r)" "up_path (json_strip (normal_route r)) = up_path (normal_route r)"
    "converter_of (json_strip (normal_route r)) = converter_of (normal_route r)" "models_of (json_strip (normal_route r)) = models_of (normal_route r)"
    using get [of "''incoming_path''"] get [of "''upstream_path''"] get [of "''converter''"] get [of "''models''"]
    by (simp_all add: in_path_def up_path_def converter_of_def models_of_def)
  ultimately show "normal_route (json_strip (normal_route r)) = normal_route r"
    using strip_normal_auth(2,4) [OF a] get [of "''incoming_path''"]
    by (simp add: normal_route_def [of "json_strip (normal_route r)"]) (auto simp: normal_route_def [of r])
qed

lemma routes_read_back:
  assumes "list_all typed_route rs"
  shows "parseAdvancedCustomConfig (Some (json_pretty [] (config_of (map normal_route rs)))) = Some (config_of (map normal_route rs))"
proof -
  let ?c = "config_of (map normal_route rs)" and ?s = "map (\<lambda>r. json_strip (normal_route r)) rs"
  have strip: "json_strip ?c = config_of ?s" by (simp add: config_of_def comp_def)
  have "json_ok (config_of ?s)" using assms strip_normal_route(1) by (simp add: config_of_def list_all_iff)
  then have "json_parse (json_pretty [] ?c) = Some (config_of ?s)"
    using json_parse_pretty [of "config_of ?s"] pretty_strip [of "[]" ?c] strip by simp
  moreover have "normalized_routes (config_of ?s) = Inr (map normal_route rs)"
    using assms strip_normal_route(2,3) by (simp add: normalized_routes_typed list_all_iff)
  moreover have "js_trim (json_pretty [] ?c) \<noteq> []"
  proof -
    obtain t where "json_pretty [] ?c = CHR ''{'' # t" by (simp add: config_of_def)
    then show ?thesis by (simp add: js_trim_def is_ws_def ordc_def)
  qed
  ultimately show ?thesis
    by (simp add: parseAdvancedCustomConfig_def normalizeAdvancedCustomConfig_def)
      (simp add: config_of_def normalizeAdvancedCustomConfig_def)
qed

section \<open>The edits\<close>

lemma find_by_index: "map_option (nth xs) (find_index P xs) = find P xs"
  by (induction xs) (auto simp: option.map_comp comp_def)

lemma find_filter: "find P xs = (case filter P xs of [] \<Rightarrow> None | x # _ \<Rightarrow> Some x)"
  by (induction xs) auto

text \<open>The first element of a kind is replaced, or a new one is added at the end; the first is removed.\<close>

definition put_first :: "('a \<Rightarrow> bool) \<Rightarrow> 'a \<Rightarrow> 'a list \<Rightarrow> 'a list" where
  "put_first P y xs = (case find_index P xs of Some i \<Rightarrow> xs[i := y] | None \<Rightarrow> xs @ [y])"

definition remove_first :: "('a \<Rightarrow> bool) \<Rightarrow> 'a list \<Rightarrow> 'a list" where
  "remove_first P xs = (case find_index P xs of Some i \<Rightarrow> take i xs @ drop (Suc i) xs | None \<Rightarrow> xs)"

lemma put_first_simps [simp]:
  "put_first P y [] = [y]" "put_first P y (x # xs) = (if P x then y # xs else x # put_first P y xs)"
  by (auto simp: put_first_def split: option.splits)

lemma remove_first_simps [simp]:
  "remove_first P [] = []" "remove_first P (x # xs) = (if P x then xs else x # remove_first P xs)"
  by (auto simp: remove_first_def split: option.splits)

lemma put_first_found: "P y \<Longrightarrow> find P (put_first P y xs) = Some y"
  by (induction xs) auto

lemma put_first_others: "\<lbrakk> \<not> Q y; \<And>x. P x \<Longrightarrow> \<not> Q x \<rbrakk> \<Longrightarrow> filter Q (put_first P y xs) = filter Q xs"
  by (induction xs) auto

lemma remove_first_others: "(\<And>x. P x \<Longrightarrow> \<not> Q x) \<Longrightarrow> filter Q (remove_first P xs) = filter Q xs"
  by (induction xs) auto

lemma find_map_normal: "find (\<lambda>r. in_path r = path) (map normal_route rs) = map_option normal_route (find (\<lambda>r. in_path r = path) rs)"
  by (induction rs) auto

lemma remove_first_same: "filter P (remove_first P xs) = tl (filter P xs)"
  by (induction xs) auto

lemma set_put_first: "set (put_first P y xs) \<subseteq> insert y (set xs)"
  by (induction xs) auto

lemma set_remove_first: "set (remove_first P xs) \<subseteq> set xs"
  by (induction xs) auto

lemma management_route_says:
  assumes "isAdvancedCustomManagementPath path" "typed_route r"
  shows "in_path (management_route path r) = path" "typed_route (management_route path r)" "path \<noteq> []"
proof -
  have path: "js_trim path = path" "path \<noteq> []"
    using assms(1) unfolding isAdvancedCustomManagementPath_def ADVANCED_CUSTOM_MODEL_LIST_PATH_def
      ADVANCED_CUSTOM_BALANCE_PATH_def by (auto intro!: js_trim_id simp: trimmed_def is_ws_def ordc_def)
  then show "in_path (management_route path r) = path" "path \<noteq> []" by (simp_all add: in_path_def management_route_def)
  show "typed_route (management_route path r)"
    using typed_routeD [OF assms(2)] by (simp add: typed_route_def management_route_def is_obj_def typed_models_def or_text)
qed

lemma find_incoming_typed:
  assumes "list_all typed_route rs" "path \<noteq> []"
  shows "find_index_exn (incoming_is path) rs = Inr (find_index (\<lambda>r. in_path r = path) rs)"
  using assms by (intro find_index_exn_total incoming_is_typed) (simp_all add: list_all_iff)

lemma get_typed:
  assumes "typed_config c" "path \<noteq> []"
  shows "getAdvancedCustomManagementRoute c path = Inr (find (\<lambda>r. in_path r = path) (map normal_route (routes_of c)))"
  using find_incoming_typed [OF typed_normal_routes [OF assms(1)] assms(2)] assms(1)
  by (simp add: getAdvancedCustomManagementRoute_def normalized_routes_typed find_by_index)

lemma replace_typed:
  assumes "typed_config c" "path \<noteq> []"
  shows "replaceAdvancedCustomManagementRoute c path None =
      Inr (config_of (remove_first (\<lambda>r. in_path r = path) (map normal_route (routes_of c))))"
    "replaceAdvancedCustomManagementRoute c path (Some r) =
      Inr (config_of (put_first (\<lambda>r. in_path r = path) (management_route path r) (map normal_route (routes_of c))))"
  using find_incoming_typed [OF typed_normal_routes [OF assms(1)] assms(2)] assms(1)
  by (simp_all add: replaceAdvancedCustomManagementRoute_def normalized_routes_typed remove_first_def put_first_def)

lemma one_management_route:
  assumes "routes_ok url rs" "isAdvancedCustomManagementPath path"
  shows "length (filter (\<lambda>r. in_path r = path) rs) \<le> 1"
  using assms(1)
proof (induction rs)
  case (Cons r rs)
  show ?case
  proof (cases "in_path r = path")
    case True
    with Cons.prems assms(2) have "in_path r' \<noteq> path" if "r' \<in> set rs" for r'
      using that by (auto simp: routes_ok_def route_ok_def management_def compatible_def)
    with True have "filter (\<lambda>r. in_path r = path) (r # rs) = [r]" by (simp add: filter_empty_conv)
    then show ?thesis by simp
  qed (use Cons in \<open>simp add: routes_ok_def\<close>)
qed simp

lemma is_management_typed: "typed_route r \<Longrightarrow> is_management r = Inr (management r)"
  by (simp add: is_management_def incoming_typed management_def)

lemma forwarding_typed:
  assumes "typed_config c"
  shows "\<exists>ms ms'. replaceAdvancedCustomForwardingRoutes c fs = Inr (config_of (ms @ fs @ ms')) \<and>
    ms @ ms' = filter management (map normal_route (routes_of c))"
proof -
  let ?rs = "map normal_route (routes_of c)"
  have typed: "typed_route r" if "r \<in> set ?rs" for r
    using that typed_normal_routes [OF assms] by (simp only: list_all_iff)
  have filter: "filter_exn is_management rs = Inr (filter management rs)" if "set rs \<subseteq> set ?rs" for rs
    using that typed by (intro filter_exn_total is_management_typed) auto
  have "find_index_exn (\<lambda>r. bind_exn (is_management r) (\<lambda>b. Inr (\<not> b))) ?rs = Inr (find_index (\<lambda>r. \<not> management r) ?rs)"
    using typed by (intro find_index_exn_total) (simp add: is_management_typed)
  then have "replaceAdvancedCustomForwardingRoutes c fs = Inr (config_of
      (case find_index (\<lambda>r. \<not> management r) ?rs of
         None \<Rightarrow> filter management ?rs @ fs
       | Some i \<Rightarrow> filter management (take i ?rs) @ fs @ filter management (drop i ?rs)))"
    using filter [of ?rs] filter [of "take _ ?rs"] filter [of "drop _ ?rs"] set_take_subset [of _ ?rs] set_drop_subset [of _ ?rs] assms
    by (simp add: replaceAdvancedCustomForwardingRoutes_def normalized_routes_typed split: option.splits)
  moreover have "filter management (take i ?rs) @ filter management (drop i ?rs) = filter management ?rs" for i
    by (metis append_take_drop_id filter_append)
  ultimately show ?thesis by (cases "find_index (\<lambda>r. \<not> management r) ?rs") force+
qed

end
