(* ===== verification/Route_Properties.thy ===== *)
theory Route_Properties
  imports Custom_Route_Facts
begin

text \<open>
  Properties of the routes of an advanced custom channel: what validation accepts and reports, the text of a configuration,
  the edits, the templates and the defaults.
\<close>

section \<open>Data\<close>

text \<open>A route with the defaults the editor fills in for a converter and an incoming path.\<close>

definition default_route :: "string \<Rightarrow> string \<Rightarrow> jsval" where
  "default_route converter path =
     (let d = getAdvancedCustomConverterDefaults converter path
      in JObj [(''incoming_path'', JStr path), (''upstream_path'', JStr (cd_upstream_path d)), (''converter'', JStr converter),
           (''auth'', cd_auth d)])"

definition demo_routes :: jsval where
  "demo_routes = config_of
    [JObj [(''incoming_path'', JStr ''/v1/messages''), (''upstream_path'', JStr '' https://x.y/v1 ''),
       (''models'', JArr [JStr '' a '', JStr [], JStr ''re:b''])],
     createAdvancedCustomManagementRoute ''/v1/models'', default_route ''none'' ''/v1/messages'']"

definition demo_url :: url_parser where
  "demo_url text = (if text = ''https://x.y/v1'' then Some (''x.y'', ''https:'') else None)"

lemma demo_typed: "typed_config demo_routes"
  by code_simp

lemma demo_valid: "routes_ok demo_url (routes_of demo_routes)" "routes_of demo_routes \<noteq> []"
  by code_simp+

section \<open>Validation\<close>

text \<open>C27. Validation of a configuration of the declared type never throws.  It accepts exactly the configurations with at
  least one route in which every route is well formed by itself, a catch-all is the last route of its path and no model rule
  occurs in two routes of a path; otherwise the index it reports is that of the first route that does not fit the ones
  before it.\<close>

theorem route_validation_exact:
  assumes "typed_config c"
  shows "\<exists>res. validateAdvancedCustomConfig url (Some c) = Inr res \<and>
    (res = None \<longleftrightarrow> routes_of c \<noteq> [] \<and> list_all (route_ok url) (routes_of c) \<and> sorted_wrt compatible (routes_of c)) \<and>
    (\<forall>err i. res = Some err \<and> ve_routeIndex err = Some i \<longrightarrow>
       i < length (routes_of c) \<and> routes_ok url (take i (routes_of c)) \<and> \<not> routes_ok url (take (Suc i) (routes_of c)))"
proof (cases "routes_of c = []")
  case False
  then show ?thesis using validation_result [OF assms False, of url] validation_accepts [OF assms, of url]
    by (fastforce simp: reports_def routes_ok_def split: option.splits)
qed (use validation_none [OF assms] in simp)

theorem route_validation_exact_witness:
  "validateAdvancedCustomConfig demo_url (Some demo_routes) = Inr None"
  using route_validation_exact [OF demo_typed, of demo_url] demo_valid by (auto simp: routes_ok_def)

section \<open>Types\<close>

text \<open>A configuration of the declared type is normalized to one of the declared type, normalizing it again changes
  nothing, and neither the test for relative paths nor the test for a model list throws.\<close>

theorem normal_config_typed:
  assumes "typed_config c"
  shows "\<exists>c'. normalizeAdvancedCustomConfig c = Inr c' \<and> typed_config c' \<and> normalizeAdvancedCustomConfig c' = Inr c' \<and>
    validateAdvancedCustomConfig url (Some c') = validateAdvancedCustomConfig url (Some c) \<and>
    advancedCustomConfigUsesRelativeUpstreamPath (Some c) =
      Inr (list_ex (\<lambda>r. js_starts_with (up_path r) ''/'') (routes_of c)) \<and>
    hasValidAdvancedCustomModelListRoute url (Some c) =
      Inr (routes_ok url (routes_of c) \<and> list_ex (\<lambda>r. in_path r = ADVANCED_CUSTOM_MODEL_LIST_PATH) (routes_of c))"
proof -
  let ?rs = "map normal_route (routes_of c)"
  have rs: "list_all typed_route ?rs" by (rule typed_normal_routes [OF assms])
  have again: "normalized_routes (config_of ?rs) = Inr ?rs" using rs by (simp add: normalized_routes_typed)
  have relative: "some_exn (\<lambda>r. bind_exn (getAdvancedCustomRouteUpstreamPath r) (\<lambda>p. Inr (js_starts_with p ''/''))) ?rs =
      Inr (list_ex (\<lambda>r. js_starts_with (up_path r) ''/'') ?rs)"
    using rs by (intro some_exn_total) (simp add: list_all_iff upstream_typed del: set_map)
  have listed: "some_exn (incoming_is ADVANCED_CUSTOM_MODEL_LIST_PATH) ?rs =
      Inr (list_ex (\<lambda>r. in_path r = ADVANCED_CUSTOM_MODEL_LIST_PATH) ?rs)"
    using rs by (intro some_exn_total incoming_is_typed) (simp_all add: list_all_iff ADVANCED_CUSTOM_MODEL_LIST_PATH_def del: set_map)
  have "hasValidAdvancedCustomModelListRoute url (Some c) =
      Inr (routes_ok url (routes_of c) \<and> list_ex (\<lambda>r. in_path r = ADVANCED_CUSTOM_MODEL_LIST_PATH) ?rs)"
  proof (cases "routes_of c = []")
    case False
    then obtain res where "validateAdvancedCustomConfig url (Some c) = Inr res" "res = None \<longleftrightarrow> routes_ok url (routes_of c)"
      using validation_result [OF assms False, of url] reports_None by blast
    with listed assms show ?thesis by (cases res) (simp_all add: hasValidAdvancedCustomModelListRoute_def normalized_routes_typed)
  qed (simp add: hasValidAdvancedCustomModelListRoute_def validation_none [OF assms])
  moreover have same: "list_ex (\<lambda>r. Q (f r)) ?rs = list_ex (\<lambda>r. Q (f r)) (routes_of c)"
    if "\<And>r. f (normal_route r) = f r" for Q and f :: "jsval \<Rightarrow> string"
    by (simp add: list_ex_iff that)
  moreover have "normalizeAdvancedCustomConfig c = Inr (config_of ?rs)" "typed_config (config_of ?rs)"
    "normalizeAdvancedCustomConfig (config_of ?rs) = Inr (config_of ?rs)"
    "validateAdvancedCustomConfig url (Some (config_of ?rs)) = validateAdvancedCustomConfig url (Some c)"
    unfolding normalizeAdvancedCustomConfig_def validateAdvancedCustomConfig_def option.case again normalized_routes_typed [OF assms]
    using rs by simp_all
  moreover have "advancedCustomConfigUsesRelativeUpstreamPath (Some c) = Inr (list_ex (\<lambda>r. js_starts_with (up_path r) ''/'') ?rs)"
    unfolding advancedCustomConfigUsesRelativeUpstreamPath_def option.case normalized_routes_typed [OF assms] bind_exn_simps relative ..
  ultimately show ?thesis using same [of up_path "\<lambda>p. js_starts_with p ''/''"] same [of in_path "\<lambda>p. p = ADVANCED_CUSTOM_MODEL_LIST_PATH"]
    by (intro exI [of _ "config_of ?rs"]) simp
qed

theorem normal_config_typed_witness:
  "hasValidAdvancedCustomModelListRoute demo_url (Some demo_routes) = Inr True"
proof -
  have "list_ex (\<lambda>r. in_path r = ADVANCED_CUSTOM_MODEL_LIST_PATH) (routes_of demo_routes)" by code_simp
  with normal_config_typed [OF demo_typed, of demo_url] demo_valid show ?thesis by auto
qed

section \<open>Text\<close>

text \<open>C28. The text written for a configuration of the declared type reads back as its normal form.\<close>

theorem route_config_roundtrip:
  assumes "typed_config c"
  shows "\<exists>text c'. stringifyAdvancedCustomConfig c = Inr text \<and> normalizeAdvancedCustomConfig c = Inr c' \<and>
    parseAdvancedCustomConfig (Some text) = Some c'"
  using routes_read_back [OF typed_configD(2) [OF assms]] assms
  by (simp add: stringifyAdvancedCustomConfig_def normalizeAdvancedCustomConfig_def normalized_routes_typed)

theorem route_config_roundtrip_witness:
  "\<exists>text c'. stringifyAdvancedCustomConfig demo_routes = Inr text \<and> normalizeAdvancedCustomConfig demo_routes = Inr c' \<and>
    parseAdvancedCustomConfig (Some text) = Some c'"
  by (rule route_config_roundtrip [OF demo_typed])

section \<open>Edits\<close>

text \<open>An edit touches its part only.  Setting a management route makes it the one that is found under its path and leaves
  the routes of all other paths as they were, in order; removing it from a valid configuration leaves none.  Replacing the
  forwarding routes puts exactly these in place of the old ones and keeps the management routes.\<close>

theorem route_edits_local:
  assumes "typed_config c" "typed_route r" "list_all typed_route fs" "\<not> list_ex management fs"
    and "isAdvancedCustomManagementPath path"
  shows "\<exists>c1 c2 c3.
    replaceAdvancedCustomManagementRoute c path (Some r) = Inr c1 \<and> typed_config c1 \<and>
    getAdvancedCustomManagementRoute c1 path = Inr (Some (normal_route (management_route path r))) \<and>
    filter (\<lambda>r. in_path r \<noteq> path) (routes_of c1) = filter (\<lambda>r. in_path r \<noteq> path) (map normal_route (routes_of c)) \<and>
    replaceAdvancedCustomManagementRoute c path None = Inr c2 \<and> typed_config c2 \<and>
    filter (\<lambda>r. in_path r \<noteq> path) (routes_of c2) = filter (\<lambda>r. in_path r \<noteq> path) (map normal_route (routes_of c)) \<and>
    (validateAdvancedCustomConfig url (Some c) = Inr None \<longrightarrow> getAdvancedCustomManagementRoute c2 path = Inr None) \<and>
    replaceAdvancedCustomForwardingRoutes c fs = Inr c3 \<and> typed_config c3 \<and>
    filter management (routes_of c3) = filter management (map normal_route (routes_of c)) \<and>
    filter (\<lambda>r. \<not> management r) (routes_of c3) = fs"
proof -
  let ?rs = "map normal_route (routes_of c)" and ?at = "\<lambda>r. in_path r = path" and ?m = "management_route path r"
  note m = management_route_says [OF assms(5,2)]
  have rs: "list_all typed_route ?rs" by (rule typed_normal_routes [OF assms(1)])
  obtain ms ms' where f: "replaceAdvancedCustomForwardingRoutes c fs = Inr (config_of (ms @ fs @ ms'))" "ms @ ms' = filter management ?rs"
    using forwarding_typed [OF assms(1), of fs] by blast
  have ms: "management x \<and> typed_route x" if "x \<in> set ms \<or> x \<in> set ms'" for x
  proof -
    from that have "x \<in> set (ms @ ms')" by simp
    then have "x \<in> set (filter management ?rs)" unfolding f(2) .
    then show ?thesis using rs by (simp only: list_all_iff set_filter mem_Collect_eq)
  qed
  have c1: "list_all typed_route (put_first ?at ?m ?rs)" using set_put_first [of ?at ?m ?rs] rs m(2) by (auto simp: list_all_iff)
  have c2: "list_all typed_route (remove_first ?at ?rs)" using set_remove_first [of ?at ?rs] rs by (auto simp: list_all_iff)
  have found: "getAdvancedCustomManagementRoute (config_of (put_first ?at ?m ?rs)) path = Inr (Some (normal_route ?m))"
    using c1 m put_first_found [of ?at ?m ?rs] by (simp add: get_typed find_map_normal)
  have none: "getAdvancedCustomManagementRoute (config_of (remove_first ?at ?rs)) path = Inr None"
    if "validateAdvancedCustomConfig url (Some c) = Inr None"
  proof -
    have "length (filter ?at ?rs) \<le> 1"
      using that validation_accepts [OF assms(1)] one_management_route [OF _ assms(5), of url ?rs] by simp
    then have "find ?at (remove_first ?at ?rs) = None"
      by (cases "filter ?at ?rs") (simp_all only: find_filter remove_first_same, simp_all)
    with c2 m(3) show ?thesis by (simp add: get_typed find_map_normal)
  qed
  have "typed_config (config_of (ms @ fs @ ms'))" using ms assms(3) by (auto simp: list_all_iff)
  moreover have "filter management (ms @ fs @ ms') = filter management ?rs" "filter (\<lambda>r. \<not> management r) (ms @ fs @ ms') = fs"
    using ms assms(4) f(2) by (auto simp: list_ex_iff filter_empty_conv filter_id_conv simp flip: f(2))
  ultimately show ?thesis using replace_typed [OF assms(1) m(3)] f(1) c1 c2 found none m(1)
    put_first_others [of "\<lambda>r. in_path r \<noteq> path" ?m ?at ?rs] remove_first_others [of ?at "\<lambda>r. in_path r \<noteq> path" ?rs]
    by (intro exI [of _ "config_of (put_first ?at ?m ?rs)"] exI [of _ "config_of (remove_first ?at ?rs)"]
        exI [of _ "config_of (ms @ fs @ ms')"]) (simp del: filter_append)
qed

theorem route_edits_local_witness:
  "\<exists>c2. replaceAdvancedCustomManagementRoute demo_routes ''/v1/models'' None = Inr c2 \<and>
    getAdvancedCustomManagementRoute c2 ''/v1/models'' = Inr None"
proof -
  have "typed_route createAdvancedCustomRoute" "list_all typed_route [createAdvancedCustomRoute]"
    "\<not> list_ex management [createAdvancedCustomRoute]" "isAdvancedCustomManagementPath ''/v1/models''" by code_simp+
  from route_edits_local [OF demo_typed this, of demo_url]
  show ?thesis using demo_valid by (auto simp: validation_accepts [OF demo_typed])
qed

section \<open>Templates and defaults\<close>

text \<open>Every template is accepted by validation, and so is the route with the defaults of a converter for every incoming path the
  editor offers with it.\<close>

theorem offered_routes_valid:
  assumes "converter \<in> set (map co_value ADVANCED_CUSTOM_CONVERTER_OPTIONS)"
    and "path \<in> set (map fst (getAdvancedCustomIncomingPathOptions converter))"
  shows "validateAdvancedCustomConfig url (Some (getAdvancedCustomTemplateConfig templateKey)) = Inr None \<and>
    validateAdvancedCustomConfig url (Some (config_of [default_route converter path])) = Inr None"
proof
  have "list_all (\<lambda>t. typed_config (tp_config t) \<and> routes_of (tp_config t) \<noteq> [] \<and> routes_ok url (routes_of (tp_config t)))
      ADVANCED_CUSTOM_TEMPLATE_OPTIONS" by code_simp
  moreover have "\<exists>t \<in> set ADVANCED_CUSTOM_TEMPLATE_OPTIONS. getAdvancedCustomTemplateConfig templateKey = tp_config t"
  proof (cases "find (\<lambda>option. tp_value option = templateKey) ADVANCED_CUSTOM_TEMPLATE_OPTIONS")
    case None
    then show ?thesis by (simp add: getAdvancedCustomTemplateConfig_def cloneAdvancedCustomConfig_def)
      (simp add: ADVANCED_CUSTOM_TEMPLATE_OPTIONS_def)
  next
    case (Some t)
    then have "t \<in> set ADVANCED_CUSTOM_TEMPLATE_OPTIONS" by (auto simp: find_Some_iff)
    with Some show ?thesis by (auto simp: getAdvancedCustomTemplateConfig_def cloneAdvancedCustomConfig_def)
  qed
  ultimately show "validateAdvancedCustomConfig url (Some (getAdvancedCustomTemplateConfig templateKey)) = Inr None"
    by (auto simp: list_all_iff validation_accepts)
  have "list_all (\<lambda>c. list_all (\<lambda>p. typed_route (default_route c p) \<and> route_ok url (default_route c p))
      (map fst (getAdvancedCustomIncomingPathOptions c))) (map co_value ADVANCED_CUSTOM_CONVERTER_OPTIONS)" by code_simp
  then have "typed_route (default_route converter path)" "route_ok url (default_route converter path)"
    using assms by (simp_all only: list_all_iff)
  then show "validateAdvancedCustomConfig url (Some (config_of [default_route converter path])) = Inr None"
    by (simp add: validation_accepts routes_ok_def)
qed

theorem offered_routes_valid_witness:
  "validateAdvancedCustomConfig demo_url (Some (getAdvancedCustomTemplateConfig ''claude_only'')) = Inr None \<and>
   validateAdvancedCustomConfig demo_url (Some (config_of
     [default_route ''openai_responses_to_claude_messages'' ''/v1/responses''])) = Inr None"
proof (rule offered_routes_valid)
  show "''openai_responses_to_claude_messages'' \<in> set (map co_value ADVANCED_CUSTOM_CONVERTER_OPTIONS)" by code_simp
  show "''/v1/responses'' \<in> set (map fst (getAdvancedCustomIncomingPathOptions ''openai_responses_to_claude_messages''))" by code_simp
qed

section \<open>Findings\<close>

text \<open>A configuration whose incoming path is a number is read, and its summary throws.\<close>

lemma untyped_path_throws:
  "getAdvancedCustomStats demo_url (Some (''{'' @ json_stringify ''advanced_routes'' @ '':[{'' @
     json_stringify ''incoming_path'' @ '':5}]}'')) = Inl type_error"
  by code_simp

text \<open>A path with the name of an inherited member of an object is summarized by that member.\<close>

lemma inherited_label:
  "getAdvancedCustomRouteSummaryLabel (JObj [(''incoming_path'', JStr ''constructor'')]) =
     Inr (Some (LabelInherited ''constructor''))"
  by code_simp

end
