(* ===== verification/Ratio_Sync.thy ===== *)
theory Ratio_Sync
  imports JS_Json_Pretty
begin

text \<open>
  The synchronisation of prices with upstream channels (\<open>features/system-settings/models\<close>): the helpers of
  \<open>upstream-ratio-sync-helpers.ts\<close>, the bulk selection of \<open>upstream-ratio-sync-table.tsx\<close> and the state and the result of
  \<open>upstream-ratio-sync.tsx\<close>.  An object with keys chosen at run time is a list of its members in order; the names of models,
  fields and sources are none of those every object inherits.
\<close>

section \<open>Data\<close>

record ratio_entry =
  re_current :: jsval
  re_upstreams :: "(string \<times> jsval) list"
  re_confidence :: "(string \<times> bool) list"

type_synonym ratio_types = "(string \<times> ratio_entry) list"
type_synonym differences_map = "(string \<times> ratio_types) list"
type_synonym resolution = "(string \<times> jsval) list"
type_synonym resolutions_map = "(string \<times> resolution) list"

record resolution_selection =
  sel_model :: string
  sel_ratioType :: string
  sel_value :: jsval
  sel_sourceName :: string

type_synonym removal_plan = "(string \<times> string list) list"

definition RATIO_SYNC_FIELDS :: "string list" where
  "RATIO_SYNC_FIELDS = [''model_ratio'', ''completion_ratio'', ''cache_ratio'', ''create_cache_ratio'', ''image_ratio'',
     ''audio_ratio'', ''audio_completion_ratio'']"

definition SYNC_FIELD_ORDER :: "string list" where
  "SYNC_FIELD_ORDER = RATIO_SYNC_FIELDS @ [''model_price'', ''billing_mode'', ''billing_expr'']"

definition NUMERIC_SYNC_FIELDS :: "string list" where
  "NUMERIC_SYNC_FIELDS = RATIO_SYNC_FIELDS @ [''model_price'']"

definition RATIO_TYPE_OPTIONS :: "(string \<times> string) list" where
  "RATIO_TYPE_OPTIONS =
    [(''Model ratio'', ''model_ratio''), (''Completion ratio'', ''completion_ratio''), (''Cache ratio'', ''cache_ratio''),
     (''Create cache ratio'', ''create_cache_ratio''), (''Image ratio'', ''image_ratio''), (''Audio ratio'', ''audio_ratio''),
     (''Audio completion ratio'', ''audio_completion_ratio''), (''Fixed price'', ''model_price''),
     (''Expression billing'', ''billing_expr'')]"

text \<open>\<open>ratioTypes[field]?.upstreams?.[source]\<close>\<close>

definition upstream_value :: "ratio_types \<Rightarrow> string \<Rightarrow> string \<Rightarrow> jsval" where
  "upstream_value ratioTypes field source =
     (case map_of ratioTypes field of
        None \<Rightarrow> JUndefined
      | Some e \<Rightarrow> (case map_of (re_upstreams e) source of None \<Rightarrow> JUndefined | Some v \<Rightarrow> v))"

section \<open>Which fields are shown\<close>

definition getSyncFieldLabel :: "string \<Rightarrow> (string \<Rightarrow> string) \<Rightarrow> string" where
  "getSyncFieldLabel ratioType t =
     (case find (\<lambda>opt. snd opt = ratioType) RATIO_TYPE_OPTIONS of Some opt \<Rightarrow> t (fst opt) | None \<Rightarrow> ratioType)"

definition getOrderedRatioTypes :: "ratio_types \<Rightarrow> string option \<Rightarrow> string list" where
  "getOrderedRatioTypes ratioTypes flt =
     (let keys = map fst ratioTypes;
          ordered = filter (\<lambda>f. f \<in> set keys) SYNC_FIELD_ORDER @ filter (\<lambda>f. f \<notin> set SYNC_FIELD_ORDER) keys
      in case flt of
           None \<Rightarrow> ordered
         | Some f \<Rightarrow> if f = [] \<or> f = ''__all__'' then ordered else filter (\<lambda>x. x = f) ordered)"

definition isSelectableUpstreamValue :: "jsval \<Rightarrow> bool" where
  "isSelectableUpstreamValue v \<longleftrightarrow> v \<noteq> JNull \<and> v \<noteq> JUndefined \<and> v \<noteq> JStr ''same''"

definition getPreferredSyncField :: "ratio_types \<Rightarrow> string \<Rightarrow> string \<Rightarrow> string" where
  "getPreferredSyncField ratioTypes ratioType sourceName =
     (let exprValue = upstream_value ratioTypes ''billing_expr'' sourceName
      in if ratioType \<noteq> ''billing_expr'' \<and> exprValue \<noteq> JNull \<and> exprValue \<noteq> JUndefined \<and> exprValue \<noteq> JStr ''same''
         then ''billing_expr'' else ratioType)"

definition getVisibleRatioTypesForSource :: "ratio_types \<Rightarrow> string \<Rightarrow> string option \<Rightarrow> string list" where
  "getVisibleRatioTypesForSource ratioTypes sourceName flt =
     filter (\<lambda>ratioType. getPreferredSyncField ratioTypes ratioType sourceName = ratioType) (getOrderedRatioTypes ratioTypes flt)"

definition getAlignedRatioTypes :: "ratio_types \<Rightarrow> string list \<Rightarrow> string option \<Rightarrow> string list" where
  "getAlignedRatioTypes ratioTypes sourceNames flt =
     (let ordered = getOrderedRatioTypes ratioTypes flt
      in if sourceNames = [] then ordered
         else filter (\<lambda>ratioType. list_ex (\<lambda>s. ratioType \<in> set (getVisibleRatioTypesForSource ratioTypes s flt)) sourceNames)
                ordered)"

datatype billing_category = PriceCategory | RatioCategory | TieredCategory

definition getBillingCategory :: "string \<Rightarrow> billing_category" where
  "getBillingCategory ratioType =
     (if ratioType = ''model_price'' then PriceCategory
      else if ratioType = ''billing_mode'' \<or> ratioType = ''billing_expr'' then TieredCategory
      else RatioCategory)"

definition isSelectedResolutionValue :: "resolutions_map \<Rightarrow> string \<Rightarrow> string \<Rightarrow> jsval \<Rightarrow> bool" where
  "isSelectedResolutionValue resolutions model ratioType upstreamValue =
     (if \<not> isSelectableUpstreamValue upstreamValue then False
      else case map_of resolutions model of
          None \<Rightarrow> False
        | Some r \<Rightarrow>
            (case map_of r ratioType of
               None \<Rightarrow> False
             | Some selectedValue \<Rightarrow>
                 if selectedValue = JUndefined then False
                 else if ratioType \<in> set NUMERIC_SYNC_FIELDS then
                   (let selectedNumber = js_to_number selectedValue; upstreamNumber = js_to_number upstreamValue
                    in is_finite selectedNumber \<and> is_finite upstreamNumber \<and> js_eq selectedNumber upstreamNumber)
                 else selectedValue = upstreamValue))"

section \<open>Choosing and removing values\<close>

definition resolveResolutionSelection :: "differences_map \<Rightarrow> resolution_selection \<Rightarrow> resolution_selection" where
  "resolveResolutionSelection differences selection =
     (let modelDiffs = coalesce (map_of differences (sel_model selection)) [];
          preferredType = getPreferredSyncField modelDiffs (sel_ratioType selection) (sel_sourceName selection);
          upstream = upstream_value modelDiffs preferredType (sel_sourceName selection);
          preferredValue =
            (if preferredType = sel_ratioType selection then sel_value selection
             else if upstream = JUndefined \<or> upstream = JNull then sel_value selection else upstream)
      in selection\<lparr>sel_ratioType := preferredType, sel_value := preferredValue\<rparr>)"

definition getDraftModelResolution :: "resolutions_map \<Rightarrow> resolutions_map \<Rightarrow> string \<Rightarrow> resolution" where
  "getDraftModelResolution drafts resolutions model =
     (case map_of drafts model of Some draft \<Rightarrow> draft | None \<Rightarrow> coalesce (map_of resolutions model) [])"

text \<open>What a resolved selection does to the draft of its model.\<close>

definition drop_other_category :: "billing_category \<Rightarrow> resolution \<Rightarrow> resolution" where
  "drop_other_category category draft =
     filter (\<lambda>kv. \<not> (category \<noteq> TieredCategory \<and> getBillingCategory (fst kv) \<noteq> TieredCategory \<and>
       getBillingCategory (fst kv) \<noteq> category)) draft"

definition set_tiered :: "ratio_types \<Rightarrow> string \<Rightarrow> string \<Rightarrow> resolution \<Rightarrow> resolution" where
  "set_tiered modelDiffs sourceName finalType draft =
     (let modeVal = upstream_value modelDiffs ''billing_mode'' sourceName;
          exprVal = upstream_value modelDiffs ''billing_expr'' sourceName;
          draft1 = (if isSelectableUpstreamValue modeVal then obj_set ''billing_mode'' modeVal draft
                    else if finalType = ''billing_expr'' then obj_set ''billing_mode'' (JStr ''tiered_expr'') draft
                    else draft)
      in if isSelectableUpstreamValue exprVal then obj_set ''billing_expr'' exprVal draft1 else draft1)"

definition update_draft :: "differences_map \<Rightarrow> resolution_selection \<Rightarrow> resolution \<Rightarrow> resolution" where
  "update_draft differences selection draft =
     (let resolved = resolveResolutionSelection differences selection;
          finalType = sel_ratioType resolved;
          category = getBillingCategory finalType;
          draft1 = obj_set finalType (sel_value resolved) (drop_other_category category draft)
      in case map_of differences (sel_model selection) of
           Some modelDiffs \<Rightarrow>
             if category = TieredCategory then set_tiered modelDiffs (sel_sourceName selection) finalType draft1 else draft1
         | None \<Rightarrow> draft1)"

definition applyResolutionSelectionToDraft ::
  "resolutions_map \<Rightarrow> differences_map \<Rightarrow> resolution_selection \<Rightarrow> resolutions_map \<Rightarrow> resolutions_map" where
  "applyResolutionSelectionToDraft resolutions differences selection drafts =
     obj_set (sel_model selection)
       (update_draft differences selection (getDraftModelResolution drafts resolutions (sel_model selection))) drafts"

definition put_draft :: "string \<times> resolution \<Rightarrow> resolutions_map \<Rightarrow> resolutions_map" where
  "put_draft md next = (if snd md = [] then obj_delete (fst md) next else obj_set (fst md) (snd md) next)"

definition applyResolutionSelections ::
  "resolutions_map \<Rightarrow> differences_map \<Rightarrow> resolution_selection list \<Rightarrow> resolutions_map" where
  "applyResolutionSelections resolutions differences selections =
     (if selections = [] then resolutions
      else fold put_draft (fold (applyResolutionSelectionToDraft resolutions differences) selections []) resolutions)"

definition applyResolutionSelection ::
  "resolutions_map \<Rightarrow> differences_map \<Rightarrow> resolution_selection \<Rightarrow> resolutions_map" where
  "applyResolutionSelection resolutions differences selection = applyResolutionSelections resolutions differences [selection]"

text \<open>The entries of the map that stay when a selection is added.\<close>

definition still_effective :: "resolution_selection \<Rightarrow> resolution_selection \<Rightarrow> bool" where
  "still_effective resolved existing \<longleftrightarrow>
     \<not> (getBillingCategory (sel_ratioType resolved) \<noteq> TieredCategory \<and> sel_model existing = sel_model resolved \<and>
        getBillingCategory (sel_ratioType existing) \<noteq> TieredCategory \<and>
        getBillingCategory (sel_ratioType existing) \<noteq> getBillingCategory (sel_ratioType resolved))"

definition add_effective ::
  "differences_map \<Rightarrow> resolution_selection \<Rightarrow> ((string \<times> string) \<times> resolution_selection) list \<Rightarrow>
     ((string \<times> string) \<times> resolution_selection) list" where
  "add_effective differences selection effectiveByKey =
     (let resolved = resolveResolutionSelection differences selection
      in obj_set (sel_model resolved, sel_ratioType resolved) resolved
           (filter (\<lambda>kv. still_effective resolved (snd kv)) effectiveByKey))"

definition getEffectiveResolutionSelections ::
  "differences_map \<Rightarrow> resolution_selection list \<Rightarrow> resolution_selection list" where
  "getEffectiveResolutionSelections differences selections = map snd (fold (add_effective differences) selections [])"

definition remove_field :: "string \<Rightarrow> resolution \<Rightarrow> resolution" where
  "remove_field ratioType draft =
     (let d1 = obj_delete ratioType draft;
          d2 = (if ratioType = ''billing_expr'' then obj_delete ''billing_mode'' d1 else d1)
      in if ratioType = ''billing_mode'' then obj_delete ''billing_expr'' d2 else d2)"

definition applyResolutionRemovalPlan :: "resolutions_map \<Rightarrow> removal_plan \<Rightarrow> resolutions_map" where
  "applyResolutionRemovalPlan resolutions plan =
     (if plan = [] then resolutions
      else fold (\<lambda>(model, ratioTypes) next.
             case map_of resolutions model of
               None \<Rightarrow> next
             | Some current \<Rightarrow> put_draft (model, fold remove_field ratioTypes current) next) plan resolutions)"

definition add_removal :: "string \<times> string \<Rightarrow> removal_plan \<Rightarrow> removal_plan" where
  "add_removal removal plan =
     (case map_of plan (fst removal) of
        Some ratioTypes \<Rightarrow>
          obj_set (fst removal) (if snd removal \<in> set ratioTypes then ratioTypes else ratioTypes @ [snd removal]) plan
      | None \<Rightarrow> obj_set (fst removal) [snd removal] plan)"

definition applyResolutionRemovals :: "resolutions_map \<Rightarrow> (string \<times> string) list \<Rightarrow> resolutions_map" where
  "applyResolutionRemovals resolutions removals =
     (if removals = [] then resolutions else applyResolutionRemovalPlan resolutions (fold add_removal removals []))"

definition deleteResolutionField :: "resolutions_map \<Rightarrow> string \<Rightarrow> string \<Rightarrow> resolutions_map" where
  "deleteResolutionField resolutions model ratioType = applyResolutionRemovals resolutions [(model, ratioType)]"

text \<open>The names of the two built-in sources are written in Chinese and are parameters.\<close>

definition getUpstreamDisplayName :: "string \<Rightarrow> string \<Rightarrow> string \<Rightarrow> string" where
  "getUpstreamDisplayName officialName modelsDevName sourceName =
     (if sourceName = officialName @ ''(-100)'' then officialName
      else if sourceName = modelsDevName @ ''(-101)'' then modelsDevName
      else sourceName)"

section \<open>The table\<close>

record sync_row =
  row_model :: string
  row_ratioTypes :: ratio_types
  row_billingConflict :: bool

definition data_source :: "differences_map \<Rightarrow> sync_row list" where
  "data_source differences = map (\<lambda>(model, ratioTypes).
     \<lparr>row_model = model, row_ratioTypes = ratioTypes,
      row_billingConflict = (''model_price'' \<in> fst ` set ratioTypes \<and> list_ex (\<lambda>rt. rt \<in> fst ` set ratioTypes) RATIO_SYNC_FIELDS)\<rparr>)
     (js_entries differences)"

definition filtered_data :: "differences_map \<Rightarrow> string \<Rightarrow> string \<Rightarrow> sync_row list" where
  "filtered_data differences search ratioTypeFilter =
     (let data = data_source differences;
          data1 = (if js_trim search \<noteq> []
                   then filter (\<lambda>row. js_includes (js_to_lower (row_model row)) (js_to_lower search)) data else data)
      in if ratioTypeFilter \<noteq> [] \<and> ratioTypeFilter \<noteq> ''__all__''
         then filter (\<lambda>row. ratioTypeFilter \<in> fst ` set (row_ratioTypes row)) data1 else data1)"

definition upstream_names :: "sync_row list \<Rightarrow> string \<Rightarrow> string list" where
  "upstream_names rows ratioTypeFilter =
     js_unique (concat (map (\<lambda>row. concat (map (\<lambda>ratioType.
       case map_of (row_ratioTypes row) ratioType of None \<Rightarrow> [] | Some e \<Rightarrow> map fst (js_entries (re_upstreams e)))
       (getOrderedRatioTypes (row_ratioTypes row) (Some ratioTypeFilter)))) rows))"

text \<open>The values of a source that can be chosen in the rows.\<close>

definition row_selections :: "string \<Rightarrow> string \<Rightarrow> sync_row \<Rightarrow> resolution_selection list" where
  "row_selections upstreamName ratioTypeFilter row =
     map (\<lambda>ratioType. \<lparr>sel_model = row_model row, sel_ratioType = ratioType,
         sel_value = upstream_value (row_ratioTypes row) ratioType upstreamName, sel_sourceName = upstreamName\<rparr>)
       (filter (\<lambda>ratioType. isSelectableUpstreamValue (upstream_value (row_ratioTypes row) ratioType upstreamName))
         (getAlignedRatioTypes (row_ratioTypes row) [upstreamName] (Some ratioTypeFilter)))"

record bulk_state =
  bulk_selections :: "resolution_selection list"
  bulk_removalPlan :: removal_plan
  bulk_selectableCount :: nat
  bulk_selectedCount :: nat

definition bulk_select_state ::
  "differences_map \<Rightarrow> resolutions_map \<Rightarrow> string \<Rightarrow> string \<Rightarrow> string \<Rightarrow> bulk_state" where
  "bulk_select_state differences resolutions search ratioTypeFilter upstreamName =
     (let rows = filtered_data differences search ratioTypeFilter;
          selections = concat (map (row_selections upstreamName ratioTypeFilter) rows);
          effectiveSelections = getEffectiveResolutionSelections differences selections
      in \<lparr>bulk_selections = effectiveSelections,
          bulk_removalPlan = fold add_removal (map (\<lambda>s. (sel_model s, sel_ratioType s)) selections) [],
          bulk_selectableCount = length effectiveSelections,
          bulk_selectedCount = length (filter (\<lambda>s.
            isSelectedResolutionValue resolutions (sel_model s) (sel_ratioType s) (sel_value s)) effectiveSelections)\<rparr>)"

section \<open>The page\<close>

record upstream_channel =
  uc_id :: int
  uc_name :: string
  uc_base_url :: string
  uc_type :: "int option"

definition getDefaultEndpointForChannel :: "upstream_channel \<Rightarrow> string" where
  "getDefaultEndpointForChannel channel =
     (if uc_id channel = -101 then ''https://models.dev/api.json''
      else if uc_id channel = -100 then ''/llm-metadata/api/newapi/ratio_config-v1-base.json''
      else if uc_type channel = Some 20 then ''openrouter''
      else ''/api/pricing'')"

text \<open>The endpoints of the channels: those without one get their default, a chosen channel is asked at its own.\<close>

definition endpoint_of :: "(int \<times> string) list \<Rightarrow> int \<Rightarrow> string" where
  "endpoint_of endpoints i = coalesce (map_of endpoints i) []"

definition fill_endpoints :: "upstream_channel list \<Rightarrow> (int \<times> string) list \<Rightarrow> (int \<times> string) list" where
  "fill_endpoints channels prev =
     fold (\<lambda>channel next. if endpoint_of next (uc_id channel) = []
       then obj_set (uc_id channel) (getDefaultEndpointForChannel channel) next else next) channels prev"

record upstream_config =
  up_id :: int
  up_name :: string
  up_base_url :: string
  up_endpoint :: string

text \<open>Nothing is fetched when no channel is chosen.\<close>

definition handleConfirmChannelSelection ::
  "upstream_channel list \<Rightarrow> (int \<times> string) list \<Rightarrow> int list \<Rightarrow> upstream_config list option" where
  "handleConfirmChannelSelection channels channelEndpoints selectedIds =
     (let selectedChannels = filter (\<lambda>ch. uc_id ch \<in> set selectedIds) channels
      in if selectedChannels = [] then None
         else Some (map (\<lambda>ch. \<lparr>up_id = uc_id ch, up_name = uc_name ch, up_base_url = uc_base_url ch,
           up_endpoint = (if endpoint_of channelEndpoints (uc_id ch) \<noteq> [] then endpoint_of channelEndpoints (uc_id ch)
                          else ''/api/pricing'')\<rparr>) selectedChannels))"

text \<open>\<open>word.charAt(0).toUpperCase()\<close> on the letters that occur in names of fields.\<close>

definition upper_letter :: "char \<Rightarrow> char" where
  "upper_letter c = (if 97 \<le> ordc c \<and> ordc c \<le> 122 then char_of (nat (ordc c - 32)) else c)"

definition optionKeyBySyncField :: "string \<Rightarrow> string" where
  "optionKeyBySyncField ratioType =
     (if ratioType = ''billing_mode'' then ''billing_setting.billing_mode''
      else if ratioType = ''billing_expr'' then ''billing_setting.billing_expr''
      else concat (map (\<lambda>word. case word of [] \<Rightarrow> [] | c # cs \<Rightarrow> upper_letter c # cs) (js_split (CHR ''_'') ratioType)))"

definition parseJsonRecord :: "string \<Rightarrow> jsval" where
  "parseJsonRecord raw = coalesce (json_parse (if raw = [] then ''{}'' else raw)) (JObj [])"

text \<open>The options the page reads and writes, in order.\<close>

definition ratio_options :: "string list" where
  "ratio_options = [''ModelRatio'', ''CompletionRatio'', ''CacheRatio'', ''CreateCacheRatio'', ''ImageRatio'', ''AudioRatio'',
     ''AudioCompletionRatio'']"

definition sync_options :: "string list" where
  "sync_options = ratio_options @ [''ModelPrice'', ''billing_setting.billing_mode'', ''billing_setting.billing_expr'']"

type_synonym option_values = "(string \<times> (string \<times> jsval) list) list"

text \<open>The members of an option that holds an object, as its declared type says; an option of another shape is read as
  empty.\<close>

definition parsed_ratios :: "(string \<Rightarrow> string) \<Rightarrow> option_values" where
  "parsed_ratios modelRatios =
     map (\<lambda>key. (key, case parseJsonRecord (modelRatios key) of JObj kvs \<Rightarrow> kvs | _ \<Rightarrow> [])) sync_options"

definition option_entry :: "option_values \<Rightarrow> string \<Rightarrow> string \<Rightarrow> jsval option" where
  "option_entry values key model = (case map_of values key of None \<Rightarrow> None | Some kvs \<Rightarrow> map_of kvs model)"

definition getLocalBillingCategory :: "string \<Rightarrow> option_values \<Rightarrow> billing_category option" where
  "getLocalBillingCategory model currentRatios =
     (if option_entry currentRatios ''ModelPrice'' model \<noteq> None then Some PriceCategory
      else if list_ex (\<lambda>key. option_entry currentRatios key model \<noteq> None) ratio_options then Some RatioCategory
      else None)"

definition delete_entry :: "string \<Rightarrow> string \<Rightarrow> option_values \<Rightarrow> option_values" where
  "delete_entry model key values =
     (case map_of values key of None \<Rightarrow> values | Some kvs \<Rightarrow> obj_set key (obj_delete model kvs) values)"

definition sync_value :: "string \<Rightarrow> jsval \<Rightarrow> jsval" where
  "sync_value ratioType v = (if ratioType \<in> set NUMERIC_SYNC_FIELDS then JNum (js_to_number v) else v)"

text \<open>An unknown field names an option that is not there, and the assignment throws.\<close>

definition write_entry :: "string \<Rightarrow> string \<times> jsval \<Rightarrow> option_values \<Rightarrow> option_values exn" where
  "write_entry model field values =
     (let optionKey = optionKeyBySyncField (fst field)
      in case map_of values optionKey of
           None \<Rightarrow> Inl ''TypeError''
         | Some kvs \<Rightarrow> Inr (obj_set optionKey (obj_set model (sync_value (fst field) (snd field)) kvs) values))"

fun fold_exn :: "('a \<Rightarrow> 'b \<Rightarrow> 'b exn) \<Rightarrow> 'a list \<Rightarrow> 'b \<Rightarrow> 'b exn" where
  "fold_exn f [] s = Inr s"
| "fold_exn f (x # xs) s = bind_exn (f x s) (fold_exn f xs)"

definition sync_model :: "string \<times> resolution \<Rightarrow> option_values \<Rightarrow> option_values exn" where
  "sync_model mr values =
     (let model = fst mr; ratios = snd mr;
          hasPrice = (''model_price'' \<in> fst ` set ratios);
          hasRatio = list_ex (\<lambda>rt. rt \<in> set RATIO_SYNC_FIELDS) (map fst ratios);
          values1 = (if hasPrice then fold (delete_entry model) ratio_options values else values);
          values2 = (if hasRatio then delete_entry model ''ModelPrice'' values1 else values1)
      in fold_exn (write_entry model) ratios values2)"

definition final_ratios :: "resolutions_map \<Rightarrow> option_values \<Rightarrow> option_values exn" where
  "final_ratios resolutions currentRatios = fold_exn sync_model (js_entries resolutions) currentRatios"

text \<open>The updates that are sent, one request after another.\<close>

definition performSync :: "resolutions_map \<Rightarrow> option_values \<Rightarrow> (string \<times> string) list exn" where
  "performSync resolutions currentRatios = bind_exn (final_ratios resolutions currentRatios) (\<lambda>values.
     Inr (map (\<lambda>(key, kvs). (key, json_pretty [] (JObj (js_entries kvs)))) values))"

definition findSourceChannel :: "differences_map \<Rightarrow> string \<Rightarrow> string \<Rightarrow> jsval \<Rightarrow> string" where
  "findSourceChannel differences model ratioType v =
     (case map_of differences model of
        None \<Rightarrow> ''Unknown''
      | Some rts \<Rightarrow>
          (case map_of rts ratioType of
             None \<Rightarrow> ''Unknown''
           | Some e \<Rightarrow>
               (case find (\<lambda>nv. snd nv = v) (js_entries (re_upstreams e)) of Some nv \<Rightarrow> fst nv | None \<Rightarrow> ''Unknown'')))"

definition new_category :: "resolution \<Rightarrow> billing_category" where
  "new_category ratios =
     (if ''model_price'' \<in> fst ` set ratios then PriceCategory
      else if list_ex (\<lambda>rt. rt \<in> fst ` set ratios) RATIO_SYNC_FIELDS then RatioCategory
      else TieredCategory)"

record conflict_item =
  cf_channel :: string
  cf_model :: string
  cf_current :: string
  cf_newVal :: string

definition or_dash :: "jsval option \<Rightarrow> string" where
  "or_dash v = (case v of None \<Rightarrow> ''-'' | Some JNull \<Rightarrow> ''-'' | Some JUndefined \<Rightarrow> ''-'' | Some x \<Rightarrow> js_string x)"

definition model_conflict ::
  "(string \<Rightarrow> string) \<Rightarrow> differences_map \<Rightarrow> option_values \<Rightarrow> string \<times> resolution \<Rightarrow> conflict_item list" where
  "model_conflict t differences currentRatios mr =
     (let model = fst mr; ratios = snd mr; localCat = getLocalBillingCategory model currentRatios; newCat = new_category ratios
      in if localCat \<noteq> None \<and> newCat \<noteq> TieredCategory \<and> localCat \<noteq> Some newCat
         then [\<lparr>cf_channel = js_join '', '' (js_unique (map (\<lambda>(rt, v). findSourceChannel differences model rt v) ratios)),
                cf_model = model,
                cf_current =
                  (if localCat = Some PriceCategory
                   then t ''Fixed price'' @ '': '' @ js_string (coalesce (option_entry currentRatios ''ModelPrice'' model) JUndefined)
                   else t ''Model ratio'' @ '': '' @ or_dash (option_entry currentRatios ''ModelRatio'' model) @ newline @
                     t ''Completion ratio'' @ '': '' @ or_dash (option_entry currentRatios ''CompletionRatio'' model)),
                cf_newVal =
                  (if newCat = PriceCategory
                   then t ''Fixed price'' @ '': '' @ js_string (coalesce (map_of ratios ''model_price'') JUndefined)
                   else t ''Model ratio'' @ '': '' @ or_dash (map_of ratios ''model_ratio'') @ newline @
                     t ''Completion ratio'' @ '': '' @ or_dash (map_of ratios ''completion_ratio''))\<rparr>]
         else [])"

definition sync_conflicts ::
  "(string \<Rightarrow> string) \<Rightarrow> differences_map \<Rightarrow> resolutions_map \<Rightarrow> option_values \<Rightarrow> conflict_item list" where
  "sync_conflicts t differences resolutions currentRatios =
     concat (map (model_conflict t differences currentRatios) (js_entries resolutions))"

text \<open>The differences that are settled by a successful synchronisation.\<close>

definition settle_field :: "string \<Rightarrow> string \<Rightarrow> differences_map \<Rightarrow> differences_map" where
  "settle_field model ratioType dmap =
     (case map_of dmap model of
        None \<Rightarrow> dmap
      | Some rts \<Rightarrow>
          if ratioType \<in> fst ` set rts
          then (let rts' = obj_delete ratioType rts in if rts' = [] then obj_delete model dmap else obj_set model rts' dmap)
          else dmap)"

definition settle :: "resolutions_map \<Rightarrow> differences_map \<Rightarrow> differences_map" where
  "settle resolutions dmap =
     fold (\<lambda>(model, ratios). fold (settle_field model) (map fst ratios)) (js_entries resolutions) dmap"

text \<open>What happens to the page: an answer to the fetch, a choice of fields of the declared type, a removal, a successful
  synchronisation.\<close>

record sync_page =
  sp_differences :: differences_map
  sp_resolutions :: resolutions_map

inductive sync_step :: "sync_page \<Rightarrow> sync_page \<Rightarrow> bool" where
  fetched: "sync_step p \<lparr>sp_differences = dmap, sp_resolutions = []\<rparr>"
| selected: "list_all (\<lambda>s. sel_ratioType s \<in> set SYNC_FIELD_ORDER) selections \<Longrightarrow>
    sync_step p (p\<lparr>sp_resolutions := applyResolutionSelections (sp_resolutions p) (sp_differences p) selections\<rparr>)"
| unselected: "sync_step p (p\<lparr>sp_resolutions := deleteResolutionField (sp_resolutions p) model ratioType\<rparr>)"
| bulk_unselected: "distinct (map fst plan) \<Longrightarrow>
    sync_step p (p\<lparr>sp_resolutions := applyResolutionRemovalPlan (sp_resolutions p) plan\<rparr>)"
| synced: "sync_step p \<lparr>sp_differences = settle (sp_resolutions p) (sp_differences p), sp_resolutions = []\<rparr>"

definition sync_start :: sync_page where
  "sync_start = \<lparr>sp_differences = [], sp_resolutions = []\<rparr>"

end
