(* ===== verification/Sync_Facts.thy ===== *)
theory Sync_Facts
  imports Ratio_Sync
begin

text \<open>
  What the helpers of the synchronisation do to the chosen values, and what is written.
\<close>

section \<open>Objects\<close>

lemma map_of_js_entries: "distinct (map fst kvs) \<Longrightarrow> map_of (js_entries kvs) = map_of kvs"
  by (rule map_of_inject_set [THEN iffD2]) (simp_all add: distinct_js_entries)

lemma map_of_put_draft: "map_of (put_draft (m, d) res) = (map_of res)(m := if d = [] then None else Some d)"
  by (auto simp: put_draft_def)

lemma fold_put_draft:
  "distinct (map fst drafts) \<Longrightarrow>
    map_of (fold put_draft drafts res) m = (case map_of drafts m of None \<Rightarrow> map_of res m | Some d \<Rightarrow> if d = [] then None else Some d)"
proof (induction drafts arbitrary: res)
  case (Cons md drafts)
  obtain m' d where "md = (m', d)" by (cases md)
  moreover have "map_of drafts m' = None" using Cons.prems \<open>md = (m', d)\<close> by (simp add: map_of_eq_None_iff)
  ultimately show ?case using Cons by (cases "m = m'") (simp_all add: map_of_put_draft split: option.splits)
qed simp

lemma distinct_put_draft: "distinct (map fst res) \<Longrightarrow> distinct (map fst (put_draft md res))"
  by (simp add: put_draft_def)

lemma distinct_fold_put: "distinct (map fst res) \<Longrightarrow> distinct (map fst (fold put_draft drafts res))"
  by (induction drafts arbitrary: res) (simp_all add: distinct_put_draft)

section \<open>The chosen values of a model\<close>

abbreviation keys_of :: "('k \<times> 'v) list \<Rightarrow> 'k set" where
  "keys_of kvs \<equiv> fst ` set kvs"

text \<open>A fixed price and ratios are not chosen together, an expression comes with its mode when the model is compared.\<close>

definition resolution_ok :: "differences_map \<Rightarrow> string \<Rightarrow> resolution \<Rightarrow> bool" where
  "resolution_ok dmap model r \<longleftrightarrow> distinct (map fst r) \<and> keys_of r \<subseteq> set SYNC_FIELD_ORDER \<and>
     \<not> (''model_price'' \<in> keys_of r \<and> keys_of r \<inter> set RATIO_SYNC_FIELDS \<noteq> {}) \<and>
     (model \<in> keys_of dmap \<and> ''billing_expr'' \<in> keys_of r \<longrightarrow> ''billing_mode'' \<in> keys_of r)"

definition resolutions_ok :: "differences_map \<Rightarrow> resolutions_map \<Rightarrow> bool" where
  "resolutions_ok dmap res \<longleftrightarrow> distinct (map fst res) \<and>
     (\<forall>m r. map_of res m = Some r \<longrightarrow> r \<noteq> [] \<and> resolution_ok dmap m r)"

lemma category_fields:
  assumes "f \<in> set SYNC_FIELD_ORDER"
  shows "getBillingCategory f = RatioCategory \<longleftrightarrow> f \<in> set RATIO_SYNC_FIELDS"
    "getBillingCategory f = PriceCategory \<longleftrightarrow> f = ''model_price''"
    "getBillingCategory f = TieredCategory \<longleftrightarrow> f \<in> {''billing_mode'', ''billing_expr''}"
  using assms by (auto simp: SYNC_FIELD_ORDER_def RATIO_SYNC_FIELDS_def getBillingCategory_def)

lemma special_fields [simp]:
  "''model_price'' \<in> set SYNC_FIELD_ORDER" "''billing_mode'' \<in> set SYNC_FIELD_ORDER" "''billing_expr'' \<in> set SYNC_FIELD_ORDER"
  "''model_price'' \<notin> set RATIO_SYNC_FIELDS" "''billing_mode'' \<notin> set RATIO_SYNC_FIELDS" "''billing_expr'' \<notin> set RATIO_SYNC_FIELDS"
  by (simp_all add: SYNC_FIELD_ORDER_def RATIO_SYNC_FIELDS_def)

lemma preferred_field: "f \<in> set SYNC_FIELD_ORDER \<Longrightarrow> getPreferredSyncField rts f source \<in> set SYNC_FIELD_ORDER"
  by (simp add: getPreferredSyncField_def Let_def)

lemma resolved_simps [simp]:
  "sel_model (resolveResolutionSelection dmap s) = sel_model s"
  "sel_sourceName (resolveResolutionSelection dmap s) = sel_sourceName s"
  by (simp_all add: resolveResolutionSelection_def Let_def)

lemma resolved_field: "sel_ratioType s \<in> set SYNC_FIELD_ORDER \<Longrightarrow> sel_ratioType (resolveResolutionSelection dmap s) \<in> set SYNC_FIELD_ORDER"
  by (simp add: resolveResolutionSelection_def Let_def preferred_field)

lemma keys_dropped:
  "keys_of (drop_other_category c r) = {k \<in> keys_of r. c = TieredCategory \<or> getBillingCategory k = TieredCategory \<or> getBillingCategory k = c}"
  by (auto simp: drop_other_category_def)

lemma keys_set_tiered:
  "keys_of (set_tiered rts source f r) = keys_of r \<union>
     (if isSelectableUpstreamValue (upstream_value rts ''billing_mode'' source) \<or> f = ''billing_expr'' then {''billing_mode''} else {}) \<union>
     (if isSelectableUpstreamValue (upstream_value rts ''billing_expr'' source) then {''billing_expr''} else {})"
  by (auto simp: set_tiered_def Let_def)

lemma distinct_set_tiered: "distinct (map fst r) \<Longrightarrow> distinct (map fst (set_tiered rts source f r))"
  by (simp add: set_tiered_def Let_def)

lemma preferred_expr:
  "isSelectableUpstreamValue (upstream_value rts ''billing_expr'' source) \<Longrightarrow> getPreferredSyncField rts f source = ''billing_expr''"
  by (auto simp: getPreferredSyncField_def isSelectableUpstreamValue_def Let_def)

lemma keys_update:
  assumes "f = sel_ratioType (resolveResolutionSelection dmap s)"
  shows "keys_of (update_draft dmap s r) = insert f (keys_of (drop_other_category (getBillingCategory f) r)) \<union>
    (case map_of dmap (sel_model s) of
       None \<Rightarrow> {}
     | Some rts \<Rightarrow>
         if getBillingCategory f = TieredCategory
         then (if isSelectableUpstreamValue (upstream_value rts ''billing_mode'' (sel_sourceName s)) \<or> f = ''billing_expr''
               then {''billing_mode''} else {}) \<union>
              (if isSelectableUpstreamValue (upstream_value rts ''billing_expr'' (sel_sourceName s)) then {''billing_expr''} else {})
         else {})"
  unfolding update_draft_def assms [symmetric] Let_def by (simp add: keys_set_tiered split: option.splits)

lemma distinct_update: "distinct (map fst r) \<Longrightarrow> distinct (map fst (update_draft dmap s r))"
  by (simp add: update_draft_def Let_def distinct_set_tiered drop_other_category_def distinct_filter_keys split: option.splits)

lemma update_not_Nil: "update_draft dmap s r \<noteq> []"
  by (simp add: update_draft_def set_tiered_def Let_def split: option.splits)

lemma resolved_expr:
  assumes "map_of dmap (sel_model s) = Some rts"
    and "isSelectableUpstreamValue (upstream_value rts ''billing_expr'' (sel_sourceName s))"
  shows "sel_ratioType (resolveResolutionSelection dmap s) = ''billing_expr''"
  using assms by (simp add: resolveResolutionSelection_def Let_def preferred_expr)

lemma ratio_category: "k \<in> set RATIO_SYNC_FIELDS \<Longrightarrow> getBillingCategory k = RatioCategory"
  by (auto simp: RATIO_SYNC_FIELDS_def getBillingCategory_def)

lemma category_simps [simp]:
  "getBillingCategory ''model_price'' = PriceCategory" "getBillingCategory ''billing_mode'' = TieredCategory"
  "getBillingCategory ''billing_expr'' = TieredCategory"
  by (simp_all add: getBillingCategory_def)

lemma update_keys:
  assumes "f = sel_ratioType (resolveResolutionSelection dmap s)"
  shows "getBillingCategory k = TieredCategory \<Longrightarrow> k \<in> keys_of r \<Longrightarrow> k \<in> keys_of (update_draft dmap s r)"
    "k \<in> keys_of (update_draft dmap s r) \<Longrightarrow> getBillingCategory k \<noteq> TieredCategory \<Longrightarrow> getBillingCategory f \<noteq> TieredCategory \<Longrightarrow>
      getBillingCategory k = getBillingCategory f"
    "k \<in> keys_of (update_draft dmap s r) \<Longrightarrow> getBillingCategory k \<noteq> TieredCategory \<Longrightarrow> getBillingCategory f = TieredCategory \<Longrightarrow>
      k \<in> keys_of r"
    "k \<in> keys_of (update_draft dmap s r) \<Longrightarrow> k \<in> keys_of r \<or> k = f \<or> k \<in> {''billing_mode'', ''billing_expr''}"
  unfolding keys_update [OF assms] keys_dropped by (auto split: option.splits if_splits)

lemma update_ok:
  assumes "resolution_ok dmap (sel_model s) r" "sel_ratioType s \<in> set SYNC_FIELD_ORDER"
  shows "resolution_ok dmap (sel_model s) (update_draft dmap s r)"
proof -
  define f where f: "f = sel_ratioType (resolveResolutionSelection dmap s)"
  let ?K = "keys_of (update_draft dmap s r)"
  have "f \<in> set SYNC_FIELD_ORDER" using resolved_field [OF assms(2)] f by simp
  have fields: "?K \<subseteq> set SYNC_FIELD_ORDER"
  proof
    fix k assume "k \<in> ?K"
    then have "k \<in> keys_of r \<or> k = f \<or> k \<in> {''billing_mode'', ''billing_expr''}" by (rule update_keys(4) [OF f])
    with \<open>f \<in> set SYNC_FIELD_ORDER\<close> assms(1) show "k \<in> set SYNC_FIELD_ORDER" by (auto simp: resolution_ok_def)
  qed
  have apart: "k \<notin> ?K" if "''model_price'' \<in> ?K" "k \<in> set RATIO_SYNC_FIELDS" for k
  proof
    assume k: "k \<in> ?K"
    show False
    proof (cases "getBillingCategory f = TieredCategory")
      case True
      then have "''model_price'' \<in> keys_of r" "k \<in> keys_of r"
        using update_keys(3) [OF f] that k ratio_category [OF that(2)] by simp_all
      with assms(1) that(2) show ?thesis by (auto simp: resolution_ok_def)
    next
      case False
      then show ?thesis using update_keys(2) [OF f that(1)] update_keys(2) [OF f k] ratio_category [OF that(2)] by simp
    qed
  qed
  have "''billing_mode'' \<in> ?K" if known: "sel_model s \<in> keys_of dmap" and expr: "''billing_expr'' \<in> ?K"
  proof (cases "''billing_expr'' \<in> keys_of r")
    case True
    with known assms(1) have "''billing_mode'' \<in> keys_of r" by (simp add: resolution_ok_def)
    then show ?thesis using update_keys(1) [OF f] by simp
  next
    case False
    obtain rts where rts: "map_of dmap (sel_model s) = Some rts" using known map_of_eq_None_iff [of dmap "sel_model s"] by (cases "map_of dmap (sel_model s)") auto
    have "f = ''billing_expr''"
    proof (rule ccontr)
      assume other: "f \<noteq> ''billing_expr''"
      then have "\<not> isSelectableUpstreamValue (upstream_value rts ''billing_expr'' (sel_sourceName s))"
        using resolved_expr [OF rts] f by blast
      with expr False other show False unfolding keys_update [OF f] keys_dropped rts by (simp split: if_splits)
    qed
    then show ?thesis unfolding keys_update [OF f] by (simp add: rts)
  qed
  moreover have "\<not> (''model_price'' \<in> ?K \<and> ?K \<inter> set RATIO_SYNC_FIELDS \<noteq> {})" using apart by blast
  moreover have "distinct (map fst (update_draft dmap s r))" using assms(1) by (simp add: distinct_update resolution_ok_def)
  ultimately show ?thesis using fields unfolding resolution_ok_def by (intro conjI impI) simp_all
qed

section \<open>Choices and removals keep the values consistent\<close>

lemma draft_of: "resolutions_ok dmap res \<Longrightarrow> (\<And>m d. map_of drafts m = Some d \<Longrightarrow> resolution_ok dmap m d) \<Longrightarrow>
    resolution_ok dmap m (getDraftModelResolution drafts res m)"
  by (auto simp: getDraftModelResolution_def resolutions_ok_def resolution_ok_def [of dmap m "[]"] coalesce_def split: option.splits)

definition drafts_ok :: "differences_map \<Rightarrow> resolutions_map \<Rightarrow> bool" where
  "drafts_ok dmap drafts \<longleftrightarrow> distinct (map fst drafts) \<and> (\<forall>m d. map_of drafts m = Some d \<longrightarrow> d \<noteq> [] \<and> resolution_ok dmap m d)"

lemma drafts_step:
  assumes "resolutions_ok dmap res" "drafts_ok dmap drafts" "sel_ratioType s \<in> set SYNC_FIELD_ORDER"
  shows "drafts_ok dmap (applyResolutionSelectionToDraft res dmap s drafts)"
proof -
  let ?r = "getDraftModelResolution drafts res (sel_model s)"
  have "resolution_ok dmap (sel_model s) (update_draft dmap s ?r)"
    using assms draft_of by (intro update_ok) (auto simp: drafts_ok_def)
  with assms(2) show ?thesis by (simp add: drafts_ok_def applyResolutionSelectionToDraft_def update_not_Nil)
qed

lemma drafts_fold:
  assumes "resolutions_ok dmap res" "drafts_ok dmap drafts" "list_all (\<lambda>s. sel_ratioType s \<in> set SYNC_FIELD_ORDER) ss"
  shows "drafts_ok dmap (fold (applyResolutionSelectionToDraft res dmap) ss drafts)"
  using assms(2,3) by (induction ss arbitrary: drafts) (simp_all add: drafts_step [OF assms(1)])

lemma selections_ok:
  assumes "resolutions_ok dmap res" "list_all (\<lambda>s. sel_ratioType s \<in> set SYNC_FIELD_ORDER) ss"
  shows "resolutions_ok dmap (applyResolutionSelections res dmap ss)"
proof -
  have "drafts_ok dmap (fold (applyResolutionSelectionToDraft res dmap) ss [])"
    using assms by (intro drafts_fold) (simp_all add: drafts_ok_def)
  then show ?thesis using assms(1)
    by (auto simp: applyResolutionSelections_def resolutions_ok_def drafts_ok_def fold_put_draft distinct_fold_put
        simp del: map_of_eq_Some_iff split: option.splits if_splits)
qed

lemma remove_field_keys:
  "keys_of (remove_field f r) = keys_of r - {f} - (if f = ''billing_expr'' then {''billing_mode''} else {}) -
     (if f = ''billing_mode'' then {''billing_expr''} else {})"
  by (auto simp: remove_field_def Let_def obj_delete_keys)

lemma remove_ok: "resolution_ok dmap m r \<Longrightarrow> resolution_ok dmap m (remove_field f r)"
  unfolding resolution_ok_def remove_field_keys by (auto simp: remove_field_def Let_def)

lemma removes_ok: "resolution_ok dmap m r \<Longrightarrow> resolution_ok dmap m (fold remove_field fs r)"
  by (induction fs arbitrary: r) (simp_all add: remove_ok)

lemma removals_ok:
  assumes "resolutions_ok dmap res" shows "resolutions_ok dmap (applyResolutionRemovalPlan res plan)"
proof -
  have "resolutions_ok dmap (fold (\<lambda>(model, ratioTypes) next. case map_of res model of None \<Rightarrow> next
      | Some current \<Rightarrow> put_draft (model, fold remove_field ratioTypes current) next) plan next)"
    if "resolutions_ok dmap next" for "next"
    using that
  proof (induction plan arbitrary: "next")
    case (Cons mp plan)
    obtain m fs where mp: "mp = (m, fs)" by (cases mp)
    have "resolutions_ok dmap (put_draft (m, fold remove_field fs r) next)" if "map_of res m = Some r" for r
      using Cons.prems assms that removes_ok by (auto simp: resolutions_ok_def map_of_put_draft distinct_put_draft split: if_splits)
    with Cons mp show ?case by (simp split: option.splits)
  qed simp
  with assms show ?thesis by (simp add: applyResolutionRemovalPlan_def)
qed

definition page_ok :: "sync_page \<Rightarrow> bool" where
  "page_ok p \<longleftrightarrow> resolutions_ok (sp_differences p) (sp_resolutions p)"

lemma page_ok_step: "sync_step p q \<Longrightarrow> page_ok p \<Longrightarrow> page_ok q"
  by (induction rule: sync_step.induct)
    (auto simp: page_ok_def selections_ok removals_ok deleteResolutionField_def applyResolutionRemovals_def,
     simp_all add: resolutions_ok_def)

lemma page_ok_run: "sync_step\<^sup>*\<^sup>* p q \<Longrightarrow> page_ok p \<Longrightarrow> page_ok q"
  by (induction rule: rtranclp_induct) (auto intro: page_ok_step)

lemma start_page_ok: "page_ok sync_start"
  by (simp add: page_ok_def sync_start_def resolutions_ok_def)

section \<open>What is written\<close>

text \<open>The entry of a model under the option of a field, when values were chosen for the model.\<close>

definition synced_entry :: "resolution \<Rightarrow> string \<Rightarrow> jsval option \<Rightarrow> jsval option" where
  "synced_entry r f old =
     (case map_of r f of
        Some v \<Rightarrow> Some (sync_value f v)
      | None \<Rightarrow>
          if f \<in> set RATIO_SYNC_FIELDS \<and> ''model_price'' \<in> keys_of r \<or> f = ''model_price'' \<and> keys_of r \<inter> set RATIO_SYNC_FIELDS \<noteq> {}
          then None else old)"

lemma option_keys:
  "map optionKeyBySyncField SYNC_FIELD_ORDER = sync_options" "map optionKeyBySyncField RATIO_SYNC_FIELDS = ratio_options"
  "optionKeyBySyncField ''model_price'' = ''ModelPrice''"
  by code_simp+

lemma option_key_inject:
  assumes "f \<in> set SYNC_FIELD_ORDER" "g \<in> set SYNC_FIELD_ORDER" "optionKeyBySyncField f = optionKeyBySyncField g"
  shows "f = g"
proof -
  have "distinct (map optionKeyBySyncField SYNC_FIELD_ORDER)" by code_simp
  then show ?thesis using assms by (auto simp: distinct_map dest: inj_onD)
qed

definition options_present :: "option_values \<Rightarrow> bool" where
  "options_present vs \<longleftrightarrow> keys_of vs = set sync_options"

lemma option_present: "options_present vs \<Longrightarrow> f \<in> set SYNC_FIELD_ORDER \<Longrightarrow> \<exists>kvs. map_of vs (optionKeyBySyncField f) = Some kvs"
proof -
  assume "options_present vs" "f \<in> set SYNC_FIELD_ORDER"
  then have "optionKeyBySyncField f \<in> keys_of vs" unfolding options_present_def option_keys(1) [symmetric] by simp
  then show ?thesis by (cases "map_of vs (optionKeyBySyncField f)") (simp_all add: map_of_eq_None_iff)
qed

lemma delete_entry_entry:
  "option_entry (delete_entry m key vs) k m' = (if k = key \<and> m' = m then None else option_entry vs k m')"
  by (auto simp: option_entry_def delete_entry_def split: option.splits)

lemma delete_entry_present: "options_present vs \<Longrightarrow> options_present (delete_entry m key vs)"
proof -
  assume vs: "options_present vs"
  have "key \<in> keys_of vs" if "map_of vs key = Some kvs" for kvs using map_of_SomeD [OF that] by force
  with vs show ?thesis by (auto simp: options_present_def delete_entry_def split: option.splits)
qed

lemma delete_entries:
  "option_entry (fold (delete_entry m) ks vs) k m' = (if k \<in> set ks \<and> m' = m then None else option_entry vs k m')"
  "options_present vs \<Longrightarrow> options_present (fold (delete_entry m) ks vs)"
  by (induction ks arbitrary: vs) (simp_all add: delete_entry_entry delete_entry_present)

lemma write_entry_step:
  assumes "options_present vs" "f \<in> set SYNC_FIELD_ORDER"
  shows "\<exists>vs'. write_entry m (f, v) vs = Inr vs' \<and> options_present vs' \<and>
    (\<forall>k m'. option_entry vs' k m' = (if k = optionKeyBySyncField f \<and> m' = m then Some (sync_value f v) else option_entry vs k m'))"
proof -
  obtain kvs where kvs: "map_of vs (optionKeyBySyncField f) = Some kvs" using option_present [OF assms] by blast
  then have "optionKeyBySyncField f \<in> keys_of vs" by (force dest: map_of_SomeD)
  with kvs assms(1) show ?thesis by (auto simp: write_entry_def option_entry_def options_present_def)
qed

lemma write_entries:
  assumes "options_present vs" "keys_of r \<subseteq> set SYNC_FIELD_ORDER" "distinct (map fst r)"
  shows "\<exists>vs'. fold_exn (write_entry m) r vs = Inr vs' \<and> options_present vs' \<and>
    (\<forall>f \<in> set SYNC_FIELD_ORDER. \<forall>m'. option_entry vs' (optionKeyBySyncField f) m' =
       (if m' = m \<and> f \<in> keys_of r then map_option (sync_value f) (map_of r f) else option_entry vs (optionKeyBySyncField f) m'))"
  using assms
proof (induction r arbitrary: vs)
  case (Cons fv r)
  obtain f v where fv: "fv = (f, v)" by (cases fv)
  with Cons.prems have f: "f \<in> set SYNC_FIELD_ORDER" "f \<notin> keys_of r" by auto
  obtain vs1 where vs1: "write_entry m (f, v) vs = Inr vs1" "options_present vs1"
      "\<And>k m'. option_entry vs1 k m' = (if k = optionKeyBySyncField f \<and> m' = m then Some (sync_value f v) else option_entry vs k m')"
    using write_entry_step [OF Cons.prems(1) f(1), of m v] by blast
  obtain vs' where vs': "fold_exn (write_entry m) r vs1 = Inr vs'" "options_present vs'"
      "\<forall>g \<in> set SYNC_FIELD_ORDER. \<forall>m'. option_entry vs' (optionKeyBySyncField g) m' =
         (if m' = m \<and> g \<in> keys_of r then map_option (sync_value g) (map_of r g) else option_entry vs1 (optionKeyBySyncField g) m')"
    using Cons.IH [OF vs1(2)] Cons.prems by auto
  have "option_entry vs' (optionKeyBySyncField g) m' =
      (if m' = m \<and> g \<in> keys_of (fv # r) then map_option (sync_value g) (map_of (fv # r) g) else option_entry vs (optionKeyBySyncField g) m')"
    if "g \<in> set SYNC_FIELD_ORDER" for g m'
    using vs'(3) that vs1(3) fv f option_key_inject [OF that f(1)] by auto
  with vs' vs1(1) fv show ?case by auto
qed (simp add: options_present_def)

lemma sync_model_entries:
  assumes "options_present vs" "resolution_ok dmap m r"
  shows "\<exists>vs'. sync_model (m, r) vs = Inr vs' \<and> options_present vs' \<and>
    (\<forall>f \<in> set SYNC_FIELD_ORDER. \<forall>m'. option_entry vs' (optionKeyBySyncField f) m' =
       (if m' = m then synced_entry r f (option_entry vs (optionKeyBySyncField f) m) else option_entry vs (optionKeyBySyncField f) m'))"
proof -
  have r: "keys_of r \<subseteq> set SYNC_FIELD_ORDER" "distinct (map fst r)" using assms(2) by (simp_all add: resolution_ok_def)
  define hasRatio where "hasRatio \<longleftrightarrow> keys_of r \<inter> set RATIO_SYNC_FIELDS \<noteq> {}"
  have ratio: "list_ex (\<lambda>rt. rt \<in> set RATIO_SYNC_FIELDS) (map fst r) \<longleftrightarrow> hasRatio" by (auto simp: list_ex_iff hasRatio_def)
  define vs1 where "vs1 = (if ''model_price'' \<in> keys_of r then fold (delete_entry m) ratio_options vs else vs)"
  define vs2 where "vs2 = (if hasRatio then delete_entry m ''ModelPrice'' vs1 else vs1)"
  have vs2: "options_present vs2" using assms(1) by (simp add: vs2_def vs1_def delete_entries delete_entry_present)
  have ratio_key: "optionKeyBySyncField f \<in> set ratio_options \<longleftrightarrow> f \<in> set RATIO_SYNC_FIELDS" if "f \<in> set SYNC_FIELD_ORDER" for f
  proof -
    have "set RATIO_SYNC_FIELDS \<subseteq> set SYNC_FIELD_ORDER" by (auto simp: SYNC_FIELD_ORDER_def)
    with option_key_inject [OF that] show ?thesis unfolding option_keys(2) [symmetric] by force
  qed
  have price_key: "optionKeyBySyncField f = ''ModelPrice'' \<longleftrightarrow> f = ''model_price''" if "f \<in> set SYNC_FIELD_ORDER" for f
    using option_key_inject [OF that, of "''model_price''"] unfolding option_keys(3) by (auto simp: option_keys(3))
  have entry: "option_entry vs2 (optionKeyBySyncField f) m' =
      (if m' = m \<and> (f \<in> set RATIO_SYNC_FIELDS \<and> ''model_price'' \<in> keys_of r \<or> f = ''model_price'' \<and> hasRatio) then None
       else option_entry vs (optionKeyBySyncField f) m')" if "f \<in> set SYNC_FIELD_ORDER" for f m'
    unfolding vs2_def vs1_def using ratio_key [OF that] price_key [OF that]
    by (cases hasRatio; cases "''model_price'' \<in> keys_of r") (simp_all only: delete_entries delete_entry_entry if_True if_False simp_thms, simp_all, blast)
  obtain vs' where "fold_exn (write_entry m) r vs2 = Inr vs'" "options_present vs'"
      "\<forall>f \<in> set SYNC_FIELD_ORDER. \<forall>m'. option_entry vs' (optionKeyBySyncField f) m' =
       (if m' = m \<and> f \<in> keys_of r then map_option (sync_value f) (map_of r f) else option_entry vs2 (optionKeyBySyncField f) m')"
    using write_entries [OF vs2 r] by blast
  moreover have "sync_model (m, r) vs = fold_exn (write_entry m) r vs2"
    by (simp add: sync_model_def Let_def ratio vs1_def vs2_def)
  ultimately have run: "sync_model (m, r) vs = Inr vs'" "options_present vs'"
    and vs': "\<And>f m'. f \<in> set SYNC_FIELD_ORDER \<Longrightarrow> option_entry vs' (optionKeyBySyncField f) m' =
       (if m' = m \<and> f \<in> keys_of r then map_option (sync_value f) (map_of r f) else option_entry vs2 (optionKeyBySyncField f) m')"
    by auto
  have "option_entry vs' (optionKeyBySyncField f) m' =
      (if m' = m then synced_entry r f (option_entry vs (optionKeyBySyncField f) m) else option_entry vs (optionKeyBySyncField f) m')"
    if "f \<in> set SYNC_FIELD_ORDER" for f m'
  proof (cases "map_of r f")
    case None
    then have "f \<notin> keys_of r" by (simp add: map_of_eq_None_iff)
    with None show ?thesis unfolding vs' [OF that] entry [OF that] hasRatio_def by (simp add: synced_entry_def)
  next
    case (Some v)
    then have "f \<in> keys_of r" by (force dest: map_of_SomeD)
    with Some show ?thesis unfolding vs' [OF that] entry [OF that] by (cases "m' = m") (simp_all add: synced_entry_def)
  qed
  with run show ?thesis by blast
qed

lemma final_entries:
  assumes "options_present vs" "distinct (map fst rs)" "\<And>m r. (m, r) \<in> set rs \<Longrightarrow> resolution_ok dmap m r"
  shows "\<exists>vs'. fold_exn sync_model rs vs = Inr vs' \<and> options_present vs' \<and>
    (\<forall>f \<in> set SYNC_FIELD_ORDER. \<forall>m. option_entry vs' (optionKeyBySyncField f) m =
       (case map_of rs m of None \<Rightarrow> option_entry vs (optionKeyBySyncField f) m
        | Some r \<Rightarrow> synced_entry r f (option_entry vs (optionKeyBySyncField f) m)))"
  using assms
proof (induction rs arbitrary: vs)
  case (Cons mr rs)
  obtain m r where mr: "mr = (m, r)" by (cases mr)
  obtain vs1 where vs1: "sync_model (m, r) vs = Inr vs1" "options_present vs1"
      "\<forall>f \<in> set SYNC_FIELD_ORDER. \<forall>m'. option_entry vs1 (optionKeyBySyncField f) m' =
         (if m' = m then synced_entry r f (option_entry vs (optionKeyBySyncField f) m) else option_entry vs (optionKeyBySyncField f) m')"
    using sync_model_entries [OF Cons.prems(1), of dmap m r] Cons.prems(3) mr by auto
  have new: "map_of rs m = None" using Cons.prems(2) mr by (simp add: map_of_eq_None_iff)
  obtain vs' where vs': "fold_exn sync_model rs vs1 = Inr vs'" "options_present vs'"
      "\<forall>f \<in> set SYNC_FIELD_ORDER. \<forall>m. option_entry vs' (optionKeyBySyncField f) m =
         (case map_of rs m of None \<Rightarrow> option_entry vs1 (optionKeyBySyncField f) m
          | Some r \<Rightarrow> synced_entry r f (option_entry vs1 (optionKeyBySyncField f) m))"
    using Cons.IH [OF vs1(2)] Cons.prems by auto
  have "option_entry vs' (optionKeyBySyncField f) m' =
      (case map_of (mr # rs) m' of None \<Rightarrow> option_entry vs (optionKeyBySyncField f) m'
       | Some r \<Rightarrow> synced_entry r f (option_entry vs (optionKeyBySyncField f) m'))" if "f \<in> set SYNC_FIELD_ORDER" for f m'
    using vs'(3) [THEN bspec, OF that, THEN spec, of m'] vs1(3) [THEN bspec, OF that, THEN spec, of m'] new mr
    by (cases "m' = m"; cases "map_of rs m'") simp_all
  moreover have "fold_exn sync_model (mr # rs) vs = Inr vs'" using vs1(1) vs'(1) mr by simp
  ultimately show ?case using vs'(2) by blast
qed simp

lemma page_resolutions:
  assumes "sync_step\<^sup>*\<^sup>* sync_start p"
  shows "distinct (map fst (sp_resolutions p))"
    "map_of (sp_resolutions p) m = Some r \<Longrightarrow> resolution_ok (sp_differences p) m r"
  using page_ok_run [OF assms start_page_ok] unfolding page_ok_def resolutions_ok_def by blast+

lemma page_writes:
  assumes "sync_step\<^sup>*\<^sup>* sync_start p" "options_present current"
  shows "\<exists>vs. final_ratios (sp_resolutions p) current = Inr vs \<and>
    (\<forall>f \<in> set SYNC_FIELD_ORDER. \<forall>m. option_entry vs (optionKeyBySyncField f) m =
       (case map_of (sp_resolutions p) m of
          None \<Rightarrow> option_entry current (optionKeyBySyncField f) m
        | Some r \<Rightarrow> synced_entry r f (option_entry current (optionKeyBySyncField f) m)))"
proof -
  note dist = page_resolutions(1) [OF assms(1)]
  have "resolution_ok (sp_differences p) m r" if "(m, r) \<in> set (js_entries (sp_resolutions p))" for m r
    using that dist by (intro page_resolutions(2) [OF assms(1)]) simp
  from final_entries [OF assms(2) distinct_js_entries [OF dist] this]
  show ?thesis unfolding final_ratios_def map_of_js_entries [OF dist] by blast
qed

section \<open>Bulk selection\<close>

text \<open>A choice that stands for itself: the value of its source for its field.\<close>

definition plain :: "differences_map \<Rightarrow> resolution_selection \<Rightarrow> bool" where
  "plain dmap s \<longleftrightarrow> (\<exists>rts. map_of dmap (sel_model s) = Some rts \<and>
     sel_value s = upstream_value rts (sel_ratioType s) (sel_sourceName s) \<and> isSelectableUpstreamValue (sel_value s) \<and>
     getPreferredSyncField rts (sel_ratioType s) (sel_sourceName s) = sel_ratioType s)"

lemma plain_resolved: "plain dmap s \<Longrightarrow> resolveResolutionSelection dmap s = s"
  by (auto simp: plain_def resolveResolutionSelection_def Let_def)

definition same_choice :: "resolution_selection \<Rightarrow> resolution_selection \<Rightarrow> bool" where
  "same_choice s t \<longleftrightarrow> sel_model s = sel_model t \<and> sel_ratioType s = sel_ratioType t"

text \<open>Two choices that do not undo one another.\<close>

definition coexist :: "resolution_selection \<Rightarrow> resolution_selection \<Rightarrow> bool" where
  "coexist s t \<longleftrightarrow> \<not> same_choice s t \<and> still_effective s t"

lemma coexist_sym: "coexist s t \<Longrightarrow> coexist t s"
  by (auto simp: coexist_def same_choice_def still_effective_def)

lemma map_of_drop:
  "map_of (drop_other_category c d) k =
     (if c = TieredCategory \<or> getBillingCategory k = TieredCategory \<or> getBillingCategory k = c then map_of d k else None)"
  unfolding drop_other_category_def map_of_filter_keys [where P = "\<lambda>k. \<not> (c \<noteq> TieredCategory \<and> getBillingCategory k \<noteq> TieredCategory \<and> getBillingCategory k \<noteq> c)"]
  by simp

lemma update_draft_keeps:
  assumes "plain dmap s" "plain dmap s'" "sel_sourceName s = sel_sourceName s'" "sel_model s = sel_model s'"
    and "s = s' \<or> map_of d (sel_ratioType s) = Some (sel_value s) \<and> coexist s s'"
  shows "map_of (update_draft dmap s' d) (sel_ratioType s) = Some (sel_value s)"
proof -
  obtain rts where rts: "map_of dmap (sel_model s') = Some rts" "sel_value s = upstream_value rts (sel_ratioType s) (sel_sourceName s')"
      "isSelectableUpstreamValue (sel_value s)"
    using assms(1,3,4) by (auto simp: plain_def)
  let ?d = "obj_set (sel_ratioType s') (sel_value s') (drop_other_category (getBillingCategory (sel_ratioType s')) d)"
  have base: "map_of ?d (sel_ratioType s) = Some (sel_value s)"
    using assms(4,5) by (auto simp: coexist_def same_choice_def still_effective_def map_of_drop)
  have "map_of (set_tiered rts (sel_sourceName s') f ?d) (sel_ratioType s) = Some (sel_value s)" for f
    using base rts(2,3) by (auto simp: set_tiered_def Let_def)
  with base show ?thesis unfolding update_draft_def Let_def plain_resolved [OF assms(2)] rts(1)
    by (cases "getBillingCategory (sel_ratioType s') = TieredCategory") (simp_all only: option.case if_True if_False simp_thms)
qed

lemma drafts_chosen:
  assumes "\<And>s. s \<in> set ss \<Longrightarrow> plain dmap s \<and> sel_sourceName s = u" "sorted_wrt coexist ss"
  shows "s \<in> set ss \<Longrightarrow> \<exists>d. map_of (fold (applyResolutionSelectionToDraft res dmap) ss []) (sel_model s) = Some d \<and>
    map_of d (sel_ratioType s) = Some (sel_value s)"
  using assms
proof (induction ss arbitrary: s rule: rev_induct)
  case (snoc s' ss)
  let ?drafts = "fold (applyResolutionSelectionToDraft res dmap) ss []"
  have s': "plain dmap s'" "sel_sourceName s' = u" using snoc.prems(2) by auto
  have step: "map_of (fold (applyResolutionSelectionToDraft res dmap) (ss @ [s']) []) m =
      (if m = sel_model s' then Some (update_draft dmap s' (getDraftModelResolution ?drafts res m)) else map_of ?drafts m)" for m
    by (simp add: applyResolutionSelectionToDraft_def)
  have s: "plain dmap s" "sel_sourceName s = u" using snoc.prems by auto
  show ?case
  proof (cases "s \<in> set ss")
    case True
    then obtain d where d: "map_of ?drafts (sel_model s) = Some d" "map_of d (sel_ratioType s) = Some (sel_value s)"
      using snoc.IH [OF True] snoc.prems by (auto simp: sorted_wrt_append)
    have "coexist s s'" using True snoc.prems(3) by (simp add: sorted_wrt_append)
    with d s s' step [of "sel_model s"] update_draft_keeps [OF s(1) s'(1)] show ?thesis
      by (auto simp: getDraftModelResolution_def)
  next
    case False
    then have "s = s'" using snoc.prems(1) by simp
    with s' step [of "sel_model s"] update_draft_keeps [OF s'(1) s'(1)] show ?thesis by simp
  qed
qed simp

lemma drafts_distinct: "distinct (map fst drafts) \<Longrightarrow> distinct (map fst (fold (applyResolutionSelectionToDraft res dmap) ss drafts))"
  by (induction ss arbitrary: drafts) (simp_all add: applyResolutionSelectionToDraft_def)

lemma selections_chosen:
  assumes "\<And>s. s \<in> set ss \<Longrightarrow> plain dmap s \<and> sel_sourceName s = u" "sorted_wrt coexist ss" "s \<in> set ss"
  shows "\<exists>r. map_of (applyResolutionSelections res dmap ss) (sel_model s) = Some r \<and> map_of r (sel_ratioType s) = Some (sel_value s)"
proof -
  obtain d where "map_of (fold (applyResolutionSelectionToDraft res dmap) ss []) (sel_model s) = Some d"
      "map_of d (sel_ratioType s) = Some (sel_value s)" using drafts_chosen [OF assms(1,2,3)] by blast
  moreover from this have "d \<noteq> []" by auto
  moreover have "ss \<noteq> []" using assms(3) by auto
  ultimately show ?thesis using drafts_distinct [of "[]" res dmap ss]
    by (auto simp: applyResolutionSelections_def fold_put_draft simp del: map_of_eq_Some_iff)
qed

text \<open>The effective choices coexist.\<close>

definition effective_ok :: "differences_map \<Rightarrow> string \<Rightarrow> ((string \<times> string) \<times> resolution_selection) list \<Rightarrow> bool" where
  "effective_ok dmap u es \<longleftrightarrow>
     (\<forall>k s. (k, s) \<in> set es \<longrightarrow> k = (sel_model s, sel_ratioType s) \<and> plain dmap s \<and> sel_sourceName s = u) \<and>
     sorted_wrt coexist (map snd es)"

lemma effective_ok_Cons:
  "effective_ok dmap u (kv # es) \<longleftrightarrow> fst kv = (sel_model (snd kv), sel_ratioType (snd kv)) \<and> plain dmap (snd kv) \<and>
     sel_sourceName (snd kv) = u \<and> (\<forall>t \<in> snd ` set es. coexist (snd kv) t) \<and> effective_ok dmap u es"
  by (cases kv) (auto simp: effective_ok_def)

lemma effective_filter: "effective_ok dmap u es \<Longrightarrow> effective_ok dmap u (filter P es)"
  by (induction es) (auto simp: effective_ok_Cons)

lemma obj_set_values: "snd ` set (obj_set k s es) \<subseteq> insert s (snd ` set es)"
  by (induction k s es rule: obj_set.induct) auto

lemma effective_set:
  assumes "plain dmap s" "sel_sourceName s = u" "effective_ok dmap u es" "\<forall>t \<in> snd ` set es. still_effective s t"
  shows "effective_ok dmap u (obj_set (sel_model s, sel_ratioType s) s es)"
  using assms(3,4)
proof (induction es)
  case Nil
  then show ?case using assms(1,2) by (simp add: effective_ok_def)
next
  case (Cons kv es)
  obtain k t where kv: "kv = (k, t)" by (cases kv)
  let ?k = "(sel_model s, sel_ratioType s)"
  show ?case
  proof (cases "k = ?k")
    case True
    have "coexist s x" if "x \<in> snd ` set es" for x
    proof -
      have "coexist t x" "still_effective s x" using that Cons.prems kv by (auto simp: effective_ok_Cons)
      with True Cons.prems(1) kv show ?thesis by (simp add: coexist_def same_choice_def effective_ok_Cons)
    qed
    with True kv Cons.prems(1) assms(1,2) show ?thesis by (simp add: effective_ok_Cons)
  next
    case False
    have "coexist s t" using False kv Cons.prems by (auto simp: coexist_def same_choice_def effective_ok_Cons)
    then have "coexist t s" by (rule coexist_sym)
    then have "coexist t x" if "x \<in> snd ` set (obj_set ?k s es)" for x
      using subsetD [OF obj_set_values that] Cons.prems(1) kv by (auto simp: effective_ok_Cons)
    then have "\<forall>x \<in> snd ` set (obj_set ?k s es). coexist t x" by blast
    moreover have "effective_ok dmap u (obj_set ?k s es)" using Cons by (simp add: effective_ok_Cons)
    moreover have step: "obj_set ?k s (kv # es) = (k, t) # obj_set ?k s es" using False kv by auto
    ultimately show ?thesis unfolding step effective_ok_Cons using Cons.prems(1) kv by (simp add: effective_ok_Cons)
  qed
qed

lemma effective_step:
  "\<lbrakk> effective_ok dmap u es; plain dmap s; sel_sourceName s = u \<rbrakk> \<Longrightarrow> effective_ok dmap u (add_effective dmap s es)"
  unfolding add_effective_def by (simp add: plain_resolved) (intro effective_set effective_filter; auto)

lemma effective_fold:
  assumes "effective_ok dmap u es" "\<And>s. s \<in> set ss \<Longrightarrow> plain dmap s \<and> sel_sourceName s = u"
  shows "effective_ok dmap u (fold (add_effective dmap) ss es)"
  using assms by (induction ss arbitrary: es) (simp_all add: effective_step)

lemma effective_coexist:
  assumes "\<And>s. s \<in> set ss \<Longrightarrow> plain dmap s \<and> sel_sourceName s = u"
  shows "sorted_wrt coexist (getEffectiveResolutionSelections dmap ss)"
    "s \<in> set (getEffectiveResolutionSelections dmap ss) \<Longrightarrow> plain dmap s \<and> sel_sourceName s = u"
  using effective_fold [of dmap u "[]" ss] assms by (auto simp: effective_ok_def getEffectiveResolutionSelections_def)

lemma effective_subset:
  assumes "\<And>s. s \<in> set ss \<Longrightarrow> plain dmap s"
  shows "set (getEffectiveResolutionSelections dmap ss) \<subseteq> set ss"
proof -
  have "snd ` set (fold (add_effective dmap) ss es) \<subseteq> set ss \<union> snd ` set es" for es
    using assms
  proof (induction ss arbitrary: es)
    case (Cons s ss)
    have "snd ` set (add_effective dmap s es) \<subseteq> insert s (snd ` set es)"
      unfolding add_effective_def Let_def plain_resolved [OF Cons.prems [of s, simplified]]
      by (rule subset_trans [OF obj_set_values]) auto
    moreover have "snd ` set (fold (add_effective dmap) ss (add_effective dmap s es)) \<subseteq> set ss \<union> snd ` set (add_effective dmap s es)"
      by (rule Cons.IH) (simp add: Cons.prems)
    ultimately show ?case by (simp only: fold_simps list.set) blast
  qed simp
  from this [of "[]"] show ?thesis by (simp add: getEffectiveResolutionSelections_def)
qed

lemma row_plain:
  assumes "distinct (map fst dmap)" "row \<in> set (filtered_data dmap search flt)" "s \<in> set (row_selections u flt row)"
  shows "plain dmap s \<and> sel_sourceName s = u"
proof -
  have "row \<in> set (data_source dmap)" using assms(2) by (auto simp: filtered_data_def Let_def split: if_splits)
  then have "map_of dmap (row_model row) = Some (row_ratioTypes row)" using assms(1) by (auto simp: data_source_def)
  with assms(3) show ?thesis
    by (auto simp: row_selections_def plain_def getAlignedRatioTypes_def getVisibleRatioTypesForSource_def Let_def)
qed

lemma removal_planned:
  "(\<exists>fs. map_of (fold add_removal rs plan) m = Some fs \<and> f \<in> set fs) \<longleftrightarrow>
     (m, f) \<in> set rs \<or> (\<exists>fs. map_of plan m = Some fs \<and> f \<in> set fs)"
proof (induction rs arbitrary: plan)
  case (Cons mf rs)
  have "(\<exists>fs. map_of (add_removal mf plan) m = Some fs \<and> f \<in> set fs) \<longleftrightarrow> mf = (m, f) \<or> (\<exists>fs. map_of plan m = Some fs \<and> f \<in> set fs)"
    by (cases mf) (auto simp: add_removal_def split: option.splits)
  with Cons show ?case by auto
qed simp

lemma distinct_plan: "distinct (map fst plan) \<Longrightarrow> distinct (map fst (fold add_removal rs plan))"
  by (induction rs arbitrary: plan) (simp_all add: add_removal_def split: option.splits)

lemma removed_subset: "keys_of (fold remove_field fs r) \<subseteq> keys_of r"
proof (induction fs arbitrary: r)
  case (Cons g fs)
  have "keys_of (remove_field g r) \<subseteq> keys_of r" unfolding remove_field_keys by blast
  with Cons [of "remove_field g r"] show ?case by simp
qed simp

lemma removed_keys: "f \<in> set fs \<Longrightarrow> f \<notin> keys_of (fold remove_field fs r)"
proof (induction fs arbitrary: r)
  case (Cons g fs)
  have "f \<notin> keys_of (remove_field f r)" unfolding remove_field_keys by blast
  with subsetD [OF removed_subset, of f fs "remove_field g r"] Cons show ?case by (cases "f = g") auto
qed simp

lemma plan_applied:
  assumes "distinct (map fst plan)" "map_of plan m = Some fs"
  shows "map_of (applyResolutionRemovalPlan res plan) m =
    (case map_of res m of None \<Rightarrow> None
     | Some r \<Rightarrow> if fold remove_field fs r = [] then None else Some (fold remove_field fs r))"
proof -
  let ?step = "\<lambda>(model, ratioTypes) next. case map_of res model of None \<Rightarrow> next
      | Some current \<Rightarrow> put_draft (model, fold remove_field ratioTypes current) next"
  have other: "map_of (fold ?step ps next) m = map_of next m" if "m \<notin> keys_of ps" for ps "next"
    using that by (induction ps arbitrary: "next") (auto simp: map_of_put_draft split: option.splits)
  have "map_of (fold ?step ps next) m = (case map_of res m of None \<Rightarrow> map_of next m
      | Some r \<Rightarrow> if fold remove_field fs r = [] then None else Some (fold remove_field fs r))"
    if "distinct (map fst ps)" "map_of ps m = Some fs" for ps "next"
    using that
  proof (induction ps arbitrary: "next")
    case (Cons mp ps)
    obtain m' fs' where mp: "mp = (m', fs')" by (cases mp)
    show ?case
    proof (cases "m' = m")
      case True
      then have "m \<notin> keys_of ps" "fs' = fs" using Cons.prems mp by auto
      with True mp show ?thesis by (simp add: other map_of_put_draft split: option.splits)
    next
      case False
      with mp Cons show ?thesis by (simp add: map_of_put_draft split: option.splits)
    qed
  qed simp
  moreover have "plan \<noteq> []" using assms(2) by auto
  ultimately show ?thesis using assms by (simp add: applyResolutionRemovalPlan_def split: option.splits)
qed

lemma js_eq_refl: "is_finite x \<Longrightarrow> js_eq x x"
  by (cases x) simp_all

end
