(* ===== verification/Sync_Properties.thy ===== *)
theory Sync_Properties
  imports Sync_Facts
begin

text \<open>
  Properties of the synchronisation of prices: what a synchronisation writes, what it never removes unasked, and the bulk
  selection of a source.
\<close>

section \<open>Data\<close>

definition demo_differences :: differences_map where
  "demo_differences =
    [(''m'', [(''model_ratio'', \<lparr>re_current = JNum (Fin 1), re_upstreams = [(''up'', JNum (Fin 2))], re_confidence = []\<rparr>),
              (''model_price'', \<lparr>re_current = JNull, re_upstreams = [(''up'', JNum (Fin 3))], re_confidence = []\<rparr>)])]"

definition demo_choice :: resolution_selection where
  "demo_choice = \<lparr>sel_model = ''m'', sel_ratioType = ''model_price'', sel_value = JNum (Fin 3), sel_sourceName = ''up''\<rparr>"

definition demo_page :: sync_page where
  "demo_page = \<lparr>sp_differences = demo_differences,
     sp_resolutions = applyResolutionSelections [] demo_differences [demo_choice]\<rparr>"

definition demo_options :: option_values where
  "demo_options = map (\<lambda>key. (key, if key = ''ModelRatio'' then [(''m'', JNum (Fin 1)), (''n'', JNum (Fin 4))] else [])) sync_options"

definition demo_options_without :: "string \<Rightarrow> option_values" where
  "demo_options_without model = map (\<lambda>(key, kvs). (key, obj_delete model kvs)) demo_options"

lemma demo_page_reached: "sync_step\<^sup>*\<^sup>* sync_start demo_page"
proof -
  have "sync_step sync_start \<lparr>sp_differences = demo_differences, sp_resolutions = []\<rparr>" by (rule sync_step.fetched)
  moreover have "list_all (\<lambda>s. sel_ratioType s \<in> set SYNC_FIELD_ORDER) [demo_choice]" by code_simp
  from sync_step.selected [OF this, of "\<lparr>sp_differences = demo_differences, sp_resolutions = []\<rparr>"]
  have "sync_step \<lparr>sp_differences = demo_differences, sp_resolutions = []\<rparr> demo_page" by (simp add: demo_page_def)
  ultimately show ?thesis by (meson rtranclp.rtrancl_into_rtrancl rtranclp.rtrancl_refl)
qed

lemma demo_present: "options_present demo_options"
  by (simp add: options_present_def demo_options_def image_image)

section \<open>What is written\<close>

text \<open>C29. In every reachable state of the page the chosen values can be written, and a synchronisation writes exactly them: a
  chosen field gets its value, a chosen price removes the ratios of the model and a chosen ratio its price, every other
  entry stays.  A model with a chosen price or ratio is billed in one way afterwards.\<close>

theorem sync_writes_choice:
  assumes "sync_step\<^sup>*\<^sup>* sync_start p" "options_present current"
  shows "\<exists>vs. final_ratios (sp_resolutions p) current = Inr vs \<and>
    (\<forall>f \<in> set SYNC_FIELD_ORDER. \<forall>m. option_entry vs (optionKeyBySyncField f) m =
       (case map_of (sp_resolutions p) m of
          None \<Rightarrow> option_entry current (optionKeyBySyncField f) m
        | Some r \<Rightarrow> synced_entry r f (option_entry current (optionKeyBySyncField f) m))) \<and>
    (\<forall>m r. map_of (sp_resolutions p) m = Some r \<and> new_category r \<noteq> TieredCategory \<longrightarrow>
       option_entry vs ''ModelPrice'' m = None \<or> (\<forall>key \<in> set ratio_options. option_entry vs key m = None))"
proof -
  let ?res = "sp_resolutions p"
  obtain vs where run: "final_ratios ?res current = Inr vs"
      and entries: "\<forall>f \<in> set SYNC_FIELD_ORDER. \<forall>m. option_entry vs (optionKeyBySyncField f) m =
         (case map_of ?res m of None \<Rightarrow> option_entry current (optionKeyBySyncField f) m
          | Some r \<Rightarrow> synced_entry r f (option_entry current (optionKeyBySyncField f) m))"
    using page_writes [OF assms] by blast
  have "option_entry vs ''ModelPrice'' m = None \<or> (\<forall>key \<in> set ratio_options. option_entry vs key m = None)"
    if r: "map_of ?res m = Some r" "new_category r \<noteq> TieredCategory" for m r
  proof -
    have entry: "option_entry vs (optionKeyBySyncField f) m = synced_entry r f (option_entry current (optionKeyBySyncField f) m)"
      if "f \<in> set SYNC_FIELD_ORDER" for f
      using entries [THEN bspec, OF that, THEN spec, of m] r(1) by simp
    show ?thesis
    proof (cases "''model_price'' \<in> keys_of r")
      case True
      have "option_entry vs (optionKeyBySyncField f) m = None" if f: "f \<in> set RATIO_SYNC_FIELDS" for f
      proof -
        have "f \<notin> keys_of r" using True f page_resolutions(2) [OF assms(1) r(1)] unfolding resolution_ok_def by blast
        then have "map_of r f = None" by (simp add: map_of_eq_None_iff)
        moreover have "f \<in> set SYNC_FIELD_ORDER" using f by (auto simp: SYNC_FIELD_ORDER_def)
        ultimately show ?thesis using entry True f by (simp add: synced_entry_def)
      qed
      then show ?thesis unfolding option_keys(2) [symmetric] by simp
    next
      case False
      then have "keys_of r \<inter> set RATIO_SYNC_FIELDS \<noteq> {}" using r(2) by (auto simp: new_category_def list_ex_iff split: if_splits)
      moreover have "map_of r ''model_price'' = None" using False by (simp add: map_of_eq_None_iff)
      ultimately show ?thesis using entry [of "''model_price''"] by (simp add: synced_entry_def option_keys(3))
    qed
  qed
  with run entries show ?thesis by blast
qed

theorem sync_writes_choice_witness:
  "\<exists>vs. final_ratios (sp_resolutions demo_page) demo_options = Inr vs \<and>
    option_entry vs ''ModelPrice'' ''m'' = Some (JNum (Fin 3)) \<and> option_entry vs ''ModelRatio'' ''m'' = None \<and>
    option_entry vs ''ModelRatio'' ''n'' = Some (JNum (Fin 4))"
proof -
  have keys: "optionKeyBySyncField ''model_price'' = ''ModelPrice''" "optionKeyBySyncField ''model_ratio'' = ''ModelRatio''"
    "map_of (sp_resolutions demo_page) ''m'' = Some [(''model_price'', JNum (Fin 3))]" "map_of (sp_resolutions demo_page) ''n'' = None"
    "''model_ratio'' \<in> set SYNC_FIELD_ORDER" "option_entry demo_options ''ModelRatio'' ''n'' = Some (JNum (Fin 4))"
    "synced_entry [(''model_price'', JNum (Fin 3))] ''model_price'' (option_entry demo_options ''ModelPrice'' ''m'') = Some (JNum (Fin 3))"
    "synced_entry [(''model_price'', JNum (Fin 3))] ''model_ratio'' (option_entry demo_options ''ModelRatio'' ''m'') = None"
    by code_simp+
  obtain vs where vs: "final_ratios (sp_resolutions demo_page) demo_options = Inr vs"
    and entries: "\<forall>f \<in> set SYNC_FIELD_ORDER. \<forall>m. option_entry vs (optionKeyBySyncField f) m =
       (case map_of (sp_resolutions demo_page) m of None \<Rightarrow> option_entry demo_options (optionKeyBySyncField f) m
        | Some r \<Rightarrow> synced_entry r f (option_entry demo_options (optionKeyBySyncField f) m))"
    using sync_writes_choice [OF demo_page_reached demo_present] by blast
  have "option_entry vs ''ModelPrice'' ''m'' = Some (JNum (Fin 3))"
    using entries [THEN bspec, OF special_fields(1), THEN spec, of "''m''"] unfolding keys option.case .
  moreover have "option_entry vs ''ModelRatio'' ''m'' = None" "option_entry vs ''ModelRatio'' ''n'' = Some (JNum (Fin 4))"
    using entries [THEN bspec, OF keys(5), THEN spec, of "''m''"] entries [THEN bspec, OF keys(5), THEN spec, of "''n''"]
    unfolding keys option.case .
  ultimately show ?thesis using vs by blast
qed

section \<open>What stays without a confirmation\<close>

text \<open>A synchronisation without conflicts, which is applied without asking, removes no entry of a model that is not already
  billed both by price and by ratio.\<close>

theorem unconfirmed_sync_removes_nothing:
  assumes "sync_step\<^sup>*\<^sup>* sync_start p" "options_present current"
    and "sync_conflicts t (sp_differences p) (sp_resolutions p) current = []"
    and "option_entry current ''ModelPrice'' m = None \<or> (\<forall>key \<in> set ratio_options. option_entry current key m = None)"
    and "final_ratios (sp_resolutions p) current = Inr vs" "f \<in> set SYNC_FIELD_ORDER"
    and "option_entry current (optionKeyBySyncField f) m \<noteq> None"
  shows "option_entry vs (optionKeyBySyncField f) m \<noteq> None"
proof -
  obtain vs' where "final_ratios (sp_resolutions p) current = Inr vs'"
      and entries: "\<forall>f \<in> set SYNC_FIELD_ORDER. \<forall>m. option_entry vs' (optionKeyBySyncField f) m =
         (case map_of (sp_resolutions p) m of None \<Rightarrow> option_entry current (optionKeyBySyncField f) m
          | Some r \<Rightarrow> synced_entry r f (option_entry current (optionKeyBySyncField f) m))"
    using page_writes [OF assms(1,2)] by blast
  with assms(5) have entry: "option_entry vs (optionKeyBySyncField f) m =
      (case map_of (sp_resolutions p) m of None \<Rightarrow> option_entry current (optionKeyBySyncField f) m
       | Some r \<Rightarrow> synced_entry r f (option_entry current (optionKeyBySyncField f) m))"
    using entries [THEN bspec, OF assms(6), THEN spec, of m] by simp
  show ?thesis
  proof (cases "map_of (sp_resolutions p) m")
    case (Some r)
    then have "(m, r) \<in> set (js_entries (sp_resolutions p))" by (simp add: map_of_SomeD)
    with assms(3) have quiet: "model_conflict t (sp_differences p) current (m, r) = []" by (simp add: sync_conflicts_def)
    show ?thesis
    proof (rule ccontr)
      assume "\<not> ?thesis"
      then have gone: "synced_entry r f (option_entry current (optionKeyBySyncField f) m) = None" using entry Some by simp
      then have not_chosen: "f \<notin> keys_of r" by (auto simp: synced_entry_def map_of_eq_None_iff [symmetric] split: option.splits)
      from gone assms(7) consider (ratio) "f \<in> set RATIO_SYNC_FIELDS" "''model_price'' \<in> keys_of r"
        | (price) "f = ''model_price''" "keys_of r \<inter> set RATIO_SYNC_FIELDS \<noteq> {}"
        by (auto simp: synced_entry_def split: option.splits if_splits)
      then show False
      proof cases
        case ratio
        have "optionKeyBySyncField f \<in> set ratio_options" using ratio(1) unfolding option_keys(2) [symmetric] by simp
        with assms(4,7) have "getLocalBillingCategory m current = Some RatioCategory"
          by (auto simp: getLocalBillingCategory_def list_ex_iff)
        with quiet ratio(2) show False by (simp add: model_conflict_def new_category_def Let_def)
      next
        case price
        then have "getLocalBillingCategory m current = Some PriceCategory"
          using assms(7) by (simp add: getLocalBillingCategory_def option_keys(3))
        moreover have "new_category r = RatioCategory" using price not_chosen by (auto simp: new_category_def list_ex_iff)
        ultimately show False using quiet by (simp add: model_conflict_def Let_def)
      qed
    qed
  qed (use entry assms(7) in simp)
qed

theorem unconfirmed_sync_removes_nothing_witness:
  "\<exists>vs. final_ratios (sp_resolutions demo_page) (demo_options_without ''m'') = Inr vs \<and>
    option_entry vs ''ModelRatio'' ''n'' \<noteq> None"
proof -
  have present: "options_present (demo_options_without ''m'')" 
    using demo_present by (simp add: options_present_def demo_options_without_def image_image case_prod_unfold)
  have quiet: "sync_conflicts (\<lambda>x. x) (sp_differences demo_page) (sp_resolutions demo_page) (demo_options_without ''m'') = []" by code_simp
  have alone: "option_entry (demo_options_without ''m'') ''ModelPrice'' ''n'' = None \<or>
    (\<forall>key \<in> set ratio_options. option_entry (demo_options_without ''m'') key ''n'' = None)" by code_simp
  have field: "''model_ratio'' \<in> set SYNC_FIELD_ORDER"
    "option_entry (demo_options_without ''m'') (optionKeyBySyncField ''model_ratio'') ''n'' \<noteq> None"
    "optionKeyBySyncField ''model_ratio'' = ''ModelRatio''" by code_simp+
  obtain vs where vs: "final_ratios (sp_resolutions demo_page) (demo_options_without ''m'') = Inr vs"
    using page_writes [OF demo_page_reached present] by blast
  from unconfirmed_sync_removes_nothing [OF demo_page_reached present quiet alone vs field(1,2)] vs show ?thesis
    unfolding field(3) by blast
qed

section \<open>Bulk selection\<close>

text \<open>Choosing all values of a source marks all of them as chosen, and removing them leaves none of them chosen.\<close>

theorem bulk_selection_toggles:
  assumes "distinct (map fst dmap)"
    and "\<forall>s \<in> set (bulk_selections (bulk_select_state dmap res search flt u)).
      sel_ratioType s \<in> set NUMERIC_SYNC_FIELDS \<longrightarrow> is_finite (js_to_number (sel_value s))"
  shows "let b = bulk_select_state dmap res search flt u;
      chosen = bulk_select_state dmap (applyResolutionSelections res dmap (bulk_selections b)) search flt u;
      removed = bulk_select_state dmap (applyResolutionRemovalPlan res (bulk_removalPlan b)) search flt u
    in bulk_selections chosen = bulk_selections b \<and> bulk_selectedCount chosen = bulk_selectableCount chosen \<and>
       bulk_selectedCount removed = 0"
proof -
  let ?S = "concat (map (row_selections u flt) (filtered_data dmap search flt))"
  let ?E = "getEffectiveResolutionSelections dmap ?S"
  let ?plan = "fold add_removal (map (\<lambda>s. (sel_model s, sel_ratioType s)) ?S) []"
  have plain: "plain dmap s \<and> sel_sourceName s = u" if "s \<in> set ?S" for s
    using that row_plain [OF assms(1), of _ search flt s u] by auto
  have sorted: "sorted_wrt coexist ?E" by (rule effective_coexist(1)) (rule plain)
  have eff: "plain dmap s \<and> sel_sourceName s = u" if "s \<in> set ?E" for s by (rule effective_coexist(2) [OF _ that]) (rule plain)
  have E: "bulk_selections (bulk_select_state dmap res' search flt u) = ?E" "bulk_selectableCount (bulk_select_state dmap res' search flt u) = length ?E"
    "bulk_removalPlan (bulk_select_state dmap res' search flt u) = ?plan"
    "bulk_selectedCount (bulk_select_state dmap res' search flt u) =
       length (filter (\<lambda>s. isSelectedResolutionValue res' (sel_model s) (sel_ratioType s) (sel_value s)) ?E)" for res'
    by (simp_all add: bulk_select_state_def Let_def)
  have "isSelectedResolutionValue (applyResolutionSelections res dmap ?E) (sel_model s) (sel_ratioType s) (sel_value s)" if s: "s \<in> set ?E" for s
  proof -
    obtain r where r: "map_of (applyResolutionSelections res dmap ?E) (sel_model s) = Some r" "map_of r (sel_ratioType s) = Some (sel_value s)"
      using selections_chosen [OF eff sorted s, of res] by blast
    have sel: "isSelectableUpstreamValue (sel_value s)" using eff [OF s] by (auto simp: plain_def)
    then have "sel_value s \<noteq> JUndefined" by (simp add: isSelectableUpstreamValue_def)
    moreover have "is_finite (js_to_number (sel_value s))" if "sel_ratioType s \<in> set NUMERIC_SYNC_FIELDS"
      using assms(2) s that unfolding E(1) by blast
    ultimately show ?thesis using r sel by (simp add: isSelectedResolutionValue_def js_eq_refl Let_def)
  qed
  then have all: "filter (\<lambda>s. isSelectedResolutionValue (applyResolutionSelections res dmap ?E) (sel_model s) (sel_ratioType s) (sel_value s)) ?E = ?E"
    unfolding filter_id_conv by blast
  have "\<not> isSelectedResolutionValue (applyResolutionRemovalPlan res ?plan) (sel_model s) (sel_ratioType s) v" if s: "s \<in> set ?E" for s v
  proof -
    have "s \<in> set ?S" using subsetD [OF effective_subset s] plain by blast
    then have "(sel_model s, sel_ratioType s) \<in> set (map (\<lambda>s. (sel_model s, sel_ratioType s)) ?S)" by (simp only: set_map image_eqI)
    then obtain fs where fs: "map_of ?plan (sel_model s) = Some fs" "sel_ratioType s \<in> set fs"
      using removal_planned [of "map (\<lambda>s. (sel_model s, sel_ratioType s)) ?S" "[]" "sel_model s" "sel_ratioType s"] by blast
    have "map_of (fold remove_field fs r) (sel_ratioType s) = None" for r
      using removed_keys [OF fs(2)] by (simp add: map_of_eq_None_iff)
    with plan_applied [OF distinct_plan fs(1), of res] show ?thesis
      by (simp add: isSelectedResolutionValue_def split: option.splits)
  qed
  then have none: "filter (\<lambda>s. isSelectedResolutionValue (applyResolutionRemovalPlan res ?plan) (sel_model s) (sel_ratioType s) (sel_value s)) ?E = []"
    unfolding filter_empty_conv by blast
  show ?thesis unfolding Let_def E all none by simp
qed

theorem bulk_selection_toggles_witness:
  "bulk_selectedCount (bulk_select_state demo_differences (applyResolutionSelections [] demo_differences
     (bulk_selections (bulk_select_state demo_differences [] [] [] ''up''))) [] [] ''up'') = 1"
proof -
  have "distinct (map fst demo_differences)" by code_simp
  moreover have "\<forall>s \<in> set (bulk_selections (bulk_select_state demo_differences [] [] [] ''up'')).
      sel_ratioType s \<in> set NUMERIC_SYNC_FIELDS \<longrightarrow> is_finite (js_to_number (sel_value s))" by code_simp
  ultimately show ?thesis
  using bulk_selection_toggles [of demo_differences "[]" "[]" "[]" "''up''"] by (simp add: Let_def) code_simp
qed

end
