(* ===== verification/JS_Json_Order.thy ===== *)
theory JS_Json_Order
  imports JS_Json_Pretty JS_Number_Text
begin

text \<open>
  The order in which objects list their keys, and \<open>JSON.parse\<close> with it.
\<close>

section \<open>Reading with the order of keys of JavaScript\<close>

text \<open>An object lists the keys that are array indices first.\<close>

fun js_order :: "jsval \<Rightarrow> jsval" where
  "js_order (JArr vs) = JArr (map js_order vs)"
| "js_order (JObj kvs) = JObj (js_entries (map (\<lambda>(k, v). (k, js_order v)) kvs))"
| "js_order v = v"

text \<open>\<open>JSON.parse(text)\<close>; \<open>None\<close> is a syntax error.\<close>

definition json_read :: "string \<Rightarrow> jsval option" where
  "json_read s = map_option js_order (json_parse s)"

section \<open>The order of keys\<close>

lemma js_entries_map: "(\<And>kv. fst (g kv) = fst kv) \<Longrightarrow> js_entries (map g kvs) = map g (js_entries kvs)"
  by (simp add: js_entries_def filter_map comp_def sort_key_map)

lemma js_entries_idem [simp]: "js_entries (js_entries kvs) = js_entries kvs"
proof -
  let ?f = "\<lambda>kv. dec_value 0 (fst kv)"
  let ?a = "sort_key ?f (filter (\<lambda>kv. is_index_key (fst kv)) kvs)" and ?b = "filter (\<lambda>kv. \<not> is_index_key (fst kv)) kvs"
  have a: "filter (\<lambda>kv. is_index_key (fst kv)) ?a = ?a" "filter (\<lambda>kv. \<not> is_index_key (fst kv)) ?a = []"
    by (simp_all add: filter_id_conv filter_empty_conv)
  have "sort_key ?f ?a = ?a" by (rule sort_key_sorted) simp
  then show ?thesis by (simp add: js_entries_def a)
qed

lemma js_entries_plain: "list_all (\<lambda>kv. \<not> is_index_key (fst kv)) kvs \<Longrightarrow> js_entries kvs = kvs"
proof -
  assume "list_all (\<lambda>kv. \<not> is_index_key (fst kv)) kvs"
  then have "filter (\<lambda>kv. is_index_key (fst kv)) kvs = []" "filter (\<lambda>kv. \<not> is_index_key (fst kv)) kvs = kvs"
    by (auto simp: list_all_iff filter_empty_conv filter_id_conv)
  then show ?thesis by (simp add: js_entries_def)
qed

lemma js_order_idem [simp]: "js_order (js_order v) = js_order v"
proof (induction v rule: js_order.induct)
  case (2 kvs)
  let ?g = "\<lambda>(k, v). (k, js_order v)"
  have "map ?g (map ?g kvs) = map ?g kvs" using 2 by auto
  then have "map ?g (js_entries (map ?g kvs)) = js_entries (map ?g kvs)"
    by (metis (no_types, lifting) case_prod_beta fst_conv js_entries_map)
  then show ?case by simp
qed auto

lemma js_order_object:
  "list_all (\<lambda>(k, v). \<not> is_index_key k \<and> js_order v = v) kvs \<Longrightarrow> js_order (JObj kvs) = JObj kvs"
proof -
  assume a: "list_all (\<lambda>(k, v). \<not> is_index_key k \<and> js_order v = v) kvs"
  then have "map (\<lambda>(k, v). (k, js_order v)) kvs = kvs" by (auto simp: list_all_iff intro!: map_idI)
  moreover have "js_entries kvs = kvs" using a by (intro js_entries_plain) (auto simp: list_all_iff)
  ultimately show ?thesis by simp
qed

lemma read_text: "json_ok v \<Longrightarrow> js_order v = v \<Longrightarrow> json_read (json_text v) = Some v"
  by (simp add: json_read_def json_parse_text)

lemma read_pretty: "json_ok v \<Longrightarrow> js_order v = v \<Longrightarrow> json_read (json_pretty [] v) = Some v"
  by (simp add: json_read_def json_parse_pretty)

lemma json_read_order: "json_read s = Some v \<Longrightarrow> js_order v = v"
  by (auto simp: json_read_def)

lemma object_text_trimmed: "js_trim (json_pretty ind (JObj kvs)) = json_pretty ind (JObj kvs)" "json_pretty ind (JObj kvs) \<noteq> []"
  by (auto intro!: js_trim_id simp: trimmed_def is_ws_def ordc_def)

lemma object_compact_trimmed: "js_trim (json_text (JObj kvs)) = json_text (JObj kvs)" "json_text (JObj kvs) \<noteq> []"
  by (auto intro!: js_trim_id simp: trimmed_def is_ws_def ordc_def)

lemma order_shape: "json_shape v \<Longrightarrow> json_shape (js_order v)"
proof (induction v rule: js_order.induct)
  case (2 kvs)
  have "list_all (\<lambda>(k, v). json_shape v) (map (\<lambda>(k, v). (k, js_order v)) kvs)"
    using 2 by (fastforce simp: list_all_iff)
  moreover have "distinct (map fst (map (\<lambda>(k, v). (k, js_order v)) kvs))" using 2(2) by (simp add: case_prod_beta comp_def)
  ultimately show ?case by (auto simp: list_all_iff distinct_js_entries)
qed (auto simp: list_all_iff)

end
