(* ===== verification/Override_Modes.thy ===== *)
theory Override_Modes
  imports Custom_Routes JS_Json_Order
begin

text \<open>
  The data of the parameter override editor of a channel
  (\<open>features/channels/components/dialogs/param-override-editor-dialog.tsx\<close>, types and constants): rules and their
  conditions, the modes and what each of them uses, the templates.
\<close>

section \<open>Capitals\<close>

text \<open>\<open>s.toUpperCase()\<close>.  The capitals of \<open>CHR 0xB5\<close> and \<open>CHR 0xFF\<close> are not Latin-1; the model leaves these
  characters, which no text the result is compared with contains.\<close>

definition char_to_upper :: "char \<Rightarrow> string" where
  "char_to_upper c =
     (let n = of_char c :: nat
      in if 97 \<le> n \<and> n \<le> 122 \<or> 224 \<le> n \<and> n \<le> 254 \<and> n \<noteq> 247 then [char_of (n - 32)]
         else if n = 223 then ''SS'' else [c])"

definition js_to_upper :: "string \<Rightarrow> string" where
  "js_to_upper s = concat (map char_to_upper s)"

section \<open>Types\<close>

record param_condition =
  cn_id :: string
  cn_path :: string
  cn_mode :: string
  cn_value_text :: string
  cn_invert :: bool
  cn_pass_missing_key :: bool

record prune_draft =
  pd_simpleMode :: bool
  pd_typeText :: string
  pd_logic :: string
  pd_recursive :: bool
  pd_rules :: "param_condition list"

record param_operation =
  op_id :: string
  op_description :: string
  op_path :: string
  op_mode :: string
  op_from :: string
  op_to :: string
  op_value_text :: string
  op_keep_origin :: bool
  op_logic :: string
  op_conditions :: "param_condition list"
  op_prune_draft :: "prune_draft option"

section \<open>Modes\<close>

text \<open>Values and labels.\<close>

definition OPERATION_MODE_OPTIONS :: "(string \<times> string) list" where
  "OPERATION_MODE_OPTIONS =
    [(''set'', ''Set Field''), (''delete'', ''Delete Field''), (''append'', ''Append to End''),
     (''prepend'', ''Prepend to Start''), (''copy'', ''Copy Field''), (''move'', ''Move Field''),
     (''replace'', ''String Replace''), (''regex_replace'', ''Regex Replace''), (''trim_prefix'', ''Trim Prefix''),
     (''trim_suffix'', ''Trim Suffix''), (''ensure_prefix'', ''Ensure Prefix''), (''ensure_suffix'', ''Ensure Suffix''),
     (''trim_space'', ''Trim Space''), (''to_lower'', ''To Lowercase''), (''to_upper'', ''To Uppercase''),
     (''return_error'', ''Return Custom Error''), (''prune_objects'', ''Prune Object Items''),
     (''pass_headers'', ''Pass Through Headers''), (''sync_fields'', ''Sync Fields''),
     (''set_header'', ''Set Request Header''), (''delete_header'', ''Delete Request Header''),
     (''copy_header'', ''Copy Request Header''), (''move_header'', ''Move Request Header'')]"

definition OPERATION_MODE_VALUES :: "string list" where
  "OPERATION_MODE_VALUES = map fst OPERATION_MODE_OPTIONS"

definition OPERATION_MODE_LABEL_MAP :: "string \<Rightarrow> string option" where
  "OPERATION_MODE_LABEL_MAP mode = map_of (fold (\<lambda>(v, l) acc. obj_set v l acc) OPERATION_MODE_OPTIONS []) mode"

definition CONDITION_MODE_OPTIONS :: "(string \<times> string) list" where
  "CONDITION_MODE_OPTIONS =
    [(''full'', ''Exact Match''), (''prefix'', ''Prefix''), (''suffix'', ''Suffix''), (''contains'', ''Contains''),
     (''regex'', ''Regex''), (''gt'', ''Greater Than''), (''gte'', ''Greater Than or Equal''), (''lt'', ''Less Than''),
     (''lte'', ''Less Than or Equal'')]"

definition CONDITION_MODE_VALUES :: "string list" where
  "CONDITION_MODE_VALUES = map fst CONDITION_MODE_OPTIONS"

text \<open>What a mode uses; an absent flag is false.\<close>

record mode_meta =
  mm_path :: bool
  mm_pathOptional :: bool
  mm_value :: bool
  mm_from :: bool
  mm_to :: bool
  mm_keepOrigin :: bool
  mm_pathAlias :: bool

definition no_meta :: mode_meta where
  "no_meta = \<lparr>mm_path = False, mm_pathOptional = False, mm_value = False, mm_from = False, mm_to = False,
     mm_keepOrigin = False, mm_pathAlias = False\<rparr>"

definition MODE_META :: "(string \<times> mode_meta) list" where
  "MODE_META =
    [(''delete'', no_meta\<lparr>mm_path := True\<rparr>),
     (''set'', no_meta\<lparr>mm_path := True, mm_value := True, mm_keepOrigin := True\<rparr>),
     (''append'', no_meta\<lparr>mm_path := True, mm_value := True, mm_keepOrigin := True\<rparr>),
     (''prepend'', no_meta\<lparr>mm_path := True, mm_value := True, mm_keepOrigin := True\<rparr>),
     (''copy'', no_meta\<lparr>mm_from := True, mm_to := True\<rparr>),
     (''move'', no_meta\<lparr>mm_from := True, mm_to := True\<rparr>),
     (''replace'', no_meta\<lparr>mm_path := True, mm_from := True\<rparr>),
     (''regex_replace'', no_meta\<lparr>mm_path := True, mm_from := True\<rparr>),
     (''trim_prefix'', no_meta\<lparr>mm_path := True, mm_value := True\<rparr>),
     (''trim_suffix'', no_meta\<lparr>mm_path := True, mm_value := True\<rparr>),
     (''ensure_prefix'', no_meta\<lparr>mm_path := True, mm_value := True\<rparr>),
     (''ensure_suffix'', no_meta\<lparr>mm_path := True, mm_value := True\<rparr>),
     (''trim_space'', no_meta\<lparr>mm_path := True\<rparr>),
     (''to_lower'', no_meta\<lparr>mm_path := True\<rparr>),
     (''to_upper'', no_meta\<lparr>mm_path := True\<rparr>),
     (''return_error'', no_meta\<lparr>mm_value := True\<rparr>),
     (''prune_objects'', no_meta\<lparr>mm_pathOptional := True, mm_value := True\<rparr>),
     (''pass_headers'', no_meta\<lparr>mm_value := True, mm_keepOrigin := True\<rparr>),
     (''sync_fields'', no_meta\<lparr>mm_from := True, mm_to := True\<rparr>),
     (''set_header'', no_meta\<lparr>mm_path := True, mm_value := True, mm_keepOrigin := True\<rparr>),
     (''delete_header'', no_meta\<lparr>mm_path := True\<rparr>),
     (''copy_header'', no_meta\<lparr>mm_from := True, mm_to := True, mm_keepOrigin := True, mm_pathAlias := True\<rparr>),
     (''move_header'', no_meta\<lparr>mm_from := True, mm_to := True, mm_keepOrigin := True, mm_pathAlias := True\<rparr>)]"

text \<open>\<open>MODE_META[mode] || MODE_META.set\<close>\<close>

definition meta_of :: "string \<Rightarrow> mode_meta" where
  "meta_of mode = coalesce (map_of MODE_META mode) (no_meta\<lparr>mm_path := True, mm_value := True, mm_keepOrigin := True\<rparr>)"

definition VALUE_REQUIRED_MODES :: "string list" where
  "VALUE_REQUIRED_MODES = [''trim_prefix'', ''trim_suffix'', ''ensure_prefix'', ''ensure_suffix'', ''set_header'',
     ''return_error'', ''prune_objects'', ''pass_headers'']"

definition FROM_REQUIRED_MODES :: "string list" where
  "FROM_REQUIRED_MODES = [''copy'', ''move'', ''replace'', ''regex_replace'', ''copy_header'', ''move_header'', ''sync_fields'']"

definition TO_REQUIRED_MODES :: "string list" where
  "TO_REQUIRED_MODES = [''copy'', ''move'', ''copy_header'', ''move_header'', ''sync_fields'']"

definition MODE_DESCRIPTIONS :: "(string \<times> string) list" where
  "MODE_DESCRIPTIONS =
    [(''set'', ''Write value to the target field''),
     (''delete'', ''Remove the target field''),
     (''append'', ''Append value to array / string / object end''),
     (''prepend'', ''Prepend value to array / string / object start''),
     (''copy'', ''Copy source field to target field''),
     (''move'', ''Move source field to target field''),
     (''replace'', ''Do string replacement in the target field''),
     (''regex_replace'', ''Do regex replacement in the target field''),
     (''trim_prefix'', ''Remove string prefix''),
     (''trim_suffix'', ''Remove string suffix''),
     (''ensure_prefix'', ''Ensure the string has a specified prefix''),
     (''ensure_suffix'', ''Ensure the string has a specified suffix''),
     (''trim_space'', ''Trim leading/trailing whitespace''),
     (''to_lower'', ''Convert string to lowercase''),
     (''to_upper'', ''Convert string to uppercase''),
     (''return_error'', ''Return a custom error immediately''),
     (''prune_objects'', ''Prune object items by conditions''),
     (''pass_headers'', ''Pass specified request headers to upstream''),
     (''sync_fields'', ''Auto-fill when one field exists and another is missing''),
     (''set_header'', ''Set runtime request header: override entire value, or manipulate comma-separated tokens''),
     (''delete_header'', ''Delete a runtime request header''),
     (''copy_header'', ''Copy a request header''),
     (''move_header'', ''Move a request header'')]"

definition SYNC_TARGET_TYPE_OPTIONS :: "(string \<times> string) list" where
  "SYNC_TARGET_TYPE_OPTIONS = [(''json'', ''Request Body Field''), (''header'', ''Request Header Field'')]"

section \<open>Templates\<close>

definition LEGACY_TEMPLATE :: jsval where
  "LEGACY_TEMPLATE = JObj [(''temperature'', JNum (Fin 0)), (''max_tokens'', JNum (Fin 1000))]"

definition operations_object :: "jsval list \<Rightarrow> jsval" where
  "operations_object ops = JObj [(''operations'', JArr ops)]"

definition template_condition :: "string \<Rightarrow> string \<Rightarrow> string \<Rightarrow> jsval" where
  "template_condition path mode v = JObj [(''path'', JStr path), (''mode'', JStr mode), (''value'', JStr v)]"

definition OPERATION_TEMPLATE :: jsval where
  "OPERATION_TEMPLATE = operations_object
    [JObj [(''description'', JStr ''Set default temperature for openai/* models.''), (''path'', JStr ''temperature''),
       (''mode'', JStr ''set''), (''value'', JNum (js_number ''0.7'')),
       (''conditions'', JArr [template_condition ''model'' ''prefix'' ''openai/'']), (''logic'', JStr ''AND'')]]"

definition HEADER_PASSTHROUGH_TEMPLATE :: jsval where
  "HEADER_PASSTHROUGH_TEMPLATE = operations_object
    [JObj [(''description'', JStr ''Pass through X-Request-Id header to upstream.''), (''mode'', JStr ''pass_headers''),
       (''value'', JArr [JStr ''X-Request-Id'']), (''keep_origin'', JBool True)]]"

definition GEMINI_IMAGE_4K_TEMPLATE :: jsval where
  "GEMINI_IMAGE_4K_TEMPLATE = operations_object
    [JObj [(''description'', JStr ''Set imageSize to 4K when model contains gemini/image and ends with 4k.''),
       (''mode'', JStr ''set''), (''path'', JStr ''generationConfig.imageConfig.imageSize''), (''value'', JStr ''4K''),
       (''conditions'', JArr [template_condition ''original_model'' ''contains'' ''gemini'',
          template_condition ''original_model'' ''contains'' ''image'',
          template_condition ''original_model'' ''suffix'' ''4k'']),
       (''logic'', JStr ''AND'')]]"

definition CODEX_CLI_HEADER_PASSTHROUGH_HEADERS :: "string list" where
  "CODEX_CLI_HEADER_PASSTHROUGH_HEADERS =
    [''Originator'', ''Session_id'', ''Thread_id'', ''Session-Id'', ''Thread-Id'', ''X-Client-Request-Id'', ''User-Agent'',
     ''X-Codex-Beta-Features'', ''X-Codex-Turn-State'', ''X-Codex-Turn-Metadata'', ''X-Codex-Window-Id'',
     ''X-Codex-Parent-Thread-Id'', ''X-OpenAI-Subagent'', ''X-OpenAI-Memgen-Request'',
     ''X-ResponsesAPI-Include-Timing-Metrics'', ''X-OpenAI-Internal-Codex-Responses-Lite'']"

definition CLAUDE_CLI_HEADER_PASSTHROUGH_HEADERS :: "string list" where
  "CLAUDE_CLI_HEADER_PASSTHROUGH_HEADERS =
    [''X-Stainless-Arch'', ''X-Stainless-Lang'', ''X-Stainless-Os'', ''X-Stainless-Package-Version'',
     ''X-Stainless-Retry-Count'', ''X-Stainless-Runtime'', ''X-Stainless-Runtime-Version'', ''X-Stainless-Timeout'',
     ''User-Agent'', ''X-App'', ''Anthropic-Beta'', ''Anthropic-Dangerous-Direct-Browser-Access'', ''Anthropic-Version'']"

definition buildPassHeadersTemplate :: "string list \<Rightarrow> jsval" where
  "buildPassHeadersTemplate headers = operations_object
    [JObj [(''mode'', JStr ''pass_headers''), (''value'', JArr (map JStr headers)), (''keep_origin'', JBool True)]]"

definition CODEX_CLI_HEADER_PASSTHROUGH_TEMPLATE :: jsval where
  "CODEX_CLI_HEADER_PASSTHROUGH_TEMPLATE = operations_object
    [JObj [(''mode'', JStr ''pass_headers''), (''value'', JArr (map JStr CODEX_CLI_HEADER_PASSTHROUGH_HEADERS)),
       (''keep_origin'', JBool True)]]"

definition CLAUDE_CLI_HEADER_PASSTHROUGH_TEMPLATE :: jsval where
  "CLAUDE_CLI_HEADER_PASSTHROUGH_TEMPLATE = buildPassHeadersTemplate CLAUDE_CLI_HEADER_PASSTHROUGH_HEADERS"

definition AWS_BEDROCK_ANTHROPIC_COMPAT_TEMPLATE :: jsval where
  "AWS_BEDROCK_ANTHROPIC_COMPAT_TEMPLATE = operations_object
    [JObj [(''description'', JStr ''Normalize anthropic-beta header tokens for Bedrock compatibility.''),
       (''mode'', JStr ''set_header''), (''path'', JStr ''anthropic-beta''),
       (''value'', JObj
         [(''advanced-tool-use-2025-11-20'', JStr ''tool-search-tool-2025-10-19''),
          (''bash_20241022'', JNull),
          (''bash_20250124'', JNull),
          (''code-execution-2025-08-25'', JNull),
          (''compact-2026-01-12'', JStr ''compact-2026-01-12''),
          (''computer-use-2025-01-24'', JStr ''computer-use-2025-01-24''),
          (''computer-use-2025-11-24'', JStr ''computer-use-2025-11-24''),
          (''context-1m-2025-08-07'', JStr ''context-1m-2025-08-07''),
          (''context-management-2025-06-27'', JStr ''context-management-2025-06-27''),
          (''effort-2025-11-24'', JNull),
          (''fast-mode-2026-02-01'', JNull),
          (''files-api-2025-04-14'', JNull),
          (''fine-grained-tool-streaming-2025-05-14'', JNull),
          (''interleaved-thinking-2025-05-14'', JStr ''interleaved-thinking-2025-05-14''),
          (''mcp-client-2025-11-20'', JNull),
          (''mcp-client-2025-04-04'', JNull),
          (''mcp-servers-2025-12-04'', JNull),
          (''output-128k-2025-02-19'', JNull),
          (''structured-output-2024-03-01'', JNull),
          (''prompt-caching-scope-2026-01-05'', JNull),
          (''skills-2025-10-02'', JNull),
          (''structured-outputs-2025-11-13'', JNull),
          (''text_editor_20241022'', JNull),
          (''text_editor_20250124'', JNull),
          (''token-efficient-tools-2025-02-19'', JNull),
          (''tool-search-tool-2025-10-19'', JStr ''tool-search-tool-2025-10-19''),
          (''web-fetch-2025-09-10'', JNull),
          (''web-search-2025-03-05'', JNull),
          (''oauth-2025-04-20'', JNull)])],
     JObj [(''description'', JStr ''Remove all tools[*].custom.input_examples before upstream relay.''),
       (''mode'', JStr ''delete''), (''path'', JStr ''tools.*.custom.input_examples'')]]"

datatype template_kind = OperationsKind | LegacyKind

record template_preset =
  tpc_label :: string
  tpc_kind :: template_kind
  tpc_payload :: jsval

definition TEMPLATE_PRESET_CONFIG :: "(string \<times> template_preset) list" where
  "TEMPLATE_PRESET_CONFIG =
    [(''operations_default'',
       \<lparr>tpc_label = ''New Format Template'', tpc_kind = OperationsKind, tpc_payload = OPERATION_TEMPLATE\<rparr>),
     (''legacy_default'',
       \<lparr>tpc_label = ''Legacy Format Template'', tpc_kind = LegacyKind, tpc_payload = LEGACY_TEMPLATE\<rparr>),
     (''pass_headers_auth'',
       \<lparr>tpc_label = ''Header Passthrough (X-Request-Id)'', tpc_kind = OperationsKind,
        tpc_payload = HEADER_PASSTHROUGH_TEMPLATE\<rparr>),
     (''gemini_image_4k'',
       \<lparr>tpc_label = ''Gemini Image 4K'', tpc_kind = OperationsKind, tpc_payload = GEMINI_IMAGE_4K_TEMPLATE\<rparr>),
     (''claude_cli_headers_passthrough'',
       \<lparr>tpc_label = ''Claude CLI Header Passthrough'', tpc_kind = OperationsKind,
        tpc_payload = CLAUDE_CLI_HEADER_PASSTHROUGH_TEMPLATE\<rparr>),
     (''codex_cli_headers_passthrough'',
       \<lparr>tpc_label = ''Codex CLI Header Passthrough'', tpc_kind = OperationsKind,
        tpc_payload = CODEX_CLI_HEADER_PASSTHROUGH_TEMPLATE\<rparr>),
     (''aws_bedrock_anthropic_beta_override'',
       \<lparr>tpc_label = ''AWS Bedrock Claude Compat'', tpc_kind = OperationsKind,
        tpc_payload = AWS_BEDROCK_ANTHROPIC_COMPAT_TEMPLATE\<rparr>)]"

end
