(* ===== verification/Override_Rules.thy ===== *)
theory Override_Rules
  imports Override_Modes
begin

text \<open>
  The rules of the parameter override editor of a channel
  (\<open>features/channels/components/dialogs/param-override-editor-dialog.tsx\<close>, the functions before the component): reading
  of rules from JSON, the drafts of the two modes that have an editor of their own, validation and writing of the rules
  as JSON.

  An identifier is \<open>po_\<close>, the time and a counter.  The counter is threaded through the operations that make
  identifiers; \<open>clock n\<close> is the time at which the identifier with counter \<open>n\<close> is made.  A rule read from JSON is a cast
  value, so reading a field of \<open>null\<close> throws.  \<open>String(v)\<close> on an object is \<open>[object Object]\<close>: an object of JSON with a
  field \<open>toString\<close> of its own is outside the model.
\<close>

section \<open>Identifiers\<close>

type_synonym clock = "nat \<Rightarrow> nat"

text \<open>A computation that makes identifiers: it takes the counter and returns the next one.\<close>

definition nextLocalId :: "clock \<Rightarrow> nat \<Rightarrow> string" where
  "nextLocalId clock n = ''po_'' @ show_pos (int (clock n)) @ ''_'' @ show_pos (int n)"

fun map_ids :: "('a \<Rightarrow> nat \<Rightarrow> 'b \<times> nat) \<Rightarrow> 'a list \<Rightarrow> nat \<Rightarrow> 'b list \<times> nat" where
  "map_ids f [] n = ([], n)"
| "map_ids f (x # xs) n = (let (y, m) = f x n; (ys, k) = map_ids f xs m in (y # ys, k))"

fun map_ids_exn :: "('a \<Rightarrow> nat \<Rightarrow> ('b \<times> nat) exn) \<Rightarrow> 'a list \<Rightarrow> nat \<Rightarrow> ('b list \<times> nat) exn" where
  "map_ids_exn f [] n = Inr ([], n)"
| "map_ids_exn f (x # xs) n =
     bind_exn (f x n) (\<lambda>(y, m). bind_exn (map_ids_exn f xs m) (\<lambda>(ys, k). Inr (y # ys, k)))"

section \<open>Values as text\<close>

definition toValueText :: "jsval \<Rightarrow> string" where
  "toValueText v = (case v of JUndefined \<Rightarrow> [] | JStr s \<Rightarrow> s | _ \<Rightarrow> json_text v)"

definition parseLooseValue :: "string \<Rightarrow> jsval" where
  "parseLooseValue valueText =
     (let raw = js_trim valueText
      in if raw = [] then JStr [] else case json_read raw of Some v \<Rightarrow> v | None \<Rightarrow> JStr raw)"

definition parseConditionValue :: "param_condition \<Rightarrow> jsval" where
  "parseConditionValue condition =
     (if cn_mode condition = ''regex'' then JStr (cn_value_text condition) else parseLooseValue (cn_value_text condition))"

definition verifyJSON :: "string \<Rightarrow> bool" where
  "verifyJSON text \<longleftrightarrow> json_read text \<noteq> None"

text \<open>\<open>typeof v === 'string' ? v : ''\<close> and \<open>v === true\<close>.\<close>

definition string_or_empty :: "jsval \<Rightarrow> string" where
  "string_or_empty v = (case v of JStr s \<Rightarrow> s | _ \<Rightarrow> [])"

text \<open>\<open>VALUES.has(v) ? v : d\<close>\<close>

definition offered_or :: "string list \<Rightarrow> jsval \<Rightarrow> string \<Rightarrow> string" where
  "offered_or values v d = (case v of JStr s \<Rightarrow> if s \<in> set values then s else d | _ \<Rightarrow> d)"

text \<open>\<open>v && typeof v === 'object' && !Array.isArray(v)\<close>\<close>

definition is_record :: "jsval \<Rightarrow> bool" where
  "is_record v \<longleftrightarrow> (case v of JObj _ \<Rightarrow> True | _ \<Rightarrow> False)"

section \<open>Conditions and rules\<close>

text \<open>The condition read from a value that is not \<open>null\<close>, and its reading from any value.\<close>

definition condition_of :: "clock \<Rightarrow> jsval \<Rightarrow> nat \<Rightarrow> param_condition \<times> nat" where
  "condition_of clock condition n =
     (\<lparr>cn_id = nextLocalId clock n,
       cn_path = string_or_empty (jget condition ''path''),
       cn_mode = offered_or CONDITION_MODE_VALUES (jget condition ''mode'') ''full'',
       cn_value_text = toValueText (jget condition ''value''),
       cn_invert = (jget condition ''invert'' = JBool True),
       cn_pass_missing_key = (jget condition ''pass_missing_key'' = JBool True)\<rparr>, Suc n)"

definition normalizeCondition :: "clock \<Rightarrow> jsval \<Rightarrow> nat \<Rightarrow> (param_condition \<times> nat) exn" where
  "normalizeCondition clock condition n =
     (if condition = JNull then Inl type_error else Inr (condition_of clock condition n))"

definition createDefaultCondition :: "clock \<Rightarrow> nat \<Rightarrow> param_condition \<times> nat" where
  "createDefaultCondition clock n = condition_of clock (JObj []) n"

text \<open>The rules of a draft of \<open>prune_objects\<close>: \<open>where\<close> is an object of paths and values, \<open>conditions\<close> a list of
  conditions or such an object.\<close>

definition entry_rules :: "clock \<Rightarrow> jsval \<Rightarrow> nat \<Rightarrow> param_condition list \<times> nat" where
  "entry_rules clock v n =
     (case v of
        JObj kvs \<Rightarrow> map_ids (\<lambda>(path, x). condition_of clock (JObj [(''path'', JStr path), (''mode'', JStr ''full''), (''value'', x)]))
          (js_entries kvs) n
      | _ \<Rightarrow> ([], n))"

definition is_js_object :: "jsval \<Rightarrow> bool" where
  "is_js_object v \<longleftrightarrow> (case v of JObj _ \<Rightarrow> True | JArr _ \<Rightarrow> True | _ \<Rightarrow> False)"

definition prune_rules :: "clock \<Rightarrow> jsval \<Rightarrow> nat \<Rightarrow> param_condition list \<times> nat" where
  "prune_rules clock parsed n =
     (let (rules, m) = entry_rules clock (jget parsed ''where'') n;
          (more, k) = (case jget parsed ''conditions'' of
              JArr vs \<Rightarrow> map_ids (condition_of clock) (filter is_js_object vs) m
            | v \<Rightarrow> entry_rules clock v m)
      in (rules @ more, k))"

definition prune_defaults :: prune_draft where
  "prune_defaults = \<lparr>pd_simpleMode = True, pd_typeText = [], pd_logic = ''AND'', pd_recursive = True, pd_rules = []\<rparr>"

text \<open>\<open>String(v || d).toUpperCase() === w ? w : d\<close>\<close>

definition logic_of :: "string \<Rightarrow> string \<Rightarrow> jsval \<Rightarrow> string" where
  "logic_of w d v = (if js_to_upper (js_string (or_val v (JStr d))) = w then w else d)"

definition parsePruneObjectsDraft :: "clock \<Rightarrow> string \<Rightarrow> nat \<Rightarrow> prune_draft \<times> nat" where
  "parsePruneObjectsDraft clock valueText n =
     (let raw = js_trim valueText
      in if raw = [] then (prune_defaults, n)
         else case json_read raw of
             None \<Rightarrow> (prune_defaults\<lparr>pd_typeText := raw\<rparr>, n)
           | Some (JStr s) \<Rightarrow> (prune_defaults\<lparr>pd_typeText := js_trim s\<rparr>, n)
           | Some (JObj kvs) \<Rightarrow>
               (let parsed = JObj kvs; (rules, m) = prune_rules clock parsed n
                in (\<lparr>pd_simpleMode = \<not> (jget parsed ''logic'' \<noteq> JUndefined \<or> jget parsed ''recursive'' \<noteq> JUndefined \<or>
                        jget parsed ''where'' \<noteq> JUndefined \<or> jget parsed ''conditions'' \<noteq> JUndefined),
                     pd_typeText = (if jget parsed ''type'' = JUndefined then [] else js_trim (js_string (jget parsed ''type''))),
                     pd_logic = logic_of ''OR'' ''AND'' (jget parsed ''logic''),
                     pd_recursive = (jget parsed ''recursive'' \<noteq> JBool False),
                     pd_rules = rules\<rparr>, m))
           | Some v \<Rightarrow> (prune_defaults\<lparr>pd_typeText := js_trim (if v = JNull then [] else js_string v)\<rparr>, n))"

text \<open>The identifier of the rule comes first, then those of its draft, then those of its conditions.\<close>

definition read_draft :: "clock \<Rightarrow> jsval \<Rightarrow> nat \<Rightarrow> prune_draft option \<times> nat" where
  "read_draft clock operation n =
     (if jget operation ''mode'' = JStr ''prune_objects''
      then let (d, m) = parsePruneObjectsDraft clock (toValueText (jget operation ''value'')) n in (Some d, m)
      else (None, n))"

definition read_conditions :: "clock \<Rightarrow> jsval \<Rightarrow> nat \<Rightarrow> (param_condition list \<times> nat) exn" where
  "read_conditions clock conditions n =
     (case conditions of JArr vs \<Rightarrow> map_ids_exn (normalizeCondition clock) vs n | _ \<Rightarrow> Inr ([], n))"

definition read_rule :: "string \<Rightarrow> jsval \<Rightarrow> prune_draft option \<Rightarrow> param_condition list \<Rightarrow> param_operation" where
  "read_rule i operation draft conditions =
     \<lparr>op_id = i,
      op_description = string_or_empty (jget operation ''description''),
      op_path = string_or_empty (jget operation ''path''),
      op_mode = offered_or OPERATION_MODE_VALUES (jget operation ''mode'') ''set'',
      op_from = string_or_empty (jget operation ''from''),
      op_to = string_or_empty (jget operation ''to''),
      op_value_text = toValueText (jget operation ''value''),
      op_keep_origin = (jget operation ''keep_origin'' = JBool True),
      op_logic = logic_of ''AND'' ''OR'' (jget operation ''logic''),
      op_conditions = conditions,
      op_prune_draft = draft\<rparr>"

definition normalizeOperation :: "clock \<Rightarrow> jsval \<Rightarrow> nat \<Rightarrow> (param_operation \<times> nat) exn" where
  "normalizeOperation clock operation n =
     (if operation = JNull then Inl type_error
      else let (draft, m) = read_draft clock operation (Suc n)
        in bind_exn (read_conditions clock (jget operation ''conditions'') m) (\<lambda>(conditions, k).
             Inr (read_rule (nextLocalId clock n) operation draft conditions, k)))"

text \<open>The rule \<open>normalizeOperation({ mode: 'set' })\<close>, which reads no list and cannot throw.\<close>

definition createDefaultOperation :: "clock \<Rightarrow> nat \<Rightarrow> param_operation \<times> nat" where
  "createDefaultOperation clock n =
     (\<lparr>op_id = nextLocalId clock n, op_description = [], op_path = [], op_mode = ''set'', op_from = [], op_to = [],
       op_value_text = [], op_keep_origin = False, op_logic = ''OR'', op_conditions = [], op_prune_draft = None\<rparr>, Suc n)"

lemma default_operation_reads: "normalizeOperation clock (JObj [(''mode'', JStr ''set'')]) n = Inr (createDefaultOperation clock n)"
  by (simp add: normalizeOperation_def read_draft_def read_conditions_def read_rule_def createDefaultOperation_def jget_def toValueText_def string_or_empty_def
      offered_or_def OPERATION_MODE_VALUES_def OPERATION_MODE_OPTIONS_def logic_of_def or_val_def jtruthy_def js_to_upper_def
      char_to_upper_def)

datatype drop_position = BeforeRule | AfterRule

definition reorderOperations ::
  "param_operation list \<Rightarrow> string \<Rightarrow> string \<Rightarrow> drop_position \<Rightarrow> param_operation list" where
  "reorderOperations ops sourceId targetId position =
     (if sourceId = [] \<or> targetId = [] \<or> sourceId = targetId then ops
      else case find_index (\<lambda>x. op_id x = sourceId) ops of
          None \<Rightarrow> ops
        | Some srcIdx \<Rightarrow>
            (let moved = ops ! srcIdx; next = take srcIdx ops @ drop (Suc srcIdx) ops
             in case find_index (\<lambda>x. op_id x = targetId) next of
                  None \<Rightarrow> ops
                | Some i \<Rightarrow>
                    (let insertIdx = (if position = AfterRule then i + 1 else i)
                     in take insertIdx next @ [moved] @ drop insertIdx next)))"

definition isOperationBlank :: "param_operation \<Rightarrow> bool" where
  "isOperationBlank operation \<longleftrightarrow>
     (let hasCondition = list_ex (\<lambda>c. js_trim (cn_path c) \<noteq> [] \<or> js_trim (cn_value_text c) \<noteq> [] \<or> cn_mode c \<noteq> ''full'' \<or>
            cn_invert c \<or> cn_pass_missing_key c) (op_conditions operation)
      in op_mode operation = ''set'' \<and> js_trim (op_path operation) = [] \<and> js_trim (op_from operation) = [] \<and>
         js_trim (op_to operation) = [] \<and> js_trim (op_value_text operation) = [] \<and> \<not> op_keep_origin operation \<and> \<not> hasCondition)"

section \<open>Labels\<close>

text \<open>The separator between the label and the path in a summary is a middle dot.\<close>

definition middle_dot :: string where
  "middle_dot = [CHR '' '', CHR 0xB7, CHR '' '']"

text \<open>\<open>a || b\<close> on strings.\<close>

definition or_text :: "string \<Rightarrow> string \<Rightarrow> string" where
  "or_text a b = (if a \<noteq> [] then a else b)"

definition mode_label :: "string \<Rightarrow> string" where
  "mode_label mode = or_text (coalesce (OPERATION_MODE_LABEL_MAP mode) []) mode"

definition getOperationSummary :: "param_operation \<Rightarrow> nat \<Rightarrow> string" where
  "getOperationSummary operation index =
     (let mode = or_text (op_mode operation) ''set''; modeLabel = mode_label mode;
          path = js_trim (op_path operation); from = js_trim (op_from operation); to = js_trim (op_to operation)
      in show_pos (int index + 1) @ ''. '' @ modeLabel @ middle_dot @
         (if mode = ''sync_fields'' then or_text from (or_text to ''-'') else or_text path (or_text from (or_text to ''-''))))"

definition getModeTagTailwind :: "string \<Rightarrow> string" where
  "getModeTagTailwind mode =
     (if js_includes mode ''header'' then ''bg-cyan-500/15 text-cyan-700 dark:text-cyan-300 border-cyan-500/20''
      else if js_includes mode ''replace'' \<or> js_includes mode ''trim'' then
        ''bg-violet-500/15 text-violet-700 dark:text-violet-300 border-violet-500/20''
      else if js_includes mode ''copy'' \<or> js_includes mode ''move'' then
        ''bg-blue-500/15 text-blue-700 dark:text-blue-300 border-blue-500/20''
      else if js_includes mode ''error'' \<or> js_includes mode ''prune'' then
        ''bg-red-500/15 text-red-700 dark:text-red-300 border-red-500/20''
      else if js_includes mode ''sync'' then ''bg-green-500/15 text-green-700 dark:text-green-300 border-green-500/20''
      else ''bg-muted text-muted-foreground'')"

definition getModePathLabel :: "string \<Rightarrow> string" where
  "getModePathLabel mode =
     (if mode = ''set_header'' \<or> mode = ''delete_header'' then ''Header Name''
      else if mode = ''prune_objects'' then ''Target Path (optional)'' else ''Target Field Path'')"

definition getModePathPlaceholder :: "string \<Rightarrow> string" where
  "getModePathPlaceholder mode =
     (if mode = ''set_header'' then ''Authorization'' else if mode = ''delete_header'' then ''X-Debug-Mode''
      else if mode = ''prune_objects'' then ''messages'' else ''temperature'')"

definition getModeFromLabel :: "string \<Rightarrow> string" where
  "getModeFromLabel mode =
     (if mode = ''replace'' then ''Match Text'' else if mode = ''regex_replace'' then ''Regex Pattern''
      else if mode = ''copy_header'' \<or> mode = ''move_header'' then ''Source Header'' else ''Source Field'')"

definition getModeFromPlaceholder :: "string \<Rightarrow> string" where
  "getModeFromPlaceholder mode =
     (if mode = ''replace'' then ''openai/'' else if mode = ''regex_replace'' then ''^gpt-''
      else if mode = ''copy_header'' \<or> mode = ''move_header'' then ''Authorization'' else ''model'')"

definition getModeToLabel :: "string \<Rightarrow> string" where
  "getModeToLabel mode =
     (if mode = ''replace'' \<or> mode = ''regex_replace'' then ''Replace With''
      else if mode = ''copy_header'' \<or> mode = ''move_header'' then ''Target Header'' else ''Target Field'')"

definition getModeToPlaceholder :: "string \<Rightarrow> string" where
  "getModeToPlaceholder mode =
     (if mode = ''replace'' then ''(leave empty to delete)'' else if mode = ''regex_replace'' then ''openai/gpt-''
      else if mode = ''copy_header'' \<or> mode = ''move_header'' then ''X-Upstream-Auth'' else ''original_model'')"

definition is_affix_mode :: "string \<Rightarrow> bool" where
  "is_affix_mode mode \<longleftrightarrow>
     mode = ''trim_prefix'' \<or> mode = ''trim_suffix'' \<or> mode = ''ensure_prefix'' \<or> mode = ''ensure_suffix''"

definition getModeValueLabel :: "string \<Rightarrow> string" where
  "getModeValueLabel mode =
     (if mode = ''set_header'' then ''Header Value (supports string or JSON mapping)''
      else if mode = ''pass_headers'' then ''Pass-through Headers (comma-separated or JSON array)''
      else if is_affix_mode mode then ''Prefix/Suffix Text''
      else if mode = ''prune_objects'' then ''Prune Rule (string or JSON object)''
      else ''Value (supports JSON or plain text)'')"

definition getModeValuePlaceholder :: "string \<Rightarrow> string" where
  "getModeValuePlaceholder mode =
     (if mode = ''set_header'' then ''Bearer sk-xxx''
      else if mode = ''pass_headers'' then ''Authorization, X-Request-Id''
      else if is_affix_mode mode then ''openai/''
      else if mode = ''prune_objects'' then
        ''{'' @ [dquote] @ ''type'' @ [dquote] @ '':'' @ [dquote] @ ''redacted_thinking'' @ [dquote] @ ''}''
      else ''0.7'')"

section \<open>Targets of \<open>sync_fields\<close>\<close>

text \<open>The kind of a target (\<open>json\<close> or \<open>header\<close>) and its key.\<close>

definition parseSyncTargetSpec :: "string \<Rightarrow> string \<times> string" where
  "parseSyncTargetSpec spec =
     (let raw = js_trim spec
      in if raw = [] then (''json'', [])
         else case find_index (\<lambda>c. c = CHR '':'') raw of
             None \<Rightarrow> (''json'', raw)
           | Some idx \<Rightarrow>
               (let prefix = js_to_lower (js_trim (take idx raw)); key = js_trim (drop (idx + 1) raw)
                in if prefix = ''header'' then (''header'', key) else (''json'', key)))"

definition buildSyncTargetSpec :: "string \<Rightarrow> string \<Rightarrow> string" where
  "buildSyncTargetSpec kind key =
     (let normalizedType = (if kind = ''header'' then ''header'' else ''json''); normalizedKey = js_trim key
      in if normalizedKey = [] then [] else normalizedType @ '':'' @ normalizedKey)"

section \<open>The draft of \<open>return_error\<close>\<close>

record return_error_draft =
  re_message :: string
  re_statusCode :: jsnum
  re_code :: string
  re_type :: string
  re_skipRetry :: bool
  re_simpleMode :: bool

definition return_error_defaults :: return_error_draft where
  "return_error_defaults = \<lparr>re_message = [], re_statusCode = Fin 400, re_code = [], re_type = [], re_skipRetry = True,
     re_simpleMode = True\<rparr>"

text \<open>\<open>Number.isInteger(n) && n >= 100 && n <= 599 ? n : 400\<close>\<close>

definition status_or_400 :: "jsnum \<Rightarrow> jsnum" where
  "status_or_400 x = (if is_integer x \<and> js_le (Fin 100) x \<and> js_le x (Fin 599) then x else Fin 400)"

text \<open>\<open>String(v || '').trim()\<close>\<close>

definition field_text :: "jsval \<Rightarrow> string" where
  "field_text v = js_trim (js_string (or_val v (JStr [])))"

definition parseReturnErrorDraft :: "string \<Rightarrow> return_error_draft" where
  "parseReturnErrorDraft valueText =
     (let raw = js_trim valueText
      in if raw = [] then return_error_defaults
         else case json_read raw of
             Some (JObj kvs) \<Rightarrow>
               (let parsed = JObj kvs;
                    statusRaw = (if jget parsed ''status_code'' \<noteq> JUndefined then jget parsed ''status_code'' else jget parsed ''status'')
                in \<lparr>re_message = field_text (or_val (jget parsed ''message'') (jget parsed ''msg'')),
                    re_statusCode = status_or_400 (js_to_number statusRaw),
                    re_code = field_text (jget parsed ''code''),
                    re_type = field_text (jget parsed ''type''),
                    re_skipRetry = (jget parsed ''skip_retry'' \<noteq> JBool False),
                    re_simpleMode = False\<rparr>)
           | _ \<Rightarrow> return_error_defaults\<lparr>re_message := raw, re_simpleMode := True\<rparr>)"

definition return_error_payload :: "return_error_draft \<Rightarrow> jsval" where
  "return_error_payload draft =
     (let code = js_trim (re_code draft); type = js_trim (re_type draft)
      in JObj ([(''message'', JStr (js_trim (re_message draft))),
                (''status_code'', JNum (status_or_400 (re_statusCode draft)))] @
               (if code \<noteq> [] then [(''code'', JStr code)] else []) @
               (if type \<noteq> [] then [(''type'', JStr type)] else []) @
               (if \<not> re_skipRetry draft then [(''skip_retry'', JBool False)] else [])))"

definition buildReturnErrorValueText :: "return_error_draft \<Rightarrow> string" where
  "buildReturnErrorValueText draft =
     (if re_simpleMode draft then js_trim (re_message draft) else json_text (return_error_payload draft))"

section \<open>The draft of \<open>prune_objects\<close>\<close>

definition prune_condition_payload :: "param_condition \<Rightarrow> jsval" where
  "prune_condition_payload rule =
     JObj ([(''path'', JStr (js_trim (cn_path rule))),
            (''mode'', JStr (if cn_mode rule \<in> set CONDITION_MODE_VALUES then cn_mode rule else ''full''))] @
           (if cn_mode rule = ''regex'' \<or> js_trim (cn_value_text rule) \<noteq> [] then [(''value'', parseConditionValue rule)] else []) @
           (if cn_invert rule then [(''invert'', JBool True)] else []) @
           (if cn_pass_missing_key rule then [(''pass_missing_key'', JBool True)] else []))"

definition prune_payload :: "prune_draft \<Rightarrow> jsval" where
  "prune_payload draft =
     (let typeText = js_trim (pd_typeText draft);
          conditions = map prune_condition_payload (filter (\<lambda>rule. js_trim (cn_path rule) \<noteq> []) (pd_rules draft))
      in if typeText = [] \<and> conditions = [] then JObj [(''logic'', JStr ''AND'')]
         else JObj
           ((if typeText \<noteq> [] then [(''type'', JStr typeText)] else []) @
            (if js_to_upper (or_text (pd_logic draft) ''AND'') = ''OR'' then [(''logic'', JStr ''OR'')] else []) @
            (if \<not> pd_recursive draft then [(''recursive'', JBool False)] else []) @
            (if conditions \<noteq> [] then [(''conditions'', JArr conditions)] else [])))"

definition buildPruneObjectsValueText :: "prune_draft \<Rightarrow> string" where
  "buildPruneObjectsValueText draft =
     (if pd_simpleMode draft then js_trim (pd_typeText draft) else json_text (prune_payload draft))"

section \<open>The names of \<open>pass_headers\<close>\<close>

text \<open>\<open>String(v ?? '').trim()\<close>\<close>

definition name_text :: "jsval \<Rightarrow> string" where
  "name_text v = js_trim (if v = JUndefined \<or> v = JNull then [] else js_string v)"

definition name_texts :: "jsval list \<Rightarrow> string list" where
  "name_texts vs = filter (\<lambda>s. s \<noteq> []) (map name_text vs)"

definition parsePassHeaderNames :: "jsval \<Rightarrow> string list" where
  "parsePassHeaderNames rawValue =
     (case rawValue of
        JArr vs \<Rightarrow> name_texts vs
      | JObj kvs \<Rightarrow>
          (case jget rawValue ''headers'' of
             JArr vs \<Rightarrow> name_texts vs
           | _ \<Rightarrow> if jget rawValue ''header'' \<noteq> JUndefined then name_texts [jget rawValue ''header''] else [])
      | JStr s \<Rightarrow> filter (\<lambda>w. w \<noteq> []) (map js_trim (js_split (CHR '','') s))
      | _ \<Rightarrow> [])"

section \<open>Validation\<close>

definition buildConditionPayload :: "param_condition \<Rightarrow> jsval option" where
  "buildConditionPayload condition =
     (let path = js_trim (cn_path condition)
      in if path = [] then None
         else Some (JObj
           ([(''path'', JStr path), (''mode'', JStr (or_text (cn_mode condition) ''full'')),
             (''value'', parseConditionValue condition)] @
            (if cn_invert condition then [(''invert'', JBool True)] else []) @
            (if cn_pass_missing_key condition then [(''pass_missing_key'', JBool True)] else []))))"

text \<open>The messages of the editor, with the line of the rule; their translation is not modelled.\<close>

datatype override_error =
    MissingTargetPath nat
  | MissingSourceField nat
  | MissingTargetField nat
  | MissingValue nat
  | ReturnErrorNeedsMessage nat
  | PruneMissingConditions nat
  | PassMissingNames nat
  | PassInvalidFormat nat
  | NotValidJson
  | LegacyNotObject
  | NotJsonObject
  | LegacyCannotAppend
  | JsonFormatError
  | InvalidInitialJson

definition return_error_problem :: "param_operation \<Rightarrow> nat \<Rightarrow> override_error option" where
  "return_error_problem p line =
     (let raw = js_trim (op_value_text p)
      in if raw = [] then Some (MissingValue line)
         else case json_read raw of
             Some (JObj kvs) \<Rightarrow> if field_text (jget (JObj kvs) ''message'') = [] then Some (ReturnErrorNeedsMessage line) else None
           | _ \<Rightarrow> None)"

definition prune_problem :: "param_operation \<Rightarrow> nat \<Rightarrow> override_error option" where
  "prune_problem p line =
     (let raw = js_trim (op_value_text p);
          unfinished = (case op_prune_draft p of
              None \<Rightarrow> False
            | Some draft \<Rightarrow> \<not> (js_trim (pd_typeText draft) \<noteq> [] \<or>
                \<not> pd_simpleMode draft \<and> list_ex (\<lambda>rule. js_trim (cn_path rule) \<noteq> []) (pd_rules draft)));
          hasExplicitType = (case parseLooseValue raw of JObj kvs \<Rightarrow> map_of kvs ''type'' \<noteq> None | _ \<Rightarrow> False)
      in if raw = [] \<or> unfinished \<and> \<not> hasExplicitType then Some (PruneMissingConditions line) else None)"

definition pass_headers_problem :: "param_operation \<Rightarrow> nat \<Rightarrow> override_error option" where
  "pass_headers_problem p line =
     (let raw = js_trim (op_value_text p)
      in if raw = [] then Some (PassMissingNames line)
         else if parsePassHeaderNames (parseLooseValue raw) = [] then Some (PassInvalidFormat line) else None)"

text \<open>The checks of one rule, in the order of the code: the first problem is reported.\<close>

definition operation_problem :: "param_operation \<Rightarrow> nat \<Rightarrow> override_error option" where
  "operation_problem p line =
     (let mode = or_text (op_mode p) ''set''; meta = meta_of mode;
          pathValue = js_trim (op_path p); fromValue = js_trim (op_from p); toValue = js_trim (op_to p);
          aliased = (mm_pathAlias meta \<and> pathValue \<noteq> [])
      in if mm_path meta \<and> pathValue = [] then Some (MissingTargetPath line)
         else if mode \<in> set FROM_REQUIRED_MODES \<and> fromValue = [] \<and> \<not> aliased then Some (MissingSourceField line)
         else if mode \<in> set TO_REQUIRED_MODES \<and> toValue = [] \<and> \<not> aliased then Some (MissingTargetField line)
         else if mode \<in> set VALUE_REQUIRED_MODES \<and> js_trim (op_value_text p) = [] then Some (MissingValue line)
         else if mode = ''return_error'' then return_error_problem p line
         else if mode = ''prune_objects'' then prune_problem p line
         else if mode = ''pass_headers'' then pass_headers_problem p line
         else None)"

text \<open>The rules are checked one after the other; \<open>i\<close> is the index of the first.\<close>

fun validate_from :: "nat \<Rightarrow> param_operation list \<Rightarrow> override_error option" where
  "validate_from i [] = None"
| "validate_from i (p # ps) = (case operation_problem p (i + 1) of Some e \<Rightarrow> Some e | None \<Rightarrow> validate_from (i + 1) ps)"

definition validateOperations :: "param_operation list \<Rightarrow> override_error option" where
  "validateOperations operations = validate_from 0 operations"

section \<open>Writing the rules\<close>

definition operation_payload :: "param_operation \<Rightarrow> jsval" where
  "operation_payload p =
     (let mode = or_text (op_mode p) ''set''; meta = meta_of mode;
          descriptionValue = js_trim (op_description p); pathValue = js_trim (op_path p);
          fromValue = js_trim (op_from p); toValue = js_trim (op_to p);
          payload = [(''mode'', JStr mode)] @
            (if descriptionValue \<noteq> [] then [(''description'', JStr descriptionValue)] else []) @
            (if mm_path meta \<or> mm_pathOptional meta \<and> pathValue \<noteq> [] then [(''path'', JStr pathValue)] else []) @
            (if mm_value meta then [(''value'', parseLooseValue (op_value_text p))] else []) @
            (if mm_keepOrigin meta \<and> op_keep_origin p then [(''keep_origin'', JBool True)] else []) @
            (if mm_from meta then [(''from'', JStr fromValue)] else []) @
            (if mm_to meta \<or> toValue \<noteq> [] then [(''to'', JStr toValue)] else []);
          payload = (if mm_pathAlias meta \<and> \<not> jtruthy (jget (JObj payload) ''from'') \<and> pathValue \<noteq> []
            then obj_set ''from'' (JStr pathValue) payload else payload);
          payload = (if mm_pathAlias meta \<and> \<not> jtruthy (jget (JObj payload) ''to'') \<and> pathValue \<noteq> []
            then obj_set ''to'' (JStr pathValue) payload else payload);
          conditions = List.map_filter buildConditionPayload (op_conditions p)
      in JObj (payload @
           (if conditions \<noteq> [] then [(''conditions'', JArr conditions),
              (''logic'', JStr (if op_logic p = ''AND'' then ''AND'' else ''OR''))] else [])))"

definition buildOperationsJson :: "param_operation list \<Rightarrow> bool \<Rightarrow> override_error + string" where
  "buildOperationsJson sourceOperations check =
     (let filteredOps = filter (\<lambda>p. \<not> isOperationBlank p) sourceOperations
      in if filteredOps = [] then Inr []
         else case (if check then validateOperations filteredOps else None) of
             Some e \<Rightarrow> Inl e
           | None \<Rightarrow> Inr (json_pretty [] (operations_object (map operation_payload filteredOps))))"

section \<open>The state the dialog opens with\<close>

datatype edit_mode = VisualEdit | JsonEdit
datatype visual_mode = OperationsView | LegacyView

record override_state =
  es_editMode :: edit_mode
  es_visualMode :: visual_mode
  es_legacyValue :: string
  es_operations :: "param_operation list"
  es_jsonText :: string
  es_jsonError :: "override_error option"

text \<open>The rules of a list of values, one blank rule for the empty list.\<close>

definition operations_of :: "clock \<Rightarrow> jsval list \<Rightarrow> nat \<Rightarrow> (param_operation list \<times> nat) exn" where
  "operations_of clock vs n =
     (if vs \<noteq> [] then map_ids_exn (normalizeOperation clock) vs n
      else Inr (let (p, m) = createDefaultOperation clock n in ([p], m)))"

definition one_rule :: "edit_mode \<Rightarrow> visual_mode \<Rightarrow> string \<Rightarrow> string \<Rightarrow> override_error option \<Rightarrow> clock \<Rightarrow> nat \<Rightarrow> override_state \<times> nat" where
  "one_rule em vm legacy text err clock n =
     (let (p, m) = createDefaultOperation clock n
      in (\<lparr>es_editMode = em, es_visualMode = vm, es_legacyValue = legacy, es_operations = [p], es_jsonText = text,
           es_jsonError = err\<rparr>, m))"

definition parseInitialState :: "clock \<Rightarrow> string \<Rightarrow> nat \<Rightarrow> (override_state \<times> nat) exn" where
  "parseInitialState clock text n =
     (let trimmed = js_trim text
      in if trimmed = [] then Inr (one_rule VisualEdit OperationsView [] [] None clock n)
         else case json_read trimmed of
             None \<Rightarrow> Inr (one_rule JsonEdit OperationsView [] text (Some InvalidInitialJson) clock n)
           | Some parsed \<Rightarrow>
               (let pretty = json_pretty [] parsed
                in case parsed of
                     JObj kvs \<Rightarrow>
                       (case jget parsed ''operations'' of
                          JArr vs \<Rightarrow>
                            bind_exn (operations_of clock vs n) (\<lambda>(ops, m).
                              Inr (\<lparr>es_editMode = VisualEdit, es_visualMode = OperationsView, es_legacyValue = [],
                                es_operations = ops, es_jsonText = pretty, es_jsonError = None\<rparr>, m))
                        | _ \<Rightarrow> Inr (one_rule VisualEdit LegacyView pretty pretty None clock n))
                   | _ \<Rightarrow> Inr (one_rule JsonEdit OperationsView [] pretty None clock n)))"

end
