(* ===== verification/Override_Editor.thy ===== *)
theory Override_Editor
  imports Override_Rules
begin

text \<open>
  The state and the handlers of the parameter override editor (\<open>ParamOverrideEditorDialog\<close> and the editors of one rule
  in \<open>features/channels/components/dialogs/param-override-editor-dialog.tsx\<close>).

  A handler maps the state to the state it leaves, or throws.  The counter of identifiers is part of the state.  Messages,
  saved texts and closing of the dialog are recorded in the order in which they happen.
\<close>

section \<open>State\<close>

datatype editor_output = Toast override_error | Saved string | Closed

record override_editor =
  ed_editMode :: edit_mode
  ed_visualMode :: visual_mode
  ed_legacyValue :: string
  ed_operations :: "param_operation list"
  ed_jsonText :: string
  ed_jsonError :: "override_error option"
  ed_operationSearch :: string
  ed_selected :: string
  ed_expanded :: "(string \<times> bool) list"
  ed_dragged :: string
  ed_dragOver :: string
  ed_dragPosition :: drop_position
  ed_templateKey :: string
  ed_seed :: nat
  ed_log :: "editor_output list"

text \<open>The first render.  Every render evaluates the initial value of the rules and so takes an identifier.\<close>

definition editor_mount :: "clock \<Rightarrow> nat \<Rightarrow> override_editor" where
  "editor_mount clock n =
     (let (p, m) = createDefaultOperation clock n
      in \<lparr>ed_editMode = VisualEdit, ed_visualMode = OperationsView, ed_legacyValue = [], ed_operations = [p], ed_jsonText = [],
          ed_jsonError = None, ed_operationSearch = [], ed_selected = [], ed_expanded = [], ed_dragged = [], ed_dragOver = [],
          ed_dragPosition = BeforeRule, ed_templateKey = ''operations_default'', ed_seed = m, ed_log = []\<rparr>)"

definition editor_render :: "clock \<Rightarrow> override_editor \<Rightarrow> override_editor" where
  "editor_render clock s = s\<lparr>ed_seed := snd (createDefaultOperation clock (ed_seed s))\<rparr>"

definition first_id :: "param_operation list \<Rightarrow> string" where
  "first_id ops = (case ops of [] \<Rightarrow> [] | p # _ \<Rightarrow> op_id p)"

text \<open>The effect that runs when the dialog opens.\<close>

definition openEditor :: "clock \<Rightarrow> string \<Rightarrow> override_editor \<Rightarrow> override_editor exn" where
  "openEditor clock v s =
     bind_exn (parseInitialState clock v (ed_seed s)) (\<lambda>(state, m).
       Inr (s\<lparr>ed_editMode := es_editMode state, ed_visualMode := es_visualMode state, ed_legacyValue := es_legacyValue state,
         ed_operations := es_operations state, ed_jsonText := es_jsonText state, ed_jsonError := es_jsonError state,
         ed_operationSearch := [], ed_selected := first_id (es_operations state), ed_expanded := [], ed_dragged := [],
         ed_dragOver := [], ed_dragPosition := BeforeRule,
         ed_templateKey := (if es_visualMode state = LegacyView then ''legacy_default'' else ''operations_default''),
         ed_seed := m\<rparr>))"

text \<open>The effect that keeps the selected rule one of the rules.\<close>

definition keepSelected :: "override_editor \<Rightarrow> override_editor" where
  "keepSelected s =
     (case ed_operations s of
        [] \<Rightarrow> s\<lparr>ed_selected := []\<rparr>
      | p # ps \<Rightarrow> if list_ex (\<lambda>x. op_id x = ed_selected s) (p # ps) then s else s\<lparr>ed_selected := op_id p\<rparr>)"

section \<open>What the editor shows\<close>

definition templatePresetOptions :: "(string \<times> string) list" where
  "templatePresetOptions = map (\<lambda>(v, config). (v, tpc_label config)) TEMPLATE_PRESET_CONFIG"

definition operationCount :: "override_editor \<Rightarrow> nat" where
  "operationCount s = length (filter (\<lambda>p. \<not> isOperationBlank p) (ed_operations s))"

definition searchableText :: "param_operation \<Rightarrow> string" where
  "searchableText p =
     js_to_lower (js_join '' '' (filter (\<lambda>w. w \<noteq> [])
       [op_description p, op_mode p, op_path p, op_from p, op_to p, op_value_text p]))"

definition filteredOperations :: "override_editor \<Rightarrow> param_operation list" where
  "filteredOperations s =
     (let keyword = js_to_lower (js_trim (ed_operationSearch s))
      in if keyword = [] then ed_operations s else filter (\<lambda>p. js_includes (searchableText p) keyword) (ed_operations s))"

definition selectedOperation :: "override_editor \<Rightarrow> param_operation option" where
  "selectedOperation s = find (\<lambda>p. op_id p = ed_selected s) (ed_operations s)"

definition selectedOperationIndex :: "override_editor \<Rightarrow> nat option" where
  "selectedOperationIndex s = find_index (\<lambda>p. op_id p = ed_selected s) (ed_operations s)"

definition returnErrorDraft :: "override_editor \<Rightarrow> return_error_draft option" where
  "returnErrorDraft s =
     (case selectedOperation s of
        None \<Rightarrow> None
      | Some p \<Rightarrow> if op_mode p \<noteq> ''return_error'' then None else Some (parseReturnErrorDraft (op_value_text p)))"

definition pruneObjectsDraft :: "override_editor \<Rightarrow> prune_draft option" where
  "pruneObjectsDraft s = (case selectedOperation s of None \<Rightarrow> None | Some p \<Rightarrow> op_prune_draft p)"

definition topOperationModes :: "override_editor \<Rightarrow> (string \<times> nat) list" where
  "topOperationModes s =
     (let counts = fold (\<lambda>p acc. let mode = or_text (op_mode p) ''set'' in obj_set mode (coalesce (map_of acc mode) 0 + 1) acc)
            (ed_operations s) []
      in take 4 (sort_key (\<lambda>kv. - int (snd kv)) counts))"

section \<open>Rules\<close>

text \<open>The fields the editors of a rule patch; \<open>None\<close> is a field the patch does not have.\<close>

record operation_patch =
  pt_description :: "string option"
  pt_path :: "string option"
  pt_mode :: "string option"
  pt_from :: "string option"
  pt_to :: "string option"
  pt_value_text :: "string option"
  pt_keep_origin :: "bool option"
  pt_logic :: "string option"

definition no_patch :: operation_patch where
  "no_patch = \<lparr>pt_description = None, pt_path = None, pt_mode = None, pt_from = None, pt_to = None, pt_value_text = None,
     pt_keep_origin = None, pt_logic = None\<rparr>"

definition patched_operation :: "operation_patch \<Rightarrow> param_operation \<Rightarrow> param_operation" where
  "patched_operation patch p =
     p\<lparr>op_description := coalesce (pt_description patch) (op_description p),
       op_path := coalesce (pt_path patch) (op_path p),
       op_mode := coalesce (pt_mode patch) (op_mode p),
       op_from := coalesce (pt_from patch) (op_from p),
       op_to := coalesce (pt_to patch) (op_to p),
       op_value_text := coalesce (pt_value_text patch) (op_value_text p),
       op_keep_origin := coalesce (pt_keep_origin patch) (op_keep_origin p),
       op_logic := coalesce (pt_logic patch) (op_logic p)\<rparr>"

definition patch_operation :: "clock \<Rightarrow> operation_patch \<Rightarrow> param_operation \<Rightarrow> nat \<Rightarrow> param_operation \<times> nat" where
  "patch_operation clock patch p n =
     (let next = patched_operation patch p
      in if op_mode next \<noteq> op_mode p \<or> pt_value_text patch \<noteq> None then
           (if op_mode next = ''prune_objects''
            then let (d, m) = parsePruneObjectsDraft clock (op_value_text next) n in (next\<lparr>op_prune_draft := Some d\<rparr>, m)
            else (next\<lparr>op_prune_draft := None\<rparr>, n))
         else (next, n))"

text \<open>\<open>setOperations(prev => prev.map(op => op.id === id ? f(op) : op))\<close>, where \<open>f\<close> may make identifiers or not.\<close>

definition map_operation_ids ::
  "string \<Rightarrow> (param_operation \<Rightarrow> nat \<Rightarrow> param_operation \<times> nat) \<Rightarrow> override_editor \<Rightarrow> override_editor" where
  "map_operation_ids i f s =
     (let (ops, m) = map_ids (\<lambda>p n. if op_id p = i then f p n else (p, n)) (ed_operations s) (ed_seed s)
      in s\<lparr>ed_operations := ops, ed_seed := m\<rparr>)"

definition map_operation :: "string \<Rightarrow> (param_operation \<Rightarrow> param_operation) \<Rightarrow> override_editor \<Rightarrow> override_editor" where
  "map_operation i f s = s\<lparr>ed_operations := map (\<lambda>p. if op_id p = i then f p else p) (ed_operations s)\<rparr>"

definition updateOperation :: "clock \<Rightarrow> string \<Rightarrow> operation_patch \<Rightarrow> override_editor \<Rightarrow> override_editor" where
  "updateOperation clock operationId patch s = map_operation_ids operationId (patch_operation clock patch) s"

definition addOperation :: "clock \<Rightarrow> override_editor \<Rightarrow> override_editor" where
  "addOperation clock s =
     (let (created, m) = createDefaultOperation clock (ed_seed s)
      in s\<lparr>ed_operations := ed_operations s @ [created], ed_selected := op_id created, ed_seed := m\<rparr>)"

text \<open>The value a rule is cloned from; the draft of the source replaces the one read from its text, with identifiers
  of its own.\<close>

definition cloned_condition :: "param_condition \<Rightarrow> jsval" where
  "cloned_condition c =
     JObj [(''path'', JStr (cn_path c)), (''mode'', JStr (cn_mode c)), (''value'', parseConditionValue c),
       (''invert'', JBool (cn_invert c)), (''pass_missing_key'', JBool (cn_pass_missing_key c))]"

definition cloned_operation :: "param_operation \<Rightarrow> jsval" where
  "cloned_operation p =
     JObj [(''description'', JStr (op_description p)), (''path'', JStr (op_path p)), (''mode'', JStr (op_mode p)),
       (''value'', parseLooseValue (op_value_text p)), (''keep_origin'', JBool (op_keep_origin p)),
       (''from'', JStr (op_from p)), (''to'', JStr (op_to p)), (''logic'', JStr (op_logic p)),
       (''conditions'', JArr (map cloned_condition (op_conditions p)))]"

definition clone_rules :: "clock \<Rightarrow> param_condition list \<Rightarrow> nat \<Rightarrow> param_condition list \<times> nat" where
  "clone_rules clock rules n = map_ids (\<lambda>rule m. (rule\<lparr>cn_id := nextLocalId clock m\<rparr>, Suc m)) rules n"

definition clone_operation :: "clock \<Rightarrow> param_operation \<Rightarrow> nat \<Rightarrow> (param_operation \<times> nat) exn" where
  "clone_operation clock source n =
     bind_exn (normalizeOperation clock (cloned_operation source) n) (\<lambda>(cloned, m).
       case op_prune_draft source of
         None \<Rightarrow> Inr (cloned, m)
       | Some draft \<Rightarrow>
           (let (rules, k) = clone_rules clock (pd_rules draft) m
            in Inr (cloned\<lparr>op_prune_draft := Some (draft\<lparr>pd_rules := rules\<rparr>)\<rparr>, k)))"

text \<open>\<open>eager\<close>: React has run the update of the rules when the handler reads the identifier of the clone.  It does so
  when no other update of the component is pending.\<close>

definition duplicateOperation :: "clock \<Rightarrow> bool \<Rightarrow> string \<Rightarrow> override_editor \<Rightarrow> override_editor exn" where
  "duplicateOperation clock eager operationId s =
     (case find_index (\<lambda>p. op_id p = operationId) (ed_operations s) of
        None \<Rightarrow> Inr s
      | Some idx \<Rightarrow>
          bind_exn (clone_operation clock (ed_operations s ! idx) (ed_seed s)) (\<lambda>(cloned, m).
            Inr (s\<lparr>ed_operations := take (idx + 1) (ed_operations s) @ [cloned] @ drop (idx + 1) (ed_operations s),
              ed_selected := (if eager then op_id cloned else ed_selected s), ed_seed := m\<rparr>)))"

definition removeOperation :: "clock \<Rightarrow> string \<Rightarrow> override_editor \<Rightarrow> override_editor" where
  "removeOperation clock operationId s =
     (if length (ed_operations s) \<le> 1 then
        (let (p, m) = createDefaultOperation clock (ed_seed s) in s\<lparr>ed_operations := [p], ed_seed := m\<rparr>)
      else s\<lparr>ed_operations := filter (\<lambda>p. op_id p \<noteq> operationId) (ed_operations s)\<rparr>)"

section \<open>Conditions\<close>

definition addCondition :: "clock \<Rightarrow> string \<Rightarrow> override_editor \<Rightarrow> override_editor" where
  "addCondition clock operationId s =
     (let (created, m) = createDefaultCondition clock (ed_seed s)
      in map_operation operationId (\<lambda>p. p\<lparr>op_conditions := op_conditions p @ [created]\<rparr>)
           (s\<lparr>ed_expanded := obj_set (cn_id created) True (ed_expanded s), ed_seed := m\<rparr>))"

text \<open>The fields the editor of a condition patches.\<close>

record condition_patch =
  cp_path :: "string option"
  cp_mode :: "string option"
  cp_value_text :: "string option"
  cp_invert :: "bool option"
  cp_pass_missing_key :: "bool option"

definition patched_condition :: "condition_patch \<Rightarrow> param_condition \<Rightarrow> param_condition" where
  "patched_condition patch c =
     c\<lparr>cn_path := coalesce (cp_path patch) (cn_path c), cn_mode := coalesce (cp_mode patch) (cn_mode c),
       cn_value_text := coalesce (cp_value_text patch) (cn_value_text c),
       cn_invert := coalesce (cp_invert patch) (cn_invert c),
       cn_pass_missing_key := coalesce (cp_pass_missing_key patch) (cn_pass_missing_key c)\<rparr>"

definition patch_conditions :: "string \<Rightarrow> condition_patch \<Rightarrow> param_condition list \<Rightarrow> param_condition list" where
  "patch_conditions i patch cs = map (\<lambda>c. if cn_id c = i then patched_condition patch c else c) cs"

definition updateCondition :: "string \<Rightarrow> string \<Rightarrow> condition_patch \<Rightarrow> override_editor \<Rightarrow> override_editor" where
  "updateCondition operationId conditionId patch s =
     map_operation operationId (\<lambda>p. p\<lparr>op_conditions := patch_conditions conditionId patch (op_conditions p)\<rparr>) s"

definition removeCondition :: "string \<Rightarrow> string \<Rightarrow> override_editor \<Rightarrow> override_editor" where
  "removeCondition operationId conditionId s =
     map_operation operationId (\<lambda>p. p\<lparr>op_conditions := filter (\<lambda>c. cn_id c \<noteq> conditionId) (op_conditions p)\<rparr>) s"

definition toggle_condition :: "string \<Rightarrow> bool \<Rightarrow> override_editor \<Rightarrow> override_editor" where
  "toggle_condition conditionId expanded s = s\<lparr>ed_expanded := obj_set conditionId expanded (ed_expanded s)\<rparr>"

definition set_all_expanded :: "bool \<Rightarrow> override_editor \<Rightarrow> override_editor" where
  "set_all_expanded b s =
     (case selectedOperation s of
        None \<Rightarrow> s
      | Some p \<Rightarrow> s\<lparr>ed_expanded := fold (\<lambda>c acc. obj_set (cn_id c) b acc) (op_conditions p) (ed_expanded s)\<rparr>)"

definition expandAllConditions :: "override_editor \<Rightarrow> override_editor" where
  "expandAllConditions s = set_all_expanded True s"

definition collapseAllConditions :: "override_editor \<Rightarrow> override_editor" where
  "collapseAllConditions s = set_all_expanded False s"

section \<open>Drafts\<close>

text \<open>A patch of a draft is given as the function that applies it.\<close>

definition updateReturnErrorDraft ::
  "string \<Rightarrow> (return_error_draft \<Rightarrow> return_error_draft) \<Rightarrow> override_editor \<Rightarrow> override_editor" where
  "updateReturnErrorDraft operationId f s =
     map_operation operationId
       (\<lambda>p. p\<lparr>op_value_text := buildReturnErrorValueText (f (parseReturnErrorDraft (op_value_text p)))\<rparr>) s"

definition with_prune_draft ::
  "(prune_draft \<Rightarrow> nat \<Rightarrow> prune_draft \<times> nat) \<Rightarrow> param_operation \<Rightarrow> nat \<Rightarrow> param_operation \<times> nat" where
  "with_prune_draft f p n =
     (case op_prune_draft p of
        None \<Rightarrow> (p, n)
      | Some draft \<Rightarrow>
          (let (nextDraft, m) = f draft n
           in (p\<lparr>op_prune_draft := Some nextDraft, op_value_text := buildPruneObjectsValueText nextDraft\<rparr>, m)))"

definition updatePruneObjectsDraft ::
  "string \<Rightarrow> (prune_draft \<Rightarrow> nat \<Rightarrow> prune_draft \<times> nat) \<Rightarrow> override_editor \<Rightarrow> override_editor" where
  "updatePruneObjectsDraft operationId f s = map_operation_ids operationId (with_prune_draft f) s"

definition addPruneRule :: "clock \<Rightarrow> string \<Rightarrow> override_editor \<Rightarrow> override_editor" where
  "addPruneRule clock operationId s =
     updatePruneObjectsDraft operationId
       (\<lambda>draft n. let (c, m) = createDefaultCondition clock n
                  in (draft\<lparr>pd_simpleMode := False, pd_rules := pd_rules draft @ [c]\<rparr>, m)) s"

definition updatePruneRule :: "string \<Rightarrow> string \<Rightarrow> condition_patch \<Rightarrow> override_editor \<Rightarrow> override_editor" where
  "updatePruneRule operationId ruleId patch s =
     updatePruneObjectsDraft operationId
       (\<lambda>draft n. (draft\<lparr>pd_rules := patch_conditions ruleId patch (pd_rules draft)\<rparr>, n)) s"

definition removePruneRule :: "string \<Rightarrow> string \<Rightarrow> override_editor \<Rightarrow> override_editor" where
  "removePruneRule operationId ruleId s =
     updatePruneObjectsDraft operationId
       (\<lambda>draft n. (draft\<lparr>pd_rules := filter (\<lambda>r. cn_id r \<noteq> ruleId) (pd_rules draft)\<rparr>, n)) s"

section \<open>Dragging\<close>

definition resetDragState :: "override_editor \<Rightarrow> override_editor" where
  "resetDragState s = s\<lparr>ed_dragged := [], ed_dragOver := [], ed_dragPosition := BeforeRule\<rparr>"

definition handleDragStart :: "string \<Rightarrow> override_editor \<Rightarrow> override_editor" where
  "handleDragStart operationId s = s\<lparr>ed_dragged := operationId, ed_selected := operationId\<rparr>"

text \<open>\<open>clientY\<close>, \<open>rectTop\<close> and \<open>height\<close> are the position of the pointer and of the rule under it.\<close>

definition handleDragOver :: "jsnum \<Rightarrow> jsnum \<Rightarrow> jsnum \<Rightarrow> string \<Rightarrow> override_editor \<Rightarrow> override_editor" where
  "handleDragOver clientY rectTop height operationId s =
     (if ed_dragged s = [] \<or> ed_dragged s = operationId then s
      else s\<lparr>ed_dragOver := operationId,
             ed_dragPosition := (if js_lt (js_div height (Fin 2)) (js_sub clientY rectTop) then AfterRule else BeforeRule)\<rparr>)"

text \<open>\<open>carried\<close> is the text the drag event carries.\<close>

definition handleDrop :: "string \<Rightarrow> string \<Rightarrow> override_editor \<Rightarrow> override_editor" where
  "handleDrop carried operationId s =
     (let sourceId = or_text (ed_dragged s) carried;
          position = (if ed_dragOver s = operationId then ed_dragPosition s else BeforeRule)
      in resetDragState
           (if sourceId \<noteq> [] \<and> operationId \<noteq> [] \<and> sourceId \<noteq> operationId
            then s\<lparr>ed_operations := reorderOperations (ed_operations s) sourceId operationId position, ed_selected := sourceId\<rparr>
            else s))"

section \<open>Texts and templates\<close>

definition buildVisualJson :: "override_editor \<Rightarrow> override_error + string" where
  "buildVisualJson s =
     (if ed_visualMode s = LegacyView then
        (let trimmed = js_trim (ed_legacyValue s)
         in if trimmed = [] then Inr []
            else case json_read trimmed of
                None \<Rightarrow> Inl NotValidJson
              | Some (JObj kvs) \<Rightarrow> Inr (json_pretty [] (JObj kvs))
              | Some _ \<Rightarrow> Inl LegacyNotObject)
      else buildOperationsJson (ed_operations s) True)"

text \<open>The rules as text without validation, which does not throw.\<close>

definition unchecked_text :: "override_editor \<Rightarrow> string" where
  "unchecked_text s = (case buildOperationsJson (ed_operations s) False of Inr t \<Rightarrow> t | Inl _ \<Rightarrow> [])"

definition switchToJsonMode :: "override_editor \<Rightarrow> override_editor" where
  "switchToJsonMode s =
     (if ed_editMode s = JsonEdit then s
      else (case buildVisualJson s of
          Inr t \<Rightarrow> s\<lparr>ed_jsonText := t, ed_jsonError := None\<rparr>
        | Inl e \<Rightarrow> s\<lparr>ed_log := ed_log s @ [Toast e],
             ed_jsonText := (if ed_visualMode s = LegacyView then ed_legacyValue s else unchecked_text s),
             ed_jsonError := Some e\<rparr>)\<lparr>ed_editMode := JsonEdit\<rparr>)"

definition switchToVisualMode :: "clock \<Rightarrow> override_editor \<Rightarrow> override_editor exn" where
  "switchToVisualMode clock s =
     (if ed_editMode s = VisualEdit then Inr s
      else let trimmed = js_trim (ed_jsonText s); (fallback, m) = createDefaultOperation clock (ed_seed s)
        in if trimmed = [] then
             Inr (s\<lparr>ed_visualMode := OperationsView, ed_operations := [fallback], ed_selected := op_id fallback,
               ed_legacyValue := [], ed_jsonError := None, ed_editMode := VisualEdit, ed_seed := m\<rparr>)
           else case json_read trimmed of
               None \<Rightarrow> Inr (s\<lparr>ed_log := ed_log s @ [Toast NotValidJson]\<rparr>)
             | Some (JObj kvs) \<Rightarrow>
                 (case jget (JObj kvs) ''operations'' of
                    JArr vs \<Rightarrow>
                      bind_exn (operations_of clock vs (ed_seed s)) (\<lambda>(nextOps, k).
                        Inr (s\<lparr>ed_visualMode := OperationsView, ed_operations := nextOps, ed_selected := first_id nextOps,
                          ed_legacyValue := [], ed_jsonError := None, ed_editMode := VisualEdit,
                          ed_templateKey := ''operations_default'', ed_seed := k\<rparr>))
                  | _ \<Rightarrow>
                      Inr (s\<lparr>ed_visualMode := LegacyView, ed_legacyValue := json_pretty [] (JObj kvs),
                        ed_operations := [fallback], ed_selected := op_id fallback, ed_jsonError := None,
                        ed_editMode := VisualEdit, ed_templateKey := ''legacy_default'', ed_seed := m\<rparr>))
             | Some _ \<Rightarrow> Inr (s\<lparr>ed_log := ed_log s @ [Toast NotJsonObject]\<rparr>))"

datatype fill_mode = FillTemplate | AppendTemplate

text \<open>The entries that \<open>{ ...v }\<close> copies.\<close>

definition spread_entries :: "jsval \<Rightarrow> (string \<times> jsval) list" where
  "spread_entries v =
     (case v of
        JObj kvs \<Rightarrow> kvs
      | JArr vs \<Rightarrow> map (\<lambda>(i, x). (show_pos (int i), x)) (enumerate 0 vs)
      | JStr s \<Rightarrow> map (\<lambda>(i, c). (show_pos (int i), JStr [c])) (enumerate 0 s)
      | _ \<Rightarrow> [])"

definition merged_object :: "jsval \<Rightarrow> jsval \<Rightarrow> jsval" where
  "merged_object a b = JObj (js_entries (fold (\<lambda>(k, v) acc. obj_set k v acc) (spread_entries b) (spread_entries a)))"

definition fill_legacy :: "clock \<Rightarrow> jsval \<Rightarrow> override_editor \<Rightarrow> override_editor" where
  "fill_legacy clock v s =
     (let text = json_pretty [] v; (p, m) = createDefaultOperation clock (ed_seed s)
      in s\<lparr>ed_visualMode := LegacyView, ed_legacyValue := text, ed_operations := [p], ed_jsonText := text, ed_jsonError := None,
           ed_editMode := VisualEdit, ed_seed := m\<rparr>)"

definition fillTemplate :: "clock \<Rightarrow> fill_mode \<Rightarrow> override_editor \<Rightarrow> override_editor exn" where
  "fillTemplate clock mode s =
     (let preset = coalesce (map_of TEMPLATE_PRESET_CONFIG (ed_templateKey s)) (snd (TEMPLATE_PRESET_CONFIG ! 0));
          payload = tpc_payload preset
      in if tpc_kind preset = LegacyKind then
           (if mode = AppendTemplate \<and> ed_visualMode s = LegacyView then
              (let trimmed = js_trim (ed_legacyValue s)
               in if trimmed = [] then Inr (fill_legacy clock (merged_object payload (JObj [])) s)
                  else case json_read trimmed of
                      None \<Rightarrow> Inr (s\<lparr>ed_log := ed_log s @ [Toast LegacyCannotAppend]\<rparr>)
                    | Some parsedCurrent \<Rightarrow> Inr (fill_legacy clock (merged_object payload parsedCurrent) s))
            else Inr (fill_legacy clock payload s))
         else
           (let operationsPayload = (case jget payload ''operations'' of JArr vs \<Rightarrow> vs | _ \<Rightarrow> [])
            in if mode = AppendTemplate then
                 bind_exn (map_ids_exn (normalizeOperation clock) operationsPayload (ed_seed s)) (\<lambda>(appended, m).
                   let existing = (if ed_visualMode s = OperationsView then filter (\<lambda>p. \<not> isOperationBlank p) (ed_operations s) else []);
                       nextOps = existing @ appended
                   in Inr (s\<lparr>ed_visualMode := OperationsView, ed_operations := (if nextOps \<noteq> [] then nextOps else appended),
                        ed_selected := or_text (first_id nextOps) (first_id appended), ed_legacyValue := [], ed_jsonError := None,
                        ed_editMode := VisualEdit, ed_jsonText := [], ed_seed := m\<rparr>))
               else
                 bind_exn (operations_of clock operationsPayload (ed_seed s)) (\<lambda>(finalOps, m).
                   Inr (s\<lparr>ed_visualMode := OperationsView, ed_operations := finalOps, ed_selected := first_id finalOps,
                     ed_jsonText := json_pretty [] (operations_object operationsPayload), ed_jsonError := None,
                     ed_editMode := VisualEdit, ed_seed := m\<rparr>))))"

definition resetEditorState :: "clock \<Rightarrow> override_editor \<Rightarrow> override_editor" where
  "resetEditorState clock s =
     (let (fallback, m) = createDefaultOperation clock (ed_seed s)
      in s\<lparr>ed_visualMode := OperationsView, ed_legacyValue := [], ed_operations := [fallback], ed_selected := op_id fallback,
           ed_jsonText := [], ed_jsonError := None, ed_templateKey := ''operations_default'', ed_editMode := VisualEdit,
           ed_seed := m\<rparr>)"

definition handleJsonChange :: "string \<Rightarrow> override_editor \<Rightarrow> override_editor" where
  "handleJsonChange nextValue s =
     (let trimmed = js_trim nextValue
      in s\<lparr>ed_jsonText := nextValue,
           ed_jsonError := (if trimmed = [] \<or> verifyJSON trimmed then None else Some JsonFormatError)\<rparr>)"

definition visualValidationError :: "override_editor \<Rightarrow> override_error option" where
  "visualValidationError s =
     (if ed_editMode s \<noteq> VisualEdit then None
      else case buildVisualJson s of Inr _ \<Rightarrow> None | Inl e \<Rightarrow> Some e)"

definition saved_text :: "override_editor \<Rightarrow> override_error + string" where
  "saved_text s =
     (if ed_editMode s = JsonEdit then
        (let trimmed = js_trim (ed_jsonText s)
         in if trimmed = [] then Inr []
            else case json_read trimmed of None \<Rightarrow> Inl NotValidJson | Some v \<Rightarrow> Inr (json_pretty [] v))
      else buildVisualJson s)"

definition handleSave :: "override_editor \<Rightarrow> override_editor" where
  "handleSave s =
     (case saved_text s of
        Inr t \<Rightarrow> s\<lparr>ed_log := ed_log s @ [Saved t, Closed]\<rparr>
      | Inl e \<Rightarrow> s\<lparr>ed_log := ed_log s @ [Toast e]\<rparr>)"

section \<open>The editors of one rule\<close>

text \<open>The button that formats the value; a text that is not JSON is left as it is.\<close>

definition format_value :: "clock \<Rightarrow> param_operation \<Rightarrow> override_editor \<Rightarrow> override_editor" where
  "format_value clock p s =
     (case json_read (op_value_text p) of
        Some v \<Rightarrow> updateOperation clock (op_id p) (no_patch\<lparr>pt_value_text := Some (json_pretty [] v)\<rparr>) s
      | None \<Rightarrow> s)"

text \<open>The source and the target of \<open>sync_fields\<close>: choosing a kind keeps the key, typing a key keeps the kind.\<close>

definition choose_sync_type :: "string \<Rightarrow> string \<Rightarrow> string" where
  "choose_sync_type spec v = buildSyncTargetSpec v (snd (parseSyncTargetSpec spec))"

definition type_sync_key :: "string \<Rightarrow> string \<Rightarrow> string" where
  "type_sync_key spec key = buildSyncTargetSpec (fst (parseSyncTargetSpec spec)) key"

section \<open>Gestures\<close>

text \<open>What the fields of a rule and of a condition can be given: a mode or a logic is one of the choices offered.\<close>

definition offered_patch :: "operation_patch \<Rightarrow> bool" where
  "offered_patch patch \<longleftrightarrow>
     (case pt_mode patch of None \<Rightarrow> True | Some m \<Rightarrow> m \<in> set OPERATION_MODE_VALUES) \<and>
     (case pt_logic patch of None \<Rightarrow> True | Some l \<Rightarrow> l = ''OR'' \<or> l = ''AND'')"

definition offered_condition_patch :: "condition_patch \<Rightarrow> bool" where
  "offered_condition_patch patch \<longleftrightarrow> (case cp_mode patch of None \<Rightarrow> True | Some m \<Rightarrow> m \<in> set CONDITION_MODE_VALUES)"

text \<open>The fields of a draft of \<open>prune_objects\<close> other than its rules.\<close>

definition set_prune_fields :: "bool option \<Rightarrow> string option \<Rightarrow> string option \<Rightarrow> bool option \<Rightarrow> prune_draft \<Rightarrow> prune_draft" where
  "set_prune_fields simple typeText logic recursive d =
     d\<lparr>pd_simpleMode := coalesce simple (pd_simpleMode d), pd_typeText := coalesce typeText (pd_typeText d),
       pd_logic := coalesce logic (pd_logic d), pd_recursive := coalesce recursive (pd_recursive d)\<rparr>"

text \<open>One gesture of the user, one render or one effect.  A handler that throws leaves the state as it was.\<close>

inductive editor_step :: "clock \<Rightarrow> override_editor \<Rightarrow> override_editor \<Rightarrow> bool" for clock where
  render: "editor_step clock s (editor_render clock s)"
| selected_effect: "editor_step clock s (keepSelected s)"
| opened: "openEditor clock v s = Inr s' \<Longrightarrow> editor_step clock s s'"
| update: "offered_patch patch \<Longrightarrow> editor_step clock s (updateOperation clock i patch s)"
| formatted: "p \<in> set (ed_operations s) \<Longrightarrow> editor_step clock s (format_value clock p s)"
| added: "editor_step clock s (addOperation clock s)"
| duplicated: "duplicateOperation clock eager i s = Inr s' \<Longrightarrow> editor_step clock s s'"
| removed: "editor_step clock s (removeOperation clock i s)"
| condition_added: "editor_step clock s (addCondition clock i s)"
| condition_updated: "offered_condition_patch cp \<Longrightarrow> editor_step clock s (updateCondition i j cp s)"
| condition_removed: "editor_step clock s (removeCondition i j s)"
| condition_toggled: "editor_step clock s (toggle_condition j b s)"
| conditions_expanded: "editor_step clock s (expandAllConditions s)"
| conditions_collapsed: "editor_step clock s (collapseAllConditions s)"
| error_edited: "editor_step clock s (updateReturnErrorDraft i f s)"
| prune_edited: "editor_step clock s
    (updatePruneObjectsDraft i (\<lambda>d n. (set_prune_fields simple typeText logic recursive d, n)) s)"
| prune_rule_added: "editor_step clock s (addPruneRule clock i s)"
| prune_rule_updated: "offered_condition_patch cp \<Longrightarrow> editor_step clock s (updatePruneRule i j cp s)"
| prune_rule_removed: "editor_step clock s (removePruneRule i j s)"
| drag_started: "editor_step clock s (handleDragStart i s)"
| dragged_over: "editor_step clock s (handleDragOver y t h i s)"
| dropped: "editor_step clock s (handleDrop carried i s)"
| drag_ended: "editor_step clock s (resetDragState s)"
| to_json: "editor_step clock s (switchToJsonMode s)"
| to_visual: "switchToVisualMode clock s = Inr s' \<Longrightarrow> editor_step clock s s'"
| template_chosen: "editor_step clock s (s\<lparr>ed_templateKey := or_text k ''operations_default''\<rparr>)"
| template_filled: "fillTemplate clock m s = Inr s' \<Longrightarrow> editor_step clock s s'"
| reset: "editor_step clock s (resetEditorState clock s)"
| json_typed: "editor_step clock s (handleJsonChange t s)"
| legacy_typed: "editor_step clock s (s\<lparr>ed_legacyValue := t\<rparr>)"
| searched: "editor_step clock s (s\<lparr>ed_operationSearch := t\<rparr>)"
| rule_clicked: "p \<in> set (ed_operations s) \<Longrightarrow> editor_step clock s (s\<lparr>ed_selected := op_id p\<rparr>)"
| saved: "editor_step clock s (handleSave s)"

end
