(* ===== verification/Override_Facts.thy ===== *)
theory Override_Facts
  imports Override_Editor Status_Codes "HOL-Library.Multiset"
begin

text \<open>
  Facts about the parameter override editor: identifiers are never given twice, the rules keep their shape under every
  gesture, a moved rule lands beside its target.
\<close>

section \<open>Supplies of identifiers\<close>

text \<open>Identifiers \<open>xs\<close> that are different and were made while the counter went from \<open>n\<close> to \<open>m\<close>; identifiers \<open>ys\<close> that
  are taken from \<open>xs\<close> or made while the counter went from \<open>n\<close> to \<open>m\<close>.\<close>

definition ids_between :: "(nat \<Rightarrow> 'i) \<Rightarrow> nat \<Rightarrow> nat \<Rightarrow> 'i list \<Rightarrow> bool" where
  "ids_between new_id n m xs \<longleftrightarrow> n \<le> m \<and> distinct xs \<and> set xs \<subseteq> new_id ` {n..<m}"

definition renews :: "(nat \<Rightarrow> 'i) \<Rightarrow> 'i list \<Rightarrow> nat \<Rightarrow> 'i list \<Rightarrow> nat \<Rightarrow> bool" where
  "renews new_id xs n ys m \<longleftrightarrow> n \<le> m \<and> distinct ys \<and> set ys \<subseteq> set xs \<union> new_id ` {n..<m}"

lemma ids_between_renews: "ids_between new_id n m ys \<Longrightarrow> renews new_id xs n ys m"
  by (auto simp: ids_between_def renews_def)

lemma renews_subset: "distinct ys \<Longrightarrow> set ys \<subseteq> set xs \<Longrightarrow> renews new_id xs n ys n"
  by (auto simp: renews_def)

lemma between_Nil [simp]: "ids_between new_id n n []"
  by (simp add: ids_between_def)

lemma between_one [simp]: "ids_between new_id n (Suc n) [new_id n]"
  by (simp add: ids_between_def)

lemma between_le: "ids_between new_id n m xs \<Longrightarrow> n \<le> m"
  by (simp add: ids_between_def)

text \<open>A counter whose values give different identifiers.\<close>

locale id_supply =
  fixes new_id :: "nat \<Rightarrow> 'i"
  assumes new_id_inj: "new_id a = new_id b \<Longrightarrow> a = b"
begin

lemma between_append:
  assumes "ids_between new_id n m xs" "ids_between new_id m k ys"
  shows "ids_between new_id n k (xs @ ys)"
proof -
  have "set xs \<inter> set ys = {}"
    using assms new_id_inj unfolding ids_between_def by fastforce
  then show ?thesis using assms unfolding ids_between_def by fastforce
qed

lemma between_Cons:
  assumes "ids_between new_id (Suc n) k ys"
  shows "ids_between new_id n k (new_id n # ys)"
  using between_append [OF between_one assms] by simp

lemma between_map_ids:
  assumes "\<And>x n. ids_between new_id n (snd (f x n)) (ids (fst (f x n)))"
  shows "ids_between new_id n (snd (map_ids f xs n)) (concat (map ids (fst (map_ids f xs n))))"
proof (induction xs arbitrary: n)
  case (Cons x xs)
  from between_append [OF assms [of n x] Cons.IH [of "snd (f x n)"]] show ?case by (simp add: case_prod_beta Let_def)
qed simp

lemma between_map_ids_exn:
  assumes "\<And>x n y m. f x n = Inr (y, m) \<Longrightarrow> ids_between new_id n m (ids y)"
  shows "map_ids_exn f xs n = Inr (ys, m) \<Longrightarrow> ids_between new_id n m (concat (map ids ys))"
proof (induction xs arbitrary: n ys)
  case (Cons x xs)
  then obtain y k zs where "f x n = Inr (y, k)" "map_ids_exn f xs k = Inr (zs, m)" "ys = y # zs" by auto
  with between_append [OF assms Cons.IH] show ?case by simp
qed simp

text \<open>A part of the identifiers in use is replaced by others, old or new.\<close>

lemma known_replace:
  assumes "ids_between new_id 0 n (a @ xs @ b)" "renews new_id xs n ys m"
  shows "ids_between new_id 0 m (a @ ys @ b)"
proof -
  have fresh: "new_id ` {n..<m} \<inter> new_id ` {0..<n} = {}" using new_id_inj by fastforce
  from assms have a: "distinct (a @ xs @ b)" "set (a @ xs @ b) \<subseteq> new_id ` {0..<n}"
    and y: "n \<le> m" "distinct ys" "set ys \<subseteq> set xs \<union> new_id ` {n..<m}"
    unfolding ids_between_def renews_def by blast+
  have disj: "(set a \<union> set b) \<inter> set xs = {}" using a(1) by auto
  have "(set a \<union> set b) \<inter> new_id ` {n..<m} = {}" using a(2) fresh by auto
  with disj y(3) have "(set a \<union> set b) \<inter> set ys = {}" by blast
  then have "distinct (a @ ys @ b)" using a(1) y(2) by auto
  moreover have "set (a @ ys @ b) \<subseteq> set (a @ xs @ b) \<union> new_id ` {n..<m}" using y(3) by auto
  then have "set (a @ ys @ b) \<subseteq> new_id ` {0..<n} \<union> new_id ` {n..<m}" using a(2) by (meson Un_mono order_refl order_trans)
  moreover have "new_id ` {0..<n} \<union> new_id ` {n..<m} = new_id ` {0..<m}"
    using y(1) by (metis image_Un ivl_disj_un_two(3) zero_le)
  ultimately show ?thesis unfolding ids_between_def by simp
qed

lemma known_all: "ids_between new_id 0 n xs \<Longrightarrow> renews new_id xs n ys m \<Longrightarrow> ids_between new_id 0 m ys"
  using known_replace [of n "[]" xs "[]" ys m] by simp

lemma known_map_ids:
  assumes "\<And>x n. ids_between new_id 0 n (ids x) \<Longrightarrow> renews new_id (ids x) n (ids (fst (f x n))) (snd (f x n))"
  shows "ids_between new_id 0 n (a @ concat (map ids xs)) \<Longrightarrow>
    ids_between new_id 0 (snd (map_ids f xs n)) (a @ concat (map ids (fst (map_ids f xs n))))"
proof (induction xs arbitrary: a n)
  case (Cons x xs)
  have "ids_between new_id 0 n (ids x)" using Cons.prems by (auto simp: ids_between_def)
  then have "renews new_id (ids x) n (ids (fst (f x n))) (snd (f x n))" by (rule assms)
  then have "ids_between new_id 0 (snd (f x n)) (a @ ids (fst (f x n)) @ concat (map ids xs))"
    using known_replace [of n a "ids x" "concat (map ids xs)"] Cons.prems by simp
  then have "ids_between new_id 0 (snd (f x n)) ((a @ ids (fst (f x n))) @ concat (map ids xs))" by simp
  from Cons.IH [OF this] show ?case by (simp only: map_ids.simps Let_def case_prod_beta fst_conv snd_conv list.map concat.simps append_assoc)
qed simp

end

text \<open>The identifiers of the editor end with the counter.\<close>

lemma show_pos_number: "list_all is_digit (show_pos (int n))" "parse_int (show_pos (int n)) = int n"
  using show_pos_digits [of "int n"] by (auto simp: isNumber_def)

lemma local_id_inj:
  assumes "nextLocalId clock a = nextLocalId clock b"
  shows "a = b"
proof -
  have last_digits: "takeWhile is_digit (rev (nextLocalId clock n)) = rev (show_pos (int n))" for n
  proof -
    have "takeWhile is_digit (rev (show_pos (int n)) @ CHR ''_'' # t) = rev (show_pos (int n))" for t
      using show_pos_number(1) [of n]
      by (subst takeWhile_append2) (auto simp: list_all_iff is_digit_def ordc_def)
    from this [of "rev (''po_'' @ show_pos (int (clock n)))"] show ?thesis by (simp only: nextLocalId_def) simp
  qed
  have "show_pos (int a) = show_pos (int b)" using last_digits [of a] last_digits [of b] assms by (metis rev_rev_ident)
  then show ?thesis using show_pos_number(2) [of a] show_pos_number(2) [of b] by (metis of_nat_eq_iff)
qed

interpretation local_ids: id_supply "nextLocalId clock" for clock
  by unfold_locales (rule local_id_inj)

section \<open>The identifiers of the rules\<close>

definition draft_rules :: "param_operation \<Rightarrow> param_condition list" where
  "draft_rules p = (case op_prune_draft p of None \<Rightarrow> [] | Some d \<Rightarrow> pd_rules d)"

definition ids_of :: "param_operation \<Rightarrow> string list" where
  "ids_of p = op_id p # map cn_id (draft_rules p) @ map cn_id (op_conditions p)"

definition all_ids :: "param_operation list \<Rightarrow> string list" where
  "all_ids ops = concat (map ids_of ops)"

abbreviation ids_made :: "clock \<Rightarrow> nat \<Rightarrow> nat \<Rightarrow> string list \<Rightarrow> bool" where
  "ids_made clock \<equiv> ids_between (nextLocalId clock)"

lemma singletons [simp]: "concat (map (\<lambda>x. [f x]) xs) = map f xs"
  by (induction xs) auto

lemma condition_of_ids: "ids_made clock n (snd (condition_of clock v n)) [cn_id (fst (condition_of clock v n))]"
  by (simp add: condition_of_def)

lemma conditions_ids:
  "ids_made clock n (snd (map_ids (condition_of clock) vs n)) (map cn_id (fst (map_ids (condition_of clock) vs n)))"
  using local_ids.between_map_ids [of clock "condition_of clock" "\<lambda>c. [cn_id c]" n vs] condition_of_ids by simp

lemma entry_rules_ids: "ids_made clock n (snd (entry_rules clock v n)) (map cn_id (fst (entry_rules clock v n)))"
proof (cases v)
  case (JObj kvs)
  let ?f = "\<lambda>(path, x). condition_of clock (JObj [(''path'', JStr path), (''mode'', JStr ''full''), (''value'', x)])"
  have "ids_made clock n (snd (?f kv n)) [cn_id (fst (?f kv n))]" for kv n
    by (cases kv) (simp add: condition_of_ids)
  from local_ids.between_map_ids [of clock ?f "\<lambda>c. [cn_id c]", OF this] JObj show ?thesis
    by (simp add: entry_rules_def)
qed (simp_all add: entry_rules_def)

lemma prune_rules_ids: "ids_made clock n (snd (prune_rules clock v n)) (map cn_id (fst (prune_rules clock v n)))"
proof -
  let ?m = "snd (entry_rules clock (jget v ''where'') n)"
  let ?more = "case jget v ''conditions'' of JArr vs \<Rightarrow> map_ids (condition_of clock) (filter is_js_object vs) ?m
      | u \<Rightarrow> entry_rules clock u ?m"
  have "ids_made clock ?m (snd ?more) (map cn_id (fst ?more))"
    by (cases "jget v ''conditions''") (simp_all only: jsval.case conditions_ids entry_rules_ids)
  from local_ids.between_append [OF entry_rules_ids this] show ?thesis
    unfolding prune_rules_def Let_def case_prod_beta by simp
qed

lemma prune_draft_ids:
  "ids_made clock n (snd (parsePruneObjectsDraft clock t n)) (map cn_id (pd_rules (fst (parsePruneObjectsDraft clock t n))))"
proof (cases "js_trim t = []")
  case True
  then show ?thesis by (simp add: parsePruneObjectsDraft_def prune_defaults_def)
next
  case False
  note ids = prune_rules_ids [of clock n]
  show ?thesis
  proof (cases "json_read (js_trim t)")
    case (Some v)
    with False ids [of v] show ?thesis
      by (cases v) (simp_all add: parsePruneObjectsDraft_def prune_defaults_def Let_def case_prod_beta)
  qed (use False in \<open>simp add: parsePruneObjectsDraft_def prune_defaults_def\<close>)
qed

lemma normalize_conditions_ids:
  assumes "map_ids_exn (normalizeCondition clock) vs n = Inr (cs, m)"
  shows "ids_made clock n m (map cn_id cs)"
proof -
  have "ids_made clock n m [cn_id y]" if "normalizeCondition clock x n = Inr (y, m)" for x n y m
    using that condition_of_ids [of clock n x] by (auto simp: normalizeCondition_def split: if_splits)
  from local_ids.between_map_ids_exn [of "normalizeCondition clock" clock "\<lambda>c. [cn_id c]", OF this assms] show ?thesis by simp
qed

lemma normalized_operation:
  "normalizeOperation clock v n = Inr (p, m) \<longleftrightarrow>
     v \<noteq> JNull \<and> (\<exists>cs. read_conditions clock (jget v ''conditions'') (snd (read_draft clock v (Suc n))) = Inr (cs, m) \<and>
       p = read_rule (nextLocalId clock n) v (fst (read_draft clock v (Suc n))) cs)"
  by (auto simp: normalizeOperation_def case_prod_beta)

lemma draft_rules_read [simp]: "draft_rules (read_rule i v d cs) = (case d of None \<Rightarrow> [] | Some x \<Rightarrow> pd_rules x)"
  by (simp add: draft_rules_def read_rule_def)

lemma read_draft_ids:
  "ids_made clock n (snd (read_draft clock v n)) (map cn_id (case fst (read_draft clock v n) of None \<Rightarrow> [] | Some x \<Rightarrow> pd_rules x))"
  using prune_draft_ids [of clock n] by (simp add: read_draft_def case_prod_beta)

lemma read_conditions_ids: "read_conditions clock v n = Inr (cs, m) \<Longrightarrow> ids_made clock n m (map cn_id cs)"
  using normalize_conditions_ids by (auto simp: read_conditions_def split: jsval.splits)

lemma normalize_operation_ids:
  assumes "normalizeOperation clock v n = Inr (p, m)"
  shows "ids_made clock n m (ids_of p)"
proof -
  let ?d = "read_draft clock v (Suc n)"
  from assms obtain cs where cs: "read_conditions clock (jget v ''conditions'') (snd ?d) = Inr (cs, m)"
    and p: "p = read_rule (nextLocalId clock n) v (fst ?d) cs" by (auto simp: normalized_operation)
  have "ids_of p = nextLocalId clock n # map cn_id (case fst ?d of None \<Rightarrow> [] | Some x \<Rightarrow> pd_rules x) @ map cn_id cs"
    unfolding ids_of_def p by (simp add: read_rule_def draft_rules_def)
  with local_ids.between_Cons [OF local_ids.between_append [OF read_draft_ids read_conditions_ids [OF cs]]]
  show ?thesis by simp
qed

section \<open>The shape of the rules\<close>

definition condition_ok :: "param_condition \<Rightarrow> bool" where
  "condition_ok c \<longleftrightarrow> cn_mode c \<in> set CONDITION_MODE_VALUES"

text \<open>A rule has one of the modes; exactly the rules of mode \<open>prune_objects\<close> have a draft; its logic is one of the two.\<close>

definition rule_ok :: "param_operation \<Rightarrow> bool" where
  "rule_ok p \<longleftrightarrow> op_mode p \<in> set OPERATION_MODE_VALUES \<and> (op_prune_draft p \<noteq> None \<longleftrightarrow> op_mode p = ''prune_objects'') \<and>
     list_all condition_ok (op_conditions p) \<and> list_all condition_ok (draft_rules p) \<and> (op_logic p = ''OR'' \<or> op_logic p = ''AND'')"

lemma offered_or_member: "d \<in> set vs \<Longrightarrow> offered_or vs v d \<in> set vs"
  by (auto simp: offered_or_def split: jsval.splits)

lemma offered_modes [simp]:
  "''set'' \<in> set OPERATION_MODE_VALUES" "''prune_objects'' \<in> set OPERATION_MODE_VALUES"
  "''full'' \<in> set CONDITION_MODE_VALUES" "[] \<notin> set OPERATION_MODE_VALUES" "[] \<notin> set CONDITION_MODE_VALUES"
  by (simp_all add: OPERATION_MODE_VALUES_def OPERATION_MODE_OPTIONS_def CONDITION_MODE_VALUES_def CONDITION_MODE_OPTIONS_def)

lemma condition_of_ok: "condition_ok (fst (condition_of clock v n))"
  by (simp add: condition_ok_def condition_of_def offered_or_member)

lemma map_ids_all:
  assumes "\<And>x n. P (fst (f x n))"
  shows "list_all P (fst (map_ids f xs n))"
  using assms by (induction xs arbitrary: n) (auto simp: Let_def case_prod_beta)

lemma map_ids_exn_all:
  assumes "\<And>x n y m. f x n = Inr (y, m) \<Longrightarrow> P y"
  shows "map_ids_exn f xs n = Inr (ys, m) \<Longrightarrow> list_all P ys"
  using assms by (induction xs arbitrary: n ys) auto

lemma entry_rules_ok: "list_all condition_ok (fst (entry_rules clock v n))"
  by (cases v) (auto simp: entry_rules_def condition_of_ok intro!: map_ids_all)

lemma prune_rules_ok: "list_all condition_ok (fst (prune_rules clock v n))"
  unfolding prune_rules_def Let_def case_prod_beta
  by (cases "jget v ''conditions''") (simp_all add: entry_rules_ok map_ids_all condition_of_ok)

lemma prune_draft_ok: "list_all condition_ok (pd_rules (fst (parsePruneObjectsDraft clock t n)))"
proof (cases "js_trim t = []")
  case True
  then show ?thesis by (simp add: parsePruneObjectsDraft_def prune_defaults_def)
next
  case False
  show ?thesis
  proof (cases "json_read (js_trim t)")
    case (Some v)
    with False show ?thesis
      by (cases v) (simp_all add: parsePruneObjectsDraft_def prune_defaults_def Let_def case_prod_beta prune_rules_ok)
  qed (use False in \<open>simp add: parsePruneObjectsDraft_def prune_defaults_def\<close>)
qed

lemma normalize_condition_ok: "normalizeCondition clock v n = Inr (c, m) \<Longrightarrow> condition_ok c"
  using condition_of_ok [of clock v n] by (auto simp: normalizeCondition_def split: if_splits)

lemma read_conditions_ok: "read_conditions clock v n = Inr (cs, m) \<Longrightarrow> list_all condition_ok cs"
  using map_ids_exn_all [of "normalizeCondition clock" condition_ok, OF normalize_condition_ok]
  by (auto simp: read_conditions_def split: jsval.splits)

lemma read_draft_ok: "list_all condition_ok (case fst (read_draft clock v n) of None \<Rightarrow> [] | Some x \<Rightarrow> pd_rules x)"
  by (simp add: read_draft_def case_prod_beta prune_draft_ok)

lemma read_draft_mode:
  "fst (read_draft clock v n) \<noteq> None \<longleftrightarrow> offered_or OPERATION_MODE_VALUES (jget v ''mode'') ''set'' = ''prune_objects''"
  by (auto simp: read_draft_def case_prod_beta offered_or_def split: jsval.splits if_splits)

lemma logic_of_or: "logic_of w d v = d \<or> logic_of w d v = w"
  by (simp add: logic_of_def)

lemma normalize_operation_ok:
  assumes "normalizeOperation clock v n = Inr (p, m)"
  shows "rule_ok p"
proof -
  let ?d = "read_draft clock v (Suc n)"
  from assms obtain cs where cs: "list_all condition_ok cs" and p: "p = read_rule (nextLocalId clock n) v (fst ?d) cs"
    by (metis normalized_operation read_conditions_ok)
  have "list_all condition_ok (draft_rules p)" unfolding p draft_rules_read by (rule read_draft_ok)
  moreover have "op_mode p \<in> set OPERATION_MODE_VALUES" by (simp add: p read_rule_def offered_or_member)
  moreover have "op_prune_draft p \<noteq> None \<longleftrightarrow> op_mode p = ''prune_objects''"
    using read_draft_mode [of clock v "Suc n"] by (simp add: p read_rule_def)
  moreover have "op_logic p = ''OR'' \<or> op_logic p = ''AND''" by (simp add: p read_rule_def logic_of_or)
  ultimately show ?thesis using cs by (simp add: rule_ok_def p read_rule_def)
qed

lemma default_operation [simp]:
  "rule_ok (fst (createDefaultOperation clock n))" "ids_of (fst (createDefaultOperation clock n)) = [nextLocalId clock n]"
  "snd (createDefaultOperation clock n) = Suc n"
  by (simp_all add: createDefaultOperation_def rule_ok_def ids_of_def draft_rules_def)

section \<open>The rules of the editor\<close>

definition ops_ok :: "clock \<Rightarrow> nat \<Rightarrow> param_operation list \<Rightarrow> bool" where
  "ops_ok clock n ops \<longleftrightarrow> ops \<noteq> [] \<and> ids_made clock 0 n (all_ids ops) \<and> list_all rule_ok ops"

definition editor_ok :: "clock \<Rightarrow> override_editor \<Rightarrow> bool" where
  "editor_ok clock s \<longleftrightarrow> ops_ok clock (ed_seed s) (ed_operations s)"

lemma all_ids_simps [simp]:
  "all_ids [] = []" "all_ids (p # ps) = ids_of p @ all_ids ps" "all_ids (ps @ qs) = all_ids ps @ all_ids qs"
  by (simp_all add: all_ids_def)

lemma ids_of_op_id [simp]: "op_id p \<in> set (ids_of p)"
  by (simp add: ids_of_def)

lemma ids_later: "ids_made clock n m xs \<Longrightarrow> ids_made clock 0 m xs"
  by (force simp: ids_between_def)

lemma ids_earlier: "ids_made clock 0 n xs \<Longrightarrow> n \<le> m \<Longrightarrow> ids_made clock 0 m xs"
  by (force simp: ids_between_def)

lemma ops_ok_later: "ops_ok clock n ops \<Longrightarrow> n \<le> m \<Longrightarrow> ops_ok clock m ops"
  by (auto simp: ops_ok_def intro: ids_earlier)

lemma ops_ok_fresh: "\<lbrakk> ids_made clock n m (all_ids ops); ops \<noteq> []; list_all rule_ok ops \<rbrakk> \<Longrightarrow> ops_ok clock m ops"
  by (auto simp: ops_ok_def intro: ids_later)

lemma ops_ok_default: "ops_ok clock (Suc n) [fst (createDefaultOperation clock n)]"
  by (rule ops_ok_fresh [of clock n]) simp_all

lemma read_operations_ids: "map_ids_exn (normalizeOperation clock) vs n = Inr (ops, m) \<Longrightarrow> ids_made clock n m (all_ids ops)"
  unfolding all_ids_def by (rule local_ids.between_map_ids_exn [OF normalize_operation_ids])

lemma read_operations_ok: "map_ids_exn (normalizeOperation clock) vs n = Inr (ops, m) \<Longrightarrow> list_all rule_ok ops"
  by (rule map_ids_exn_all [OF normalize_operation_ok])

lemma map_ids_exn_Nil: "map_ids_exn f xs n = Inr (ys, m) \<Longrightarrow> ys = [] \<longleftrightarrow> xs = []"
  by (cases xs) auto

lemma operations_of_ok:
  assumes "operations_of clock vs n = Inr (ops, m)"
  shows "ops_ok clock m ops"
proof (cases "vs = []")
  case True
  with assms show ?thesis by (auto simp: operations_of_def case_prod_beta ops_ok_default)
next
  case False
  with assms have "map_ids_exn (normalizeOperation clock) vs n = Inr (ops, m)" by (simp add: operations_of_def)
  with False show ?thesis
    by (intro ops_ok_fresh [OF read_operations_ids]) (auto simp: map_ids_exn_Nil read_operations_ok)
qed

section \<open>Every gesture keeps the rules in shape\<close>

text \<open>A change of one rule: its identifiers are old or new, and its shape is kept.\<close>

definition keeps_rule :: "clock \<Rightarrow> (param_operation \<Rightarrow> nat \<Rightarrow> param_operation \<times> nat) \<Rightarrow> bool" where
  "keeps_rule clock f \<longleftrightarrow>
     (\<forall>p n. ids_made clock 0 n (ids_of p) \<longrightarrow> renews (nextLocalId clock) (ids_of p) n (ids_of (fst (f p n))) (snd (f p n))) \<and>
     (\<forall>p n. rule_ok p \<longrightarrow> rule_ok (fst (f p n)))"

lemma map_ids_shape: "\<lbrakk> \<And>p n. rule_ok p \<Longrightarrow> rule_ok (fst (f p n)); list_all rule_ok ps \<rbrakk> \<Longrightarrow> list_all rule_ok (fst (map_ids f ps n))"
  by (induction ps arbitrary: n) (auto simp: Let_def case_prod_beta)

lemma map_ids_Nil: "fst (map_ids f xs n) = [] \<longleftrightarrow> xs = []"
  by (cases xs) (auto simp: Let_def case_prod_beta)

lemma map_operation_ids_ok:
  assumes "editor_ok clock s" "keeps_rule clock f"
  shows "editor_ok clock (map_operation_ids i f s)"
proof -
  let ?f = "\<lambda>p n. if op_id p = i then f p n else (p, n)"
  let ?r = "map_ids ?f (ed_operations s) (ed_seed s)"
  have s: "ed_operations s \<noteq> []" "ids_made clock 0 (ed_seed s) ([] @ all_ids (ed_operations s))" "list_all rule_ok (ed_operations s)"
    using assms(1) by (auto simp: editor_ok_def ops_ok_def)
  have renew: "renews (nextLocalId clock) (ids_of p) n (ids_of (fst (?f p n))) (snd (?f p n))"
    if "ids_made clock 0 n (ids_of p)" for p n
    using that assms(2) by (auto simp: keeps_rule_def ids_between_def intro: renews_subset)
  have "ids_made clock 0 (snd ?r) (all_ids (fst ?r))"
    using local_ids.known_map_ids [of clock ids_of ?f, OF renew s(2) [unfolded all_ids_def]] by (simp add: all_ids_def)
  moreover have "list_all rule_ok (fst ?r)" using assms(2) s(3) by (intro map_ids_shape) (auto simp: keeps_rule_def)
  ultimately show ?thesis using s(1)
    by (simp add: editor_ok_def map_operation_ids_def case_prod_beta Let_def ops_ok_def map_ids_Nil)
qed

lemma map_operation_ids_pure: "map_operation i f s = map_operation_ids i (\<lambda>p n. (f p, n)) s"
proof -
  have "map_ids (\<lambda>p n. if op_id p = i then (f p, n) else (p, n)) ps n = (map (\<lambda>p. if op_id p = i then f p else p) ps, n)" for ps n
    by (induction ps) auto
  then show ?thesis by (simp add: map_operation_def map_operation_ids_def)
qed

lemma keeps_rule_pure:
  assumes "\<And>p. distinct (ids_of p) \<Longrightarrow> distinct (ids_of (f p)) \<and> set (ids_of (f p)) \<subseteq> set (ids_of p)" "\<And>p. rule_ok p \<Longrightarrow> rule_ok (f p)"
  shows "keeps_rule clock (\<lambda>p n. (f p, n))"
  using assms by (auto simp: keeps_rule_def ids_between_def renews_def)

lemma map_operation_ok:
  assumes "editor_ok clock s"
    "\<And>p. distinct (ids_of p) \<Longrightarrow> distinct (ids_of (f p)) \<and> set (ids_of (f p)) \<subseteq> set (ids_of p)" "\<And>p. rule_ok p \<Longrightarrow> rule_ok (f p)"
  shows "editor_ok clock (map_operation i f s)"
  unfolding map_operation_ids_pure by (rule map_operation_ids_ok [OF assms(1) keeps_rule_pure]) (use assms in auto)

lemma patched_fields [simp]:
  "op_id (patched_operation patch p) = op_id p" "op_conditions (patched_operation patch p) = op_conditions p"
  "op_prune_draft (patched_operation patch p) = op_prune_draft p" "draft_rules (patched_operation patch p) = draft_rules p"
  "op_mode (patched_operation patch p) = coalesce (pt_mode patch) (op_mode p)"
  "op_logic (patched_operation patch p) = coalesce (pt_logic patch) (op_logic p)"
  by (simp_all add: patched_operation_def draft_rules_def)

lemma patched_offered:
  "offered_patch patch \<Longrightarrow> rule_ok p \<Longrightarrow>
     coalesce (pt_mode patch) (op_mode p) \<in> set OPERATION_MODE_VALUES \<and>
     (coalesce (pt_logic patch) (op_logic p) = ''OR'' \<or> coalesce (pt_logic patch) (op_logic p) = ''AND'')"
  by (auto simp: offered_patch_def rule_ok_def split: option.splits)

lemma draft_rules_set [simp]:
  "draft_rules (p\<lparr>op_prune_draft := d\<rparr>) = (case d of None \<Rightarrow> [] | Some x \<Rightarrow> pd_rules x)"
  "draft_rules (p\<lparr>op_conditions := cs\<rparr>) = draft_rules p" "draft_rules (p\<lparr>op_value_text := t\<rparr>) = draft_rules p"
  by (simp_all add: draft_rules_def)

text \<open>The identifiers of a rule whose draft is replaced.\<close>

lemma replaced_draft_ids:
  assumes "ids_made clock 0 n (ids_of p)" "renews (nextLocalId clock) (map cn_id (draft_rules p)) n (map cn_id rules) m"
  shows "renews (nextLocalId clock) (ids_of p) n (op_id p # map cn_id rules @ map cn_id (op_conditions p)) m"
proof -
  have "ids_made clock 0 m ([op_id p] @ map cn_id rules @ map cn_id (op_conditions p))"
    using local_ids.known_replace [of clock n "[op_id p]" "map cn_id (draft_rules p)" "map cn_id (op_conditions p)"] assms
    by (simp add: ids_of_def)
  then show ?thesis using assms(2) by (auto simp: ids_between_def renews_def ids_of_def)
qed

lemma patch_operation_keeps: "offered_patch patch \<Longrightarrow> keeps_rule clock (patch_operation clock patch)"
proof -
  assume offered: "offered_patch patch"
  have "renews (nextLocalId clock) (ids_of p) n (ids_of (fst (patch_operation clock patch p n))) (snd (patch_operation clock patch p n))"
    if known: "ids_made clock 0 n (ids_of p)" for p n
  proof -
    let ?d = "parsePruneObjectsDraft clock (op_value_text (patched_operation patch p)) n"
    have same: "renews (nextLocalId clock) (ids_of p) n (ids_of p) n"
      using known by (auto simp: ids_between_def intro: renews_subset)
    have none: "renews (nextLocalId clock) (ids_of p) n (op_id p # map cn_id (op_conditions p)) n"
      using known by (auto simp: ids_between_def ids_of_def intro: renews_subset)
    have new: "renews (nextLocalId clock) (ids_of p) n (op_id p # map cn_id (pd_rules (fst ?d)) @ map cn_id (op_conditions p)) (snd ?d)"
      by (rule replaced_draft_ids [OF known ids_between_renews [OF prune_draft_ids]])
    show ?thesis using same none new by (auto simp: patch_operation_def Let_def case_prod_beta ids_of_def)
  qed
  moreover have "rule_ok (fst (patch_operation clock patch p n))" if "rule_ok p" for p n
    using patched_offered [OF offered that] that prune_draft_ok
    by (auto simp: patch_operation_def Let_def case_prod_beta rule_ok_def)
  ultimately show ?thesis by (simp add: keeps_rule_def)
qed

lemma update_rule_ok: "editor_ok clock s \<Longrightarrow> offered_patch patch \<Longrightarrow> editor_ok clock (updateOperation clock i patch s)"
  unfolding updateOperation_def by (intro map_operation_ids_ok patch_operation_keeps)

text \<open>Conditions.\<close>

lemma patched_condition_fields [simp]:
  "cn_id (patched_condition patch c) = cn_id c"
  "cn_mode (patched_condition patch c) = coalesce (cp_mode patch) (cn_mode c)"
  by (simp_all add: patched_condition_def)

lemma patch_conditions_ids [simp]: "map cn_id (patch_conditions j patch cs) = map cn_id cs"
  by (simp add: patch_conditions_def comp_def)

lemma patch_conditions_ok:
  "offered_condition_patch patch \<Longrightarrow> list_all condition_ok cs \<Longrightarrow> list_all condition_ok (patch_conditions j patch cs)"
  by (auto simp: patch_conditions_def list_all_iff condition_ok_def offered_condition_patch_def split: option.splits)

lemma set_conditions_ok:
  "rule_ok p \<Longrightarrow> list_all condition_ok cs \<Longrightarrow> rule_ok (p\<lparr>op_conditions := cs\<rparr>)"
  by (simp add: rule_ok_def)

lemma update_condition_ok: "editor_ok clock s \<Longrightarrow> offered_condition_patch patch \<Longrightarrow> editor_ok clock (updateCondition i j patch s)"
  unfolding updateCondition_def
  by (rule map_operation_ok) (auto simp: ids_of_def rule_ok_def patch_conditions_ok simp del: set_map)

lemma filter_ids: "distinct (map cn_id cs) \<Longrightarrow> distinct (map cn_id (filter P cs))" "set (map cn_id (filter P cs)) \<subseteq> set (map cn_id cs)"
  by (auto simp: distinct_map inj_on_def)

lemma filter_conditions_ok: "list_all condition_ok cs \<Longrightarrow> list_all condition_ok (filter P cs)"
  by (auto simp: list_all_iff)

lemma remove_condition_ok: "editor_ok clock s \<Longrightarrow> editor_ok clock (removeCondition i j s)"
  unfolding removeCondition_def
  by (rule map_operation_ok) (auto simp: ids_of_def rule_ok_def filter_conditions_ok filter_ids)

lemma default_condition [simp]:
  "cn_id (fst (createDefaultCondition clock n)) = nextLocalId clock n" "condition_ok (fst (createDefaultCondition clock n))"
  "snd (createDefaultCondition clock n) = Suc n"
  using condition_of_ok [of clock "JObj []" n] by (simp_all add: createDefaultCondition_def condition_of_def)

text \<open>An added condition has the identifier the counter gave; identifiers of different rules do not meet, so the rule it
  is added to is the only one.\<close>

lemma known_snoc: "ids_made clock 0 n (a @ b) \<Longrightarrow> ids_made clock 0 (Suc n) (a @ [nextLocalId clock n] @ b)"
  using local_ids.known_replace [of clock n a "[]" b "[nextLocalId clock n]" "Suc n"] ids_between_renews [OF between_one]
  by fastforce

lemma op_ids_distinct: "ids_made clock 0 n (all_ids ops) \<Longrightarrow> distinct (map op_id ops)"
proof (induction ops)
  case (Cons p ops)
  have "op_id q \<in> set (all_ids ops)" if "q \<in> set ops" for q
    using that ids_of_op_id [of q] unfolding all_ids_def by (simp del: ids_of_op_id) blast
  with Cons show ?case by (fastforce simp: ids_between_def ids_of_def)
qed simp

lemma map_operation_split:
  "distinct (map op_id ops) \<Longrightarrow> p \<in> set ops \<Longrightarrow>
     \<exists>a b. ops = a @ [p] @ b \<and> map (\<lambda>q. if op_id q = op_id p then f q else q) ops = a @ [f p] @ b"
proof -
  assume d: "distinct (map op_id ops)" and "p \<in> set ops"
  then obtain a b where ops: "ops = a @ [p] @ b" by (metis append_Cons append_Nil split_list)
  have "map (\<lambda>q. if op_id q = op_id p then f q else q) a = a" "map (\<lambda>q. if op_id q = op_id p then f q else q) b = b"
    using d unfolding ops by (auto intro!: map_idI) (metis imageI)+
  with ops show ?thesis by auto
qed

lemma add_condition_ok:
  assumes "editor_ok clock s"
  shows "editor_ok clock (addCondition clock i s)"
proof -
  let ?c = "fst (createDefaultCondition clock (ed_seed s))" and ?f = "\<lambda>p. p\<lparr>op_conditions := op_conditions p @ [fst (createDefaultCondition clock (ed_seed s))]\<rparr>"
  let ?ops = "map (\<lambda>q. if op_id q = i then ?f q else q) (ed_operations s)"
  have s: "ed_operations s \<noteq> []" "ids_made clock 0 (ed_seed s) (all_ids (ed_operations s))" "list_all rule_ok (ed_operations s)"
    using assms by (auto simp: editor_ok_def ops_ok_def)
  have "ids_made clock 0 (Suc (ed_seed s)) (all_ids ?ops)"
  proof (cases "\<exists>p \<in> set (ed_operations s). op_id p = i")
    case True
    then obtain p where p: "p \<in> set (ed_operations s)" "i = op_id p" by auto
    obtain a b where ab: "ed_operations s = a @ [p] @ b" "?ops = a @ [?f p] @ b"
      using map_operation_split [OF op_ids_distinct [OF s(2)] p(1), of ?f] unfolding p(2) by blast
    have "ids_of (?f p) = ids_of p @ [nextLocalId clock (ed_seed s)]" by (simp add: ids_of_def)
    with known_snoc [of clock "ed_seed s" "all_ids a @ ids_of p" "all_ids b"] s(2) ab(1)
    show ?thesis unfolding ab(2) by simp
  next
    case False
    then have "?ops = ed_operations s" by (auto intro: map_idI)
    with s(2) show ?thesis by (simp add: ids_earlier)
  qed
  moreover have "list_all rule_ok ?ops" using s(3) by (auto simp: list_all_iff rule_ok_def)
  ultimately show ?thesis using s(1)
    by (simp add: editor_ok_def ops_ok_def addCondition_def map_operation_def case_prod_beta Let_def)
qed

text \<open>Drafts.\<close>

lemma return_error_ok: "editor_ok clock s \<Longrightarrow> editor_ok clock (updateReturnErrorDraft i f s)"
  unfolding updateReturnErrorDraft_def by (rule map_operation_ok) (auto simp: ids_of_def rule_ok_def)

lemma with_prune_draft_keeps:
  assumes "\<And>d n. renews (nextLocalId clock) (map cn_id (pd_rules d)) n (map cn_id (pd_rules (fst (f d n)))) (snd (f d n))
      \<or> \<not> distinct (map cn_id (pd_rules d)) \<or> \<not> ids_made clock 0 n (map cn_id (pd_rules d))"
    "\<And>d n. list_all condition_ok (pd_rules d) \<Longrightarrow> list_all condition_ok (pd_rules (fst (f d n)))"
  shows "keeps_rule clock (with_prune_draft f)"
proof -
  have "renews (nextLocalId clock) (ids_of p) n (ids_of (fst (with_prune_draft f p n))) (snd (with_prune_draft f p n))"
    if known: "ids_made clock 0 n (ids_of p)" for p n
  proof (cases "op_prune_draft p")
    case None
    with known show ?thesis by (auto simp: with_prune_draft_def ids_between_def intro: renews_subset)
  next
    case (Some d)
    have "ids_made clock 0 n (map cn_id (pd_rules d))" "distinct (map cn_id (pd_rules d))"
      using known Some by (auto simp: ids_between_def ids_of_def draft_rules_def)
    then have "renews (nextLocalId clock) (map cn_id (draft_rules p)) n (map cn_id (pd_rules (fst (f d n)))) (snd (f d n))"
      using assms(1) [of d n] Some by (auto simp: draft_rules_def)
    from replaced_draft_ids [OF known this] Some show ?thesis
      by (simp add: with_prune_draft_def case_prod_beta Let_def ids_of_def)
  qed
  moreover have "rule_ok (fst (with_prune_draft f p n))" if "rule_ok p" for p n
    using that assms(2) by (auto simp: with_prune_draft_def rule_ok_def draft_rules_def case_prod_beta Let_def split: option.splits)
  ultimately show ?thesis by (simp add: keeps_rule_def)
qed

lemma prune_fields_ok:
  "editor_ok clock s \<Longrightarrow> editor_ok clock (updatePruneObjectsDraft i (\<lambda>d n. (set_prune_fields a t l r d, n)) s)"
  unfolding updatePruneObjectsDraft_def
  by (intro map_operation_ids_ok with_prune_draft_keeps) (auto simp: set_prune_fields_def intro: renews_subset)

lemma add_prune_rule_ok: "editor_ok clock s \<Longrightarrow> editor_ok clock (addPruneRule clock i s)"
  unfolding addPruneRule_def updatePruneObjectsDraft_def
proof (intro map_operation_ids_ok with_prune_draft_keeps, goal_cases)
  case (2 d n)
  have "renews (nextLocalId clock) xs n (xs @ [nextLocalId clock n]) (Suc n)" if "ids_made clock 0 n xs" for xs
    using known_snoc [of clock n xs "[]"] that by (auto simp: ids_between_def renews_def)
  then show ?case by (auto simp: case_prod_beta Let_def)
qed (auto simp: case_prod_beta Let_def)

lemma update_prune_rule_ok: "editor_ok clock s \<Longrightarrow> offered_condition_patch patch \<Longrightarrow> editor_ok clock (updatePruneRule i j patch s)"
  unfolding updatePruneRule_def updatePruneObjectsDraft_def
  by (intro map_operation_ids_ok with_prune_draft_keeps) (auto simp: patch_conditions_ok intro: renews_subset simp del: set_map)

lemma remove_prune_rule_ok: "editor_ok clock s \<Longrightarrow> editor_ok clock (removePruneRule i j s)"
  unfolding removePruneRule_def updatePruneObjectsDraft_def
proof (intro map_operation_ids_ok with_prune_draft_keeps, goal_cases)
  case (2 d n)
  have "renews (nextLocalId clock) (map cn_id cs) n (map cn_id (filter P cs)) n" if "distinct (map cn_id cs)" for cs P
    using that by (intro renews_subset filter_ids)
  then show ?case by auto
qed (auto simp: filter_conditions_ok)

section \<open>Moving a rule\<close>

lemma find_index_split:
  "find_index P xs = Some i \<Longrightarrow> take i xs = takeWhile (\<lambda>x. \<not> P x) xs \<and> drop i xs = dropWhile (\<lambda>x. \<not> P x) xs"
  by (induction xs arbitrary: i) (auto split: if_splits)

lemma removed_at:
  assumes "distinct (map op_id ops)" "find_index (\<lambda>x. op_id x = i) ops = Some k"
  shows "take k ops @ drop (Suc k) ops = filter (\<lambda>x. op_id x \<noteq> i) ops"
proof -
  have k: "k < length ops" "op_id (ops ! k) = i" using find_index_Some [OF assms(2)] by auto
  have ops: "ops = take k ops @ [ops ! k] @ drop (Suc k) ops" using k(1) by (simp add: id_take_nth_drop [symmetric])
  have "distinct (map op_id (take k ops @ [ops ! k] @ drop (Suc k) ops))" using assms(1) ops by simp
  then have d: "i \<notin> op_id ` set (take k ops)" "i \<notin> op_id ` set (drop (Suc k) ops)" using k(2) by auto
  have "filter (\<lambda>x. op_id x \<noteq> i) (take k ops) = take k ops" "filter (\<lambda>x. op_id x \<noteq> i) (drop (Suc k) ops) = drop (Suc k) ops"
    using d unfolding filter_id_conv by (metis imageI)+
  then have "filter (\<lambda>x. op_id x \<noteq> i) (take k ops @ [ops ! k] @ drop (Suc k) ops) = take k ops @ drop (Suc k) ops"
    using k(2) by simp
  with ops show ?thesis by metis
qed

text \<open>Where a rule lands: beside its target among the other rules.\<close>

definition landed :: "param_operation \<Rightarrow> string \<Rightarrow> drop_position \<Rightarrow> param_operation list \<Rightarrow> param_operation list" where
  "landed p targetId position others =
     (let before = takeWhile (\<lambda>x. op_id x \<noteq> targetId) others; rest = dropWhile (\<lambda>x. op_id x \<noteq> targetId) others
      in if position = AfterRule then before @ take 1 rest @ [p] @ drop 1 rest else before @ [p] @ rest)"

lemma reorder_lands:
  assumes "distinct (map op_id ops)" "p \<in> set ops" "q \<in> set ops" "op_id p \<noteq> op_id q" "op_id p \<noteq> []" "op_id q \<noteq> []"
  shows "reorderOperations ops (op_id p) (op_id q) position = landed p (op_id q) position (filter (\<lambda>x. op_id x \<noteq> op_id p) ops)"
proof -
  let ?others = "filter (\<lambda>x. op_id x \<noteq> op_id p) ops"
  obtain k where k: "find_index (\<lambda>x. op_id x = op_id p) ops = Some k"
    using assms(2) find_index_None [of "\<lambda>x. op_id x = op_id p" ops] by (cases "find_index (\<lambda>x. op_id x = op_id p) ops") auto
  obtain j where j: "find_index (\<lambda>x. op_id x = op_id q) ?others = Some j"
    using assms(3,4) find_index_None [of "\<lambda>x. op_id x = op_id q" ?others]
    by (cases "find_index (\<lambda>x. op_id x = op_id q) ?others") auto
  have moved: "ops ! k = p"
    using find_index_Some [OF k] assms(1,2) by (metis distinct_map inj_onD nth_mem)
  note split = find_index_split [OF j]
  have "j < length ?others" using find_index_Some [OF j] by simp
  then have after: "take (j + 1) ?others = take j ?others @ take 1 (drop j ?others)" "drop (j + 1) ?others = drop 1 (drop j ?others)"
    by (simp_all only: take_add drop_drop add.commute [of 1])
  show ?thesis
    using assms(4,5,6) k j split after
    by (simp add: reorderOperations_def Let_def moved removed_at [OF assms(1) k] landed_def)
qed

lemma reorder_mset: "mset (reorderOperations ops i j position) = mset ops"
proof (cases "i = [] \<or> j = [] \<or> i = j")
  case False
  show ?thesis
  proof (cases "find_index (\<lambda>x. op_id x = i) ops")
    case (Some k)
    let ?next = "take k ops @ drop (Suc k) ops"
    have k: "k < length ops" using find_index_Some [OF Some] by simp
    have ops: "mset ops = add_mset (ops ! k) (mset ?next)"
      using id_take_nth_drop [OF k] by (metis mset.simps(2) mset_append union_mset_add_mset_right)
    have "mset (take m ?next @ [ops ! k] @ drop m ?next) = mset ops" for m
      unfolding ops using append_take_drop_id [of m ?next]
      by (metis (no_types, lifting) append_Cons append_Nil mset.simps(2) mset_append union_mset_add_mset_right)
    then show ?thesis using False Some by (auto simp: reorderOperations_def Let_def split: option.splits)
  qed (use False in \<open>simp add: reorderOperations_def\<close>)
qed (auto simp: reorderOperations_def)

lemma all_ids_mset: "mset ops = mset ops' \<Longrightarrow> mset (all_ids ops) = mset (all_ids ops')"
proof -
  have "mset (all_ids xs) = sum_mset (image_mset (\<lambda>p. mset (ids_of p)) (mset xs))" for xs
    by (induction xs) auto
  then show "mset ops = mset ops' \<Longrightarrow> ?thesis" by simp
qed

lemma ops_ok_perm: "ops_ok clock n ops \<Longrightarrow> mset ops' = mset ops \<Longrightarrow> ops_ok clock n ops'"
proof -
  assume ok: "ops_ok clock n ops" and m: "mset ops' = mset ops"
  have "mset (all_ids ops') = mset (all_ids ops)" using m by (rule all_ids_mset)
  then have "set (all_ids ops') = set (all_ids ops)" "distinct (all_ids ops') = distinct (all_ids ops)"
    using mset_eq_setD mset_eq_imp_distinct_iff by blast+
  moreover have "set ops' = set ops" using m by (rule mset_eq_setD)
  moreover have "ops' \<noteq> []" using ok m by (auto simp: ops_ok_def)
  ultimately show ?thesis using ok by (simp add: ops_ok_def ids_between_def list_all_iff)
qed

section \<open>The other gestures\<close>

lemma ops_ok_insert:
  assumes "ops_ok clock n (a @ b)" "ids_made clock n m (ids_of p)" "rule_ok p"
  shows "ops_ok clock m (a @ [p] @ b)"
proof -
  have "ids_made clock 0 m (all_ids a @ ids_of p @ all_ids b)"
    using local_ids.known_replace [of clock n "all_ids a" "[]" "all_ids b"] assms(1) ids_between_renews [OF assms(2)]
    by (simp add: ops_ok_def)
  then show ?thesis using assms by (simp add: ops_ok_def)
qed

lemma add_ok: "editor_ok clock s \<Longrightarrow> editor_ok clock (addOperation clock s)"
  using ops_ok_insert [of clock "ed_seed s" "ed_operations s" "[]" "Suc (ed_seed s)" "fst (createDefaultOperation clock (ed_seed s))"]
  by (simp add: editor_ok_def addOperation_def case_prod_beta Let_def)

lemma ops_ok_subset:
  assumes "ops_ok clock n ops" "filter P ops \<noteq> []"
  shows "ops_ok clock n (filter P ops)"
proof -
  have "set (all_ids (filter P ops)) \<subseteq> set (all_ids ops)" by (auto simp: all_ids_def)
  moreover have "distinct (all_ids ops) \<Longrightarrow> distinct (all_ids (filter P ops))"
  proof (induction ops)
    case (Cons p ops)
    have "set (all_ids (filter P ops)) \<subseteq> set (all_ids ops)" by (auto simp: all_ids_def)
    with Cons show ?case by auto
  qed simp
  ultimately show ?thesis using assms by (auto simp: ops_ok_def ids_between_def list_all_iff)
qed

lemma remove_rule_ok:
  assumes "editor_ok clock s"
  shows "editor_ok clock (removeOperation clock i s)"
proof (cases "length (ed_operations s) \<le> 1")
  case True
  then show ?thesis by (simp add: removeOperation_def editor_ok_def case_prod_beta Let_def ops_ok_default)
next
  case False
  then obtain p q ps where ps: "ed_operations s = p # q # ps"
    by (cases "ed_operations s"; cases "tl (ed_operations s)") auto
  have "distinct (map op_id (ed_operations s))" using assms op_ids_distinct by (auto simp: editor_ok_def ops_ok_def)
  then have "op_id p \<noteq> op_id q" using ps by simp
  then have "filter (\<lambda>p. op_id p \<noteq> i) (ed_operations s) \<noteq> []" using ps by auto
  then show ?thesis using assms False by (simp add: removeOperation_def editor_ok_def ops_ok_subset)
qed

lemma clone_rules_ids: "ids_made clock n (snd (clone_rules clock rs n)) (map cn_id (fst (clone_rules clock rs n)))"
  using local_ids.between_map_ids [of clock "\<lambda>rule m. (rule\<lparr>cn_id := nextLocalId clock m\<rparr>, Suc m)" "\<lambda>c. [cn_id c]" n rs]
  by (simp add: clone_rules_def)

lemma clone_rules_ok: "list_all condition_ok rs \<Longrightarrow> list_all condition_ok (fst (clone_rules clock rs n))"
  unfolding clone_rules_def by (induction rs arbitrary: n) (auto simp: Let_def case_prod_beta condition_ok_def)

text \<open>A clone has identifiers of its own.\<close>

lemma clone_ok:
  assumes "clone_operation clock p n = Inr (c, m)" "rule_ok p"
  shows "ids_made clock n m (ids_of c)" "rule_ok c"
proof -
  from assms(1) obtain q k where q: "normalizeOperation clock (cloned_operation p) n = Inr (q, k)"
    and c: "(case op_prune_draft p of None \<Rightarrow> Inr (q, k) | Some d \<Rightarrow>
       (let (rules, k) = clone_rules clock (pd_rules d) k in Inr (q\<lparr>op_prune_draft := Some (d\<lparr>pd_rules := rules\<rparr>)\<rparr>, k))) = (Inr (c, m) :: (param_operation \<times> nat) exn)"
    by (auto simp: clone_operation_def)
  note ids = normalize_operation_ids [OF q] and shape = normalize_operation_ok [OF q]
  have mode: "op_mode q = op_mode p"
    using q assms(2) by (auto simp: normalized_operation read_rule_def cloned_operation_def jget_def offered_or_def rule_ok_def)
  show "ids_made clock n m (ids_of c)"
  proof (cases "op_prune_draft p")
    case (Some d)
    let ?r = "clone_rules clock (pd_rules d) k"
    have c': "c = q\<lparr>op_prune_draft := Some (d\<lparr>pd_rules := fst ?r\<rparr>)\<rparr>" "m = snd ?r" using c Some by (auto simp: case_prod_beta Let_def)
    have km: "k \<le> snd ?r" using clone_rules_ids by (rule between_le)
    have "ids_made clock n k ([op_id q] @ map cn_id (op_conditions q))" using ids by (auto simp: ids_between_def ids_of_def)
    from local_ids.between_append [OF this clone_rules_ids [of clock k "pd_rules d"]]
    show ?thesis by (auto simp: c' ids_of_def ids_between_def)
  qed (use c ids in auto)
  show "rule_ok c"
  proof (cases "op_prune_draft p")
    case (Some d)
    have "op_mode p = ''prune_objects''" "list_all condition_ok (pd_rules d)"
      using assms(2) Some by (auto simp: rule_ok_def draft_rules_def)
    then show ?thesis using c Some shape mode clone_rules_ok [of "pd_rules d" clock k]
      by (auto simp: rule_ok_def case_prod_beta Let_def)
  qed (use c shape in auto)
qed

lemma duplicate_ok:
  assumes "editor_ok clock s" "duplicateOperation clock eager i s = Inr s'"
  shows "editor_ok clock s'"
proof (cases "find_index (\<lambda>p. op_id p = i) (ed_operations s)")
  case (Some k)
  let ?p = "ed_operations s ! k"
  have "k < length (ed_operations s)" using find_index_Some [OF Some] by simp
  then have "rule_ok ?p" using assms(1) by (simp add: editor_ok_def ops_ok_def list_all_length)
  moreover from assms(2) Some obtain c m where c: "clone_operation clock ?p (ed_seed s) = Inr (c, m)"
    and s': "ed_operations s' = take (k + 1) (ed_operations s) @ [c] @ drop (k + 1) (ed_operations s)" "ed_seed s' = m"
    by (auto simp: duplicateOperation_def)
  ultimately show ?thesis
    using ops_ok_insert [of clock "ed_seed s" "take (k + 1) (ed_operations s)" "drop (k + 1) (ed_operations s)" m c] clone_ok [OF c] assms(1)
    by (simp add: editor_ok_def s')
qed (use assms in \<open>simp add: duplicateOperation_def\<close>)

lemma drop_ok: "editor_ok clock s \<Longrightarrow> editor_ok clock (handleDrop carried i s)"
  by (simp add: handleDrop_def resetDragState_def Let_def editor_ok_def) (simp add: ops_ok_perm [OF _ reorder_mset])

lemma one_rule_ok: "ops_ok clock (snd (one_rule em vm l t e clock n)) (es_operations (fst (one_rule em vm l t e clock n)))"
  by (simp add: one_rule_def case_prod_beta ops_ok_default)

lemma initial_ok:
  assumes "parseInitialState clock t n = Inr (st, m)"
  shows "ops_ok clock m (es_operations st)"
proof -
  have r: "ops_ok clock m (es_operations st)" if "one_rule em vm l t' e clock n = (st, m)" for em vm l t' e
    using one_rule_ok [of clock em vm l t' e n] that by simp
  show ?thesis
  proof (cases "js_trim t = []")
    case True
    with assms r show ?thesis by (simp add: parseInitialState_def)
  next
    case False
    show ?thesis
    proof (cases "json_read (js_trim t)")
      case None
      with False assms r show ?thesis by (simp add: parseInitialState_def Let_def)
    next
      case (Some v)
      show ?thesis
      proof (cases v)
        case (JObj kvs)
        with False Some assms r show ?thesis
          by (cases "jget v ''operations''") (auto simp: parseInitialState_def Let_def intro: operations_of_ok)
      qed (use False Some assms r in \<open>simp_all add: parseInitialState_def Let_def\<close>)
    qed
  qed
qed

lemma open_ok: "openEditor clock v s = Inr s' \<Longrightarrow> editor_ok clock s'"
  by (auto simp: openEditor_def editor_ok_def initial_ok)

lemma default_seed [simp]: "createDefaultOperation clock n = (p, m) \<Longrightarrow> ops_ok clock m [p]"
  using ops_ok_default [of clock n] default_operation(3) [of clock n] by simp

lemma to_visual_ok:
  assumes "editor_ok clock s" "switchToVisualMode clock s = Inr s'"
  shows "editor_ok clock s'"
proof -
  note def = switchToVisualMode_def Let_def case_prod_beta editor_ok_def
  consider (idle) "ed_editMode s = VisualEdit" | (blank) "ed_editMode s = JsonEdit" "js_trim (ed_jsonText s) = []"
    | (bad) "ed_editMode s = JsonEdit" "js_trim (ed_jsonText s) \<noteq> []" "json_read (js_trim (ed_jsonText s)) = None"
    | (read) v where "ed_editMode s = JsonEdit" "js_trim (ed_jsonText s) \<noteq> []" "json_read (js_trim (ed_jsonText s)) = Some v"
    by (cases "ed_editMode s"; cases "json_read (js_trim (ed_jsonText s))") auto
  then show ?thesis
  proof cases
    case (read v)
    show ?thesis
    proof (cases v)
      case (JObj kvs)
      with read assms show ?thesis
        by (cases "jget v ''operations''") (auto simp: def ops_ok_default intro: operations_of_ok)
    qed (use read assms in \<open>auto simp: def\<close>)
  qed (use assms in \<open>auto simp: def ops_ok_default\<close>)
qed

lemma fill_legacy_ok: "editor_ok clock (fill_legacy clock v s)"
  by (simp add: fill_legacy_def editor_ok_def case_prod_beta Let_def ops_ok_default)

lemma ops_ok_append:
  assumes "ops_ok clock n ops \<or> ops = []" "ids_made clock n m (all_ids qs)" "list_all rule_ok qs" "qs \<noteq> []"
  shows "ops_ok clock m (ops @ qs)"
proof -
  have "ids_made clock 0 n (all_ids ops)" "list_all rule_ok ops" using assms(1) by (auto simp: ops_ok_def ids_between_def)
  then show ?thesis using local_ids.between_append [of clock 0 n "all_ids ops" m "all_ids qs"] assms by (simp add: ops_ok_def)
qed

text \<open>The presets have rules, and reading them does not throw.\<close>

definition preset_rules :: "string \<Rightarrow> jsval list" where
  "preset_rules key =
     (case jget (tpc_payload (coalesce (map_of TEMPLATE_PRESET_CONFIG key) (snd (TEMPLATE_PRESET_CONFIG ! 0)))) ''operations'' of
        JArr vs \<Rightarrow> vs | _ \<Rightarrow> [])"

lemma preset_in: "coalesce (map_of TEMPLATE_PRESET_CONFIG key) (snd (TEMPLATE_PRESET_CONFIG ! 0)) \<in> snd ` set TEMPLATE_PRESET_CONFIG"
proof (cases "map_of TEMPLATE_PRESET_CONFIG key")
  case None
  then show ?thesis by (simp add: TEMPLATE_PRESET_CONFIG_def)
next
  case (Some p)
  then show ?thesis using map_of_SomeD [OF Some] by (simp add: rev_image_eqI)
qed

lemma preset_payloads:
  "p \<in> snd ` set TEMPLATE_PRESET_CONFIG \<Longrightarrow> tpc_kind p = OperationsKind \<Longrightarrow> \<exists>v vs. jget (tpc_payload p) ''operations'' = JArr (v # vs)"
  by (auto simp: TEMPLATE_PRESET_CONFIG_def OPERATION_TEMPLATE_def HEADER_PASSTHROUGH_TEMPLATE_def GEMINI_IMAGE_4K_TEMPLATE_def
      CLAUDE_CLI_HEADER_PASSTHROUGH_TEMPLATE_def CODEX_CLI_HEADER_PASSTHROUGH_TEMPLATE_def AWS_BEDROCK_ANTHROPIC_COMPAT_TEMPLATE_def
      buildPassHeadersTemplate_def operations_object_def jget_def)

lemma fill_ok:
  assumes "editor_ok clock s" "fillTemplate clock mode s = Inr s'"
  shows "editor_ok clock s'"
proof -
  let ?p = "coalesce (map_of TEMPLATE_PRESET_CONFIG (ed_templateKey s)) (snd (TEMPLATE_PRESET_CONFIG ! 0))"
  let ?old = "if ed_visualMode s = OperationsView then filter (\<lambda>p. \<not> isOperationBlank p) (ed_operations s) else []"
  show ?thesis
  proof (cases "tpc_kind ?p")
    case LegacyKind
    then show ?thesis using assms
      by (auto simp: fillTemplate_def Let_def fill_legacy_ok [unfolded editor_ok_def] editor_ok_def split: if_splits option.splits)
  next
    case OperationsKind
    then obtain v vs where ops: "jget (tpc_payload ?p) ''operations'' = JArr (v # vs)"
      using preset_payloads [OF preset_in] by blast
    show ?thesis
    proof (cases mode)
      case FillTemplate
      with assms(2) OperationsKind ops obtain new m where new: "operations_of clock (v # vs) (ed_seed s) = Inr (new, m)"
        "ed_operations s' = new" "ed_seed s' = m" by (auto simp: fillTemplate_def Let_def)
      then show ?thesis using operations_of_ok [OF new(1)] by (simp add: editor_ok_def)
    next
      case AppendTemplate
      with assms(2) OperationsKind ops obtain new m where new: "map_ids_exn (normalizeOperation clock) (v # vs) (ed_seed s) = Inr (new, m)"
        and s': "ed_operations s' = (if ?old @ new \<noteq> [] then ?old @ new else new)" "ed_seed s' = m"
        by (auto simp: fillTemplate_def Let_def simp del: map_ids_exn.simps)
      have ne: "new \<noteq> []" using map_ids_exn_Nil [OF new] by simp
      have "ops_ok clock (ed_seed s) ?old \<or> ?old = []" using assms(1) ops_ok_subset by (auto simp: editor_ok_def)
      from ops_ok_append [OF this read_operations_ids [OF new] read_operations_ok [OF new] ne] ne s' show ?thesis
        by (simp add: editor_ok_def)
    qed
  qed
qed

lemma idle_ok:
  "editor_ok clock (toggle_condition j b s) = editor_ok clock s" "editor_ok clock (handleDragStart i s) = editor_ok clock s"
  "editor_ok clock (handleDragOver y t h i s) = editor_ok clock s" "editor_ok clock (resetDragState s) = editor_ok clock s"
  "editor_ok clock (handleJsonChange text s) = editor_ok clock s" "editor_ok clock (s\<lparr>ed_templateKey := k\<rparr>) = editor_ok clock s"
  "editor_ok clock (s\<lparr>ed_legacyValue := text\<rparr>) = editor_ok clock s" "editor_ok clock (s\<lparr>ed_operationSearch := text\<rparr>) = editor_ok clock s"
  "editor_ok clock (s\<lparr>ed_selected := i\<rparr>) = editor_ok clock s"
  by (simp_all add: editor_ok_def toggle_condition_def handleDragStart_def handleDragOver_def resetDragState_def handleJsonChange_def Let_def)

lemma editor_step_ok: "editor_step clock s s' \<Longrightarrow> editor_ok clock s \<Longrightarrow> editor_ok clock s'"
proof (induction rule: editor_step.induct)
  case (render s)
  then show ?case by (auto simp: editor_render_def editor_ok_def intro: ops_ok_later)
next
  case (selected_effect s)
  then show ?case by (auto simp: keepSelected_def editor_ok_def split: list.splits)
next
  case (formatted p s)
  then show ?case by (auto simp: format_value_def no_patch_def offered_patch_def intro: update_rule_ok split: option.splits)
next
  case (to_json s)
  then show ?case by (auto simp: switchToJsonMode_def editor_ok_def split: sum.splits)
next
  case (saved s)
  then show ?case by (auto simp: handleSave_def editor_ok_def split: sum.splits)
next
  case (conditions_expanded s)
  then show ?case by (auto simp: expandAllConditions_def set_all_expanded_def editor_ok_def split: option.splits)
next
  case (conditions_collapsed s)
  then show ?case by (auto simp: collapseAllConditions_def set_all_expanded_def editor_ok_def split: option.splits)
next
  case (reset s)
  then show ?case by (simp add: resetEditorState_def editor_ok_def case_prod_beta Let_def ops_ok_default)
qed (simp_all only: idle_ok,
    (blast intro: open_ok update_rule_ok add_ok remove_rule_ok add_condition_ok update_condition_ok remove_condition_ok return_error_ok
      prune_fields_ok add_prune_rule_ok update_prune_rule_ok remove_prune_rule_ok drop_ok to_visual_ok fill_ok duplicate_ok)+)

lemma editor_mount_ok: "editor_ok clock (editor_mount clock n)"
  by (simp add: editor_mount_def editor_ok_def case_prod_beta Let_def ops_ok_default)

lemma editor_run_ok: "(editor_step clock)\<^sup>*\<^sup>* s s' \<Longrightarrow> editor_ok clock s \<Longrightarrow> editor_ok clock s'"
  by (induction rule: rtranclp_induct) (auto intro: editor_step_ok)

end
