(* ===== verification/Override_Text.thy ===== *)
theory Override_Text
  imports Override_Facts Custom_Route_Facts JS_Number_Text
begin

text \<open>
  Facts about the texts of the parameter override editor: what \<open>JSON.parse\<close> gives back of the rules that were written, and
  what the editor makes of it.
\<close>

text \<open>The keys the editor writes are no array indices.\<close>

lemma written_keys [simp]:
  "\<not> is_index_key ''mode''" "\<not> is_index_key ''description''" "\<not> is_index_key ''path''" "\<not> is_index_key ''value''"
  "\<not> is_index_key ''keep_origin''" "\<not> is_index_key ''from''" "\<not> is_index_key ''to''" "\<not> is_index_key ''conditions''"
  "\<not> is_index_key ''logic''" "\<not> is_index_key ''invert''" "\<not> is_index_key ''pass_missing_key''" "\<not> is_index_key ''operations''"
  "\<not> is_index_key ''message''" "\<not> is_index_key ''status_code''" "\<not> is_index_key ''code''" "\<not> is_index_key ''type''"
  "\<not> is_index_key ''skip_retry''" "\<not> is_index_key ''recursive''"
  by (simp_all add: is_index_key_def is_digit_def ordc_def)

text \<open>Objects some of whose fields are optional: each field with the condition under which it is there.\<close>

definition fields_of :: "(bool \<times> string \<times> jsval) list \<Rightarrow> (string \<times> jsval) list" where
  "fields_of fs = map snd (filter fst fs)"

lemma fields_of_Nil [simp]: "fields_of [] = []"
  by (simp add: fields_of_def)

lemma fields_of_Cons: "fields_of ((b, k, v) # fs) = (if b then [(k, v)] else []) @ fields_of fs"
  by (simp add: fields_of_def)

lemma fields_of_get [simp]: "map_of (fields_of ((b, k, v) # fs)) x = (if b \<and> x = k then Some v else map_of (fields_of fs) x)"
  by (simp add: fields_of_Cons)

lemma fields_of_all [simp]: "list_all P (fields_of ((b, k, v) # fs)) \<longleftrightarrow> (b \<longrightarrow> P (k, v)) \<and> list_all P (fields_of fs)"
  by (simp add: fields_of_Cons)

lemma fields_of_distinct: "distinct (map (\<lambda>f. fst (snd f)) fs) \<Longrightarrow> distinct (map fst (fields_of fs))"
  by (induction fs) (auto simp: fields_of_def)

section \<open>The value of a text\<close>

lemma toValueText_simps [simp]: "toValueText JUndefined = []" "toValueText (JStr s) = s"
  by (simp_all add: toValueText_def)

lemma parse_loose_order [simp]: "js_order (parseLooseValue t) = parseLooseValue t"
  by (auto simp: parseLooseValue_def Let_def json_read_order split: option.splits)

lemma parse_loose_trim [simp]: "parseLooseValue (js_trim t) = parseLooseValue t"
  by (simp add: parseLooseValue_def)

lemma parse_loose_blank [simp]: "js_trim t = [] \<Longrightarrow> parseLooseValue t = JStr []"
  by (simp add: parseLooseValue_def)

lemma parse_loose_object:
  "js_trim t \<noteq> [] \<Longrightarrow> json_read (js_trim t) = Some (JObj kvs) \<longleftrightarrow> parseLooseValue t = JObj kvs"
  by (auto simp: parseLooseValue_def Let_def split: option.splits)

text \<open>The draft read from a text depends on the value of the text only.\<close>

definition prune_of_value :: "clock \<Rightarrow> jsval \<Rightarrow> nat \<Rightarrow> prune_draft \<times> nat" where
  "prune_of_value clock v n =
     (case v of
        JStr s \<Rightarrow> (prune_defaults\<lparr>pd_typeText := js_trim s\<rparr>, n)
      | JObj kvs \<Rightarrow>
          (\<lparr>pd_simpleMode = \<not> (jget v ''logic'' \<noteq> JUndefined \<or> jget v ''recursive'' \<noteq> JUndefined \<or> jget v ''where'' \<noteq> JUndefined \<or>
              jget v ''conditions'' \<noteq> JUndefined),
            pd_typeText = (if jget v ''type'' = JUndefined then [] else js_trim (js_string (jget v ''type''))),
            pd_logic = logic_of ''OR'' ''AND'' (jget v ''logic''), pd_recursive = (jget v ''recursive'' \<noteq> JBool False),
            pd_rules = fst (prune_rules clock v n)\<rparr>, snd (prune_rules clock v n))
      | _ \<Rightarrow> (prune_defaults\<lparr>pd_typeText := js_trim (if v = JNull then [] else js_string v)\<rparr>, n))"

lemma parse_prune_value: "parsePruneObjectsDraft clock t n = prune_of_value clock (parseLooseValue t) n"
proof (cases "js_trim t = []")
  case True
  then show ?thesis by (simp add: parsePruneObjectsDraft_def prune_of_value_def prune_defaults_def)
next
  case False
  show ?thesis
  proof (cases "json_read (js_trim t)")
    case None
    with False show ?thesis by (simp add: parsePruneObjectsDraft_def prune_of_value_def parseLooseValue_def)
  next
    case (Some v)
    with False show ?thesis
      by (cases v) (simp_all add: parsePruneObjectsDraft_def prune_of_value_def parseLooseValue_def Let_def case_prod_beta)
  qed
qed

text \<open>Whether a draft names what to prune does not depend on its identifiers.\<close>

definition draft_named :: "prune_draft \<Rightarrow> bool" where
  "draft_named d \<longleftrightarrow> js_trim (pd_typeText d) \<noteq> [] \<or> \<not> pd_simpleMode d \<and> list_ex (\<lambda>r. js_trim (cn_path r) \<noteq> []) (pd_rules d)"

lemma map_ids_paths: "(\<And>x n. cn_path (fst (f x n)) = g x) \<Longrightarrow> map cn_path (fst (map_ids f xs n)) = map g xs"
  by (induction xs arbitrary: n) (auto simp: Let_def case_prod_beta)

lemma condition_of_path: "cn_path (fst (condition_of clock v n)) = string_or_empty (jget v ''path'')"
  by (simp add: condition_of_def)

lemma entry_rules_paths: "map cn_path (fst (entry_rules clock v n)) = (case v of JObj kvs \<Rightarrow> map fst (js_entries kvs) | _ \<Rightarrow> [])"
proof (cases v)
  case (JObj kvs)
  let ?f = "\<lambda>(path, x). condition_of clock (JObj [(''path'', JStr path), (''mode'', JStr ''full''), (''value'', x)])"
  have "cn_path (fst (?f x n)) = fst x" for x n
    by (cases x) (simp add: condition_of_path jget_def string_or_empty_def)
  from map_ids_paths [of ?f fst, OF this] JObj show ?thesis by (simp add: entry_rules_def)
qed (simp_all add: entry_rules_def)

lemma conditions_paths: "map cn_path (fst (map_ids (condition_of clock) vs n)) = map (\<lambda>v. string_or_empty (jget v ''path'')) vs"
  by (rule map_ids_paths) (rule condition_of_path)

lemma prune_rules_paths: "map cn_path (fst (prune_rules clock v n)) = map cn_path (fst (prune_rules clock' v n'))"
  by (cases "jget v ''conditions''") (simp_all add: prune_rules_def Let_def case_prod_beta entry_rules_paths conditions_paths)

lemma list_ex_paths: "list_ex (\<lambda>r. js_trim (cn_path r) \<noteq> []) rs \<longleftrightarrow> list_ex (\<lambda>p. js_trim p \<noteq> []) (map cn_path rs)"
  by (simp add: list_ex_iff)

lemma draft_named_value: "draft_named (fst (prune_of_value clock v n)) = draft_named (fst (prune_of_value clock' v n'))"
proof (cases v)
  case (JObj kvs)
  then show ?thesis
    using prune_rules_paths [of clock v n clock' n'] by (simp add: prune_of_value_def draft_named_def list_ex_paths)
qed (simp_all add: prune_of_value_def draft_named_def)

section \<open>Rules that are read back\<close>

text \<open>A text whose value is written and read as the same value: a value other than a string without infinite numbers and
  negative zeros, or a string with no blanks around it that is no JSON text itself.\<close>

definition plain_text :: "string \<Rightarrow> bool" where
  "plain_text t \<longleftrightarrow>
     (case parseLooseValue t of
        JStr s \<Rightarrow> js_trim t = [] \<or> s \<noteq> [] \<and> js_trim s = s \<and> json_read s = None
      | v \<Rightarrow> plain_numbers v)"

definition keeps_value :: "string \<Rightarrow> bool" where
  "keeps_value t \<longleftrightarrow> json_ok (parseLooseValue t) \<and> parseLooseValue (toValueText (parseLooseValue t)) = parseLooseValue t"

lemma scalar_text_trimmed: "json_ok v \<Longrightarrow> \<not> is_jstr v \<Longrightarrow> js_trim (json_text v) = json_text v \<and> json_text v \<noteq> []"
proof (cases v)
  case (JNum x)
  assume "json_ok v"
  with JNum show ?thesis
    by (auto simp: json_num_ok_def literal_trimmed json_number_ok_def Let_def)
qed (auto intro!: js_trim_id simp: trimmed_def is_ws_def ordc_def is_jstr_def)

lemma plain_text_keeps: "plain_text t \<Longrightarrow> keeps_value t \<and> (parseLooseValue t = JStr [] \<longrightarrow> js_trim t = [])"
proof (cases "is_jstr (parseLooseValue t)")
  case True
  assume p: "plain_text t"
  obtain s where s: "parseLooseValue t = JStr s" using True by (auto simp: is_jstr_iff)
  have "s = [] \<or> json_read s = None \<and> js_trim s = s" using p s by (auto simp: plain_text_def)
  then have "parseLooseValue s = JStr s" by (auto simp: parseLooseValue_def)
  then show ?thesis using p s by (auto simp: plain_text_def keeps_value_def)
next
  case False
  assume p: "plain_text t"
  let ?v = "parseLooseValue t"
  have blank: "js_trim t \<noteq> []" using False by (auto simp: is_jstr_iff)
  obtain w where w: "json_parse (js_trim t) = Some w" "?v = js_order w"
    using False blank by (auto simp: parseLooseValue_def json_read_def is_jstr_iff Let_def split: option.splits)
  have "plain_numbers ?v" using p False by (auto simp: plain_text_def is_jstr_def split: jsval.splits)
  moreover have "json_shape ?v" using w json_parse_shape order_shape by simp
  ultimately have ok: "json_ok ?v" by (rule shape_ok [rotated])
  have written: "toValueText ?v = json_text ?v" using False ok by (cases "parseLooseValue t") (auto simp: toValueText_def is_jstr_def)
  have "parseLooseValue (json_text ?v) = ?v"
    using scalar_text_trimmed [OF ok False] read_text [OF ok parse_loose_order] unfolding parseLooseValue_def [of "json_text ?v"] by simp
  then show ?thesis using ok written False by (auto simp: keeps_value_def is_jstr_def)
qed

definition keeps_condition :: "param_condition \<Rightarrow> bool" where
  "keeps_condition c \<longleftrightarrow> condition_ok c \<and> (cn_mode c = ''regex'' \<or> plain_text (cn_value_text c))"

lemma condition_value:
  assumes "keeps_condition c"
  shows "json_ok (parseConditionValue c)" "js_order (parseConditionValue c) = parseConditionValue c"
  using assms plain_text_keeps by (auto simp: keeps_condition_def keeps_value_def parseConditionValue_def)

lemma build_condition:
  "js_trim (cn_path c) \<noteq> [] \<Longrightarrow> cn_mode c \<noteq> [] \<Longrightarrow> buildConditionPayload c =
     Some (JObj ([(''path'', JStr (js_trim (cn_path c))), (''mode'', JStr (cn_mode c)), (''value'', parseConditionValue c)] @
       (if cn_invert c then [(''invert'', JBool True)] else []) @
       (if cn_pass_missing_key c then [(''pass_missing_key'', JBool True)] else [])))"
  by (simp add: buildConditionPayload_def Let_def or_text_def)

lemma condition_payload:
  assumes "keeps_condition c" "buildConditionPayload c = Some v"
  shows "json_ok v" "js_order v = v" "buildConditionPayload (fst (condition_of clock v n)) = Some v" "v \<noteq> JNull"
proof -
  have path: "js_trim (cn_path c) \<noteq> []" and mode: "cn_mode c \<in> set CONDITION_MODE_VALUES" "cn_mode c \<noteq> []"
    using assms by (auto simp: buildConditionPayload_def keeps_condition_def condition_ok_def Let_def split: if_splits)
  have v: "v = JObj ([(''path'', JStr (js_trim (cn_path c))), (''mode'', JStr (cn_mode c)), (''value'', parseConditionValue c)] @
            (if cn_invert c then [(''invert'', JBool True)] else []) @
            (if cn_pass_missing_key c then [(''pass_missing_key'', JBool True)] else []))"
    using assms(2) build_condition [OF path mode(2)] by simp
  show "json_ok v" "v \<noteq> JNull" using condition_value(1) [OF assms(1)] by (simp_all add: v)
  show "js_order v = v" unfolding v using condition_value(2) [OF assms(1)] by (intro js_order_object) simp
  define d where "d = fst (condition_of clock v n)"
  have get: "jget v ''path'' = JStr (js_trim (cn_path c))" "jget v ''mode'' = JStr (cn_mode c)"
    "jget v ''value'' = parseConditionValue c" "(jget v ''invert'' = JBool True) = cn_invert c"
    "(jget v ''pass_missing_key'' = JBool True) = cn_pass_missing_key c"
    by (simp_all add: v)
  have c: "cn_path d = js_trim (cn_path c)" "cn_mode d = cn_mode c" "cn_value_text d = toValueText (parseConditionValue c)"
    "cn_invert d = cn_invert c" "cn_pass_missing_key d = cn_pass_missing_key c"
    unfolding d_def condition_of_def by (simp_all add: get string_or_empty_def offered_or_def mode)
  have "parseConditionValue d = parseConditionValue c"
    using assms(1) c(2,3) plain_text_keeps by (auto simp: parseConditionValue_def keeps_condition_def keeps_value_def)
  moreover have "js_trim (cn_path d) \<noteq> []" "cn_mode d \<noteq> []" using path mode c by simp_all
  ultimately have "buildConditionPayload d = Some v" unfolding v using build_condition [of d] c by simp
  then show "buildConditionPayload (fst (condition_of clock v n)) = Some v" by (simp only: d_def)
qed

lemma map_ids_total:
  "(\<And>x n. x \<in> set xs \<Longrightarrow> f x n = Inr (g x n)) \<Longrightarrow> map_ids_exn f xs n = Inr (map_ids g xs n)"
  by (induction xs arbitrary: n) (auto simp: Let_def case_prod_beta)

lemma conditions_read_back:
  assumes "list_all (\<lambda>v. \<forall>n. buildConditionPayload (fst (condition_of clock v n)) = Some v) vs"
  shows "List.map_filter buildConditionPayload (fst (map_ids (condition_of clock) vs n)) = vs"
  using assms by (induction vs arbitrary: n) (auto simp: Let_def case_prod_beta map_filter_simps)

definition payload_conditions :: "param_operation \<Rightarrow> jsval list" where
  "payload_conditions p = List.map_filter buildConditionPayload (op_conditions p)"

lemma payload_conditions_ok:
  assumes "\<forall>c \<in> set (op_conditions p). js_trim (cn_path c) \<noteq> [] \<longrightarrow> keeps_condition c"
  shows "list_all json_ok (payload_conditions p)" "map js_order (payload_conditions p) = payload_conditions p"
    "read_conditions clock (JArr (payload_conditions p)) n = Inr (map_ids (condition_of clock) (payload_conditions p) n)"
    "List.map_filter buildConditionPayload (fst (map_ids (condition_of clock) (payload_conditions p) n)) = payload_conditions p"
proof -
  have v: "\<exists>c. keeps_condition c \<and> buildConditionPayload c = Some v" if "v \<in> set (payload_conditions p)" for v
    using that assms by (force simp: payload_conditions_def map_filter_def buildConditionPayload_def Let_def split: if_splits)
  show "list_all json_ok (payload_conditions p)" using v condition_payload(1) by (metis list_all_iff)
  show "map js_order (payload_conditions p) = payload_conditions p" using v condition_payload(2) by (metis map_idI)
  show "read_conditions clock (JArr (payload_conditions p)) n = Inr (map_ids (condition_of clock) (payload_conditions p) n)"
    unfolding read_conditions_def jsval.case
    by (rule map_ids_total) (use v condition_payload(4) in \<open>auto simp: normalizeCondition_def\<close>)
  show "List.map_filter buildConditionPayload (fst (map_ids (condition_of clock) (payload_conditions p) n)) = payload_conditions p"
    by (rule conditions_read_back) (unfold list_all_iff, use v condition_payload(3) in blast)
qed

text \<open>The payload of a rule, with the source and the target an alias completes.\<close>

definition source_of :: "param_operation \<Rightarrow> string" where
  "source_of p = (if mm_pathAlias (meta_of (op_mode p)) \<and> js_trim (op_from p) = [] then js_trim (op_path p) else js_trim (op_from p))"

definition target_of :: "param_operation \<Rightarrow> string" where
  "target_of p = (if mm_pathAlias (meta_of (op_mode p)) \<and> js_trim (op_to p) = [] then js_trim (op_path p) else js_trim (op_to p))"

definition writes_path :: "param_operation \<Rightarrow> bool" where
  "writes_path p \<longleftrightarrow> mm_path (meta_of (op_mode p)) \<or> mm_pathOptional (meta_of (op_mode p)) \<and> js_trim (op_path p) \<noteq> []"

lemma meta_of_in: "meta_of m \<in> snd ` set MODE_META"
proof (cases "map_of MODE_META m")
  case None
  then show ?thesis by (simp add: meta_of_def MODE_META_def)
next
  case (Some x)
  then show ?thesis using map_of_SomeD [OF Some] by (simp add: meta_of_def rev_image_eqI)
qed

lemma alias_meta:
  "mm_pathAlias (meta_of m) \<Longrightarrow> mm_from (meta_of m) \<and> mm_to (meta_of m) \<and> \<not> mm_path (meta_of m) \<and> \<not> mm_pathOptional (meta_of m)"
proof -
  have "mm_pathAlias x \<Longrightarrow> mm_from x \<and> mm_to x \<and> \<not> mm_path x \<and> \<not> mm_pathOptional x" if "x \<in> snd ` set MODE_META" for x
    using that by (auto simp: MODE_META_def no_meta_def)
  then show "mm_pathAlias (meta_of m) \<Longrightarrow> ?thesis" using meta_of_in by blast
qed

definition payload_fields :: "param_operation \<Rightarrow> (string \<times> jsval) list" where
  "payload_fields p =
     (let meta = meta_of (op_mode p); cs = payload_conditions p
      in fields_of
        [(True, ''mode'', JStr (op_mode p)),
         (js_trim (op_description p) \<noteq> [], ''description'', JStr (js_trim (op_description p))),
         (writes_path p, ''path'', JStr (js_trim (op_path p))),
         (mm_value meta, ''value'', parseLooseValue (op_value_text p)),
         (mm_keepOrigin meta \<and> op_keep_origin p, ''keep_origin'', JBool True),
         (mm_from meta, ''from'', JStr (source_of p)),
         (mm_to meta \<or> js_trim (op_to p) \<noteq> [], ''to'', JStr (target_of p)),
         (cs \<noteq> [], ''conditions'', JArr cs),
         (cs \<noteq> [], ''logic'', JStr (if op_logic p = ''AND'' then ''AND'' else ''OR''))])"

lemma obj_set_append: "obj_set k v (a @ b) = (if k \<in> fst ` set a then obj_set k v a @ b else a @ obj_set k v b)"
  by (induction k v a rule: obj_set.induct) auto

lemma alias_fills:
  assumes "''from'' \<notin> fst ` set pre" "''to'' \<notin> fst ` set pre"
    "payload = pre @ [(''from'', JStr f), (''to'', JStr t)]"
    "payload1 = (if \<not> jtruthy (jget (JObj payload) ''from'') \<and> v \<noteq> [] then obj_set ''from'' (JStr v) payload else payload)"
    "payload2 = (if \<not> jtruthy (jget (JObj payload1) ''to'') \<and> v \<noteq> [] then obj_set ''to'' (JStr v) payload1 else payload1)"
  shows "payload2 = pre @ [(''from'', JStr (if f = [] then v else f)), (''to'', JStr (if t = [] then v else t))]"
proof -
  have none: "map_of pre ''from'' = None" "map_of pre ''to'' = None" using assms(1,2) by (simp_all add: map_of_eq_None_iff)
  have one: "payload1 = pre @ [(''from'', JStr (if f = [] then v else f)), (''to'', JStr t)]"
    using assms(1,3,4) none by (simp add: jtruthy_def map_add_def obj_set_append)
  show ?thesis using assms(2,5) none by (simp add: one jtruthy_def map_add_def obj_set_append)
qed

lemma payload_written:
  assumes "op_mode p \<noteq> []"
  shows "operation_payload p = JObj (payload_fields p)"
proof (cases "mm_pathAlias (meta_of (op_mode p))")
  case False
  have two: "(if b then [x] else []) @ (if b then [y] else []) @ [] = (if b then [x, y] else [])" for b and x y :: "string \<times> jsval"
    by simp
  from False assms show ?thesis
    by (simp only: operation_payload_def payload_fields_def Let_def or_text_def source_of_def target_of_def writes_path_def
        payload_conditions_def fields_of_Cons fields_of_Nil two simp_thms if_True if_False append_assoc)
next
  case True
  let ?meta = "meta_of (op_mode p)"
  let ?pre = "[(''mode'', JStr (op_mode p))] @
         (if js_trim (op_description p) \<noteq> [] then [(''description'', JStr (js_trim (op_description p)))] else []) @
         (if mm_value ?meta then [(''value'', parseLooseValue (op_value_text p))] else []) @
         (if mm_keepOrigin ?meta \<and> op_keep_origin p then [(''keep_origin'', JBool True)] else [])"
  have pre: "''from'' \<notin> fst ` set ?pre" "''to'' \<notin> fst ` set ?pre" by auto
  note fill = alias_fills [OF pre refl refl refl, of "js_trim (op_from p)" "js_trim (op_to p)" "js_trim (op_path p)"]
  have "operation_payload p = JObj ((?pre @ [(''from'', JStr (source_of p)), (''to'', JStr (target_of p))]) @
      (if payload_conditions p \<noteq> [] then [(''conditions'', JArr (payload_conditions p)),
         (''logic'', JStr (if op_logic p = ''AND'' then ''AND'' else ''OR''))] else []))"
    using True assms alias_meta [OF True] fill
    by (simp only: operation_payload_def Let_def or_text_def source_of_def target_of_def payload_conditions_def simp_thms
        if_True if_False append_assoc append_Nil append_Cons)
  then show ?thesis
    using True alias_meta [OF True] by (simp add: payload_fields_def fields_of_Cons writes_path_def Let_def)
qed

text \<open>The rules whose texts are read back as they were written.\<close>

definition names_what :: "jsval \<Rightarrow> bool" where
  "names_what v \<longleftrightarrow> draft_named (fst (prune_of_value (\<lambda>_. 0) v 0)) \<or> jget v ''type'' \<noteq> JUndefined"

definition rereadable :: "param_operation \<Rightarrow> bool" where
  "rereadable p \<longleftrightarrow> op_mode p \<in> set OPERATION_MODE_VALUES \<and>
     (\<forall>c \<in> set (op_conditions p). js_trim (cn_path c) \<noteq> [] \<longrightarrow> keeps_condition c) \<and>
     (mm_value (meta_of (op_mode p)) \<longrightarrow> plain_text (op_value_text p)) \<and>
     (op_mode p = ''prune_objects'' \<longrightarrow> names_what (parseLooseValue (op_value_text p)))"

lemma rereadable_value:
  "rereadable p \<Longrightarrow> mm_value (meta_of (op_mode p)) \<Longrightarrow> keeps_value (op_value_text p) \<and>
     (parseLooseValue (op_value_text p) = JStr [] \<longrightarrow> js_trim (op_value_text p) = [])"
  using plain_text_keeps by (simp add: rereadable_def)

lemma payload_get:
  "jget (JObj (payload_fields p)) ''mode'' = JStr (op_mode p)"
  "jget (JObj (payload_fields p)) ''description'' =
     (if js_trim (op_description p) \<noteq> [] then JStr (js_trim (op_description p)) else JUndefined)"
  "jget (JObj (payload_fields p)) ''path'' = (if writes_path p then JStr (js_trim (op_path p)) else JUndefined)"
  "jget (JObj (payload_fields p)) ''value'' = (if mm_value (meta_of (op_mode p)) then parseLooseValue (op_value_text p) else JUndefined)"
  "jget (JObj (payload_fields p)) ''keep_origin'' =
     (if mm_keepOrigin (meta_of (op_mode p)) \<and> op_keep_origin p then JBool True else JUndefined)"
  "jget (JObj (payload_fields p)) ''from'' = (if mm_from (meta_of (op_mode p)) then JStr (source_of p) else JUndefined)"
  "jget (JObj (payload_fields p)) ''to'' =
     (if mm_to (meta_of (op_mode p)) \<or> js_trim (op_to p) \<noteq> [] then JStr (target_of p) else JUndefined)"
  "jget (JObj (payload_fields p)) ''conditions'' = (if payload_conditions p \<noteq> [] then JArr (payload_conditions p) else JUndefined)"
  "jget (JObj (payload_fields p)) ''logic'' =
     (if payload_conditions p \<noteq> [] then JStr (if op_logic p = ''AND'' then ''AND'' else ''OR'') else JUndefined)"
  by (simp_all add: payload_fields_def Let_def)

lemma payload_json:
  assumes "rereadable p"
  shows "json_ok (JObj (payload_fields p))" "js_order (JObj (payload_fields p)) = JObj (payload_fields p)"
proof -
  have c: "list_all json_ok (payload_conditions p)" "map js_order (payload_conditions p) = payload_conditions p"
    using assms payload_conditions_ok by (auto simp: rereadable_def)
  have v: "mm_value (meta_of (op_mode p)) \<Longrightarrow> json_ok (parseLooseValue (op_value_text p))"
    using rereadable_value [OF assms] by (simp add: keeps_value_def)
  show "json_ok (JObj (payload_fields p))" using c v by (simp add: payload_fields_def Let_def fields_of_distinct)
  show "js_order (JObj (payload_fields p)) = JObj (payload_fields p)"
    by (rule js_order_object) (use c in \<open>simp add: payload_fields_def Let_def\<close>)
qed

text \<open>The checks of a rule, by the value of its text.\<close>

definition specific_ok :: "string \<Rightarrow> jsval \<Rightarrow> prune_draft option \<Rightarrow> bool" where
  "specific_ok mode v d \<longleftrightarrow>
     (mode = ''return_error'' \<longrightarrow> (case v of JObj kvs \<Rightarrow> field_text (jget v ''message'') \<noteq> [] | _ \<Rightarrow> True)) \<and>
     (mode = ''prune_objects'' \<longrightarrow> (case d of None \<Rightarrow> True | Some x \<Rightarrow> draft_named x) \<or>
        (case v of JObj kvs \<Rightarrow> map_of kvs ''type'' \<noteq> None | _ \<Rightarrow> False)) \<and>
     (mode = ''pass_headers'' \<longrightarrow> parsePassHeaderNames v \<noteq> [])"

lemma return_error_None:
  assumes "js_trim (op_value_text p) \<noteq> []"
  shows "return_error_problem p line = None \<longleftrightarrow>
    (case parseLooseValue (op_value_text p) of JObj kvs \<Rightarrow> field_text (jget (JObj kvs) ''message'') \<noteq> [] | _ \<Rightarrow> True)"
  using assms by (auto simp: return_error_problem_def parseLooseValue_def Let_def split: option.splits jsval.splits)

lemma prune_None:
  assumes "js_trim (op_value_text p) \<noteq> []"
  shows "prune_problem p line = None \<longleftrightarrow>
    (case op_prune_draft p of None \<Rightarrow> True | Some d \<Rightarrow> draft_named d) \<or>
    (case parseLooseValue (op_value_text p) of JObj kvs \<Rightarrow> map_of kvs ''type'' \<noteq> None | _ \<Rightarrow> False)"
proof (cases "op_prune_draft p")
  case None
  with assms show ?thesis by (simp add: prune_problem_def Let_def)
next
  case (Some d)
  with assms show ?thesis
    by (simp only: prune_problem_def Let_def parse_loose_trim draft_named_def option.case simp_thms if_True split: if_split) auto
qed

lemma pass_headers_None:
  "js_trim (op_value_text p) \<noteq> [] \<Longrightarrow>
     pass_headers_problem p line = None \<longleftrightarrow> parsePassHeaderNames (parseLooseValue (op_value_text p)) \<noteq> []"
  by (simp add: pass_headers_problem_def Let_def)

definition required_ok :: "param_operation \<Rightarrow> bool" where
  "required_ok p \<longleftrightarrow>
     (let mode = op_mode p; meta = meta_of mode; aliased = (mm_pathAlias meta \<and> js_trim (op_path p) \<noteq> [])
      in (mm_path meta \<longrightarrow> js_trim (op_path p) \<noteq> []) \<and>
         (mode \<in> set FROM_REQUIRED_MODES \<longrightarrow> js_trim (op_from p) \<noteq> [] \<or> aliased) \<and>
         (mode \<in> set TO_REQUIRED_MODES \<longrightarrow> js_trim (op_to p) \<noteq> [] \<or> aliased) \<and>
         (mode \<in> set VALUE_REQUIRED_MODES \<longrightarrow> js_trim (op_value_text p) \<noteq> []))"

text \<open>A rule that has what its mode needs.\<close>

definition rule_complete :: "param_operation \<Rightarrow> bool" where
  "rule_complete p \<longleftrightarrow> required_ok p \<and> specific_ok (op_mode p) (parseLooseValue (op_value_text p)) (op_prune_draft p)"

lemma valued_modes: "''return_error'' \<in> set VALUE_REQUIRED_MODES" "''prune_objects'' \<in> set VALUE_REQUIRED_MODES"
  "''pass_headers'' \<in> set VALUE_REQUIRED_MODES"
  by (simp_all add: VALUE_REQUIRED_MODES_def)

lemma problem_None:
  assumes "op_mode p \<noteq> []"
  shows "operation_problem p line = None \<longleftrightarrow>
    required_ok p \<and> specific_ok (op_mode p) (parseLooseValue (op_value_text p)) (op_prune_draft p)"
proof (cases "required_ok p")
  case False
  with assms show ?thesis by (auto simp: operation_problem_def required_ok_def or_text_def Let_def)
next
  case True
  have step: "operation_problem p line =
    (if op_mode p = ''return_error'' then return_error_problem p line else if op_mode p = ''prune_objects'' then prune_problem p line
     else if op_mode p = ''pass_headers'' then pass_headers_problem p line else None)"
  proof -
    let ?meta = "meta_of (op_mode p)"
    have "\<not> (mm_path ?meta \<and> js_trim (op_path p) = [])"
      "\<not> (op_mode p \<in> set FROM_REQUIRED_MODES \<and> js_trim (op_from p) = [] \<and> \<not> (mm_pathAlias ?meta \<and> js_trim (op_path p) \<noteq> []))"
      "\<not> (op_mode p \<in> set TO_REQUIRED_MODES \<and> js_trim (op_to p) = [] \<and> \<not> (mm_pathAlias ?meta \<and> js_trim (op_path p) \<noteq> []))"
      "\<not> (op_mode p \<in> set VALUE_REQUIRED_MODES \<and> js_trim (op_value_text p) = [])"
      using True unfolding required_ok_def Let_def by blast+
    then show ?thesis unfolding operation_problem_def Let_def or_text_def using assms by (simp only: if_False if_True simp_thms)
  qed
  have val: "js_trim (op_value_text p) \<noteq> []" if "op_mode p = ''return_error'' \<or> op_mode p = ''prune_objects'' \<or> op_mode p = ''pass_headers''"
    using that True valued_modes by (auto simp: required_ok_def Let_def)
  consider "op_mode p = ''return_error''" | "op_mode p = ''prune_objects''" | "op_mode p = ''pass_headers''"
    | "op_mode p \<noteq> ''return_error''" "op_mode p \<noteq> ''prune_objects''" "op_mode p \<noteq> ''pass_headers''" by blast
  then show ?thesis
  proof cases
    case 1
    with val True show ?thesis
      by (simp add: step specific_ok_def return_error_None) (simp split: jsval.splits)
  next
    case 2
    with val True show ?thesis by (simp add: step specific_ok_def prune_None)
  next
    case 3
    with val True show ?thesis by (simp add: step specific_ok_def pass_headers_None)
  next
    case 4
    with True show ?thesis by (simp add: step specific_ok_def)
  qed
qed

lemma required_meta:
  "m \<in> set FROM_REQUIRED_MODES \<Longrightarrow> mm_from (meta_of m)" "m \<in> set TO_REQUIRED_MODES \<Longrightarrow> mm_to (meta_of m)"
  "m \<in> set VALUE_REQUIRED_MODES \<Longrightarrow> mm_value (meta_of m)"
proof -
  have "list_all (\<lambda>m. mm_from (meta_of m)) FROM_REQUIRED_MODES" "list_all (\<lambda>m. mm_to (meta_of m)) TO_REQUIRED_MODES"
    "list_all (\<lambda>m. mm_value (meta_of m)) VALUE_REQUIRED_MODES" by code_simp+
  then show "m \<in> set FROM_REQUIRED_MODES \<Longrightarrow> mm_from (meta_of m)" "m \<in> set TO_REQUIRED_MODES \<Longrightarrow> mm_to (meta_of m)"
    "m \<in> set VALUE_REQUIRED_MODES \<Longrightarrow> mm_value (meta_of m)" by (simp_all add: list_all_iff)
qed

lemma set_meta: "mm_path (meta_of ''set'')"
  by (simp add: meta_of_def MODE_META_def no_meta_def)

section \<open>Reopening what was saved\<close>

lemma trim_source [simp]: "js_trim (source_of p) = source_of p" "js_trim (target_of p) = target_of p"
  by (simp_all add: source_of_def target_of_def)

text \<open>The rule that is read from the payload of a rule.\<close>

definition same_rule :: "param_operation \<Rightarrow> param_operation \<Rightarrow> bool" where
  "same_rule p q \<longleftrightarrow> op_mode q = op_mode p \<and> js_trim (op_description q) = js_trim (op_description p) \<and>
     op_path q = (if writes_path p then js_trim (op_path p) else []) \<and>
     op_from q = (if mm_from (meta_of (op_mode p)) then source_of p else []) \<and>
     op_to q = (if mm_to (meta_of (op_mode p)) \<or> js_trim (op_to p) \<noteq> [] then target_of p else []) \<and>
     op_value_text q = (if mm_value (meta_of (op_mode p)) then toValueText (parseLooseValue (op_value_text p)) else []) \<and>
     op_keep_origin q = (mm_keepOrigin (meta_of (op_mode p)) \<and> op_keep_origin p) \<and>
     (payload_conditions p \<noteq> [] \<longrightarrow> (op_logic q = ''AND'') = (op_logic p = ''AND'')) \<and>
     payload_conditions q = payload_conditions p"

lemma same_rule_payload:
  assumes "same_rule p q" "rereadable p"
  shows "payload_fields q = payload_fields p"
proof -
  note q = assms(1) [unfolded same_rule_def]
  have path: "writes_path q = writes_path p" "writes_path p \<Longrightarrow> js_trim (op_path q) = js_trim (op_path p)"
    using q by (auto simp: writes_path_def)
  have v: "mm_value (meta_of (op_mode p)) \<Longrightarrow> parseLooseValue (op_value_text q) = parseLooseValue (op_value_text p)"
    using q rereadable_value [OF assms(2)] by (simp add: keeps_value_def)
  have f: "mm_from (meta_of (op_mode p)) \<Longrightarrow> source_of q = source_of p"
    using q alias_meta [of "op_mode p"] by (auto simp: source_of_def writes_path_def)
  have t: "(mm_to (meta_of (op_mode p)) \<or> js_trim (op_to q) \<noteq> []) = (mm_to (meta_of (op_mode p)) \<or> js_trim (op_to p) \<noteq> [])"
    "mm_to (meta_of (op_mode p)) \<or> js_trim (op_to p) \<noteq> [] \<Longrightarrow> target_of q = target_of p"
    using q alias_meta [of "op_mode p"] by (auto simp: target_of_def writes_path_def)
  have "fields_of ((b, k, v) # fs) = fields_of ((b', k, v') # fs')" if "b = b'" "b \<Longrightarrow> v = v'" "fields_of fs = fields_of fs'" for b b' k v v' fs fs'
    using that by (simp add: fields_of_Cons)
  note step = this
  show ?thesis
    unfolding payload_fields_def Let_def
    by (intro step) (use q path v f t in auto)
qed

lemma same_rule_valid:
  assumes "same_rule p q" "rereadable p" "required_ok p" "specific_ok (op_mode p) (parseLooseValue (op_value_text p)) (op_prune_draft p)"
    "op_prune_draft q = (if op_mode p = ''prune_objects'' then Some (fst (prune_of_value clock (parseLooseValue (op_value_text p)) n)) else None)"
  shows "operation_problem q line = None" "\<not> isOperationBlank q"
proof -
  note q = assms(1) [unfolded same_rule_def]
  have mode: "op_mode q \<noteq> []" using q assms(2) by (auto simp: rereadable_def)
  have v: "mm_value (meta_of (op_mode p)) \<Longrightarrow> parseLooseValue (op_value_text q) = parseLooseValue (op_value_text p)"
    using q rereadable_value [OF assms(2)] by (simp add: keeps_value_def)
  have val: "js_trim (op_value_text q) \<noteq> []" if "op_mode p \<in> set VALUE_REQUIRED_MODES"
  proof
    assume "js_trim (op_value_text q) = []"
    then have "parseLooseValue (op_value_text p) = JStr []" using v required_meta(3) [OF that] by simp
    then have "js_trim (op_value_text p) = []" using rereadable_value [OF assms(2)] required_meta(3) [OF that] by simp
    then show False using assms(3) that by (simp add: required_ok_def Let_def)
  qed
  have path: "mm_path (meta_of (op_mode p)) \<Longrightarrow> js_trim (op_path q) \<noteq> []"
    using q assms(3) by (simp add: required_ok_def Let_def writes_path_def)
  have from': "js_trim (op_from q) \<noteq> []" if "op_mode p \<in> set FROM_REQUIRED_MODES"
    using q assms(3) that required_meta(1) [OF that] by (auto simp: required_ok_def Let_def source_of_def)
  have to': "js_trim (op_to q) \<noteq> []" if "op_mode p \<in> set TO_REQUIRED_MODES"
    using q assms(3) that required_meta(2) [OF that] by (auto simp: required_ok_def Let_def target_of_def)
  have "required_ok q" using q path from' to' val by (simp add: required_ok_def Let_def)
  moreover have "specific_ok (op_mode q) (parseLooseValue (op_value_text q)) (op_prune_draft q)"
  proof (cases "op_mode p = ''prune_objects''")
    case True
    have nv: "names_what (parseLooseValue (op_value_text p))" using assms(2) True by (simp add: rereadable_def)
    have "jget x ''type'' \<noteq> JUndefined \<Longrightarrow> (case x of JObj kvs \<Rightarrow> map_of kvs ''type'' \<noteq> None | _ \<Rightarrow> False)" for x
      by (cases x) (auto simp: jget_def split: option.splits)
    with nv have "draft_named (fst (prune_of_value clock (parseLooseValue (op_value_text p)) n)) \<or>
      (case parseLooseValue (op_value_text p) of JObj kvs \<Rightarrow> map_of kvs ''type'' \<noteq> None | _ \<Rightarrow> False)"
      using draft_named_value [of clock _ n "\<lambda>_. 0" 0] by (auto simp: names_what_def)
    then show ?thesis using q v True assms(5) required_meta(3) [of "op_mode p"] valued_modes by (simp add: specific_ok_def)
  next
    case False
    have "parseLooseValue (op_value_text q) = parseLooseValue (op_value_text p)"
      if "op_mode p = ''return_error'' \<or> op_mode p = ''pass_headers''"
      using that v required_meta(3) valued_modes by metis
    moreover have "op_mode q = op_mode p" using q by simp
    ultimately show ?thesis using assms(4) False unfolding specific_ok_def by metis
  qed
  ultimately show "operation_problem q line = None" using problem_None [OF mode] by simp
  show "\<not> isOperationBlank q"
    using q path set_meta by (auto simp: isOperationBlank_def Let_def)
qed

lemma logic_reads: "logic_of ''AND'' ''OR'' (JStr (if b then ''AND'' else ''OR'')) = ''AND'' \<longleftrightarrow> b"
  by (simp add: logic_of_def or_val_def jtruthy_def js_to_upper_def char_to_upper_def)

lemma reopened_rule:
  assumes "rereadable p" "operation_problem p i = None"
  obtains q m where "normalizeOperation clock (operation_payload p) n = Inr (q, m)" "operation_payload q = operation_payload p"
    "\<And>line. operation_problem q line = None" "\<not> isOperationBlank q"
proof -
  have mode: "op_mode p \<noteq> []" using assms(1) by (auto simp: rereadable_def)
  note get = payload_get [of p]
  define v where "v = JObj (payload_fields p)"
  note get = payload_get [of p, folded v_def]
  define d where "d = read_draft clock v (Suc n)"
  have cs: "read_conditions clock (jget v ''conditions'') (snd d) = Inr (map_ids (condition_of clock) (payload_conditions p) (snd d))"
    using payload_conditions_ok(3) [of p clock "snd d"] assms(1)
    by (cases "payload_conditions p = []") (auto simp: get rereadable_def read_conditions_def)
  define q where "q = read_rule (nextLocalId clock n) v (fst d) (fst (map_ids (condition_of clock) (payload_conditions p) (snd d)))"
  have norm: "normalizeOperation clock v n = Inr (q, snd (map_ids (condition_of clock) (payload_conditions p) (snd d)))"
    using cs by (simp add: normalizeOperation_def v_def [symmetric] d_def [symmetric] q_def case_prod_beta) (simp add: v_def)
  have value_text: "toValueText (jget v ''value'') = (if mm_value (meta_of (op_mode p)) then toValueText (parseLooseValue (op_value_text p)) else [])"
    by (simp add: get toValueText_def)
  have same: "same_rule p q"
    unfolding same_rule_def
  proof (intro conjI)
    show "payload_conditions q = payload_conditions p"
      using payload_conditions_ok(4) [of p clock "snd d"] assms(1)
      by (simp add: q_def read_rule_def payload_conditions_def [of "read_rule _ _ _ _"] payload_conditions_def rereadable_def)
    show "payload_conditions p \<noteq> [] \<longrightarrow> (op_logic q = ''AND'') = (op_logic p = ''AND'')"
      using logic_reads [of "op_logic p = ''AND''"] by (simp add: q_def read_rule_def get)
    show "op_mode q = op_mode p" using assms(1) by (simp add: q_def read_rule_def get offered_or_def rereadable_def)
  qed (simp_all add: q_def read_rule_def get value_text string_or_empty_def)
  have draft: "op_prune_draft q = (if op_mode p = ''prune_objects'' then Some (fst (prune_of_value clock (parseLooseValue (op_value_text p)) (Suc n))) else None)"
  proof (cases "op_mode p = ''prune_objects''")
    case True
    have "mm_value (meta_of (op_mode p))" using True valued_modes required_meta(3) by simp
    moreover have "keeps_value (op_value_text p)" using rereadable_value [OF assms(1)] calculation by simp
    ultimately show ?thesis
      using True by (simp add: q_def read_rule_def d_def read_draft_def get case_prod_beta parse_prune_value keeps_value_def)
  qed (simp add: q_def read_rule_def d_def read_draft_def get)
  have ok: "required_ok p" "specific_ok (op_mode p) (parseLooseValue (op_value_text p)) (op_prune_draft p)"
    using assms(2) problem_None [OF mode] by auto
  have "op_mode q \<noteq> []" using same mode by (simp add: same_rule_def)
  then have "operation_payload q = operation_payload p"
    using payload_written [OF mode] payload_written [of q] same_rule_payload [OF same assms(1)] by simp
  then show thesis
    using that norm same_rule_valid [OF same assms(1) ok draft] payload_written [OF mode] by (simp add: v_def)
qed

lemma reopened_rules:
  assumes "\<forall>p \<in> set ops. rereadable p \<and> (\<exists>i. operation_problem p i = None)"
  shows "\<exists>qs m. map_ids_exn (normalizeOperation clock) (map operation_payload ops) n = Inr (qs, m) \<and>
    map operation_payload qs = map operation_payload ops \<and> (\<forall>q \<in> set qs. \<not> isOperationBlank q \<and> (\<forall>line. operation_problem q line = None))"
  using assms
proof (induction ops arbitrary: n)
  case (Cons p ops)
  then obtain i where i: "operation_problem p i = None" by auto
  obtain q m where q: "normalizeOperation clock (operation_payload p) n = Inr (q, m)" "operation_payload q = operation_payload p"
    "\<And>line. operation_problem q line = None" "\<not> isOperationBlank q"
    by (rule reopened_rule [OF _ i, of clock n]) (use Cons.prems in auto)
  obtain qs k where "map_ids_exn (normalizeOperation clock) (map operation_payload ops) m = Inr (qs, k)"
    "map operation_payload qs = map operation_payload ops"
    "\<forall>q \<in> set qs. \<not> isOperationBlank q \<and> (\<forall>line. operation_problem q line = None)"
    using Cons.IH [of m] Cons.prems by auto
  with q show ?case by (intro exI [of _ "q # qs"] exI [of _ k]) auto
qed simp

lemma validate_from_None: "validate_from i ops = None \<longleftrightarrow> (\<forall>j < length ops. operation_problem (ops ! j) (i + j + 1) = None)"
proof (induction ops arbitrary: i)
  case (Cons p ops)
  then show ?case by (auto simp: All_less_Suc2 split: option.splits)
qed simp

lemma validated_rules: "validate_from i ops = None \<Longrightarrow> \<forall>p \<in> set ops. \<exists>line. operation_problem p line = None"
  unfolding validate_from_None in_set_conv_nth by (metis in_set_conv_nth)

lemma validate_all: "(\<And>p line. p \<in> set ops \<Longrightarrow> operation_problem p line = None) \<Longrightarrow> validateOperations ops = None"
  by (simp add: validateOperations_def validate_from_None)

lemma operations_text:
  assumes "\<forall>p \<in> set ops. rereadable p" "v = operations_object (map operation_payload ops)"
  shows "json_ok v" "js_order v = v"
proof -
  have "json_ok (operation_payload p) \<and> js_order (operation_payload p) = operation_payload p" if "p \<in> set ops" for p
  proof -
    have "rereadable p" "op_mode p \<noteq> []" using assms(1) that by (auto simp: rereadable_def)
    then show ?thesis using payload_json payload_written by metis
  qed
  then have "list_all json_ok (map operation_payload ops)" "map js_order (map operation_payload ops) = map operation_payload ops"
    by (auto simp: list_all_iff)
  then show "json_ok v" "js_order v = v" using assms(2)
    by (simp_all add: operations_object_def js_order_object del: js_order.simps(2) map_map)
qed

lemma saved_reopens:
  assumes "buildOperationsJson ops True = Inr t" "t \<noteq> []" "\<forall>p \<in> set ops. isOperationBlank p \<or> rereadable p"
  shows "\<exists>st m. parseInitialState clock t n = Inr (st, m) \<and> es_editMode st = VisualEdit \<and> es_visualMode st = OperationsView \<and>
    buildOperationsJson (es_operations st) True = Inr t"
proof -
  let ?kept = "filter (\<lambda>p. \<not> isOperationBlank p) ops"
  let ?v = "operations_object (map operation_payload ?kept)"
  have ne: "?kept \<noteq> []" and valid: "validateOperations ?kept = None" and t: "t = json_pretty [] ?v"
    using assms(1,2) by (auto simp: buildOperationsJson_def Let_def split: if_splits option.splits)
  have re: "\<forall>p \<in> set ?kept. rereadable p" using assms(3) by auto
  have read: "json_read (js_trim t) = Some ?v"
    using read_pretty [OF operations_text [OF re refl]] unfolding t operations_object_def object_text_trimmed(1) .
  have nb: "js_trim t \<noteq> []" unfolding t operations_object_def object_text_trimmed(1) by (rule object_text_trimmed(2))
  obtain qs m where qs: "map_ids_exn (normalizeOperation clock) (map operation_payload ?kept) n = Inr (qs, m)"
    "map operation_payload qs = map operation_payload ?kept"
    "\<forall>q \<in> set qs. \<not> isOperationBlank q \<and> (\<forall>line. operation_problem q line = None)"
    using reopened_rules [of ?kept clock n] re validated_rules [OF valid [unfolded validateOperations_def]] by blast
  have "filter (\<lambda>p. \<not> isOperationBlank p) qs = qs" using qs(3) by (simp add: filter_id_conv)
  moreover have "qs \<noteq> []" using ne qs(2) by auto
  moreover have "validateOperations qs = None" using qs(3) by (intro validate_all) blast
  ultimately have "buildOperationsJson qs True = Inr t" using qs(2) t by (simp add: buildOperationsJson_def)
  moreover have "operations_of clock (map operation_payload ?kept) n = Inr (qs, m)" using ne qs(1) by (simp add: operations_of_def)
  ultimately show ?thesis
    using read nb unfolding parseInitialState_def Let_def operations_object_def
    by simp
qed

end
