(* ===== verification/Override_Drafts.thy ===== *)
theory Override_Drafts
  imports Override_Text
begin

text \<open>
  The drafts of \<open>return_error\<close> and \<open>prune_objects\<close> and the targets of \<open>sync_fields\<close>: what is read back of the text written
  for them.
\<close>

section \<open>The draft of \<open>return_error\<close>\<close>

lemma status_range:
  obtains k where "status_or_400 x = Fin (of_int k)" "100 \<le> k" "k \<le> 599"
proof (cases "is_integer x \<and> js_le (Fin 100) x \<and> js_le x (Fin 599)")
  case True
  then obtain k where k: "x = Fin (of_int k)" "(100 :: rat) \<le> of_int k" "of_int k \<le> (599 :: rat)"
    by (cases x) (auto simp: is_integer_def js_le_def)
  then have "(of_int 100 :: rat) \<le> of_int k" "of_int k \<le> (of_int 599 :: rat)" by simp_all
  then have "100 \<le> k" "k \<le> 599" by (simp_all only: of_int_le_iff)
  then show ?thesis using True k by (intro that [of k]) (simp_all add: status_or_400_def)
next
  case False
  then have "status_or_400 x = Fin (of_int 400)" by (auto simp: status_or_400_def)
  then show ?thesis by (rule that) simp_all
qed

lemma status_json: "json_num_ok (status_or_400 x)"
proof -
  obtain k where k: "status_or_400 x = Fin (of_int k)" "100 \<le> k" "k \<le> 599" by (rule status_range)
  have "representable (of_int k)" by (rule representable_of_int) (use k in simp)
  then show ?thesis by (simp add: number_reads_back k(1))
qed

lemma status_idem [simp]: "status_or_400 (status_or_400 x) = status_or_400 x"
proof -
  obtain k where "status_or_400 x = Fin (of_int k)" "100 \<le> k" "k \<le> 599" by (rule status_range)
  then show ?thesis by (simp add: status_or_400_def is_integer_def)
qed

definition return_error_fields :: "return_error_draft \<Rightarrow> (string \<times> jsval) list" where
  "return_error_fields d = fields_of
     [(True, ''message'', JStr (js_trim (re_message d))), (True, ''status_code'', JNum (status_or_400 (re_statusCode d))),
      (js_trim (re_code d) \<noteq> [], ''code'', JStr (js_trim (re_code d))),
      (js_trim (re_type d) \<noteq> [], ''type'', JStr (js_trim (re_type d))),
      (\<not> re_skipRetry d, ''skip_retry'', JBool False)]"

lemma return_error_written: "return_error_payload d = JObj (return_error_fields d)"
  by (simp only: return_error_payload_def return_error_fields_def Let_def fields_of_Cons fields_of_Nil append_Nil2 append_assoc if_True
      append_Cons append_Nil)

lemma field_text_string [simp]: "field_text (JStr s) = js_trim s" "field_text JUndefined = []"
  by (simp_all add: field_text_def or_val_def jtruthy_def)

lemma return_error_reads_back:
  assumes "\<not> re_simpleMode d"
  shows "parseReturnErrorDraft (buildReturnErrorValueText d) =
    d\<lparr>re_message := js_trim (re_message d), re_statusCode := status_or_400 (re_statusCode d), re_code := js_trim (re_code d),
      re_type := js_trim (re_type d)\<rparr>"
proof -
  let ?v = "JObj (return_error_fields d)"
  have ok: "json_ok ?v" by (simp add: return_error_fields_def fields_of_distinct status_json)
  have "js_order ?v = ?v" by (rule js_order_object) (simp add: return_error_fields_def)
  with ok have read: "json_read (js_trim (json_text ?v)) = Some ?v" unfolding object_compact_trimmed by (rule read_text)
  have get: "jget ?v ''message'' = JStr (js_trim (re_message d))" "jget ?v ''status_code'' = JNum (status_or_400 (re_statusCode d))"
    "jget ?v ''msg'' = JUndefined"
    "jget ?v ''code'' = (if js_trim (re_code d) \<noteq> [] then JStr (js_trim (re_code d)) else JUndefined)"
    "jget ?v ''type'' = (if js_trim (re_type d) \<noteq> [] then JStr (js_trim (re_type d)) else JUndefined)"
    "jget ?v ''skip_retry'' = (if re_skipRetry d then JUndefined else JBool False)"
    by (simp_all add: return_error_fields_def)
  have message: "field_text (or_val (JStr (js_trim (re_message d))) JUndefined) = js_trim (re_message d)"
    by (cases "js_trim (re_message d) = []") (simp_all add: or_val_def jtruthy_def)
  have "parseReturnErrorDraft (json_text ?v) =
     \<lparr>re_message = js_trim (re_message d), re_statusCode = status_or_400 (re_statusCode d), re_code = js_trim (re_code d),
      re_type = js_trim (re_type d), re_skipRetry = re_skipRetry d, re_simpleMode = False\<rparr>"
    unfolding parseReturnErrorDraft_def Let_def object_compact_trimmed
    using read [unfolded object_compact_trimmed] object_compact_trimmed(2)
    by (simp add: get message js_to_number_def del: jget_obj json_text.simps)
  then show ?thesis using assms by (simp add: buildReturnErrorValueText_def return_error_written del: json_text.simps)
qed

section \<open>The draft of \<open>prune_objects\<close>\<close>

text \<open>What is read back of a rule of the draft, its identifier aside.\<close>

definition keeps_prune_rule :: "param_condition \<Rightarrow> bool" where
  "keeps_prune_rule r \<longleftrightarrow> condition_ok r \<and> (cn_mode r = ''regex'' \<or> js_trim (cn_value_text r) = [] \<or> plain_text (cn_value_text r))"

definition reread_rule :: "param_condition \<Rightarrow> param_condition" where
  "reread_rule r = r\<lparr>cn_path := js_trim (cn_path r),
     cn_value_text := (if cn_mode r = ''regex'' then cn_value_text r else if js_trim (cn_value_text r) = [] then []
       else toValueText (parseLooseValue (cn_value_text r)))\<rparr>"

definition prune_condition_fields :: "param_condition \<Rightarrow> (string \<times> jsval) list" where
  "prune_condition_fields r = fields_of
     [(True, ''path'', JStr (js_trim (cn_path r))), (True, ''mode'', JStr (cn_mode r)),
      (cn_mode r = ''regex'' \<or> js_trim (cn_value_text r) \<noteq> [], ''value'', parseConditionValue r),
      (cn_invert r, ''invert'', JBool True), (cn_pass_missing_key r, ''pass_missing_key'', JBool True)]"

lemma prune_condition_written: "condition_ok r \<Longrightarrow> prune_condition_payload r = JObj (prune_condition_fields r)"
  by (simp only: prune_condition_payload_def prune_condition_fields_def condition_ok_def fields_of_Cons fields_of_Nil append_Nil2
      append_assoc if_True append_Cons append_Nil)

lemma prune_condition_json:
  assumes "keeps_prune_rule r"
  shows "json_ok (prune_condition_payload r)" "js_order (prune_condition_payload r) = prune_condition_payload r"
    "(fst (condition_of clock (prune_condition_payload r) n))\<lparr>cn_id := i\<rparr> = (reread_rule r)\<lparr>cn_id := i\<rparr>"
    "is_js_object (prune_condition_payload r)"
proof -
  have c: "condition_ok r" using assms by (simp add: keeps_prune_rule_def)
  note w = prune_condition_written [OF c]
  have v: "cn_mode r = ''regex'' \<or> js_trim (cn_value_text r) \<noteq> [] \<Longrightarrow> json_ok (parseConditionValue r)"
    using assms plain_text_keeps by (auto simp: keeps_prune_rule_def parseConditionValue_def keeps_value_def)
  have vo: "js_order (parseConditionValue r) = parseConditionValue r" by (simp add: parseConditionValue_def)
  show "json_ok (prune_condition_payload r)" unfolding w using v by (simp add: prune_condition_fields_def fields_of_distinct)
  show "js_order (prune_condition_payload r) = prune_condition_payload r"
    unfolding w by (rule js_order_object) (simp add: prune_condition_fields_def vo)
  show "is_js_object (prune_condition_payload r)" by (simp add: w is_js_object_def)
  show "(fst (condition_of clock (prune_condition_payload r) n))\<lparr>cn_id := i\<rparr> = (reread_rule r)\<lparr>cn_id := i\<rparr>"
    using c unfolding w condition_of_def reread_rule_def
    by (simp add: prune_condition_fields_def string_or_empty_def offered_or_def condition_ok_def parseConditionValue_def)
qed

definition named_rules :: "prune_draft \<Rightarrow> param_condition list" where
  "named_rules d = filter (\<lambda>r. js_trim (cn_path r) \<noteq> []) (pd_rules d)"

definition prune_fields :: "prune_draft \<Rightarrow> (string \<times> jsval) list" where
  "prune_fields d = fields_of
     [(js_trim (pd_typeText d) \<noteq> [], ''type'', JStr (js_trim (pd_typeText d))),
      (pd_logic d = ''OR'', ''logic'', JStr ''OR''), (\<not> pd_recursive d, ''recursive'', JBool False),
      (named_rules d \<noteq> [], ''conditions'', JArr (map prune_condition_payload (named_rules d)))]"

lemma logic_upper: "l = ''AND'' \<or> l = ''OR'' \<Longrightarrow> js_to_upper (or_text l ''AND'') = ''OR'' \<longleftrightarrow> l = ''OR''"
  by (auto simp: js_to_upper_def char_to_upper_def or_text_def)

lemma prune_written:
  assumes "pd_logic d = ''AND'' \<or> pd_logic d = ''OR''" "js_trim (pd_typeText d) \<noteq> [] \<or> named_rules d \<noteq> []"
  shows "prune_payload d = JObj (prune_fields d)"
proof -
  have ne: "\<not> (js_trim (pd_typeText d) = [] \<and> named_rules d = [])" using assms(2) by simp
  show ?thesis
    unfolding prune_payload_def Let_def named_rules_def [symmetric] prune_fields_def fields_of_Cons fields_of_Nil append_Nil2
    by (simp only: ne if_False logic_upper [OF assms(1)] map_is_Nil_conv)
qed

lemma rules_reread:
  "\<forall>r \<in> set rs. keeps_prune_rule r \<Longrightarrow>
     map (cn_id_update (\<lambda>_. i)) (fst (map_ids (condition_of clock) (map prune_condition_payload rs) n)) =
     map (\<lambda>r. (reread_rule r)\<lparr>cn_id := i\<rparr>) rs"
  by (induction rs arbitrary: n) (auto simp: Let_def case_prod_beta prune_condition_json(3))

lemma logic_reread: "l = ''AND'' \<or> l = ''OR'' \<Longrightarrow> logic_of ''OR'' ''AND'' (if l = ''OR'' then JStr ''OR'' else JUndefined) = l"
  by (auto simp: logic_of_def or_val_def jtruthy_def js_to_upper_def char_to_upper_def)

text \<open>A draft in the advanced form that names what to prune is read back, the rules without a path left out; with nothing
  but a type it is read back in the simple form.\<close>

lemma prune_reads_back:
  assumes "\<not> pd_simpleMode d" "pd_logic d = ''AND'' \<or> pd_logic d = ''OR''" "js_trim (pd_typeText d) \<noteq> [] \<or> named_rules d \<noteq> []"
    "\<forall>r \<in> set (named_rules d). keeps_prune_rule r" "d' = fst (parsePruneObjectsDraft clock (buildPruneObjectsValueText d) n)"
  shows "pd_typeText d' = js_trim (pd_typeText d)" "pd_logic d' = pd_logic d" "pd_recursive d' = pd_recursive d"
    "pd_simpleMode d' \<longleftrightarrow> pd_logic d = ''AND'' \<and> pd_recursive d \<and> named_rules d = []"
    "map (cn_id_update (\<lambda>_. i)) (pd_rules d') = map (\<lambda>r. (reread_rule r)\<lparr>cn_id := i\<rparr>) (named_rules d)"
proof -
  let ?v = "JObj (prune_fields d)"
  have rules: "json_ok (prune_condition_payload r)" "js_order (prune_condition_payload r) = prune_condition_payload r"
    "is_js_object (prune_condition_payload r)" if "r \<in> set (named_rules d)" for r
    using that assms(4) prune_condition_json by auto
  have "list_all json_ok (map prune_condition_payload (named_rules d))" using rules(1) by (simp add: list_all_iff)
  then have ok: "json_ok ?v" by (simp add: prune_fields_def fields_of_distinct)
  have "map js_order (map prune_condition_payload (named_rules d)) = map prune_condition_payload (named_rules d)"
    using rules(2) by simp
  then have ord: "js_order ?v = ?v" by (intro js_order_object) (simp add: prune_fields_def del: map_map)
  have val: "parseLooseValue (json_text ?v) = ?v"
    using read_text [OF ok ord] object_compact_trimmed [of "prune_fields d"]
    unfolding parseLooseValue_def Let_def by (simp del: json_text.simps)
  have d': "d' = fst (prune_of_value clock ?v n)"
    using assms(1) by (simp add: assms(5) parse_prune_value buildPruneObjectsValueText_def prune_written [OF assms(2,3)] val
        del: json_text.simps)
  have get: "jget ?v ''type'' = (if js_trim (pd_typeText d) \<noteq> [] then JStr (js_trim (pd_typeText d)) else JUndefined)"
    "jget ?v ''logic'' = (if pd_logic d = ''OR'' then JStr ''OR'' else JUndefined)"
    "jget ?v ''recursive'' = (if pd_recursive d then JUndefined else JBool False)" "jget ?v ''where'' = JUndefined"
    "jget ?v ''conditions'' = (if named_rules d \<noteq> [] then JArr (map prune_condition_payload (named_rules d)) else JUndefined)"
    by (simp_all add: prune_fields_def)
  have objects: "filter is_js_object (map prune_condition_payload (named_rules d)) = map prune_condition_payload (named_rules d)"
    using rules(3) by (auto simp: filter_id_conv)
  have rs: "fst (prune_rules clock ?v n) = fst (map_ids (condition_of clock) (map prune_condition_payload (named_rules d)) n)"
    using objects by (simp add: prune_rules_def get entry_rules_def Let_def case_prod_beta del: jget_obj)
  show "pd_typeText d' = js_trim (pd_typeText d)" "pd_recursive d' = pd_recursive d"
    by (simp_all add: d' prune_of_value_def get del: jget_obj)
  show "pd_logic d' = pd_logic d" using logic_reread [OF assms(2)] by (simp add: d' prune_of_value_def get del: jget_obj)
  show "pd_simpleMode d' \<longleftrightarrow> pd_logic d = ''AND'' \<and> pd_recursive d \<and> named_rules d = []"
    using assms(2) by (auto simp: d' prune_of_value_def get simp del: jget_obj)
  show "map (cn_id_update (\<lambda>_. i)) (pd_rules d') = map (\<lambda>r. (reread_rule r)\<lparr>cn_id := i\<rparr>) (named_rules d)"
    using rules_reread [OF assms(4)] by (simp add: d' prune_of_value_def rs del: jget_obj)
qed

section \<open>Targets of \<open>sync_fields\<close>\<close>

lemma sync_target_reads_back:
  assumes "js_trim key \<noteq> []" "kind = ''json'' \<or> kind = ''header''"
  shows "parseSyncTargetSpec (buildSyncTargetSpec kind key) = (kind, js_trim key)"
proof -
  have spec: "buildSyncTargetSpec kind key = kind @ CHR '':'' # js_trim key"
    using assms by (auto simp: buildSyncTargetSpec_def Let_def)
  have "last (js_trim key) = last (kind @ CHR '':'' # js_trim key)" using assms(1) by simp
  moreover have "\<not> is_ws (last (js_trim key))" using trimmed_js_trim [of key] assms(1) unfolding trimmed_def by blast
  ultimately have tr: "js_trim (kind @ CHR '':'' # js_trim key) = kind @ CHR '':'' # js_trim key"
    using assms(2) by (intro js_trim_id) (auto simp: trimmed_def is_ws_def ordc_def)
  have lower: "js_to_lower (js_trim kind) = kind"
    using assms(2) by (auto simp: js_to_lower_def char_to_lower_def js_trim_def is_ws_def ordc_def)
  show ?thesis
    unfolding parseSyncTargetSpec_def spec tr Let_def using assms(2) lower by auto
qed

end
