(* ===== verification/Override_Properties.thy ===== *)
theory Override_Properties
  imports Override_Drafts
begin

text \<open>
  The properties of the parameter override editor of a channel.
\<close>

section \<open>The rules of the editor\<close>

lemma keep_selected_found:
  assumes "ed_operations s \<noteq> []"
  shows "\<exists>p \<in> set (ed_operations s). selectedOperation (keepSelected s) = Some p \<and> op_id p = ed_selected (keepSelected s)"
proof -
  let ?s = "keepSelected s"
  have ops: "ed_operations ?s = ed_operations s" by (simp add: keepSelected_def split: list.splits)
  have "\<exists>p \<in> set (ed_operations s). op_id p = ed_selected ?s"
    using assms by (auto simp: keepSelected_def list_ex_iff split: list.splits)
  then obtain p where "selectedOperation ?s = Some p"
    unfolding selectedOperation_def ops by (metis (mono_tags, lifting) find_None_iff not_None_eq)
  then show ?thesis unfolding selectedOperation_def ops by (metis (mono_tags, lifting) find_Some_iff nth_mem)
qed

text \<open>C36. Whatever the user does in the override editor and whenever it renders, its list of rules is never empty; no two
  rules, conditions or rows of a draft have the same identifier; every rule has one of the offered modes and one of the two
  logics, and has a draft exactly when its mode is \<open>prune_objects\<close>; and once the effect on the selection has run, the selected
  rule is one of the rules.\<close>

theorem override_editor_consistent:
  assumes "(editor_step clock)\<^sup>*\<^sup>* (editor_mount clock n) s"
  shows "ed_operations s \<noteq> [] \<and> distinct (all_ids (ed_operations s)) \<and> list_all rule_ok (ed_operations s) \<and>
    (\<exists>p \<in> set (ed_operations s). selectedOperation (keepSelected s) = Some p \<and> op_id p = ed_selected (keepSelected s))"
proof -
  have "editor_ok clock s" using editor_run_ok [OF assms editor_mount_ok] .
  then show ?thesis using keep_selected_found [of s] by (auto simp: editor_ok_def ops_ok_def ids_between_def)
qed

theorem override_editor_consistent_witness:
  "distinct (all_ids (ed_operations (removeOperation (\<lambda>_. 7) ''po_7_0'' (addOperation (\<lambda>_. 7) (editor_mount (\<lambda>_. 7) 0)))))"
proof -
  let ?c = "\<lambda>_ :: nat. 7 :: nat"
  let ?m = "editor_mount ?c 0"
  have "editor_step ?c ?m (addOperation ?c ?m)"
    "editor_step ?c (addOperation ?c ?m) (removeOperation ?c ''po_7_0'' (addOperation ?c ?m))"
    by (rule editor_step.intros)+
  then have "(editor_step ?c)\<^sup>*\<^sup>* ?m (removeOperation ?c ''po_7_0'' (addOperation ?c ?m))"
    by (meson converse_rtranclp_into_rtranclp r_into_rtranclp)
  from override_editor_consistent [OF this] show ?thesis by blast
qed

lemma local_id_nonempty: "nextLocalId clock n \<noteq> []"
  by (simp add: nextLocalId_def)

lemma op_ids_nonempty: "ids_made clock 0 n (all_ids ops) \<Longrightarrow> p \<in> set ops \<Longrightarrow> op_id p \<noteq> []"
proof -
  assume a: "ids_made clock 0 n (all_ids ops)" "p \<in> set ops"
  have "op_id p \<in> set (all_ids ops)" using a(2) ids_of_op_id [of p] unfolding all_ids_def by (simp del: ids_of_op_id) blast
  then show ?thesis using a(1) local_id_nonempty by (auto simp: ids_between_def)
qed

text \<open>C39. In every reachable state a rule that is dragged onto another lands directly before or after it, as the pointer last
  showed for that rule; the other rules keep their order, no rule is lost or doubled, the moved rule is selected and the drag is
  over.\<close>

theorem dropped_rule_lands:
  assumes "(editor_step clock)\<^sup>*\<^sup>* (editor_mount clock n) s" "p \<in> set (ed_operations s)" "q \<in> set (ed_operations s)"
    "op_id p \<noteq> op_id q" "ed_dragged s = op_id p"
  shows "ed_operations (handleDrop carried (op_id q) s) =
      landed p (op_id q) (if ed_dragOver s = op_id q then ed_dragPosition s else BeforeRule)
        (filter (\<lambda>x. op_id x \<noteq> op_id p) (ed_operations s)) \<and>
    mset (ed_operations (handleDrop carried (op_id q) s)) = mset (ed_operations s) \<and>
    ed_selected (handleDrop carried (op_id q) s) = op_id p \<and> ed_dragged (handleDrop carried (op_id q) s) = []"
proof -
  have ok: "ids_made clock 0 (ed_seed s) (all_ids (ed_operations s))"
    using editor_run_ok [OF assms(1) editor_mount_ok] by (simp add: editor_ok_def ops_ok_def)
  have ne: "op_id p \<noteq> []" "op_id q \<noteq> []" using op_ids_nonempty [OF ok] assms(2,3) by auto
  let ?others = "filter (\<lambda>x. op_id x \<noteq> op_id p) (ed_operations s)"
  note lands = reorder_lands [OF op_ids_distinct [OF ok] assms(2-4) ne]
  have "mset (landed p (op_id q) position ?others) = mset (ed_operations s)" for position
    using reorder_mset [of "ed_operations s" "op_id p" "op_id q" position] unfolding lands .
  then show ?thesis using lands assms(4,5) ne by (simp add: handleDrop_def Let_def resetDragState_def or_text_def)
qed

theorem dropped_rule_lands_witness:
  "ed_selected (handleDrop [] ''po_7_0'' (handleDragStart ''po_7_1'' (addOperation (\<lambda>_. 7) (editor_mount (\<lambda>_. 7) 0)))) = ''po_7_1''"
proof -
  let ?c = "\<lambda>_ :: nat. 7 :: nat"
  let ?m = "editor_mount ?c 0"
  let ?s = "handleDragStart ''po_7_1'' (addOperation ?c ?m)"
  have "editor_step ?c ?m (addOperation ?c ?m)" "editor_step ?c (addOperation ?c ?m) ?s" by (rule editor_step.intros)+
  then have run: "(editor_step ?c)\<^sup>*\<^sup>* ?m ?s" by (meson converse_rtranclp_into_rtranclp r_into_rtranclp)
  have digits: "show_pos 7 = ''7''" "show_pos 0 = ''0''" "show_pos 1 = ''1''" by code_simp+
  define p0 p1 where "p0 = fst (createDefaultOperation ?c 0)" and "p1 = fst (createDefaultOperation ?c (Suc 0))"
  have ops: "ed_operations ?s = [p0, p1]" "ed_dragged ?s = ''po_7_1''"
    by (simp_all add: handleDragStart_def addOperation_def editor_mount_def case_prod_beta p0_def p1_def)
  have ids: "op_id p0 = ''po_7_0''" "op_id p1 = ''po_7_1''"
    by (simp_all add: createDefaultOperation_def nextLocalId_def digits p0_def p1_def)
  have "ed_selected (handleDrop [] (op_id p0) ?s) = op_id p1"
    using dropped_rule_lands [OF run, of p1 p0 "[]"] ops ids by simp
  then show ?thesis unfolding ids .
qed

section \<open>Saving\<close>

text \<open>C37. What the editor saves opens as what was saved: the text written for valid rules opens in the visual editor, and saving
  the rules read from it writes the same text again.  It is assumed that the values are written as they are read: a value is
  no string that is a JSON text itself or has blanks around it, and holds no infinite number and no negative zero; and that
  the text of a pruning rule, read again, names what to prune.\<close>

theorem saved_rules_reopen:
  assumes "buildOperationsJson ops True = Inr t" "t \<noteq> []" "\<forall>p \<in> set ops. isOperationBlank p \<or> rereadable p"
  shows "\<exists>st m. parseInitialState clock t n = Inr (st, m) \<and> es_editMode st = VisualEdit \<and> es_visualMode st = OperationsView \<and>
    buildOperationsJson (es_operations st) True = Inr t"
  by (rule saved_reopens [OF assms])

lemma first_problem_from:
  assumes "\<not> (\<forall>j < length ps. operation_problem (ps ! j) (k + j + 1) = None)"
  shows "\<exists>i e. i < length ps \<and> operation_problem (ps ! i) (k + i + 1) = Some e \<and>
    (\<forall>j < i. operation_problem (ps ! j) (k + j + 1) = None) \<and> validate_from k ps = Some e"
  using assms
proof (induction ps arbitrary: k)
  case (Cons p ps)
  show ?case
  proof (cases "operation_problem p (k + 1)")
    case None
    then have "\<not> (\<forall>j < length ps. operation_problem (ps ! j) (Suc k + j + 1) = None)"
      using Cons.prems by (auto simp: All_less_Suc2)
    from Cons.IH [OF this] obtain i e where "i < length ps" "operation_problem (ps ! i) (Suc k + i + 1) = Some e"
      "\<forall>j < i. operation_problem (ps ! j) (Suc k + j + 1) = None" "validate_from (Suc k) ps = Some e" by blast
    with None show ?thesis by (intro exI [of _ "Suc i"] exI [of _ e]) (auto simp: All_less_Suc2)
  next
    case (Some e)
    then show ?thesis by (intro exI [of _ 0] exI [of _ e]) simp
  qed
qed simp

lemma first_problem:
  assumes "\<not> (\<forall>p \<in> set ps. \<forall>line. operation_problem p line = None)" "\<And>p l l'. p \<in> set ps \<Longrightarrow> operation_problem p l = None \<Longrightarrow> operation_problem p l' = None"
  shows "\<exists>i e. i < length ps \<and> operation_problem (ps ! i) (i + 1) = Some e \<and>
    (\<forall>j < i. operation_problem (ps ! j) (j + 1) = None) \<and> validateOperations ps = Some e"
proof -
  have "\<not> (\<forall>j < length ps. operation_problem (ps ! j) (0 + j + 1) = None)"
    using assms by (metis in_set_conv_nth)
  from first_problem_from [OF this] show ?thesis by (simp add: validateOperations_def)
qed

definition sample_rule :: param_operation where
  "sample_rule = \<lparr>op_id = ''po_7_0'', op_description = [], op_path = ''mode'', op_mode = ''set'', op_from = [], op_to = [],
     op_value_text = ''fast'', op_keep_origin = True, op_logic = ''AND'',
     op_conditions = [\<lparr>cn_id = ''po_7_1'', cn_path = ''model'', cn_mode = ''gt'', cn_value_text = ''12'', cn_invert = False,
       cn_pass_missing_key = True\<rparr>], op_prune_draft = None\<rparr>"

theorem saved_rules_reopen_witness:
  "\<exists>st m. parseInitialState (\<lambda>_. 7) (json_pretty [] (operations_object [operation_payload sample_rule])) 0 = Inr (st, m) \<and>
     es_editMode st = VisualEdit \<and> es_visualMode st = OperationsView \<and>
     buildOperationsJson (es_operations st) True = Inr (json_pretty [] (operations_object [operation_payload sample_rule]))"
proof -
  have built: "buildOperationsJson [sample_rule] True = Inr (json_pretty [] (operations_object [operation_payload sample_rule]))"
    by code_simp
  have "plain_text ''fast''" "plain_text ''12''" by code_simp+
  moreover have "meta_of ''set'' = no_meta\<lparr>mm_path := True, mm_value := True, mm_keepOrigin := True\<rparr>"
    by (simp add: meta_of_def MODE_META_def)
  ultimately have "rereadable sample_rule"
    by (simp add: rereadable_def sample_rule_def keeps_condition_def condition_ok_def CONDITION_MODE_VALUES_def
        CONDITION_MODE_OPTIONS_def)
  then show ?thesis by (intro saved_rules_reopen [OF built]) (simp_all add: operations_object_def)
qed

text \<open>C38. Saving from the visual editor stores the text of all rules that are not blank and closes the dialog when every one of
  them has what its mode needs, a path, a source, a target or a value as the mode asks for, a message for an error given as an
  object, something to prune, a header to pass; otherwise it reports the first problem of the first rule that has one, with its line
  among these rules, and stores nothing.\<close>

theorem save_or_report:
  assumes "ed_editMode s = VisualEdit" "ed_visualMode s = OperationsView" "list_all rule_ok (ed_operations s)"
    "kept = filter (\<lambda>p. \<not> isOperationBlank p) (ed_operations s)"
  shows "if \<forall>p \<in> set kept. rule_complete p
     then ed_log (handleSave s) = ed_log s @
       [Saved (if kept = [] then [] else json_pretty [] (operations_object (map operation_payload kept))), Closed]
     else \<exists>i e. i < length kept \<and> \<not> rule_complete (kept ! i) \<and> (\<forall>j < i. rule_complete (kept ! j)) \<and>
       operation_problem (kept ! i) (i + 1) = Some e \<and> ed_log (handleSave s) = ed_log s @ [Toast e]"
proof -
  have ok: "operation_problem p line = None \<longleftrightarrow> rule_complete p" if "p \<in> set kept" for p line
  proof -
    have "rule_ok p" using assms(3,4) that by (auto simp: list_all_iff)
    then have "op_mode p \<noteq> []" by (auto simp: rule_ok_def)
    then show ?thesis unfolding rule_complete_def by (rule problem_None)
  qed
  have saved: "saved_text s = (if kept = [] then Inr [] else case validateOperations kept of Some e \<Rightarrow> Inl e
      | None \<Rightarrow> Inr (json_pretty [] (operations_object (map operation_payload kept))))"
    using assms(1,2) unfolding assms(4) by (simp add: saved_text_def buildVisualJson_def buildOperationsJson_def Let_def)
  show ?thesis
  proof (cases "\<forall>p \<in> set kept. rule_complete p")
    case True
    then have "validateOperations kept = None" by (intro validate_all) (simp add: ok)
    then show ?thesis unfolding if_P [OF True] by (simp add: handleSave_def saved)
  next
    case False
    then obtain i e where i: "i < length kept" "operation_problem (kept ! i) (i + 1) = Some e"
      "\<forall>j < i. operation_problem (kept ! j) (j + 1) = None" "validateOperations kept = Some e"
      using first_problem [of kept] ok by (metis (no_types, lifting))
    have "\<not> rule_complete (kept ! i)" using ok [OF nth_mem [OF i(1)], of "i + 1"] i(2) by simp
    moreover have "\<forall>j < i. rule_complete (kept ! j)" using ok i(1,3) by (meson less_trans nth_mem)
    moreover have "ed_log (handleSave s) = ed_log s @ [Toast e]" using i by (auto simp: handleSave_def saved)
    ultimately show ?thesis unfolding if_not_P [OF False] using i(1,2) by blast
  qed
qed

theorem save_or_report_witness:
  "ed_log (handleSave ((editor_mount (\<lambda>_. 7) 0)\<lparr>ed_operations := [sample_rule]\<rparr>)) =
     [Saved (json_pretty [] (operations_object [operation_payload sample_rule])), Closed]"
proof -
  let ?s = "(editor_mount (\<lambda>_. 7) 0)\<lparr>ed_operations := [sample_rule]\<rparr>"
  have s: "ed_editMode ?s = VisualEdit" "ed_visualMode ?s = OperationsView" "ed_log ?s = []" "ed_operations ?s = [sample_rule]"
    by (simp_all add: editor_mount_def case_prod_beta)
  have facts: "rule_ok sample_rule" "\<not> isOperationBlank sample_rule" "rule_complete sample_rule" by code_simp+
  show ?thesis using save_or_report [OF s(1,2) _ refl] facts by (simp add: s)
qed

section \<open>Drafts\<close>


text \<open>A draft of a pruning rule in the advanced form that names a type or a path is kept by its text: read again it has the same type,
  logic and recursion and, in their order, the rows that have a path, each with its mode and its flags and, for a regular expression, its
  text as it was typed; only the identifiers are new.  A draft with nothing but a type is read in the simple form.\<close>

theorem prune_draft_reads_back:
  assumes "\<not> pd_simpleMode d" "pd_logic d = ''AND'' \<or> pd_logic d = ''OR''" "js_trim (pd_typeText d) \<noteq> [] \<or> named_rules d \<noteq> []"
    "\<forall>r \<in> set (named_rules d). keeps_prune_rule r"
  shows "let d' = fst (parsePruneObjectsDraft clock (buildPruneObjectsValueText d) n)
    in pd_typeText d' = js_trim (pd_typeText d) \<and> pd_logic d' = pd_logic d \<and> pd_recursive d' = pd_recursive d \<and>
       (pd_simpleMode d' \<longleftrightarrow> pd_logic d = ''AND'' \<and> pd_recursive d \<and> named_rules d = []) \<and>
       map (cn_id_update (\<lambda>_. [])) (pd_rules d') = map (\<lambda>r. (reread_rule r)\<lparr>cn_id := []\<rparr>) (named_rules d)"
  unfolding Let_def
  by (intro conjI prune_reads_back(1-4) [OF assms refl] prune_reads_back(5) [OF assms refl])

definition sample_draft :: prune_draft where
  "sample_draft = \<lparr>pd_simpleMode = False, pd_typeText = '' thinking '', pd_logic = ''OR'', pd_recursive = True,
     pd_rules = [\<lparr>cn_id = ''a'', cn_path = ''role'', cn_mode = ''regex'', cn_value_text = ''12'', cn_invert = True,
         cn_pass_missing_key = False\<rparr>,
       \<lparr>cn_id = ''b'', cn_path = [], cn_mode = ''full'', cn_value_text = ''x'', cn_invert = False, cn_pass_missing_key = False\<rparr>]\<rparr>"

theorem prune_draft_reads_back_witness:
  "pd_typeText (fst (parsePruneObjectsDraft (\<lambda>_. 7) (buildPruneObjectsValueText sample_draft) 0)) = ''thinking''"
proof -
  have "js_trim (pd_typeText sample_draft) = ''thinking''" "\<not> pd_simpleMode sample_draft" "pd_logic sample_draft = ''OR''"
    "list_all keeps_prune_rule (named_rules sample_draft)" by code_simp+
  then show ?thesis
    using prune_draft_reads_back [of sample_draft "\<lambda>_. 7" 0] by (simp add: Let_def list_all_iff)
qed

section \<open>Where the editor surprises\<close>

text \<open>A value typed as a quoted number is saved as a string and becomes a number when the rules are opened and saved again.\<close>

lemma quoted_number_retyped:
  "parseLooseValue [dquote, CHR ''5'', dquote] = JStr ''5''"
  "parseLooseValue (toValueText (parseLooseValue [dquote, CHR ''5'', dquote])) = JNum (Fin 5)"
  by code_simp+

text \<open>A rule \<open>null\<close> in the saved text makes opening the dialog throw.\<close>

lemma null_rule_throws:
  "parseInitialState clock (json_pretty [] (operations_object [JNull])) n = Inl type_error"
proof -
  have "json_read (js_trim (json_pretty [] (operations_object [JNull]))) = Some (operations_object [JNull])"
    "js_trim (json_pretty [] (operations_object [JNull])) \<noteq> []" by code_simp+
  then show ?thesis
    by (simp add: parseInitialState_def operations_object_def operations_of_def normalizeOperation_def del: json_pretty.simps)
qed

text \<open>The kind of a target of \<open>sync_fields\<close> cannot be chosen before its key is typed.\<close>

lemma sync_kind_lost: "parseSyncTargetSpec (choose_sync_type [] ''header'') = (''json'', [])"
  by (simp add: choose_sync_type_def parseSyncTargetSpec_def buildSyncTargetSpec_def)

text \<open>The first digit of a status code, typed into the empty field, makes it 400; a blank typed at the end of a message is dropped.\<close>

lemma typed_digit_resets:
  "re_statusCode (parseReturnErrorDraft (buildReturnErrorValueText (d\<lparr>re_simpleMode := False, re_statusCode := Fin 5\<rparr>))) = Fin 400"
  using return_error_reads_back [of "d\<lparr>re_simpleMode := False, re_statusCode := Fin 5\<rparr>"]
  by (simp add: status_or_400_def js_le_def)

lemma js_trim_blank_end: "js_trim (m @ '' '') = js_trim m"
proof -
  have "is_ws (CHR '' '')" by (simp add: is_ws_def ordc_def)
  then show ?thesis unfolding js_trim_def
    by (cases "\<exists>c \<in> set m. \<not> is_ws c") (auto simp: dropWhile_append dest: set_dropWhileD)
qed

lemma typed_blank_dropped:
  "re_message (parseReturnErrorDraft (buildReturnErrorValueText (d\<lparr>re_simpleMode := False, re_message := m @ '' ''\<rparr>))) = js_trim m"
  using return_error_reads_back [of "d\<lparr>re_simpleMode := False, re_message := m @ '' ''\<rparr>"] by (simp add: js_trim_blank_end)

text \<open>A target typed for one mode is saved with every other mode, also with those whose editor does not show it.\<close>

lemma hidden_target_saved:
  assumes "op_mode p = ''set''" "js_trim (op_to p) \<noteq> []"
  shows "jget (operation_payload p) ''to'' = JStr (js_trim (op_to p))" "\<not> mm_to (meta_of ''set'')" "\<not> mm_from (meta_of ''set'')"
proof -
  have m: "meta_of ''set'' = no_meta\<lparr>mm_path := True, mm_value := True, mm_keepOrigin := True\<rparr>"
    by (simp add: meta_of_def MODE_META_def)
  show "\<not> mm_to (meta_of ''set'')" "\<not> mm_from (meta_of ''set'')" by (simp_all add: m no_meta_def)
  show "jget (operation_payload p) ''to'' = JStr (js_trim (op_to p))"
    using payload_written [of p] payload_get(7) [of p] assms by (simp add: target_of_def m no_meta_def)
qed

end
