(* ===== verification/Channel_Form.thy ===== *)
theory Channel_Form
  imports Custom_Routes JS_Json_Order
begin

text \<open>
  The form of a channel (\<open>features/channels/lib/channel-form.ts\<close>): its fields, the schema that accepts it, the
  form made of a channel the server sent and the two requests made of a form.

  A form is a record.  The settings the server stores as JSON texts are read by a cast, so what the form holds of them may
  be any value of JavaScript; \<open>typed_extra\<close> and \<open>typed_special\<close> are the declared types.  An optional field is an option,
  where \<open>None\<close> is \<open>undefined\<close> in a form and \<open>undefined\<close> or \<open>null\<close> in a channel.  The requests are objects, lists of
  members in their order.  The constructor \<open>new URL\<close> is a parameter.
\<close>

section \<open>Channel types\<close>

definition CHANNEL_TYPE_NEW_API :: jsnum where
  "CHANNEL_TYPE_NEW_API = Fin 60"

definition MODEL_FETCHABLE_TYPES :: "jsnum list" where
  "MODEL_FETCHABLE_TYPES =
     map Fin [1, 4, 14, 17, 20, 23, 24, 25, 26, 27, 31, 34, 35, 40, 42, 43, 47, 48, 57, 58, 59, 60]"

definition FIELD_PASSTHROUGH_TYPES :: "jsnum list" where
  "FIELD_PASSTHROUGH_TYPES = [Fin 1, Fin 14, Fin 57, Fin 58, Fin 59, CHANNEL_TYPE_NEW_API]"

definition OPENAI_FIELD_PASSTHROUGH_TYPES :: "jsnum list" where
  "OPENAI_FIELD_PASSTHROUGH_TYPES = [Fin 1, Fin 57, Fin 58, Fin 59, CHANNEL_TYPE_NEW_API]"

definition CLAUDE_FIELD_PASSTHROUGH_TYPES :: "jsnum list" where
  "CLAUDE_FIELD_PASSTHROUGH_TYPES = [Fin 14, Fin 58, Fin 59, CHANNEL_TYPE_NEW_API]"

abbreviation advanced_custom_type :: jsnum where
  "advanced_custom_type \<equiv> Fin (of_nat CHANNEL_TYPE_ADVANCED_CUSTOM)"

section \<open>Checks of single fields\<close>

text \<open>\<open>s.indexOf(sub)\<close>; \<open>None\<close> is -1.\<close>

fun text_index :: "string \<Rightarrow> string \<Rightarrow> nat option" where
  "text_index [] sub = (if sub = [] then Some 0 else None)"
| "text_index (c # s) sub = (if js_starts_with (c # s) sub then Some 0 else map_option Suc (text_index s sub))"

definition SUPPORTED_PROXY_PROTOCOLS :: "string list" where
  "SUPPORTED_PROXY_PROTOCOLS = [''http:'', ''https:'', ''socks5:'', ''socks5h:'']"

text \<open>\<open>new URL(text)\<close>: its protocol, host name and port, or nothing when the constructor throws.\<close>

type_synonym proxy_parser = "string \<Rightarrow> (string \<times> string \<times> string) option"

definition isOptionalProxyURL :: "proxy_parser \<Rightarrow> string option \<Rightarrow> bool" where
  "isOptionalProxyURL url v =
     (let trimmedValue = js_trim (coalesce v [])
      in if trimmedValue = [] then True
         else case text_index trimmedValue ''://'' of
             None \<Rightarrow> False
           | Some 0 \<Rightarrow> False
           | Some schemeSeparatorIndex \<Rightarrow>
               (let authorityAndSuffix = drop (schemeSeparatorIndex + 3) trimmedValue;
                    suffix = dropWhile (\<lambda>c. c \<notin> {CHR ''/'', CHR ''?'', CHR ''#''}) authorityAndSuffix
                in if suffix \<noteq> [] \<and> suffix \<noteq> ''/'' then False
                   else case url trimmedValue of
                       None \<Rightarrow> False
                     | Some (protocol, hostname, port) \<Rightarrow>
                         protocol \<in> set SUPPORTED_PROXY_PROTOCOLS \<and> hostname \<noteq> [] \<and> port \<noteq> ''0''))"

definition HTTP_PROTOCOL_AUTO :: string where
  "HTTP_PROTOCOL_AUTO = ''auto''"

definition HTTP_PROTOCOL_HTTP1 :: string where
  "HTTP_PROTOCOL_HTTP1 = ''http1''"

definition MAX_HTTP2_CONNECTION_SHARDS :: jsnum where
  "MAX_HTTP2_CONNECTION_SHARDS = Fin 8"

definition normalizeHttpProtocol :: "jsval \<Rightarrow> string" where
  "normalizeHttpProtocol v =
     (if js_to_lower (js_trim (js_string (or_val v (JStr [])))) = HTTP_PROTOCOL_HTTP1 then HTTP_PROTOCOL_HTTP1
      else HTTP_PROTOCOL_AUTO)"

definition is_nullish :: "jsval \<Rightarrow> bool" where
  "is_nullish v \<longleftrightarrow> v = JUndefined \<or> v = JNull"

definition normalizeHttp2ConnectionShards :: "jsval \<Rightarrow> jsval" where
  "normalizeHttp2ConnectionShards v =
     (if is_nullish v \<or> v = JNum NaN \<or> v = JNum (Fin 0) \<or> v = JNum NegZero then JNum (Fin 1)
      else if js_lt (js_to_number v) (Fin 1) then JNum (Fin 1)
      else if js_lt MAX_HTTP2_CONNECTION_SHARDS (js_to_number v) then JNum MAX_HTTP2_CONNECTION_SHARDS
      else v)"

text \<open>\<open>parseOptionalJson\<close> gives \<open>undefined\<close> for a blank text; \<open>None\<close> is a syntax error.\<close>

definition parseOptionalJson :: "string option \<Rightarrow> jsval option" where
  "parseOptionalJson v = (if js_trim (coalesce v []) = [] then Some JUndefined else json_read (coalesce v []))"

definition isJsonObjectValue :: "jsval \<Rightarrow> bool" where
  "isJsonObjectValue v \<longleftrightarrow> (case v of JObj _ \<Rightarrow> True | _ \<Rightarrow> False)"

definition isOptionalJsonObject :: "string option \<Rightarrow> bool" where
  "isOptionalJsonObject v =
     (case parseOptionalJson v of None \<Rightarrow> False | Some parsed \<Rightarrow> parsed = JUndefined \<or> isJsonObjectValue parsed)"

definition isOptionalModelMapping :: "string option \<Rightarrow> bool" where
  "isOptionalModelMapping v =
     (case parseOptionalJson v of
        None \<Rightarrow> False
      | Some JUndefined \<Rightarrow> True
      | Some (JObj kvs) \<Rightarrow> list_all (\<lambda>kv. is_jstr (snd kv)) kvs
      | Some _ \<Rightarrow> False)"

definition is_status_code :: "jsnum \<Rightarrow> bool" where
  "is_status_code x \<longleftrightarrow> is_integer x \<and> js_le (Fin 100) x \<and> js_le x (Fin 599)"

definition isOptionalStatusCodeMapping :: "string option \<Rightarrow> bool" where
  "isOptionalStatusCodeMapping v =
     (case parseOptionalJson v of
        None \<Rightarrow> False
      | Some JUndefined \<Rightarrow> True
      | Some (JObj kvs) \<Rightarrow> list_all (\<lambda>kv. is_status_code (js_number (fst kv)) \<and> is_status_code (js_to_number (snd kv))) kvs
      | Some _ \<Rightarrow> False)"

definition filled_text :: "jsval \<Rightarrow> bool" where
  "filled_text v \<longleftrightarrow> (case v of JStr s \<Rightarrow> js_trim s \<noteq> [] | _ \<Rightarrow> False)"

definition isCodexCredential :: "string option \<Rightarrow> bool" where
  "isCodexCredential v =
     (case parseOptionalJson v of
        None \<Rightarrow> False
      | Some JUndefined \<Rightarrow> True
      | Some parsed \<Rightarrow>
          isJsonObjectValue parsed \<and> filled_text (jget parsed ''access_token'') \<and> filled_text (jget parsed ''account_id''))"

definition isVertexJsonKey :: "string option \<Rightarrow> bool" where
  "isVertexJsonKey v =
     (case parseOptionalJson v of
        None \<Rightarrow> False
      | Some JUndefined \<Rightarrow> True
      | Some (JArr items) \<Rightarrow> list_all isJsonObjectValue items
      | Some parsed \<Rightarrow> isJsonObjectValue parsed)"

section \<open>The form\<close>

text \<open>The part of the form that is stored in the JSON text \<open>setting\<close>.\<close>

record extra_settings =
  xs_force_format :: jsval
  xs_thinking_to_content :: jsval
  xs_proxy :: jsval
  xs_http_protocol :: jsval
  xs_http2_connection_shards :: jsval
  xs_pass_through_body_enabled :: jsval
  xs_system_prompt :: jsval
  xs_system_prompt_override :: jsval
  xs_error_override_enabled :: jsval
  xs_error_override_message :: jsval
  xs_auto_test_disabled :: jsval

text \<open>The part that is stored in the JSON text \<open>settings\<close>.\<close>

record special_settings =
  ss_is_enterprise_account :: "bool option"
  ss_vertex_key_type :: jsval
  ss_vertex_project_id :: jsval
  ss_aws_key_type :: jsval
  ss_aws_api_type :: jsval
  ss_azure_responses_version :: jsval
  ss_allow_service_tier :: "bool option"
  ss_disable_store :: "bool option"
  ss_allow_safety_identifier :: "bool option"
  ss_allow_include_obfuscation :: "bool option"
  ss_allow_inference_geo :: "bool option"
  ss_allow_speed :: "bool option"
  ss_claude_beta_query :: "bool option"
  ss_disable_task_polling_sleep :: "bool option"
  ss_check_enabled :: "bool option"
  ss_auto_sync_enabled :: "bool option"
  ss_ignored_models :: "string option"
  ss_advanced_custom :: "string option"

record channel_form =
  fv_name :: string
  fv_type :: jsnum
  fv_base_url :: "string option"
  fv_key :: string
  fv_openai_organization :: "string option"
  fv_models :: string
  fv_group :: "string list"
  fv_model_mapping :: "string option"
  fv_priority :: "jsnum option"
  fv_weight :: "jsnum option"
  fv_test_model :: "string option"
  fv_auto_ban :: "jsnum option"
  fv_status :: jsnum
  fv_status_code_mapping :: "string option"
  fv_tag :: "string option"
  fv_remark :: "string option"
  fv_setting :: "string option"
  fv_param_override :: "string option"
  fv_header_override :: "string option"
  fv_settings :: "string option"
  fv_preserve_hidden_base_url :: "bool option"
  fv_preserve_hidden_proxy :: "bool option"
  fv_preserve_hidden_advanced_custom :: "bool option"
  fv_other :: "string option"
  fv_multi_key_mode :: "string option"
  fv_multi_key_type :: "string option"
  fv_batch_prefix :: "bool option"
  fv_key_mode :: "string option"
  fv_extra :: extra_settings
  fv_special :: special_settings

text \<open>The declared types of what comes from the stored settings.\<close>

definition opt_bool :: "jsval \<Rightarrow> bool" where
  "opt_bool v \<longleftrightarrow> v = JUndefined \<or> is_jbool v"

definition opt_str :: "jsval \<Rightarrow> bool" where
  "opt_str v \<longleftrightarrow> v = JUndefined \<or> is_jstr v"

definition opt_enum :: "string list \<Rightarrow> jsval \<Rightarrow> bool" where
  "opt_enum options v \<longleftrightarrow> v = JUndefined \<or> v \<in> set (map JStr options)"

definition opt_int :: "jsval \<Rightarrow> bool" where
  "opt_int v \<longleftrightarrow> (case v of JUndefined \<Rightarrow> True | JNum x \<Rightarrow> is_integer x \<and> \<bar>rv x\<bar> \<le> 9007199254740991 | _ \<Rightarrow> False)"

definition typed_extra :: "extra_settings \<Rightarrow> bool" where
  "typed_extra x \<longleftrightarrow> opt_bool (xs_force_format x) \<and> opt_bool (xs_thinking_to_content x) \<and> opt_str (xs_proxy x) \<and>
     opt_enum [''auto'', ''http1''] (xs_http_protocol x) \<and> opt_int (xs_http2_connection_shards x) \<and>
     opt_bool (xs_pass_through_body_enabled x) \<and> opt_str (xs_system_prompt x) \<and> opt_bool (xs_system_prompt_override x) \<and>
     opt_bool (xs_error_override_enabled x) \<and> opt_str (xs_error_override_message x) \<and> opt_bool (xs_auto_test_disabled x)"

definition typed_special :: "special_settings \<Rightarrow> bool" where
  "typed_special x \<longleftrightarrow> opt_enum [''json'', ''api_key''] (ss_vertex_key_type x) \<and> opt_str (ss_vertex_project_id x) \<and>
     opt_enum [''ak_sk'', ''api_key''] (ss_aws_key_type x) \<and> opt_enum [''invoke_model'', ''mantle''] (ss_aws_api_type x) \<and>
     opt_str (ss_azure_responses_version x)"

section \<open>The schema\<close>

text \<open>The checks of the fields.  The types of the record stand for the types of the schema; a number is finite.\<close>

definition opt_one_of :: "string list \<Rightarrow> string option \<Rightarrow> bool" where
  "opt_one_of options v \<longleftrightarrow> (case v of None \<Rightarrow> True | Some s \<Rightarrow> s \<in> set options)"

definition opt_finite :: "jsnum option \<Rightarrow> bool" where
  "opt_finite v \<longleftrightarrow> (case v of None \<Rightarrow> True | Some x \<Rightarrow> is_finite x)"

definition fields_accepted :: "proxy_parser \<Rightarrow> channel_form \<Rightarrow> bool" where
  "fields_accepted url f \<longleftrightarrow> fv_name f \<noteq> [] \<and> is_finite (fv_type f) \<and> js_le (Fin 0) (fv_type f) \<and> fv_models f \<noteq> [] \<and>
     fv_group f \<noteq> [] \<and> isOptionalModelMapping (fv_model_mapping f) \<and> opt_finite (fv_priority f) \<and>
     opt_finite (fv_weight f) \<and> opt_finite (fv_auto_ban f) \<and> is_finite (fv_status f) \<and>
     isOptionalStatusCodeMapping (fv_status_code_mapping f) \<and> length (coalesce (fv_remark f) []) \<le> 255 \<and>
     isOptionalJsonObject (fv_setting f) \<and> isOptionalJsonObject (fv_param_override f) \<and>
     isOptionalJsonObject (fv_header_override f) \<and> isOptionalJsonObject (fv_settings f) \<and>
     opt_one_of [''single'', ''batch'', ''multi_to_single''] (fv_multi_key_mode f) \<and>
     opt_one_of [''random'', ''polling''] (fv_multi_key_type f) \<and> opt_one_of [''append'', ''replace''] (fv_key_mode f) \<and>
     typed_extra (fv_extra f) \<and> typed_special (fv_special f) \<and> isOptionalProxyURL url (jstr (xs_proxy (fv_extra f)))"

text \<open>An issue names the field it is shown at.\<close>

type_synonym form_issue = "string \<times> string"

definition blank_opt :: "string option \<Rightarrow> bool" where
  "blank_opt v \<longleftrightarrow> js_trim (coalesce v []) = []"

definition issue_if :: "bool \<Rightarrow> string \<Rightarrow> string \<Rightarrow> form_issue list" where
  "issue_if c path message = (if c then [(path, message)] else [])"

definition base_url_issues :: "channel_form \<Rightarrow> form_issue list" where
  "base_url_issues f =
     issue_if (fv_type f \<in> {Fin 3, Fin 8, Fin 36, Fin 45, CHANNEL_TYPE_NEW_API} \<and>
         fv_preserve_hidden_base_url f \<noteq> Some True \<and> blank_opt (fv_base_url f))
       ''base_url'' ''Base URL is required for this channel type''"

definition advanced_custom_issues :: "url_parser \<Rightarrow> channel_form \<Rightarrow> form_issue list exn" where
  "advanced_custom_issues url f =
     (if fv_type f \<noteq> advanced_custom_type \<or> fv_preserve_hidden_advanced_custom f = Some True then Inr []
      else let advancedCustomConfig = parseAdvancedCustomConfig (ss_advanced_custom (fv_special f)) in
        bind_exn (validateAdvancedCustomConfig url advancedCustomConfig) (\<lambda>advancedCustomError.
        bind_exn (advancedCustomConfigUsesRelativeUpstreamPath advancedCustomConfig) (\<lambda>relative.
        bind_exn (if ss_check_enabled (fv_special f) = Some True
            then bind_exn (hasValidAdvancedCustomModelListRoute url advancedCustomConfig) (\<lambda>b. Inr (\<not> b)) else Inr False) (\<lambda>noList.
          Inr ((case advancedCustomError of None \<Rightarrow> [] | Some e \<Rightarrow> [(''advanced_custom'', ve_message e)]) @
            issue_if (relative \<and> fv_preserve_hidden_base_url f \<noteq> Some True \<and> blank_opt (fv_base_url f))
              ''base_url'' ''Base URL is required when an advanced route uses an upstream path'' @
            issue_if noList ''upstream_model_update_check_enabled''
              ''OpenAI Models route is required to enable upstream model checks'')))))"

definition batch_mode :: "channel_form \<Rightarrow> bool" where
  "batch_mode f \<longleftrightarrow> coalesce (fv_multi_key_mode f) [] \<notin> {[], ''single''}"

definition type_issues :: "channel_form \<Rightarrow> form_issue list" where
  "type_issues f =
     issue_if (fv_type f \<in> {Fin 3, Fin 18, Fin 21, Fin 39, Fin 41, Fin 49} \<and> blank_opt (fv_other f))
       ''other'' ''This channel type requires additional configuration'' @
     issue_if (fv_type f = Fin 57 \<and> batch_mode f) ''multi_key_mode'' ''Codex channels do not support batch creation'' @
     issue_if (fv_type f = Fin 57 \<and> js_trim (fv_key f) \<noteq> [] \<and> \<not> isCodexCredential (Some (fv_key f)))
       ''key'' ''Codex credential must be a JSON object with access_token and account_id'' @
     issue_if (fv_type f = Fin 41 \<and> ss_vertex_key_type (fv_special f) = JStr ''json'' \<and> js_trim (fv_key f) \<noteq> [] \<and>
         \<not> isVertexJsonKey (Some (fv_key f)))
       ''key'' ''Vertex AI service account key must be valid JSON'' @
     issue_if (fv_type f = Fin 41 \<and> ss_vertex_key_type (fv_special f) = JStr ''api_key'' \<and> batch_mode f)
       ''multi_key_mode'' ''Vertex AI API Key mode does not support batch creation''"

definition transport_issues :: "extra_settings \<Rightarrow> form_issue list" where
  "transport_issues x =
     (let protocol = normalizeHttpProtocol (xs_http_protocol x);
          shards = js_to_number (if is_nullish (xs_http2_connection_shards x) then JNum (Fin 1) else xs_http2_connection_shards x)
      in issue_if (js_lt shards (Fin 1) \<or> js_lt MAX_HTTP2_CONNECTION_SHARDS shards)
           ''http2_connection_shards'' ''HTTP/2 connection shards must be between 1 and 8'' @
         issue_if (protocol = HTTP_PROTOCOL_HTTP1 \<and> js_lt (Fin 1) shards)
           ''http2_connection_shards'' ''HTTP/2 connection shards must be 1 when HTTP/1.1 is selected'')"

text \<open>The refinement of the whole form.\<close>

definition form_issues :: "url_parser \<Rightarrow> channel_form \<Rightarrow> form_issue list exn" where
  "form_issues url f = bind_exn (advanced_custom_issues url f) (\<lambda>advanced.
     Inr (base_url_issues f @ advanced @ type_issues f @ transport_issues (fv_extra f)))"

definition channelFormSchema :: "url_parser \<Rightarrow> proxy_parser \<Rightarrow> channel_form \<Rightarrow> bool" where
  "channelFormSchema url proxy f \<longleftrightarrow> fields_accepted proxy f \<and> form_issues url f = Inr []"

section \<open>Initial values\<close>

definition default_extra :: extra_settings where
  "default_extra = \<lparr>xs_force_format = JBool False, xs_thinking_to_content = JBool False, xs_proxy = JStr [],
     xs_http_protocol = JStr HTTP_PROTOCOL_AUTO, xs_http2_connection_shards = JNum (Fin 1),
     xs_pass_through_body_enabled = JBool False, xs_system_prompt = JStr [], xs_system_prompt_override = JBool False,
     xs_error_override_enabled = JBool False, xs_error_override_message = JStr [], xs_auto_test_disabled = JBool False\<rparr>"

definition default_special :: special_settings where
  "default_special = \<lparr>ss_is_enterprise_account = Some False, ss_vertex_key_type = JStr ''json'', ss_vertex_project_id = JStr [],
     ss_aws_key_type = JStr ''ak_sk'', ss_aws_api_type = JStr ''invoke_model'', ss_azure_responses_version = JStr [],
     ss_allow_service_tier = Some False, ss_disable_store = Some False, ss_allow_safety_identifier = Some False,
     ss_allow_include_obfuscation = Some False, ss_allow_inference_geo = Some False, ss_allow_speed = Some False,
     ss_claude_beta_query = Some False, ss_disable_task_polling_sleep = Some False, ss_check_enabled = Some False,
     ss_auto_sync_enabled = Some False, ss_ignored_models = Some [], ss_advanced_custom = Some []\<rparr>"

definition CHANNEL_FORM_DEFAULT_VALUES :: channel_form where
  "CHANNEL_FORM_DEFAULT_VALUES = \<lparr>fv_name = [], fv_type = Fin 1, fv_base_url = Some [], fv_key = [],
     fv_openai_organization = Some [], fv_models = [], fv_group = [''default''], fv_model_mapping = Some [],
     fv_priority = Some (Fin 0), fv_weight = Some (Fin 0), fv_test_model = Some [], fv_auto_ban = Some (Fin 1),
     fv_status = Fin 1, fv_status_code_mapping = Some [], fv_tag = Some [], fv_remark = Some [], fv_setting = Some [],
     fv_param_override = Some [], fv_header_override = Some [], fv_settings = Some ''{}'', fv_preserve_hidden_base_url = None,
     fv_preserve_hidden_proxy = None, fv_preserve_hidden_advanced_custom = None, fv_other = Some [],
     fv_multi_key_mode = Some ''single'', fv_multi_key_type = Some ''random'', fv_batch_prefix = Some False,
     fv_key_mode = Some ''append'', fv_extra = default_extra, fv_special = default_special\<rparr>"

section \<open>From a channel to a form\<close>

text \<open>The fields of a channel that the form is made of.\<close>

record channel_detail =
  cd_id :: jsnum
  cd_type :: jsnum
  cd_name :: string
  cd_status :: jsnum
  cd_base_url :: "string option"
  cd_base_url_redacted :: "bool option"
  cd_proxy_configured :: "bool option"
  cd_advanced_custom_configured :: "bool option"
  cd_openai_organization :: "string option"
  cd_models :: string
  cd_group :: string
  cd_model_mapping :: "string option"
  cd_priority :: "jsnum option"
  cd_weight :: "jsnum option"
  cd_test_model :: "string option"
  cd_auto_ban :: "jsnum option"
  cd_status_code_mapping :: "string option"
  cd_tag :: "string option"
  cd_remark :: string
  cd_setting :: "string option"
  cd_param_override :: "string option"
  cd_header_override :: "string option"
  cd_settings :: string
  cd_other :: string
  cd_is_multi_key :: bool
  cd_multi_key_mode :: string

text \<open>\<open>a || b\<close> on texts, \<open>x || 0\<close> on an optional number.\<close>

definition text_or :: "string \<Rightarrow> string \<Rightarrow> string" where
  "text_or a b = (if a = [] then b else a)"

definition number_or_zero :: "jsnum option \<Rightarrow> jsnum" where
  "number_or_zero v = (case v of None \<Rightarrow> Fin 0 | Some x \<Rightarrow> if num_truthy x then x else Fin 0)"

text \<open>The extra settings read from the text \<open>setting\<close>; a text that is no JSON, or \<open>null\<close>, leaves the defaults.\<close>

definition read_extra :: "jsval \<Rightarrow> extra_settings" where
  "read_extra parsed =
     (let protocol = normalizeHttpProtocol (jget parsed ''http_protocol'');
          shards = normalizeHttp2ConnectionShards (jget parsed ''http2_connection_shards'')
      in \<lparr>xs_force_format = or_val (jget parsed ''force_format'') (JBool False),
          xs_thinking_to_content = or_val (jget parsed ''thinking_to_content'') (JBool False),
          xs_proxy = or_val (jget parsed ''proxy'') (JStr []),
          xs_http_protocol = JStr protocol,
          xs_http2_connection_shards = (if protocol = HTTP_PROTOCOL_HTTP1 then JNum (Fin 1) else shards),
          xs_pass_through_body_enabled = or_val (jget parsed ''pass_through_body_enabled'') (JBool False),
          xs_system_prompt = or_val (jget parsed ''system_prompt'') (JStr []),
          xs_system_prompt_override = or_val (jget parsed ''system_prompt_override'') (JBool False),
          xs_error_override_enabled = or_val (jget parsed ''error_override_enabled'') (JBool False),
          xs_error_override_message = or_val (jget parsed ''error_override_message'') (JStr []),
          xs_auto_test_disabled = or_val (jget parsed ''auto_test_disabled'') (JBool False)\<rparr>)"

definition extra_of :: "string option \<Rightarrow> extra_settings" where
  "extra_of setting =
     (case setting of
        None \<Rightarrow> default_extra
      | Some t \<Rightarrow>
          if t = [] then default_extra
          else case json_read t of None \<Rightarrow> default_extra | Some JNull \<Rightarrow> default_extra | Some parsed \<Rightarrow> read_extra parsed)"

text \<open>The special settings read from the text \<open>settings\<close>.  The configuration of routes is read last, so that one that
  throws leaves only itself empty.\<close>

definition read_special :: "jsval \<Rightarrow> special_settings" where
  "read_special parsed =
     (let flag = (\<lambda>k. Some (jget parsed k = JBool True))
      in \<lparr>ss_is_enterprise_account = flag ''openrouter_enterprise'',
          ss_vertex_key_type = or_val (jget parsed ''vertex_key_type'') (JStr ''json''),
          ss_vertex_project_id = or_val (jget parsed ''vertex_project_id'') (JStr []),
          ss_aws_key_type = or_val (jget parsed ''aws_key_type'') (JStr ''ak_sk''),
          ss_aws_api_type = or_val (jget parsed ''aws_api_type'') (JStr ''invoke_model''),
          ss_azure_responses_version = or_val (jget parsed ''azure_responses_version'') (JStr []),
          ss_allow_service_tier = flag ''allow_service_tier'', ss_disable_store = flag ''disable_store'',
          ss_allow_safety_identifier = flag ''allow_safety_identifier'',
          ss_allow_include_obfuscation = flag ''allow_include_obfuscation'',
          ss_allow_inference_geo = flag ''allow_inference_geo'', ss_allow_speed = flag ''allow_speed'',
          ss_claude_beta_query = flag ''claude_beta_query'',
          ss_disable_task_polling_sleep = flag ''disable_task_polling_sleep'',
          ss_check_enabled = flag ''upstream_model_update_check_enabled'',
          ss_auto_sync_enabled = flag ''upstream_model_update_auto_sync_enabled'',
          ss_ignored_models = Some (case jget parsed ''upstream_model_update_ignored_models'' of
              JArr vs \<Rightarrow> js_string (JArr vs) | _ \<Rightarrow> []),
          ss_advanced_custom = Some (if jtruthy (jget parsed ''advanced_custom'')
              then catch_exn (stringifyAdvancedCustomConfig (jget parsed ''advanced_custom'')) [] else [])\<rparr>)"

definition special_of :: "string \<Rightarrow> special_settings" where
  "special_of settings =
     (if settings = [] then default_special
      else case json_read settings of
          None \<Rightarrow> default_special | Some JNull \<Rightarrow> default_special | Some parsed \<Rightarrow> read_special parsed)"

definition parseGroups :: "string \<Rightarrow> string list" where
  "parseGroups groups = (if groups = [] then [] else filter (\<lambda>g. g \<noteq> []) (map js_trim (js_split (CHR '','') groups)))"

definition transformChannelToFormDefaults :: "channel_detail \<Rightarrow> channel_form" where
  "transformChannelToFormDefaults c =
     (let extraSettings = extra_of (cd_setting c); special = special_of (cd_settings c)
      in \<lparr>fv_name = cd_name c, fv_type = cd_type c, fv_base_url = Some (coalesce (cd_base_url c) []), fv_key = [],
          fv_openai_organization = Some (coalesce (cd_openai_organization c) []), fv_models = cd_models c,
          fv_group = parseGroups (text_or (cd_group c) ''default''), fv_model_mapping = Some (coalesce (cd_model_mapping c) []),
          fv_priority = Some (number_or_zero (cd_priority c)), fv_weight = Some (number_or_zero (cd_weight c)),
          fv_test_model = Some (coalesce (cd_test_model c) []), fv_auto_ban = Some (coalesce (cd_auto_ban c) (Fin 1)),
          fv_status = cd_status c, fv_status_code_mapping = Some (coalesce (cd_status_code_mapping c) []),
          fv_tag = Some (coalesce (cd_tag c) []), fv_remark = Some (cd_remark c),
          fv_setting = Some (coalesce (cd_setting c) []), fv_param_override = Some (coalesce (cd_param_override c) []),
          fv_header_override = Some (coalesce (cd_header_override c) []), fv_settings = Some (text_or (cd_settings c) ''{}''),
          fv_preserve_hidden_base_url = Some (cd_base_url_redacted c = Some True),
          fv_preserve_hidden_proxy = Some (cd_proxy_configured c = Some True \<and> \<not> jtruthy (xs_proxy extraSettings)),
          fv_preserve_hidden_advanced_custom =
            Some (cd_advanced_custom_configured c = Some True \<and> coalesce (ss_advanced_custom special) [] = []),
          fv_other = Some (cd_other c), fv_multi_key_mode = Some ''single'',
          fv_multi_key_type = Some (text_or (cd_multi_key_mode c) ''random''), fv_batch_prefix = Some False,
          fv_key_mode = Some ''append'', fv_extra = extraSettings, fv_special = special\<rparr>)"

section \<open>The stored settings of a form\<close>

definition extra_entries :: "extra_settings \<Rightarrow> (string \<times> jsval) list" where
  "extra_entries x =
     [(''force_format'', or_val (xs_force_format x) (JBool False)),
      (''thinking_to_content'', or_val (xs_thinking_to_content x) (JBool False)),
      (''pass_through_body_enabled'', or_val (xs_pass_through_body_enabled x) (JBool False)),
      (''system_prompt'', or_val (xs_system_prompt x) (JStr [])),
      (''system_prompt_override'', or_val (xs_system_prompt_override x) (JBool False)),
      (''error_override_enabled'', or_val (xs_error_override_enabled x) (JBool False)),
      (''error_override_message'', or_val (xs_error_override_message x) (JStr [])),
      (''auto_test_disabled'', or_val (xs_auto_test_disabled x) (JBool False))]"

definition transport_entries :: "extra_settings \<Rightarrow> (string \<times> jsval) list" where
  "transport_entries x =
     (let protocol = normalizeHttpProtocol (xs_http_protocol x);
          shards = (if protocol = HTTP_PROTOCOL_HTTP1 then JNum (Fin 1)
                    else normalizeHttp2ConnectionShards (xs_http2_connection_shards x))
      in if protocol = HTTP_PROTOCOL_HTTP1 then [(''http_protocol'', JStr HTTP_PROTOCOL_HTTP1)]
         else if js_lt (Fin 1) (js_to_number shards) then [(''http2_connection_shards'', shards)]
         else [])"

definition setting_object :: "channel_form \<Rightarrow> (string \<times> jsval) list exn" where
  "setting_object f =
     bind_exn (if fv_preserve_hidden_proxy f = Some True then Inr []
         else bind_exn (trim_opt (xs_proxy (fv_extra f))) (\<lambda>p. Inr [(''proxy'', JStr (coalesce p []))]))
       (\<lambda>proxy. Inr (extra_entries (fv_extra f) @ proxy @ transport_entries (fv_extra f)))"

definition buildSettingJSON :: "channel_form \<Rightarrow> string exn" where
  "buildSettingJSON f = bind_exn (setting_object f) (\<lambda>kvs. Inr (json_text (JObj kvs)))"

text \<open>What \<open>buildSettingsJSON\<close> starts from.\<close>

definition parsed_settings :: "channel_form \<Rightarrow> jsval" where
  "parsed_settings f =
     (let t = coalesce (fv_settings f) []
      in if t = [] \<or> t = ''{}'' then JObj [] else case json_read t of None \<Rightarrow> JObj [] | Some v \<Rightarrow> v)"

text \<open>\<open>if (c) o[k] = v else delete o[k]\<close>; deleting a key that is not there does nothing.\<close>

definition put_if :: "bool \<Rightarrow> string \<Rightarrow> jsval \<Rightarrow> (string \<times> jsval) list \<Rightarrow> (string \<times> jsval) list" where
  "put_if c k v kvs = (if c then obj_set k v kvs else obj_delete k kvs)"

definition flag_json :: "bool option \<Rightarrow> jsval" where
  "flag_json b = JBool (b = Some True)"

text \<open>The project of a Vertex AI channel, trimmed; only channels of that type read it.\<close>

definition vertex_project :: "channel_form \<Rightarrow> string exn" where
  "vertex_project f =
     (if fv_type f = Fin 41 then bind_exn (trim_opt (ss_vertex_project_id (fv_special f))) (\<lambda>p. Inr (coalesce p [])) else Inr [])"

definition put_vertex :: "channel_form \<Rightarrow> string \<Rightarrow> (string \<times> jsval) list \<Rightarrow> (string \<times> jsval) list" where
  "put_vertex f project kvs =
     (let keyType = or_val (ss_vertex_key_type (fv_special f)) (JStr ''json'')
      in put_if (fv_type f = Fin 41 \<and> keyType = JStr ''api_key'' \<and> project \<noteq> []) ''vertex_project_id'' (JStr project)
           (put_if (fv_type f = Fin 41) ''vertex_key_type'' keyType kvs))"

definition put_vendor :: "channel_form \<Rightarrow> (string \<times> jsval) list \<Rightarrow> (string \<times> jsval) list" where
  "put_vendor f kvs =
     (let s = fv_special f;
          k1 = put_if (fv_type f = Fin 3 \<and> jtruthy (ss_azure_responses_version s)) ''azure_responses_version''
            (ss_azure_responses_version s) kvs;
          k2 = put_if (fv_type f = Fin 20) ''openrouter_enterprise'' (flag_json (ss_is_enterprise_account s)) k1;
          k3 = put_if (fv_type f = Fin 33) ''aws_key_type'' (or_val (ss_aws_key_type s) (JStr ''ak_sk'')) k2
      in put_if (fv_type f = Fin 33) ''aws_api_type'' (or_val (ss_aws_api_type s) (JStr ''invoke_model'')) k3)"

definition put_passthrough :: "channel_form \<Rightarrow> (string \<times> jsval) list \<Rightarrow> (string \<times> jsval) list" where
  "put_passthrough f kvs =
     (let s = fv_special f;
          openai = (fv_type f \<in> set OPENAI_FIELD_PASSTHROUGH_TYPES);
          claude = (fv_type f \<in> set CLAUDE_FIELD_PASSTHROUGH_TYPES);
          k1 = put_if (fv_type f \<in> set FIELD_PASSTHROUGH_TYPES) ''allow_service_tier'' (flag_json (ss_allow_service_tier s)) kvs;
          k2 = put_if openai ''disable_store'' (flag_json (ss_disable_store s)) k1;
          k3 = put_if openai ''allow_safety_identifier'' (flag_json (ss_allow_safety_identifier s)) k2;
          k4 = put_if openai ''allow_include_obfuscation'' (flag_json (ss_allow_include_obfuscation s)) k3;
          k5 = put_if (openai \<or> claude) ''allow_inference_geo'' (flag_json (ss_allow_inference_geo s)) k4;
          k6 = put_if claude ''allow_speed'' (flag_json (ss_allow_speed s)) k5;
          k7 = put_if (fv_type f = Fin 14) ''claude_beta_query'' (flag_json (ss_claude_beta_query s)) k6
      in obj_set ''disable_task_polling_sleep'' (flag_json (ss_disable_task_polling_sleep s)) k7)"

definition ignored_models :: "special_settings \<Rightarrow> string list" where
  "ignored_models s = js_unique (filter (\<lambda>m. m \<noteq> []) (map js_trim (js_split (CHR '','') (coalesce (ss_ignored_models s) []))))"

definition is_jarr :: "jsval \<Rightarrow> bool" where
  "is_jarr v \<longleftrightarrow> (case v of JArr _ \<Rightarrow> True | _ \<Rightarrow> False)"

definition put_upstream :: "channel_form \<Rightarrow> (string \<times> jsval) list \<Rightarrow> (string \<times> jsval) list" where
  "put_upstream f kvs =
     (if fv_type f \<notin> set MODEL_FETCHABLE_TYPES then kvs
      else
        (let s = fv_special f; check = (ss_check_enabled s = Some True);
             k1 = obj_set ''upstream_model_update_check_enabled'' (JBool check) kvs;
             k2 = obj_set ''upstream_model_update_auto_sync_enabled'' (JBool (check \<and> ss_auto_sync_enabled s = Some True)) k1;
             k3 = obj_set ''upstream_model_update_ignored_models'' (JArr (map JStr (ignored_models s))) k2;
             k4 = (if is_jarr (jget (JObj k3) ''upstream_model_update_last_detected_models'') \<and> check
                   then k3 else obj_set ''upstream_model_update_last_detected_models'' (JArr []) k3)
         in if is_jnum (jget (JObj k4) ''upstream_model_update_last_check_time'') then k4
            else obj_set ''upstream_model_update_last_check_time'' (JNum (Fin 0)) k4))"

definition put_advanced :: "channel_form \<Rightarrow> (string \<times> jsval) list \<Rightarrow> (string \<times> jsval) list" where
  "put_advanced f kvs =
     (if fv_preserve_hidden_advanced_custom f = Some True then obj_delete ''advanced_custom'' kvs
      else if fv_type f = advanced_custom_type then
        (case parseAdvancedCustomConfig (ss_advanced_custom (fv_special f)) of
           None \<Rightarrow> kvs | Some config \<Rightarrow> obj_set ''advanced_custom'' config kvs)
      else obj_delete ''advanced_custom'' kvs)"

text \<open>A text that is an array keeps its elements only; a member of any other value cannot be assigned or looked up.\<close>

definition buildSettingsJSON :: "channel_form \<Rightarrow> string exn" where
  "buildSettingsJSON f =
     (case parsed_settings f of
        JObj kvs \<Rightarrow> bind_exn (vertex_project f) (\<lambda>project.
          Inr (json_text (JObj (put_advanced f (put_upstream f (put_passthrough f (put_vendor f (put_vertex f project kvs))))))))
      | JArr vs \<Rightarrow> bind_exn (vertex_project f) (\<lambda>_. Inr (json_text (JArr vs)))
      | _ \<Rightarrow> Inl type_error)"

section \<open>From a form to a request\<close>

definition normalizeBaseUrl :: "string option \<Rightarrow> string" where
  "normalizeBaseUrl v = rev (dropWhile (\<lambda>c. c = CHR ''/'') (rev (js_trim (coalesce v []))))"

definition formatGroups :: "string list \<Rightarrow> string" where
  "formatGroups groups = js_join '','' groups"

text \<open>\<open>t || null\<close>, \<open>x || null\<close>, \<open>x ?? d\<close>.\<close>

definition text_or_null :: "string option \<Rightarrow> jsval" where
  "text_or_null v = (if coalesce v [] = [] then JNull else JStr (coalesce v []))"

definition num_or_null :: "jsnum option \<Rightarrow> jsval" where
  "num_or_null v = (case v of None \<Rightarrow> JNull | Some x \<Rightarrow> if num_truthy x then JNum x else JNull)"

definition num_or :: "jsnum option \<Rightarrow> jsnum \<Rightarrow> jsval" where
  "num_or v d = JNum (coalesce v d)"

text \<open>Empty texts become \<open>null\<close>.\<close>

definition nulled :: "(string \<times> jsval) list \<Rightarrow> (string \<times> jsval) list" where
  "nulled kvs = map (\<lambda>(k, v). (k, if v = JStr [] then JNull else v)) kvs"

record create_payload =
  cp_mode :: string
  cp_multi_key_mode :: "string option"
  cp_batch_prefix :: "bool option"
  cp_channel :: "(string \<times> jsval) list"

definition transformFormDataToCreatePayload :: "channel_form \<Rightarrow> create_payload exn" where
  "transformFormDataToCreatePayload f =
     (let mode = text_or (coalesce (fv_multi_key_mode f) []) ''single'' in
      bind_exn (buildSettingJSON f) (\<lambda>setting.
      bind_exn (buildSettingsJSON f) (\<lambda>settings.
        Inr \<lparr>cp_mode = mode,
          cp_multi_key_mode = (if mode = ''multi_to_single'' then fv_multi_key_type f else None),
          cp_batch_prefix = (if mode = ''batch'' then fv_batch_prefix f else None),
          cp_channel = nulled
            [(''name'', JStr (fv_name f)), (''type'', JNum (fv_type f)),
             (''base_url'', text_or_null (Some (normalizeBaseUrl (fv_base_url f)))), (''key'', JStr (fv_key f)),
             (''openai_organization'', text_or_null (fv_openai_organization f)), (''models'', JStr (fv_models f)),
             (''group'', JStr (formatGroups (fv_group f))), (''model_mapping'', text_or_null (fv_model_mapping f)),
             (''priority'', num_or_null (fv_priority f)), (''weight'', num_or_null (fv_weight f)),
             (''test_model'', text_or_null (fv_test_model f)), (''auto_ban'', num_or (fv_auto_ban f) (Fin 1)),
             (''status'', JNum (fv_status f)), (''status_code_mapping'', text_or_null (fv_status_code_mapping f)),
             (''tag'', text_or_null (fv_tag f)), (''remark'', JStr (coalesce (fv_remark f) [])),
             (''setting'', JStr setting), (''param_override'', text_or_null (fv_param_override f)),
             (''header_override'', text_or_null (fv_header_override f)), (''settings'', JStr settings),
             (''other'', JStr (coalesce (fv_other f) []))]\<rparr>)))"

text \<open>The members of an update before the explicit empty texts are written into it.\<close>

definition update_members :: "channel_form \<Rightarrow> jsnum \<Rightarrow> string \<Rightarrow> string \<Rightarrow> (string \<times> jsval) list" where
  "update_members f channelId setting settings =
     [(''id'', JNum channelId), (''name'', JStr (fv_name f)), (''type'', JNum (fv_type f)),
      (''base_url'', text_or_null (Some (normalizeBaseUrl (fv_base_url f)))),
      (''openai_organization'', text_or_null (fv_openai_organization f)), (''models'', JStr (fv_models f)),
      (''group'', JStr (formatGroups (fv_group f))), (''model_mapping'', text_or_null (fv_model_mapping f)),
      (''priority'', num_or (fv_priority f) (Fin 0)), (''weight'', num_or (fv_weight f) (Fin 0)),
      (''test_model'', text_or_null (fv_test_model f)), (''auto_ban'', num_or (fv_auto_ban f) (Fin 1)),
      (''status_code_mapping'', text_or_null (fv_status_code_mapping f)), (''tag'', text_or_null (fv_tag f)),
      (''remark'', JStr (coalesce (fv_remark f) [])), (''setting'', JStr setting),
      (''param_override'', text_or_null (fv_param_override f)), (''header_override'', text_or_null (fv_header_override f)),
      (''settings'', JStr settings), (''other'', JStr (coalesce (fv_other f) []))] @
     (if js_trim (fv_key f) \<noteq> [] then [(''key'', JStr (fv_key f))] else [])"

text \<open>The texts that are sent empty rather than as \<open>null\<close>.\<close>

definition explicit_texts :: "channel_form \<Rightarrow> (string \<times> string) list" where
  "explicit_texts f =
     [(''base_url'', normalizeBaseUrl (fv_base_url f)), (''openai_organization'', coalesce (fv_openai_organization f) []),
      (''test_model'', coalesce (fv_test_model f) []), (''tag'', coalesce (fv_tag f) []), (''remark'', coalesce (fv_remark f) []),
      (''model_mapping'', coalesce (fv_model_mapping f) []), (''status_code_mapping'', coalesce (fv_status_code_mapping f) []),
      (''param_override'', coalesce (fv_param_override f) []), (''header_override'', coalesce (fv_header_override f) [])]"

definition transformFormDataToUpdatePayload :: "channel_form \<Rightarrow> jsnum \<Rightarrow> (string \<times> jsval) list exn" where
  "transformFormDataToUpdatePayload f channelId =
     bind_exn (buildSettingJSON f) (\<lambda>setting.
     bind_exn (buildSettingsJSON f) (\<lambda>settings.
       let payload = fold (\<lambda>(k, t). obj_set k (JStr t)) (explicit_texts f) (nulled (update_members f channelId setting settings))
       in Inr (if fv_preserve_hidden_base_url f = Some True then obj_delete ''base_url'' payload else payload)))"

section \<open>Other helpers\<close>

definition validateJSON :: "string \<Rightarrow> bool" where
  "validateJSON v \<longleftrightarrow> js_trim v = [] \<or> json_read v \<noteq> None"

definition validateModelMapping :: "string \<Rightarrow> bool" where
  "validateModelMapping v \<longleftrightarrow> js_trim v = [] \<or> validateJSON v"

definition parseModels :: "string \<Rightarrow> string list" where
  "parseModels models = (if models = [] then [] else filter (\<lambda>m. m \<noteq> []) (map js_trim (js_split (CHR '','') models)))"

definition formatModels :: "string list \<Rightarrow> string" where
  "formatModels models = js_join '','' models"

end
