(* ===== verification/Channel_Drawer.thy ===== *)
theory Channel_Drawer
  imports Channel_Form Channel_Models Status_Codes
begin

text \<open>
  The drawer in which a channel is created or edited
  (\<open>features/channels/components/drawers/channel-mutate-drawer.tsx\<close>) and the mutation it submits to
  (\<open>hooks/use-channel-mutate-form.ts\<close>): what is loaded into the form, the submission with its two questions, the request
  that is sent for the permissions of the user, and the key that is shown.

  The submission is cut at its awaits.  A question keeps the function that continues the submission in a reference, so the
  state has one slot per question; a later submission overwrites the slot.  The mutation sees the user and the edited overrides of
  the latest rendering.  What the drawer shows and sends is a log.
\<close>

section \<open>Permissions\<close>

definition SUPER_ADMIN :: jsval where
  "SUPER_ADMIN = JNum (Fin 100)"

definition hasPermission :: "jsval option \<Rightarrow> string \<Rightarrow> string \<Rightarrow> bool" where
  "hasPermission user resource action =
     (case user of
        None \<Rightarrow> False
      | Some u \<Rightarrow> jget u ''role'' = SUPER_ADMIN \<or>
          jget (jget (jget (jget u ''permissions'') ''admin_permissions'') resource) action = JBool True)"

section \<open>The mutation\<close>

definition SENSITIVE_UPDATE_FIELDS :: "string list" where
  "SENSITIVE_UPDATE_FIELDS =
     [''type'', ''key'', ''base_url'', ''openai_organization'', ''param_override'', ''header_override'', ''setting'', ''settings'', ''other'']"

text \<open>\<open>edited\<close> are the overrides that were edited.\<close>

definition update_data :: "bool \<Rightarrow> bool \<Rightarrow> string list \<Rightarrow> channel_form \<Rightarrow> jsnum \<Rightarrow> (string \<times> jsval) list exn" where
  "update_data canEditSensitive isMultiKeyChannel edited data channelId =
     bind_exn (transformFormDataToUpdatePayload data channelId) (\<lambda>payload.
       let p1 = (if js_trim (fv_key data) = [] then obj_delete ''key'' payload else payload);
           p2 = fold obj_delete (filter (\<lambda>field. field \<notin> set edited) [''param_override'', ''header_override'']) p1;
           p3 = (if canEditSensitive then p2 else fold obj_delete SENSITIVE_UPDATE_FIELDS p2);
           p4 = (if canEditSensitive \<and> isMultiKeyChannel \<and> js_trim (fv_key data) \<noteq> [] \<and> coalesce (fv_key_mode data) [] \<noteq> []
                 then obj_set ''key_mode'' (JStr (coalesce (fv_key_mode data) [])) p3 else p3);
           p5 = (if canEditSensitive \<and> isMultiKeyChannel
                 then obj_set ''multi_key_mode'' (case fv_multi_key_type data of None \<Rightarrow> JUndefined | Some t \<Rightarrow> JStr t) p4 else p4)
       in Inr p5)"

text \<open>\<open>{ id, ...data }\<close>\<close>

definition updateChannel :: "jsnum \<Rightarrow> (string \<times> jsval) list \<Rightarrow> (string \<times> jsval) list" where
  "updateChannel channelId data = fold (\<lambda>(k, v). obj_set k v) data [(''id'', JNum channelId)]"

datatype channel_request = CreateRequest create_payload | UpdateRequest "(string \<times> jsval) list"

text \<open>The answer of the server, or what the request threw: an \<open>Error\<close> with its message, or any other value.\<close>

datatype server_answer = Answered bool "string option" | ErrorThrown string | ValueThrown jsval

definition getErrorMessage :: "jsval \<Rightarrow> string" where
  "getErrorMessage error =
     (case jget (jget (jget error ''response'') ''data'') ''message'' of
        JStr m \<Rightarrow> m
      | _ \<Rightarrow> (case jget error ''message'' of JStr m \<Rightarrow> m | _ \<Rightarrow> []))"

definition CREATE_FAILED :: string where
  "CREATE_FAILED = ''Failed to create channel''"

text \<open>The message of a failure, or \<open>None\<close> for a success.\<close>

definition failure_message :: "bool \<Rightarrow> server_answer \<Rightarrow> string option" where
  "failure_message editing answer =
     (case answer of
        Answered True _ \<Rightarrow> None
      | Answered False message \<Rightarrow>
          Some (text_or (coalesce message []) (if editing then ''Failed to update channel'' else CREATE_FAILED))
      | ErrorThrown message \<Rightarrow> Some (text_or message CREATE_FAILED)
      | ValueThrown v \<Rightarrow> Some (text_or (getErrorMessage v) CREATE_FAILED))"

section \<open>The drawer\<close>

datatype missing_action = CancelSubmit | SubmitAnyway | AddModels

text \<open>\<open>Submitted\<close> and \<open>Sent\<close> carry the form; \<open>Submitted\<close> also the mapping of status codes the channel was loaded with.\<close>

datatype drawer_event =
    Submitted channel_form string
  | RiskAsked "(int \<times> int) list"
  | RiskConfirmed "(int \<times> int) list"
  | MissingAsked "string list"
  | MissingAnswered missing_action "string list"
  | Sent channel_form "jsval option" "string list" channel_request
  | FieldError string string
  | Toasted string

record drawer =
  dw_open :: bool
  dw_row :: "jsnum option"
  dw_detail :: "channel_detail option"
  dw_user :: "jsval option"
  dw_form :: channel_form
  dw_dirty :: "string list"
  dw_edited :: "string list"
  dw_initialModels :: "string list"
  dw_initialModelMapping :: string
  dw_initialStatusCodeMapping :: string
  dw_risk :: "(channel_form \<times> (int \<times> int) list) option"
  dw_missing :: "(channel_form \<times> string list) option"
  dw_inflight :: "(bool \<times> channel_request) list"
  dw_log :: "drawer_event list"

definition drawer_init :: "jsval option \<Rightarrow> jsnum option \<Rightarrow> drawer" where
  "drawer_init user row = \<lparr>dw_open = False, dw_row = row, dw_detail = None, dw_user = user, dw_form = CHANNEL_FORM_DEFAULT_VALUES,
     dw_dirty = [], dw_edited = [], dw_initialModels = [], dw_initialModelMapping = [], dw_initialStatusCodeMapping = [],
     dw_risk = None, dw_missing = None, dw_inflight = [], dw_log = []\<rparr>"

definition isEditing :: "drawer \<Rightarrow> bool" where
  "isEditing s \<longleftrightarrow> dw_row s \<noteq> None"

definition canEditSensitive :: "drawer \<Rightarrow> bool" where
  "canEditSensitive s = hasPermission (dw_user s) ''channel'' ''sensitive_write''"

definition canViewSecrets :: "drawer \<Rightarrow> bool" where
  "canViewSecrets s = hasPermission (dw_user s) ''channel'' ''secret_view''"

definition sensitiveLocked :: "drawer \<Rightarrow> bool" where
  "sensitiveLocked s \<longleftrightarrow> isEditing s \<and> \<not> canEditSensitive s"

definition isMultiKeyChannel :: "drawer \<Rightarrow> bool" where
  "isMultiKeyChannel s \<longleftrightarrow> isEditing s \<and> (case dw_detail s of None \<Rightarrow> False | Some c \<Rightarrow> cd_is_multi_key c)"

definition logged :: "drawer_event \<Rightarrow> drawer \<Rightarrow> drawer" where
  "logged e s = s\<lparr>dw_log := dw_log s @ [e]\<rparr>"

subsection \<open>Loading the form\<close>

definition load_form :: "drawer \<Rightarrow> drawer" where
  "load_form s =
     (if \<not> dw_open s then s
      else let s0 = s\<lparr>dw_edited := []\<rparr>; f = dw_form s in
        case (dw_row s, dw_detail s) of
          (Some _, None) \<Rightarrow>
            s0\<lparr>dw_form := f\<lparr>fv_param_override := Some [], fv_header_override := Some [], fv_base_url := Some [],
                 fv_extra := (fv_extra f)\<lparr>xs_proxy := JStr []\<rparr>, fv_special := (fv_special f)\<lparr>ss_advanced_custom := Some []\<rparr>\<rparr>\<rparr>
        | (Some _, Some c) \<Rightarrow>
            s0\<lparr>dw_form := transformChannelToFormDefaults (c\<lparr>
                   cd_param_override := (if canViewSecrets s then cd_param_override c else None),
                   cd_header_override := (if canViewSecrets s then cd_header_override c else None)\<rparr>),
               dw_dirty := [],
               dw_initialModels := parseModelsString (cd_models c),
               dw_initialModelMapping := coalesce (cd_model_mapping c) [],
               dw_initialStatusCodeMapping := coalesce (cd_status_code_mapping c) []\<rparr>
        | (None, _) \<Rightarrow>
            s0\<lparr>dw_form := CHANNEL_FORM_DEFAULT_VALUES, dw_dirty := [], dw_initialModels := [], dw_initialModelMapping := [],
               dw_initialStatusCodeMapping := []\<rparr>)"

subsection \<open>Edits\<close>

definition mark_dirty :: "string \<Rightarrow> drawer \<Rightarrow> drawer" where
  "mark_dirty field s = s\<lparr>dw_dirty := List.insert field (dw_dirty s)\<rparr>"

definition updateOverride :: "bool \<Rightarrow> string \<Rightarrow> drawer \<Rightarrow> drawer" where
  "updateOverride header v s =
     (let field = (if header then ''header_override'' else ''param_override'')
      in mark_dirty field (s\<lparr>dw_edited := List.insert field (dw_edited s),
           dw_form := (if header then (dw_form s)\<lparr>fv_header_override := Some v\<rparr> else (dw_form s)\<lparr>fv_param_override := Some v\<rparr>)\<rparr>))"

datatype hidden_field = HiddenBaseUrl | HiddenProxy | HiddenAdvancedCustom

definition updateHiddenSensitiveField :: "hidden_field \<Rightarrow> string \<Rightarrow> drawer \<Rightarrow> drawer" where
  "updateHiddenSensitiveField field v s =
     (let f = dw_form s
      in case field of
           HiddenBaseUrl \<Rightarrow> mark_dirty ''base_url'' (s\<lparr>dw_form := f\<lparr>fv_preserve_hidden_base_url := Some False, fv_base_url := Some v\<rparr>\<rparr>)
         | HiddenProxy \<Rightarrow> mark_dirty ''proxy'' (s\<lparr>dw_form := f\<lparr>fv_preserve_hidden_proxy := Some False,
             fv_extra := (fv_extra f)\<lparr>xs_proxy := JStr v\<rparr>\<rparr>\<rparr>)
         | HiddenAdvancedCustom \<Rightarrow> mark_dirty ''advanced_custom'' (s\<lparr>dw_form := f\<lparr>fv_preserve_hidden_advanced_custom := Some False,
             fv_special := (fv_special f)\<lparr>ss_advanced_custom := Some v\<rparr>\<rparr>\<rparr>))"

definition applyConnectionInfo :: "string \<Rightarrow> string \<Rightarrow> drawer \<Rightarrow> drawer" where
  "applyConnectionInfo key url s =
     logged (Toasted ''Connection info filled in'') (mark_dirty ''base_url'' (mark_dirty ''key''
       (s\<lparr>dw_form := (dw_form s)\<lparr>fv_key := key, fv_base_url := Some url, fv_preserve_hidden_base_url := Some False\<rparr>\<rparr>)))"

text \<open>Effects of the chosen type on a new channel.\<close>

definition type_defaults :: "drawer \<Rightarrow> drawer" where
  "type_defaults s =
     (if isEditing s then s
      else let f = dw_form s;
           f1 = (if fv_type f = Fin 45 \<and> coalesce (fv_base_url f) [] = [] then f\<lparr>fv_base_url := Some ''https://ark.cn-beijing.volces.com''\<rparr> else f);
           f2 = (if fv_type f = Fin 18 \<and> coalesce (fv_other f) [] = [] then f1\<lparr>fv_other := Some ''v2.1''\<rparr> else f1)
        in s\<lparr>dw_form := f2\<rparr>)"

definition doubao_plan :: "drawer \<Rightarrow> drawer" where
  "doubao_plan s =
     (if fv_type (dw_form s) \<noteq> Fin 45 \<or> fv_base_url (dw_form s) \<noteq> Some ''doubao-coding-plan'' then s
      else s\<lparr>dw_form := (dw_form s)\<lparr>fv_base_url := Some ''https://ark.cn-beijing.volces.com''\<rparr>\<rparr>)"

definition supportsMultiKeyAddMode :: "channel_form \<Rightarrow> bool" where
  "supportsMultiKeyAddMode f \<longleftrightarrow> fv_type f \<noteq> Fin 57 \<and> \<not> (fv_type f = Fin 41 \<and> ss_vertex_key_type (fv_special f) = JStr ''api_key'')"

definition single_key_effect :: "drawer \<Rightarrow> drawer" where
  "single_key_effect s =
     (if isEditing s \<or> supportsMultiKeyAddMode (dw_form s) \<or> \<not> batch_mode (dw_form s) then s
      else mark_dirty ''multi_key_mode'' (s\<lparr>dw_form := (dw_form s)\<lparr>fv_multi_key_mode := Some ''single''\<rparr>\<rparr>))"

text \<open>The list of models.\<close>

definition updateModels :: "string list \<Rightarrow> bool \<Rightarrow> drawer \<Rightarrow> drawer" where
  "updateModels newModels merge s =
     s\<lparr>dw_form := (dw_form s)\<lparr>fv_models :=
       (if merge then formatModelsArray (parseModelsString (fv_models (dw_form s)) @ newModels) else formatModelsArray newModels)\<rparr>\<rparr>"

definition basicModels :: "string list \<Rightarrow> channel_form \<Rightarrow> string list" where
  "basicModels allModelsList f =
     (if fv_type f = Fin 1 then filter (\<lambda>m. js_starts_with m ''gpt-'' \<or> js_starts_with m ''text-'') allModelsList else allModelsList)"

definition handleFillRelatedModels :: "string list \<Rightarrow> drawer \<Rightarrow> drawer" where
  "handleFillRelatedModels allModelsList s =
     (let basic = basicModels allModelsList (dw_form s)
      in if basic = [] then logged (Toasted ''No related models available for this channel type'') s
         else logged (Toasted ''Filled {{count}} related model(s)'') (updateModels basic False s))"

definition handleFillAllModels :: "string list \<Rightarrow> drawer \<Rightarrow> drawer" where
  "handleFillAllModels allModelsList s =
     (if allModelsList = [] then logged (Toasted ''No models available'') s
      else logged (Toasted ''Filled {{count}} model(s)'') (updateModels allModelsList False s))"

definition handleClearModels :: "drawer \<Rightarrow> drawer" where
  "handleClearModels s = logged (Toasted ''Cleared all models'') (s\<lparr>dw_form := (dw_form s)\<lparr>fv_models := []\<rparr>\<rparr>)"

definition handleModelsChange :: "string list \<Rightarrow> drawer \<Rightarrow> drawer" where
  "handleModelsChange selected s = s\<lparr>dw_form := (dw_form s)\<lparr>fv_models := js_join '','' selected\<rparr>\<rparr>"

subsection \<open>Submission\<close>

definition SENSITIVE_FORM_FIELDS :: "string list" where
  "SENSITIVE_FORM_FIELDS =
     [''type'', ''base_url'', ''key'', ''openai_organization'', ''other'', ''key_mode'', ''param_override'', ''header_override'',
      ''settings'', ''setting'', ''advanced_custom'', ''is_enterprise_account'', ''vertex_key_type'', ''vertex_project_id'',
      ''aws_key_type'', ''aws_api_type'', ''azure_responses_version'', ''force_format'', ''thinking_to_content'', ''proxy'',
      ''http_protocol'', ''http2_connection_shards'', ''pass_through_body_enabled'', ''system_prompt'', ''system_prompt_override'',
      ''error_override_enabled'', ''error_override_message'', ''auto_test_disabled'', ''allow_service_tier'', ''disable_store'',
      ''allow_safety_identifier'', ''allow_include_obfuscation'', ''allow_inference_geo'', ''allow_speed'', ''claude_beta_query'',
      ''disable_task_polling_sleep'', ''upstream_model_update_check_enabled'', ''upstream_model_update_auto_sync_enabled'',
      ''upstream_model_update_ignored_models'']"

definition request_of :: "channel_form \<Rightarrow> drawer \<Rightarrow> channel_request exn" where
  "request_of data s =
     (case dw_row s of
        Some channelId \<Rightarrow>
          bind_exn (update_data (canEditSensitive s) (isMultiKeyChannel s) (dw_edited s) data channelId)
            (\<lambda>payload. Inr (UpdateRequest (updateChannel channelId payload)))
      | None \<Rightarrow> bind_exn (transformFormDataToCreatePayload data) (\<lambda>payload. Inr (CreateRequest payload)))"

definition mutate :: "channel_form \<Rightarrow> drawer \<Rightarrow> drawer" where
  "mutate data s =
     (case request_of data s of
        Inl e \<Rightarrow> logged (Toasted (text_or e CREATE_FAILED)) s
      | Inr r \<Rightarrow> logged (Sent data (dw_user s) (dw_edited s) r) (s\<lparr>dw_inflight := dw_inflight s @ [(isEditing s, r)]\<rparr>))"

text \<open>From the check of the model mapping on.\<close>

definition submit_models :: "channel_form \<Rightarrow> drawer \<Rightarrow> drawer" where
  "submit_models data s =
     (let mapping = coalesce (fv_model_mapping data) []; hasModelMapping = (js_trim mapping \<noteq> []) in
      case (if hasModelMapping then validateModelMappingJson mapping else None) of
        Some e \<Rightarrow> logged (Toasted e) s
      | None \<Rightarrow>
          (let normalizedModels = parseModelsString (fv_models data);
               missingModels = (if hasModelMapping then findMissingModelsInMapping mapping normalizedModels else [])
           in if missingModels \<noteq> [] \<and>
                hasModelConfigChanged normalizedModels mapping (dw_initialModels s) (dw_initialModelMapping s)
              then logged (MissingAsked missingModels) (s\<lparr>dw_missing := Some (data, missingModels)\<rparr>)
              else mutate data s))"

definition onSubmit :: "channel_form \<Rightarrow> drawer \<Rightarrow> drawer" where
  "onSubmit data s0 =
     (let s = logged (Submitted data (dw_initialStatusCodeMapping s0)) s0;
          statusMapping = coalesce (fv_status_code_mapping data) [] in
      if isEditing s \<and> dw_detail s = None then s
      else if \<not> isEditing s \<and> js_trim (fv_key data) = [] then logged (FieldError ''key'' ''API key is required'') s
      else if sensitiveLocked s \<and> list_ex (\<lambda>field. field \<in> set (dw_dirty s)) SENSITIVE_FORM_FIELDS then
        logged (Toasted ''You do not have permission to edit sensitive channel settings.'') s
      else if js_trim statusMapping = [] then submit_models data s
      else if collectInvalidStatusCodeEntries statusMapping \<noteq> [] then
        logged (Toasted ''Invalid status code mapping entries: {{entries}}'') s
      else
        (let riskyRedirects = collectNewDisallowedStatusCodeRedirects (dw_initialStatusCodeMapping s) statusMapping
         in if riskyRedirects = [] then submit_models data s
            else logged (RiskAsked riskyRedirects) (s\<lparr>dw_risk := Some (data, riskyRedirects)\<rparr>)))"

definition handleStatusCodeRiskAction :: "bool \<Rightarrow> drawer \<Rightarrow> drawer" where
  "handleStatusCodeRiskAction confirmed s =
     (case dw_risk s of
        None \<Rightarrow> s
      | Some (data, items) \<Rightarrow>
          (let s1 = s\<lparr>dw_risk := None\<rparr> in if confirmed then submit_models data (logged (RiskConfirmed items) s1) else s1))"

definition handleMissingModelsAction :: "missing_action \<Rightarrow> drawer \<Rightarrow> drawer" where
  "handleMissingModelsAction action s =
     (case dw_missing s of
        None \<Rightarrow> s
      | Some (data, missingModels) \<Rightarrow>
          (let s1 = logged (MissingAnswered action missingModels) (s\<lparr>dw_missing := None\<rparr>)
           in case action of
                CancelSubmit \<Rightarrow> s1
              | SubmitAnyway \<Rightarrow> mutate data s1
              | AddModels \<Rightarrow>
                  (let models = formatModelsArray (js_unique (parseModelsString (fv_models data) @ missingModels))
                   in mutate (data\<lparr>fv_models := models\<rparr>) (s1\<lparr>dw_form := (dw_form s1)\<lparr>fv_models := models\<rparr>\<rparr>))))"

text \<open>The server answers one of the requests.\<close>

definition request_settled :: "nat \<Rightarrow> server_answer \<Rightarrow> drawer \<Rightarrow> drawer" where
  "request_settled i answer s =
     (if i < length (dw_inflight s) then
        (let editing = fst (dw_inflight s ! i); s1 = s\<lparr>dw_inflight := take i (dw_inflight s) @ drop (Suc i) (dw_inflight s)\<rparr>
         in case failure_message editing answer of
              Some e \<Rightarrow> logged (Toasted e) s1
            | None \<Rightarrow> logged (Toasted (if editing then ''Channel updated successfully'' else ''Channel created successfully''))
                (s1\<lparr>dw_open := False\<rparr>))
      else s)"

definition handleOpenChange :: "bool \<Rightarrow> drawer \<Rightarrow> drawer" where
  "handleOpenChange v s =
     (if v then s\<lparr>dw_open := True\<rparr>
      else s\<lparr>dw_open := False, dw_form := CHANNEL_FORM_DEFAULT_VALUES, dw_dirty := [], dw_edited := []\<rparr>)"

text \<open>All that can happen, in any order: the drawer is opened for a row or for a new channel, the details of the channel arrive, the user
  changes, fields are edited, the form is submitted with values the schema accepts, questions and requests are answered.\<close>

inductive drawer_step :: "url_parser \<Rightarrow> proxy_parser \<Rightarrow> drawer \<Rightarrow> drawer \<Rightarrow> bool" for url proxy where
  row_chosen: "drawer_step url proxy s (s\<lparr>dw_row := row, dw_detail := detail\<rparr>)"
| detail_arrived: "drawer_step url proxy s (s\<lparr>dw_detail := detail\<rparr>)"
| user_changed: "drawer_step url proxy s (s\<lparr>dw_user := user\<rparr>)"
| opened: "drawer_step url proxy s (handleOpenChange v s)"
| loaded: "drawer_step url proxy s (load_form s)"
| edited: "drawer_step url proxy s (s\<lparr>dw_form := f, dw_dirty := dirty\<rparr>)"
| override_edited: "drawer_step url proxy s (updateOverride header v s)"
| hidden_edited: "drawer_step url proxy s (updateHiddenSensitiveField field v s)"
| connection_filled: "drawer_step url proxy s (applyConnectionInfo key address s)"
| defaults_set: "drawer_step url proxy s (type_defaults s)"
| plan_set: "drawer_step url proxy s (doubao_plan s)"
| single_key: "drawer_step url proxy s (single_key_effect s)"
| models_updated: "drawer_step url proxy s (updateModels models merge s)"
| related_filled: "drawer_step url proxy s (handleFillRelatedModels models s)"
| all_filled: "drawer_step url proxy s (handleFillAllModels models s)"
| models_cleared: "drawer_step url proxy s (handleClearModels s)"
| models_chosen: "drawer_step url proxy s (handleModelsChange models s)"
| submitted: "channelFormSchema url proxy (dw_form s) \<Longrightarrow> drawer_step url proxy s (onSubmit (dw_form s) s)"
| risk_answered: "drawer_step url proxy s (handleStatusCodeRiskAction confirmed s)"
| missing_answered: "drawer_step url proxy s (handleMissingModelsAction action s)"
| settled: "drawer_step url proxy s (request_settled i answer s)"

section \<open>The key of the channel\<close>

text \<open>What the shown key depends on.  The memoized object is new whenever one of these changes; its identity is a number, and
  references compare identities.\<close>

record key_owner =
  ko_open :: bool
  ko_channelId :: "jsnum option"
  ko_userId :: jsval
  ko_canRevealChannelKey :: bool
  ko_canViewSecrets :: bool

text \<open>\<open>kp_owners\<close> are the objects made so far, the last one is that of the latest rendering; \<open>kp_flights\<close> are the requests under way
  with the object of the rendering that sent them; \<open>kp_answers\<close> records the keys the server answered.\<close>

record key_panel =
  kp_owners :: "key_owner list"
  kp_ownerRef :: "nat option"
  kp_revealed :: "(nat \<times> string) option"
  kp_loading :: bool
  kp_flights :: "nat list"
  kp_answers :: "(nat \<times> string) list"

definition keyOwner :: "key_panel \<Rightarrow> nat" where
  "keyOwner s = length (kp_owners s) - 1"

definition channelKey :: "key_panel \<Rightarrow> string option" where
  "channelKey s = (case kp_revealed s of None \<Rightarrow> None | Some (i, v) \<Rightarrow> if i = keyOwner s then Some v else None)"

definition key_init :: "key_owner \<Rightarrow> key_panel" where
  "key_init owner = \<lparr>kp_owners = [owner], kp_ownerRef = Some 0, kp_revealed = None, kp_loading = False, kp_flights = [], kp_answers = []\<rparr>"

definition key_render :: "key_owner \<Rightarrow> key_panel \<Rightarrow> key_panel" where
  "key_render owner s = (if owner = last (kp_owners s) then s else s\<lparr>kp_owners := kp_owners s @ [owner]\<rparr>)"

text \<open>The effect with its clean-up: it clears what belonged to the previous object.\<close>

definition key_effect :: "key_panel \<Rightarrow> key_panel" where
  "key_effect s = s\<lparr>kp_ownerRef := Some (keyOwner s), kp_revealed := None, kp_loading := False\<rparr>"

definition key_unmount :: "key_panel \<Rightarrow> key_panel" where
  "key_unmount s = s\<lparr>kp_ownerRef := None\<rparr>"

text \<open>\<open>fetchChannelKey\<close> of the rendering with object \<open>i\<close>, up to its await; \<open>!channelId\<close> also holds for 0.\<close>

definition fetchChannelKey :: "nat \<Rightarrow> key_panel \<Rightarrow> key_panel" where
  "fetchChannelKey i s =
     (let o' = kp_owners s ! i
      in if (case ko_channelId o' of None \<Rightarrow> True | Some x \<Rightarrow> \<not> num_truthy x) \<or> \<not> ko_open o' \<or> \<not> ko_canRevealChannelKey o' \<or>
           kp_ownerRef s \<noteq> Some i then s
         else s\<lparr>kp_loading := True, kp_flights := kp_flights s @ [i]\<rparr>)"

text \<open>The answer to the \<open>n\<close>th request under way: a key, or a failure.\<close>

definition key_answered :: "nat \<Rightarrow> string option \<Rightarrow> key_panel \<Rightarrow> key_panel" where
  "key_answered n answer s =
     (let i = kp_flights s ! n;
          s1 = s\<lparr>kp_flights := take n (kp_flights s) @ drop (Suc n) (kp_flights s),
             kp_answers := (case answer of None \<Rightarrow> kp_answers s | Some v \<Rightarrow> kp_answers s @ [(i, v)])\<rparr>
      in if kp_ownerRef s \<noteq> Some i then s1
         else case answer of
             None \<Rightarrow> s1\<lparr>kp_loading := False\<rparr>
           | Some v \<Rightarrow> s1\<lparr>kp_revealed := Some (i, v), kp_loading := False\<rparr>)"

inductive key_step :: "key_panel \<Rightarrow> key_panel \<Rightarrow> bool" where
  rendered: "key_step s (key_render owner s)"
| effects_run: "key_step s (key_effect s)"
| unmounted: "key_step s (key_unmount s)"
| asked: "i < length (kp_owners s) \<Longrightarrow> key_step s (fetchChannelKey i s)"
| answered: "n < length (kp_flights s) \<Longrightarrow> key_step s (key_answered n answer s)"

end
