(* ===== verification/Channel_Form_Facts.thy ===== *)
theory Channel_Form_Facts
  imports Channel_Form Custom_Route_Facts
begin

text \<open>
  Facts about the form of a channel: what its stored settings are and how they are read again.
\<close>

section \<open>Texts of objects\<close>

text \<open>An object whose members JSON carries is read back from its text.\<close>

definition carried :: "jsval \<Rightarrow> bool" where
  "carried v \<longleftrightarrow> json_ok v \<and> js_order v = v"

lemma carried_simps [simp]:
  "carried (JBool b)" "carried (JStr s)" "carried JNull" "carried (JNum x) \<longleftrightarrow> json_num_ok x"
  "carried (JArr vs) \<longleftrightarrow> list_all carried vs"
  by (auto simp: carried_def list_all_iff map_idI map_eq_conv [of js_order _ "\<lambda>x. x", simplified])

lemma carried_text: "carried v \<Longrightarrow> json_read (json_text v) = Some v"
  by (simp add: carried_def read_text)

lemma carried_pretty: "carried v \<Longrightarrow> json_read (json_pretty [] v) = Some v"
  by (simp add: carried_def read_pretty)

lemma carried_object:
  "distinct (map fst kvs) \<Longrightarrow> list_all (\<lambda>(k, v). \<not> is_index_key k \<and> carried v) kvs \<Longrightarrow> carried (JObj kvs)"
  unfolding carried_def
  by (intro conjI js_order_object) (auto simp: list_all_iff)

text \<open>Adding and removing members whose names are no array indices.\<close>

lemma entries_set: "\<not> is_index_key k \<Longrightarrow> js_entries kvs = kvs \<Longrightarrow> js_entries (obj_set k v kvs) = obj_set k v kvs"
proof -
  let ?i = "\<lambda>kv. is_index_key (fst kv)"
  assume k: "\<not> is_index_key k" and e: "js_entries kvs = kvs"
  have a: "filter ?i (obj_set k v kvs) = filter ?i kvs" using k by (induction k v kvs rule: obj_set.induct) auto
  have s: "obj_set k v (xs @ ys) = xs @ obj_set k v ys" if "k \<notin> fst ` set xs" for xs ys using that by (induction xs) auto
  let ?a = "sort_key (\<lambda>kv. dec_value 0 (fst kv)) (filter ?i kvs)" and ?b = "filter (\<lambda>kv. \<not> ?i kv) kvs"
  have n: "filter (\<lambda>kv. \<not> ?i kv) (obj_set k v xs) = obj_set k v (filter (\<lambda>kv. \<not> ?i kv) xs)" for xs
    using k by (induction k v xs rule: obj_set.induct) auto
  have "k \<notin> fst ` set ?a" using k by auto
  then have "obj_set k v (?a @ ?b) = ?a @ obj_set k v ?b" by (rule s)
  moreover have "?a @ ?b = kvs" using e by (simp add: js_entries_def)
  ultimately have "obj_set k v kvs = ?a @ obj_set k v ?b" by simp
  then show ?thesis unfolding js_entries_def a n by simp
qed

lemma entries_delete: "js_entries kvs = kvs \<Longrightarrow> js_entries (obj_delete k kvs) = obj_delete k kvs"
proof -
  let ?i = "\<lambda>kv. is_index_key (fst kv)" and ?f = "\<lambda>kv. dec_value 0 (fst kv)" and ?n = "\<lambda>kv. fst kv \<noteq> k"
  assume e: "js_entries kvs = kvs"
  have "filter ?n (sort_key ?f (filter ?i kvs)) = sort_key ?f (filter ?n (filter ?i kvs))" by (simp add: filter_sort)
  then have "filter ?n (js_entries kvs) = js_entries (filter ?n kvs)"
    by (simp add: js_entries_def conj_commute)
  then show ?thesis using e by (simp add: obj_delete_def)
qed

text \<open>Objects with distinct keys in their order, the values of which JSON carries.\<close>

definition good_object :: "(string \<times> jsval) list \<Rightarrow> bool" where
  "good_object kvs \<longleftrightarrow> distinct (map fst kvs) \<and> js_entries kvs = kvs \<and> list_all (\<lambda>(k, v). carried v) kvs"

lemma good_object_carried: "good_object kvs \<longleftrightarrow> carried (JObj kvs)"
proof -
  have m: "map (\<lambda>(k, v). (k, js_order v)) kvs = kvs" if "js_entries (map (\<lambda>(k, v). (k, js_order v)) kvs) = kvs"
  proof -
    let ?g = "\<lambda>(k, v). (k, js_order v)"
    have "js_entries (map ?g kvs) = map ?g (js_entries kvs)" by (rule js_entries_map) (simp add: case_prod_beta)
    then have eq: "kvs = map ?g (js_entries kvs)" using that by simp
    have "map ?g (map ?g (js_entries kvs)) = map ?g (js_entries kvs)" by auto
    then show ?thesis using eq by metis
  qed
  show ?thesis
  proof
    assume g: "good_object kvs"
    then have "map (\<lambda>(k, v). (k, js_order v)) kvs = kvs" by (auto simp: good_object_def list_all_iff carried_def intro!: map_idI)
    then show "carried (JObj kvs)" using g by (auto simp: good_object_def carried_def list_all_iff)
  next
    assume c: "carried (JObj kvs)"
    then have e: "map (\<lambda>(k, v). (k, js_order v)) kvs = kvs" by (intro m) (simp add: carried_def)
    have "js_order v = v" if "(k, v) \<in> set kvs" for k v
    proof -
      obtain i where i: "i < length kvs" "kvs ! i = (k, v)" using \<open>(k, v) \<in> set kvs\<close> by (auto simp: in_set_conv_nth)
      then have "map (\<lambda>(k, v). (k, js_order v)) kvs ! i = (k, js_order v)" by simp
      then show ?thesis using e i by simp
    qed
    then show "good_object kvs" using c e by (auto simp: good_object_def carried_def list_all_iff)
  qed
qed

lemma good_set: "\<not> is_index_key k \<Longrightarrow> carried v \<Longrightarrow> good_object kvs \<Longrightarrow> good_object (obj_set k v kvs)"
proof -
  have "list_all (\<lambda>(k, v). carried v) kvs \<Longrightarrow> carried v \<Longrightarrow> list_all (\<lambda>(k, v). carried v) (obj_set k v kvs)" for k v
    by (induction k v kvs rule: obj_set.induct) auto
  then show "\<not> is_index_key k \<Longrightarrow> carried v \<Longrightarrow> good_object kvs \<Longrightarrow> good_object (obj_set k v kvs)"
    by (simp add: good_object_def entries_set)
qed

lemma good_delete: "good_object kvs \<Longrightarrow> good_object (obj_delete k kvs)"
  by (simp add: good_object_def entries_delete) (simp add: obj_delete_def list_all_iff)

lemma good_put: "\<not> is_index_key k \<Longrightarrow> (c \<Longrightarrow> carried v) \<Longrightarrow> good_object kvs \<Longrightarrow> good_object (put_if c k v kvs)"
  by (simp add: put_if_def good_set good_delete)

lemma map_of_put [simp]: "map_of (put_if c k v kvs) = (map_of kvs)(k := if c then Some v else None)"
  by (simp add: put_if_def)

text \<open>Writing what is there changes nothing.\<close>

lemma set_same: "map_of kvs k = Some v \<Longrightarrow> obj_set k v kvs = kvs"
  by (induction k v kvs rule: obj_set.induct) (auto split: if_splits)

lemma delete_same: "map_of kvs k = None \<Longrightarrow> obj_delete k kvs = kvs"
  by (auto simp: obj_delete_def map_of_eq_None_iff filter_id_conv)

lemma put_same: "map_of kvs k = (if c then Some v else None) \<Longrightarrow> put_if c k v kvs = kvs"
  by (auto simp: put_if_def set_same delete_same split: if_splits)

section \<open>The text \<open>setting\<close>\<close>

text \<open>What a form says about its channel: absent fields stand for their defaults, the proxy is trimmed, and a hidden proxy is not the
  business of the form.\<close>

definition kept_extra :: "channel_form \<Rightarrow> extra_settings" where
  "kept_extra f =
     (let x = fv_extra f
      in \<lparr>xs_force_format = or_val (xs_force_format x) (JBool False),
          xs_thinking_to_content = or_val (xs_thinking_to_content x) (JBool False),
          xs_proxy = JStr (if fv_preserve_hidden_proxy f = Some True then [] else js_trim (text_of (xs_proxy x))),
          xs_http_protocol = or_val (xs_http_protocol x) (JStr ''auto''),
          xs_http2_connection_shards = or_val (xs_http2_connection_shards x) (JNum (Fin 1)),
          xs_pass_through_body_enabled = or_val (xs_pass_through_body_enabled x) (JBool False),
          xs_system_prompt = or_val (xs_system_prompt x) (JStr []),
          xs_system_prompt_override = or_val (xs_system_prompt_override x) (JBool False),
          xs_error_override_enabled = or_val (xs_error_override_enabled x) (JBool False),
          xs_error_override_message = or_val (xs_error_override_message x) (JStr []),
          xs_auto_test_disabled = or_val (xs_auto_test_disabled x) (JBool False)\<rparr>)"

lemma opt_bool_or: "opt_bool v \<Longrightarrow> \<exists>b. or_val v (JBool False) = JBool b"
  by (cases v) (auto simp: opt_bool_def is_jbool_def or_val_def jtruthy_def)

lemma opt_bool_carried: "opt_bool v \<Longrightarrow> carried (or_val v (JBool False))"
  using opt_bool_or by fastforce

lemma opt_bool_again: "opt_bool v \<Longrightarrow> or_val (or_val v (JBool False)) (JBool False) = or_val v (JBool False)"
  by (cases v) (auto simp: opt_bool_def is_jbool_def or_val_def jtruthy_def)

lemma opt_str_text: "opt_str v \<longleftrightarrow> opt_text v"
  by (cases v) (auto simp: opt_str_def opt_text_def is_jstr_def)

lemma opt_str_or: "opt_str v \<Longrightarrow> or_val v (JStr []) = JStr (text_of v)"
  by (simp add: opt_str_text or_text)

lemma protocol_simps [simp]:
  "normalizeHttpProtocol JUndefined = ''auto''" "normalizeHttpProtocol (JStr ''auto'') = ''auto''"
  "normalizeHttpProtocol (JStr ''http1'') = ''http1''"
  by code_simp+

lemma protocol_range: "normalizeHttpProtocol v = ''http1'' \<or> normalizeHttpProtocol v = ''auto''"
  by (simp add: normalizeHttpProtocol_def HTTP_PROTOCOL_HTTP1_def HTTP_PROTOCOL_AUTO_def)

text \<open>The transport an accepted form asks for.\<close>

lemma transport_cases:
  assumes "typed_extra x" "transport_issues x = []"
  obtains (http1) "xs_http_protocol x = JStr ''http1''" "or_val (xs_http2_connection_shards x) (JNum (Fin 1)) = JNum (Fin 1)"
  | (auto) k where "or_val (xs_http_protocol x) (JStr ''auto'') = JStr ''auto''" "normalizeHttpProtocol (xs_http_protocol x) = ''auto''"
      "or_val (xs_http2_connection_shards x) (JNum (Fin 1)) = JNum (Fin (of_int k))" "1 \<le> k" "k \<le> 8"
      "normalizeHttp2ConnectionShards (xs_http2_connection_shards x) = JNum (Fin (of_int k))"
proof -
  let ?p = "xs_http_protocol x" and ?v = "xs_http2_connection_shards x"
  have p: "?p = JUndefined \<or> ?p = JStr ''auto'' \<or> ?p = JStr ''http1''" using assms(1) by (auto simp: typed_extra_def opt_enum_def)
  have "opt_int ?v" using assms(1) by (simp add: typed_extra_def)
  then consider (none) "?v = JUndefined" | (num) y where "?v = JNum y" "is_integer y" by (cases ?v) (auto simp: opt_int_def)
  then obtain k where k: "or_val ?v (JNum (Fin 1)) = JNum (Fin (of_int k))" "1 \<le> k" "k \<le> 8"
    "normalizeHttp2ConnectionShards ?v = JNum (Fin (of_int k))" "?p = JStr ''http1'' \<Longrightarrow> k = 1"
  proof cases
    case none
    then show ?thesis using that [of 1] by (simp add: or_val_def jtruthy_def normalizeHttp2ConnectionShards_def is_nullish_def)
  next
    case num
    have b: "\<not> js_lt y (Fin 1)" "\<not> js_lt (Fin 8) y" "?p = JStr ''http1'' \<Longrightarrow> \<not> js_lt (Fin 1) y"
      using assms(2) num p
      by (auto simp: transport_issues_def issue_if_def Let_def is_nullish_def js_to_number_def MAX_HTTP2_CONNECTION_SHARDS_def
          HTTP_PROTOCOL_HTTP1_def split: if_splits)
    obtain q where q: "y = Fin q" using num(2) b(1) by (cases y) (auto simp: is_integer_def)
    then obtain j where j: "q = of_int j" using num(2) by (auto simp: is_integer_def)
    have r: "1 \<le> j" "j \<le> 8" "?p = JStr ''http1'' \<Longrightarrow> j = 1" using b unfolding q j by (auto simp: not_less)
    moreover have "Fin (of_int j) \<noteq> Fin 0" using r by simp
    ultimately show ?thesis using that [of j] b num(1) unfolding q j
      by (simp add: or_val_def jtruthy_def num_truthy_def normalizeHttp2ConnectionShards_def is_nullish_def js_to_number_def
          MAX_HTTP2_CONNECTION_SHARDS_def)
  qed
  show ?thesis
  proof (cases "?p = JStr ''http1''")
    case True
    then show ?thesis using http1 k(1,5) by simp
  next
    case False
    then have "?p = JUndefined \<or> ?p = JStr ''auto''" using p by simp
    then have "or_val ?p (JStr ''auto'') = JStr ''auto''" "normalizeHttpProtocol ?p = ''auto''" by (auto simp: or_val_def jtruthy_def)
    then show ?thesis using auto k by blast
  qed
qed

lemma no_index: "\<not> is_digit c \<Longrightarrow> \<not> is_index_key (c # s)"
  by (simp add: is_index_key_def)

lemma json_num_small: "\<bar>k\<bar> \<le> 2 ^ 53 \<Longrightarrow> json_num_ok (Fin (of_int k))"
  using representable_of_int [of k] by (simp add: number_reads_back)

text \<open>The members in the order they are written: the fixed ones, the proxy unless it is hidden, the transport.\<close>

definition proxy_entries :: "channel_form \<Rightarrow> (string \<times> jsval) list" where
  "proxy_entries f = (if fv_preserve_hidden_proxy f = Some True then []
     else [(''proxy'', JStr (js_trim (text_of (xs_proxy (fv_extra f)))))])"

lemma entries_read:
  assumes "typed_extra (fv_extra f)" "map_of t ''proxy'' = None"
    "JStr (normalizeHttpProtocol (jget (JObj t) ''http_protocol'')) = or_val (xs_http_protocol (fv_extra f)) (JStr ''auto'')"
    "(if normalizeHttpProtocol (jget (JObj t) ''http_protocol'') = ''http1'' then JNum (Fin 1)
      else normalizeHttp2ConnectionShards (jget (JObj t) ''http2_connection_shards'')) =
     or_val (xs_http2_connection_shards (fv_extra f)) (JNum (Fin 1))"
  shows "read_extra (JObj (extra_entries (fv_extra f) @ proxy_entries f @ t)) = kept_extra f"
proof -
  let ?x = "fv_extra f" and ?kvs = "JObj (extra_entries (fv_extra f) @ proxy_entries f @ t)"
  have b: "opt_bool (xs_force_format ?x)" "opt_bool (xs_thinking_to_content ?x)" "opt_bool (xs_pass_through_body_enabled ?x)"
    "opt_bool (xs_system_prompt_override ?x)" "opt_bool (xs_error_override_enabled ?x)" "opt_bool (xs_auto_test_disabled ?x)"
    and s: "opt_str (xs_system_prompt ?x)" "opt_str (xs_error_override_message ?x)"
    using assms(1) by (simp_all add: typed_extra_def)
  have get: "jget ?kvs ''force_format'' = or_val (xs_force_format ?x) (JBool False)"
    "jget ?kvs ''thinking_to_content'' = or_val (xs_thinking_to_content ?x) (JBool False)"
    "jget ?kvs ''pass_through_body_enabled'' = or_val (xs_pass_through_body_enabled ?x) (JBool False)"
    "jget ?kvs ''system_prompt'' = JStr (text_of (xs_system_prompt ?x))"
    "jget ?kvs ''system_prompt_override'' = or_val (xs_system_prompt_override ?x) (JBool False)"
    "jget ?kvs ''error_override_enabled'' = or_val (xs_error_override_enabled ?x) (JBool False)"
    "jget ?kvs ''error_override_message'' = JStr (text_of (xs_error_override_message ?x))"
    "jget ?kvs ''auto_test_disabled'' = or_val (xs_auto_test_disabled ?x) (JBool False)"
    "jget ?kvs ''http_protocol'' = jget (JObj t) ''http_protocol''"
    "jget ?kvs ''http2_connection_shards'' = jget (JObj t) ''http2_connection_shards''"
    "jget ?kvs ''proxy'' =
       (if fv_preserve_hidden_proxy f = Some True then JUndefined else JStr (js_trim (text_of (xs_proxy ?x))))"
    using assms(2) by (simp_all add: extra_entries_def proxy_entries_def opt_str_or s)
  have texts: "or_val (JStr a) (JStr []) = JStr a" "or_val JUndefined d = d" for a d by (simp_all add: or_val_def jtruthy_def)
  show ?thesis
    unfolding read_extra_def kept_extra_def Let_def get HTTP_PROTOCOL_HTTP1_def assms(3,4) opt_bool_again [OF b(1)]
      opt_bool_again [OF b(2)] opt_bool_again [OF b(3)] opt_bool_again [OF b(4)] opt_bool_again [OF b(5)] opt_bool_again [OF b(6)]
      opt_str_or [OF s(1)] opt_str_or [OF s(2)] texts
    by (simp add: texts)
qed

lemma entries_good:
  assumes "typed_extra (fv_extra f)" "t = [] \<or> t = [(''http_protocol'', JStr ''http1'')] \<or>
      (\<exists>k. t = [(''http2_connection_shards'', JNum (Fin (of_int k)))] \<and> \<bar>k\<bar> \<le> 8)"
  shows "good_object (extra_entries (fv_extra f) @ proxy_entries f @ t)"
  unfolding good_object_carried using assms
  by (intro carried_object)
    (auto simp: typed_extra_def extra_entries_def proxy_entries_def no_index is_digit_def ordc_def opt_bool_carried opt_str_or json_num_small)

lemma setting_read_back:
  assumes "typed_extra (fv_extra f)" "transport_issues (fv_extra f) = []"
  obtains kvs where "setting_object f = Inr kvs" "good_object kvs" "read_extra (JObj kvs) = kept_extra f"
    "fv_preserve_hidden_proxy f = Some True \<Longrightarrow> map_of kvs ''proxy'' = None"
proof -
  let ?x = "fv_extra f" and ?p = "proxy_entries f"
  note r = entries_read [OF assms(1)] and e = entries_good [OF assms(1)]
  have "opt_text (xs_proxy ?x)" using assms(1) by (simp add: typed_extra_def opt_str_text)
  then have o: "setting_object f = Inr (extra_entries ?x @ ?p @ transport_entries ?x)"
    using trim_opt_text by (fastforce simp: setting_object_def proxy_entries_def)
  have shards: "normalizeHttp2ConnectionShards JUndefined = JNum (Fin 1)"
    "1 \<le> k \<Longrightarrow> k \<le> 8 \<Longrightarrow> normalizeHttp2ConnectionShards (JNum (Fin (of_int k))) = JNum (Fin (of_int k))" for k
    by (simp_all add: normalizeHttp2ConnectionShards_def is_nullish_def js_to_number_def MAX_HTTP2_CONNECTION_SHARDS_def)
  have none: "map_of (extra_entries ?x @ ?p @ t) ''proxy'' = None" if "fv_preserve_hidden_proxy f = Some True" "map_of t ''proxy'' = None" for t
    using that by (simp add: extra_entries_def proxy_entries_def)
  have finish: thesis if t: "transport_entries ?x = t" "good_object (extra_entries ?x @ ?p @ t)" "map_of t ''proxy'' = None"
    "read_extra (JObj (extra_entries ?x @ ?p @ t)) = kept_extra f" for t
    using \<open>\<And>kvs. \<lbrakk>setting_object f = Inr kvs; good_object kvs; read_extra (JObj kvs) = kept_extra f;
        fv_preserve_hidden_proxy f = Some True \<Longrightarrow> map_of kvs ''proxy'' = None\<rbrakk> \<Longrightarrow> thesis\<close> [OF o [unfolded t(1)] t(2,4)] none [OF _ t(3)]
    by blast
  show ?thesis
  proof (rule transport_cases [OF assms])
    assume h: "xs_http_protocol ?x = JStr ''http1''" "or_val (xs_http2_connection_shards ?x) (JNum (Fin 1)) = JNum (Fin 1)"
    let ?t = "[(''http_protocol'', JStr ''http1'')]"
    have "or_val (xs_http_protocol ?x) (JStr ''auto'') = JStr ''http1''" by (simp add: h(1) or_val_def jtruthy_def)
    then have "read_extra (JObj (extra_entries ?x @ ?p @ ?t)) = kept_extra f" using h(2) by (intro r) simp_all
    moreover have "transport_entries ?x = ?t" by (simp add: transport_entries_def HTTP_PROTOCOL_HTTP1_def h(1))
    moreover have "good_object (extra_entries ?x @ ?p @ ?t)" by (rule e) blast
    ultimately show ?thesis by (intro finish) simp_all
  next
    fix k assume k: "or_val (xs_http_protocol ?x) (JStr ''auto'') = JStr ''auto''" "normalizeHttpProtocol (xs_http_protocol ?x) = ''auto''"
      "or_val (xs_http2_connection_shards ?x) (JNum (Fin 1)) = JNum (Fin (of_int k))" "1 \<le> k" "k \<le> 8"
      "normalizeHttp2ConnectionShards (xs_http2_connection_shards ?x) = JNum (Fin (of_int k))"
    let ?t = "if 1 < k then [(''http2_connection_shards'', JNum (Fin (of_int k)))] else []"
    have "transport_entries ?x = ?t" using k by (simp add: transport_entries_def HTTP_PROTOCOL_HTTP1_def js_to_number_def)
    moreover have "read_extra (JObj (extra_entries ?x @ ?p @ ?t)) = kept_extra f"
    proof (cases "1 < k")
      case True
      then show ?thesis using k shards(2) [of k] by (intro r) simp_all
    next
      case False
      then have "k = 1" using k(4) by simp
      then show ?thesis using k shards(1) by (intro r) simp_all
    qed
    moreover have "good_object (extra_entries ?x @ ?p @ ?t)" by (rule e) (use k in auto)
    ultimately show ?thesis by (intro finish) simp_all
  qed
qed

end
