(* ===== verification/Channel_Settings_Facts.thy ===== *)
theory Channel_Settings_Facts
  imports Channel_Form_Facts
begin

text \<open>
  Facts about the text \<open>settings\<close> of a channel: the plan of what a form writes into it, that the plan is carried out, and how
  what was written is read and written again.
\<close>

section \<open>The text \<open>settings\<close>\<close>

text \<open>What the form writes into the stored settings \<open>m\<close>, key by key; \<open>None\<close> removes the key.  Keys that are not in the plan keep
  what is stored.\<close>

definition type_plan :: "channel_form \<Rightarrow> string \<Rightarrow> (string \<times> jsval option) list" where
  "type_plan f project =
     (let t = fv_type f; s = fv_special f; only = (\<lambda>c v. if c then Some v else None);
          keyType = or_val (ss_vertex_key_type s) (JStr ''json'');
          openai = (t \<in> set OPENAI_FIELD_PASSTHROUGH_TYPES); claude = (t \<in> set CLAUDE_FIELD_PASSTHROUGH_TYPES)
      in [(''vertex_key_type'', only (t = Fin 41) keyType),
          (''vertex_project_id'', only (t = Fin 41 \<and> keyType = JStr ''api_key'' \<and> project \<noteq> []) (JStr project)),
          (''azure_responses_version'', only (t = Fin 3 \<and> jtruthy (ss_azure_responses_version s)) (ss_azure_responses_version s)),
          (''openrouter_enterprise'', only (t = Fin 20) (flag_json (ss_is_enterprise_account s))),
          (''aws_key_type'', only (t = Fin 33) (or_val (ss_aws_key_type s) (JStr ''ak_sk''))),
          (''aws_api_type'', only (t = Fin 33) (or_val (ss_aws_api_type s) (JStr ''invoke_model''))),
          (''allow_service_tier'', only (t \<in> set FIELD_PASSTHROUGH_TYPES) (flag_json (ss_allow_service_tier s))),
          (''disable_store'', only openai (flag_json (ss_disable_store s))),
          (''allow_safety_identifier'', only openai (flag_json (ss_allow_safety_identifier s))),
          (''allow_include_obfuscation'', only openai (flag_json (ss_allow_include_obfuscation s))),
          (''allow_inference_geo'', only (openai \<or> claude) (flag_json (ss_allow_inference_geo s))),
          (''allow_speed'', only claude (flag_json (ss_allow_speed s))),
          (''claude_beta_query'', only (t = Fin 14) (flag_json (ss_claude_beta_query s))),
          (''disable_task_polling_sleep'', Some (flag_json (ss_disable_task_polling_sleep s)))])"

definition upstream_plan :: "channel_form \<Rightarrow> (string \<rightharpoonup> jsval) \<Rightarrow> (string \<times> jsval option) list" where
  "upstream_plan f m =
     (let s = fv_special f; check = (ss_check_enabled s = Some True)
      in if fv_type f \<notin> set MODEL_FETCHABLE_TYPES then []
         else [(''upstream_model_update_check_enabled'', Some (JBool check)),
           (''upstream_model_update_auto_sync_enabled'', Some (JBool (check \<and> ss_auto_sync_enabled s = Some True))),
           (''upstream_model_update_ignored_models'', Some (JArr (map JStr (ignored_models s)))),
           (''upstream_model_update_last_detected_models'',
              Some (case m ''upstream_model_update_last_detected_models'' of Some (JArr vs) \<Rightarrow> JArr (if check then vs else []) | _ \<Rightarrow> JArr [])),
           (''upstream_model_update_last_check_time'',
              Some (case m ''upstream_model_update_last_check_time'' of Some (JNum x) \<Rightarrow> JNum x | _ \<Rightarrow> JNum (Fin 0)))])"

definition advanced_plan :: "channel_form \<Rightarrow> (string \<times> jsval option) list" where
  "advanced_plan f =
     (if fv_preserve_hidden_advanced_custom f = Some True then [(''advanced_custom'', None)]
      else if fv_type f = advanced_custom_type then
        (case parseAdvancedCustomConfig (ss_advanced_custom (fv_special f)) of None \<Rightarrow> [] | Some config \<Rightarrow> [(''advanced_custom'', Some config)])
      else [(''advanced_custom'', None)])"

definition settings_plan :: "channel_form \<Rightarrow> string \<Rightarrow> (string \<rightharpoonup> jsval) \<Rightarrow> (string \<times> jsval option) list" where
  "settings_plan f project m = type_plan f project @ upstream_plan f m @ advanced_plan f"

definition carry_out :: "(string \<times> jsval option) list \<Rightarrow> (string \<rightharpoonup> jsval) \<Rightarrow> (string \<rightharpoonup> jsval)" where
  "carry_out = fold (\<lambda>(k, x) m. m(k := x))"

lemma carry_out_simps [simp]: "carry_out [] m = m" "carry_out ((k, x) # ps) m = carry_out ps (m(k := x))"
  "carry_out (ps @ qs) m = carry_out qs (carry_out ps m)"
  by (simp_all add: carry_out_def)

lemma carry_out_other: "k \<notin> fst ` set ps \<Longrightarrow> carry_out ps m k = m k"
  by (induction ps arbitrary: m) auto

lemma carry_out_planned: "distinct (map fst ps) \<Longrightarrow> (k, x) \<in> set ps \<Longrightarrow> carry_out ps m k = x"
  by (induction ps arbitrary: m) (auto simp: carry_out_other)

text \<open>The object that is written.\<close>

definition written_settings :: "channel_form \<Rightarrow> string \<Rightarrow> (string \<times> jsval) list \<Rightarrow> (string \<times> jsval) list" where
  "written_settings f project kvs = put_advanced f (put_upstream f (put_passthrough f (put_vendor f (put_vertex f project kvs))))"

lemma type_map: "map_of (put_passthrough f (put_vendor f (put_vertex f project kvs))) = carry_out (type_plan f project) (map_of kvs)"
  by (simp add: put_vertex_def put_vendor_def put_passthrough_def type_plan_def Let_def)

lemma type_plan_keys: "fst ` set (type_plan f project) =
  {''vertex_key_type'', ''vertex_project_id'', ''azure_responses_version'', ''openrouter_enterprise'', ''aws_key_type'', ''aws_api_type'',
   ''allow_service_tier'', ''disable_store'', ''allow_safety_identifier'', ''allow_include_obfuscation'', ''allow_inference_geo'',
   ''allow_speed'', ''claude_beta_query'', ''disable_task_polling_sleep''}"
  by (simp add: type_plan_def Let_def)

lemma upstream_map:
  assumes "map_of kvs ''upstream_model_update_last_detected_models'' = m ''upstream_model_update_last_detected_models''"
    "map_of kvs ''upstream_model_update_last_check_time'' = m ''upstream_model_update_last_check_time''"
  shows "map_of (put_upstream f kvs) = carry_out (upstream_plan f m) (map_of kvs)"
proof (cases "fv_type f \<in> set MODEL_FETCHABLE_TYPES")
  case True
  let ?d = "m ''upstream_model_update_last_detected_models''" and ?n = "m ''upstream_model_update_last_check_time''"
  have d: "is_jarr (case ?d of None \<Rightarrow> JUndefined | Some x \<Rightarrow> x) \<longleftrightarrow> (\<exists>vs. ?d = Some (JArr vs))"
    by (auto simp: is_jarr_def split: option.splits jsval.splits)
  have n: "is_jnum (case ?n of None \<Rightarrow> JUndefined | Some x \<Rightarrow> x) \<longleftrightarrow> (\<exists>x. ?n = Some (JNum x))"
    by (auto simp: is_jnum_def split: option.splits jsval.splits)
  show ?thesis
    using True d n assms
    by (auto simp: upstream_plan_def put_upstream_def Let_def fun_eq_iff split: option.splits jsval.splits)
qed (simp add: upstream_plan_def put_upstream_def)

lemma advanced_map: "map_of (put_advanced f kvs) = carry_out (advanced_plan f) (map_of kvs)"
  by (simp add: put_advanced_def advanced_plan_def split: option.splits)

lemma written_map: "map_of (written_settings f project kvs) = carry_out (settings_plan f project (map_of kvs)) (map_of kvs)"
proof -
  have "map_of (put_upstream f (put_passthrough f (put_vendor f (put_vertex f project kvs)))) =
    carry_out (upstream_plan f (map_of kvs)) (carry_out (type_plan f project) (map_of kvs))"
    unfolding type_map [symmetric] by (rule upstream_map) (simp_all add: type_map carry_out_other type_plan_keys)
  then show ?thesis by (simp add: written_settings_def settings_plan_def advanced_map)
qed

lemma plan_keys_distinct: "distinct (map fst (settings_plan f project m))"
  by (simp add: settings_plan_def type_plan_def upstream_plan_def advanced_plan_def Let_def split: option.splits)

text \<open>The routes in the form are of the declared type.\<close>

definition typed_routes :: "channel_form \<Rightarrow> bool" where
  "typed_routes f \<longleftrightarrow>
     (case json_parse (coalesce (ss_advanced_custom (fv_special f)) []) of None \<Rightarrow> True | Some c \<Rightarrow> is_obj c \<longrightarrow> typed_config c)"

lemma carried_normal_route:
  assumes "typed_route r" "auth_ok (jget r ''auth'')"
  shows "carried (normal_route r)"
proof -
  have "carried (normal_auth a)" if "auth_ok a" "a \<noteq> JUndefined" for a
    unfolding normal_auth_def using that
    by (intro carried_object) (auto simp: auth_ok_def no_index is_digit_def ordc_def)
  then show ?thesis unfolding normal_route_def using assms
    by (intro carried_object) (auto simp: no_index is_digit_def ordc_def list_all_iff)
qed

lemma advanced_reads_back:
  assumes "typed_routes f" "validateAdvancedCustomConfig url (parseAdvancedCustomConfig (ss_advanced_custom (fv_special f))) = Inr None"
  obtains c where "parseAdvancedCustomConfig (ss_advanced_custom (fv_special f)) = Some c" "carried c" "jtruthy c"
    "stringifyAdvancedCustomConfig c = Inr (json_pretty [] c)" "json_pretty [] c \<noteq> []"
    "parseAdvancedCustomConfig (Some (json_pretty [] c)) = Some c"
proof -
  let ?v = "ss_advanced_custom (fv_special f)"
  obtain c where c: "parseAdvancedCustomConfig ?v = Some c"
    using assms(2) by (cases "parseAdvancedCustomConfig ?v") (auto simp: validateAdvancedCustomConfig_def)
  then obtain s kvs where s: "?v = Some s" "json_parse s = Some (JObj kvs)"
    by (auto simp: parseAdvancedCustomConfig_def split: option.splits jsval.splits if_splits)
  then have typed: "typed_config (JObj kvs)" using assms(1) by (simp add: typed_routes_def is_obj_def)
  let ?rs = "map normal_route (routes_of (JObj kvs))"
  have ceq: "c = config_of ?rs" using c s typed
    by (auto simp: parseAdvancedCustomConfig_def normalizeAdvancedCustomConfig_def normalized_routes_typed split: if_splits)
  have tr: "list_all typed_route ?rs" by (rule typed_normal_routes [OF typed])
  have tc: "typed_config c" using tr by (simp add: ceq)
  have ok: "list_all (route_ok url) ?rs"
    using assms(2) unfolding c using validation_accepts [OF tc, of url] by (simp add: ceq routes_ok_def)
  have idem: "map normal_route ?rs = ?rs" by (simp add: comp_def)
  have "carried r" if r: "r \<in> set ?rs" for r
  proof -
    have "carried (normal_route r)"
      using r tr ok by (intro carried_normal_route) (auto simp: list_all_iff route_ok_def)
    then show ?thesis using r by auto
  qed
  then have "list_all carried ?rs" unfolding list_all_iff by blast
  then have car: "carried c" unfolding ceq config_of_def
    by (intro carried_object) (auto simp: no_index is_digit_def ordc_def)
  have str: "stringifyAdvancedCustomConfig c = Inr (json_pretty [] c)"
    using normalized_routes_typed [OF tc] idem
    by (simp add: comp_def stringifyAdvancedCustomConfig_def normalizeAdvancedCustomConfig_def ceq)
  have "parseAdvancedCustomConfig (Some (json_pretty [] c)) = Some c"
    using routes_read_back [OF tr] unfolding idem ceq .
  moreover have "json_pretty [] c \<noteq> []" "jtruthy c" by (simp_all add: ceq config_of_def jtruthy_def)
  ultimately show ?thesis using that [OF c car _ str] by blast
qed

text \<open>The stored settings are values JSON carries, and what is written into them is carried as well.\<close>

definition accepted_settings :: "url_parser \<Rightarrow> channel_form \<Rightarrow> bool" where
  "accepted_settings url f \<longleftrightarrow> typed_special (fv_special f) \<and> typed_routes f \<and>
     (fv_type f = advanced_custom_type \<and> fv_preserve_hidden_advanced_custom f \<noteq> Some True \<longrightarrow>
        validateAdvancedCustomConfig url (parseAdvancedCustomConfig (ss_advanced_custom (fv_special f))) = Inr None)"

lemma project_typed: "typed_special (fv_special f) \<Longrightarrow>
  vertex_project f = Inr (if fv_type f = Fin 41 then js_trim (text_of (ss_vertex_project_id (fv_special f))) else [])"
  using trim_text [of "ss_vertex_project_id (fv_special f)"] by (simp add: typed_special_def opt_str_text vertex_project_def)

lemma opt_enum_or: "opt_enum options v \<Longrightarrow> \<exists>s. or_val v (JStr d) = JStr s"
  by (auto simp: opt_enum_def or_val_def jtruthy_def)

lemma written_good:
  assumes "accepted_settings url f" "good_object kvs"
  shows "good_object (written_settings f project kvs)"
proof -
  let ?s = "fv_special f"
  have t: "carried (or_val (ss_vertex_key_type ?s) (JStr ''json''))" "carried (or_val (ss_aws_key_type ?s) (JStr ''ak_sk''))"
    "carried (or_val (ss_aws_api_type ?s) (JStr ''invoke_model''))" "jtruthy (ss_azure_responses_version ?s) \<Longrightarrow> carried (ss_azure_responses_version ?s)"
    using assms(1) opt_enum_or [of _ "ss_vertex_key_type ?s" "''json''"] opt_enum_or [of _ "ss_aws_key_type ?s" "''ak_sk''"]
      opt_enum_or [of _ "ss_aws_api_type ?s" "''invoke_model''"]
    by (fastforce simp: accepted_settings_def typed_special_def opt_str_def is_jstr_iff jtruthy_def)+
  note k = no_index is_digit_def ordc_def
  have v: "good_object (put_vertex f project kvs)" unfolding put_vertex_def Let_def
    using assms(2) t by (intro good_put) (simp_all add: k)
  have w: "good_object (put_vendor f xs)" if "good_object xs" for xs unfolding put_vendor_def Let_def
    using that t by (intro good_put) (simp_all add: k flag_json_def)
  have p: "good_object (put_passthrough f xs)" if "good_object xs" for xs unfolding put_passthrough_def Let_def
    using that by (intro good_set good_put) (simp_all add: k flag_json_def)
  have u: "good_object (put_upstream f xs)" if "good_object xs" for xs
  proof -
    have "json_num_ok (Fin 0)" using json_num_small [of 0] by simp
    moreover have "list_all carried (map JStr ms)" for ms by (simp add: list_all_iff)
    ultimately show ?thesis unfolding put_upstream_def Let_def using that
      by (auto intro!: good_set simp: k)
  qed
  have a: "good_object (put_advanced f xs)" if "good_object xs" for xs
  proof (cases "fv_type f = advanced_custom_type \<and> fv_preserve_hidden_advanced_custom f \<noteq> Some True")
    case True
    then obtain c where "parseAdvancedCustomConfig (ss_advanced_custom ?s) = Some c" "carried c"
      using assms(1) advanced_reads_back [of f url] unfolding accepted_settings_def by blast
    then show ?thesis using that True by (simp add: put_advanced_def) (intro good_set, simp_all add: k)
  next
    case False
    then show ?thesis using that by (auto simp: put_advanced_def good_delete)
  qed
  show ?thesis unfolding written_settings_def by (intro a u p w v)
qed

text \<open>What a form says about the special settings of its channel: those of its type and, for types whose models can be fetched,
  those of the upstream; for other types the stored ones of the upstream remain.\<close>

definition kept_special :: "channel_form \<Rightarrow> (string \<rightharpoonup> jsval) \<Rightarrow> special_settings" where
  "kept_special f m =
     (let t = fv_type f; s = fv_special f; flag = (\<lambda>c b. Some (c \<and> b = Some True));
          openai = (t \<in> set OPENAI_FIELD_PASSTHROUGH_TYPES); claude = (t \<in> set CLAUDE_FIELD_PASSTHROUGH_TYPES);
          fetchable = (t \<in> set MODEL_FETCHABLE_TYPES);
          keyType = or_val (ss_vertex_key_type s) (JStr ''json'')
      in \<lparr>ss_is_enterprise_account = flag (t = Fin 20) (ss_is_enterprise_account s),
          ss_vertex_key_type = (if t = Fin 41 then keyType else JStr ''json''),
          ss_vertex_project_id =
            JStr (if t = Fin 41 \<and> keyType = JStr ''api_key'' then js_trim (text_of (ss_vertex_project_id s)) else []),
          ss_aws_key_type = (if t = Fin 33 then or_val (ss_aws_key_type s) (JStr ''ak_sk'') else JStr ''ak_sk''),
          ss_aws_api_type = (if t = Fin 33 then or_val (ss_aws_api_type s) (JStr ''invoke_model'') else JStr ''invoke_model''),
          ss_azure_responses_version = (if t = Fin 3 then or_val (ss_azure_responses_version s) (JStr []) else JStr []),
          ss_allow_service_tier = flag (t \<in> set FIELD_PASSTHROUGH_TYPES) (ss_allow_service_tier s),
          ss_disable_store = flag openai (ss_disable_store s),
          ss_allow_safety_identifier = flag openai (ss_allow_safety_identifier s),
          ss_allow_include_obfuscation = flag openai (ss_allow_include_obfuscation s),
          ss_allow_inference_geo = flag (openai \<or> claude) (ss_allow_inference_geo s),
          ss_allow_speed = flag claude (ss_allow_speed s),
          ss_claude_beta_query = flag (t = Fin 14) (ss_claude_beta_query s),
          ss_disable_task_polling_sleep = flag True (ss_disable_task_polling_sleep s),
          ss_check_enabled =
            (if fetchable then flag True (ss_check_enabled s) else Some (m ''upstream_model_update_check_enabled'' = Some (JBool True))),
          ss_auto_sync_enabled =
            (if fetchable then flag (ss_check_enabled s = Some True) (ss_auto_sync_enabled s)
             else Some (m ''upstream_model_update_auto_sync_enabled'' = Some (JBool True))),
          ss_ignored_models =
            Some (if fetchable then js_join '','' (ignored_models s)
              else case m ''upstream_model_update_ignored_models'' of Some (JArr vs) \<Rightarrow> js_string (JArr vs) | _ \<Rightarrow> []),
          ss_advanced_custom =
            Some (if fv_preserve_hidden_advanced_custom f \<noteq> Some True \<and> t = advanced_custom_type
              then case parseAdvancedCustomConfig (ss_advanced_custom s) of None \<Rightarrow> [] | Some c \<Rightarrow> json_pretty [] c
              else [])\<rparr>)"

lemma plan_type: "(k, x) \<in> set (type_plan f project) \<Longrightarrow> carry_out (settings_plan f project m) m k = x"
  by (rule carry_out_planned [OF plan_keys_distinct]) (simp add: settings_plan_def)

lemma plan_upstream: "(k, x) \<in> set (upstream_plan f m) \<Longrightarrow> carry_out (settings_plan f project m) m k = x"
  by (rule carry_out_planned [OF plan_keys_distinct]) (simp add: settings_plan_def)

lemma plan_advanced: "(k, x) \<in> set (advanced_plan f) \<Longrightarrow> carry_out (settings_plan f project m) m k = x"
  by (rule carry_out_planned [OF plan_keys_distinct]) (simp add: settings_plan_def)

lemma upstream_plan_keys: "fst ` set (upstream_plan f m) = (if fv_type f \<in> set MODEL_FETCHABLE_TYPES then
  {''upstream_model_update_check_enabled'', ''upstream_model_update_auto_sync_enabled'', ''upstream_model_update_ignored_models'',
   ''upstream_model_update_last_detected_models'', ''upstream_model_update_last_check_time''} else {})"
  by (simp add: upstream_plan_def Let_def)

lemma advanced_plan_keys: "fst ` set (advanced_plan f) \<subseteq> {''advanced_custom''}"
  by (auto simp: advanced_plan_def split: option.splits)

lemma plan_other:
  assumes "k \<notin> fst ` set (type_plan f project)" "k \<notin> fst ` set (upstream_plan f m)" "k \<noteq> ''advanced_custom''"
  shows "carry_out (settings_plan f project m) m k = m k"
  using assms advanced_plan_keys [of f] by (intro carry_out_other) (auto simp: settings_plan_def)

lemma join_strings: "js_string (JArr (map JStr ms)) = js_join '','' ms"
  by (simp add: comp_def)

lemma special_read_back:
  assumes "accepted_settings url f" "project = (if fv_type f = Fin 41 then js_trim (text_of (ss_vertex_project_id (fv_special f))) else [])"
    "map_of kvs' = carry_out (settings_plan f project m) m"
  shows "read_special (JObj kvs') = kept_special f m"
proof -
  let ?s = "fv_special f" and ?t = "fv_type f"
  have get: "jget (JObj kvs') k = (case carry_out (settings_plan f project m) m k of None \<Rightarrow> JUndefined | Some v \<Rightarrow> v)" for k
    by (simp add: assms(3))
  have type: "jget (JObj kvs') k = (case x of None \<Rightarrow> JUndefined | Some v \<Rightarrow> v)" if "(k, x) \<in> set (type_plan f project)" for k x
    unfolding get plan_type [OF that] ..
  have flags: "Some (jget (JObj kvs') k = JBool True) = Some (c \<and> b = Some True)"
    if "(k, if c then Some (flag_json b) else None) \<in> set (type_plan f project)" for k c b
    unfolding type [OF that] by (simp add: flag_json_def)
  have vals: "or_val (jget (JObj kvs') k) d = (if c then or_val v d else d)"
    if "(k, if c then Some (or_val v d) else None) \<in> set (type_plan f project)" for k c v d
    unfolding type [OF that] by (simp add: or_val_def jtruthy_def)
  have azure: "or_val (jget (JObj kvs') ''azure_responses_version'') (JStr []) =
      (if ?t = Fin 3 then or_val (ss_azure_responses_version ?s) (JStr []) else JStr [])"
    using type [of "''azure_responses_version''"] by (simp add: type_plan_def Let_def) (simp add: or_val_def jtruthy_def)
  have proj: "or_val (jget (JObj kvs') ''vertex_project_id'') (JStr []) =
      JStr (if ?t = Fin 41 \<and> or_val (ss_vertex_key_type ?s) (JStr ''json'') = JStr ''api_key'' then js_trim (text_of (ss_vertex_project_id ?s)) else [])"
    using type [of "''vertex_project_id''"] assms(2) by (simp add: type_plan_def Let_def) (simp add: or_val_def jtruthy_def)
  have up: "jget (JObj kvs') k = (if ?t \<in> set MODEL_FETCHABLE_TYPES then v else case m k of None \<Rightarrow> JUndefined | Some w \<Rightarrow> w)"
    if "?t \<in> set MODEL_FETCHABLE_TYPES \<Longrightarrow> (k, Some v) \<in> set (upstream_plan f m)" "k \<notin> fst ` set (type_plan f project)" "k \<noteq> ''advanced_custom''" for k v
    unfolding get using that plan_upstream [of k "Some v" f m project] plan_other [OF that(2) _ that(3), of m]
    by (cases "?t \<in> set MODEL_FETCHABLE_TYPES") (auto simp: upstream_plan_keys)
  have check: "Some (jget (JObj kvs') ''upstream_model_update_check_enabled'' = JBool True) = ss_check_enabled (kept_special f m)"
    using up [of "''upstream_model_update_check_enabled''" "JBool (ss_check_enabled ?s = Some True)"]
    by (simp add: upstream_plan_def type_plan_keys kept_special_def Let_def split: option.splits)
  have sync: "Some (jget (JObj kvs') ''upstream_model_update_auto_sync_enabled'' = JBool True) = ss_auto_sync_enabled (kept_special f m)"
    using up [of "''upstream_model_update_auto_sync_enabled''" "JBool (ss_check_enabled ?s = Some True \<and> ss_auto_sync_enabled ?s = Some True)"]
    by (simp add: upstream_plan_def type_plan_keys kept_special_def Let_def split: option.splits)
  have ignored: "Some (case jget (JObj kvs') ''upstream_model_update_ignored_models'' of JArr vs \<Rightarrow> js_string (JArr vs) | _ \<Rightarrow> []) =
      ss_ignored_models (kept_special f m)"
    using up [of "''upstream_model_update_ignored_models''" "JArr (map JStr (ignored_models ?s))"]
    by (simp add: upstream_plan_def type_plan_keys kept_special_def Let_def join_strings del: js_string.simps split: option.splits)
  have advanced: "Some (if jtruthy (jget (JObj kvs') ''advanced_custom'')
      then catch_exn (stringifyAdvancedCustomConfig (jget (JObj kvs') ''advanced_custom'')) [] else []) = ss_advanced_custom (kept_special f m)"
  proof (cases "fv_preserve_hidden_advanced_custom f \<noteq> Some True \<and> ?t = advanced_custom_type")
    case True
    then obtain c where c: "parseAdvancedCustomConfig (ss_advanced_custom ?s) = Some c" "jtruthy c"
      "stringifyAdvancedCustomConfig c = Inr (json_pretty [] c)"
      using assms(1) advanced_reads_back [of f url] unfolding accepted_settings_def by blast
    have "jget (JObj kvs') ''advanced_custom'' = c"
      unfolding get using plan_advanced [of "''advanced_custom''" "Some c" f project m] True c(1) by (simp add: advanced_plan_def)
    then show ?thesis using True c by (simp add: kept_special_def Let_def)
  next
    case False
    then have "jget (JObj kvs') ''advanced_custom'' = JUndefined"
      unfolding get using plan_advanced [of "''advanced_custom''" None f project m] by (auto simp: advanced_plan_def)
    then show ?thesis using False by (auto simp: kept_special_def Let_def jtruthy_def)
  qed
  let ?flag = "\<lambda>k. Some (jget (JObj kvs') k = JBool True)" and ?k = "kept_special f m"
  have type_flags: "?flag ''openrouter_enterprise'' = ss_is_enterprise_account ?k" "?flag ''allow_service_tier'' = ss_allow_service_tier ?k"
    "?flag ''disable_store'' = ss_disable_store ?k" "?flag ''allow_safety_identifier'' = ss_allow_safety_identifier ?k"
    "?flag ''allow_include_obfuscation'' = ss_allow_include_obfuscation ?k" "?flag ''allow_inference_geo'' = ss_allow_inference_geo ?k"
    "?flag ''allow_speed'' = ss_allow_speed ?k" "?flag ''claude_beta_query'' = ss_claude_beta_query ?k"
    unfolding kept_special_def Let_def special_settings.select_convs by (rule flags, simp add: type_plan_def Let_def)+
  have sleep: "?flag ''disable_task_polling_sleep'' = ss_disable_task_polling_sleep ?k"
    using flags [of "''disable_task_polling_sleep''" True] by (simp add: type_plan_def Let_def kept_special_def)
  have texts: "or_val (jget (JObj kvs') ''vertex_key_type'') (JStr ''json'') = ss_vertex_key_type ?k"
    "or_val (jget (JObj kvs') ''aws_key_type'') (JStr ''ak_sk'') = ss_aws_key_type ?k"
    "or_val (jget (JObj kvs') ''aws_api_type'') (JStr ''invoke_model'') = ss_aws_api_type ?k"
    unfolding kept_special_def Let_def special_settings.select_convs by (rule vals, simp add: type_plan_def Let_def)+
  have "ss_azure_responses_version ?k = (if ?t = Fin 3 then or_val (ss_azure_responses_version ?s) (JStr []) else JStr [])"
    "ss_vertex_project_id ?k = JStr (if ?t = Fin 41 \<and> or_val (ss_vertex_key_type ?s) (JStr ''json'') = JStr ''api_key''
       then js_trim (text_of (ss_vertex_project_id ?s)) else [])"
    by (simp_all add: kept_special_def Let_def)
  then show ?thesis
    unfolding read_special_def Let_def check sync ignored advanced azure proj type_flags sleep texts by simp
qed

section \<open>Saving what was opened\<close>

lemma stored_list:
  assumes "x = Some (case x of Some (JArr vs) \<Rightarrow> JArr (if c then vs else []) | _ \<Rightarrow> JArr [])"
  shows "\<exists>vs. x = Some (JArr vs) \<and> (c \<or> vs = [])"
proof -
  obtain v where v: "x = Some v" using assms by blast
  then show ?thesis using assms by (cases v) (auto split: if_splits)
qed

lemma stored_number:
  assumes "x = Some (case x of Some (JNum y) \<Rightarrow> JNum y | _ \<Rightarrow> JNum (Fin 0))"
  shows "\<exists>y. x = Some (JNum y)"
proof -
  obtain v where v: "x = Some v" using assms by blast
  then show ?thesis using assms by (cases v) auto
qed

text \<open>Nothing changes when every planned value is there.\<close>

lemma written_same:
  assumes "\<forall>(k, x) \<in> set (settings_plan g project (map_of kvs)). map_of kvs k = x"
  shows "written_settings g project kvs = kvs"
proof -
  have t: "map_of kvs k = x" if "(k, x) \<in> set (type_plan g project)" for k x
    using bspec [OF assms, of "(k, x)"] that by (simp add: settings_plan_def)
  have u: "map_of kvs k = x" if "(k, x) \<in> set (upstream_plan g (map_of kvs))" for k x
    using bspec [OF assms, of "(k, x)"] that by (simp add: settings_plan_def)
  have a: "map_of kvs k = x" if "(k, x) \<in> set (advanced_plan g)" for k x
    using bspec [OF assms, of "(k, x)"] that by (simp add: settings_plan_def)
  have v: "put_vertex g project kvs = kvs"
    unfolding put_vertex_def Let_def by (subst put_same, rule t, simp add: type_plan_def Let_def)+ simp
  have w: "put_vendor g kvs = kvs"
    unfolding put_vendor_def Let_def by (subst put_same, rule t, simp add: type_plan_def Let_def)+ simp
  have sleep: "obj_set ''disable_task_polling_sleep'' (flag_json (ss_disable_task_polling_sleep (fv_special g))) kvs = kvs"
    by (rule set_same, rule t) (simp add: type_plan_def Let_def)
  have p: "put_passthrough g kvs = kvs"
    unfolding put_passthrough_def Let_def by ((subst put_same, rule t, simp add: type_plan_def Let_def)+, rule sleep)
  have up: "put_upstream g kvs = kvs"
  proof (cases "fv_type g \<in> set MODEL_FETCHABLE_TYPES")
    case True
    note u' = u [unfolded upstream_plan_def Let_def]
    have s: "obj_set ''upstream_model_update_check_enabled'' (JBool (ss_check_enabled (fv_special g) = Some True)) kvs = kvs"
      "obj_set ''upstream_model_update_auto_sync_enabled''
        (JBool (ss_check_enabled (fv_special g) = Some True \<and> ss_auto_sync_enabled (fv_special g) = Some True)) kvs = kvs"
      "obj_set ''upstream_model_update_ignored_models'' (JArr (map JStr (ignored_models (fv_special g)))) kvs = kvs"
      using True by (auto intro!: set_same u' simp del: not_None_eq)
    have d: "map_of kvs ''upstream_model_update_last_detected_models'' = Some (case map_of kvs ''upstream_model_update_last_detected_models''
        of Some (JArr vs) \<Rightarrow> JArr (if ss_check_enabled (fv_special g) = Some True then vs else []) | _ \<Rightarrow> JArr [])"
      using True by (intro u') simp
    have n: "map_of kvs ''upstream_model_update_last_check_time'' =
        Some (case map_of kvs ''upstream_model_update_last_check_time'' of Some (JNum x) \<Rightarrow> JNum x | _ \<Rightarrow> JNum (Fin 0))"
      using True by (intro u') simp
    obtain vs where vs: "map_of kvs ''upstream_model_update_last_detected_models'' = Some (JArr vs)"
      "ss_check_enabled (fv_special g) \<noteq> Some True \<Longrightarrow> vs = []"
      using stored_list [OF d] by blast
    obtain x where x: "map_of kvs ''upstream_model_update_last_check_time'' = Some (JNum x)"
      using stored_number [OF n] by blast
    have "obj_set ''upstream_model_update_last_detected_models'' (JArr []) kvs = kvs" if "ss_check_enabled (fv_special g) \<noteq> Some True"
      using vs that by (intro set_same) simp
    then show ?thesis using True s vs(1) x by (auto simp: put_upstream_def Let_def is_jarr_def is_jnum_def)
  qed (simp add: put_upstream_def)
  have "put_advanced g kvs = kvs"
    unfolding put_advanced_def by (auto intro!: delete_same set_same a simp: advanced_plan_def split: option.splits)
  then show ?thesis by (simp add: written_settings_def v w p up)
qed

lemma set_js_trim: "set (js_trim s) \<subseteq> set s"
  by (auto simp: js_trim_def dest!: set_dropWhileD)

text \<open>The ignored models are read from their list as they were.\<close>

lemma ignored_again:
  assumes "ss_ignored_models s' = Some (js_join '','' (ignored_models s))"
  shows "ignored_models s' = ignored_models s"
proof (cases "ignored_models s = []")
  case True
  then show ?thesis using assms unfolding ignored_models_def [of s'] by (simp add: js_unique_def)
next
  case False
  let ?ms = "ignored_models s"
  have m: "m \<noteq> [] \<and> js_trim m = m \<and> CHR '','' \<notin> set m" if "m \<in> set ?ms" for m
  proof -
    obtain p where "p \<in> set (js_split (CHR '','') (coalesce (ss_ignored_models s) []))" "m = js_trim p" "m \<noteq> []"
      using \<open>m \<in> set ?ms\<close> by (auto simp: ignored_models_def)
    then show ?thesis using js_split_no_sep set_js_trim by (metis js_trim_idem subsetD)
  qed
  have "js_split (CHR '','') (js_join '','' ?ms) = ?ms" using m False by (intro js_split_joined) auto
  moreover have "map js_trim ?ms = ?ms" "filter (\<lambda>m. m \<noteq> []) ?ms = ?ms" using m by (auto intro!: map_idI simp: filter_id_conv)
  moreover have "distinct ?ms" by (simp add: ignored_models_def)
  ultimately show ?thesis using assms unfolding ignored_models_def [of s'] by (simp add: js_unique_distinct)
qed

lemma plan_again:
  assumes "accepted_settings url f" "fv_type g = fv_type f" "fv_special g = kept_special f m"
    "fv_preserve_hidden_advanced_custom g = Some (fv_preserve_hidden_advanced_custom f = Some True)"
    "project = (if fv_type f = Fin 41 then js_trim (text_of (ss_vertex_project_id (fv_special f))) else [])"
    "project' = (if fv_type f = Fin 41 then js_trim (text_of (ss_vertex_project_id (fv_special g))) else [])"
    "m' = carry_out (settings_plan f project m) m"
  shows "settings_plan g project' m' = settings_plan f project m"
proof -
  have "or_val (or_val v d) d = or_val v d" for v d by (simp add: or_val_def)
  then have "type_plan g project' = type_plan f project"
    using assms(5,6) by (simp add: type_plan_def assms(2,3) kept_special_def Let_def flag_json_def) (simp add: or_val_def jtruthy_def)
  moreover have "upstream_plan g m' = upstream_plan f m"
  proof (cases "fv_type f \<in> set MODEL_FETCHABLE_TYPES")
    case True
    have u: "m' k = x" if "(k, x) \<in> set (upstream_plan f m)" for k x
      unfolding assms(7) by (rule plan_upstream [OF that])
    have "m' ''upstream_model_update_last_detected_models'' =
        Some (case m ''upstream_model_update_last_detected_models'' of
          Some (JArr vs) \<Rightarrow> JArr (if ss_check_enabled (fv_special f) = Some True then vs else []) | _ \<Rightarrow> JArr [])"
      "m' ''upstream_model_update_last_check_time'' =
        Some (case m ''upstream_model_update_last_check_time'' of Some (JNum x) \<Rightarrow> JNum x | _ \<Rightarrow> JNum (Fin 0))"
      using True by (auto intro!: u simp: upstream_plan_def Let_def)
    moreover have "ss_check_enabled (fv_special g) = Some True \<longleftrightarrow> ss_check_enabled (fv_special f) = Some True"
      "ss_auto_sync_enabled (fv_special g) = Some True \<longleftrightarrow>
        ss_check_enabled (fv_special f) = Some True \<and> ss_auto_sync_enabled (fv_special f) = Some True"
      "ignored_models (fv_special g) = ignored_models (fv_special f)"
      using True ignored_again [of "fv_special g" "fv_special f"] by (simp_all add: assms(3) kept_special_def Let_def)
    ultimately show ?thesis using True
      by (simp add: upstream_plan_def Let_def assms(2) split: option.splits jsval.splits)
  qed (simp add: upstream_plan_def assms(2))
  moreover have "advanced_plan g = advanced_plan f"
  proof (cases "fv_preserve_hidden_advanced_custom f \<noteq> Some True \<and> fv_type f = advanced_custom_type")
    case True
    then obtain c where c: "parseAdvancedCustomConfig (ss_advanced_custom (fv_special f)) = Some c"
      "parseAdvancedCustomConfig (Some (json_pretty [] c)) = Some c"
      using assms(1) advanced_reads_back [of f url] unfolding accepted_settings_def by blast
    then show ?thesis using True by (simp add: advanced_plan_def assms(2-4) kept_special_def Let_def)
  next
    case False
    then show ?thesis by (auto simp: advanced_plan_def assms(2,4))
  qed
  ultimately show ?thesis by (simp add: settings_plan_def)
qed

end
