(* ===== verification/Channel_Save_Facts.thy ===== *)
theory Channel_Save_Facts
  imports Channel_Settings_Facts
begin

text \<open>
  What saving a channel writes and what opening it again reads: a form the schema accepts is of the types the writers expect, its stored
  settings are an object, and a form made of the saved texts writes these texts again.
\<close>

section \<open>What an accepted form is\<close>

lemma blank_scalar: "is_ws c \<Longrightarrow> json_scalar (c # t) = None \<and> c \<noteq> CHR ''['' \<and> c \<noteq> CHR ''{''"
proof -
  assume ws: "is_ws c"
  have "\<not> is_ws d" if "d = dquote \<or> d = CHR ''t'' \<or> d = CHR ''f'' \<or> d = CHR ''n'' \<or> d = CHR ''['' \<or> d = CHR ''{'' \<or> json_num_char d" for d
    using that by (auto simp: is_ws_def json_num_char_def is_digit_def ordc_def)
  then have "c \<noteq> dquote" "c \<noteq> CHR ''t''" "c \<noteq> CHR ''f''" "c \<noteq> CHR ''n''" "c \<noteq> CHR ''[''" "c \<noteq> CHR ''{''" "\<not> json_num_char c"
    using ws by blast+
  then show ?thesis by (simp add: json_scalar_def json_number_def json_number_ok_def)
qed

lemma blank_unreadable: "js_trim t = [] \<Longrightarrow> json_read t = None"
proof -
  assume "js_trim t = []"
  then have "\<forall>c \<in> set (dropWhile is_ws t). is_ws c" by (simp add: js_trim_def dropWhile_eq_Nil_conv)
  then have "dropWhile is_ws t = []" by (metis hd_dropWhile list.set_sel(1))
  then have ws: "\<forall>c \<in> set t. is_ws c" by (simp add: dropWhile_eq_Nil_conv)
  have "json_value (Suc n) t = None" for n
  proof (cases "skip_ws t")
    case (Cons c u)
    then have "c \<in> set t" unfolding skip_ws_def by (metis list.set_intros(1) set_dropWhileD)
    then show ?thesis using Cons ws blank_scalar by simp
  qed simp
  from this [of "2 * length t + 1"] show ?thesis by (simp add: json_read_def json_parse_def)
qed

lemma accepted_form:
  assumes "channelFormSchema url proxy f" "typed_routes f"
  shows "typed_extra (fv_extra f)" "transport_issues (fv_extra f) = []" "accepted_settings url f" "isOptionalJsonObject (fv_settings f)"
proof -
  show "typed_extra (fv_extra f)" "isOptionalJsonObject (fv_settings f)" using assms(1) by (simp_all add: channelFormSchema_def fields_accepted_def)
  have i: "form_issues url f = Inr []" using assms(1) by (simp add: channelFormSchema_def)
  then show "transport_issues (fv_extra f) = []" by (auto simp: form_issues_def)
  have "advanced_custom_issues url f = Inr []" using i by (auto simp: form_issues_def)
  then show "accepted_settings url f"
    using assms by (auto simp: accepted_settings_def channelFormSchema_def fields_accepted_def advanced_custom_issues_def Let_def split: option.splits)
qed

lemma parsed_object:
  assumes "isOptionalJsonObject (fv_settings f)" "plain_numbers (parsed_settings f)"
  obtains kvs where "parsed_settings f = JObj kvs" "good_object kvs"
proof -
  let ?t = "coalesce (fv_settings f) []"
  show ?thesis
  proof (cases "?t = [] \<or> ?t = ''{}'' \<or> json_read ?t = None")
    case True
    then have "parsed_settings f = JObj []" by (auto simp: parsed_settings_def Let_def split: option.splits)
    then show ?thesis using that by (simp add: good_object_def js_entries_def)
  next
    case False
    then obtain v where v: "json_read ?t = Some v" "parsed_settings f = v" by (auto simp: parsed_settings_def Let_def)
    then have "js_trim ?t \<noteq> []" using blank_unreadable by auto
    moreover obtain w where w: "json_parse ?t = Some w" "v = js_order w" using v by (auto simp: json_read_def)
    have shape: "json_shape v" unfolding w(2) by (rule order_shape [OF json_parse_shape [OF w(1)]])
    ultimately obtain kvs where kvs: "v = JObj kvs" using assms(1) v
      by (auto simp: isOptionalJsonObject_def parseOptionalJson_def isJsonObjectValue_def split: jsval.splits if_splits)
    have "json_ok v" using shape assms(2) v(2) by (simp add: shape_ok)
    then have "carried v" using json_read_order [OF v(1)] by (simp add: carried_def)
    then show ?thesis using that v kvs by (simp add: good_object_carried)
  qed
qed

lemma settings_written:
  assumes "accepted_settings url f" "parsed_settings f = JObj kvs" "good_object kvs"
    "project = (if fv_type f = Fin 41 then js_trim (text_of (ss_vertex_project_id (fv_special f))) else [])"
  shows "buildSettingsJSON f = Inr (json_text (JObj (written_settings f project kvs)))"
    "json_read (json_text (JObj (written_settings f project kvs))) = Some (JObj (written_settings f project kvs))"
proof -
  have "vertex_project f = Inr project" using assms(1,4) project_typed by (simp add: accepted_settings_def)
  then show "buildSettingsJSON f = Inr (json_text (JObj (written_settings f project kvs)))"
    by (simp add: buildSettingsJSON_def assms(2) written_settings_def del: json_text.simps)
  show "json_read (json_text (JObj (written_settings f project kvs))) = Some (JObj (written_settings f project kvs))"
    using written_good [OF assms(1,3)] good_object_carried carried_text by blast
qed

lemma carry_out_lookup:
  "distinct (map fst ps) \<Longrightarrow> carry_out ps m k = (case map_of ps k of None \<Rightarrow> m k | Some x \<Rightarrow> x)"
  by (auto simp: map_of_eq_None_iff carry_out_other carry_out_planned dest: map_of_SomeD split: option.splits)

section \<open>Saved again\<close>

lemma or_val_again [simp]: "or_val (or_val v d) d = or_val v d"
  by (simp add: or_val_def)

lemma transport_again:
  assumes "typed_extra (fv_extra f)" "transport_issues (fv_extra f) = []"
  shows "transport_entries (kept_extra f) = transport_entries (fv_extra f)"
proof (rule transport_cases [OF assms])
  assume "xs_http_protocol (fv_extra f) = JStr ''http1''" "or_val (xs_http2_connection_shards (fv_extra f)) (JNum (Fin 1)) = JNum (Fin 1)"
  then show ?thesis by (simp add: transport_entries_def kept_extra_def Let_def HTTP_PROTOCOL_HTTP1_def or_val_def [of "JStr ''http1''"] jtruthy_def)
next
  fix k assume k: "or_val (xs_http_protocol (fv_extra f)) (JStr ''auto'') = JStr ''auto''" "normalizeHttpProtocol (xs_http_protocol (fv_extra f)) = ''auto''"
      "or_val (xs_http2_connection_shards (fv_extra f)) (JNum (Fin 1)) = JNum (Fin (of_int k))" "1 \<le> k" "k \<le> 8"
      "normalizeHttp2ConnectionShards (xs_http2_connection_shards (fv_extra f)) = JNum (Fin (of_int k))"
  have "normalizeHttp2ConnectionShards (JNum (Fin (of_int k))) = JNum (Fin (of_int k))"
    using k(4,5) by (simp add: normalizeHttp2ConnectionShards_def is_nullish_def js_to_number_def MAX_HTTP2_CONNECTION_SHARDS_def)
  then show ?thesis using k by (simp add: transport_entries_def kept_extra_def Let_def HTTP_PROTOCOL_HTTP1_def)
qed

lemma setting_again:
  assumes "typed_extra (fv_extra f)" "transport_issues (fv_extra f) = []" "fv_extra g = kept_extra f"
    "fv_preserve_hidden_proxy g = Some (fv_preserve_hidden_proxy f = Some True)"
  shows "setting_object g = setting_object f"
proof -
  have "opt_text (xs_proxy (fv_extra f))" using assms(1) by (simp add: typed_extra_def opt_str_text)
  then obtain t where t: "trim_opt (xs_proxy (fv_extra f)) = Inr t" "coalesce t [] = js_trim (text_of (xs_proxy (fv_extra f)))"
    using trim_opt_text by blast
  have "trim_opt (JStr s) = Inr (Some (js_trim s))" for s by (simp add: trim_opt_def trim_val_def)
  moreover have "extra_entries (kept_extra f) = extra_entries (fv_extra f)" by (simp add: extra_entries_def kept_extra_def Let_def)
  moreover have "xs_proxy (kept_extra f) = JStr (if fv_preserve_hidden_proxy f = Some True then [] else js_trim (text_of (xs_proxy (fv_extra f))))"
    by (simp add: kept_extra_def Let_def)
  ultimately show ?thesis using t assms(4) unfolding setting_object_def assms(3) transport_again [OF assms(1,2)] by simp
qed

text \<open>The stored settings the form was opened with.\<close>

definition stored_settings :: "channel_form \<Rightarrow> (string \<rightharpoonup> jsval)" where
  "stored_settings f = (case parsed_settings f of JObj kvs \<Rightarrow> map_of kvs | _ \<Rightarrow> Map.empty)"

lemma object_text_braces: "json_text (JObj kvs) = ''{}'' \<Longrightarrow> json_read (json_text (JObj kvs)) = Some (JObj kvs) \<Longrightarrow> kvs = []"
proof -
  assume "json_text (JObj kvs) = ''{}''" "json_read (json_text (JObj kvs)) = Some (JObj kvs)"
  moreover have "json_read ''{}'' = Some (JObj [])" by code_simp
  ultimately show ?thesis by simp
qed

text \<open>A form that says the same about its channel writes the same text over it.\<close>

lemma settings_again:
  assumes "accepted_settings url f" "parsed_settings f = JObj kvs" "good_object kvs"
    "p = (if fv_type f = Fin 41 then js_trim (text_of (ss_vertex_project_id (fv_special f))) else [])"
    "settings = json_text (JObj (written_settings f p kvs))"
    "fv_special g = kept_special f (map_of kvs)" "fv_type g = fv_type f" "fv_settings g = Some settings"
    "fv_preserve_hidden_advanced_custom g = Some (fv_preserve_hidden_advanced_custom f = Some True)"
  shows "buildSettingsJSON g = Inr settings"
proof -
  let ?w = "written_settings f p kvs"
  have read: "json_read settings = Some (JObj ?w)" unfolding assms(5) by (rule settings_written(2) [OF assms(1-4)])
  define p' where "p' = (if fv_type f = Fin 41 then js_trim (text_of (ss_vertex_project_id (fv_special g))) else [])"
  have plan: "settings_plan g p' (map_of ?w) = settings_plan f p (map_of kvs)"
    by (rule plan_again [OF assms(1,7,6,9,4) p'_def written_map])
  have "map_of ?w k = x" if "(k, x) \<in> set (settings_plan f p (map_of kvs))" for k x
    unfolding written_map by (rule carry_out_planned [OF plan_keys_distinct that])
  then have same: "written_settings g p' ?w = ?w" by (intro written_same) (auto simp: plan)
  have "parsed_settings g = JObj ?w"
  proof (cases "settings = ''{}''")
    case True
    then have "?w = []" using object_text_braces read assms(5) by metis
    then show ?thesis using True by (simp add: parsed_settings_def assms(8))
  next
    case False
    moreover have "settings \<noteq> []" unfolding assms(5) by (rule object_compact_trimmed)
    ultimately show ?thesis using read by (simp add: parsed_settings_def assms(8))
  qed
  moreover have "vertex_project g = Inr p'"
  proof -
    obtain t where "ss_vertex_project_id (fv_special g) = JStr t" by (simp add: assms(6) kept_special_def Let_def)
    then show ?thesis by (simp add: vertex_project_def p'_def assms(7) trim_opt_def trim_val_def)
  qed
  ultimately show ?thesis
    using same by (simp add: buildSettingsJSON_def written_settings_def [symmetric] assms(5) del: json_text.simps)
qed

end
