(* ===== verification/Drawer_Facts.thy ===== *)
theory Drawer_Facts
  imports Channel_Drawer Channel_Save_Facts
begin

text \<open>
  Facts about the drawer of channels: the members of an update, the invariants of its log of events, of its open questions and of the
  shown key, and that every step keeps them.
\<close>

section \<open>Requests\<close>

lemma fold_delete_keys: "fst ` set (fold obj_delete ks kvs) = fst ` set kvs - set ks"
  by (induction ks arbitrary: kvs) (auto simp: obj_delete_keys)

lemma fold_set_keys: "fst ` set (fold (\<lambda>(k, v). obj_set k v) ps kvs) = fst ` set ps \<union> fst ` set kvs"
  by (induction ps arbitrary: kvs) (simp_all add: case_prod_beta)

lemma updateChannel_keys: "fst ` set (updateChannel i data) = insert ''id'' (fst ` set data)"
  by (simp add: updateChannel_def fold_set_keys)

lemma update_data_keys:
  assumes "update_data sensitive multi edited f i = Inr body"
  shows "\<not> sensitive \<Longrightarrow> fst ` set body \<inter> set SENSITIVE_UPDATE_FIELDS = {}"
    "js_trim (fv_key f) = [] \<Longrightarrow> ''key'' \<notin> fst ` set body"
    "''param_override'' \<in> fst ` set body \<Longrightarrow> ''param_override'' \<in> set edited"
    "''header_override'' \<in> fst ` set body \<Longrightarrow> ''header_override'' \<in> set edited"
    "fv_preserve_hidden_base_url f = Some True \<Longrightarrow> ''base_url'' \<notin> fst ` set body"
proof -
  obtain payload where payload: "transformFormDataToUpdatePayload f i = Inr payload" using assms by (auto simp: update_data_def)
  define p1 where "p1 = (if js_trim (fv_key f) = [] then obj_delete ''key'' payload else payload)"
  define p2 where "p2 = fold obj_delete (filter (\<lambda>field. field \<notin> set edited) [''param_override'', ''header_override'']) p1"
  define p3 where "p3 = (if sensitive then p2 else fold obj_delete SENSITIVE_UPDATE_FIELDS p2)"
  define p4 where "p4 = (if sensitive \<and> multi \<and> js_trim (fv_key f) \<noteq> [] \<and> coalesce (fv_key_mode f) [] \<noteq> []
    then obj_set ''key_mode'' (JStr (coalesce (fv_key_mode f) [])) p3 else p3)"
  have "body = (if sensitive \<and> multi
    then obj_set ''multi_key_mode'' (case fv_multi_key_type f of None \<Rightarrow> JUndefined | Some t \<Rightarrow> JStr t) p4 else p4)"
    using assms unfolding update_data_def payload bind_exn_simps Let_def
    unfolding p1_def [symmetric] p2_def [symmetric] p3_def [symmetric] p4_def [symmetric] by (rule sum.inject(2) [THEN iffD1, symmetric])
  then have "fst ` set body \<subseteq> insert ''multi_key_mode'' (fst ` set p4)" by (simp add: subset_insertI)
  moreover have "fst ` set p4 \<subseteq> insert ''key_mode'' (fst ` set p3)" by (simp add: p4_def subset_insertI)
  ultimately have body: "fst ` set body \<subseteq> fst ` set p3 \<union> {''key_mode'', ''multi_key_mode''}" by blast
  have p3: "fst ` set p3 \<subseteq> fst ` set p2" "\<not> sensitive \<Longrightarrow> fst ` set p3 \<inter> set SENSITIVE_UPDATE_FIELDS = {}"
    by (auto simp: p3_def fold_delete_keys)
  have p2: "fst ` set p2 = fst ` set p1 - {field \<in> {''param_override'', ''header_override''}. field \<notin> set edited}"
    unfolding p2_def fold_delete_keys by auto
  have p1: "fst ` set p1 \<subseteq> fst ` set payload" "js_trim (fv_key f) = [] \<Longrightarrow> ''key'' \<notin> fst ` set p1"
    by (auto simp: p1_def obj_delete_keys)
  have p0: "fv_preserve_hidden_base_url f = Some True \<Longrightarrow> ''base_url'' \<notin> fst ` set payload"
    using payload by (auto simp: transformFormDataToUpdatePayload_def Let_def obj_delete_def)
  show "\<not> sensitive \<Longrightarrow> fst ` set body \<inter> set SENSITIVE_UPDATE_FIELDS = {}"
    using body p3(2) by (auto simp: SENSITIVE_UPDATE_FIELDS_def)
  show "js_trim (fv_key f) = [] \<Longrightarrow> ''key'' \<notin> fst ` set body" using body p3(1) p2 p1(2) by auto
  show "''param_override'' \<in> fst ` set body \<Longrightarrow> ''param_override'' \<in> set edited" using body p3(1) p2 by auto
  show "''header_override'' \<in> fst ` set body \<Longrightarrow> ''header_override'' \<in> set edited" using body p3(1) p2 by auto
  show "''base_url'' \<notin> fst ` set body" if "fv_preserve_hidden_base_url f = Some True"
  proof -
    have "''base_url'' \<notin> fst ` set p3" using that p3(1) p2 p1(1) p0 by blast
    moreover have "''base_url'' \<noteq> ''key_mode''" "''base_url'' \<noteq> ''multi_key_mode''" by simp_all
    ultimately show ?thesis using body by blast
  qed
qed

section \<open>The log of the drawer\<close>

text \<open>An update that its user was permitted to send.\<close>

definition permitted :: "drawer_event \<Rightarrow> bool" where
  "permitted e \<longleftrightarrow>
     (case e of
        Sent f user edited (UpdateRequest body) \<Rightarrow>
          (\<not> hasPermission user ''channel'' ''sensitive_write'' \<longrightarrow> fst ` set body \<inter> set SENSITIVE_UPDATE_FIELDS = {}) \<and>
          (js_trim (fv_key f) = [] \<longrightarrow> ''key'' \<notin> fst ` set body) \<and>
          (\<forall>field \<in> {''param_override'', ''header_override''}. field \<in> fst ` set body \<longrightarrow> field \<in> set edited) \<and>
          (fv_preserve_hidden_base_url f = Some True \<longrightarrow> ''base_url'' \<notin> fst ` set body)
      | _ \<Rightarrow> True)"

lemma logged_log [simp]: "dw_log (logged e s) = dw_log s @ [e]"
  by (simp add: logged_def)

lemma request_permitted:
  assumes "request_of f s = Inr r"
  shows "permitted (Sent f (dw_user s) (dw_edited s) r)"
proof (cases "dw_row s")
  case None
  then show ?thesis using assms by (auto simp: request_of_def permitted_def)
next
  case (Some i)
  then obtain body where body: "update_data (canEditSensitive s) (isMultiKeyChannel s) (dw_edited s) f i = Inr body"
    "r = UpdateRequest (updateChannel i body)" using assms by (auto simp: request_of_def)
  note k = update_data_keys [OF body(1)]
  show ?thesis unfolding permitted_def body(2)
    using k by (auto simp: updateChannel_keys canEditSensitive_def SENSITIVE_UPDATE_FIELDS_def)
qed

lemma mutate_permitted: "list_all permitted (dw_log s) \<Longrightarrow> list_all permitted (dw_log (mutate f s))"
  using request_permitted [of f s] by (auto simp: mutate_def permitted_def split: sum.splits)

lemma submit_models_permitted: "list_all permitted (dw_log s) \<Longrightarrow> list_all permitted (dw_log (submit_models f s))"
  by (auto simp: submit_models_def Let_def mutate_permitted permitted_def split: option.splits)

lemma step_permitted:
  assumes "drawer_step url proxy s s'" "list_all permitted (dw_log s)"
  shows "list_all permitted (dw_log s')"
  using assms
proof cases
  case submitted
  then show ?thesis using assms(2)
    by (auto simp: onSubmit_def Let_def logged_def permitted_def intro!: submit_models_permitted)
next
  case (risk_answered confirmed)
  then show ?thesis using assms(2)
    by (auto simp: handleStatusCodeRiskAction_def Let_def logged_def permitted_def intro!: submit_models_permitted split: option.splits)
next
  case (missing_answered action)
  then show ?thesis using assms(2)
    by (auto simp: handleMissingModelsAction_def Let_def logged_def permitted_def intro!: mutate_permitted split: option.splits missing_action.splits)
qed (auto simp: handleOpenChange_def load_form_def updateOverride_def updateHiddenSensitiveField_def applyConnectionInfo_def
    type_defaults_def doubao_plan_def single_key_effect_def updateModels_def handleFillRelatedModels_def handleFillAllModels_def
    handleClearModels_def handleModelsChange_def request_settled_def mark_dirty_def logged_def permitted_def Let_def
    split: option.splits hidden_field.splits)

section \<open>Members of an update\<close>

lemma set_member: "(k, v) \<in> set (obj_set a x kvs) \<Longrightarrow> (k, v) = (a, x) \<or> (k, v) \<in> set kvs"
  by (induction a x kvs rule: obj_set.induct) (auto split: if_splits)

lemma fold_set_member: "(k, v) \<in> set (fold (\<lambda>(a, x). obj_set a (h x)) ps kvs) \<Longrightarrow> (\<exists>x. (k, x) \<in> set ps \<and> v = h x) \<or> (k, v) \<in> set kvs"
proof (induction ps arbitrary: kvs)
  case (Cons p ps)
  obtain a x where p: "p = (a, x)" by force
  show ?case using Cons.IH [of "obj_set a (h x) kvs"] Cons.prems set_member [of k v a "h x" kvs] by (auto simp: p)
qed simp

lemma fold_delete_member: "p \<in> set (fold obj_delete ks kvs) \<Longrightarrow> p \<in> set kvs"
  by (induction ks arbitrary: kvs) (simp, fastforce simp: obj_delete_def)

text \<open>The two texts of settings in an update are those of the form.\<close>

lemma payload_settings:
  assumes "transformFormDataToUpdatePayload f i = Inr payload"
  shows "(''setting'', JStr t) \<in> set payload \<Longrightarrow> buildSettingJSON f = Inr t"
    "(''settings'', JStr t) \<in> set payload \<Longrightarrow> buildSettingsJSON f = Inr t"
proof -
  obtain a b where ab: "buildSettingJSON f = Inr a" "buildSettingsJSON f = Inr b" using assms by (auto simp: transformFormDataToUpdatePayload_def)
  let ?members = "update_members f i a b"
  have "payload = fold (\<lambda>(k, t). obj_set k (JStr t)) (explicit_texts f) (nulled ?members) \<or>
      payload = obj_delete ''base_url'' (fold (\<lambda>(k, t). obj_set k (JStr t)) (explicit_texts f) (nulled ?members))"
    using assms ab by (auto simp: transformFormDataToUpdatePayload_def Let_def split: if_splits)
  then have "(\<exists>x. (k, x) \<in> set (explicit_texts f) \<and> v = JStr x) \<or> (k, v) \<in> set (nulled ?members)" if "(k, v) \<in> set payload" for k v
    using that fold_set_member [of k v JStr "explicit_texts f" "nulled ?members"] by (auto simp: obj_delete_def)
  then have m: "(k, v) \<in> set (nulled ?members)" if "(k, v) \<in> set payload" "k = ''setting'' \<or> k = ''settings''" for k v
    using that by (fastforce simp: explicit_texts_def)
  show "buildSettingJSON f = Inr t" if "(''setting'', JStr t) \<in> set payload"
    using m [OF that] ab by (auto simp: nulled_def update_members_def text_or_null_def num_or_def split: if_splits)
  show "buildSettingsJSON f = Inr t" if "(''settings'', JStr t) \<in> set payload"
    using m [OF that] ab by (auto simp: nulled_def update_members_def text_or_null_def num_or_def split: if_splits)
qed

lemma update_settings:
  assumes "update_data sensitive multi edited f i = Inr data" "(k, v) \<in> set (updateChannel i data)" "k = ''setting'' \<or> k = ''settings''"
  obtains payload where "transformFormDataToUpdatePayload f i = Inr payload" "(k, v) \<in> set payload"
proof -
  have "(k, v) \<in> set data"
    using assms(2,3) fold_set_member [of k v "\<lambda>x. x" data "[(''id'', JNum i)]"] by (auto simp: updateChannel_def)
  moreover obtain payload where p: "transformFormDataToUpdatePayload f i = Inr payload" using assms(1) by (auto simp: update_data_def)
  ultimately have "(k, v) \<in> set payload"
    using assms(1,3) unfolding update_data_def p bind_exn_simps Let_def
    by (auto dest!: set_member fold_delete_member split: if_splits simp: obj_delete_def simp del: filter.simps fold.simps)
  then show ?thesis using that p by blast
qed

section \<open>Hidden settings\<close>

lemma hidden_settings:
  assumes "channelFormSchema url proxy f" "typed_routes f" "plain_numbers (parsed_settings f)"
  shows "fv_preserve_hidden_proxy f = Some True \<Longrightarrow>
      \<exists>t kvs. buildSettingJSON f = Inr t \<and> json_read t = Some (JObj kvs) \<and> ''proxy'' \<notin> fst ` set kvs"
    "fv_preserve_hidden_advanced_custom f = Some True \<Longrightarrow>
      \<exists>t kvs. buildSettingsJSON f = Inr t \<and> json_read t = Some (JObj kvs) \<and> ''advanced_custom'' \<notin> fst ` set kvs"
proof -
  note acc = accepted_form [OF assms(1,2)]
  show "\<exists>t kvs. buildSettingJSON f = Inr t \<and> json_read t = Some (JObj kvs) \<and> ''proxy'' \<notin> fst ` set kvs"
    if h: "fv_preserve_hidden_proxy f = Some True"
  proof -
    obtain kvs where kvs: "setting_object f = Inr kvs" "good_object kvs" "map_of kvs ''proxy'' = None"
      using setting_read_back [OF acc(1,2)] h by metis
    then have "buildSettingJSON f = Inr (json_text (JObj kvs))" "json_read (json_text (JObj kvs)) = Some (JObj kvs)"
      using good_object_carried carried_text by (auto simp: buildSettingJSON_def simp del: json_text.simps)
    then show ?thesis using kvs(3) by (auto simp: map_of_eq_None_iff simp del: json_text.simps)
  qed
  show "\<exists>t kvs. buildSettingsJSON f = Inr t \<and> json_read t = Some (JObj kvs) \<and> ''advanced_custom'' \<notin> fst ` set kvs"
    if h: "fv_preserve_hidden_advanced_custom f = Some True"
  proof -
    obtain kvs where kvs: "parsed_settings f = JObj kvs" "good_object kvs" using parsed_object [OF acc(4) assms(3)] .
    note w = settings_written [OF acc(3) kvs refl]
    have "map_of (written_settings f p kvs) ''advanced_custom'' = None" for p
      unfolding written_map using h by (intro plan_advanced) (simp add: advanced_plan_def)
    then show ?thesis using w by (auto simp: map_of_eq_None_iff simp del: json_text.simps)
  qed
qed

section \<open>Questions\<close>

abbreviation status_mapping :: "channel_form \<Rightarrow> string" where
  "status_mapping f \<equiv> coalesce (fv_status_code_mapping f) []"

text \<open>What may be sent: a form that was submitted, up to its models; the schema accepted it, its mapping of status codes has no invalid entry,
  and the redirects that were not there when the channel was loaded have been confirmed if they are risky.\<close>

definition cleared :: "url_parser \<Rightarrow> proxy_parser \<Rightarrow> drawer_event list \<Rightarrow> channel_form \<Rightarrow> bool" where
  "cleared url proxy evs f \<longleftrightarrow>
     (\<exists>f0 original models. Submitted f0 original \<in> set evs \<and> f = f0\<lparr>fv_models := models\<rparr> \<and> channelFormSchema url proxy f0 \<and>
        collectInvalidStatusCodeEntries (status_mapping f) = [] \<and>
        (collectNewDisallowedStatusCodeRedirects original (status_mapping f) \<noteq> [] \<longrightarrow>
           RiskConfirmed (collectNewDisallowedStatusCodeRedirects original (status_mapping f)) \<in> set evs))"

definition awaits_risk :: "url_parser \<Rightarrow> proxy_parser \<Rightarrow> drawer_event list \<Rightarrow> channel_form \<Rightarrow> (int \<times> int) list \<Rightarrow> bool" where
  "awaits_risk url proxy evs f items \<longleftrightarrow>
     (\<exists>original. Submitted f original \<in> set evs \<and> channelFormSchema url proxy f \<and> collectInvalidStatusCodeEntries (status_mapping f) = [] \<and>
        items = collectNewDisallowedStatusCodeRedirects original (status_mapping f))"

definition guarded :: "url_parser \<Rightarrow> proxy_parser \<Rightarrow> drawer_event list \<Rightarrow> bool" where
  "guarded url proxy evs \<longleftrightarrow>
     (\<forall>i < length evs. case evs ! i of Sent f _ _ _ \<Rightarrow> cleared url proxy (take i evs) f | _ \<Rightarrow> True)"

definition drawer_ok :: "url_parser \<Rightarrow> proxy_parser \<Rightarrow> drawer \<Rightarrow> bool" where
  "drawer_ok url proxy s \<longleftrightarrow> guarded url proxy (dw_log s) \<and>
     (\<forall>f items. dw_risk s = Some (f, items) \<longrightarrow> awaits_risk url proxy (dw_log s) f items) \<and>
     (\<forall>f models. dw_missing s = Some (f, models) \<longrightarrow> cleared url proxy (dw_log s) f)"

lemma guarded_Nil [simp]: "guarded url proxy []"
  by (simp add: guarded_def)

lemma guarded_snoc [simp]: "guarded url proxy (evs @ [e]) \<longleftrightarrow> guarded url proxy evs \<and> (case e of Sent f _ _ _ \<Rightarrow> cleared url proxy evs f | _ \<Rightarrow> True)"
  by (auto simp: guarded_def nth_append less_Suc_eq cong: drawer_event.case_cong)

lemma cleared_mono: "cleared url proxy evs f \<Longrightarrow> cleared url proxy (evs @ [e]) f"
  unfolding cleared_def by fastforce

lemma awaits_mono: "awaits_risk url proxy evs f items \<Longrightarrow> awaits_risk url proxy (evs @ [e]) f items"
  unfolding awaits_risk_def by fastforce

text \<open>An event that sends nothing.\<close>

lemma ok_logged: "drawer_ok url proxy s \<Longrightarrow> (\<And>f u d r. e \<noteq> Sent f u d r) \<Longrightarrow> drawer_ok url proxy (logged e s)"
  by (cases e) (auto simp: drawer_ok_def logged_def cleared_mono awaits_mono split: option.splits)

lemma ok_mutate: "drawer_ok url proxy s \<Longrightarrow> cleared url proxy (dw_log s) f \<Longrightarrow> drawer_ok url proxy (mutate f s)"
  by (auto simp: mutate_def ok_logged split: sum.splits)
    (auto simp: drawer_ok_def logged_def cleared_mono awaits_mono split: option.splits)

lemma ok_models: "drawer_ok url proxy s \<Longrightarrow> cleared url proxy (dw_log s) f \<Longrightarrow> drawer_ok url proxy (submit_models f s)"
proof -
  assume s: "drawer_ok url proxy s" "cleared url proxy (dw_log s) f"
  then have "drawer_ok url proxy (s\<lparr>dw_missing := Some (f, ms)\<rparr>)" for ms by (simp add: drawer_ok_def)
  then show ?thesis using s by (auto simp: submit_models_def Let_def ok_mutate ok_logged split: option.splits)
qed

lemma blank_mapping: "js_trim t = [] \<Longrightarrow> collectInvalidStatusCodeEntries t = [] \<and> collectNewDisallowedStatusCodeRedirects original t = []"
  by (simp add: collectInvalidStatusCodeEntries_def collectNewDisallowedStatusCodeRedirects_def collectDisallowedStatusCodeRedirects_def
      mapping_entries_def List.map_filter_def js_unique_def)

lemma same_models: "f = f\<lparr>fv_models := fv_models f\<rparr>"
  by simp

lemma ok_submit:
  assumes "drawer_ok url proxy s" "channelFormSchema url proxy f"
  shows "drawer_ok url proxy (onSubmit f s)"
proof -
  define s1 where "s1 = logged (Submitted f (dw_initialStatusCodeMapping s)) s"
  have s1: "drawer_ok url proxy s1" "Submitted f (dw_initialStatusCodeMapping s1) \<in> set (dw_log s1)"
    using assms(1) by (simp_all add: s1_def ok_logged) (simp_all add: logged_def)
  have go: "cleared url proxy (dw_log s1) f"
    if "collectInvalidStatusCodeEntries (status_mapping f) = []"
      "collectNewDisallowedStatusCodeRedirects (dw_initialStatusCodeMapping s1) (status_mapping f) = []"
    unfolding cleared_def using that s1(2) assms(2) same_models by blast
  have ask: "drawer_ok url proxy (s1\<lparr>dw_risk := Some (f, items)\<rparr>)"
    if "collectInvalidStatusCodeEntries (status_mapping f) = []"
      "items = collectNewDisallowedStatusCodeRedirects (dw_initialStatusCodeMapping s1) (status_mapping f)" for items
    using that s1 assms(2) by (auto simp: drawer_ok_def awaits_risk_def)
  show ?thesis
    unfolding onSubmit_def Let_def s1_def [symmetric]
    using s1(1) go ask blank_mapping [of "status_mapping f" "dw_initialStatusCodeMapping s1"]
    by (auto intro!: ok_models ok_logged)
qed

lemma ok_risk: "drawer_ok url proxy s \<Longrightarrow> drawer_ok url proxy (handleStatusCodeRiskAction confirmed s)"
proof (cases "dw_risk s")
  case (Some p)
  assume ok: "drawer_ok url proxy s"
  obtain f items where p: "p = (f, items)" by force
  let ?s = "s\<lparr>dw_risk := None\<rparr>"
  have q: "drawer_ok url proxy ?s" "awaits_risk url proxy (dw_log s) f items" using ok Some p by (simp_all add: drawer_ok_def)
  then have "cleared url proxy (dw_log (logged (RiskConfirmed items) ?s)) f"
    unfolding awaits_risk_def cleared_def using same_models by fastforce
  then show ?thesis using q(1) Some p by (auto simp: handleStatusCodeRiskAction_def Let_def intro!: ok_models ok_logged)
qed (simp add: handleStatusCodeRiskAction_def)

text \<open>The models of the form may still change.\<close>

lemma cleared_models:
  assumes "cleared url proxy evs f"
  shows "cleared url proxy evs (f\<lparr>fv_models := models\<rparr>)"
proof -
  obtain f0 original models' where f0: "Submitted f0 original \<in> set evs" "f = f0\<lparr>fv_models := models'\<rparr>" "channelFormSchema url proxy f0"
    "collectInvalidStatusCodeEntries (status_mapping f) = []"
    "collectNewDisallowedStatusCodeRedirects original (status_mapping f) \<noteq> [] \<longrightarrow>
       RiskConfirmed (collectNewDisallowedStatusCodeRedirects original (status_mapping f)) \<in> set evs"
    using assms unfolding cleared_def by blast
  have "f\<lparr>fv_models := models\<rparr> = f0\<lparr>fv_models := models\<rparr>" "status_mapping (f\<lparr>fv_models := models\<rparr>) = status_mapping f"
    by (simp_all add: f0(2))
  then show ?thesis unfolding cleared_def using f0(1,3-5) by metis
qed

lemma ok_missing: "drawer_ok url proxy s \<Longrightarrow> drawer_ok url proxy (handleMissingModelsAction action s)"
proof (cases "dw_missing s")
  case (Some p)
  assume ok: "drawer_ok url proxy s"
  obtain f ms where p: "p = (f, ms)" by force
  let ?s = "s\<lparr>dw_missing := None\<rparr>"
  have q: "drawer_ok url proxy ?s" "cleared url proxy (dw_log s) f" using ok Some p by (simp_all add: drawer_ok_def)
  have r: "drawer_ok url proxy (logged (MissingAnswered action ms) ?s)" "cleared url proxy (dw_log (logged (MissingAnswered action ms) ?s)) f"
    using q by (auto intro!: ok_logged simp: cleared_mono)
  have form: "drawer_ok url proxy (t\<lparr>dw_form := g\<rparr>) = drawer_ok url proxy t" for t g by (simp add: drawer_ok_def)
  show ?thesis using r Some p
    by (cases action) (auto simp: handleMissingModelsAction_def Let_def form intro!: ok_mutate cleared_models)
qed (simp add: handleMissingModelsAction_def)

lemma drawer_step_ok:
  assumes "drawer_step url proxy s s'" "drawer_ok url proxy s"
  shows "drawer_ok url proxy s'"
  using assms
proof cases
  case submitted
  then show ?thesis using assms(2) ok_submit by blast
next
  case risk_answered
  then show ?thesis using assms(2) ok_risk by blast
next
  case missing_answered
  then show ?thesis using assms(2) ok_missing by blast
next
  case (settled i answer)
  then show ?thesis using assms(2)
    by (auto simp: request_settled_def Let_def intro!: ok_logged split: option.splits) (auto simp: drawer_ok_def)
qed (auto simp: handleOpenChange_def load_form_def updateOverride_def updateHiddenSensitiveField_def applyConnectionInfo_def
    type_defaults_def doubao_plan_def single_key_effect_def updateModels_def handleFillRelatedModels_def handleFillAllModels_def
    handleClearModels_def handleModelsChange_def mark_dirty_def Let_def drawer_ok_def logged_def cleared_mono awaits_mono
    split: option.splits hidden_field.splits)

section \<open>The shown key\<close>

definition key_ok :: "key_panel \<Rightarrow> bool" where
  "key_ok s \<longleftrightarrow> kp_owners s \<noteq> [] \<and>
     (\<forall>i \<in> set (kp_flights s). i < length (kp_owners s) \<and> ko_open (kp_owners s ! i) \<and> ko_canRevealChannelKey (kp_owners s ! i) \<and>
        ko_channelId (kp_owners s ! i) \<noteq> None) \<and>
     (\<forall>(i, v) \<in> set (kp_answers s). i < length (kp_owners s) \<and> ko_open (kp_owners s ! i) \<and> ko_canRevealChannelKey (kp_owners s ! i) \<and>
        ko_channelId (kp_owners s ! i) \<noteq> None) \<and>
     (\<forall>i v. kp_revealed s = Some (i, v) \<longrightarrow> (i, v) \<in> set (kp_answers s))"

lemma key_step_ok: "key_step s s' \<Longrightarrow> key_ok s \<Longrightarrow> key_ok s'"
proof (induction rule: key_step.induct)
  case (rendered s owner)
  have "(kp_owners s @ [owner]) ! i = kp_owners s ! i" if "i < length (kp_owners s)" for i using that by (simp add: nth_append)
  then show ?case using rendered by (fastforce simp: key_ok_def key_render_def)
next
  case (asked i s)
  then show ?case by (auto simp: key_ok_def fetchChannelKey_def Let_def split: option.splits)
next
  case (answered n s answer)
  have "kp_flights s ! n \<in> set (kp_flights s)" using answered(1) by simp
  moreover have "set (take n (kp_flights s) @ drop (Suc n) (kp_flights s)) \<subseteq> set (kp_flights s)"
    by (auto dest: in_set_takeD in_set_dropD)
  ultimately show ?case using answered(2)
    by (auto simp: key_ok_def key_answered_def Let_def split: option.splits)
qed (auto simp: key_ok_def key_effect_def key_unmount_def)

section \<open>Invariants of runs\<close>

locale kept_by =
  fixes step :: "'s \<Rightarrow> 's \<Rightarrow> bool" and inv :: "'s \<Rightarrow> bool"
  assumes keeps: "step s s' \<Longrightarrow> inv s \<Longrightarrow> inv s'"
begin

lemma always: "step\<^sup>*\<^sup>* s s' \<Longrightarrow> inv s \<Longrightarrow> inv s'"
  by (induction rule: rtranclp_induct) (auto intro: keeps)

end

interpretation permissions: kept_by "drawer_step url proxy" "\<lambda>s. list_all permitted (dw_log s)" for url proxy
  by unfold_locales (rule step_permitted)

interpretation questions: kept_by "drawer_step url proxy" "drawer_ok url proxy" for url proxy
  by unfold_locales (rule drawer_step_ok)

interpretation keys: kept_by key_step key_ok
  by unfold_locales (rule key_step_ok)

end
