(* ===== verification/Drawer_Properties.thy ===== *)
theory Drawer_Properties
  imports Drawer_Facts
begin

text \<open>
  Properties of the form and of the drawer of channels: what is saved, what is read back, what is sent and for whom, and which key is shown.
\<close>

section \<open>Concrete inputs\<close>

text \<open>A new form over stored settings with a member the form does not know, a channel whose secrets are hidden, and the drawer it is opened in.\<close>

definition demo_form :: channel_form where
  "demo_form = CHANNEL_FORM_DEFAULT_VALUES\<lparr>fv_name := ''demo'', fv_models := ''m'', fv_key := ''k'',
     fv_settings := Some (json_text (JObj [(''kept'', JBool True)]))\<rparr>"

definition demo_channel :: channel_detail where
  "demo_channel = \<lparr>cd_id = Fin 7, cd_type = Fin 1, cd_name = ''demo'', cd_status = Fin 1, cd_base_url = None, cd_base_url_redacted = Some True,
     cd_proxy_configured = Some True, cd_advanced_custom_configured = Some True, cd_openai_organization = None, cd_models = ''m'',
     cd_group = ''default'', cd_model_mapping = None, cd_priority = None, cd_weight = None, cd_test_model = None, cd_auto_ban = None,
     cd_status_code_mapping = None, cd_tag = None, cd_remark = [], cd_setting = None, cd_param_override = None, cd_header_override = None,
     cd_settings = json_text (JObj [(''kept'', JBool True)]), cd_other = [], cd_is_multi_key = False, cd_multi_key_mode = []\<rparr>"

definition demo_drawer :: drawer where
  "demo_drawer = load_form (handleOpenChange True
     ((drawer_init (Some (JObj [(''role'', JNum (Fin 10))])) None)\<lparr>dw_row := Some (Fin 7), dw_detail := Some demo_channel\<rparr>))"

definition demo_owner :: key_owner where
  "demo_owner = \<lparr>ko_open = True, ko_channelId = Some (Fin 7), ko_userId = JNum (Fin 1), ko_canRevealChannelKey = True, ko_canViewSecrets = True\<rparr>"

definition demo_risky :: channel_form where
  "demo_risky = (dw_form demo_drawer)\<lparr>fv_status_code_mapping := Some (json_text (JObj [(''504'', JStr ''200'')]))\<rparr>"

lemma demo_form_accepted:
  "channelFormSchema (\<lambda>_. None) (\<lambda>_. None) demo_form" "typed_routes demo_form" "parsed_settings demo_form = JObj [(''kept'', JBool True)]"
  by code_simp+

lemma demo_drawer_accepted:
  "channelFormSchema (\<lambda>_. None) (\<lambda>_. None) (dw_form demo_drawer)" "typed_routes (dw_form demo_drawer)"
  "parsed_settings (dw_form demo_drawer) = JObj [(''kept'', JBool True)]"
  by code_simp+

lemma demo_drawer_opened: "(drawer_step url proxy)\<^sup>*\<^sup>* (drawer_init (Some (JObj [(''role'', JNum (Fin 10))])) None) demo_drawer"
proof -
  let ?s = "drawer_init (Some (JObj [(''role'', JNum (Fin 10))])) None"
  let ?t = "?s\<lparr>dw_row := Some (Fin 7), dw_detail := Some demo_channel\<rparr>"
  have "drawer_step url proxy ?s ?t" "drawer_step url proxy ?t (handleOpenChange True ?t)"
    "drawer_step url proxy (handleOpenChange True ?t) demo_drawer" unfolding demo_drawer_def by (rule drawer_step.intros)+
  then show ?thesis by (meson rtranclp.rtrancl_into_rtrancl rtranclp.rtrancl_refl)
qed

section \<open>Settings\<close>

text \<open>The settings a form writes follow a plan.  For a form the schema accepts, \<open>buildSettingsJSON\<close> always builds a text, which is
  read back as an object; each member the plan of the form's type names is written, or removed, as planned, and every other member of
  the stored settings stays as it is.\<close>

theorem settings_follow_plan:
  assumes "channelFormSchema url proxy f" "typed_routes f" "plain_numbers (parsed_settings f)"
  shows "\<exists>kvs settings kvs' project. parsed_settings f = JObj kvs \<and> vertex_project f = Inr project \<and>
    buildSettingsJSON f = Inr settings \<and> json_read settings = Some (JObj kvs') \<and>
    (\<forall>k. map_of kvs' k = (case map_of (settings_plan f project (map_of kvs)) k of None \<Rightarrow> map_of kvs k | Some x \<Rightarrow> x))"
proof -
  obtain kvs where kvs: "parsed_settings f = JObj kvs" "good_object kvs"
    using parsed_object [OF accepted_form(4) [OF assms(1,2)] assms(3)] .
  have acc: "accepted_settings url f" by (rule accepted_form(3) [OF assms(1,2)])
  obtain project where p: "vertex_project f = Inr project"
    "project = (if fv_type f = Fin 41 then js_trim (text_of (ss_vertex_project_id (fv_special f))) else [])"
    using project_typed acc by (simp add: accepted_settings_def)
  have "map_of (written_settings f project kvs) k =
      (case map_of (settings_plan f project (map_of kvs)) k of None \<Rightarrow> map_of kvs k | Some x \<Rightarrow> x)" for k
    unfolding written_map by (rule carry_out_lookup [OF plan_keys_distinct])
  then show ?thesis using kvs(1) p(1) settings_written [OF acc kvs p(2)] by blast
qed

theorem settings_follow_plan_witness:
  "\<exists>settings kvs'. buildSettingsJSON demo_form = Inr settings \<and> json_read settings = Some (JObj kvs') \<and>
    map_of kvs' ''kept'' = Some (JBool True) \<and> map_of kvs' ''disable_store'' = Some (JBool False) \<and> map_of kvs' ''aws_key_type'' = None"
proof -
  have "plain_numbers (parsed_settings demo_form)" by (simp add: demo_form_accepted)
  note w = settings_follow_plan [OF demo_form_accepted(1,2) this]
  then obtain settings kvs' project where k: "vertex_project demo_form = Inr project" "buildSettingsJSON demo_form = Inr settings"
    "json_read settings = Some (JObj kvs')" "\<And>k. map_of kvs' k = (case map_of (settings_plan demo_form project (map_of [(''kept'', JBool True)])) k of
       None \<Rightarrow> map_of [(''kept'', JBool True)] k | Some x \<Rightarrow> x)"
    unfolding demo_form_accepted(3) by auto
  moreover have "vertex_project demo_form = Inr []" by code_simp
  ultimately have p: "project = []" by simp
  have "(case map_of (settings_plan demo_form [] (map_of [(''kept'', JBool True)])) ''kept'' of None \<Rightarrow> map_of [(''kept'', JBool True)] ''kept'' | Some x \<Rightarrow> x) = Some (JBool True)"
    "(case map_of (settings_plan demo_form [] (map_of [(''kept'', JBool True)])) ''disable_store'' of None \<Rightarrow> map_of [(''kept'', JBool True)] ''disable_store'' | Some x \<Rightarrow> x) = Some (JBool False)"
    "(case map_of (settings_plan demo_form [] (map_of [(''kept'', JBool True)])) ''aws_key_type'' of None \<Rightarrow> map_of [(''kept'', JBool True)] ''aws_key_type'' | Some x \<Rightarrow> x) = None"
    by code_simp+
  then have "map_of kvs' ''kept'' = Some (JBool True)" "map_of kvs' ''disable_store'' = Some (JBool False)" "map_of kvs' ''aws_key_type'' = None"
    using k(4) unfolding p by presburger+
  then show ?thesis using k(2,3) by blast
qed



section \<open>Secrets\<close>

text \<open>What the user may not see is never overwritten: when the base URL, the proxy and the routes of a channel are hidden from the user and
  none of them is edited, saving the channel sends no base URL, no key, no parameter and no header override, and the settings it
  sends name neither the proxy nor the routes.  The request is always made.\<close>

theorem unseen_secrets_kept:
  assumes "dw_open s" "dw_row s = Some i" "dw_detail s = Some c" "cd_base_url_redacted c = Some True"
    "cd_proxy_configured c = Some True" "\<not> jtruthy (xs_proxy (extra_of (cd_setting c)))"
    "cd_advanced_custom_configured c = Some True" "coalesce (ss_advanced_custom (special_of (cd_settings c))) [] = []"
    "fv_preserve_hidden_base_url f = fv_preserve_hidden_base_url (dw_form (load_form s))"
    "fv_preserve_hidden_proxy f = fv_preserve_hidden_proxy (dw_form (load_form s))"
    "fv_preserve_hidden_advanced_custom f = fv_preserve_hidden_advanced_custom (dw_form (load_form s))" "js_trim (fv_key f) = []"
    "channelFormSchema url proxy f" "typed_routes f" "plain_numbers (parsed_settings f)"
  shows "\<exists>body. request_of f (load_form s) = Inr (UpdateRequest body) \<and>
    fst ` set body \<inter> {''key'', ''base_url'', ''param_override'', ''header_override''} = {} \<and>
    (\<forall>t. (''setting'', JStr t) \<in> set body \<longrightarrow> (\<exists>kvs. json_read t = Some (JObj kvs) \<and> ''proxy'' \<notin> fst ` set kvs)) \<and>
    (\<forall>t. (''settings'', JStr t) \<in> set body \<longrightarrow> (\<exists>kvs. json_read t = Some (JObj kvs) \<and> ''advanced_custom'' \<notin> fst ` set kvs))"
proof -
  have h: "fv_preserve_hidden_base_url f = Some True" "fv_preserve_hidden_proxy f = Some True" "fv_preserve_hidden_advanced_custom f = Some True"
    using assms(1-11) by (simp_all add: load_form_def transformChannelToFormDefaults_def Let_def)
  have s: "dw_row (load_form s) = Some i" "dw_edited (load_form s) = []" using assms(1-3) by (simp_all add: load_form_def Let_def)
  note hs = hidden_settings [OF assms(13-15)]
  obtain a b where ab: "buildSettingJSON f = Inr a" "buildSettingsJSON f = Inr b" using hs h(2,3) by blast
  obtain data where data: "update_data (canEditSensitive (load_form s)) (isMultiKeyChannel (load_form s)) [] f i = Inr data"
    by (simp add: update_data_def transformFormDataToUpdatePayload_def ab Let_def)
  then have r: "request_of f (load_form s) = Inr (UpdateRequest (updateChannel i data))" by (simp add: request_of_def s)
  note k = update_data_keys [OF data]
  have "fst ` set (updateChannel i data) \<inter> {''key'', ''base_url'', ''param_override'', ''header_override''} = {}"
  proof -
    have "''param_override'' \<notin> fst ` set data" "''header_override'' \<notin> fst ` set data" using k(3,4) by fastforce+
    then show ?thesis unfolding updateChannel_keys using k(2) [OF assms(12)] k(5) [OF h(1)] by simp
  qed
  moreover have "buildSettingJSON f = Inr t" if "(''setting'', JStr t) \<in> set (updateChannel i data)" for t
    by (rule update_settings [OF data that disjI1 [OF refl]]) (rule payload_settings(1))
  moreover have "buildSettingsJSON f = Inr t" if "(''settings'', JStr t) \<in> set (updateChannel i data)" for t
    by (rule update_settings [OF data that disjI2 [OF refl]]) (rule payload_settings(2))
  ultimately show ?thesis using r hs h(2,3) by (intro exI [of _ "updateChannel i data"]) (metis sum.inject(2))
qed

theorem unseen_secrets_kept_witness:
  "\<exists>body. request_of (dw_form demo_drawer) demo_drawer = Inr (UpdateRequest body) \<and>
    fst ` set body \<inter> {''key'', ''base_url'', ''param_override'', ''header_override''} = {}"
proof -
  let ?s = "handleOpenChange True ((drawer_init (Some (JObj [(''role'', JNum (Fin 10))])) None)\<lparr>dw_row := Some (Fin 7), dw_detail := Some demo_channel\<rparr>)"
  have s: "load_form ?s = demo_drawer" by (simp add: demo_drawer_def)
  have "dw_open ?s" "dw_row ?s = Some (Fin 7)" "dw_detail ?s = Some demo_channel" by (simp_all add: handleOpenChange_def)
  moreover have "cd_base_url_redacted demo_channel = Some True" "cd_proxy_configured demo_channel = Some True"
    "\<not> jtruthy (xs_proxy (extra_of (cd_setting demo_channel)))" "cd_advanced_custom_configured demo_channel = Some True"
    "coalesce (ss_advanced_custom (special_of (cd_settings demo_channel))) [] = []" "js_trim (fv_key (dw_form demo_drawer)) = []"
    by code_simp+
  moreover have "plain_numbers (parsed_settings (dw_form demo_drawer))" by (simp add: demo_drawer_accepted)
  ultimately show ?thesis
    using unseen_secrets_kept [where s = ?s and f = "dw_form demo_drawer", unfolded s, OF _ _ _ _ _ _ _ _ refl refl refl _ demo_drawer_accepted(1,2)]
    by blast
qed

section \<open>Requests\<close>

text \<open>C34. Whatever happens in the drawer and in whatever order, an update never carries a sensitive field unless the user may write them when it is
  sent; it carries a key only if one was typed, an override only if it was edited, and no base URL while that is hidden.\<close>

theorem requests_are_permitted:
  assumes "(drawer_step url proxy)\<^sup>*\<^sup>* (drawer_init user row) s" "Sent f u edited (UpdateRequest body) \<in> set (dw_log s)"
  shows "(\<not> hasPermission u ''channel'' ''sensitive_write'' \<longrightarrow> fst ` set body \<inter> set SENSITIVE_UPDATE_FIELDS = {}) \<and>
    (js_trim (fv_key f) = [] \<longrightarrow> ''key'' \<notin> fst ` set body) \<and>
    (''param_override'' \<in> fst ` set body \<longrightarrow> ''param_override'' \<in> set edited) \<and>
    (''header_override'' \<in> fst ` set body \<longrightarrow> ''header_override'' \<in> set edited) \<and>
    (fv_preserve_hidden_base_url f = Some True \<longrightarrow> ''base_url'' \<notin> fst ` set body)"
proof -
  have "list_all permitted (dw_log s)" by (rule permissions.always [OF assms(1)]) (simp add: drawer_init_def)
  then have "permitted (Sent f u edited (UpdateRequest body))" using assms(2) by (simp only: list_all_iff)
  then show ?thesis by (simp add: permitted_def)
qed

theorem requests_are_permitted_witness:
  "\<exists>f u body. Sent f u [] (UpdateRequest body) \<in> set (dw_log (onSubmit (dw_form demo_drawer) demo_drawer)) \<and>
    \<not> hasPermission u ''channel'' ''sensitive_write'' \<and> fst ` set body \<inter> set SENSITIVE_UPDATE_FIELDS = {}"
proof -
  let ?s = "onSubmit (dw_form demo_drawer) demo_drawer"
  have run: "(drawer_step (\<lambda>_. None) (\<lambda>_. None))\<^sup>*\<^sup>* (drawer_init (Some (JObj [(''role'', JNum (Fin 10))])) None) ?s"
    using demo_drawer_opened drawer_step.submitted [OF demo_drawer_accepted(1)] by (rule rtranclp.rtrancl_into_rtrancl)
  have "\<not> hasPermission (dw_user demo_drawer) ''channel'' ''sensitive_write''" by code_simp
  moreover have "list_ex (\<lambda>e. case e of Sent f u edited (UpdateRequest body) \<Rightarrow> u = dw_user demo_drawer \<and> edited = [] | _ \<Rightarrow> False) (dw_log ?s)"
    by code_simp
  then obtain e where e: "e \<in> set (dw_log ?s)"
      "case e of Sent f u edited (UpdateRequest body) \<Rightarrow> u = dw_user demo_drawer \<and> edited = [] | _ \<Rightarrow> False"
    unfolding list_ex_iff by blast
  from e(2) obtain f body where "e = Sent f (dw_user demo_drawer) [] (UpdateRequest body)"
    by (cases e; simp split: channel_request.split_asm)
  ultimately show ?thesis using requests_are_permitted [OF run] e(1) by blast
qed

text \<open>C35. Nothing is sent that was not submitted, accepted and confirmed: before every request the log has the submission of its form, up to the models
  added on request; the schema accepted it; its mapping of status codes has no invalid entry; and if it redirects a risky code in a way the
  loaded channel did not, these redirects were confirmed.\<close>

theorem risks_are_confirmed:
  assumes "(drawer_step url proxy)\<^sup>*\<^sup>* (drawer_init user row) s" "i < length (dw_log s)" "dw_log s ! i = Sent f u edited r"
  shows "\<exists>f0 original models. Submitted f0 original \<in> set (take i (dw_log s)) \<and> f = f0\<lparr>fv_models := models\<rparr> \<and>
    channelFormSchema url proxy f0 \<and> collectInvalidStatusCodeEntries (status_mapping f) = [] \<and>
    (collectNewDisallowedStatusCodeRedirects original (status_mapping f) \<noteq> [] \<longrightarrow>
      RiskConfirmed (collectNewDisallowedStatusCodeRedirects original (status_mapping f)) \<in> set (take i (dw_log s)))"
proof -
  have "drawer_ok url proxy s" by (rule questions.always [OF assms(1)]) (simp add: drawer_ok_def drawer_init_def)
  then have "guarded url proxy (dw_log s)" by (simp add: drawer_ok_def)
  then show ?thesis using assms(2,3) unfolding guarded_def cleared_def by fastforce
qed

theorem risks_are_confirmed_witness:
  "\<exists>f u edited r. dw_log (handleStatusCodeRiskAction True (onSubmit demo_risky (demo_drawer\<lparr>dw_form := demo_risky, dw_dirty := []\<rparr>))) ! 3 =
       Sent f u edited r \<and>
     RiskConfirmed [(504, 200)] \<in> set (take 3 (dw_log (handleStatusCodeRiskAction True (onSubmit demo_risky (demo_drawer\<lparr>dw_form := demo_risky, dw_dirty := []\<rparr>)))))"
proof -
  let ?t = "demo_drawer\<lparr>dw_form := demo_risky, dw_dirty := []\<rparr>"
  let ?s = "handleStatusCodeRiskAction True (onSubmit demo_risky ?t)"
  let ?step = "drawer_step (\<lambda>_. None) (\<lambda>_. None)"
  have ok: "channelFormSchema (\<lambda>_. None) (\<lambda>_. None) demo_risky" by code_simp
  have "?step demo_drawer ?t" "?step (onSubmit demo_risky ?t) ?s" by (rule drawer_step.intros)+
  moreover have "?step ?t (onSubmit demo_risky ?t)" using drawer_step.submitted [of "\<lambda>_. None" "\<lambda>_. None" ?t] ok by simp
  ultimately have run: "?step\<^sup>*\<^sup>* (drawer_init (Some (JObj [(''role'', JNum (Fin 10))])) None) ?s"
    using demo_drawer_opened by (meson rtranclp.rtrancl_into_rtrancl)
  have "length (dw_log ?s) = 4" by code_simp
  moreover have "case dw_log ?s ! 3 of Sent f u edited r \<Rightarrow> f = demo_risky | _ \<Rightarrow> False" by code_simp
  then obtain u edited r where sent: "dw_log ?s ! 3 = Sent demo_risky u edited r" by (auto split: drawer_event.split_asm)
  ultimately obtain f0 original where f0: "Submitted f0 original \<in> set (take 3 (dw_log ?s))"
    "collectNewDisallowedStatusCodeRedirects original (status_mapping demo_risky) \<noteq> [] \<longrightarrow>
      RiskConfirmed (collectNewDisallowedStatusCodeRedirects original (status_mapping demo_risky)) \<in> set (take 3 (dw_log ?s))"
    using risks_are_confirmed [OF run, of 3] by fastforce
  have "list_all (\<lambda>e. case e of Submitted _ t \<Rightarrow> t = [] | _ \<Rightarrow> True) (take 3 (dw_log ?s))" by code_simp
  then have "original = []" using f0(1) unfolding list_all_iff by fastforce
  moreover have "collectNewDisallowedStatusCodeRedirects [] (status_mapping demo_risky) = [(504, 200)]" by code_simp
  ultimately show ?thesis using f0(2) sent by auto
qed

section \<open>The key\<close>

text \<open>A key is shown only in the open drawer of the channel it was fetched for, to the user it was fetched for, and only while that user may
  reveal it: an answer that arrives after any of these has changed is not shown.\<close>

theorem shown_key_is_current:
  assumes "key_step\<^sup>*\<^sup>* (key_init owner) s" "channelKey s = Some v"
  shows "(keyOwner s, v) \<in> set (kp_answers s) \<and> kp_owners s ! keyOwner s = last (kp_owners s) \<and>
    ko_open (last (kp_owners s)) \<and> ko_canRevealChannelKey (last (kp_owners s)) \<and> ko_channelId (last (kp_owners s)) \<noteq> None"
proof -
  have ok: "key_ok s" by (rule keys.always [OF assms(1)]) (simp add: key_ok_def key_init_def)
  have v: "(keyOwner s, v) \<in> set (kp_answers s)" using ok assms(2) by (auto simp: key_ok_def channelKey_def split: option.splits if_splits)
  moreover have "kp_owners s ! keyOwner s = last (kp_owners s)" using ok by (simp add: keyOwner_def last_conv_nth key_ok_def)
  ultimately show ?thesis using ok unfolding key_ok_def by fastforce
qed

theorem shown_key_is_current_witness:
  "channelKey (key_answered 0 (Some ''sk'') (fetchChannelKey 0 (key_init demo_owner))) = Some ''sk'' \<and>
    ko_canRevealChannelKey (last (kp_owners (key_answered 0 (Some ''sk'') (fetchChannelKey 0 (key_init demo_owner)))))"
proof -
  let ?t = "fetchChannelKey 0 (key_init demo_owner)"
  have "0 < length (kp_owners (key_init demo_owner))" "0 < length (kp_flights ?t)" by code_simp+
  then have "key_step (key_init demo_owner) ?t" "key_step ?t (key_answered 0 (Some ''sk'') ?t)" by (simp_all only: key_step.asked key_step.answered)
  then have run: "key_step\<^sup>*\<^sup>* (key_init demo_owner) (key_answered 0 (Some ''sk'') ?t)" by (meson rtranclp.rtrancl_into_rtrancl rtranclp.rtrancl_refl)
  have "channelKey (key_answered 0 (Some ''sk'') ?t) = Some ''sk''" by code_simp
  then show ?thesis using shown_key_is_current [OF run] by blast
qed

end
