(* ===== verification/Spec2Isabelle.thy ===== *)
theory Spec2Isabelle
  imports Pricing_Properties Session_Properties Chat_Properties Storage_Properties Channel_Properties Flow_Properties Flow_Sankey Route_Properties Sync_Properties Override_Properties Drawer_Properties
begin

text \<open>
  \<^bold>\<open>Verification of the LemonHub web console.\<close>

  LemonHub is a gateway to language models: a server in Go relays requests to upstream channels and bills
  them, and a web console in TypeScript (\<open>web/src\<close>) administers it and offers a chat playground.  This
  development models the parts of the console that compute, decide or keep state.  Every definition that
  translates code carries the name it has there; auxiliary definitions name a loop, a callback or a type
  that has no name of its own.

  \<^bold>\<open>The language.\<close>
  \<^item> \<open>JS_Prelude\<close>: strings, arrays and ordered objects of JavaScript, exceptions as a sum type.  A string is
    a list of Latin-1 code units: characters beyond 255 do not occur in the model.
  \<^item> \<open>JS_Number\<close>: binary64 numbers as rationals with NaN, infinities and the negative zero; every operation
    rounds to nearest, ties to even.  \<open>Number(text)\<close> and \<open>String(number)\<close> with the shortest digits.
  \<^item> \<open>JS_Number_Text\<close>: seventeen digits tell any two numbers apart, hence the text of a finite number is read as that
    number; the negative zero, written as \<open>0\<close>, is the only exception.
  \<^item> \<open>JS_Json\<close>, \<open>JS_Json_Text\<close>, \<open>JS_Json_Pretty\<close>: values, \<open>JSON.stringify\<close> without and with indentation, and \<open>JSON.parse\<close>.  The parser takes fuel, one
    unit per nested value and twice the length of the text plus two in all; that this is enough is part
    of the proof that it reads back what is written.
  \<^item> \<open>JS_Json_Order\<close>: the order of the keys of a parsed object, in which index keys come first.
  \<^item> \<open>JS_Regex\<close>: regular expressions by the backtracking semantics of the language, with captures, lazy
    repetition and back-references.  A repetition takes at most one turn per character, since a turn that
    consumes nothing ends it.

  \<^bold>\<open>Pricing expressions\<close> (\<open>features/pricing/lib\<close>).  An administrator writes the price of a model as an
  expression over token counts with tiers and with multipliers for requests.
  \<^item> \<open>Billing_Syntax\<close>: the registry of variables, the tokenizer and the recursive-descent parser of
    \<open>billing-expr.ts\<close>; the depth limit of 128 is that of the code.
  \<^item> \<open>Pricing_Grammar\<close>: the grammar of the language, level by level over whole sequences of tokens.  The parser returns only trees of
    the grammar and finds every tree unless it runs into its depth limit, which takes more than 42 tokens.
  \<^item> \<open>Billing_Tiers\<close>, \<open>Linear_Price_Exact\<close>: linear prices, the conditions read from guards, the tiers that are
    shown, the quota type.  Conditions hold exactly when the guard evaluates so; the linear price is the
    function the interpreter computes as long as the arithmetic is exact.
  \<^item> \<open>Request_Rules\<close>, \<open>Rule_Roundtrip\<close>: the text of request multipliers, parsed by patterns and built again.
    Canonical conditions round-trip; a multiplier is never built without its restrictions.
  \<^item> \<open>Billing_Time\<close>: time zones; \<open>Intl.DateTimeFormat\<close> is a parameter.
  \<^item> \<open>Pricing_Evaluator\<close>: type checker and evaluator of \<open>pricing-evaluator.ts\<close>; the environment may have
    effects, which are a state passed through.
  \<^item> \<open>Tier_Expr\<close>: the tier editor and the estimator of \<open>tier-expr.ts\<close>, refined from a specification without its
    cache of clock parts.
  \<^item> \<open>Pricing_Properties\<close>: their properties.

  \<^bold>\<open>Sessions and requests\<close> (\<open>stores\<close>, \<open>lib\<close>).
  \<^item> \<open>Auth_Store\<close>, \<open>Auth_Session\<close>: the store, the validation of the server's bundles, rotation, sign-out and the
    refresh of the access token.  The asynchronous refresh is cut at its awaits: a tab is a record with the
    phase its refresh is in, and \<open>tab_step\<close> is the relation of all that can happen to it, in any order.
    \<open>Auth_Facts\<close> has the contract of the refresh with the application as a locale, interpreted on the tab.
  \<^item> \<open>Auth_Sync\<close>: the events between the tabs of a browser over the broadcast channel or, without one, over
    \<open>localStorage\<close>, and the page that listens (\<open>routes/__root.tsx\<close>).
  \<^item> \<open>Http_Client\<close>, \<open>Http_Facts\<close>: the sharing of identical requests and the interceptors of \<open>http-client.ts\<close>.
  \<^item> \<open>Session_Properties\<close>: the store is consistent in every reachable state (the form for the second factor, which
    does not validate the answer it applies, is the one way to an unusable session), a superseded refresh changes nothing, a
    refresh ends after at most eight answers, a request is sent at most twice.

  \<^bold>\<open>The playground\<close> (\<open>features/playground\<close>).
  \<^item> \<open>Chat_Messages\<close>: messages with their versions, thoughts in tags, timing, edits.
  \<^item> \<open>Chat_Stream\<close>: the event source controller, the chat handler and the conversation as one state with a handler
    per event.  The updaters given to React wait in a queue until the next rendering, in order.
    \<open>Chat_Facts\<close> and \<open>Chat_Invariant\<close> have the assembly of streams and the invariant.
  \<^item> \<open>Chat_Storage\<close>: the schema, the limits and the keys of the stored conversation over the browser's storage;
    \<open>Storage_Facts\<close> shows how they are written and read.
  \<^item> \<open>Chat_State\<close>: the stored settings and the page of \<open>use-playground-state.ts\<close>, a machine with the queue of updaters,
    the timer that loads, the timer that saves and the clean-up when the page is left.
  \<^item> \<open>Chat_Properties\<close>, \<open>Storage_Properties\<close>: a completed stream leaves exactly its text, stale events are ignored, a
    saved conversation loads unchanged, accounts do not see one another, a page reopens as it was left.

  \<^bold>\<open>Channels\<close> (\<open>features/channels/lib\<close>, \<open>lib/http-status-code-rules.ts\<close>).
  \<^item> \<open>Status_Codes\<close>: rules over status codes, merged into a normal form, and risky redirects.
  \<^item> \<open>Channel_Models\<close>: model lists, model mappings, updates of the upstream, order by priority.
  \<^item> \<open>Channel_Order\<close>: the gesture of \<open>use-channel-priority-order.ts\<close>: its snapshot, previews, commit, undo and
    cancellation as a step relation in which the answers of the server arrive at any time.
  \<^item> \<open>Channel_Properties\<close>: their properties.
  \<^item> \<open>Custom_Routes\<close>: the routes of an advanced custom channel (\<open>advanced-custom.ts\<close>): templates, normalization, text,
    validation and edits.  The fields of a route are JavaScript values, since the code casts what it has parsed; \<open>typed_config\<close> is
    the declared type.  The constructor \<open>new URL\<close> is the parameter \<open>url_parser\<close>.  \<open>Custom_Route_Facts\<close> and
    \<open>Route_Properties\<close> show that validation is exact and that the text of a configuration reads back as its normal form.
  \<^item> \<open>Override_Modes\<close>, \<open>Override_Rules\<close>: the rules that rewrite a request on its way to a channel
    (\<open>param-override-editor-dialog.tsx\<close>): modes, templates, conditions, the forms for custom errors and for pruning,
    validation, the text that is saved and its reading.  Local identifiers come from a counter and the clock, which are
    threaded through.  Objects keep the key order of the language (\<open>js_order\<close>); objects with a \<open>toString\<close> of their own do
    not occur in texts and are left out.
  \<^item> \<open>Override_Editor\<close>: the state of the dialog and every handler, joined in the step relation \<open>editor_step\<close>.  React may run
    the updater of a handler at once or at the next rendering; where the handler reads a variable the updater sets, a flag of
    the step says which.  Messages shown, texts saved and the closing are a log; messages are a datatype, their
    translation is not modelled.
  \<^item> \<open>Override_Facts\<close>: the supply of identifiers as a locale, the invariant of the dialog, drops.  \<open>Override_Text\<close>: what is saved
    opens again.  \<open>Override_Drafts\<close>: the two forms against their texts.  \<open>Override_Properties\<close>: the properties.

  \<^item> \<open>Channel_Form\<close>: the form of a channel (\<open>channel-form.ts\<close>): schema, defaults, the form made of a channel, the two texts of
    settings and the payloads.  The schema library is modelled by the checks the schema names; \<open>new URL\<close> and the parser of
    proxy addresses are parameters.  \<open>Channel_Form_Facts\<close>, \<open>Channel_Settings_Facts\<close> and \<open>Channel_Save_Facts\<close> state what is written as
    a plan of members and read it back.
  \<^item> \<open>Channel_Drawer\<close>: the drawer that edits a channel (\<open>channel-mutate-drawer.tsx\<close>, \<open>use-channel-mutate-form.ts\<close>): loading, edits,
    the submission with its questions about risky redirects and missing models, the request sent for the permissions of the user, and
    the panel that shows the key.  The submission is cut at its awaits, with one slot per question; submissions, answers, requests
    and messages are a log.  \<open>Drawer_Facts\<close> has the invariants as interpretations of one locale, \<open>Drawer_Properties\<close> the
    properties: what is saved opens again, secrets that are not shown are not overwritten, requests are permitted and confirmed, a
    stale key is never shown.

  \<^bold>\<open>Price synchronisation\<close> (\<open>features/system-settings/models\<close>).  Prices of upstream servers are compared with the local ones, and
  the administrator chooses what to take over.
  \<^item> \<open>Ratio_Sync\<close>: the choice and its removal, the bulk selection of the table, conflicts, what is written.
  \<^item> \<open>Sync_Facts\<close>, \<open>Sync_Properties\<close>: exactly the chosen values are written, a model is billed either by price or by ratio,
    and without a question nothing is removed of a model that is billed one way.

  \<^bold>\<open>The flow chart of the dashboard\<close> (\<open>features/dashboard/lib/flow.ts\<close>).  Rows of usage become a chart of flows
  from users over tokens, groups and models to channels.
  \<^item> \<open>Flow_Graph\<close>: paths, filters, the limit of nodes per column, masking, highlights, nodes and links.  Collation,
    colour schemes, the format of numbers and the mask text are fields of the environment \<open>flow_env\<close>.
  \<^item> \<open>Flow_Facts\<close>: tables that accumulate amounts, as a locale interpreted on the nodes and on the links.
  \<^item> \<open>Flow_Sankey\<close>: the data handed to the chart and the reading of the nodes its callbacks report.
  \<^item> \<open>Flow_Properties\<close>: what enters a node leaves it, a column keeps its limit, masked names do not appear.

  \<^bold>\<open>Parameters.\<close>  The clock, random identifiers, \<open>Intl\<close>, translation, the browser's storage and locks, the transport
  of requests and the scheduling of React are arguments or events.  Where a property needs something of them, it is a
  hypothesis, and the witness gives a concrete instance.

  \<^bold>\<open>Not modelled.\<close>  The server in Go; React components, whose content is the layout of pages; the clients of the
  server's interface (\<open>api.ts\<close> files), which only name a path; translations; generated routes; the desktop shell.
  Of the modelled parts: the CSS classes of messages, the static part of the specification of the chart, and the pointer
  handling of a drag (\<open>use-channel-priority-drag.ts\<close>), which is geometry and animation.
\<close>

end
